(* ===== verification/Ehub_Prelude.thy ===== *)
theory Ehub_Prelude
  imports Main "HOL-Library.Word" "HOL-Library.Monad_Syntax"
begin

unbundle bit_operations_syntax

text \<open>
  Shared vocabulary of the development: the machine integers of the driver (u8, u16, u32,
  u64), the Linux error numbers it returns, little-endian byte buffers with checked
  accesses, C bit-fields, the rounding macros, and kernel lists (\<open>struct list_head\<close>) as
  HOL lists of node addresses.

  A checked access is \<^const>\<open>None\<close> where the C access would leave its object: the models
  of the components use \<^const>\<open>None\<close> as the outcome of a memory fault (an access out of
  bounds, or through a NULL or freed pointer), so that the absence of faults is a statement
  that has to be proved.
\<close>

section \<open>Types and error numbers\<close>

type_synonym u8 = "8 word"
type_synonym u16 = "16 word"
type_synonym u32 = "32 word"
type_synonym u64 = "64 word"

text \<open>Addresses of heap objects (URB contexts, work items, cache work contexts).\<close>

type_synonym addr = nat

abbreviation (input) ENODEV :: int where "ENODEV \<equiv> 19"
abbreviation (input) ENOMEM :: int where "ENOMEM \<equiv> 12"
abbreviation (input) EINVAL :: int where "EINVAL \<equiv> 22"
abbreviation (input) EAGAIN :: int where "EAGAIN \<equiv> 11"
abbreviation (input) ETIMEDOUT :: int where "ETIMEDOUT \<equiv> 110"
abbreviation (input) ESHUTDOWN :: int where "ESHUTDOWN \<equiv> 108"
abbreviation (input) ENOBUFS :: int where "ENOBUFS \<equiv> 105"

named_theorems ehub_defs \<open>definitions of the driver's operations, unfolded together\<close>
named_theorems frame \<open>what an operation leaves unchanged\<close>

section \<open>Options\<close>

lemma bind_eq_SomeE:
  assumes "Option.bind m f = Some r"
  obtains x where "m = Some x" and "f x = Some r"
  using assms by (auto simp: Option.bind_eq_Some_conv)

lemma bind_not_None [simp]:
  "Option.bind m f \<noteq> None \<longleftrightarrow> (\<exists>x. m = Some x \<and> f x \<noteq> None)"
  by (cases m) auto

section \<open>Byte buffers\<close>

text \<open>Little-endian layout of a 32-bit value.\<close>

definition le32 :: "u32 \<Rightarrow> u8 list" where
  "le32 w = [ucast w, ucast (drop_bit 8 w), ucast (drop_bit 16 w), ucast (drop_bit 24 w)]"

definition of_le32 :: "u8 list \<Rightarrow> u32" where
  "of_le32 bs = ucast (bs ! 0) OR push_bit 8 (ucast (bs ! 1))
     OR push_bit 16 (ucast (bs ! 2)) OR push_bit 24 (ucast (bs ! 3))"

lemma length_le32 [simp]: "length (le32 w) = 4"
  by (simp add: le32_def)

lemma of_le32_le32 [simp]: "of_le32 (le32 w @ bs) = w"
proof (rule bit_word_eqI)
  fix n assume "n < LENGTH(32)"
  then consider "n < 8" | "8 \<le> n" "n < 16" | "16 \<le> n" "n < 24" | "24 \<le> n" "n < 32"
    by fastforce
  then show "bit (of_le32 (le32 w @ bs)) n \<longleftrightarrow> bit w n"
    by cases (auto simp: of_le32_def le32_def bit_simps)
qed

lemma of_le32_le32' [simp]: "of_le32 (le32 w) = w"
  using of_le32_le32 [of w "[]"] by simp

text \<open>Reading and writing inside a buffer; an access that does not fit is a fault.\<close>

definition read32 :: "u8 list \<Rightarrow> nat \<Rightarrow> u32 option" where
  "read32 bs off = (if off + 4 \<le> length bs then Some (of_le32 (take 4 (drop off bs))) else None)"

definition read_bytes :: "u8 list \<Rightarrow> nat \<Rightarrow> nat \<Rightarrow> u8 list option" where
  "read_bytes bs off n = (if off + n \<le> length bs then Some (take n (drop off bs)) else None)"

definition write_bytes :: "u8 list \<Rightarrow> nat \<Rightarrow> u8 list \<Rightarrow> u8 list option" where
  "write_bytes bs off xs =
     (if off + length xs \<le> length bs
      then Some (take off bs @ xs @ drop (off + length xs) bs) else None)"

definition write32 :: "u8 list \<Rightarrow> nat \<Rightarrow> u32 \<Rightarrow> u8 list option" where
  "write32 bs off w = write_bytes bs off (le32 w)"

lemma write_bytes_length: "write_bytes bs off xs = Some bs' \<Longrightarrow> length bs' = length bs"
  by (auto simp: write_bytes_def split: if_splits)

lemma write_bytes_Some_iff [simp]:
  "(\<exists>bs'. write_bytes bs off xs = Some bs') \<longleftrightarrow> off + length xs \<le> length bs"
  by (simp add: write_bytes_def)

lemma write_bytes_None_iff [simp]:
  "write_bytes bs off xs = None \<longleftrightarrow> length bs < off + length xs"
  by (auto simp: write_bytes_def)

lemma write32_length: "write32 bs off w = Some bs' \<Longrightarrow> length bs' = length bs"
  by (auto simp: write32_def dest: write_bytes_length)

lemma write32_None_iff [simp]: "write32 bs off w = None \<longleftrightarrow> length bs < off + 4"
  by (simp add: write32_def)

lemma read_bytes_write_bytes:
  assumes "write_bytes bs off xs = Some bs'"
  shows "read_bytes bs' off (length xs) = Some xs"
  using assms by (auto simp: write_bytes_def read_bytes_def min_def split: if_splits)

lemma read32_write32:
  assumes "write32 bs off w = Some bs'"
  shows "read32 bs' off = Some w"
proof -
  have "read_bytes bs' off (length (le32 w)) = Some (le32 w)"
    using assms unfolding write32_def by (rule read_bytes_write_bytes)
  then show ?thesis
    by (auto simp: read_bytes_def read32_def split: if_splits)
qed

text \<open>An access outside the written range sees the old bytes.\<close>

lemma nth_write_bytes:
  assumes "write_bytes bs off xs = Some bs'" and "i < length bs"
  shows "bs' ! i = (if off \<le> i \<and> i < off + length xs then xs ! (i - off) else bs ! i)"
  using assms by (auto simp: write_bytes_def nth_append min_def split: if_splits)

lemma read_bytes_write_bytes_other:
  assumes w: "write_bytes bs off xs = Some bs'"
    and disj: "a + n \<le> off \<or> off + length xs \<le> a"
  shows "read_bytes bs' a n = read_bytes bs a n"
proof (cases "a + n \<le> length bs")
  case True
  have len: "length bs' = length bs" by (rule write_bytes_length [OF w])
  have "take n (drop a bs') = take n (drop a bs)"
  proof (rule nth_equalityI)
    fix i assume "i < length (take n (drop a bs'))"
    then show "take n (drop a bs') ! i = take n (drop a bs) ! i"
      using True len disj by (auto simp: nth_write_bytes [OF w])
  qed (simp add: len)
  then show ?thesis by (simp add: read_bytes_def len)
qed (simp add: read_bytes_def write_bytes_length [OF w])

lemma read32_read_bytes: "read32 bs off = map_option of_le32 (read_bytes bs off 4)"
  by (simp add: read32_def read_bytes_def)

lemma read32_write32_other:
  assumes "write32 bs off w = Some bs'" and "a + 4 \<le> off \<or> off + 4 \<le> a"
  shows "read32 bs' a = read32 bs a"
  using assms read_bytes_write_bytes_other [of bs off "le32 w" bs' a 4]
  by (simp add: read32_read_bytes write32_def)

lemma read32_append1:
  "off + 4 \<le> length xs \<Longrightarrow> read32 (xs @ ys) off = read32 xs off"
  by (simp add: read32_def)

lemma read32_append2:
  "length xs \<le> off \<Longrightarrow> read32 (xs @ ys) off = read32 ys (off - length xs)"
  by (auto simp: read32_def)

section \<open>C bit-fields\<close>

text \<open>
  A bit-field is given by the position of its least significant bit and its width; gcc
  allocates the fields of a little-endian target from the least significant bit up.
\<close>

type_synonym field = "nat \<times> nat"

definition get_field :: "field \<Rightarrow> 'a::len word \<Rightarrow> 'a word" where
  "get_field f x = take_bit (snd f) (drop_bit (fst f) x)"

definition set_field :: "field \<Rightarrow> 'a::len word \<Rightarrow> 'a word \<Rightarrow> 'a word" where
  "set_field f v x =
     (x AND NOT (push_bit (fst f) (mask (snd f)))) OR push_bit (fst f) (take_bit (snd f) v)"

text \<open>Assigning a field truncates the value to its width and leaves every other bit.\<close>

lemma bit_set_field:
  "bit (set_field f v x) i \<longleftrightarrow> i < LENGTH('a) \<and>
     (if fst f \<le> i \<and> i < fst f + snd f then bit v (i - fst f) else bit x i)"
  for x v :: "'a::len word"
  by (auto simp: set_field_def bit_simps)

lemma bit_get_field:
  "bit (get_field f x) i \<longleftrightarrow> i < snd f \<and> bit x (fst f + i)"
  for x :: "'a::len word"
  by (auto simp: get_field_def bit_simps dest: bit_imp_le_length)

lemma get_set_field:
  fixes x v :: "'a::len word"
  assumes "fst f + snd f \<le> LENGTH('a)"
  shows "get_field f (set_field f v x) = take_bit (snd f) v"
  using assms by (intro bit_word_eqI) (auto simp: bit_set_field bit_get_field bit_simps)

lemma get_set_field_other:
  fixes x v :: "'a::len word"
  assumes "fst g + snd g \<le> fst f \<or> fst f + snd f \<le> fst g"
  shows "get_field g (set_field f v x) = get_field g x"
  using assms
  by (intro bit_word_eqI) (auto simp: bit_set_field bit_get_field dest: bit_imp_le_length)

section \<open>Rounding\<close>

text \<open>The kernel's \<open>roundup(x, y)\<close> and \<open>DIV_ROUND_UP(n, d)\<close> on non-negative values.\<close>

definition roundup :: "nat \<Rightarrow> nat \<Rightarrow> nat" where
  "roundup x y = ((x + (y - 1)) div y) * y"

definition DIV_ROUND_UP :: "nat \<Rightarrow> nat \<Rightarrow> nat" where
  "DIV_ROUND_UP n d = (n + d - 1) div d"

lemma roundup_bounds:
  assumes "0 < y"
  shows "x \<le> roundup x y" and "roundup x y < x + y"
proof -
  let ?n = "x + (y - 1)"
  have "?n div y * y + ?n mod y = ?n" by simp
  moreover have "?n mod y < y" using assms by simp
  ultimately show "x \<le> roundup x y" and "roundup x y < x + y"
    using assms unfolding roundup_def by linarith+
qed

lemma roundup_dvd: "y dvd roundup x y"
  by (simp add: roundup_def)

lemma roundup_exact:
  assumes "0 < y" and "y dvd x"
  shows "roundup x y = x"
proof -
  obtain k where k: "x = y * k" using assms(2) by blast
  have "(y * k + (y - 1)) div y = k"
    using assms(1) by (simp only: div_mult_self4) simp
  then show ?thesis by (simp add: roundup_def k mult.commute)
qed

section \<open>Kernel lists\<close>

text \<open>
  A \<open>struct list_head\<close> is the list of the addresses of its nodes. A node is linked into at
  most one list, so moving it removes it from the list it is on.
\<close>

definition list_add_tail :: "'a \<Rightarrow> 'a list \<Rightarrow> 'a list" where
  "list_add_tail x xs = xs @ [x]"

definition list_del :: "'a \<Rightarrow> 'a list \<Rightarrow> 'a list" where
  "list_del x xs = remove1 x xs"

lemma set_list_add_tail [simp]: "set (list_add_tail x xs) = insert x (set xs)"
  by (auto simp: list_add_tail_def)

lemma length_list_add_tail [simp]: "length (list_add_tail x xs) = Suc (length xs)"
  by (simp add: list_add_tail_def)

lemma distinct_list_add_tail [simp]: "distinct (list_add_tail x xs) \<longleftrightarrow> x \<notin> set xs \<and> distinct xs"
  by (auto simp: list_add_tail_def)

lemma set_list_del [simp]: "distinct xs \<Longrightarrow> set (list_del x xs) = set xs - {x}"
  by (simp add: list_del_def)

lemma distinct_list_del [simp]: "distinct xs \<Longrightarrow> distinct (list_del x xs)"
  by (simp add: list_del_def)

lemma length_list_del: "x \<in> set xs \<Longrightarrow> length (list_del x xs) = length xs - 1"
  by (simp add: list_del_def length_remove1)

lemma int_length_list_del:
  "x \<in> set xs \<Longrightarrow> int (length (list_del x xs)) = int (length xs) - 1"
  by (cases xs) (auto simp: length_list_del)

lemma list_del_notin [simp]: "x \<notin> set xs \<Longrightarrow> list_del x xs = xs"
  by (simp add: list_del_def remove1_idem)

lemma list_del_hd [simp]: "list_del x (x # xs) = xs"
  by (simp add: list_del_def)

end
