(* ===== verification/Ehub_Control_Register.thy ===== *)
theory Ehub_Control_Register
  imports Ehub_Prelude
begin

text \<open>
  Registers of the FL6000 that are reached with vendor requests on the control endpoint
  (\<open>ehub_register.c\<close>). The control transfer itself, \<open>usb_control_msg\<close>, belongs to the USB
  core and the device: it is an argument of the operations, a function of the request, the
  data stage and a device state of any type, returning the status and the data stage after
  the transfer.
\<close>

section \<open>Operations\<close>

datatype transfer_direction = REGISTER_READ | REGISTER_WRITE

record control_request =
  bRequest :: u8
  bRequestType :: u8
  wValue :: u16
  wIndex :: u16

type_synonym 'd control_msg = "control_request \<Rightarrow> u8 list \<Rightarrow> 'd \<Rightarrow> (int \<times> u8 list) \<times> 'd"

definition CONTROL_ENDPOINT_I2C_CMD_READ :: u8 where "CONTROL_ENDPOINT_I2C_CMD_READ = 64"
definition CONTROL_ENDPOINT_I2C_CMD_WRITE :: u8 where "CONTROL_ENDPOINT_I2C_CMD_WRITE = 65"
definition USB_DIR_IN_VENDOR :: u8 where "USB_DIR_IN_VENDOR = 0x80 OR 0x40"
definition USB_DIR_OUT_VENDOR :: u8 where "USB_DIR_OUT_VENDOR = 0x00 OR 0x40"

text \<open>
  \<open>mem\<close> says whether the four byte buffer could be allocated; a NULL buffer is written
  without a check, which is a fault. The result is the status and the value of \<open>*Data\<close>.
\<close>

definition REGISTER_Transfer ::
  "'d control_msg \<Rightarrow> bool \<Rightarrow> transfer_direction \<Rightarrow> u32 \<Rightarrow> u32 \<Rightarrow> 'd \<Rightarrow> ((int \<times> u32) \<times> 'd) option" where
  "REGISTER_Transfer usb_control_msg mem dir Offset Data d =
     (if \<not> mem then None
      else
        let (req, typ, dataBuffer) =
              (case dir of
                 REGISTER_READ \<Rightarrow> (CONTROL_ENDPOINT_I2C_CMD_READ, USB_DIR_IN_VENDOR, replicate 4 0)
               | REGISTER_WRITE \<Rightarrow> (CONTROL_ENDPOINT_I2C_CMD_WRITE, USB_DIR_OUT_VENDOR, le32 Data));
            ((status, dataBuffer'), d') = usb_control_msg
              \<lparr>bRequest = req, bRequestType = typ, wValue = 0, wIndex = ucast Offset\<rparr> dataBuffer d
        in Some ((status, if 0 < status \<and> dir = REGISTER_READ then of_le32 dataBuffer' else Data), d'))"

definition REGISTER_Write ::
  "'d control_msg \<Rightarrow> bool \<Rightarrow> u32 \<Rightarrow> u32 \<Rightarrow> 'd \<Rightarrow> ((int \<times> u32) \<times> 'd) option" where
  "REGISTER_Write m mem Offset Data d = REGISTER_Transfer m mem REGISTER_WRITE Offset Data d"

definition REGISTER_Read ::
  "'d control_msg \<Rightarrow> bool \<Rightarrow> u32 \<Rightarrow> 'd \<Rightarrow> ((int \<times> u32) \<times> 'd) option" where
  "REGISTER_Read m mem Offset d = REGISTER_Transfer m mem REGISTER_READ Offset 0 d"

text \<open>Both operations leave early only when the status is zero. A bit number of 32 or more
  is a shift with no defined result.\<close>

definition REGISTER_SetBit ::
  "'d control_msg \<Rightarrow> bool \<times> bool \<Rightarrow> u32 \<Rightarrow> nat \<Rightarrow> 'd \<Rightarrow> 'd option" where
  "REGISTER_SetBit m mem Offset BitOffset d = do {
     ((status, data), d1) \<leftarrow> REGISTER_Read m (fst mem) Offset d;
     if status = 0 then Some d1
     else if 32 \<le> BitOffset then None
     else map_option snd
       (REGISTER_Write m (snd mem) Offset (data OR push_bit BitOffset 1) d1)
   }"

definition REGISTER_ClearBit ::
  "'d control_msg \<Rightarrow> bool \<times> bool \<Rightarrow> u32 \<Rightarrow> nat \<Rightarrow> 'd \<Rightarrow> 'd option" where
  "REGISTER_ClearBit m mem Offset BitOffset d = do {
     ((status, data), d1) \<leftarrow> REGISTER_Read m (fst mem) Offset d;
     if status = 0 then Some d1
     else if 32 \<le> BitOffset then None
     else map_option snd
       (REGISTER_Write m (snd mem) Offset (data AND NOT (push_bit BitOffset 1)) d1)
   }"

section \<open>A device with a register file\<close>

text \<open>
  What the operations rely on: a successful control transfer returns the number of bytes of
  its data stage, a vendor read returns the register in the data stage and leaves the device
  alone, a vendor write replaces that register and no other. \<open>regs\<close> reads the register
  file off the device state.
\<close>

definition register_file :: "'d control_msg \<Rightarrow> ('d \<Rightarrow> u16 \<Rightarrow> u32) \<Rightarrow> bool" where
  "register_file m regs \<longleftrightarrow>
     (\<forall>i buf d. m \<lparr>bRequest = CONTROL_ENDPOINT_I2C_CMD_READ, bRequestType = USB_DIR_IN_VENDOR,
         wValue = 0, wIndex = i\<rparr> buf d = ((4, le32 (regs d i)), d))
   \<and> (\<forall>i v d. \<exists>buf d'. m \<lparr>bRequest = CONTROL_ENDPOINT_I2C_CMD_WRITE,
         bRequestType = USB_DIR_OUT_VENDOR, wValue = 0, wIndex = i\<rparr> (le32 v) d = ((4, buf), d')
       \<and> regs d' = (regs d)(i := v))"

lemma Read_register_file:
  assumes "register_file m regs"
  shows "REGISTER_Read m True off d = Some ((4, regs d (ucast off)), d)"
  using assms by (simp add: register_file_def REGISTER_Read_def REGISTER_Transfer_def)

lemma Write_register_file:
  assumes "register_file m regs"
  shows "\<exists>d'. REGISTER_Write m True off v d = Some ((4, v), d') \<and> regs d' = (regs d)(ucast off := v)"
proof -
  obtain buf d' where "m \<lparr>bRequest = CONTROL_ENDPOINT_I2C_CMD_WRITE,
      bRequestType = USB_DIR_OUT_VENDOR, wValue = 0, wIndex = ucast off\<rparr> (le32 v) d = ((4, buf), d')"
    and "regs d' = (regs d)(ucast off := v)"
    using assms unfolding register_file_def by blast
  then show ?thesis by (simp add: REGISTER_Write_def REGISTER_Transfer_def)
qed

text \<open>A device whose state is its register file.\<close>

definition demo_control :: "(u16 \<Rightarrow> u32) control_msg" where
  "demo_control r buf d =
     (if bRequest r = CONTROL_ENDPOINT_I2C_CMD_READ then ((4, le32 (d (wIndex r))), d)
      else ((4, buf), d(wIndex r := of_le32 buf)))"

lemma demo_control_register_file: "register_file demo_control (\<lambda>d. d)"
  by (auto simp: register_file_def demo_control_def CONTROL_ENDPOINT_I2C_CMD_READ_def
      CONTROL_ENDPOINT_I2C_CMD_WRITE_def)

section \<open>Properties\<close>

text \<open>
  On a device that keeps a register file, setting and clearing a bit change exactly that
  bit of the register whose number is the low sixteen bits of the offset; every other bit
  and every other register keeps its value.
\<close>

theorem SetBit_ClearBit_correct:
  assumes "register_file m regs" and "b < 32"
  shows "\<exists>d1 d2. REGISTER_SetBit m (True, True) off b d = Some d1
     \<and> REGISTER_ClearBit m (True, True) off b d = Some d2
     \<and> (\<forall>i j. bit (regs d1 i) j = (i = ucast off \<and> j = b \<or> bit (regs d i) j))
     \<and> (\<forall>i j. bit (regs d2 i) j = (\<not> (i = ucast off \<and> j = b) \<and> bit (regs d i) j))"
proof -
  let ?v = "regs d (ucast off)"
  obtain d1 where d1: "REGISTER_Write m True off (?v OR push_bit b 1) d
      = Some ((4, ?v OR push_bit b 1), d1)" "regs d1 = (regs d)(ucast off := ?v OR push_bit b 1)"
    using Write_register_file [OF assms(1)] by blast
  obtain d2 where d2: "REGISTER_Write m True off (?v AND NOT (push_bit b 1)) d
      = Some ((4, ?v AND NOT (push_bit b 1)), d2)"
      "regs d2 = (regs d)(ucast off := ?v AND NOT (push_bit b 1))"
    using Write_register_file [OF assms(1)] by blast
  have "bit (push_bit b (1 :: u32)) j \<longleftrightarrow> j = b" for j
    using assms(2) by (auto simp: bit_simps)
  then have bits: "bit (regs d1 i) j = (i = ucast off \<and> j = b \<or> bit (regs d i) j)"
    "bit (regs d2 i) j = (\<not> (i = ucast off \<and> j = b) \<and> bit (regs d i) j)" for i j
    using d1(2) d2(2) bit_imp_le_length [of "?v" j]
    by (cases "i = ucast off"; simp add: bit_or_iff bit_and_iff bit_not_iff; blast)+
  have "REGISTER_SetBit m (True, True) off b d = Some d1"
    and "REGISTER_ClearBit m (True, True) off b d = Some d2"
    using d1(1) d2(1) assms
    by (simp_all add: REGISTER_SetBit_def REGISTER_ClearBit_def Read_register_file)
  with bits show ?thesis by auto
qed

theorem SetBit_ClearBit_correct_witness:
  "\<exists>d1 d2. REGISTER_SetBit demo_control (True, True) 0x10 3 (\<lambda>_. 0x81) = Some d1
     \<and> REGISTER_ClearBit demo_control (True, True) 0x10 0 (\<lambda>_. 0x81) = Some d2
     \<and> bit (d1 0x10) 3 \<and> \<not> bit (d2 0x10) 0"
  using SetBit_ClearBit_correct [OF demo_control_register_file, of 3 "0x10" "\<lambda>_. 0x81"]
    SetBit_ClearBit_correct [OF demo_control_register_file, of 0 "0x10" "\<lambda>_. 0x81"]
  by auto

text \<open>
  The failure of the read is not noticed: when the control transfer of the read fails
  with a negative status, setting a bit goes on with the value zero and writes a register in
  which every other bit is cleared.
\<close>

lemma SetBit_ignores_failed_read:
  assumes "b < 32" and "m \<lparr>bRequest = CONTROL_ENDPOINT_I2C_CMD_READ,
      bRequestType = USB_DIR_IN_VENDOR, wValue = 0, wIndex = ucast off\<rparr> (replicate 4 0) d
      = ((st, buf), d1)" and "st < 0"
  shows "REGISTER_SetBit m (True, True) off b d
     = map_option snd (REGISTER_Write m True off (push_bit b 1) d1)"
  using assms by (simp add: REGISTER_SetBit_def REGISTER_Read_def REGISTER_Transfer_def)

theorem SetBit_ignores_failed_read_witness:
  "\<exists>d. REGISTER_SetBit (\<lambda>r buf d. if bRequest r = CONTROL_ENDPOINT_I2C_CMD_READ
        then ((- ETIMEDOUT, buf), d) else demo_control r buf d) (True, True) 0x10 3 (\<lambda>_. 0x81)
      = Some d \<and> d 0x10 = 8"
proof -
  let ?m = "\<lambda>r buf d. if bRequest r = CONTROL_ENDPOINT_I2C_CMD_READ
        then ((- ETIMEDOUT, buf), d) else demo_control r buf d"
  have "REGISTER_SetBit ?m (True, True) 0x10 3 (\<lambda>_. 0x81)
      = map_option snd (REGISTER_Write ?m True 0x10 (push_bit 3 1) (\<lambda>_. 0x81))"
    by (rule SetBit_ignores_failed_read [where st = "- ETIMEDOUT" and buf = "replicate 4 0"]) simp_all
  then show ?thesis
    by (simp add: REGISTER_Write_def REGISTER_Transfer_def demo_control_def
        CONTROL_ENDPOINT_I2C_CMD_READ_def CONTROL_ENDPOINT_I2C_CMD_WRITE_def push_bit_eq_mult)
qed

end
