(* ===== verification/Ehub_State.thy ===== *)
theory Ehub_State
  imports Ehub_Prelude
begin

text \<open>
  The data model of the FL6000 layer: the structs of \<open>ehub_device_context.h\<close>, the URB
  fields the driver sets and reads, the cache blocks and cache work contexts of
  \<open>ehub_embedded_cache.h\<close> and \<open>xhci.h\<close>, and the part of \<open>struct xhci_hcd\<close> this layer
  owns. Objects that are allocated and freed live in explicit heaps (maps from addresses);
  a pointer is an address option, \<^const>\<open>None\<close> being NULL, and an address outside its heap
  is a freed object.

  The kernel below the driver is not part of the repository. Its calls are answered by a
  value of type \<open>env\<close>, a parameter of every operation that reaches it: each call consumes
  one tick of the state, and the answer of the n-th call is a function of n. Theorems hold
  for every such environment unless they name a hypothesis about it.
\<close>

section \<open>Constants of the driver\<close>

abbreviation (input) NUMBER_OF_MESSAGE_BULK :: nat where "NUMBER_OF_MESSAGE_BULK \<equiv> 8"
abbreviation (input) NUMBER_OF_MESSAGE_INTERRUPT :: nat where "NUMBER_OF_MESSAGE_INTERRUPT \<equiv> 8"
abbreviation (input) NUMBER_OF_MESSAGE_ISOCH :: nat where "NUMBER_OF_MESSAGE_ISOCH \<equiv> 6"
abbreviation (input) NUMBER_OF_MESSAGE_ISOCH_PKT :: nat where "NUMBER_OF_MESSAGE_ISOCH_PKT \<equiv> 16"
abbreviation (input) NUMBER_OF_MESSAGE_DOORBELL :: nat where "NUMBER_OF_MESSAGE_DOORBELL \<equiv> 32"

abbreviation (input) MESSAGE_DATA_BUFFER_SIZE_BULK :: nat where
  "MESSAGE_DATA_BUFFER_SIZE_BULK \<equiv> 8 * 1024"
abbreviation (input) MESSAGE_DATA_BUFFER_SIZE_INTERRUPT :: nat where
  "MESSAGE_DATA_BUFFER_SIZE_INTERRUPT \<equiv> 3 * 1024"
abbreviation (input) MESSAGE_DATA_BUFFER_SIZE_ISOCH :: nat where
  "MESSAGE_DATA_BUFFER_SIZE_ISOCH \<equiv> 6 * 1024"
abbreviation (input) MESSAGE_DATA_BUFFER_SIZE_CACHE :: nat where
  "MESSAGE_DATA_BUFFER_SIZE_CACHE \<equiv> 1024 * 3"

section \<open>USB core types\<close>

text \<open>Enumerations of the USB core that the driver compares with.\<close>

datatype usb_interface_condition =
  USB_INTERFACE_UNBOUND | USB_INTERFACE_BINDING | USB_INTERFACE_BOUND | USB_INTERFACE_UNBINDING

datatype usb_device_state =
  USB_STATE_NOTATTACHED | USB_STATE_ATTACHED | USB_STATE_POWERED | USB_STATE_DEFAULT
  | USB_STATE_ADDRESS | USB_STATE_CONFIGURED | USB_STATE_SUSPENDED

datatype pipe_type = PIPE_ISOCHRONOUS | PIPE_INTERRUPT | PIPE_CONTROL | PIPE_BULK

text \<open>A pipe: its type, whether it is an IN pipe, its endpoint; 0 before it is set up.\<close>

datatype usb_pipe = NoPipe | Pipe pipe_type bool nat

text \<open>The completion routines the driver installs, and what \<open>urb->context\<close> points to.\<close>

datatype completion_routine =
  URB_CompletionRoutine_GetMessage_ptr | URB_CompletionRoutine_Simple_ptr
  | URB_CompletionRoutine_Doorbell_ptr | URB_CompletionRoutine_Cache_ptr

datatype completion_context = UrbContextPtr addr | CacheWorkPtr addr

record iso_frame =
  pkt_offset :: nat
  pkt_length :: nat
  pkt_actual_length :: nat
  pkt_status :: int

record urb =
  urb_pipe :: usb_pipe
  urb_transfer_buffer_length :: nat
  urb_transfer_flags :: u32
  urb_complete :: completion_routine
  urb_context :: completion_context
  urb_interval :: int
  urb_number_of_packets :: nat
  urb_iso_frame_desc :: "iso_frame list"
  urb_status :: int
  urb_actual_length :: nat

section \<open>URB contexts, work items, cache blocks\<close>

datatype urb_context_status =
  URB_STATUS_NONE | URB_STATUS_FREE | URB_STATUS_SUBMITTED | URB_STATUS_COMPLETE
  | URB_STATUS_SUBMIT_ERROR

text \<open>
  \<open>uc_Event\<close> is the count of a \<open>struct completion\<close>. \<open>urb->transfer_buffer\<close> is always the
  context's \<open>DataBuffer\<close>, so the buffer is kept once.
\<close>

record URB_CONTEXT =
  uc_DeviceContextPvoid :: bool
  uc_Urb :: "urb option"
  uc_Event :: nat
  uc_DataBuffer :: "u8 list option"
  uc_DataBufferLength :: nat
  uc_UrbCompletionStatus :: int
  uc_ActualLength :: nat
  uc_Status :: urb_context_status

datatype work_item_process =
  WORK_ITEM_Process_MessageHandle_ptr | WORK_ITEM_Process_GenericBulkOutUrbSubmit_ptr
  | WORK_ITEM_Process_RegisterRead_ptr | WORK_ITEM_Process_EventTrb_ptr

record WORK_ITEM_CONTEXT =
  wi_DeviceContextPvoid :: bool
  wi_WorkItemProcess :: "work_item_process option"
  wi_DataBuffer :: "u8 list option"
  wi_DataBufferLength :: nat

record EHUB_CACHE_BLOCK =
  cb_urb :: "nat option"
  IndexOfBlock :: u32
  Address :: u32

text \<open>
  \<open>cw_DataBuffer\<close> is the data the pointer shows at the time of the call: the driver is built
  without \<open>USE_DELAYED_CACHE_MODE\<close> and copies it before the call returns.
\<close>

record cache_write_context =
  cw_UrbContext :: "addr option"
  cw_CacheAddress :: u32
  cw_DataBuffer :: "u8 list option"
  cw_DataBufferLength :: u32
  cw_TrbCycleState :: int
  cw_ring_doorbell :: bool
  cw_slot_id :: u32
  cw_ep_index :: u32
  cw_stream_id :: u32

text \<open>An xHCI TRB: four little-endian dwords.\<close>

datatype xhci_generic_trb = TRB u32 u32 u32 u32

fun trb_field :: "xhci_generic_trb \<Rightarrow> nat \<Rightarrow> u32" where
  "trb_field (TRB a b c d) i = (if i = 0 then a else if i = 1 then b else if i = 2 then c else d)"

section \<open>The device context and the controller\<close>

text \<open>The \<open>xhci_hcd\<close> pointer of the USB context: not yet set, valid, or freed by
  \<open>ehub_xhci_remove\<close> (which leaves the pointer in place).\<close>

datatype xhci_ptr = XhciNull | XhciLive | XhciFreed

record DEVICE_CONTEXT =
  InterfaceBackup :: "usb_interface_condition option"
  UsbDevice :: "usb_device_state option"
  xhci_hcd_ptr :: xhci_ptr
  UsbPipeBulkIn :: usb_pipe
  UsbPipeBulkOut :: usb_pipe
  UsbPipeInterruptIn :: usb_pipe
  UsbPipeInterruptOut :: usb_pipe
  UsbPipeIsochIn :: usb_pipe
  UsbPipeIsochOut :: usb_pipe
  UsbPipeCacheOut :: usb_pipe
  UsbPipeDoorbellOut :: usb_pipe
  IsUsbHcdInvalid :: bool
  MessageHandleEmbeddedMemoryReadCompletionLock :: bool
  EmbeddedRegisterLock :: nat
  SpinLockEmbeddedDoorbellWrite :: bool
  SpinLockWorkItemQueue :: bool
  doorbell_list_free :: "addr list"
  doorbell_list_busy :: "addr list"
  WorkItemProcessingQueue :: "addr list"
  WorkItemQueue :: "addr list option"
  NumberOfWorkItemInProcessingQueue :: int
  CompletionEventEmbeddedRegisterRead :: nat
  DataEmbeddedRegisterRead :: u32
  UrbContextEmbeddedRegisterRead :: "addr option"
  UrbContextEmbeddedRegisterWrite :: "addr option"
  UrbContextEmbeddedMemoryReadCompletion :: "addr option list"
  CurrentEmbeddedMemoryReadCompletionUrbContextIndex :: nat
  UrbContextMessageBulk :: "addr option list"
  UrbContextMessageInterrupt :: "addr option list"
  UrbContextMessageIsoch :: "addr option list"
  UrbContextAllocationError :: bool
  UsbAllocateUrbError :: bool
  UsbAllocateCoherentError :: bool
  EmbeddedRegisterError :: bool
  EmbeddedCacheWriteError :: bool
  IsEhubXhciInitReady :: bool
  last_uframe_cnt :: u32
  last_uframe_time :: int
  pending_uframe_time :: int
  stop_isoch_work_pending :: bool

text \<open>The fields of \<open>struct xhci_hcd\<close> that the FL6000 layer reads and writes.\<close>

record xhci_hcd = DEVICE_CONTEXT +
  xhc_state :: u32
  cmd_ring_state :: u32
  doorbell_array :: u32
  ep_state :: "u32 \<Rightarrow> u32 \<Rightarrow> u32"
  num_active_isoc_eps :: int
  isoch_in_running :: bool
  cache_list_lock :: bool
  cache_list_free :: "addr list"
  cache_list_used :: "addr list"
  number_of_caches_free :: int
  number_of_caches_used :: int
  ehub_cache_wq :: bool
  cache_queue_free :: "addr list"
  cache_queue_used :: "addr list"

text \<open>
  The heaps, the next fresh address, the number of kernel calls made, the log of the
  transfers the USB core accepted (pipe and bytes), which is what the device can see, the contexts
  whose URB the USB core holds (it takes one at an accepted submission and gives it up when the
  URB is killed or completes), and the log of the writes the driver made into kernel memory on the
  device's behalf.
\<close>

record ehub = xhci_hcd +
  urb_contexts :: "addr \<rightharpoonup> URB_CONTEXT"
  work_items :: "addr \<rightharpoonup> WORK_ITEM_CONTEXT"
  cache_blocks :: "addr \<rightharpoonup> EHUB_CACHE_BLOCK"
  cache_works :: "addr \<rightharpoonup> cache_write_context"
  next_addr :: addr
  tick :: nat
  usb_log :: "(usb_pipe \<times> u8 list) list"
  usb_pending :: "addr set"
  kernel_writes :: "(u64 \<times> u8 list) list"

text \<open>The outcome of an operation; \<^const>\<open>None\<close> is a memory fault or a self-deadlock.\<close>

type_synonym 'a outcome = "('a \<times> ehub) option"

section \<open>The environment\<close>

text \<open>
  Answers of the kernel to the n-th call: whether an allocation succeeds, the status of a
  URB submission, the address of a block of a DMA pool, whether a semaphore or mutex wait is interrupted, the result of waiting
  for a completion and the completion's count afterwards, the result and data of control
  messages and of the fault-safe kernel reads and writes (the data are the bytes that were
  copied, which are fewer than asked for when the read fails), the clock. \<open>other_contexts\<close> is
  what interrupts and other threads do to the state while the caller sleeps.
\<close>

record env =
  kzalloc :: "nat \<Rightarrow> bool"
  alloc_workqueue :: "nat \<Rightarrow> bool"
  usb_alloc_coherent :: "nat \<Rightarrow> bool"
  usb_alloc_urb :: "nat \<Rightarrow> bool"
  usb_submit_urb :: "nat \<Rightarrow> int"
  dma_pool_alloc :: "nat \<Rightarrow> u64 option"
  lock_interrupted :: "nat \<Rightarrow> bool"
  wait_for_completion :: "nat \<Rightarrow> nat \<Rightarrow> int \<times> nat"
  other_contexts :: "nat \<Rightarrow> ehub \<Rightarrow> ehub"
  probe_kernel_read :: "nat \<Rightarrow> u64 \<Rightarrow> nat \<Rightarrow> int \<times> u8 list"
  probe_kernel_write :: "nat \<Rightarrow> u64 \<Rightarrow> u8 list \<Rightarrow> int"
  ktime_get :: "nat \<Rightarrow> int"
  usb_set_interface :: "nat \<Rightarrow> int"
  usb_core_call :: "nat \<Rightarrow> int"

definition tick_up :: "ehub \<Rightarrow> ehub" where
  "tick_up s = s\<lparr>tick := Suc (tick s)\<rparr>"

section \<open>Pointers\<close>

text \<open>Dereferencing a URB context pointer, and writing the object it points to.\<close>

definition deref_urb :: "addr option \<Rightarrow> ehub \<Rightarrow> URB_CONTEXT option" where
  "deref_urb p s = Option.bind p (urb_contexts s)"

definition put_urb :: "addr \<Rightarrow> URB_CONTEXT \<Rightarrow> ehub \<Rightarrow> ehub" where
  "put_urb a c s = s\<lparr>urb_contexts := (urb_contexts s)(a \<mapsto> c)\<rparr>"

lemma deref_urb_simps [simp]:
  "deref_urb None s = None"
  "deref_urb (Some a) s = urb_contexts s a"
  by (simp_all add: deref_urb_def)

lemma put_urb_contexts [simp]: "urb_contexts (put_urb a c s) = (urb_contexts s)(a \<mapsto> c)"
  by (simp add: put_urb_def)

lemma tick_up_contexts [simp]: "urb_contexts (tick_up s) = urb_contexts s"
  by (simp add: tick_up_def)

section \<open>Spin locks\<close>

text \<open>A CPU that takes a spin lock it already holds never returns.\<close>

definition lock_cache_list :: "ehub \<Rightarrow> ehub option" where
  "lock_cache_list s = (if cache_list_lock s then None else Some (s\<lparr>cache_list_lock := True\<rparr>))"

definition unlock_cache_list :: "ehub \<Rightarrow> ehub" where
  "unlock_cache_list s = s\<lparr>cache_list_lock := False\<rparr>"

definition lock_doorbell :: "ehub \<Rightarrow> ehub option" where
  "lock_doorbell s = (if SpinLockEmbeddedDoorbellWrite s then None
     else Some (s\<lparr>SpinLockEmbeddedDoorbellWrite := True\<rparr>))"

definition unlock_doorbell :: "ehub \<Rightarrow> ehub" where
  "unlock_doorbell s = s\<lparr>SpinLockEmbeddedDoorbellWrite := False\<rparr>"

definition lock_work_item :: "ehub \<Rightarrow> ehub option" where
  "lock_work_item s = (if SpinLockWorkItemQueue s then None
     else Some (s\<lparr>SpinLockWorkItemQueue := True\<rparr>))"

definition unlock_work_item :: "ehub \<Rightarrow> ehub" where
  "unlock_work_item s = s\<lparr>SpinLockWorkItemQueue := False\<rparr>"

lemmas spin_defs = lock_cache_list_def unlock_cache_list_def lock_doorbell_def
  unlock_doorbell_def lock_work_item_def unlock_work_item_def

end
