(* ===== verification/Ehub_Device_Context.thy ===== *)
theory Ehub_Device_Context
  imports Ehub_State
begin

text \<open>
  Device context (\<open>ehub_device_context.c\<close>) and notifications (\<open>ehub_notification.c\<close>):
  creation and destruction of the context, the error check every entry point of the driver
  makes first, and waiting for, resetting and raising a completion. The error flags of the
  context are sticky: no operation of the driver clears one, so after the first failure of
  a register or cache transfer the error check fails for good.
\<close>

section \<open>Operations\<close>

definition XHCI_STATE_DYING :: u32 where "XHCI_STATE_DYING = 1"
definition XHCI_STATE_HALTED :: u32 where "XHCI_STATE_HALTED = 2"

text \<open>\<open>xhci_is_dying_safe\<close>: true when there is no controller yet; reading a freed controller
  is a fault.\<close>

definition xhci_is_dying_safe :: "ehub \<Rightarrow> bool option" where
  "xhci_is_dying_safe s =
     (case xhci_hcd_ptr s of
        XhciNull \<Rightarrow> Some True
      | XhciLive \<Rightarrow> Some (xhc_state s AND XHCI_STATE_DYING \<noteq> 0)
      | XhciFreed \<Rightarrow> None)"

definition IS_EMBEDDED_CACHE_WRITE_ERROR :: "ehub \<Rightarrow> bool" where
  "IS_EMBEDDED_CACHE_WRITE_ERROR s = EmbeddedCacheWriteError s"

definition interface_bound :: "ehub \<Rightarrow> bool" where
  "interface_bound s \<longleftrightarrow>
     InterfaceBackup s = Some USB_INTERFACE_BOUND \<or> InterfaceBackup s = Some USB_INTERFACE_BINDING"

definition DEVICECONTEXT_ErrorCheck :: "ehub option \<Rightarrow> int option" where
  "DEVICECONTEXT_ErrorCheck p =
     (case p of
        None \<Rightarrow> Some (- ENODEV)
      | Some s \<Rightarrow>
          if InterfaceBackup s = None then Some (- ENODEV)
          else if InterfaceBackup s \<noteq> Some USB_INTERFACE_BOUND
                \<and> InterfaceBackup s \<noteq> Some USB_INTERFACE_BINDING then Some (- ENODEV)
          else do {
            dying \<leftarrow> xhci_is_dying_safe s;
            if dying then Some (- ENODEV)
            else if IsUsbHcdInvalid s then Some (- ENODEV)
            else do {
              dev \<leftarrow> UsbDevice s;
              if dev = USB_STATE_NOTATTACHED then Some (- ENODEV)
              else if UrbContextAllocationError s then Some (- ENODEV)
              else if EmbeddedRegisterError s then Some (- ENODEV)
              else if IS_EMBEDDED_CACHE_WRITE_ERROR s then Some (- ENODEV)
              else Some 0
            }
          })"

text \<open>A zero-initialised device context, controller and heap.\<close>

definition zero_ehub :: "nat \<Rightarrow> ehub" where
  "zero_ehub n = \<lparr>
     InterfaceBackup = None, UsbDevice = None, xhci_hcd_ptr = XhciNull,
     UsbPipeBulkIn = NoPipe, UsbPipeBulkOut = NoPipe, UsbPipeInterruptIn = NoPipe,
     UsbPipeInterruptOut = NoPipe, UsbPipeIsochIn = NoPipe, UsbPipeIsochOut = NoPipe,
     UsbPipeCacheOut = NoPipe, UsbPipeDoorbellOut = NoPipe, IsUsbHcdInvalid = False,
     MessageHandleEmbeddedMemoryReadCompletionLock = False, EmbeddedRegisterLock = 0,
     SpinLockEmbeddedDoorbellWrite = False, SpinLockWorkItemQueue = False,
     doorbell_list_free = [], doorbell_list_busy = [], WorkItemProcessingQueue = [],
     WorkItemQueue = None, NumberOfWorkItemInProcessingQueue = 0,
     CompletionEventEmbeddedRegisterRead = 0, DataEmbeddedRegisterRead = 0,
     UrbContextEmbeddedRegisterRead = None, UrbContextEmbeddedRegisterWrite = None,
     UrbContextEmbeddedMemoryReadCompletion = replicate NUMBER_OF_MESSAGE_BULK None,
     CurrentEmbeddedMemoryReadCompletionUrbContextIndex = 0,
     UrbContextMessageBulk = replicate NUMBER_OF_MESSAGE_BULK None,
     UrbContextMessageInterrupt = replicate NUMBER_OF_MESSAGE_BULK None,
     UrbContextMessageIsoch = replicate NUMBER_OF_MESSAGE_ISOCH None,
     UrbContextAllocationError = False, UsbAllocateUrbError = False,
     UsbAllocateCoherentError = False, EmbeddedRegisterError = False,
     EmbeddedCacheWriteError = False, IsEhubXhciInitReady = False,
     last_uframe_cnt = 0, last_uframe_time = 0, pending_uframe_time = 0,
     stop_isoch_work_pending = False,
     xhc_state = 0, cmd_ring_state = 0, doorbell_array = 0, ep_state = (\<lambda>_ _. 0),
     num_active_isoc_eps = 0, isoch_in_running = False, cache_list_lock = False,
     cache_list_free = [], cache_list_used = [], number_of_caches_free = 0,
     number_of_caches_used = 0, ehub_cache_wq = False, cache_queue_free = [],
     cache_queue_used = [],
     urb_contexts = Map.empty, work_items = Map.empty, cache_blocks = Map.empty,
     cache_works = Map.empty, next_addr = 0, tick = n, usb_log = [], usb_pending = {},
     kernel_writes = [] \<rparr>"

text \<open>Creation at the n-th kernel call. When the work queue cannot be allocated the function
  returns NULL without freeing the context.\<close>

definition DEVICECONTEXT_Create :: "env \<Rightarrow> nat \<Rightarrow> ehub option" where
  "DEVICECONTEXT_Create k n =
     (if \<not> kzalloc k n then None
      else if \<not> alloc_workqueue k (Suc n) then None
      else Some ((zero_ehub (n + 2))\<lparr>
        WorkItemQueue := Some [],
        NumberOfWorkItemInProcessingQueue := 0,
        EmbeddedRegisterLock := 1\<rparr>))"

text \<open>Destruction returns the work queue that is torn down, if there still is one; the
  context itself is freed.\<close>

definition DEVICECONTEXT_Destroy :: "ehub \<Rightarrow> addr list option" where
  "DEVICECONTEXT_Destroy s = WorkItemQueue s"

section \<open>Notifications\<close>

text \<open>The completion a caller waits for: the event of a URB context, or the one that the
  register read response raises.\<close>

datatype notification_event = EventUrb addr | EventRegisterRead

fun event_count :: "notification_event \<Rightarrow> ehub \<Rightarrow> nat option" where
  "event_count (EventUrb a) s = map_option uc_Event (urb_contexts s a)"
| "event_count EventRegisterRead s = Some (CompletionEventEmbeddedRegisterRead s)"

fun set_event :: "notification_event \<Rightarrow> nat \<Rightarrow> ehub \<Rightarrow> ehub option" where
  "set_event (EventUrb a) c s =
     map_option (\<lambda>u. put_urb a (u\<lparr>uc_Event := c\<rparr>) s) (urb_contexts s a)"
| "set_event EventRegisterRead c s = Some (s\<lparr>CompletionEventEmbeddedRegisterRead := c\<rparr>)"

definition NOTIFICATION_Reset :: "notification_event \<Rightarrow> ehub \<Rightarrow> ehub option" where
  "NOTIFICATION_Reset ev s = set_event ev 0 s"

definition NOTIFICATION_Notify :: "notification_event \<Rightarrow> ehub \<Rightarrow> ehub option" where
  "NOTIFICATION_Notify ev s = do { c \<leftarrow> event_count ev s; set_event ev (Suc c) s }"

text \<open>While the caller sleeps the other contexts run; the wait then reports what the kernel
  says about the completion in the state they left.\<close>

definition NOTIFICATION_Wait :: "env \<Rightarrow> notification_event \<Rightarrow> ehub \<Rightarrow> int outcome" where
  "NOTIFICATION_Wait k ev s = do {
     status \<leftarrow> DEVICECONTEXT_ErrorCheck (Some s);
     if status < 0 then Some (- ESHUTDOWN, s)
     else do {
       let s1 = other_contexts k (tick s) (tick_up s);
       c \<leftarrow> event_count ev s1;
       let (waited, c') = wait_for_completion k (tick s) c;
       s2 \<leftarrow> set_event ev c' s1;
       Some (if waited > 0 then status else if waited = 0 then - ETIMEDOUT else - EINVAL, s2)
     }
   }"

section \<open>The error check\<close>

text \<open>The device is usable: bound, with a controller that is not dying, attached, and with no
  error recorded.\<close>

definition device_ok :: "ehub \<Rightarrow> bool" where
  "device_ok s \<longleftrightarrow> interface_bound s \<and> xhci_hcd_ptr s = XhciLive
     \<and> xhc_state s AND XHCI_STATE_DYING = 0 \<and> \<not> IsUsbHcdInvalid s
     \<and> (\<exists>d. UsbDevice s = Some d \<and> d \<noteq> USB_STATE_NOTATTACHED)
     \<and> \<not> UrbContextAllocationError s \<and> \<not> EmbeddedRegisterError s \<and> \<not> EmbeddedCacheWriteError s"

lemma ErrorCheck_ok [simp]: "device_ok s \<Longrightarrow> DEVICECONTEXT_ErrorCheck (Some s) = Some 0"
  by (auto simp: device_ok_def DEVICECONTEXT_ErrorCheck_def interface_bound_def
      xhci_is_dying_safe_def IS_EMBEDDED_CACHE_WRITE_ERROR_def)

lemma ErrorCheck_eq_0: "DEVICECONTEXT_ErrorCheck (Some s) = Some 0 \<longleftrightarrow> device_ok s"
  by (auto simp: device_ok_def DEVICECONTEXT_ErrorCheck_def interface_bound_def
      xhci_is_dying_safe_def IS_EMBEDDED_CACHE_WRITE_ERROR_def bind_eq_Some_conv
      split: xhci_ptr.splits if_splits)

lemma ErrorCheck_range:
  "DEVICECONTEXT_ErrorCheck p = Some st \<Longrightarrow> st = 0 \<or> st = - ENODEV"
  by (auto simp: DEVICECONTEXT_ErrorCheck_def bind_eq_Some_conv
      split: option.splits if_splits)

lemma ErrorCheck_cases:
  assumes "DEVICECONTEXT_ErrorCheck (Some s) = Some st"
  obtains "st = 0" and "device_ok s" | "st = - ENODEV" and "\<not> device_ok s"
  using assms ErrorCheck_range [OF assms] ErrorCheck_eq_0 [of s] by auto

lemma ErrorCheck_no_fault:
  assumes "xhci_hcd_ptr s \<noteq> XhciFreed" and "UsbDevice s \<noteq> None"
  shows "\<exists>st. DEVICECONTEXT_ErrorCheck (Some s) = Some st"
  using assms
  by (auto simp: DEVICECONTEXT_ErrorCheck_def xhci_is_dying_safe_def split: xhci_ptr.splits)

text \<open>Two states that agree on the fields the check reads give the same answer.\<close>

definition same_health :: "ehub \<Rightarrow> ehub \<Rightarrow> bool" where
  "same_health s t \<longleftrightarrow> InterfaceBackup t = InterfaceBackup s \<and> UsbDevice t = UsbDevice s
     \<and> xhci_hcd_ptr t = xhci_hcd_ptr s \<and> xhc_state t = xhc_state s
     \<and> IsUsbHcdInvalid t = IsUsbHcdInvalid s
     \<and> UrbContextAllocationError t = UrbContextAllocationError s
     \<and> EmbeddedRegisterError t = EmbeddedRegisterError s
     \<and> EmbeddedCacheWriteError t = EmbeddedCacheWriteError s"

lemma same_health_refl [simp]: "same_health s s"
  by (simp add: same_health_def)

lemma same_health_trans: "same_health s t \<Longrightarrow> same_health t u \<Longrightarrow> same_health s u"
  by (simp add: same_health_def)

lemma same_health_ok: "same_health s t \<Longrightarrow> device_ok t = device_ok s"
  by (simp add: same_health_def device_ok_def interface_bound_def)

lemma same_health_ErrorCheck:
  "same_health s t \<Longrightarrow> DEVICECONTEXT_ErrorCheck (Some t) = DEVICECONTEXT_ErrorCheck (Some s)"
  unfolding same_health_def DEVICECONTEXT_ErrorCheck_def xhci_is_dying_safe_def
    IS_EMBEDDED_CACHE_WRITE_ERROR_def
  by (elim conjE) (simp only: option.case cong: if_cong)

text \<open>The error flags of \<open>t\<close> include those of \<open>s\<close>.\<close>

definition flags_grow :: "ehub \<Rightarrow> ehub \<Rightarrow> bool" where
  "flags_grow s t \<longleftrightarrow>
     (UrbContextAllocationError s \<longrightarrow> UrbContextAllocationError t)
     \<and> (EmbeddedRegisterError s \<longrightarrow> EmbeddedRegisterError t)
     \<and> (EmbeddedCacheWriteError s \<longrightarrow> EmbeddedCacheWriteError t)"

lemma flags_grow_refl [simp]: "flags_grow s s"
  by (simp add: flags_grow_def)

lemma flags_grow_trans: "flags_grow s t \<Longrightarrow> flags_grow t u \<Longrightarrow> flags_grow s u"
  by (auto simp: flags_grow_def)

lemma same_health_flags_grow: "same_health s t \<Longrightarrow> flags_grow s t"
  by (simp add: same_health_def flags_grow_def)

lemma Wait_cases:
  assumes "NOTIFICATION_Wait k ev s = Some (st, t)"
  obtains
    (dead) "\<not> device_ok s" and "st = - ESHUTDOWN" and "t = s"
  | (woken) c waited c' s1 where "device_ok s"
      and "s1 = other_contexts k (tick s) (tick_up s)" and "event_count ev s1 = Some c"
      and "wait_for_completion k (tick s) c = (waited, c')" and "set_event ev c' s1 = Some t"
      and "st = (if waited > 0 then 0 else if waited = 0 then - ETIMEDOUT else - EINVAL)"
proof -
  from assms obtain e where e: "DEVICECONTEXT_ErrorCheck (Some s) = Some e"
    by (auto simp: NOTIFICATION_Wait_def elim: bind_eq_SomeE)
  from e show thesis
  proof (cases rule: ErrorCheck_cases)
    case 1
    let ?s1 = "other_contexts k (tick s) (tick_up s)"
    from assms e 1 obtain c where c: "event_count ev ?s1 = Some c"
      by (auto simp: NOTIFICATION_Wait_def Let_def elim: bind_eq_SomeE)
    obtain w c' where w: "wait_for_completion k (tick s) c = (w, c')" by fastforce
    show thesis
      by (rule woken [OF 1(2) refl c w])
        (use assms e 1 c w in \<open>auto simp: NOTIFICATION_Wait_def Let_def bind_eq_Some_conv\<close>)
  next
    case 2
    with assms e show thesis by (auto simp: NOTIFICATION_Wait_def intro!: dead)
  qed
qed

section \<open>A well-behaved environment\<close>

text \<open>An environment in which every allocation and submission succeeds, every wait ends by a
  completion and nobody interferes, and a device that is bound and ready: the concrete
  values at which the properties are instantiated.\<close>

definition quiet_env :: env where
  "quiet_env = \<lparr>kzalloc = (\<lambda>_. True), alloc_workqueue = (\<lambda>_. True),
     usb_alloc_coherent = (\<lambda>_. True), usb_alloc_urb = (\<lambda>_. True), usb_submit_urb = (\<lambda>_. 0),
     dma_pool_alloc = (\<lambda>_. Some 0x100000),
     lock_interrupted = (\<lambda>_. False), wait_for_completion = (\<lambda>_ c. (1, c - 1)),
     other_contexts = (\<lambda>_ s. s), probe_kernel_read = (\<lambda>_ _ n. (0, replicate n 0)),
     probe_kernel_write = (\<lambda>_ _ _. 0), ktime_get = (\<lambda>_. 0), usb_set_interface = (\<lambda>_. 0),
     usb_core_call = (\<lambda>_. 0)\<rparr>"

definition ready_ehub :: ehub where
  "ready_ehub = (zero_ehub 0)\<lparr>InterfaceBackup := Some USB_INTERFACE_BOUND,
     UsbDevice := Some USB_STATE_CONFIGURED, xhci_hcd_ptr := XhciLive,
     EmbeddedRegisterLock := 1, WorkItemQueue := Some []\<rparr>"

lemma ready_ehub_ok [simp]: "device_ok ready_ehub"
  by (simp add: ready_ehub_def zero_ehub_def device_ok_def interface_bound_def)

lemmas demo_defs = quiet_env_def ready_ehub_def zero_ehub_def

section \<open>Properties\<close>

text \<open>
  C20. The error check answers 0 exactly when the interface is bound or binding, the
  controller exists and is not dying, the USB device is attached and no allocation,
  register or cache write error was recorded; every other answer is -ENODEV, and it faults
  only through a freed controller or a missing USB device.
\<close>

theorem ErrorCheck_correct:
  "(DEVICECONTEXT_ErrorCheck (Some s) = Some 0 \<longleftrightarrow> device_ok s)
   \<and> DEVICECONTEXT_ErrorCheck None = Some (- ENODEV)
   \<and> (\<forall>st. DEVICECONTEXT_ErrorCheck (Some s) = Some st \<and> st \<noteq> 0 \<longrightarrow> st = - ENODEV)
   \<and> (DEVICECONTEXT_ErrorCheck (Some s) = None \<longrightarrow>
        interface_bound s \<and> (xhci_hcd_ptr s = XhciFreed \<or> UsbDevice s = None))"
proof (intro conjI)
  show "DEVICECONTEXT_ErrorCheck (Some s) = Some 0 \<longleftrightarrow> device_ok s"
    by (rule ErrorCheck_eq_0)
  show "\<forall>st. DEVICECONTEXT_ErrorCheck (Some s) = Some st \<and> st \<noteq> 0 \<longrightarrow> st = - ENODEV"
    using ErrorCheck_range by blast
  show "DEVICECONTEXT_ErrorCheck (Some s) = None \<longrightarrow>
        interface_bound s \<and> (xhci_hcd_ptr s = XhciFreed \<or> UsbDevice s = None)"
    by (auto simp: DEVICECONTEXT_ErrorCheck_def interface_bound_def xhci_is_dying_safe_def
        bind_eq_None_conv split: xhci_ptr.splits if_splits)
qed (simp add: DEVICECONTEXT_ErrorCheck_def)

theorem ErrorCheck_correct_witness:
  "DEVICECONTEXT_ErrorCheck (Some (ready_ehub\<lparr>EmbeddedRegisterError := True\<rparr>)) = Some (- ENODEV)
   \<and> DEVICECONTEXT_ErrorCheck (Some (ready_ehub\<lparr>xhci_hcd_ptr := XhciFreed\<rparr>)) = None"
proof -
  let ?s = "ready_ehub\<lparr>EmbeddedRegisterError := True\<rparr>"
  obtain st where "DEVICECONTEXT_ErrorCheck (Some ?s) = Some st"
    using ErrorCheck_no_fault [of ?s] by (auto simp: demo_defs)
  moreover have "\<not> device_ok ?s" by (simp add: device_ok_def)
  moreover have "DEVICECONTEXT_ErrorCheck (Some (ready_ehub\<lparr>xhci_hcd_ptr := XhciFreed\<rparr>)) = None"
    by (simp add: DEVICECONTEXT_ErrorCheck_def xhci_is_dying_safe_def demo_defs)
  ultimately show ?thesis using ErrorCheck_correct [of ?s] by auto
qed

end
