(* ===== verification/Ehub_Work_Item.thy ===== *)
theory Ehub_Work_Item
  imports Ehub_Device_Context
begin

text \<open>
  Work items (\<open>ehub_work_item.c\<close>): creation, submission to the ordered work queue and
  destruction. The processing routines, which need the message parser, are in
  \<open>Ehub_Work_Process\<close>. The processing list and its counter agree as long as items are
  submitted once and destroyed once.
\<close>

section \<open>Operations\<close>

text \<open>A failed allocation of the context is dereferenced: the assertion after it expands to
  nothing in a build without a debugger. A failed buffer allocation leaves a NULL buffer.\<close>

definition WORK_ITEM_Create :: "env \<Rightarrow> work_item_process \<Rightarrow> nat \<Rightarrow> ehub \<Rightarrow> addr outcome" where
  "WORK_ITEM_Create k fn len s =
     (if \<not> kzalloc k (tick s) then None
      else
        let s1 = tick_up s; a = next_addr s1;
            buf = (if kzalloc k (tick s1) then Some (replicate len 0) else None)
        in Some (a, (tick_up s1)\<lparr>next_addr := Suc a,
             work_items := (work_items s1)(a \<mapsto>
               \<lparr>wi_DeviceContextPvoid = True, wi_WorkItemProcess = Some fn,
                wi_DataBuffer = buf, wi_DataBufferLength = len\<rparr>)\<rparr>))"

text \<open>Deleting a node that was never linked follows the NULL pointers of its zeroed list
  head.\<close>

definition WORK_ITEM_Destroy :: "addr \<Rightarrow> ehub \<Rightarrow> ehub option" where
  "WORK_ITEM_Destroy a s = do {
     w \<leftarrow> work_items s a;
     if \<not> wi_DeviceContextPvoid w then Some s
     else do {
       s1 \<leftarrow> lock_work_item s;
       if a \<notin> set (WorkItemProcessingQueue s1) then None
       else Some (unlock_work_item (s1\<lparr>
         WorkItemProcessingQueue := list_del a (WorkItemProcessingQueue s1),
         NumberOfWorkItemInProcessingQueue := NumberOfWorkItemInProcessingQueue s1 - 1,
         work_items := (work_items s1)(a := None)\<rparr>))
     }
   }"

definition WORK_ITEM_Submit :: "addr \<Rightarrow> ehub \<Rightarrow> ehub option" where
  "WORK_ITEM_Submit a s = do {
     w \<leftarrow> work_items s a;
     if \<not> wi_DeviceContextPvoid w then Some s
     else do {
       s1 \<leftarrow> lock_work_item s;
       q \<leftarrow> WorkItemQueue s1;
       Some (unlock_work_item (s1\<lparr>
         WorkItemProcessingQueue := list_add_tail a (WorkItemProcessingQueue s1),
         NumberOfWorkItemInProcessingQueue := NumberOfWorkItemInProcessingQueue s1 + 1,
         WorkItemQueue := Some (list_add_tail a q)\<rparr>))
     }
   }"

section \<open>Invariant\<close>

text \<open>Every allocated work item is on the processing list exactly once, or is still being
  built by its creator (the set \<open>B\<close>); the counter is the length of the list.\<close>

definition work_items_inv :: "addr set \<Rightarrow> ehub \<Rightarrow> bool" where
  "work_items_inv B s \<longleftrightarrow> distinct (WorkItemProcessingQueue s)
     \<and> set (WorkItemProcessingQueue s) \<inter> B = {}
     \<and> set (WorkItemProcessingQueue s) \<union> B = dom (work_items s)
     \<and> NumberOfWorkItemInProcessingQueue s = int (length (WorkItemProcessingQueue s))
     \<and> (\<forall>a \<in> dom (work_items s). a < next_addr s)
     \<and> \<not> SpinLockWorkItemQueue s"

lemma work_items_inv_zero: "work_items_inv {} (zero_ehub n)"
  by (simp add: work_items_inv_def zero_ehub_def)

lemma Create_Some:
  assumes "WORK_ITEM_Create k fn len s = Some (a, t)"
  shows "a = next_addr s" and "kzalloc k (tick s)"
    and "t = s\<lparr>tick := Suc (Suc (tick s)), next_addr := Suc a,
           work_items := (work_items s)(a \<mapsto> \<lparr>wi_DeviceContextPvoid = True,
             wi_WorkItemProcess = Some fn,
             wi_DataBuffer = (if kzalloc k (Suc (tick s)) then Some (replicate len 0) else None),
             wi_DataBufferLength = len\<rparr>)\<rparr>"
  using assms by (auto simp: WORK_ITEM_Create_def tick_up_def Let_def split: if_splits)

lemma Create_inv:
  assumes inv: "work_items_inv B s" and c: "WORK_ITEM_Create k fn len s = Some (a, t)"
  shows "a \<notin> B \<and> work_items_inv (insert a B) t"
proof -
  have "next_addr s \<notin> dom (work_items s)" using inv by (auto simp: work_items_inv_def)
  then have "next_addr s \<notin> set (WorkItemProcessingQueue s) \<union> B"
    using inv by (simp add: work_items_inv_def)
  with inv show ?thesis
    by (auto simp: Create_Some [OF c] work_items_inv_def less_Suc_eq)
qed

lemma Submit_inv:
  assumes inv: "work_items_inv B s" and a: "a \<in> B"
    and w: "work_items s a = Some w" "wi_DeviceContextPvoid w"
    and q: "WorkItemQueue s = Some q"
  shows "\<exists>t. WORK_ITEM_Submit a s = Some t \<and> work_items_inv (B - {a}) t
     \<and> WorkItemQueue t = Some (q @ [a])
     \<and> NumberOfWorkItemInProcessingQueue t = NumberOfWorkItemInProcessingQueue s + 1"
proof -
  have "a \<notin> set (WorkItemProcessingQueue s)" using inv a by (auto simp: work_items_inv_def)
  with assms show ?thesis
    by (auto simp: WORK_ITEM_Submit_def work_items_inv_def spin_defs list_add_tail_def)
qed

lemma Destroy_inv:
  assumes inv: "work_items_inv B s" and a: "a \<in> set (WorkItemProcessingQueue s)"
    and w: "work_items s a = Some w" "wi_DeviceContextPvoid w"
  shows "\<exists>t. WORK_ITEM_Destroy a s = Some t \<and> work_items_inv B t \<and> work_items t a = None
     \<and> NumberOfWorkItemInProcessingQueue t = NumberOfWorkItemInProcessingQueue s - 1"
proof -
  have "a \<notin> B" using inv a by (auto simp: work_items_inv_def)
  with assms show ?thesis
    by (auto simp: WORK_ITEM_Destroy_def work_items_inv_def spin_defs int_length_list_del)
qed

end
