(* ===== verification/Ehub_Pool.thy ===== *)
theory Ehub_Pool
  imports Ehub_State
begin

text \<open>
  The driver keeps three pools as a pair of kernel lists: the doorbell URB contexts
  (\<open>doorbell_list_free\<close>, \<open>doorbell_list_busy\<close>), the blocks of the device cache
  (\<open>cache_list_free\<close>, \<open>cache_list_used\<close>, with counters) and the cache work contexts
  (\<open>cache_queue_free\<close>, \<open>cache_queue_used\<close>). All three are operated by moving a node to
  the tail of one of the two lists. The locale states that contract and proves, once, that
  no node is lost, duplicated or in both lists; it is interpreted on the moves the driver
  makes on each pool.
\<close>

section \<open>The moves\<close>

definition doorbell_to_busy :: "addr \<Rightarrow> ehub \<Rightarrow> ehub" where
  "doorbell_to_busy a s = s\<lparr>
     doorbell_list_free := list_del a (doorbell_list_free s),
     doorbell_list_busy := list_add_tail a (list_del a (doorbell_list_busy s))\<rparr>"

definition doorbell_to_free :: "addr \<Rightarrow> ehub \<Rightarrow> ehub" where
  "doorbell_to_free a s = s\<lparr>
     doorbell_list_busy := list_del a (doorbell_list_busy s),
     doorbell_list_free := list_add_tail a (list_del a (doorbell_list_free s))\<rparr>"

text \<open>A cache block moves together with the two counters.\<close>

definition block_to_used :: "addr \<Rightarrow> ehub \<Rightarrow> ehub" where
  "block_to_used a s = s\<lparr>
     cache_list_free := list_del a (cache_list_free s),
     cache_list_used := list_add_tail a (list_del a (cache_list_used s)),
     number_of_caches_free := number_of_caches_free s - 1,
     number_of_caches_used := number_of_caches_used s + 1\<rparr>"

definition block_to_free :: "addr \<Rightarrow> ehub \<Rightarrow> ehub" where
  "block_to_free a s = s\<lparr>
     cache_list_used := list_del a (cache_list_used s),
     cache_list_free := list_add_tail a (list_del a (cache_list_free s)),
     number_of_caches_used := number_of_caches_used s - 1,
     number_of_caches_free := number_of_caches_free s + 1\<rparr>"

definition work_to_used :: "addr \<Rightarrow> ehub \<Rightarrow> ehub" where
  "work_to_used a s = s\<lparr>
     cache_queue_free := list_del a (cache_queue_free s),
     cache_queue_used := list_add_tail a (list_del a (cache_queue_used s))\<rparr>"

definition work_to_free :: "addr \<Rightarrow> ehub \<Rightarrow> ehub" where
  "work_to_free a s = s\<lparr>
     cache_queue_used := list_del a (cache_queue_used s),
     cache_queue_free := list_add_tail a (list_del a (cache_queue_free s))\<rparr>"

section \<open>The contract of a pool\<close>

definition pool_ok :: "'a list \<Rightarrow> 'a list \<Rightarrow> bool" where
  "pool_ok fs us \<longleftrightarrow> distinct fs \<and> distinct us \<and> set fs \<inter> set us = {}"

lemma pool_ok_simps [simp]: "pool_ok [] []"
  by (simp add: pool_ok_def)

locale pool =
  fixes free used :: "'s \<Rightarrow> 'a list"
    and to_used to_free :: "'a \<Rightarrow> 's \<Rightarrow> 's"
  assumes free_to_used: "free (to_used x s) = list_del x (free s)"
    and used_to_used: "used (to_used x s) = list_add_tail x (list_del x (used s))"
    and used_to_free: "used (to_free x s) = list_del x (used s)"
    and free_to_free: "free (to_free x s) = list_add_tail x (list_del x (free s))"
begin

definition nodes :: "'s \<Rightarrow> 'a set" where
  "nodes s = set (free s) \<union> set (used s)"

lemmas laws = free_to_used used_to_used used_to_free free_to_free

lemma to_used_ok:
  assumes "pool_ok (free s) (used s)" and "x \<in> nodes s"
  shows "pool_ok (free (to_used x s)) (used (to_used x s))" and "nodes (to_used x s) = nodes s"
  using assms by (auto simp: pool_ok_def nodes_def laws)

lemma to_free_ok:
  assumes "pool_ok (free s) (used s)" and "x \<in> nodes s"
  shows "pool_ok (free (to_free x s)) (used (to_free x s))" and "nodes (to_free x s) = nodes s"
  using assms by (auto simp: pool_ok_def nodes_def laws)

lemma first_entry:
  assumes "pool_ok (free s) (used s)" and "free s = x # xs"
  shows "x \<notin> set (used s)" and "free (to_used x s) = xs" and "used (to_used x s) = used s @ [x]"
    and "pool_ok (free (to_used x s)) (used (to_used x s))" and "nodes (to_used x s) = nodes s"
  using assms by (auto simp: pool_ok_def nodes_def laws list_add_tail_def)

lemma give_back:
  assumes "pool_ok (free s) (used s)" and "x \<in> set (used s)"
  shows "free (to_free x s) = free s @ [x]" and "set (used (to_free x s)) = set (used s) - {x}"
    and "pool_ok (free (to_free x s)) (used (to_free x s))" and "nodes (to_free x s) = nodes s"
proof -
  have "x \<notin> set (free s)" and "x \<in> nodes s" and "distinct (used s)"
    using assms by (auto simp: pool_ok_def nodes_def)
  then show "free (to_free x s) = free s @ [x]" and "set (used (to_free x s)) = set (used s) - {x}"
    and "pool_ok (free (to_free x s)) (used (to_free x s))" and "nodes (to_free x s) = nodes s"
    using assms(1) to_free_ok [of s x] by (simp_all add: laws list_add_tail_def)
qed

lemma nodes_length:
  assumes "pool_ok (free s) (used s)"
  shows "card (nodes s) = length (free s) + length (used s)"
  using assms by (simp add: pool_ok_def nodes_def card_Un_disjoint distinct_card)

end

text \<open>A pool whose owner also counts the two lists.\<close>

locale counted_pool = pool free used to_used to_free
  for free used :: "'s \<Rightarrow> 'a list" and to_used to_free :: "'a \<Rightarrow> 's \<Rightarrow> 's" +
  fixes nfree nused :: "'s \<Rightarrow> int"
  assumes nfree_to_used: "nfree (to_used x s) = nfree s - 1"
    and nused_to_used: "nused (to_used x s) = nused s + 1"
    and nfree_to_free: "nfree (to_free x s) = nfree s + 1"
    and nused_to_free: "nused (to_free x s) = nused s - 1"
begin

definition counted :: "'s \<Rightarrow> bool" where
  "counted s \<longleftrightarrow> pool_ok (free s) (used s)
     \<and> nfree s = int (length (free s)) \<and> nused s = int (length (used s))"

lemmas counter_laws = nfree_to_used nused_to_used nfree_to_free nused_to_free

lemma counted_to_used:
  assumes "counted s" and "x \<in> set (free s)"
  shows "counted (to_used x s)" and "nodes (to_used x s) = nodes s"
proof -
  have "x \<notin> set (used s)" and "x \<in> nodes s"
    using assms by (auto simp: counted_def pool_ok_def nodes_def)
  then show "counted (to_used x s)" and "nodes (to_used x s) = nodes s"
    using assms to_used_ok [of s x]
    by (auto simp: counted_def laws counter_laws int_length_list_del)
qed

lemma counted_to_free:
  assumes "counted s" and "x \<in> set (used s)"
  shows "counted (to_free x s)" and "nodes (to_free x s) = nodes s"
proof -
  have "x \<notin> set (free s)" and "x \<in> nodes s"
    using assms by (auto simp: counted_def pool_ok_def nodes_def)
  then show "counted (to_free x s)" and "nodes (to_free x s) = nodes s"
    using assms to_free_ok [of s x]
    by (auto simp: counted_def laws counter_laws int_length_list_del)
qed

end

section \<open>The pools of the driver\<close>

interpretation doorbells:
  pool doorbell_list_free doorbell_list_busy doorbell_to_busy doorbell_to_free
  by unfold_locales (simp_all add: doorbell_to_busy_def doorbell_to_free_def)

interpretation blocks:
  counted_pool cache_list_free cache_list_used block_to_used block_to_free
    number_of_caches_free number_of_caches_used
  by unfold_locales (simp_all add: block_to_used_def block_to_free_def)

interpretation works:
  pool cache_queue_free cache_queue_used work_to_used work_to_free
  by unfold_locales (simp_all add: work_to_used_def work_to_free_def)

end
