(* ===== verification/Ehub_Urb.thy ===== *)
theory Ehub_Urb
  imports Ehub_Work_Item Ehub_Pool
begin

text \<open>
  URB contexts (\<open>ehub_urb.c\<close>): creation with a zeroed coherent buffer, isochronous creation
  with its packet table, destruction, submission, and the three completion routines of this
  file (the one for cache writes is in \<open>Ehub_Cache\<close>).
\<close>

section \<open>Creation and destruction\<close>

definition URB_NO_TRANSFER_DMA_MAP :: u32 where "URB_NO_TRANSFER_DMA_MAP = 0x0004"
definition URB_ISO_ASAP :: u32 where "URB_ISO_ASAP = 0x0002"
definition URB_DIR_IN :: u32 where "URB_DIR_IN = 0x0200"

text \<open>
  The context enters the heap when it is complete. Both late failures free the context and
  then return the pointer to it: the address they return is not in the heap. With no
  interface the error message reads the condition of a NULL interface.
\<close>

definition new_URB_CONTEXT ::
  "usb_pipe \<Rightarrow> nat \<Rightarrow> completion_routine \<Rightarrow> completion_context option \<Rightarrow> addr \<Rightarrow> URB_CONTEXT" where
  "new_URB_CONTEXT pipe len rtn ctx a =
     \<lparr>uc_DeviceContextPvoid = True,
      uc_Urb = Some \<lparr>urb_pipe = pipe, urb_transfer_buffer_length = len,
        urb_transfer_flags = URB_NO_TRANSFER_DMA_MAP, urb_complete = rtn,
        urb_context = (case ctx of Some c \<Rightarrow> c | None \<Rightarrow> UrbContextPtr a),
        urb_interval = (case pipe of Pipe PIPE_INTERRUPT _ _ \<Rightarrow> 1 | _ \<Rightarrow> 0),
        urb_number_of_packets = 0, urb_iso_frame_desc = [],
        urb_status = 0, urb_actual_length = 0\<rparr>,
      uc_Event = 0, uc_DataBuffer = Some (replicate len 0),
      uc_DataBufferLength = len, uc_UrbCompletionStatus = 0, uc_ActualLength = 0,
      uc_Status = URB_STATUS_FREE\<rparr>"

definition URB_Create ::
  "env \<Rightarrow> usb_pipe \<Rightarrow> nat \<Rightarrow> completion_routine \<Rightarrow> completion_context option \<Rightarrow> ehub
    \<Rightarrow> addr option outcome" where
  "URB_Create k pipe len rtn ctx s =
     (case InterfaceBackup s of
        None \<Rightarrow> None
      | Some c \<Rightarrow>
          if c \<noteq> USB_INTERFACE_BOUND \<and> c \<noteq> USB_INTERFACE_BINDING then Some (None, s)
          else if \<not> kzalloc k (tick s)
            then Some (None, (tick_up s)\<lparr>UrbContextAllocationError := True\<rparr>)
          else
            let a = next_addr s; s1 = (tick_up s)\<lparr>next_addr := Suc a\<rparr> in
            if \<not> usb_alloc_coherent k (tick s1)
              then Some (Some a, (tick_up s1)\<lparr>UsbAllocateCoherentError := True\<rparr>)
            else
              let s2 = tick_up s1 in
              if \<not> usb_alloc_urb k (tick s2)
                then Some (Some a, (tick_up s2)\<lparr>UsbAllocateUrbError := True\<rparr>)
              else Some (Some a, put_urb a (new_URB_CONTEXT pipe len rtn ctx a)
                (tick_up s2)))"

text \<open>The packet table of an isochronous URB: the loop over \<open>pkt_idx\<close>. The packet length is a
  32-bit \<open>int\<close>, kept as its bits; the products are taken at that width and stored in 32-bit
  fields.\<close>

definition iso_packets :: "u32 \<Rightarrow> iso_frame list" where
  "iso_packets len = map (\<lambda>i. \<lparr>pkt_offset = unat (len * of_nat i), pkt_length = unat len,
     pkt_actual_length = 0, pkt_status = 0\<rparr>) [0..<NUMBER_OF_MESSAGE_ISOCH_PKT]"

text \<open>The size passed to the allocator is the product converted to \<open>size_t\<close>, so a product whose
  sign bit is set asks for a huge buffer.\<close>

definition URB_CreateIsoch ::
  "env \<Rightarrow> usb_pipe \<Rightarrow> u32 \<Rightarrow> completion_routine \<Rightarrow> ehub \<Rightarrow> addr option outcome" where
  "URB_CreateIsoch k pipe len rtn s =
     (case InterfaceBackup s of
        None \<Rightarrow> None
      | Some c \<Rightarrow>
          if c \<noteq> USB_INTERFACE_BOUND \<and> c \<noteq> USB_INTERFACE_BINDING then Some (None, s)
          else if \<not> kzalloc k (tick s)
            then Some (None, (tick_up s)\<lparr>UrbContextAllocationError := True\<rparr>)
          else
            let a = next_addr s; s1 = (tick_up s)\<lparr>next_addr := Suc a\<rparr>;
                total = len * of_nat NUMBER_OF_MESSAGE_ISOCH_PKT in
            if \<not> usb_alloc_coherent k (tick s1)
              then Some (Some a, (tick_up s1)\<lparr>UsbAllocateCoherentError := True\<rparr>)
            else
              let s2 = tick_up s1 in
              if \<not> usb_alloc_urb k (tick s2)
                then Some (Some a, (tick_up s2)\<lparr>UsbAllocateUrbError := True\<rparr>)
              else Some (Some a, put_urb a
                \<lparr>uc_DeviceContextPvoid = True,
                 uc_Urb = Some \<lparr>urb_pipe = pipe, urb_transfer_buffer_length = unat total,
                   urb_transfer_flags = URB_NO_TRANSFER_DMA_MAP OR URB_ISO_ASAP OR URB_DIR_IN,
                   urb_complete = rtn, urb_context = UrbContextPtr a, urb_interval = 1,
                   urb_number_of_packets = NUMBER_OF_MESSAGE_ISOCH_PKT,
                   urb_iso_frame_desc = iso_packets len,
                   urb_status = 0, urb_actual_length = 0\<rparr>,
                 uc_Event = 0, uc_DataBuffer = Some (replicate (unat (scast total :: u64)) 0),
                 uc_DataBufferLength = unat total, uc_UrbCompletionStatus = 0, uc_ActualLength = 0,
                 uc_Status = URB_STATUS_FREE\<rparr> (tick_up s2)))"

text \<open>Destruction unlinks the context from the doorbell list it may be on and frees it.\<close>

definition URB_Destroy :: "addr option \<Rightarrow> ehub \<Rightarrow> ehub option" where
  "URB_Destroy p s =
     (case p of
        None \<Rightarrow> Some s
      | Some a \<Rightarrow> do {
          u \<leftarrow> urb_contexts s a;
          Some (s\<lparr>doorbell_list_free := list_del a (doorbell_list_free s),
                  doorbell_list_busy := list_del a (doorbell_list_busy s),
                  urb_contexts := (urb_contexts s)(a := None)\<rparr>)
        })"

section \<open>Submission\<close>

text \<open>The transfer the USB core takes from a context it accepts.\<close>

definition urb_transfer :: "URB_CONTEXT \<Rightarrow> (usb_pipe \<times> u8 list) list" where
  "urb_transfer c =
     (case (uc_Urb c, uc_DataBuffer c) of
        (Some u, Some buf) \<Rightarrow> [(urb_pipe u, take (urb_transfer_buffer_length u) buf)]
      | _ \<Rightarrow> [])"

definition URB_Submit :: "env \<Rightarrow> addr option \<Rightarrow> ehub \<Rightarrow> int outcome" where
  "URB_Submit k p s = do {
     a \<leftarrow> p;
     c \<leftarrow> urb_contexts s a;
     let c1 = c\<lparr>uc_Event := 0, uc_Status := URB_STATUS_SUBMITTED\<rparr>;
     let status = usb_submit_urb k (tick s);
     if status < 0
     then Some (status, put_urb a (c1\<lparr>uc_Status := URB_STATUS_SUBMIT_ERROR\<rparr>) (tick_up s))
     else Some (status, (put_urb a c1 (tick_up s))\<lparr>usb_log := usb_log s @ urb_transfer c1,
       usb_pending := insert a (usb_pending s)\<rparr>)
   }"

section \<open>Completion routines\<close>

text \<open>The USB core gives up a URB before it calls the URB's completion routine.\<close>

definition usb_gives_up :: "addr \<Rightarrow> ehub \<Rightarrow> ehub" where
  "usb_gives_up a s = s\<lparr>usb_pending := usb_pending s - {a}\<rparr>"

text \<open>The isochronous data is gathered packet by packet into the work item's buffer, skipping
  packets that failed; a copy that leaves either buffer is a fault.\<close>

fun gather_packets :: "u8 list \<Rightarrow> iso_frame list \<Rightarrow> u8 list \<Rightarrow> nat \<Rightarrow> u8 list option" where
  "gather_packets src [] dst pos = Some dst"
| "gather_packets src (p # ps) dst pos =
     (if pkt_status p = 0 then do {
        xs \<leftarrow> read_bytes src (pkt_offset p) (pkt_actual_length p);
        dst' \<leftarrow> write_bytes dst pos xs;
        gather_packets src ps dst' (pos + pkt_actual_length p)
      } else gather_packets src ps dst pos)"

text \<open>What the completion routine copies into the work item.\<close>

definition message_data :: "urb \<Rightarrow> u8 list \<Rightarrow> u8 list \<Rightarrow> u8 list option" where
  "message_data u src dst =
     (if urb_number_of_packets u = 0 then do {
        xs \<leftarrow> read_bytes src 0 (urb_actual_length u);
        write_bytes dst 0 xs
      } else gather_packets src (take (urb_number_of_packets u) (urb_iso_frame_desc u)) dst 0)"

definition URB_CompletionRoutine_GetMessage :: "env \<Rightarrow> urb option \<Rightarrow> ehub \<Rightarrow> ehub option" where
  "URB_CompletionRoutine_GetMessage k p s =
     (case p of
        None \<Rightarrow> Some s
      | Some u \<Rightarrow>
          (case urb_context u of
             CacheWorkPtr _ \<Rightarrow> None
           | UrbContextPtr a \<Rightarrow> do {
               c \<leftarrow> urb_contexts s a;
               if \<not> uc_DeviceContextPvoid c then Some s
               else do {
                 status \<leftarrow> DEVICECONTEXT_ErrorCheck (Some s);
                 if status < 0 then Some s
                 else do {
                   let s1 = put_urb a (c\<lparr>uc_Status := URB_STATUS_COMPLETE\<rparr>) s;
                   case uc_DataBuffer c of
                     None \<Rightarrow> Some s1
                   | Some xfer_buf \<Rightarrow> do {
                       s2 \<leftarrow> (if 0 < urb_actual_length u then do {
                                (w, s2) \<leftarrow> WORK_ITEM_Create k
                                   WORK_ITEM_Process_MessageHandle_ptr (urb_actual_length u) s1;
                                wi \<leftarrow> work_items s2 w;
                                dst \<leftarrow> wi_DataBuffer wi;
                                dst' \<leftarrow> message_data u xfer_buf dst;
                                WORK_ITEM_Submit w (s2\<lparr>work_items :=
                                   (work_items s2)(w \<mapsto> wi\<lparr>wi_DataBuffer := Some dst'\<rparr>)\<rparr>)
                              } else Some s1);
                       if urb_status u = 0
                       then map_option snd (URB_Submit k (Some a) s2)
                       else Some s2
                     }
                 }
               }
             }))"

definition URB_CompletionRoutine_Simple :: "urb option \<Rightarrow> ehub \<Rightarrow> ehub option" where
  "URB_CompletionRoutine_Simple p s =
     (case p of
        None \<Rightarrow> Some s
      | Some u \<Rightarrow>
          if urb_status u = - ESHUTDOWN then Some s
          else (case urb_context u of
             CacheWorkPtr _ \<Rightarrow> None
           | UrbContextPtr a \<Rightarrow> do {
               c \<leftarrow> urb_contexts s a;
               if \<not> uc_DeviceContextPvoid c then Some s
               else do {
                 status \<leftarrow> DEVICECONTEXT_ErrorCheck (Some s);
                 if status < 0 then Some s
                 else NOTIFICATION_Notify (EventUrb a) (put_urb a
                   (c\<lparr>uc_ActualLength := urb_actual_length u,
                      uc_UrbCompletionStatus := urb_status u,
                      uc_Status := URB_STATUS_COMPLETE\<rparr>) s)
               }
             }))"

definition URB_CompletionRoutine_Doorbell :: "urb option \<Rightarrow> ehub \<Rightarrow> ehub option" where
  "URB_CompletionRoutine_Doorbell p s =
     (case p of
        None \<Rightarrow> Some s
      | Some u \<Rightarrow>
          if urb_status u = - ESHUTDOWN then Some s
          else (case urb_context u of
             CacheWorkPtr _ \<Rightarrow> None
           | UrbContextPtr a \<Rightarrow> do {
               c \<leftarrow> urb_contexts s a;
               if \<not> uc_DeviceContextPvoid c then Some s
               else do {
                 status \<leftarrow> DEVICECONTEXT_ErrorCheck (Some s);
                 if status < 0 then Some s
                 else do {
                   s1 \<leftarrow> NOTIFICATION_Notify (EventUrb a) (put_urb a
                     (c\<lparr>uc_ActualLength := urb_actual_length u,
                        uc_UrbCompletionStatus := urb_status u,
                        uc_Status := URB_STATUS_COMPLETE\<rparr>) s);
                   Some (doorbell_to_free a s1)
                 }
               }
             }))"

section \<open>Creating contexts\<close>

text \<open>Addresses are given out once: everything allocated lies below the next address.\<close>

definition heap_fresh :: "ehub \<Rightarrow> bool" where
  "heap_fresh s \<longleftrightarrow> (\<forall>a \<in> dom (urb_contexts s). a < next_addr s)"

lemma heap_fresh_next: "heap_fresh s \<Longrightarrow> urb_contexts s (next_addr s) = None"
  by (auto simp: heap_fresh_def)

lemma heap_fresh_mono:
  assumes "heap_fresh s" and "urb_contexts t = urb_contexts s" and "next_addr s \<le> next_addr t"
  shows "heap_fresh t"
  unfolding heap_fresh_def
proof
  fix a assume "a \<in> dom (urb_contexts t)"
  then have "a < next_addr s" using assms by (auto simp: heap_fresh_def)
  then show "a < next_addr t" using assms(3) by simp
qed

text \<open>What \<open>URB_Create\<close> leaves unchanged whatever the kernel answers.\<close>

definition urb_frame :: "ehub \<Rightarrow> ehub \<Rightarrow> bool" where
  "urb_frame s t \<longleftrightarrow>
     (\<exists>al co ur cs na n. t = s\<lparr>UrbContextAllocationError := al, UsbAllocateUrbError := ur,
        UsbAllocateCoherentError := co, urb_contexts := cs, next_addr := na, tick := n\<rparr>)"

lemma urb_frameI:
  "t = s\<lparr>UrbContextAllocationError := al, UsbAllocateUrbError := ur,
        UsbAllocateCoherentError := co, urb_contexts := cs, next_addr := na, tick := n\<rparr>
   \<Longrightarrow> urb_frame s t"
  unfolding urb_frame_def by blast

lemma urb_frame_simps:
  assumes "urb_frame s t"
  shows "InterfaceBackup t = InterfaceBackup s" "doorbell_list_free t = doorbell_list_free s"
    "doorbell_list_busy t = doorbell_list_busy s" "usb_log t = usb_log s"
    "cache_queue_free t = cache_queue_free s" "cache_queue_used t = cache_queue_used s"
    "cache_works t = cache_works s" "UrbContextMessageBulk t = UrbContextMessageBulk s"
    "UrbContextMessageInterrupt t = UrbContextMessageInterrupt s"
    "UrbContextMessageIsoch t = UrbContextMessageIsoch s"
    "SpinLockEmbeddedDoorbellWrite t = SpinLockEmbeddedDoorbellWrite s"
  using assms by (auto simp: urb_frame_def)

lemma URB_Create_cases:
  assumes "URB_Create k pipe len rtn ctx s = Some (r, t)"
  obtains (unbound) "\<not> interface_bound s" "r = None" "t = s"
  | (no_context) "interface_bound s" "\<not> kzalloc k (tick s)" "r = None"
      "t = s\<lparr>tick := Suc (tick s), UrbContextAllocationError := True\<rparr>"
  | (dangling) co ur n where "interface_bound s" "kzalloc k (tick s)"
      "\<not> usb_alloc_coherent k (Suc (tick s)) \<or> \<not> usb_alloc_urb k (Suc (Suc (tick s)))"
      "r = Some (next_addr s)"
      "t = s\<lparr>UsbAllocateUrbError := ur, UsbAllocateCoherentError := co,
             next_addr := Suc (next_addr s), tick := n\<rparr>"
  | (made) "interface_bound s" "kzalloc k (tick s)"
      "usb_alloc_coherent k (Suc (tick s))" "usb_alloc_urb k (Suc (Suc (tick s)))"
      "r = Some (next_addr s)"
      "t = s\<lparr>urb_contexts := (urb_contexts s)
               (next_addr s \<mapsto> new_URB_CONTEXT pipe len rtn ctx (next_addr s)),
             next_addr := Suc (next_addr s), tick := Suc (Suc (Suc (tick s)))\<rparr>"
proof -
  from assms obtain cond where ib: "InterfaceBackup s = Some cond"
    by (auto simp: URB_Create_def split: option.splits)
  consider "\<not> interface_bound s" | "interface_bound s" "\<not> kzalloc k (tick s)"
    | "interface_bound s" "kzalloc k (tick s)" "\<not> usb_alloc_coherent k (Suc (tick s))"
    | "interface_bound s" "kzalloc k (tick s)" "usb_alloc_coherent k (Suc (tick s))"
      "\<not> usb_alloc_urb k (Suc (Suc (tick s)))"
    | "interface_bound s" "kzalloc k (tick s)" "usb_alloc_coherent k (Suc (tick s))"
      "usb_alloc_urb k (Suc (Suc (tick s)))"
    by blast
  then show thesis
  proof cases
    case 1
    with assms ib show thesis
      by (auto simp: URB_Create_def interface_bound_def intro: unbound)
  next
    case 2
    with assms ib show thesis
      by (auto simp: URB_Create_def interface_bound_def tick_up_def intro!: no_context)
  next
    case 3
    with assms ib show thesis
      by (auto simp: URB_Create_def interface_bound_def tick_up_def Let_def
          intro!: dangling [where ur = "UsbAllocateUrbError s" and co = True
            and n = "Suc (Suc (tick s))"])
  next
    case 4
    with assms ib show thesis
      by (auto simp: URB_Create_def interface_bound_def tick_up_def Let_def
          intro!: dangling [where ur = True and co = "UsbAllocateCoherentError s"
            and n = "Suc (Suc (Suc (tick s)))"])
  next
    case 5
    with assms ib show thesis
      by (auto simp: URB_Create_def interface_bound_def tick_up_def put_urb_def Let_def
          intro!: made)
  qed
qed

lemma URB_Create_total: "interface_bound s \<Longrightarrow> \<exists>r t. URB_Create k pipe len rtn ctx s = Some (r, t)"
  by (cases "kzalloc k (tick s)"; cases "usb_alloc_coherent k (Suc (tick s))";
      cases "usb_alloc_urb k (Suc (Suc (tick s)))")
    (auto simp: URB_Create_def interface_bound_def tick_up_def Let_def)

lemma URB_Create_frame:
  assumes "URB_Create k pipe len rtn ctx s = Some (r, t)"
  shows "urb_frame s t"
  using assms
proof (cases rule: URB_Create_cases)
  case unbound
  then show ?thesis
    by (intro urb_frameI [where al = "UrbContextAllocationError s" and ur = "UsbAllocateUrbError s"
          and co = "UsbAllocateCoherentError s" and cs = "urb_contexts s" and na = "next_addr s"
          and n = "tick s"]) simp
next
  case no_context
  then show ?thesis
    by (intro urb_frameI [where al = True and ur = "UsbAllocateUrbError s"
          and co = "UsbAllocateCoherentError s" and cs = "urb_contexts s" and na = "next_addr s"
          and n = "Suc (tick s)"]) simp
next
  case (dangling co ur n)
  then show ?thesis
    by (intro urb_frameI [where al = "UrbContextAllocationError s" and ur = ur and co = co
          and cs = "urb_contexts s" and na = "Suc (next_addr s)" and n = n]) simp
next
  case made
  then show ?thesis
    by (intro urb_frameI [where al = "UrbContextAllocationError s" and ur = "UsbAllocateUrbError s"
          and co = "UsbAllocateCoherentError s" and cs = "urb_contexts t" and na = "Suc (next_addr s)" and n = "Suc (Suc (Suc (tick s)))"]) simp
qed

text \<open>A context that is made is new, and every other context is as before.\<close>

lemma URB_Create_heap:
  assumes "heap_fresh s" and "URB_Create k pipe len rtn ctx s = Some (r, t)"
  shows "heap_fresh t" and "b \<noteq> next_addr s \<Longrightarrow> urb_contexts t b = urb_contexts s b"
  using assms(2,1)
  by (cases rule: URB_Create_cases; auto simp: heap_fresh_def less_Suc_eq)+

text \<open>All the allocations of the next creation succeed.\<close>

definition create_succeeds :: "env \<Rightarrow> nat \<Rightarrow> bool" where
  "create_succeeds k n \<longleftrightarrow> kzalloc k n \<and> usb_alloc_coherent k (Suc n) \<and> usb_alloc_urb k (Suc (Suc n))"

lemma URB_Create_made:
  assumes "interface_bound s" and "create_succeeds k (tick s)"
  shows "URB_Create k pipe len rtn ctx s = Some (Some (next_addr s),
     s\<lparr>urb_contexts := (urb_contexts s)
         (next_addr s \<mapsto> new_URB_CONTEXT pipe len rtn ctx (next_addr s)),
       next_addr := Suc (next_addr s), tick := Suc (Suc (Suc (tick s)))\<rparr>)"
  using assms
  by (auto simp: URB_Create_def interface_bound_def create_succeeds_def tick_up_def put_urb_def
      Let_def)

section \<open>Gathering isochronous packets\<close>

text \<open>The data of the packets that arrived, in order.\<close>

definition good_data :: "u8 list \<Rightarrow> iso_frame list \<Rightarrow> u8 list" where
  "good_data src ps =
     concat (map (\<lambda>p. take (pkt_actual_length p) (drop (pkt_offset p) src))
       (filter (\<lambda>p. pkt_status p = 0) ps))"

definition packets_inside :: "u8 list \<Rightarrow> iso_frame list \<Rightarrow> bool" where
  "packets_inside src ps \<longleftrightarrow>
     (\<forall>p \<in> set ps. pkt_status p = 0 \<longrightarrow> pkt_offset p + pkt_actual_length p \<le> length src)"

lemma gather_packets_eq:
  "packets_inside src ps \<Longrightarrow> pos + length (good_data src ps) \<le> length dst \<Longrightarrow>
   gather_packets src ps dst pos =
     Some (take pos dst @ good_data src ps @ drop (pos + length (good_data src ps)) dst)"
proof (induction ps arbitrary: dst pos)
  case Nil
  then show ?case by (simp add: good_data_def)
next
  case (Cons p ps)
  show ?case
  proof (cases "pkt_status p = 0")
    case False
    with Cons show ?thesis by (simp add: good_data_def packets_inside_def)
  next
    case True
    define xs where "xs = take (pkt_actual_length p) (drop (pkt_offset p) src)"
    have len: "length xs = pkt_actual_length p"
      using True Cons.prems(1) by (auto simp: packets_inside_def xs_def)
    have rd: "read_bytes src (pkt_offset p) (pkt_actual_length p) = Some xs"
      using True Cons.prems(1) by (auto simp: packets_inside_def read_bytes_def xs_def)
    have gd: "good_data src (p # ps) = xs @ good_data src ps"
      using True by (simp add: good_data_def xs_def)
    define dst' where "dst' = take pos dst @ xs @ drop (pos + length xs) dst"
    have wr: "write_bytes dst pos xs = Some dst'"
      using Cons.prems(2) gd by (simp add: write_bytes_def dst'_def)
    have "gather_packets src ps dst' (pos + length xs) =
      Some (take (pos + length xs) dst' @ good_data src ps
        @ drop (pos + length xs + length (good_data src ps)) dst')"
      by (rule Cons.IH) (use Cons.prems gd in \<open>auto simp: packets_inside_def dst'_def\<close>)
    moreover have "take (pos + length xs) dst' = take pos dst @ xs"
      using Cons.prems(2) gd by (simp add: dst'_def)
    moreover have "drop (pos + length xs + n) dst' = drop (pos + length xs + n) dst" for n
      using Cons.prems(2) gd by (simp add: dst'_def add.commute add.left_commute)
    ultimately show ?thesis
      using True rd wr len by (simp add: gd add.assoc)
  qed
qed

section \<open>Submission and completion\<close>

text \<open>The state after a submission the kernel answered with \<open>st\<close>.\<close>

definition submitted :: "int \<Rightarrow> addr \<Rightarrow> URB_CONTEXT \<Rightarrow> ehub \<Rightarrow> ehub" where
  "submitted st a c s = s\<lparr>
     urb_contexts := (urb_contexts s)(a \<mapsto> c\<lparr>uc_Event := 0,
       uc_Status := (if st < 0 then URB_STATUS_SUBMIT_ERROR else URB_STATUS_SUBMITTED)\<rparr>),
     tick := Suc (tick s),
     usb_log := usb_log s @ (if st < 0 then [] else urb_transfer c),
     usb_pending := (if st < 0 then usb_pending s else insert a (usb_pending s))\<rparr>"

lemma URB_Submit_live:
  assumes "urb_contexts s a = Some c"
  shows "URB_Submit k (Some a) s =
     Some (usb_submit_urb k (tick s), submitted (usb_submit_urb k (tick s)) a c s)"
  using assms
  by (simp add: URB_Submit_def Let_def put_urb_def tick_up_def urb_transfer_def submitted_def)

lemma URB_Submit_dead: "urb_contexts s a = None \<Longrightarrow> URB_Submit k (Some a) s = None"
  by (simp add: URB_Submit_def)

lemma URB_Submit_Some:
  assumes "URB_Submit k p s = Some (st, t)"
  obtains a c where "p = Some a" and "urb_contexts s a = Some c"
    and "st = usb_submit_urb k (tick s)" and "t = submitted st a c s"
proof -
  obtain a c where ac: "p = Some a" "urb_contexts s a = Some c"
    using assms by (auto simp: URB_Submit_def elim!: bind_eq_SomeE)
  show thesis
    by (rule that [OF ac]) (use assms URB_Submit_live [OF ac(2), of k] ac(1) in auto)
qed

lemma URB_Submit_health: "URB_Submit k p s = Some (st, t) \<Longrightarrow> same_health s t"
  by (auto simp: same_health_def submitted_def elim!: URB_Submit_Some)

text \<open>The data a completed IN transfer delivers: the first \<open>actual_length\<close> bytes, or the
  packets of an isochronous transfer that arrived.\<close>

definition received :: "urb \<Rightarrow> u8 list \<Rightarrow> u8 list" where
  "received u src = (if urb_number_of_packets u = 0 then take (urb_actual_length u) src
     else good_data src (take (urb_number_of_packets u) (urb_iso_frame_desc u)))"

definition transfer_consistent :: "urb \<Rightarrow> u8 list \<Rightarrow> bool" where
  "transfer_consistent u src \<longleftrightarrow> length (received u src) = urb_actual_length u
     \<and> packets_inside src (take (urb_number_of_packets u) (urb_iso_frame_desc u))"

lemma message_data_received:
  assumes "transfer_consistent u src"
  shows "message_data u src (replicate (urb_actual_length u) 0) = Some (received u src)"
proof (cases "urb_number_of_packets u = 0")
  case True
  then have "urb_actual_length u \<le> length src"
    using assms by (simp add: transfer_consistent_def received_def min_def split: if_splits)
  with True show ?thesis
    by (simp add: message_data_def received_def read_bytes_def write_bytes_def)
next
  case False
  with assms show ?thesis
    by (simp add: message_data_def received_def transfer_consistent_def gather_packets_eq)
qed

lemma concat_ranges: "concat (map (\<lambda>i. [len * i..<len * i + len]) [0..<n]) = [0..<len * n]"
proof (induction n)
  case (Suc n)
  have "[0..<len * Suc n] = [0..<len * n] @ [len * n..<len * n + len]"
    using upt_add_eq_append [of 0 "len * n" len] by (simp add: add.commute)
  with Suc show ?case by simp
qed simp

section \<open>Properties\<close>



text \<open>
  C29. When the coherent buffer or the URB cannot be allocated, the function has freed the
  context and still returns its address: the caller sees a non-NULL pointer to a freed
  object, and submitting it is a use after free.
\<close>

theorem URB_Create_returns_freed_context:
  assumes "interface_bound s" and "heap_fresh s" and "kzalloc k (tick s)"
    and "\<not> usb_alloc_coherent k (Suc (tick s)) \<or> \<not> usb_alloc_urb k (Suc (Suc (tick s)))"
  shows "\<exists>a t. URB_Create k pipe len rtn ctx s = Some (Some a, t) \<and> urb_contexts t a = None
     \<and> URB_Submit k (Some a) t = None"
proof -
  obtain r t where c: "URB_Create k pipe len rtn ctx s = Some (r, t)"
    using URB_Create_total [OF assms(1)] by blast
  have "r = Some (next_addr s) \<and> urb_contexts t (next_addr s) = None"
    using c assms heap_fresh_next [OF assms(2)] by (cases rule: URB_Create_cases) auto
  with c show ?thesis by (auto simp: URB_Submit_dead)
qed

theorem URB_Create_returns_freed_context_witness:
  "\<exists>a t. URB_Create (quiet_env\<lparr>usb_alloc_urb := \<lambda>_. False\<rparr>) (Pipe PIPE_BULK False 3) 8
      URB_CompletionRoutine_Simple_ptr None ready_ehub = Some (Some a, t) \<and> urb_contexts t a = None"
proof -
  have "interface_bound ready_ehub" and "heap_fresh ready_ehub"
    by (simp_all add: demo_defs interface_bound_def heap_fresh_def)
  then show ?thesis
    using URB_Create_returns_freed_context [of ready_ehub "quiet_env\<lparr>usb_alloc_urb := \<lambda>_. False\<rparr>"
        "Pipe PIPE_BULK False 3" 8 URB_CompletionRoutine_Simple_ptr None]
    by (auto simp: quiet_env_def)
qed

lemma size_of_int:
  fixes x :: u32
  assumes "unat x < 2 ^ 31"
  shows "unat (scast x :: u64) = unat x"
proof -
  have "int (unat x) < int (2 ^ 31)" using assms by (simp only: of_nat_less_iff)
  then have u: "uint x < 2 ^ 31" by simp
  have "sint x = uint x"
    unfolding sint_uint
  proof (rule signed_take_bit_int_eq_self)
    show "- (2 ^ (LENGTH(32) - Suc 0)) \<le> uint x" by (rule order_trans [of _ 0]) simp_all
  qed (use u in simp)
  then have "uint (scast x :: u64) = uint x" using u by (simp add: scast_eq unsigned_ucast_eq take_bit_int_eq_self)
  then show ?thesis by (metis of_nat_unat of_nat_eq_iff)
qed

text \<open>As long as the whole buffer is smaller than two gigabytes, no product wraps.\<close>

lemma iso_packets_exact:
  assumes "unat len * NUMBER_OF_MESSAGE_ISOCH_PKT < 2 ^ 31"
  shows "unat (len * of_nat NUMBER_OF_MESSAGE_ISOCH_PKT) = unat len * NUMBER_OF_MESSAGE_ISOCH_PKT"
    and "iso_packets len = map (\<lambda>i. \<lparr>pkt_offset = unat len * i, pkt_length = unat len,
      pkt_actual_length = 0, pkt_status = 0\<rparr>) [0..<NUMBER_OF_MESSAGE_ISOCH_PKT]"
proof -
  have "unat (len * of_nat i) = unat len * i" if "i \<le> NUMBER_OF_MESSAGE_ISOCH_PKT" for i
  proof -
    have "unat len * i \<le> unat len * NUMBER_OF_MESSAGE_ISOCH_PKT" using that by (rule mult_le_mono2)
    then have "unat len * i < 2 ^ 31" using assms by (rule order.strict_trans1)
    then have "unat len * i < 2 ^ 32" by simp
    then show ?thesis using that by (simp add: unat_word_ariths unat_of_nat)
  qed
  then show "unat (len * of_nat NUMBER_OF_MESSAGE_ISOCH_PKT) = unat len * NUMBER_OF_MESSAGE_ISOCH_PKT"
    and "iso_packets len = map (\<lambda>i. \<lparr>pkt_offset = unat len * i, pkt_length = unat len,
      pkt_actual_length = 0, pkt_status = 0\<rparr>) [0..<NUMBER_OF_MESSAGE_ISOCH_PKT]"
    unfolding iso_packets_def by (fastforce intro: map_cong)+
qed

text \<open>
  C28. The sixteen packets of an isochronous URB tile its buffer: as long as sixteen packets
  stay below two gigabytes, where the 32-bit products do not wrap, the buffer holds sixteen
  packets, and laid end to end the byte ranges of the packet table are exactly the bytes of the
  buffer, in order, so no two packets overlap and none leaves the buffer.
\<close>

theorem URB_CreateIsoch_tiles:
  assumes "interface_bound s" and "create_succeeds k (tick s)"
    and "unat len * NUMBER_OF_MESSAGE_ISOCH_PKT < 2 ^ 31"
  shows "\<exists>a t c u buf. URB_CreateIsoch k pipe len rtn s = Some (Some a, t)
     \<and> urb_contexts t a = Some c \<and> uc_Urb c = Some u \<and> uc_DataBuffer c = Some buf
     \<and> length buf = unat len * NUMBER_OF_MESSAGE_ISOCH_PKT
     \<and> urb_transfer_buffer_length u = length buf
     \<and> urb_number_of_packets u = NUMBER_OF_MESSAGE_ISOCH_PKT
     \<and> length (urb_iso_frame_desc u) = NUMBER_OF_MESSAGE_ISOCH_PKT
     \<and> concat (map (\<lambda>p. [pkt_offset p..<pkt_offset p + pkt_length p]) (urb_iso_frame_desc u))
         = [0..<length buf]"
proof -
  note exact = iso_packets_exact [OF assms(3)]
  have "concat (map (\<lambda>p. [pkt_offset p..<pkt_offset p + pkt_length p]) (iso_packets len))
      = [0..<unat len * NUMBER_OF_MESSAGE_ISOCH_PKT]"
    using concat_ranges [of "unat len" NUMBER_OF_MESSAGE_ISOCH_PKT]
    by (simp add: exact(2) comp_def del: upt_Suc)
  moreover have "unat (scast (len * of_nat NUMBER_OF_MESSAGE_ISOCH_PKT) :: u64)
      = unat len * NUMBER_OF_MESSAGE_ISOCH_PKT"
    using size_of_int assms(3) exact(1) by metis
  moreover have "length (iso_packets len) = NUMBER_OF_MESSAGE_ISOCH_PKT"
    by (simp add: iso_packets_def)
  ultimately show ?thesis
    using assms(1,2) exact(1)
    by (auto simp: URB_CreateIsoch_def interface_bound_def create_succeeds_def tick_up_def Let_def
        simp del: of_nat_numeral)
qed

theorem URB_CreateIsoch_tiles_witness:
  "\<exists>a t c u buf. URB_CreateIsoch quiet_env (Pipe PIPE_ISOCHRONOUS True 1) 6144
       URB_CompletionRoutine_GetMessage_ptr ready_ehub = Some (Some a, t)
     \<and> urb_contexts t a = Some c \<and> uc_Urb c = Some u \<and> uc_DataBuffer c = Some buf
     \<and> length buf = 98304 \<and> urb_number_of_packets u = 16 \<and> length (urb_iso_frame_desc u) = 16
     \<and> concat (map (\<lambda>p. [pkt_offset p..<pkt_offset p + pkt_length p]) (urb_iso_frame_desc u))
         = [0..<length buf]"
proof -
  have "interface_bound ready_ehub" and "create_succeeds quiet_env (tick ready_ehub)"
    by (simp_all add: demo_defs interface_bound_def create_succeeds_def)
  then show ?thesis
    using URB_CreateIsoch_tiles [of ready_ehub quiet_env 6144 "Pipe PIPE_ISOCHRONOUS True 1"
      URB_CompletionRoutine_GetMessage_ptr] by simp blast
qed

text \<open>
  C23. A bulk, interrupt or isochronous IN transfer that completes on a healthy device is
  handed to the work queue whole: a new work item with exactly the received bytes (for
  isochronous transfers the packets that arrived, concatenated) is appended behind the
  items already queued, and the URB is submitted again.
\<close>

theorem GetMessage_delivers:
  assumes ok: "device_ok s" and u: "urb_context u = UrbContextPtr a" "urb_status u = 0"
    and c: "urb_contexts s a = Some c" "uc_DeviceContextPvoid c" "uc_DataBuffer c = Some src"
    and data: "transfer_consistent u src" "0 < urb_actual_length u"
    and wq: "WorkItemQueue s = Some q" "\<not> SpinLockWorkItemQueue s"
    and mem: "kzalloc k (tick s)" "kzalloc k (Suc (tick s))"
  shows "\<exists>t w wi. URB_CompletionRoutine_GetMessage k (Some u) s = Some t
     \<and> WorkItemQueue t = Some (q @ [w]) \<and> work_items t w = Some wi
     \<and> wi_DataBuffer wi = Some (received u src) \<and> wi_DataBufferLength wi = urb_actual_length u
     \<and> wi_WorkItemProcess wi = Some WORK_ITEM_Process_MessageHandle_ptr
     \<and> (\<exists>c'. urb_contexts t a = Some c' \<and>
          (usb_submit_urb k (tick s + 2) = 0 \<longrightarrow> uc_Status c' = URB_STATUS_SUBMITTED))"
proof -
  let ?c1 = "c\<lparr>uc_Status := URB_STATUS_COMPLETE\<rparr>"
  let ?s1 = "put_urb a ?c1 s"
  let ?n = "urb_actual_length u"
  let ?w = "next_addr s"
  let ?wi = "\<lparr>wi_DeviceContextPvoid = True,
    wi_WorkItemProcess = Some WORK_ITEM_Process_MessageHandle_ptr,
    wi_DataBuffer = Some (received u src), wi_DataBufferLength = ?n\<rparr>"
  let ?t = "?s1\<lparr>tick := Suc (Suc (tick s)), next_addr := Suc ?w,
     work_items := (work_items s)(?w \<mapsto> ?wi),
     WorkItemProcessingQueue := WorkItemProcessingQueue s @ [?w],
     NumberOfWorkItemInProcessingQueue := NumberOfWorkItemInProcessingQueue s + 1,
     WorkItemQueue := Some (q @ [?w]), SpinLockWorkItemQueue := False\<rparr>"
  have t: "urb_contexts ?t a = Some ?c1" by simp
  have "URB_CompletionRoutine_GetMessage k (Some u) s = map_option snd (URB_Submit k (Some a) ?t)"
    using assms message_data_received [OF data(1)]
    by (simp add: URB_CompletionRoutine_GetMessage_def WORK_ITEM_Create_def WORK_ITEM_Submit_def
        tick_up_def put_urb_def Let_def spin_defs list_add_tail_def)
  then have "URB_CompletionRoutine_GetMessage k (Some u) s
      = Some (submitted (usb_submit_urb k (tick ?t)) a ?c1 ?t)"
    by (simp add: URB_Submit_live [OF t])
  then show ?thesis by (simp add: submitted_def put_urb_def)
qed

definition demo_urb :: urb where
  "demo_urb = \<lparr>urb_pipe = Pipe PIPE_ISOCHRONOUS True 1, urb_transfer_buffer_length = 8,
     urb_transfer_flags = 0, urb_complete = URB_CompletionRoutine_GetMessage_ptr,
     urb_context = UrbContextPtr 0, urb_interval = 1, urb_number_of_packets = 3,
     urb_iso_frame_desc =
       [\<lparr>pkt_offset = 0, pkt_length = 2, pkt_actual_length = 2, pkt_status = 0\<rparr>,
        \<lparr>pkt_offset = 2, pkt_length = 2, pkt_actual_length = 1, pkt_status = -18\<rparr>,
        \<lparr>pkt_offset = 4, pkt_length = 2, pkt_actual_length = 1, pkt_status = 0\<rparr>],
     urb_status = 0, urb_actual_length = 3\<rparr>"

definition demo_bytes :: "u8 list" where
  "demo_bytes = [1, 2, 3, 4, 5, 6, 7, 8]"

definition demo_live :: "ehub" where
  "demo_live = ready_ehub\<lparr>next_addr := 1, urb_contexts := [0 \<mapsto>
     (new_URB_CONTEXT (Pipe PIPE_ISOCHRONOUS True 1) 8 URB_CompletionRoutine_GetMessage_ptr None 0)
       \<lparr>uc_DataBuffer := Some demo_bytes\<rparr>]\<rparr>"

lemma demo_live_ok [simp]: "device_ok demo_live"
  by (simp add: demo_live_def demo_defs device_ok_def interface_bound_def)

theorem GetMessage_delivers_witness:
  "\<exists>t w wi. URB_CompletionRoutine_GetMessage quiet_env (Some demo_urb) demo_live = Some t
     \<and> WorkItemQueue t = Some [w] \<and> work_items t w = Some wi \<and> wi_DataBuffer wi = Some [1, 2, 5]"
proof -
  have c: "urb_contexts demo_live 0 = Some ((new_URB_CONTEXT (Pipe PIPE_ISOCHRONOUS True 1) 8
      URB_CompletionRoutine_GetMessage_ptr None 0)\<lparr>uc_DataBuffer := Some demo_bytes\<rparr>)"
    by (simp add: demo_live_def)
  have r: "received demo_urb demo_bytes = [1, 2, 5]"
    by (simp add: received_def demo_urb_def demo_bytes_def good_data_def)
  have tc: "transfer_consistent demo_urb demo_bytes"
    using r by (simp add: transfer_consistent_def packets_inside_def demo_urb_def demo_bytes_def)
  show ?thesis
    using GetMessage_delivers [of demo_live demo_urb 0 _ demo_bytes "[]" quiet_env, OF _ _ _ c _ _ tc] r
    by (auto simp: demo_urb_def new_URB_CONTEXT_def demo_live_def demo_defs device_ok_def
        interface_bound_def)
qed

text \<open>
  When a register or doorbell transfer completes on a healthy device, the simple
  completion routine records its length and status, marks the context complete and wakes
  exactly one waiter; after a shutdown, or on a device with an error, it changes nothing.
\<close>

lemma CompletionRoutine_Simple_correct:
  assumes "urb_context u = UrbContextPtr a" and "urb_contexts s a = Some c"
    and "uc_DeviceContextPvoid c" and "xhci_hcd_ptr s \<noteq> XhciFreed" and "UsbDevice s \<noteq> None"
  shows "URB_CompletionRoutine_Simple (Some u) s = Some
     (if urb_status u \<noteq> - ESHUTDOWN \<and> device_ok s
      then put_urb a (c\<lparr>uc_ActualLength := urb_actual_length u,
             uc_UrbCompletionStatus := urb_status u, uc_Status := URB_STATUS_COMPLETE,
             uc_Event := Suc (uc_Event c)\<rparr>) s
      else s)"
proof -
  obtain st where st: "DEVICECONTEXT_ErrorCheck (Some s) = Some st"
    using ErrorCheck_no_fault [OF assms(4,5)] by blast
  then show ?thesis
    by (cases rule: ErrorCheck_cases)
      (use assms st in \<open>auto simp: URB_CompletionRoutine_Simple_def NOTIFICATION_Notify_def put_urb_def\<close>)
qed

theorem CompletionRoutine_Simple_correct_witness:
  "\<exists>t c'. URB_CompletionRoutine_Simple (Some demo_urb) demo_live = Some t
     \<and> urb_contexts t 0 = Some c' \<and> uc_Event c' = 1 \<and> uc_Status c' = URB_STATUS_COMPLETE"
proof -
  have c: "urb_contexts demo_live 0 = Some ((new_URB_CONTEXT (Pipe PIPE_ISOCHRONOUS True 1) 8
      URB_CompletionRoutine_GetMessage_ptr None 0)\<lparr>uc_DataBuffer := Some demo_bytes\<rparr>)"
    by (simp add: demo_live_def)
  show ?thesis
    using CompletionRoutine_Simple_correct [of demo_urb 0 demo_live, OF _ c]
    by (auto simp: demo_urb_def new_URB_CONTEXT_def demo_live_def demo_defs put_urb_def device_ok_def
        interface_bound_def)
qed

end
