(* ===== verification/Ehub_Embedded_Cache.thy ===== *)
theory Ehub_Embedded_Cache
  imports Ehub_Urb
begin

text \<open>
  Writes into the cache memory of the device (\<open>ehub_embedded_cache.c\<close>): a transfer of an
  eight byte header (command and cache address) followed by the data, padded to a multiple
  of eight bytes. The device's side of the protocol is the decoding of such a transfer; the
  main property is that what the driver sends decodes to the write it was asked for.
\<close>

section \<open>The memory command word\<close>

abbreviation EMC_Read :: field where "EMC_Read \<equiv> (0, 1)"
abbreviation EMC_Write :: field where "EMC_Write \<equiv> (1, 1)"
abbreviation EMC_MSI :: field where "EMC_MSI \<equiv> (3, 1)"
abbreviation EMC_Cache :: field where "EMC_Cache \<equiv> (4, 1)"
abbreviation EMC_RegAccess :: field where "EMC_RegAccess \<equiv> (5, 1)"
abbreviation EMC_TrafficClass :: field where "EMC_TrafficClass \<equiv> (6, 2)"
abbreviation EMC_Length :: field where "EMC_Length \<equiv> (8, 16)"
abbreviation EMC_RequestId :: field where "EMC_RequestId \<equiv> (24, 3)"

definition TRBS_PER_SEGMENT :: nat where "TRBS_PER_SEGMENT = 64"
definition TRB_CYCLE :: u32 where "TRB_CYCLE = 1"

definition sizeof_EMBEDDED_CACHE_TRANSFER :: u32 where "sizeof_EMBEDDED_CACHE_TRANSFER = 8"

section \<open>Writing\<close>

text \<open>The length padded to a multiple of eight, in 32-bit arithmetic.\<close>

definition dataBufferLengthAligned :: "u32 \<Rightarrow> u32" where
  "dataBufferLengthAligned len =
     len + (if len AND 7 \<noteq> 0 then 8 - len mod 8 else 0)"

text \<open>
  The loop that sets the cycle bits of an empty segment. The TRB pointer has a sixteen byte
  type and is advanced by sixteen elements: the stride is 256 bytes.
\<close>

fun set_cycle_bits :: "nat \<Rightarrow> nat \<Rightarrow> u8 list \<Rightarrow> u8 list option" where
  "set_cycle_bits 0 off buf = Some buf"
| "set_cycle_bits (Suc n) off buf = do {
     control \<leftarrow> read32 buf (off + 12);
     buf1 \<leftarrow> write32 buf (off + 12) (control OR TRB_CYCLE);
     set_cycle_bits n (off + 16 * 16) buf1
   }"

text \<open>The header and the data, put into the buffer of the context. The command word keeps the
  bits of the previous transfer in the fields that are not assigned.\<close>

definition put_cache_write :: "u32 \<Rightarrow> u8 list option \<Rightarrow> u32 \<Rightarrow> int \<Rightarrow> u8 list \<Rightarrow> u8 list option" where
  "put_cache_write addr data len cyc buf = do {
     buf1 \<leftarrow> write32 buf 4 addr;
     cmd \<leftarrow> read32 buf1 0;
     buf2 \<leftarrow> write32 buf1 0 (set_field EMC_Cache 1
        (set_field EMC_Length (drop_bit 3 (dataBufferLengthAligned len)) cmd));
     (case data of
        Some bytes \<Rightarrow> do { xs \<leftarrow> read_bytes bytes 0 (unat len); write_bytes buf2 8 xs }
      | None \<Rightarrow> do {
          buf3 \<leftarrow> write_bytes buf2 8 (replicate (unat len) 0);
          if cyc = 0 then set_cycle_bits TRBS_PER_SEGMENT 8 buf3 else Some buf3
        })
   }"

definition EMBEDDED_CACHE_Write ::
  "env \<Rightarrow> addr option \<Rightarrow> u32 \<Rightarrow> u8 list option \<Rightarrow> u32 \<Rightarrow> int \<Rightarrow> ehub \<Rightarrow> int outcome" where
  "EMBEDDED_CACHE_Write k p addr data len cyc s = do {
     a \<leftarrow> p;
     c \<leftarrow> urb_contexts s a;
     status \<leftarrow> DEVICECONTEXT_ErrorCheck (Some s);
     if status < 0 then Some (status, s\<lparr>EmbeddedCacheWriteError := True\<rparr>)
     else if addr AND 7 \<noteq> 0 then Some (- EINVAL, s\<lparr>EmbeddedCacheWriteError := True\<rparr>)
     else do {
       u \<leftarrow> uc_Urb c;
       buf \<leftarrow> uc_DataBuffer c;
       buf' \<leftarrow> put_cache_write addr data len cyc buf;
       (st, t) \<leftarrow> URB_Submit k (Some a) (put_urb a
          (c\<lparr>uc_Urb := Some (u\<lparr>urb_transfer_buffer_length :=
                unat (sizeof_EMBEDDED_CACHE_TRANSFER + dataBufferLengthAligned len)\<rparr>),
             uc_DataBuffer := Some buf'\<rparr>) s);
       Some (st, if st < 0 then t\<lparr>EmbeddedCacheWriteError := True\<rparr> else t)
     }
   }"

section \<open>The device's side\<close>

text \<open>A memory command in which no field but the cache flag and the length is set.\<close>

definition cache_command :: "u32 \<Rightarrow> u32 \<Rightarrow> u32" where
  "cache_command cache len = set_field EMC_Cache cache (set_field EMC_Length len 0)"

text \<open>What a cache transfer means: a command with the cache flag and the length in units of
  eight bytes, the address, and exactly that many bytes of data.\<close>

definition decode_cache_transfer :: "u8 list \<Rightarrow> (u32 \<times> u8 list) option" where
  "decode_cache_transfer bs = do {
     cmd \<leftarrow> read32 bs 0;
     addr \<leftarrow> read32 bs 4;
     if cmd = cache_command 1 (get_field EMC_Length cmd)
        \<and> length bs = 8 + 8 * unat (get_field EMC_Length cmd)
     then Some (addr, drop 8 bs) else None
   }"

section \<open>Lengths\<close>

lemma aligned_length:
  assumes "unat len \<le> 4096"
  shows "unat (dataBufferLengthAligned len) = roundup (unat len) 8"
proof -
  have and7: "len AND 7 = len mod 8"
    using take_bit_eq_mod [of 3 len] take_bit_eq_mask [of 3 len] by (simp add: mask_eq_exp_minus_1)
  have m: "unat (len mod 8) = unat len mod 8" by (simp add: unat_mod)
  show ?thesis
  proof (cases "unat len mod 8 = 0")
    case True
    then have "len mod 8 = 0" using m by (simp add: unat_eq_0)
    moreover have "roundup (unat len) 8 = unat len" using True by (intro roundup_exact) auto
    ultimately show ?thesis by (simp add: dataBufferLengthAligned_def and7)
  next
    case False
    then have "len mod 8 \<noteq> 0" using m by (metis unat_0)
    have pad: "unat (8 - len mod 8) = 8 - unat len mod 8"
      using m by (subst unat_sub) (auto simp: word_le_nat_alt)
    have "unat (len + (8 - len mod 8)) = unat len + (8 - unat len mod 8)"
      using assms pad by (subst unat_add_lem [THEN iffD1]) auto
    moreover have "roundup (unat len) 8 = unat len + (8 - unat len mod 8)"
      using False unfolding roundup_def by presburger
    ultimately show ?thesis using \<open>len mod 8 \<noteq> 0\<close> by (simp add: dataBufferLengthAligned_def and7)
  qed
qed

lemma set_field_cache_command:
  "set_field EMC_Cache 1 (set_field EMC_Length l (cache_command c l')) = cache_command 1 l"
  by (rule bit_word_eqI) (auto simp: cache_command_def bit_set_field)

lemma cache_command_take_bit: "cache_command c (take_bit 16 l) = cache_command c l"
  by (simp add: cache_command_def set_field_def)

lemma cache_command_length: "get_field EMC_Length (cache_command c l) = take_bit 16 l"
  by (simp add: cache_command_def get_set_field get_set_field_other)

lemma drop_bit_3_length:
  assumes "unat len \<le> 4096"
  shows "8 * unat (take_bit 16 (drop_bit 3 (dataBufferLengthAligned len))) = roundup (unat len) 8"
proof -
  have r: "roundup (unat len) 8 < 4096 + 8" using roundup_bounds [of 8 "unat len"] assms by simp
  then have "unat (take_bit 16 (drop_bit 3 (dataBufferLengthAligned len))) = roundup (unat len) 8 div 8"
    using aligned_length [OF assms]
    by (simp add: unsigned_take_bit_eq take_bit_nat_eq_self drop_bit_eq_div unat_div)
  then show ?thesis using roundup_dvd [of 8 "unat len"] by simp
qed

section \<open>Contexts for cache writes\<close>

text \<open>A context of the cache pool: its buffer holds a header and the largest payload, and the
  command word in the buffer is zero or left over from an earlier cache write.\<close>

definition clean_header :: "u8 list \<Rightarrow> bool" where
  "clean_header buf \<longleftrightarrow> (\<exists>c l. read32 buf 0 = Some (cache_command c l))"

definition cache_context :: "usb_pipe \<Rightarrow> URB_CONTEXT \<Rightarrow> bool" where
  "cache_context p c \<longleftrightarrow>
     (\<exists>u buf. uc_Urb c = Some u \<and> urb_pipe u = p \<and> uc_DataBuffer c = Some buf
        \<and> length buf = 8 + MESSAGE_DATA_BUFFER_SIZE_CACHE \<and> clean_header buf)"

lemma clean_header_zero: "4 \<le> n \<Longrightarrow> clean_header (replicate n 0)"
proof -
  assume "4 \<le> n"
  then have "read32 (replicate n 0) 0 = Some (cache_command 0 0)"
    by (simp add: read32_def of_le32_def cache_command_def set_field_def min_def eval_nat_numeral)
  then show ?thesis unfolding clean_header_def by blast
qed

lemma new_cache_context:
  "cache_context p (new_URB_CONTEXT p (8 + MESSAGE_DATA_BUFFER_SIZE_CACHE) rtn ctx a)"
  by (simp add: cache_context_def new_URB_CONTEXT_def clean_header_zero)

lemma put_cache_write_header:
  assumes "clean_header buf" and "8 \<le> length buf"
  shows "\<exists>buf1 cmd buf2. write32 buf 4 addr = Some buf1 \<and> read32 buf1 0 = Some cmd
     \<and> write32 buf1 0 (set_field EMC_Cache 1
         (set_field EMC_Length (drop_bit 3 (dataBufferLengthAligned len)) cmd)) = Some buf2
     \<and> length buf2 = length buf \<and> read32 buf2 4 = Some addr
     \<and> read32 buf2 0 = Some (cache_command 1 (drop_bit 3 (dataBufferLengthAligned len)))"
proof -
  let ?cmd = "cache_command 1 (drop_bit 3 (dataBufferLengthAligned len))"
  obtain c l where cl: "read32 buf 0 = Some (cache_command c l)"
    using assms(1) by (auto simp: clean_header_def)
  obtain buf1 where b1: "write32 buf 4 addr = Some buf1"
    using assms(2) by (cases "write32 buf 4 addr") auto
  obtain buf2 where b2: "write32 buf1 0 ?cmd = Some buf2"
    using assms(2) write32_length [OF b1] by (cases "write32 buf1 0 ?cmd") auto
  have "read32 buf1 0 = Some (cache_command c l)"
    using cl read32_write32_other [OF b1] by simp
  moreover have "read32 buf2 4 = Some addr"
    using read32_write32_other [OF b2, of 4] read32_write32 [OF b1] by simp
  ultimately show ?thesis
    using b1 b2 read32_write32 [OF b2] write32_length [OF b1] write32_length [OF b2]
    by (auto simp: set_field_cache_command simp del: One_nat_def)
qed

lemma put_cache_write_ok:
  assumes "clean_header buf" and "8 + roundup (unat len) 8 \<le> length buf"
    and "unat len \<le> length bytes" and "unat len \<le> 4096"
  shows "\<exists>buf' d. put_cache_write addr (Some bytes) len cyc buf = Some buf'
     \<and> length buf' = length buf \<and> clean_header buf'
     \<and> decode_cache_transfer (take (8 + roundup (unat len) 8) buf') = Some (addr, d)
     \<and> length d = roundup (unat len) 8 \<and> take (unat len) d = take (unat len) bytes"
proof -
  let ?n = "unat len" and ?m = "roundup (unat len) 8"
  let ?cmd = "cache_command 1 (drop_bit 3 (dataBufferLengthAligned len))"
  let ?xs = "take ?n bytes"
  have le: "?n \<le> ?m" by (simp add: roundup_bounds)
  obtain buf1 cmd buf2 where h: "write32 buf 4 addr = Some buf1" "read32 buf1 0 = Some cmd"
    "write32 buf1 0 (set_field EMC_Cache 1
         (set_field EMC_Length (drop_bit 3 (dataBufferLengthAligned len)) cmd)) = Some buf2"
    "length buf2 = length buf" "read32 buf2 4 = Some addr" "read32 buf2 0 = Some ?cmd"
    using put_cache_write_header [OF assms(1)] assms(2) by fastforce
  obtain buf' where b: "write_bytes buf2 8 ?xs = Some buf'"
    using assms le h(4) by (cases "write_bytes buf2 8 ?xs") auto
  have len': "length buf' = length buf" using write_bytes_length [OF b] h(4) by simp
  have hd: "read32 buf' 0 = Some ?cmd" "read32 buf' 4 = Some addr"
    using h read_bytes_write_bytes_other [OF b, of 0 4] read_bytes_write_bytes_other [OF b, of 4 4]
    by (simp_all add: read32_read_bytes)
  have "take ?n (drop 8 buf') = ?xs"
    using read_bytes_write_bytes [OF b] assms(3) by (auto simp: read_bytes_def split: if_splits)
  then have d: "take ?n (drop 8 (take (8 + ?m) buf')) = ?xs"
    using le by (simp add: drop_take min_def)
  have "read32 (take (8 + ?m) buf') 0 = Some ?cmd" "read32 (take (8 + ?m) buf') 4 = Some addr"
    using hd assms(2) len' by (auto simp: read32_def min_def drop_take split: if_splits)
  then have "decode_cache_transfer (take (8 + ?m) buf') = Some (addr, drop 8 (take (8 + ?m) buf'))"
    using assms(2,4) len' drop_bit_3_length [OF assms(4)]
    by (simp add: decode_cache_transfer_def cache_command_length cache_command_take_bit)
  moreover have "put_cache_write addr (Some bytes) len cyc buf = Some buf'"
    using h b assms(3) by (simp add: put_cache_write_def read_bytes_def)
  moreover have "clean_header buf'" using hd(1) by (auto simp: clean_header_def)
  ultimately show ?thesis using d len' assms(2) by auto
qed

text \<open>The cycle loop stays inside the buffer only if every TRB it touches does.\<close>

lemma set_cycle_bits_bound:
  "set_cycle_bits (Suc n) off buf = Some buf' \<Longrightarrow> off + 256 * n + 16 \<le> length buf"
proof (induction n arbitrary: off buf)
  case 0
  then show ?case by (auto simp: read32_def elim!: bind_eq_SomeE split: if_splits)
next
  case (Suc n)
  from Suc.prems obtain control buf1 where w: "write32 buf (off + 12) (control OR TRB_CYCLE) = Some buf1"
    and "set_cycle_bits (Suc n) (off + 256) buf1 = Some buf'"
    by (auto simp del: set_cycle_bits.simps(2) simp: set_cycle_bits.simps(2) [of "Suc n"]
        elim!: bind_eq_SomeE)
  from Suc.IH [OF this(2)] write32_length [OF w] show ?case by simp
qed

lemma put_cache_write_length:
  "put_cache_write addr None len 0 buf = Some buf' \<Longrightarrow> 8 + 256 * 63 + 16 \<le> length buf"
  by (auto simp: put_cache_write_def TRBS_PER_SEGMENT_def write32_length
      dest!: set_cycle_bits_bound [where n = 63, simplified] dest: write_bytes_length
      elim!: bind_eq_SomeE)

lemma cache_write_live:
  assumes "device_ok s" and "urb_contexts s a = Some c" and "addr AND 7 = 0"
    and "uc_Urb c = Some u" and "uc_DataBuffer c = Some buf"
    and "put_cache_write addr data len cyc buf = Some buf'"
  shows "EMBEDDED_CACHE_Write k (Some a) addr data len cyc s =
     (let st = usb_submit_urb k (tick s);
          c' = c\<lparr>uc_Urb := Some (u\<lparr>urb_transfer_buffer_length :=
                unat (sizeof_EMBEDDED_CACHE_TRANSFER + dataBufferLengthAligned len)\<rparr>),
             uc_DataBuffer := Some buf'\<rparr>;
          t = submitted st a c' (put_urb a c' s)
      in Some (st, if st < 0 then t\<lparr>EmbeddedCacheWriteError := True\<rparr> else t))"
  using assms
  by (simp add: EMBEDDED_CACHE_Write_def URB_Submit_live Let_def) (simp add: put_urb_def)

section \<open>The outcome of a write\<close>

lemma cache_write_ok:
  assumes "device_ok s" and "urb_contexts s a = Some c" and "cache_context p c"
    and "addr AND 7 = 0" and "unat len \<le> length bytes"
    and "unat len \<le> MESSAGE_DATA_BUFFER_SIZE_CACHE"
  shows "\<exists>t c'. EMBEDDED_CACHE_Write k (Some a) addr (Some bytes) len cyc s
        = Some (usb_submit_urb k (tick s), t)
     \<and> urb_contexts t a = Some c' \<and> cache_context p c'
     \<and> (if usb_submit_urb k (tick s) < 0 then usb_log t = usb_log s \<and> EmbeddedCacheWriteError t
        else same_health s t \<and> (\<exists>bs d. usb_log t = usb_log s @ [(p, bs)]
          \<and> decode_cache_transfer bs = Some (addr, d) \<and> length d = roundup (unat len) 8
          \<and> take (unat len) d = take (unat len) bytes))"
proof -
  obtain u buf where c: "uc_Urb c = Some u" "urb_pipe u = p" "uc_DataBuffer c = Some buf"
    "length buf = 8 + MESSAGE_DATA_BUFFER_SIZE_CACHE" "clean_header buf"
    using assms(3) by (auto simp: cache_context_def)
  have len: "unat len \<le> 4096" using assms(6) by simp
  have "roundup (unat len) 8 \<le> MESSAGE_DATA_BUFFER_SIZE_CACHE"
  proof -
    have "unat len div 8 + (if unat len mod 8 = 0 then 0 else 1) \<le> 384" using assms(6) by presburger
    moreover have "roundup (unat len) 8 = 8 * (unat len div 8 + (if unat len mod 8 = 0 then 0 else 1))"
      unfolding roundup_def by presburger
    ultimately show ?thesis by simp
  qed
  then obtain buf' d where b: "put_cache_write addr (Some bytes) len cyc buf = Some buf'"
    "length buf' = length buf" "clean_header buf'"
    "decode_cache_transfer (take (8 + roundup (unat len) 8) buf') = Some (addr, d)"
    "length d = roundup (unat len) 8" "take (unat len) d = take (unat len) bytes"
    using put_cache_write_ok [OF c(5) _ assms(5) len, of addr cyc] c(4) by auto
  have "unat (sizeof_EMBEDDED_CACHE_TRANSFER + dataBufferLengthAligned len)
      = 8 + roundup (unat len) 8"
    using aligned_length [OF len] \<open>roundup (unat len) 8 \<le> _\<close>
    by (simp add: sizeof_EMBEDDED_CACHE_TRANSFER_def unat_word_ariths)
  then show ?thesis
    using b c cache_write_live [OF assms(1,2,4) c(1,3) b(1), of k]
    by (auto simp: Let_def submitted_def urb_transfer_def cache_context_def put_urb_def
        same_health_def)
qed

lemma cache_write_result:
  assumes "EMBEDDED_CACHE_Write k p addr data len cyc s = Some (st, t)"
  shows "if st < 0 then EmbeddedCacheWriteError t \<and> \<not> device_ok t \<and> usb_log t = usb_log s
     else device_ok s \<and> device_ok t \<and> addr AND 7 = 0 \<and> 1 \<ge> length (usb_log t) - length (usb_log s)"
proof -
  obtain a c where ac: "p = Some a" "urb_contexts s a = Some c"
    using assms by (auto simp: EMBEDDED_CACHE_Write_def elim!: bind_eq_SomeE)
  obtain e where e: "DEVICECONTEXT_ErrorCheck (Some s) = Some e"
    using assms by (auto simp: EMBEDDED_CACHE_Write_def elim!: bind_eq_SomeE)
  show ?thesis
  proof (cases "e = 0 \<and> addr AND 7 = 0")
    case True
    then have ok: "device_ok s" using e by (auto simp: ErrorCheck_eq_0)
    obtain u buf buf' where l: "uc_Urb c = Some u" "uc_DataBuffer c = Some buf"
      "put_cache_write addr data len cyc buf = Some buf'"
      using assms ac e True by (auto simp: EMBEDDED_CACHE_Write_def elim!: bind_eq_SomeE)
    show ?thesis
      using cache_write_live [OF ok ac(2) _ l, of k] assms ac(1) True ok
      by (auto simp: Let_def submitted_def put_urb_def urb_transfer_def device_ok_def
          interface_bound_def split: option.splits if_splits)
  next
    case False
    then show ?thesis
      using assms ac e ErrorCheck_range [OF e]
      by (auto simp: EMBEDDED_CACHE_Write_def device_ok_def split: if_splits)
  qed
qed

text \<open>What a cache write changes, whatever its outcome: the error flag, its own context, the
  clock, the log and the URBs the core holds.\<close>

lemma cache_write_total:
  assumes "xhci_hcd_ptr s \<noteq> XhciFreed" and "UsbDevice s \<noteq> None"
    and "urb_contexts s a = Some c" and "cache_context p c" and "unat len \<le> length bytes"
    and "unat len \<le> MESSAGE_DATA_BUFFER_SIZE_CACHE"
  shows "\<exists>st er c' n lg pd. EMBEDDED_CACHE_Write k (Some a) addr (Some bytes) len cyc s
        = Some (st, s\<lparr>EmbeddedCacheWriteError := er, urb_contexts := (urb_contexts s)(a \<mapsto> c'),
            tick := n, usb_log := lg, usb_pending := pd\<rparr>) \<and> cache_context p c'
     \<and> (if st < 0 then lg = usb_log s
        else device_ok s \<and> \<not> er \<and> (\<exists>bs d. lg = usb_log s @ [(p, bs)]
          \<and> decode_cache_transfer bs = Some (addr, d) \<and> length d = roundup (unat len) 8
          \<and> take (unat len) d = take (unat len) bytes))"
proof -
  obtain e where e: "DEVICECONTEXT_ErrorCheck (Some s) = Some e"
    using ErrorCheck_no_fault [OF assms(1,2)] by blast
  show ?thesis
  proof (cases "device_ok s \<and> addr AND 7 = 0")
    case True
    then have ok: "device_ok s" and al: "addr AND 7 = 0" by auto
    obtain u buf where c: "uc_Urb c = Some u" "uc_DataBuffer c = Some buf"
      using assms(4) by (auto simp: cache_context_def)
    obtain t c' where w: "EMBEDDED_CACHE_Write k (Some a) addr (Some bytes) len cyc s
        = Some (usb_submit_urb k (tick s), t)" "urb_contexts t a = Some c'" "cache_context p c'"
      "if usb_submit_urb k (tick s) < 0 then usb_log t = usb_log s \<and> EmbeddedCacheWriteError t
        else same_health s t \<and> (\<exists>bs d. usb_log t = usb_log s @ [(p, bs)]
          \<and> decode_cache_transfer bs = Some (addr, d) \<and> length d = roundup (unat len) 8
          \<and> take (unat len) d = take (unat len) bytes)"
      using cache_write_ok [OF ok assms(3,4) al assms(5,6)] by blast
    obtain buf' where "put_cache_write addr (Some bytes) len cyc buf = Some buf'"
      using w(1) ok al c assms(3) by (auto simp: EMBEDDED_CACHE_Write_def elim!: bind_eq_SomeE)
    from cache_write_live [OF ok assms(3) al c this, of k] w(1)
    have "t = s\<lparr>EmbeddedCacheWriteError := EmbeddedCacheWriteError t,
        urb_contexts := (urb_contexts s)(a \<mapsto> c'), tick := tick t, usb_log := usb_log t,
        usb_pending := usb_pending t\<rparr>"
      using w(2) by (auto simp: Let_def submitted_def put_urb_def)
    moreover have "\<not> usb_submit_urb k (tick s) < 0 \<Longrightarrow> \<not> EmbeddedCacheWriteError t"
      using w(4) ok by (auto simp: same_health_def device_ok_def)
    ultimately show ?thesis using w ok by metis
  next
    case False
    have "s = s\<lparr>urb_contexts := (urb_contexts s)(a \<mapsto> c), tick := tick s, usb_log := usb_log s,
      usb_pending := usb_pending s\<rparr>"
      using assms(3) by (simp add: fun_upd_idem)
    moreover obtain st where "EMBEDDED_CACHE_Write k (Some a) addr (Some bytes) len cyc s
        = Some (st, s\<lparr>EmbeddedCacheWriteError := True\<rparr>)" "st < 0"
      using False e ErrorCheck_range [OF e] ErrorCheck_eq_0 [of s] assms(3)
      by (auto simp: EMBEDDED_CACHE_Write_def)
    ultimately show ?thesis using assms(3,4)
      by (intro exI [of _ st] exI [of _ True] exI [of _ c] exI [of _ "tick s"] exI [of _ "usb_log s"]
          exI [of _ "usb_pending s"])
        (simp add: fun_upd_idem)
  qed
qed

section \<open>Properties\<close>

text \<open>
  C21. A cache write on a healthy device sends exactly one transfer, and the device decodes it
  to the address the caller asked for and the caller's bytes, padded to a multiple of eight;
  the context is left ready for the next write. A failed submission sends nothing and records
  the error.
\<close>

theorem cache_write_correct:
  assumes "device_ok s" and "urb_contexts s a = Some c" and "cache_context p c"
    and "addr AND 7 = 0" and "unat len \<le> length bytes"
    and "unat len \<le> MESSAGE_DATA_BUFFER_SIZE_CACHE"
  shows "\<exists>t c'. EMBEDDED_CACHE_Write k (Some a) addr (Some bytes) len cyc s
        = Some (usb_submit_urb k (tick s), t)
     \<and> urb_contexts t a = Some c' \<and> cache_context p c'
     \<and> (if usb_submit_urb k (tick s) < 0 then usb_log t = usb_log s \<and> EmbeddedCacheWriteError t
        else same_health s t \<and> (\<exists>bs d. usb_log t = usb_log s @ [(p, bs)]
          \<and> decode_cache_transfer bs = Some (addr, d) \<and> length d = roundup (unat len) 8
          \<and> take (unat len) d = take (unat len) bytes))"
  using assms by (rule cache_write_ok)

definition demo_cache :: ehub where
  "demo_cache = ready_ehub\<lparr>next_addr := 1, urb_contexts := [0 \<mapsto>
     new_URB_CONTEXT (Pipe PIPE_BULK False 4) (8 + MESSAGE_DATA_BUFFER_SIZE_CACHE)
       URB_CompletionRoutine_Cache_ptr None 0]\<rparr>"

lemma demo_cache_ok: "device_ok demo_cache"
  by (simp add: demo_cache_def demo_defs device_ok_def interface_bound_def)

theorem cache_write_correct_witness:
  "\<exists>t bs d. EMBEDDED_CACHE_Write quiet_env (Some 0) 0x1000 (Some demo_bytes) 5 1 demo_cache
        = Some (0, t) \<and> usb_log t = [(Pipe PIPE_BULK False 4, bs)]
     \<and> decode_cache_transfer bs = Some (0x1000, d) \<and> take 5 d = [1, 2, 3, 4, 5]"
proof -
  have "urb_contexts demo_cache 0 = Some (new_URB_CONTEXT (Pipe PIPE_BULK False 4)
      (8 + MESSAGE_DATA_BUFFER_SIZE_CACHE) URB_CompletionRoutine_Cache_ptr None 0)"
    by (simp add: demo_cache_def)
  from cache_write_correct [OF demo_cache_ok this new_cache_context, of "0x1000" 5 demo_bytes
      quiet_env 1]
  show ?thesis by (simp add: demo_bytes_def quiet_env_def) (auto simp: demo_cache_def demo_defs)
qed

text \<open>
  A cache write that fails, whatever the reason, sends nothing and makes the device
  unusable: the error is sticky. A write that returns success had an address aligned to
  eight bytes on a healthy device.
\<close>

lemma cache_write_failure:
  assumes "EMBEDDED_CACHE_Write k p addr data len cyc s = Some (st, t)"
  shows "if st < 0 then EmbeddedCacheWriteError t \<and> \<not> device_ok t \<and> usb_log t = usb_log s
     else device_ok s \<and> device_ok t \<and> addr AND 7 = 0 \<and> 1 \<ge> length (usb_log t) - length (usb_log s)"
  using assms by (rule cache_write_result)

theorem cache_write_failure_witness:
  "\<exists>t. EMBEDDED_CACHE_Write quiet_env (Some 0) 0x1004 (Some demo_bytes) 8 1 demo_cache = Some (- EINVAL, t)
     \<and> \<not> device_ok t"
proof -
  have "EMBEDDED_CACHE_Write quiet_env (Some 0) 0x1004 (Some demo_bytes) 8 1 demo_cache
      = Some (- EINVAL, demo_cache\<lparr>EmbeddedCacheWriteError := True\<rparr>)"
    by (simp add: EMBEDDED_CACHE_Write_def demo_cache_ok) (simp add: demo_cache_def)
  from cache_write_failure [OF this] this show ?thesis by auto
qed

text \<open>
  C30. Clearing a segment of the cache with inverted cycle state cannot work: called with no
  data and cycle state 0, the loop over the segment's TRBs runs past the end of every buffer
  of the cache pool, because it advances sixteen TRBs at a time.
\<close>

theorem cache_write_clear_overruns:
  assumes "device_ok s" and "urb_contexts s a = Some c" and "cache_context p c"
    and "addr AND 7 = 0"
  shows "EMBEDDED_CACHE_Write k (Some a) addr None len 0 s = None"
proof -
  obtain u buf where c: "uc_Urb c = Some u" "uc_DataBuffer c = Some buf"
    "length buf = 8 + MESSAGE_DATA_BUFFER_SIZE_CACHE"
    using assms(3) by (auto simp: cache_context_def)
  then have "put_cache_write addr None len 0 buf = None"
    using put_cache_write_length [of addr len buf] by (cases "put_cache_write addr None len 0 buf") auto
  then show ?thesis using assms c by (simp add: EMBEDDED_CACHE_Write_def)
qed

theorem cache_write_clear_overruns_witness:
  "EMBEDDED_CACHE_Write quiet_env (Some 0) 0x1000 None 1024 0 demo_cache = None"
  by (rule cache_write_clear_overruns [OF demo_cache_ok _ new_cache_context])
    (simp_all add: demo_cache_def)

end
