(* ===== verification/Ehub_Register.thy ===== *)
theory Ehub_Register
  imports Ehub_Urb
begin

text \<open>
  Access to the registers of the embedded controller over USB
  (\<open>ehub_embedded_register.c\<close>, \<open>ehub_xhci_doorbell_expand\<close> of \<open>ehub_module.c\<close>, the
  accessors of \<open>xhci-ehub.c\<close> and \<open>xhci.h\<close>, and the doorbells of \<open>xhci-ring.c\<close>). A read
  sends a command on the bulk pipe and waits for the response message; a write sends command
  and data; doorbell writes use a pool of contexts and do not wait.
\<close>

section \<open>Register commands\<close>

abbreviation ERC_Read :: field where "ERC_Read \<equiv> (0, 1)"
abbreviation ERC_Write :: field where "ERC_Write \<equiv> (1, 1)"
abbreviation ERC_RegAccess :: field where "ERC_RegAccess \<equiv> (5, 1)"
abbreviation ERC_ByteEnables :: field where "ERC_ByteEnables \<equiv> (8, 8)"
abbreviation ERC_Address :: field where "ERC_Address \<equiv> (16, 16)"

definition register_read_command :: "u32 \<Rightarrow> u32" where
  "register_read_command addr =
     set_field ERC_Write 0 (set_field ERC_Read 1 (set_field ERC_RegAccess 1
       (set_field ERC_ByteEnables 0x0F (set_field ERC_Address addr 0))))"

definition register_write_command :: "u32 \<Rightarrow> u32" where
  "register_write_command addr =
     set_field ERC_Write 1 (set_field ERC_Read 0 (set_field ERC_RegAccess 1
       (set_field ERC_ByteEnables 0xFF (set_field ERC_Address addr 0))))"

section \<open>The register semaphore\<close>

text \<open>An interrupted wait returns an error that the callers ignore; waiting for a semaphore
  that nobody releases does not return.\<close>

definition down_register :: "env \<Rightarrow> ehub \<Rightarrow> int outcome" where
  "down_register k s =
     (if lock_interrupted k (tick s) then Some (- 4, tick_up s)
      else if EmbeddedRegisterLock s = 0 then None
      else Some (0, (tick_up s)\<lparr>EmbeddedRegisterLock := EmbeddedRegisterLock s - 1\<rparr>))"

definition up_register :: "ehub \<Rightarrow> ehub" where
  "up_register s = s\<lparr>EmbeddedRegisterLock := Suc (EmbeddedRegisterLock s)\<rparr>"

text \<open>The common exit: a negative status is recorded for good.\<close>

definition register_exit :: "int \<Rightarrow> ehub \<Rightarrow> ehub" where
  "register_exit status s = (if status < 0 then s\<lparr>EmbeddedRegisterError := True\<rparr> else s)"

section \<open>Reading and writing registers\<close>

text \<open>The command of a read, put into the buffer of the read context.\<close>

definition put_register_read :: "addr \<Rightarrow> u32 \<Rightarrow> ehub \<Rightarrow> ehub option" where
  "put_register_read a addr s = do {
     c \<leftarrow> urb_contexts s a;
     buf \<leftarrow> uc_DataBuffer c;
     buf1 \<leftarrow> write32 buf 0 0;
     buf2 \<leftarrow> write32 buf1 0 (register_read_command addr);
     Some (put_urb a (c\<lparr>uc_DataBuffer := Some buf2\<rparr>) s)
   }"

text \<open>Between taking and releasing the semaphore; the result is the status and what the caller
  gets in \<open>*Data\<close>.\<close>

definition register_read_locked :: "env \<Rightarrow> u32 \<Rightarrow> ehub \<Rightarrow> (int \<times> u32) outcome" where
  "register_read_locked k addr s =
     (case UrbContextEmbeddedRegisterRead s of
        None \<Rightarrow> Some ((- ESHUTDOWN, - 1), s)
      | Some a \<Rightarrow> do {
          s0 \<leftarrow> put_register_read a addr s;
          s1 \<leftarrow> NOTIFICATION_Reset (EventUrb a) s0;
          s2 \<leftarrow> NOTIFICATION_Reset EventRegisterRead s1;
          (st1, s3) \<leftarrow> URB_Submit k (Some a) s2;
          if st1 < 0 then Some ((st1, - 1), s3)
          else do {
            (st2, s4) \<leftarrow> NOTIFICATION_Wait k (EventUrb a) s3;
            if st2 < 0 then Some ((st2, - 1), s4)
            else do {
              (st3, s5) \<leftarrow> NOTIFICATION_Wait k EventRegisterRead s4;
              if st3 < 0 then Some ((st3, - 1), s5)
              else Some ((st3, DataEmbeddedRegisterRead s5), s5)
            }
          }
        })"

definition EMBEDDED_REGISTER_Read :: "env \<Rightarrow> u32 \<Rightarrow> ehub \<Rightarrow> (int \<times> u32) outcome" where
  "EMBEDDED_REGISTER_Read k addr s = do {
     (r, s1) \<leftarrow> down_register k s;
     ((status, data), s2) \<leftarrow> register_read_locked k addr s1;
     Some ((status, data), up_register (register_exit status s2))
   }"

text \<open>Command and data of a write, put into the buffer of a context.\<close>

definition put_register_write :: "addr \<Rightarrow> u32 \<Rightarrow> u32 \<Rightarrow> ehub \<Rightarrow> ehub option" where
  "put_register_write a addr data s = do {
     c \<leftarrow> urb_contexts s a;
     buf \<leftarrow> uc_DataBuffer c;
     buf1 \<leftarrow> write32 buf 0 0;
     buf2 \<leftarrow> write32 buf1 0 (register_write_command addr);
     buf3 \<leftarrow> write32 buf2 4 data;
     Some (put_urb a (c\<lparr>uc_DataBuffer := Some buf3\<rparr>) s)
   }"

definition register_write_locked :: "env \<Rightarrow> u32 \<Rightarrow> u32 \<Rightarrow> ehub \<Rightarrow> (int \<times> u32) outcome" where
  "register_write_locked k addr data s = do {
     a \<leftarrow> UrbContextEmbeddedRegisterWrite s;
     s1 \<leftarrow> put_register_write a addr data s;
     (st1, s2) \<leftarrow> URB_Submit k (Some a) s1;
     if st1 < 0 then Some ((st1, - 1), s2)
     else do {
       (st2, s3) \<leftarrow> NOTIFICATION_Wait k (EventUrb a) s2;
       if st2 < 0 then Some ((st2, - 1), s3) else Some ((st2, data), s3)
     }
   }"

definition EMBEDDED_REGISTER_Write :: "env \<Rightarrow> u32 \<Rightarrow> u32 \<Rightarrow> ehub \<Rightarrow> (int \<times> u32) outcome" where
  "EMBEDDED_REGISTER_Write k addr data s = do {
     (r, s1) \<leftarrow> down_register k s;
     ((status, data'), s2) \<leftarrow> register_write_locked k addr data s1;
     Some ((status, data'), up_register (register_exit status s2))
   }"

section \<open>Doorbells\<close>

text \<open>The loop that adds doorbell contexts; linking a context that was freed is a fault.\<close>

fun doorbell_expand_loop :: "env \<Rightarrow> nat \<Rightarrow> nat \<Rightarrow> ehub \<Rightarrow> nat outcome" where
  "doorbell_expand_loop k 0 index s = Some (index, s)"
| "doorbell_expand_loop k (Suc n) index s = do {
     (p, s1) \<leftarrow> URB_Create k (UsbPipeDoorbellOut s) 8 URB_CompletionRoutine_Doorbell_ptr None s;
     case p of
       None \<Rightarrow> Some (index, s1)
     | Some a \<Rightarrow> do {
         c \<leftarrow> urb_contexts s1 a;
         doorbell_expand_loop k n (Suc index)
           (s1\<lparr>doorbell_list_free := list_add_tail a (doorbell_list_free s1)\<rparr>)
       }
   }"

definition ehub_xhci_doorbell_expand :: "env \<Rightarrow> nat \<Rightarrow> ehub \<Rightarrow> nat outcome" where
  "ehub_xhci_doorbell_expand k entries s = doorbell_expand_loop k entries 0 s"

definition EMBEDDED_REGISTER_Write_Doorbell ::
  "env \<Rightarrow> u32 \<Rightarrow> u32 \<Rightarrow> ehub \<Rightarrow> (int \<times> u32) outcome" where
  "EMBEDDED_REGISTER_Write_Doorbell k addr data s = do {
     s1 \<leftarrow> lock_doorbell s;
     (new_entries, s2) \<leftarrow> (if doorbell_list_free s1 = []
        then ehub_xhci_doorbell_expand k 4 s1 else Some (1, s1));
     if new_entries < 1 then Some ((- ENOBUFS, data), unlock_doorbell s2)
     else (case doorbell_list_free s2 of
       [] \<Rightarrow> None
     | a # _ \<Rightarrow> do {
         s3 \<leftarrow> put_register_write a addr data (unlock_doorbell (doorbell_to_busy a s2));
         (status, s4) \<leftarrow> URB_Submit k (Some a) s3;
         Some ((status, if status < 0 then - 1 else data), register_exit status s4)
       })
   }"

section \<open>Accessors of the controller\<close>

definition ehub_xhci_readl :: "env \<Rightarrow> u32 \<Rightarrow> ehub \<Rightarrow> u32 outcome" where
  "ehub_xhci_readl k regs s = do {
     status \<leftarrow> DEVICECONTEXT_ErrorCheck (Some s);
     if status < 0 then Some (- 1, s)
     else do {
       ((st, rdata), s1) \<leftarrow> EMBEDDED_REGISTER_Read k regs s;
       Some (if st < 0 then - 1 else rdata, s1)
     }
   }"

definition ehub_xhci_writel :: "env \<Rightarrow> u32 \<Rightarrow> u32 \<Rightarrow> ehub \<Rightarrow> ehub option" where
  "ehub_xhci_writel k val regs s = do {
     status \<leftarrow> DEVICECONTEXT_ErrorCheck (Some s);
     if status < 0 then Some s
     else map_option snd (EMBEDDED_REGISTER_Write k regs val s)
   }"

definition ehub_xhci_writel_doorbell :: "env \<Rightarrow> u32 \<Rightarrow> u32 \<Rightarrow> ehub \<Rightarrow> ehub option" where
  "ehub_xhci_writel_doorbell k val regs s = do {
     status \<leftarrow> DEVICECONTEXT_ErrorCheck (Some s);
     if status < 0 then Some s
     else map_option snd (EMBEDDED_REGISTER_Write_Doorbell k regs val s)
   }"

definition xhci_read_64 :: "env \<Rightarrow> u32 \<Rightarrow> ehub \<Rightarrow> u64 outcome" where
  "xhci_read_64 k regs s = do {
     (lo, s1) \<leftarrow> ehub_xhci_readl k regs s;
     (hi, s2) \<leftarrow> ehub_xhci_readl k (regs + 4) s1;
     Some (ucast lo + push_bit 32 (ucast hi), s2)
   }"

definition xhci_write_64 :: "env \<Rightarrow> u64 \<Rightarrow> u32 \<Rightarrow> ehub \<Rightarrow> ehub option" where
  "xhci_write_64 k val regs s = do {
     s1 \<leftarrow> ehub_xhci_writel k (ucast val) regs s;
     ehub_xhci_writel k (ucast (drop_bit 32 val)) (regs + 4) s1
   }"

definition CMD_RING_STATE_RUNNING :: u32 where "CMD_RING_STATE_RUNNING = 1"
definition SET_DEQ_PENDING :: u32 where "SET_DEQ_PENDING = 1"
definition EP_HALTED :: u32 where "EP_HALTED = 2"
definition EP_HALT_PENDING :: u32 where "EP_HALT_PENDING = 4"

definition DB_VALUE :: "u32 \<Rightarrow> u32 \<Rightarrow> u32" where
  "DB_VALUE ep stream = ((ep + 1) AND 0xff) OR push_bit 16 stream"

definition DB_VALUE_HOST :: u32 where "DB_VALUE_HOST = 0"

definition ehub_xhci_ring_cmd_db_low :: "env \<Rightarrow> ehub \<Rightarrow> ehub option" where
  "ehub_xhci_ring_cmd_db_low k s =
     (if cmd_ring_state s AND CMD_RING_STATE_RUNNING = 0 then Some s
      else ehub_xhci_writel_doorbell k DB_VALUE_HOST (doorbell_array s) s)"

text \<open>Without a command ring cache the command doorbell is rung directly.\<close>

definition ehub_xhci_ring_cmd_db :: "env \<Rightarrow> ehub \<Rightarrow> ehub option" where
  "ehub_xhci_ring_cmd_db k s =
     (if cmd_ring_state s AND CMD_RING_STATE_RUNNING = 0 then Some s
      else ehub_xhci_ring_cmd_db_low k s)"

definition ehub_xhci_ring_ep_doorbell :: "env \<Rightarrow> u32 \<Rightarrow> u32 \<Rightarrow> u32 \<Rightarrow> ehub \<Rightarrow> ehub option" where
  "ehub_xhci_ring_ep_doorbell k slot_id ep_index stream_id s =
     (let db_addr = doorbell_array s + 4 * slot_id; st = ep_state s slot_id ep_index in
      if st AND EP_HALT_PENDING \<noteq> 0 \<or> st AND SET_DEQ_PENDING \<noteq> 0 \<or> st AND EP_HALTED \<noteq> 0
      then Some s
      else ehub_xhci_writel_doorbell k (DB_VALUE ep_index stream_id) db_addr s)"

section \<open>Register commands on the bus\<close>

lemmas field_simps' = get_set_field get_set_field_other

lemma register_read_command_fields:
  "get_field ERC_Address (register_read_command addr) = take_bit 16 addr"
  "get_field ERC_Read (register_read_command addr) = 1"
  "get_field ERC_Write (register_read_command addr) = 0"
  "get_field ERC_RegAccess (register_read_command addr) = 1"
  "get_field ERC_ByteEnables (register_read_command addr) = 0x0F"
  by (simp_all add: register_read_command_def field_simps' take_bit_eq_mod)

lemma register_write_command_fields:
  "get_field ERC_Address (register_write_command addr) = take_bit 16 addr"
  "get_field ERC_Read (register_write_command addr) = 0"
  "get_field ERC_Write (register_write_command addr) = 1"
  "get_field ERC_RegAccess (register_write_command addr) = 1"
  "get_field ERC_ByteEnables (register_write_command addr) = 0xFF"
  by (simp_all add: register_write_command_def field_simps' take_bit_eq_mod)

lemma register_command_trunc:
  "register_read_command (take_bit 16 addr) = register_read_command addr"
  "register_write_command (take_bit 16 addr) = register_write_command addr"
  by (simp_all add: register_read_command_def register_write_command_def set_field_def)

lemma register_command_inj:
  "register_read_command a = register_read_command b \<longleftrightarrow> take_bit 16 a = take_bit 16 b"
  "register_write_command a = register_write_command b \<longleftrightarrow> take_bit 16 a = take_bit 16 b"
  "register_read_command a \<noteq> register_write_command b"
  by (metis register_read_command_fields(1) register_command_trunc(1))
    (metis register_write_command_fields(1) register_command_trunc(2),
     metis register_read_command_fields(2) register_write_command_fields(2) zero_neq_one)

section \<open>Results of reads and writes\<close>

lemma register_read_locked_result:
  assumes "register_read_locked k addr s = Some ((st, d), t)"
  shows "(st < 0 \<longrightarrow> d = - 1) \<and> (\<not> st < 0 \<longrightarrow> st = 0 \<and> d = DataEmbeddedRegisterRead t)"
  using assms unfolding register_read_locked_def
  by (auto simp: bind_eq_Some_conv elim!: Wait_cases split: option.splits if_splits)

lemma register_write_locked_result:
  assumes "register_write_locked k addr data s = Some ((st, d), t)"
  shows "(st < 0 \<longrightarrow> d = - 1) \<and> (\<not> st < 0 \<longrightarrow> st = 0 \<and> d = data)"
  using assms unfolding register_write_locked_def
  by (auto simp: bind_eq_Some_conv elim!: Wait_cases split: option.splits if_splits)

lemma put_register_write_live:
  assumes "urb_contexts s a = Some c" and "uc_DataBuffer c = Some buf" and "length buf = 8"
  shows "put_register_write a addr data s = Some (put_urb a
     (c\<lparr>uc_DataBuffer := Some (le32 (register_write_command addr) @ le32 data)\<rparr>) s)"
  using assms by (auto simp: put_register_write_def write32_def write_bytes_def)

text \<open>The write context is ready: live, with an eight byte buffer that is sent whole, and completed
  by \<open>URB_CompletionRoutine_Simple\<close>.\<close>

definition register_write_context :: "usb_pipe \<Rightarrow> addr \<Rightarrow> URB_CONTEXT \<Rightarrow> bool" where
  "register_write_context p a c \<longleftrightarrow> uc_DeviceContextPvoid c
     \<and> (\<exists>u buf. uc_DataBuffer c = Some buf \<and> length buf = 8 \<and> uc_Urb c = Some u
        \<and> urb_transfer_buffer_length u = 8 \<and> urb_pipe u = p
        \<and> urb_complete u = URB_CompletionRoutine_Simple_ptr \<and> urb_context u = UrbContextPtr a)"

lemma register_write_context_updates [simp]:
  "register_write_context p a (c\<lparr>uc_Event := ev\<rparr>) = register_write_context p a c"
  "register_write_context p a (c\<lparr>uc_Status := st\<rparr>) = register_write_context p a c"
  "register_write_context p a (c\<lparr>uc_ActualLength := n\<rparr>) = register_write_context p a c"
  "register_write_context p a (c\<lparr>uc_UrbCompletionStatus := x\<rparr>) = register_write_context p a c"
  by (simp_all add: register_write_context_def)

definition write_urb_ready :: "usb_pipe \<Rightarrow> ehub \<Rightarrow> bool" where
  "write_urb_ready p s \<longleftrightarrow>
     (\<exists>a c. UrbContextEmbeddedRegisterWrite s = Some a \<and> urb_contexts s a = Some c
        \<and> register_write_context p a c)"

definition register_ready :: "usb_pipe \<Rightarrow> ehub \<Rightarrow> bool" where
  "register_ready p s \<longleftrightarrow> device_ok s \<and> 0 < EmbeddedRegisterLock s \<and> write_urb_ready p s"

section \<open>Other contexts during a wait\<close>

text \<open>
  What a caller that sleeps with the register semaphore relies on: the other contexts do not fail
  the device, move the semaphore, or free or replace the write context. They may complete URBs,
  that of the caller included, and send transfers of their own, all of them of the kind \<open>Q\<close>.
\<close>

definition undisturbed :: "(usb_pipe \<times> u8 list \<Rightarrow> bool) \<Rightarrow> ehub \<Rightarrow> ehub \<Rightarrow> bool" where
  "undisturbed Q s t \<longleftrightarrow> same_health s t
     \<and> (\<exists>xs. usb_log t = usb_log s @ xs \<and> list_all Q xs)
     \<and> EmbeddedRegisterLock t = EmbeddedRegisterLock s
     \<and> UrbContextEmbeddedRegisterWrite t = UrbContextEmbeddedRegisterWrite s
     \<and> (\<forall>p a c. UrbContextEmbeddedRegisterWrite s = Some a \<and> urb_contexts s a = Some c
          \<and> register_write_context p a c \<longrightarrow>
          (\<exists>c'. urb_contexts t a = Some c' \<and> register_write_context p a c'))"

lemma undisturbed_refl [simp]: "undisturbed Q s s"
  by (auto simp: undisturbed_def)

lemma undisturbed_trans:
  assumes "undisturbed Q s t" and "undisturbed Q t u"
  shows "undisturbed Q s u"
proof -
  obtain xs ys where "usb_log t = usb_log s @ xs" "usb_log u = usb_log t @ ys"
    "list_all Q xs" "list_all Q ys"
    using assms by (auto simp: undisturbed_def)
  then have "\<exists>zs. usb_log u = usb_log s @ zs \<and> list_all Q zs"
    by (intro exI [of _ "xs @ ys"]) simp
  moreover have "\<exists>c'. urb_contexts u a = Some c' \<and> register_write_context p a c'"
    if "UrbContextEmbeddedRegisterWrite s = Some a" "urb_contexts s a = Some c"
      "register_write_context p a c" for p a c
    using assms that unfolding undisturbed_def by metis
  ultimately show ?thesis using assms same_health_trans by (simp add: undisturbed_def) blast
qed

lemma undisturbed_put_urb:
  assumes "\<And>p c. urb_contexts s a = Some c \<Longrightarrow> register_write_context p a c \<Longrightarrow>
      register_write_context p a c'"
  shows "undisturbed Q s (put_urb a c' s)"
  using assms by (auto simp: undisturbed_def put_urb_def same_health_def)

text \<open>The completion routines of register and doorbell URBs, which run while the caller sleeps,
  keep to this.\<close>

lemma Simple_undisturbed:
  assumes "URB_CompletionRoutine_Simple u s = Some t"
  shows "undisturbed Q s t"
  using assms
  by (auto simp: URB_CompletionRoutine_Simple_def NOTIFICATION_Notify_def put_urb_def undisturbed_def
      same_health_def elim!: bind_eq_SomeE split: option.splits if_splits completion_context.splits)

lemma Doorbell_undisturbed:
  assumes "URB_CompletionRoutine_Doorbell u s = Some t"
  shows "undisturbed Q s t"
  using assms
  by (auto simp: URB_CompletionRoutine_Doorbell_def NOTIFICATION_Notify_def put_urb_def
      undisturbed_def same_health_def doorbell_to_free_def
      elim!: bind_eq_SomeE split: option.splits if_splits completion_context.splits)

definition calm :: "(usb_pipe \<times> u8 list \<Rightarrow> bool) \<Rightarrow> env \<Rightarrow> bool" where
  "calm Q k \<longleftrightarrow> (\<forall>n s. undisturbed Q s (other_contexts k n s))"

text \<open>The device answers: semaphore waits are not interrupted, submissions are accepted, a
  completion that is counted ends the wait for it, and the write URB completes while its submitter
  sleeps.\<close>

definition responsive :: "env \<Rightarrow> bool" where
  "responsive k \<longleftrightarrow> (\<forall>n. \<not> lock_interrupted k n) \<and> (\<forall>n. 0 \<le> usb_submit_urb k n)
     \<and> (\<forall>n c. 0 < c \<longrightarrow> 0 < fst (wait_for_completion k n c))
     \<and> (\<forall>n s p a c. device_ok s \<and> UrbContextEmbeddedRegisterWrite s = Some a
          \<and> urb_contexts s a = Some c \<and> register_write_context p a c
          \<and> uc_Status c = URB_STATUS_SUBMITTED \<longrightarrow>
          (\<exists>c'. urb_contexts (other_contexts k n s) a = Some c' \<and> 0 < uc_Event c'))"

text \<open>An environment in which the completion routine of a submitted write runs during the wait, and
  a wait ends when its completion is counted.\<close>

definition complete_write :: "ehub \<Rightarrow> ehub" where
  "complete_write s =
     (case Option.bind (UrbContextEmbeddedRegisterWrite s) (urb_contexts s) of
        None \<Rightarrow> s
      | Some c \<Rightarrow>
          if uc_Status c = URB_STATUS_SUBMITTED
          then (case URB_CompletionRoutine_Simple (map_option (\<lambda>u. u\<lparr>urb_status := 0,
                  urb_actual_length := urb_transfer_buffer_length u\<rparr>) (uc_Urb c)) s of
                  Some t \<Rightarrow> t | None \<Rightarrow> s)
          else s)"

definition completing_env :: env where
  "completing_env = quiet_env\<lparr>other_contexts := \<lambda>_. complete_write,
     wait_for_completion := \<lambda>_ c. if 0 < c then (1, c - 1) else (0, c)\<rparr>"

lemma completing_env_calm: "calm Q completing_env"
  by (auto simp: calm_def completing_env_def complete_write_def split: option.splits
      dest: Simple_undisturbed)

lemma completing_env_responsive: "responsive completing_env"
proof -
  have "\<exists>c'. urb_contexts (complete_write s) a = Some c' \<and> 0 < uc_Event c'"
    if ok: "device_ok s" and c: "UrbContextEmbeddedRegisterWrite s = Some a" "urb_contexts s a = Some c"
      "register_write_context p a c" "uc_Status c = URB_STATUS_SUBMITTED" for s p a c
  proof -
    obtain u where u: "uc_Urb c = Some u" "urb_context u = UrbContextPtr a" "uc_DeviceContextPvoid c"
      using c(3) by (auto simp: register_write_context_def)
    have "xhci_hcd_ptr s \<noteq> XhciFreed" "UsbDevice s \<noteq> None" using ok by (auto simp: device_ok_def)
    from CompletionRoutine_Simple_correct [OF _ c(2) u(3) this, of "u\<lparr>urb_status := 0,
        urb_actual_length := urb_transfer_buffer_length u\<rparr>"]
    show ?thesis using u c ok by (simp add: complete_write_def)
  qed
  then show ?thesis by (auto simp: responsive_def completing_env_def quiet_env_def)
qed

lemma tick_up_write_context: "UrbContextEmbeddedRegisterWrite (tick_up s) = UrbContextEmbeddedRegisterWrite s"
  by (simp add: tick_up_def)

text \<open>Waiting for the write URB in a calm, responsive environment returns success and disturbs
  nothing the next access needs.\<close>

lemma Wait_calm:
  assumes calm: "calm Q k" and resp: "responsive k" and ok: "device_ok s"
    and a: "UrbContextEmbeddedRegisterWrite s = Some a" and c: "urb_contexts s a = Some c"
    and ready: "register_write_context p a c" "uc_Status c = URB_STATUS_SUBMITTED"
  shows "\<exists>t. NOTIFICATION_Wait k (EventUrb a) s = Some (0, t) \<and> undisturbed Q s t"
proof -
  define s1 where "s1 = other_contexts k (tick s) (tick_up s)"
  have ok': "device_ok (tick_up s)" using ok by (simp add: tick_up_def device_ok_def interface_bound_def)
  have "undisturbed Q s (tick_up s)" by (auto simp: undisturbed_def tick_up_def same_health_def)
  moreover have "undisturbed Q (tick_up s) s1" using calm by (simp add: calm_def s1_def)
  ultimately have und: "undisturbed Q s s1" by (rule undisturbed_trans)
  obtain c1 where c1: "urb_contexts s1 a = Some c1" "0 < uc_Event c1"
    using resp ok' a c ready unfolding responsive_def s1_def
    by (metis tick_up_contexts tick_up_write_context)
  define ev where "ev = snd (wait_for_completion k (tick s) (uc_Event c1))"
  have "NOTIFICATION_Wait k (EventUrb a) s = Some (0, put_urb a (c1\<lparr>uc_Event := ev\<rparr>) s1)"
    using ok c1 resp
    by (simp add: NOTIFICATION_Wait_def Let_def s1_def [symmetric] ev_def responsive_def
        case_prod_beta put_urb_def)
  moreover have "undisturbed Q s1 (put_urb a (c1\<lparr>uc_Event := ev\<rparr>) s1)"
    by (rule undisturbed_put_urb) (use c1 in simp)
  ultimately show ?thesis using undisturbed_trans [OF und] by blast
qed

section \<open>The semaphore over an access\<close>

text \<open>Only the entry and exit of an access move the register semaphore, as long as the contexts that
  run while the caller sleeps leave it alone.\<close>

definition semaphore_left :: "env \<Rightarrow> bool" where
  "semaphore_left k \<longleftrightarrow>
     (\<forall>n s. EmbeddedRegisterLock (other_contexts k n s) = EmbeddedRegisterLock s)"

lemma calm_semaphore_left: "calm Q k \<Longrightarrow> semaphore_left k"
  by (simp add: calm_def undisturbed_def semaphore_left_def)

lemma set_event_lock: "set_event ev c s = Some t \<Longrightarrow> EmbeddedRegisterLock t = EmbeddedRegisterLock s"
  by (cases ev) (auto simp: put_urb_def)

lemma Wait_lock:
  assumes "semaphore_left k" and "NOTIFICATION_Wait k ev s = Some (st, t)"
  shows "EmbeddedRegisterLock t = EmbeddedRegisterLock s"
  using assms(2)
proof (cases rule: Wait_cases)
  case (woken c waited c' s1)
  then have "EmbeddedRegisterLock t = EmbeddedRegisterLock s1" by (blast dest: set_event_lock)
  also have "\<dots> = EmbeddedRegisterLock s"
    using assms(1) woken(2) by (simp add: semaphore_left_def tick_up_def)
  finally show ?thesis .
qed simp

lemma Submit_lock:
  "URB_Submit k p s = Some (st, t) \<Longrightarrow> EmbeddedRegisterLock t = EmbeddedRegisterLock s"
  by (auto simp: submitted_def elim!: URB_Submit_Some)

lemma put_register_lock:
  "put_register_read a addr s = Some t \<Longrightarrow> EmbeddedRegisterLock t = EmbeddedRegisterLock s"
  "put_register_write a addr data s = Some t \<Longrightarrow> EmbeddedRegisterLock t = EmbeddedRegisterLock s"
  by (auto simp: put_register_read_def put_register_write_def put_urb_def bind_eq_Some_conv)

lemma register_read_locked_lock:
  assumes "semaphore_left k" and "register_read_locked k addr s = Some (r, t)"
  shows "EmbeddedRegisterLock t = EmbeddedRegisterLock s"
proof (cases "UrbContextEmbeddedRegisterRead s")
  case None
  with assms(2) show ?thesis by (auto simp: register_read_locked_def)
next
  case (Some a)
  with assms(2) obtain s0 s1 s2 st1 s3 where "put_register_read a addr s = Some s0"
    "set_event (EventUrb a) 0 s0 = Some s1" "set_event EventRegisterRead 0 s1 = Some s2"
    "URB_Submit k (Some a) s2 = Some (st1, s3)"
    and rest: "(if st1 < 0 then Some ((st1, - 1), s3)
          else do {
            (st2, s4) \<leftarrow> NOTIFICATION_Wait k (EventUrb a) s3;
            if st2 < 0 then Some ((st2, - 1), s4)
            else do {
              (st3, s5) \<leftarrow> NOTIFICATION_Wait k EventRegisterRead s4;
              if st3 < 0 then Some ((st3, - 1), s5)
              else Some ((st3, DataEmbeddedRegisterRead s5), s5)
            }
          }) = Some (r, t)"
    unfolding register_read_locked_def NOTIFICATION_Reset_def by (auto elim!: bind_eq_SomeE)
  then have "EmbeddedRegisterLock s3 = EmbeddedRegisterLock s"
    using put_register_lock(1) set_event_lock Submit_lock by metis
  moreover have "EmbeddedRegisterLock t = EmbeddedRegisterLock s3"
    using rest Wait_lock [OF assms(1)] by (fastforce elim!: bind_eq_SomeE split: if_splits)
  ultimately show ?thesis by simp
qed

lemma register_write_locked_lock:
  assumes "semaphore_left k" and "register_write_locked k addr data s = Some (r, t)"
  shows "EmbeddedRegisterLock t = EmbeddedRegisterLock s"
  using assms(2) Wait_lock [OF assms(1)] Submit_lock put_register_lock(2)
  unfolding register_write_locked_def by (fastforce elim!: bind_eq_SomeE split: if_splits)

text \<open>One write puts command and data on the pipe and leaves the registers ready.\<close>

lemma register_write_logged:
  assumes calm: "calm Q k" and resp: "responsive k" and ready: "register_ready p s"
  shows "\<exists>t xs. EMBEDDED_REGISTER_Write k addr data s = Some ((0, data), t) \<and> list_all Q xs
     \<and> usb_log t = usb_log s @ [(p, le32 (register_write_command addr) @ le32 data)] @ xs
     \<and> register_ready p t"
proof -
  from ready obtain a c u buf where a: "UrbContextEmbeddedRegisterWrite s = Some a"
    "urb_contexts s a = Some c" "uc_DataBuffer c = Some buf" "length buf = 8"
    "uc_Urb c = Some u" "urb_transfer_buffer_length u = 8" "urb_pipe u = p"
    and rw: "register_write_context p a c"
    and ok: "device_ok s" and lk: "0 < EmbeddedRegisterLock s"
    by (auto simp: register_ready_def write_urb_ready_def register_write_context_def)
  define bytes where "bytes = le32 (register_write_command addr) @ le32 data"
  define s1 where "s1 = (tick_up s)\<lparr>EmbeddedRegisterLock := EmbeddedRegisterLock s - 1\<rparr>"
  define c1 where "c1 = c\<lparr>uc_DataBuffer := Some bytes\<rparr>"
  define s2 where "s2 = put_urb a c1 s1"
  define s3 where "s3 = submitted (usb_submit_urb k (tick s2)) a c1 s2"
  have nn: "\<not> usb_submit_urb k (tick s2) < 0" using resp by (simp add: responsive_def not_less)
  have d: "down_register k s = Some (0, s1)"
    using lk resp by (simp add: down_register_def s1_def responsive_def)
  have p: "put_register_write a addr data s1 = Some s2"
    using put_register_write_live [of s1 a c buf addr data] a
    by (simp add: s1_def s2_def c1_def bytes_def)
  have sub: "URB_Submit k (Some a) s2 = Some (usb_submit_urb k (tick s2), s3)"
    unfolding s3_def by (rule URB_Submit_live) (simp add: s2_def)
  have s3: "same_health s s3" "usb_log s3 = usb_log s @ [(p, bytes)]"
    "UrbContextEmbeddedRegisterWrite s3 = Some a"
    "urb_contexts s3 a = Some (c1\<lparr>uc_Event := 0, uc_Status := URB_STATUS_SUBMITTED\<rparr>)"
    using nn a by (simp_all add: s3_def submitted_def s2_def s1_def same_health_def put_urb_def
        tick_up_def urb_transfer_def c1_def bytes_def)
  have rw3: "register_write_context p a (c1\<lparr>uc_Event := 0, uc_Status := URB_STATUS_SUBMITTED\<rparr>)"
    using rw by (auto simp: register_write_context_def c1_def bytes_def)
  obtain t where w: "NOTIFICATION_Wait k (EventUrb a) s3 = Some (0, t)" "undisturbed Q s3 t"
    using Wait_calm [OF calm resp _ s3(3,4) rw3] same_health_ok [OF s3(1)] ok by auto
  have "EMBEDDED_REGISTER_Write k addr data s = Some ((0, data), up_register t)"
    using d p sub nn w(1) a(1)
    by (simp add: EMBEDDED_REGISTER_Write_def register_write_locked_def s1_def tick_up_def
        register_exit_def)
  moreover have "device_ok t"
    using ok same_health_ok [OF same_health_trans [OF s3(1)]] w(2) by (simp add: undisturbed_def)
  then have "register_ready p (up_register t)"
    using w(2) s3(3,4) rw3 unfolding register_ready_def write_urb_ready_def
    by (fastforce simp: undisturbed_def up_register_def device_ok_def interface_bound_def)
  ultimately show ?thesis using w(2) s3(2)
    by (auto simp: bytes_def up_register_def undisturbed_def)
qed

lemma writel_logged:
  assumes "calm Q k" and "responsive k" and "register_ready p s"
  shows "\<exists>t xs. ehub_xhci_writel k val regs s = Some t \<and> list_all Q xs
     \<and> usb_log t = usb_log s @ [(p, le32 (register_write_command regs) @ le32 val)] @ xs
     \<and> register_ready p t"
proof -
  have "device_ok s" using assms(3) by (simp add: register_ready_def)
  then show ?thesis
    using register_write_logged [OF assms, of regs val] by (auto simp: ehub_xhci_writel_def)
qed

section \<open>The doorbell pool\<close>

text \<open>Every doorbell context is on exactly one list, is live and has an eight byte buffer.\<close>

definition doorbell_context :: "URB_CONTEXT \<Rightarrow> bool" where
  "doorbell_context c \<longleftrightarrow> uc_DeviceContextPvoid c
     \<and> (\<exists>buf u. uc_DataBuffer c = Some buf \<and> length buf = 8
         \<and> uc_Urb c = Some u \<and> urb_transfer_buffer_length u = 8)"

definition doorbell_pool :: "ehub \<Rightarrow> bool" where
  "doorbell_pool s \<longleftrightarrow> pool_ok (doorbell_list_free s) (doorbell_list_busy s) \<and> heap_fresh s
     \<and> (\<forall>a \<in> doorbells.nodes s. \<exists>c. urb_contexts s a = Some c \<and> doorbell_context c)"

definition doorbell_inv :: "ehub \<Rightarrow> bool" where
  "doorbell_inv s \<longleftrightarrow> doorbell_pool s \<and> interface_bound s \<and> \<not> SpinLockEmbeddedDoorbellWrite s"

text \<open>The two allocations after the context itself succeed (when they fail, creation returns a
  freed context).\<close>

definition no_late_failure :: "env \<Rightarrow> bool" where
  "no_late_failure k \<longleftrightarrow> (\<forall>n. usb_alloc_coherent k n \<and> usb_alloc_urb k n)"

lemma doorbell_pool_cong:
  assumes "doorbell_pool s" and "doorbell_list_free t = doorbell_list_free s"
    and "doorbell_list_busy t = doorbell_list_busy s" and "urb_contexts t = urb_contexts s"
    and "next_addr s \<le> next_addr t"
  shows "doorbell_pool t"
  using assms heap_fresh_mono [OF _ assms(4,5)] by (simp add: doorbell_pool_def doorbells.nodes_def)

lemma doorbell_node:
  assumes "doorbell_pool s" and "a \<in> doorbells.nodes s"
  obtains c where "urb_contexts s a = Some c" and "doorbell_context c" and "a < next_addr s"
  using assms by (fastforce simp: doorbell_pool_def heap_fresh_def)

lemma doorbell_pool_add:
  assumes pool: "doorbell_pool s" and a: "a = next_addr s" and c: "doorbell_context c"
    and t: "doorbell_list_free t = list_add_tail a (doorbell_list_free s)"
      "doorbell_list_busy t = doorbell_list_busy s"
      "urb_contexts t = (urb_contexts s)(a \<mapsto> c)" "next_addr t = Suc a"
  shows "doorbell_pool t" and "doorbells.nodes t = insert a (doorbells.nodes s)"
proof -
  have "a \<notin> doorbells.nodes s"
    using doorbell_node [OF pool, of a] a by blast
  then show "doorbell_pool t"
    using pool c t a
    by (auto simp: doorbell_pool_def pool_ok_def doorbells.nodes_def heap_fresh_def less_Suc_eq)
  show "doorbells.nodes t = insert a (doorbells.nodes s)"
    using t by (auto simp: doorbells.nodes_def)
qed

text \<open>Expanding the pool adds new contexts and keeps the old ones, without a fault.\<close>

lemma doorbell_expand_loop_ok:
  assumes "doorbell_pool s" and "interface_bound s" and "no_late_failure k"
  shows "\<exists>m t. doorbell_expand_loop k n i s = Some (m, t) \<and> i \<le> m \<and> m \<le> i + n
     \<and> doorbell_pool t \<and> interface_bound t \<and> doorbells.nodes s \<subseteq> doorbells.nodes t
     \<and> length (doorbell_list_free t) = length (doorbell_list_free s) + (m - i)
     \<and> doorbell_list_busy t = doorbell_list_busy s \<and> usb_log t = usb_log s
     \<and> SpinLockEmbeddedDoorbellWrite t = SpinLockEmbeddedDoorbellWrite s"
  using assms(1,2)
proof (induction n arbitrary: i s)
  case 0
  then show ?case by simp
next
  case (Suc n)
  obtain r s1 where c: "URB_Create k (UsbPipeDoorbellOut s) 8 URB_CompletionRoutine_Doorbell_ptr
      None s = Some (r, s1)"
    using URB_Create_total [OF Suc.prems(2)] by blast
  from c show ?case
  proof (cases rule: URB_Create_cases)
    case unbound
    with Suc.prems show ?thesis by simp
  next
    case no_context
    have "doorbell_pool s1"
      by (rule doorbell_pool_cong [OF Suc.prems(1)]) (simp_all add: no_context)
    with no_context c Suc.prems(2) show ?thesis
      by (auto simp: interface_bound_def doorbells.nodes_def)
  next
    case dangling
    with assms(3) show ?thesis by (simp add: no_late_failure_def)
  next
    case made
    let ?s2 = "s1\<lparr>doorbell_list_free := list_add_tail (next_addr s) (doorbell_list_free s1)\<rparr>"
    have pool: "doorbell_pool ?s2" and nodes: "doorbells.nodes s \<subseteq> doorbells.nodes ?s2"
      using doorbell_pool_add [OF Suc.prems(1) refl, of "new_URB_CONTEXT (UsbPipeDoorbellOut s) 8
          URB_CompletionRoutine_Doorbell_ptr None (next_addr s)" ?s2] made
      by (auto simp: new_URB_CONTEXT_def doorbell_context_def)
    have bound: "interface_bound ?s2" using made by (simp add: interface_bound_def)
    have step: "doorbell_expand_loop k (Suc n) i s = doorbell_expand_loop k n (Suc i) ?s2"
      using c made by simp
    obtain m t where "doorbell_expand_loop k n (Suc i) ?s2 = Some (m, t)" "Suc i \<le> m" "m \<le> Suc i + n"
      "doorbell_pool t" "interface_bound t" "doorbells.nodes ?s2 \<subseteq> doorbells.nodes t"
      "length (doorbell_list_free t) = length (doorbell_list_free ?s2) + (m - Suc i)"
      "doorbell_list_busy t = doorbell_list_busy ?s2" "usb_log t = usb_log ?s2"
      "SpinLockEmbeddedDoorbellWrite t = SpinLockEmbeddedDoorbellWrite ?s2"
      using Suc.IH [OF pool bound, of "Suc i"] by blast
    with nodes made show ?thesis by (auto simp: step simp del: doorbell_expand_loop.simps)
  qed
qed

text \<open>Moving a node and rewriting its context keeps the pool.\<close>

lemma doorbell_pool_put:
  assumes "doorbell_pool s" and "a \<in> doorbells.nodes s" and "doorbell_context c"
  shows "doorbell_pool (put_urb a c s)"
proof -
  have "a < next_addr s" using assms(1,2) by (rule doorbell_node)
  with assms show ?thesis
    by (auto simp: doorbell_pool_def put_urb_def heap_fresh_def doorbells.nodes_def)
qed

lemma doorbell_pool_busy:
  assumes "doorbell_pool s" and "a \<in> doorbells.nodes s"
  shows "doorbell_pool (doorbell_to_busy a s)"
  using assms doorbells.to_used_ok [of s a]
  by (auto simp: doorbell_pool_def heap_fresh_def doorbell_to_busy_def)

lemma doorbell_pool_free:
  assumes "doorbell_pool s" and "a \<in> doorbells.nodes s"
  shows "doorbell_pool (doorbell_to_free a s)"
  using assms doorbells.to_free_ok [of s a]
  by (auto simp: doorbell_pool_def heap_fresh_def doorbell_to_free_def)

lemma doorbell_pool_submitted:
  assumes "doorbell_pool s" and "urb_contexts s a = Some c" and "a \<in> doorbells.nodes s"
  shows "doorbell_pool (submitted st a c s)"
proof -
  have "doorbell_pool (put_urb a (c\<lparr>uc_Event := 0, uc_Status :=
      (if st < 0 then URB_STATUS_SUBMIT_ERROR else URB_STATUS_SUBMITTED)\<rparr>) s)"
    by (rule doorbell_pool_put) (use assms in \<open>auto simp: doorbell_pool_def doorbell_context_def\<close>)
  then show ?thesis
    by (rule doorbell_pool_cong) (simp_all add: submitted_def put_urb_def)
qed

text \<open>The part of a doorbell write after a free context was found.\<close>

lemma doorbell_send_ok:
  assumes pool: "doorbell_pool s" and free: "doorbell_list_free s = a # fs"
    and bound: "interface_bound s"
  shows "\<exists>p t st. put_register_write a addr data (unlock_doorbell (doorbell_to_busy a s)) = Some p
     \<and> URB_Submit k (Some a) p = Some (st, t) \<and> doorbell_inv t
     \<and> doorbells.nodes t = doorbells.nodes s
     \<and> doorbell_list_free t = fs \<and> doorbell_list_busy t = doorbell_list_busy s @ [a]
     \<and> (\<not> st < 0 \<longrightarrow> (\<exists>pipe. usb_log t =
           usb_log s @ [(pipe, le32 (register_write_command addr) @ le32 data)]))"
proof -
  have a: "a \<in> doorbells.nodes s" using free by (simp add: doorbells.nodes_def)
  let ?s1 = "unlock_doorbell (doorbell_to_busy a s)"
  have "doorbell_pool (doorbell_to_busy a s)" by (rule doorbell_pool_busy [OF pool a])
  then have pool1: "doorbell_pool ?s1"
    by (rule doorbell_pool_cong) (simp_all add: unlock_doorbell_def)
  have pok: "pool_ok (doorbell_list_free s) (doorbell_list_busy s)"
    using pool by (simp add: doorbell_pool_def)
  have lists: "doorbell_list_free ?s1 = fs" "doorbell_list_busy ?s1 = doorbell_list_busy s @ [a]"
    "doorbells.nodes ?s1 = doorbells.nodes s" "a \<in> doorbells.nodes ?s1"
    using doorbells.first_entry [OF pok free] a
    by (auto simp: unlock_doorbell_def doorbells.nodes_def)
  obtain c where c: "urb_contexts ?s1 a = Some c" "doorbell_context c"
    using doorbell_node [OF pool1 lists(4)] by blast
  define c1 where "c1 = c\<lparr>uc_DataBuffer := Some (le32 (register_write_command addr) @ le32 data)\<rparr>"
  have c1: "doorbell_context c1" using c(2) by (auto simp: doorbell_context_def c1_def)
  have p: "put_register_write a addr data ?s1 = Some (put_urb a c1 ?s1)"
    using c put_register_write_live [of ?s1 a c] by (auto simp: doorbell_context_def c1_def)
  have pool2: "doorbell_pool (put_urb a c1 ?s1)" by (rule doorbell_pool_put [OF pool1 lists(4) c1])
  have live: "urb_contexts (put_urb a c1 ?s1) a = Some c1" by simp
  let ?t = "submitted (usb_submit_urb k (tick (put_urb a c1 ?s1))) a c1 (put_urb a c1 ?s1)"
  have pool3: "doorbell_pool ?t"
    by (rule doorbell_pool_submitted [OF pool2 live])
      (use lists(4) in \<open>simp add: doorbells.nodes_def put_urb_def\<close>)
  have same: "doorbell_list_free ?t = fs" "doorbell_list_busy ?t = doorbell_list_busy s @ [a]"
    "doorbells.nodes ?t = doorbells.nodes s" "\<not> SpinLockEmbeddedDoorbellWrite ?t"
    "interface_bound ?t"
    using lists bound
    by (simp_all add: submitted_def put_urb_def doorbells.nodes_def unlock_doorbell_def
        interface_bound_def doorbell_to_busy_def)
  have log: "\<exists>pipe. usb_log ?t = usb_log s @ [(pipe, le32 (register_write_command addr) @ le32 data)]"
    if "\<not> usb_submit_urb k (tick (put_urb a c1 ?s1)) < 0"
    using that c(2)
    by (auto simp: submitted_def put_urb_def unlock_doorbell_def doorbell_to_busy_def c1_def
        urb_transfer_def doorbell_context_def)
  show ?thesis
    using p URB_Submit_live [OF live, of k] pool3 same log by (auto simp: doorbell_inv_def)
qed

lemma register_exit_simps [simp]:
  "doorbell_inv (register_exit st s) = doorbell_inv s"
  "doorbells.nodes (register_exit st s) = doorbells.nodes s"
  "usb_log (register_exit st s) = usb_log s"
  "EmbeddedRegisterError (register_exit st s) = (EmbeddedRegisterError s \<or> st < 0)"
  by (auto simp: register_exit_def doorbell_inv_def doorbell_pool_def doorbells.nodes_def
      heap_fresh_def interface_bound_def)

text \<open>The result of a doorbell write: no context could be made, the submission failed and the
  error is recorded, or the write is on the bus.\<close>

definition doorbell_result :: "u32 \<Rightarrow> u32 \<Rightarrow> int \<Rightarrow> u32 \<Rightarrow> ehub \<Rightarrow> ehub \<Rightarrow> bool" where
  "doorbell_result addr data st d s t \<longleftrightarrow>
     (st = - ENOBUFS \<and> doorbell_list_free s = [] \<and> usb_log t = usb_log s)
     \<or> (st < 0 \<and> d = - 1 \<and> EmbeddedRegisterError t)
     \<or> (\<not> st < 0 \<and> d = data \<and> (\<exists>pipe. usb_log t =
           usb_log s @ [(pipe, le32 (register_write_command addr) @ le32 data)]))"

lemma Write_Doorbell_ok:
  assumes inv: "doorbell_inv s" and k: "no_late_failure k"
  shows "\<exists>st d t. EMBEDDED_REGISTER_Write_Doorbell k addr data s = Some ((st, d), t)
     \<and> doorbell_inv t \<and> doorbells.nodes s \<subseteq> doorbells.nodes t \<and> doorbell_result addr data st d s t"
proof -
  let ?s1 = "s\<lparr>SpinLockEmbeddedDoorbellWrite := True\<rparr>"
  have lk: "lock_doorbell s = Some ?s1" using inv by (simp add: lock_doorbell_def doorbell_inv_def)
  have pool1: "doorbell_pool ?s1"
    by (rule doorbell_pool_cong [of s]) (use inv in \<open>simp_all add: doorbell_inv_def\<close>)
  have bound1: "interface_bound ?s1" using inv by (simp add: doorbell_inv_def interface_bound_def)
  obtain m s2 where e: "(if doorbell_list_free ?s1 = [] then ehub_xhci_doorbell_expand k 4 ?s1
        else Some (1, ?s1)) = Some (m, s2)"
    and s2: "doorbell_pool s2" "interface_bound s2" "doorbells.nodes s \<subseteq> doorbells.nodes s2"
      "usb_log s2 = usb_log s" "m < 1 \<Longrightarrow> doorbell_list_free s = []"
      "1 \<le> m \<Longrightarrow> doorbell_list_free s2 \<noteq> []"
  proof (cases "doorbell_list_free s = []")
    case True
    then show thesis
      using doorbell_expand_loop_ok [OF pool1 bound1 k, of 4 0] that
      by (force simp: ehub_xhci_doorbell_expand_def doorbells.nodes_def
          simp del: doorbell_expand_loop.simps)
  next
    case False
    then show thesis using that [of 1 ?s1] pool1 bound1 by (auto simp: doorbells.nodes_def)
  qed
  show ?thesis
  proof (cases "m < 1")
    case True
    have "doorbell_pool (unlock_doorbell s2)"
      by (rule doorbell_pool_cong [OF s2(1)]) (simp_all add: unlock_doorbell_def)
    with True s2 e lk show ?thesis
      by (auto simp: EMBEDDED_REGISTER_Write_Doorbell_def doorbell_inv_def unlock_doorbell_def
          interface_bound_def doorbells.nodes_def doorbell_result_def)
  next
    case False
    then obtain a fs where free: "doorbell_list_free s2 = a # fs"
      using s2(6) by (cases "doorbell_list_free s2") auto
    obtain p t st where send: "put_register_write a addr data (unlock_doorbell (doorbell_to_busy a s2))
        = Some p" "URB_Submit k (Some a) p = Some (st, t)" "doorbell_inv t"
      "doorbells.nodes t = doorbells.nodes s2"
      "\<not> st < 0 \<longrightarrow> (\<exists>pipe. usb_log t =
         usb_log s2 @ [(pipe, le32 (register_write_command addr) @ le32 data)])"
      using doorbell_send_ok [OF s2(1) free s2(2), of addr data k] by blast
    have "EMBEDDED_REGISTER_Write_Doorbell k addr data s
        = Some ((st, if st < 0 then - 1 else data), register_exit st t)"
      using lk e False free send by (simp add: EMBEDDED_REGISTER_Write_Doorbell_def)
    with send s2 show ?thesis by (auto simp: doorbell_result_def)
  qed
qed

lemma Doorbell_complete_cases:
  assumes "URB_CompletionRoutine_Doorbell (Some u) s = Some t"
    and "urb_context u = UrbContextPtr a" and "urb_contexts s a = Some c"
  obtains "t = s"
  | "device_ok s" "t = doorbell_to_free a (put_urb a (c\<lparr>uc_ActualLength := urb_actual_length u,
        uc_UrbCompletionStatus := urb_status u, uc_Status := URB_STATUS_COMPLETE,
        uc_Event := Suc (uc_Event c)\<rparr>) s)"
proof (cases "urb_status u = - ESHUTDOWN \<or> \<not> uc_DeviceContextPvoid c")
  case True
  with assms have "t = s" by (auto simp: URB_CompletionRoutine_Doorbell_def split: if_splits)
  then show thesis by (rule that(1))
next
  case False
  with assms obtain st where st: "DEVICECONTEXT_ErrorCheck (Some s) = Some st"
    by (auto simp: URB_CompletionRoutine_Doorbell_def elim: bind_eq_SomeE)
  from st show thesis
  proof (cases rule: ErrorCheck_cases)
    case 1
    with st False assms show thesis
      by (intro that(2)) (simp_all add: URB_CompletionRoutine_Doorbell_def NOTIFICATION_Notify_def
          put_urb_def)
  next
    case 2
    with st False assms show thesis
      by (intro that(1)) (simp add: URB_CompletionRoutine_Doorbell_def)
  qed
qed

lemma Doorbell_complete_inv:
  assumes inv: "doorbell_inv s" and a: "a \<in> set (doorbell_list_busy s)"
    and u: "urb_context u = UrbContextPtr a"
    and t: "URB_CompletionRoutine_Doorbell (Some u) s = Some t"
  shows "doorbell_inv t" and "doorbells.nodes t = doorbells.nodes s"
proof -
  have pool: "doorbell_pool s" and n: "a \<in> doorbells.nodes s"
    using inv a by (auto simp: doorbell_inv_def doorbells.nodes_def)
  then obtain c where c: "urb_contexts s a = Some c" "doorbell_context c" by (rule doorbell_node)
  let ?c = "c\<lparr>uc_ActualLength := urb_actual_length u, uc_UrbCompletionStatus := urb_status u,
     uc_Status := URB_STATUS_COMPLETE, uc_Event := Suc (uc_Event c)\<rparr>"
  have put: "doorbell_pool (put_urb a ?c s)" "a \<in> doorbells.nodes (put_urb a ?c s)"
    using doorbell_pool_put [OF pool n, of ?c] c(2) n
    by (simp_all add: doorbell_context_def doorbells.nodes_def put_urb_def)
  have moved: "doorbell_pool (doorbell_to_free a (put_urb a ?c s))"
    "doorbells.nodes (doorbell_to_free a (put_urb a ?c s)) = doorbells.nodes s"
    using doorbell_pool_free [OF put] doorbells.to_free_ok [of "put_urb a ?c s" a] put
    by (simp_all add: doorbell_pool_def doorbells.nodes_def put_urb_def)
  from t u c(1) show "doorbell_inv t" and "doorbells.nodes t = doorbells.nodes s"
    by (cases rule: Doorbell_complete_cases;
        use inv moved in \<open>simp add: doorbell_inv_def doorbell_to_free_def put_urb_def interface_bound_def\<close>)+
qed

text \<open>The life of the doorbell pool: writes, and completions of contexts that are out.\<close>

inductive doorbell_step :: "env \<Rightarrow> ehub \<Rightarrow> ehub \<Rightarrow> bool" for k :: env where
  ring: "EMBEDDED_REGISTER_Write_Doorbell k addr data s = Some (r, t) \<Longrightarrow> doorbell_step k s t"
| complete: "a \<in> set (doorbell_list_busy s) \<Longrightarrow> urb_context u = UrbContextPtr a \<Longrightarrow>
    URB_CompletionRoutine_Doorbell (Some u) (usb_gives_up a s) = Some t \<Longrightarrow> doorbell_step k s t"

inductive_cases doorbell_stepE: "doorbell_step k s t"

lemma doorbell_step_inv:
  assumes "doorbell_step k s t" and "doorbell_inv s" and "no_late_failure k"
  shows "doorbell_inv t \<and> doorbells.nodes s \<subseteq> doorbells.nodes t"
  using assms(1)
proof cases
  case (ring addr data r)
  with Write_Doorbell_ok [OF assms(2,3), of addr data] show ?thesis by auto
next
  case (complete a u)
  have "doorbell_inv (usb_gives_up a s)" "doorbells.nodes (usb_gives_up a s) = doorbells.nodes s"
    "doorbell_list_busy (usb_gives_up a s) = doorbell_list_busy s"
    using assms(2)
    by (simp_all add: usb_gives_up_def doorbell_inv_def doorbell_pool_def doorbells.nodes_def heap_fresh_def
        interface_bound_def)
  then show ?thesis using Doorbell_complete_inv [of "usb_gives_up a s" a u t] complete by simp
qed

section \<open>Properties\<close>

text \<open>
  The commands sent to the device: a read and a write of a register carry the low
  sixteen bits of its address, the register access flag and exactly one of the read and
  write flags, with four byte enables for a read and eight for a write. Two commands of one
  kind are equal exactly when the addresses agree on sixteen bits.
\<close>

lemma register_commands_correct:
  "get_field ERC_Address (register_read_command a) = take_bit 16 a
   \<and> get_field ERC_Address (register_write_command a) = take_bit 16 a
   \<and> (get_field ERC_Read (register_read_command a), get_field ERC_Write (register_read_command a),
      get_field ERC_RegAccess (register_read_command a),
      get_field ERC_ByteEnables (register_read_command a)) = (1, 0, 1, 0x0F)
   \<and> (get_field ERC_Read (register_write_command a), get_field ERC_Write (register_write_command a),
      get_field ERC_RegAccess (register_write_command a),
      get_field ERC_ByteEnables (register_write_command a)) = (0, 1, 1, 0xFF)
   \<and> (register_read_command a = register_read_command b \<longleftrightarrow> take_bit 16 a = take_bit 16 b)
   \<and> (register_write_command a = register_write_command b \<longleftrightarrow> take_bit 16 a = take_bit 16 b)
   \<and> register_read_command a \<noteq> register_write_command b"
  by (simp only: register_read_command_fields register_write_command_fields register_command_inj
      simp_thms)

text \<open>
  C27. A register read that fails for any reason (no context, a failed submission, an
  interrupted or timed out wait) returns all ones and records the register error; one that
  succeeds returns status 0 and the value the response left in the context. A write that
  fails records the error too. Once it is recorded the device is not usable any more.
\<close>

theorem register_access_result:
  "(EMBEDDED_REGISTER_Read k addr s = Some ((st, d), t) \<longrightarrow>
      (if st < 0 then d = - 1 \<and> EmbeddedRegisterError t \<and> \<not> device_ok t
       else st = 0 \<and> d = DataEmbeddedRegisterRead t))
   \<and> (EMBEDDED_REGISTER_Write k addr data s = Some ((st, d), t) \<longrightarrow>
      (if st < 0 then d = - 1 \<and> EmbeddedRegisterError t \<and> \<not> device_ok t else st = 0 \<and> d = data))"
proof (intro conjI impI)
  assume "EMBEDDED_REGISTER_Read k addr s = Some ((st, d), t)"
  then obtain s1 s2 where "register_read_locked k addr s1 = Some ((st, d), s2)"
    and "t = up_register (register_exit st s2)"
    by (auto simp: EMBEDDED_REGISTER_Read_def bind_eq_Some_conv)
  then show "if st < 0 then d = - 1 \<and> EmbeddedRegisterError t \<and> \<not> device_ok t
       else st = 0 \<and> d = DataEmbeddedRegisterRead t"
    using register_read_locked_result [of k addr s1 st d s2]
    by (auto simp: up_register_def register_exit_def device_ok_def)
next
  assume "EMBEDDED_REGISTER_Write k addr data s = Some ((st, d), t)"
  then obtain s1 s2 where "register_write_locked k addr data s1 = Some ((st, d), s2)"
    and "t = up_register (register_exit st s2)"
    by (auto simp: EMBEDDED_REGISTER_Write_def bind_eq_Some_conv)
  then show "if st < 0 then d = - 1 \<and> EmbeddedRegisterError t \<and> \<not> device_ok t
       else st = 0 \<and> d = data"
    using register_write_locked_result [of k addr data s1 st d s2]
    by (auto simp: up_register_def register_exit_def device_ok_def)
qed

theorem register_access_result_witness:
  "\<exists>t. EMBEDDED_REGISTER_Read quiet_env 0x20 ready_ehub = Some ((- ESHUTDOWN, - 1), t)
      \<and> EmbeddedRegisterError t"
proof -
  let ?t = "up_register (register_exit (- ESHUTDOWN)
    ((tick_up ready_ehub)\<lparr>EmbeddedRegisterLock := 0\<rparr>))"
  have "EMBEDDED_REGISTER_Read quiet_env 0x20 ready_ehub = Some ((- ESHUTDOWN, - 1), ?t)"
    by (simp add: EMBEDDED_REGISTER_Read_def down_register_def register_read_locked_def demo_defs
        tick_up_def)
  then show ?thesis
    using register_access_result [where k = quiet_env and addr = "0x20" and s = ready_ehub
        and st = "- ESHUTDOWN" and d = "- 1" and t = ?t] by auto
qed

text \<open>
  C26. The register semaphore: as long as the contexts that run while the caller sleeps leave its
  count alone, a register read or write leaves its count as it found it, except when the wait for it was interrupted. The driver
  ignores the interruption, goes ahead without the semaphore and releases it all the same,
  so the count ends one too high and two callers can be inside at once.
\<close>

theorem register_semaphore_balance:
  assumes "semaphore_left k" and "EMBEDDED_REGISTER_Read k addr s = Some (r, t)
      \<or> EMBEDDED_REGISTER_Write k addr data s = Some (r, t)"
  shows "EmbeddedRegisterLock t =
     (if lock_interrupted k (tick s) then Suc (EmbeddedRegisterLock s) else EmbeddedRegisterLock s)"
proof -
  obtain x s1 st s2 where "down_register k s = Some (x, s1)"
    and "EmbeddedRegisterLock s2 = EmbeddedRegisterLock s1"
    and "t = up_register (register_exit st s2)"
  proof (cases "EMBEDDED_REGISTER_Read k addr s = Some (r, t)")
    case True
    then obtain x s1 st d s2 where r: "down_register k s = Some (x, s1)"
      "register_read_locked k addr s1 = Some ((st, d), s2)" "t = up_register (register_exit st s2)"
      unfolding EMBEDDED_REGISTER_Read_def by (auto elim!: bind_eq_SomeE)
    show thesis by (rule that [OF r(1) register_read_locked_lock [OF assms(1) r(2)] r(3)])
  next
    case False
    with assms(2) obtain x s1 st d s2 where w: "down_register k s = Some (x, s1)"
      "register_write_locked k addr data s1 = Some ((st, d), s2)"
      "t = up_register (register_exit st s2)"
      unfolding EMBEDDED_REGISTER_Write_def by (auto elim!: bind_eq_SomeE)
    show thesis by (rule that [OF w(1) register_write_locked_lock [OF assms(1) w(2)] w(3)])
  qed
  then show ?thesis
    by (auto simp: down_register_def up_register_def register_exit_def tick_up_def split: if_splits)
qed

definition demo_registers :: ehub where
  "demo_registers = ready_ehub\<lparr>next_addr := 2, UrbContextEmbeddedRegisterWrite := Some 0,
     urb_contexts := [0 \<mapsto> new_URB_CONTEXT (Pipe PIPE_BULK False 3) 8
       URB_CompletionRoutine_Simple_ptr None 0]\<rparr>"

lemma demo_registers_ready: "register_ready (Pipe PIPE_BULK False 3) demo_registers"
  by (simp add: register_ready_def write_urb_ready_def register_write_context_def demo_registers_def
      new_URB_CONTEXT_def demo_defs device_ok_def interface_bound_def)

theorem register_semaphore_balance_witness:
  "(\<exists>r t. EMBEDDED_REGISTER_Write completing_env 0x20 7 demo_registers = Some (r, t)
      \<and> EmbeddedRegisterLock t = 1)
   \<and> (\<exists>r t. EMBEDDED_REGISTER_Read (completing_env\<lparr>lock_interrupted := \<lambda>_. True\<rparr>) 0x20 demo_registers
          = Some (r, t) \<and> EmbeddedRegisterLock t = 2)"
proof -
  let ?k = "completing_env\<lparr>lock_interrupted := \<lambda>_. True\<rparr>"
  have left: "semaphore_left completing_env" by (rule calm_semaphore_left [OF completing_env_calm])
  then have left': "semaphore_left ?k" by (simp add: semaphore_left_def)
  obtain t where w: "EMBEDDED_REGISTER_Write completing_env 0x20 7 demo_registers = Some ((0, 7), t)"
    using register_write_logged [OF completing_env_calm completing_env_responsive demo_registers_ready]
    by blast
  obtain r u where r: "EMBEDDED_REGISTER_Read ?k 0x20 demo_registers = Some (r, u)"
    by (simp add: EMBEDDED_REGISTER_Read_def down_register_def register_read_locked_def demo_defs
        demo_registers_def completing_env_def tick_up_def)
  show ?thesis
    using register_semaphore_balance [OF left disjI2 [OF w]]
      register_semaphore_balance [OF left' disjI1 [OF r]] w r
    by (auto simp: demo_registers_def demo_defs completing_env_def)
qed

text \<open>
  C24. A 64-bit register is written as two register writes, the low dword at the register's
  address first and the high dword at the next address second. In between and afterwards the
  device sees only what other contexts sent while the caller slept. This holds when these
  contexts leave the write context, the semaphore and the error state alone, which the completion
  routines do, and the device answers.
\<close>

theorem xhci_write_64_order:
  assumes "calm Q k" and "responsive k" and "register_ready p s"
  shows "\<exists>t xs ys. xhci_write_64 k val regs s = Some t \<and> register_ready p t
     \<and> list_all Q xs \<and> list_all Q ys \<and> usb_log t = usb_log s
     @ [(p, le32 (register_write_command regs) @ le32 (ucast val))] @ xs
     @ [(p, le32 (register_write_command (regs + 4)) @ le32 (ucast (drop_bit 32 val)))] @ ys"
proof -
  obtain s1 xs where 1: "ehub_xhci_writel k (ucast val) regs s = Some s1" "register_ready p s1"
    "usb_log s1 = usb_log s @ [(p, le32 (register_write_command regs) @ le32 (ucast val))] @ xs"
    "list_all Q xs"
    using writel_logged [OF assms] by blast
  obtain t ys where "ehub_xhci_writel k (ucast (drop_bit 32 val)) (regs + 4) s1 = Some t"
    "register_ready p t" "usb_log t = usb_log s1
      @ [(p, le32 (register_write_command (regs + 4)) @ le32 (ucast (drop_bit 32 val)))] @ ys"
    "list_all Q ys"
    using writel_logged [OF assms(1,2) 1(2)] by blast
  with 1 show ?thesis by (auto simp: xhci_write_64_def)
qed

theorem xhci_write_64_order_witness:
  "\<exists>t. xhci_write_64 completing_env 0x1122334455667788 0x38 demo_registers = Some t
     \<and> usb_log t =
       [(Pipe PIPE_BULK False 3, le32 (register_write_command 0x38) @ le32 0x55667788),
        (Pipe PIPE_BULK False 3, le32 (register_write_command 0x3C) @ le32 0x11223344)]"
proof -
  have none: "list_all (\<lambda>_. False) xs \<longleftrightarrow> xs = []" for xs :: "(usb_pipe \<times> u8 list) list"
    by (cases xs) simp_all
  have log: "usb_log demo_registers = []" by (simp add: demo_registers_def demo_defs)
  have halves: "(ucast (0x1122334455667788 :: u64) :: u32) = 0x55667788"
    "(ucast (drop_bit 32 (0x1122334455667788 :: u64)) :: u32) = 0x11223344" by code_simp+
  obtain t xs ys where t: "xhci_write_64 completing_env 0x1122334455667788 0x38 demo_registers = Some t"
    "xs = []" "ys = []" "usb_log t = usb_log demo_registers
     @ [(Pipe PIPE_BULK False 3, le32 (register_write_command 0x38)
          @ le32 (ucast (0x1122334455667788 :: u64)))] @ xs
     @ [(Pipe PIPE_BULK False 3, le32 (register_write_command (0x38 + 4))
          @ le32 (ucast (drop_bit 32 (0x1122334455667788 :: u64))))] @ ys"
    using xhci_write_64_order [OF completing_env_calm [of "\<lambda>_. False"] completing_env_responsive
        demo_registers_ready, of "0x1122334455667788" "0x38"]
    unfolding none by blast
  have "(0x38 :: u32) + 4 = 0x3C" by simp
  then show ?thesis
    using t(1) t(4) unfolding t(2,3) log halves append_Nil append_Nil2 append_Cons by metis
qed

text \<open>
  Whatever the value, reading a 64-bit register as two dwords loses nothing: the low and
  high halves of the result are the two values read.
\<close>

lemma xhci_read_64_halves:
  "xhci_read_64 k regs s = Some (v, t) \<longleftrightarrow>
     (\<exists>s1. ehub_xhci_readl k regs s = Some (ucast v, s1)
        \<and> ehub_xhci_readl k (regs + 4) s1 = Some (ucast (drop_bit 32 v), t))"
proof -
  have split: "ucast lo + push_bit 32 (ucast hi) = v \<longleftrightarrow>
      lo = ucast v \<and> hi = ucast (drop_bit 32 v)" for lo hi :: u32 and v :: u64
  proof -
    have "(ucast lo :: u64) + push_bit 32 (ucast hi) = ucast lo OR push_bit 32 (ucast hi)"
      by (rule disjunctive_add) (auto simp: bit_simps dest: bit_imp_le_length)
    moreover have "ucast (ucast lo OR push_bit 32 (ucast hi) :: u64) = lo"
      "ucast (drop_bit 32 (ucast lo OR push_bit 32 (ucast hi) :: u64)) = hi"
      by (rule bit_word_eqI; auto simp: bit_simps dest: bit_imp_le_length)+
    moreover have "(ucast (ucast v :: u32) OR push_bit 32 (ucast (ucast (drop_bit 32 v) :: u32)) :: u64) = v"
    proof (rule bit_word_eqI)
      fix n assume "n < LENGTH(64)"
      then show "bit (ucast (ucast v :: u32) OR push_bit 32 (ucast (ucast (drop_bit 32 v) :: u32)) :: u64) n
          = bit v n"
        by (cases "n < 32") (auto simp: bit_simps)
    qed
    ultimately show ?thesis by metis
  qed
  show ?thesis by (auto simp: xhci_read_64_def bind_eq_Some_conv split)
qed

text \<open>
  A doorbell write on a healthy pool never faults and never loses a context: it either
  reports that no context could be allocated, or records a failed submission, or puts
  exactly the write command and the doorbell value on the bus. The lists stay disjoint, every
  context on them stays allocated, and the spin lock is released.
\<close>

theorem Write_Doorbell_safe:
  assumes "doorbell_inv s" and "no_late_failure k"
  shows "\<exists>st d t. EMBEDDED_REGISTER_Write_Doorbell k addr data s = Some ((st, d), t)
     \<and> doorbell_inv t \<and> doorbells.nodes s \<subseteq> doorbells.nodes t \<and> doorbell_result addr data st d s t"
  by (rule Write_Doorbell_ok [OF assms])

lemma demo_doorbell_inv: "doorbell_inv ready_ehub"
  by (simp add: doorbell_inv_def doorbell_pool_def doorbells.nodes_def heap_fresh_def demo_defs
      interface_bound_def)

lemma quiet_env_no_late_failure: "no_late_failure quiet_env"
  by (simp add: no_late_failure_def quiet_env_def)

theorem Write_Doorbell_safe_witness:
  "\<exists>st d t. EMBEDDED_REGISTER_Write_Doorbell quiet_env 0x800 1 ready_ehub = Some ((st, d), t)
     \<and> doorbell_inv t"
  using Write_Doorbell_safe [OF demo_doorbell_inv quiet_env_no_late_failure, of "0x800" 1] by blast

text \<open>
  C22. Over any sequence of doorbell writes and completions of doorbells that are out, the pool
  stays well formed and no context that was ever in it disappears.
\<close>

theorem doorbell_contexts_conserved:
  assumes "(doorbell_step k)\<^sup>*\<^sup>* s t" and "doorbell_inv s" and "no_late_failure k"
  shows "doorbell_inv t \<and> doorbells.nodes s \<subseteq> doorbells.nodes t"
  using assms(1)
proof (induction rule: rtranclp_induct)
  case base
  then show ?case using assms(2) by simp
next
  case (step u v)
  then show ?case using doorbell_step_inv [OF step.hyps(2) _ assms(3)] by blast
qed

theorem doorbell_contexts_conserved_witness:
  "\<exists>t. (doorbell_step quiet_env)\<^sup>*\<^sup>* ready_ehub t \<and> doorbell_inv t \<and> t \<noteq> ready_ehub"
proof -
  obtain st d t where t: "EMBEDDED_REGISTER_Write_Doorbell quiet_env 0x800 1 ready_ehub
      = Some ((st, d), t)" "doorbell_result 0x800 1 st d ready_ehub t"
    using Write_Doorbell_ok [OF demo_doorbell_inv quiet_env_no_late_failure, of "0x800" 1] by blast
  have step: "(doorbell_step quiet_env)\<^sup>*\<^sup>* ready_ehub t"
    using doorbell_step.ring [OF t(1)] by blast
  have "tick t \<noteq> tick ready_ehub"
    using t(1) by (simp add: EMBEDDED_REGISTER_Write_Doorbell_def ehub_xhci_doorbell_expand_def
        lock_doorbell_def demo_defs URB_Create_def tick_up_def put_urb_def new_URB_CONTEXT_def
        Let_def eval_nat_numeral list_add_tail_def unlock_doorbell_def doorbell_to_busy_def
        put_register_write_def write32_def write_bytes_def URB_Submit_def register_exit_def
        split: if_splits)
      auto
  then have "t \<noteq> ready_ehub" by blast
  then show ?thesis
    using step doorbell_contexts_conserved [OF step demo_doorbell_inv quiet_env_no_late_failure]
    by blast
qed

text \<open>
  An endpoint doorbell is written, with the endpoint number plus one and the stream in
  their fields, exactly when no halt, pending halt or pending dequeue change forbids it;
  otherwise ringing it changes nothing.
\<close>

lemma ring_ep_doorbell_guarded:
  "ehub_xhci_ring_ep_doorbell k slot ep stream s =
     (if ep_state s slot ep AND 7 = 0
      then ehub_xhci_writel_doorbell k (DB_VALUE ep stream) (doorbell_array s + 4 * slot) s
      else Some s)"
proof -
  have "x AND 7 = 0 \<longleftrightarrow> x AND 4 = 0 \<and> x AND 1 = 0 \<and> x AND 2 = 0" for x :: u32
  proof -
    have "x AND 7 = (x AND 4) OR (x AND 1) OR (x AND 2)"
      by (simp flip: bit.conj_disj_distrib)
    then show ?thesis by (auto simp: or_eq_0_iff)
  qed
  then show ?thesis
    by (auto simp: ehub_xhci_ring_ep_doorbell_def EP_HALT_PENDING_def SET_DEQ_PENDING_def
        EP_HALTED_def Let_def)
qed

end
