(* ===== verification/Ehub_Cache.thy ===== *)
theory Ehub_Cache
  imports Ehub_Embedded_Cache Ehub_Register
begin

text \<open>
  Management of the device's cache memory (\<open>xhci-ehub.c\<close>): the pool of work contexts for
  cache writes, the 128 blocks of the cache, and their allocation for ring segments and for
  the data of isochronous URBs.
\<close>

section \<open>Constants and types\<close>

definition EHUB_CACHE_SIZE :: nat where "EHUB_CACHE_SIZE = 0x20000"
definition EHUB_CACHE_BLOCK_SIZE :: nat where "EHUB_CACHE_BLOCK_SIZE = 0x400"
definition EHUB_CACHE_NUMBER_OF_BLOCKS :: nat where
  "EHUB_CACHE_NUMBER_OF_BLOCKS = EHUB_CACHE_SIZE div EHUB_CACHE_BLOCK_SIZE"
definition EHUB_CACHE_QUEUE_ENTRIES :: nat where "EHUB_CACHE_QUEUE_ENTRIES = 32"
definition EHUB_CACHE_START_ADDRESS :: u32 where "EHUB_CACHE_START_ADDRESS = 0x1000"
definition EHUB_EVENTS_ON_ISOCH :: u32 where "EHUB_EVENTS_ON_ISOCH = push_bit 27 1"
definition EHUB_CACHE_INITIALIZATION_REGISTER :: u32 where
  "EHUB_CACHE_INITIALIZATION_REGISTER = 0x22020FFF OR EHUB_EVENTS_ON_ISOCH"
definition DEVHOST_CACHE_BAR_REG_ADDRESS :: u32 where "DEVHOST_CACHE_BAR_REG_ADDRESS = 0x81EC"

text \<open>The part of \<open>struct urb_priv\<close> that concerns the cache: an array of six block pointers and
  how many of them are in use.\<close>

record urb_priv =
  cache_block_cnt :: nat
  EhubDataCacheBlock :: "addr option list"

text \<open>A URB of a client driver: its identity and its transfer buffer.\<close>

record client_urb =
  client_id :: nat
  transfer_buffer :: "u8 list"

section \<open>Work contexts for cache writes\<close>

fun cache_work_expand_loop :: "env \<Rightarrow> nat \<Rightarrow> nat \<Rightarrow> ehub \<Rightarrow> nat outcome" where
  "cache_work_expand_loop k 0 index s = Some (index, s)"
| "cache_work_expand_loop k (Suc n) index s =
     (if \<not> kzalloc k (tick s) then Some (index, tick_up s)
      else
        let w = next_addr s; s1 = (tick_up s)\<lparr>next_addr := Suc w\<rparr> in
        do {
          (p, s2) \<leftarrow> URB_Create k (UsbPipeCacheOut s1) (8 + MESSAGE_DATA_BUFFER_SIZE_CACHE)
             URB_CompletionRoutine_Cache_ptr (Some (CacheWorkPtr w)) s1;
          (case p of
             None \<Rightarrow> Some (index, s2)
           | Some a \<Rightarrow> cache_work_expand_loop k n (Suc index)
               (s2\<lparr>cache_queue_free := list_add_tail w (cache_queue_free s2),
                   cache_works := (cache_works s2)(w \<mapsto>
                     \<lparr>cw_UrbContext = Some a, cw_CacheAddress = 0, cw_DataBuffer = None,
                      cw_DataBufferLength = 0, cw_TrbCycleState = 0, cw_ring_doorbell = False,
                      cw_slot_id = 0, cw_ep_index = 0, cw_stream_id = 0\<rparr>)\<rparr>))
        })"

definition ehub_xhci_cache_work_expand :: "env \<Rightarrow> nat \<Rightarrow> ehub \<Rightarrow> nat outcome" where
  "ehub_xhci_cache_work_expand k entries s = cache_work_expand_loop k entries 0 s"

definition ehub_get_cache_work_context :: "env \<Rightarrow> ehub \<Rightarrow> addr option outcome" where
  "ehub_get_cache_work_context k s = do {
     status \<leftarrow> DEVICECONTEXT_ErrorCheck (Some s);
     if status < 0 then Some (None, s)
     else do {
       s1 \<leftarrow> lock_cache_list s;
       (new_entries, s2) \<leftarrow> (if cache_queue_free s1 = []
          then ehub_xhci_cache_work_expand k 4 s1 else Some (1, s1));
       if new_entries < 1 then Some (None, unlock_cache_list s2)
       else (case cache_queue_free s2 of
         [] \<Rightarrow> None
       | w # _ \<Rightarrow> do {
           cw \<leftarrow> cache_works s2 w;
           Some (Some w, unlock_cache_list (work_to_used w s2))
         })
     }
   }"

definition ehub_queue_cache_write ::
  "env \<Rightarrow> u32 \<Rightarrow> u8 list option \<Rightarrow> u32 \<Rightarrow> int \<Rightarrow> bool \<Rightarrow> u32 \<Rightarrow> u32 \<Rightarrow> u32 \<Rightarrow> ehub \<Rightarrow> int outcome" where
  "ehub_queue_cache_write k addr data len cyc ring_doorbell slot_id ep_index stream_id s = do {
     status \<leftarrow> DEVICECONTEXT_ErrorCheck (Some s);
     if status < 0 then Some (status, s)
     else do {
       (p, s1) \<leftarrow> ehub_get_cache_work_context k s;
       (case p of
          None \<Rightarrow> Some (- ENOBUFS, s1)
        | Some w \<Rightarrow> do {
            cw \<leftarrow> cache_works s1 w;
            EMBEDDED_CACHE_Write k (cw_UrbContext cw) addr data len cyc
              (s1\<lparr>cache_works := (cache_works s1)(w \<mapsto> cw\<lparr>
                 cw_CacheAddress := addr, cw_DataBuffer := data, cw_DataBufferLength := len,
                 cw_TrbCycleState := cyc, cw_ring_doorbell := ring_doorbell, cw_slot_id := slot_id,
                 cw_ep_index := ep_index, cw_stream_id := stream_id\<rparr>)\<rparr>)
          })
     }
   }"

text \<open>The completion of a cache write takes the work context off the used queue, rings the
  doorbell that was waiting for the data, and gives the context back.\<close>

definition URB_CompletionRoutine_Cache :: "env \<Rightarrow> urb \<Rightarrow> ehub \<Rightarrow> ehub option" where
  "URB_CompletionRoutine_Cache k u s =
     (case urb_context u of
        UrbContextPtr _ \<Rightarrow> None
      | CacheWorkPtr w \<Rightarrow> do {
          cw \<leftarrow> cache_works s w;
          status \<leftarrow> DEVICECONTEXT_ErrorCheck (Some s);
          if status < 0 then Some s
          else do {
            s1 \<leftarrow> lock_cache_list s;
            let s2 = unlock_cache_list (s1\<lparr>
               cache_queue_free := list_del w (cache_queue_free s1),
               cache_queue_used := list_del w (cache_queue_used s1)\<rparr>);
            s3 \<leftarrow> (if cw_ring_doorbell cw
                   then (if cw_stream_id cw \<noteq> - 1
                         then ehub_xhci_ring_ep_doorbell k (cw_slot_id cw) (cw_ep_index cw)
                                (cw_stream_id cw) s2
                         else ehub_xhci_ring_cmd_db_low k s2)
                   else Some s2);
            a \<leftarrow> cw_UrbContext cw;
            c \<leftarrow> urb_contexts s3 a;
            s4 \<leftarrow> lock_cache_list (put_urb a (c\<lparr>uc_Status := URB_STATUS_COMPLETE\<rparr>) s3);
            Some (unlock_cache_list (s4\<lparr>cache_queue_free := list_add_tail w (cache_queue_free s4)\<rparr>))
          }
        })"

text \<open>The work function of the delayed mode: the used queue is cut off and written entry by
  entry until the total would exceed one transfer; the entries after that stay on the list
  head on the stack and are lost.\<close>

fun delayed_cache_write_loop :: "env \<Rightarrow> addr list \<Rightarrow> nat \<Rightarrow> ehub \<Rightarrow> ehub option" where
  "delayed_cache_write_loop k [] acc s = Some s"
| "delayed_cache_write_loop k (w # ws) acc s = do {
     cw \<leftarrow> cache_works s w;
     let acc' = acc + 8 + unat (cw_DataBufferLength cw);
     if MESSAGE_DATA_BUFFER_SIZE_CACHE < acc' then Some s
     else do {
       (st, s1) \<leftarrow> EMBEDDED_CACHE_Write k (cw_UrbContext cw) (cw_CacheAddress cw)
          (cw_DataBuffer cw) (cw_DataBufferLength cw) (cw_TrbCycleState cw) s;
       delayed_cache_write_loop k ws acc' s1
     }
   }"

definition ehub_delayed_cache_write :: "env \<Rightarrow> ehub \<Rightarrow> ehub option" where
  "ehub_delayed_cache_write k s = do {
     s1 \<leftarrow> lock_cache_list s;
     let tmp_list = cache_queue_used s1;
     delayed_cache_write_loop k tmp_list 0 (unlock_cache_list (s1\<lparr>cache_queue_used := []\<rparr>))
   }"

section \<open>Creation and destruction of the cache\<close>

text \<open>A block that cannot be allocated is written through a NULL pointer.\<close>

fun cache_block_loop :: "env \<Rightarrow> nat \<Rightarrow> nat \<Rightarrow> ehub \<Rightarrow> ehub option" where
  "cache_block_loop k 0 indexOfBlock s = Some s"
| "cache_block_loop k (Suc n) indexOfBlock s =
     (if \<not> kzalloc k (tick s) then None
      else
        let b = next_addr s in
        cache_block_loop k n (Suc indexOfBlock) ((tick_up s)\<lparr>next_addr := Suc b,
          cache_blocks := (cache_blocks s)(b \<mapsto> \<lparr>cb_urb = None, IndexOfBlock = of_nat indexOfBlock,
             Address = EHUB_CACHE_START_ADDRESS + of_nat (EHUB_CACHE_BLOCK_SIZE * indexOfBlock)\<rparr>),
          cache_list_free := list_add_tail b (cache_list_free s),
          number_of_caches_free := number_of_caches_free s + 1\<rparr>))"

definition ehub_xhci_cache_create :: "env \<Rightarrow> ehub \<Rightarrow> int outcome" where
  "ehub_xhci_cache_create k s =
     (let s1 = s\<lparr>cache_list_free := [], cache_list_used := [], cache_list_lock := False,
                 cache_queue_free := [], cache_queue_used := [],
                 number_of_caches_free := 0, number_of_caches_used := 0\<rparr> in
      if \<not> alloc_workqueue k (tick s1) then Some (- ENOMEM, (tick_up s1)\<lparr>ehub_cache_wq := False\<rparr>)
      else do {
        s2 \<leftarrow> ehub_xhci_writel k EHUB_CACHE_INITIALIZATION_REGISTER DEVHOST_CACHE_BAR_REG_ADDRESS
               ((tick_up s1)\<lparr>ehub_cache_wq := True\<rparr>);
        (new_entries, s3) \<leftarrow> ehub_xhci_cache_work_expand k EHUB_CACHE_QUEUE_ENTRIES s2;
        s4 \<leftarrow> cache_block_loop k EHUB_CACHE_NUMBER_OF_BLOCKS 0 s3;
        Some (0, s4)
      })"

fun free_blocks :: "addr list \<Rightarrow> ehub \<Rightarrow> ehub option" where
  "free_blocks [] s = Some s"
| "free_blocks (b # bs) s = do {
     blk \<leftarrow> cache_blocks s b;
     free_blocks bs (s\<lparr>cache_list_free := list_del b (cache_list_free s),
        cache_list_used := list_del b (cache_list_used s),
        cache_blocks := (cache_blocks s)(b := None)\<rparr>)
   }"

fun free_works :: "addr list \<Rightarrow> ehub \<Rightarrow> ehub option" where
  "free_works [] s = Some s"
| "free_works (w # ws) s = do {
     cw \<leftarrow> cache_works s w;
     s1 \<leftarrow> URB_Destroy (cw_UrbContext cw)
            (s\<lparr>cache_queue_free := list_del w (cache_queue_free s),
               cache_queue_used := list_del w (cache_queue_used s)\<rparr>);
     free_works ws (s1\<lparr>cache_works := (cache_works s1)(w := None)\<rparr>)
   }"

definition ehub_xhci_cache_destroy :: "ehub \<Rightarrow> ehub option" where
  "ehub_xhci_cache_destroy s = do {
     s1 \<leftarrow> free_blocks (cache_list_free s) s;
     s2 \<leftarrow> free_blocks (cache_list_used s1) s1;
     s3 \<leftarrow> free_works (cache_queue_free s2) s2;
     free_works (cache_queue_used s3) s3
   }"

section \<open>Blocks\<close>

definition set_block_urb :: "addr \<Rightarrow> nat option \<Rightarrow> ehub \<Rightarrow> ehub option" where
  "set_block_urb b u s = map_option
     (\<lambda>blk. s\<lparr>cache_blocks := (cache_blocks s)(b \<mapsto> blk\<lparr>cb_urb := u\<rparr>)\<rparr>) (cache_blocks s b)"

definition ehub_xhci_cache_block_allocate :: "ehub \<Rightarrow> addr option outcome" where
  "ehub_xhci_cache_block_allocate s = do {
     s1 \<leftarrow> lock_cache_list s;
     (case cache_list_free s1 of
        [] \<Rightarrow> Some (None, unlock_cache_list s1)
      | b # _ \<Rightarrow> do {
          s2 \<leftarrow> set_block_urb b None s1;
          Some (Some b, unlock_cache_list (block_to_used b s2))
        })
   }"

text \<open>A block for a ring segment is filled with the segment's TRBs; when that fails it goes back
  to the free list.\<close>

definition ehub_xhci_cache_block_allocate_segment ::
  "env \<Rightarrow> int \<Rightarrow> u8 list option \<Rightarrow> ehub \<Rightarrow> addr option outcome" where
  "ehub_xhci_cache_block_allocate_segment k cycle_state start_addr s = do {
     s1 \<leftarrow> lock_cache_list s;
     (case cache_list_free s1 of
        [] \<Rightarrow> Some (None, unlock_cache_list s1)
      | b # _ \<Rightarrow> do {
          blk \<leftarrow> cache_blocks s1 b;
          (status, s2) \<leftarrow> ehub_queue_cache_write k (Address blk) start_addr
             (of_nat EHUB_CACHE_BLOCK_SIZE) cycle_state False 0 0 0
             (unlock_cache_list (block_to_used b s1));
          if status < 0 then do {
            s3 \<leftarrow> lock_cache_list s2;
            Some (None, unlock_cache_list (block_to_free b s3))
          } else Some (Some b, s2)
        })
   }"

definition ehub_xhci_cache_block_free :: "addr \<Rightarrow> ehub \<Rightarrow> ehub option" where
  "ehub_xhci_cache_block_free b s = do {
     s1 \<leftarrow> lock_cache_list s;
     Some (unlock_cache_list (block_to_free b s1))
   }"

text \<open>The loop over the blocks of a URB: a NULL element in use is dereferenced.\<close>

fun free_by_urb_loop :: "nat \<Rightarrow> nat \<Rightarrow> urb_priv \<Rightarrow> ehub \<Rightarrow> urb_priv outcome" where
  "free_by_urb_loop 0 index priv s = Some (priv, s)"
| "free_by_urb_loop (Suc n) index priv s =
     (if length (EhubDataCacheBlock priv) \<le> index then None
      else do {
        b \<leftarrow> EhubDataCacheBlock priv ! index;
        free_by_urb_loop n (Suc index)
          (priv\<lparr>EhubDataCacheBlock := (EhubDataCacheBlock priv)[index := None]\<rparr>) (block_to_free b s)
      })"

definition ehub_xhci_cache_block_free_by_urb :: "urb_priv \<Rightarrow> ehub \<Rightarrow> urb_priv outcome" where
  "ehub_xhci_cache_block_free_by_urb priv s = do {
     s1 \<leftarrow> lock_cache_list s;
     (priv', s2) \<leftarrow> free_by_urb_loop (cache_block_cnt priv) 0 priv s1;
     Some (priv'\<lparr>cache_block_cnt := 0\<rparr>, unlock_cache_list s2)
   }"

text \<open>First loop of the allocation for a URB, under the lock. The result tells whether the free
  list ran empty.\<close>

fun take_blocks_loop :: "nat \<Rightarrow> nat \<Rightarrow> nat \<Rightarrow> urb_priv \<Rightarrow> ehub \<Rightarrow> (bool \<times> urb_priv) outcome" where
  "take_blocks_loop u 0 i priv s = Some ((True, priv), s)"
| "take_blocks_loop u (Suc n) i priv s =
     (case cache_list_free s of
        [] \<Rightarrow> Some ((False, priv), s)
      | b # _ \<Rightarrow>
          if length (EhubDataCacheBlock priv) \<le> i then None
          else do {
            s1 \<leftarrow> set_block_urb b (Some u) (block_to_used b s);
            take_blocks_loop u n (Suc i)
              (priv\<lparr>EhubDataCacheBlock := (EhubDataCacheBlock priv)[i := Some b],
                    cache_block_cnt := Suc (cache_block_cnt priv)\<rparr>) s1
          })"

text \<open>Second loop: the data goes to the device, one block at a time.\<close>

fun write_blocks_loop ::
  "env \<Rightarrow> u8 list \<Rightarrow> nat \<Rightarrow> nat \<Rightarrow> int \<Rightarrow> urb_priv \<Rightarrow> ehub \<Rightarrow> (int \<times> urb_priv) outcome" where
  "write_blocks_loop k buf 0 i status priv s = Some ((status, priv), s)"
| "write_blocks_loop k buf (Suc n) i status priv s = do {
     b \<leftarrow> (if i < length (EhubDataCacheBlock priv) then EhubDataCacheBlock priv ! i else None);
     blk \<leftarrow> cache_blocks s b;
     let off = EHUB_CACHE_BLOCK_SIZE * i;
     let cache_length = min (length buf - off) EHUB_CACHE_BLOCK_SIZE;
     (st, s1) \<leftarrow> ehub_queue_cache_write k (Address blk) (Some (drop off buf)) (of_nat cache_length)
        0 False 0 0 0 s;
     if st < 0 then do {
       (priv', s2) \<leftarrow> ehub_xhci_cache_block_free_by_urb priv s1;
       Some ((st, priv'), s2)
     } else write_blocks_loop k buf n (Suc i) st priv s1
   }"

text \<open>When there are not enough blocks the function leaves with the lock held.\<close>

definition ehub_xhci_cache_block_allocate_urb ::
  "env \<Rightarrow> client_urb \<Rightarrow> urb_priv \<Rightarrow> ehub \<Rightarrow> (int \<times> urb_priv) outcome" where
  "ehub_xhci_cache_block_allocate_urb k u priv s = do {
     let num_blocks_needed = DIV_ROUND_UP (length (transfer_buffer u)) EHUB_CACHE_BLOCK_SIZE;
     s1 \<leftarrow> lock_cache_list s;
     if number_of_caches_free s1 < int num_blocks_needed then Some ((- ENOMEM, priv), s1)
     else do {
       ((enough, priv1), s2) \<leftarrow> take_blocks_loop (client_id u) num_blocks_needed 0 priv s1;
       if \<not> enough then do {
         (priv2, s3) \<leftarrow> ehub_xhci_cache_block_free_by_urb priv1 (unlock_cache_list s2);
         Some ((- ENOMEM, priv2), s3)
       } else write_blocks_loop k (transfer_buffer u) num_blocks_needed 0 0 priv1
                (unlock_cache_list s2)
     }
   }"

section \<open>Addresses\<close>

definition ehub_xhci_cache_get_trb :: "EHUB_CACHE_BLOCK \<Rightarrow> int \<Rightarrow> u64" where
  "ehub_xhci_cache_get_trb blk IndexOfTrb = ucast (Address blk) + of_int (IndexOfTrb * 16)"

text \<open>
  The address the controller uses for a piece of a URB's buffer: inside the cache block that
  holds it, at the offset given by the low bits of the address. \<open>base\<close> is the address of
  the transfer buffer; a missing block is a panic.
\<close>

definition ehub_xhci_get_data_buffer_addr :: "urb_priv \<Rightarrow> u64 \<Rightarrow> u64 \<Rightarrow> ehub \<Rightarrow> u64 option" where
  "ehub_xhci_get_data_buffer_addr priv base addr s =
     (if cache_block_cnt priv \<noteq> 0 then
        let block_num = unat (ucast ((addr - base) div of_nat EHUB_CACHE_BLOCK_SIZE) :: u32) in
        if length (EhubDataCacheBlock priv) \<le> block_num then None
        else do {
          b \<leftarrow> EhubDataCacheBlock priv ! block_num;
          blk \<leftarrow> cache_blocks s b;
          Some (ucast (Address blk) + (addr AND (of_nat EHUB_CACHE_BLOCK_SIZE - 1)))
        }
      else Some addr)"

section \<open>Invariants\<close>

text \<open>Every block of the pool is allocated, lies where its index says, and no two blocks have
  the same index; the lists and counters agree and the lock is free.\<close>

definition block_index :: "ehub \<Rightarrow> addr \<Rightarrow> u32" where
  "block_index s b = IndexOfBlock (the (cache_blocks s b))"

definition block_layout :: "ehub \<Rightarrow> bool" where
  "block_layout s \<longleftrightarrow> (\<forall>b \<in> blocks.nodes s. \<exists>blk. cache_blocks s b = Some blk
       \<and> unat (IndexOfBlock blk) < EHUB_CACHE_NUMBER_OF_BLOCKS
       \<and> Address blk = EHUB_CACHE_START_ADDRESS + of_nat EHUB_CACHE_BLOCK_SIZE * IndexOfBlock blk)
     \<and> inj_on (block_index s) (blocks.nodes s)"

definition cache_inv :: "ehub \<Rightarrow> bool" where
  "cache_inv s \<longleftrightarrow> blocks.counted s \<and> \<not> cache_list_lock s \<and> block_layout s"

text \<open>The work contexts: each one on a queue has a live URB context that can carry a cache
  write, and the device can be asked for its state.\<close>

definition cache_work_ok :: "ehub \<Rightarrow> addr \<Rightarrow> bool" where
  "cache_work_ok s w \<longleftrightarrow> (\<exists>cw a c. cache_works s w = Some cw \<and> cw_UrbContext cw = Some a
     \<and> urb_contexts s a = Some c \<and> cache_context (UsbPipeCacheOut s) c)"

definition work_pool :: "ehub \<Rightarrow> bool" where
  "work_pool s \<longleftrightarrow> pool_ok (cache_queue_free s) (cache_queue_used s)
     \<and> (\<forall>w \<in> works.nodes s. cache_work_ok s w)
     \<and> (\<forall>w \<in> dom (cache_works s). w < next_addr s)
     \<and> heap_fresh s \<and> interface_bound s \<and> xhci_hcd_ptr s \<noteq> XhciFreed \<and> UsbDevice s \<noteq> None"

text \<open>What the operations on work contexts leave alone: the blocks, their lists and the pipe.\<close>

definition same_blocks :: "ehub \<Rightarrow> ehub \<Rightarrow> bool" where
  "same_blocks s t \<longleftrightarrow> cache_list_free t = cache_list_free s \<and> cache_list_used t = cache_list_used s
     \<and> number_of_caches_free t = number_of_caches_free s
     \<and> number_of_caches_used t = number_of_caches_used s \<and> cache_blocks t = cache_blocks s
     \<and> UsbPipeCacheOut t = UsbPipeCacheOut s"

lemma same_blocks_refl [simp]: "same_blocks s s"
  by (simp add: same_blocks_def)

lemma same_blocks_trans: "same_blocks s t \<Longrightarrow> same_blocks t u \<Longrightarrow> same_blocks s u"
  by (simp add: same_blocks_def)

lemma same_blocks_nodes: "same_blocks s t \<Longrightarrow> blocks.nodes t = blocks.nodes s"
  by (simp add: same_blocks_def blocks.nodes_def)

lemma same_blocks_inv:
  assumes "same_blocks s t" and "cache_list_lock t = cache_list_lock s"
  shows "cache_inv t = cache_inv s"
proof -
  have "block_index t = block_index s" using assms(1) by (simp add: fun_eq_iff same_blocks_def block_index_def)
  then show ?thesis
    using assms same_blocks_nodes [OF assms(1)]
    by (simp add: cache_inv_def block_layout_def blocks.counted_def same_blocks_def)
qed

lemma urb_frame_same_blocks: "urb_frame s t \<Longrightarrow> same_blocks s t \<and> cache_list_lock t = cache_list_lock s
    \<and> UsbPipeCacheOut t = UsbPipeCacheOut s \<and> UsbDevice t = UsbDevice s
    \<and> xhci_hcd_ptr t = xhci_hcd_ptr s"
  by (auto simp: urb_frame_def same_blocks_def)

section \<open>Work contexts\<close>

text \<open>A work context stays usable while its URB context keeps the form of a cache context.\<close>

definition contexts_kept :: "ehub \<Rightarrow> ehub \<Rightarrow> bool" where
  "contexts_kept s t \<longleftrightarrow> UsbPipeCacheOut t = UsbPipeCacheOut s
     \<and> (\<forall>a c. urb_contexts s a = Some c \<and> cache_context (UsbPipeCacheOut s) c \<longrightarrow>
          (\<exists>c'. urb_contexts t a = Some c' \<and> cache_context (UsbPipeCacheOut s) c'))"

lemma cache_work_ok_kept:
  assumes "cache_work_ok s w" and "contexts_kept s t"
    and "\<exists>cw'. cache_works t w = Some cw' \<and> cw_UrbContext cw' = cw_UrbContext (the (cache_works s w))"
  shows "cache_work_ok t w"
  using assms unfolding cache_work_ok_def contexts_kept_def by fastforce

lemma work_pool_kept:
  assumes "work_pool s" and "contexts_kept s t"
    and "\<forall>w \<in> works.nodes s. \<exists>cw'. cache_works t w = Some cw'
           \<and> cw_UrbContext cw' = cw_UrbContext (the (cache_works s w))"
    and "\<forall>w \<in> works.nodes t - works.nodes s. cache_work_ok t w"
    and "pool_ok (cache_queue_free t) (cache_queue_used t)"
    and "\<forall>w \<in> dom (cache_works t). w < next_addr t" and "heap_fresh t"
    and "InterfaceBackup t = InterfaceBackup s" and "xhci_hcd_ptr t = xhci_hcd_ptr s"
    and "UsbDevice t = UsbDevice s"
  shows "work_pool t"
proof -
  have "cache_work_ok t w" if "w \<in> works.nodes t" for w
    using that assms cache_work_ok_kept [OF _ assms(2), of w] by (cases "w \<in> works.nodes s") (auto simp: work_pool_def)
  then show ?thesis using assms by (simp add: work_pool_def interface_bound_def)
qed

lemma work_pool_works:
  assumes "work_pool s" and "w \<in> works.nodes s"
  shows "\<exists>cw a c. cache_works s w = Some cw \<and> cw_UrbContext cw = Some a
     \<and> urb_contexts s a = Some c \<and> cache_context (UsbPipeCacheOut s) c"
  using assms by (auto simp: work_pool_def cache_work_ok_def)

lemma work_pool_cong:
  assumes "work_pool s" and "cache_queue_free t = cache_queue_free s"
    and "cache_queue_used t = cache_queue_used s" and "cache_works t = cache_works s"
    and "urb_contexts t = urb_contexts s" and "UsbPipeCacheOut t = UsbPipeCacheOut s"
    and "next_addr s \<le> next_addr t" and "InterfaceBackup t = InterfaceBackup s"
    and "xhci_hcd_ptr t = xhci_hcd_ptr s" and "UsbDevice t = UsbDevice s"
  shows "work_pool t"
proof (rule work_pool_kept [OF assms(1)])
  show "contexts_kept s t" using assms(5,6) by (simp add: contexts_kept_def)
  show "\<forall>w \<in> works.nodes s. \<exists>cw'. cache_works t w = Some cw'
      \<and> cw_UrbContext cw' = cw_UrbContext (the (cache_works s w))"
    using work_pool_works [OF assms(1)] assms(4) by fastforce
  have "heap_fresh s" using assms(1) by (simp add: work_pool_def)
  then show "heap_fresh t" by (rule heap_fresh_mono [OF _ assms(5,7)])
  show "\<forall>w \<in> dom (cache_works t). w < next_addr t"
  proof
    fix w assume "w \<in> dom (cache_works t)"
    then have "w < next_addr s" using assms(1,4) by (simp add: work_pool_def)
    then show "w < next_addr t" using assms(7) by simp
  qed
qed (use assms in \<open>auto simp: works.nodes_def work_pool_def\<close>)

text \<open>Adding a work context whose URB context was created.\<close>

lemma work_pool_add:
  assumes "work_pool s" and "create_succeeds k (Suc (tick s))"
  shows "\<exists>t. URB_Create k (UsbPipeCacheOut s) (8 + MESSAGE_DATA_BUFFER_SIZE_CACHE)
       URB_CompletionRoutine_Cache_ptr (Some (CacheWorkPtr (next_addr s)))
       ((tick_up s)\<lparr>next_addr := Suc (next_addr s)\<rparr>) = Some (Some (Suc (next_addr s)), t)
     \<and> work_pool (t\<lparr>cache_queue_free := list_add_tail (next_addr s) (cache_queue_free t),
         cache_works := (cache_works t)(next_addr s \<mapsto>
           \<lparr>cw_UrbContext = Some (Suc (next_addr s)), cw_CacheAddress = 0, cw_DataBuffer = None,
            cw_DataBufferLength = 0, cw_TrbCycleState = 0, cw_ring_doorbell = False,
            cw_slot_id = 0, cw_ep_index = 0, cw_stream_id = 0\<rparr>)\<rparr>)
     \<and> same_blocks s t \<and> cache_list_lock t = cache_list_lock s \<and> usb_log t = usb_log s
     \<and> cache_queue_free t = cache_queue_free s \<and> cache_queue_used t = cache_queue_used s"
proof -
  define w where "w = next_addr s"
  let ?c = "new_URB_CONTEXT (UsbPipeCacheOut s) (8 + MESSAGE_DATA_BUFFER_SIZE_CACHE)
    URB_CompletionRoutine_Cache_ptr (Some (CacheWorkPtr w)) (Suc w)"
  let ?t = "(tick_up s)\<lparr>next_addr := Suc w\<rparr>\<lparr>urb_contexts := (urb_contexts s)(Suc w \<mapsto> ?c),
    next_addr := Suc (Suc w), tick := Suc (Suc (Suc (Suc (tick s))))\<rparr>"
  have new: "w \<notin> works.nodes s" "urb_contexts s (Suc w) = None"
  proof -
    show "w \<notin> works.nodes s"
      using assms(1) by (auto simp: work_pool_def cache_work_ok_def w_def)
    show "urb_contexts s (Suc w) = None"
      using assms(1) unfolding work_pool_def heap_fresh_def w_def
      by (metis domIff not_less_eq less_irrefl less_trans)
  qed
  have cr: "URB_Create k (UsbPipeCacheOut s) (8 + MESSAGE_DATA_BUFFER_SIZE_CACHE)
       URB_CompletionRoutine_Cache_ptr (Some (CacheWorkPtr w)) ((tick_up s)\<lparr>next_addr := Suc w\<rparr>)
     = Some (Some (Suc w), ?t)"
    using URB_Create_made [of "(tick_up s)\<lparr>next_addr := Suc w\<rparr>" k] assms
    by (simp add: work_pool_def interface_bound_def tick_up_def)
  have pool: "pool_ok (cache_queue_free s @ [w]) (cache_queue_used s)"
    using assms(1) new(1) by (auto simp: work_pool_def pool_ok_def works.nodes_def)
  have c: "cache_context (UsbPipeCacheOut s) ?c" by (rule new_cache_context)
  let ?u = "?t\<lparr>cache_queue_free := list_add_tail w (cache_queue_free ?t),
         cache_works := (cache_works ?t)(w \<mapsto>
           \<lparr>cw_UrbContext = Some (Suc w), cw_CacheAddress = 0, cw_DataBuffer = None,
            cw_DataBufferLength = 0, cw_TrbCycleState = 0, cw_ring_doorbell = False,
            cw_slot_id = 0, cw_ep_index = 0, cw_stream_id = 0\<rparr>)\<rparr>"
  have "work_pool ?u"
  proof (rule work_pool_kept [OF assms(1)])
    show "contexts_kept s ?u" using new(2) by (auto simp: contexts_kept_def tick_up_def)
    show "\<forall>v \<in> works.nodes s. \<exists>cw'. cache_works ?u v = Some cw'
        \<and> cw_UrbContext cw' = cw_UrbContext (the (cache_works s v))"
      using assms(1) new(1) by (auto simp: work_pool_def cache_work_ok_def tick_up_def)
    show "\<forall>v \<in> works.nodes ?u - works.nodes s. cache_work_ok ?u v"
      using c by (auto simp: works.nodes_def cache_work_ok_def tick_up_def)
    show "\<forall>v \<in> dom (cache_works ?u). v < next_addr ?u" and "heap_fresh ?u"
      using assms(1) by (auto simp: work_pool_def heap_fresh_def w_def tick_up_def less_Suc_eq)
  qed (use pool in \<open>simp_all add: tick_up_def list_add_tail_def\<close>)
  with cr show ?thesis unfolding w_def [symmetric]
    by (auto simp: same_blocks_def tick_up_def)
qed

lemma cache_work_expand_ok:
  assumes "no_late_failure k"
  shows "work_pool s \<Longrightarrow> \<exists>m t. cache_work_expand_loop k n i s = Some (m, t) \<and> i \<le> m \<and> m \<le> i + n
     \<and> work_pool t \<and> same_blocks s t \<and> cache_list_lock t = cache_list_lock s \<and> usb_log t = usb_log s
     \<and> length (cache_queue_free t) = length (cache_queue_free s) + (m - i)
     \<and> cache_queue_used t = cache_queue_used s"
proof (induction n arbitrary: i s)
  case (Suc n)
  have keep: "work_pool (s\<lparr>tick := t, next_addr := v, UrbContextAllocationError := e\<rparr>)"
    if "next_addr s \<le> v" for t v e
    by (rule work_pool_cong [OF Suc.prems]) (use that in simp_all)
  consider "\<not> kzalloc k (tick s)" | "kzalloc k (tick s)" "\<not> kzalloc k (Suc (tick s))"
    | "kzalloc k (tick s)" "create_succeeds k (Suc (tick s))"
    using assms by (auto simp: create_succeeds_def no_late_failure_def)
  then show ?case
  proof cases
    case 1
    then show ?thesis using keep [where v = "next_addr s" and t = "Suc (tick s)"
        and e = "UrbContextAllocationError s"]
      by (auto simp: tick_up_def same_blocks_def)
  next
    case 2
    let ?s = "(tick_up s)\<lparr>next_addr := Suc (next_addr s)\<rparr>"
    let ?t = "s\<lparr>tick := Suc (Suc (tick s)), next_addr := Suc (next_addr s), UrbContextAllocationError := True\<rparr>"
    have "interface_bound s" using Suc.prems by (simp add: work_pool_def)
    then have "URB_Create k (UsbPipeCacheOut s) (8 + MESSAGE_DATA_BUFFER_SIZE_CACHE)
       URB_CompletionRoutine_Cache_ptr (Some (CacheWorkPtr (next_addr s))) ?s = Some (None, ?t)"
      using 2 by (auto simp: URB_Create_def interface_bound_def tick_up_def)
    then have "cache_work_expand_loop k (Suc n) i s = Some (i, ?t)"
      using 2 by (simp add: Let_def tick_up_def)
    then show ?thesis using keep [where v = "Suc (next_addr s)"] by (auto simp: same_blocks_def)
  next
    case 3
    let ?s = "(tick_up s)\<lparr>next_addr := Suc (next_addr s)\<rparr>"
    obtain t where t: "URB_Create k (UsbPipeCacheOut s) (8 + MESSAGE_DATA_BUFFER_SIZE_CACHE)
       URB_CompletionRoutine_Cache_ptr (Some (CacheWorkPtr (next_addr s))) ?s
       = Some (Some (Suc (next_addr s)), t)" "same_blocks s t" "cache_list_lock t = cache_list_lock s"
      "usb_log t = usb_log s" "cache_queue_free t = cache_queue_free s" "cache_queue_used t = cache_queue_used s"
      and pool: "work_pool (t\<lparr>cache_queue_free := list_add_tail (next_addr s) (cache_queue_free t),
         cache_works := (cache_works t)(next_addr s \<mapsto>
           \<lparr>cw_UrbContext = Some (Suc (next_addr s)), cw_CacheAddress = 0, cw_DataBuffer = None,
            cw_DataBufferLength = 0, cw_TrbCycleState = 0, cw_ring_doorbell = False,
            cw_slot_id = 0, cw_ep_index = 0, cw_stream_id = 0\<rparr>)\<rparr>)" (is "work_pool ?u")
      using work_pool_add [OF Suc.prems 3(2)] by blast
    have step: "cache_work_expand_loop k (Suc n) i s = cache_work_expand_loop k n (Suc i) ?u"
      using 3(1) t(1) by (simp add: Let_def tick_up_def)
    obtain m v where "cache_work_expand_loop k n (Suc i) ?u = Some (m, v)" "Suc i \<le> m" "m \<le> Suc i + n"
      "work_pool v" "same_blocks ?u v" "cache_list_lock v = cache_list_lock ?u" "usb_log v = usb_log ?u"
      "length (cache_queue_free v) = length (cache_queue_free ?u) + (m - Suc i)"
      "cache_queue_used v = cache_queue_used ?u"
      using Suc.IH [OF pool, of "Suc i"] by blast
    with t show ?thesis by (auto simp: step same_blocks_def simp del: cache_work_expand_loop.simps)
  qed
qed simp

text \<open>Taking a work context: either none can be allocated, or one is on the used queue.\<close>

lemma get_cache_work_context_ok:
  assumes "no_late_failure k" and "work_pool s" and "\<not> cache_list_lock s"
  shows "\<exists>p t. ehub_get_cache_work_context k s = Some (p, t) \<and> work_pool t \<and> same_blocks s t
     \<and> \<not> cache_list_lock t \<and> usb_log t = usb_log s
     \<and> (\<forall>w. p = Some w \<longrightarrow> w \<in> set (cache_queue_used t) \<and> w \<in> works.nodes t)"
proof -
  obtain e where e: "DEVICECONTEXT_ErrorCheck (Some s) = Some e"
    using ErrorCheck_no_fault [of s] assms(2) by (auto simp: work_pool_def)
  let ?s = "s\<lparr>cache_list_lock := True\<rparr>"
  have pool: "work_pool ?s" by (rule work_pool_cong [OF assms(2)]) simp_all
  obtain m t where t: "(if cache_queue_free ?s = [] then ehub_xhci_cache_work_expand k 4 ?s
      else Some (1, ?s)) = Some (m, t)" "work_pool t" "same_blocks s t" "usb_log t = usb_log s"
    and ne: "1 \<le> m \<Longrightarrow> cache_queue_free t \<noteq> []"
  proof (cases "cache_queue_free s = []")
    case True
    then show thesis
      using that cache_work_expand_ok [OF assms(1) pool, of 4 0]
      by (fastforce simp: ehub_xhci_cache_work_expand_def same_blocks_def)
  next
    case False
    then show thesis using that pool by (auto simp: same_blocks_def)
  qed
  have unlocked: "work_pool (unlock_cache_list t)"
    by (rule work_pool_cong [OF t(2)]) (simp_all add: unlock_cache_list_def)
  show ?thesis
  proof (cases "e < 0 \<or> m < 1")
    case True
    then show ?thesis using e t unlocked assms(2,3)
      by (auto simp: ehub_get_cache_work_context_def spin_defs same_blocks_def)
  next
    case False
    then obtain w ws where w: "cache_queue_free t = w # ws" using ne by (cases "cache_queue_free t") auto
    have pok: "pool_ok (cache_queue_free t) (cache_queue_used t)" using t(2) by (simp add: work_pool_def)
    note fe = works.first_entry [OF pok w]
    obtain cw where cw: "cache_works t w = Some cw"
      using work_pool_works [OF t(2), of w] w by (auto simp: works.nodes_def)
    let ?u = "unlock_cache_list (work_to_used w t)"
    have nodes: "works.nodes ?u = works.nodes t"
      using fe(5) by (simp add: works.nodes_def unlock_cache_list_def)
    have "work_pool ?u"
      by (rule work_pool_kept [OF t(2)])
        (use t(2) nodes fe(4) work_pool_works [OF t(2)] in \<open>fastforce simp: unlock_cache_list_def
           work_to_used_def contexts_kept_def work_pool_def heap_fresh_def\<close>)+
    moreover have "ehub_get_cache_work_context k s = Some (Some w, ?u)"
      using False e t(1) w cw assms(3) by (simp add: ehub_get_cache_work_context_def spin_defs)
    ultimately show ?thesis using t nodes fe(3)
      by (auto simp: unlock_cache_list_def work_to_used_def same_blocks_def works.nodes_def)
  qed
qed

text \<open>A queued cache write: on success the device gets one transfer that decodes to the request;
  the blocks and the lock are as before in every case.\<close>

lemma queue_cache_write_ok:
  assumes "no_late_failure k" and "work_pool s" and "\<not> cache_list_lock s"
    and "unat len \<le> length bytes" and "unat len \<le> MESSAGE_DATA_BUFFER_SIZE_CACHE"
  shows "\<exists>st t. ehub_queue_cache_write k addr (Some bytes) len cyc db sl ep stream s = Some (st, t)
     \<and> work_pool t \<and> same_blocks s t \<and> \<not> cache_list_lock t
     \<and> (if st < 0 then usb_log t = usb_log s
        else (\<exists>bs d. usb_log t = usb_log s @ [(UsbPipeCacheOut s, bs)]
          \<and> decode_cache_transfer bs = Some (addr, d) \<and> length d = roundup (unat len) 8
          \<and> take (unat len) d = take (unat len) bytes))"
proof -
  obtain e where e: "DEVICECONTEXT_ErrorCheck (Some s) = Some e"
    using ErrorCheck_no_fault [of s] assms(2) by (auto simp: work_pool_def)
  obtain p s1 where s1: "ehub_get_cache_work_context k s = Some (p, s1)" "work_pool s1"
    "same_blocks s s1" "\<not> cache_list_lock s1" "usb_log s1 = usb_log s"
    "\<forall>w. p = Some w \<longrightarrow> w \<in> works.nodes s1"
    using get_cache_work_context_ok [OF assms(1-3)] by blast
  show ?thesis
  proof (cases "e < 0 \<or> p = None")
    case True
    then have "ehub_queue_cache_write k addr (Some bytes) len cyc db sl ep stream s
        = (if e < 0 then Some (e, s) else Some (- ENOBUFS, s1))"
      using e s1(1) by (auto simp: ehub_queue_cache_write_def)
    then show ?thesis using s1 assms(2,3) by (cases "e < 0") auto
  next
    case False
    then obtain w where w: "p = Some w" by auto
    obtain cw a c where cw: "cache_works s1 w = Some cw" "cw_UrbContext cw = Some a"
      "urb_contexts s1 a = Some c" "cache_context (UsbPipeCacheOut s1) c"
      using work_pool_works [OF s1(2)] s1(6) w by blast
    define cw' where "cw' = cw\<lparr>cw_CacheAddress := addr, cw_DataBuffer := Some bytes,
      cw_DataBufferLength := len, cw_TrbCycleState := cyc, cw_ring_doorbell := db, cw_slot_id := sl,
      cw_ep_index := ep, cw_stream_id := stream\<rparr>"
    define s2 where "s2 = s1\<lparr>cache_works := (cache_works s1)(w \<mapsto> cw')\<rparr>"
    have "xhci_hcd_ptr s2 \<noteq> XhciFreed" "UsbDevice s2 \<noteq> None" "urb_contexts s2 a = Some c"
      using s1(2) cw(3) by (simp_all add: s2_def work_pool_def)
    from cache_write_total [OF this cw(4) assms(4,5), of k addr cyc]
    obtain st er c' n lg pd where wr: "EMBEDDED_CACHE_Write k (Some a) addr (Some bytes) len cyc s2
        = Some (st, s2\<lparr>EmbeddedCacheWriteError := er, urb_contexts := (urb_contexts s2)(a \<mapsto> c'),
            tick := n, usb_log := lg, usb_pending := pd\<rparr>)" (is "_ = Some (st, ?t)")
      and c': "cache_context (UsbPipeCacheOut s1) c'"
      and lg: "if st < 0 then lg = usb_log s2 else device_ok s2 \<and> \<not> er \<and> (\<exists>bs d. lg = usb_log s2 @ [(UsbPipeCacheOut s1, bs)]
          \<and> decode_cache_transfer bs = Some (addr, d) \<and> length d = roundup (unat len) 8
          \<and> take (unat len) d = take (unat len) bytes)" by blast
    have "ehub_queue_cache_write k addr (Some bytes) len cyc db sl ep stream s = Some (st, ?t)"
      using False e s1(1) w cw wr by (simp add: ehub_queue_cache_write_def cw'_def s2_def)
    moreover have "work_pool ?t"
    proof (rule work_pool_kept [OF s1(2)])
      show "contexts_kept s1 ?t" using cw(3) c' by (auto simp: contexts_kept_def s2_def)
      show "\<forall>v \<in> works.nodes s1. \<exists>cw'. cache_works ?t v = Some cw'
          \<and> cw_UrbContext cw' = cw_UrbContext (the (cache_works s1 v))"
        using work_pool_works [OF s1(2)] cw(1) by (fastforce simp: s2_def cw'_def)
      show "\<forall>v \<in> dom (cache_works ?t). v < next_addr ?t" and "heap_fresh ?t"
        using s1(2) cw(1,3) by (auto simp: s2_def work_pool_def heap_fresh_def)
      show "pool_ok (cache_queue_free ?t) (cache_queue_used ?t)"
        using s1(2) by (simp add: s2_def work_pool_def)
    qed (simp_all add: s2_def works.nodes_def)
    moreover have "same_blocks s ?t" "\<not> cache_list_lock ?t" "usb_log s2 = usb_log s"
      "UsbPipeCacheOut s1 = UsbPipeCacheOut s"
      using s1 by (simp_all add: s2_def same_blocks_def)
    ultimately show ?thesis using lg by (cases "st < 0") auto
  qed
qed

section \<open>Blocks\<close>

definition blocks_inv :: "ehub \<Rightarrow> bool" where
  "blocks_inv s \<longleftrightarrow> blocks.counted s \<and> block_layout s"

lemma cache_inv_iff: "cache_inv s \<longleftrightarrow> blocks_inv s \<and> \<not> cache_list_lock s"
  by (auto simp: cache_inv_def blocks_inv_def)

lemma block_layout_cong:
  assumes "block_layout s" and "blocks.nodes t = blocks.nodes s"
    and "\<forall>b \<in> blocks.nodes s. \<exists>u. cache_blocks t b = map_option (\<lambda>blk. blk\<lparr>cb_urb := u blk\<rparr>) (cache_blocks s b)"
  shows "block_layout t"
proof -
  have blk: "\<exists>blk blk'. cache_blocks s b = Some blk \<and> cache_blocks t b = Some blk'
      \<and> IndexOfBlock blk' = IndexOfBlock blk \<and> Address blk' = Address blk" if "b \<in> blocks.nodes s" for b
    using assms(1,3) that unfolding block_layout_def by fastforce
  then have "block_index t b = block_index s b" if "b \<in> blocks.nodes s" for b
    using that by (fastforce simp: block_index_def)
  then have "inj_on (block_index t) (blocks.nodes s)"
    using assms(1) by (simp add: block_layout_def cong: inj_on_cong)
  moreover have "\<forall>b \<in> blocks.nodes s. \<exists>blk. cache_blocks t b = Some blk
       \<and> unat (IndexOfBlock blk) < EHUB_CACHE_NUMBER_OF_BLOCKS
       \<and> Address blk = EHUB_CACHE_START_ADDRESS + of_nat EHUB_CACHE_BLOCK_SIZE * IndexOfBlock blk"
    using assms(1) blk unfolding block_layout_def by fastforce
  ultimately show ?thesis by (simp add: block_layout_def assms(2))
qed

lemma set_block_urb_ok:
  assumes "blocks_inv s" and "b \<in> blocks.nodes s"
  shows "\<exists>t. set_block_urb b u s = Some t \<and> blocks_inv t \<and> (\<exists>m. t = s\<lparr>cache_blocks := m\<rparr>)
     \<and> (\<forall>b'. map_option Address (cache_blocks t b') = map_option Address (cache_blocks s b'))"
proof -
  obtain blk where b: "cache_blocks s b = Some blk"
    using assms by (auto simp: blocks_inv_def block_layout_def)
  let ?t = "s\<lparr>cache_blocks := (cache_blocks s)(b \<mapsto> blk\<lparr>cb_urb := u\<rparr>)\<rparr>"
  have "block_layout ?t"
  proof (rule block_layout_cong)
    show "block_layout s" using assms(1) by (simp add: blocks_inv_def)
    show "blocks.nodes ?t = blocks.nodes s" by (simp add: blocks.nodes_def)
    have "blk' = blk'\<lparr>cb_urb := cb_urb blk'\<rparr>" for blk' :: EHUB_CACHE_BLOCK by simp
    then show "\<forall>b' \<in> blocks.nodes s. \<exists>v. cache_blocks ?t b' = map_option (\<lambda>blk. blk\<lparr>cb_urb := v blk\<rparr>) (cache_blocks s b')"
      using b by (auto simp: option.map_ident intro: exI [of _ "\<lambda>_. u"] exI [of _ cb_urb])
  qed
  then show ?thesis using assms(1) b by (auto simp: set_block_urb_def blocks_inv_def blocks.counted_def)
qed

lemma block_to_used_ok:
  assumes "blocks_inv s" and "cache_list_free s = b # bs"
  shows "blocks_inv (block_to_used b s)" and "blocks.nodes (block_to_used b s) = blocks.nodes s"
    and "cache_list_free (block_to_used b s) = bs"
    and "cache_list_used (block_to_used b s) = cache_list_used s @ [b]"
proof -
  have c: "blocks.counted s" and "b \<in> set (cache_list_free s)" using assms by (auto simp: blocks_inv_def)
  from blocks.counted_to_used [OF this] show n: "blocks.nodes (block_to_used b s) = blocks.nodes s"
    and "blocks_inv (block_to_used b s)"
    using assms(1)
    by (auto simp: blocks_inv_def block_layout_def block_index_def block_to_used_def inj_on_def)
  show "cache_list_free (block_to_used b s) = bs"
    and "cache_list_used (block_to_used b s) = cache_list_used s @ [b]"
    using blocks.first_entry(2,3) [OF _ assms(2)] c by (auto simp: blocks.counted_def)
qed

lemma block_to_free_ok:
  assumes "blocks_inv s" and "b \<in> set (cache_list_used s)"
  shows "blocks_inv (block_to_free b s)" and "blocks.nodes (block_to_free b s) = blocks.nodes s"
    and "cache_list_free (block_to_free b s) = cache_list_free s @ [b]"
    and "set (cache_list_used (block_to_free b s)) = set (cache_list_used s) - {b}"
proof -
  have c: "blocks.counted s" using assms by (auto simp: blocks_inv_def)
  from blocks.counted_to_free [OF this assms(2)] show n: "blocks.nodes (block_to_free b s) = blocks.nodes s"
    and "blocks_inv (block_to_free b s)"
    using assms(1)
    by (auto simp: blocks_inv_def block_layout_def block_index_def block_to_free_def inj_on_def)
  show "cache_list_free (block_to_free b s) = cache_list_free s @ [b]"
    and "set (cache_list_used (block_to_free b s)) = set (cache_list_used s) - {b}"
    using blocks.give_back(1,2) [OF _ assms(2)] c by (auto simp: blocks.counted_def)
qed

text \<open>Locking, unlocking and moving blocks do not concern the work contexts, and the other way
  round.\<close>

lemma blocks_inv_lock [simp]:
  "blocks_inv (s\<lparr>cache_list_lock := l\<rparr>) = blocks_inv s"
  "blocks.nodes (s\<lparr>cache_list_lock := l\<rparr>) = blocks.nodes s"
  "cache_list_free (s\<lparr>cache_list_lock := l\<rparr>) = cache_list_free s"
  "cache_list_used (s\<lparr>cache_list_lock := l\<rparr>) = cache_list_used s"
proof -
  show n: "blocks.nodes (s\<lparr>cache_list_lock := l\<rparr>) = blocks.nodes s" by (simp add: blocks.nodes_def)
  have "block_index (s\<lparr>cache_list_lock := l\<rparr>) = block_index s" by (simp add: fun_eq_iff block_index_def)
  with n show "blocks_inv (s\<lparr>cache_list_lock := l\<rparr>) = blocks_inv s"
    by (simp add: blocks_inv_def block_layout_def blocks.counted_def)
qed simp_all

lemma same_blocks_blocks_inv:
  assumes "same_blocks s t"
  shows "blocks_inv t = blocks_inv s"
proof -
  have "block_index t = block_index s" using assms by (simp add: fun_eq_iff same_blocks_def block_index_def)
  then show ?thesis
    using assms same_blocks_nodes [OF assms]
    by (simp add: blocks_inv_def block_layout_def blocks.counted_def same_blocks_def)
qed

lemma work_pool_blocks [simp]:
  "work_pool (s\<lparr>cache_list_lock := l\<rparr>) = work_pool s"
  "work_pool (s\<lparr>cache_blocks := m\<rparr>) = work_pool s"
  "work_pool (block_to_used b s) = work_pool s"
  "work_pool (block_to_free b s) = work_pool s"
proof -
  have eq: "work_pool t = work_pool s"
    if "cache_queue_free t = cache_queue_free s" "cache_queue_used t = cache_queue_used s"
      "cache_works t = cache_works s" "urb_contexts t = urb_contexts s" "next_addr t = next_addr s"
      "UsbPipeCacheOut t = UsbPipeCacheOut s" "InterfaceBackup t = InterfaceBackup s"
      "xhci_hcd_ptr t = xhci_hcd_ptr s" "UsbDevice t = UsbDevice s" for t
    using that work_pool_cong [of s t] work_pool_cong [of t s] by fastforce
  show "work_pool (s\<lparr>cache_list_lock := l\<rparr>) = work_pool s"
    "work_pool (s\<lparr>cache_blocks := m\<rparr>) = work_pool s"
    "work_pool (block_to_used b s) = work_pool s"
    "work_pool (block_to_free b s) = work_pool s"
    by (rule eq; simp add: block_to_used_def block_to_free_def)+
qed

lemma block_move_other [simp]:
  "usb_log (block_to_used b s) = usb_log s" "usb_log (block_to_free b s) = usb_log s"
  "cache_blocks (block_to_used b s) = cache_blocks s" "cache_blocks (block_to_free b s) = cache_blocks s"
  "cache_list_lock (block_to_used b s) = cache_list_lock s"
  "cache_list_lock (block_to_free b s) = cache_list_lock s"
  "UsbPipeCacheOut (block_to_used b s) = UsbPipeCacheOut s"
  "UsbPipeCacheOut (block_to_free b s) = UsbPipeCacheOut s"
  by (simp_all add: block_to_used_def block_to_free_def)

lemma block_allocate_ok:
  assumes "cache_inv s"
  shows "\<exists>p t. ehub_xhci_cache_block_allocate s = Some (p, t) \<and> cache_inv t
     \<and> blocks.nodes t = blocks.nodes s \<and> work_pool t = work_pool s
     \<and> (case p of None \<Rightarrow> cache_list_free s = [] \<and> same_blocks s t
          | Some b \<Rightarrow> cache_list_free s = b # cache_list_free t \<and> cache_list_used t = cache_list_used s @ [b])"
proof -
  have inv: "blocks_inv (s\<lparr>cache_list_lock := True\<rparr>)" and unlocked: "\<not> cache_list_lock s"
    using assms by (simp_all add: cache_inv_iff)
  show ?thesis
  proof (cases "cache_list_free s")
    case Nil
    then show ?thesis using assms unlocked
      by (simp add: ehub_xhci_cache_block_allocate_def spin_defs cache_inv_iff same_blocks_def)
  next
    case (Cons b bs)
    have "b \<in> blocks.nodes (s\<lparr>cache_list_lock := True\<rparr>)" using Cons by (simp add: blocks.nodes_def)
    from set_block_urb_ok [OF inv this, of None] obtain m where m:
      "set_block_urb b None (s\<lparr>cache_list_lock := True\<rparr>) = Some (s\<lparr>cache_list_lock := True, cache_blocks := m\<rparr>)"
      "blocks_inv (s\<lparr>cache_list_lock := True, cache_blocks := m\<rparr>)" by auto
    let ?s1 = "s\<lparr>cache_list_lock := True, cache_blocks := m\<rparr>"
    have f: "cache_list_free ?s1 = b # bs" using Cons by simp
    note u = block_to_used_ok [OF m(2) f]
    have "ehub_xhci_cache_block_allocate s = Some (Some b, unlock_cache_list (block_to_used b ?s1))"
      using Cons unlocked m(1) by (simp add: ehub_xhci_cache_block_allocate_def lock_cache_list_def)
    moreover have "blocks.nodes ?s1 = blocks.nodes s" by (simp add: blocks.nodes_def)
    ultimately show ?thesis using u Cons by (simp add: unlock_cache_list_def cache_inv_iff)
  qed
qed

lemma block_free_ok:
  assumes "cache_inv s" and "b \<in> set (cache_list_used s)"
  shows "\<exists>t. ehub_xhci_cache_block_free b s = Some t \<and> cache_inv t \<and> blocks.nodes t = blocks.nodes s
     \<and> work_pool t = work_pool s \<and> cache_list_free t = cache_list_free s @ [b]
     \<and> set (cache_list_used t) = set (cache_list_used s) - {b}"
proof -
  have inv: "blocks_inv (s\<lparr>cache_list_lock := True\<rparr>)" and unlocked: "\<not> cache_list_lock s"
    using assms by (simp_all add: cache_inv_iff)
  have "b \<in> set (cache_list_used (s\<lparr>cache_list_lock := True\<rparr>))" using assms(2) by simp
  from block_to_free_ok [OF inv this] show ?thesis
    using unlocked by (simp add: ehub_xhci_cache_block_free_def spin_defs cache_inv_iff)
qed

text \<open>A segment gets a block exactly when there is a free one and its data reached the device;
  otherwise nothing is allocated.\<close>

lemma allocate_segment_ok:
  assumes "no_late_failure k" and "work_pool s" and "cache_inv s"
    and data: "EHUB_CACHE_BLOCK_SIZE \<le> length bytes"
  shows "\<exists>p t. ehub_xhci_cache_block_allocate_segment k cyc (Some bytes) s = Some (p, t)
     \<and> work_pool t \<and> cache_inv t \<and> blocks.nodes t = blocks.nodes s
     \<and> (case p of
          None \<Rightarrow> set (cache_list_free t) = set (cache_list_free s)
            \<and> set (cache_list_used t) = set (cache_list_used s) \<and> usb_log t = usb_log s
        | Some b \<Rightarrow> cache_list_free s = b # cache_list_free t \<and> cache_list_used t = cache_list_used s @ [b]
            \<and> (\<exists>blk bs. cache_blocks t b = Some blk
                 \<and> usb_log t = usb_log s @ [(UsbPipeCacheOut s, bs)]
                 \<and> decode_cache_transfer bs = Some (Address blk, take EHUB_CACHE_BLOCK_SIZE bytes)))"
proof (cases "cache_list_free s")
  case Nil
  then show ?thesis using assms by (simp add: ehub_xhci_cache_block_allocate_segment_def spin_defs cache_inv_iff)
next
  case (Cons b bs)
  have inv: "blocks_inv (s\<lparr>cache_list_lock := True\<rparr>)" and unlocked: "\<not> cache_list_lock s"
    using assms by (simp_all add: cache_inv_iff)
  obtain blk where blk: "cache_blocks s b = Some blk"
    using inv Cons by (auto simp: blocks_inv_def block_layout_def blocks.nodes_def)
  let ?s1 = "unlock_cache_list (block_to_used b (s\<lparr>cache_list_lock := True\<rparr>))"
  have f: "cache_list_free (s\<lparr>cache_list_lock := True\<rparr>) = b # bs" using Cons by simp
  note u = block_to_used_ok [OF inv f]
  have s1: "work_pool ?s1" "\<not> cache_list_lock ?s1" "blocks_inv ?s1" "usb_log ?s1 = usb_log s"
    "cache_list_free ?s1 = bs" "cache_list_used ?s1 = cache_list_used s @ [b]"
    "blocks.nodes ?s1 = blocks.nodes s" "cache_blocks ?s1 = cache_blocks s"
    "UsbPipeCacheOut ?s1 = UsbPipeCacheOut s"
    using assms(2) u by (simp_all add: unlock_cache_list_def)
  have len: "unat (of_nat EHUB_CACHE_BLOCK_SIZE :: u32) = EHUB_CACHE_BLOCK_SIZE"
    "roundup EHUB_CACHE_BLOCK_SIZE 8 = EHUB_CACHE_BLOCK_SIZE"
    by (simp_all add: EHUB_CACHE_BLOCK_SIZE_def roundup_def)
  have le: "unat (of_nat EHUB_CACHE_BLOCK_SIZE :: u32) \<le> length bytes"
    "unat (of_nat EHUB_CACHE_BLOCK_SIZE :: u32) \<le> MESSAGE_DATA_BUFFER_SIZE_CACHE"
    using data len by (simp_all add: EHUB_CACHE_BLOCK_SIZE_def)
  obtain st t where q: "ehub_queue_cache_write k (Address blk) (Some bytes) (of_nat EHUB_CACHE_BLOCK_SIZE)
      cyc False 0 0 0 ?s1 = Some (st, t)" "work_pool t" "same_blocks ?s1 t" "\<not> cache_list_lock t"
    "if st < 0 then usb_log t = usb_log ?s1 else (\<exists>bs d. usb_log t = usb_log ?s1 @ [(UsbPipeCacheOut ?s1, bs)]
      \<and> decode_cache_transfer bs = Some (Address blk, d) \<and> length d = EHUB_CACHE_BLOCK_SIZE
      \<and> take EHUB_CACHE_BLOCK_SIZE d = take EHUB_CACHE_BLOCK_SIZE bytes)"
    using queue_cache_write_ok [OF assms(1) s1(1,2) le, of "Address blk" cyc False 0 0 0,
        unfolded len] by blast
  have tinv: "blocks_inv t" "blocks.nodes t = blocks.nodes s" "cache_list_used t = cache_list_used s @ [b]"
    "cache_list_free t = bs" "cache_blocks t = cache_blocks s"
    using same_blocks_blocks_inv [OF q(3)] same_blocks_nodes [OF q(3)] q(3) s1 by (auto simp: same_blocks_def)
  have seg: "ehub_xhci_cache_block_allocate_segment k cyc (Some bytes) s = (if st < 0
      then Some (None, unlock_cache_list (block_to_free b (t\<lparr>cache_list_lock := True\<rparr>))) else Some (Some b, t))"
    using Cons unlocked blk q(1,4)
    by (simp add: ehub_xhci_cache_block_allocate_segment_def lock_cache_list_def)
  show ?thesis
  proof (cases "st < 0")
    case True
    have "blocks_inv (t\<lparr>cache_list_lock := True\<rparr>)" "b \<in> set (cache_list_used (t\<lparr>cache_list_lock := True\<rparr>))"
      using tinv by simp_all
    note fr = block_to_free_ok [OF this]
    have "b \<notin> set (cache_list_used s)"
      using inv Cons by (auto simp: blocks_inv_def blocks.counted_def pool_ok_def)
    then show ?thesis using True seg fr q(2,5) tinv Cons s1(4)
      by (auto simp: unlock_cache_list_def cache_inv_iff)
  next
    case False
    then show ?thesis using seg q tinv Cons blk s1 by (auto simp: cache_inv_iff)
  qed
qed

end
