(* ===== verification/Xhci_Ring.thy ===== *)
theory Xhci_Ring
  imports Ehub_Cache
begin

text \<open>
  Transfer, command and event rings (\<open>xhci-ring.c\<close>, \<open>xhci-mem.c\<close>, \<open>xhci.h\<close>): segments of 64
  TRBs chained by link TRBs, the producer's and consumer's pointers, the accounting of free
  TRBs, allocation and expansion of rings, and the copy of new TRBs into the cache memory of
  the device (\<open>xhci-ehub.c\<close>).

  A pointer to a TRB is a segment together with an index; index 64 is the position one past
  the end, which only event rings use. Loops whose end depends on the link TRBs met on the
  way are \<open>partial_function (option)\<close>: not returning is \<^const>\<open>None\<close>, like a fault.
\<close>

section \<open>TRBs\<close>

definition LINK_TOGGLE :: u32 where "LINK_TOGGLE = 2"
definition TRB_CHAIN :: u32 where "TRB_CHAIN = 0x10"
definition TRB_TYPE_BITMASK :: u32 where "TRB_TYPE_BITMASK = 0xfc00"
definition TRB_LINK :: u32 where "TRB_LINK = 6"
definition TRB_TR_NOOP :: u32 where "TRB_TR_NOOP = 8"

definition TRB_TYPE :: "u32 \<Rightarrow> u32" where
  "TRB_TYPE p = push_bit 10 p"

definition TRB_TYPE_LINK :: "u32 \<Rightarrow> bool" where
  "TRB_TYPE_LINK x \<longleftrightarrow> x AND TRB_TYPE_BITMASK = TRB_TYPE TRB_LINK"

definition XHCI_LINK_TRB_QUIRK :: u32 where "XHCI_LINK_TRB_QUIRK = 1"
definition XHCI_AMD_0x96_HOST :: u32 where "XHCI_AMD_0x96_HOST = 0x200"

definition xhci_link_trb_quirk :: "u32 \<Rightarrow> bool" where
  "xhci_link_trb_quirk quirks \<longleftrightarrow> quirks AND XHCI_LINK_TRB_QUIRK \<noteq> 0"

fun control :: "xhci_generic_trb \<Rightarrow> u32" where
  "control (TRB a b c d) = d"

fun set_control :: "u32 \<Rightarrow> xhci_generic_trb \<Rightarrow> xhci_generic_trb" where
  "set_control v (TRB a b c d) = TRB a b c v"

fun trb_bytes :: "xhci_generic_trb \<Rightarrow> u8 list" where
  "trb_bytes (TRB a b c d) = le32 a @ le32 b @ le32 c @ le32 d"

definition TRB_SEGMENT_SIZE :: nat where "TRB_SEGMENT_SIZE = TRBS_PER_SEGMENT * 16"
definition LINK_TRB_INDEX :: nat where "LINK_TRB_INDEX = TRBS_PER_SEGMENT - 1"
definition LAST_TRB_INDEX :: nat where "LAST_TRB_INDEX = TRBS_PER_SEGMENT - 2"

section \<open>Segments and rings\<close>

datatype xhci_ring_type =
  TYPE_CTRL | TYPE_ISOC | TYPE_BULK | TYPE_INTR | TYPE_STREAM | TYPE_COMMAND | TYPE_EVENT

fun ehub_cache_ring :: "xhci_ring_type \<Rightarrow> bool" where
  "ehub_cache_ring TYPE_CTRL = True"
| "ehub_cache_ring TYPE_ISOC = True"
| "ehub_cache_ring TYPE_BULK = True"
| "ehub_cache_ring TYPE_INTR = True"
| "ehub_cache_ring TYPE_STREAM = False"
| "ehub_cache_ring TYPE_COMMAND = False"
| "ehub_cache_ring TYPE_EVENT = False"

text \<open>The field \<open>orig_dma\<close>, kept only to hand the memory back to its pool, is left out:
  \<open>dma\<close> is the address the controller is told, the kernel address of the TRBs or the address
  of the cache block.\<close>

type_synonym seg_id = nat

record xhci_segment =
  trbs :: "xhci_generic_trb list"
  next_seg :: "seg_id option"
  dma :: u64
  EhubCacheBlock :: "addr option"

type_synonym seg_heap = "seg_id \<rightharpoonup> xhci_segment"

record xhci_td =
  td_urb :: nat
  start_seg :: seg_id
  end_seg :: seg_id
  first_trb :: nat
  td_last_trb :: nat
  urb_length_set :: bool

text \<open>The segments of the ring are part of its record: \<open>segs\<close> is the memory the pointers
  \<open>first_seg\<close> and \<open>next_seg\<close> lead through.\<close>

record xhci_ring =
  first_seg :: seg_id
  last_seg :: seg_id
  enqueue :: nat
  enq_seg :: seg_id
  cache_enqueue :: nat
  cache_enq_seg :: seg_id
  enq_updates :: u32
  dequeue :: nat
  deq_seg :: seg_id
  deq_updates :: u32
  td_list :: "xhci_td list"
  cycle_state :: u32
  num_segs :: u32
  num_trbs_free :: u32
  num_trbs_free_temp :: u32
  ring_type :: xhci_ring_type
  last_td_was_short :: bool
  segs :: seg_heap

definition read_trb :: "seg_heap \<Rightarrow> seg_id \<Rightarrow> nat \<Rightarrow> xhci_generic_trb option" where
  "read_trb h g i = do { sg \<leftarrow> h g; if i < length (trbs sg) then Some (trbs sg ! i) else None }"

definition map_trb :: "(xhci_generic_trb \<Rightarrow> xhci_generic_trb) \<Rightarrow> seg_id \<Rightarrow> nat \<Rightarrow> seg_heap \<Rightarrow> seg_heap option" where
  "map_trb f g i h = do {
     sg \<leftarrow> h g;
     if i < length (trbs sg) then Some (h(g \<mapsto> sg\<lparr>trbs := (trbs sg)[i := f (trbs sg ! i)]\<rparr>)) else None }"

definition next_of :: "seg_heap \<Rightarrow> seg_id \<Rightarrow> seg_id option" where
  "next_of h g = Option.bind (h g) next_seg"

section \<open>Walking a ring\<close>

text \<open>The address of a TRB for the controller, 0 when it is not in the segment.\<close>

definition ehub_xhci_trb_virt_to_dma :: "xhci_segment option \<Rightarrow> nat option \<Rightarrow> u64" where
  "ehub_xhci_trb_virt_to_dma seg trb =
     (case (seg, trb) of
        (Some sg, Some segment_offset) \<Rightarrow>
          if TRBS_PER_SEGMENT \<le> segment_offset then 0 else dma sg + of_nat (segment_offset * 16)
      | _ \<Rightarrow> 0)"

text \<open>The event ring of the controller is the only ring of type \<open>TYPE_EVENT\<close>.\<close>

definition last_trb_on_last_seg :: "xhci_ring \<Rightarrow> seg_id \<Rightarrow> nat \<Rightarrow> bool option" where
  "last_trb_on_last_seg r g i =
     (if ring_type r = TYPE_EVENT
      then map_option (\<lambda>sg. i = TRBS_PER_SEGMENT \<and> next_seg sg = Some (first_seg r)) (segs r g)
      else map_option (\<lambda>t. control t AND LINK_TOGGLE \<noteq> 0) (read_trb (segs r) g i))"

definition last_trb :: "xhci_ring \<Rightarrow> seg_id \<Rightarrow> nat \<Rightarrow> bool option" where
  "last_trb r g i =
     (if ring_type r = TYPE_EVENT then Some (i = TRBS_PER_SEGMENT)
      else map_option (\<lambda>t. TRB_TYPE_LINK (control t)) (read_trb (segs r) g i))"

definition enqueue_is_link_trb :: "xhci_ring \<Rightarrow> bool option" where
  "enqueue_is_link_trb r = map_option (\<lambda>t. TRB_TYPE_LINK (control t)) (read_trb (segs r) (enq_seg r) (enqueue r))"

definition next_trb :: "xhci_ring \<Rightarrow> seg_id \<times> nat \<Rightarrow> (seg_id \<times> nat) option" where
  "next_trb r p = (case p of (g, i) \<Rightarrow> do {
     l \<leftarrow> last_trb r g i;
     if l then map_option (\<lambda>g'. (g', 0)) (next_of (segs r) g) else Some (g, Suc i) })"

text \<open>The consumer's pointer.\<close>

partial_function (option) inc_deq_loop :: "xhci_ring \<Rightarrow> xhci_ring option" where
  "inc_deq_loop r = do {
     l \<leftarrow> last_trb r (deq_seg r) (dequeue r);
     r1 \<leftarrow> (if l then do {
               tog \<leftarrow> last_trb_on_last_seg r (deq_seg r) (dequeue r);
               g \<leftarrow> next_of (segs r) (deq_seg r);
               Some (r\<lparr>cycle_state := (if ring_type r = TYPE_EVENT \<and> tog then cycle_state r XOR 1 else cycle_state r),
                       deq_seg := g, dequeue := 0\<rparr>)
             } else Some (r\<lparr>dequeue := Suc (dequeue r)\<rparr>));
     l1 \<leftarrow> last_trb r1 (deq_seg r1) (dequeue r1);
     if l1 then inc_deq_loop r1 else Some r1
   }"

definition inc_deq :: "xhci_ring \<Rightarrow> xhci_ring option" where
  "inc_deq r = do {
     l \<leftarrow> last_trb r (deq_seg r) (dequeue r);
     inc_deq_loop (r\<lparr>deq_updates := deq_updates r + 1,
        num_trbs_free := (if ring_type r \<noteq> TYPE_EVENT \<and> \<not> l then num_trbs_free r + 1 else num_trbs_free r)\<rparr>)
   }"

text \<open>Handing the link TRB under the producer's pointer to the controller: the chain bit is
  carried over unless a quirk forbids it, the cycle bit is flipped, and the cycle state
  changes when the ring wraps.\<close>

definition keeps_link_chain :: "u32 \<Rightarrow> xhci_ring_type \<Rightarrow> bool" where
  "keeps_link_chain quirks ty \<longleftrightarrow> (ty = TYPE_ISOC \<and> quirks AND XHCI_AMD_0x96_HOST \<noteq> 0) \<or> xhci_link_trb_quirk quirks"

definition give_link :: "u32 \<Rightarrow> u32 \<Rightarrow> u32 \<Rightarrow> xhci_ring \<Rightarrow> xhci_ring option" where
  "give_link clear set_bits flip r = do {
     h \<leftarrow> map_trb (\<lambda>t. set_control (((control t AND NOT clear) OR set_bits) XOR flip) t) (enq_seg r) (enqueue r) (segs r);
     let r1 = r\<lparr>segs := h\<rparr>;
     tog \<leftarrow> last_trb_on_last_seg r1 (enq_seg r1) (enqueue r1);
     Some (if tog then r1\<lparr>cycle_state := cycle_state r1 XOR 1\<rparr> else r1)
   }"

definition enq_to_next_seg :: "xhci_ring \<Rightarrow> xhci_ring option" where
  "enq_to_next_seg r = map_option (\<lambda>g. r\<lparr>enq_seg := g, enqueue := 0\<rparr>) (next_of (segs r) (enq_seg r))"

partial_function (option) inc_enq_loop :: "u32 \<Rightarrow> u32 \<Rightarrow> bool \<Rightarrow> xhci_ring \<Rightarrow> xhci_ring option" where
  "inc_enq_loop quirks chain more_trbs_coming r = do {
     l \<leftarrow> last_trb r (enq_seg r) (enqueue r);
     if \<not> l then Some r
     else if ring_type r \<noteq> TYPE_EVENT then
       (if chain = 0 \<and> \<not> more_trbs_coming then Some r
        else do {
          r1 \<leftarrow> (if keeps_link_chain quirks (ring_type r) then give_link 0 0 TRB_CYCLE r
                 else give_link TRB_CHAIN chain TRB_CYCLE r);
          r2 \<leftarrow> enq_to_next_seg r1;
          inc_enq_loop quirks chain more_trbs_coming r2
        })
     else do {
       r2 \<leftarrow> enq_to_next_seg r;
       inc_enq_loop quirks chain more_trbs_coming r2
     }
   }"

definition inc_enq :: "u32 \<Rightarrow> bool \<Rightarrow> xhci_ring \<Rightarrow> xhci_ring option" where
  "inc_enq quirks more_trbs_coming r = do {
     t \<leftarrow> read_trb (segs r) (enq_seg r) (enqueue r);
     l \<leftarrow> last_trb r (enq_seg r) (enqueue r);
     inc_enq_loop quirks (control t AND TRB_CHAIN) more_trbs_coming (r\<lparr>
        num_trbs_free := (if ring_type r \<noteq> TYPE_EVENT \<and> \<not> l then num_trbs_free r - 1 else num_trbs_free r),
        enqueue := Suc (enqueue r), enq_updates := enq_updates r + 1\<rparr>)
   }"

section \<open>Room\<close>

definition room_on_ring :: "xhci_ring \<Rightarrow> u32 \<Rightarrow> bool" where
  "room_on_ring r num_trbs \<longleftrightarrow> \<not> num_trbs_free r < num_trbs
     \<and> (ring_type r \<noteq> TYPE_COMMAND \<and> ring_type r \<noteq> TYPE_EVENT \<longrightarrow>
          \<not> num_trbs_free r < num_trbs + of_nat (dequeue r))"

text \<open>The result is converted to a signed integer; the loop that repeats the subtraction while
  it exceeds the segment size reads the same two fields again.\<close>

definition num_trbs_needed :: "xhci_ring \<Rightarrow> u32 \<Rightarrow> int" where
  "num_trbs_needed r num_trbs =
     (if num_trbs_free r < num_trbs then sint (num_trbs - num_trbs_free r)
      else if ring_type r \<noteq> TYPE_COMMAND \<and> ring_type r \<noteq> TYPE_EVENT
        \<and> num_trbs_free r < num_trbs + of_nat (dequeue r)
        then sint (num_trbs + of_nat (dequeue r) - num_trbs_free r)
      else 0)"

section \<open>Queueing\<close>

definition queue_trb :: "u32 \<Rightarrow> bool \<Rightarrow> u32 \<Rightarrow> u32 \<Rightarrow> u32 \<Rightarrow> u32 \<Rightarrow> xhci_ring \<Rightarrow> xhci_ring option" where
  "queue_trb quirks more_trbs_coming field1 field2 field3 field4 r = do {
     h \<leftarrow> map_trb (\<lambda>_. TRB field1 field2 field3 field4) (enq_seg r) (enqueue r) (segs r);
     inc_enq quirks more_trbs_coming (r\<lparr>segs := h\<rparr>)
   }"

end
