(* ===== verification/Xhci_Ring_Mem.thy ===== *)
theory Xhci_Ring_Mem
  imports Xhci_Ring
begin

text \<open>
  Memory of rings (\<open>xhci-mem.c\<close>), the preparation of a ring for new TRBs and the command
  queue (\<open>xhci-ring.c\<close>), and the copy of new TRBs to the cache memory (\<open>xhci-ehub.c\<close>). These
  operations run on a ring and on the state of the FL6000 layer together, since segments
  of cached rings own a block of the device's cache memory.
\<close>

abbreviation (input) ENOENT :: int where "ENOENT \<equiv> 2"

definition segment_bytes :: "xhci_segment \<Rightarrow> u8 list" where
  "segment_bytes sg = concat (map trb_bytes (trbs sg))"

section \<open>Segments\<close>

text \<open>A new segment: the TRBs are zero, with the cycle bit set when the cycle state is 0.\<close>

definition xhci_segment_alloc :: "env \<Rightarrow> u32 \<Rightarrow> ehub \<Rightarrow> (seg_id \<times> xhci_segment) option \<times> ehub" where
  "xhci_segment_alloc k cyc s =
     (if \<not> kzalloc k (tick s) then (None, tick_up s)
      else case dma_pool_alloc k (Suc (tick s)) of
        None \<Rightarrow> (None, tick_up (tick_up s))
      | Some mem \<Rightarrow>
          (Some (next_addr s,
             \<lparr>trbs = replicate TRBS_PER_SEGMENT (TRB 0 0 0 (if cyc = 0 then TRB_CYCLE else 0)),
              next_seg = None, dma = mem, EhubCacheBlock = None\<rparr>),
           (tick_up (tick_up s))\<lparr>next_addr := Suc (next_addr s)\<rparr>))"

definition xhci_segment_free :: "seg_id \<Rightarrow> seg_heap \<Rightarrow> seg_heap" where
  "xhci_segment_free g h = h(g := None)"

text \<open>The loop frees the segments after the first, following the pointers read before.\<close>

partial_function (option) free_segments_loop :: "seg_id \<Rightarrow> seg_id \<Rightarrow> seg_heap \<times> ehub \<Rightarrow> (seg_heap \<times> ehub) option" where
  "free_segments_loop first g hs = (case hs of (h, s) \<Rightarrow>
     if g = first then Some (h, s)
     else do {
       sg \<leftarrow> h g;
       nx \<leftarrow> next_seg sg;
       s1 \<leftarrow> (case EhubCacheBlock sg of None \<Rightarrow> Some s | Some b \<Rightarrow> ehub_xhci_cache_block_free b s);
       free_segments_loop first nx (xhci_segment_free g h, s1)
     })"

definition xhci_free_segments_for_ring :: "seg_id \<Rightarrow> seg_heap \<Rightarrow> ehub \<Rightarrow> (seg_heap \<times> ehub) option" where
  "xhci_free_segments_for_ring first h s = do {
     g \<leftarrow> next_of h first;
     (h1, s1) \<leftarrow> free_segments_loop first g (h, s);
     sg \<leftarrow> h1 first;
     s2 \<leftarrow> (case EhubCacheBlock sg of None \<Rightarrow> Some s1 | Some b \<Rightarrow> ehub_xhci_cache_block_free b s1);
     Some (xhci_segment_free first h1, s2)
   }"

text \<open>Writing one TRB of a cached segment, at offset \<open>off\<close> of its block; the status of the
  write is reported but not acted upon by every caller.\<close>

definition cache_link_trb :: "env \<Rightarrow> seg_id \<Rightarrow> seg_heap \<Rightarrow> ehub \<Rightarrow> int outcome" where
  "cache_link_trb k g h s = do {
     sg \<leftarrow> h g;
     b \<leftarrow> EhubCacheBlock sg;
     blk \<leftarrow> cache_blocks s b;
     t \<leftarrow> read_trb h g (TRBS_PER_SEGMENT - 1);
     ehub_queue_cache_write k (Address blk + of_nat TRB_SEGMENT_SIZE - 16) (Some (trb_bytes t)) 16 (- 1) False 0 0 0 s
   }"

definition set_segment_ptr :: "u64 \<Rightarrow> xhci_generic_trb \<Rightarrow> xhci_generic_trb" where
  "set_segment_ptr p t = (case t of TRB a b c d \<Rightarrow> TRB (ucast p) (ucast (drop_bit 32 p)) c d)"

definition link_control :: "u32 \<Rightarrow> xhci_ring_type \<Rightarrow> u32 \<Rightarrow> u32" where
  "link_control quirks ty v =
     (let v1 = (v AND NOT TRB_TYPE_BITMASK) OR TRB_TYPE TRB_LINK in
      if xhci_link_trb_quirk quirks \<or> (ty = TYPE_ISOC \<and> quirks AND XHCI_AMD_0x96_HOST \<noteq> 0)
      then v1 OR TRB_CHAIN else v1)"

definition xhci_link_segments ::
  "env \<Rightarrow> u32 \<Rightarrow> seg_id \<Rightarrow> seg_id \<Rightarrow> xhci_ring_type \<Rightarrow> seg_heap \<Rightarrow> ehub \<Rightarrow> (seg_heap \<times> ehub) option" where
  "xhci_link_segments k quirks prev nx ty h s = do {
     sg \<leftarrow> h prev;
     let h1 = h(prev \<mapsto> sg\<lparr>next_seg := Some nx\<rparr>);
     if ty = TYPE_EVENT then Some (h1, s)
     else do {
       sgn \<leftarrow> h1 nx;
       h2 \<leftarrow> map_trb (\<lambda>t. set_control (link_control quirks ty (control t)) (set_segment_ptr (dma sgn) t))
              prev (TRBS_PER_SEGMENT - 1) h1;
       if ehub_cache_ring ty then do {
         (status, s1) \<leftarrow> cache_link_trb k prev h2 s;
         Some (h2, s1)
       } else Some (h2, s)
     }
   }"

text \<open>A segment with its cache block, whose address becomes the segment's DMA address.\<close>

definition alloc_cached_segment ::
  "env \<Rightarrow> u32 \<Rightarrow> xhci_ring_type \<Rightarrow> seg_heap \<Rightarrow> ehub \<Rightarrow> ((seg_id \<times> bool) option \<times> seg_heap) outcome" where
  "alloc_cached_segment k cyc ty h s =
     (case xhci_segment_alloc k cyc s of
        (None, s1) \<Rightarrow> Some ((None, h), s1)
      | (Some (g, sg), s1) \<Rightarrow>
          if ehub_cache_ring ty then do {
            (p, s2) \<leftarrow> ehub_xhci_cache_block_allocate_segment k (uint cyc) (Some (segment_bytes sg)) s1;
            (case p of
               None \<Rightarrow> Some ((Some (g, False), h(g \<mapsto> sg)), s2)
             | Some b \<Rightarrow> do {
                 blk \<leftarrow> cache_blocks s2 b;
                 Some ((Some (g, True), h(g \<mapsto> sg\<lparr>EhubCacheBlock := Some b, dma := ucast (Address blk)\<rparr>)), s2)
               })
          } else Some ((Some (g, True), h(g \<mapsto> sg)), s1))"

text \<open>Undoing a failed allocation: the segments linked so far are freed from the first on until
  the pointer that was never set.\<close>

fun undo_segments :: "nat \<Rightarrow> bool \<Rightarrow> seg_id option \<Rightarrow> seg_heap \<Rightarrow> ehub \<Rightarrow> (seg_heap \<times> ehub) option" where
  "undo_segments n cached None h s = Some (h, s)"
| "undo_segments 0 cached (Some g) h s = None"
| "undo_segments (Suc n) cached (Some g) h s = do {
     sg \<leftarrow> h g;
     s1 \<leftarrow> (if cached then (case EhubCacheBlock sg of None \<Rightarrow> None | Some b \<Rightarrow> ehub_xhci_cache_block_free b s)
            else Some s);
     undo_segments n cached (next_seg sg) (xhci_segment_free g h) s1
   }"

fun alloc_segments_loop ::
  "env \<Rightarrow> u32 \<Rightarrow> nat \<Rightarrow> nat \<Rightarrow> u32 \<Rightarrow> xhci_ring_type \<Rightarrow> seg_id \<Rightarrow> seg_id \<Rightarrow> seg_heap \<Rightarrow> ehub
     \<Rightarrow> (int \<times> seg_id \<times> seg_heap) outcome" where
  "alloc_segments_loop k quirks total_segs 0 cyc ty first prev h s = Some ((0, prev, h), s)"
| "alloc_segments_loop k quirks total_segs (Suc n) cyc ty first prev h s = do {
     ((p, h1), s1) \<leftarrow> alloc_cached_segment k cyc ty h s;
     (case p of
        None \<Rightarrow> do {
          (h2, s2) \<leftarrow> undo_segments total_segs (ehub_cache_ring ty) (Some first) h1 s1;
          Some ((- ENOMEM, prev, h2), s2)
        }
      | Some (g, ok) \<Rightarrow>
          if \<not> ok then Some ((- ENOMEM, prev, h1), s1)
          else do {
            (h2, s2) \<leftarrow> xhci_link_segments k quirks prev g ty h1 s1;
            if IS_EMBEDDED_CACHE_WRITE_ERROR s2 then Some ((- ENOMEM, prev, h2), s2)
            else alloc_segments_loop k quirks total_segs n cyc ty first g h2 s2
          })
   }"

text \<open>Allocation of \<open>n\<close> segments, at least one, linked into a circle: status, first and last
  segment, memory.\<close>

definition xhci_alloc_segments_for_ring ::
  "env \<Rightarrow> u32 \<Rightarrow> nat \<Rightarrow> u32 \<Rightarrow> xhci_ring_type \<Rightarrow> seg_heap \<Rightarrow> ehub
     \<Rightarrow> (int \<times> seg_id \<times> seg_id \<times> seg_heap) outcome" where
  "xhci_alloc_segments_for_ring k quirks n cyc ty h s = do {
     ((p, h1), s1) \<leftarrow> alloc_cached_segment k cyc ty h s;
     (case p of
        None \<Rightarrow> Some ((- ENOMEM, 0, 0, h1), s1)
      | Some (first, ok) \<Rightarrow>
          if \<not> ok then Some ((- ENOMEM, 0, 0, h1), s1)
          else do {
            ((ret, prev, h2), s2) \<leftarrow> alloc_segments_loop k quirks n (n - 1) cyc ty first first h1 s1;
            if ret \<noteq> 0 then Some ((ret, first, prev, h2), s2)
            else do {
              (h3, s3) \<leftarrow> xhci_link_segments k quirks prev first ty h2 s2;
              Some ((0, first, prev, h3), s3)
            }
          })
   }"

section \<open>Rings\<close>

definition xhci_initialize_ring_info :: "u32 \<Rightarrow> xhci_ring \<Rightarrow> xhci_ring" where
  "xhci_initialize_ring_info cyc r = r\<lparr>
     enqueue := 0, enq_seg := first_seg r, cache_enqueue := 0, cache_enq_seg := first_seg r,
     dequeue := 0, deq_seg := first_seg r, cycle_state := cyc, enq_updates := 0, deq_updates := 0,
     num_trbs_free := num_segs r * of_nat (TRBS_PER_SEGMENT - 1) - 1\<rparr>"

definition set_toggle :: "seg_id \<Rightarrow> seg_heap \<Rightarrow> seg_heap option" where
  "set_toggle g = map_trb (\<lambda>t. set_control (control t OR LINK_TOGGLE) t) g (TRBS_PER_SEGMENT - 1)"

definition clear_toggle :: "seg_id \<Rightarrow> seg_heap \<Rightarrow> seg_heap option" where
  "clear_toggle g = map_trb (\<lambda>t. set_control (control t AND NOT LINK_TOGGLE) t) g (TRBS_PER_SEGMENT - 1)"

text \<open>A ring of zeros, as \<open>kzalloc\<close> gives it.\<close>

definition zero_ring :: "nat \<Rightarrow> xhci_ring_type \<Rightarrow> xhci_ring" where
  "zero_ring n ty = \<lparr>first_seg = 0, last_seg = 0, enqueue = 0, enq_seg = 0, cache_enqueue = 0, cache_enq_seg = 0,
     enq_updates = 0, dequeue = 0, deq_seg = 0, deq_updates = 0, td_list = [], cycle_state = 0,
     num_segs = of_nat n, num_trbs_free = 0, num_trbs_free_temp = 0, ring_type = ty,
     last_td_was_short = False, segs = Map.empty\<rparr>"

definition xhci_ring_alloc ::
  "env \<Rightarrow> u32 \<Rightarrow> nat \<Rightarrow> u32 \<Rightarrow> xhci_ring_type \<Rightarrow> ehub \<Rightarrow> xhci_ring option outcome" where
  "xhci_ring_alloc k quirks n cyc ty s =
     (if \<not> kzalloc k (tick s) then Some (None, tick_up s)
      else if n = 0 then Some (Some (zero_ring n ty), tick_up s)
      else do {
        ((ret, first, last_sg, h), s1) \<leftarrow> xhci_alloc_segments_for_ring k quirks n cyc ty Map.empty (tick_up s);
        if ret \<noteq> 0 then Some (None, s1)
        else do {
          h1 \<leftarrow> (if ty \<noteq> TYPE_EVENT then set_toggle last_sg h else Some h);
          Some (Some (xhci_initialize_ring_info cyc
                   ((zero_ring n ty)\<lparr>first_seg := first, last_seg := last_sg, segs := h1\<rparr>)), s1)
        }
      })"

text \<open>Freeing a ring gives its segments and their cache blocks back. The mapping of stream
  rings is a radix tree of the kernel and does not show in the ring.\<close>

definition ehub_xhci_ring_free :: "xhci_ring option \<Rightarrow> ehub \<Rightarrow> ehub option" where
  "ehub_xhci_ring_free p s =
     (case p of
        None \<Rightarrow> Some s
      | Some r \<Rightarrow> if segs r (first_seg r) = None then Some s
                 else map_option snd (xhci_free_segments_for_ring (first_seg r) (segs r) s))"

text \<open>Inserting new segments after the one the producer is in.\<close>

definition xhci_link_rings ::
  "env \<Rightarrow> u32 \<Rightarrow> seg_id \<Rightarrow> seg_id \<Rightarrow> nat \<Rightarrow> xhci_ring \<Rightarrow> ehub \<Rightarrow> (xhci_ring \<times> ehub) option" where
  "xhci_link_rings k quirks first last_sg n r s = do {
     nx \<leftarrow> next_of (segs r) (enq_seg r);
     (h1, s1) \<leftarrow> xhci_link_segments k quirks (enq_seg r) first (ring_type r) (segs r) s;
     if IS_EMBEDDED_CACHE_WRITE_ERROR s1 then Some (r\<lparr>segs := h1\<rparr>, s1)
     else do {
       (h2, s2) \<leftarrow> xhci_link_segments k quirks last_sg nx (ring_type r) h1 s1;
       if IS_EMBEDDED_CACHE_WRITE_ERROR s2 then Some (r\<lparr>segs := h2\<rparr>, s2)
       else do {
         let r1 = r\<lparr>segs := h2, num_segs := num_segs r + of_nat n,
                    num_trbs_free := num_trbs_free r + of_nat ((TRBS_PER_SEGMENT - 1) * n)\<rparr>;
         if ring_type r \<noteq> TYPE_EVENT \<and> enq_seg r = last_seg r then do {
           h3 \<leftarrow> clear_toggle (last_seg r) h2;
           h4 \<leftarrow> set_toggle last_sg h3;
           Some (r1\<lparr>segs := h4, last_seg := last_sg\<rparr>, s2)
         } else Some (r1, s2)
       }
     }
   }"

text \<open>Expansion doubles the ring or adds what is needed. \<open>map_ok\<close> is the answer of the radix
  tree for the segments of a stream ring; when it refuses them they are freed again.\<close>

definition ehub_xhci_ring_expansion ::
  "env \<Rightarrow> u32 \<Rightarrow> int \<Rightarrow> u32 \<Rightarrow> xhci_ring \<Rightarrow> ehub \<Rightarrow> (int \<times> xhci_ring) outcome" where
  "ehub_xhci_ring_expansion k quirks map_status num_trbs r s = do {
     let num_segs_needed = (num_trbs + of_nat (TRBS_PER_SEGMENT - 1) - 1) div of_nat (TRBS_PER_SEGMENT - 1);
     let n = (if num_segs r > num_segs_needed then num_segs r else num_segs_needed);
     ((ret, first, last_sg, h), s1) \<leftarrow> xhci_alloc_segments_for_ring k quirks (unat n) (cycle_state r) (ring_type r) (segs r) s;
     if ret \<noteq> 0 then Some ((- ENOMEM, r\<lparr>segs := h\<rparr>), s1)
     else if ring_type r = TYPE_STREAM \<and> map_status \<noteq> 0
       then Some ((map_status, r), s1)
     else do {
       (r1, s2) \<leftarrow> xhci_link_rings k quirks first last_sg (unat n) (r\<lparr>segs := h\<rparr>) s1;
       Some ((0, r1), s2)
     }
   }"

end
