(* ===== verification/Xhci_Queue.thy ===== *)
theory Xhci_Queue
  imports Xhci_Ring_Mem
begin

text \<open>
  Making a ring ready for new TRBs, handing a transfer to the controller, and the command
  queue (\<open>xhci-ring.c\<close>), with the copy of new TRBs to the cache memory of the device
  (\<open>xhci-ehub.c\<close>).
\<close>

section \<open>Copying new TRBs to the cache\<close>

definition ehub_xhci_get_last_trb_from_segment :: "seg_id \<Rightarrow> seg_id \<times> nat" where
  "ehub_xhci_get_last_trb_from_segment g = (g, LAST_TRB_INDEX)"

definition ehub_xhci_get_link_trb_from_segment :: "seg_id \<Rightarrow> seg_id \<times> nat" where
  "ehub_xhci_get_link_trb_from_segment g = (g, LINK_TRB_INDEX)"

text \<open>The TRB before a position. The loop looks for the segment whose successor is the given one
  and starts at that segment's successor, so a ring of one segment has no predecessor of its
  first TRB.\<close>

partial_function (option) find_prev_loop :: "seg_heap \<Rightarrow> seg_id \<Rightarrow> seg_id \<Rightarrow> (seg_id \<times> nat) option option" where
  "find_prev_loop h seg prev_seg =
     (if prev_seg = seg then Some None
      else do {
        nx \<leftarrow> next_of h prev_seg;
        if nx = seg then Some (Some (ehub_xhci_get_link_trb_from_segment prev_seg))
        else find_prev_loop h seg nx
      })"

definition ehub_find_prev_trb :: "seg_heap \<Rightarrow> nat \<Rightarrow> seg_id \<Rightarrow> (seg_id \<times> nat) option option" where
  "ehub_find_prev_trb h trb seg =
     (if trb \<noteq> 0 then Some (Some (seg, trb - 1))
      else do { g \<leftarrow> next_of h seg; find_prev_loop h seg g })"

text \<open>The loop sends, segment by segment, everything from the first TRB not yet in the cache to
  the last TRB queued. A missing predecessor is no segment, so the loop would never see its
  last copy.\<close>

definition copy_end :: "(seg_id \<times> nat) option \<Rightarrow> seg_id \<Rightarrow> nat \<Rightarrow> nat \<times> bool" where
  "copy_end last_pos cur_seg start_trb =
     (case last_pos of
        None \<Rightarrow> (snd (ehub_xhci_get_link_trb_from_segment cur_seg), False)
      | Some (last_sg, last_tr) \<Rightarrow>
          if cur_seg \<noteq> last_sg \<or> start_trb > last_tr
          then (snd (ehub_xhci_get_link_trb_from_segment cur_seg), False)
          else (last_tr, True))"

partial_function (option) copy_loop ::
  "env \<Rightarrow> u32 \<Rightarrow> u32 \<Rightarrow> u32 \<Rightarrow> bool \<Rightarrow> seg_heap \<Rightarrow> (seg_id \<times> nat) option \<Rightarrow> seg_id \<Rightarrow> nat \<Rightarrow> ehub \<Rightarrow> ehub option" where
  "copy_loop k slot_id ep_index stream_id ring_doorbell h last_pos cur_seg start_trb s = do {
     sg \<leftarrow> h cur_seg;
     b \<leftarrow> EhubCacheBlock sg;
     blk \<leftarrow> cache_blocks s b;
     let end_trb = fst (copy_end last_pos cur_seg start_trb);
     let lastCopy = snd (copy_end last_pos cur_seg start_trb);
     let cacheAddress = (ucast (Address blk) + of_nat (16 * start_trb) :: u64);
     let copyLength = (of_int (1 + int end_trb - int start_trb) :: u32) * 16;
     (status, s1) \<leftarrow> (if cacheAddress \<noteq> 0 \<and> copyLength \<noteq> 0
        then ehub_queue_cache_write k (ucast cacheAddress)
               (Some (concat (map trb_bytes (drop start_trb (trbs sg))))) copyLength (- 1)
               (lastCopy \<and> ring_doorbell) slot_id ep_index stream_id s
        else Some (0, s));
     if status < 0 \<or> lastCopy then Some s1
     else do {
       g \<leftarrow> next_seg sg;
       copy_loop k slot_id ep_index stream_id ring_doorbell h last_pos g 0 s1
     }
   }"

definition ehub_xhci_cache_copy_from_ring ::
  "env \<Rightarrow> u32 \<Rightarrow> u32 \<Rightarrow> u32 \<Rightarrow> bool \<Rightarrow> xhci_ring \<Rightarrow> ehub \<Rightarrow> (xhci_ring \<times> ehub) option" where
  "ehub_xhci_cache_copy_from_ring k slot_id ep_index stream_id ring_doorbell r s = do {
     last_pos \<leftarrow> ehub_find_prev_trb (segs r) (enqueue r) (enq_seg r);
     s1 \<leftarrow> copy_loop k slot_id ep_index stream_id ring_doorbell (segs r) last_pos (cache_enq_seg r) (cache_enqueue r) s;
     Some (r\<lparr>cache_enqueue := enqueue r, cache_enq_seg := enq_seg r\<rparr>, s1)
   }"

section \<open>Preparing a ring\<close>

definition EP_STATE_DISABLED :: u32 where "EP_STATE_DISABLED = 0"
definition EP_STATE_RUNNING :: u32 where "EP_STATE_RUNNING = 1"
definition EP_STATE_HALTED :: u32 where "EP_STATE_HALTED = 2"
definition EP_STATE_STOPPED :: u32 where "EP_STATE_STOPPED = 3"
definition EP_STATE_ERROR :: u32 where "EP_STATE_ERROR = 4"

definition check_ep_state :: "u32 \<Rightarrow> int" where
  "check_ep_state st =
     (if st = EP_STATE_DISABLED then - ENOENT
      else if st = EP_STATE_ERROR then - EINVAL
      else if st = EP_STATE_HALTED \<or> st = EP_STATE_STOPPED \<or> st = EP_STATE_RUNNING then 0
      else - EINVAL)"

text \<open>The ring is expanded until the TRBs fit; the command ring is never expanded.\<close>

partial_function (option) make_room ::
  "env \<Rightarrow> u32 \<Rightarrow> int \<Rightarrow> bool \<Rightarrow> u32 \<Rightarrow> xhci_ring \<Rightarrow> ehub \<Rightarrow> (int \<times> xhci_ring) outcome" where
  "make_room k quirks map_status is_cmd_ring num_trbs r s =
     (let trbs_needed = num_trbs_needed r num_trbs in
      if trbs_needed < 1 then Some ((0, r), s)
      else if is_cmd_ring then Some ((- ENOMEM, r), s)
      else do {
        ((ret, r1), s1) \<leftarrow> ehub_xhci_ring_expansion k quirks map_status (of_int trbs_needed) r s;
        if ret \<noteq> 0 then Some ((- ENOMEM, r1), s1)
        else make_room k quirks map_status is_cmd_ring num_trbs r1 s1
      })"

text \<open>A producer that stopped on a link TRB hands it to the controller and moves on.\<close>

partial_function (option) skip_links :: "env \<Rightarrow> u32 \<Rightarrow> xhci_ring \<Rightarrow> ehub \<Rightarrow> (int \<times> xhci_ring) outcome" where
  "skip_links k quirks r s = do {
     l \<leftarrow> last_trb r (enq_seg r) (enqueue r);
     if \<not> l then Some ((0, r), s)
     else do {
       r1 \<leftarrow> (if keeps_link_chain quirks (ring_type r) then give_link 0 TRB_CHAIN TRB_CYCLE r
              else give_link TRB_CHAIN 0 TRB_CYCLE r);
       (status, s1) \<leftarrow> (if ehub_cache_ring (ring_type r) then cache_link_trb k (enq_seg r1) (segs r1) s
                        else Some (0, s));
       if status < 0 then Some ((status, r1), s1)
       else do {
         r2 \<leftarrow> enq_to_next_seg r1;
         skip_links k quirks r2 s1
       }
     }
   }"

definition prepare_ring ::
  "env \<Rightarrow> u32 \<Rightarrow> int \<Rightarrow> bool \<Rightarrow> u32 \<Rightarrow> u32 \<Rightarrow> xhci_ring \<Rightarrow> ehub \<Rightarrow> (int \<times> xhci_ring) outcome" where
  "prepare_ring k quirks map_status is_cmd_ring ep_st num_trbs r s =
     (let st = check_ep_state ep_st in
      if st < 0 then Some ((st, r), s)
      else do {
        ((ret, r1), s1) \<leftarrow> make_room k quirks map_status is_cmd_ring num_trbs r s;
        if ret < 0 then Some ((ret, r1), s1)
        else do {
          l \<leftarrow> enqueue_is_link_trb r1;
          if l then skip_links k quirks r1 s1 else Some ((0, r1), s1)
        }
      })"

section \<open>Handing a transfer to the controller\<close>

text \<open>The first TRB of a transfer gets its cycle bit last; the ring is then copied to the cache
  (which rings the doorbell when the data is there) or the doorbell is rung directly.\<close>

definition giveback_first_trb ::
  "env \<Rightarrow> u32 \<Rightarrow> u32 \<Rightarrow> u32 \<Rightarrow> u32 \<Rightarrow> seg_id \<times> nat \<Rightarrow> xhci_ring \<Rightarrow> ehub \<Rightarrow> (xhci_ring \<times> ehub) option" where
  "giveback_first_trb k slot_id ep_index stream_id start_cycle start_trb r s = do {
     h \<leftarrow> map_trb (\<lambda>t. set_control (if start_cycle \<noteq> 0 then control t OR start_cycle
                                  else control t AND NOT TRB_CYCLE) t) (fst start_trb) (snd start_trb) (segs r);
     let r1 = r\<lparr>segs := h\<rparr>;
     if ehub_cache_ring (ring_type r)
     then ehub_xhci_cache_copy_from_ring k slot_id ep_index stream_id True r1 s
     else map_option (\<lambda>s1. (r1, s1)) (ehub_xhci_ring_ep_doorbell k slot_id ep_index stream_id s)
   }"

section \<open>Commands\<close>

record xhci_command =
  cmd_id :: nat
  command_trb :: "seg_id \<times> nat"

record command_queue =
  cmd_ring :: xhci_ring
  cmd_list :: "xhci_command list"
  cmd_ring_reserved_trbs :: u32
  current_cmd :: "nat option"
  cmd_timer_pending :: bool

definition queue_command ::
  "env \<Rightarrow> u32 \<Rightarrow> nat \<Rightarrow> u32 \<Rightarrow> u32 \<Rightarrow> u32 \<Rightarrow> u32 \<Rightarrow> bool \<Rightarrow> command_queue \<Rightarrow> ehub
     \<Rightarrow> (int \<times> command_queue) outcome" where
  "queue_command k quirks cmd field1 field2 field3 field4 command_must_succeed q s =
     (if xhc_state s AND XHCI_STATE_DYING \<noteq> 0 then Some ((- ESHUTDOWN, q), s)
      else do {
        let reserved_trbs = (if command_must_succeed then cmd_ring_reserved_trbs q
                             else cmd_ring_reserved_trbs q + 1);
        ((ret, r), s1) \<leftarrow> prepare_ring k quirks 0 True EP_STATE_RUNNING reserved_trbs (cmd_ring q) s;
        if ret < 0 then Some ((ret, q\<lparr>cmd_ring := r\<rparr>), s1)
        else do {
          let q1 = q\<lparr>cmd_list := list_add_tail \<lparr>cmd_id = cmd, command_trb = (enq_seg r, enqueue r)\<rparr> (cmd_list q)\<rparr>;
          let q2 = (if cmd_list q = [] \<and> \<not> cmd_timer_pending q
                    then q1\<lparr>current_cmd := Some cmd, cmd_timer_pending := True\<rparr> else q1);
          r1 \<leftarrow> queue_trb quirks False field1 field2 field3 (field4 OR cycle_state r) r;
          Some ((0, q2\<lparr>cmd_ring := r1\<rparr>), s1)
        }
      })"

definition SLOT_ID_FOR_TRB :: "u32 \<Rightarrow> u32" where "SLOT_ID_FOR_TRB p = push_bit 24 (p AND 0xff)"
definition EP_ID_FOR_TRB :: "u32 \<Rightarrow> u32" where "EP_ID_FOR_TRB p = push_bit 16 ((p + 1) AND 0x1f)"
definition SUSPEND_PORT_FOR_TRB :: "u32 \<Rightarrow> u32" where "SUSPEND_PORT_FOR_TRB p = push_bit 23 (p AND 1)"
definition STREAM_ID_FOR_TRB :: "u32 \<Rightarrow> u32" where "STREAM_ID_FOR_TRB p = push_bit 16 (p AND 0xffff)"
definition SCT_FOR_TRB :: "u32 \<Rightarrow> u32" where "SCT_FOR_TRB p = push_bit 1 p AND 0x7"
definition TRB_BSR :: u32 where "TRB_BSR = 0x200"

definition lower_32_bits :: "u64 \<Rightarrow> u32" where "lower_32_bits n = ucast n"
definition upper_32_bits :: "u64 \<Rightarrow> u32" where "upper_32_bits n = ucast (drop_bit 32 n)"

type_synonym command_fn = "command_queue \<Rightarrow> ehub \<Rightarrow> (int \<times> command_queue) outcome"

definition ehub_xhci_queue_slot_control :: "env \<Rightarrow> u32 \<Rightarrow> nat \<Rightarrow> u32 \<Rightarrow> u32 \<Rightarrow> command_fn" where
  "ehub_xhci_queue_slot_control k quirks cmd trb_type slot_id =
     queue_command k quirks cmd 0 0 0 (TRB_TYPE trb_type OR SLOT_ID_FOR_TRB slot_id) False"

definition ehub_xhci_queue_address_device :: "env \<Rightarrow> u32 \<Rightarrow> nat \<Rightarrow> u64 \<Rightarrow> u32 \<Rightarrow> bool \<Rightarrow> command_fn" where
  "ehub_xhci_queue_address_device k quirks cmd in_ctx_ptr slot_id context_only =
     queue_command k quirks cmd (lower_32_bits in_ctx_ptr) (upper_32_bits in_ctx_ptr) 0
       (TRB_TYPE 11 OR SLOT_ID_FOR_TRB slot_id OR (if context_only then TRB_BSR else 0)) False"

definition ehub_xhci_queue_vendor_command :: "env \<Rightarrow> u32 \<Rightarrow> nat \<Rightarrow> u32 \<Rightarrow> u32 \<Rightarrow> u32 \<Rightarrow> u32 \<Rightarrow> command_fn" where
  "ehub_xhci_queue_vendor_command k quirks cmd field1 field2 field3 field4 =
     queue_command k quirks cmd field1 field2 field3 field4 False"

definition ehub_xhci_queue_reset_device :: "env \<Rightarrow> u32 \<Rightarrow> nat \<Rightarrow> u32 \<Rightarrow> command_fn" where
  "ehub_xhci_queue_reset_device k quirks cmd slot_id =
     queue_command k quirks cmd 0 0 0 (TRB_TYPE 17 OR SLOT_ID_FOR_TRB slot_id) False"

definition ehub_xhci_queue_configure_endpoint :: "env \<Rightarrow> u32 \<Rightarrow> nat \<Rightarrow> u64 \<Rightarrow> u32 \<Rightarrow> bool \<Rightarrow> command_fn" where
  "ehub_xhci_queue_configure_endpoint k quirks cmd in_ctx_ptr slot_id command_must_succeed =
     queue_command k quirks cmd (lower_32_bits in_ctx_ptr) (upper_32_bits in_ctx_ptr) 0
       (TRB_TYPE 12 OR SLOT_ID_FOR_TRB slot_id) command_must_succeed"

definition ehub_xhci_queue_evaluate_context :: "env \<Rightarrow> u32 \<Rightarrow> nat \<Rightarrow> u64 \<Rightarrow> u32 \<Rightarrow> bool \<Rightarrow> command_fn" where
  "ehub_xhci_queue_evaluate_context k quirks cmd in_ctx_ptr slot_id command_must_succeed =
     queue_command k quirks cmd (lower_32_bits in_ctx_ptr) (upper_32_bits in_ctx_ptr) 0
       (TRB_TYPE 13 OR SLOT_ID_FOR_TRB slot_id) command_must_succeed"

definition ehub_xhci_queue_stop_endpoint :: "env \<Rightarrow> u32 \<Rightarrow> nat \<Rightarrow> u32 \<Rightarrow> u32 \<Rightarrow> u32 \<Rightarrow> command_fn" where
  "ehub_xhci_queue_stop_endpoint k quirks cmd slot_id ep_index suspend =
     queue_command k quirks cmd 0 0 0
       (SLOT_ID_FOR_TRB slot_id OR EP_ID_FOR_TRB ep_index OR TRB_TYPE 15 OR SUSPEND_PORT_FOR_TRB suspend) False"

definition ehub_xhci_queue_reset_ep :: "env \<Rightarrow> u32 \<Rightarrow> nat \<Rightarrow> u32 \<Rightarrow> u32 \<Rightarrow> command_fn" where
  "ehub_xhci_queue_reset_ep k quirks cmd slot_id ep_index =
     queue_command k quirks cmd 0 0 0 (SLOT_ID_FOR_TRB slot_id OR EP_ID_FOR_TRB ep_index OR TRB_TYPE 14) False"

end
