(* ===== verification/Xhci_Ring_Fifo.thy ===== *)
theory Xhci_Ring_Fifo
  imports Xhci_Queue "HOL-Library.Multiset"
begin

text \<open>
  Correctness of rings. The positions of a ring are numbered from the first TRB of the first
  segment; the cycle bits tell the controller which TRBs it owns. A ring refines a queue: the
  controller, following its own rules from the position where it stands, fetches exactly the
  TRBs that were queued and not yet retired, in order.
\<close>

section \<open>Arithmetic of circular positions\<close>

definition walk :: "nat \<Rightarrow> nat \<Rightarrow> nat \<Rightarrow> nat list" where
  "walk N p k = map (\<lambda>i. (p + i) mod N) [0..<k]"

definition dist :: "nat \<Rightarrow> nat \<Rightarrow> nat \<Rightarrow> nat" where
  "dist N p e = (e + N - p) mod N"

lemma walk_0 [simp]: "walk N p 0 = []"
  by (simp add: walk_def)

lemma walk_snoc: "walk N p (Suc k) = walk N p k @ [(p + k) mod N]"
  by (simp add: walk_def)

lemma walk_Cons: "walk N p (Suc k) = (p mod N) # walk N (Suc p mod N) k"
proof -
  have "[0..<Suc k] = 0 # map Suc [0..<k]" by (simp add: upt_conv_Cons map_Suc_upt del: upt_Suc)
  then show ?thesis by (simp add: walk_def mod_add_left_eq del: upt_Suc)
qed

lemma walk_add: "walk N p (j + k) = walk N p j @ walk N ((p + j) mod N) k"
  by (induction k) (simp_all add: walk_snoc mod_add_left_eq add.assoc)

lemma set_walk: "0 < N \<Longrightarrow> set (walk N p k) \<subseteq> {..<N}"
  by (auto simp: walk_def)

lemma dist_eq: "p < N \<Longrightarrow> e < N \<Longrightarrow> dist N p e = (if p \<le> e then e - p else e + N - p)"
  by (auto simp: dist_def mod_if)

lemma dist_less: "0 < N \<Longrightarrow> dist N p e < N"
  by (simp add: dist_def)

lemma dist_self [simp]: "p < N \<Longrightarrow> dist N p p = 0"
  by (simp add: dist_eq)

lemma dist_0_iff: "p < N \<Longrightarrow> e < N \<Longrightarrow> dist N p e = 0 \<longleftrightarrow> p = e"
  by (auto simp: dist_eq)

lemma Suc_mod: "p < N \<Longrightarrow> Suc p mod N = (if Suc p = N then 0 else Suc p)"
  by (simp add: mod_if)

lemma Suc_mod_less: "p < N \<Longrightarrow> Suc p mod N < N"
  by (simp add: Suc_mod)

lemma dist_Suc_right:
  assumes "p < N" and "e < N" and "Suc (dist N p e) < N"
  shows "dist N p (Suc e mod N) = Suc (dist N p e)"
  using assms by (auto simp: dist_eq Suc_mod split: if_splits)

lemma dist_Suc_left:
  assumes "p < N" and "e < N" and "p \<noteq> e"
  shows "dist N p e = Suc (dist N (Suc p mod N) e)"
  using assms by (auto simp: dist_eq Suc_mod split: if_splits)

lemma walk_reaches: "p < N \<Longrightarrow> e < N \<Longrightarrow> (p + dist N p e) mod N = e"
  by (auto simp: dist_eq mod_if)

lemma target_notin_walk:
  assumes "p < N" and "e < N"
  shows "e \<notin> set (walk N p (dist N p e))"
proof
  assume "e \<in> set (walk N p (dist N p e))"
  then obtain i where i: "i < dist N p e" "(p + i) mod N = e" by (auto simp: walk_def)
  then show False using assms by (auto simp: dist_eq mod_if split: if_splits)
qed

section \<open>Positions of a ring\<close>

definition trb_of :: "seg_heap \<Rightarrow> seg_id list \<Rightarrow> nat \<Rightarrow> xhci_generic_trb" where
  "trb_of h ss p = trbs (the (h (ss ! (p div 64)))) ! (p mod 64)"

text \<open>The segments \<open>ss\<close>, in this order, form the circle.\<close>

definition chain_ok :: "seg_heap \<Rightarrow> seg_id list \<Rightarrow> bool" where
  "chain_ok h ss \<longleftrightarrow> ss \<noteq> [] \<and> distinct ss
     \<and> (\<forall>i < length ss. \<exists>sg. h (ss ! i) = Some sg \<and> length (trbs sg) = 64
          \<and> next_seg sg = Some (ss ! (Suc i mod length ss)))"

text \<open>Exactly the last TRB of each segment is a link TRB, and only the link TRB that closes the
  circle toggles the cycle state.\<close>

definition links_ok :: "seg_heap \<Rightarrow> seg_id list \<Rightarrow> bool" where
  "links_ok h ss \<longleftrightarrow> (\<forall>p < 64 * length ss.
     (TRB_TYPE_LINK (control (trb_of h ss p)) \<longleftrightarrow> p mod 64 = 63)
     \<and> (p mod 64 = 63 \<longrightarrow> (control (trb_of h ss p) AND LINK_TOGGLE \<noteq> 0 \<longleftrightarrow> Suc p = 64 * length ss)))"

definition seg_at :: "seg_id list \<Rightarrow> nat \<Rightarrow> seg_id" where
  "seg_at ss p = ss ! (p div 64)"

lemma pos_index: "p < 64 * length ss \<Longrightarrow> p div 64 < length (ss :: 'a list)"
  by (simp add: less_mult_imp_div_less mult.commute)

lemma chain_seg:
  assumes "chain_ok h ss" and "p < 64 * length ss"
  obtains sg where "h (seg_at ss p) = Some sg" and "length (trbs sg) = 64"
    and "next_seg sg = Some (ss ! (Suc (p div 64) mod length ss))"
  using assms pos_index [OF assms(2)] by (auto simp: chain_ok_def seg_at_def)

lemma read_trb_pos:
  assumes "chain_ok h ss" and "p < 64 * length ss"
  shows "read_trb h (seg_at ss p) (p mod 64) = Some (trb_of h ss p)"
proof -
  obtain sg where "h (seg_at ss p) = Some sg" "length (trbs sg) = 64" using chain_seg [OF assms] by blast
  then show ?thesis by (simp add: read_trb_def trb_of_def seg_at_def)
qed

lemma seg_at_inj:
  assumes "chain_ok h ss" and "p < 64 * length ss" and "q < 64 * length ss"
    and "seg_at ss p = seg_at ss q" and "p mod 64 = q mod 64"
  shows "p = q"
proof -
  have "p div 64 = q div 64"
    using assms(1,4) pos_index [OF assms(2)] pos_index [OF assms(3)]
    by (simp add: chain_ok_def seg_at_def nth_eq_iff_index_eq)
  then have "p div 64 * 64 + p mod 64 = q div 64 * 64 + q mod 64" using assms(5) by simp
  then show ?thesis unfolding div_mult_mod_eq .
qed

lemma next_pos_same:
  assumes "p mod 64 \<noteq> 63" and "p < 64 * n"
  shows "Suc p < 64 * n" and "Suc p div 64 = p div 64" and "Suc p mod 64 = Suc (p mod 64)"
proof -
  have 1: "p = 64 * (p div 64) + p mod 64" and 2: "p mod 64 < 64" by simp_all
  then show 3: "Suc p mod 64 = Suc (p mod 64)" using assms(1) by (simp add: mod_Suc)
  show 4: "Suc p div 64 = p div 64" using assms(1) by (simp add: div_Suc mod_Suc)
  have "p div 64 < n" using assms(2) by (simp add: less_mult_imp_div_less mult.commute)
  then have "64 * (p div 64) + 64 \<le> 64 * n" by linarith
  moreover have "Suc p < 64 * (p div 64) + 64" using 1 2 assms(1) by linarith
  ultimately show "Suc p < 64 * n" by linarith
qed

lemma next_pos_link:
  assumes "p mod 64 = 63" and "p < 64 * n"
  shows "Suc p mod (64 * n) div 64 = Suc (p div 64) mod n" and "Suc p mod (64 * n) mod 64 = 0"
proof -
  have 1: "Suc p = 64 * Suc (p div 64)" using assms(1) div_mult_mod_eq [of p 64] by simp
  then have 2: "Suc p mod (64 * n) = 64 * (Suc (p div 64) mod n)" by (simp only: mult_mod_right)
  show "Suc p mod (64 * n) div 64 = Suc (p div 64) mod n" and "Suc p mod (64 * n) mod 64 = 0"
    unfolding 2 by simp_all
qed

lemma next_of_pos:
  assumes "chain_ok h ss" and "p < 64 * length ss" and "p mod 64 = 63"
  shows "next_of h (seg_at ss p) = Some (seg_at ss (Suc p mod (64 * length ss)))"
proof -
  obtain sg where "h (seg_at ss p) = Some sg" "next_seg sg = Some (ss ! (Suc (p div 64) mod length ss))"
    using chain_seg [OF assms(1,2)] by blast
  then show ?thesis unfolding next_of_def seg_at_def next_pos_link(1) [OF assms(3,2)] by simp
qed

text \<open>Changing one TRB keeps everything else of the segments.\<close>

definition same_shape :: "seg_heap \<Rightarrow> seg_heap \<Rightarrow> bool" where
  "same_shape h h' \<longleftrightarrow> (\<forall>g. map_option (\<lambda>sg. (next_seg sg, dma sg, EhubCacheBlock sg)) (h' g)
     = map_option (\<lambda>sg. (next_seg sg, dma sg, EhubCacheBlock sg)) (h g))"

lemma map_trb_pos:
  assumes "chain_ok h ss" and "p < 64 * length ss"
  obtains h' where "map_trb f (seg_at ss p) (p mod 64) h = Some h'" and "chain_ok h' ss"
    and "\<And>q. q < 64 * length ss \<Longrightarrow> trb_of h' ss q = (if q = p then f (trb_of h ss p) else trb_of h ss q)"
    and "same_shape h h'"
proof -
  obtain sg where sg: "h (seg_at ss p) = Some sg" "length (trbs sg) = 64" using chain_seg [OF assms] by blast
  define h' where "h' = h(seg_at ss p \<mapsto> sg\<lparr>trbs := (trbs sg)[p mod 64 := f (trbs sg ! (p mod 64))]\<rparr>)"
  have "map_trb f (seg_at ss p) (p mod 64) h = Some h'" using sg by (simp add: map_trb_def h'_def)
  moreover have "chain_ok h' ss"
    using assms(1) sg by (fastforce simp: chain_ok_def h'_def)
  moreover have "trb_of h' ss q = (if q = p then f (trb_of h ss p) else trb_of h ss q)"
    if q: "q < 64 * length ss" for q
  proof (cases "seg_at ss q = seg_at ss p")
    case True
    then show ?thesis using sg seg_at_inj [OF assms(1) q assms(2) True]
      by (auto simp: trb_of_def h'_def seg_at_def nth_list_update)
  qed (auto simp: trb_of_def h'_def seg_at_def)
  moreover have "same_shape h h'" using sg by (simp add: same_shape_def h'_def)
  ultimately show thesis using that by blast
qed

section \<open>The slots in use\<close>

text \<open>Where the controller stands: at the consumer's position, or still on the link TRB before
  it when the producer has stopped there.\<close>

definition hw :: "nat \<Rightarrow> nat \<Rightarrow> nat \<Rightarrow> nat" where
  "hw n e d = (if e mod 64 = 63 \<and> d = Suc e mod (64 * n) then e else d)"

definition slots :: "nat \<Rightarrow> nat \<Rightarrow> nat \<Rightarrow> nat list" where
  "slots n e d = filter (\<lambda>p. p mod 64 \<noteq> 63) (walk (64 * n) (hw n e d) (dist (64 * n) (hw n e d) e))"

lemma Suc_mod_inj: "p < N \<Longrightarrow> q < N \<Longrightarrow> Suc p mod N = Suc q mod N \<Longrightarrow> p = q"
  by (auto simp: Suc_mod split: if_splits)

lemma walk_full_perm:
  assumes "p < N"
  shows "mset (walk N p N) = mset [0..<N]"
proof -
  have "walk N p N = map (\<lambda>i. (p + i) mod N) [0..<N - p] @ map (\<lambda>i. (p + i) mod N) [N - p..<N]"
    using assms upt_add_eq_append [of 0 "N - p" p] by (simp add: walk_def flip: map_append)
  also have "map (\<lambda>i. (p + i) mod N) [0..<N - p] = [p..<N]"
    using assms by (intro nth_equalityI) auto
  also have "map (\<lambda>i. (p + i) mod N) [N - p..<N] = [0..<p]"
    using assms by (intro nth_equalityI) (auto simp: mod_if)
  finally have "mset (walk N p N) = mset ([0..<p] @ [p..<N])" by simp
  then show ?thesis using assms upt_add_eq_append [of 0 p "N - p"] by simp
qed

lemma block_slots: "length (filter (\<lambda>p. p mod 64 \<noteq> 63) [64 * n..<64 * n + 64]) = 63"
proof -
  have "[64 * n..<64 * n + 64] = map (\<lambda>i. 64 * n + i) [0..<64]"
    using map_add_upt [of "64 * n" 64] by (simp add: add.commute del: map_add_upt)
  then have "filter (\<lambda>p. p mod 64 \<noteq> 63) [64 * n..<64 * n + 64]
      = map (\<lambda>i. 64 * n + i) (filter (\<lambda>i. i mod 64 \<noteq> 63) [0..<64])"
    by (simp add: filter_map o_def)
  also have "length \<dots> = 63" by (simp add: upt_rec)
  finally show ?thesis .
qed

lemma all_slots: "length (filter (\<lambda>p. p mod 64 \<noteq> 63) [0..<64 * n]) = 63 * n"
proof (induction n)
  case (Suc n)
  have "[0..<64 * Suc n] = [0..<64 * n] @ [64 * n..<64 * n + 64]"
    using upt_add_eq_append [of 0 "64 * n" 64] by (simp add: add.commute)
  then show ?case using Suc block_slots [of n] by simp
qed simp

lemma walk_full_slots:
  assumes "p < 64 * n"
  shows "length (filter (\<lambda>p. p mod 64 \<noteq> 63) (walk (64 * n) p (64 * n))) = 63 * n"
proof -
  have "mset (filter (\<lambda>p. p mod 64 \<noteq> 63) (walk (64 * n) p (64 * n)))
      = mset (filter (\<lambda>p. p mod 64 \<noteq> 63) [0..<64 * n])"
    using walk_full_perm [OF assms] by (simp add: mset_filter)
  then show ?thesis using all_slots [of n] mset_eq_length by metis
qed

text \<open>A full ring: going once around reaches all slots.\<close>

lemma almost_full:
  assumes d: "d < 64 * n" and e: "e < 64 * n" "e mod 64 \<noteq> 63"
    and "Suc (dist (64 * n) d e) = 64 * n \<or> (Suc e mod 64 = 63 \<and> Suc (Suc (dist (64 * n) d e)) = 64 * n)"
  shows "63 * n = Suc (length (filter (\<lambda>p. p mod 64 \<noteq> 63) (walk (64 * n) d (dist (64 * n) d e))))"
proof -
  let ?k = "dist (64 * n) d e" and ?N = "64 * n"
  have at_e: "(d + ?k) mod ?N = e" using walk_reaches [OF d e(1)] .
  then have at_e': "(d + Suc ?k) mod ?N = Suc e mod ?N" by (metis add_Suc_right mod_Suc_eq)
  from assms(4) show ?thesis
  proof
    assume "Suc ?k = ?N"
    then have "walk ?N d ?N = walk ?N d ?k @ [e]" using walk_snoc [of ?N d ?k] at_e by simp
    then show ?thesis using walk_full_slots [OF d] e(2) by simp
  next
    assume a: "Suc e mod 64 = 63 \<and> Suc (Suc ?k) = ?N"
    then have "walk ?N d ?N = walk ?N d ?k @ [e, Suc e mod ?N]"
      using walk_snoc [of ?N d ?k] walk_snoc [of ?N d "Suc ?k"] at_e at_e' by simp
    moreover have "Suc e mod ?N = Suc e" using next_pos_same(1) [OF e(2,1)] by simp
    ultimately show ?thesis using walk_full_slots [OF d] e(2) a by simp
  qed
qed

lemma slots_enq:
  assumes e: "e < 64 * n" "e mod 64 \<noteq> 63" and d: "d < 64 * n" and room: "Suc (length (slots n e d)) < 63 * n"
  shows "slots n (Suc e) d = slots n e d @ [e]"
proof -
  let ?N = "64 * n" and ?k = "dist (64 * n) d e"
  have e': "Suc e < ?N" using next_pos_same(1) [OF e(2,1)] .
  have s: "slots n e d = filter (\<lambda>p. p mod 64 \<noteq> 63) (walk ?N d ?k)" using e(2) by (simp add: slots_def hw_def)
  have k: "Suc ?k < ?N"
    using almost_full [OF d e] room s dist_less [of ?N d e] d by (cases "Suc ?k = ?N") auto
  have "\<not> (Suc e mod 64 = 63 \<and> d = Suc (Suc e) mod ?N)"
  proof
    assume a: "Suc e mod 64 = 63 \<and> d = Suc (Suc e) mod ?N"
    then have "?k = ?N - 2" using e' e(1) by (auto simp: dist_eq Suc_mod)
    then show False using almost_full [OF d e] a room s k by simp
  qed
  then have "slots n (Suc e) d = filter (\<lambda>p. p mod 64 \<noteq> 63) (walk ?N d (dist ?N d (Suc e)))"
    by (auto simp: slots_def hw_def)
  moreover have "dist ?N d (Suc e) = Suc ?k" using dist_Suc_right [OF d e(1) k] e' by simp
  ultimately show ?thesis using s walk_reaches [OF d e(1)] e(2) by (simp add: walk_snoc)
qed

lemma slots_link:
  assumes e: "e < 64 * n" "e mod 64 = 63" and d: "d < 64 * n"
  shows "slots n (Suc e mod (64 * n)) d = slots n e d"
proof -
  let ?N = "64 * n" and ?e = "Suc e mod (64 * n)"
  have e': "?e < ?N" "?e mod 64 = 0" using next_pos_link(2) [OF e(2,1)] e(1) by simp_all
  show ?thesis
  proof (cases "d = ?e")
    case True
    then show ?thesis using e e' by (simp add: slots_def hw_def)
  next
    case False
    have "Suc (dist ?N d e) < ?N"
      using False d e(1) by (auto simp: dist_eq Suc_mod split: if_splits)
    then have "dist ?N d ?e = Suc (dist ?N d e)" by (rule dist_Suc_right [OF d e(1)])
    then show ?thesis using False e e' walk_reaches [OF d e(1)] by (simp add: slots_def hw_def walk_snoc)
  qed
qed

definition deq_next :: "nat \<Rightarrow> nat \<Rightarrow> nat" where
  "deq_next n d = (if Suc d mod 64 = 63 then Suc (Suc d) mod (64 * n) else Suc d)"

lemma slots_deq:
  assumes e: "e < 64 * n" and d: "d < 64 * n" "d mod 64 \<noteq> 63" and s: "slots n e d = q # qs"
  shows "q = d" and "slots n e (deq_next n d) = qs"
proof -
  let ?N = "64 * n"
  note d' = next_pos_same [OF d(2,1)]
  have de: "hw n e d = d" "d \<noteq> e" using s e by (auto simp: slots_def hw_def split: if_splits)
  have k: "dist ?N d e = Suc (dist ?N (Suc d) e)" using dist_Suc_left [OF d(1) e de(2)] d'(1) by simp
  then have "slots n e d = d # filter (\<lambda>p. p mod 64 \<noteq> 63) (walk ?N (Suc d) (dist ?N (Suc d) e))"
    using de d d'(1) by (simp add: slots_def walk_Cons)
  note inj = trans [OF s [symmetric] this, unfolded list.inject]
  then show "q = d" by (rule conjunct1)
  show "slots n e (deq_next n d) = qs"
  proof (cases "Suc d mod 64 = 63")
    case False
    moreover have "\<not> (e mod 64 = 63 \<and> Suc d = Suc e mod ?N)"
      using next_pos_link(2) [of e n] e d'(3) by auto
    ultimately have "slots n e (deq_next n d) = filter (\<lambda>p. p mod 64 \<noteq> 63) (walk ?N (Suc d) (dist ?N (Suc d) e))"
      by (auto simp: slots_def hw_def deq_next_def)
    with inj show "slots n e (deq_next n d) = qs" by simp
  next
    case True
    show "slots n e (deq_next n d) = qs"
    proof (cases "Suc d = e")
      case True
      with inj \<open>Suc d mod 64 = 63\<close> e show ?thesis
        by (simp add: slots_def hw_def deq_next_def)
    next
      case False
      have "dist ?N (Suc d) e = Suc (dist ?N (Suc (Suc d) mod ?N) e)" by (rule dist_Suc_left [OF d'(1) e False])
      then have "qs = filter (\<lambda>p. p mod 64 \<noteq> 63) (walk ?N (Suc (Suc d) mod ?N) (dist ?N (Suc (Suc d) mod ?N) e))"
        using inj True d'(1) by (simp add: walk_Cons)
      moreover have "hw n e (Suc (Suc d) mod ?N) = Suc (Suc d) mod ?N"
        using Suc_mod_inj [OF d'(1) e] False by (auto simp: hw_def)
      ultimately show ?thesis using True by (simp add: slots_def deq_next_def)
    qed
  qed
qed

section \<open>Control words\<close>

lemma masked_update:
  fixes x :: u32
  assumes "c AND m = 0" and "v AND m = 0" and "f AND m = 0"
  shows "(((x AND NOT c) OR v) XOR f) AND m = x AND m"
proof (rule bit_eqI)
  fix i assume i: "possible_bit TYPE(u32) i"
  have "\<not> (bit y i \<and> bit m i)" if "y AND m = 0" for y
    using that by (metis bit_0_eq bit_and_iff bot_apply bot_bool_def)
  then show "bit ((((x AND NOT c) OR v) XOR f) AND m) i = bit (x AND m) i"
    using assms i by (auto simp: bit_simps)
qed

abbreviation (input) cyc :: "xhci_generic_trb \<Rightarrow> bool" where
  "cyc t \<equiv> bit (control t) 0"

lemmas trb_consts = TRB_CYCLE_def LINK_TOGGLE_def TRB_CHAIN_def TRB_TYPE_BITMASK_def

lemma control_set_control [simp]: "control (set_control v t) = v"
  by (cases t) simp

text \<open>Handing over a link TRB flips its cycle bit and keeps its type and toggle bit.\<close>

lemma link_update:
  assumes "c = 0 \<or> c = TRB_CHAIN" and "v = y AND TRB_CHAIN"
  shows "TRB_TYPE_LINK (((x AND NOT c) OR v) XOR TRB_CYCLE) = TRB_TYPE_LINK x"
    and "(((x AND NOT c) OR v) XOR TRB_CYCLE) AND LINK_TOGGLE = x AND LINK_TOGGLE"
    and "bit (((x AND NOT c) OR v) XOR TRB_CYCLE) 0 = (\<not> bit x 0)"
proof -
  have v: "v AND TRB_TYPE_BITMASK = 0" "v AND LINK_TOGGLE = 0" "\<not> bit v 0"
    by (simp_all add: assms(2) trb_consts and.assoc bit_and_iff)
  have c: "c AND TRB_TYPE_BITMASK = 0" "c AND LINK_TOGGLE = 0" "\<not> bit c 0"
    using assms(1) by (auto simp: trb_consts)
  have f: "TRB_CYCLE AND TRB_TYPE_BITMASK = 0" "TRB_CYCLE AND LINK_TOGGLE = 0"
    by (simp_all add: trb_consts)
  show "TRB_TYPE_LINK (((x AND NOT c) OR v) XOR TRB_CYCLE) = TRB_TYPE_LINK x"
    using masked_update [OF c(1) v(1) f(1)] by (simp add: TRB_TYPE_LINK_def)
  show "(((x AND NOT c) OR v) XOR TRB_CYCLE) AND LINK_TOGGLE = x AND LINK_TOGGLE"
    by (rule masked_update [OF c(2) v(2) f(2)])
  show "bit (((x AND NOT c) OR v) XOR TRB_CYCLE) 0 = (\<not> bit x 0)"
    using v(3) c(3) by (simp add: bit_simps TRB_CYCLE_def)
qed

section \<open>The state of a ring\<close>

text \<open>Ownership: seen from the first segment, the TRBs before the producer carry its cycle state
  and the others the opposite, except for the positions in \<open>F\<close> that are withheld from the
  controller.\<close>

definition owned :: "seg_heap \<Rightarrow> seg_id list \<Rightarrow> u32 \<Rightarrow> nat set \<Rightarrow> nat \<Rightarrow> bool" where
  "owned h ss c F e \<longleftrightarrow> (\<forall>p < 64 * length ss. cyc (trb_of h ss p) = (((p < e) = (c = 1)) \<noteq> (p \<in> F)))"

definition view :: "nat set \<Rightarrow> xhci_ring \<Rightarrow> seg_id list \<Rightarrow> nat \<Rightarrow> nat \<Rightarrow> bool" where
  "view F r ss e d \<longleftrightarrow> ring_type r \<noteq> TYPE_EVENT \<and> chain_ok (segs r) ss \<and> links_ok (segs r) ss
     \<and> (cycle_state r = 0 \<or> cycle_state r = 1)
     \<and> e < 64 * length ss \<and> enq_seg r = seg_at ss e \<and> enqueue r = e mod 64
     \<and> d < 64 * length ss \<and> d mod 64 \<noteq> 63 \<and> deq_seg r = seg_at ss d \<and> dequeue r = d mod 64
     \<and> owned (segs r) ss (cycle_state r) F e \<and> (\<forall>p \<in> F. p mod 64 \<noteq> 63)"

lemma last_trb_pos:
  assumes "ring_type r \<noteq> TYPE_EVENT" and "chain_ok (segs r) ss" and "links_ok (segs r) ss" and "p < 64 * length ss"
  shows "last_trb r (seg_at ss p) (p mod 64) = Some (p mod 64 = 63)"
    and "p mod 64 = 63 \<Longrightarrow> last_trb_on_last_seg r (seg_at ss p) (p mod 64) = Some (Suc p = 64 * length ss)"
  using assms read_trb_pos [OF assms(2,4)] by (auto simp: last_trb_def last_trb_on_last_seg_def links_ok_def)

lemma view_last:
  assumes "view F r ss e d"
  shows "last_trb r (enq_seg r) (enqueue r) = Some (e mod 64 = 63)"
    and "last_trb r (deq_seg r) (dequeue r) = Some False"
    and "read_trb (segs r) (enq_seg r) (enqueue r) = Some (trb_of (segs r) ss e)"
  using assms last_trb_pos(1) read_trb_pos by (auto simp: view_def)

text \<open>The fields a change of the producer's side leaves alone.\<close>

definition enq_frame :: "xhci_ring \<Rightarrow> xhci_ring \<Rightarrow> bool" where
  "enq_frame r r' \<longleftrightarrow> first_seg r' = first_seg r \<and> last_seg r' = last_seg r \<and> num_segs r' = num_segs r
     \<and> ring_type r' = ring_type r \<and> dequeue r' = dequeue r \<and> deq_seg r' = deq_seg r
     \<and> cache_enqueue r' = cache_enqueue r \<and> cache_enq_seg r' = cache_enq_seg r \<and> td_list r' = td_list r
     \<and> same_shape (segs r) (segs r')"

lemma enq_frame_trans: "enq_frame r r' \<Longrightarrow> enq_frame r' r'' \<Longrightarrow> enq_frame r r''"
  by (simp add: enq_frame_def same_shape_def)

text \<open>Handing a link TRB over and moving to the next segment.\<close>

lemma give_link_view:
  assumes v: "view F r ss e d" and e: "e mod 64 = 63"
    and c: "c = 0 \<or> c = TRB_CHAIN" and w: "w = y AND TRB_CHAIN"
  obtains r1 r2 where "give_link c w TRB_CYCLE r = Some r1" and "enq_to_next_seg r1 = Some r2"
    and "view F r2 ss (Suc e mod (64 * length ss)) d" and "num_trbs_free r2 = num_trbs_free r"
    and "enq_frame r r2" and "enq_frame r r1" and "enq_seg r1 = enq_seg r"
    and "\<And>q. q < 64 * length ss \<Longrightarrow> q mod 64 \<noteq> 63 \<Longrightarrow> trb_of (segs r2) ss q = trb_of (segs r) ss q"
proof -
  let ?N = "64 * length ss" and ?f = "\<lambda>t. set_control (((control t AND NOT c) OR w) XOR TRB_CYCLE) t"
  have V: "chain_ok (segs r) ss" "links_ok (segs r) ss" "e < ?N" "enq_seg r = seg_at ss e" "enqueue r = e mod 64"
    "ring_type r \<noteq> TYPE_EVENT" "cycle_state r = 0 \<or> cycle_state r = 1" "owned (segs r) ss (cycle_state r) F e"
    "e \<notin> F" using v e by (auto simp: view_def)
  obtain h where h: "map_trb ?f (seg_at ss e) (e mod 64) (segs r) = Some h" "chain_ok h ss"
    "\<And>q. q < ?N \<Longrightarrow> trb_of h ss q = (if q = e then ?f (trb_of (segs r) ss e) else trb_of (segs r) ss q)"
    "same_shape (segs r) h"
    using map_trb_pos [OF V(1,3)] by blast
  have links: "links_ok h ss"
    using V(2) h(3) link_update(1,2) [OF c w] by (auto simp: links_ok_def)
  have bits: "cyc (trb_of h ss q) = (if q = e then \<not> cyc (trb_of (segs r) ss e) else cyc (trb_of (segs r) ss q))"
    if "q < ?N" for q using h(3) [OF that] link_update(3) [OF c w] by simp
  define r1 where "r1 = (if Suc e = ?N then r\<lparr>segs := h, cycle_state := cycle_state r XOR 1\<rparr> else r\<lparr>segs := h\<rparr>)"
  define r2 where "r2 = r1\<lparr>enq_seg := seg_at ss (Suc e mod ?N), enqueue := 0\<rparr>"
  have tog: "last_trb_on_last_seg (r\<lparr>segs := h\<rparr>) (seg_at ss e) (e mod 64) = Some (Suc e = ?N)"
    using last_trb_pos(2) [of "r\<lparr>segs := h\<rparr>" ss e] V h(2) links e by simp
  have g: "give_link c w TRB_CYCLE r = Some r1"
    using h(1) tog V(4,5) by (simp add: give_link_def r1_def Let_def)
  have n: "enq_to_next_seg r1 = Some r2"
    using next_of_pos [OF h(2) V(3) e] V(4) by (simp add: enq_to_next_seg_def r1_def r2_def)
  have e': "Suc e mod ?N mod 64 = 0" "Suc e mod ?N < ?N"
    using next_pos_link(2) [OF e V(3)] Suc_mod_less [OF V(3)] by simp_all
  have own: "owned h ss (cycle_state r2) F (Suc e mod ?N)"
    using V(3,7,8,9) by (auto simp: owned_def bits r2_def r1_def Suc_mod less_Suc_eq)
  have "view F r2 ss (Suc e mod ?N) d"
    using v h(2) links own e' V(7) by (auto simp: view_def r2_def r1_def)
  moreover have "enq_frame r r2" "enq_frame r r1"
    using h(4) by (auto simp: enq_frame_def r2_def r1_def)
  moreover have "trb_of (segs r2) ss q = trb_of (segs r) ss q" if "q < ?N" "q mod 64 \<noteq> 63" for q
    using h(3) [OF that(1)] that(2) e by (auto simp: r2_def r1_def)
  ultimately show thesis using that g n by (simp add: r1_def r2_def)
qed

section \<open>The producer\<close>

definition past_link :: "seg_id list \<Rightarrow> bool \<Rightarrow> nat \<Rightarrow> nat" where
  "past_link ss go e = (if e mod 64 = 63 \<and> go then Suc e mod (64 * length ss) else e)"

definition same_slots :: "seg_id list \<Rightarrow> seg_heap \<Rightarrow> seg_heap \<Rightarrow> bool" where
  "same_slots ss h h' \<longleftrightarrow> (\<forall>q < 64 * length ss. q mod 64 \<noteq> 63 \<longrightarrow> trb_of h' ss q = trb_of h ss q)"

lemma give_link_ex:
  assumes "view F r ss e d" and "e mod 64 = 63" and "c = 0 \<or> c = TRB_CHAIN" and "w = y AND TRB_CHAIN"
  shows "\<exists>r1 r2. give_link c w TRB_CYCLE r = Some r1 \<and> enq_to_next_seg r1 = Some r2
     \<and> view F r2 ss (Suc e mod (64 * length ss)) d \<and> num_trbs_free r2 = num_trbs_free r
     \<and> enq_frame r r2 \<and> enq_frame r r1 \<and> enq_seg r1 = enq_seg r \<and> same_slots ss (segs r) (segs r2)"
  by (rule give_link_view [OF assms]) (auto simp: same_slots_def)

lemma inc_enq_loop_view:
  assumes v: "view F r ss e d" and chain: "chain = y AND TRB_CHAIN"
  obtains r' where "inc_enq_loop quirks chain coming r = Some r'"
    and "view F r' ss (past_link ss (chain \<noteq> 0 \<or> coming) e) d"
    and "num_trbs_free r' = num_trbs_free r" and "enq_frame r r'" and "same_slots ss (segs r) (segs r')"
proof (cases "e mod 64 = 63 \<and> (chain \<noteq> 0 \<or> coming)")
  case False
  then have "inc_enq_loop quirks chain coming r = Some r"
    using v view_last(1) [OF v] by (subst inc_enq_loop.simps) (auto simp: view_def)
  then show thesis using that v False
    by (auto simp: past_link_def enq_frame_def same_shape_def same_slots_def)
next
  case True
  let ?give = "if keeps_link_chain quirks (ring_type r) then give_link 0 0 TRB_CYCLE r
     else give_link TRB_CHAIN chain TRB_CYCLE r"
  obtain r1 r2 where g: "?give = Some r1" "enq_to_next_seg r1 = Some r2"
    "view F r2 ss (Suc e mod (64 * length ss)) d" "num_trbs_free r2 = num_trbs_free r" "enq_frame r r2"
    "same_slots ss (segs r) (segs r2)"
    using give_link_ex [OF v, of 0 0 0] give_link_ex [OF v, of TRB_CHAIN chain y] chain True
    by (cases "keeps_link_chain quirks (ring_type r)") auto
  have e': "Suc e mod (64 * length ss) mod 64 = 0" using next_pos_link(2) v True by (auto simp: view_def)
  have stop: "inc_enq_loop quirks chain coming r2 = Some r2"
    using view_last(1) [OF g(3)] e' by (subst inc_enq_loop.simps) simp
  have "ring_type r \<noteq> TYPE_EVENT" using v by (simp add: view_def)
  then have "inc_enq_loop quirks chain coming r = Some r2"
    using True view_last(1) [OF v] g(1,2) stop by (subst inc_enq_loop.simps) auto
  then show thesis using that g True by (simp add: past_link_def)
qed

lemma queue_trb_view:
  assumes v: "view F r ss e d" and e: "e mod 64 \<noteq> 63" and nl: "\<not> TRB_TYPE_LINK f4"
  obtains r' where "queue_trb quirks coming f1 f2 f3 f4 r = Some r'"
    and "view (if bit f4 0 = (cycle_state r = 1) then F - {e} else insert e F) r' ss
           (past_link ss (f4 AND TRB_CHAIN \<noteq> 0 \<or> coming) (Suc e)) d"
    and "num_trbs_free r' = num_trbs_free r - 1" and "enq_frame r r'"
    and "\<And>q. q < 64 * length ss \<Longrightarrow> q mod 64 \<noteq> 63 \<Longrightarrow>
           trb_of (segs r') ss q = (if q = e then TRB f1 f2 f3 f4 else trb_of (segs r) ss q)"
proof -
  let ?N = "64 * length ss" and ?F = "if bit f4 0 = (cycle_state r = 1) then F - {e} else insert e F"
  have V: "chain_ok (segs r) ss" "links_ok (segs r) ss" "e < ?N" "enq_seg r = seg_at ss e" "enqueue r = e mod 64"
    "ring_type r \<noteq> TYPE_EVENT" "owned (segs r) ss (cycle_state r) F e" using v by (auto simp: view_def)
  obtain h where h: "map_trb (\<lambda>_. TRB f1 f2 f3 f4) (seg_at ss e) (e mod 64) (segs r) = Some h" "chain_ok h ss"
    "\<And>q. q < ?N \<Longrightarrow> trb_of h ss q = (if q = e then TRB f1 f2 f3 f4 else trb_of (segs r) ss q)"
    "same_shape (segs r) h"
    using map_trb_pos [OF V(1,3)] by blast
  have links: "links_ok h ss" using V(2) h(3) e nl by (auto simp: links_ok_def)
  note e' = next_pos_same [OF e V(3)]
  define r1 where "r1 = r\<lparr>segs := h, num_trbs_free := num_trbs_free r - 1, enqueue := Suc (enqueue r),
     enq_updates := enq_updates r + 1\<rparr>"
  have "owned h ss (cycle_state r) ?F (Suc e)"
    using V(7) h(3) by (auto simp: owned_def less_Suc_eq)
  then have v1: "view ?F r1 ss (Suc e) d"
    using v h(2) links e' e V(5) by (auto simp: view_def r1_def seg_at_def)
  obtain r2 where r2: "inc_enq_loop quirks (f4 AND TRB_CHAIN) coming r1 = Some r2"
    "view ?F r2 ss (past_link ss (f4 AND TRB_CHAIN \<noteq> 0 \<or> coming) (Suc e)) d"
    "num_trbs_free r2 = num_trbs_free r1" "enq_frame r1 r2" "same_slots ss (segs r1) (segs r2)"
    using inc_enq_loop_view [OF v1 refl] by blast
  have "read_trb h (seg_at ss e) (e mod 64) = Some (TRB f1 f2 f3 f4)" using read_trb_pos [OF h(2) V(3)] h(3) V(3) by simp
  moreover have "last_trb (r\<lparr>segs := h\<rparr>) (seg_at ss e) (e mod 64) = Some False"
    using last_trb_pos(1) [of "r\<lparr>segs := h\<rparr>" ss e] V links h(2) e by simp
  ultimately have "queue_trb quirks coming f1 f2 f3 f4 r = Some r2"
    using h(1) r2(1) V(4-6) by (simp add: queue_trb_def inc_enq_def r1_def)
  moreover have "enq_frame r r1" using h(4) by (simp add: enq_frame_def r1_def)
  ultimately show thesis
    using that r2 enq_frame_trans h(3) by (auto simp: r1_def same_slots_def)
qed

text \<open>Handing over the first TRB of a transfer.\<close>

lemma publish_view:
  assumes v: "view F r ss e d" and p: "p < 64 * length ss" "p mod 64 \<noteq> 63" "p \<noteq> e"
    and cycle: "bit ctl 0 = ((p < e) = (cycle_state r = 1))" and nl: "\<not> TRB_TYPE_LINK ctl"
    and m: "map_trb f (seg_at ss p) (p mod 64) (segs r) = Some h" and "control (f (trb_of (segs r) ss p)) = ctl"
  shows "view (F - {p}) (r\<lparr>segs := h\<rparr>) ss e d"
    and "\<And>q. q < 64 * length ss \<Longrightarrow> trb_of h ss q = (if q = p then f (trb_of (segs r) ss p) else trb_of (segs r) ss q)"
proof -
  have "chain_ok (segs r) ss" "links_ok (segs r) ss" using v by (auto simp: view_def)
  then obtain h' where h: "map_trb f (seg_at ss p) (p mod 64) (segs r) = Some h'" "chain_ok h' ss"
    "\<And>q. q < 64 * length ss \<Longrightarrow> trb_of h' ss q = (if q = p then f (trb_of (segs r) ss p) else trb_of (segs r) ss q)"
    using map_trb_pos [of "segs r" ss p f] p(1) by metis
  then have hh: "h' = h" using m by simp
  show "trb_of h ss q = (if q = p then f (trb_of (segs r) ss p) else trb_of (segs r) ss q)"
    if "q < 64 * length ss" for q using h(3) [OF that] hh by simp
  have "links_ok h ss" using \<open>links_ok (segs r) ss\<close> h(3) hh p(2) nl assms(8) by (auto simp: links_ok_def)
  moreover have "owned h ss (cycle_state r) (F - {p}) e"
    using v h(3) hh cycle assms(8) by (auto simp: owned_def view_def)
  ultimately show "view (F - {p}) (r\<lparr>segs := h\<rparr>) ss e d" using v h(2) hh by (auto simp: view_def)
qed

section \<open>The consumer\<close>

lemma last_trb_dequeue [simp]:
  "last_trb (r\<lparr>dequeue := x\<rparr>) g i = last_trb r g i" "last_trb (r\<lparr>deq_seg := y\<rparr>) g i = last_trb r g i"
  by (simp_all add: last_trb_def)

lemma inc_deq_loop_step:
  assumes "last_trb r (deq_seg r) (dequeue r) = Some False"
    and "last_trb r (deq_seg r) (Suc (dequeue r)) = Some l"
  shows "inc_deq_loop r = (if l then inc_deq_loop (r\<lparr>dequeue := Suc (dequeue r)\<rparr>) else Some (r\<lparr>dequeue := Suc (dequeue r)\<rparr>))"
  using assms by (subst inc_deq_loop.simps) simp

lemma inc_deq_view:
  assumes v: "view F r ss e d"
  obtains r' where "inc_deq r = Some r'" and "view F r' ss e (deq_next (length ss) d)"
    and "num_trbs_free r' = num_trbs_free r + 1" and "segs r' = segs r" and "first_seg r' = first_seg r"
    and "num_segs r' = num_segs r" and "ring_type r' = ring_type r" and "enqueue r' = enqueue r"
    and "enq_seg r' = enq_seg r" and "cycle_state r' = cycle_state r"
proof -
  let ?N = "64 * length ss"
  define r1 where "r1 = r\<lparr>deq_updates := deq_updates r + 1, num_trbs_free := num_trbs_free r + 1\<rparr>"
  have V: "chain_ok (segs r) ss" "links_ok (segs r) ss" "d < ?N" "deq_seg r = seg_at ss d" "dequeue r = d mod 64"
    "ring_type r \<noteq> TYPE_EVENT" "d mod 64 \<noteq> 63" using v by (auto simp: view_def)
  note d' = next_pos_same [OF V(7,3)]
  have lt: "last_trb q (seg_at ss p) (p mod 64) = Some (p mod 64 = 63)"
    if "p < ?N" "segs q = segs r" "ring_type q = ring_type r" for p q
    using last_trb_pos(1) [of q ss p] that V by simp
  have at: "seg_at ss (Suc d) = seg_at ss d" using d'(2) by (simp add: seg_at_def)
  have start: "inc_deq r = inc_deq_loop r1"
    using lt [of d r] V by (simp add: inc_deq_def r1_def)
  have step: "inc_deq_loop r1 = (if Suc d mod 64 = 63 then inc_deq_loop (r1\<lparr>dequeue := Suc d mod 64\<rparr>)
      else Some (r1\<lparr>dequeue := Suc d mod 64\<rparr>))"
    using inc_deq_loop_step [of r1 "Suc d mod 64 = 63"] lt [of d r1] lt [of "Suc d" r1] V d' at
    by (simp add: r1_def)
  show thesis
  proof (cases "Suc d mod 64 = 63")
    case False
    have "view F (r1\<lparr>dequeue := Suc d mod 64\<rparr>) ss e (Suc d)"
      using v d' False at by (auto simp: view_def r1_def)
    then show thesis using that start step False by (simp add: deq_next_def r1_def)
  next
    case True
    let ?d = "Suc (Suc d) mod ?N" and ?r2 = "r1\<lparr>dequeue := Suc d mod 64\<rparr>"
    have d2: "?d < ?N" "?d mod 64 = 0" using next_pos_link(2) [OF True d'(1)] Suc_mod_less [OF d'(1)] by simp_all
    have "last_trb ?r2 (deq_seg ?r2) (dequeue ?r2) = Some True"
      using lt [of "Suc d" ?r2] V d' at True by (simp add: r1_def)
    moreover have "next_of (segs r) (seg_at ss d) = Some (seg_at ss ?d)"
      using next_of_pos [OF V(1) d'(1) True] at by simp
    moreover have "last_trb_on_last_seg ?r2 (deq_seg ?r2) (dequeue ?r2) \<noteq> None"
      using last_trb_pos(2) [of ?r2 ss "Suc d"] V d' at True by (simp add: r1_def)
    moreover have "last_trb (?r2\<lparr>deq_seg := seg_at ss ?d, dequeue := 0\<rparr>) (seg_at ss ?d) 0 = Some False"
      using lt [of ?d "?r2\<lparr>deq_seg := seg_at ss ?d, dequeue := 0\<rparr>"] d2 by (simp add: r1_def)
    ultimately have "inc_deq_loop ?r2 = Some (?r2\<lparr>deq_seg := seg_at ss ?d, dequeue := 0\<rparr>)"
      using V(4,6) by (subst inc_deq_loop.simps) (auto simp: r1_def)
    moreover have "view F (?r2\<lparr>deq_seg := seg_at ss ?d, dequeue := 0\<rparr>) ss e ?d"
      using v d2 by (auto simp: view_def r1_def)
    ultimately show thesis using that start step True by (simp add: deq_next_def r1_def)
  qed
qed

section \<open>The controller\<close>

text \<open>
  What the controller fetches from a ring, by the rules of the xHCI specification: a TRB
  belongs to it while the cycle bit equals its own cycle state; a link TRB leads to the next
  segment and may toggle that state. Too little fuel gives \<^const>\<open>None\<close>.
\<close>

fun hc_fetch :: "nat \<Rightarrow> seg_heap \<Rightarrow> seg_id \<times> nat \<Rightarrow> bool \<Rightarrow> xhci_generic_trb list option" where
  "hc_fetch 0 h p ccs = None"
| "hc_fetch (Suc n) h (g, i) ccs = do {
     t \<leftarrow> read_trb h g i;
     if cyc t \<noteq> ccs then Some []
     else if TRB_TYPE_LINK (control t) then do {
       g' \<leftarrow> next_of h g;
       hc_fetch n h (g', 0) (ccs \<noteq> (control t AND LINK_TOGGLE \<noteq> 0))
     }
     else do { ts \<leftarrow> hc_fetch n h (g, Suc i) ccs; Some (t # ts) }
   }"

definition hc_cycle :: "xhci_ring \<Rightarrow> nat \<Rightarrow> nat \<Rightarrow> bool" where
  "hc_cycle r e p = ((p \<le> e) = (cycle_state r = 1))"

lemma hc_fetch_view:
  assumes v: "view F r ss e d" and F: "e \<notin> F" and p: "p < 64 * length ss"
    and fuel: "dist (64 * length ss) p e < fuel"
  shows "hc_fetch fuel (segs r) (seg_at ss p, p mod 64) (hc_cycle r e p)
     = Some (map (trb_of (segs r) ss) (filter (\<lambda>q. q mod 64 \<noteq> 63)
         (takeWhile (\<lambda>q. q \<notin> F) (walk (64 * length ss) p (dist (64 * length ss) p e)))))"
  using p fuel
proof (induction "dist (64 * length ss) p e" arbitrary: p fuel)
  case 0
  let ?N = "64 * length ss"
  have V: "chain_ok (segs r) ss" "e < ?N" "owned (segs r) ss (cycle_state r) F e" using v by (auto simp: view_def)
  have pe: "p = e" using 0(1) dist_0_iff [OF \<open>p < ?N\<close> V(2)] by simp
  have "cyc (trb_of (segs r) ss e) \<noteq> hc_cycle r e e" using V(2,3) F by (auto simp: owned_def hc_cycle_def)
  moreover obtain n where "fuel = Suc n" using 0 by (cases fuel) auto
  ultimately show ?case using read_trb_pos [OF V(1,2)] pe V(2) by simp
next
  case (Suc k)
  let ?N = "64 * length ss" and ?p = "Suc p mod (64 * length ss)" and ?t = "trb_of (segs r) ss p"
  have V: "chain_ok (segs r) ss" "links_ok (segs r) ss" "e < ?N" "owned (segs r) ss (cycle_state r) F e"
    "cycle_state r = 0 \<or> cycle_state r = 1" "\<forall>p \<in> F. p mod 64 \<noteq> 63" using v by (auto simp: view_def)
  have pe: "p \<noteq> e" using Suc(2) dist_0_iff [OF \<open>p < ?N\<close> V(3)] by auto
  have k: "k = dist ?N ?p e" using Suc(2) dist_Suc_left [OF \<open>p < ?N\<close> V(3) pe] by simp
  obtain n where n: "fuel = Suc n" "k < n" using Suc(2,4) by (cases fuel) auto
  have p': "?p < ?N" by (rule Suc_mod_less [OF \<open>p < ?N\<close>])
  note IH = Suc(1) [OF k p', of n, folded k, OF n(2)]
  have w: "walk ?N p (Suc k) = p # walk ?N ?p k" using \<open>p < ?N\<close> by (simp add: walk_Cons)
  have own: "(cyc ?t \<noteq> hc_cycle r e p) = (p \<in> F)"
    using V(4,5) \<open>p < ?N\<close> pe by (auto simp: owned_def hc_cycle_def)
  have rd: "read_trb (segs r) (seg_at ss p) (p mod 64) = Some ?t" by (rule read_trb_pos [OF V(1) \<open>p < ?N\<close>])
  have ln: "TRB_TYPE_LINK (control ?t) = (p mod 64 = 63)" using V(2) \<open>p < ?N\<close> by (simp add: links_ok_def)
  show ?case
  proof (cases "p \<in> F")
    case True
    then show ?thesis unfolding Suc(2) [symmetric] w n(1) using own rd by simp
  next
    case notF: False
    show ?thesis
    proof (cases "p mod 64 = 63")
      case True
      have "(control ?t AND LINK_TOGGLE \<noteq> 0) = (Suc p = ?N)" using V(2) \<open>p < ?N\<close> True by (simp add: links_ok_def)
      moreover have "(hc_cycle r e p \<noteq> (Suc p = ?N)) = hc_cycle r e ?p"
        using pe \<open>p < ?N\<close> V(3) by (auto simp: hc_cycle_def Suc_mod)
      moreover have "?p mod 64 = 0" by (rule next_pos_link(2) [OF True \<open>p < ?N\<close>])
      ultimately show ?thesis
        unfolding Suc(2) [symmetric] w n(1)
        using own notF rd ln True IH next_of_pos [OF V(1) \<open>p < ?N\<close> True] by simp
    next
      case False
      note s = next_pos_same [OF False \<open>p < ?N\<close>]
      have "hc_cycle r e (Suc p) = hc_cycle r e p" using pe by (auto simp: hc_cycle_def)
      moreover have "?p = Suc p" "seg_at ss (Suc p) = seg_at ss p" using s by (simp_all add: seg_at_def)
      ultimately show ?thesis
        unfolding Suc(2) [symmetric] w n(1) using own notF rd ln False IH s(3) by simp
    qed
  qed
qed

section \<open>Invariant and contents of a ring\<close>

fun collect_segs :: "seg_heap \<Rightarrow> nat \<Rightarrow> seg_id \<Rightarrow> seg_id list" where
  "collect_segs h 0 g = []"
| "collect_segs h (Suc n) g = g # (case next_of h g of None \<Rightarrow> [] | Some g' \<Rightarrow> collect_segs h n g')"

definition pos_of :: "seg_id list \<Rightarrow> seg_id \<Rightarrow> nat \<Rightarrow> nat" where
  "pos_of ss g i = 64 * length (takeWhile (\<lambda>x. x \<noteq> g) ss) + i"

definition ring_order :: "xhci_ring \<Rightarrow> seg_id list" where
  "ring_order r = collect_segs (segs r) (unat (num_segs r)) (first_seg r)"

definition enq_pos :: "xhci_ring \<Rightarrow> nat" where
  "enq_pos r = pos_of (ring_order r) (enq_seg r) (enqueue r)"

definition deq_pos :: "xhci_ring \<Rightarrow> nat" where
  "deq_pos r = pos_of (ring_order r) (deq_seg r) (dequeue r)"

definition ring_slots :: "xhci_ring \<Rightarrow> nat list" where
  "ring_slots r = slots (length (ring_order r)) (enq_pos r) (deq_pos r)"

definition clean :: "xhci_generic_trb \<Rightarrow> xhci_generic_trb" where
  "clean t = set_control (control t AND NOT TRB_CYCLE) t"

definition ring_contents :: "xhci_ring \<Rightarrow> xhci_generic_trb list" where
  "ring_contents r = map (\<lambda>p. clean (trb_of (segs r) (ring_order r) p)) (ring_slots r)"

definition ring_inv :: "nat set \<Rightarrow> xhci_ring \<Rightarrow> bool" where
  "ring_inv F r \<longleftrightarrow> view F r (ring_order r) (enq_pos r) (deq_pos r) \<and> F \<subseteq> set (ring_slots r)
     \<and> length (ring_order r) = unat (num_segs r)
     \<and> unat (num_trbs_free r) + length (ring_slots r) = 63 * length (ring_order r) - 1
     \<and> 64 * length (ring_order r) < 2 ^ 32"

text \<open>Where the controller stands, and the cycle state it has there.\<close>

definition hc_pos :: "xhci_ring \<Rightarrow> nat" where
  "hc_pos r = hw (length (ring_order r)) (enq_pos r) (deq_pos r)"

definition hc_view :: "xhci_ring \<Rightarrow> xhci_generic_trb list option" where
  "hc_view r = hc_fetch (64 * length (ring_order r)) (segs r) (seg_at (ring_order r) (hc_pos r), hc_pos r mod 64)
     (hc_cycle r (enq_pos r) (hc_pos r))"

lemma pos_of_seg_at:
  assumes "distinct ss" and "p < 64 * length ss"
  shows "pos_of ss (seg_at ss p) (p mod 64) = p"
proof -
  have i: "p div 64 < length ss" by (rule pos_index [OF assms(2)])
  have "takeWhile (\<lambda>x. x \<noteq> ss ! (p div 64)) ss = take (p div 64) ss"
    using assms(1) i by (intro takeWhile_eq_take_P_nth) (auto simp: nth_eq_iff_index_eq)
  then show ?thesis using i by (simp add: pos_of_def seg_at_def)
qed

lemma view_distinct: "view F r ss e d \<Longrightarrow> distinct ss"
  by (simp add: view_def chain_ok_def)

lemma view_pos:
  assumes "view F r (ring_order r) e d"
  shows "enq_pos r = e" and "deq_pos r = d"
  using assms pos_of_seg_at [OF view_distinct [OF assms]] by (auto simp: enq_pos_def deq_pos_def view_def)

lemma same_shape_next: "same_shape h h' \<Longrightarrow> next_of h' g = next_of h g"
  by (cases "h g"; cases "h' g") (auto simp: same_shape_def next_of_def dest!: spec [of _ g])

lemma collect_segs_cong:
  assumes "\<And>g. next_of h' g = next_of h g"
  shows "collect_segs h' n g = collect_segs h n g"
proof (induction n arbitrary: g)
  case (Suc n)
  then show ?case using assms by (simp split: option.splits)
qed simp

lemma ring_order_frame: "enq_frame r r' \<Longrightarrow> ring_order r' = ring_order r"
  unfolding ring_order_def enq_frame_def using collect_segs_cong [OF same_shape_next] by simp

lemma collect_segs_chain:
  assumes "chain_ok h ss" and "i < length ss" and "i + n \<le> length ss"
  shows "collect_segs h n (ss ! i) = take n (drop i ss)"
  using assms(2,3)
proof (induction n arbitrary: i)
  case (Suc n)
  have "next_of h (ss ! i) = Some (ss ! (Suc i mod length ss))"
    using assms(1) Suc.prems(1) by (auto simp: chain_ok_def next_of_def)
  then show ?case
    using Suc.IH [of "Suc i"] Suc.prems
    by (cases n) (auto simp: Cons_nth_drop_Suc [symmetric] Suc_mod split: if_splits)
qed simp

lemma ring_order_chain:
  assumes "chain_ok (segs r) ss" and "first_seg r = hd ss" and "unat (num_segs r) = length ss"
  shows "ring_order r = ss"
proof -
  have "ss \<noteq> []" using assms(1) by (simp add: chain_ok_def)
  then show ?thesis
    using collect_segs_chain [OF assms(1), of 0 "length ss"] assms(2,3) by (simp add: ring_order_def hd_conv_nth)
qed

lemma ring_slots_bound: "p \<in> set (ring_slots r) \<Longrightarrow> ring_order r \<noteq> [] \<Longrightarrow> p < 64 * length (ring_order r) \<and> p mod 64 \<noteq> 63"
  using set_walk [of "64 * length (ring_order r)"] by (auto simp: ring_slots_def slots_def)

lemma takeWhile_all: "takeWhile (\<lambda>_. True) xs = xs"
  by (simp add: takeWhile_eq_all_conv)

text \<open>With nothing withheld the controller sees exactly the contents of the ring.\<close>

lemma hc_view_contents:
  assumes "ring_inv {} r"
  shows "map_option (map clean) (hc_view r) = Some (ring_contents r)"
proof -
  let ?ss = "ring_order r" and ?n = "length (ring_order r)"
  have v: "view {} r ?ss (enq_pos r) (deq_pos r)" using assms by (simp add: ring_inv_def)
  then have p: "hc_pos r < 64 * ?n" by (auto simp: view_def hc_pos_def hw_def)
  then have "dist (64 * ?n) (hc_pos r) (enq_pos r) < 64 * ?n" using dist_less by (metis less_zeroE neq0_conv)
  from hc_fetch_view [OF v _ p this] show ?thesis
    by (simp add: takeWhile_all o_def hc_view_def ring_contents_def ring_slots_def slots_def hc_pos_def)
qed

lemma clean_cycle:
  assumes "cyc (TRB a b c f4) = False" and "x = 0 \<or> x = 1"
  shows "clean (TRB a b c (f4 OR x)) = TRB a b c f4" and "bit (f4 OR x) 0 = (x = 1)"
    and "TRB_TYPE_LINK (f4 OR x) = TRB_TYPE_LINK f4"
proof -
  have "(f4 OR x) AND NOT 1 = f4"
  proof (rule bit_eqI)
    fix i assume "possible_bit TYPE(u32) i"
    then show "bit ((f4 OR x) AND NOT 1) i = bit f4 i"
      using assms by (cases i) (auto simp: bit_simps)
  qed
  then show "clean (TRB a b c (f4 OR x)) = TRB a b c f4" by (simp add: clean_def TRB_CYCLE_def)
  show "bit (f4 OR x) 0 = (x = 1)" using assms by (auto simp: bit_simps)
  have "x AND 0xfc00 = 0" using assms(2) by auto
  then show "TRB_TYPE_LINK (f4 OR x) = TRB_TYPE_LINK f4"
    using masked_update [of 0 "0xfc00" x 0 f4] by (simp add: TRB_TYPE_LINK_def TRB_TYPE_BITMASK_def)
qed

section \<open>Operations on the contents\<close>

lemma enq_notin_slots:
  assumes "view F r ss e d"
  shows "e \<notin> set (slots (length ss) e d)"
proof -
  have "hw (length ss) e d < 64 * length ss" "e < 64 * length ss" using assms by (auto simp: view_def hw_def)
  from target_notin_walk [OF this] show ?thesis by (auto simp: slots_def)
qed

lemma ring_invD:
  assumes "ring_inv F r"
  shows "view F r (ring_order r) (enq_pos r) (deq_pos r)"
    and "F \<subseteq> set (slots (length (ring_order r)) (enq_pos r) (deq_pos r))"
    and "unat (num_trbs_free r) + length (slots (length (ring_order r)) (enq_pos r) (deq_pos r))
      = 63 * length (ring_order r) - 1"
    and "64 * length (ring_order r) < 2 ^ 32" and "length (ring_order r) = unat (num_segs r)"
  using assms unfolding ring_inv_def ring_slots_def by blast+

lemma ring_invI:
  assumes "view F r' (ring_order r) e d" and "ring_order r' = ring_order r" and "num_segs r' = num_segs r"
    and "F \<subseteq> set (slots (length (ring_order r)) e d)" and "ring_inv F' r"
    and "unat (num_trbs_free r') + length (slots (length (ring_order r)) e d) = 63 * length (ring_order r) - 1"
  shows "ring_inv F r'" and "ring_slots r' = slots (length (ring_order r)) e d" and "enq_pos r' = e" and "deq_pos r' = d"
proof -
  have "view F r' (ring_order r') e d" using assms(1,2) by simp
  note p = view_pos [OF this]
  then show "enq_pos r' = e" "deq_pos r' = d" by simp_all
  show "ring_slots r' = slots (length (ring_order r)) e d" using p assms(2) by (simp add: ring_slots_def)
  then show "ring_inv F r'" using assms p by (simp add: ring_inv_def)
qed

lemma ring_queue:
  assumes inv: "ring_inv F r" and e: "enqueue r \<noteq> 63" and nl: "\<not> TRB_TYPE_LINK f4" and room: "num_trbs_free r \<noteq> 0"
  obtains r' where "queue_trb quirks coming f1 f2 f3 f4 r = Some r'"
    and "ring_inv (if bit f4 0 = (cycle_state r = 1) then F else insert (enq_pos r) F) r'"
    and "ring_slots r' = ring_slots r @ [enq_pos r]" and "ring_order r' = ring_order r"
    and "trb_of (segs r') (ring_order r) (enq_pos r) = TRB f1 f2 f3 f4"
    and "\<And>q. q \<in> set (ring_slots r) \<Longrightarrow> trb_of (segs r') (ring_order r) q = trb_of (segs r) (ring_order r) q"
    and "num_trbs_free r' = num_trbs_free r - 1" and "num_segs r' = num_segs r" and "ring_type r' = ring_type r"
    and "coming \<or> f4 AND TRB_CHAIN \<noteq> 0 \<Longrightarrow> enqueue r' \<noteq> 63"
proof -
  let ?ss = "ring_order r" and ?n = "length (ring_order r)" and ?e = "enq_pos r" and ?d = "deq_pos r"
  let ?F = "if bit f4 0 = (cycle_state r = 1) then F else insert ?e F"
  have v: "view F r ?ss ?e ?d" and sub: "F \<subseteq> set (slots ?n ?e ?d)" and cnt: "unat (num_trbs_free r)
      + length (slots ?n ?e ?d) = 63 * ?n - 1"
    using ring_invD [OF inv] by blast+
  have V: "?e < 64 * ?n" "?e mod 64 \<noteq> 63" "?d < 64 * ?n" using v e by (auto simp: view_def)
  then have ne: "ring_order r \<noteq> []" by auto
  have F: "F - {?e} = F" using sub enq_notin_slots [OF v] by auto
  obtain r' where r': "queue_trb quirks coming f1 f2 f3 f4 r = Some r'"
    "view ?F r' ?ss (past_link ?ss (f4 AND TRB_CHAIN \<noteq> 0 \<or> coming) (Suc ?e)) ?d"
    "num_trbs_free r' = num_trbs_free r - 1" "enq_frame r r'"
    "\<And>q. q < 64 * ?n \<Longrightarrow> q mod 64 \<noteq> 63 \<Longrightarrow>
       trb_of (segs r') ?ss q = (if q = ?e then TRB f1 f2 f3 f4 else trb_of (segs r) ?ss q)"
    using queue_trb_view [OF v V(2) nl] unfolding F by metis
  let ?e' = "past_link ?ss (f4 AND TRB_CHAIN \<noteq> 0 \<or> coming) (Suc ?e)"
  have pos: "0 < unat (num_trbs_free r)" using room by (simp add: unat_gt_0)
  have sl: "slots ?n (Suc ?e) ?d = slots ?n ?e ?d @ [?e]" by (rule slots_enq [OF V]) (use pos cnt in linarith)
  have sl': "slots ?n ?e' ?d = slots ?n ?e ?d @ [?e]"
    using sl slots_link [of "Suc ?e" ?n ?d] next_pos_same(1) [OF V(2,1)] V(3) by (simp add: past_link_def)
  have free: "unat (num_trbs_free r - 1) = unat (num_trbs_free r) - 1"
    using pos by (simp add: unat_sub word_le_nat_alt)
  have ord: "ring_order r' = ?ss" by (rule ring_order_frame [OF r'(4)])
  have fr: "num_segs r' = num_segs r" "ring_type r' = ring_type r" using r'(4) by (simp_all add: enq_frame_def)
  note I = ring_invI [OF r'(2) ord fr(1) _ inv]
  have sub': "?F \<subseteq> set (slots ?n ?e' ?d)" using sub sl' by auto
  have cnt': "unat (num_trbs_free r') + length (slots ?n ?e' ?d) = 63 * ?n - 1"
    using cnt free pos sl' r'(3) by simp
  have sm: "q < 64 * ?n \<and> q mod 64 \<noteq> 63 \<and> q \<noteq> ?e" if "q \<in> set (ring_slots r)" for q
    using that ring_slots_bound [OF that ne] enq_notin_slots [OF v] by (auto simp: ring_slots_def)
  have go: "enqueue r' \<noteq> 63" if "coming \<or> f4 AND TRB_CHAIN \<noteq> 0"
  proof -
    have "?e' mod 64 \<noteq> 63" using that next_pos_link(2) [of "Suc ?e" ?n] next_pos_same(1) [OF V(2,1)]
      by (auto simp: past_link_def)
    then show ?thesis using r'(2) by (simp add: view_def)
  qed
  show thesis
    using that r'(1) I(1,2) [OF sub' cnt'] sl' ord r'(5) V sm r'(3) fr go by (simp add: ring_slots_def)
qed

lemma ring_skip_link:
  assumes inv: "ring_inv F r" and e: "enqueue r = 63" and ty: "\<not> ehub_cache_ring (ring_type r)"
  obtains r' where "skip_links k quirks r s = Some ((0, r'), s)" and "ring_inv F r'"
    and "ring_slots r' = ring_slots r" and "ring_order r' = ring_order r" and "enqueue r' \<noteq> 63"
    and "\<And>q. q \<in> set (ring_slots r) \<Longrightarrow> trb_of (segs r') (ring_order r) q = trb_of (segs r) (ring_order r) q"
    and "num_trbs_free r' = num_trbs_free r" and "num_segs r' = num_segs r" and "ring_type r' = ring_type r"
proof -
  let ?ss = "ring_order r" and ?n = "length (ring_order r)" and ?e = "enq_pos r" and ?d = "deq_pos r"
  let ?e' = "Suc (enq_pos r) mod (64 * length (ring_order r))"
  let ?give = "if keeps_link_chain quirks (ring_type r) then give_link 0 TRB_CHAIN TRB_CYCLE r
     else give_link TRB_CHAIN 0 TRB_CYCLE r"
  have v: "view F r ?ss ?e ?d" and sub: "F \<subseteq> set (slots ?n ?e ?d)" and cnt: "unat (num_trbs_free r)
      + length (slots ?n ?e ?d) = 63 * ?n - 1"
    using ring_invD [OF inv] by blast+
  have V: "?e < 64 * ?n" "?e mod 64 = 63" "?d < 64 * ?n" using v e by (auto simp: view_def)
  then have ne: "ring_order r \<noteq> []" by auto
  obtain r1 r2 where g: "?give = Some r1" "enq_to_next_seg r1 = Some r2" "view F r2 ?ss ?e' ?d"
    "num_trbs_free r2 = num_trbs_free r" "enq_frame r r2" "same_slots ?ss (segs r) (segs r2)"
    using give_link_ex [OF v V(2), of 0 TRB_CHAIN TRB_CHAIN] give_link_ex [OF v V(2), of TRB_CHAIN 0 0]
    by (cases "keeps_link_chain quirks (ring_type r)") auto
  have e': "?e' mod 64 = 0" by (rule next_pos_link(2) [OF V(2,1)])
  then have "last_trb r2 (enq_seg r2) (enqueue r2) = Some False" using view_last(1) [OF g(3)] by simp
  then have "skip_links k quirks r2 s = Some ((0, r2), s)" by (subst skip_links.simps) simp
  then have run: "skip_links k quirks r s = Some ((0, r2), s)"
    using view_last(1) [OF v] V(2) g(1,2) ty by (subst skip_links.simps) simp
  have sl: "slots ?n ?e' ?d = slots ?n ?e ?d" by (rule slots_link [OF V])
  have ord: "ring_order r2 = ?ss" by (rule ring_order_frame [OF g(5)])
  have fr: "num_segs r2 = num_segs r" "ring_type r2 = ring_type r" using g(5) by (simp_all add: enq_frame_def)
  have "ring_inv F r2" "ring_slots r2 = slots ?n ?e ?d"
    using ring_invI(1,2) [OF g(3) ord fr(1) _ inv] sub cnt g(4) sl by simp_all
  moreover have "enqueue r2 \<noteq> 63" using g(3) e' by (simp add: view_def)
  moreover have "trb_of (segs r2) ?ss q = trb_of (segs r) ?ss q" if "q \<in> set (ring_slots r)" for q
    using g(6) ring_slots_bound [OF that ne] by (auto simp: same_slots_def)
  ultimately show thesis using that run ord g(4) fr by (simp add: ring_slots_def)
qed

lemma ring_deq:
  assumes inv: "ring_inv F r" and s: "ring_slots r = q # qs" and F: "q \<notin> F"
  obtains r' where "inc_deq r = Some r'" and "ring_inv F r'" and "ring_slots r' = qs" and "segs r' = segs r"
    and "ring_order r' = ring_order r" and "num_segs r' = num_segs r" and "ring_type r' = ring_type r"
    and "num_trbs_free r' = num_trbs_free r + 1" and "q = deq_pos r"
proof -
  let ?ss = "ring_order r" and ?n = "length (ring_order r)" and ?e = "enq_pos r" and ?d = "deq_pos r"
  have v: "view F r ?ss ?e ?d" and sub: "F \<subseteq> set (slots ?n ?e ?d)" and cnt: "unat (num_trbs_free r)
      + length (slots ?n ?e ?d) = 63 * ?n - 1" and lim: "64 * ?n < 2 ^ 32"
    using ring_invD [OF inv] by blast+
  have V: "?e < 64 * ?n" "?d < 64 * ?n" "?d mod 64 \<noteq> 63" using v by (auto simp: view_def)
  have sl: "slots ?n ?e ?d = q # qs" using s by (simp add: ring_slots_def)
  note q = slots_deq [OF V sl]
  obtain r' where r': "inc_deq r = Some r'" "view F r' ?ss ?e (deq_next ?n ?d)"
    "num_trbs_free r' = num_trbs_free r + 1" "segs r' = segs r" "first_seg r' = first_seg r"
    "num_segs r' = num_segs r" "ring_type r' = ring_type r"
    using inc_deq_view [OF v] by metis
  have ord: "ring_order r' = ?ss" using r'(4-6) by (simp add: ring_order_def)
  have "unat (num_trbs_free r) + 1 < 2 ^ 32" using cnt sl lim by simp
  then have free: "unat (num_trbs_free r + 1) = unat (num_trbs_free r) + 1" by (simp add: unat_word_ariths)
  have "ring_inv F r'" "ring_slots r' = qs"
    using ring_invI(1,2) [OF r'(2) ord r'(6) _ inv] sub cnt q(2) sl F r'(3) free by auto
  then show thesis using that r' ord q(1) by simp
qed

end
