(* ===== verification/Xhci_Command.thy ===== *)
theory Xhci_Command
  imports Xhci_Ring_Fifo
begin

text \<open>
  The command ring as a bounded queue. The locale states what a producer and a consumer of
  such a queue rely on; the interpretation discharges it for \<open>queue_command\<close> and \<open>inc_deq\<close>
  on the command ring, so that every sequence of commands and completions the abstract
  queue allows is carried out, in order, by the ring.
\<close>

section \<open>Bounded queues\<close>

datatype 'a fifo_op = Put 'a | Get

fun fifo_spec :: "nat \<Rightarrow> 'a fifo_op list \<Rightarrow> 'a list \<Rightarrow> 'a list option" where
  "fifo_spec cap [] xs = Some xs"
| "fifo_spec cap (Put x # ops) xs = (if length xs < cap then fifo_spec cap ops (xs @ [x]) else None)"
| "fifo_spec cap (Get # ops) xs = (case xs of [] \<Rightarrow> None | _ # ys \<Rightarrow> fifo_spec cap ops ys)"

fun fifo_run :: "('a \<Rightarrow> 's \<Rightarrow> 's option) \<Rightarrow> ('s \<Rightarrow> 's option) \<Rightarrow> 'a fifo_op list \<Rightarrow> 's \<Rightarrow> 's option" where
  "fifo_run put get [] s = Some s"
| "fifo_run put get (Put x # ops) s = Option.bind (put x s) (fifo_run put get ops)"
| "fifo_run put get (Get # ops) s = Option.bind (get s) (fifo_run put get ops)"

locale bounded_fifo =
  fixes inv :: "'s \<Rightarrow> bool" and contents :: "'s \<Rightarrow> 'a list" and capacity :: "'s \<Rightarrow> nat"
    and put :: "'a \<Rightarrow> 's \<Rightarrow> 's option" and get :: "'s \<Rightarrow> 's option" and ok :: "'a \<Rightarrow> bool"
  assumes put_ok: "inv s \<Longrightarrow> ok x \<Longrightarrow> length (contents s) < capacity s \<Longrightarrow>
      \<exists>t. put x s = Some t \<and> inv t \<and> contents t = contents s @ [x] \<and> capacity t = capacity s"
    and get_ok: "inv s \<Longrightarrow> contents s = x # xs \<Longrightarrow>
      \<exists>t. get s = Some t \<and> inv t \<and> contents t = xs \<and> capacity t = capacity s"
begin

lemma run_refines:
  assumes "inv s" and "\<forall>x. Put x \<in> set ops \<longrightarrow> ok x" and "fifo_spec (capacity s) ops (contents s) = Some xs"
  shows "\<exists>t. fifo_run put get ops s = Some t \<and> inv t \<and> contents t = xs \<and> capacity t = capacity s"
  using assms
proof (induction ops arbitrary: s)
  case (Cons op ops)
  show ?case
  proof (cases op)
    case (Put x)
    then have room: "length (contents s) < capacity s" "fifo_spec (capacity s) ops (contents s @ [x]) = Some xs"
      using Cons.prems(3) by (auto split: if_splits)
    obtain t where t: "put x s = Some t" "inv t" "contents t = contents s @ [x]" "capacity t = capacity s"
      using put_ok [OF Cons.prems(1) _ room(1)] Cons.prems(2) Put by auto
    then show ?thesis using Cons.IH [of t] Cons.prems(2) room(2) Put by auto
  next
    case Get
    then obtain y ys where ys: "contents s = y # ys" "fifo_spec (capacity s) ops ys = Some xs"
      using Cons.prems(3) by (auto split: list.splits)
    obtain t where t: "get s = Some t" "inv t" "contents t = ys" "capacity t = capacity s"
      using get_ok [OF Cons.prems(1) ys(1)] by auto
    then show ?thesis using Cons.IH [of t] Cons.prems(2) ys(2) Get by auto
  qed
qed simp

end

section \<open>The command ring\<close>

text \<open>A command as its caller builds it: a TRB that is not a link and leaves the cycle bit to
  the queue.\<close>

definition command_ok :: "xhci_generic_trb \<Rightarrow> bool" where
  "command_ok t \<longleftrightarrow> \<not> cyc t \<and> \<not> TRB_TYPE_LINK (control t)"

type_synonym cmd_state = "command_queue \<times> ehub"

definition command_inv :: "cmd_state \<Rightarrow> bool" where
  "command_inv qs \<longleftrightarrow> ring_inv {} (cmd_ring (fst qs)) \<and> ring_type (cmd_ring (fst qs)) = TYPE_COMMAND
     \<and> xhc_state (snd qs) AND XHCI_STATE_DYING = 0
     \<and> unat (cmd_ring_reserved_trbs (fst qs)) < 63 * length (ring_order (cmd_ring (fst qs)))"

definition command_contents :: "cmd_state \<Rightarrow> xhci_generic_trb list" where
  "command_contents qs = ring_contents (cmd_ring (fst qs))"

text \<open>A command that need not succeed leaves the reserved TRBs untouched.\<close>

definition command_capacity :: "cmd_state \<Rightarrow> nat" where
  "command_capacity qs = 63 * length (ring_order (cmd_ring (fst qs))) - 1 - unat (cmd_ring_reserved_trbs (fst qs))"

definition put_command :: "env \<Rightarrow> u32 \<Rightarrow> nat \<Rightarrow> xhci_generic_trb \<Rightarrow> cmd_state \<Rightarrow> cmd_state option" where
  "put_command k quirks cmd t qs = (case t of TRB f1 f2 f3 f4 \<Rightarrow>
     map_option (\<lambda>((ret, q), s). (q, s)) (queue_command k quirks cmd f1 f2 f3 f4 False (fst qs) (snd qs)))"

definition retire_command :: "cmd_state \<Rightarrow> cmd_state option" where
  "retire_command qs = map_option (\<lambda>r. ((fst qs)\<lparr>cmd_ring := r\<rparr>, snd qs)) (inc_deq (cmd_ring (fst qs)))"

lemma ring_contents_length: "length (ring_contents r) = length (ring_slots r)"
  by (simp add: ring_contents_def)

text \<open>A command is queued when the ring has more free TRBs than are reserved.\<close>

lemma queue_command_ok:
  assumes inv: "ring_inv {} (cmd_ring q)" and ty: "ring_type (cmd_ring q) = TYPE_COMMAND"
    and alive: "xhc_state s AND XHCI_STATE_DYING = 0" and ok: "command_ok (TRB f1 f2 f3 f4)"
    and room: "unat (cmd_ring_reserved_trbs q) < unat (num_trbs_free (cmd_ring q))"
  obtains q' where "queue_command k quirks cmd f1 f2 f3 f4 False q s = Some ((0, q'), s)"
    and "ring_inv {} (cmd_ring q')" and "ring_type (cmd_ring q') = TYPE_COMMAND"
    and "ring_contents (cmd_ring q') = ring_contents (cmd_ring q) @ [TRB f1 f2 f3 f4]"
    and "ring_order (cmd_ring q') = ring_order (cmd_ring q)"
    and "cmd_ring_reserved_trbs q' = cmd_ring_reserved_trbs q"
    and "map cmd_id (cmd_list q') = map cmd_id (cmd_list q) @ [cmd]"
proof -
  let ?r = "cmd_ring q" and ?n = "cmd_ring_reserved_trbs q + 1"
  have "unat ?n = unat (cmd_ring_reserved_trbs q) + 1"
    using room unsigned_less [of "num_trbs_free ?r", where ?'a = nat] by (simp add: unat_word_ariths)
  then have need: "num_trbs_needed ?r ?n = 0" using room ty by (simp add: num_trbs_needed_def word_less_nat_alt)
  have make: "make_room k quirks 0 True ?n ?r s = Some ((0, ?r), s)"
    by (subst make_room.simps) (simp add: need)
  have v: "view {} ?r (ring_order ?r) (enq_pos ?r) (deq_pos ?r)" using ring_invD(1) [OF inv] .
  have link: "enqueue_is_link_trb ?r = Some (enqueue ?r = 63)"
    using view_last(1) [OF v] v by (simp add: last_trb_def enqueue_is_link_trb_def view_def)
  obtain r1 where r1: "prepare_ring k quirks 0 True EP_STATE_RUNNING ?n ?r s = Some ((0, r1), s)"
    "ring_inv {} r1" "ring_slots r1 = ring_slots ?r" "ring_order r1 = ring_order ?r" "enqueue r1 \<noteq> 63"
    "\<And>p. p \<in> set (ring_slots ?r) \<Longrightarrow> trb_of (segs r1) (ring_order ?r) p = trb_of (segs ?r) (ring_order ?r) p"
    "num_trbs_free r1 = num_trbs_free ?r" "ring_type r1 = TYPE_COMMAND"
  proof (cases "enqueue ?r = 63")
    case True
    obtain r' where "skip_links k quirks ?r s = Some ((0, r'), s)" "ring_inv {} r'" "ring_slots r' = ring_slots ?r"
      "ring_order r' = ring_order ?r" "enqueue r' \<noteq> 63" "num_trbs_free r' = num_trbs_free ?r"
      "ring_type r' = ring_type ?r"
      "\<And>p. p \<in> set (ring_slots ?r) \<Longrightarrow> trb_of (segs r') (ring_order ?r) p = trb_of (segs ?r) (ring_order ?r) p"
      using ring_skip_link [OF inv True, of k quirks s thesis] ty by (auto elim: ring_skip_link [OF inv True])
    then show thesis using that [of r'] make link True ty
      by (simp add: prepare_ring_def check_ep_state_def EP_STATE_DISABLED_def EP_STATE_ERROR_def EP_STATE_RUNNING_def)
  next
    case False
    then show thesis using that [of ?r] make link inv ty
      by (simp add: prepare_ring_def check_ep_state_def EP_STATE_DISABLED_def EP_STATE_ERROR_def EP_STATE_RUNNING_def)
  qed
  have c01: "cycle_state r1 = 0 \<or> cycle_state r1 = 1" using ring_invD(1) [OF r1(2)] by (simp add: view_def)
  have f4: "\<not> cyc (TRB f1 f2 f3 f4)" "\<not> TRB_TYPE_LINK f4" using ok by (simp_all add: command_ok_def)
  note cc = clean_cycle [of f1 f2 f3 f4 "cycle_state r1"]
  have nl: "\<not> TRB_TYPE_LINK (f4 OR cycle_state r1)" using cc(3) c01 f4 by simp
  have nz: "num_trbs_free r1 \<noteq> 0" using room r1(7) by auto
  obtain r2 where r2: "queue_trb quirks False f1 f2 f3 (f4 OR cycle_state r1) r1 = Some r2" "ring_inv {} r2"
    "ring_slots r2 = ring_slots r1 @ [enq_pos r1]" "ring_order r2 = ring_order r1"
    "trb_of (segs r2) (ring_order r1) (enq_pos r1) = TRB f1 f2 f3 (f4 OR cycle_state r1)"
    "\<And>p. p \<in> set (ring_slots r1) \<Longrightarrow> trb_of (segs r2) (ring_order r1) p = trb_of (segs r1) (ring_order r1) p"
    "ring_type r2 = ring_type r1"
    using ring_queue [OF r1(2,5) nl nz, of quirks False f1 f2 f3] cc(2) c01 f4(1) by auto
  have "ring_contents r2 = ring_contents ?r @ [TRB f1 f2 f3 f4]"
    using r2(3-6) r1(3,4,6) cc(1) c01 f4(1) by (simp add: ring_contents_def)
  then show thesis
    using that r1(1,8) r2 r1(4) alive
    by (auto simp: queue_command_def Let_def list_add_tail_def)
qed

interpretation commands: bounded_fifo command_inv command_contents command_capacity "put_command k quirks cmd"
  retire_command command_ok for k quirks cmd
proof
  fix qs :: cmd_state and x
  assume inv: "command_inv qs" and ok: "command_ok x" and room: "length (command_contents qs) < command_capacity qs"
  obtain f1 f2 f3 f4 where x: "x = TRB f1 f2 f3 f4" by (cases x) auto
  obtain q s where qs: "qs = (q, s)" by (cases qs)
  have i: "ring_inv {} (cmd_ring q)" "ring_type (cmd_ring q) = TYPE_COMMAND" "xhc_state s AND XHCI_STATE_DYING = 0"
    using inv by (simp_all add: command_inv_def qs)
  have "unat (cmd_ring_reserved_trbs q) < unat (num_trbs_free (cmd_ring q))"
    using room ring_invD(3) [OF i(1)]
    by (simp add: command_contents_def command_capacity_def ring_contents_length ring_slots_def qs)
  then obtain q' where "queue_command k quirks cmd f1 f2 f3 f4 False q s = Some ((0, q'), s)"
    "ring_inv {} (cmd_ring q')" "ring_type (cmd_ring q') = TYPE_COMMAND"
    "ring_contents (cmd_ring q') = ring_contents (cmd_ring q) @ [TRB f1 f2 f3 f4]"
    "ring_order (cmd_ring q') = ring_order (cmd_ring q)" "cmd_ring_reserved_trbs q' = cmd_ring_reserved_trbs q"
    using queue_command_ok [OF i ok [unfolded x]] by metis
  then show "\<exists>t. put_command k quirks cmd x qs = Some t \<and> command_inv t
      \<and> command_contents t = command_contents qs @ [x] \<and> command_capacity t = command_capacity qs"
    using inv by (auto simp: put_command_def command_inv_def command_contents_def command_capacity_def x qs)
next
  fix qs :: cmd_state and x xs
  assume inv: "command_inv qs" and c: "command_contents qs = x # xs"
  let ?r = "cmd_ring (fst qs)"
  have i: "ring_inv {} ?r" using inv by (simp add: command_inv_def)
  obtain p ps where s: "ring_slots ?r = p # ps" "xs = map (\<lambda>p. clean (trb_of (segs ?r) (ring_order ?r) p)) ps"
    using c by (auto simp: command_contents_def ring_contents_def)
  obtain r' where "inc_deq ?r = Some r'" "ring_inv {} r'" "ring_slots r' = ps" "segs r' = segs ?r"
    "ring_order r' = ring_order ?r" "ring_type r' = ring_type ?r"
    using ring_deq [OF i s(1)] by (metis empty_iff)
  then show "\<exists>t. retire_command qs = Some t \<and> command_inv t \<and> command_contents t = xs
      \<and> command_capacity t = command_capacity qs"
    using inv s(2) by (auto simp: retire_command_def command_inv_def command_contents_def command_capacity_def
        ring_contents_def)
qed

end
