(* ===== verification/Xhci_Ring_Build.thy ===== *)
theory Xhci_Ring_Build
  imports Xhci_Command
begin

text \<open>
  Construction of rings: every ring the allocation returns is an empty, well-formed ring, and
  the expansion of a ring keeps its contents.
\<close>

section \<open>Addresses only grow\<close>

lemma URB_Create_grows:
  assumes "URB_Create k pipe len rtn ctx s = Some (r, t)"
  shows "next_addr s \<le> next_addr t"
  using assms by (cases rule: URB_Create_cases) auto

lemma cache_work_expand_grows:
  "cache_work_expand_loop k n i s = Some (m, t) \<Longrightarrow> next_addr s \<le> next_addr t"
proof (induction n arbitrary: i s)
  case (Suc n)
  show ?case
  proof (cases "kzalloc k (tick s)")
    case True
    let ?s1 = "(tick_up s)\<lparr>next_addr := Suc (next_addr s)\<rparr>"
    obtain p s2 where c: "URB_Create k (UsbPipeCacheOut ?s1) (8 + MESSAGE_DATA_BUFFER_SIZE_CACHE)
        URB_CompletionRoutine_Cache_ptr (Some (CacheWorkPtr (next_addr s))) ?s1 = Some (p, s2)"
      using Suc.prems True by (auto simp: Let_def elim!: bind_eq_SomeE)
    have "next_addr s \<le> next_addr s2" using URB_Create_grows [OF c] by simp
    then show ?thesis using Suc.prems True c
      by (cases p) (auto simp: Let_def dest!: Suc.IH elim!: bind_eq_SomeE)
  qed (use Suc.prems in \<open>auto simp: tick_up_def\<close>)
qed simp

lemma get_cache_work_grows:
  assumes "ehub_get_cache_work_context k s = Some (p, t)"
  shows "next_addr s \<le> next_addr t"
  using assms
  by (auto simp: ehub_get_cache_work_context_def lock_cache_list_def unlock_cache_list_def work_to_used_def
      ehub_xhci_cache_work_expand_def elim!: bind_eq_SomeE split: if_splits list.splits
      dest!: cache_work_expand_grows)

lemma cache_write_grows:
  assumes "EMBEDDED_CACHE_Write k p addr data len c s = Some (st, t)"
  shows "next_addr t = next_addr s"
  using assms
  by (auto simp: EMBEDDED_CACHE_Write_def Let_def submitted_def put_urb_def elim!: bind_eq_SomeE URB_Submit_Some
      split: if_splits option.splits)

lemma queue_cache_write_grows:
  assumes "ehub_queue_cache_write k addr data len c db slot ep stream s = Some (st, t)"
  shows "next_addr s \<le> next_addr t"
  using assms
  by (auto simp: ehub_queue_cache_write_def elim!: bind_eq_SomeE split: if_splits option.splits
      dest!: get_cache_work_grows cache_write_grows)

lemma cache_link_trb_grows: "cache_link_trb k g h s = Some (st, t) \<Longrightarrow> next_addr s \<le> next_addr t"
  by (auto simp: cache_link_trb_def elim!: bind_eq_SomeE dest: queue_cache_write_grows)

lemma allocate_segment_grows:
  assumes "ehub_xhci_cache_block_allocate_segment k c data s = Some (p, t)"
  shows "next_addr s \<le> next_addr t"
  using assms
  by (auto simp: ehub_xhci_cache_block_allocate_segment_def lock_cache_list_def unlock_cache_list_def
      block_to_used_def block_to_free_def elim!: bind_eq_SomeE split: if_splits list.splits
      dest!: queue_cache_write_grows)

section \<open>Chains of new segments\<close>

text \<open>The segments \<open>ss\<close> are new and linked one after the other, all but the last; \<open>z\<close> is the
  control word of an unused TRB.\<close>

definition new_chain :: "u32 \<Rightarrow> xhci_ring_type \<Rightarrow> u32 \<Rightarrow> seg_heap \<Rightarrow> seg_id list \<Rightarrow> bool" where
  "new_chain quirks ty z h ss \<longleftrightarrow> ss \<noteq> [] \<and> distinct ss
     \<and> (\<forall>i < length ss. \<exists>sg. h (ss ! i) = Some sg \<and> length (trbs sg) = 64
          \<and> (\<forall>j < 63. trbs sg ! j = TRB 0 0 0 z)
          \<and> (if Suc i < length ss
             then next_seg sg = Some (ss ! Suc i) \<and> control (trbs sg ! 63) = link_control quirks ty z
             else trbs sg ! 63 = TRB 0 0 0 z))"

lemma new_chainD:
  assumes "new_chain quirks ty z h ss" and "i < length ss"
  shows "\<exists>sg. h (ss ! i) = Some sg \<and> length (trbs sg) = 64 \<and> (\<forall>j < 63. trbs sg ! j = TRB 0 0 0 z)
     \<and> (if Suc i < length ss
        then next_seg sg = Some (ss ! Suc i) \<and> control (trbs sg ! 63) = link_control quirks ty z
        else trbs sg ! 63 = TRB 0 0 0 z)"
  using assms unfolding new_chain_def by blast

lemma new_chain_dom:
  assumes "new_chain quirks ty z h ss"
  shows "ss \<noteq> []" and "set ss \<subseteq> dom h"
proof -
  show "ss \<noteq> []" using assms by (simp add: new_chain_def)
  show "set ss \<subseteq> dom h"
  proof
    fix x assume "x \<in> set ss"
    then obtain i where "i < length ss" "x = ss ! i" by (auto simp: in_set_conv_nth)
    then show "x \<in> dom h" using new_chainD [OF assms] by auto
  qed
qed

definition unused_control :: "u32 \<Rightarrow> u32" where
  "unused_control c = (if c = 0 then TRB_CYCLE else 0)"

lemma alloc_cached_segment_new:
  assumes "alloc_cached_segment k c ty h s = Some ((Some (g, ok), h'), s')" and "\<forall>x \<in> dom h. x < next_addr s"
  shows "\<exists>sg. h' = h(g \<mapsto> sg) \<and> length (trbs sg) = 64 \<and> (\<forall>j < 64. trbs sg ! j = TRB 0 0 0 (unused_control c))"
    and "g = next_addr s" and "g < next_addr s'" and "h g = None"
proof -
  obtain sg s1 where a: "xhci_segment_alloc k c s = (Some (g, sg), s1)"
    using assms(1) by (auto simp: alloc_cached_segment_def split: option.splits prod.splits if_splits elim!: bind_eq_SomeE)
  then have g: "g = next_addr s" "next_addr s1 = Suc g" "length (trbs sg) = 64"
    "\<forall>j < 64. trbs sg ! j = TRB 0 0 0 (unused_control c)"
    by (auto simp: xhci_segment_alloc_def tick_up_def TRBS_PER_SEGMENT_def unused_control_def split: if_splits option.splits)
  then show "g = next_addr s" "h g = None" using assms(2) by auto
  show "g < next_addr s'"
    using assms(1) a g(2)
    by (auto simp: alloc_cached_segment_def split: option.splits if_splits elim!: bind_eq_SomeE dest!: allocate_segment_grows)
  show "\<exists>sg. h' = h(g \<mapsto> sg) \<and> length (trbs sg) = 64 \<and> (\<forall>j < 64. trbs sg ! j = TRB 0 0 0 (unused_control c))"
  proof (cases "ehub_cache_ring ty")
    case True
    then obtain p s2 where p: "ehub_xhci_cache_block_allocate_segment k (uint c) (Some (segment_bytes sg)) s1 = Some (p, s2)"
      using assms(1) a by (auto simp: alloc_cached_segment_def elim!: bind_eq_SomeE)
    show ?thesis
    proof (cases p)
      case None
      then show ?thesis using assms(1) a True p g(3,4) by (auto simp: alloc_cached_segment_def)
    next
      case (Some b)
      then obtain blk where "cache_blocks s2 b = Some blk"
        "h' = h(g \<mapsto> sg\<lparr>EhubCacheBlock := Some b, dma := ucast (Address blk)\<rparr>)"
        using assms(1) a True p by (auto simp: alloc_cached_segment_def elim!: bind_eq_SomeE)
      then show ?thesis using g(3,4) by auto
    qed
  next
    case False
    then show ?thesis using assms(1) a g(3,4) by (auto simp: alloc_cached_segment_def)
  qed
qed

lemma link_segments_heap:
  assumes "xhci_link_segments k quirks p q ty h s = Some (h', s')" and "ty \<noteq> TYPE_EVENT"
    and "h p = Some sg" and "length (trbs sg) = 64"
  shows "\<exists>t. h' = h(p \<mapsto> sg\<lparr>next_seg := Some q, trbs := (trbs sg)[63 := t]\<rparr>)
       \<and> control t = link_control quirks ty (control (trbs sg ! 63))"
    and "next_addr s \<le> next_addr s'"
proof -
  let ?h1 = "h(p \<mapsto> sg\<lparr>next_seg := Some q\<rparr>)"
  let ?f = "\<lambda>sgn t. set_control (link_control quirks ty (control t)) (set_segment_ptr (dma sgn) t)"
  obtain sgn h2 where l: "?h1 q = Some sgn" "map_trb (?f sgn) p 63 ?h1 = Some h2" "h' = h2"
    using assms(1-3) by (auto simp: xhci_link_segments_def TRBS_PER_SEGMENT_def Let_def elim!: bind_eq_SomeE split: if_splits)
  then have "h' = h(p \<mapsto> sg\<lparr>next_seg := Some q, trbs := (trbs sg)[63 := ?f sgn (trbs sg ! 63)]\<rparr>)"
    using assms(4) by (simp add: map_trb_def split: if_splits)
  then show "\<exists>t. h' = h(p \<mapsto> sg\<lparr>next_seg := Some q, trbs := (trbs sg)[63 := t]\<rparr>)
      \<and> control t = link_control quirks ty (control (trbs sg ! 63))"
    by (intro exI [of _ "?f sgn (trbs sg ! 63)"]) simp
  show "next_addr s \<le> next_addr s'"
    using assms(1) by (auto simp: xhci_link_segments_def Let_def elim!: bind_eq_SomeE split: if_splits
        dest!: cache_link_trb_grows)
qed

lemma new_chain_extend:
  assumes c: "new_chain quirks ty z h ss" and g: "h g = None" and h1: "h1 = h(g \<mapsto> sg)"
    and sg: "length (trbs sg) = 64" "\<forall>j < 64. trbs sg ! j = TRB 0 0 0 z"
    and link: "xhci_link_segments k quirks (last ss) g ty h1 s = Some (h2, s')" and ty: "ty \<noteq> TYPE_EVENT"
  shows "new_chain quirks ty z h2 (ss @ [g])" and "\<And>x. x \<notin> set (ss @ [g]) \<Longrightarrow> h2 x = h x"
proof -
  let ?m = "length ss"
  have ss: "ss \<noteq> []" "distinct ss" using c by (simp_all add: new_chain_def)
  then have l: "last ss = ss ! (?m - 1)" "?m - 1 < ?m" by (simp_all add: last_conv_nth)
  obtain sl where sl: "h (last ss) = Some sl" "length (trbs sl) = 64" "\<forall>j < 63. trbs sl ! j = TRB 0 0 0 z"
    "trbs sl ! 63 = TRB 0 0 0 z"
  proof -
    have "\<not> Suc (?m - 1) < ?m" using l(2) by simp
    then show thesis using new_chainD [OF c l(2)] l(1) that by auto
  qed
  have notin: "g \<notin> set ss" using c g by (fastforce simp: new_chain_def in_set_conv_nth)
  then have lg: "last ss \<noteq> g" "h1 (last ss) = Some sl" using ss(1) sl(1) h1 by (auto dest: last_in_set)
  obtain t where t: "h2 = h1(last ss \<mapsto> sl\<lparr>next_seg := Some g, trbs := (trbs sl)[63 := t]\<rparr>)"
    "control t = link_control quirks ty z"
    using link_segments_heap(1) [OF link ty lg(2) sl(2)] sl(4) by auto
  show "h2 x = h x" if "x \<notin> set (ss @ [g])" for x using that t(1) h1 ss(1) by auto
  have "\<exists>sg. h2 ((ss @ [g]) ! i) = Some sg \<and> length (trbs sg) = 64 \<and> (\<forall>j < 63. trbs sg ! j = TRB 0 0 0 z)
      \<and> (if Suc i < length (ss @ [g])
         then next_seg sg = Some ((ss @ [g]) ! Suc i) \<and> control (trbs sg ! 63) = link_control quirks ty z
         else trbs sg ! 63 = TRB 0 0 0 z)" if i: "i < length (ss @ [g])" for i
  proof -
    consider "Suc i < ?m" | "Suc i = ?m" | "i = ?m" using i by force
    then show ?thesis
    proof cases
      case 1
      then have "ss ! i \<noteq> last ss" "ss ! i \<noteq> g" using ss l notin by (auto simp: nth_eq_iff_index_eq)
      then show ?thesis using 1 new_chainD [OF c, of i] t(1) h1 by (auto simp: nth_append)
    next
      case 2
      then have "i = ?m - 1" by simp
      then have "ss ! i = last ss" using l by simp
      then show ?thesis using 2 t sl lg by (auto simp: nth_append)
    next
      case 3
      then show ?thesis using t(1) h1 sg lg by (auto simp: nth_append)
    qed
  qed
  then show "new_chain quirks ty z h2 (ss @ [g])" using ss notin by (auto simp: new_chain_def)
qed

text \<open>The loop that allocates and links the remaining segments.\<close>

lemma alloc_segments_loop_chain:
  assumes "alloc_segments_loop k quirks m n c ty first (last ss) h s = Some ((0, lst, h'), s')"
    and "new_chain quirks ty (unused_control c) h ss" and "ty \<noteq> TYPE_EVENT" and "\<forall>x \<in> dom h. x < next_addr s"
  shows "\<exists>ns. length ns = n \<and> lst = last (ss @ ns) \<and> new_chain quirks ty (unused_control c) h' (ss @ ns)
     \<and> (\<forall>x. x \<notin> set (ss @ ns) \<longrightarrow> h' x = h x) \<and> set ns \<inter> dom h = {} \<and> (\<forall>x \<in> dom h'. x < next_addr s')"
  using assms(1,2,4)
proof (induction n arbitrary: ss h s)
  case 0
  then show ?case by auto
next
  case (Suc n)
  obtain p h1 s1 where a: "alloc_cached_segment k c ty h s = Some ((p, h1), s1)"
    using Suc.prems(1) by (auto elim!: bind_eq_SomeE)
  obtain g where p: "p = Some (g, True)"
    using Suc.prems(1) a by (cases p) (auto elim!: bind_eq_SomeE split: if_splits)
  obtain h2 s2 where l: "xhci_link_segments k quirks (last ss) g ty h1 s1 = Some (h2, s2)"
    "alloc_segments_loop k quirks m n c ty first g h2 s2 = Some ((0, lst, h'), s')"
    using Suc.prems(1) a p by (auto elim!: bind_eq_SomeE split: if_splits)
  note new = alloc_cached_segment_new [OF a [unfolded p] Suc.prems(3)]
  obtain sg where sg: "h1 = h(g \<mapsto> sg)" "length (trbs sg) = 64" "\<forall>j < 64. trbs sg ! j = TRB 0 0 0 (unused_control c)"
    using new(1) by blast
  note ext = new_chain_extend [OF Suc.prems(2) new(4) sg l(1) assms(3)]
  note dom = new_chain_dom [OF Suc.prems(2)]
  then obtain sl where "h1 (last ss) = Some sl" "length (trbs sl) = 64"
    using new_chainD [OF Suc.prems(2), of "length ss - 1"] sg(1) new(4)
    by (cases "last ss = g") (auto simp: last_conv_nth)
  from link_segments_heap(2) [OF l(1) assms(3) this] have s2: "next_addr s1 \<le> next_addr s2" .
  have "dom h2 \<subseteq> insert g (dom h)"
  proof
    fix x assume x: "x \<in> dom h2"
    show "x \<in> insert g (dom h)"
    proof (cases "x \<in> set (ss @ [g])")
      case True
      then show ?thesis using dom(2) by auto
    qed (use x ext(2) in auto)
  qed
  moreover have "x < next_addr s2" if "x \<in> insert g (dom h)" for x
    using that Suc.prems(3) new(2,3) s2 by (auto dest: less_trans less_le_trans)
  ultimately have below: "\<forall>x \<in> dom h2. x < next_addr s2" by blast
  obtain ns where ns: "length ns = n" "lst = last ((ss @ [g]) @ ns)"
    "new_chain quirks ty (unused_control c) h' ((ss @ [g]) @ ns)"
    "\<forall>x. x \<notin> set ((ss @ [g]) @ ns) \<longrightarrow> h' x = h2 x" "set ns \<inter> dom h2 = {}" "\<forall>x \<in> dom h'. x < next_addr s'"
    using Suc.IH [of "ss @ [g]" h2 s2] l(2) ext(1) below by auto
  have "set (g # ns) \<inter> dom h = {}"
  proof -
    have "dom h \<subseteq> dom h2"
    proof
      fix x assume x: "x \<in> dom h"
      show "x \<in> dom h2"
      proof (cases "x \<in> set (ss @ [g])")
        case True
        then show ?thesis using new_chain_dom(2) [OF ext(1)] by blast
      qed (use x ext(2) in auto)
    qed
    then show ?thesis using ns(5) new(4) by auto
  qed
  then show ?case using ns ext(2) by (intro exI [of _ "g # ns"]) auto
qed

section \<open>A new ring\<close>

definition new_circle :: "u32 \<Rightarrow> xhci_ring_type \<Rightarrow> u32 \<Rightarrow> seg_heap \<Rightarrow> seg_id list \<Rightarrow> bool" where
  "new_circle quirks ty z h ss \<longleftrightarrow> ss \<noteq> [] \<and> distinct ss
     \<and> (\<forall>i < length ss. \<exists>sg. h (ss ! i) = Some sg \<and> length (trbs sg) = 64
          \<and> (\<forall>j < 63. trbs sg ! j = TRB 0 0 0 z) \<and> next_seg sg = Some (ss ! (Suc i mod length ss))
          \<and> control (trbs sg ! 63) = link_control quirks ty z)"

lemma new_circle_close:
  assumes c: "new_chain quirks ty z h ss" and l: "xhci_link_segments k quirks (last ss) (hd ss) ty h s = Some (h', s')"
    and ty: "ty \<noteq> TYPE_EVENT"
  shows "new_circle quirks ty z h' ss" and "\<And>x. x \<notin> set ss \<Longrightarrow> h' x = h x" and "dom h' = dom h"
    and "next_addr s \<le> next_addr s'"
proof -
  let ?m = "length ss"
  have ss: "ss \<noteq> []" "distinct ss" using c by (simp_all add: new_chain_def)
  then have m: "last ss = ss ! (?m - 1)" "?m - 1 < ?m" "hd ss = ss ! 0" by (simp_all add: last_conv_nth hd_conv_nth)
  obtain sl where sl: "h (last ss) = Some sl" "length (trbs sl) = 64" "\<forall>j < 63. trbs sl ! j = TRB 0 0 0 z"
    "trbs sl ! 63 = TRB 0 0 0 z"
    using new_chainD [OF c m(2)] m(1) by auto
  obtain t where t: "h' = h(last ss \<mapsto> sl\<lparr>next_seg := Some (hd ss), trbs := (trbs sl)[63 := t]\<rparr>)"
    "control t = link_control quirks ty z"
    using link_segments_heap(1) [OF l ty sl(1,2)] sl(4) by auto
  show "h' x = h x" if "x \<notin> set ss" for x using that t(1) ss(1) by auto
  show "dom h' = dom h" using t(1) sl(1) by auto
  show "next_addr s \<le> next_addr s'" by (rule link_segments_heap(2) [OF l ty sl(1,2)])
  have "\<exists>sg. h' (ss ! i) = Some sg \<and> length (trbs sg) = 64 \<and> (\<forall>j < 63. trbs sg ! j = TRB 0 0 0 z)
      \<and> next_seg sg = Some (ss ! (Suc i mod ?m)) \<and> control (trbs sg ! 63) = link_control quirks ty z"
    if i: "i < ?m" for i
  proof (cases "Suc i = ?m")
    case True
    then have "i = ?m - 1" by simp
    then have "ss ! i = last ss" "Suc i mod ?m = 0" using m True by simp_all
    then show ?thesis using t sl m by auto
  next
    case False
    then have "ss ! i \<noteq> last ss" "Suc i mod ?m = Suc i" "Suc i < ?m"
      using ss m i by (auto simp: nth_eq_iff_index_eq)
    then show ?thesis using new_chainD [OF c i] t(1) by auto
  qed
  then show "new_circle quirks ty z h' ss" using ss by (auto simp: new_circle_def)
qed

lemma alloc_segments_circle:
  assumes a: "xhci_alloc_segments_for_ring k quirks n c ty h s = Some ((0, first, lst, h'), s')"
    and n: "0 < n" and ty: "ty \<noteq> TYPE_EVENT" and below: "\<forall>x \<in> dom h. x < next_addr s"
  shows "\<exists>ss. length ss = n \<and> hd ss = first \<and> last ss = lst \<and> new_circle quirks ty (unused_control c) h' ss
     \<and> set ss \<inter> dom h = {} \<and> (\<forall>x. x \<notin> set ss \<longrightarrow> h' x = h x) \<and> (\<forall>x \<in> dom h'. x < next_addr s')"
proof -
  obtain p h1 s1 where a1: "alloc_cached_segment k c ty h s = Some ((p, h1), s1)"
    using a by (auto simp: xhci_alloc_segments_for_ring_def elim!: bind_eq_SomeE)
  have p: "p = Some (first, True)"
    using a a1 by (cases p) (auto simp: xhci_alloc_segments_for_ring_def elim!: bind_eq_SomeE split: if_splits)
  obtain h2 s2 where l: "alloc_segments_loop k quirks n (n - 1) c ty first first h1 s1 = Some ((0, lst, h2), s2)"
    "xhci_link_segments k quirks lst first ty h2 s2 = Some (h', s')"
    using a a1 p by (auto simp: xhci_alloc_segments_for_ring_def elim!: bind_eq_SomeE split: if_splits)
  note new = alloc_cached_segment_new [OF a1 [unfolded p] below]
  obtain sg where sg: "h1 = h(first \<mapsto> sg)" "length (trbs sg) = 64"
    "\<forall>j < 64. trbs sg ! j = TRB 0 0 0 (unused_control c)" using new(1) by blast
  have c1: "new_chain quirks ty (unused_control c) h1 [first]" using sg by (simp add: new_chain_def)
  have b1: "\<forall>x \<in> dom h1. x < next_addr s1" using below sg(1) new(2,3) by (auto dest: less_trans)
  obtain ns where ns: "length ns = n - 1" "lst = last ([first] @ ns)"
    "new_chain quirks ty (unused_control c) h2 ([first] @ ns)" "\<forall>x. x \<notin> set ([first] @ ns) \<longrightarrow> h2 x = h1 x"
    "set ns \<inter> dom h1 = {}" "\<forall>x \<in> dom h2. x < next_addr s2"
    using alloc_segments_loop_chain [of k quirks n "n - 1" c ty first "[first]" h1 s1 lst h2 s2] l(1) c1 ty b1 by auto
  let ?ss = "[first] @ ns"
  have l2: "xhci_link_segments k quirks (last ?ss) (hd ?ss) ty h2 s2 = Some (h', s')" using l(2) ns(2) by simp
  note cl = new_circle_close [OF ns(3) l2 ty]
  have "set ?ss \<inter> dom h = {}" using ns(5) sg(1) new(4) by auto
  moreover have "\<forall>x. x \<notin> set ?ss \<longrightarrow> h' x = h x" using cl(2) ns(4) sg(1) by auto
  moreover have "\<forall>x \<in> dom h'. x < next_addr s'" using cl(3,4) ns(6) less_le_trans by metis
  ultimately show ?thesis using cl(1) ns(1,2) n by (intro exI [of _ ?ss]) auto
qed

text \<open>The control words of new TRBs.\<close>

lemma unused_control_cases: "unused_control c = 0 \<or> unused_control c = 1"
  by (simp add: unused_control_def TRB_CYCLE_def)

lemma unused_not_link: "\<not> TRB_TYPE_LINK (unused_control c)" "bit (unused_control c) 0 = (c = 0)"
  by (auto simp: unused_control_def TRB_TYPE_LINK_def trb_consts TRB_TYPE_def TRB_LINK_def push_bit_eq_mult)

lemma link_control_props:
  assumes "v = unused_control c"
  shows "TRB_TYPE_LINK (link_control quirks ty v)" and "link_control quirks ty v AND LINK_TOGGLE = 0"
    and "bit (link_control quirks ty v) 0 = (c = 0)"
    and "TRB_TYPE_LINK (link_control quirks ty v OR LINK_TOGGLE)"
    and "(link_control quirks ty v OR LINK_TOGGLE) AND LINK_TOGGLE \<noteq> 0"
    and "bit (link_control quirks ty v OR LINK_TOGGLE) 0 = (c = 0)"
  using assms
  by (auto simp: unused_control_def link_control_def TRB_TYPE_LINK_def trb_consts TRB_TYPE_def TRB_LINK_def
      push_bit_eq_mult Let_def)

lemma circle_chain: "new_circle quirks ty z h ss \<Longrightarrow> chain_ok h ss"
  unfolding new_circle_def chain_ok_def by blast

lemma circle_trb:
  assumes "new_circle quirks ty z h ss" and "p < 64 * length ss"
  shows "p mod 64 \<noteq> 63 \<Longrightarrow> trb_of h ss p = TRB 0 0 0 z"
    and "p mod 64 = 63 \<Longrightarrow> control (trb_of h ss p) = link_control quirks ty z"
proof -
  obtain sg where sg: "h (ss ! (p div 64)) = Some sg" "\<forall>j < 63. trbs sg ! j = TRB 0 0 0 z"
    "control (trbs sg ! 63) = link_control quirks ty z"
    using assms(1) pos_index [OF assms(2)] unfolding new_circle_def by blast
  have "p mod 64 < 64" by simp
  then show "p mod 64 \<noteq> 63 \<Longrightarrow> trb_of h ss p = TRB 0 0 0 z"
    and "p mod 64 = 63 \<Longrightarrow> control (trb_of h ss p) = link_control quirks ty z"
    using sg by (auto simp: trb_of_def)
qed

lemma ring_alloc_inv:
  assumes a: "xhci_ring_alloc k quirks n c ty s = Some (Some r, s')" and n: "0 < n" "64 * n < 2 ^ 32"
    and c: "c = 0 \<or> c = 1" and ty: "ty \<noteq> TYPE_EVENT"
  shows "ring_inv {} r" and "ring_contents r = []" and "ring_type r = ty" and "unat (num_trbs_free r) = 63 * n - 1"
    and "length (ring_order r) = n" and "enqueue r = 0" and "enq_pos r = 0" and "deq_pos r = 0"
proof -
  obtain first lst h s1 h1 where al: "xhci_alloc_segments_for_ring k quirks n c ty Map.empty (tick_up s)
      = Some ((0, first, lst, h), s1)" "set_toggle lst h = Some h1"
    and r: "r = xhci_initialize_ring_info c ((zero_ring n ty)\<lparr>first_seg := first, last_seg := lst, segs := h1\<rparr>)"
    using a n(1) ty by (auto simp: xhci_ring_alloc_def elim!: bind_eq_SomeE split: if_splits)
  obtain ss where ss: "length ss = n" "hd ss = first" "last ss = lst" "new_circle quirks ty (unused_control c) h ss"
    using alloc_segments_circle [OF al(1) n(1) ty] by auto
  let ?e = "64 * n - 1" and ?f = "\<lambda>t. set_control (control t OR LINK_TOGGLE) t"
  have e: "?e < 64 * length ss" "?e mod 64 = 63" "?e div 64 = n - 1"
  proof -
    obtain m where "n = Suc m" using n(1) by (cases n) auto
    moreover from this have "?e = 64 * m + 63" by simp
    ultimately show "?e < 64 * length ss" "?e mod 64 = 63" "?e div 64 = n - 1" using ss(1) by simp_all
  qed
  have "lst = seg_at ss ?e" using ss(1,3) n(1) e(3) by (auto simp: seg_at_def last_conv_nth)
  then have m: "map_trb ?f (seg_at ss ?e) (?e mod 64) h = Some h1" using al(2) e(2) by (simp add: set_toggle_def TRBS_PER_SEGMENT_def)
  obtain h2 where h2: "map_trb ?f (seg_at ss ?e) (?e mod 64) h = Some h2" "chain_ok h2 ss"
    "\<And>q. q < 64 * length ss \<Longrightarrow> trb_of h2 ss q = (if q = ?e then ?f (trb_of h ss ?e) else trb_of h ss q)"
    using map_trb_pos [OF circle_chain [OF ss(4)] e(1)] by blast
  then have h1: "chain_ok h1 ss"
    "\<And>q. q < 64 * length ss \<Longrightarrow> trb_of h1 ss q = (if q = ?e then ?f (trb_of h ss ?e) else trb_of h ss q)"
    using m by simp_all
  note lc = link_control_props [OF refl, of quirks ty c]
  have ctl: "control (trb_of h1 ss p) = (if p mod 64 \<noteq> 63 then unused_control c
      else if Suc p = 64 * n then link_control quirks ty (unused_control c) OR LINK_TOGGLE
      else link_control quirks ty (unused_control c))" if p: "p < 64 * length ss" for p
  proof (cases "p = ?e")
    case True
    then show ?thesis using h1(2) [OF p] e circle_trb(2) [OF ss(4) p] n(1) by simp
  next
    case False
    then have "Suc p \<noteq> 64 * n" by auto
    then show ?thesis using h1(2) [OF p] False circle_trb [OF ss(4) p] by auto
  qed
  have links: "links_ok h1 ss"
    using ctl lc(1,2,4,5) unused_not_link(1) ss(1) by (simp add: links_ok_def)
  have own: "owned h1 ss c {} 0"
    using ctl lc(3,6) unused_not_link(2) c by (auto simp: owned_def)
  have num: "unat (of_nat n :: u32) = n" using n(2) by (simp add: unat_of_nat)
  have ord: "ring_order r = ss"
    using ring_order_chain [of r ss] h1(1) ss(1,2) num by (simp add: r xhci_initialize_ring_info_def zero_ring_def)
  have first: "first = seg_at ss 0" using ss(1,2) n(1) by (auto simp: seg_at_def hd_conv_nth)
  have v: "view {} r ss 0 0"
    using h1(1) links own c ty n(1) ss(1) first
    by (simp add: view_def r xhci_initialize_ring_info_def zero_ring_def)
  then have pos: "enq_pos r = 0" "deq_pos r = 0" using view_pos [of "{}" r 0 0] ord by simp_all
  show "enq_pos r = 0" "deq_pos r = 0" "length (ring_order r) = n" using pos ord ss(1) by simp_all
  show free: "unat (num_trbs_free r) = 63 * n - 1"
    using n by (simp add: r xhci_initialize_ring_info_def zero_ring_def TRBS_PER_SEGMENT_def unat_word_ariths unat_of_nat
        unat_sub word_le_nat_alt)
  have "ring_slots r = []" using pos ord ss(1) n(1) by (simp add: ring_slots_def slots_def hw_def)
  then show "ring_inv {} r" "ring_contents r = []"
    using v pos ord ss(1) free num n(2)
    by (simp_all add: ring_inv_def ring_contents_def r xhci_initialize_ring_info_def zero_ring_def)
  show "ring_type r = ty" "enqueue r = 0" by (simp_all add: r xhci_initialize_ring_info_def zero_ring_def)
qed

section \<open>Properties\<close>

text \<open>
  C36. Every transfer or command ring that allocation returns is well formed and empty: its
  segments form one circle closed by link TRBs of which only the last toggles the cycle
  state, all TRBs but the links are free (one is kept back), and the controller, standing at
  the first TRB, owns none of them.
\<close>

theorem ring_alloc_correct:
  assumes "xhci_ring_alloc k quirks n c ty s = Some (Some r, t)" and "0 < n" and "64 * n < 2 ^ 32"
    and "c = 0 \<or> c = 1" and "ty \<noteq> TYPE_EVENT"
  shows "ring_inv {} r \<and> ring_contents r = [] \<and> hc_view r = Some [] \<and> length (ring_order r) = n
     \<and> unat (num_trbs_free r) = 63 * n - 1 \<and> ring_type r = ty"
  using ring_alloc_inv [OF assms] hc_view_contents [of r] by auto

lemma demo_command_ring: "\<exists>r t. xhci_ring_alloc quiet_env 0 1 1 TYPE_COMMAND ready_ehub = Some (Some r, t)"
  by (simp add: xhci_ring_alloc_def xhci_alloc_segments_for_ring_def alloc_cached_segment_def xhci_segment_alloc_def
      xhci_link_segments_def map_trb_def set_toggle_def TRBS_PER_SEGMENT_def quiet_env_def Let_def)

theorem ring_alloc_correct_witness:
  "\<exists>r t. xhci_ring_alloc quiet_env 0 1 1 TYPE_COMMAND ready_ehub = Some (Some r, t)
     \<and> hc_view r = Some [] \<and> unat (num_trbs_free r) = 62"
proof -
  obtain r t where r: "xhci_ring_alloc quiet_env 0 1 1 TYPE_COMMAND ready_ehub = Some (Some r, t)"
    using demo_command_ring by blast
  with ring_alloc_correct [OF r] show ?thesis by simp
qed

text \<open>
  C37. The command ring is a queue: for every sequence of commands and completions that a queue
  with the ring's capacity (less the reserved TRBs) allows, the driver queues each command
  without a fault or an error, and the controller, following its own rules, then fetches
  exactly the commands that were queued and not completed, in the order they were queued.
\<close>

theorem command_ring_fifo:
  assumes "command_inv qs" and "\<forall>x. Put x \<in> set ops \<longrightarrow> command_ok x"
    and "fifo_spec (command_capacity qs) ops (command_contents qs) = Some xs"
  shows "\<exists>q s. fifo_run (put_command k quirks cmd) retire_command ops qs = Some (q, s) \<and> command_inv (q, s)
     \<and> map_option (map clean) (hc_view (cmd_ring q)) = Some xs"
proof -
  obtain q s where "fifo_run (put_command k quirks cmd) retire_command ops qs = Some (q, s)"
    "command_inv (q, s)" "command_contents (q, s) = xs"
    using commands.run_refines [OF assms, of k quirks cmd] by auto
  then show ?thesis
    using hc_view_contents [of "cmd_ring q"] by (auto simp: command_inv_def command_contents_def)
qed

definition demo_commands :: "xhci_generic_trb fifo_op list" where
  "demo_commands = [Put (TRB 0 0 0 0x2400), Put (TRB 0x1000 0 0 0x01002C00), Get, Put (TRB 0 0 0 0x01003C00)]"

theorem command_ring_fifo_witness:
  "\<exists>q0 q s. fifo_run (put_command quiet_env 0 7) retire_command demo_commands (q0, ready_ehub) = Some (q, s)
     \<and> map_option (map clean) (hc_view (cmd_ring q)) = Some [TRB 0x1000 0 0 0x01002C00, TRB 0 0 0 0x01003C00]"
proof -
  obtain r t where r: "xhci_ring_alloc quiet_env 0 1 1 TYPE_COMMAND ready_ehub = Some (Some r, t)"
    using demo_command_ring by blast
  note inv = ring_alloc_inv [OF r]
  define q0 where "q0 = \<lparr>cmd_ring = r, cmd_list = [], cmd_ring_reserved_trbs = 1, current_cmd = None,
     cmd_timer_pending = False\<rparr>"
  have i: "command_inv (q0, ready_ehub)"
    using inv by (simp add: command_inv_def q0_def demo_defs)
  have ok: "\<forall>x. Put x \<in> set demo_commands \<longrightarrow> command_ok x"
    by (auto simp: demo_commands_def command_ok_def TRB_TYPE_LINK_def TRB_TYPE_BITMASK_def TRB_TYPE_def TRB_LINK_def
        push_bit_eq_mult)
  have sp: "fifo_spec (command_capacity (q0, ready_ehub)) demo_commands (command_contents (q0, ready_ehub))
      = Some [TRB 0x1000 0 0 0x01002C00, TRB 0 0 0 0x01003C00]"
    using inv by (simp add: demo_commands_def command_capacity_def command_contents_def q0_def)
  from command_ring_fifo [OF i ok sp, of quiet_env 0 7] show ?thesis by (elim exE conjE) (intro exI conjI)
qed

end
