(* ===== verification/Ehub_Cache_Props.thy ===== *)
theory Ehub_Cache_Props
  imports Ehub_Cache
begin

text \<open>
  Correctness of the cache management: the layout that creation builds, conservation of the
  blocks over any sequence of allocations and releases, allocation for the data of a URB as
  an all-or-nothing operation, and the return of work contexts by the completion routine.
\<close>

section \<open>Creation\<close>

text \<open>The block with index \<open>i\<close>.\<close>

definition fresh_block :: "nat \<Rightarrow> EHUB_CACHE_BLOCK" where
  "fresh_block i = \<lparr>cb_urb = None, IndexOfBlock = of_nat i,
     Address = EHUB_CACHE_START_ADDRESS + of_nat (EHUB_CACHE_BLOCK_SIZE * i)\<rparr>"

lemma cache_block_loop_ok:
  assumes "\<forall>n. kzalloc k n"
  shows "\<exists>m. cache_block_loop k n i s = Some (s\<lparr>tick := tick s + n, next_addr := next_addr s + n,
       cache_blocks := m, cache_list_free := cache_list_free s @ [next_addr s..<next_addr s + n],
       number_of_caches_free := number_of_caches_free s + int n\<rparr>)
     \<and> (\<forall>b. m b = (if next_addr s \<le> b \<and> b < next_addr s + n
          then Some (fresh_block (i + (b - next_addr s))) else cache_blocks s b))"
proof (induction n arbitrary: i s)
  case 0
  show ?case by (rule exI [of _ "cache_blocks s"]) auto
next
  case (Suc n)
  let ?b = "next_addr s"
  let ?s = "(tick_up s)\<lparr>next_addr := Suc ?b,
     cache_blocks := (cache_blocks s)(?b \<mapsto> fresh_block i),
     cache_list_free := list_add_tail ?b (cache_list_free s),
     number_of_caches_free := number_of_caches_free s + 1\<rparr>"
  have step: "cache_block_loop k (Suc n) i s = cache_block_loop k n (Suc i) ?s"
    using assms by (simp add: Let_def fresh_block_def)
  obtain m where m: "cache_block_loop k n (Suc i) ?s = Some (?s\<lparr>tick := tick ?s + n,
      next_addr := next_addr ?s + n, cache_blocks := m,
      cache_list_free := cache_list_free ?s @ [next_addr ?s..<next_addr ?s + n],
      number_of_caches_free := number_of_caches_free ?s + int n\<rparr>)"
    "\<forall>b. m b = (if next_addr ?s \<le> b \<and> b < next_addr ?s + n
          then Some (fresh_block (Suc i + (b - next_addr ?s))) else cache_blocks ?s b)"
    using Suc.IH [of "Suc i" ?s] by blast
  have "m b = (if ?b \<le> b \<and> b < ?b + Suc n then Some (fresh_block (i + (b - ?b))) else cache_blocks s b)" for b
  proof -
    consider "b = ?b" | "b < ?b" | "Suc ?b \<le> b" by linarith
    then show ?thesis
    proof cases
      case 3
      then have "Suc i + (b - Suc ?b) = i + (b - ?b)" by simp
      then show ?thesis using m(2) 3 by (simp del: add_Suc)
    qed (use m(2) in \<open>simp_all add: tick_up_def\<close>)
  qed
  moreover have "[?b..<?b + Suc n] = ?b # [Suc ?b..<Suc ?b + n]" by (simp add: upt_conv_Cons)
  then have "cache_block_loop k (Suc n) i s = Some (s\<lparr>tick := tick s + Suc n, next_addr := ?b + Suc n,
       cache_blocks := m, cache_list_free := cache_list_free s @ [?b..<?b + Suc n],
       number_of_caches_free := number_of_caches_free s + int (Suc n)\<rparr>)"
    unfolding step m(1) by (simp add: tick_up_def list_add_tail_def add.assoc del: upt_Suc)
  ultimately show ?case by blast
qed

text \<open>Blocks with the layout of creation are pairwise disjoint and inside the cache window.\<close>

lemma fresh_block_layout:
  assumes "i < EHUB_CACHE_NUMBER_OF_BLOCKS"
  shows "unat (IndexOfBlock (fresh_block i)) = i"
    and "unat (Address (fresh_block i)) = 0x1000 + 0x400 * i"
    and "Address (fresh_block i) = EHUB_CACHE_START_ADDRESS
       + of_nat EHUB_CACHE_BLOCK_SIZE * IndexOfBlock (fresh_block i)"
proof -
  have i: "i < 128" using assms by (simp add: EHUB_CACHE_NUMBER_OF_BLOCKS_def EHUB_CACHE_SIZE_def
      EHUB_CACHE_BLOCK_SIZE_def)
  then show "unat (IndexOfBlock (fresh_block i)) = i"
    by (simp add: fresh_block_def unat_of_nat)
  have "unat (of_nat (0x1000 + 0x400 * i) :: u32) = 0x1000 + 0x400 * i"
    using i by (simp only: unat_of_nat) simp
  then show "unat (Address (fresh_block i)) = 0x1000 + 0x400 * i"
    by (simp add: fresh_block_def EHUB_CACHE_START_ADDRESS_def EHUB_CACHE_BLOCK_SIZE_def)
  show "Address (fresh_block i) = EHUB_CACHE_START_ADDRESS
       + of_nat EHUB_CACHE_BLOCK_SIZE * IndexOfBlock (fresh_block i)"
    by (simp add: fresh_block_def)
qed

lemma cache_block_loop_inv:
  assumes "\<forall>n. kzalloc k n" and "cache_list_free s = []" and "cache_list_used s = []"
    and "number_of_caches_free s = 0" and "number_of_caches_used s = 0"
  shows "\<exists>t. cache_block_loop k EHUB_CACHE_NUMBER_OF_BLOCKS 0 s = Some t \<and> blocks_inv t
     \<and> length (cache_list_free t) = EHUB_CACHE_NUMBER_OF_BLOCKS \<and> cache_list_used t = []
     \<and> (\<forall>i < EHUB_CACHE_NUMBER_OF_BLOCKS.
          cache_blocks t (cache_list_free t ! i) = Some (fresh_block i))
     \<and> (work_pool s \<longrightarrow> work_pool t) \<and> cache_list_lock t = cache_list_lock s \<and> usb_log t = usb_log s"
proof -
  let ?n = EHUB_CACHE_NUMBER_OF_BLOCKS and ?b = "next_addr s"
  obtain m where m: "cache_block_loop k ?n 0 s = Some (s\<lparr>tick := tick s + ?n,
      next_addr := ?b + ?n, cache_blocks := m, cache_list_free := cache_list_free s @ [?b..<?b + ?n],
      number_of_caches_free := number_of_caches_free s + int ?n\<rparr>)" (is "_ = Some ?t")
    "\<forall>b. m b = (if ?b \<le> b \<and> b < ?b + ?n then Some (fresh_block (0 + (b - ?b))) else cache_blocks s b)"
    using cache_block_loop_ok [OF assms(1), of ?n 0 s] by blast
  have nodes: "blocks.nodes ?t = {?b..<?b + ?n}" using assms by (simp add: blocks.nodes_def)
  have blk: "m b = Some (fresh_block (b - ?b))" if "b \<in> {?b..<?b + ?n}" for b using m(2) that by simp
  have "inj_on (block_index ?t) {?b..<?b + ?n}"
  proof (rule inj_onI)
    fix x y assume xy: "x \<in> {?b..<?b + ?n}" "y \<in> {?b..<?b + ?n}" "block_index ?t x = block_index ?t y"
    then have "unat (IndexOfBlock (fresh_block (x - ?b))) = unat (IndexOfBlock (fresh_block (y - ?b)))"
      by (simp add: block_index_def blk)
    moreover have "x - ?b < ?n" "y - ?b < ?n" using xy(1,2) by auto
    ultimately have "x - ?b = y - ?b" by (simp only: fresh_block_layout(1))
    then show "x = y" using xy(1,2) by (metis atLeastLessThan_iff le_add_diff_inverse2)
  qed
  then have "block_layout ?t"
    using fresh_block_layout(1,3) [of "b - ?b" for b] blk by (auto simp: block_layout_def nodes)
  moreover have "blocks.counted ?t" using assms by (simp add: blocks.counted_def pool_ok_def)
  moreover have "work_pool s \<Longrightarrow> work_pool ?t" by (rule work_pool_cong [of s]) simp_all
  ultimately show ?thesis using m(1) blk assms by (auto simp: blocks_inv_def)
qed

section \<open>Blocks for the data of a URB\<close>

text \<open>What an operation on the blocks leaves alone.\<close>

definition same_rest :: "ehub \<Rightarrow> ehub \<Rightarrow> bool" where
  "same_rest s t \<longleftrightarrow> blocks.nodes t = blocks.nodes s \<and> work_pool t = work_pool s
     \<and> usb_log t = usb_log s \<and> cache_list_lock t = cache_list_lock s
     \<and> UsbPipeCacheOut t = UsbPipeCacheOut s
     \<and> (\<forall>b. map_option Address (cache_blocks t b) = map_option Address (cache_blocks s b))"

lemma same_rest_refl [simp]: "same_rest s s"
  by (simp add: same_rest_def)

lemma same_rest_trans: "same_rest s t \<Longrightarrow> same_rest t u \<Longrightarrow> same_rest s u"
  by (simp add: same_rest_def)

lemma take_blocks_ok:
  "\<lbrakk>blocks_inv s; n \<le> length (cache_list_free s); i + n \<le> length (EhubDataCacheBlock priv)\<rbrakk> \<Longrightarrow>
   \<exists>priv' t. take_blocks_loop u n i priv s = Some ((True, priv'), t) \<and> blocks_inv t \<and> same_rest s t
     \<and> cache_list_free t = drop n (cache_list_free s)
     \<and> cache_list_used t = cache_list_used s @ take n (cache_list_free s)
     \<and> EhubDataCacheBlock priv' = take i (EhubDataCacheBlock priv)
         @ map Some (take n (cache_list_free s)) @ drop (i + n) (EhubDataCacheBlock priv)
     \<and> cache_block_cnt priv' = cache_block_cnt priv + n"
proof (induction n arbitrary: i priv s)
  case (Suc n)
  let ?E = "EhubDataCacheBlock priv"
  obtain b bs where f: "cache_list_free s = b # bs" using Suc.prems(2) by (cases "cache_list_free s") auto
  note u = block_to_used_ok [OF Suc.prems(1) f]
  have "b \<in> blocks.nodes (block_to_used b s)" using u(2) f by (simp add: blocks.nodes_def)
  then obtain m where m: "set_block_urb b (Some u) (block_to_used b s) = Some (block_to_used b s\<lparr>cache_blocks := m\<rparr>)"
    "blocks_inv (block_to_used b s\<lparr>cache_blocks := m\<rparr>)" (is "blocks_inv ?s1")
    "\<forall>b'. map_option Address (m b') = map_option Address (cache_blocks s b')"
    using set_block_urb_ok [OF u(1), of b "Some u"] by auto
  define p1 where "p1 = priv\<lparr>EhubDataCacheBlock := ?E[i := Some b], cache_block_cnt := Suc (cache_block_cnt priv)\<rparr>"
  have step: "take_blocks_loop u (Suc n) i priv s = take_blocks_loop u n (Suc i) p1 ?s1"
    using f m(1) Suc.prems(3) by (simp add: p1_def)
  have rest: "same_rest s ?s1" "cache_list_free ?s1 = bs" "cache_list_used ?s1 = cache_list_used s @ [b]"
    using u m(3) by (simp_all add: same_rest_def blocks.nodes_def)
  obtain priv' t where t: "take_blocks_loop u n (Suc i) p1 ?s1 = Some ((True, priv'), t)" "blocks_inv t"
    "same_rest ?s1 t" "cache_list_free t = drop n bs" "cache_list_used t = (cache_list_used s @ [b]) @ take n bs"
    "EhubDataCacheBlock priv' = take (Suc i) (?E[i := Some b]) @ map Some (take n bs) @ drop (Suc i + n) (?E[i := Some b])"
    "cache_block_cnt priv' = Suc (cache_block_cnt priv) + n"
    using Suc.IH [OF m(2), of "Suc i" p1] Suc.prems(2,3) f rest by (auto simp: p1_def)
  have "EhubDataCacheBlock priv' = take i ?E @ map Some (take (Suc n) (cache_list_free s)) @ drop (i + Suc n) ?E"
    using t(6) Suc.prems(3) f by (simp add: take_Suc_conv_app_nth)
  then show ?case using step t rest f by (auto intro: same_rest_trans)
qed simp

lemma free_by_urb_loop_ok:
  "\<lbrakk>blocks_inv s; take n (drop i (EhubDataCacheBlock priv)) = map Some bs; length bs = n; distinct bs;
    set bs \<subseteq> set (cache_list_used s)\<rbrakk> \<Longrightarrow>
   \<exists>priv' t. free_by_urb_loop n i priv s = Some (priv', t) \<and> blocks_inv t \<and> same_rest s t
     \<and> cache_list_free t = cache_list_free s @ bs
     \<and> set (cache_list_used t) = set (cache_list_used s) - set bs
     \<and> EhubDataCacheBlock priv' = take i (EhubDataCacheBlock priv) @ replicate n None
         @ drop (i + n) (EhubDataCacheBlock priv)"
proof (induction n arbitrary: i priv s bs)
  case (Suc n)
  let ?E = "EhubDataCacheBlock priv"
  have i: "i < length ?E" using Suc.prems(2,3) by (cases "i < length ?E") auto
  then have d: "take (Suc n) (drop i ?E) = ?E ! i # take n (drop (Suc i) ?E)"
    by (simp add: Cons_nth_drop_Suc [symmetric])
  then obtain b bs' where b: "bs = b # bs'" "?E ! i = Some b" "take n (drop (Suc i) ?E) = map Some bs'"
    using Suc.prems(2,3) by (cases bs) auto
  have "b \<in> set (cache_list_used s)" using Suc.prems(5) b by simp
  note fr = block_to_free_ok [OF Suc.prems(1) this]
  let ?p = "priv\<lparr>EhubDataCacheBlock := ?E[i := None]\<rparr>"
  have step: "free_by_urb_loop (Suc n) i priv s = free_by_urb_loop n (Suc i) ?p (block_to_free b s)"
    using i b(2) by simp
  obtain priv' t where t: "free_by_urb_loop n (Suc i) ?p (block_to_free b s) = Some (priv', t)" "blocks_inv t"
    "same_rest (block_to_free b s) t" "cache_list_free t = (cache_list_free s @ [b]) @ bs'"
    "set (cache_list_used t) = (set (cache_list_used s) - {b}) - set bs'"
    "EhubDataCacheBlock priv' = take (Suc i) (?E[i := None]) @ replicate n None @ drop (Suc i + n) (?E[i := None])"
    using Suc.IH [OF fr(1), of "Suc i" ?p bs'] Suc.prems(3,4,5) b fr by (auto simp: subset_iff)
  have "same_rest s (block_to_free b s)" using fr(2) by (simp add: same_rest_def)
  then show ?case using step t i b(1)
    by (auto simp: take_Suc_conv_app_nth intro: same_rest_trans)
qed simp

lemma free_by_urb_ok:
  assumes "blocks_inv s" and "\<not> cache_list_lock s"
    and "take (cache_block_cnt priv) (EhubDataCacheBlock priv) = map Some bs"
    and "length bs = cache_block_cnt priv" and "distinct bs" and "set bs \<subseteq> set (cache_list_used s)"
  shows "\<exists>priv' t. ehub_xhci_cache_block_free_by_urb priv s = Some (priv', t) \<and> blocks_inv t \<and> same_rest s t
     \<and> cache_block_cnt priv' = 0 \<and> cache_list_free t = cache_list_free s @ bs
     \<and> set (cache_list_used t) = set (cache_list_used s) - set bs"
proof -
  have "blocks_inv (s\<lparr>cache_list_lock := True\<rparr>)" using assms(1) by simp
  then obtain priv' t where t: "free_by_urb_loop (cache_block_cnt priv) 0 priv (s\<lparr>cache_list_lock := True\<rparr>)
      = Some (priv', t)" "blocks_inv t" "same_rest (s\<lparr>cache_list_lock := True\<rparr>) t"
    "cache_list_free t = cache_list_free s @ bs" "set (cache_list_used t) = set (cache_list_used s) - set bs"
    using free_by_urb_loop_ok [of "s\<lparr>cache_list_lock := True\<rparr>" "cache_block_cnt priv" 0 priv bs] assms(3-6)
    by auto
  then show ?thesis using assms(2)
    by (auto simp: ehub_xhci_cache_block_free_by_urb_def spin_defs same_rest_def)
qed

lemma same_blocks_rest:
  assumes "same_blocks s t" and "work_pool s" and "work_pool t" and "usb_log t = usb_log s"
    and "cache_list_lock t = cache_list_lock s"
  shows "same_rest s t"
  using assms same_blocks_nodes [OF assms(1)] by (simp add: same_rest_def same_blocks_def)

text \<open>The data of block \<open>j\<close> of a buffer.\<close>

definition chunk :: "nat \<Rightarrow> u8 list \<Rightarrow> u8 list" where
  "chunk j buf = take EHUB_CACHE_BLOCK_SIZE (drop (EHUB_CACHE_BLOCK_SIZE * j) buf)"

text \<open>A transfer that puts \<open>data\<close> into block \<open>b\<close>.\<close>

definition fills_block :: "ehub \<Rightarrow> addr \<Rightarrow> u8 list \<Rightarrow> u8 list \<Rightarrow> bool" where
  "fills_block s b data bs \<longleftrightarrow> (\<exists>address d. map_option Address (cache_blocks s b) = Some address
     \<and> decode_cache_transfer bs = Some (address, d) \<and> take (length data) d = data)"

lemma queue_chunk_ok:
  assumes "no_late_failure k" and "work_pool s" and "\<not> cache_list_lock s" and "cache_blocks s b = Some blk"
    and "EHUB_CACHE_BLOCK_SIZE * j \<le> length buf"
  shows "\<exists>st t. ehub_queue_cache_write k (Address blk) (Some (drop (EHUB_CACHE_BLOCK_SIZE * j) buf))
       (of_nat (min (length buf - EHUB_CACHE_BLOCK_SIZE * j) EHUB_CACHE_BLOCK_SIZE)) 0 False 0 0 0 s = Some (st, t)
     \<and> work_pool t \<and> same_blocks s t \<and> \<not> cache_list_lock t
     \<and> (if st < 0 then usb_log t = usb_log s
        else (\<exists>bs. usb_log t = usb_log s @ [(UsbPipeCacheOut s, bs)] \<and> fills_block s b (chunk j buf) bs))"
proof -
  let ?n = "min (length buf - EHUB_CACHE_BLOCK_SIZE * j) EHUB_CACHE_BLOCK_SIZE"
  have le: "?n \<le> 1024" by (simp add: EHUB_CACHE_BLOCK_SIZE_def)
  then have n: "unat (of_nat ?n :: u32) = ?n" by (subst unat_of_nat) (simp del: min.bounded_iff)
  have c: "length (chunk j buf) = ?n" "take ?n (drop (EHUB_CACHE_BLOCK_SIZE * j) buf) = chunk j buf"
    by (auto simp: chunk_def min_def)
  have "unat (of_nat ?n :: u32) \<le> length (drop (EHUB_CACHE_BLOCK_SIZE * j) buf)"
    "unat (of_nat ?n :: u32) \<le> MESSAGE_DATA_BUFFER_SIZE_CACHE"
    using n le by simp_all
  from queue_cache_write_ok [OF assms(1-3) this, of "Address blk" 0 False 0 0 0, unfolded n c(2)]
  obtain st t where "ehub_queue_cache_write k (Address blk) (Some (drop (EHUB_CACHE_BLOCK_SIZE * j) buf))
       (of_nat ?n) 0 False 0 0 0 s = Some (st, t)" "work_pool t" "same_blocks s t" "\<not> cache_list_lock t"
    "if st < 0 then usb_log t = usb_log s
        else (\<exists>bs d. usb_log t = usb_log s @ [(UsbPipeCacheOut s, bs)]
          \<and> decode_cache_transfer bs = Some (Address blk, d) \<and> length d = roundup ?n 8
          \<and> take ?n d = chunk j buf)" by blast
  then show ?thesis using assms(4) c(1) by (cases "st < 0") (auto simp: fills_block_def)
qed

lemma write_blocks_ok:
  assumes "no_late_failure k"
  shows "\<lbrakk>work_pool s; blocks_inv s; \<not> cache_list_lock s; cache_block_cnt priv = i + n;
    take (i + n) (EhubDataCacheBlock priv) = map Some bs; length bs = i + n; distinct bs;
    set bs \<subseteq> set (cache_list_used s); \<forall>j < i + n. EHUB_CACHE_BLOCK_SIZE * j \<le> length buf; 0 \<le> st0\<rbrakk> \<Longrightarrow>
   \<exists>st priv' t. write_blocks_loop k buf n i st0 priv s = Some ((st, priv'), t)
     \<and> work_pool t \<and> blocks_inv t \<and> \<not> cache_list_lock t \<and> blocks.nodes t = blocks.nodes s
     \<and> (if st < 0 then cache_block_cnt priv' = 0 \<and> cache_list_free t = cache_list_free s @ bs
          \<and> set (cache_list_used t) = set (cache_list_used s) - set bs
        else priv' = priv \<and> same_blocks s t
          \<and> (\<exists>bss. length bss = n \<and> usb_log t = usb_log s @ map (Pair (UsbPipeCacheOut s)) bss
              \<and> (\<forall>j < n. fills_block t (bs ! (i + j)) (chunk (i + j) buf) (bss ! j))))"
proof (induction n arbitrary: i st0 s)
  case 0
  then show ?case by auto
next
  case (Suc n)
  let ?E = "EhubDataCacheBlock priv"
  have i: "i < length bs" using Suc.prems(6) by simp
  have E: "length bs \<le> length ?E" "\<And>j. j < length bs \<Longrightarrow> ?E ! j = Some (bs ! j)"
  proof -
    have "length (take (i + Suc n) ?E) = length bs" using Suc.prems(5) by simp
    then show "length bs \<le> length ?E" by simp
    show "?E ! j = Some (bs ! j)" if "j < length bs" for j
      using arg_cong [OF Suc.prems(5), of "\<lambda>xs. xs ! j"] that Suc.prems(6) by simp
  qed
  have "bs ! i \<in> blocks.nodes s" using Suc.prems(8) i nth_mem by (fastforce simp: blocks.nodes_def)
  then obtain blk where blk: "cache_blocks s (bs ! i) = Some blk"
    using Suc.prems(2) by (auto simp: blocks_inv_def block_layout_def)
  have "EHUB_CACHE_BLOCK_SIZE * i \<le> length buf" using Suc.prems(9) by simp
  from queue_chunk_ok [OF assms Suc.prems(1,3) blk this]
  obtain st s1 where q: "ehub_queue_cache_write k (Address blk) (Some (drop (EHUB_CACHE_BLOCK_SIZE * i) buf))
       (of_nat (min (length buf - EHUB_CACHE_BLOCK_SIZE * i) EHUB_CACHE_BLOCK_SIZE)) 0 False 0 0 0 s = Some (st, s1)"
    "work_pool s1" "same_blocks s s1" "\<not> cache_list_lock s1"
    "if st < 0 then usb_log s1 = usb_log s
     else (\<exists>t. usb_log s1 = usb_log s @ [(UsbPipeCacheOut s, t)] \<and> fills_block s (bs ! i) (chunk i buf) t)"
    by blast
  have inv1: "blocks_inv s1" "set bs \<subseteq> set (cache_list_used s1)"
    using same_blocks_blocks_inv [OF q(3)] Suc.prems(2,8) q(3) by (auto simp: same_blocks_def)
  have unf: "write_blocks_loop k buf (Suc n) i st0 priv s = (if st < 0 then do {
       (priv', s2) \<leftarrow> ehub_xhci_cache_block_free_by_urb priv s1; Some ((st, priv'), s2)
     } else write_blocks_loop k buf n (Suc i) st priv s1)"
    using i E blk q(1) by (simp add: Let_def)
  show ?case
  proof (cases "st < 0")
    case True
    from free_by_urb_ok [OF inv1(1) q(4), of priv bs] Suc.prems(4-7) inv1(2)
    obtain priv' t where "ehub_xhci_cache_block_free_by_urb priv s1 = Some (priv', t)" "blocks_inv t"
      "same_rest s1 t" "cache_block_cnt priv' = 0" "cache_list_free t = cache_list_free s1 @ bs"
      "set (cache_list_used t) = set (cache_list_used s1) - set bs" by auto
    then show ?thesis
      using True unf q(2,3,4) same_blocks_nodes [OF q(3)]
      by (auto simp: same_rest_def same_blocks_def)
  next
    case False
    then obtain t where t: "usb_log s1 = usb_log s @ [(UsbPipeCacheOut s, t)]" "fills_block s (bs ! i) (chunk i buf) t"
      using q(5) by auto
    have shifted: "cache_block_cnt priv = Suc i + n" "take (Suc i + n) ?E = map Some bs"
      "length bs = Suc i + n" "\<forall>j < Suc i + n. EHUB_CACHE_BLOCK_SIZE * j \<le> length buf"
      using Suc.prems(4-6,9) by simp_all
    have nonneg: "0 \<le> st" using False by simp
    obtain st' priv' u where u: "write_blocks_loop k buf n (Suc i) st priv s1 = Some ((st', priv'), u)"
      "work_pool u" "blocks_inv u" "\<not> cache_list_lock u" "blocks.nodes u = blocks.nodes s1"
      and res: "if st' < 0 then cache_block_cnt priv' = 0 \<and> cache_list_free u = cache_list_free s1 @ bs
          \<and> set (cache_list_used u) = set (cache_list_used s1) - set bs
        else priv' = priv \<and> same_blocks s1 u
          \<and> (\<exists>bss. length bss = n \<and> usb_log u = usb_log s1 @ map (Pair (UsbPipeCacheOut s1)) bss
              \<and> (\<forall>j < n. fills_block u (bs ! (Suc i + j)) (chunk (Suc i + j) buf) (bss ! j)))"
      using Suc.IH [OF q(2) inv1(1) q(4) shifted(1-3) Suc.prems(7) inv1(2) shifted(4) nonneg] by blast
    have final: "write_blocks_loop k buf (Suc n) i st0 priv s = Some ((st', priv'), u)"
      using unf False u(1) by simp
    show ?thesis
    proof (cases "st' < 0")
      case True
      then show ?thesis using final u res q(3) same_blocks_nodes [OF q(3)] by (auto simp: same_blocks_def)
    next
      case nneg: False
      then obtain bss where b: "length bss = n" "usb_log u = usb_log s1 @ map (Pair (UsbPipeCacheOut s1)) bss"
        "\<forall>j < n. fills_block u (bs ! (Suc i + j)) (chunk (Suc i + j) buf) (bss ! j)" "priv' = priv"
        "same_blocks s1 u"
        using res by auto
      have su: "same_blocks s u" by (rule same_blocks_trans [OF q(3) b(5)])
      have "fills_block u (bs ! (i + j)) (chunk (i + j) buf) ((t # bss) ! j)" if "j < Suc n" for j
        using that b(3) t(2) su by (cases j) (auto simp: fills_block_def same_blocks_def)
      moreover have "usb_log u = usb_log s @ map (Pair (UsbPipeCacheOut s)) (t # bss)"
        using b(2) t(1) q(3) by (simp add: same_blocks_def)
      ultimately show ?thesis
        using final u nneg b(1,4) su same_blocks_nodes [OF q(3)]
        by (auto intro!: exI [of _ "t # bss"])
    qed
  qed
qed

lemma DIV_ROUND_UP_chunks:
  assumes "j < DIV_ROUND_UP n EHUB_CACHE_BLOCK_SIZE"
  shows "EHUB_CACHE_BLOCK_SIZE * j \<le> n"
proof -
  have "j < (n + 1023) div 1024" using assms by (simp add: DIV_ROUND_UP_def EHUB_CACHE_BLOCK_SIZE_def)
  moreover have "1024 * ((n + 1023) div 1024) \<le> n + 1023" by (rule times_div_less_eq_dividend)
  ultimately have "1024 * j \<le> n" by linarith
  then show ?thesis by (simp add: EHUB_CACHE_BLOCK_SIZE_def)
qed

text \<open>A URB that owns no block yet.\<close>

definition new_priv :: urb_priv where
  "new_priv = \<lparr>cache_block_cnt = 0, EhubDataCacheBlock = replicate 6 None\<rparr>"

section \<open>Allocation for a URB as a whole\<close>

lemma concat_chunks: "concat (map (\<lambda>j. chunk j buf) [0..<n]) = take (EHUB_CACHE_BLOCK_SIZE * n) buf"
proof (induction n)
  case (Suc n)
  have "take (EHUB_CACHE_BLOCK_SIZE * Suc n) buf
      = take (EHUB_CACHE_BLOCK_SIZE * n) buf @ take EHUB_CACHE_BLOCK_SIZE (drop (EHUB_CACHE_BLOCK_SIZE * n) buf)"
    using take_add [of "EHUB_CACHE_BLOCK_SIZE * n" EHUB_CACHE_BLOCK_SIZE buf] by (simp add: add.commute)
  with Suc show ?case by (simp add: chunk_def)
qed simp

lemma chunks_cover: "concat (map (\<lambda>j. chunk j buf) [0..<DIV_ROUND_UP (length buf) EHUB_CACHE_BLOCK_SIZE]) = buf"
proof -
  let ?n = "length buf" and ?q = "(length buf + 1023) div 1024"
  have "?n + 1023 < 1024 * ?q + 1024" using mod_less_divisor [of 1024 "?n + 1023"]
    by (metis add.commute add_less_cancel_left mult_div_mod_eq zero_less_numeral)
  then have "?n \<le> 1024 * ?q" by linarith
  then show ?thesis by (simp add: concat_chunks DIV_ROUND_UP_def EHUB_CACHE_BLOCK_SIZE_def)
qed

lemma allocate_urb_ok:
  assumes k: "no_late_failure k" and pool: "work_pool s" and inv: "cache_inv s"
    and num: "num = DIV_ROUND_UP (length (transfer_buffer u)) EHUB_CACHE_BLOCK_SIZE" "num \<le> 6"
    and enough: "int num \<le> number_of_caches_free s"
  shows "\<exists>st priv t bs. ehub_xhci_cache_block_allocate_urb k u new_priv s = Some ((st, priv), t)
     \<and> work_pool t \<and> cache_inv t \<and> blocks.nodes t = blocks.nodes s
     \<and> bs = take num (cache_list_free s) \<and> length bs = num
     \<and> (if st < 0 then cache_block_cnt priv = 0 \<and> set (cache_list_free t) = set (cache_list_free s)
          \<and> set (cache_list_used t) = set (cache_list_used s)
        else cache_block_cnt priv = num \<and> take num (EhubDataCacheBlock priv) = map Some bs
          \<and> cache_list_free t = drop num (cache_list_free s) \<and> cache_list_used t = cache_list_used s @ bs
          \<and> (\<exists>bss. length bss = num \<and> usb_log t = usb_log s @ map (Pair (UsbPipeCacheOut s)) bss
              \<and> (\<forall>j < num. fills_block t (bs ! j) (chunk j (transfer_buffer u)) (bss ! j))))"
proof -
  let ?s1 = "s\<lparr>cache_list_lock := True\<rparr>"
  define bs where "bs = take num (cache_list_free s)"
  have binv: "blocks_inv ?s1" and unlocked: "\<not> cache_list_lock s" using inv by (simp_all add: cache_inv_iff)
  have len: "num \<le> length (cache_list_free s)" and dist: "distinct (cache_list_free s)"
    and disj: "set (cache_list_free s) \<inter> set (cache_list_used s) = {}"
    using enough inv by (auto simp: cache_inv_def blocks.counted_def pool_ok_def)
  obtain p1 s2 where t: "take_blocks_loop (client_id u) num 0 new_priv ?s1 = Some ((True, p1), s2)"
    "blocks_inv s2" "same_rest ?s1 s2" "cache_list_free s2 = drop num (cache_list_free s)"
    "cache_list_used s2 = cache_list_used s @ bs"
    "EhubDataCacheBlock p1 = map Some bs @ drop num (replicate 6 None)" "cache_block_cnt p1 = num"
    using take_blocks_ok [OF binv, of num 0 new_priv "client_id u"] len num(2)
    by (auto simp: new_priv_def bs_def)
  let ?s3 = "unlock_cache_list s2"
  have s3: "work_pool ?s3" "blocks_inv ?s3" "\<not> cache_list_lock ?s3" "blocks.nodes ?s3 = blocks.nodes s"
    "cache_list_free ?s3 = drop num (cache_list_free s)" "cache_list_used ?s3 = cache_list_used s @ bs"
    "usb_log ?s3 = usb_log s" "UsbPipeCacheOut ?s3 = UsbPipeCacheOut s"
    using t pool by (simp_all add: unlock_cache_list_def same_rest_def)
  have bs: "length bs = num" "distinct bs" "take (0 + num) (EhubDataCacheBlock p1) = map Some bs"
    using len dist t(6) by (simp_all add: bs_def)
  have used: "set bs \<subseteq> set (cache_list_used ?s3)" using s3(6) by simp
  have cnt: "cache_block_cnt p1 = 0 + num" and lbs: "length bs = 0 + num" using t(7) bs(1) by simp_all
  have chunks: "\<forall>j < 0 + num. EHUB_CACHE_BLOCK_SIZE * j \<le> length (transfer_buffer u)"
    using DIV_ROUND_UP_chunks num(1) by simp
  obtain st priv v where w: "write_blocks_loop k (transfer_buffer u) num 0 0 p1 ?s3 = Some ((st, priv), v)"
    "work_pool v" "blocks_inv v" "\<not> cache_list_lock v" "blocks.nodes v = blocks.nodes ?s3"
    and res: "if st < 0 then cache_block_cnt priv = 0 \<and> cache_list_free v = cache_list_free ?s3 @ bs
          \<and> set (cache_list_used v) = set (cache_list_used ?s3) - set bs
        else priv = p1 \<and> same_blocks ?s3 v
          \<and> (\<exists>bss. length bss = num \<and> usb_log v = usb_log ?s3 @ map (Pair (UsbPipeCacheOut ?s3)) bss
              \<and> (\<forall>j < num. fills_block v (bs ! (0 + j)) (chunk (0 + j) (transfer_buffer u)) (bss ! j)))"
    using write_blocks_ok [OF k s3(1-3) cnt bs(3) lbs bs(2) used chunks order_refl] by blast
  have "ehub_xhci_cache_block_allocate_urb k u new_priv s = Some ((st, priv), v)"
    using unlocked enough t(1) w(1) num(1)
    by (simp add: ehub_xhci_cache_block_allocate_urb_def lock_cache_list_def Let_def)
  moreover have "set (cache_list_free s) = set bs \<union> set (drop num (cache_list_free s))"
    unfolding bs_def by (metis append_take_drop_id set_append)
  moreover have "set bs \<inter> set (cache_list_used s) = {}"
    using disj set_take_subset [of num "cache_list_free s"] by (auto simp: bs_def)
  ultimately show ?thesis
    using w s3 res bs t(7) by (cases "st < 0") (auto simp: cache_inv_iff same_blocks_def bs_def [symmetric])
qed

section \<open>Accepted cache writes\<close>

definition accepting :: "env \<Rightarrow> bool" where
  "accepting k \<longleftrightarrow> no_late_failure k \<and> (\<forall>n. kzalloc k n \<and> 0 \<le> usb_submit_urb k n)"

lemma accepting_create: "accepting k \<Longrightarrow> create_succeeds k n"
  by (simp add: accepting_def no_late_failure_def create_succeeds_def)

lemma expand_accepted:
  assumes "accepting k"
  shows "interface_bound s \<Longrightarrow> cache_work_expand_loop k n i s = Some (m, t) \<Longrightarrow> m = i + n \<and> same_health s t"
proof (induction n arbitrary: i s)
  case (Suc n)
  let ?s1 = "(tick_up s)\<lparr>next_addr := Suc (next_addr s)\<rparr>"
  have b: "interface_bound ?s1" using Suc.prems(1) by (simp add: interface_bound_def tick_up_def)
  have k: "kzalloc k (tick s)" using assms by (simp add: accepting_def)
  obtain s2 where s2: "cache_work_expand_loop k n (Suc i) s2 = Some (m, t)" "same_health s s2" "interface_bound s2"
    using Suc.prems(2) k URB_Create_made [OF b accepting_create [OF assms]] Suc.prems(1)
    by (auto simp: Let_def same_health_def interface_bound_def tick_up_def)
  from Suc.IH [OF s2(3,1)] s2(2) show ?case by (auto intro: same_health_trans)
qed simp

lemma get_work_accepted:
  assumes k: "accepting k" and "work_pool s" and "\<not> cache_list_lock s" and ok: "device_ok s"
    and g: "ehub_get_cache_work_context k s = Some (p, t)"
  shows "p \<noteq> None" and "same_health s t"
proof -
  let ?s = "s\<lparr>cache_list_lock := True\<rparr>"
  have b: "interface_bound ?s" using ok by (simp add: device_ok_def interface_bound_def)
  obtain m u where u: "(if cache_queue_free ?s = [] then ehub_xhci_cache_work_expand k 4 ?s else Some (1, ?s)) = Some (m, u)"
    using g assms(3) ok by (auto simp: ehub_get_cache_work_context_def lock_cache_list_def elim!: bind_eq_SomeE)
  have m: "1 \<le> m" "same_health ?s u"
    using u expand_accepted [OF k b, of 4 0]
    by (auto simp: ehub_xhci_cache_work_expand_def simp del: cache_work_expand_loop.simps split: if_splits)
  have "\<exists>w. p = Some w \<and> t = unlock_cache_list (work_to_used w u)"
    using g assms(3) ok u m(1)
    by (auto simp: ehub_get_cache_work_context_def lock_cache_list_def elim!: bind_eq_SomeE split: list.splits)
  then obtain w where w: "p = Some w" "t = unlock_cache_list (work_to_used w u)" by blast
  show "p \<noteq> None" using w(1) by simp
  show "same_health s t" using m(2) w(2) by (simp add: same_health_def unlock_cache_list_def work_to_used_def)
qed

lemma queue_write_accepted:
  assumes k: "accepting k" and pool: "work_pool s" and lock: "\<not> cache_list_lock s" and ok: "device_ok s"
    and addr: "addr AND 7 = 0" and len: "unat len \<le> length bytes" "unat len \<le> MESSAGE_DATA_BUFFER_SIZE_CACHE"
  obtains st t bs d where "ehub_queue_cache_write k addr (Some bytes) len c db sl ep stream s = Some (st, t)"
    and "0 \<le> st" and "work_pool t" and "same_blocks s t" and "\<not> cache_list_lock t" and "device_ok t"
    and "usb_log t = usb_log s @ [(UsbPipeCacheOut s, bs)]" and "decode_cache_transfer bs = Some (addr, d)"
    and "length d = roundup (unat len) 8" and "take (unat len) d = take (unat len) bytes"
proof -
  have nl: "no_late_failure k" using k by (simp add: accepting_def)
  obtain st t where t: "ehub_queue_cache_write k addr (Some bytes) len c db sl ep stream s = Some (st, t)"
    "work_pool t" "same_blocks s t" "\<not> cache_list_lock t"
    and lg: "if st < 0 then usb_log t = usb_log s
        else (\<exists>bs d. usb_log t = usb_log s @ [(UsbPipeCacheOut s, bs)]
          \<and> decode_cache_transfer bs = Some (addr, d) \<and> length d = roundup (unat len) 8
          \<and> take (unat len) d = take (unat len) bytes)"
    using queue_cache_write_ok [OF nl pool lock len] by blast
  obtain p s1 where g: "ehub_get_cache_work_context k s = Some (p, s1)" "work_pool s1" "\<forall>w. p = Some w \<longrightarrow> w \<in> works.nodes s1"
    using get_cache_work_context_ok [OF nl pool lock] by blast
  note acc = get_work_accepted [OF k pool lock ok g(1)]
  obtain w where w: "p = Some w" using acc(1) by blast
  obtain cw a x where cw: "cache_works s1 w = Some cw" "cw_UrbContext cw = Some a" "urb_contexts s1 a = Some x"
    "cache_context (UsbPipeCacheOut s1) x"
    using work_pool_works [OF g(2)] g(3) w by blast
  define s2 where "s2 = s1\<lparr>cache_works := (cache_works s1)(w \<mapsto> cw\<lparr>cw_CacheAddress := addr, cw_DataBuffer := Some bytes,
    cw_DataBufferLength := len, cw_TrbCycleState := c, cw_ring_doorbell := db, cw_slot_id := sl,
    cw_ep_index := ep, cw_stream_id := stream\<rparr>)\<rparr>"
  have s2: "device_ok s2" "urb_contexts s2 a = Some x"
    using same_health_ok [OF acc(2)] ok cw(3) by (simp_all add: s2_def device_ok_def interface_bound_def)
  obtain v where v: "EMBEDDED_CACHE_Write k (Some a) addr (Some bytes) len c s2 = Some (usb_submit_urb k (tick s2), v)"
    "\<not> usb_submit_urb k (tick s2) < 0 \<longrightarrow> same_health s2 v"
    using cache_write_ok [OF s2 cw(4) addr len, of k c] by (auto split: if_splits)
  have "ehub_queue_cache_write k addr (Some bytes) len c db sl ep stream s = Some (usb_submit_urb k (tick s2), v)"
    using ok g(1) w cw v(1) by (simp add: ehub_queue_cache_write_def s2_def)
  then have st: "st = usb_submit_urb k (tick s2)" "t = v" using t(1) by simp_all
  then have pos: "0 \<le> st" using k by (simp add: accepting_def)
  then have "device_ok t" using v(2) st same_health_ok s2(1) by auto
  then show thesis using that t pos lg by auto
qed

lemma quiet_env_accepting: "accepting quiet_env"
  using quiet_env_no_late_failure by (simp add: accepting_def quiet_env_def)

lemma write_blocks_accepted:
  assumes "accepting k"
  shows "\<lbrakk>work_pool s; \<not> cache_list_lock s; device_ok s; 0 \<le> st0;
     \<forall>j < i + n. j < length (EhubDataCacheBlock priv) \<and> EHUB_CACHE_BLOCK_SIZE * j \<le> length buf
       \<and> (\<exists>b blk. EhubDataCacheBlock priv ! j = Some b \<and> cache_blocks s b = Some blk \<and> Address blk AND 7 = 0)\<rbrakk> \<Longrightarrow>
   \<exists>st t. write_blocks_loop k buf n i st0 priv s = Some ((st, priv), t) \<and> 0 \<le> st"
proof (induction n arbitrary: i st0 s)
  case (Suc n)
  obtain b blk where b: "EhubDataCacheBlock priv ! i = Some b" "cache_blocks s b = Some blk" "Address blk AND 7 = 0"
    and i: "i < length (EhubDataCacheBlock priv)" "EHUB_CACHE_BLOCK_SIZE * i \<le> length buf"
    using Suc.prems(5) [rule_format, of i] by auto
  let ?n = "min (length buf - EHUB_CACHE_BLOCK_SIZE * i) EHUB_CACHE_BLOCK_SIZE"
  have le: "?n \<le> 1024" by (simp add: EHUB_CACHE_BLOCK_SIZE_def)
  then have n: "unat (of_nat ?n :: u32) = ?n" by (subst unat_of_nat) (simp del: min.bounded_iff)
  have "unat (of_nat ?n :: u32) \<le> length (drop (EHUB_CACHE_BLOCK_SIZE * i) buf)"
    "unat (of_nat ?n :: u32) \<le> MESSAGE_DATA_BUFFER_SIZE_CACHE"
    using n le by simp_all
  from queue_write_accepted [OF assms Suc.prems(1-3) b(3) this, of 0 False 0 0 0] obtain st t where
    t: "ehub_queue_cache_write k (Address blk) (Some (drop (EHUB_CACHE_BLOCK_SIZE * i) buf))
       (of_nat ?n) 0 False 0 0 0 s = Some (st, t)" "0 \<le> st" "work_pool t" "same_blocks s t" "\<not> cache_list_lock t"
    "device_ok t" by metis
  have "\<forall>j < Suc i + n. j < length (EhubDataCacheBlock priv) \<and> EHUB_CACHE_BLOCK_SIZE * j \<le> length buf
       \<and> (\<exists>b blk. EhubDataCacheBlock priv ! j = Some b \<and> cache_blocks t b = Some blk \<and> Address blk AND 7 = 0)"
    using Suc.prems(5) t(4) by (simp add: same_blocks_def)
  from Suc.IH [OF t(3,5,6,2) this] show ?case using b i t(1,2) by (simp add: Let_def)
qed simp

section \<open>Sequences of block operations\<close>

text \<open>The blocks a URB owns, and that its private data names one block for each that it counts.\<close>

definition priv_blocks :: "urb_priv \<Rightarrow> addr list" where
  "priv_blocks p = map the (take (cache_block_cnt p) (EhubDataCacheBlock p))"

definition priv_ok :: "urb_priv \<Rightarrow> bool" where
  "priv_ok p \<longleftrightarrow> cache_block_cnt p \<le> length (EhubDataCacheBlock p)
     \<and> None \<notin> set (take (cache_block_cnt p) (EhubDataCacheBlock p))"

lemma priv_okI:
  assumes "take (cache_block_cnt p) (EhubDataCacheBlock p) = map Some bs" and "length bs = cache_block_cnt p"
  shows "priv_ok p" and "priv_blocks p = bs"
proof -
  have "length (take (cache_block_cnt p) (EhubDataCacheBlock p)) = cache_block_cnt p"
    using assms by (metis length_map)
  then have "cache_block_cnt p \<le> length (EhubDataCacheBlock p)" by (metis length_take min.cobounded1)
  then show "priv_ok p" using assms(1) by (auto simp: priv_ok_def)
  show "priv_blocks p = bs" unfolding priv_blocks_def assms(1) by (simp add: comp_def)
qed

lemma priv_okD:
  assumes "priv_ok p"
  shows "take (cache_block_cnt p) (EhubDataCacheBlock p) = map Some (priv_blocks p)"
    and "length (priv_blocks p) = cache_block_cnt p"
proof -
  have "x = Some (the x)" if "x \<in> set (take (cache_block_cnt p) (EhubDataCacheBlock p))" for x
    using assms that by (cases x) (auto simp: priv_ok_def)
  then show "take (cache_block_cnt p) (EhubDataCacheBlock p) = map Some (priv_blocks p)"
    unfolding priv_blocks_def by (simp add: comp_def map_idI)
  show "length (priv_blocks p) = cache_block_cnt p" using assms by (simp add: priv_blocks_def priv_ok_def)
qed

text \<open>All blocks owned by the URBs of a list.\<close>

definition owned_blocks :: "urb_priv list \<Rightarrow> addr list" where
  "owned_blocks ps = concat (map priv_blocks ps)"

lemma owned_blocks_simps [simp]:
  "owned_blocks [] = []" "owned_blocks (ps @ qs) = owned_blocks ps @ owned_blocks qs"
  "owned_blocks (p # ps) = priv_blocks p @ owned_blocks ps"
  by (simp_all add: owned_blocks_def)

text \<open>
  What the clients of the allocator do. The state is the device and the private data of the URBs
  that hold blocks. A client takes a block, takes one for a ring segment, releases one that is in
  use and belongs to no URB, takes the blocks for the data of a URB of at most six blocks (the
  size of the array in the private data), or releases the blocks of a URB.
\<close>

inductive cache_step :: "env \<Rightarrow> urb_priv list \<times> ehub \<Rightarrow> urb_priv list \<times> ehub \<Rightarrow> bool" for k :: env where
  allocate: "ehub_xhci_cache_block_allocate s = Some (p, t) \<Longrightarrow> cache_step k (ps, s) (ps, t)"
| allocate_segment: "EHUB_CACHE_BLOCK_SIZE \<le> length bytes \<Longrightarrow>
    ehub_xhci_cache_block_allocate_segment k cyc (Some bytes) s = Some (p, t) \<Longrightarrow>
    cache_step k (ps, s) (ps, t)"
| release: "b \<in> set (cache_list_used s) \<Longrightarrow> b \<notin> set (owned_blocks ps) \<Longrightarrow>
    ehub_xhci_cache_block_free b s = Some t \<Longrightarrow> cache_step k (ps, s) (ps, t)"
| allocate_urb: "length (transfer_buffer u) \<le> 6 * EHUB_CACHE_BLOCK_SIZE \<Longrightarrow>
    ehub_xhci_cache_block_allocate_urb k u new_priv s = Some ((st, priv), t) \<Longrightarrow>
    cache_step k (ps, s) (if st < 0 then ps else ps @ [priv], t)"
| free_by_urb: "ehub_xhci_cache_block_free_by_urb priv s = Some (priv', t) \<Longrightarrow>
    cache_step k (ps @ priv # qs, s) (ps @ qs, t)"

text \<open>The invariant: the block lists are well formed, the blocks of the URBs are in use and
  belong to one URB each, and the lock is free unless a URB was refused.\<close>

definition owners_inv :: "urb_priv list \<Rightarrow> ehub \<Rightarrow> bool" where
  "owners_inv ps s \<longleftrightarrow> (\<forall>p \<in> set ps. priv_ok p) \<and> distinct (owned_blocks ps)
     \<and> set (owned_blocks ps) \<subseteq> set (cache_list_used s)"

definition clients_inv :: "urb_priv list \<times> ehub \<Rightarrow> bool" where
  "clients_inv = (\<lambda>(ps, s). work_pool s \<and> blocks_inv s \<and> owners_inv ps s
     \<and> (cache_list_lock s \<longrightarrow> number_of_caches_free s < 6))"

lemma clients_invI:
  "\<lbrakk>work_pool t; cache_inv t; owners_inv ps s; set (owned_blocks ps) \<subseteq> set (cache_list_used t)\<rbrakk>
   \<Longrightarrow> clients_inv (ps, t)"
  by (simp add: clients_inv_def owners_inv_def cache_inv_iff)

lemma num_blocks_le_6:
  "length buf \<le> 6 * EHUB_CACHE_BLOCK_SIZE \<Longrightarrow> DIV_ROUND_UP (length buf) EHUB_CACHE_BLOCK_SIZE \<le> 6"
  by (simp add: DIV_ROUND_UP_def EHUB_CACHE_BLOCK_SIZE_def)

lemma allocate_urb_clients:
  assumes "no_late_failure k" and "clients_inv (ps, s)" and unlocked: "\<not> cache_list_lock s"
    and small: "length (transfer_buffer u) \<le> 6 * EHUB_CACHE_BLOCK_SIZE"
    and r: "ehub_xhci_cache_block_allocate_urb k u new_priv s = Some ((st, priv), t)"
  shows "clients_inv (if st < 0 then ps else ps @ [priv], t) \<and> blocks.nodes t = blocks.nodes s"
proof -
  define num where "num = DIV_ROUND_UP (length (transfer_buffer u)) EHUB_CACHE_BLOCK_SIZE"
  have num6: "num \<le> 6" using num_blocks_le_6 [OF small] by (simp add: num_def)
  have s: "work_pool s" "cache_inv s" "owners_inv ps s"
    using assms(2) unlocked by (simp_all add: clients_inv_def cache_inv_iff)
  show ?thesis
  proof (cases "number_of_caches_free s < int num")
    case True
    then have "st = - ENOMEM" "t = s\<lparr>cache_list_lock := True\<rparr>"
      using r unlocked by (simp_all add: ehub_xhci_cache_block_allocate_urb_def lock_cache_list_def num_def)
    moreover have "number_of_caches_free s < 6" using True num6 by simp
    ultimately show ?thesis using s by (simp add: clients_inv_def cache_inv_iff owners_inv_def)
  next
    case False
    then have "int num \<le> number_of_caches_free s" by simp
    from allocate_urb_ok [OF assms(1) s(1,2) num_def num6 this] r obtain bs where t: "work_pool t" "cache_inv t"
      "blocks.nodes t = blocks.nodes s" "bs = take num (cache_list_free s)" "length bs = num"
      and res: "if st < 0 then set (cache_list_used t) = set (cache_list_used s)
        else cache_block_cnt priv = num \<and> take num (EhubDataCacheBlock priv) = map Some bs
          \<and> cache_list_used t = cache_list_used s @ bs"
      by (auto split: if_splits)
    show ?thesis
    proof (cases "st < 0")
      case True
      then show ?thesis using clients_invI [OF t(1,2) s(3)] t(3) res s(3) by (simp add: owners_inv_def)
    next
      case nneg: False
      then have p: "priv_ok priv" "priv_blocks priv = bs"
        using priv_okI [of priv bs] res t(5) by auto
      have bs: "distinct bs" "set bs \<inter> set (cache_list_used s) = {}"
        using s(2) t(4) set_take_subset [of num "cache_list_free s"]
        by (auto simp: cache_inv_def blocks.counted_def pool_ok_def)
      have "owners_inv (ps @ [priv]) t"
        using s(3) p bs res nneg by (auto simp: owners_inv_def)
      then show ?thesis using nneg t(1-3) by (simp add: clients_inv_def cache_inv_iff)
    qed
  qed
qed

lemma free_by_urb_clients:
  assumes "clients_inv (ps @ priv # qs, s)" and unlocked: "\<not> cache_list_lock s"
    and r: "ehub_xhci_cache_block_free_by_urb priv s = Some (priv', t)"
  shows "clients_inv (ps @ qs, t) \<and> blocks.nodes t = blocks.nodes s"
proof -
  have s: "work_pool s" "blocks_inv s" and own: "priv_ok priv" "distinct (owned_blocks (ps @ priv # qs))"
    "set (owned_blocks (ps @ priv # qs)) \<subseteq> set (cache_list_used s)"
    using assms(1) by (auto simp: clients_inv_def owners_inv_def)
  have "distinct (priv_blocks priv)" "set (priv_blocks priv) \<subseteq> set (cache_list_used s)" using own by auto
  from free_by_urb_ok [OF s(2) unlocked priv_okD [OF own(1)] this] r
  have t: "blocks_inv t" "same_rest s t" "set (cache_list_used t) = set (cache_list_used s) - set (priv_blocks priv)"
    by auto
  have "cache_inv t" "work_pool t" "blocks.nodes t = blocks.nodes s"
    using t(1,2) unlocked s(1) by (simp_all add: same_rest_def cache_inv_iff)
  moreover have "owners_inv (ps @ qs) s" "set (owned_blocks (ps @ qs)) \<subseteq> set (cache_list_used t)"
    using assms(1) own(2,3) t(3) by (auto simp: clients_inv_def owners_inv_def)
  ultimately show ?thesis using clients_invI by blast
qed

text \<open>Every operation starts by taking the lock.\<close>

lemma cache_step_unlocked: "cache_step k (ps, s) (qs, t) \<Longrightarrow> \<not> cache_list_lock s"
  by (erule cache_step.cases)
    (auto simp: ehub_xhci_cache_block_allocate_def ehub_xhci_cache_block_allocate_segment_def
      ehub_xhci_cache_block_free_def ehub_xhci_cache_block_allocate_urb_def
      ehub_xhci_cache_block_free_by_urb_def lock_cache_list_def split: if_splits)

lemma cache_step_inv:
  assumes "cache_step k x y" and "no_late_failure k" and "clients_inv x"
  shows "clients_inv y \<and> blocks.nodes (snd y) = blocks.nodes (snd x)"
proof -
  have unlocked: "\<not> cache_list_lock (snd x)"
    using cache_step_unlocked [of k "fst x" "snd x" "fst y" "snd y"] assms(1) by simp
  have inv: "work_pool (snd x)" "cache_inv (snd x)" "owners_inv (fst x) (snd x)"
    using assms(3) unlocked by (auto simp: clients_inv_def cache_inv_iff split: prod.splits)
  from assms(1) show ?thesis
  proof cases
    case (allocate s p t ps)
    then show ?thesis using block_allocate_ok [of s] inv clients_invI [of t ps s]
      by (auto simp: owners_inv_def same_blocks_def split: option.splits)
  next
    case (allocate_segment bytes cyc s p t ps)
    then show ?thesis using allocate_segment_ok [OF assms(2), of s bytes cyc] inv clients_invI [of t ps s]
      by (auto simp: owners_inv_def split: option.splits)
  next
    case (release b s ps t)
    then show ?thesis using block_free_ok [of s b] inv clients_invI [of t ps s]
      by (auto simp: owners_inv_def)
  next
    case (allocate_urb u s st priv t ps)
    then show ?thesis using allocate_urb_clients [OF assms(2)] assms(3) unlocked by simp
  next
    case (free_by_urb priv s priv' t ps qs)
    then show ?thesis using free_by_urb_clients assms(3) unlocked by simp
  qed
qed

lemma layout_disjoint:
  assumes "blocks_inv s" and "b \<in> blocks.nodes s" and "b' \<in> blocks.nodes s" and "b \<noteq> b'"
    and "cache_blocks s b = Some blk" and "cache_blocks s b' = Some blk'"
  shows "{unat (Address blk)..<unat (Address blk) + EHUB_CACHE_BLOCK_SIZE}
     \<inter> {unat (Address blk')..<unat (Address blk') + EHUB_CACHE_BLOCK_SIZE} = {}
     \<and> 0x1000 \<le> unat (Address blk) \<and> unat (Address blk) + EHUB_CACHE_BLOCK_SIZE \<le> 0x1000 + EHUB_CACHE_SIZE"
proof -
  let ?i = "unat (IndexOfBlock blk)" and ?j = "unat (IndexOfBlock blk')"
  have n: "EHUB_CACHE_NUMBER_OF_BLOCKS = 128"
    by (simp add: EHUB_CACHE_NUMBER_OF_BLOCKS_def EHUB_CACHE_SIZE_def EHUB_CACHE_BLOCK_SIZE_def)
  have lay: "unat (IndexOfBlock x) < 128 \<and> unat (Address x) = 0x1000 + 0x400 * unat (IndexOfBlock x)"
    if "c \<in> blocks.nodes s" "cache_blocks s c = Some x" for c x
  proof -
    have i: "unat (IndexOfBlock x) < 128"
      and a: "Address x = EHUB_CACHE_START_ADDRESS + of_nat EHUB_CACHE_BLOCK_SIZE * IndexOfBlock x"
      using assms(1) that n by (auto simp: blocks_inv_def block_layout_def)
    have "x\<lparr>cb_urb := None\<rparr> = fresh_block (unat (IndexOfBlock x))"
      using a by (simp add: fresh_block_def)
    then have "Address x = Address (fresh_block (unat (IndexOfBlock x)))"
      by (metis EHUB_CACHE_BLOCK.select_convs(3) EHUB_CACHE_BLOCK.surjective EHUB_CACHE_BLOCK.update_convs(1))
    then show ?thesis using fresh_block_layout(2) [of "unat (IndexOfBlock x)"] i n by simp
  qed
  have "block_index s b \<noteq> block_index s b'"
    using assms(1-4) by (auto simp: blocks_inv_def block_layout_def dest: inj_onD)
  then have "?i \<noteq> ?j" using assms(5,6) by (auto simp: block_index_def word_unat_eq_iff)
  then show ?thesis
    using lay [OF assms(2,5)] lay [OF assms(3,6)]
    by (auto simp: EHUB_CACHE_BLOCK_SIZE_def EHUB_CACHE_SIZE_def)
qed

section \<open>Returning from creation\<close>

text \<open>While the driver waits for a register write, the other contexts leave the cache alone.\<close>

definition cache_quiet :: "env \<Rightarrow> bool" where
  "cache_quiet k \<longleftrightarrow> (\<forall>n s. same_blocks s (other_contexts k n s)
     \<and> cache_list_lock (other_contexts k n s) = cache_list_lock s)"

lemma completing_env_cache_quiet: "cache_quiet completing_env"
proof -
  have "same_blocks s t \<and> cache_list_lock t = cache_list_lock s"
    if "URB_CompletionRoutine_Simple u s = Some t" for u s t
    using that
    by (auto simp: URB_CompletionRoutine_Simple_def NOTIFICATION_Notify_def put_urb_def same_blocks_def
        elim!: bind_eq_SomeE split: option.splits if_splits completion_context.splits)
  then show ?thesis
    by (auto simp: cache_quiet_def completing_env_def complete_write_def split: option.splits)
qed

definition same_cache :: "ehub \<Rightarrow> ehub \<Rightarrow> bool" where
  "same_cache s t \<longleftrightarrow> same_blocks s t \<and> cache_list_lock t = cache_list_lock s"

lemma same_cache_trans: "same_cache s t \<Longrightarrow> same_cache t u \<Longrightarrow> same_cache s u"
  by (auto simp: same_cache_def intro: same_blocks_trans)

lemma same_cache_updates [simp]:
  "same_cache s (tick_up s)" "same_cache s (put_urb a c s)" "same_cache s (submitted st a c s)"
  "same_cache s (s\<lparr>EmbeddedRegisterLock := n\<rparr>)" "same_cache s (register_exit st s)"
  "same_cache s (up_register s)" "same_cache s (s\<lparr>CompletionEventEmbeddedRegisterRead := n\<rparr>)" "same_cache s s"
  by (auto simp: same_cache_def same_blocks_def tick_up_def put_urb_def submitted_def register_exit_def
      up_register_def)

lemma set_event_same_cache: "set_event ev c s = Some t \<Longrightarrow> same_cache s t"
  by (cases ev) auto

lemma Wait_same_cache:
  assumes "cache_quiet k" and "NOTIFICATION_Wait k ev s = Some (st, t)"
  shows "same_cache s t"
  using assms(2)
proof (cases rule: Wait_cases)
  case (woken c waited c' s1)
  have "same_cache (tick_up s) s1" using assms(1) woken(2) by (simp add: cache_quiet_def same_cache_def)
  with set_event_same_cache [OF woken(5)] show ?thesis
    using same_cache_trans [of s "tick_up s" s1] same_cache_trans [of s s1 t] by simp
qed simp

lemma register_write_same_cache:
  assumes "cache_quiet k" and "EMBEDDED_REGISTER_Write k addr data s = Some (r, t)"
  shows "same_cache s t"
proof -
  obtain x s1 st d s2 where d: "down_register k s = Some (x, s1)"
    and w: "register_write_locked k addr data s1 = Some ((st, d), s2)"
    and t: "t = up_register (register_exit st s2)"
    using assms(2) by (auto simp: EMBEDDED_REGISTER_Write_def elim!: bind_eq_SomeE)
  have 1: "same_cache s s1"
    using d by (auto simp: down_register_def same_cache_def same_blocks_def tick_up_def split: if_splits)
  obtain a s3 st1 s4 where p: "put_register_write a addr data s1 = Some s3"
    and u: "URB_Submit k (Some a) s3 = Some (st1, s4)"
    and r: "(if st1 < 0 then Some ((st1, - 1), s4) else do {
       (st2, s5) \<leftarrow> NOTIFICATION_Wait k (EventUrb a) s4;
       if st2 < 0 then Some ((st2, - 1), s5) else Some ((st2, data), s5)
     }) = Some ((st, d), s2)"
    using w by (auto simp: register_write_locked_def elim!: bind_eq_SomeE)
  have "same_cache s1 s3" using p by (auto simp: put_register_write_def elim!: bind_eq_SomeE)
  moreover have "same_cache s3 s4" using u by (auto elim!: URB_Submit_Some)
  moreover have "same_cache s4 s2"
    using r by (auto split: if_splits elim!: bind_eq_SomeE dest: Wait_same_cache [OF assms(1)])
  moreover have "same_cache s2 t" unfolding t
    by (rule same_cache_trans [of _ "register_exit st s2"]) simp_all
  ultimately show ?thesis using 1 same_cache_trans by metis
qed

lemma writel_same_cache:
  assumes "cache_quiet k" and "ehub_xhci_writel k val regs s = Some t"
  shows "same_cache s t"
  using assms register_write_same_cache [OF assms(1)]
  by (auto simp: ehub_xhci_writel_def elim!: bind_eq_SomeE split: if_splits)

lemma expand_same_cache:
  "interface_bound s \<Longrightarrow> \<exists>m t. cache_work_expand_loop k n i s = Some (m, t) \<and> same_cache s t"
proof (induction n arbitrary: i s)
  case (Suc n)
  let ?s = "(tick_up s)\<lparr>next_addr := Suc (next_addr s)\<rparr>"
  have b: "interface_bound ?s" using Suc.prems by (simp add: interface_bound_def tick_up_def)
  obtain p s1 where c: "URB_Create k (UsbPipeCacheOut s) (8 + MESSAGE_DATA_BUFFER_SIZE_CACHE)
      URB_CompletionRoutine_Cache_ptr (Some (CacheWorkPtr (next_addr s))) ?s = Some (p, s1)"
    using URB_Create_total [OF b] by blast
  have f: "urb_frame ?s s1" by (rule URB_Create_frame [OF c])
  have s1: "same_cache s s1" "interface_bound s1"
    using urb_frame_same_blocks [OF f] urb_frame_simps(1) [OF f] b
    by (auto simp: same_cache_def same_blocks_def interface_bound_def tick_up_def)
  show ?case
  proof (cases "kzalloc k (tick s) \<and> p \<noteq> None")
    case True
    then obtain a where a: "p = Some a" by auto
    let ?s2 = "s1\<lparr>cache_queue_free := list_add_tail (next_addr s) (cache_queue_free s1),
       cache_works := (cache_works s1)(next_addr s \<mapsto>
         \<lparr>cw_UrbContext = Some a, cw_CacheAddress = 0, cw_DataBuffer = None,
          cw_DataBufferLength = 0, cw_TrbCycleState = 0, cw_ring_doorbell = False,
          cw_slot_id = 0, cw_ep_index = 0, cw_stream_id = 0\<rparr>)\<rparr>"
    have "cache_work_expand_loop k (Suc n) i s = cache_work_expand_loop k n (Suc i) ?s2"
      using True a c by (simp add: Let_def tick_up_def)
    moreover have "interface_bound ?s2" "same_cache s ?s2"
      using s1 by (simp_all add: interface_bound_def same_cache_def same_blocks_def)
    moreover obtain m t where "cache_work_expand_loop k n (Suc i) ?s2 = Some (m, t)" "same_cache ?s2 t"
      using Suc.IH [OF \<open>interface_bound ?s2\<close>] by blast
    ultimately show ?thesis using same_cache_trans [of s ?s2 t] by (auto simp del: cache_work_expand_loop.simps)
  next
    case False
    then show ?thesis using c s1 by (auto simp: Let_def tick_up_def same_cache_def same_blocks_def)
  qed
qed simp

section \<open>Completion of a cache write\<close>

definition same_queues :: "ehub \<Rightarrow> ehub \<Rightarrow> bool" where
  "same_queues s t \<longleftrightarrow> cache_queue_free t = cache_queue_free s \<and> cache_queue_used t = cache_queue_used s
     \<and> cache_list_lock t = cache_list_lock s \<and> next_addr s \<le> next_addr t
     \<and> (\<forall>a < next_addr s. urb_contexts s a \<noteq> None \<longrightarrow> urb_contexts t a \<noteq> None)"

lemma same_queues_trans: "same_queues s t \<Longrightarrow> same_queues t u \<Longrightarrow> same_queues s u"
  unfolding same_queues_def using order_trans less_le_trans by metis

lemma URB_Create_same_queues:
  assumes "URB_Create k pipe len rtn ctx s = Some (r, t)"
  shows "same_queues s t"
  using assms by (cases rule: URB_Create_cases) (auto simp: same_queues_def)

lemma doorbell_expand_same_queues: "doorbell_expand_loop k n i s = Some (m, t) \<Longrightarrow> same_queues s t"
proof (induction n arbitrary: i s)
  case (Suc n)
  from Suc.prems obtain p s1 where c: "URB_Create k (UsbPipeDoorbellOut s) 8 URB_CompletionRoutine_Doorbell_ptr
      None s = Some (p, s1)" by (auto elim!: bind_eq_SomeE)
  note f = URB_Create_same_queues [OF c]
  show ?case
  proof (cases p)
    case (Some a)
    with Suc.prems c have "doorbell_expand_loop k n (Suc i)
        (s1\<lparr>doorbell_list_free := list_add_tail a (doorbell_list_free s1)\<rparr>) = Some (m, t)"
      by (auto elim!: bind_eq_SomeE)
    from Suc.IH [OF this] f show ?thesis by (simp add: same_queues_def)
  qed (use Suc.prems c f in auto)
qed (simp add: same_queues_def)

lemma Write_Doorbell_same_queues:
  assumes "EMBEDDED_REGISTER_Write_Doorbell k addr data s = Some (r, t)"
  shows "same_queues s t"
proof -
  obtain s1 n s2 where l: "lock_doorbell s = Some s1"
    and e: "(if doorbell_list_free s1 = [] then ehub_xhci_doorbell_expand k 4 s1 else Some (1, s1)) = Some (n, s2)"
    using assms by (auto simp: EMBEDDED_REGISTER_Write_Doorbell_def elim!: bind_eq_SomeE)
  have 1: "same_queues s s1" using l by (auto simp: lock_doorbell_def same_queues_def split: if_splits)
  have 2: "same_queues s1 s2"
    using e by (auto simp: ehub_xhci_doorbell_expand_def same_queues_def split: if_splits
        dest!: doorbell_expand_same_queues)
  show ?thesis
  proof (cases "n < 1")
    case True
    then show ?thesis using assms l e 1 2
      by (auto simp: EMBEDDED_REGISTER_Write_Doorbell_def same_queues_def unlock_doorbell_def)
  next
    case False
    then obtain a s3 st s4 where p: "put_register_write a addr data (unlock_doorbell (doorbell_to_busy a s2)) = Some s3"
      and u: "URB_Submit k (Some a) s3 = Some (st, s4)" and t: "t = register_exit st s4"
      using assms l e by (auto simp: EMBEDDED_REGISTER_Write_Doorbell_def elim!: bind_eq_SomeE split: list.splits)
    have "same_queues s2 s3" using p
      by (auto simp: put_register_write_def same_queues_def put_urb_def unlock_doorbell_def
          doorbell_to_busy_def elim!: bind_eq_SomeE)
    moreover have "same_queues s3 t" using u
      by (auto simp: t same_queues_def submitted_def register_exit_def elim!: URB_Submit_Some)
    ultimately show ?thesis using 1 2 same_queues_trans by metis
  qed
qed

lemma doorbell_same_queues:
  "ehub_xhci_writel_doorbell k val regs s = Some t \<Longrightarrow> same_queues s t"
  "ehub_xhci_ring_ep_doorbell k slot ep stream s = Some t \<Longrightarrow> same_queues s t"
  "ehub_xhci_ring_cmd_db_low k s = Some t \<Longrightarrow> same_queues s t"
proof -
  show w: "ehub_xhci_writel_doorbell k val regs s = Some t \<Longrightarrow> same_queues s t" for val regs
    by (auto simp: ehub_xhci_writel_doorbell_def same_queues_def elim!: bind_eq_SomeE split: if_splits
        dest!: Write_Doorbell_same_queues)
  show "ehub_xhci_ring_ep_doorbell k slot ep stream s = Some t \<Longrightarrow> same_queues s t"
    and "ehub_xhci_ring_cmd_db_low k s = Some t \<Longrightarrow> same_queues s t"
    using w by (auto simp: ehub_xhci_ring_ep_doorbell_def ehub_xhci_ring_cmd_db_low_def Let_def
        same_queues_def split: if_splits)
qed

section \<open>Properties\<close>

text \<open>
  C17. Creating the cache returns success with the lock free and all 128 blocks on the free list:
  block \<open>i\<close> is at address 0x1000 + 0x400 * \<open>i\<close>, so the blocks tile the 128 KiB of the cache memory
  without overlap. This holds when memory can be allocated, the device answers the register write,
  and the contexts that run during that write (the completion routine of the write among them)
  leave the register access and the cache alone.
\<close>

theorem cache_create_layout:
  assumes "calm Q k" and "responsive k" and "cache_quiet k" and "\<forall>n. kzalloc k n \<and> alloc_workqueue k n"
    and "register_ready p s"
  shows "\<exists>t. ehub_xhci_cache_create k s = Some (0, t) \<and> cache_inv t \<and> cache_list_used t = []
     \<and> length (cache_list_free t) = 128
     \<and> (\<forall>i < 128. \<exists>blk. cache_blocks t (cache_list_free t ! i) = Some blk
          \<and> unat (Address blk) = 0x1000 + 0x400 * i)"
proof -
  define s1 where "s1 = tick_up (s\<lparr>cache_list_free := [], cache_list_used := [], cache_list_lock := False,
     cache_queue_free := [], cache_queue_used := [], number_of_caches_free := 0,
     number_of_caches_used := 0\<rparr>)\<lparr>ehub_cache_wq := True\<rparr>"
  have "register_ready p s1"
    using assms(5) by (simp add: s1_def register_ready_def write_urb_ready_def device_ok_def
        interface_bound_def tick_up_def)
  then obtain s2 where s2: "ehub_xhci_writel k EHUB_CACHE_INITIALIZATION_REGISTER
      DEVHOST_CACHE_BAR_REG_ADDRESS s1 = Some s2" "register_ready p s2"
    using writel_logged [OF assms(1,2)] by blast
  have "same_cache s1 s2" by (rule writel_same_cache [OF assms(3) s2(1)])
  have "interface_bound s2" using s2(2) by (simp add: register_ready_def device_ok_def)
  from expand_same_cache [OF this, of k EHUB_CACHE_QUEUE_ENTRIES 0]
  obtain m s3 where s3: "ehub_xhci_cache_work_expand k EHUB_CACHE_QUEUE_ENTRIES s2 = Some (m, s3)"
    "same_cache s2 s3" by (auto simp: ehub_xhci_cache_work_expand_def)
  have "same_cache s1 s3" by (rule same_cache_trans [OF \<open>same_cache s1 s2\<close> s3(2)])
  then have "cache_list_free s3 = []" "cache_list_used s3 = []" "number_of_caches_free s3 = 0"
    "number_of_caches_used s3 = 0" "\<not> cache_list_lock s3"
    by (auto simp: same_cache_def same_blocks_def s1_def tick_up_def)
  note empty = this
  obtain t where t: "cache_block_loop k EHUB_CACHE_NUMBER_OF_BLOCKS 0 s3 = Some t" "blocks_inv t"
    "length (cache_list_free t) = EHUB_CACHE_NUMBER_OF_BLOCKS" "cache_list_used t = []"
    "\<forall>i < EHUB_CACHE_NUMBER_OF_BLOCKS. cache_blocks t (cache_list_free t ! i) = Some (fresh_block i)"
    "cache_list_lock t = cache_list_lock s3"
    using cache_block_loop_inv [OF _ empty(1-4)] assms(4) by blast
  have n: "EHUB_CACHE_NUMBER_OF_BLOCKS = 128"
    by (simp add: EHUB_CACHE_NUMBER_OF_BLOCKS_def EHUB_CACHE_SIZE_def EHUB_CACHE_BLOCK_SIZE_def)
  have "ehub_xhci_cache_create k s = Some (0, t)"
    using assms(4) s2(1) s3(1) t(1) by (simp add: ehub_xhci_cache_create_def s1_def)
  moreover have "cache_inv t" using t empty(5) by (simp add: cache_inv_iff)
  ultimately show ?thesis using t(3-5) n fresh_block_layout(2) by auto
qed

theorem cache_create_layout_witness:
  "\<exists>t. ehub_xhci_cache_create completing_env demo_registers = Some (0, t)
     \<and> length (cache_list_free t) = 128
     \<and> (\<exists>blk. cache_blocks t (cache_list_free t ! 5) = Some blk \<and> unat (Address blk) = 0x2400)"
proof -
  have "\<forall>n. kzalloc completing_env n \<and> alloc_workqueue completing_env n"
    by (simp add: completing_env_def quiet_env_def)
  from cache_create_layout [OF completing_env_calm completing_env_responsive
      completing_env_cache_quiet this demo_registers_ready]
  obtain t where t: "ehub_xhci_cache_create completing_env demo_registers = Some (0, t)"
    "length (cache_list_free t) = 128" "\<forall>i < 128. \<exists>blk. cache_blocks t (cache_list_free t ! i) = Some blk
       \<and> unat (Address blk) = 0x1000 + 0x400 * i" by blast
  have "(5 :: nat) < 128" "(0x1000 + 0x400 * 5 :: nat) = 0x2400" by simp_all
  with t show ?thesis by metis
qed

text \<open>
  C15. Conservation of cache blocks: over any sequence of allocations of single blocks, of blocks
  for ring segments and of the blocks for the data of URBs of up to six blocks, and of releases
  of these blocks, no block is lost or gained, the free and used lists stay disjoint and agree
  with their counters, two different blocks never share an address of the cache memory, every
  block of a URB stays in use until the URB releases it and belongs to no other URB, and the lock
  is free unless fewer than six blocks are left (a URB that is refused leaves it held). The
  kernel may refuse submissions and memory, except that the buffer and the URB of a new work
  context can be allocated.
\<close>

theorem cache_blocks_conserved:
  assumes "(cache_step k)\<^sup>*\<^sup>* ([], s) (ps, t)" and "no_late_failure k" and "work_pool s" and "cache_inv s"
  shows "blocks_inv t \<and> blocks.nodes t = blocks.nodes s
     \<and> number_of_caches_free t + number_of_caches_used t = int (card (blocks.nodes s))
     \<and> (\<forall>b b' blk blk'. b \<in> blocks.nodes t \<and> b' \<in> blocks.nodes t \<and> b \<noteq> b'
          \<and> cache_blocks t b = Some blk \<and> cache_blocks t b' = Some blk' \<longrightarrow>
          {unat (Address blk)..<unat (Address blk) + EHUB_CACHE_BLOCK_SIZE}
          \<inter> {unat (Address blk')..<unat (Address blk') + EHUB_CACHE_BLOCK_SIZE} = {})
     \<and> distinct (owned_blocks ps) \<and> set (owned_blocks ps) \<subseteq> set (cache_list_used t)
     \<and> (cache_list_lock t \<longrightarrow> number_of_caches_free t < 6)"
proof -
  have t: "clients_inv (ps, t) \<and> blocks.nodes (snd (ps, t)) = blocks.nodes (snd ([] :: urb_priv list, s))"
    using assms(1)
  proof (induction rule: rtranclp_induct)
    case base
    then show ?case using assms(3,4) by (simp add: clients_inv_def owners_inv_def cache_inv_iff)
  next
    case (step y z)
    then show ?case using cache_step_inv [OF step.hyps(2) assms(2)] by auto
  qed
  then have "number_of_caches_free t + number_of_caches_used t = int (card (blocks.nodes s))"
    using blocks.nodes_length [of t] by (auto simp: clients_inv_def blocks_inv_def blocks.counted_def)
  with t show ?thesis using layout_disjoint [of t] by (auto simp: clients_inv_def owners_inv_def)
qed

lemma demo_registers_pool: "work_pool ready_ehub" "cache_inv ready_ehub"
  by (simp_all add: work_pool_def works.nodes_def heap_fresh_def interface_bound_def cache_inv_def
      blocks.counted_def block_layout_def blocks.nodes_def demo_defs)

definition demo_blocks :: ehub where
  "demo_blocks = ready_ehub\<lparr>next_addr := 2, cache_list_free := [0, 1], number_of_caches_free := 2,
     cache_blocks := [0 \<mapsto> fresh_block 0, 1 \<mapsto> fresh_block 1]\<rparr>"

lemma demo_blocks_inv: "work_pool demo_blocks" "cache_inv demo_blocks"
  by (simp_all add: demo_blocks_def work_pool_def works.nodes_def heap_fresh_def interface_bound_def
      cache_inv_def blocks.counted_def block_layout_def blocks.nodes_def demo_defs pool_ok_def
      fresh_block_def EHUB_CACHE_NUMBER_OF_BLOCKS_def EHUB_CACHE_SIZE_def EHUB_CACHE_BLOCK_SIZE_def
      block_index_def inj_on_def)

text \<open>Two blocks are enough for 1500 bytes.\<close>

lemma demo_allocate_urb:
  "\<exists>st priv t. ehub_xhci_cache_block_allocate_urb quiet_env \<lparr>client_id = 7, transfer_buffer = replicate 1500 0xAB\<rparr>
       new_priv demo_blocks = Some ((st, priv), t) \<and> 0 \<le> st \<and> cache_block_cnt priv = 2
     \<and> length (EhubDataCacheBlock priv) = 6"
proof -
  let ?u = "\<lparr>client_id = 7, transfer_buffer = replicate 1500 0xAB\<rparr>"
  let ?priv = "\<lparr>cache_block_cnt = 2, EhubDataCacheBlock = [Some 0, Some 1, None, None, None, None]\<rparr>"
  have six: "replicate 6 (None :: addr option) = [None, None, None, None, None, None]"
    by (simp add: eval_nat_numeral)
  obtain s where take: "take_blocks_loop 7 2 0 new_priv (demo_blocks\<lparr>cache_list_lock := True\<rparr>) = Some ((True, ?priv), s)"
    and s: "unlock_cache_list s = demo_blocks\<lparr>cache_list_free := [], cache_list_used := [0, 1],
      number_of_caches_free := 0, number_of_caches_used := 2,
      cache_blocks := [0 \<mapsto> (fresh_block 0)\<lparr>cb_urb := Some 7\<rparr>, 1 \<mapsto> (fresh_block 1)\<lparr>cb_urb := Some 7\<rparr>]\<rparr>"
    by (simp add: demo_blocks_def new_priv_def six numeral_2_eq_2 set_block_urb_def block_to_used_def 
        list_del_def list_add_tail_def demo_defs unlock_cache_list_def)
  let ?s = "unlock_cache_list s"
  have "work_pool ?s" "\<not> cache_list_lock ?s" "device_ok ?s"
    using demo_blocks_inv(1)
    by (simp_all add: s demo_blocks_def work_pool_def works.nodes_def heap_fresh_def demo_defs device_ok_def interface_bound_def)
  moreover have "\<forall>j < 0 + 2. j < length (EhubDataCacheBlock ?priv) \<and> EHUB_CACHE_BLOCK_SIZE * j \<le> length (transfer_buffer ?u)
       \<and> (\<exists>b blk. EhubDataCacheBlock ?priv ! j = Some b \<and> cache_blocks ?s b = Some blk \<and> Address blk AND 7 = 0)"
  proof (intro allI impI)
    fix j :: nat assume "j < 0 + 2"
    then consider "j = 0" | "j = 1" by linarith
    then show "j < length (EhubDataCacheBlock ?priv) \<and> EHUB_CACHE_BLOCK_SIZE * j \<le> length (transfer_buffer ?u)
       \<and> (\<exists>b blk. EhubDataCacheBlock ?priv ! j = Some b \<and> cache_blocks ?s b = Some blk \<and> Address blk AND 7 = 0)"
      by cases (simp_all add: s EHUB_CACHE_BLOCK_SIZE_def EHUB_CACHE_START_ADDRESS_def fresh_block_def)
  qed
  ultimately obtain st t where w: "write_blocks_loop quiet_env (transfer_buffer ?u) 2 0 0 ?priv ?s = Some ((st, ?priv), t)" "0 \<le> st"
    using write_blocks_accepted [OF quiet_env_accepting, of ?s 0 0 2 ?priv "transfer_buffer ?u"] by auto
  have "DIV_ROUND_UP (length (transfer_buffer ?u)) EHUB_CACHE_BLOCK_SIZE = 2" "\<not> cache_list_lock demo_blocks"
    "number_of_caches_free demo_blocks = 2"
    by (simp_all add: DIV_ROUND_UP_def EHUB_CACHE_BLOCK_SIZE_def demo_blocks_def demo_defs)
  then have "ehub_xhci_cache_block_allocate_urb quiet_env ?u new_priv demo_blocks = Some ((st, ?priv), t)"
    using take w(1) by (simp add: ehub_xhci_cache_block_allocate_urb_def lock_cache_list_def Let_def)
  then show ?thesis using w(2) by auto
qed

theorem cache_blocks_conserved_witness:
  "\<exists>ps t. (cache_step quiet_env)\<^sup>*\<^sup>* ([], demo_blocks) (ps, t) \<and> blocks_inv t
     \<and> length (owned_blocks ps) = 2 \<and> set (owned_blocks ps) \<subseteq> set (cache_list_used t)"
proof -
  let ?u = "\<lparr>client_id = 7, transfer_buffer = replicate 1500 0xAB\<rparr>"
  have small: "length (transfer_buffer ?u) \<le> 6 * EHUB_CACHE_BLOCK_SIZE" by (simp add: EHUB_CACHE_BLOCK_SIZE_def)
  obtain st priv t where t: "ehub_xhci_cache_block_allocate_urb quiet_env ?u new_priv demo_blocks = Some ((st, priv), t)"
    "0 \<le> st" "cache_block_cnt priv = 2" "length (EhubDataCacheBlock priv) = 6"
    using demo_allocate_urb by blast
  have "(cache_step quiet_env)\<^sup>*\<^sup>* ([], demo_blocks) ([priv], t)"
    using cache_step.allocate_urb [OF small t(1), of "[]"] t(2) by auto
  note run = this
  have "length (owned_blocks [priv]) = 2" using t(3,4) by (simp add: priv_blocks_def)
  then show ?thesis
    using run cache_blocks_conserved [OF run quiet_env_no_late_failure demo_blocks_inv] by blast
qed



text \<open>
  The address of a piece of a cached URB for the controller: for the byte at offset
  \<open>off\<close> of the transfer buffer it lies in the block that holds that byte, and it is the
  address of that byte exactly when the transfer buffer is aligned to the block size.
\<close>

theorem data_buffer_addr_correct:
  assumes own: "take (cache_block_cnt priv) (EhubDataCacheBlock priv) = map Some bs" "bs \<noteq> []" "length bs \<le> 6"
    and off: "off < EHUB_CACHE_BLOCK_SIZE * length bs" and fit: "unat base + off < 2 ^ 64"
    and blk: "cache_blocks s (bs ! (off div EHUB_CACHE_BLOCK_SIZE)) = Some blk"
    and len: "length (EhubDataCacheBlock priv) = 6"
  shows "\<exists>a. ehub_xhci_get_data_buffer_addr priv base (base + of_nat off) s = Some a
     \<and> ucast (Address blk) \<le> a \<and> a < ucast (Address blk) + of_nat EHUB_CACHE_BLOCK_SIZE
     \<and> (a = ucast (Address blk) + of_nat (off mod EHUB_CACHE_BLOCK_SIZE)
          \<longleftrightarrow> unat base mod EHUB_CACHE_BLOCK_SIZE = 0)"
proof -
  let ?j = "off div EHUB_CACHE_BLOCK_SIZE"
  define r where "r = (unat base + off) mod 1024"
  have j: "?j < length bs" using off by (simp add: EHUB_CACHE_BLOCK_SIZE_def less_mult_imp_div_less mult.commute)
  have "length (take (cache_block_cnt priv) (EhubDataCacheBlock priv)) = length bs" using own(1) by simp
  then have cnt: "cache_block_cnt priv \<noteq> 0" using own(2) by (metis length_0_conv take_eq_Nil2)
  have "EhubDataCacheBlock priv ! ?j = take (cache_block_cnt priv) (EhubDataCacheBlock priv) ! ?j"
    using j \<open>length (take _ _) = length bs\<close> by simp
  then have elem: "EhubDataCacheBlock priv ! ?j = Some (bs ! ?j)" using own(1) j by simp
  have small: "off < 6144" using off own(3) by (simp add: EHUB_CACHE_BLOCK_SIZE_def)
  have num: "unat (ucast ((of_nat off :: u64) div of_nat EHUB_CACHE_BLOCK_SIZE) :: u32) = ?j"
    using small by (simp add: EHUB_CACHE_BLOCK_SIZE_def unat_div unat_of_nat unsigned_ucast_eq take_bit_nat_eq_self
        take_bit_eq_mod)
  have mask: "(base + of_nat off) AND (of_nat EHUB_CACHE_BLOCK_SIZE - 1) = (of_nat r :: u64)"
  proof -
    have "unat (base + of_nat off) = unat base + off"
      using fit small by (simp add: unat_word_ariths unat_of_nat)
    moreover have "(base + of_nat off) AND 1023 = take_bit 10 (base + of_nat off)"
      by (simp add: take_bit_eq_mask mask_eq_exp_minus_1)
    ultimately show ?thesis
      by (simp add: EHUB_CACHE_BLOCK_SIZE_def r_def word_unat_eq_iff unat_mod take_bit_eq_mod unat_of_nat)
  qed
  have "ehub_xhci_get_data_buffer_addr priv base (base + of_nat off) s
      = Some (ucast (Address blk) + of_nat r)"
    using cnt elem num len j own(3) blk mask by (simp add: ehub_xhci_get_data_buffer_addr_def Let_def)
  moreover have "unat (ucast (Address blk) + (of_nat n :: u64)) = unat (Address blk) + n" if "n \<le> 1024" for n
  proof -
    have "unat (Address blk) < 2 ^ 32" using unsigned_less [of "Address blk", where ?'a = nat] by simp
    then show ?thesis using that by (simp add: unat_word_ariths unat_of_nat unsigned_ucast_eq take_bit_eq_mod)
  qed
  note un = this
  moreover have "r < 1024" by (simp add: r_def)
  moreover have "r = off mod 1024 \<longleftrightarrow> unat base mod 1024 = 0"
    using mod_eq_dvd_iff_nat [of off "unat base + off" 1024] by (simp add: r_def dvd_eq_mod_eq_0)
  ultimately show ?thesis
    using un [of r] un [of 1024] un [of "off mod 1024"] un [of 0]
    by (intro exI [of _ "ucast (Address blk) + of_nat r"] conjI)
      (auto simp: EHUB_CACHE_BLOCK_SIZE_def word_le_nat_alt word_less_nat_alt word_unat_eq_iff)
qed

theorem data_buffer_addr_correct_witness:
  "\<exists>a. ehub_xhci_get_data_buffer_addr \<lparr>cache_block_cnt = 2, EhubDataCacheBlock = [Some 0, Some 1, None, None, None, None]\<rparr>
       0x10400 (0x10400 + of_nat 1030) demo_blocks = Some a \<and> a = 0x1400 + of_nat (1030 mod EHUB_CACHE_BLOCK_SIZE)"
  using data_buffer_addr_correct [of "\<lparr>cache_block_cnt = 2, EhubDataCacheBlock = [Some 0, Some 1, None, None, None, None]\<rparr>"
      "[0, 1]" 1030 "0x10400" demo_blocks "fresh_block 1"]
  by (auto simp: EHUB_CACHE_BLOCK_SIZE_def demo_blocks_def fresh_block_def EHUB_CACHE_START_ADDRESS_def)

lemma ring_doorbell_ok:
  assumes "doorbell_inv s" and "no_late_failure k" and "device_ok s"
  shows "\<exists>t. ehub_xhci_ring_ep_doorbell k slot ep stream s = Some t"
    and "\<exists>t. ehub_xhci_ring_cmd_db_low k s = Some t"
proof -
  have w: "\<exists>t. ehub_xhci_writel_doorbell k val regs s = Some t" for val regs
    using Write_Doorbell_ok [OF assms(1,2), of regs val] assms(3) by (auto simp: ehub_xhci_writel_doorbell_def)
  then show "\<exists>t. ehub_xhci_ring_ep_doorbell k slot ep stream s = Some t"
    and "\<exists>t. ehub_xhci_ring_cmd_db_low k s = Some t"
    by (auto simp: ehub_xhci_ring_ep_doorbell_def ehub_xhci_ring_cmd_db_low_def Let_def)
qed

text \<open>
  Completion of a cache write on a working device: whether or not a doorbell was waiting
  for the data, the completion routine does not fault, the work context leaves the used
  queue and joins the tail of the free queue, both queues stay disjoint, and the lock is
  free again.
\<close>

theorem CompletionRoutine_Cache_returns:
  assumes "doorbell_inv s" and "no_late_failure k" and ok: "device_ok s"
    and "urb_context u = CacheWorkPtr w" and cw: "cache_works s w = Some cw" "cw_UrbContext cw = Some a"
    and c: "urb_contexts s a \<noteq> None" "a < next_addr s" and unlocked: "\<not> cache_list_lock s"
    and pool: "pool_ok (cache_queue_free s) (cache_queue_used s)" and w: "w \<in> set (cache_queue_used s)"
  shows "\<exists>t. URB_CompletionRoutine_Cache k u s = Some t \<and> cache_queue_free t = cache_queue_free s @ [w]
     \<and> cache_queue_used t = remove1 w (cache_queue_used s)
     \<and> pool_ok (cache_queue_free t) (cache_queue_used t) \<and> \<not> cache_list_lock t"
proof -
  define s2 where "s2 = unlock_cache_list (s\<lparr>cache_list_lock := True,
     cache_queue_free := list_del w (cache_queue_free s), cache_queue_used := list_del w (cache_queue_used s)\<rparr>)"
  have inv: "doorbell_inv s2" "device_ok s2"
    using assms(1) ok
    by (simp_all add: s2_def unlock_cache_list_def doorbell_inv_def doorbell_pool_def doorbells.nodes_def
        heap_fresh_def interface_bound_def device_ok_def)
  let ?ring = "if cw_ring_doorbell cw
     then (if cw_stream_id cw \<noteq> - 1
           then ehub_xhci_ring_ep_doorbell k (cw_slot_id cw) (cw_ep_index cw) (cw_stream_id cw) s2
           else ehub_xhci_ring_cmd_db_low k s2) else Some s2"
  have "\<exists>t. ?ring = Some t" using ring_doorbell_ok [OF inv(1) assms(2) inv(2)] by auto
  then obtain s3 where s3: "?ring = Some s3" by blast
  have "same_queues s2 s3"
    using s3 doorbell_same_queues(2,3) by (auto simp: same_queues_def split: if_splits)
  moreover have "cache_queue_free s2 = cache_queue_free s" "cache_queue_used s2 = remove1 w (cache_queue_used s)"
    "\<not> cache_list_lock s2" "urb_contexts s2 = urb_contexts s" "next_addr s2 = next_addr s"
    using pool w remove1_idem [of w "cache_queue_free s"]
    by (auto simp: s2_def unlock_cache_list_def list_del_def pool_ok_def)
  ultimately have q: "cache_queue_free s3 = cache_queue_free s" "cache_queue_used s3 = remove1 w (cache_queue_used s)"
    "\<not> cache_list_lock s3" "urb_contexts s3 a \<noteq> None"
    using c by (auto simp: same_queues_def)
  then obtain c' where c': "urb_contexts s3 a = Some c'" by blast
  have "lock_cache_list s = Some (s\<lparr>cache_list_lock := True\<rparr>)" using unlocked by (simp add: lock_cache_list_def)
  then have "URB_CompletionRoutine_Cache k u s = Some (unlock_cache_list
      ((put_urb a (c'\<lparr>uc_Status := URB_STATUS_COMPLETE\<rparr>) s3)\<lparr>cache_list_lock := True,
        cache_queue_free := list_add_tail w (cache_queue_free s3)\<rparr>))"
    using assms(4) cw ok s3 c' q
    by (simp add: URB_CompletionRoutine_Cache_def s2_def [symmetric] lock_cache_list_def put_urb_def)
  with q pool w show ?thesis
    by (auto simp: unlock_cache_list_def put_urb_def pool_ok_def list_add_tail_def)
qed

definition demo_cache_write :: ehub where
  "demo_cache_write = ready_ehub\<lparr>next_addr := 1, cache_queue_used := [0],
     urb_contexts := [0 \<mapsto> new_URB_CONTEXT (UsbPipeCacheOut ready_ehub) 2056 URB_CompletionRoutine_Cache_ptr
        (Some (CacheWorkPtr 0)) 0],
     cache_works := [0 \<mapsto> \<lparr>cw_UrbContext = Some 0, cw_CacheAddress = 0, cw_DataBuffer = None,
        cw_DataBufferLength = 0, cw_TrbCycleState = 0, cw_ring_doorbell = True,
        cw_slot_id = 1, cw_ep_index = 2, cw_stream_id = 0\<rparr>]\<rparr>"

theorem CompletionRoutine_Cache_returns_witness:
  "\<exists>u t. URB_CompletionRoutine_Cache quiet_env u demo_cache_write = Some t \<and> cache_queue_free t = [0]
     \<and> cache_queue_used t = []"
proof -
  let ?u = "the (uc_Urb (new_URB_CONTEXT (UsbPipeCacheOut ready_ehub) 2056 URB_CompletionRoutine_Cache_ptr
     (Some (CacheWorkPtr 0)) 0))"
  have "doorbell_inv demo_cache_write" "device_ok demo_cache_write"
    using demo_doorbell_inv
    by (simp_all add: demo_cache_write_def doorbell_inv_def doorbell_pool_def doorbells.nodes_def heap_fresh_def
        demo_defs interface_bound_def device_ok_def)
  from CompletionRoutine_Cache_returns [OF this(1) quiet_env_no_late_failure this(2), of ?u 0]
  show ?thesis by (force simp: demo_cache_write_def demo_defs pool_ok_def new_URB_CONTEXT_def)
qed

text \<open>
  C40. When fewer blocks are free than a URB needs, the allocation answers -ENOMEM but leaves
  with the lock of the cache lists held: any later operation that takes the lock never
  returns.
\<close>

theorem allocate_urb_keeps_lock:
  assumes "number_of_caches_free s < int (DIV_ROUND_UP (length (transfer_buffer u)) EHUB_CACHE_BLOCK_SIZE)"
    and "\<not> cache_list_lock s"
  shows "\<exists>t. ehub_xhci_cache_block_allocate_urb k u priv s = Some ((- ENOMEM, priv), t) \<and> cache_list_lock t
     \<and> ehub_xhci_cache_block_allocate t = None \<and> ehub_xhci_cache_block_free b t = None
     \<and> ehub_xhci_cache_block_allocate_urb k u' priv' t = None"
  using assms
  by (simp add: ehub_xhci_cache_block_allocate_urb_def lock_cache_list_def ehub_xhci_cache_block_allocate_def
      ehub_xhci_cache_block_free_def)

theorem allocate_urb_keeps_lock_witness:
  "\<exists>t. ehub_xhci_cache_block_allocate_urb quiet_env \<lparr>client_id = 7, transfer_buffer = replicate 3000 0\<rparr>
       new_priv demo_blocks = Some ((- ENOMEM, new_priv), t) \<and> ehub_xhci_cache_block_allocate t = None"
proof -
  have "\<not> cache_list_lock demo_blocks" "number_of_caches_free demo_blocks < int (DIV_ROUND_UP
      (length (transfer_buffer \<lparr>client_id = 7, transfer_buffer = replicate 3000 0\<rparr>)) EHUB_CACHE_BLOCK_SIZE)"
    by (simp_all add: demo_blocks_def EHUB_CACHE_BLOCK_SIZE_def DIV_ROUND_UP_def demo_defs)
  from allocate_urb_keeps_lock [OF this(2,1)] show ?thesis by blast
qed

end
