(* ===== verification/Xhci_Cache_Copy.thy ===== *)
theory Xhci_Cache_Copy
  imports Xhci_Ring_Build Ehub_Cache_Props
begin

text \<open>
  The copy of a ring into the cache memory of the device. The loop over segments ends, and
  when the device accepts the transfers, what it receives is exactly the TRBs from the first
  one not yet copied to the last one queued, each at the address of its position in the
  cache block of its segment.
\<close>

section \<open>The predecessor of a position\<close>

definition prev_pos :: "nat \<Rightarrow> nat \<Rightarrow> nat" where
  "prev_pos N e = (if e = 0 then N - 1 else e - 1)"

lemma prev_pos: "e < N \<Longrightarrow> prev_pos N e < N \<and> Suc (prev_pos N e) mod N = e"
  by (auto simp: prev_pos_def)

lemma find_prev_loop_chain:
  assumes c: "chain_ok h ss" and i: "i < length ss"
  shows "j < length ss \<Longrightarrow> j \<noteq> i \<Longrightarrow>
    find_prev_loop h (ss ! i) (ss ! j) = Some (Some (ss ! prev_pos (length ss) i, 63))"
proof (induction "dist (length ss) j i" arbitrary: j)
  case 0
  then show ?case using dist_0_iff [OF 0(2) i] by simp
next
  case (Suc k)
  let ?n = "length ss"
  have d: "distinct ss" using c by (simp add: chain_ok_def)
  have ne: "ss ! j \<noteq> ss ! i" using Suc(3,4) i d by (simp add: nth_eq_iff_index_eq)
  have nx: "next_of h (ss ! j) = Some (ss ! (Suc j mod ?n))" using c Suc(3) by (auto simp: chain_ok_def next_of_def)
  have j': "Suc j mod ?n < ?n" by (rule Suc_mod_less [OF Suc(3)])
  show ?case
  proof (cases "Suc j mod ?n = i")
    case True
    then have "j = prev_pos ?n i" using Suc(3) i by (auto simp: prev_pos_def Suc_mod split: if_splits)
    then show ?thesis using ne nx True
      by (subst find_prev_loop.simps) (simp add: ehub_xhci_get_link_trb_from_segment_def LINK_TRB_INDEX_def TRBS_PER_SEGMENT_def)
  next
    case False
    then have "k = dist ?n (Suc j mod ?n) i" using Suc(2) dist_Suc_left [OF Suc(3) i Suc(4)] by simp
    from Suc(1) [OF this j' False] show ?thesis
      using ne nx False j' i d by (subst find_prev_loop.simps) (simp add: nth_eq_iff_index_eq)
  qed
qed

lemma find_prev_trb_pos:
  assumes c: "chain_ok h ss" and e: "e < 64 * length ss" and "e mod 64 \<noteq> 0 \<or> 1 < length ss"
  shows "ehub_find_prev_trb h (e mod 64) (seg_at ss e)
     = Some (Some (seg_at ss (prev_pos (64 * length ss) e), prev_pos (64 * length ss) e mod 64))"
proof (cases "e mod 64 = 0")
  case False
  then obtain q where q: "e = Suc q" "e mod 64 = Suc (q mod 64)" by (cases e) (auto simp: mod_Suc split: if_splits)
  then have "e div 64 = q div 64" by (simp add: div_Suc)
  then show ?thesis using q by (simp add: ehub_find_prev_trb_def prev_pos_def seg_at_def)
next
  case True
  let ?n = "length ss" and ?i = "e div 64"
  have i: "?i < ?n" "1 < ?n" using pos_index [OF e] assms(3) True by auto
  have j: "Suc ?i mod ?n < ?n" "Suc ?i mod ?n \<noteq> ?i" using i by (auto simp: Suc_mod)
  have nx: "next_of h (seg_at ss e) = Some (ss ! (Suc ?i mod ?n))"
    using c i(1) by (auto simp: chain_ok_def next_of_def seg_at_def)
  have e64: "e = 64 * ?i" using True div_mult_mod_eq [of e 64] by simp
  have "prev_pos (64 * ?n) e div 64 = prev_pos ?n ?i \<and> prev_pos (64 * ?n) e mod 64 = 63"
  proof (cases ?i)
    case 0
    then obtain m where "?n = Suc m" using i by (cases ?n) auto
    then have "64 * ?n - 1 = 64 * m + 63" "?n - 1 = m" by simp_all
    then show ?thesis using 0 e64 by (simp add: prev_pos_def)
  next
    case (Suc m)
    then have "e - 1 = 64 * m + 63" using e64 by simp
    then show ?thesis using Suc e64 by (simp add: prev_pos_def)
  qed
  then show ?thesis
    using nx find_prev_loop_chain [OF c i(1) j] True by (simp add: ehub_find_prev_trb_def seg_at_def)
qed

section \<open>The copy\<close>

lemma length_trb_bytes [simp]: "length (trb_bytes t) = 16"
  by (cases t) simp

lemma take_trb_bytes: "take (16 * m) (concat (map trb_bytes ts)) = concat (map trb_bytes (take m ts))"
proof (induction ts arbitrary: m)
  case (Cons t ts)
  then show ?case by (cases m) auto
qed simp

lemma length_trbs_bytes: "length (concat (map trb_bytes ts)) = 16 * length ts"
  by (induction ts) auto

text \<open>The cache block of the segment at a position.\<close>

definition block_at :: "seg_heap \<Rightarrow> ehub \<Rightarrow> seg_id list \<Rightarrow> nat \<Rightarrow> EHUB_CACHE_BLOCK" where
  "block_at h s ss p = the (cache_blocks s (the (EhubCacheBlock (the (h (seg_at ss p))))))"

definition cache_addr :: "seg_heap \<Rightarrow> ehub \<Rightarrow> seg_id list \<Rightarrow> nat \<Rightarrow> u32" where
  "cache_addr h s ss p = Address (block_at h s ss p) + of_nat (16 * (p mod 64))"

definition cached :: "seg_heap \<Rightarrow> ehub \<Rightarrow> seg_id list \<Rightarrow> bool" where
  "cached h s ss \<longleftrightarrow> (\<forall>g \<in> set ss. \<exists>sg b blk. h g = Some sg \<and> EhubCacheBlock sg = Some b \<and> cache_blocks s b = Some blk
     \<and> 0 < unat (Address blk) \<and> unat (Address blk) mod 8 = 0 \<and> unat (Address blk) + 1024 \<le> 2 ^ 32)"

text \<open>A transfer that carries the \<open>m\<close> TRBs from position \<open>p\<close> on to their place.\<close>

definition sends :: "seg_heap \<Rightarrow> ehub \<Rightarrow> seg_id list \<Rightarrow> nat \<times> nat \<Rightarrow> u8 list \<Rightarrow> bool" where
  "sends h s ss = (\<lambda>(p, m) bs. decode_cache_transfer bs
     = Some (cache_addr h s ss p, concat (map (\<lambda>q. trb_bytes (trb_of h ss q)) [p..<p + m])))"

lemma segment_run:
  assumes c: "chain_ok h ss" and p: "p < 64 * length ss" and m: "p mod 64 + m \<le> 64"
    and sg: "h (seg_at ss p) = Some sg"
  shows "take m (drop (p mod 64) (trbs sg)) = map (trb_of h ss) [p..<p + m]"
proof (rule nth_equalityI)
  have l: "length (trbs sg) = 64" using chain_seg [OF c p] sg by auto
  then show "length (take m (drop (p mod 64) (trbs sg))) = length (map (trb_of h ss) [p..<p + m])" using m by simp
  fix i assume "i < length (take m (drop (p mod 64) (trbs sg)))"
  then have i: "i < m" by simp
  have "(p + i) div 64 = p div 64" "(p + i) mod 64 = p mod 64 + i"
  proof -
    have "p + i = p div 64 * 64 + (p mod 64 + i)" by simp
    moreover have "p mod 64 + i < 64" using i m by linarith
    ultimately show "(p + i) div 64 = p div 64" "(p + i) mod 64 = p mod 64 + i"
      by (metis add.right_neutral div_less div_mult_self3 zero_neq_numeral, metis mod_less mod_mult_self3)
  qed
  then show "take m (drop (p mod 64) (trbs sg)) ! i = map (trb_of h ss) [p..<p + m] ! i"
    using i m l sg by (simp add: trb_of_def seg_at_def)
qed

lemma aligned_addr:
  fixes a :: u32
  assumes "unat a mod 8 = 0" and "unat a + 1024 \<le> 2 ^ 32" and "i < 64"
  shows "unat (a + of_nat (16 * i)) = unat a + 16 * i" and "(a + of_nat (16 * i)) AND 7 = 0"
    and "ucast (ucast a + of_nat (16 * i) :: u64) = a + of_nat (16 * i)" and "unat (ucast a + of_nat (16 * i) :: u64) = unat a + 16 * i"
proof -
  show u: "unat (a + of_nat (16 * i)) = unat a + 16 * i"
    using assms(2,3) by (simp add: unat_word_ariths unat_of_nat)
  have "(a + of_nat (16 * i)) AND 7 = take_bit 3 (a + of_nat (16 * i))"
    by (simp add: take_bit_eq_mask mask_eq_exp_minus_1)
  moreover have "unat (take_bit 3 (a + of_nat (16 * i))) = (unat a + 16 * i) mod 8"
    using u by (simp add: take_bit_eq_mod unat_mod)
  moreover have "(unat a + 16 * i) mod 8 = 0" using assms(1) by presburger
  ultimately show "(a + of_nat (16 * i)) AND 7 = 0" by (simp add: unsigned_eq_0_iff)
  show w: "unat (ucast a + of_nat (16 * i) :: u64) = unat a + 16 * i"
    using assms(2,3) by (simp add: unat_word_ariths unat_of_nat unsigned_ucast_eq take_bit_eq_mod)
  then show "ucast (ucast a + of_nat (16 * i) :: u64) = a + of_nat (16 * i)"
    using u by (simp add: word_unat_eq_iff unsigned_ucast_eq take_bit_eq_mod)
      (use assms(2,3) in simp)
qed

section \<open>The loop\<close>

text \<open>The TRBs one turn of the loop sends from position \<open>p\<close> when \<open>l\<close> is the last one.\<close>

definition last_run :: "nat \<Rightarrow> nat \<Rightarrow> bool" where
  "last_run l p \<longleftrightarrow> p div 64 = l div 64 \<and> p \<le> l"

definition run_length :: "nat \<Rightarrow> nat \<Rightarrow> nat" where
  "run_length l p = (if last_run l p then Suc (l - p) else 64 - p mod 64)"

lemma same_segment: "(a::nat) div 64 = b div 64 \<Longrightarrow> (a mod 64 \<le> b mod 64) = (a \<le> b)"
  using div_mult_mod_eq [of a 64] div_mult_mod_eq [of b 64] by linarith

lemma run_length_bounds: "0 < run_length l p" "p mod 64 + run_length l p \<le> 64"
proof -
  have "p \<le> l \<Longrightarrow> p div 64 = l div 64 \<Longrightarrow> p mod 64 + Suc (l - p) = Suc (l mod 64)"
    using div_mult_mod_eq [of p 64] div_mult_mod_eq [of l 64] by linarith
  moreover have "l mod 64 < 64" "p mod 64 < 64" by simp_all
  ultimately show "0 < run_length l p" "p mod 64 + run_length l p \<le> 64"
    by (auto simp: run_length_def last_run_def)
qed

lemma copy_end_pos:
  assumes c: "chain_ok h ss" and p: "p < 64 * length ss" and l: "l < 64 * length ss"
  shows "copy_end (Some (seg_at ss l, l mod 64)) (seg_at ss p) (p mod 64) = (p mod 64 + run_length l p - 1, last_run l p)"
proof -
  have "seg_at ss p = seg_at ss l \<longleftrightarrow> p div 64 = l div 64"
    using c pos_index [OF p] pos_index [OF l] by (auto simp: chain_ok_def seg_at_def nth_eq_iff_index_eq)
  moreover have "p mod 64 + run_length l p - 1 = l mod 64" if "last_run l p"
  proof -
    have "p mod 64 + Suc (l - p) = Suc (l mod 64)"
      using that div_mult_mod_eq [of p 64] div_mult_mod_eq [of l 64] unfolding last_run_def by linarith
    then show ?thesis using that by (simp add: run_length_def)
  qed
  moreover have "\<not> last_run l p \<Longrightarrow> p mod 64 + run_length l p - 1 = 63" by (simp add: run_length_def)
  ultimately show ?thesis
    using same_segment [of p l]
    by (auto simp: copy_end_def last_run_def ehub_xhci_get_link_trb_from_segment_def LINK_TRB_INDEX_def TRBS_PER_SEGMENT_def)
qed

lemma next_run:
  assumes p: "p < 64 * n" and l: "l < 64 * n" and "\<not> last_run l p"
  defines "m \<equiv> run_length l p"
  defines "q \<equiv> (p + m) mod (64 * n)"
  shows "q < 64 * n" and "q mod 64 = 0" and "q div 64 = Suc (p div 64) mod n"
    and "dist (64 * n) p l = m + dist (64 * n) q l"
proof -
  let ?i = "p div 64"
  have i: "?i < n" using p by (simp add: less_mult_imp_div_less mult.commute)
  have "p mod 64 < 64" by simp
  then have "m + p mod 64 = 64" using assms(3) by (simp add: m_def run_length_def)
  then have pm: "p + m = 64 * Suc ?i" unfolding mult_Suc_right using div_mult_mod_eq [of p 64] by linarith
  then have q: "q = 64 * (Suc ?i mod n)" unfolding q_def by (simp only: mult_mod_right)
  then show "q < 64 * n" "q mod 64 = 0" "q div 64 = Suc (p div 64) mod n" using i by simp_all
  have far: "l < p \<or> p + m \<le> l"
  proof (rule ccontr)
    assume "\<not> ?thesis"
    then have "p \<le> l" "l < 64 * Suc ?i" using pm by auto
    then have "last_run l p" using div_mult_mod_eq [of p 64] by (simp add: last_run_def)
    then show False using assms(3) by simp
  qed
  show "dist (64 * n) p l = m + dist (64 * n) q l"
  proof (cases "Suc ?i = n")
    case True
    then have "q = 0" "p + m = 64 * n" using q pm by simp_all
    then show ?thesis using far l p by (auto simp: dist_eq)
  next
    case False
    then have "q = p + m" "q < 64 * n" using q pm i by simp_all
    then show ?thesis using far l p by (auto simp: dist_eq)
  qed
qed

lemma walk_run:
  assumes "p < 64 * n" and "l < 64 * n" and "j \<le> run_length l p"
  shows "walk (64 * n) p j = [p..<p + j]"
proof -
  have "p mod 64 + j \<le> 64" using assms(3) run_length_bounds [of p l] by simp
  moreover have "p div 64 < n" using assms(1) by (simp add: less_mult_imp_div_less mult.commute)
  ultimately have "p + j \<le> 64 * n" using div_mult_mod_eq [of p 64] by linarith
  then have "\<And>i. i < j \<Longrightarrow> (p + i) mod (64 * n) = p + i" by simp
  then show ?thesis by (intro nth_equalityI) (simp_all add: walk_def)
qed

lemma run_bytes:
  assumes c: "chain_ok h ss" and p: "p < 64 * length ss" and m: "p mod 64 + m \<le> 64" and sg: "h (seg_at ss p) = Some sg"
  shows "16 * m \<le> length (concat (map trb_bytes (drop (p mod 64) (trbs sg))))"
    and "take (16 * m) (concat (map trb_bytes (drop (p mod 64) (trbs sg))))
      = concat (map (\<lambda>q. trb_bytes (trb_of h ss q)) [p..<p + m])"
proof -
  have "length (trbs sg) = 64" using chain_seg [OF c p] sg by auto
  then show "16 * m \<le> length (concat (map trb_bytes (drop (p mod 64) (trbs sg))))"
    using m by (simp add: length_trbs_bytes)
  show "take (16 * m) (concat (map trb_bytes (drop (p mod 64) (trbs sg))))
      = concat (map (\<lambda>q. trb_bytes (trb_of h ss q)) [p..<p + m])"
    by (simp add: take_trb_bytes segment_run [OF c p m sg] comp_def)
qed

text \<open>One turn of the loop sends one run of TRBs.\<close>

lemma copy_write:
  assumes k: "accepting k" "work_pool s" "\<not> cache_list_lock s" "device_ok s"
    and c: "chain_ok h ss" and ca: "cached h s ss" and p: "p < 64 * length ss" and m: "0 < m" "p mod 64 + m \<le> 64"
    and sg: "h (seg_at ss p) = Some sg"
  shows "\<exists>b blk st t bs. EhubCacheBlock sg = Some b \<and> cache_blocks s b = Some blk
     \<and> (ucast (Address blk) + of_nat (16 * (p mod 64)) :: u64) \<noteq> 0
     \<and> (of_int (1 + int (p mod 64 + m - 1) - int (p mod 64)) :: u32) * 16 \<noteq> 0
     \<and> ehub_queue_cache_write k (ucast (ucast (Address blk) + of_nat (16 * (p mod 64)) :: u64))
         (Some (concat (map trb_bytes (drop (p mod 64) (trbs sg)))))
         (of_int (1 + int (p mod 64 + m - 1) - int (p mod 64)) * 16) (- 1) db sl ep stream s = Some (st, t)
     \<and> 0 \<le> st \<and> work_pool t \<and> same_blocks s t \<and> \<not> cache_list_lock t \<and> device_ok t
     \<and> usb_log t = usb_log s @ [(UsbPipeCacheOut s, bs)] \<and> sends h s ss (p, m) bs"
proof -
  let ?i = "p mod 64"
  have "seg_at ss p \<in> set ss" using pos_index [OF p] by (simp add: seg_at_def)
  then obtain b blk where b: "EhubCacheBlock sg = Some b" "cache_blocks s b = Some blk" "0 < unat (Address blk)"
    "unat (Address blk) mod 8 = 0" "unat (Address blk) + 1024 \<le> 2 ^ 32"
    using ca sg unfolding cached_def by fastforce
  have i: "?i < 64" by simp
  note a = aligned_addr [OF b(4,5) i]
  have ln: "(of_int (1 + int (?i + m - 1) - int ?i) :: u32) * 16 = of_nat (16 * m)"
  proof -
    have "1 + int (?i + m - 1) - int ?i = int m" using m(1) by simp
    then show ?thesis by (simp add: mult.commute)
  qed
  have ul: "unat (of_nat (16 * m) :: u32) = 16 * m" unfolding unat_of_nat using m(2) by simp
  note rb = run_bytes [OF c p m(2) sg]
  have ca': "cache_addr h s ss p = Address blk + of_nat (16 * ?i)"
    using sg b(1,2) by (simp add: cache_addr_def block_at_def)
  have fits: "unat (of_nat (16 * m) :: u32) \<le> length (concat (map trb_bytes (drop ?i (trbs sg))))"
    "unat (of_nat (16 * m) :: u32) \<le> MESSAGE_DATA_BUFFER_SIZE_CACHE"
    unfolding ul using rb(1) m(2) by simp_all
  obtain st t bs d where w: "ehub_queue_cache_write k (Address blk + of_nat (16 * ?i))
      (Some (concat (map trb_bytes (drop ?i (trbs sg))))) (of_nat (16 * m)) (- 1) db sl ep stream s = Some (st, t)"
    "0 \<le> st" "work_pool t" "same_blocks s t" "\<not> cache_list_lock t" "device_ok t"
    "usb_log t = usb_log s @ [(UsbPipeCacheOut s, bs)]"
    "decode_cache_transfer bs = Some (Address blk + of_nat (16 * ?i), d)"
    "length d = roundup (16 * m) 8" "take (16 * m) d = take (16 * m) (concat (map trb_bytes (drop ?i (trbs sg))))"
    using queue_write_accepted [OF k a(2) fits, of "- 1" db sl ep stream] unfolding ul by blast
  have "roundup (16 * m) 8 = 16 * m" by (rule roundup_exact) (simp_all add: dvd_mult2)
  then have "sends h s ss (p, m) bs" using w(8,9,10) rb(2) ca' by (simp add: sends_def)
  moreover have "(ucast (Address blk) + of_nat (16 * ?i) :: u64) \<noteq> 0" using a(4) b(3) by (metis add_is_0 less_numeral_extra(3) unsigned_0)
  moreover have "(of_nat (16 * m) :: u32) \<noteq> 0" using ul m(1) by (metis mult_is_0 not_gr_zero unsigned_0 zero_neq_numeral)
  moreover note w(1) [folded a(3)]
  ultimately show ?thesis unfolding ln using b(1,2) w(2-7) by blast
qed

definition run_positions :: "(nat \<times> nat) list \<Rightarrow> nat list" where
  "run_positions runs = concat (map (\<lambda>(p, m). [p..<p + m]) runs)"

lemma sends_same_blocks: "same_blocks s t \<Longrightarrow> sends h t ss = sends h s ss \<and> cached h t ss = cached h s ss"
  by (simp add: same_blocks_def sends_def cached_def cache_addr_def block_at_def fun_eq_iff)

lemma copy_loop_ok:
  assumes k: "accepting k" and c: "chain_ok h ss" and l: "l < 64 * length ss"
  shows "p < 64 * length ss \<Longrightarrow> work_pool s \<Longrightarrow> \<not> cache_list_lock s \<Longrightarrow> device_ok s \<Longrightarrow> cached h s ss \<Longrightarrow>
    \<exists>t runs bss. copy_loop k sl ep stream db h (Some (seg_at ss l, l mod 64)) (seg_at ss p) (p mod 64) s = Some t
      \<and> work_pool t \<and> \<not> cache_list_lock t \<and> device_ok t \<and> same_blocks s t
      \<and> usb_log t = usb_log s @ map (Pair (UsbPipeCacheOut s)) bss \<and> list_all2 (sends h s ss) runs bss
      \<and> run_positions runs = walk (64 * length ss) p (Suc (dist (64 * length ss) p l))"
proof (induction "dist (64 * length ss) p l" arbitrary: p s rule: less_induct)
  case less
  let ?N = "64 * length ss" and ?m = "run_length l p" and ?d = "last_run l p \<and> db"
  note prems = less.prems
  obtain sg where sg: "h (seg_at ss p) = Some sg" "next_seg sg = Some (ss ! (Suc (p div 64) mod length ss))"
    using chain_seg [OF c prems(1)] by blast
  obtain b blk st t bs where w: "EhubCacheBlock sg = Some b" "cache_blocks s b = Some blk"
    "(ucast (Address blk) + of_nat (16 * (p mod 64)) :: u64) \<noteq> 0"
    "(of_int (1 + int (p mod 64 + ?m - 1) - int (p mod 64)) :: u32) * 16 \<noteq> 0"
    "ehub_queue_cache_write k (ucast (ucast (Address blk) + of_nat (16 * (p mod 64)) :: u64))
         (Some (concat (map trb_bytes (drop (p mod 64) (trbs sg)))))
         (of_int (1 + int (p mod 64 + ?m - 1) - int (p mod 64)) * 16) (- 1) ?d sl ep stream s = Some (st, t)"
    "0 \<le> st" and t: "work_pool t" "same_blocks s t" "\<not> cache_list_lock t" "device_ok t"
    "usb_log t = usb_log s @ [(UsbPipeCacheOut s, bs)]" "sends h s ss (p, ?m) bs"
    using copy_write [OF k prems(2-4) c prems(5,1) run_length_bounds sg(1)] by blast
  let ?L = "copy_loop k sl ep stream db h (Some (seg_at ss l, l mod 64))"
  have step: "?L (seg_at ss p) (p mod 64) s
      = (if last_run l p then Some t else ?L (ss ! (Suc (p div 64) mod length ss)) 0 t)"
    unfolding copy_loop.simps [of k sl ep stream db h "Some (seg_at ss l, l mod 64)" "seg_at ss p"]
    using sg w copy_end_pos [OF c prems(1) l] by (simp add: Let_def)
  show ?case
  proof (cases "last_run l p")
    case True
    then have "dist ?N p l = l - p" "?m = Suc (l - p)"
      using prems(1) l by (simp_all add: dist_eq last_run_def run_length_def)
    then have "walk ?N p (Suc (dist ?N p l)) = run_positions [(p, ?m)]"
      using walk_run [OF prems(1) l, of ?m] by (simp add: run_positions_def)
    moreover have "list_all2 (sends h s ss) [(p, ?m)] [bs]" using t(6) by simp
    moreover have "usb_log t = usb_log s @ map (Pair (UsbPipeCacheOut s)) [bs]" using t(5) by simp
    ultimately show ?thesis using step True t(1-4) by metis
  next
    case False
    let ?q = "(p + ?m) mod ?N"
    note q = next_run [OF prems(1) l False]
    have lt: "dist ?N ?q l < dist ?N p l" using q(4) run_length_bounds(1) [of l p] by simp
    have ca: "cached h t ss" using prems(5) sends_same_blocks [OF t(2)] by blast
    obtain u runs bss where u: "?L (seg_at ss ?q) (?q mod 64) t = Some u"
      "work_pool u" "\<not> cache_list_lock u" "device_ok u" "same_blocks t u"
      "usb_log u = usb_log t @ map (Pair (UsbPipeCacheOut t)) bss" "list_all2 (sends h t ss) runs bss"
      "run_positions runs = walk ?N ?q (Suc (dist ?N ?q l))"
      using less.hyps [OF lt q(1) t(1,3,4) ca] by blast
    have "?L (seg_at ss p) (p mod 64) s = Some u" using step False u(1) q(2,3) by (simp add: seg_at_def)
    moreover have "same_blocks s u" by (rule same_blocks_trans [OF t(2) u(5)])
    moreover have "usb_log u = usb_log s @ map (Pair (UsbPipeCacheOut s)) (bs # bss)"
      using u(6) t(2,5) by (simp add: same_blocks_def)
    moreover have "list_all2 (sends h s ss) ((p, ?m) # runs) (bs # bss)"
      using u(7) t(6) sends_same_blocks [OF t(2)] by simp
    moreover have "run_positions ((p, ?m) # runs) = walk ?N p (Suc (dist ?N p l))"
    proof -
      have "Suc (dist ?N p l) = ?m + Suc (dist ?N ?q l)" using q(4) by simp
      then have "walk ?N p (Suc (dist ?N p l)) = walk ?N p ?m @ walk ?N ?q (Suc (dist ?N ?q l))" by (simp only: walk_add)
      then show ?thesis using u(8) walk_run [OF prems(1) l, of ?m] by (simp add: run_positions_def)
    qed
    ultimately show ?thesis using u(2-4) by blast
  qed
qed

section \<open>Property\<close>

lemma dist_prev_pos:
  assumes "p < N" and "e < N"
  shows "Suc (dist N p (prev_pos N e)) = (if p = e then N else dist N p e)"
  using assms by (auto simp: dist_eq prev_pos_def)

lemma copy_from_ring_ok:
  assumes "accepting k" and "work_pool s" and "\<not> cache_list_lock s" and "device_ok s"
    and "chain_ok (segs r) ss" and "cached (segs r) s ss"
    and "e < 64 * length ss" and "enq_seg r = seg_at ss e" and "enqueue r = e mod 64"
    and "p < 64 * length ss" and "cache_enq_seg r = seg_at ss p" and "cache_enqueue r = p mod 64"
    and "e mod 64 \<noteq> 0 \<or> 1 < length ss"
  shows "\<exists>t runs bss. ehub_xhci_cache_copy_from_ring k slot ep stream db r s
        = Some (r\<lparr>cache_enqueue := enqueue r, cache_enq_seg := enq_seg r\<rparr>, t)
     \<and> usb_log t = usb_log s @ map (Pair (UsbPipeCacheOut s)) bss
     \<and> list_all2 (sends (segs r) s ss) runs bss
     \<and> run_positions runs = walk (64 * length ss) p (if p = e then 64 * length ss else dist (64 * length ss) p e)
     \<and> work_pool t \<and> same_blocks s t \<and> \<not> cache_list_lock t \<and> device_ok t"
proof -
  let ?N = "64 * length ss" and ?l = "prev_pos (64 * length ss) e"
  have l: "?l < ?N" using prev_pos [OF assms(7)] by simp
  obtain t runs bss where t: "copy_loop k slot ep stream db (segs r) (Some (seg_at ss ?l, ?l mod 64)) (seg_at ss p) (p mod 64) s = Some t"
    "work_pool t" "\<not> cache_list_lock t" "device_ok t" "same_blocks s t"
    "usb_log t = usb_log s @ map (Pair (UsbPipeCacheOut s)) bss" "list_all2 (sends (segs r) s ss) runs bss"
    "run_positions runs = walk ?N p (Suc (dist ?N p ?l))"
    using copy_loop_ok [OF assms(1,5) l assms(10,2,3,4,6)] by blast
  have "ehub_xhci_cache_copy_from_ring k slot ep stream db r s
      = Some (r\<lparr>cache_enqueue := enqueue r, cache_enq_seg := enq_seg r\<rparr>, t)"
    using find_prev_trb_pos [OF assms(5,7,13)] t(1) assms(8,9,11,12) by (simp add: ehub_xhci_cache_copy_from_ring_def)
  then show ?thesis using t(2-7) t(8) [unfolded dist_prev_pos [OF assms(10,7)]] by blast
qed

text \<open>
  C35. Copying a ring to the cache memory ends, and on a device that accepts the transfers it sends
  exactly the TRBs between the first position not yet copied and the enqueue position (the whole
  circle when the two are equal), each once and in ring order: every transfer decodes to the bytes
  of a run of TRBs at the address of the run inside the cache block of its segment. Afterwards the
  copied position is the enqueue position, and the pool of cache work contexts is intact.
\<close>

theorem copy_from_ring_correct:
  assumes "accepting k" and "work_pool s" and "\<not> cache_list_lock s" and "device_ok s"
    and "chain_ok (segs r) ss" and "cached (segs r) s ss"
    and "e < 64 * length ss" and "enq_seg r = seg_at ss e" and "enqueue r = e mod 64"
    and "p < 64 * length ss" and "cache_enq_seg r = seg_at ss p" and "cache_enqueue r = p mod 64"
    and "e mod 64 \<noteq> 0 \<or> 1 < length ss"
  shows "\<exists>t runs bss. ehub_xhci_cache_copy_from_ring k slot ep stream db r s
        = Some (r\<lparr>cache_enqueue := enqueue r, cache_enq_seg := enq_seg r\<rparr>, t)
     \<and> usb_log t = usb_log s @ map (Pair (UsbPipeCacheOut s)) bss
     \<and> list_all2 (sends (segs r) s ss) runs bss
     \<and> run_positions runs = walk (64 * length ss) p (if p = e then 64 * length ss else dist (64 * length ss) p e)
     \<and> work_pool t \<and> same_blocks s t \<and> \<not> cache_list_lock t"
  using copy_from_ring_ok [OF assms] by blast

definition demo_cached_ring :: xhci_ring where
  "demo_cached_ring = (zero_ring 1 TYPE_BULK)\<lparr>enqueue := 3, cache_enqueue := 1,
     segs := [0 \<mapsto> \<lparr>trbs = replicate 64 (TRB 0 0 0 0x401), next_seg = Some 0, dma = 0, EhubCacheBlock = Some 1\<rparr>]\<rparr>"

theorem copy_from_ring_correct_witness:
  "\<exists>t runs bss. ehub_xhci_cache_copy_from_ring quiet_env 1 2 0 True demo_cached_ring demo_blocks
        = Some (demo_cached_ring\<lparr>cache_enqueue := 3\<rparr>, t)
     \<and> list_all2 (sends (segs demo_cached_ring) demo_blocks [0]) runs bss \<and> run_positions runs = [1, 2]"
proof -
  have c: "chain_ok (segs demo_cached_ring) [0]" by (simp add: chain_ok_def demo_cached_ring_def)
  have ca: "cached (segs demo_cached_ring) demo_blocks [0]"
    by (simp add: cached_def demo_cached_ring_def demo_blocks_def demo_defs fresh_block_def EHUB_CACHE_BLOCK_SIZE_def
        EHUB_CACHE_START_ADDRESS_def)
  have s: "\<not> cache_list_lock demo_blocks" "device_ok demo_blocks"
    by (simp_all add: demo_blocks_def demo_defs device_ok_def interface_bound_def)
  have w: "walk 64 1 (dist 64 1 3) = [1, 2]" by (simp add: dist_def walk_def numeral_2_eq_2)
  have f: "cache_enq_seg demo_cached_ring = enq_seg demo_cached_ring" "enqueue demo_cached_ring = 3"
    by (simp_all add: demo_cached_ring_def zero_ring_def)
  from copy_from_ring_correct [OF quiet_env_accepting demo_blocks_inv(1) s c ca, of 3 1 1 2 0 True]
  obtain t runs bss where "ehub_xhci_cache_copy_from_ring quiet_env 1 2 0 True demo_cached_ring demo_blocks
        = Some (demo_cached_ring\<lparr>cache_enqueue := enqueue demo_cached_ring, cache_enq_seg := enq_seg demo_cached_ring\<rparr>, t)"
    "list_all2 (sends (segs demo_cached_ring) demo_blocks [0]) runs bss" "run_positions runs = [1, 2]"
    using w by (auto simp: demo_cached_ring_def zero_ring_def seg_at_def)
  moreover have "demo_cached_ring\<lparr>cache_enqueue := enqueue demo_cached_ring, cache_enq_seg := enq_seg demo_cached_ring\<rparr>
      = demo_cached_ring\<lparr>cache_enqueue := 3\<rparr>" by (simp add: demo_cached_ring_def zero_ring_def)
  ultimately show ?thesis by auto
qed

end
