(* ===== verification/Xhci_Transfer.thy ===== *)
theory Xhci_Transfer
  imports Xhci_Cache_Copy "HOL-Library.Signed_Division"
begin

text \<open>
  Queueing transfers of client drivers (\<open>xhci-ring.c\<close>): the ring of an endpoint or stream, the
  preparation of a TD, the TRBs of bulk, interrupt and control transfers and the first TRB
  handed over last.

  Lengths are \<open>u32\<close> as in \<open>struct urb\<close>; where the C code mixes \<open>int\<close> and \<open>u32\<close> the comparison
  is the unsigned one, where both sides are \<open>int\<close> it is on \<^const>\<open>sint\<close>. A division by a zero
  packet size is a fault.
\<close>

section \<open>Constants\<close>

definition TRB_ISP :: u32 where "TRB_ISP = 4"
definition TRB_IOC :: u32 where "TRB_IOC = 0x20"
definition TRB_IDT :: u32 where "TRB_IDT = 0x40"
definition TRB_DIR_IN :: u32 where "TRB_DIR_IN = 0x10000"
definition TRB_TX_TYPE :: "u32 \<Rightarrow> u32" where "TRB_TX_TYPE p = push_bit 16 p"
definition TRB_DATA_OUT :: u32 where "TRB_DATA_OUT = 2"
definition TRB_DATA_IN :: u32 where "TRB_DATA_IN = 3"
definition TRB_NORMAL :: u32 where "TRB_NORMAL = 1"
definition TRB_SETUP :: u32 where "TRB_SETUP = 2"
definition TRB_DATA :: u32 where "TRB_DATA = 3"
definition TRB_STATUS :: u32 where "TRB_STATUS = 4"
definition TRB_LEN :: "u32 \<Rightarrow> u32" where "TRB_LEN p = p AND 0x1ffff"
definition TRB_INTR_TARGET :: "u32 \<Rightarrow> u32" where "TRB_INTR_TARGET p = push_bit 22 (p AND 0x3ff)"
definition TRB_MAX_BUFF_SIZE :: nat where "TRB_MAX_BUFF_SIZE = 65536"
definition EP_STATE_MASK :: u32 where "EP_STATE_MASK = 0xf"
definition EP_HAS_STREAMS :: u32 where "EP_HAS_STREAMS = 0x10"
definition GET_MAX_PACKET :: "u32 \<Rightarrow> u32" where "GET_MAX_PACKET p = p AND 0x7ff"
definition EP_INTERVAL_TO_UFRAMES :: "u32 \<Rightarrow> u32" where
  "EP_INTERVAL_TO_UFRAMES p = push_bit (unat (drop_bit 16 p AND 0xff)) 1"

section \<open>Transfers and endpoints\<close>

datatype usb_speed = USB_SPEED_UNKNOWN | USB_SPEED_LOW | USB_SPEED_FULL | USB_SPEED_HIGH | USB_SPEED_WIRELESS | USB_SPEED_SUPER

text \<open>A setup packet (\<open>struct usb_ctrlrequest\<close>).\<close>

record usb_ctrlrequest =
  bRequestType :: u8
  bRequest :: u8
  wValue :: u16
  wIndex :: u16
  wLength :: u16

text \<open>The URB of a client driver as the host controller driver uses it: \<open>xu_maxp\<close> is the answer
  of \<open>usb_endpoint_maxp\<close>, \<open>xu_sg\<close> the mapped scatter list with address and length of each
  entry, \<open>xu_priv\<close> the driver's private part.\<close>

record xfer_urb =
  xu_id :: nat
  xu_dir_in :: bool
  xu_transfer_buffer :: u64
  xu_transfer_dma :: u64
  xu_transfer_buffer_length :: u32
  xu_stream_id :: u32
  xu_setup_packet :: "usb_ctrlrequest option"
  xu_num_sgs :: nat
  xu_sg :: "(u64 \<times> u32) list"
  xu_maxp :: u32
  xu_bMaxBurst :: u32
  xu_speed :: usb_speed
  xu_interval :: int
  xu_start_frame :: u32
  xu_iso_frame_desc :: "(u32 \<times> u32) list"
  xu_priv :: urb_priv

text \<open>What the functions read of the controller: its quirks and version, and the answers of two
  kernel functions they call, the update of the stream address map and the link of a URB to
  its endpoint.\<close>

record hcd_params =
  hp_quirks :: u32
  hci_version :: u32
  map_status :: int
  link_status :: int

text \<open>The rings of the streams, the dequeue pointers the controller keeps in the stream contexts,
  the map from the addresses of segments to the streams they belong to, and the command that is
  kept for giving the streams up.\<close>

record xhci_stream_info =
  stream_rings :: "xhci_ring option list"
  num_streams :: u32
  stream_ctx_array :: "u64 list"
  num_stream_ctxs :: u32
  ctx_array_dma :: u64
  trb_address_map :: "u64 \<rightharpoonup> nat"
  free_streams_command :: nat

text \<open>A TD is known by its URB and its first TRB: the TDs of one URB are on one ring and start at
  different TRBs.\<close>

type_synonym td_key = "nat \<times> seg_id \<times> nat"

definition td_key :: "xhci_td \<Rightarrow> td_key" where
  "td_key td = (td_urb td, start_seg td, first_trb td)"

text \<open>An endpoint. Its flags \<open>ep_state\<close> are part of \<^typ>\<open>ehub\<close>; \<open>stop_cmd_timer\<close> tells whether the
  watchdog timer is pending and \<open>queued_deq\<close> holds the segment and TRB of a submitted Set TR
  Dequeue command. What it needs of the bandwidth is kept with the bandwidth tables.\<close>

record xhci_virt_ep =
  ep_ring :: "xhci_ring option"
  stream_info :: "xhci_stream_info option"
  new_ring :: "xhci_ring option"
  cancelled_td_list :: "xhci_td list"
  stopped_td :: "td_key option"
  stopped_stream :: u32
  stop_cmd_timer :: bool
  stop_cmds_pending :: int
  queued_deq :: "(seg_id \<times> nat) option"
  skip :: bool
  max_buffer_size :: u32
  cache_data :: bool

text \<open>A pointer to one of the rings of an endpoint.\<close>

datatype ring_ref = Ep_Ring | Stream_Ring nat | Command_Ring

definition get_ring :: "ring_ref \<Rightarrow> xhci_virt_ep \<Rightarrow> xhci_ring option" where
  "get_ring ref ep = (case ref of
     Ep_Ring \<Rightarrow> ep_ring ep
   | Stream_Ring i \<Rightarrow> Option.bind (stream_info ep)
       (\<lambda>si. if i < length (stream_rings si) then stream_rings si ! i else None)
   | Command_Ring \<Rightarrow> None)"

definition put_ring :: "ring_ref \<Rightarrow> xhci_ring \<Rightarrow> xhci_virt_ep \<Rightarrow> xhci_virt_ep" where
  "put_ring ref r ep = (case ref of
     Ep_Ring \<Rightarrow> ep\<lparr>ep_ring := Some r\<rparr>
   | Stream_Ring i \<Rightarrow> ep\<lparr>stream_info := map_option
       (\<lambda>si. si\<lparr>stream_rings := (stream_rings si)[i := Some r]\<rparr>) (stream_info ep)\<rparr>
   | Command_Ring \<Rightarrow> ep)"

text \<open>The two searches for the ring of a stream: the outer \<^const>\<open>None\<close> is a read outside the
  array or through no array, the inner one the \<open>NULL\<close> they return.\<close>

definition ring_of_ref :: "ring_ref \<Rightarrow> xhci_virt_ep \<Rightarrow> ring_ref option" where
  "ring_of_ref ref ep = map_option (\<lambda>_. ref) (get_ring ref ep)"

definition ehub_xhci_stream_id_to_ring :: "xhci_virt_ep \<Rightarrow> u32 \<Rightarrow> ring_ref option option" where
  "ehub_xhci_stream_id_to_ring ep stream_id =
     (if stream_id = 0 then Some (ring_of_ref Ep_Ring ep)
      else case stream_info ep of
        None \<Rightarrow> Some None
      | Some si \<Rightarrow>
          if num_streams si < stream_id then Some None
          else if length (stream_rings si) \<le> unat stream_id then None
          else Some (ring_of_ref (Stream_Ring (unat stream_id)) ep))"

definition xhci_triad_to_transfer_ring :: "u32 \<Rightarrow> xhci_virt_ep \<Rightarrow> u32 \<Rightarrow> ring_ref option option" where
  "xhci_triad_to_transfer_ring st ep stream_id =
     (if stream_id = NOT 0 then Some (Some Command_Ring)
      else if st AND EP_HAS_STREAMS = 0 then Some (ring_of_ref Ep_Ring ep)
      else if stream_id = 0 then Some None
      else do {
        si \<leftarrow> stream_info ep;
        if stream_id < num_streams si
        then if length (stream_rings si) \<le> unat stream_id then None
             else Some (ring_of_ref (Stream_Ring (unat stream_id)) ep)
        else Some None
      })"

section \<open>Preparing a TD\<close>

definition new_td :: "xfer_urb \<Rightarrow> xhci_ring \<Rightarrow> xhci_td" where
  "new_td urb r = \<lparr>td_urb = xu_id urb, start_seg = enq_seg r, end_seg = 0, first_trb = enqueue r,
     td_last_trb = 0, urb_length_set = False\<rparr>"

definition prepare_transfer ::
  "env \<Rightarrow> hcd_params \<Rightarrow> u32 \<Rightarrow> u32 \<Rightarrow> u32 \<Rightarrow> xfer_urb \<Rightarrow> nat \<Rightarrow> xhci_virt_ep \<Rightarrow> ehub \<Rightarrow> (int \<times> xhci_virt_ep) outcome" where
  "prepare_transfer k P ep_info stream_id num_trbs urb td_index ep s = do {
     p \<leftarrow> ehub_xhci_stream_id_to_ring ep stream_id;
     (case p of
        None \<Rightarrow> Some ((- EINVAL, ep), s)
      | Some ref \<Rightarrow> do {
          r \<leftarrow> get_ring ref ep;
          ((ret, r1), s1) \<leftarrow> prepare_ring k (hp_quirks P) (map_status P) False (ep_info AND EP_STATE_MASK) num_trbs r s;
          if ret \<noteq> 0 then Some ((ret, put_ring ref r1 ep), s1)
          else if td_index = 0 \<and> link_status P \<noteq> 0 then Some ((link_status P, put_ring ref r1 ep), s1)
          else Some ((0, put_ring ref (r1\<lparr>td_list := list_add_tail (new_td urb r1) (td_list r1)\<rparr>) ep), s1)
        })
   }"

text \<open>The TD under construction is the last one on the list of the ring.\<close>

definition set_last_td :: "xhci_ring \<Rightarrow> xhci_ring" where
  "set_last_td r = r\<lparr>td_list := butlast (td_list r) @ map (\<lambda>td. td\<lparr>td_last_trb := enqueue r, end_seg := enq_seg r\<rparr>)
     (drop (length (td_list r) - 1) (td_list r))\<rparr>"

section \<open>Sizes\<close>

definition xhci_td_remainder :: "u32 \<Rightarrow> u32" where
  "xhci_td_remainder remainder =
     (if 31 \<le> drop_bit 10 remainder then push_bit 17 31 else push_bit 17 (drop_bit 10 remainder))"

definition xhci_v1_0_td_remainder :: "u32 \<Rightarrow> u32 \<Rightarrow> u32 \<Rightarrow> u32 \<Rightarrow> u32 \<Rightarrow> u32 option" where
  "xhci_v1_0_td_remainder running_total trb_buff_len total_packet_count maxp num_trbs_left =
     (if num_trbs_left = 0 \<or> (running_total = 0 \<and> trb_buff_len = 0) then Some 0
      else if GET_MAX_PACKET maxp = 0 then None
      else let packets_transferred = of_int (sint (running_total + trb_buff_len) sdiv sint (GET_MAX_PACKET maxp));
               packets = total_packet_count - packets_transferred in
           Some (if 31 < packets then push_bit 17 31 else push_bit 17 packets))"

text \<open>The number of TRBs of a contiguous buffer: one up to the first 64KB boundary and one for
  each 64KB chunk after it.\<close>

partial_function (option) count_chunks :: "u32 \<Rightarrow> int \<Rightarrow> u32 \<Rightarrow> int option" where
  "count_chunks len num_trbs running_total =
     (if running_total < len then count_chunks len (num_trbs + 1) (running_total + of_nat TRB_MAX_BUFF_SIZE)
      else Some num_trbs)"

definition to_boundary :: "u64 \<Rightarrow> u32" where
  "to_boundary addr = of_nat TRB_MAX_BUFF_SIZE - ucast (addr AND (of_nat TRB_MAX_BUFF_SIZE - 1))"

definition count_bulk_trbs :: "u64 \<Rightarrow> u32 \<Rightarrow> int option" where
  "count_bulk_trbs buffer_addr len =
     (let running_total = to_boundary buffer_addr AND (of_nat TRB_MAX_BUFF_SIZE - 1) in
      count_chunks len (if running_total \<noteq> 0 \<or> len = 0 then 1 else 0) running_total)"

partial_function (option) count_sg_chunks :: "u32 \<Rightarrow> u32 \<Rightarrow> int \<Rightarrow> u32 \<Rightarrow> int option" where
  "count_sg_chunks sg_len temp num_trbs running_total =
     (if running_total < sg_len \<and> sint running_total < sint temp
      then count_sg_chunks sg_len temp (num_trbs + 1) (running_total + of_nat TRB_MAX_BUFF_SIZE)
      else Some num_trbs)"

fun count_sgs :: "(u64 \<times> u32) list \<Rightarrow> u32 \<Rightarrow> int \<Rightarrow> int option" where
  "count_sgs [] temp num_trbs = Some num_trbs"
| "count_sgs ((addr, sg_len) # sgs) temp num_trbs = do {
     let running_total = to_boundary addr AND (of_nat TRB_MAX_BUFF_SIZE - 1);
     n \<leftarrow> count_sg_chunks sg_len temp (if running_total \<noteq> 0 then num_trbs + 1 else num_trbs) running_total;
     let temp1 = temp - (if sint sg_len < sint temp then sg_len else temp);
     if temp1 = 0 then Some n else count_sgs sgs temp1 n
   }"

definition count_sg_trbs_needed :: "xfer_urb \<Rightarrow> u32 option" where
  "count_sg_trbs_needed urb = map_option of_int (count_sgs (xu_sg urb) (xu_transfer_buffer_length urb) 0)"

definition total_packets :: "xfer_urb \<Rightarrow> u32 option" where
  "total_packets urb = (if xu_maxp urb = 0 then None
     else Some ((xu_transfer_buffer_length urb + xu_maxp urb - 1) div xu_maxp urb))"

section \<open>Bulk and interrupt transfers\<close>

text \<open>One TRB of a TD of normal TRBs. The first TRB gets the opposite of its cycle bit, the last
  TRB is recorded in the TD and interrupts.\<close>

definition td_size :: "hcd_params \<Rightarrow> u32 \<Rightarrow> u32 \<Rightarrow> u32 \<Rightarrow> u32 \<Rightarrow> u32 \<Rightarrow> u32 \<Rightarrow> u32 option" where
  "td_size P td_len running_total trb_buff_len total_packet_count maxp num_trbs_left =
     (if hci_version P < 0x100 then Some (xhci_td_remainder (td_len - running_total))
      else xhci_v1_0_td_remainder running_total trb_buff_len total_packet_count maxp num_trbs_left)"

definition queue_data_trb ::
  "hcd_params \<Rightarrow> xfer_urb \<Rightarrow> u32 \<Rightarrow> u32 \<Rightarrow> bool \<Rightarrow> bool \<Rightarrow> u32 \<Rightarrow> u64 \<Rightarrow> u32 \<Rightarrow> u32 \<Rightarrow> ehub \<Rightarrow> xhci_ring \<Rightarrow> xhci_ring option" where
  "queue_data_trb P urb start_cycle total_packet_count first more_trbs num_trbs_left addr running_total trb_buff_len s r = do {
     addrData \<leftarrow> ehub_xhci_get_data_buffer_addr (xu_priv urb) (xu_transfer_buffer urb) addr s;
     let cyc_bit = (if first then (if start_cycle = 0 then 1 else 0) else cycle_state r);
     let r1 = (if more_trbs then r else set_last_td r);
     let field = cyc_bit OR (if more_trbs then TRB_CHAIN else TRB_IOC) OR (if xu_dir_in urb then TRB_ISP else 0);
     remainder \<leftarrow> td_size P (xu_transfer_buffer_length urb) running_total trb_buff_len total_packet_count
        (xu_maxp urb) num_trbs_left;
     queue_trb (hp_quirks P) more_trbs (lower_32_bits addrData) (upper_32_bits addrData)
       (TRB_LEN trb_buff_len OR remainder OR TRB_INTR_TARGET 0) (field OR TRB_TYPE TRB_NORMAL) r1
   }"

partial_function (option) bulk_tx_loop ::
  "hcd_params \<Rightarrow> xfer_urb \<Rightarrow> u32 \<Rightarrow> u32 \<Rightarrow> ehub \<Rightarrow> bool \<Rightarrow> int \<Rightarrow> u64 \<Rightarrow> u32 \<Rightarrow> u32 \<Rightarrow> xhci_ring \<Rightarrow> xhci_ring option" where
  "bulk_tx_loop P urb start_cycle total_packet_count s first num_trbs addr running_total trb_buff_len r = do {
     r1 \<leftarrow> queue_data_trb P urb start_cycle total_packet_count first (1 < num_trbs) (of_int (num_trbs - 1))
        addr running_total trb_buff_len s r;
     let running_total1 = running_total + trb_buff_len;
     let left = xu_transfer_buffer_length urb - running_total1;
     let trb_buff_len1 = (if int TRB_MAX_BUFF_SIZE < sint left then of_nat TRB_MAX_BUFF_SIZE else left);
     if running_total1 < xu_transfer_buffer_length urb
     then bulk_tx_loop P urb start_cycle total_packet_count s False (num_trbs - 1) (addr + scast trb_buff_len)
            running_total1 trb_buff_len1 r1
     else Some r1
   }"

text \<open>The scatter list loop moves to the next entry when one is used up.\<close>

partial_function (option) sg_tx_loop ::
  "hcd_params \<Rightarrow> xfer_urb \<Rightarrow> u32 \<Rightarrow> u32 \<Rightarrow> ehub \<Rightarrow> bool \<Rightarrow> u32 \<Rightarrow> (u64 \<times> u32) list \<Rightarrow> u64 \<Rightarrow> u32 \<Rightarrow> u32 \<Rightarrow> u32
     \<Rightarrow> xhci_ring \<Rightarrow> xhci_ring option" where
  "sg_tx_loop P urb start_cycle total_packet_count s first num_trbs sgs addr this_sg_len running_total trb_buff_len r = do {
     r1 \<leftarrow> queue_data_trb P urb start_cycle total_packet_count first (1 < num_trbs) (num_trbs - 1)
        addr running_total trb_buff_len s r;
     let running_total1 = running_total + trb_buff_len;
     let this_sg_len1 = this_sg_len - trb_buff_len;
     if this_sg_len1 = 0 \<and> sgs = [] then Some r1
     else do {
       let (addr2, len2, sgs2) = (if this_sg_len1 = 0 then (fst (hd sgs), snd (hd sgs), tl sgs)
                                  else (addr + scast trb_buff_len, this_sg_len1, sgs));
       let chunk = (if sint len2 < sint (to_boundary addr2) then len2 else to_boundary addr2);
       let trb_buff_len2 = (if xu_transfer_buffer_length urb < running_total1 + chunk
                            then xu_transfer_buffer_length urb - running_total1 else chunk);
       if running_total1 < xu_transfer_buffer_length urb
       then sg_tx_loop P urb start_cycle total_packet_count s False (num_trbs - 1) sgs2 addr2 len2 running_total1 trb_buff_len2 r1
       else Some r1
     }
   }"

text \<open>After the loop the first TRB is handed over; the ring goes back to the endpoint.\<close>

definition finish_tx ::
  "env \<Rightarrow> u32 \<Rightarrow> u32 \<Rightarrow> u32 \<Rightarrow> u32 \<Rightarrow> seg_id \<times> nat \<Rightarrow> ring_ref \<Rightarrow> xhci_ring \<Rightarrow> xhci_virt_ep \<Rightarrow> ehub \<Rightarrow> (int \<times> xhci_virt_ep) outcome" where
  "finish_tx k slot_id ep_index stream_id start_cycle start_trb ref r ep s = do {
     (r1, s1) \<leftarrow> giveback_first_trb k slot_id ep_index stream_id start_cycle start_trb r s;
     Some ((0, put_ring ref r1 ep), s1)
   }"

definition queue_bulk_sg_tx ::
  "env \<Rightarrow> hcd_params \<Rightarrow> u32 \<Rightarrow> xfer_urb \<Rightarrow> u32 \<Rightarrow> u32 \<Rightarrow> xhci_virt_ep \<Rightarrow> ehub \<Rightarrow> (int \<times> xhci_virt_ep) outcome" where
  "queue_bulk_sg_tx k P ep_info urb slot_id ep_index ep s = do {
     p \<leftarrow> xhci_triad_to_transfer_ring (ep_state s slot_id ep_index) ep (xu_stream_id urb);
     (case p of
        None \<Rightarrow> Some ((- EINVAL, ep), s)
      | Some ref \<Rightarrow> do {
          num_trbs \<leftarrow> count_sg_trbs_needed urb;
          total_packet_count \<leftarrow> total_packets urb;
          ((ret, ep1), s1) \<leftarrow> prepare_transfer k P ep_info (xu_stream_id urb) num_trbs urb 0 ep s;
          if ret < 0 then Some ((ret, ep1), s1)
          else do {
            r \<leftarrow> get_ring ref ep1;
            (case xu_sg urb of
               [] \<Rightarrow> None
             | (addr, sg_len) # sgs \<Rightarrow> do {
                 let chunk = (if sint sg_len < sint (to_boundary addr) then sg_len else to_boundary addr);
                 let trb_buff_len = (if xu_transfer_buffer_length urb < chunk then xu_transfer_buffer_length urb else chunk);
                 r1 \<leftarrow> sg_tx_loop P urb (cycle_state r) total_packet_count s1 True num_trbs sgs addr sg_len 0 trb_buff_len r;
                 finish_tx k slot_id ep_index (xu_stream_id urb) (cycle_state r) (enq_seg r, enqueue r) ref r1 ep1 s1
               })
          }
        })
   }"

definition ehub_xhci_queue_bulk_tx ::
  "env \<Rightarrow> hcd_params \<Rightarrow> u32 \<Rightarrow> xfer_urb \<Rightarrow> u32 \<Rightarrow> u32 \<Rightarrow> xhci_virt_ep \<Rightarrow> ehub \<Rightarrow> (int \<times> xhci_virt_ep) outcome" where
  "ehub_xhci_queue_bulk_tx k P ep_info urb slot_id ep_index ep s =
     (if xu_num_sgs urb \<noteq> 0 then queue_bulk_sg_tx k P ep_info urb slot_id ep_index ep s
      else do {
        p \<leftarrow> xhci_triad_to_transfer_ring (ep_state s slot_id ep_index) ep (xu_stream_id urb);
        (case p of
           None \<Rightarrow> Some ((- EINVAL, ep), s)
         | Some ref \<Rightarrow> do {
             num_trbs \<leftarrow> count_bulk_trbs (xu_transfer_buffer urb) (xu_transfer_buffer_length urb);
             ((ret, ep1), s1) \<leftarrow> prepare_transfer k P ep_info (xu_stream_id urb) (of_int num_trbs) urb 0 ep s;
             if ret < 0 then Some ((ret, ep1), s1)
             else do {
               r \<leftarrow> get_ring ref ep1;
               total_packet_count \<leftarrow> total_packets urb;
               let chunk = to_boundary (xu_transfer_buffer urb);
               let trb_buff_len = (if xu_transfer_buffer_length urb < chunk then xu_transfer_buffer_length urb else chunk);
               r1 \<leftarrow> bulk_tx_loop P urb (cycle_state r) total_packet_count s1 True num_trbs (xu_transfer_buffer urb)
                      0 trb_buff_len r;
               finish_tx k slot_id ep_index (xu_stream_id urb) (cycle_state r) (enq_seg r, enqueue r) ref r1 ep1 s1
             }
           })
      })"

text \<open>The interval of an interrupt URB is replaced by the one the endpoint was configured with.\<close>

definition slow_speed :: "usb_speed \<Rightarrow> bool" where
  "slow_speed sp \<longleftrightarrow> sp = USB_SPEED_LOW \<or> sp = USB_SPEED_FULL"

definition set_interval :: "u32 \<Rightarrow> xfer_urb \<Rightarrow> xfer_urb" where
  "set_interval ep_info urb =
     (let xhci_interval = sint (EP_INTERVAL_TO_UFRAMES ep_info);
          ep_interval = (if slow_speed (xu_speed urb) then 8 * xu_interval urb else xu_interval urb) in
      if xhci_interval \<noteq> ep_interval
      then urb\<lparr>xu_interval := (if slow_speed (xu_speed urb) then xhci_interval sdiv 8 else xhci_interval)\<rparr>
      else urb)"

definition ehub_xhci_queue_intr_tx ::
  "env \<Rightarrow> hcd_params \<Rightarrow> u32 \<Rightarrow> xfer_urb \<Rightarrow> u32 \<Rightarrow> u32 \<Rightarrow> xhci_virt_ep \<Rightarrow> ehub \<Rightarrow> ((int \<times> xhci_virt_ep) \<times> xfer_urb) outcome" where
  "ehub_xhci_queue_intr_tx k P ep_info urb slot_id ep_index ep s = do {
     let urb1 = set_interval ep_info urb;
     (res, s1) \<leftarrow> ehub_xhci_queue_bulk_tx k P ep_info urb1 slot_id ep_index ep s;
     Some ((res, urb1), s1)
   }"

section \<open>Control transfers\<close>

definition setup_field :: "hcd_params \<Rightarrow> xfer_urb \<Rightarrow> usb_ctrlrequest \<Rightarrow> u32 \<Rightarrow> u32" where
  "setup_field P urb req start_cycle =
     TRB_IDT OR TRB_TYPE TRB_SETUP OR (if start_cycle = 0 then 1 else 0)
     OR (if hci_version P = 0x100 \<and> 0 < xu_transfer_buffer_length urb
         then TRB_TX_TYPE (if bRequestType req AND 0x80 \<noteq> 0 then TRB_DATA_IN else TRB_DATA_OUT) else 0)"

definition setup_dword0 :: "usb_ctrlrequest \<Rightarrow> u32" where
  "setup_dword0 req = ucast (bRequestType req) OR push_bit 8 (ucast (bRequest req)) OR push_bit 16 (ucast (wValue req))"

definition setup_dword1 :: "usb_ctrlrequest \<Rightarrow> u32" where
  "setup_dword1 req = ucast (wIndex req) OR push_bit 16 (ucast (wLength req))"

definition data_stage_field :: "xfer_urb \<Rightarrow> usb_ctrlrequest \<Rightarrow> u32" where
  "data_stage_field urb req = (if xu_dir_in urb then TRB_ISP OR TRB_TYPE TRB_DATA else TRB_TYPE TRB_DATA)
     OR (if bRequestType req AND 0x80 \<noteq> 0 then TRB_DIR_IN else 0)"

definition status_stage_field :: "xfer_urb \<Rightarrow> usb_ctrlrequest \<Rightarrow> u32" where
  "status_stage_field urb req =
     (if 0 < xu_transfer_buffer_length urb \<and> bRequestType req AND 0x80 \<noteq> 0 then 0 else TRB_DIR_IN)"

text \<open>Setup, data and status stage on the ring.\<close>

definition ctrl_tx_stages :: "hcd_params \<Rightarrow> xfer_urb \<Rightarrow> usb_ctrlrequest \<Rightarrow> xhci_ring \<Rightarrow> xhci_ring option" where
  "ctrl_tx_stages P urb req r = do {
     let q = hp_quirks P;
     let len = xu_transfer_buffer_length urb;
     r1 \<leftarrow> queue_trb q True (setup_dword0 req) (setup_dword1 req) (TRB_LEN 8 OR TRB_INTR_TARGET 0)
        (setup_field P urb req (cycle_state r)) r;
     r2 \<leftarrow> (if 0 < len then queue_trb q True (lower_32_bits (xu_transfer_buffer urb)) (upper_32_bits (xu_transfer_buffer urb))
               (TRB_LEN len OR xhci_td_remainder len OR TRB_INTR_TARGET 0) (data_stage_field urb req OR cycle_state r1) r1
            else Some r1);
     let r3 = set_last_td r2;
     queue_trb q False 0 0 (TRB_INTR_TARGET 0) (status_stage_field urb req OR TRB_IOC OR TRB_TYPE TRB_STATUS OR cycle_state r3) r3
   }"

definition ehub_xhci_queue_ctrl_tx ::
  "env \<Rightarrow> hcd_params \<Rightarrow> u32 \<Rightarrow> xfer_urb \<Rightarrow> u32 \<Rightarrow> u32 \<Rightarrow> xhci_virt_ep \<Rightarrow> ehub \<Rightarrow> (int \<times> xhci_virt_ep) outcome" where
  "ehub_xhci_queue_ctrl_tx k P ep_info urb slot_id ep_index ep s = do {
     p \<leftarrow> xhci_triad_to_transfer_ring (ep_state s slot_id ep_index) ep (xu_stream_id urb);
     (case (p, xu_setup_packet urb) of
        (None, _) \<Rightarrow> Some ((- EINVAL, ep), s)
      | (_, None) \<Rightarrow> Some ((- EINVAL, ep), s)
      | (Some ref, Some req) \<Rightarrow> do {
          let num_trbs = (if 0 < xu_transfer_buffer_length urb then 3 else 2);
          ((ret, ep1), s1) \<leftarrow> prepare_transfer k P ep_info (xu_stream_id urb) num_trbs urb 0 ep s;
          if ret < 0 then Some ((ret, ep1), s1)
          else do {
            r \<leftarrow> get_ring ref ep1;
            r1 \<leftarrow> ctrl_tx_stages P urb req r;
            finish_tx k slot_id ep_index 0 (cycle_state r) (enq_seg r, enqueue r) ref r1 ep1 s1
          }
        })
   }"

end
