(* ===== verification/Xhci_Context.thy ===== *)
theory Xhci_Context
  imports Xhci_Transfer
begin

text \<open>
  Endpoints and contexts: the numbering of endpoints in bit masks and contexts (\<open>xhci.c\<close>), the
  fields the controller reads from an endpoint context and how they are computed from the
  descriptors of the device (\<open>xhci-mem.c\<close>), the input context of a configuration change, and
  the count of endpoints the controller has room for (\<open>xhci.c\<close>).
\<close>

section \<open>Descriptors\<close>

text \<open>Endpoint descriptor and SuperSpeed companion descriptor; \<open>wMaxPacketSize\<close> is the value
  \<open>usb_endpoint_maxp\<close> reads.\<close>

record usb_host_endpoint =
  bEndpointAddress :: u8
  bmAttributes :: u8
  wMaxPacketSize :: u16
  bInterval :: u8
  ss_bmAttributes :: u8
  ss_bMaxBurst :: u8
  ss_wBytesPerInterval :: u16

definition usb_endpoint_num :: "usb_host_endpoint \<Rightarrow> u32" where
  "usb_endpoint_num ep = ucast (bEndpointAddress ep AND 0xf)"

definition usb_endpoint_dir_in :: "usb_host_endpoint \<Rightarrow> bool" where
  "usb_endpoint_dir_in ep \<longleftrightarrow> bEndpointAddress ep AND 0x80 \<noteq> 0"

definition usb_endpoint_type :: "usb_host_endpoint \<Rightarrow> u8" where
  "usb_endpoint_type ep = bmAttributes ep AND 3"

abbreviation usb_endpoint_xfer_control :: "usb_host_endpoint \<Rightarrow> bool" where
  "usb_endpoint_xfer_control ep \<equiv> usb_endpoint_type ep = 0"

abbreviation usb_endpoint_xfer_isoc :: "usb_host_endpoint \<Rightarrow> bool" where
  "usb_endpoint_xfer_isoc ep \<equiv> usb_endpoint_type ep = 1"

abbreviation usb_endpoint_xfer_bulk :: "usb_host_endpoint \<Rightarrow> bool" where
  "usb_endpoint_xfer_bulk ep \<equiv> usb_endpoint_type ep = 2"

abbreviation usb_endpoint_xfer_int :: "usb_host_endpoint \<Rightarrow> bool" where
  "usb_endpoint_xfer_int ep \<equiv> usb_endpoint_type ep = 3"

section \<open>Numbering of endpoints\<close>

definition ehub_xhci_get_endpoint_index :: "usb_host_endpoint \<Rightarrow> u32" where
  "ehub_xhci_get_endpoint_index desc =
     (if usb_endpoint_xfer_control desc then usb_endpoint_num desc * 2
      else usb_endpoint_num desc * 2 + (if usb_endpoint_dir_in desc then 1 else 0) - 1)"

definition ehub_xhci_get_endpoint_address :: "u32 \<Rightarrow> u32" where
  "ehub_xhci_get_endpoint_address ep_index =
     (let number = (ep_index + 1) div 2; direction = (if ep_index mod 2 \<noteq> 0 then 0 else 0x80) in
      direction OR number)"

definition ehub_xhci_get_endpoint_flag_from_index :: "u32 \<Rightarrow> u32" where
  "ehub_xhci_get_endpoint_flag_from_index ep_index = push_bit (unat (ep_index + 1)) 1"

definition ehub_xhci_get_endpoint_flag :: "usb_host_endpoint \<Rightarrow> u32" where
  "ehub_xhci_get_endpoint_flag desc = push_bit (unat (ehub_xhci_get_endpoint_index desc + 1)) 1"

text \<open>The position of the most significant bit, counted from one; 0 for no bit.\<close>

definition fls :: "u32 \<Rightarrow> nat" where
  "fls x = (if x = 0 then 0 else Suc (Max (set (filter (bit x) [0..<32]))))"

definition ehub_xhci_last_valid_endpoint :: "u32 \<Rightarrow> u32" where
  "ehub_xhci_last_valid_endpoint added_ctxs = of_nat (fls added_ctxs) - 1"

section \<open>Endpoint contexts\<close>

definition EP_MULT :: "u32 \<Rightarrow> u32" where "EP_MULT p = push_bit 8 (p AND 3)"
definition CTX_TO_EP_MULT :: "u32 \<Rightarrow> u32" where "CTX_TO_EP_MULT p = drop_bit 8 p AND 3"
definition EP_INTERVAL :: "u32 \<Rightarrow> u32" where "EP_INTERVAL p = push_bit 16 (p AND 0xff)"
definition CTX_TO_EP_INTERVAL :: "u32 \<Rightarrow> u32" where "CTX_TO_EP_INTERVAL p = drop_bit 16 p AND 0xff"
definition ERROR_COUNT :: "u32 \<Rightarrow> u32" where "ERROR_COUNT p = push_bit 1 (p AND 3)"
definition CTX_TO_EP_TYPE :: "u32 \<Rightarrow> u32" where "CTX_TO_EP_TYPE p = drop_bit 3 p AND 7"
definition EP_TYPE :: "u32 \<Rightarrow> u32" where "EP_TYPE p = push_bit 3 p"
definition ISOC_OUT_EP :: u32 where "ISOC_OUT_EP = 1"
definition BULK_OUT_EP :: u32 where "BULK_OUT_EP = 2"
definition INT_OUT_EP :: u32 where "INT_OUT_EP = 3"
definition CTRL_EP :: u32 where "CTRL_EP = 4"
definition ISOC_IN_EP :: u32 where "ISOC_IN_EP = 5"
definition BULK_IN_EP :: u32 where "BULK_IN_EP = 6"
definition INT_IN_EP :: u32 where "INT_IN_EP = 7"
definition MAX_BURST :: "u32 \<Rightarrow> u32" where "MAX_BURST p = push_bit 8 (p AND 0xff)"
definition CTX_TO_MAX_BURST :: "u32 \<Rightarrow> u32" where "CTX_TO_MAX_BURST p = drop_bit 8 p AND 0xff"
definition MAX_PACKET :: "u32 \<Rightarrow> u32" where "MAX_PACKET p = push_bit 16 (p AND 0xffff)"
definition MAX_PACKET_DECODED :: "u32 \<Rightarrow> u32" where "MAX_PACKET_DECODED p = drop_bit 16 p AND 0xffff"
definition AVG_TRB_LENGTH_FOR_EP :: "u32 \<Rightarrow> u32" where "AVG_TRB_LENGTH_FOR_EP p = p AND 0xffff"
definition MAX_ESIT_PAYLOAD_FOR_EP :: "u32 \<Rightarrow> u32" where "MAX_ESIT_PAYLOAD_FOR_EP p = push_bit 16 (p AND 0xffff)"
definition CTX_TO_MAX_ESIT_PAYLOAD :: "u32 \<Rightarrow> u32" where "CTX_TO_MAX_ESIT_PAYLOAD p = drop_bit 16 p AND 0xffff"

record xhci_ep_ctx =
  ep_info :: u32
  ep_info2 :: u32
  deq :: u64
  tx_info :: u32

section \<open>Intervals\<close>

text \<open>\<open>clamp_val\<close> converts its bounds to the type of the value.\<close>

definition clamp_val :: "u32 \<Rightarrow> u32 \<Rightarrow> u32 \<Rightarrow> u32" where
  "clamp_val v lo hi = (if v < lo then lo else if hi < v then hi else v)"

definition xhci_parse_exponent_interval :: "usb_speed \<Rightarrow> usb_host_endpoint \<Rightarrow> u32" where
  "xhci_parse_exponent_interval speed ep =
     (let interval = clamp_val (ucast (bInterval ep)) 1 16 - 1 in
      if speed = USB_SPEED_FULL then interval + 3 else interval)"

definition xhci_microframes_to_exponent :: "u32 \<Rightarrow> u32 \<Rightarrow> u32 \<Rightarrow> u32" where
  "xhci_microframes_to_exponent desc_interval min_exponent max_exponent =
     clamp_val (of_nat (fls desc_interval) - 1) min_exponent max_exponent"

definition xhci_parse_microframe_interval :: "usb_host_endpoint \<Rightarrow> u32" where
  "xhci_parse_microframe_interval ep =
     (if bInterval ep = 0 then 0 else xhci_microframes_to_exponent (ucast (bInterval ep)) 0 15)"

definition xhci_parse_frame_interval :: "usb_host_endpoint \<Rightarrow> u32" where
  "xhci_parse_frame_interval ep = xhci_microframes_to_exponent (ucast (bInterval ep) * 8) 3 10"

definition periodic :: "usb_host_endpoint \<Rightarrow> bool" where
  "periodic ep \<longleftrightarrow> usb_endpoint_xfer_int ep \<or> usb_endpoint_xfer_isoc ep"

text \<open>A speed no endpoint can have is a \<open>BUG()\<close>.\<close>

definition xhci_get_endpoint_interval :: "usb_speed \<Rightarrow> usb_host_endpoint \<Rightarrow> u32 option" where
  "xhci_get_endpoint_interval speed ep = map_option EP_INTERVAL (case speed of
     USB_SPEED_HIGH \<Rightarrow> Some
       (if usb_endpoint_xfer_control ep \<or> usb_endpoint_xfer_bulk ep then xhci_parse_microframe_interval ep
        else if periodic ep then xhci_parse_exponent_interval speed ep else 0)
   | USB_SPEED_SUPER \<Rightarrow> Some (if periodic ep then xhci_parse_exponent_interval speed ep else 0)
   | USB_SPEED_FULL \<Rightarrow> Some
       (if usb_endpoint_xfer_isoc ep then xhci_parse_exponent_interval speed ep
        else if periodic ep then xhci_parse_frame_interval ep else 0)
   | USB_SPEED_LOW \<Rightarrow> Some (if periodic ep then xhci_parse_frame_interval ep else 0)
   | USB_SPEED_UNKNOWN \<Rightarrow> None
   | USB_SPEED_WIRELESS \<Rightarrow> None)"

definition xhci_get_endpoint_mult :: "usb_speed \<Rightarrow> usb_host_endpoint \<Rightarrow> u32" where
  "xhci_get_endpoint_mult speed ep =
     (if speed \<noteq> USB_SPEED_SUPER \<or> \<not> usb_endpoint_xfer_isoc ep then 0 else ucast (ss_bmAttributes ep))"

definition xhci_get_endpoint_type :: "usb_host_endpoint \<Rightarrow> u32" where
  "xhci_get_endpoint_type ep =
     (let dir_in = usb_endpoint_dir_in ep in
      if usb_endpoint_xfer_control ep then EP_TYPE CTRL_EP
      else if usb_endpoint_xfer_bulk ep then (if dir_in then EP_TYPE BULK_IN_EP else EP_TYPE BULK_OUT_EP)
      else if usb_endpoint_xfer_isoc ep then (if dir_in then EP_TYPE ISOC_IN_EP else EP_TYPE ISOC_OUT_EP)
      else if usb_endpoint_xfer_int ep then (if dir_in then EP_TYPE INT_IN_EP else EP_TYPE INT_OUT_EP)
      else 0)"

definition maxp_burst :: "usb_host_endpoint \<Rightarrow> u32" where
  "maxp_burst ep = drop_bit 11 (ucast (wMaxPacketSize ep) AND 0x1800)"

definition xhci_get_max_esit_payload :: "usb_speed \<Rightarrow> usb_host_endpoint \<Rightarrow> u32" where
  "xhci_get_max_esit_payload speed ep =
     (if usb_endpoint_xfer_control ep \<or> usb_endpoint_xfer_bulk ep then 0
      else if speed = USB_SPEED_SUPER then ucast (ss_wBytesPerInterval ep)
      else GET_MAX_PACKET (ucast (wMaxPacketSize ep)) * (maxp_burst ep + 1))"

section \<open>Devices\<close>

record xhci_slot_ctx =
  dev_info :: u32
  dev_info2 :: u32
  tt_info :: u32
  dev_state :: u32

text \<open>A container context: the input control context in front is there for input contexts only.
  The endpoint contexts are numbered by endpoint index.\<close>

record xhci_container_ctx =
  ctx_input :: bool
  ctx_dma :: u64
  drop_flags :: u32
  add_flags :: u32
  slot_ctx :: xhci_slot_ctx
  ep_ctxs :: "xhci_ep_ctx list"

definition zero_ep_ctx :: xhci_ep_ctx where
  "zero_ep_ctx = \<lparr>ep_info = 0, ep_info2 = 0, deq = 0, tx_info = 0\<rparr>"

text \<open>New memory of a container is cleared; there is room for the 31 endpoints.\<close>

definition zero_ctx :: "bool \<Rightarrow> u64 \<Rightarrow> xhci_container_ctx" where
  "zero_ctx input addr = \<lparr>ctx_input = input, ctx_dma = addr, drop_flags = 0, add_flags = 0,
     slot_ctx = \<lparr>dev_info = 0, dev_info2 = 0, tt_info = 0, dev_state = 0\<rparr>, ep_ctxs = replicate 31 zero_ep_ctx\<rparr>"

definition ehub_xhci_get_ep_ctx :: "xhci_container_ctx \<Rightarrow> u32 \<Rightarrow> xhci_ep_ctx option" where
  "ehub_xhci_get_ep_ctx ctx ep_index =
     (if unat ep_index < length (ep_ctxs ctx) then Some (ep_ctxs ctx ! unat ep_index) else None)"

definition put_ep_ctx :: "u32 \<Rightarrow> xhci_ep_ctx \<Rightarrow> xhci_container_ctx \<Rightarrow> xhci_container_ctx" where
  "put_ep_ctx ep_index c ctx = ctx\<lparr>ep_ctxs := (ep_ctxs ctx)[unat ep_index := c]\<rparr>"

text \<open>A device of the USB core as the driver uses it: its identity, whether it is a root hub (it has
  no parent), its slot and speed.\<close>

record usb_device =
  ud_id :: nat
  ud_root_hub :: bool
  ud_slot_id :: u32
  ud_speed :: usb_speed

text \<open>A bandwidth domain: a root port, or a transaction translator of a hub.\<close>

datatype bw_domain = Root_Port nat | TT nat

record xhci_virt_device =
  udev :: usb_device
  eps :: "xhci_virt_ep list"
  in_ctx :: xhci_container_ctx
  out_ctx :: xhci_container_ctx
  fake_port :: u8
  real_port :: u8
  bw_table_of :: "bw_domain option"
  tt_info_of :: "nat option"
  current_mel :: u16

text \<open>Copying an endpoint or slot context from the output to the input context.\<close>

definition ehub_xhci_endpoint_copy :: "u32 \<Rightarrow> xhci_container_ctx \<Rightarrow> xhci_container_ctx \<Rightarrow> xhci_container_ctx option" where
  "ehub_xhci_endpoint_copy ep_index outc inc = do {
     c \<leftarrow> ehub_xhci_get_ep_ctx outc ep_index;
     _ \<leftarrow> ehub_xhci_get_ep_ctx inc ep_index;
     Some (put_ep_ctx ep_index c inc)
   }"

definition ehub_xhci_slot_copy :: "xhci_container_ctx \<Rightarrow> xhci_container_ctx \<Rightarrow> xhci_container_ctx" where
  "ehub_xhci_slot_copy outc inc = inc\<lparr>slot_ctx := slot_ctx outc\<rparr>"

definition SLOT_FLAG :: u32 where "SLOT_FLAG = 1"
definition EP0_FLAG :: u32 where "EP0_FLAG = 2"

definition xhci_setup_input_ctx_for_config_ep :: "xhci_container_ctx \<Rightarrow> u32 \<Rightarrow> u32 \<Rightarrow> xhci_container_ctx \<Rightarrow> xhci_container_ctx" where
  "xhci_setup_input_ctx_for_config_ep outc add_fl drop_fl inc =
     (ehub_xhci_slot_copy outc (inc\<lparr>drop_flags := drop_fl\<rparr>))\<lparr>add_flags := add_fl OR SLOT_FLAG\<rparr>"

text \<open>Without an input control context nothing is changed; an address of 0 stops after the copy.\<close>

definition xhci_setup_input_ctx_for_quirk :: "u32 \<Rightarrow> u64 \<Rightarrow> u32 \<Rightarrow> xhci_virt_device \<Rightarrow> xhci_virt_device option" where
  "xhci_setup_input_ctx_for_quirk ep_index addr new_cycle_state vd =
     (if \<not> ctx_input (in_ctx vd) then Some vd
      else do {
        inc \<leftarrow> ehub_xhci_endpoint_copy ep_index (out_ctx vd) (in_ctx vd);
        if addr = 0 then Some (vd\<lparr>in_ctx := inc\<rparr>)
        else do {
          c \<leftarrow> ehub_xhci_get_ep_ctx inc ep_index;
          let inc1 = put_ep_ctx ep_index (c\<lparr>deq := addr OR ucast new_cycle_state\<rparr>) inc;
          let added_ctxs = ehub_xhci_get_endpoint_flag_from_index ep_index;
          Some (vd\<lparr>in_ctx := xhci_setup_input_ctx_for_config_ep (out_ctx vd) added_ctxs added_ctxs inc1\<rparr>)
        }
      })"

end
