(* ===== verification/Xhci_Bandwidth.thy ===== *)
theory Xhci_Bandwidth
  imports Xhci_Context
begin

text \<open>
  Bandwidth of periodic endpoints (\<open>xhci.c\<close>, \<open>xhci-mem.c\<close>): the tables of a root port or a
  transaction translator, adding and removing endpoints, the estimate of the bandwidth in use
  and the reservation for a new configuration with its way back.

  A table is reached through its domain. The endpoints of an interval are a list of slot and
  endpoint index; what an endpoint needs is kept by this pair. An endpoint is linked into a
  list of the table of its own device only. An index outside an array is a fault.
\<close>

section \<open>Tables\<close>

record xhci_bw_info =
  ep_interval :: u32
  mult :: u32
  bi_num_packets :: u32
  max_packet_size :: u32
  max_esit_payload :: u32
  bi_type :: u32

datatype xhci_overhead_type = LS_OVERHEAD_TYPE | FS_OVERHEAD_TYPE | HS_OVERHEAD_TYPE

type_synonym ep_id = "u32 \<times> nat"

record xhci_interval_bw =
  num_packets :: u32
  endpoints :: "ep_id list"
  overhead :: "xhci_overhead_type \<Rightarrow> u32"

definition XHCI_MAX_INTERVAL :: nat where "XHCI_MAX_INTERVAL = 16"

record xhci_interval_bw_table =
  interval0_esit_payload :: u32
  interval_bw :: "nat \<Rightarrow> xhci_interval_bw"
  bw_used :: u32
  ss_bw_in :: u32
  ss_bw_out :: u32

record xhci_root_port_bw_info =
  rh_tts :: "nat list"
  num_active_tts :: u32
  rh_bw_table :: xhci_interval_bw_table

record xhci_tt_bw_info =
  tt_slot_id :: int
  ttport :: int
  tt_bw_table :: xhci_interval_bw_table
  active_eps :: int

record xhci_bw =
  rh_bw :: "xhci_root_port_bw_info list"
  tts :: "nat \<rightharpoonup> xhci_tt_bw_info"
  next_tt :: nat
  bw_infos :: "ep_id \<Rightarrow> xhci_bw_info"

fun get_table :: "bw_domain \<Rightarrow> xhci_bw \<Rightarrow> xhci_interval_bw_table option" where
  "get_table (Root_Port n) b = (if n < length (rh_bw b) then Some (rh_bw_table (rh_bw b ! n)) else None)"
| "get_table (TT t) b = map_option tt_bw_table (tts b t)"

fun put_table :: "bw_domain \<Rightarrow> xhci_interval_bw_table \<Rightarrow> xhci_bw \<Rightarrow> xhci_bw" where
  "put_table (Root_Port n) tab b = b\<lparr>rh_bw := (rh_bw b)[n := (rh_bw b ! n)\<lparr>rh_bw_table := tab\<rparr>]\<rparr>"
| "put_table (TT t) tab b = b\<lparr>tts := (tts b)(t := map_option (\<lambda>x. x\<lparr>tt_bw_table := tab\<rparr>) (tts b t))\<rparr>"

definition FS_BLOCK :: u32 where "FS_BLOCK = 1"
definition HS_BLOCK :: u32 where "HS_BLOCK = 4"
definition SS_BLOCK :: u32 where "SS_BLOCK = 16"
definition SS_OVERHEAD :: u32 where "SS_OVERHEAD = 8"
definition SS_OVERHEAD_BURST :: u32 where "SS_OVERHEAD_BURST = 32"
definition HS_OVERHEAD :: u32 where "HS_OVERHEAD = 26"
definition FS_OVERHEAD :: u32 where "FS_OVERHEAD = 20"
definition LS_OVERHEAD :: u32 where "LS_OVERHEAD = 128"
definition TT_HS_OVERHEAD :: u32 where "TT_HS_OVERHEAD = 31 + 94"
definition FS_BW_LIMIT :: u32 where "FS_BW_LIMIT = 1285"
definition HS_BW_LIMIT :: u32 where "HS_BW_LIMIT = 1607"
definition SS_BW_LIMIT_IN :: u32 where "SS_BW_LIMIT_IN = 3906"
definition SS_BW_LIMIT_OUT :: u32 where "SS_BW_LIMIT_OUT = 3906"
definition FS_BW_RESERVED :: u32 where "FS_BW_RESERVED = 10"
definition HS_BW_RESERVED :: u32 where "HS_BW_RESERVED = 20"
definition SS_BW_RESERVED :: u32 where "SS_BW_RESERVED = 10"

definition div_round_up :: "u32 \<Rightarrow> u32 \<Rightarrow> u32" where
  "div_round_up n d = (n + d - 1) div d"

definition xhci_get_block_size :: "usb_speed \<Rightarrow> u32" where
  "xhci_get_block_size speed = (case speed of
     USB_SPEED_LOW \<Rightarrow> FS_BLOCK | USB_SPEED_FULL \<Rightarrow> FS_BLOCK | USB_SPEED_HIGH \<Rightarrow> HS_BLOCK | USB_SPEED_SUPER \<Rightarrow> SS_BLOCK
   | USB_SPEED_UNKNOWN \<Rightarrow> 1 | USB_SPEED_WIRELESS \<Rightarrow> 1)"

definition xhci_get_largest_overhead :: "xhci_interval_bw \<Rightarrow> u32" where
  "xhci_get_largest_overhead iv =
     (if overhead iv LS_OVERHEAD_TYPE \<noteq> 0 then LS_OVERHEAD
      else if overhead iv FS_OVERHEAD_TYPE \<noteq> 0 then FS_OVERHEAD else HS_OVERHEAD)"

section \<open>Adding and removing endpoints\<close>

definition xhci_is_async_ep :: "u32 \<Rightarrow> bool" where
  "xhci_is_async_ep ty \<longleftrightarrow> ty \<noteq> ISOC_OUT_EP \<and> ty \<noteq> INT_OUT_EP \<and> ty \<noteq> ISOC_IN_EP \<and> ty \<noteq> INT_IN_EP"

definition xhci_is_sync_in_ep :: "u32 \<Rightarrow> bool" where
  "xhci_is_sync_in_ep ty \<longleftrightarrow> ty = ISOC_IN_EP \<or> ty = INT_IN_EP"

definition xhci_get_ss_bw_consumed :: "xhci_bw_info \<Rightarrow> u32" where
  "xhci_get_ss_bw_consumed ep_bw =
     (let mps = div_round_up (max_packet_size ep_bw) SS_BLOCK; n = mult ep_bw * bi_num_packets ep_bw in
      if ep_interval ep_bw = 0 then SS_OVERHEAD_BURST + n * (SS_OVERHEAD + mps)
      else div_round_up (n * (SS_OVERHEAD + mps + SS_OVERHEAD_BURST)) (push_bit (unat (ep_interval ep_bw)) 1))"

text \<open>The interval of an endpoint in the units of its table; outside of the table the access is a
  fault.\<close>

definition normalized_interval :: "usb_speed \<Rightarrow> xhci_bw_info \<Rightarrow> nat option" where
  "normalized_interval speed ep_bw =
     (let n = (if speed = USB_SPEED_HIGH then ep_interval ep_bw else ep_interval ep_bw - 3) in
      if unat n < XHCI_MAX_INTERVAL then Some (unat n) else None)"

definition overhead_type :: "usb_speed \<Rightarrow> xhci_overhead_type option" where
  "overhead_type speed = (case speed of
     USB_SPEED_LOW \<Rightarrow> Some LS_OVERHEAD_TYPE | USB_SPEED_FULL \<Rightarrow> Some FS_OVERHEAD_TYPE | USB_SPEED_HIGH \<Rightarrow> Some HS_OVERHEAD_TYPE
   | USB_SPEED_UNKNOWN \<Rightarrow> None | USB_SPEED_WIRELESS \<Rightarrow> None | USB_SPEED_SUPER \<Rightarrow> None)"

definition linked :: "ep_id \<Rightarrow> xhci_interval_bw_table \<Rightarrow> bool" where
  "linked e tab \<longleftrightarrow> e \<in> set (concat (map (\<lambda>n. endpoints (interval_bw tab n)) [0..<XHCI_MAX_INTERVAL]))"

definition unlink_ep :: "ep_id \<Rightarrow> xhci_interval_bw_table \<Rightarrow> xhci_interval_bw_table" where
  "unlink_ep e tab = tab\<lparr>interval_bw := (\<lambda>n. (interval_bw tab n)\<lparr>endpoints := filter (\<lambda>x. x \<noteq> e) (endpoints (interval_bw tab n))\<rparr>)\<rparr>"

definition map_interval :: "nat \<Rightarrow> (xhci_interval_bw \<Rightarrow> xhci_interval_bw) \<Rightarrow> xhci_interval_bw_table \<Rightarrow> xhci_interval_bw_table" where
  "map_interval n f tab = tab\<lparr>interval_bw := (interval_bw tab)(n := f (interval_bw tab n))\<rparr>"

definition map_active_eps :: "(int \<Rightarrow> int) \<Rightarrow> nat option \<Rightarrow> xhci_bw \<Rightarrow> xhci_bw option" where
  "map_active_eps f tt b = (case tt of
     None \<Rightarrow> Some b
   | Some t \<Rightarrow> map_option (\<lambda>x. b\<lparr>tts := (tts b)(t \<mapsto> x\<lparr>active_eps := f (active_eps x)\<rparr>)\<rparr>) (tts b t))"

definition count_ep :: "(u32 \<Rightarrow> u32 \<Rightarrow> u32) \<Rightarrow> xhci_overhead_type option \<Rightarrow> xhci_bw_info \<Rightarrow> nat \<Rightarrow> xhci_interval_bw_table \<Rightarrow> xhci_interval_bw_table" where
  "count_ep f ty ep_bw n tab = map_interval n (\<lambda>iv. iv\<lparr>num_packets := f (num_packets iv) (bi_num_packets ep_bw),
       overhead := (case ty of None \<Rightarrow> overhead iv | Some y \<Rightarrow> (overhead iv)(y := f (overhead iv y) 1))\<rparr>)
     (if n = 0 then tab\<lparr>interval0_esit_payload := f (interval0_esit_payload tab) (max_esit_payload ep_bw)\<rparr> else tab)"

definition ss_count :: "(u32 \<Rightarrow> u32 \<Rightarrow> u32) \<Rightarrow> xhci_bw_info \<Rightarrow> xhci_interval_bw_table \<Rightarrow> xhci_interval_bw_table" where
  "ss_count f ep_bw tab =
     (if xhci_is_sync_in_ep (bi_type ep_bw) then tab\<lparr>ss_bw_in := f (ss_bw_in tab) (xhci_get_ss_bw_consumed ep_bw)\<rparr>
      else tab\<lparr>ss_bw_out := f (ss_bw_out tab) (xhci_get_ss_bw_consumed ep_bw)\<rparr>)"

definition ehub_xhci_drop_ep_from_interval_table ::
  "bw_domain \<Rightarrow> usb_speed \<Rightarrow> nat option \<Rightarrow> ep_id \<Rightarrow> xhci_bw \<Rightarrow> xhci_bw option" where
  "ehub_xhci_drop_ep_from_interval_table dm speed tt e b =
     (let ep_bw = bw_infos b e in
      if xhci_is_async_ep (bi_type ep_bw) then Some b
      else do {
        tab \<leftarrow> get_table dm b;
        if speed = USB_SPEED_SUPER then Some (put_table dm (ss_count (-) ep_bw tab) b)
        else if \<not> linked e tab then Some b
        else do {
          n \<leftarrow> normalized_interval speed ep_bw;
          let tab1 = count_ep (-) (overhead_type speed) ep_bw n tab;
          if overhead_type speed = None then Some (put_table dm tab1 b)
          else map_active_eps (\<lambda>x. x - 1) tt (put_table dm (unlink_ep e tab1) b)
        }
      })"

text \<open>The list of an interval has the largest packet size first.\<close>

fun insert_ep :: "(ep_id \<Rightarrow> xhci_bw_info) \<Rightarrow> ep_id \<Rightarrow> ep_id list \<Rightarrow> ep_id list" where
  "insert_ep info e [] = [e]"
| "insert_ep info e (x # xs) =
     (if max_packet_size (info x) \<le> max_packet_size (info e) then e # x # xs else x # insert_ep info e xs)"

definition xhci_add_ep_to_interval_table ::
  "bw_domain \<Rightarrow> usb_speed \<Rightarrow> nat option \<Rightarrow> ep_id \<Rightarrow> xhci_bw \<Rightarrow> xhci_bw option" where
  "xhci_add_ep_to_interval_table dm speed tt e b =
     (let ep_bw = bw_infos b e in
      if xhci_is_async_ep (bi_type ep_bw) then Some b
      else do {
        tab \<leftarrow> get_table dm b;
        if speed = USB_SPEED_SUPER then Some (put_table dm (ss_count (+) ep_bw tab) b)
        else do {
          n \<leftarrow> normalized_interval speed ep_bw;
          let tab1 = count_ep (+) (overhead_type speed) ep_bw n tab;
          if overhead_type speed = None then Some (put_table dm tab1 b)
          else map_active_eps (\<lambda>x. x + 1) tt
                 (put_table dm (map_interval n (\<lambda>iv. iv\<lparr>endpoints := insert_ep (bw_infos b) e (endpoints iv)\<rparr>) tab1) b)
        }
      })"
section \<open>The bandwidth in use\<close>

text \<open>\<open>None\<close> is an access outside of the array of root ports, \<open>Some (- ENOMEM)\<close> the refusal. The
  translator of a device and the root port are read from the device.\<close>

definition rh_index :: "u8 \<Rightarrow> xhci_bw \<Rightarrow> nat option" where
  "rh_index port b = (if port = 0 \<or> length (rh_bw b) \<le> unat port - 1 then None else Some (unat port - 1))"

definition xhci_check_tt_bw_table :: "u8 \<Rightarrow> nat \<Rightarrow> int \<Rightarrow> xhci_bw \<Rightarrow> int option" where
  "xhci_check_tt_bw_table port t old_active_eps b = do {
     p \<leftarrow> rh_index port b;
     x \<leftarrow> tts b t;
     Some (if old_active_eps \<noteq> 0 then 0
           else if active_eps x \<noteq> 0 then (if HS_BW_LIMIT < bw_used (rh_bw_table (rh_bw b ! p)) + TT_HS_OVERHEAD then - ENOMEM else 0)
           else 0)
   }"

definition xhci_check_ss_bw :: "xhci_interval_bw_table \<Rightarrow> int" where
  "xhci_check_ss_bw tab =
     (if SS_BW_LIMIT_IN - div_round_up (SS_BW_RESERVED * SS_BW_LIMIT_IN) 100 < ss_bw_in tab then - ENOMEM
      else if SS_BW_LIMIT_OUT - div_round_up (SS_BW_RESERVED * SS_BW_LIMIT_OUT) 100 < ss_bw_out tab then - ENOMEM
      else 0)"

text \<open>The walk over the intervals: bandwidth so far, packets to be placed later, their size and their
  overhead. The result is \<open>None\<close> when the limit is passed on the way.\<close>

fun check_intervals ::
  "u32 \<Rightarrow> u32 \<Rightarrow> (ep_id \<Rightarrow> xhci_bw_info) \<Rightarrow> xhci_interval_bw_table \<Rightarrow> nat list \<Rightarrow> u32 \<times> u32 \<times> u32 \<times> u32 \<Rightarrow> (u32 \<times> u32 \<times> u32 \<times> u32) option" where
  "check_intervals block_size max_bandwidth info tab [] acc = Some acc"
| "check_intervals block_size max_bandwidth info tab (i # is) (used, packets_remaining, packet_size, overhd) =
     (let iv = interval_bw tab i;
          packets = 2 * packets_remaining + num_packets iv;
          largest_mps = (case endpoints iv of [] \<Rightarrow> 0 | e # _ \<Rightarrow> div_round_up (max_packet_size (info e)) block_size);
          packet_size1 = (if packet_size < largest_mps then largest_mps else packet_size);
          interval_overhead = xhci_get_largest_overhead iv;
          overhd1 = (if overhd < interval_overhead then interval_overhead else overhd);
          packets_transmitted = drop_bit (i + 1) packets;
          bw_added = packets_transmitted * (overhd1 + packet_size1);
          rest = packets mod push_bit (i + 1) 1;
          (packet_size2, overhd2) = (if rest = 0 then (0, 0)
             else if 0 < packets_transmitted then (largest_mps, interval_overhead) else (packet_size1, overhd1)) in
      if max_bandwidth < used + bw_added then None
      else check_intervals block_size max_bandwidth info tab is (used + bw_added, rest, packet_size2, overhd2))"

definition max_bandwidth_of :: "usb_speed \<Rightarrow> u32" where
  "max_bandwidth_of speed = (if speed = USB_SPEED_HIGH then HS_BW_LIMIT else FS_BW_LIMIT)"

definition bw_reserved_of :: "usb_speed \<Rightarrow> u32" where
  "bw_reserved_of speed = (if speed = USB_SPEED_HIGH then div_round_up (HS_BW_RESERVED * HS_BW_LIMIT) 100
     else div_round_up (FS_BW_RESERVED * FS_BW_LIMIT) 100)"

definition interval0_bandwidth :: "u32 \<Rightarrow> xhci_interval_bw_table \<Rightarrow> u32" where
  "interval0_bandwidth block_size tab = div_round_up (interval0_esit_payload tab) block_size
     + num_packets (interval_bw tab 0) * xhci_get_largest_overhead (interval_bw tab 0)"

definition xhci_check_bw_table ::
  "bw_domain \<Rightarrow> usb_speed \<Rightarrow> nat option \<Rightarrow> u8 \<Rightarrow> int \<Rightarrow> xhci_bw \<Rightarrow> (int \<times> xhci_bw) option" where
  "xhci_check_bw_table dm speed tt port old_active_eps b = do {
     tab \<leftarrow> get_table dm b;
     if speed = USB_SPEED_SUPER then Some (xhci_check_ss_bw tab, b)
     else do {
       let max_bandwidth = max_bandwidth_of speed;
       let block_size = xhci_get_block_size speed;
       tt_ret \<leftarrow> (case tt of None \<Rightarrow> Some 0 | Some t \<Rightarrow> xhci_check_tt_bw_table port t old_active_eps b);
       if tt_ret \<noteq> 0 then Some (- ENOMEM, b)
       else case check_intervals block_size max_bandwidth (bw_infos b) tab [1..<XHCI_MAX_INTERVAL] (interval0_bandwidth block_size tab, 0, 0, 0) of
         None \<Rightarrow> Some (- ENOMEM, b)
       | Some (used, packets_remaining, packet_size, overhd) \<Rightarrow> do {
           let used1 = (if 0 < packets_remaining then used + (overhd + packet_size) else used);
           active_tts \<leftarrow> (if tt = None \<and> speed = USB_SPEED_HIGH
                          then map_option (\<lambda>p. num_active_tts (rh_bw b ! p)) (rh_index port b) else Some 0);
           let used2 = used1 + TT_HS_OVERHEAD * active_tts + bw_reserved_of speed;
           if max_bandwidth < used2 then Some (- ENOMEM, b)
           else Some (0, put_table dm (tab\<lparr>bw_used := used2\<rparr>) b)
         }
     }
   }"

definition ehub_xhci_update_tt_active_eps :: "nat option \<Rightarrow> u8 \<Rightarrow> int \<Rightarrow> xhci_bw \<Rightarrow> xhci_bw option" where
  "ehub_xhci_update_tt_active_eps tt port old_active_eps b = (case tt of
     None \<Rightarrow> Some b
   | Some t \<Rightarrow> do {
       p \<leftarrow> rh_index port b;
       x \<leftarrow> tts b t;
       let rh = rh_bw b ! p;
       let change = (\<lambda>f. b\<lparr>rh_bw := (rh_bw b)[p := rh\<lparr>num_active_tts := f (num_active_tts rh) 1,
             rh_bw_table := (rh_bw_table rh)\<lparr>bw_used := f (bw_used (rh_bw_table rh)) TT_HS_OVERHEAD\<rparr>\<rparr>]\<rparr>);
       Some (if old_active_eps = 0 \<and> active_eps x \<noteq> 0 then change (+)
             else if old_active_eps \<noteq> 0 \<and> active_eps x = 0 then change (-)
             else b)
     })"

section \<open>Reserving bandwidth\<close>

definition EP_IS_ADDED :: "xhci_container_ctx \<Rightarrow> nat \<Rightarrow> bool" where
  "EP_IS_ADDED ctx i \<longleftrightarrow> add_flags ctx AND push_bit (i + 1) 1 \<noteq> 0"

definition EP_IS_DROPPED :: "xhci_container_ctx \<Rightarrow> nat \<Rightarrow> bool" where
  "EP_IS_DROPPED ctx i \<longleftrightarrow> drop_flags ctx AND push_bit (i + 1) 1 \<noteq> 0"

definition ehub_xhci_clear_endpoint_bw_info :: xhci_bw_info where
  "ehub_xhci_clear_endpoint_bw_info =
     \<lparr>ep_interval = 0, mult = 0, bi_num_packets = 0, max_packet_size = 0, max_esit_payload = 0, bi_type = 0\<rparr>"

definition bw_info_of_ctx :: "xhci_ep_ctx \<Rightarrow> xhci_bw_info" where
  "bw_info_of_ctx c = \<lparr>ep_interval = CTX_TO_EP_INTERVAL (ep_info c), mult = CTX_TO_EP_MULT (ep_info c) + 1,
     bi_num_packets = CTX_TO_MAX_BURST (ep_info2 c) + 1, max_packet_size = MAX_PACKET_DECODED (ep_info2 c),
     max_esit_payload = CTX_TO_MAX_ESIT_PAYLOAD (tx_info c), bi_type = CTX_TO_EP_TYPE (ep_info2 c)\<rparr>"

text \<open>The flags are those of the input context of the command, the endpoint contexts those of the
  device.\<close>

fun update_bw_infos :: "u32 \<Rightarrow> xhci_container_ctx \<Rightarrow> xhci_container_ctx \<Rightarrow> nat list \<Rightarrow> xhci_bw \<Rightarrow> xhci_bw option" where
  "update_bw_infos slot inc ctrl [] b = Some b"
| "update_bw_infos slot inc ctrl (i # is) b =
     (if \<not> EP_IS_ADDED ctrl i \<and> EP_IS_DROPPED ctrl i
      then update_bw_infos slot inc ctrl is (b\<lparr>bw_infos := (bw_infos b)((slot, i) := ehub_xhci_clear_endpoint_bw_info)\<rparr>)
      else if EP_IS_ADDED ctrl i
      then do {
        c \<leftarrow> ehub_xhci_get_ep_ctx inc (of_nat i);
        update_bw_infos slot inc ctrl is
          (if xhci_is_async_ep (CTX_TO_EP_TYPE (ep_info2 c)) then b
           else b\<lparr>bw_infos := (bw_infos b)((slot, i) := bw_info_of_ctx c)\<rparr>)
      } else update_bw_infos slot inc ctrl is b)"

definition ehub_xhci_update_bw_info :: "u32 \<Rightarrow> xhci_container_ctx \<Rightarrow> xhci_container_ctx \<Rightarrow> xhci_bw \<Rightarrow> xhci_bw option" where
  "ehub_xhci_update_bw_info slot inc ctrl b = update_bw_infos slot inc ctrl [1..<31] b"

fun for_eps :: "(nat \<Rightarrow> bool) \<Rightarrow> (nat \<Rightarrow> xhci_bw \<Rightarrow> xhci_bw option) \<Rightarrow> nat list \<Rightarrow> xhci_bw \<Rightarrow> xhci_bw option" where
  "for_eps Q f [] b = Some b"
| "for_eps Q f (i # is) b = do { b1 \<leftarrow> (if Q i then f i b else Some b); for_eps Q f is b1 }"

text \<open>One step of the way back: the new endpoint leaves the table, the old information returns, the
  old endpoint goes back into the table.\<close>

definition revert_ep ::
  "bw_domain \<Rightarrow> usb_speed \<Rightarrow> nat option \<Rightarrow> u32 \<Rightarrow> xhci_container_ctx \<Rightarrow> (ep_id \<Rightarrow> xhci_bw_info) \<Rightarrow> nat \<Rightarrow> xhci_bw \<Rightarrow> xhci_bw option" where
  "revert_ep dm speed tt slot ctrl saved i b = do {
     b1 \<leftarrow> (if EP_IS_ADDED ctrl i then ehub_xhci_drop_ep_from_interval_table dm speed tt (slot, i) b else Some b);
     let b2 = b1\<lparr>bw_infos := (bw_infos b1)((slot, i) := saved (slot, i))\<rparr>;
     if EP_IS_DROPPED ctrl i then xhci_add_ep_to_interval_table dm speed tt (slot, i) b2 else Some b2
   }"

definition xhci_reserve_bandwidth :: "u32 \<Rightarrow> xhci_virt_device \<Rightarrow> xhci_container_ctx \<Rightarrow> xhci_bw \<Rightarrow> (int \<times> xhci_bw) option" where
  "xhci_reserve_bandwidth slot vd ctrl b = do {
     old_active_eps \<leftarrow> (case tt_info_of vd of None \<Rightarrow> Some 0 | Some t \<Rightarrow> map_option active_eps (tts b t));
     if \<not> ctx_input ctrl then Some (- ENOMEM, b)
     else do {
       let speed = ud_speed (udev vd);
       let tt = tt_info_of vd;
       dm \<leftarrow> bw_table_of vd;
       let all = [0..<31];
       b1 \<leftarrow> for_eps (EP_IS_DROPPED ctrl) (\<lambda>i. ehub_xhci_drop_ep_from_interval_table dm speed tt (slot, i)) all b;
       b2 \<leftarrow> ehub_xhci_update_bw_info slot (in_ctx vd) ctrl b1;
       b3 \<leftarrow> for_eps (EP_IS_ADDED ctrl) (\<lambda>i. xhci_add_ep_to_interval_table dm speed tt (slot, i)) all b2;
       (ret, b4) \<leftarrow> xhci_check_bw_table dm speed tt (real_port vd) old_active_eps b3;
       if ret = 0
       then map_option (\<lambda>b5. (0, b5)) (ehub_xhci_update_tt_active_eps tt (real_port vd) old_active_eps b4)
       else map_option (\<lambda>b5. (- ENOMEM, b5))
              (for_eps (\<lambda>i. EP_IS_ADDED ctrl i \<or> EP_IS_DROPPED ctrl i) (revert_ep dm speed tt slot ctrl (bw_infos b)) all b4)
     }
   }"

section \<open>Transaction translators\<close>

definition empty_table :: xhci_interval_bw_table where
  "empty_table = \<lparr>interval0_esit_payload = 0, interval_bw = (\<lambda>_. \<lparr>num_packets = 0, endpoints = [], overhead = (\<lambda>_. 0)\<rparr>), bw_used = 0,
     ss_bw_in = 0, ss_bw_out = 0\<rparr>"

text \<open>The translators of a hub are next to each other on the list of their root port.\<close>

fun tts_of_slot :: "(nat \<rightharpoonup> xhci_tt_bw_info) \<Rightarrow> int \<Rightarrow> bool \<Rightarrow> nat list \<Rightarrow> nat list option" where
  "tts_of_slot m slot found [] = Some []"
| "tts_of_slot m slot found (t # ts) = do {
     x \<leftarrow> m t;
     if tt_slot_id x = slot then map_option ((#) t) (tts_of_slot m slot True ts)
     else if found then Some [] else tts_of_slot m slot False ts
   }"

definition xhci_free_tt_info :: "u8 \<Rightarrow> int \<Rightarrow> xhci_bw \<Rightarrow> xhci_bw option" where
  "xhci_free_tt_info port slot b = (case rh_index port b of
     None \<Rightarrow> Some b
   | Some p \<Rightarrow> do {
       gone \<leftarrow> tts_of_slot (tts b) slot False (rh_tts (rh_bw b ! p));
       Some (b\<lparr>rh_bw := (rh_bw b)[p := (rh_bw b ! p)\<lparr>rh_tts := filter (\<lambda>t. t \<notin> set gone) (rh_tts (rh_bw b ! p))\<rparr>],
               tts := (\<lambda>t. if t \<in> set gone then None else tts b t)\<rparr>)
     })"

text \<open>A hub with several translators has one for each port, numbered from one. The result tells
  whether all could be allocated; the list of the root port is accessed without a test.\<close>

fun alloc_tts :: "env \<Rightarrow> nat \<Rightarrow> int \<Rightarrow> bool \<Rightarrow> nat list \<Rightarrow> nat \<Rightarrow> xhci_bw \<Rightarrow> bool \<times> nat \<times> xhci_bw" where
  "alloc_tts k p slot multi [] tck b = (True, tck, b)"
| "alloc_tts k p slot multi (i # is) tck b =
     (if \<not> kzalloc k tck then (False, Suc tck, b)
      else alloc_tts k p slot multi is (Suc tck)
        (b\<lparr>rh_bw := (rh_bw b)[p := (rh_bw b ! p)\<lparr>rh_tts := next_tt b # rh_tts (rh_bw b ! p)\<rparr>],
           tts := (tts b)(next_tt b \<mapsto> \<lparr>tt_slot_id = slot, ttport = (if multi then int i + 1 else 0), tt_bw_table = empty_table, active_eps = 0\<rparr>),
           next_tt := Suc (next_tt b)\<rparr>))"

definition ehub_xhci_alloc_tt_info :: "env \<Rightarrow> u8 \<Rightarrow> int \<Rightarrow> bool \<Rightarrow> nat \<Rightarrow> nat \<Rightarrow> xhci_bw \<Rightarrow> ((int \<times> nat) \<times> xhci_bw) option" where
  "ehub_xhci_alloc_tt_info k port slot multi maxchild tck b = do {
     p \<leftarrow> (if multi \<and> maxchild = 0 then Some 0 else rh_index port b);
     (case alloc_tts k p slot multi [0..<(if multi then maxchild else 1)] tck b of
        (True, tck1, b1) \<Rightarrow> Some ((0, tck1), b1)
      | (False, tck1, b1) \<Rightarrow> map_option (\<lambda>b2. ((- ENOMEM, tck1), b2)) (xhci_free_tt_info port slot b1))
   }"

end
