(* ===== verification/Xhci_Cancel.thy ===== *)
theory Xhci_Cancel
  imports Xhci_Bandwidth
begin

text \<open>
  Cancelling transfers (\<open>xhci-ring.c\<close>, \<open>xhci.c\<close>): a cancelled TD waits on the endpoint's list until
  the Stop Endpoint command completes; then it is turned into no-ops, or the controller's
  dequeue pointer is moved past it with a Set TR Dequeue command. The watchdog gives all URBs
  back when the controller does not answer.

  The state collects what the handlers of events and commands share. Giving a URB back to its
  driver is recorded in a log with the status and the length; what the completion handler of
  the driver then does is a later step of the system. The spin lock \<open>xhci->lock\<close> is not part of
  the state: each operation is one step.
\<close>

section \<open>The state of the host controller driver\<close>

datatype xfer_type = XFER_CONTROL | XFER_ISOC | XFER_BULK | XFER_INT

record usb_iso_packet_descriptor =
  iso_length :: u32
  iso_actual_length :: u32
  iso_status :: int

text \<open>A URB of a client driver while it is queued; the last three fields are those of
  \<open>struct urb_priv\<close>.\<close>

record tx_urb =
  tu_type :: xfer_type
  tu_short_not_ok :: bool
  tu_transfer_buffer_length :: u32
  tu_actual_length :: u32
  tu_iso_frame_desc :: "usb_iso_packet_descriptor list"
  tu_stream_id :: u32
  tu_td_cnt :: int
  tu_length :: int
  tu_priv :: urb_priv

text \<open>A command structure: the input context it owns, whether someone waits for it, and its status.\<close>

record cmd_object =
  cmd_in_ctx :: "xhci_container_ctx option"
  cmd_waiter :: bool
  cmd_status :: u32

record hc =
  hcd :: ehub
  cmdq :: command_queue
  event_ring :: xhci_ring
  devs :: "u32 \<rightharpoonup> xhci_virt_device"
  dcbaa :: "u32 \<Rightarrow> u64"
  bw :: xhci_bw
  urbs :: "nat \<rightharpoonup> tx_urb"
  commands :: "nat \<rightharpoonup> cmd_object"
  next_cmd :: nat
  completed_cmds :: "(nat \<times> u32) list"
  error_bitmask :: u32
  slot_answer :: u32
  bandwidth_isoc_reqs :: int
  giveback_log :: "(nat \<times> int \<times> u32) list"
  hc_died :: bool
  num_active_eps :: u32
  limit_active_eps :: u32
  port_events :: "xhci_generic_trb list"
  wakeups :: "u32 list"
  lpm_command :: "nat option"

definition EP_GETTING_NO_STREAMS :: u32 where "EP_GETTING_NO_STREAMS = 0x20"
definition MAX_HC_SLOTS :: nat where "MAX_HC_SLOTS = 256"
definition XHCI_RESET_EP_QUIRK :: u32 where "XHCI_RESET_EP_QUIRK = 2"
definition TRB_SET_DEQ :: u32 where "TRB_SET_DEQ = 16"
definition SCT_PRI_TR :: u32 where "SCT_PRI_TR = 1"

definition get_ep :: "u32 \<Rightarrow> u32 \<Rightarrow> hc \<Rightarrow> xhci_virt_ep option" where
  "get_ep slot_id ep_index c = do {
     vd \<leftarrow> devs c slot_id;
     if unat ep_index < length (eps vd) then Some (eps vd ! unat ep_index) else None
   }"

definition put_ep :: "u32 \<Rightarrow> u32 \<Rightarrow> xhci_virt_ep \<Rightarrow> hc \<Rightarrow> hc" where
  "put_ep slot_id ep_index ep c =
     c\<lparr>devs := (devs c)(slot_id := map_option (\<lambda>vd. vd\<lparr>eps := (eps vd)[unat ep_index := ep]\<rparr>) (devs c slot_id))\<rparr>"

definition map_ep_state :: "(u32 \<Rightarrow> u32) \<Rightarrow> u32 \<Rightarrow> u32 \<Rightarrow> hc \<Rightarrow> hc" where
  "map_ep_state f slot_id ep_index c =
     c\<lparr>hcd := (hcd c)\<lparr>ep_state := (\<lambda>s i. if s = slot_id \<and> i = ep_index then f (ep_state (hcd c) s i) else ep_state (hcd c) s i)\<rparr>\<rparr>"

definition with_hcd :: "(ehub \<Rightarrow> ehub option) \<Rightarrow> hc \<Rightarrow> hc option" where
  "with_hcd f c = map_option (\<lambda>s. c\<lparr>hcd := s\<rparr>) (f (hcd c))"

section \<open>Command structures\<close>

definition ehub_xhci_alloc_command :: "env \<Rightarrow> bool \<Rightarrow> bool \<Rightarrow> hc \<Rightarrow> nat option \<times> hc" where
  "ehub_xhci_alloc_command k allocate_in_ctx allocate_completion c =
     (let n = tick (hcd c);
          used = (1 + (if allocate_in_ctx then 2 else 0) + (if allocate_completion then 1 else 0));
          ticked = (\<lambda>m. c\<lparr>hcd := (hcd c)\<lparr>tick := n + m\<rparr>\<rparr>) in
      if \<not> kzalloc k n then (None, ticked 1)
      else if allocate_in_ctx \<and> (\<not> kzalloc k (n + 1)) then (None, ticked 2)
      else if allocate_in_ctx \<and> dma_pool_alloc k (n + 2) = None then (None, ticked 3)
      else if allocate_completion \<and> \<not> kzalloc k (n + used - 1) then (None, ticked used)
      else (Some (next_cmd c), (ticked used)\<lparr>
             commands := (commands c)(next_cmd c \<mapsto> \<lparr>cmd_in_ctx = (if allocate_in_ctx then map_option (zero_ctx True) (dma_pool_alloc k (n + 2)) else None), cmd_waiter = allocate_completion, cmd_status = 0\<rparr>),
             next_cmd := Suc (next_cmd c)\<rparr>))"

definition ehub_xhci_free_command :: "nat \<Rightarrow> hc \<Rightarrow> hc" where
  "ehub_xhci_free_command cmd c = c\<lparr>commands := (commands c)(cmd := None)\<rparr>"

text \<open>A command function on the whole state.\<close>

definition run_command :: "command_fn \<Rightarrow> hc \<Rightarrow> (int \<times> hc) option" where
  "run_command f c = do {
     ((ret, q), s) \<leftarrow> f (cmdq c) (hcd c);
     Some (ret, c\<lparr>cmdq := q, hcd := s\<rparr>)
   }"

section \<open>Doorbells of an endpoint\<close>

definition has_tds :: "xhci_ring \<Rightarrow> bool" where
  "has_tds r \<longleftrightarrow> td_list r \<noteq> []"

fun ring_stream_doorbells :: "env \<Rightarrow> u32 \<Rightarrow> u32 \<Rightarrow> nat \<Rightarrow> nat \<Rightarrow> xhci_stream_info \<Rightarrow> ehub \<Rightarrow> ehub option" where
  "ring_stream_doorbells k slot_id ep_index 0 stream_id si s = Some s"
| "ring_stream_doorbells k slot_id ep_index (Suc n) stream_id si s =
     (if length (stream_rings si) \<le> stream_id then None
      else do {
        r \<leftarrow> stream_rings si ! stream_id;
        s1 \<leftarrow> (if has_tds r then ehub_xhci_ring_ep_doorbell k slot_id ep_index (of_nat stream_id) s else Some s);
        ring_stream_doorbells k slot_id ep_index n (Suc stream_id) si s1
      })"

definition ring_doorbell_for_active_rings :: "env \<Rightarrow> u32 \<Rightarrow> u32 \<Rightarrow> hc \<Rightarrow> hc option" where
  "ring_doorbell_for_active_rings k slot_id ep_index c = do {
     ep \<leftarrow> get_ep slot_id ep_index c;
     if ep_state (hcd c) slot_id ep_index AND EP_HAS_STREAMS = 0
     then (case ep_ring ep of
             None \<Rightarrow> Some c
           | Some r \<Rightarrow> if has_tds r then with_hcd (ehub_xhci_ring_ep_doorbell k slot_id ep_index 0) c else Some c)
     else do {
       si \<leftarrow> stream_info ep;
       with_hcd (ring_stream_doorbells k slot_id ep_index (unat (num_streams si) - 1) 1 si) c
     }
   }"

section \<open>Moving past a TD\<close>

text \<open>The search of \<open>find_new_dequeue_state\<close>: it starts at the ring's dequeue pointer and goes on
  until the controller's dequeue pointer and the last TRB of the TD have both been met; the
  cycle state follows from the controller's position on. The search is given up when it comes
  back to \<open>wrap\<close>, the dequeue pointer of the endpoint's ring.\<close>

partial_function (option) find_dequeue_loop ::
  "xhci_ring \<Rightarrow> u64 \<Rightarrow> seg_id \<times> nat \<Rightarrow> (seg_id \<times> nat) option \<Rightarrow> bool \<Rightarrow> bool \<Rightarrow> seg_id \<times> nat \<Rightarrow> u32
     \<Rightarrow> ((seg_id \<times> nat) option \<times> u32) option" where
  "find_dequeue_loop r hw_dequeue last_td_trb wrap cycle_found td_last_trb_found pos cs = do {
     sg \<leftarrow> segs r (fst pos);
     let hit = (\<not> cycle_found \<and> ehub_xhci_trb_virt_to_dma (Some sg) (Some (snd pos)) = hw_dequeue AND NOT 0xf);
     if hit \<and> td_last_trb_found then Some (Some pos, cs)
     else do {
       let cycle_found1 = (cycle_found \<or> hit);
       let last_found1 = (td_last_trb_found \<or> pos = last_td_trb);
       t \<leftarrow> read_trb (segs r) (fst pos) (snd pos);
       let cs1 = (if cycle_found1 \<and> TRB_TYPE_LINK (control t) \<and> control t AND LINK_TOGGLE \<noteq> 0 then cs XOR 1 else cs);
       pos1 \<leftarrow> next_trb r pos;
       if wrap = Some pos1 then Some (None, cs1)
       else if \<not> cycle_found1 \<or> \<not> last_found1
       then find_dequeue_loop r hw_dequeue last_td_trb wrap cycle_found1 last_found1 pos1 cs1
       else Some (Some pos1, cs1)
     }
   }"

record xhci_dequeue_state =
  new_deq :: "(seg_id \<times> nat) option"
  new_cycle_state :: u32

definition hw_dequeue_of :: "u32 \<Rightarrow> u32 \<Rightarrow> u32 \<Rightarrow> hc \<Rightarrow> u64 option" where
  "hw_dequeue_of slot_id ep_index stream_id c = do {
     vd \<leftarrow> devs c slot_id;
     ep \<leftarrow> get_ep slot_id ep_index c;
     if ep_state (hcd c) slot_id ep_index AND EP_HAS_STREAMS \<noteq> 0
     then do {
       si \<leftarrow> stream_info ep;
       if unat stream_id < length (stream_ctx_array si) then Some (stream_ctx_array si ! unat stream_id) else None
     } else map_option deq (ehub_xhci_get_ep_ctx (out_ctx vd) ep_index)
   }"

text \<open>Without a ring for the stream the state is left as it was.\<close>

definition ehub_xhci_find_new_dequeue_state ::
  "u32 \<Rightarrow> u32 \<Rightarrow> u32 \<Rightarrow> xhci_td \<Rightarrow> xhci_dequeue_state \<Rightarrow> hc \<Rightarrow> xhci_dequeue_state option" where
  "ehub_xhci_find_new_dequeue_state slot_id ep_index stream_id cur_td st c = do {
     ep \<leftarrow> get_ep slot_id ep_index c;
     p \<leftarrow> xhci_triad_to_transfer_ring (ep_state (hcd c) slot_id ep_index) ep stream_id;
     (case p of
        None \<Rightarrow> Some st
      | Some ref \<Rightarrow> do {
          r \<leftarrow> get_ring ref ep;
          hw_deq \<leftarrow> hw_dequeue_of slot_id ep_index stream_id c;
          r0 \<leftarrow> ep_ring ep;
          let wrap = (if ref = Ep_Ring then Some (deq_seg r0, dequeue r0) else None);
          (pos, cs) \<leftarrow> find_dequeue_loop r hw_deq (end_seg cur_td, td_last_trb cur_td) wrap False False
             (deq_seg r, dequeue r) (ucast (hw_deq AND 1));
          Some \<lparr>new_deq = pos, new_cycle_state = cs\<rparr>
        })
   }"

text \<open>The Set TR Dequeue command. The segment is one of the ring the state was found on.\<close>

definition ehub_xhci_queue_new_dequeue_state ::
  "env \<Rightarrow> hcd_params \<Rightarrow> u32 \<Rightarrow> u32 \<Rightarrow> u32 \<Rightarrow> xhci_ring \<Rightarrow> seg_id \<times> nat \<Rightarrow> u32 \<Rightarrow> hc \<Rightarrow> hc option" where
  "ehub_xhci_queue_new_dequeue_state k P slot_id ep_index stream_id r new_pos new_cycle c = do {
     sg \<leftarrow> segs r (fst new_pos);
     let addr = ehub_xhci_trb_virt_to_dma (Some sg) (Some (snd new_pos));
     if addr = 0 then Some c
     else do {
       ep \<leftarrow> get_ep slot_id ep_index c;
       if ep_state (hcd c) slot_id ep_index AND SET_DEQ_PENDING \<noteq> 0 then Some c
       else (case ehub_xhci_alloc_command k False False c of
          (None, c1) \<Rightarrow> Some c1
        | (Some cmd, c1) \<Rightarrow> do {
            let c2 = put_ep slot_id ep_index (ep\<lparr>queued_deq := Some new_pos\<rparr>) c1;
            let trb_sct = (if stream_id \<noteq> 0 then SCT_FOR_TRB SCT_PRI_TR else 0);
            (ret, c3) \<leftarrow> run_command (queue_command k (hp_quirks P) cmd (lower_32_bits addr OR trb_sct OR new_cycle)
               (upper_32_bits addr) (STREAM_ID_FOR_TRB stream_id)
               (SLOT_ID_FOR_TRB slot_id OR EP_ID_FOR_TRB ep_index OR TRB_TYPE TRB_SET_DEQ) False) c2;
            if ret < 0 then Some (ehub_xhci_free_command cmd c3)
            else Some (map_ep_state (\<lambda>st. st OR SET_DEQ_PENDING) slot_id ep_index c3)
          })
     }
   }"

section \<open>Removing a TD from a ring\<close>

text \<open>A TD becomes a sequence of no-ops: only the cycle bit of a TRB is kept, a link TRB is taken
  out of the chain. With \<open>flip_cycle\<close> all but the first and last TRB change owner.\<close>

definition trb_to_noop :: "bool \<Rightarrow> bool \<Rightarrow> xhci_generic_trb \<Rightarrow> xhci_generic_trb" where
  "trb_to_noop flip_cycle inner t =
     (if TRB_TYPE_LINK (control t)
      then let v = control t AND NOT TRB_CHAIN in set_control (if flip_cycle then v XOR TRB_CYCLE else v) t
      else let v = control t AND TRB_CYCLE in
           TRB 0 0 0 ((if flip_cycle \<and> inner then v XOR TRB_CYCLE else v) OR TRB_TYPE TRB_TR_NOOP))"

partial_function (option) td_to_noop_loop ::
  "bool \<Rightarrow> seg_id \<times> nat \<Rightarrow> seg_id \<times> nat \<Rightarrow> seg_id \<times> nat \<Rightarrow> xhci_ring \<Rightarrow> xhci_ring option" where
  "td_to_noop_loop flip_cycle first_pos last_pos pos r = do {
     h \<leftarrow> map_trb (trb_to_noop flip_cycle (pos \<noteq> first_pos \<and> pos \<noteq> last_pos)) (fst pos) (snd pos) (segs r);
     let r1 = r\<lparr>segs := h\<rparr>;
     if pos = last_pos then Some r1
     else do {
       pos1 \<leftarrow> next_trb r1 pos;
       td_to_noop_loop flip_cycle first_pos last_pos pos1 r1
     }
   }"

definition td_to_noop :: "xhci_td \<Rightarrow> bool \<Rightarrow> xhci_ring \<Rightarrow> xhci_ring option" where
  "td_to_noop cur_td flip_cycle r =
     td_to_noop_loop flip_cycle (start_seg cur_td, first_trb cur_td) (end_seg cur_td, td_last_trb cur_td)
       (start_seg cur_td, first_trb cur_td) r"

text \<open>\<open>list_del_init\<close> on the link of a TD: it leaves the list of the ring it is on.\<close>

definition del_tds :: "(xhci_td \<Rightarrow> bool) \<Rightarrow> xhci_virt_ep \<Rightarrow> xhci_virt_ep" where
  "del_tds P ep =
     (let off = (\<lambda>r. r\<lparr>td_list := filter (\<lambda>td. \<not> P td) (td_list r)\<rparr>) in
      ep\<lparr>ep_ring := map_option off (ep_ring ep),
         stream_info := map_option (\<lambda>si. si\<lparr>stream_rings := map (map_option off) (stream_rings si)\<rparr>) (stream_info ep)\<rparr>)"

definition del_td :: "xhci_td \<Rightarrow> xhci_virt_ep \<Rightarrow> xhci_virt_ep" where
  "del_td td = del_tds (\<lambda>td'. td_key td' = td_key td)"

definition del_cancelled :: "(xhci_td \<Rightarrow> bool) \<Rightarrow> xhci_virt_ep \<Rightarrow> xhci_virt_ep" where
  "del_cancelled P ep = ep\<lparr>cancelled_td_list := filter (\<lambda>td. \<not> P td) (cancelled_td_list ep)\<rparr>"

section \<open>Giving URBs back\<close>

definition ehub_xhci_urb_free_priv :: "nat \<Rightarrow> hc \<Rightarrow> hc option" where
  "ehub_xhci_urb_free_priv u c = do {
     x \<leftarrow> urbs c u;
     (_, s) \<leftarrow> ehub_xhci_cache_block_free_by_urb (tu_priv x) (hcd c);
     Some (c\<lparr>hcd := s, urbs := (urbs c)(u := None)\<rparr>)
   }"

definition usb_hcd_giveback_urb :: "nat \<Rightarrow> int \<Rightarrow> u32 \<Rightarrow> hc \<Rightarrow> hc" where
  "usb_hcd_giveback_urb u status len c = c\<lparr>giveback_log := giveback_log c @ [(u, status, len)]\<rparr>"

definition xhci_giveback_urb_in_irq :: "xhci_td \<Rightarrow> int \<Rightarrow> hc \<Rightarrow> hc option" where
  "xhci_giveback_urb_in_irq cur_td status c = do {
     let u = td_urb cur_td;
     x \<leftarrow> urbs c u;
     let x1 = x\<lparr>tu_td_cnt := tu_td_cnt x + 1\<rparr>;
     let c1 = c\<lparr>urbs := (urbs c)(u \<mapsto> x1)\<rparr>;
     if tu_td_cnt x1 = tu_length x1
     then do {
       let c2 = (if tu_type x = XFER_ISOC then c1\<lparr>bandwidth_isoc_reqs := bandwidth_isoc_reqs c1 - 1\<rparr> else c1);
       ehub_xhci_urb_free_priv u (usb_hcd_giveback_urb u status (tu_actual_length x) c2)
     } else Some c1
   }"

definition xhci_stop_watchdog_timer_in_irq :: "u32 \<Rightarrow> u32 \<Rightarrow> hc \<Rightarrow> hc option" where
  "xhci_stop_watchdog_timer_in_irq slot_id ep_index c = do {
     let c1 = map_ep_state (\<lambda>st. st AND NOT EP_HALT_PENDING) slot_id ep_index c;
     ep \<leftarrow> get_ep slot_id ep_index c1;
     Some (if stop_cmd_timer ep
           then put_ep slot_id ep_index (ep\<lparr>stop_cmd_timer := False, stop_cmds_pending := stop_cmds_pending ep - 1\<rparr>) c1
           else c1)
   }"

section \<open>Completion of Stop Endpoint\<close>

definition TRB_TO_EP_INDEX :: "u32 \<Rightarrow> u32" where "TRB_TO_EP_INDEX p = drop_bit 16 (p AND push_bit 16 0x1f) - 1"
definition TRB_TO_SUSPEND_PORT :: "u32 \<Rightarrow> u32" where "TRB_TO_SUSPEND_PORT p = drop_bit 23 (p AND push_bit 23 1)"
definition TRB_TO_STREAM_ID :: "u32 \<Rightarrow> u32" where "TRB_TO_STREAM_ID p = drop_bit 16 (p AND push_bit 16 0xffff)"

text \<open>One TD of the cancelled list: moved past when the controller stopped in it, no-ops
  otherwise; either way it leaves the list of its ring.\<close>

definition cancel_td :: "u32 \<Rightarrow> u32 \<Rightarrow> xhci_td \<Rightarrow> xhci_dequeue_state \<times> hc \<Rightarrow> (xhci_dequeue_state \<times> hc) option" where
  "cancel_td slot_id ep_index cur_td = (\<lambda>(st, c). do {
     ep \<leftarrow> get_ep slot_id ep_index c;
     x \<leftarrow> urbs c (td_urb cur_td);
     p \<leftarrow> xhci_triad_to_transfer_ring (ep_state (hcd c) slot_id ep_index) ep (tu_stream_id x);
     (case p of
        None \<Rightarrow> Some (st, put_ep slot_id ep_index (del_td cur_td ep) c)
      | Some ref \<Rightarrow> do {
          r \<leftarrow> get_ring ref ep;
          if stopped_td ep = Some (td_key cur_td)
          then do {
            st1 \<leftarrow> ehub_xhci_find_new_dequeue_state slot_id ep_index (tu_stream_id x) cur_td st c;
            Some (st1, put_ep slot_id ep_index (del_td cur_td ep) c)
          } else do {
            r1 \<leftarrow> td_to_noop cur_td False r;
            Some (st, put_ep slot_id ep_index (del_td cur_td (put_ring ref r1 ep)) c)
          }
        })
   })"

fun cancel_tds :: "u32 \<Rightarrow> u32 \<Rightarrow> xhci_td list \<Rightarrow> xhci_dequeue_state \<times> hc \<Rightarrow> (xhci_dequeue_state \<times> hc) option" where
  "cancel_tds slot_id ep_index [] sc = Some sc"
| "cancel_tds slot_id ep_index (td # tds) sc = do {
     sc1 \<leftarrow> cancel_td slot_id ep_index td sc;
     cancel_tds slot_id ep_index tds sc1
   }"

text \<open>The URBs of the cancelled TDs are given back in order, up to the last TD that was unlinked,
  and not on a controller that is dying.\<close>

fun giveback_cancelled :: "u32 \<Rightarrow> u32 \<Rightarrow> xhci_td list \<Rightarrow> td_key \<Rightarrow> hc \<Rightarrow> hc option" where
  "giveback_cancelled slot_id ep_index [] last_unlinked c = None"
| "giveback_cancelled slot_id ep_index (td # tds) last_unlinked c = do {
     ep \<leftarrow> get_ep slot_id ep_index c;
     c1 \<leftarrow> xhci_giveback_urb_in_irq td 0 (put_ep slot_id ep_index (ep\<lparr>cancelled_td_list := tds\<rparr>) c);
     if xhc_state (hcd c1) AND XHCI_STATE_DYING \<noteq> 0 \<or> td_key td = last_unlinked then Some c1
     else giveback_cancelled slot_id ep_index tds last_unlinked c1
   }"

text \<open>The ring a stream's URBs go to, for a dequeue state found on it.\<close>

definition ring_of_stream :: "u32 \<Rightarrow> u32 \<Rightarrow> u32 \<Rightarrow> hc \<Rightarrow> xhci_ring option" where
  "ring_of_stream slot_id ep_index stream_id c = do {
     ep \<leftarrow> get_ep slot_id ep_index c;
     p \<leftarrow> xhci_triad_to_transfer_ring (ep_state (hcd c) slot_id ep_index) ep stream_id;
     ref \<leftarrow> p;
     get_ring ref ep
   }"

definition restart_or_set_deq :: "env \<Rightarrow> hcd_params \<Rightarrow> u32 \<Rightarrow> u32 \<Rightarrow> xhci_dequeue_state \<Rightarrow> hc \<Rightarrow> hc option" where
  "restart_or_set_deq k P slot_id ep_index st c =
     (case new_deq st of
        None \<Rightarrow> ring_doorbell_for_active_rings k slot_id ep_index c
      | Some new_pos \<Rightarrow> do {
          ep \<leftarrow> get_ep slot_id ep_index c;
          (u, _) \<leftarrow> stopped_td ep;
          x \<leftarrow> urbs c u;
          r \<leftarrow> ring_of_stream slot_id ep_index (tu_stream_id x) c;
          c1 \<leftarrow> ehub_xhci_queue_new_dequeue_state k P slot_id ep_index (tu_stream_id x) r new_pos (new_cycle_state st) c;
          with_hcd (ehub_xhci_ring_cmd_db k) c1
        })"

definition clear_stopped :: "u32 \<Rightarrow> u32 \<Rightarrow> hc \<Rightarrow> hc option" where
  "clear_stopped slot_id ep_index c =
     map_option (\<lambda>ep. put_ep slot_id ep_index (ep\<lparr>stopped_td := None\<rparr>) c) (get_ep slot_id ep_index c)"

definition xhci_handle_cmd_stop_ep :: "env \<Rightarrow> hcd_params \<Rightarrow> u32 \<Rightarrow> xhci_generic_trb \<Rightarrow> hc \<Rightarrow> hc option" where
  "xhci_handle_cmd_stop_ep k P slot_id trb c =
     (if TRB_TO_SUSPEND_PORT (control trb) \<noteq> 0 then Some c
      else do {
        let ep_index = TRB_TO_EP_INDEX (control trb);
        ep \<leftarrow> get_ep slot_id ep_index c;
        if cancelled_td_list ep = []
        then do {
          c1 \<leftarrow> xhci_stop_watchdog_timer_in_irq slot_id ep_index c;
          c2 \<leftarrow> clear_stopped slot_id ep_index c1;
          ring_doorbell_for_active_rings k slot_id ep_index c2
        } else do {
          let tds = cancelled_td_list ep;
          (st, c1) \<leftarrow> cancel_tds slot_id ep_index tds (\<lparr>new_deq = None, new_cycle_state = 0\<rparr>, c);
          c2 \<leftarrow> xhci_stop_watchdog_timer_in_irq slot_id ep_index c1;
          c3 \<leftarrow> restart_or_set_deq k P slot_id ep_index st c2;
          c4 \<leftarrow> clear_stopped slot_id ep_index c3;
          giveback_cancelled slot_id ep_index tds (td_key (last tds)) c4
        }
      })"

section \<open>Killing the URBs of an endpoint\<close>

fun kill_tds :: "u32 \<Rightarrow> u32 \<Rightarrow> ring_ref \<Rightarrow> xhci_td list \<Rightarrow> hc \<Rightarrow> hc option" where
  "kill_tds slot_id ep_index ref [] c = Some c"
| "kill_tds slot_id ep_index ref (td # tds) c = do {
     ep \<leftarrow> get_ep slot_id ep_index c;
     r \<leftarrow> get_ring ref ep;
     let ep1 = del_cancelled (\<lambda>td'. td_key td' = td_key td) (put_ring ref (r\<lparr>td_list := tds\<rparr>) ep);
     c1 \<leftarrow> xhci_giveback_urb_in_irq td (- ESHUTDOWN) (put_ep slot_id ep_index ep1 c);
     kill_tds slot_id ep_index ref tds c1
   }"

definition xhci_kill_ring_urbs :: "u32 \<Rightarrow> u32 \<Rightarrow> ring_ref \<Rightarrow> hc \<Rightarrow> hc option" where
  "xhci_kill_ring_urbs slot_id ep_index ref c = do {
     ep \<leftarrow> get_ep slot_id ep_index c;
     r \<leftarrow> get_ring ref ep;
     kill_tds slot_id ep_index ref (td_list r) c
   }"

fun kill_streams :: "u32 \<Rightarrow> u32 \<Rightarrow> nat \<Rightarrow> nat \<Rightarrow> hc \<Rightarrow> hc option" where
  "kill_streams slot_id ep_index 0 stream_id c = Some c"
| "kill_streams slot_id ep_index (Suc n) stream_id c = do {
     c1 \<leftarrow> xhci_kill_ring_urbs slot_id ep_index (Stream_Ring stream_id) c;
     kill_streams slot_id ep_index n (Suc stream_id) c1
   }"

fun kill_cancelled :: "u32 \<Rightarrow> u32 \<Rightarrow> xhci_td list \<Rightarrow> hc \<Rightarrow> hc option" where
  "kill_cancelled slot_id ep_index [] c = Some c"
| "kill_cancelled slot_id ep_index (td # tds) c = do {
     ep \<leftarrow> get_ep slot_id ep_index c;
     c1 \<leftarrow> xhci_giveback_urb_in_irq td (- ESHUTDOWN) (put_ep slot_id ep_index (ep\<lparr>cancelled_td_list := tds\<rparr>) c);
     kill_cancelled slot_id ep_index tds c1
   }"

definition xhci_kill_endpoint_urbs :: "u32 \<Rightarrow> u32 \<Rightarrow> hc \<Rightarrow> hc option" where
  "xhci_kill_endpoint_urbs slot_id ep_index c = do {
     ep \<leftarrow> get_ep slot_id ep_index c;
     let st = ep_state (hcd c) slot_id ep_index;
     if st AND EP_HAS_STREAMS = 0 \<and> st AND EP_GETTING_NO_STREAMS = 0 \<and> ep_ring ep = None then Some c
     else do {
       c1 \<leftarrow> (if st AND EP_HAS_STREAMS \<noteq> 0 \<or> st AND EP_GETTING_NO_STREAMS \<noteq> 0
              then do {
                si \<leftarrow> stream_info ep;
                kill_streams slot_id ep_index (unat (num_streams si)) 0 c
              } else xhci_kill_ring_urbs slot_id ep_index Ep_Ring c);
       ep1 \<leftarrow> get_ep slot_id ep_index c1;
       kill_cancelled slot_id ep_index (cancelled_td_list ep1) c1
     }
   }"

fun kill_endpoints :: "u32 \<Rightarrow> nat list \<Rightarrow> hc \<Rightarrow> hc option" where
  "kill_endpoints slot_id [] c = Some c"
| "kill_endpoints slot_id (j # js) c = do { c1 \<leftarrow> xhci_kill_endpoint_urbs slot_id (of_nat j) c; kill_endpoints slot_id js c1 }"

fun kill_slots :: "nat list \<Rightarrow> hc \<Rightarrow> hc option" where
  "kill_slots [] c = Some c"
| "kill_slots (i # is) c = do {
     c1 \<leftarrow> (case devs c (of_nat i) of None \<Rightarrow> Some c | Some _ \<Rightarrow> kill_endpoints (of_nat i) [0..<31] c);
     kill_slots is c1
   }"

definition CMD_RING_STATE_STOPPED :: u32 where "CMD_RING_STATE_STOPPED = 4"

text \<open>The watchdog runs when its timer has expired.\<close>

definition ehub_xhci_stop_endpoint_command_watchdog :: "u32 \<Rightarrow> u32 \<Rightarrow> bool \<Rightarrow> hc \<Rightarrow> hc option" where
  "ehub_xhci_stop_endpoint_command_watchdog slot_id ep_index primary_hcd c = do {
     ep \<leftarrow> get_ep slot_id ep_index c;
     let ep1 = ep\<lparr>stop_cmd_timer := False, stop_cmds_pending := stop_cmds_pending ep - 1\<rparr>;
     let c1 = put_ep slot_id ep_index ep1 c;
     if xhc_state (hcd c) AND XHCI_STATE_DYING \<noteq> 0 then Some c1
     else if \<not> (stop_cmds_pending ep1 = 0 \<and> ep_state (hcd c) slot_id ep_index AND EP_HALT_PENDING \<noteq> 0) then Some c1
     else do {
       c2 \<leftarrow> kill_slots [0..<MAX_HC_SLOTS] (c1\<lparr>hcd := (hcd c1)\<lparr>
               xhc_state := xhc_state (hcd c1) OR XHCI_STATE_DYING OR XHCI_STATE_HALTED, cmd_ring_state := CMD_RING_STATE_STOPPED\<rparr>\<rparr>);
       Some (if primary_hcd then c2\<lparr>hc_died := True\<rparr> else c2)
     }
   }"

section \<open>Completion of Set TR Dequeue and Reset Endpoint\<close>

definition at_pos :: "xhci_ring \<Rightarrow> seg_id \<times> nat" where
  "at_pos r = (deq_seg r, dequeue r)"

definition deq_to_next_seg :: "xhci_ring \<Rightarrow> xhci_ring option" where
  "deq_to_next_seg r = map_option (\<lambda>g. r\<lparr>deq_seg := g, dequeue := 0\<rparr>) (next_of (segs r) (deq_seg r))"

text \<open>The consumer's pointer walks to the queued position; the second result tells that the walk
  came back to where it started.\<close>

partial_function (option) set_deq_loop :: "(seg_id \<times> nat) option \<Rightarrow> seg_id \<times> nat \<Rightarrow> xhci_ring \<Rightarrow> (xhci_ring \<times> bool) option" where
  "set_deq_loop queued dequeue_temp r =
     (if Some (at_pos r) = queued then Some (r, False)
      else do {
        let r1 = r\<lparr>num_trbs_free := num_trbs_free r + 1, dequeue := Suc (dequeue r)\<rparr>;
        l \<leftarrow> last_trb r1 (deq_seg r1) (dequeue r1);
        if l \<and> Some (at_pos r1) = queued then Some (r1, False)
        else do {
          r2 \<leftarrow> (if l then deq_to_next_seg r1 else Some r1);
          if at_pos r2 = dequeue_temp then Some (r2, True) else set_deq_loop queued dequeue_temp r2
        }
      })"

definition update_ring_for_set_deq_completion :: "(seg_id \<times> nat) option \<Rightarrow> xhci_ring \<Rightarrow> xhci_ring option" where
  "update_ring_for_set_deq_completion queued r = do {
     l \<leftarrow> last_trb r (deq_seg r) (dequeue r);
     r1 \<leftarrow> (if l then deq_to_next_seg r else Some r);
     (r2, revert) \<leftarrow> set_deq_loop queued (at_pos r) r1;
     Some (if revert then r2\<lparr>num_trbs_free := num_trbs_free r\<rparr> else r2)
   }"

definition COMP_SUCCESS :: u32 where "COMP_SUCCESS = 1"
definition SCTX_DEQ_MASK :: u64 where "SCTX_DEQ_MASK = NOT 0xf"
definition EP_CTX_CYCLE_MASK :: u64 where "EP_CTX_CYCLE_MASK = 1"

definition set_deq_done :: "env \<Rightarrow> u32 \<Rightarrow> u32 \<Rightarrow> hc \<Rightarrow> hc option" where
  "set_deq_done k slot_id ep_index c = do {
     ep \<leftarrow> get_ep slot_id ep_index c;
     ring_doorbell_for_active_rings k slot_id ep_index
       (put_ep slot_id ep_index (ep\<lparr>queued_deq := None\<rparr>) (map_ep_state (\<lambda>st. st AND NOT SET_DEQ_PENDING) slot_id ep_index c))
   }"

text \<open>Dword 2 of a TRB: the stream of a Set TR Dequeue command, the length of a transfer.\<close>

fun field2 :: "xhci_generic_trb \<Rightarrow> u32" where
  "field2 (TRB a b c d) = c"

definition xhci_handle_cmd_set_deq :: "env \<Rightarrow> u32 \<Rightarrow> xhci_generic_trb \<Rightarrow> u32 \<Rightarrow> hc \<Rightarrow> hc option" where
  "xhci_handle_cmd_set_deq k slot_id trb cmd_comp_code c = do {
     let ep_index = TRB_TO_EP_INDEX (control trb);
     let stream_id = TRB_TO_STREAM_ID (field2 trb);
     ep \<leftarrow> get_ep slot_id ep_index c;
     p \<leftarrow> ehub_xhci_stream_id_to_ring ep stream_id;
     (case p of
        None \<Rightarrow> set_deq_done k slot_id ep_index c
      | Some ref \<Rightarrow>
          if cmd_comp_code \<noteq> COMP_SUCCESS then set_deq_done k slot_id ep_index c
          else do {
            r \<leftarrow> get_ring ref ep;
            hwd \<leftarrow> hw_dequeue_of slot_id ep_index stream_id c;
            let new_hw = (if ep_state (hcd c) slot_id ep_index AND EP_HAS_STREAMS \<noteq> 0 then hwd AND SCTX_DEQ_MASK
                          else hwd AND NOT EP_CTX_CYCLE_MASK);
            let queued_dma = (case queued_deq ep of None \<Rightarrow> 0
                 | Some pos \<Rightarrow> ehub_xhci_trb_virt_to_dma (segs r (fst pos)) (Some (snd pos)));
            if queued_dma = new_hw
            then do {
              r1 \<leftarrow> update_ring_for_set_deq_completion (queued_deq ep) r;
              set_deq_done k slot_id ep_index (put_ep slot_id ep_index (put_ring ref r1 ep) c)
            } else set_deq_done k slot_id ep_index c
          })
   }"

definition xhci_handle_cmd_reset_ep :: "env \<Rightarrow> hcd_params \<Rightarrow> u32 \<Rightarrow> xhci_generic_trb \<Rightarrow> hc \<Rightarrow> hc option" where
  "xhci_handle_cmd_reset_ep k P slot_id trb c = do {
     let ep_index = TRB_TO_EP_INDEX (control trb);
     if hp_quirks P AND XHCI_RESET_EP_QUIRK \<noteq> 0
     then (case ehub_xhci_alloc_command k False False c of
             (None, c1) \<Rightarrow> Some c1
           | (Some cmd, c1) \<Rightarrow> do {
               vd \<leftarrow> devs c1 slot_id;
               (_, c2) \<leftarrow> run_command (ehub_xhci_queue_configure_endpoint k (hp_quirks P) cmd (ctx_dma (in_ctx vd)) slot_id False) c1;
               with_hcd (ehub_xhci_ring_cmd_db k) c2
             })
     else do {
       _ \<leftarrow> get_ep slot_id ep_index c;
       Some (map_ep_state (\<lambda>st. st AND NOT EP_HALTED) slot_id ep_index c)
     }
   }"

section \<open>Stalled rings\<close>

text \<open>The dequeue state is a local variable that is not initialised: without a ring for the
  stream it is undefined.\<close>

definition ehub_xhci_cleanup_stalled_ring :: "env \<Rightarrow> hcd_params \<Rightarrow> u32 \<Rightarrow> u32 \<Rightarrow> xhci_td \<Rightarrow> hc \<Rightarrow> hc option" where
  "ehub_xhci_cleanup_stalled_ring k P slot_id ep_index td c = do {
     ep \<leftarrow> get_ep slot_id ep_index c;
     r \<leftarrow> ring_of_stream slot_id ep_index (stopped_stream ep) c;
     st \<leftarrow> ehub_xhci_find_new_dequeue_state slot_id ep_index (stopped_stream ep) td \<lparr>new_deq = None, new_cycle_state = 0\<rparr> c;
     (case new_deq st of
        None \<Rightarrow> Some c
      | Some new_pos \<Rightarrow>
          if hp_quirks P AND XHCI_RESET_EP_QUIRK = 0
          then ehub_xhci_queue_new_dequeue_state k P slot_id ep_index (stopped_stream ep) r new_pos (new_cycle_state st) c
          else do {
            vd \<leftarrow> devs c slot_id;
            vd1 \<leftarrow> xhci_setup_input_ctx_for_quirk ep_index
               (ehub_xhci_trb_virt_to_dma (segs r (fst new_pos)) (Some (snd new_pos))) (new_cycle_state st) vd;
            Some (c\<lparr>devs := (devs c)(slot_id \<mapsto> vd1)\<rparr>)
          })
   }"

section \<open>Cancelling a URB\<close>

text \<open>The search for the ring of a URB in \<open>xhci.c\<close>.\<close>

definition xhci_urb_to_transfer_ring :: "u32 \<Rightarrow> xhci_virt_ep \<Rightarrow> u32 \<Rightarrow> ring_ref option option" where
  "xhci_urb_to_transfer_ring st ep stream_id =
     (if st AND EP_HAS_STREAMS = 0 then Some (ring_of_ref Ep_Ring ep)
      else if stream_id = 0 then Some None
      else do {
        si \<leftarrow> stream_info ep;
        if stream_id < num_streams si
        then if length (stream_rings si) \<le> unat stream_id then None
             else Some (ring_of_ref (Stream_Ring (unat stream_id)) ep)
        else Some None
      })"

text \<open>\<open>check_status\<close> is the answer of \<open>usb_hcd_check_unlink_urb\<close>, \<open>not_attached\<close> whether the core
  has marked the device as gone. The TDs of the URB that are still to come are those on the
  list of its ring.\<close>

definition ehub_xhci_urb_dequeue ::
  "env \<Rightarrow> hcd_params \<Rightarrow> int \<Rightarrow> bool \<Rightarrow> u32 \<Rightarrow> u32 \<Rightarrow> nat \<Rightarrow> hc \<Rightarrow> (int \<times> hc) option" where
  "ehub_xhci_urb_dequeue k P check_status not_attached slot_id ep_index u c =
     (if check_status \<noteq> 0 \<or> urbs c u = None then Some (check_status, c)
      else do {
        ep \<leftarrow> get_ep slot_id ep_index c;
        x \<leftarrow> urbs c u;
        if not_attached \<or> xhc_state (hcd c) AND XHCI_STATE_HALTED \<noteq> 0
        then do {
          let c1 = put_ep slot_id ep_index (del_cancelled (\<lambda>td. td_urb td = u) (del_tds (\<lambda>td. td_urb td = u) ep)) c;
          c2 \<leftarrow> ehub_xhci_urb_free_priv u (usb_hcd_giveback_urb u (- ESHUTDOWN) (tu_actual_length x) c1);
          Some (0, c2)
        }
        else if xhc_state (hcd c) AND XHCI_STATE_DYING \<noteq> 0 then Some (0, c)
        else do {
          p \<leftarrow> xhci_urb_to_transfer_ring (ep_state (hcd c) slot_id ep_index) ep (tu_stream_id x);
          (case p of
             None \<Rightarrow> Some (- EINVAL, c)
           | Some ref \<Rightarrow> do {
               r \<leftarrow> get_ring ref ep;
               let ep1 = ep\<lparr>cancelled_td_list := cancelled_td_list ep @ filter (\<lambda>td. td_urb td = u) (td_list r)\<rparr>;
               let c1 = put_ep slot_id ep_index ep1 c;
               if ep_state (hcd c) slot_id ep_index AND EP_HALT_PENDING \<noteq> 0 then Some (0, c1)
               else (case ehub_xhci_alloc_command k False False c1 of
                  (None, c2) \<Rightarrow> Some (- ENOMEM, c2)
                | (Some cmd, c2) \<Rightarrow> do {
                    let c3 = put_ep slot_id ep_index (ep1\<lparr>stop_cmds_pending := stop_cmds_pending ep1 + 1, stop_cmd_timer := True\<rparr>)
                               (map_ep_state (\<lambda>st. st OR EP_HALT_PENDING) slot_id ep_index c2);
                    (_, c4) \<leftarrow> run_command (ehub_xhci_queue_stop_endpoint k (hp_quirks P) cmd slot_id ep_index 0) c3;
                    c5 \<leftarrow> with_hcd (ehub_xhci_ring_cmd_db k) c4;
                    Some (0, c5)
                  })
             })
        }
      })"

end
