(* ===== verification/Xhci_Event.thy ===== *)
theory Xhci_Event
  imports Xhci_Cancel
begin

text \<open>
  Events of the controller (\<open>xhci-ring.c\<close>): the search for the TRB a transfer event is about, the
  completion of control, bulk, interrupt and isochronous TDs with the length that was
  transferred, the completion of commands, and the dispatch of an event by its type.

  The status of the URB under work (\<open>*status\<close>) is passed along; the loops of the handler are
  \<open>partial_function (option)\<close>.
\<close>

section \<open>Events\<close>

record xhci_transfer_event =
  ev_buffer :: u64
  ev_transfer_len :: u32
  ev_flags :: u32

fun transfer_event :: "xhci_generic_trb \<Rightarrow> xhci_transfer_event" where
  "transfer_event (TRB a b c d) = \<lparr>ev_buffer = ucast a OR push_bit 32 (ucast b), ev_transfer_len = c, ev_flags = d\<rparr>"

definition EVENT_TRB_LEN :: "u32 \<Rightarrow> u32" where "EVENT_TRB_LEN p = p AND 0xffffff"
definition GET_COMP_CODE :: "u32 \<Rightarrow> u32" where "GET_COMP_CODE p = drop_bit 24 p"
definition TRB_TO_SLOT_ID :: "u32 \<Rightarrow> u32" where "TRB_TO_SLOT_ID p = drop_bit 24 p"
definition TRB_TO_EP_ID :: "u32 \<Rightarrow> u32" where "TRB_TO_EP_ID p = drop_bit 16 p AND 0x1f"

definition COMP_DB_ERR :: u32 where "COMP_DB_ERR = 2"
definition COMP_BABBLE :: u32 where "COMP_BABBLE = 3"
definition COMP_TX_ERR :: u32 where "COMP_TX_ERR = 4"
definition COMP_TRB_ERR :: u32 where "COMP_TRB_ERR = 5"
definition COMP_STALL :: u32 where "COMP_STALL = 6"
definition COMP_SHORT_TX :: u32 where "COMP_SHORT_TX = 13"
definition COMP_UNDERRUN :: u32 where "COMP_UNDERRUN = 14"
definition COMP_OVERRUN :: u32 where "COMP_OVERRUN = 15"
definition COMP_BW_OVER :: u32 where "COMP_BW_OVER = 18"
definition COMP_DEV_ERR :: u32 where "COMP_DEV_ERR = 22"
definition COMP_MISSED_INT :: u32 where "COMP_MISSED_INT = 23"
definition COMP_CMD_STOP :: u32 where "COMP_CMD_STOP = 24"
definition COMP_CMD_ABORT :: u32 where "COMP_CMD_ABORT = 25"
definition COMP_STOP :: u32 where "COMP_STOP = 26"
definition COMP_STOP_INVAL :: u32 where "COMP_STOP_INVAL = 27"
definition COMP_BUFF_OVER :: u32 where "COMP_BUFF_OVER = 31"
definition COMP_SPLIT_ERR :: u32 where "COMP_SPLIT_ERR = 36"

definition XHCI_NEC_HOST :: u32 where "XHCI_NEC_HOST = 4"
definition XHCI_SPURIOUS_SUCCESS :: u32 where "XHCI_SPURIOUS_SUCCESS = 0x10"
definition XHCI_EP_LIMIT_QUIRK :: u32 where "XHCI_EP_LIMIT_QUIRK = 0x20"
definition XHCI_TRUST_TX_LENGTH :: u32 where "XHCI_TRUST_TX_LENGTH = 0x400"

definition EPIPE :: int where "EPIPE = 32"
definition EPROTO :: int where "EPROTO = 71"
definition EOVERFLOW :: int where "EOVERFLOW = 75"
definition EILSEQ :: int where "EILSEQ = 84"
definition ENOSR :: int where "ENOSR = 63"
definition ECOMM :: int where "ECOMM = 70"
definition EXDEV :: int where "EXDEV = 18"
definition EREMOTEIO :: int where "EREMOTEIO = 121"
definition EINPROGRESS :: int where "EINPROGRESS = 115"

section \<open>The TRB of an event\<close>

text \<open>The segment of the TRB at \<open>suspect_dma\<close> if it lies between the TRB at \<open>start_dma\<close> and the
  end of the TD. \<open>ehub_xhci_trb_virt_to_dma\<close> is 0 for a TRB of another segment.\<close>

partial_function (option) trb_in_td_loop ::
  "seg_heap \<Rightarrow> seg_id \<Rightarrow> seg_id \<times> nat \<Rightarrow> u64 \<Rightarrow> seg_id \<Rightarrow> u64 \<Rightarrow> seg_id option option" where
  "trb_in_td_loop h start_sg end_trb suspect_dma cur_seg start_dma =
     (if start_dma = 0 then Some None
      else do {
        sg \<leftarrow> h cur_seg;
        let end_seg_dma = ehub_xhci_trb_virt_to_dma (Some sg) (Some (TRBS_PER_SEGMENT - 1));
        let end_trb_dma = (if fst end_trb = cur_seg then ehub_xhci_trb_virt_to_dma (Some sg) (Some (snd end_trb)) else 0);
        if end_trb_dma > 0
        then Some (if start_dma \<le> end_trb_dma
                   then (if start_dma \<le> suspect_dma \<and> suspect_dma \<le> end_trb_dma then Some cur_seg else None)
                   else (if (start_dma \<le> suspect_dma \<and> suspect_dma \<le> end_seg_dma)
                            \<or> (dma sg \<le> suspect_dma \<and> suspect_dma \<le> end_trb_dma) then Some cur_seg else None))
        else if start_dma \<le> suspect_dma \<and> suspect_dma \<le> end_seg_dma then Some (Some cur_seg)
        else do {
          nx \<leftarrow> next_seg sg;
          nsg \<leftarrow> h nx;
          if nx = start_sg then Some None
          else trb_in_td_loop h start_sg end_trb suspect_dma nx (ehub_xhci_trb_virt_to_dma (Some nsg) (Some 0))
        }
      })"

definition ehub_trb_in_td :: "seg_heap \<Rightarrow> seg_id \<times> nat \<Rightarrow> seg_id \<times> nat \<Rightarrow> u64 \<Rightarrow> seg_id option option" where
  "ehub_trb_in_td h start_trb end_trb suspect_dma =
     trb_in_td_loop h (fst start_trb) end_trb suspect_dma (fst start_trb)
       (ehub_xhci_trb_virt_to_dma (h (fst start_trb)) (Some (snd start_trb)))"

text \<open>The ring of an event: for streams the map from segment addresses to rings decides.\<close>

definition ehub_xhci_dma_to_transfer_ring :: "u32 \<Rightarrow> xhci_virt_ep \<Rightarrow> u64 \<Rightarrow> ring_ref option option" where
  "ehub_xhci_dma_to_transfer_ring st ep address =
     (if st AND EP_HAS_STREAMS \<noteq> 0
      then map_option (\<lambda>si. map_option Stream_Ring (trb_address_map si (drop_bit 10 address))) (stream_info ep)
      else Some (ring_of_ref Ep_Ring ep))"

section \<open>Finishing a TD\<close>

definition stream_of_ref :: "ring_ref \<Rightarrow> u32" where
  "stream_of_ref ref = (case ref of Stream_Ring i \<Rightarrow> of_nat i | _ \<Rightarrow> 0)"

definition xhci_cleanup_halted_endpoint ::
  "env \<Rightarrow> hcd_params \<Rightarrow> u32 \<Rightarrow> u32 \<Rightarrow> u32 \<Rightarrow> xhci_td \<Rightarrow> hc \<Rightarrow> hc option" where
  "xhci_cleanup_halted_endpoint k P slot_id ep_index stream_id td c =
     (case ehub_xhci_alloc_command k False False c of
        (None, c1) \<Rightarrow> Some c1
      | (Some cmd, c1) \<Rightarrow> do {
          ep \<leftarrow> get_ep slot_id ep_index c1;
          let c2 = put_ep slot_id ep_index (ep\<lparr>stopped_stream := stream_id\<rparr>)
                     (map_ep_state (\<lambda>st. st OR EP_HALTED) slot_id ep_index c1);
          (_, c3) \<leftarrow> run_command (ehub_xhci_queue_reset_ep k (hp_quirks P) cmd slot_id ep_index) c2;
          c4 \<leftarrow> ehub_xhci_cleanup_stalled_ring k P slot_id ep_index td c3;
          ep4 \<leftarrow> get_ep slot_id ep_index c4;
          with_hcd (ehub_xhci_ring_cmd_db k) (put_ep slot_id ep_index (ep4\<lparr>stopped_stream := 0\<rparr>) c4)
        })"

definition xhci_requires_manual_halt_cleanup :: "u32 \<Rightarrow> u32 \<Rightarrow> bool" where
  "xhci_requires_manual_halt_cleanup ctx_ep_info trb_comp_code \<longleftrightarrow>
     (trb_comp_code = COMP_TX_ERR \<or> trb_comp_code = COMP_BABBLE \<or> trb_comp_code = COMP_SPLIT_ERR)
     \<and> ctx_ep_info AND EP_STATE_MASK = EP_STATE_HALTED"

definition ehub_xhci_is_vendor_info_code :: "u32 \<Rightarrow> bool" where
  "ehub_xhci_is_vendor_info_code trb_comp_code \<longleftrightarrow> 224 \<le> trb_comp_code \<and> trb_comp_code \<le> 255"

text \<open>The consumer's pointer moves behind the last TRB of the TD.\<close>

partial_function (option) deq_past :: "seg_id \<times> nat \<Rightarrow> xhci_ring \<Rightarrow> xhci_ring option" where
  "deq_past last_pos r =
     (if at_pos r = last_pos then inc_deq r
      else do { r1 \<leftarrow> inc_deq r; deq_past last_pos r1 })"

definition short_status :: "tx_urb \<Rightarrow> int" where
  "short_status x = (if tu_short_not_ok x then - EREMOTEIO else 0)"

text \<open>The last part of \<open>finish_td\<close>: an impossible length counts as nothing transferred, the TD
  leaves its lists, and the URB can be given back when all its TDs are done.\<close>

definition td_cleanup :: "u32 \<Rightarrow> u32 \<Rightarrow> xhci_td \<Rightarrow> int \<Rightarrow> hc \<Rightarrow> ((bool \<times> int) \<times> hc) option" where
  "td_cleanup slot_id ep_index td status c = do {
     x \<leftarrow> urbs c (td_urb td);
     ep \<leftarrow> get_ep slot_id ep_index c;
     let bad = tu_transfer_buffer_length x < tu_actual_length x;
     let x1 = (if bad then x\<lparr>tu_actual_length := 0\<rparr> else x)\<lparr>tu_td_cnt := tu_td_cnt x + 1\<rparr>;
     let status1 = (if bad then short_status x else status);
     let ep1 = del_cancelled (\<lambda>td'. td_key td' = td_key td) (del_td td ep);
     let c1 = put_ep slot_id ep_index ep1 (c\<lparr>urbs := (urbs c)(td_urb td \<mapsto> x1)\<rparr>);
     let done = (tu_td_cnt x1 = tu_length x1);
     let c2 = (if done \<and> tu_type x = XFER_ISOC then c1\<lparr>bandwidth_isoc_reqs := bandwidth_isoc_reqs c1 - 1\<rparr> else c1);
     Some ((done, status1), c2)
   }"

definition finish_td ::
  "env \<Rightarrow> hcd_params \<Rightarrow> u32 \<Rightarrow> u32 \<Rightarrow> ring_ref \<Rightarrow> xhci_transfer_event \<Rightarrow> bool \<Rightarrow> xhci_td \<Rightarrow> int \<Rightarrow> hc \<Rightarrow> ((bool \<times> int) \<times> hc) option" where
  "finish_td k P slot_id ep_index ref ev skip_td td status c = do {
     vd \<leftarrow> devs c slot_id;
     ep \<leftarrow> get_ep slot_id ep_index c;
     ctx \<leftarrow> ehub_xhci_get_ep_ctx (out_ctx vd) ep_index;
     let trb_comp_code = GET_COMP_CODE (ev_transfer_len ev);
     if skip_td then td_cleanup slot_id ep_index td status c
     else if trb_comp_code = COMP_STOP_INVAL \<or> trb_comp_code = COMP_STOP
     then Some ((False, status), put_ep slot_id ep_index (ep\<lparr>stopped_td := Some (td_key td)\<rparr>) c)
     else if trb_comp_code = COMP_STALL \<or> xhci_requires_manual_halt_cleanup (ep_info ctx) trb_comp_code
     then do {
       c1 \<leftarrow> xhci_cleanup_halted_endpoint k P slot_id ep_index (stream_of_ref ref) td c;
       td_cleanup slot_id ep_index td status c1
     } else do {
       r \<leftarrow> get_ring ref ep;
       r1 \<leftarrow> deq_past (end_seg td, td_last_trb td) r;
       td_cleanup slot_id ep_index td status (put_ep slot_id ep_index (put_ring ref r1 ep) c)
     }
   }"

section \<open>Lengths and states of TDs\<close>

definition TRB_TYPE_NOOP :: "u32 \<Rightarrow> bool" where
  "TRB_TYPE_NOOP x \<longleftrightarrow> x AND TRB_TYPE_BITMASK = TRB_TYPE TRB_TR_NOOP"

text \<open>The bytes of the TRBs from a position to the TRB of the event, without it.\<close>

partial_function (option) sum_trbs :: "xhci_ring \<Rightarrow> seg_id \<times> nat \<Rightarrow> seg_id \<times> nat \<Rightarrow> u32 \<Rightarrow> u32 option" where
  "sum_trbs r event_trb cur len =
     (if cur = event_trb then Some len
      else do {
        t \<leftarrow> read_trb (segs r) (fst cur) (snd cur);
        nx \<leftarrow> next_trb r cur;
        sum_trbs r event_trb nx
          (if TRB_TYPE_NOOP (control t) \<or> TRB_TYPE_LINK (control t) then len else len + TRB_LEN (field2 t))
      })"

definition set_actual :: "nat \<Rightarrow> u32 \<Rightarrow> hc \<Rightarrow> hc" where
  "set_actual u len c = c\<lparr>urbs := (urbs c)(u := map_option (\<lambda>x. x\<lparr>tu_actual_length := len\<rparr>) (urbs c u))\<rparr>"

definition mark_length_set :: "xhci_td \<Rightarrow> xhci_ring \<Rightarrow> xhci_ring" where
  "mark_length_set td r =
     r\<lparr>td_list := map (\<lambda>td'. if td_key td' = td_key td then td'\<lparr>urb_length_set := True\<rparr> else td') (td_list r)\<rparr>"

text \<open>Control transfers. The first TRB of the TD is the setup stage, the last one the status
  stage; an event in between is for the data stage.\<close>

definition process_ctrl_td ::
  "env \<Rightarrow> hcd_params \<Rightarrow> u32 \<Rightarrow> u32 \<Rightarrow> ring_ref \<Rightarrow> xhci_transfer_event \<Rightarrow> seg_id \<times> nat \<Rightarrow> xhci_td \<Rightarrow> int \<Rightarrow> hc
     \<Rightarrow> ((bool \<times> int) \<times> hc) option" where
  "process_ctrl_td k P slot_id ep_index ref ev event_trb td status c = do {
     vd \<leftarrow> devs c slot_id;
     ep \<leftarrow> get_ep slot_id ep_index c;
     r \<leftarrow> get_ring ref ep;
     ctx \<leftarrow> ehub_xhci_get_ep_ctx (out_ctx vd) ep_index;
     x \<leftarrow> urbs c (td_urb td);
     let code = GET_COMP_CODE (ev_transfer_len ev);
     let left = EVENT_TRB_LEN (ev_transfer_len ev);
     let at_setup = (event_trb = at_pos r);
     let at_status = (event_trb = (end_seg td, td_last_trb td));
     let finish = finish_td k P slot_id ep_index ref ev False td;
     if code = COMP_STOP_INVAL \<or> code = COMP_STOP then finish status c
     else if code = COMP_STALL
       \<or> (code \<noteq> COMP_SUCCESS \<and> code \<noteq> COMP_SHORT_TX \<and> xhci_requires_manual_halt_cleanup (ep_info ctx) code)
     then finish status (set_actual (td_urb td)
            (if \<not> at_setup \<and> \<not> at_status then tu_transfer_buffer_length x - left else 0) c)
     else do {
       let status1 = (if code = COMP_SUCCESS then (if at_setup \<or> \<not> at_status then - ESHUTDOWN else 0)
                      else if code = COMP_SHORT_TX then short_status x
                      else status);
       if at_setup then finish status1 c
       else if at_status
       then (if urb_length_set td
             then finish (if (status1 = - EINPROGRESS \<or> status1 = 0) \<and> tu_short_not_ok x then - EREMOTEIO else status1) c
             else finish status1 (set_actual (td_urb td) (tu_transfer_buffer_length x) c))
       else Some ((False, status1), set_actual (td_urb td) (tu_transfer_buffer_length x - left)
              (put_ep slot_id ep_index (put_ring ref (mark_length_set td r) ep) c))
     }
   }"

text \<open>Isochronous transfers: the TD is the packet of the URB whose turn it is.\<close>

definition iso_status_of :: "tx_urb \<Rightarrow> u32 \<Rightarrow> u32 \<Rightarrow> int \<Rightarrow> int" where
  "iso_status_of x code left old =
     (if code = COMP_SUCCESS \<and> left = 0 then 0
      else if code = COMP_SUCCESS \<or> code = COMP_SHORT_TX then short_status x
      else if code = COMP_BW_OVER then - ECOMM
      else if code = COMP_BUFF_OVER \<or> code = COMP_BABBLE then - EOVERFLOW
      else if code = COMP_DEV_ERR \<or> code = COMP_STALL \<or> code = COMP_TX_ERR then - EPROTO
      else if code = COMP_STOP \<or> code = COMP_STOP_INVAL then old
      else - 1)"

definition iso_skips :: "u32 \<Rightarrow> bool" where
  "iso_skips code \<longleftrightarrow> code = COMP_BW_OVER \<or> code = COMP_BUFF_OVER \<or> code = COMP_BABBLE
     \<or> code = COMP_DEV_ERR \<or> code = COMP_STALL \<or> code = COMP_TX_ERR"

definition put_frame :: "nat \<Rightarrow> nat \<Rightarrow> usb_iso_packet_descriptor \<Rightarrow> u32 \<Rightarrow> hc \<Rightarrow> hc" where
  "put_frame u idx fr actual c =
     c\<lparr>urbs := (urbs c)(u := map_option (\<lambda>x. x\<lparr>tu_iso_frame_desc := (tu_iso_frame_desc x)[idx := fr], tu_actual_length := actual\<rparr>) (urbs c u))\<rparr>"

definition process_isoc_td ::
  "env \<Rightarrow> hcd_params \<Rightarrow> u32 \<Rightarrow> u32 \<Rightarrow> ring_ref \<Rightarrow> xhci_transfer_event \<Rightarrow> seg_id \<times> nat \<Rightarrow> xhci_td \<Rightarrow> int \<Rightarrow> hc
     \<Rightarrow> ((bool \<times> int) \<times> hc) option" where
  "process_isoc_td k P slot_id ep_index ref ev event_trb td status c = do {
     ep \<leftarrow> get_ep slot_id ep_index c;
     r \<leftarrow> get_ring ref ep;
     x \<leftarrow> urbs c (td_urb td);
     let idx = nat (tu_td_cnt x);
     let left = EVENT_TRB_LEN (ev_transfer_len ev);
     let code0 = GET_COMP_CODE (ev_transfer_len ev);
     let code = (if code0 = COMP_SUCCESS \<and> left \<noteq> 0 \<and> hp_quirks P AND XHCI_TRUST_TX_LENGTH \<noteq> 0 then COMP_SHORT_TX else code0);
     if length (tu_iso_frame_desc x) \<le> idx then None
     else do {
       let frame = (tu_iso_frame_desc x ! idx)\<lparr>iso_status := iso_status_of x code0 left (iso_status (tu_iso_frame_desc x ! idx))\<rparr>;
       let finish = finish_td k P slot_id ep_index ref ev False td status;
       if code = COMP_TX_ERR \<and> event_trb \<noteq> (end_seg td, td_last_trb td)
       then Some ((False, status), put_frame (td_urb td) idx frame (tu_actual_length x) c)
       else if code = COMP_SUCCESS \<or> iso_skips code
       then finish (put_frame (td_urb td) idx (frame\<lparr>iso_actual_length := iso_length frame\<rparr>)
              (tu_actual_length x + iso_length frame) c)
       else do {
         before \<leftarrow> sum_trbs r event_trb (at_pos r) 0;
         t \<leftarrow> read_trb (segs r) (fst event_trb) (snd event_trb);
         let len = before + TRB_LEN (field2 t) - left;
         if code = COMP_STOP_INVAL then finish (put_frame (td_urb td) idx frame (tu_actual_length x) c)
         else finish (put_frame (td_urb td) idx (frame\<lparr>iso_actual_length := len\<rparr>) (tu_actual_length x + len) c)
       }
     }
   }"

definition skip_isoc_td ::
  "env \<Rightarrow> hcd_params \<Rightarrow> u32 \<Rightarrow> u32 \<Rightarrow> ring_ref \<Rightarrow> xhci_transfer_event \<Rightarrow> xhci_td \<Rightarrow> int \<Rightarrow> hc \<Rightarrow> ((bool \<times> int) \<times> hc) option" where
  "skip_isoc_td k P slot_id ep_index ref ev td status c = do {
     ep \<leftarrow> get_ep slot_id ep_index c;
     r \<leftarrow> get_ring ref ep;
     x \<leftarrow> urbs c (td_urb td);
     let idx = nat (tu_td_cnt x);
     if length (tu_iso_frame_desc x) \<le> idx then None
     else do {
       let frame = (tu_iso_frame_desc x ! idx)\<lparr>iso_status := - EXDEV, iso_actual_length := 0\<rparr>;
       r1 \<leftarrow> deq_past (end_seg td, td_last_trb td) r;
       finish_td k P slot_id ep_index ref ev True td status
         (put_frame (td_urb td) idx frame (tu_actual_length x) (put_ep slot_id ep_index (put_ring ref r1 ep) c))
     }
   }"

text \<open>Bulk and interrupt transfers. On the last TRB the event tells what is missing; before it, the
  TRBs from the dequeue pointer on are added up.\<close>

definition bulk_status :: "tx_urb \<Rightarrow> u32 \<Rightarrow> u32 \<Rightarrow> bool \<Rightarrow> int \<Rightarrow> int" where
  "bulk_status x code left at_last status =
     (if code = COMP_SUCCESS then (if \<not> at_last \<or> left \<noteq> 0 then short_status x else 0)
      else if code = COMP_SHORT_TX then short_status x
      else status)"

definition process_bulk_intr_td ::
  "env \<Rightarrow> hcd_params \<Rightarrow> u32 \<Rightarrow> u32 \<Rightarrow> ring_ref \<Rightarrow> xhci_transfer_event \<Rightarrow> seg_id \<times> nat \<Rightarrow> xhci_td \<Rightarrow> int \<Rightarrow> hc
     \<Rightarrow> ((bool \<times> int) \<times> hc) option" where
  "process_bulk_intr_td k P slot_id ep_index ref ev event_trb td status c = do {
     ep \<leftarrow> get_ep slot_id ep_index c;
     r \<leftarrow> get_ring ref ep;
     x \<leftarrow> urbs c (td_urb td);
     let left = EVENT_TRB_LEN (ev_transfer_len ev);
     let code = GET_COMP_CODE (ev_transfer_len ev);
     let total = tu_transfer_buffer_length x;
     let at_last = (event_trb = (end_seg td, td_last_trb td));
     let status1 = bulk_status x code left at_last status;
     let finish = finish_td k P slot_id ep_index ref ev False td;
     if at_last
     then (if left \<noteq> 0
           then do {
             let bad = (total < total - left);
             let status2 = (if bad \<or> status1 = - EINPROGRESS then short_status x else status1);
             finish status2 (set_actual (td_urb td) (if bad then 0 else total - left) c)
           } else finish (if status1 = - EREMOTEIO then 0 else status1) (set_actual (td_urb td) total c))
     else do {
       before \<leftarrow> sum_trbs r event_trb (at_pos r) 0;
       t \<leftarrow> read_trb (segs r) (fst event_trb) (snd event_trb);
       finish status1 (set_actual (td_urb td)
         (if code \<noteq> COMP_STOP_INVAL then before + (TRB_LEN (field2 t) - left) else before) c)
     }
   }"

section \<open>Transfer events\<close>

text \<open>The first switch of the handler: the status to start with, the completion code to go on with
  and whether a TD is to be looked at, or the event ends at \<open>cleanup\<close>.\<close>

definition tx_event_code :: "hcd_params \<Rightarrow> u32 \<Rightarrow> u32" where
  "tx_event_code P transfer_len =
     (let code = GET_COMP_CODE transfer_len in
      if code = COMP_SUCCESS \<and> EVENT_TRB_LEN transfer_len \<noteq> 0 \<and> hp_quirks P AND XHCI_TRUST_TX_LENGTH \<noteq> 0
      then COMP_SHORT_TX else code)"

definition tx_event_status :: "u32 \<Rightarrow> int" where
  "tx_event_status code =
     (if code = COMP_STALL then - EPIPE
      else if code = COMP_TRB_ERR then - EILSEQ
      else if code = COMP_SPLIT_ERR \<or> code = COMP_TX_ERR then - EPROTO
      else if code = COMP_BABBLE then - EOVERFLOW
      else if code = COMP_DB_ERR then - ENOSR
      else if code = COMP_DEV_ERR then - EPROTO
      else if ehub_xhci_is_vendor_info_code code then 0
      else - EINPROGRESS)"

definition tx_event_known :: "u32 \<Rightarrow> bool" where
  "tx_event_known code \<longleftrightarrow> code \<in> {COMP_SUCCESS, COMP_SHORT_TX, COMP_STOP, COMP_STOP_INVAL, COMP_STALL, COMP_TRB_ERR,
      COMP_SPLIT_ERR, COMP_TX_ERR, COMP_BABBLE, COMP_DB_ERR, COMP_BW_OVER, COMP_BUFF_OVER, COMP_DEV_ERR}
     \<or> ehub_xhci_is_vendor_info_code code"

definition set_skip :: "u32 \<Rightarrow> u32 \<Rightarrow> bool \<Rightarrow> hc \<Rightarrow> hc option" where
  "set_skip slot_id ep_index b c = map_option (\<lambda>ep. put_ep slot_id ep_index (ep\<lparr>skip := b\<rparr>) c) (get_ep slot_id ep_index c)"

text \<open>The part after the label \<open>cleanup\<close>: the event ring moves on, unless missed TDs are still to be
  skipped, and a URB that is done is given back; the status of an isochronous URB is 0.\<close>

definition tx_cleanup :: "u32 \<Rightarrow> u32 \<Rightarrow> u32 \<Rightarrow> bool \<Rightarrow> xhci_td option \<Rightarrow> int \<Rightarrow> hc \<Rightarrow> (int \<times> hc) option" where
  "tx_cleanup slot_id ep_index code ret td status c = do {
     ep \<leftarrow> get_ep slot_id ep_index c;
     c1 \<leftarrow> (if code = COMP_MISSED_INT \<or> \<not> skip ep
            then map_option (\<lambda>r. c\<lparr>event_ring := r\<rparr>) (inc_deq (event_ring c)) else Some c);
     if ret
     then do {
       t \<leftarrow> td;
       x \<leftarrow> urbs c1 (td_urb t);
       c2 \<leftarrow> ehub_xhci_urb_free_priv (td_urb t) c1;
       let status1 = (if tu_type x = XFER_ISOC then 0 else status);
       Some (status1, usb_hcd_giveback_urb (td_urb t) status1 (tu_actual_length x) c2)
     } else Some (status, c1)
   }"

text \<open>One round of the loop up to \<open>cleanup\<close>. \<open>Inl\<close> is a return from the handler. The result \<open>ret\<close>
  keeps its value of the round before on the path of a no-op TRB.\<close>

definition tx_round ::
  "env \<Rightarrow> hcd_params \<Rightarrow> u32 \<Rightarrow> u32 \<Rightarrow> ring_ref \<Rightarrow> xhci_transfer_event \<Rightarrow> u32 \<Rightarrow> bool \<Rightarrow> int \<Rightarrow> nat \<Rightarrow> hc
     \<Rightarrow> (((int + (bool \<times> xhci_td option \<times> int \<times> nat)) \<times> hc) option)" where
  "tx_round k P slot_id ep_index ref ev code ret status td_num c = do {
     ep \<leftarrow> get_ep slot_id ep_index c;
     r \<leftarrow> get_ring ref ep;
     (case td_list r of
        [] \<Rightarrow> do { c1 \<leftarrow> set_skip slot_id ep_index False c; Some (Inr (False, None, status, td_num), c1) }
      | td # _ \<Rightarrow>
          if skip ep \<and> td_num = 0
          then do { c1 \<leftarrow> set_skip slot_id ep_index False c; Some (Inr (False, None, status, td_num), c1) }
          else do {
            let td_num1 = (if skip ep then td_num - 1 else td_num);
            x \<leftarrow> urbs c (td_urb td);
            event_seg \<leftarrow> ehub_trb_in_td (segs r) (at_pos r) (end_seg td, td_last_trb td) (ev_buffer ev);
            (case event_seg of
               None \<Rightarrow>
                 if code = COMP_STOP \<or> code = COMP_STOP_INVAL then Some (Inr (False, Some td, status, td_num1), c)
                 else if \<not> skip ep \<or> tu_type x \<noteq> XFER_ISOC
                 then if hp_quirks P AND XHCI_SPURIOUS_SUCCESS \<noteq> 0 \<and> last_td_was_short r
                      then Some (Inr (False, Some td, status, td_num1),
                                 put_ep slot_id ep_index (put_ring ref (r\<lparr>last_td_was_short := False\<rparr>) ep) c)
                      else Some (Inl (- ESHUTDOWN), c)
                 else do {
                   ((ret1, status1), c1) \<leftarrow> skip_isoc_td k P slot_id ep_index ref ev td status c;
                   Some (Inr (ret1, Some td, status1, td_num1), c1)
                 }
             | Some g \<Rightarrow> do {
                 sg \<leftarrow> segs r g;
                 let event_trb = (g, unat ((ev_buffer ev - dma sg) div 16));
                 let r1 = r\<lparr>last_td_was_short := (code = COMP_SHORT_TX)\<rparr>;
                 let c1 = put_ep slot_id ep_index ((put_ring ref r1 ep)\<lparr>skip := False\<rparr>) c;
                 t \<leftarrow> read_trb (segs r) (fst event_trb) (snd event_trb);
                 if TRB_TYPE_NOOP (control t) then Some (Inr (ret, Some td, status, td_num1), c1)
                 else do {
                   ((ret1, status1), c2) \<leftarrow>
                     (if tu_type x = XFER_CONTROL then process_ctrl_td k P slot_id ep_index ref ev event_trb td status c1
                      else if tu_type x = XFER_ISOC then process_isoc_td k P slot_id ep_index ref ev event_trb td status c1
                      else process_bulk_intr_td k P slot_id ep_index ref ev event_trb td status c1);
                   Some (Inr (ret1, Some td, status1, td_num1), c2)
                 }
               })
          })
   }"

partial_function (option) tx_loop ::
  "env \<Rightarrow> hcd_params \<Rightarrow> u32 \<Rightarrow> u32 \<Rightarrow> ring_ref \<Rightarrow> xhci_transfer_event \<Rightarrow> u32 \<Rightarrow> bool \<Rightarrow> int \<Rightarrow> nat \<Rightarrow> hc \<Rightarrow> (int \<times> hc) option" where
  "tx_loop k P slot_id ep_index ref ev code ret status td_num c = do {
     (res, c1) \<leftarrow> tx_round k P slot_id ep_index ref ev code ret status td_num c;
     (case res of
        Inl err \<Rightarrow> Some (err, c1)
      | Inr (ret1, td, status1, td_num1) \<Rightarrow> do {
          (status2, c2) \<leftarrow> tx_cleanup slot_id ep_index code ret1 td status1 c1;
          ep \<leftarrow> get_ep slot_id ep_index c2;
          if skip ep \<and> code \<noteq> COMP_MISSED_INT
          then tx_loop k P slot_id ep_index ref ev code ret1 status2 td_num1 c2
          else Some (0, c2)
        })
   }"

definition ehub_handle_tx_event :: "env \<Rightarrow> hcd_params \<Rightarrow> xhci_transfer_event \<Rightarrow> hc \<Rightarrow> (int \<times> hc) option" where
  "ehub_handle_tx_event k P ev c = (
     let slot_id = TRB_TO_SLOT_ID (ev_flags ev); ep_index = TRB_TO_EP_ID (ev_flags ev) - 1 in
     case devs c slot_id of
       None \<Rightarrow> Some (- ENODEV, c)
     | Some vd \<Rightarrow> do {
         ep \<leftarrow> get_ep slot_id ep_index c;
         p \<leftarrow> ehub_xhci_dma_to_transfer_ring (ep_state (hcd c) slot_id ep_index) ep (ev_buffer ev);
         ctx \<leftarrow> ehub_xhci_get_ep_ctx (out_ctx vd) ep_index;
         (case p of
            None \<Rightarrow> Some (- ENODEV, c)
          | Some ref \<Rightarrow>
              if ep_info ctx AND EP_STATE_MASK = EP_STATE_DISABLED then Some (- ENODEV, c)
              else do {
                r \<leftarrow> get_ring ref ep;
                let td_num = (if skip ep then length (td_list r) else 0);
                let code = tx_event_code P (ev_transfer_len ev);
                let status = tx_event_status code;
                let c1 = (if code = COMP_STALL then map_ep_state (\<lambda>st. st OR EP_HALTED) slot_id ep_index c else c);
                if tx_event_known code then tx_loop k P slot_id ep_index ref ev code False status td_num c1
                else do {
                  c2 \<leftarrow> (if code = COMP_MISSED_INT then set_skip slot_id ep_index True c1 else Some c1);
                  (status2, c3) \<leftarrow> tx_cleanup slot_id ep_index code False None status c2;
                  ep3 \<leftarrow> get_ep slot_id ep_index c3;
                  if skip ep3 \<and> code \<noteq> COMP_MISSED_INT
                  then tx_loop k P slot_id ep_index ref ev code False status2 td_num c3
                  else Some (0, c3)
                }
              })
       })"

section \<open>Completion of commands\<close>

definition CMD_RING_STATE_ABORTED :: u32 where "CMD_RING_STATE_ABORTED = 2"
definition TRB_ENABLE_SLOT :: u32 where "TRB_ENABLE_SLOT = 9"
definition TRB_DISABLE_SLOT :: u32 where "TRB_DISABLE_SLOT = 10"
definition TRB_ADDR_DEV :: u32 where "TRB_ADDR_DEV = 11"
definition TRB_CONFIG_EP :: u32 where "TRB_CONFIG_EP = 12"
definition TRB_EVAL_CONTEXT :: u32 where "TRB_EVAL_CONTEXT = 13"
definition TRB_RESET_EP :: u32 where "TRB_RESET_EP = 14"
definition TRB_STOP_RING :: u32 where "TRB_STOP_RING = 15"
definition TRB_RESET_DEV :: u32 where "TRB_RESET_DEV = 17"
definition TRB_CMD_NOOP :: u32 where "TRB_CMD_NOOP = 23"
definition TRB_NEC_GET_FW :: u32 where "TRB_NEC_GET_FW = 49"
definition TRB_FIELD_TO_TYPE :: "u32 \<Rightarrow> u32" where "TRB_FIELD_TO_TYPE p = drop_bit 10 (p AND TRB_TYPE_BITMASK)"

definition set_error :: "nat \<Rightarrow> hc \<Rightarrow> hc" where
  "set_error i c = c\<lparr>error_bitmask := error_bitmask c OR push_bit i 1\<rparr>"

text \<open>A finished command leaves the list; a waiter learns its status, without one it is freed.\<close>

definition xhci_complete_del_and_free_cmd :: "nat \<Rightarrow> u32 \<Rightarrow> hc \<Rightarrow> hc option" where
  "xhci_complete_del_and_free_cmd cmd status c = do {
     o1 \<leftarrow> commands c cmd;
     let c1 = c\<lparr>cmdq := (cmdq c)\<lparr>cmd_list := filter (\<lambda>x. cmd_id x \<noteq> cmd) (cmd_list (cmdq c))\<rparr>\<rparr>;
     Some (if cmd_waiter o1
           then c1\<lparr>commands := (commands c)(cmd \<mapsto> o1\<lparr>cmd_status := status\<rparr>), completed_cmds := completed_cmds c @ [(cmd, status)]\<rparr>
           else ehub_xhci_free_command cmd c1)
   }"

fun complete_all :: "nat list \<Rightarrow> u32 \<Rightarrow> hc \<Rightarrow> hc option" where
  "complete_all [] status c = Some c"
| "complete_all (cmd # cmds) status c = do { c1 \<leftarrow> xhci_complete_del_and_free_cmd cmd status c; complete_all cmds status c1 }"

definition ehub_xhci_cleanup_command_queue :: "hc \<Rightarrow> hc option" where
  "ehub_xhci_cleanup_command_queue c = complete_all (map cmd_id (cmd_list (cmdq c))) COMP_CMD_ABORT c"

text \<open>Aborted commands become no-ops that keep their cycle bit.\<close>

definition abort_to_noop :: "xhci_generic_trb \<Rightarrow> xhci_generic_trb" where
  "abort_to_noop t = TRB 0 0 0 (TRB_TYPE TRB_CMD_NOOP OR (control t AND TRB_CYCLE))"

fun noop_aborted :: "xhci_command list \<Rightarrow> hc \<Rightarrow> hc option" where
  "noop_aborted [] c = Some c"
| "noop_aborted (x # xs) c = do {
     o1 \<leftarrow> commands c (cmd_id x);
     if cmd_status o1 \<noteq> COMP_CMD_ABORT then noop_aborted xs c
     else do {
       let r = cmd_ring (cmdq c);
       h \<leftarrow> map_trb abort_to_noop (fst (command_trb x)) (snd (command_trb x)) (segs r);
       noop_aborted xs (c\<lparr>commands := (commands c)(cmd_id x \<mapsto> o1\<lparr>cmd_status := COMP_CMD_STOP\<rparr>),
          cmdq := (cmdq c)\<lparr>cmd_ring := r\<lparr>segs := h\<rparr>\<rparr>\<rparr>)
     }
   }"

definition xhci_handle_stopped_cmd_ring :: "env \<Rightarrow> nat option \<Rightarrow> hc \<Rightarrow> hc option" where
  "xhci_handle_stopped_cmd_ring k cur_cmd c = do {
     c1 \<leftarrow> noop_aborted (cmd_list (cmdq c)) c;
     let c2 = c1\<lparr>hcd := (hcd c1)\<lparr>cmd_ring_state := CMD_RING_STATE_RUNNING\<rparr>\<rparr>;
     let r = cmd_ring (cmdq c2);
     if at_pos r \<noteq> (enq_seg r, enqueue r) \<and> xhc_state (hcd c2) AND XHCI_STATE_DYING = 0
     then with_hcd (ehub_xhci_ring_cmd_db k) (c2\<lparr>cmdq := (cmdq c2)\<lparr>current_cmd := cur_cmd, cmd_timer_pending := True\<rparr>\<rparr>)
     else Some c2
   }"

text \<open>The timer of the current command has expired: the device counts as gone.\<close>

definition ehub_xhci_handle_command_timeout :: "env \<Rightarrow> bool \<Rightarrow> hc \<Rightarrow> hc option" where
  "ehub_xhci_handle_command_timeout k primary_hcd c0 = do {
     let c = c0\<lparr>cmdq := (cmdq c0)\<lparr>cmd_timer_pending := False\<rparr>\<rparr>;
     c1 \<leftarrow> (case current_cmd (cmdq c) of
              None \<Rightarrow> Some c
            | Some cmd \<Rightarrow> map_option (\<lambda>o1. c\<lparr>commands := (commands c)(cmd \<mapsto> o1\<lparr>cmd_status := COMP_CMD_ABORT\<rparr>)\<rparr>) (commands c cmd));
     let c2 = c1\<lparr>hcd := (hcd c1)\<lparr>xhc_state := xhc_state (hcd c1) OR XHCI_STATE_DYING\<rparr>\<rparr>;
     if cmd_ring_state (hcd c2) AND CMD_RING_STATE_RUNNING \<noteq> 0
     then do {
       c3 \<leftarrow> ehub_xhci_cleanup_command_queue (c2\<lparr>hcd := (hcd c2)\<lparr>cmd_ring_state := CMD_RING_STATE_ABORTED\<rparr>\<rparr>);
       Some (if primary_hcd then c3\<lparr>hc_died := True\<rparr> else c3)
     } else xhci_handle_stopped_cmd_ring k (current_cmd (cmdq c2)) c2
   }"

definition xhci_handle_cmd_enable_slot :: "u32 \<Rightarrow> u32 \<Rightarrow> hc \<Rightarrow> hc" where
  "xhci_handle_cmd_enable_slot slot_id cmd_comp_code c =
     c\<lparr>slot_answer := (if cmd_comp_code = COMP_SUCCESS then slot_id else 0)\<rparr>"

text \<open>The configure command after a reset endpoint command, on hardware that needs it.\<close>

definition xhci_handle_cmd_config_ep :: "env \<Rightarrow> hcd_params \<Rightarrow> u32 \<Rightarrow> hc \<Rightarrow> hc option" where
  "xhci_handle_cmd_config_ep k P slot_id c = do {
     vd \<leftarrow> devs c slot_id;
     if \<not> ctx_input (in_ctx vd) then Some c
     else do {
       let add_fl = add_flags (in_ctx vd);
       let ep_index = ehub_xhci_last_valid_endpoint add_fl - 1;
       if hp_quirks P AND XHCI_RESET_EP_QUIRK \<noteq> 0 \<and> ep_index \<noteq> - 1 \<and> add_fl - SLOT_FLAG = drop_flags (in_ctx vd)
       then do {
         _ \<leftarrow> get_ep slot_id ep_index c;
         if ep_state (hcd c) slot_id ep_index AND EP_HALTED = 0 then Some c
         else ring_doorbell_for_active_rings k slot_id ep_index (map_ep_state (\<lambda>st. st AND NOT EP_HALTED) slot_id ep_index c)
       } else Some c
     }
   }"

definition xhci_handle_cmd_nec_get_fw :: "hcd_params \<Rightarrow> hc \<Rightarrow> hc" where
  "xhci_handle_cmd_nec_get_fw P c = (if hp_quirks P AND XHCI_NEC_HOST = 0 then set_error 6 c else c)"

text \<open>The device of a disabled slot is released with the rings of its endpoints and streams.\<close>

fun free_rings :: "xhci_ring option list \<Rightarrow> ehub \<Rightarrow> ehub option" where
  "free_rings [] s = Some s"
| "free_rings (r # rs) s = do { s1 \<leftarrow> ehub_xhci_ring_free r s; free_rings rs s1 }"

definition ehub_xhci_free_stream_info :: "xhci_stream_info option \<Rightarrow> hc \<Rightarrow> hc option" where
  "ehub_xhci_free_stream_info p c = (case p of
     None \<Rightarrow> Some c
   | Some si \<Rightarrow>
       if length (stream_rings si) < unat (num_streams si) then None
       else do {
         c1 \<leftarrow> with_hcd (free_rings (drop 1 (take (unat (num_streams si)) (stream_rings si)))) c;
         Some (ehub_xhci_free_command (free_streams_command si)
           (c1\<lparr>cmdq := (cmdq c1)\<lparr>cmd_ring_reserved_trbs := cmd_ring_reserved_trbs (cmdq c1) - 1\<rparr>\<rparr>))
       })"

fun free_endpoints :: "xhci_virt_ep list \<Rightarrow> hc \<Rightarrow> hc option" where
  "free_endpoints [] c = Some c"
| "free_endpoints (ep # es) c = do {
     c1 \<leftarrow> with_hcd (ehub_xhci_ring_free (ep_ring ep)) c;
     c2 \<leftarrow> ehub_xhci_free_stream_info (stream_info ep) c1;
     free_endpoints es c2
   }"

definition ehub_xhci_free_virt_device :: "u32 \<Rightarrow> hc \<Rightarrow> hc option" where
  "ehub_xhci_free_virt_device slot_id c =
     (if slot_id = 0 then Some c
      else case devs c slot_id of
        None \<Rightarrow> Some c
      | Some vd \<Rightarrow> do {
          old_active_eps \<leftarrow> (case tt_info_of vd of None \<Rightarrow> Some 0 | Some t \<Rightarrow> map_option active_eps (tts (bw c) t));
          c1 \<leftarrow> free_endpoints (eps vd) (c\<lparr>dcbaa := (dcbaa c)(slot_id := 0)\<rparr>);
          b1 \<leftarrow> xhci_free_tt_info (real_port vd) (uint slot_id) (bw c1);
          b2 \<leftarrow> ehub_xhci_update_tt_active_eps (tt_info_of vd) (real_port vd) old_active_eps b1;
          Some (c1\<lparr>bw := b2, devs := (devs c1)(slot_id := None)\<rparr>)
        })"

definition ehub_xhci_free_device_endpoint_resources :: "xhci_virt_device \<Rightarrow> bool \<Rightarrow> hc \<Rightarrow> hc" where
  "ehub_xhci_free_device_endpoint_resources vd drop_control_ep c =
     c\<lparr>num_active_eps := num_active_eps c
        - of_nat (length (filter (\<lambda>ep. ep_ring ep \<noteq> None) (drop (if drop_control_ep then 0 else 1) (eps vd))))\<rparr>"

definition xhci_handle_cmd_disable_slot :: "hcd_params \<Rightarrow> u32 \<Rightarrow> hc \<Rightarrow> hc option" where
  "xhci_handle_cmd_disable_slot P slot_id c = (case devs c slot_id of
     None \<Rightarrow> Some c
   | Some vd \<Rightarrow> ehub_xhci_free_virt_device slot_id
       (if hp_quirks P AND XHCI_EP_LIMIT_QUIRK \<noteq> 0 then ehub_xhci_free_device_endpoint_resources vd True c else c))"

text \<open>The completion by the type of the command. The first result is the completion code the
  waiter is told.\<close>

definition handle_cmd_type ::
  "env \<Rightarrow> hcd_params \<Rightarrow> u32 \<Rightarrow> xhci_generic_trb \<Rightarrow> cmd_object \<Rightarrow> u32 \<Rightarrow> hc \<Rightarrow> (u32 \<times> hc) option" where
  "handle_cmd_type k P slot_id cmd_trb obj code c = (
     let ty = TRB_FIELD_TO_TYPE (control cmd_trb); keep = map_option (\<lambda>c1. (code, c1)) in
     if ty = TRB_ENABLE_SLOT then Some (code, xhci_handle_cmd_enable_slot slot_id code c)
     else if ty = TRB_DISABLE_SLOT then keep (xhci_handle_cmd_disable_slot P slot_id c)
     else if ty = TRB_CONFIG_EP then (if cmd_waiter obj then Some (code, c) else keep (xhci_handle_cmd_config_ep k P slot_id c))
     else if ty = TRB_EVAL_CONTEXT \<or> ty = TRB_ADDR_DEV \<or> ty = TRB_RESET_DEV then Some (code, c)
     else if ty = TRB_STOP_RING then keep (xhci_handle_cmd_stop_ep k P slot_id cmd_trb c)
     else if ty = TRB_SET_DEQ then keep (xhci_handle_cmd_set_deq k slot_id cmd_trb code c)
     else if ty = TRB_CMD_NOOP then Some (if cmd_status obj = COMP_CMD_STOP then COMP_CMD_STOP else code, c)
     else if ty = TRB_RESET_EP then keep (xhci_handle_cmd_reset_ep k P slot_id cmd_trb c)
     else if ty = TRB_NEC_GET_FW then Some (code, xhci_handle_cmd_nec_get_fw P c)
     else Some (code, set_error 6 c))"

definition finish_command :: "nat \<Rightarrow> u32 \<Rightarrow> hc \<Rightarrow> hc option" where
  "finish_command cmd code c = do {
     c1 \<leftarrow> xhci_complete_del_and_free_cmd cmd code c;
     r \<leftarrow> inc_deq (cmd_ring (cmdq c1));
     Some (c1\<lparr>cmdq := (cmdq c1)\<lparr>cmd_ring := r\<rparr>\<rparr>)
   }"

text \<open>The timer is restarted for the command after this one.\<close>

definition next_command :: "nat \<Rightarrow> hc \<Rightarrow> hc" where
  "next_command cmd c =
     (case drop 1 (dropWhile (\<lambda>x. cmd_id x \<noteq> cmd) (cmd_list (cmdq c))) of
        [] \<Rightarrow> c
      | x # _ \<Rightarrow> c\<lparr>cmdq := (cmdq c)\<lparr>current_cmd := Some (cmd_id x), cmd_timer_pending := True\<rparr>\<rparr>)"

definition handle_cmd_completion ::
  "env \<Rightarrow> hcd_params \<Rightarrow> xhci_transfer_event \<Rightarrow> hc \<Rightarrow> hc option" where
  "handle_cmd_completion k P ev c = do {
     let slot_id = TRB_TO_SLOT_ID (ev_flags ev);
     let r = cmd_ring (cmdq c);
     let cmd_dequeue_dma = ehub_xhci_trb_virt_to_dma (segs r (deq_seg r)) (Some (dequeue r));
     if cmd_dequeue_dma = 0 then Some (set_error 4 c)
     else if ev_buffer ev \<noteq> cmd_dequeue_dma then Some (set_error 5 c)
     else (case cmd_list (cmdq c) of
        [] \<Rightarrow> None
      | cmd # _ \<Rightarrow>
          if command_trb cmd \<noteq> at_pos r then Some c
          else do {
            let c1 = c\<lparr>cmdq := (cmdq c)\<lparr>cmd_timer_pending := False\<rparr>\<rparr>;
            let code = GET_COMP_CODE (ev_transfer_len ev);
            obj \<leftarrow> commands c (cmd_id cmd);
            trb \<leftarrow> read_trb (segs r) (deq_seg r) (dequeue r);
            if code = COMP_CMD_STOP then xhci_handle_stopped_cmd_ring k (Some (cmd_id cmd)) c1
            else do {
              let c2 = (if code = COMP_CMD_ABORT then c1\<lparr>hcd := (hcd c1)\<lparr>cmd_ring_state := CMD_RING_STATE_STOPPED\<rparr>\<rparr> else c1);
              if code = COMP_CMD_ABORT \<and> cmd_status obj = COMP_CMD_ABORT then finish_command (cmd_id cmd) code c2
              else do {
                (code1, c3) \<leftarrow> handle_cmd_type k P slot_id trb obj code c2;
                finish_command (cmd_id cmd) code1 (next_command (cmd_id cmd) c3)
              }
            }
          })
   }"

section \<open>Dispatch\<close>

definition TRB_TRANSFER :: u32 where "TRB_TRANSFER = 32"
definition TRB_COMPLETION :: u32 where "TRB_COMPLETION = 33"
definition TRB_PORT_STATUS :: u32 where "TRB_PORT_STATUS = 34"
definition TRB_DEV_NOTE :: u32 where "TRB_DEV_NOTE = 38"
definition TRB_NEC_CMD_COMP :: u32 where "TRB_NEC_CMD_COMP = 48"

text \<open>A port status event is handled later by a work item of its own; its structure is used without
  a test for \<open>NULL\<close>.\<close>

definition ehub_xhci_queue_port_status_event :: "env \<Rightarrow> xhci_generic_trb \<Rightarrow> hc \<Rightarrow> hc option" where
  "ehub_xhci_queue_port_status_event k event c =
     (if kzalloc k (tick (hcd c)) then Some (c\<lparr>hcd := tick_up (hcd c), port_events := port_events c @ [event]\<rparr>) else None)"

definition handle_device_notification :: "xhci_generic_trb \<Rightarrow> hc \<Rightarrow> hc" where
  "handle_device_notification event c =
     (let slot_id = TRB_TO_SLOT_ID (control event) in
      case devs c slot_id of None \<Rightarrow> c | Some _ \<Rightarrow> c\<lparr>wakeups := wakeups c @ [slot_id]\<rparr>)"

definition handle_vendor_event :: "env \<Rightarrow> hcd_params \<Rightarrow> xhci_generic_trb \<Rightarrow> hc \<Rightarrow> hc option" where
  "handle_vendor_event k P event c =
     (if TRB_FIELD_TO_TYPE (control event) = TRB_NEC_CMD_COMP \<and> hp_quirks P AND XHCI_NEC_HOST \<noteq> 0
      then handle_cmd_completion k P (transfer_event event) c else Some c)"

definition ehub_xhci_handle_event :: "env \<Rightarrow> hcd_params \<Rightarrow> xhci_generic_trb \<Rightarrow> hc \<Rightarrow> hc option" where
  "ehub_xhci_handle_event k P event c = (
     let ty = control event AND TRB_TYPE_BITMASK in
     if ty = TRB_TYPE TRB_COMPLETION then handle_cmd_completion k P (transfer_event event) c
     else if ty = TRB_TYPE TRB_PORT_STATUS then ehub_xhci_queue_port_status_event k event c
     else if ty = TRB_TYPE TRB_TRANSFER
     then map_option (\<lambda>(ret, c1). if ret < 0 then set_error 9 c1 else c1) (ehub_handle_tx_event k P (transfer_event event) c)
     else if ty = TRB_TYPE TRB_DEV_NOTE then Some (handle_device_notification event c)
     else if TRB_TYPE 48 \<le> ty then handle_vendor_event k P event c
     else Some (set_error 3 c))"

end
