(* ===== verification/Xhci_Transfer_Props.thy ===== *)
theory Xhci_Transfer_Props
  imports Xhci_Transfer
begin

text \<open>
  What a queued transfer looks like to the controller: the TRBs of a bulk transfer tile its
  buffer without crossing a 64KB boundary, all but the last are chained and the last one
  interrupts; nothing of it is visible before the first TRB is handed over, and then all of
  it is, behind what was on the ring.
\<close>

section \<open>Pieces of a buffer\<close>

text \<open>The specification: cut at every 64KB boundary.\<close>

function pieces :: "nat \<Rightarrow> nat \<Rightarrow> (nat \<times> nat) list" where
  "pieces a len = (if len \<le> 65536 - a mod 65536 then [(a, len)]
     else (a, 65536 - a mod 65536) # pieces (a + (65536 - a mod 65536)) (len - (65536 - a mod 65536)))"
  by pat_completeness auto
termination
proof (relation "measure snd", goal_cases)
  case (2 a len)
  have "a mod 65536 < 65536" by simp
  then show ?case using 2 by simp
qed simp

declare pieces.simps [simp del]

lemma pieces_not_Nil [simp]: "pieces a len \<noteq> []"
  by (subst pieces.simps) simp

lemma pieces_total: "sum_list (map snd (pieces a len)) = len"
proof (induction a len rule: pieces.induct)
  case (1 a len)
  then show ?case by (subst pieces.simps) simp
qed

lemma pieces_page: "(b, l) \<in> set (pieces a len) \<Longrightarrow> b mod 65536 + l \<le> 65536"
proof (induction a len rule: pieces.induct)
  case (1 a len)
  have "a mod 65536 < 65536" by simp
  then show ?case using 1 by (subst (asm) (2) pieces.simps) (auto split: if_splits)
qed

text \<open>Each piece starts where the one before it ends.\<close>

fun contiguous :: "nat \<Rightarrow> (nat \<times> nat) list \<Rightarrow> bool" where
  "contiguous a [] = True"
| "contiguous a ((b, l) # ps) = (b = a \<and> contiguous (a + l) ps)"

lemma pieces_contiguous: "contiguous a (pieces a len)"
proof (induction a len rule: pieces.induct)
  case (1 a len)
  then show ?case by (subst pieces.simps) simp
qed

lemma boundary_next: "(a + (65536 - a mod 65536)) mod 65536 = (0 :: nat)"
proof -
  have "a mod 65536 < 65536" by simp
  then have "a + (65536 - a mod 65536) = 65536 * Suc (a div 65536)"
    unfolding mult_Suc_right using div_mult_mod_eq [of a 65536] by linarith
  then show ?thesis by simp
qed

lemma pieces_aligned_count: "a mod 65536 = 0 \<Longrightarrow> length (pieces a len) = max 1 ((len + 65535) div 65536)"
proof (induction a len rule: pieces.induct)
  case (1 a len)
  show ?case
  proof (cases "len \<le> 65536")
    case True
    then have "(len + 65535) div 65536 \<le> 1" by linarith
    then show ?thesis using 1(2) True by (subst pieces.simps) simp
  next
    case False
    have "(a + 65536) mod 65536 = 0" using 1(2) by simp
    with 1 False have "length (pieces (a + 65536) (len - 65536)) = max 1 ((len - 65536 + 65535) div 65536)" by simp
    moreover have "(len + 65535) div 65536 = Suc ((len - 65536 + 65535) div 65536)" "1 \<le> (len - 65536 + 65535) div 65536"
      using False by linarith+
    ultimately show ?thesis using 1(2) False by (subst pieces.simps) simp
  qed
qed

section \<open>The count\<close>

lemma unat_to_boundary: "unat (to_boundary a) = 65536 - unat a mod 65536"
proof -
  have "a AND (of_nat TRB_MAX_BUFF_SIZE - 1) = take_bit 16 a"
    by (simp add: TRB_MAX_BUFF_SIZE_def take_bit_eq_mask mask_eq_exp_minus_1)
  moreover have "unat (take_bit 16 a) = unat a mod 65536" by (simp add: take_bit_eq_mod unat_mod)
  moreover have "unat a mod 65536 < 65536" by simp
  ultimately have u: "unat (ucast (a AND (of_nat TRB_MAX_BUFF_SIZE - 1)) :: u32) = unat a mod 65536"
    by (simp add: unsigned_ucast_eq take_bit_eq_mod)
  then have "(ucast (a AND (of_nat TRB_MAX_BUFF_SIZE - 1)) :: u32) \<le> 65536" by (simp add: word_le_nat_alt)
  with u show ?thesis by (simp add: to_boundary_def unat_sub) (simp add: TRB_MAX_BUFF_SIZE_def unat_sub)
qed

lemma unat_masked_boundary: "unat (to_boundary a AND (of_nat TRB_MAX_BUFF_SIZE - 1)) = (65536 - unat a mod 65536) mod 65536"
proof -
  have "to_boundary a AND (of_nat TRB_MAX_BUFF_SIZE - 1) = take_bit 16 (to_boundary a)"
    by (simp add: TRB_MAX_BUFF_SIZE_def take_bit_eq_mask mask_eq_exp_minus_1)
  then show ?thesis by (simp add: take_bit_eq_mod unat_mod unat_to_boundary)
qed

lemma count_chunks_eq:
  assumes "unat len < 2 ^ 31"
  shows "unat w < 2 ^ 31 + 65536 \<Longrightarrow> count_chunks len n w = Some (n + int ((unat len - unat w + 65535) div 65536))"
proof (induction "unat len - unat w" arbitrary: n w rule: less_induct)
  case less
  show ?case
  proof (cases "w < len")
    case False
    then show ?thesis by (subst count_chunks.simps) (simp add: word_less_nat_alt)
  next
    case True
    then have lt: "unat w < unat len" by (simp add: word_less_nat_alt)
    have w': "unat (w + of_nat TRB_MAX_BUFF_SIZE) = unat w + 65536"
      using lt assms by (simp add: TRB_MAX_BUFF_SIZE_def unat_word_ariths)
    then have "count_chunks len (n + 1) (w + of_nat TRB_MAX_BUFF_SIZE)
        = Some (n + 1 + int ((unat len - (unat w + 65536) + 65535) div 65536))"
      using less.hyps [of "w + of_nat TRB_MAX_BUFF_SIZE" "n + 1"] lt assms by simp
    moreover have "(unat len - unat w + 65535) div 65536 = Suc ((unat len - (unat w + 65536) + 65535) div 65536)"
    proof (cases "unat w + 65536 \<le> unat len")
      case True
      then have "unat len - unat w + 65535 = (unat len - (unat w + 65536) + 65535) + 65536" by linarith
      then show ?thesis by (metis Suc_eq_plus1 div_add_self2 zero_neq_numeral)
    next
      case False
      then have "65536 \<le> unat len - unat w + 65535" "unat len - unat w + 65535 < 2 * 65536" using lt by linarith+
      then have "(unat len - unat w + 65535) div 65536 = 1" by (simp add: div_nat_eqI)
      then show ?thesis using False by simp
    qed
    ultimately show ?thesis using True by (subst count_chunks.simps) simp
  qed
qed

lemma count_bulk_trbs_pieces:
  assumes len: "unat len < 2 ^ 31"
  shows "count_bulk_trbs a len = Some (int (length (pieces (unat a) (unat len))))"
proof (cases "unat a mod 65536 = 0")
  case True
  then have w: "to_boundary a AND (of_nat TRB_MAX_BUFF_SIZE - 1) = 0"
    using unat_masked_boundary [of a] by (simp add: unat_eq_0)
  have "0 < unat len \<Longrightarrow> 1 \<le> (unat len + 65535) div 65536" by linarith
  then show ?thesis using True w count_chunks_eq [OF len, of 0] pieces_aligned_count [OF True, of "unat len"]
    by (auto simp: count_bulk_trbs_def unat_eq_0 word_less_nat_alt [of 0 len] unat_gt_0 intro: zero_less_imp_eq_int)
next
  case False
  let ?b = "65536 - unat a mod 65536" and ?w = "to_boundary a AND (of_nat TRB_MAX_BUFF_SIZE - 1)"
  have b: "0 < ?b" "?b < 65536" using False by simp_all
  then have w: "unat ?w = ?b" "?w \<noteq> 0" using unat_masked_boundary [of a] by (auto simp: unat_eq_0)
  have "count_bulk_trbs a len = Some (1 + int ((unat len - ?b + 65535) div 65536))"
    using w count_chunks_eq [OF len, of ?w 1] b by (simp add: count_bulk_trbs_def Let_def)
  moreover have "length (pieces (unat a) (unat len)) = 1 + (unat len - ?b + 65535) div 65536"
  proof (cases "unat len \<le> ?b")
    case True
    then show ?thesis by (subst pieces.simps) simp
  next
    case long: False
    then have ge: "1 \<le> (unat len - ?b + 65535) div 65536" by linarith
    have "pieces (unat a) (unat len) = (unat a, ?b) # pieces (unat a + ?b) (unat len - ?b)"
      using long by (subst pieces.simps) simp
    then show ?thesis
      using ge by (simp only: length_Cons pieces_aligned_count [OF boundary_next] max_absorb2 Suc_eq_plus1_left)
  qed
  ultimately show ?thesis by simp
qed

section \<open>Fields of a TRB\<close>

fun trb_buffer :: "xhci_generic_trb \<Rightarrow> u64" where
  "trb_buffer (TRB a b c d) = ucast a OR push_bit 32 (ucast b)"

fun trb_length :: "xhci_generic_trb \<Rightarrow> u32" where
  "trb_length (TRB a b c d) = c AND 0x1ffff"

definition trb_type :: "xhci_generic_trb \<Rightarrow> u32" where
  "trb_type t = drop_bit 10 (control t AND TRB_TYPE_BITMASK)"

definition chained :: "xhci_generic_trb \<Rightarrow> bool" where "chained t \<longleftrightarrow> control t AND TRB_CHAIN \<noteq> 0"
definition interrupts :: "xhci_generic_trb \<Rightarrow> bool" where "interrupts t \<longleftrightarrow> control t AND TRB_IOC \<noteq> 0"
definition on_short :: "xhci_generic_trb \<Rightarrow> bool" where "on_short t \<longleftrightarrow> control t AND TRB_ISP \<noteq> 0"

lemma buffer_halves: "trb_buffer (TRB (lower_32_bits x) (upper_32_bits x) c d) = x"
  by (rule bit_word_eqI) (auto simp: lower_32_bits_def upper_32_bits_def bit_simps)

lemma length_field: "unat l \<le> 65536 \<Longrightarrow> trb_length (TRB a b (TRB_LEN l OR push_bit 17 y OR TRB_INTR_TARGET 0) d) = l"
proof -
  assume "unat l \<le> 65536"
  then have "unat l < 2 ^ 17" by simp
  then have "take_bit 17 l = l" by (simp add: word_unat_eq_iff unsigned_take_bit_eq take_bit_nat_eq_self)
  moreover have "(0x1ffff :: u32) = mask 17" by (simp add: mask_eq_exp_minus_1)
  moreover have "(take_bit 17 l OR push_bit 17 y) AND mask 17 = take_bit 17 l"
    by (rule bit_word_eqI) (auto simp: bit_simps)
  ultimately show ?thesis by (simp add: TRB_LEN_def TRB_INTR_TARGET_def take_bit_eq_mask)
qed

lemmas field_defs = TRB_CHAIN_def TRB_IOC_def TRB_ISP_def TRB_TYPE_def TRB_NORMAL_def TRB_TYPE_BITMASK_def
  TRB_TYPE_LINK_def TRB_LINK_def TRB_CYCLE_def

definition normal_control :: "u32 \<Rightarrow> bool \<Rightarrow> bool \<Rightarrow> u32" where
  "normal_control c mo din = (c OR (if mo then TRB_CHAIN else TRB_IOC) OR (if din then TRB_ISP else 0)) OR TRB_TYPE TRB_NORMAL"

lemma normal_control_facts:
  assumes "c = 0 \<or> c = 1"
  shows "\<not> TRB_TYPE_LINK (normal_control c mo din)" and "bit (normal_control c mo din) 0 = (c = 1)"
    and "normal_control c mo din AND NOT TRB_CYCLE = normal_control 0 mo din"
    and "normal_control c mo din AND TRB_CHAIN \<noteq> 0 \<longleftrightarrow> mo"
  using assms by (cases mo; cases din; auto simp: normal_control_def field_defs bit_simps)+

lemma normal_trb_facts:
  shows "chained (TRB a b l (normal_control 0 mo din)) = mo"
    and "interrupts (TRB a b l (normal_control 0 mo din)) = (\<not> mo)"
    and "on_short (TRB a b l (normal_control 0 mo din)) = din"
    and "trb_type (TRB a b l (normal_control 0 mo din)) = TRB_NORMAL"
  by (cases mo; cases din; simp add: normal_control_def field_defs chained_def interrupts_def on_short_def trb_type_def)+

text \<open>A TD of normal TRBs over the given pieces.\<close>

definition normal_td :: "bool \<Rightarrow> (nat \<times> nat) list \<Rightarrow> xhci_generic_trb list \<Rightarrow> bool" where
  "normal_td din pcs ts \<longleftrightarrow> map (\<lambda>t. (unat (trb_buffer t), unat (trb_length t))) ts = pcs
     \<and> map chained ts = replicate (length ts - 1) True @ [False]
     \<and> map interrupts ts = replicate (length ts - 1) False @ [True]
     \<and> (\<forall>t \<in> set ts. trb_type t = TRB_NORMAL \<and> on_short t = din)"

lemma normal_td_single:
  "unat (trb_buffer t) = a \<Longrightarrow> unat (trb_length t) = l \<Longrightarrow> \<not> chained t \<Longrightarrow> interrupts t \<Longrightarrow> trb_type t = TRB_NORMAL
     \<Longrightarrow> on_short t = din \<Longrightarrow> normal_td din [(a, l)] [t]"
  by (simp add: normal_td_def)

lemma normal_td_Cons:
  assumes "normal_td din pcs ts" and "unat (trb_buffer t) = a" and "unat (trb_length t) = l"
    and "chained t" and "\<not> interrupts t" and "trb_type t = TRB_NORMAL" and "on_short t = din"
  shows "normal_td din ((a, l) # pcs) (t # ts)"
proof (cases ts)
  case Nil
  then show ?thesis using assms(1) by (simp add: normal_td_def)
next
  case (Cons u us)
  then show ?thesis using assms by (simp add: normal_td_def)
qed

section \<open>Extending a ring\<close>

text \<open>\<open>r'\<close> is \<open>r\<close> with TRBs queued behind its contents, at the positions \<open>ps\<close>; only the TD list may
  differ besides.\<close>

definition extends :: "xhci_ring \<Rightarrow> xhci_ring \<Rightarrow> nat list \<Rightarrow> xhci_generic_trb list \<Rightarrow> bool" where
  "extends r r' ps ts \<longleftrightarrow> ring_slots r' = ring_slots r @ ps \<and> ring_order r' = ring_order r
     \<and> (\<forall>q \<in> set (ring_slots r). trb_of (segs r') (ring_order r) q = trb_of (segs r) (ring_order r) q)
     \<and> map (\<lambda>p. clean (trb_of (segs r') (ring_order r) p)) ps = ts
     \<and> unat (num_trbs_free r) = length ps + unat (num_trbs_free r')
     \<and> enq_frame (r\<lparr>td_list := td_list r'\<rparr>) r'"

lemma extends_contents: "extends r r' ps ts \<Longrightarrow> ring_contents r' = ring_contents r @ ts"
  by (auto simp: extends_def ring_contents_def)

lemma extends_trans:
  assumes "extends r r1 ps ts" and "extends r1 r2 qs us"
  shows "extends r r2 (ps @ qs) (ts @ us)"
proof -
  have "map (\<lambda>p. clean (trb_of (segs r2) (ring_order r) p)) ps = map (\<lambda>p. clean (trb_of (segs r1) (ring_order r) p)) ps"
    using assms by (auto simp: extends_def)
  then show ?thesis using assms by (auto simp: extends_def enq_frame_def same_shape_def)
qed

lemma td_list_frame [simp]:
  "ring_order (r\<lparr>td_list := x\<rparr>) = ring_order r" "enq_pos (r\<lparr>td_list := x\<rparr>) = enq_pos r" "deq_pos (r\<lparr>td_list := x\<rparr>) = deq_pos r"
  "ring_slots (r\<lparr>td_list := x\<rparr>) = ring_slots r" "ring_contents (r\<lparr>td_list := x\<rparr>) = ring_contents r"
  by (simp_all add: ring_order_def enq_pos_def deq_pos_def ring_slots_def ring_contents_def)

lemma td_list_inv [simp]: "ring_inv F (r\<lparr>td_list := x\<rparr>) = ring_inv F r"
  by (simp add: ring_inv_def view_def)

lemma extends_td_list [simp]: "extends r (r\<lparr>td_list := x\<rparr>) [] []"
  by (simp add: extends_def enq_frame_def same_shape_def)

lemma ring_queue_extends:
  assumes inv: "ring_inv F r" and e: "enqueue r \<noteq> 63" and nl: "\<not> TRB_TYPE_LINK f4" and room: "num_trbs_free r \<noteq> 0"
  shows "\<exists>r'. queue_trb quirks coming f1 f2 f3 f4 r = Some r'
     \<and> ring_inv (if bit f4 0 = (cycle_state r = 1) then F else insert (enq_pos r) F) r'
     \<and> extends r r' [enq_pos r] [clean (TRB f1 f2 f3 f4)] \<and> td_list r' = td_list r
     \<and> trb_of (segs r') (ring_order r) (enq_pos r) = TRB f1 f2 f3 f4 \<and> (coming \<or> f4 AND TRB_CHAIN \<noteq> 0 \<longrightarrow> enqueue r' \<noteq> 63)"
proof -
  obtain r' where r': "queue_trb quirks coming f1 f2 f3 f4 r = Some r'"
    "ring_inv (if bit f4 0 = (cycle_state r = 1) then F else insert (enq_pos r) F) r'"
    "ring_slots r' = ring_slots r @ [enq_pos r]" "ring_order r' = ring_order r"
    "trb_of (segs r') (ring_order r) (enq_pos r) = TRB f1 f2 f3 f4"
    "\<And>q. q \<in> set (ring_slots r) \<Longrightarrow> trb_of (segs r') (ring_order r) q = trb_of (segs r) (ring_order r) q"
    "num_trbs_free r' = num_trbs_free r - 1" "coming \<or> f4 AND TRB_CHAIN \<noteq> 0 \<Longrightarrow> enqueue r' \<noteq> 63"
    using ring_queue [OF assms] by metis
  have v: "view F r (ring_order r) (enq_pos r) (deq_pos r)" by (rule ring_invD(1) [OF inv])
  then have "enq_pos r mod 64 \<noteq> 63" using e by (simp add: view_def)
  then obtain r2 where "queue_trb quirks coming f1 f2 f3 f4 r = Some r2" "enq_frame r r2"
    using queue_trb_view [OF v _ nl] by metis
  then have fr: "enq_frame r r'" using r'(1) by simp
  have pos: "0 < unat (num_trbs_free r)" using room by (simp add: unat_gt_0)
  then have "unat (num_trbs_free r') = unat (num_trbs_free r) - 1" unfolding r'(7) by (simp add: unat_sub word_le_nat_alt)
  then have "unat (num_trbs_free r) = Suc (unat (num_trbs_free r'))" using pos by simp
  then have "extends r r' [enq_pos r] [clean (TRB f1 f2 f3 f4)]" "td_list r' = td_list r"
    using r'(3-6) fr by (simp_all add: extends_def enq_frame_def)
  then show ?thesis using r'(1,2,5,8) by blast
qed

section \<open>One TRB of a bulk transfer\<close>

text \<open>A URB whose data stays in kernel memory.\<close>

definition plain_urb :: "xfer_urb \<Rightarrow> bool" where
  "plain_urb urb \<longleftrightarrow> cache_block_cnt (xu_priv urb) = 0 \<and> GET_MAX_PACKET (xu_maxp urb) \<noteq> 0"

lemma td_size_some: "GET_MAX_PACKET maxp \<noteq> 0 \<Longrightarrow> \<exists>y. td_size P td_len rt bl tp maxp left = Some (push_bit 17 y)"
proof -
  have "xhci_td_remainder x = push_bit 17 (if 31 \<le> drop_bit 10 x then 31 else drop_bit 10 x)" for x
    unfolding xhci_td_remainder_def by (simp only: if_distrib [of "push_bit 17"])
  moreover assume "GET_MAX_PACKET maxp \<noteq> 0"
  then have "\<exists>y. xhci_v1_0_td_remainder rt bl tp maxp left = Some (push_bit 17 y)"
  proof (cases "left = 0 \<or> (rt = 0 \<and> bl = 0)")
    case True
    then show ?thesis by (intro exI [of _ 0]) (simp add: xhci_v1_0_td_remainder_def)
  next
    case False
    with \<open>GET_MAX_PACKET maxp \<noteq> 0\<close> show ?thesis
      unfolding xhci_v1_0_td_remainder_def Let_def if_distrib [of "push_bit 17", symmetric] by (simp only: if_False) blast
  qed
  ultimately show ?thesis unfolding td_size_def by metis
qed

definition mark_last :: "seg_id \<times> nat \<Rightarrow> xhci_td list \<Rightarrow> xhci_td list" where
  "mark_last pos tds = butlast tds @ map (\<lambda>td. td\<lparr>td_last_trb := snd pos, end_seg := fst pos\<rparr>) (drop (length tds - 1) tds)"

definition position :: "xhci_ring \<Rightarrow> nat \<Rightarrow> seg_id \<times> nat" where
  "position r p = (seg_at (ring_order r) p, p mod 64)"

lemma set_last_td_mark: "ring_inv F r \<Longrightarrow> set_last_td r = r\<lparr>td_list := mark_last (position r (enq_pos r)) (td_list r)\<rparr>"
  using ring_invD(1) [of F r] by (auto simp: set_last_td_def mark_last_def position_def view_def)

lemma queue_data_trb_ok:
  assumes inv: "ring_inv F r" and e: "enqueue r \<noteq> 63" and room: "num_trbs_free r \<noteq> 0" and u: "plain_urb urb"
    and l: "unat l \<le> 65536" and sc: "first \<longrightarrow> sc = cycle_state r"
  shows "\<exists>r' t. queue_data_trb P urb sc tp first mo left addr rt l s r = Some r'
     \<and> ring_inv (if first then insert (enq_pos r) F else F) r' \<and> extends r r' [enq_pos r] [t]
     \<and> trb_buffer t = addr \<and> trb_length t = l \<and> chained t = mo \<and> interrupts t = (\<not> mo) \<and> trb_type t = TRB_NORMAL
     \<and> on_short t = xu_dir_in urb
     \<and> td_list r' = (if mo then td_list r else mark_last (position r (enq_pos r)) (td_list r))
     \<and> (mo \<longrightarrow> enqueue r' \<noteq> 63)
     \<and> (first \<longrightarrow> cyc (trb_of (segs r') (ring_order r) (enq_pos r)) = (sc = 0))"
proof -
  let ?c = "if first then (if sc = 0 then 1 else 0) else cycle_state r"
  define r1 where "r1 = (if mo then r else set_last_td r)"
  have cs: "cycle_state r = 0 \<or> cycle_state r = 1" using ring_invD(1) [OF inv] by (simp add: view_def)
  then have c: "?c = 0 \<or> ?c = 1" by simp
  obtain y where y: "td_size P (xu_transfer_buffer_length urb) rt l tp (xu_maxp urb) left = Some (push_bit 17 y)"
    using td_size_some u unfolding plain_urb_def by blast
  let ?f3 = "TRB_LEN l OR push_bit 17 y OR TRB_INTR_TARGET 0" and ?f4 = "normal_control ?c mo (xu_dir_in urb)"
  have r1: "ring_inv F r1" "enqueue r1 \<noteq> 63" "num_trbs_free r1 \<noteq> 0" "enq_pos r1 = enq_pos r" "cycle_state r1 = cycle_state r"
    "extends r r1 [] []" "td_list r1 = (if mo then td_list r else mark_last (position r (enq_pos r)) (td_list r))"
    using inv e room set_last_td_mark [OF inv] by (auto simp: r1_def extends_def enq_frame_def same_shape_def)
  obtain r' where r': "queue_trb (hp_quirks P) mo (lower_32_bits addr) (upper_32_bits addr) ?f3 ?f4 r1 = Some r'"
    "ring_inv (if bit ?f4 0 = (cycle_state r1 = 1) then F else insert (enq_pos r1) F) r'"
    "extends r1 r' [enq_pos r1] [clean (TRB (lower_32_bits addr) (upper_32_bits addr) ?f3 ?f4)]"
    "td_list r' = td_list r1" "mo \<longrightarrow> enqueue r' \<noteq> 63"
    "trb_of (segs r') (ring_order r1) (enq_pos r1) = TRB (lower_32_bits addr) (upper_32_bits addr) ?f3 ?f4"
    using ring_queue_extends [OF r1(1,2) normal_control_facts(1) [OF c] r1(3)] by blast
  have run: "queue_data_trb P urb sc tp first mo left addr rt l s r = Some r'"
    using r'(1) u y
    by (simp add: queue_data_trb_def ehub_xhci_get_data_buffer_addr_def plain_urb_def Let_def normal_control_def r1_def [symmetric])
  have F: "(bit ?f4 0 = (cycle_state r1 = 1)) = (\<not> first)"
    using normal_control_facts(2) [OF c] cs sc r1(5) by auto
  have cl: "clean (TRB (lower_32_bits addr) (upper_32_bits addr) ?f3 ?f4)
      = TRB (lower_32_bits addr) (upper_32_bits addr) ?f3 (normal_control 0 mo (xu_dir_in urb))" (is "_ = ?t")
    using normal_control_facts(3) [OF c] by (simp add: clean_def)
  have "extends r r' [enq_pos r] [?t]" using extends_trans [OF r1(6) r'(3)] r1(4) cl by simp
  moreover have "first \<longrightarrow> cyc (trb_of (segs r') (ring_order r) (enq_pos r)) = (sc = 0)"
    using r'(6) r1(4,6) normal_control_facts(2) [OF c] by (auto simp: extends_def)
  ultimately show ?thesis
    using run r'(2,4,5) F r1(4,7) buffer_halves length_field [OF l] normal_trb_facts
    by (intro exI [of _ r'] exI [of _ ?t]) auto
qed

section \<open>The loop\<close>

lemma sint_small:
  fixes w :: u32
  assumes "unat w < 2 ^ 31"
  shows "sint w = int (unat w)"
proof -
  have "int (unat w) < int (2 ^ 31)" using assms by (simp only: of_nat_less_iff)
  then have "uint w < 2 ^ 31" by simp
  moreover have "- (2 ^ 31) \<le> uint w" by (rule order_trans [of _ 0]) simp_all
  ultimately have "sint w = uint w" unfolding sint_uint by (simp add: signed_take_bit_int_eq_self)
  then show ?thesis by simp
qed

lemma bulk_step_sizes:
  fixes rt len l :: u32
  assumes "unat len < 2 ^ 31" and "unat rt + R = unat len" and "unat l = min b R"
  shows "unat (rt + l) = unat rt + unat l" and "rt + l < len \<longleftrightarrow> b < R"
    and "b < R \<Longrightarrow> unat (if int TRB_MAX_BUFF_SIZE < sint (len - (rt + l)) then of_nat TRB_MAX_BUFF_SIZE
           else len - (rt + l)) = min 65536 (R - b)"
proof -
  show s: "unat (rt + l) = unat rt + unat l" using assms by (simp add: unat_word_ariths)
  show "rt + l < len \<longleftrightarrow> b < R" using s assms(2,3) by (auto simp: word_less_nat_alt)
  assume lt: "b < R"
  then have d: "unat (len - (rt + l)) = R - b" using s assms(2,3) by (simp add: unat_sub word_le_nat_alt)
  then have "sint (len - (rt + l)) = int (R - b)" using sint_small [of "len - (rt + l)"] assms(1,2) by simp
  with d show "unat (if int TRB_MAX_BUFF_SIZE < sint (len - (rt + l)) then of_nat TRB_MAX_BUFF_SIZE
           else len - (rt + l)) = min 65536 (R - b)"
    by (auto simp: TRB_MAX_BUFF_SIZE_def)
qed

lemma advance_addr:
  fixes addr :: u64 and l :: u32
  assumes "unat addr + unat l < 2 ^ 64" and "unat l \<le> 65536"
  shows "unat (addr + scast l) = unat addr + unat l"
proof -
  have "scast l = (of_int (sint l) :: u64)" by simp
  also have "\<dots> = of_nat (unat l)" using sint_small [of l] assms(2) by simp
  finally have "unat (scast l :: u64) = unat l" using assms(2) by (simp add: unsigned_ucast_eq take_bit_eq_mod)
  then show ?thesis using assms by (simp add: unat_word_ariths)
qed

lemma bulk_tx_loop_ok:
  assumes u: "plain_urb urb" and len: "unat (xu_transfer_buffer_length urb) < 2 ^ 31"
  shows "unat addr = a \<Longrightarrow> a + R < 2 ^ 64 \<Longrightarrow> unat rt + R = unat (xu_transfer_buffer_length urb)
    \<Longrightarrow> unat l = min (65536 - a mod 65536) R \<Longrightarrow> num = int (length (pieces a R))
    \<Longrightarrow> ring_inv F r \<Longrightarrow> enqueue r \<noteq> 63 \<Longrightarrow> length (pieces a R) \<le> unat (num_trbs_free r) \<Longrightarrow> (first \<longrightarrow> sc = cycle_state r)
    \<Longrightarrow> \<exists>r' ps ts. bulk_tx_loop P urb sc tp s first num addr rt l r = Some r'
      \<and> ring_inv (if first then insert (enq_pos r) F else F) r' \<and> extends r r' (enq_pos r # ps) ts
      \<and> normal_td (xu_dir_in urb) (pieces a R) ts
      \<and> td_list r' = mark_last (position r (last (enq_pos r # ps))) (td_list r)
      \<and> (first \<longrightarrow> cyc (trb_of (segs r') (ring_order r) (enq_pos r)) = (sc = 0))"
proof (induction a R arbitrary: addr rt l num F r first rule: pieces.induct)
  case (1 a R)
  let ?b = "65536 - a mod 65536" and ?F = "if first then insert (enq_pos r) F else F"
  note sz = bulk_step_sizes [OF len 1(4,5)]
  have l: "unat l \<le> 65536" using 1(5) by simp
  have room: "num_trbs_free r \<noteq> 0" using 1(9) pieces_not_Nil [of a R] by (metis le_zero_eq length_0_conv unsigned_0)
  obtain r1 t where q: "queue_data_trb P urb sc tp first (1 < num) (of_int (num - 1)) addr rt l s r = Some r1"
    "ring_inv ?F r1" "extends r r1 [enq_pos r] [t]" "trb_buffer t = addr" "trb_length t = l" "chained t = (1 < num)"
    "interrupts t = (\<not> 1 < num)" "trb_type t = TRB_NORMAL" "on_short t = xu_dir_in urb"
    "td_list r1 = (if 1 < num then td_list r else mark_last (position r (enq_pos r)) (td_list r))"
    "1 < num \<longrightarrow> enqueue r1 \<noteq> 63" "first \<longrightarrow> cyc (trb_of (segs r1) (ring_order r) (enq_pos r)) = (sc = 0)"
    using queue_data_trb_ok [OF 1(7,8) room u l 1(10), of P tp "1 < num" "of_int (num - 1)" addr rt s] by blast
  show ?case
  proof (cases "R \<le> ?b")
    case True
    then have p: "pieces a R = [(a, R)]" by (subst pieces.simps) simp
    then have n: "\<not> 1 < num" using 1(6) by simp
    have "bulk_tx_loop P urb sc tp s first num addr rt l r = Some r1"
      using q(1) sz(2) True by (subst bulk_tx_loop.simps) (simp add: Let_def)
    moreover have "normal_td (xu_dir_in urb) (pieces a R) [t]"
      unfolding p using q(4-9) n 1(2,5) True by (intro normal_td_single) simp_all
    ultimately show ?thesis using q(2,3,10,12) n by (intro exI [of _ r1] exI [of _ "[]"] exI [of _ "[t]"]) simp
  next
    case False
    let ?l = "if int TRB_MAX_BUFF_SIZE < sint (xu_transfer_buffer_length urb - (rt + l)) then of_nat TRB_MAX_BUFF_SIZE
           else xu_transfer_buffer_length urb - (rt + l)"
    have p: "pieces a R = (a, ?b) # pieces (a + ?b) (R - ?b)" using False by (subst pieces.simps) simp
    have n: "1 < num" "num - 1 = int (length (pieces (a + ?b) (R - ?b)))" using p 1(6) pieces_not_Nil [of "a + ?b" "R - ?b"] by simp_all
    have lb: "unat l = ?b" using 1(5) False by simp
    have adv: "unat (addr + scast l) = a + ?b" using advance_addr [of addr l] 1(2,3) lb l False by simp
    have free: "length (pieces (a + ?b) (R - ?b)) \<le> unat (num_trbs_free r1)" using 1(9) p q(3) by (simp add: extends_def)
    have rt: "unat (rt + l) + (R - ?b) = unat (xu_transfer_buffer_length urb)" using sz(1) 1(4) lb False by simp
    have l': "unat ?l = min (65536 - (a + ?b) mod 65536) (R - ?b)" using sz(3) False unfolding boundary_next by simp
    have bd: "a + ?b + (R - ?b) < 2 ^ 64" using 1(3) False by simp
    obtain r' ps ts where r': "bulk_tx_loop P urb sc tp s False (num - 1) (addr + scast l) (rt + l) ?l r1 = Some r'"
      "ring_inv ?F r'" "extends r1 r' (enq_pos r1 # ps) ts" "normal_td (xu_dir_in urb) (pieces (a + ?b) (R - ?b)) ts"
      "td_list r' = mark_last (position r1 (last (enq_pos r1 # ps))) (td_list r1)"
      using 1(1) [OF False adv bd rt l' n(2) q(2) _ free, of False] q(11) n(1) by auto
    have "bulk_tx_loop P urb sc tp s first num addr rt l r = Some r'"
      using q(1) sz(2) False r'(1) by (subst bulk_tx_loop.simps) (simp add: Let_def)
    moreover have "extends r r' (enq_pos r # enq_pos r1 # ps) (t # ts)" using extends_trans [OF q(3) r'(3)] by simp
    moreover have "normal_td (xu_dir_in urb) (pieces a R) (t # ts)"
      unfolding p using q(4-9) n 1(2) lb by (intro normal_td_Cons [OF r'(4)]) simp_all
    moreover have "td_list r' = mark_last (position r (last (enq_pos r # enq_pos r1 # ps))) (td_list r)"
      using r'(5) q(3,10) n(1) by (simp add: position_def extends_def)
    moreover have "trb_of (segs r') (ring_order r) (enq_pos r) = trb_of (segs r1) (ring_order r) (enq_pos r)"
      using r'(3) q(3) by (simp add: extends_def)
    ultimately show ?thesis using r'(2) q(12) by metis
  qed
qed

section \<open>Handing over\<close>

definition give_cycle :: "u32 \<Rightarrow> xhci_generic_trb \<Rightarrow> xhci_generic_trb" where
  "give_cycle sc t = set_control (if sc \<noteq> 0 then control t OR sc else control t AND NOT TRB_CYCLE) t"

lemma give_cycle_facts:
  assumes "sc = 0 \<or> sc = 1"
  shows "bit (control (give_cycle sc t)) 0 = (sc = 1)" and "clean (give_cycle sc t) = clean t"
    and "TRB_TYPE_LINK (control (give_cycle sc t)) = TRB_TYPE_LINK (control t)"
proof -
  show "bit (control (give_cycle sc t)) 0 = (sc = 1)" using assms by (auto simp: give_cycle_def bit_simps TRB_CYCLE_def)
  have "(control t OR 1) AND NOT 1 = control t AND NOT 1" by (rule bit_word_eqI) (auto simp: bit_simps)
  then show "clean (give_cycle sc t) = clean t"
    using assms by (cases t) (auto simp: give_cycle_def clean_def TRB_CYCLE_def and.assoc)
  have "(control t OR 1) AND 0xfc00 = control t AND 0xfc00" "(control t AND NOT 1) AND 0xfc00 = control t AND 0xfc00"
    by (simp_all add: bit.conj_disj_distrib2 and.assoc)
  then show "TRB_TYPE_LINK (control (give_cycle sc t)) = TRB_TYPE_LINK (control t)"
    using assms by (auto simp: give_cycle_def TRB_TYPE_LINK_def TRB_TYPE_BITMASK_def TRB_CYCLE_def)
qed

lemma publish_ring:
  assumes inv: "ring_inv {p} r" and sc: "sc = 0 \<or> sc = 1"
    and c: "cyc (trb_of (segs r) (ring_order r) p) = (sc = 0)"
  shows "\<exists>h. map_trb (give_cycle sc) (fst (position r p)) (snd (position r p)) (segs r) = Some h
     \<and> ring_inv {} (r\<lparr>segs := h\<rparr>) \<and> ring_contents (r\<lparr>segs := h\<rparr>) = ring_contents r
     \<and> ring_order (r\<lparr>segs := h\<rparr>) = ring_order r \<and> same_shape (segs r) h"
proof -
  let ?ss = "ring_order r" and ?e = "enq_pos r" and ?d = "deq_pos r" and ?f = "give_cycle sc"
  have v: "view {p} r ?ss ?e ?d" and sub: "p \<in> set (slots (length ?ss) ?e ?d)" using ring_invD [OF inv] by auto
  have ne: "?ss \<noteq> []" using v by (auto simp: view_def chain_ok_def)
  have p: "p < 64 * length ?ss" "p mod 64 \<noteq> 63" using ring_slots_bound [OF _ ne, of p] sub by (auto simp: ring_slots_def)
  have pe: "p \<noteq> ?e" using sub enq_notin_slots [OF v] by auto
  have V: "chain_ok (segs r) ?ss" "links_ok (segs r) ?ss" "owned (segs r) ?ss (cycle_state r) {p} ?e" using v by (auto simp: view_def)
  obtain h where h: "map_trb ?f (seg_at ?ss p) (p mod 64) (segs r) = Some h" "same_shape (segs r) h"
    using map_trb_pos [OF V(1) p(1), of ?f] by metis
  have own: "bit (control (?f (trb_of (segs r) ?ss p))) 0 = ((p < ?e) = (cycle_state r = 1))"
    using V(3) p(1) c give_cycle_facts(1) [OF sc] sc by (auto simp: owned_def)
  have nl: "\<not> TRB_TYPE_LINK (control (?f (trb_of (segs r) ?ss p)))"
    using V(2) p give_cycle_facts(3) [OF sc] by (simp add: links_ok_def)
  note pub = publish_view [OF v p pe own nl h(1) refl]
  have ord: "ring_order (r\<lparr>segs := h\<rparr>) = ?ss"
    unfolding ring_order_def using collect_segs_cong [OF same_shape_next [OF h(2)]] by simp
  have "view {} (r\<lparr>segs := h\<rparr>) ?ss ?e ?d" using pub(1) by simp
  note I = ring_invI [OF this ord _ _ inv]
  have J: "ring_inv {} (r\<lparr>segs := h\<rparr>)" "ring_slots (r\<lparr>segs := h\<rparr>) = ring_slots r"
    using I(1,2) ring_invD(3) [OF inv] by (simp_all add: ring_slots_def)
  moreover have "ring_contents (r\<lparr>segs := h\<rparr>) = ring_contents r"
    using J(2) ord pub(2) ring_slots_bound [OF _ ne] give_cycle_facts(2) [OF sc] by (auto simp: ring_contents_def)
  ultimately show ?thesis using h ord by (auto simp: position_def)
qed

section \<open>Rings kept in the cache memory\<close>

text \<open>A device that takes cache writes, with a pool of cache work contexts.\<close>

definition taking :: "env \<Rightarrow> ehub \<Rightarrow> bool" where
  "taking k s \<longleftrightarrow> accepting k \<and> work_pool s \<and> \<not> cache_list_lock s \<and> device_ok s"

definition log_extends :: "ehub \<Rightarrow> ehub \<Rightarrow> u8 list list \<Rightarrow> bool" where
  "log_extends s t bss \<longleftrightarrow> usb_log t = usb_log s @ map (Pair (UsbPipeCacheOut s)) bss \<and> same_blocks s t"

lemma log_extends_trans: "log_extends s t bss \<Longrightarrow> log_extends t u css \<Longrightarrow> log_extends s u (bss @ css)"
  by (auto simp: log_extends_def same_blocks_def)

lemma log_extends_refl [simp]: "log_extends s s []"
  by (simp add: log_extends_def)

lemma cached_shape:
  assumes "same_shape h h'" and "cached h s ss"
  shows "cached h' s ss"
  unfolding cached_def
proof
  fix g assume "g \<in> set ss"
  then obtain sg b blk where g: "h g = Some sg" "EhubCacheBlock sg = Some b" "cache_blocks s b = Some blk"
    "0 < unat (Address blk)" "unat (Address blk) mod 8 = 0" "unat (Address blk) + 1024 \<le> 2 ^ 32"
    using assms(2) unfolding cached_def by meson
  have "map_option (\<lambda>sg. (next_seg sg, dma sg, EhubCacheBlock sg)) (h' g) = Some (next_seg sg, dma sg, EhubCacheBlock sg)"
    using assms(1) g(1) by (simp add: same_shape_def)
  then obtain sg' where "h' g = Some sg'" "EhubCacheBlock sg' = EhubCacheBlock sg" by auto
  then show "\<exists>sg b blk. h' g = Some sg \<and> EhubCacheBlock sg = Some b \<and> cache_blocks s b = Some blk
     \<and> 0 < unat (Address blk) \<and> unat (Address blk) mod 8 = 0 \<and> unat (Address blk) + 1024 \<le> 2 ^ 32"
    using g by auto
qed

lemma cache_link_taken:
  assumes k: "taking k s" and c: "chain_ok h ss" and ca: "cached h s ss" and i: "i < length ss"
  shows "\<exists>st t bs. cache_link_trb k (ss ! i) h s = Some (st, t) \<and> 0 \<le> st \<and> taking k t \<and> log_extends s t [bs]"
proof -
  have K: "accepting k" "work_pool s" "\<not> cache_list_lock s" "device_ok s" using k by (simp_all add: taking_def)
  obtain sg b blk where b: "h (ss ! i) = Some sg" "EhubCacheBlock sg = Some b" "cache_blocks s b = Some blk"
    "unat (Address blk) mod 8 = 0" "unat (Address blk) + 1024 \<le> 2 ^ 32"
    using ca i unfolding cached_def by (meson nth_mem)
  have l: "length (trbs sg) = 64" using c i b(1) by (auto simp: chain_ok_def)
  then have t: "read_trb h (ss ! i) (TRBS_PER_SEGMENT - 1) = Some (trbs sg ! 63)"
    using b(1) by (simp add: read_trb_def TRBS_PER_SEGMENT_def)
  have ad: "Address blk + of_nat TRB_SEGMENT_SIZE - 16 = Address blk + of_nat (16 * 63)"
    by (simp add: TRB_SEGMENT_SIZE_def TRBS_PER_SEGMENT_def)
  have al: "(Address blk + of_nat TRB_SEGMENT_SIZE - 16) AND 7 = 0"
    unfolding ad by (rule aligned_addr(2) [OF b(4,5)]) simp
  have len: "unat (16 :: u32) \<le> length (trb_bytes (trbs sg ! 63))" "unat (16 :: u32) \<le> MESSAGE_DATA_BUFFER_SIZE_CACHE" by simp_all
  obtain st u bs where w: "ehub_queue_cache_write k (Address blk + of_nat TRB_SEGMENT_SIZE - 16)
      (Some (trb_bytes (trbs sg ! 63))) 16 (- 1) False 0 0 0 s = Some (st, u)" "0 \<le> st" "work_pool u" "same_blocks s u"
    "\<not> cache_list_lock u" "device_ok u" "usb_log u = usb_log s @ [(UsbPipeCacheOut s, bs)]"
    using queue_write_accepted [OF K al len, of "- 1" False 0 0 0] by metis
  then show ?thesis
    using b(1-3) t K(1) by (intro exI [of _ st] exI [of _ u] exI [of _ bs])
      (simp add: cache_link_trb_def taking_def log_extends_def)
qed

lemma skip_link_cached:
  assumes inv: "ring_inv F r" and e: "enqueue r = 63" and ty: "ehub_cache_ring (ring_type r)"
    and k: "taking k s" and ca: "cached (segs r) s (ring_order r)"
  shows "\<exists>r' t bss. skip_links k quirks r s = Some ((0, r'), t) \<and> ring_inv F r' \<and> extends r r' [] [] \<and> enqueue r' \<noteq> 63
     \<and> td_list r' = td_list r \<and> taking k t \<and> log_extends s t bss \<and> length bss = 1"
proof -
  let ?ss = "ring_order r" and ?n = "length (ring_order r)" and ?e = "enq_pos r" and ?d = "deq_pos r"
  let ?e' = "Suc (enq_pos r) mod (64 * length (ring_order r))"
  let ?give = "if keeps_link_chain quirks (ring_type r) then give_link 0 TRB_CHAIN TRB_CYCLE r
     else give_link TRB_CHAIN 0 TRB_CYCLE r"
  note D = ring_invD [OF inv]
  have V: "?e < 64 * ?n" "?e mod 64 = 63" "?d < 64 * ?n" "enq_seg r = seg_at ?ss ?e" using D(1) e by (auto simp: view_def)
  then have ne: "ring_order r \<noteq> []" by auto
  have "(0 :: u32) = 0 AND TRB_CHAIN" "TRB_CHAIN = TRB_CHAIN AND TRB_CHAIN" by simp_all
  then obtain r1 r2 where g: "?give = Some r1" "enq_to_next_seg r1 = Some r2" "view F r2 ?ss ?e' ?d"
    "num_trbs_free r2 = num_trbs_free r" "enq_frame r r2" "enq_seg r1 = enq_seg r"
    "\<And>q. q < 64 * ?n \<Longrightarrow> q mod 64 \<noteq> 63 \<Longrightarrow> trb_of (segs r2) ?ss q = trb_of (segs r) ?ss q"
    using give_link_view [OF D(1) V(2), of 0 TRB_CHAIN TRB_CHAIN] give_link_view [OF D(1) V(2), of TRB_CHAIN 0 0]
    by (cases "keeps_link_chain quirks (ring_type r)") (simp_all, metis+)
  have sg: "segs r2 = segs r1" using g(2) by (auto simp: enq_to_next_seg_def elim!: bind_eq_SomeE)
  have ca1: "cached (segs r1) s ?ss" using cached_shape [OF _ ca, of "segs r2"] g(5) sg by (simp add: enq_frame_def)
  have c1: "chain_ok (segs r1) ?ss" using g(3) sg by (simp add: view_def)
  obtain st t bs where w: "cache_link_trb k (enq_seg r1) (segs r1) s = Some (st, t)" "0 \<le> st" "taking k t" "log_extends s t [bs]"
    using cache_link_taken [OF k c1 ca1 pos_index [OF V(1)]] g(6) V(4) by (auto simp: seg_at_def)
  have e': "?e' mod 64 = 0" by (rule next_pos_link(2) [OF V(2,1)])
  then have "last_trb r2 (enq_seg r2) (enqueue r2) = Some False" using view_last(1) [OF g(3)] by simp
  then have "skip_links k quirks r2 t = Some ((0, r2), t)" by (subst skip_links.simps) simp
  then have run: "skip_links k quirks r s = Some ((0, r2), t)"
    using view_last(1) [OF D(1)] V(2) g(1,2) ty w(1,2) by (subst skip_links.simps) simp
  have sl: "slots ?n ?e' ?d = slots ?n ?e ?d" by (rule slots_link [OF V(1-3)])
  have ord: "ring_order r2 = ?ss" by (rule ring_order_frame [OF g(5)])
  have fr: "num_segs r2 = num_segs r" "td_list r2 = td_list r" using g(5) by (simp_all add: enq_frame_def)
  have I: "ring_inv F r2" "ring_slots r2 = slots ?n ?e ?d" using ring_invI(1,2) [OF g(3) ord fr(1) _ inv] D(2,3) g(4) sl by simp_all
  have "extends r r2 [] []"
    using I(2) ord g(4,5,7) fr(2) ring_slots_bound [OF _ ne] by (simp add: extends_def ring_slots_def enq_frame_def)
  moreover have "enqueue r2 \<noteq> 63" using g(3) e' by (simp add: view_def)
  ultimately show ?thesis using run I(1) fr(2) w(3,4) by (intro exI [of _ r2] exI [of _ t] exI [of _ "[bs]"]) simp
qed

section \<open>Preparation and hand-over\<close>

text \<open>A cached ring with more than one segment, as endpoints have them.\<close>

definition cached_ring :: "ehub \<Rightarrow> xhci_ring \<Rightarrow> bool" where
  "cached_ring s r \<longleftrightarrow> ehub_cache_ring (ring_type r) \<and> 1 < length (ring_order r) \<and> cached (segs r) s (ring_order r)"

lemma cached_ring_extends:
  assumes "cached_ring s r" and "extends r r' ps ts" and "log_extends s t bss"
  shows "cached_ring t r'"
proof -
  have "cached (segs r') s (ring_order r)"
    using cached_shape assms(1,2) by (auto simp: cached_ring_def extends_def enq_frame_def)
  moreover have "same_blocks s t" using assms(3) by (simp add: log_extends_def)
  ultimately show ?thesis using assms(1,2) sends_same_blocks [of s t "segs r'" "ring_order r"]
    by (auto simp: cached_ring_def extends_def enq_frame_def)
qed

lemma prepare_transfer_ok:
  assumes inv: "ring_inv {} r" and ca: "cached_ring s r" and k: "taking k s" and ep: "ep_ring ep = Some r"
    and st: "check_ep_state (ep_info AND EP_STATE_MASK) = 0" and room: "num_trbs_needed r n < 1" and ln: "link_status P = 0"
  shows "\<exists>r1 t bss. prepare_transfer k P ep_info 0 n urb i ep s
       = Some ((0, ep\<lparr>ep_ring := Some (r1\<lparr>td_list := td_list r @ [new_td urb r1]\<rparr>)\<rparr>), t)
     \<and> ring_inv {} r1 \<and> extends r r1 [] [] \<and> enqueue r1 \<noteq> 63 \<and> taking k t \<and> log_extends s t bss \<and> length bss \<le> 1"
proof -
  have make: "make_room k (hp_quirks P) (map_status P) False n r s = Some ((0, r), s)"
    using room by (subst make_room.simps) simp
  have v: "view {} r (ring_order r) (enq_pos r) (deq_pos r)" by (rule ring_invD(1) [OF inv])
  have link: "enqueue_is_link_trb r = Some (enqueue r = 63)"
    using view_last(1) [OF v] v by (simp add: last_trb_def enqueue_is_link_trb_def view_def)
  obtain r1 t bss where r1: "prepare_ring k (hp_quirks P) (map_status P) False (ep_info AND EP_STATE_MASK) n r s = Some ((0, r1), t)"
    "ring_inv {} r1" "extends r r1 [] []" "enqueue r1 \<noteq> 63" "td_list r1 = td_list r" "taking k t" "log_extends s t bss" "length bss \<le> 1"
  proof (cases "enqueue r = 63")
    case True
    then obtain r1 t bss where "skip_links k (hp_quirks P) r s = Some ((0, r1), t)" "ring_inv {} r1" "extends r r1 [] []"
      "enqueue r1 \<noteq> 63" "td_list r1 = td_list r" "taking k t" "log_extends s t bss" "length bss = 1"
      using skip_link_cached [OF inv True _ k] ca unfolding cached_ring_def by blast
    then show thesis using that st make link True by (simp add: prepare_ring_def)
  next
    case False
    moreover have "extends r r [] []" by (simp add: extends_def enq_frame_def same_shape_def)
    ultimately show thesis using that [of r s "[]"] st make link inv k by (simp add: prepare_ring_def)
  qed
  then show ?thesis
    using ep ln by (auto simp: prepare_transfer_def ehub_xhci_stream_id_to_ring_def ring_of_ref_def get_ring_def put_ring_def
        list_add_tail_def)
qed

lemma giveback_ok:
  assumes inv: "ring_inv {p} r" and sc: "sc = 0 \<or> sc = 1" and c: "cyc (trb_of (segs r) (ring_order r) p) = (sc = 0)"
    and ca: "cached_ring s r" and k: "taking k s"
    and pos: "x < 64 * length (ring_order r)" "cache_enq_seg r = seg_at (ring_order r) x" "cache_enqueue r = x mod 64"
  shows "\<exists>r' t runs bss. giveback_first_trb k slot ep stream sc (position r p) r s = Some (r', t)
     \<and> ring_inv {} r' \<and> ring_contents r' = ring_contents r \<and> ring_order r' = ring_order r \<and> ring_slots r' = ring_slots r
     \<and> enq_pos r' = enq_pos r
     \<and> td_list r' = td_list r \<and> cache_enq_seg r' = enq_seg r' \<and> cache_enqueue r' = enqueue r'
     \<and> taking k t \<and> log_extends s t bss \<and> list_all2 (sends (segs r') s (ring_order r)) runs bss
     \<and> run_positions runs = walk (64 * length (ring_order r)) x
         (if x = enq_pos r then 64 * length (ring_order r) else dist (64 * length (ring_order r)) x (enq_pos r))"
proof -
  let ?ss = "ring_order r" and ?e = "enq_pos r"
  obtain h where h: "map_trb (give_cycle sc) (fst (position r p)) (snd (position r p)) (segs r) = Some h"
    "ring_inv {} (r\<lparr>segs := h\<rparr>)" "ring_contents (r\<lparr>segs := h\<rparr>) = ring_contents r" "ring_order (r\<lparr>segs := h\<rparr>) = ?ss"
    "same_shape (segs r) h"
    using publish_ring [OF inv sc c] by blast
  let ?r = "r\<lparr>segs := h\<rparr>"
  have e: "enq_pos ?r = ?e" "deq_pos ?r = deq_pos r" using h(4) by (simp_all add: enq_pos_def deq_pos_def)
  have v: "view {} ?r ?ss ?e (deq_pos r)" using ring_invD(1) [OF h(2)] h(4) e by simp
  then have V: "chain_ok h ?ss" "?e < 64 * length ?ss" "enq_seg r = seg_at ?ss ?e" "enqueue r = ?e mod 64"
    by (auto simp: view_def)
  have C: "cached h s ?ss" "1 < length ?ss" "ehub_cache_ring (ring_type r)"
    using ca cached_shape [OF h(5)] by (auto simp: cached_ring_def)
  have K: "accepting k" "work_pool s" "\<not> cache_list_lock s" "device_ok s" using k by (simp_all add: taking_def)
  have R: "chain_ok (segs ?r) ?ss" "cached (segs ?r) s ?ss" "enq_seg ?r = seg_at ?ss ?e" "enqueue ?r = ?e mod 64"
    "cache_enq_seg ?r = seg_at ?ss x" "cache_enqueue ?r = x mod 64" using V C(1) pos by simp_all
  obtain t runs bss where t: "ehub_xhci_cache_copy_from_ring k slot ep stream True ?r s
      = Some (?r\<lparr>cache_enqueue := enqueue ?r, cache_enq_seg := enq_seg ?r\<rparr>, t)"
    "usb_log t = usb_log s @ map (Pair (UsbPipeCacheOut s)) bss" "list_all2 (sends h s ?ss) runs bss"
    "run_positions runs = walk (64 * length ?ss) x (if x = ?e then 64 * length ?ss else dist (64 * length ?ss) x ?e)"
    "work_pool t" "same_blocks s t" "\<not> cache_list_lock t" "device_ok t"
    using copy_from_ring_ok [OF K R(1,2) V(2) R(3,4) pos(1) R(5,6), of slot ep stream True] C(2) by auto
  let ?r' = "?r\<lparr>cache_enqueue := enqueue ?r, cache_enq_seg := enq_seg ?r\<rparr>"
  have "giveback_first_trb k slot ep stream sc (position r p) r s = Some (?r', t)"
    using h(1) t(1) C(3) by (simp add: giveback_first_trb_def give_cycle_def [abs_def] Let_def)
  moreover have F: "ring_order ?r' = ring_order ?r" "enq_pos ?r' = enq_pos ?r" "deq_pos ?r' = deq_pos ?r" "ring_slots ?r' = ring_slots ?r"
    by (simp_all add: ring_order_def enq_pos_def deq_pos_def ring_slots_def)
  moreover have "ring_inv {} ?r'" using h(2) F by (simp add: ring_inv_def view_def)
  moreover have "ring_contents ?r' = ring_contents r" using h(3) F by (simp add: ring_contents_def)
  moreover have "ring_slots ?r = ring_slots r" using h(4) e by (simp add: ring_slots_def)
  moreover have "taking k t" "log_extends s t bss" using t K(1) by (simp_all add: taking_def log_extends_def)
  ultimately show ?thesis using t(3,4) h(4) e(1) by (intro exI [of _ ?r'] exI [of _ t] exI [of _ runs] exI [of _ bss]) simp
qed

section \<open>Properties\<close>

text \<open>
  C38. The number of TRBs for a contiguous buffer: counting ends, and the count is the number of
  pieces of the buffer when it is cut at every 64KB boundary. These pieces follow each other
  without gap, cover exactly the buffer, and none of them crosses a boundary.
\<close>

theorem count_bulk_trbs_correct:
  assumes "unat len < 2 ^ 31"
  shows "count_bulk_trbs buf len = Some (int (length (pieces (unat buf) (unat len))))
     \<and> contiguous (unat buf) (pieces (unat buf) (unat len)) \<and> sum_list (map snd (pieces (unat buf) (unat len))) = unat len
     \<and> (\<forall>(b, l) \<in> set (pieces (unat buf) (unat len)). b mod 65536 + l \<le> 65536)"
  using count_bulk_trbs_pieces [OF assms] pieces_contiguous pieces_total pieces_page by auto

theorem count_bulk_trbs_correct_witness:
  "count_bulk_trbs 0x1F000 0x11800 = Some 3"
proof -
  have "pieces 0x1F000 0x11800 = [(0x1F000, 0x1000), (0x20000, 0x10000), (0x30000, 0x800)]"
    by (subst pieces.simps, subst pieces.simps, subst pieces.simps) simp
  then show ?thesis using count_bulk_trbs_correct [of "0x11800" "0x1F000"] by simp
qed

text \<open>The positions of a TD on the ring.\<close>

definition td_at :: "xhci_ring \<Rightarrow> nat \<Rightarrow> nat list \<Rightarrow> xhci_td \<Rightarrow> bool" where
  "td_at r u ps td \<longleftrightarrow> td_urb td = u \<and> (start_seg td, first_trb td) = position r (hd ps)
     \<and> (end_seg td, td_last_trb td) = position r (last ps)"

text \<open>What a successful queueing leaves behind: the ring \<open>r\<close> became \<open>r'\<close>.\<close>

definition queued ::
  "xhci_ring \<Rightarrow> xhci_ring \<Rightarrow> nat \<Rightarrow> xhci_generic_trb list \<Rightarrow> bool" where
  "queued r r' u ts \<longleftrightarrow> ring_inv {} r' \<and> map_option (map clean) (hc_view r') = Some (ring_contents r @ ts)
     \<and> (\<exists>ps td. ring_slots r' = ring_slots r @ ps \<and> length ps = length ts \<and> td_at r u ps td \<and> td_list r' = td_list r @ [td])"

text \<open>The device got the TRBs from the old enqueue position to the new one, and at most one write before
  them, for the link TRB that was passed.\<close>

definition copied :: "ehub \<Rightarrow> ehub \<Rightarrow> xhci_ring \<Rightarrow> xhci_ring \<Rightarrow> bool" where
  "copied s t r r' \<longleftrightarrow> (\<exists>lks runs bss. log_extends s t (lks @ bss) \<and> length lks \<le> 1 \<and> list_all2 (sends (segs r') s (ring_order r)) runs bss
     \<and> run_positions runs = walk (64 * length (ring_order r)) (enq_pos r)
         (if enq_pos r = enq_pos r' then 64 * length (ring_order r) else dist (64 * length (ring_order r)) (enq_pos r) (enq_pos r'))
     \<and> cache_enq_seg r' = enq_seg r' \<and> cache_enqueue r' = enqueue r')"

lemma mark_last_snoc: "mark_last p (tds @ [td]) = tds @ [td\<lparr>td_last_trb := snd p, end_seg := fst p\<rparr>]"
  by (simp add: mark_last_def)

text \<open>From a TD built with its first TRB withheld to the finished transfer.\<close>

lemma finish_ok:
  assumes r: "ring_inv {} r" "cached_ring s r" "cache_enq_seg r = enq_seg r" "cache_enqueue r = enqueue r"
    and r1: "ring_inv {} r1" "extends r r1 [] []" and t: "taking k t" "log_extends s t lks" "length lks \<le> 1"
    and r2: "ring_inv {enq_pos r1} r2" "extends (r1\<lparr>td_list := td_list r @ [new_td urb r1]\<rparr>) r2 (enq_pos r1 # ps) ts"
      "td_list r2 = mark_last (position r1 (last (enq_pos r1 # ps))) (td_list r @ [new_td urb r1])"
      "cyc (trb_of (segs r2) (ring_order r1) (enq_pos r1)) = (cycle_state r1 = 0)"
  shows "\<exists>r' u. finish_tx k slot i stream (cycle_state r1) (enq_seg r1, enqueue r1) Ep_Ring r2 ep t
       = Some ((0, ep\<lparr>ep_ring := Some r'\<rparr>), u) \<and> queued r r' (xu_id urb) ts \<and> copied s u r r'"
proof -
  let ?ss = "ring_order r"
  have x: "extends r r2 (enq_pos r1 # ps) ts"
    using extends_trans [OF r1(2) extends_trans [OF extends_td_list r2(2)]] by simp
  have o: "ring_order r1 = ?ss" "ring_order r2 = ?ss" using r1(2) x by (simp_all add: extends_def)
  have v: "view {} r ?ss (enq_pos r) (deq_pos r)" by (rule ring_invD(1) [OF r(1)])
  have v1: "view {} r1 ?ss (enq_pos r1) (deq_pos r1)" using ring_invD(1) [OF r1(1)] o by simp
  have pos: "enq_pos r < 64 * length (ring_order r2)" "cache_enq_seg r2 = seg_at (ring_order r2) (enq_pos r)"
    "cache_enqueue r2 = enq_pos r mod 64"
    using v o x r(3,4) by (auto simp: view_def extends_def enq_frame_def)
  have first: "(enq_seg r1, enqueue r1) = position r2 (enq_pos r1)" using v1 o by (auto simp: view_def position_def)
  have sc: "cycle_state r1 = 0 \<or> cycle_state r1 = 1" using v1 by (simp add: view_def)
  have c: "cyc (trb_of (segs r2) (ring_order r2) (enq_pos r1)) = (cycle_state r1 = 0)" using r2(4) o by simp
  obtain r' u runs bss where g: "giveback_first_trb k slot i stream (cycle_state r1) (enq_seg r1, enqueue r1) r2 t = Some (r', u)"
    "ring_inv {} r'" "ring_contents r' = ring_contents r2" "ring_order r' = ring_order r2" "ring_slots r' = ring_slots r2"
    "enq_pos r' = enq_pos r2" "td_list r' = td_list r2" "cache_enq_seg r' = enq_seg r'" "cache_enqueue r' = enqueue r'"
    "log_extends t u bss" "list_all2 (sends (segs r') t (ring_order r2)) runs bss"
    "run_positions runs = walk (64 * length (ring_order r2)) (enq_pos r)
         (if enq_pos r = enq_pos r2 then 64 * length (ring_order r2) else dist (64 * length (ring_order r2)) (enq_pos r) (enq_pos r2))"
    using giveback_ok [OF r2(1) sc c cached_ring_extends [OF r(2) x t(2)] t(1) pos] unfolding first by blast
  have "ring_contents r' = ring_contents r @ ts" using g(3) extends_contents [OF x] by simp
  then have "map_option (map clean) (hc_view r') = Some (ring_contents r @ ts)" using hc_view_contents [OF g(2)] by simp
  moreover have "td_at r (xu_id urb) (enq_pos r1 # ps) ((new_td urb r1)\<lparr>
      td_last_trb := snd (position r1 (last (enq_pos r1 # ps))), end_seg := fst (position r1 (last (enq_pos r1 # ps)))\<rparr>)"
    using first o by (simp add: td_at_def new_td_def position_def)
  moreover have "length (enq_pos r1 # ps) = length ts" using x by (auto simp: extends_def)
  moreover have "ring_slots r' = ring_slots r @ (enq_pos r1 # ps)" using g(5) x by (simp add: extends_def)
  moreover note g(7) [unfolded r2(3) mark_last_snoc]
  ultimately have "queued r r' (xu_id urb) ts" unfolding queued_def using g(2) by blast
  moreover have "copied s u r r'"
    unfolding copied_def using log_extends_trans [OF t(2) g(10)] g(6,8,9,11,12) o t(2,3) sends_same_blocks [of s t "segs r'" ?ss]
    by (metis log_extends_def)
  moreover have "finish_tx k slot i stream (cycle_state r1) (enq_seg r1, enqueue r1) Ep_Ring r2 ep t = Some ((0, ep\<lparr>ep_ring := Some r'\<rparr>), u)"
    using g(1) by (simp add: finish_tx_def put_ring_def)
  ultimately show ?thesis by blast
qed

lemma pieces_length_bound: "length (pieces a len) \<le> len div 65536 + 2"
proof (cases "len \<le> 65536 - a mod 65536")
  case True
  then show ?thesis by (subst pieces.simps) simp
next
  case False
  let ?b = "65536 - a mod 65536"
  have "length (pieces (a + ?b) (len - ?b)) = max 1 ((len - ?b + 65535) div 65536)"
    by (rule pieces_aligned_count [OF boundary_next])
  moreover have "a mod 65536 < 65536" by simp
  then have "len - ?b + 65535 < len + 65536" "0 < ?b" by linarith+
  then have "(len - ?b + 65535) div 65536 \<le> (len + 65536) div 65536" by (intro div_le_mono) simp
  moreover have "(len + 65536) div 65536 = len div 65536 + 1" by simp
  ultimately have "length (pieces (a + ?b) (len - ?b)) \<le> len div 65536 + 1" by linarith
  moreover have "pieces a len = (a, ?b) # pieces (a + ?b) (len - ?b)" using False by (subst pieces.simps) simp
  ultimately show ?thesis by (simp only: length_Cons)
qed

lemma room_for:
  assumes "num_trbs_needed r (of_nat n) < 1" and "n < 2 ^ 31"
  shows "n \<le> unat (num_trbs_free r)"
proof (rule ccontr)
  assume "\<not> ?thesis"
  then have lt: "unat (num_trbs_free r) < n" by simp
  have u: "unat (of_nat n :: u32) = n" using assms(2) by (simp add: unat_of_nat)
  then have "num_trbs_free r < of_nat n" using lt by (simp add: word_less_nat_alt)
  moreover have d: "unat (of_nat n - num_trbs_free r) = n - unat (num_trbs_free r)"
    using u lt by (simp add: unat_sub word_le_nat_alt)
  then have "sint (of_nat n - num_trbs_free r) = int (n - unat (num_trbs_free r))"
    using sint_small [of "of_nat n - num_trbs_free r"] assms(2) by simp
  moreover have "1 \<le> int (n - unat (num_trbs_free r))" using lt by linarith
  ultimately show False using assms(1) unfolding num_trbs_needed_def by (simp only: if_True)
qed

text \<open>An endpoint without streams that can take a transfer of \<open>n\<close> TRBs: the ring is well formed, in
  the cache up to its enqueue position, and the code's own test finds room.\<close>

definition can_queue :: "env \<Rightarrow> hcd_params \<Rightarrow> u32 \<Rightarrow> u32 \<Rightarrow> u32 \<Rightarrow> nat \<Rightarrow> xhci_ring \<Rightarrow> xhci_virt_ep \<Rightarrow> ehub \<Rightarrow> bool" where
  "can_queue k P ep_info slot i n r ep s \<longleftrightarrow> taking k s \<and> ring_inv {} r \<and> cached_ring s r
     \<and> cache_enq_seg r = enq_seg r \<and> cache_enqueue r = enqueue r \<and> ep_ring ep = Some r
     \<and> ep_state s slot i AND EP_HAS_STREAMS = 0 \<and> check_ep_state (ep_info AND EP_STATE_MASK) = 0 \<and> link_status P = 0
     \<and> num_trbs_needed r (of_nat n) < 1"

text \<open>The common part of the queueing functions: the ring ready for the TRBs of a new TD.\<close>

lemma can_queue_prepare:
  assumes q: "can_queue k P ep_info slot i n r ep s" and "n < 2 ^ 31"
  obtains r1 t lks where "prepare_transfer k P ep_info 0 (of_nat n) urb 0 ep s
       = Some ((0, ep\<lparr>ep_ring := Some (r1\<lparr>td_list := td_list r @ [new_td urb r1]\<rparr>)\<rparr>), t)"
    and "ring_inv {} r1" and "extends r r1 [] []" and "enqueue r1 \<noteq> 63" and "taking k t" and "log_extends s t lks" and "length lks \<le> 1"
    and "n \<le> unat (num_trbs_free r1)"
proof -
  obtain r1 t lks where r1: "prepare_transfer k P ep_info 0 (of_nat n) urb 0 ep s
       = Some ((0, ep\<lparr>ep_ring := Some (r1\<lparr>td_list := td_list r @ [new_td urb r1]\<rparr>)\<rparr>), t)"
    "ring_inv {} r1" "extends r r1 [] []" "enqueue r1 \<noteq> 63" "taking k t" "log_extends s t lks" "length lks \<le> 1"
    using prepare_transfer_ok [of r s k ep ep_info "of_nat n" P urb 0] q unfolding can_queue_def by blast
  moreover have "n \<le> unat (num_trbs_free r1)" 
  proof -
    have "num_trbs_needed r (of_nat n) < 1" using q by (simp add: can_queue_def)
    from room_for [OF this assms(2)] show ?thesis using r1(3) by (simp add: extends_def)
  qed
  ultimately show thesis using that by blast
qed

text \<open>With the first TRB of a TD withheld the controller sees nothing of the TD, though all of it is
  written.\<close>

lemma filter_takeWhile_neq: "Q p \<Longrightarrow> filter Q (takeWhile (\<lambda>q. q \<noteq> p) xs) = takeWhile (\<lambda>q. q \<noteq> p) (filter Q xs)"
  by (induction xs) auto

lemma hc_view_withheld:
  assumes "ring_inv {p} r" and "ring_slots r = qs @ p # ps" and "p \<notin> set qs"
  shows "map_option (map clean) (hc_view r) = Some (take (length qs) (ring_contents r))"
proof -
  let ?ss = "ring_order r" and ?n = "length (ring_order r)"
  have v: "view {p} r ?ss (enq_pos r) (deq_pos r)" by (rule ring_invD(1) [OF assms(1)])
  then have h: "hc_pos r < 64 * ?n" and m: "p mod 64 \<noteq> 63" by (auto simp: view_def hc_pos_def hw_def)
  have "enq_pos r \<notin> {p}" using ring_invD(2) [OF assms(1)] enq_notin_slots [OF v] by auto
  moreover have "dist (64 * ?n) (hc_pos r) (enq_pos r) < 64 * ?n" using h dist_less by (metis less_zeroE neq0_conv)
  ultimately have "hc_view r = Some (map (trb_of (segs r) ?ss) (takeWhile (\<lambda>q. q \<noteq> p) (ring_slots r)))"
    using hc_fetch_view [OF v _ h] m
    by (simp add: hc_view_def filter_takeWhile_neq [where Q = "\<lambda>q. q mod 64 \<noteq> 63"] ring_slots_def slots_def hc_pos_def)
  moreover have "takeWhile (\<lambda>q. q \<noteq> p) (ring_slots r) = qs" using assms(2,3) by (simp add: takeWhile_append)
  ultimately show ?thesis using assms(2) by (simp add: ring_contents_def)
qed

text \<open>A TD is being written behind the ring \<open>r\<close>: the ring is \<open>r'\<close> by now, the state \<open>t\<close>. Neither the
  memory of the ring nor the cache in the device, which got at most the link TRB that was passed, shows
  anything of it to the controller.\<close>

definition unseen :: "ehub \<Rightarrow> ehub \<Rightarrow> xhci_ring \<Rightarrow> xhci_ring \<Rightarrow> bool" where
  "unseen s t r r' \<longleftrightarrow> map_option (map clean) (hc_view r') = Some (ring_contents r)
     \<and> (\<exists>lks. length lks \<le> 1 \<and> log_extends s t lks)"

lemma withheld_unseen:
  assumes "ring_inv {} r1" and "extends r r1 [] []" and "log_extends s t lks" and "length lks \<le> 1"
    and "ring_inv {enq_pos r1} r2" and "extends (r1\<lparr>td_list := tds\<rparr>) r2 (enq_pos r1 # ps) ts"
  shows "unseen s t r r2"
proof -
  have x: "extends r r2 (enq_pos r1 # ps) ts"
    using extends_trans [OF assms(2) extends_trans [OF extends_td_list assms(6)]] by simp
  have "enq_pos r1 \<notin> set (ring_slots r1)"
    using enq_notin_slots [OF ring_invD(1) [OF assms(1)]] by (simp add: ring_slots_def)
  then have "enq_pos r1 \<notin> set (ring_slots r)" using assms(2) by (simp add: extends_def)
  moreover have "ring_slots r2 = ring_slots r @ enq_pos r1 # ps" using x by (simp add: extends_def)
  moreover have "length (ring_slots r) = length (ring_contents r)" by (simp add: ring_contents_def)
  ultimately show ?thesis
    using hc_view_withheld [OF assms(5), of "ring_slots r" ps] extends_contents [OF x] assms(3,4) unfolding unseen_def by auto
qed

text \<open>
  C11. Queueing a bulk (or interrupt) transfer with a contiguous buffer (no scatter list) on an
  endpoint with room and without streams: it returns success. When the loop has written all the TRBs,
  neither the ring nor the cache in the device shows the controller anything but what was there
  before; once the function has returned, the controller, following its own rules, finds behind it a
  TD of normal TRBs that tile the buffer cut at the 64KB boundaries, chained up to the last one, which
  interrupts; the TD recorded for completion has the positions of the first and last of them; and the
  device has received in its cache memory the TRBs from the old enqueue position to the new one, and at
  most one write before them, for the link TRB that was passed.
\<close>

theorem queue_bulk_tx_correct:
  assumes "can_queue k P ep_info slot i (length (pieces (unat (xu_transfer_buffer urb)) (unat (xu_transfer_buffer_length urb)))) r ep s"
    and "xu_stream_id urb = 0" and "xu_num_sgs urb = 0" and "plain_urb urb"
    and "unat (xu_transfer_buffer_length urb) < 2 ^ 31"
    and "unat (xu_transfer_buffer urb) + unat (xu_transfer_buffer_length urb) < 2 ^ 64"
  shows "(\<exists>r' t ts. ehub_xhci_queue_bulk_tx k P ep_info urb slot i ep s = Some ((0, ep\<lparr>ep_ring := Some r'\<rparr>), t)
     \<and> queued r r' (xu_id urb) ts \<and> copied s t r r'
     \<and> normal_td (xu_dir_in urb) (pieces (unat (xu_transfer_buffer urb)) (unat (xu_transfer_buffer_length urb))) ts)
   \<and> (\<exists>n r1 s1 tp r2. count_bulk_trbs (xu_transfer_buffer urb) (xu_transfer_buffer_length urb) = Some n
     \<and> prepare_transfer k P ep_info 0 (of_int n) urb 0 ep s = Some ((0, ep\<lparr>ep_ring := Some r1\<rparr>), s1)
     \<and> total_packets urb = Some tp
     \<and> bulk_tx_loop P urb (cycle_state r1) tp s1 True n (xu_transfer_buffer urb) 0
         (min (xu_transfer_buffer_length urb) (to_boundary (xu_transfer_buffer urb))) r1 = Some r2
     \<and> unseen s s1 r r2)"
proof -
  let ?a = "xu_transfer_buffer urb" and ?l = "xu_transfer_buffer_length urb"
  let ?ps = "pieces (unat ?a) (unat ?l)"
  have Q: "ring_inv {} r" "cached_ring s r" "cache_enq_seg r = enq_seg r" "cache_enqueue r = enqueue r" "ep_ring ep = Some r"
    "ep_state s slot i AND EP_HAS_STREAMS = 0" using assms(1) by (simp_all add: can_queue_def)
  have n: "length ?ps < 2 ^ 31" using pieces_length_bound [of "unat ?a" "unat ?l"] assms(5) by simp
  obtain r1 t lks where r1: "prepare_transfer k P ep_info 0 (of_nat (length ?ps)) urb 0 ep s
       = Some ((0, ep\<lparr>ep_ring := Some (r1\<lparr>td_list := td_list r @ [new_td urb r1]\<rparr>)\<rparr>), t)"
    "ring_inv {} r1" "extends r r1 [] []" "enqueue r1 \<noteq> 63" "taking k t" "log_extends s t lks" "length lks \<le> 1" "length ?ps \<le> unat (num_trbs_free r1)"
    using can_queue_prepare [OF assms(1) n] by metis
  let ?r1 = "r1\<lparr>td_list := td_list r @ [new_td urb r1]\<rparr>"
  have mp: "xu_maxp urb \<noteq> 0" using assms(4) by (auto simp: plain_urb_def GET_MAX_PACKET_def)
  then obtain tp where tp: "total_packets urb = Some tp" by (simp add: total_packets_def)
  define l where "l = (if ?l < to_boundary ?a then ?l else to_boundary ?a)"
  have l: "unat l = min (65536 - unat ?a mod 65536) (unat ?l)" by (simp add: l_def word_less_nat_alt unat_to_boundary min_def)
  obtain r2 ps ts where r2: "bulk_tx_loop P urb (cycle_state r1) tp t True (int (length ?ps)) ?a 0 l ?r1 = Some r2"
    "ring_inv {enq_pos r1} r2" "extends ?r1 r2 (enq_pos r1 # ps) ts" "normal_td (xu_dir_in urb) ?ps ts"
    "td_list r2 = mark_last (position r1 (last (enq_pos r1 # ps))) (td_list r @ [new_td urb r1])"
    "cyc (trb_of (segs r2) (ring_order r1) (enq_pos r1)) = (cycle_state r1 = 0)"
    using bulk_tx_loop_ok [OF assms(4,5) refl assms(6) _ l refl, of 0 "{}" ?r1 True "cycle_state r1" P tp t] r1(2,4,8)
    by (auto simp: position_def)
  obtain r' u where f: "finish_tx k slot i 0 (cycle_state r1) (enq_seg r1, enqueue r1) Ep_Ring r2
      (ep\<lparr>ep_ring := Some ?r1\<rparr>) t = Some ((0, ep\<lparr>ep_ring := Some r'\<rparr>), u)" "queued r r' (xu_id urb) ts" "copied s u r r'"
    using finish_ok [OF Q(1-4) r1(2,3,5,6,7) r2(2,3,5,6), of slot i 0 "ep\<lparr>ep_ring := Some ?r1\<rparr>"] by auto
  note count = count_bulk_trbs_pieces [OF assms(5), of ?a]
  have "xhci_triad_to_transfer_ring (ep_state s slot i) ep 0 = Some (Some Ep_Ring)"
    using Q(5,6) by (simp add: xhci_triad_to_transfer_ring_def ring_of_ref_def get_ring_def)
  then have "\<exists>r' t ts. ehub_xhci_queue_bulk_tx k P ep_info urb slot i ep s = Some ((0, ep\<lparr>ep_ring := Some r'\<rparr>), t)
     \<and> queued r r' (xu_id urb) ts \<and> copied s t r r' \<and> normal_td (xu_dir_in urb) ?ps ts"
    using assms(2,3) f count r1(1) tp r2(1,4)
    by (auto simp: ehub_xhci_queue_bulk_tx_def get_ring_def Let_def l_def)
  moreover have "l = min ?l (to_boundary ?a)" by (auto simp: l_def min_def)
  then have "\<exists>n r1 s1 tp r2. count_bulk_trbs ?a ?l = Some n \<and> prepare_transfer k P ep_info 0 (of_int n) urb 0 ep s = Some ((0, ep\<lparr>ep_ring := Some r1\<rparr>), s1)
     \<and> total_packets urb = Some tp \<and> bulk_tx_loop P urb (cycle_state r1) tp s1 True n ?a 0 (min ?l (to_boundary ?a)) r1 = Some r2
     \<and> unseen s s1 r r2"
    using count r1(1) tp r2(1) withheld_unseen [OF r1(2,3,6,7) r2(2,3)]
    by (intro exI [of _ "int (length ?ps)"] exI [of _ ?r1] exI [of _ t] exI [of _ tp] exI [of _ r2]) simp
  ultimately show ?thesis by blast
qed

definition demo_segment :: "nat \<Rightarrow> nat \<Rightarrow> u32 \<Rightarrow> xhci_segment" where
  "demo_segment nx b link = \<lparr>trbs = replicate 63 (TRB 0 0 0 0) @ [TRB 0 0 0 link], next_seg = Some nx, dma = 0, EhubCacheBlock = Some b\<rparr>"

definition demo_ep_ring :: xhci_ring where
  "demo_ep_ring = (zero_ring 2 TYPE_BULK)\<lparr>last_seg := 1, cycle_state := 1, num_trbs_free := 125,
     segs := [0 \<mapsto> demo_segment 1 0 0x1800, 1 \<mapsto> demo_segment 0 1 0x1802]\<rparr>"

lemma demo_ep_ring_chain: "chain_ok (segs demo_ep_ring) [0, 1]"
  by (simp add: chain_ok_def demo_ep_ring_def demo_segment_def less_2_cases_iff numeral_2_eq_2 All_less_Suc)

lemma demo_ep_ring_fields [simp]:
  "enq_seg demo_ep_ring = 0" "enqueue demo_ep_ring = 0" "deq_seg demo_ep_ring = 0"
  "dequeue demo_ep_ring = 0" "cache_enq_seg demo_ep_ring = 0" "cache_enqueue demo_ep_ring = 0" "cycle_state demo_ep_ring = 1"
  "ring_type demo_ep_ring = TYPE_BULK" "num_trbs_free demo_ep_ring = 125" "num_segs demo_ep_ring = 2" "first_seg demo_ep_ring = 0"
  by (simp_all add: demo_ep_ring_def zero_ring_def)

lemma demo_ep_ring_order [simp]: "ring_order demo_ep_ring = [0, 1]"
  by (rule ring_order_chain [OF demo_ep_ring_chain]) simp_all

lemma demo_ep_ring_trb:
  assumes "p < 128"
  shows "trb_of (segs demo_ep_ring) [0, 1] p = TRB 0 0 0 (if p mod 64 = 63 then if p < 64 then 0x1800 else 0x1802 else 0)"
proof -
  have "p mod 64 < 64" by simp
  then have "(replicate 63 (TRB 0 0 0 0) @ [TRB 0 0 0 x]) ! (p mod 64) = TRB 0 0 0 (if p mod 64 = 63 then x else 0)" for x
    by (auto simp: nth_append less_Suc_eq)
  moreover have "p div 64 = 0 \<and> p < 64 \<or> p div 64 = 1 \<and> \<not> p < 64" using assms by linarith
  ultimately show ?thesis by (auto simp: trb_of_def demo_ep_ring_def demo_segment_def)
qed

lemma demo_ep_ring_inv: "ring_inv {} demo_ep_ring"
proof -
  note c = demo_ep_ring_chain
  have l: "links_ok (segs demo_ep_ring) [0, 1]"
    unfolding links_ok_def
  proof (intro allI impI)
    fix p :: nat assume "p < 64 * length [0, 1 :: nat]"
    then have p: "p < 128" by simp
    have "p mod 64 = 63 \<Longrightarrow> (p < 64) = (Suc p \<noteq> 128)" using p by (cases "p < 64") (auto simp: le_mod_geq)
    then show "TRB_TYPE_LINK (control (trb_of (segs demo_ep_ring) [0, 1] p)) = (p mod 64 = 63)
       \<and> (p mod 64 = 63 \<longrightarrow> (control (trb_of (segs demo_ep_ring) [0, 1] p) AND LINK_TOGGLE \<noteq> 0) = (Suc p = 64 * length [0, 1 :: nat]))"
      unfolding demo_ep_ring_trb [OF p] by (auto simp: field_defs LINK_TOGGLE_def)
  qed
  have o: "owned (segs demo_ep_ring) [0, 1] 1 {} 0"
    by (auto simp: owned_def demo_ep_ring_trb [simplified])
  have pos: "enq_pos demo_ep_ring = 0" "deq_pos demo_ep_ring = 0" by (simp_all add: enq_pos_def deq_pos_def pos_of_def)
  then have "view {} demo_ep_ring [0, 1] 0 0" using c l o by (simp add: view_def seg_at_def)
  then show ?thesis using pos by (simp add: ring_inv_def ring_slots_def slots_def hw_def)
qed

definition demo_ep :: xhci_virt_ep where
  "demo_ep = \<lparr>ep_ring = Some demo_ep_ring, stream_info = None, new_ring = None, cancelled_td_list = [], stopped_td = None,
     stopped_stream = 0, stop_cmd_timer = False, stop_cmds_pending = 0, queued_deq = None, skip = False,
     max_buffer_size = 65536, cache_data = False\<rparr>"

definition demo_params :: hcd_params where
  "demo_params = \<lparr>hp_quirks = 0, hci_version = 0x96, map_status = 0, link_status = 0\<rparr>"

definition demo_xfer_urb :: xfer_urb where
  "demo_xfer_urb = \<lparr>xu_id = 7, xu_dir_in = True, xu_transfer_buffer = 0x10000, xu_transfer_dma = 0, xu_transfer_buffer_length = 512,
     xu_stream_id = 0, xu_setup_packet = Some \<lparr>bRequestType = 0x80, bRequest = 6, wValue = 0x100, wIndex = 0, wLength = 512\<rparr>,
     xu_num_sgs = 0, xu_sg = [], xu_maxp = 512, xu_bMaxBurst = 0, xu_speed = USB_SPEED_HIGH, xu_interval = 0, xu_start_frame = 0,
     xu_iso_frame_desc = [], xu_priv = new_priv\<rparr>"

lemma demo_can_queue:
  assumes "n \<le> 125"
  shows "can_queue quiet_env demo_params 1 1 2 n demo_ep_ring demo_ep demo_blocks"
proof -
  have "taking quiet_env demo_blocks"
    using quiet_env_accepting demo_blocks_inv(1)
    by (simp add: taking_def demo_blocks_def demo_defs device_ok_def interface_bound_def)
  moreover have "cached_ring demo_blocks demo_ep_ring"
    unfolding cached_ring_def cached_def demo_ep_ring_order
    by (simp add: demo_ep_ring_def zero_ring_def demo_segment_def demo_blocks_def demo_defs fresh_block_def
        EHUB_CACHE_BLOCK_SIZE_def EHUB_CACHE_START_ADDRESS_def)
  moreover have "\<not> (125 :: u32) < of_nat n" using assms by (simp add: word_less_nat_alt unat_of_nat)
  then have "num_trbs_needed demo_ep_ring (of_nat n) < 1" by (simp add: num_trbs_needed_def)
  moreover have "ep_state demo_blocks 1 2 AND EP_HAS_STREAMS = 0" by (simp add: demo_blocks_def demo_defs)
  moreover have "check_ep_state (1 AND EP_STATE_MASK) = 0"
    by (simp add: check_ep_state_def EP_STATE_MASK_def EP_STATE_DISABLED_def EP_STATE_ERROR_def EP_STATE_HALTED_def
        EP_STATE_STOPPED_def EP_STATE_RUNNING_def)
  ultimately show ?thesis using demo_ep_ring_inv by (simp add: can_queue_def demo_ep_def demo_params_def)
qed

theorem queue_bulk_tx_correct_witness:
  "\<exists>r' t ts. ehub_xhci_queue_bulk_tx quiet_env demo_params 1 demo_xfer_urb 1 2 demo_ep demo_blocks = Some ((0, demo_ep\<lparr>ep_ring := Some r'\<rparr>), t)
     \<and> queued demo_ep_ring r' 7 ts \<and> normal_td True [(0x10000, 512)] ts"
proof -
  have p: "pieces 0x10000 512 = [(0x10000, 512)]" by (subst pieces.simps) simp
  have u: "plain_urb demo_xfer_urb" by (simp add: plain_urb_def demo_xfer_urb_def new_priv_def GET_MAX_PACKET_def)
  have f: "xu_stream_id demo_xfer_urb = 0" "xu_num_sgs demo_xfer_urb = 0" "unat (xu_transfer_buffer_length demo_xfer_urb) = 512"
    "unat (xu_transfer_buffer demo_xfer_urb) = 0x10000" "xu_id demo_xfer_urb = 7" "xu_dir_in demo_xfer_urb = True" by (simp_all add: demo_xfer_urb_def)
  have "can_queue quiet_env demo_params 1 1 2 (length (pieces 0x10000 512)) demo_ep_ring demo_ep demo_blocks"
    unfolding p by (rule demo_can_queue) simp
  from queue_bulk_tx_correct [of _ _ _ _ _ demo_xfer_urb, unfolded f, OF this refl refl u] show ?thesis unfolding p by simp blast
qed

section \<open>Control transfers\<close>

lemma can_queue_less:
  assumes "can_queue k P ep_info slot i 3 r ep s" and "n \<le> 3"
  shows "can_queue k P ep_info slot i n r ep s \<and> 3 \<le> unat (num_trbs_free r)"
proof -
  have need: "num_trbs_needed r (of_nat 3) < 1" using assms(1) by (simp add: can_queue_def)
  have free: "3 \<le> unat (num_trbs_free r)" using room_for [OF need] by simp
  have "dequeue r < 64" using ring_invD(1) [of "{}" r] assms(1) by (auto simp: can_queue_def view_def)
  then have u: "unat (of_nat m + of_nat (dequeue r) :: u32) = m + dequeue r" if "m \<le> 3" for m
    using that by (simp add: unat_word_ariths unat_of_nat)
  have small: "unat (of_nat 3 + of_nat (dequeue r) - num_trbs_free r) < 2 ^ 31" if "num_trbs_free r < of_nat 3 + of_nat (dequeue r)"
    using that u [of 3] \<open>dequeue r < 64\<close> by (simp add: unat_sub word_le_nat_alt word_less_nat_alt)
  have "\<not> (ring_type r \<noteq> TYPE_COMMAND \<and> ring_type r \<noteq> TYPE_EVENT \<and> num_trbs_free r < of_nat 3 + of_nat (dequeue r))"
  proof
    assume a: "ring_type r \<noteq> TYPE_COMMAND \<and> ring_type r \<noteq> TYPE_EVENT \<and> num_trbs_free r < of_nat 3 + of_nat (dequeue r)"
    then have lt: "unat (num_trbs_free r) < 3 + dequeue r" using u [of 3] by (simp add: word_less_nat_alt)
    then have "unat (of_nat 3 + of_nat (dequeue r) - num_trbs_free r) = 3 + dequeue r - unat (num_trbs_free r)"
      using u [of 3] by (simp add: unat_sub word_le_nat_alt)
    moreover have "\<not> num_trbs_free r < of_nat 3" using free by (simp add: word_less_nat_alt)
    ultimately have "num_trbs_needed r (of_nat 3) = int (3 + dequeue r - unat (num_trbs_free r))"
      using a small sint_small [of "of_nat 3 + of_nat (dequeue r) - num_trbs_free r"] unfolding num_trbs_needed_def by simp
    with need have "int (3 + dequeue r - unat (num_trbs_free r)) < 1" by (simp only:)
    with lt show False by linarith
  qed
  then have "num_trbs_needed r (of_nat n) = 0"
    using free assms(2) u [of 3] u [of n] by (auto simp: num_trbs_needed_def word_less_nat_alt unat_of_nat)
  then show ?thesis using assms(1) free by (simp add: can_queue_def)
qed

definition setup_bytes :: "usb_ctrlrequest \<Rightarrow> u8 list" where
  "setup_bytes req = [bRequestType req, bRequest req, ucast (wValue req), ucast (drop_bit 8 (wValue req)),
     ucast (wIndex req), ucast (drop_bit 8 (wIndex req)), ucast (wLength req), ucast (drop_bit 8 (wLength req))]"

lemma beyond_length:
  "\<not> bit (w8 :: u8) (8 + n)" "\<not> bit w8 (16 + n)" "\<not> bit w8 (24 + n)" "\<not> bit (w16 :: u16) (16 + n)" "\<not> bit w16 (24 + n)"
  by (auto dest: bit_imp_le_length)

lemma setup_dwords: "le32 (setup_dword0 req) @ le32 (setup_dword1 req) = setup_bytes req"
  unfolding setup_bytes_def setup_dword0_def setup_dword1_def le32_def
  by (auto intro!: bit_word_eqI simp: bit_simps beyond_length)

definition towards_host :: "xhci_generic_trb \<Rightarrow> bool" where
  "towards_host t \<longleftrightarrow> control t AND TRB_DIR_IN \<noteq> 0"

abbreviation (input) dir_in_request :: "usb_ctrlrequest \<Rightarrow> bool" where
  "dir_in_request req \<equiv> bRequestType req AND 0x80 \<noteq> 0"

text \<open>A control transfer: the setup stage carries the eight bytes of the request, the data stage the
  buffer in the direction of the request, the status stage goes the other way and interrupts.\<close>

definition ctrl_td :: "xfer_urb \<Rightarrow> usb_ctrlrequest \<Rightarrow> xhci_generic_trb list \<Rightarrow> bool" where
  "ctrl_td urb req ts \<longleftrightarrow>
     map trb_type ts = (if 0 < xu_transfer_buffer_length urb then [TRB_SETUP, TRB_DATA, TRB_STATUS] else [TRB_SETUP, TRB_STATUS])
     \<and> take 8 (trb_bytes (hd ts)) = setup_bytes req \<and> trb_length (hd ts) = 8 \<and> control (hd ts) AND TRB_IDT \<noteq> 0
     \<and> (0 < xu_transfer_buffer_length urb \<longrightarrow> trb_buffer (ts ! 1) = xu_transfer_buffer urb
          \<and> trb_length (ts ! 1) = xu_transfer_buffer_length urb \<and> towards_host (ts ! 1) = dir_in_request req)
     \<and> towards_host (last ts) = (\<not> (0 < xu_transfer_buffer_length urb \<and> dir_in_request req))
     \<and> map interrupts ts = replicate (length ts - 1) False @ [True] \<and> (\<forall>t \<in> set ts. \<not> chained t)"

lemmas ctrl_defs = setup_field_def data_stage_field_def status_stage_field_def field_defs TRB_IDT_def TRB_SETUP_def TRB_TX_TYPE_def
  TRB_DATA_IN_def TRB_DATA_OUT_def TRB_DATA_def TRB_STATUS_def TRB_DIR_IN_def

lemma setup_field_facts:
  assumes "c = 0 \<or> c = 1"
  shows "\<not> TRB_TYPE_LINK (setup_field P urb req c)" and "bit (setup_field P urb req c) 0 = (c = 0)"
    and "setup_field P urb req c AND NOT TRB_CYCLE = setup_field P urb req 1"
    and "setup_field P urb req 1 AND TRB_CHAIN = 0" and "setup_field P urb req 1 AND TRB_IOC = 0"
    and "setup_field P urb req 1 AND TRB_IDT \<noteq> 0" and "drop_bit 10 (setup_field P urb req 1 AND TRB_TYPE_BITMASK) = TRB_SETUP"
  using assms by (auto simp: ctrl_defs bit_simps)

lemma data_field_facts:
  assumes "c = 0 \<or> c = 1"
  shows "\<not> TRB_TYPE_LINK (data_stage_field urb req OR c)" and "bit (data_stage_field urb req OR c) 0 = (c = 1)"
    and "(data_stage_field urb req OR c) AND NOT TRB_CYCLE = data_stage_field urb req"
    and "data_stage_field urb req AND TRB_CHAIN = 0" and "data_stage_field urb req AND TRB_IOC = 0"
    and "(data_stage_field urb req AND TRB_DIR_IN \<noteq> 0) = dir_in_request req"
    and "drop_bit 10 (data_stage_field urb req AND TRB_TYPE_BITMASK) = TRB_DATA"
  using assms by (auto simp: ctrl_defs bit_simps)

definition status_control :: "xfer_urb \<Rightarrow> usb_ctrlrequest \<Rightarrow> u32 \<Rightarrow> u32" where
  "status_control urb req c = status_stage_field urb req OR TRB_IOC OR TRB_TYPE TRB_STATUS OR c"

lemma status_field_facts:
  assumes "c = 0 \<or> c = 1"
  shows "\<not> TRB_TYPE_LINK (status_control urb req c)" and "bit (status_control urb req c) 0 = (c = 1)"
    and "status_control urb req c AND NOT TRB_CYCLE = status_control urb req 0"
    and "status_control urb req 0 AND TRB_CHAIN = 0" and "status_control urb req 0 AND TRB_IOC \<noteq> 0"
    and "(status_control urb req 0 AND TRB_DIR_IN \<noteq> 0) = (\<not> (0 < xu_transfer_buffer_length urb \<and> dir_in_request req))"
    and "drop_bit 10 (status_control urb req 0 AND TRB_TYPE_BITMASK) = TRB_STATUS"
  using assms by (auto simp: status_control_def ctrl_defs bit_simps)

text \<open>The stages on the ring, each a step of \<^const>\<open>extends\<close>.\<close>

lemma setup_stage:
  assumes inv: "ring_inv {} r" and e: "enqueue r \<noteq> 63" and room: "num_trbs_free r \<noteq> 0"
  shows "\<exists>r'. queue_trb q True (setup_dword0 req) (setup_dword1 req) (TRB_LEN 8 OR TRB_INTR_TARGET 0)
        (setup_field P urb req (cycle_state r)) r = Some r' \<and> ring_inv {enq_pos r} r'
     \<and> extends r r' [enq_pos r] [TRB (setup_dword0 req) (setup_dword1 req) 8 (setup_field P urb req 1)]
     \<and> td_list r' = td_list r \<and> enqueue r' \<noteq> 63 \<and> cyc (trb_of (segs r') (ring_order r) (enq_pos r)) = (cycle_state r = 0)"
proof -
  have c: "cycle_state r = 0 \<or> cycle_state r = 1" using ring_invD(1) [OF inv] by (simp add: view_def)
  note f = setup_field_facts [OF c, of P urb req]
  have "TRB_LEN 8 OR TRB_INTR_TARGET 0 = 8" by (simp add: TRB_LEN_def TRB_INTR_TARGET_def)
  then show ?thesis
    using ring_queue_extends [OF inv e f(1) room, of q True "setup_dword0 req" "setup_dword1 req" 8] f(2,3) c
    by (auto simp: clean_def)
qed

lemma later_stage:
  assumes inv: "ring_inv F r" and e: "enqueue r \<noteq> 63" and room: "num_trbs_free r \<noteq> 0"
    and nl: "\<not> TRB_TYPE_LINK f4" and b: "bit f4 0 = (cycle_state r = 1)"
  shows "\<exists>r'. queue_trb q coming f1 f2 f3 f4 r = Some r' \<and> ring_inv F r' \<and> extends r r' [enq_pos r] [clean (TRB f1 f2 f3 f4)]
     \<and> td_list r' = td_list r \<and> (coming \<longrightarrow> enqueue r' \<noteq> 63)"
  using ring_queue_extends [OF inv e nl room, of q coming f1 f2 f3] b by auto

lemma ctrl_length_field: "unat l < 2 ^ 17 \<Longrightarrow> trb_length (TRB a b (TRB_LEN l OR push_bit 17 y OR TRB_INTR_TARGET 0) d) = l"
proof -
  assume "unat l < 2 ^ 17"
  then have "take_bit 17 l = l" by (simp add: word_unat_eq_iff unsigned_take_bit_eq take_bit_nat_eq_self)
  moreover have "(0x1ffff :: u32) = mask 17" by (simp add: mask_eq_exp_minus_1)
  moreover have "(take_bit 17 l OR push_bit 17 y) AND mask 17 = take_bit 17 l"
    by (rule bit_word_eqI) (auto simp: bit_simps)
  ultimately show ?thesis by (simp add: TRB_LEN_def TRB_INTR_TARGET_def take_bit_eq_mask)
qed

definition data_trb :: "xfer_urb \<Rightarrow> usb_ctrlrequest \<Rightarrow> xhci_generic_trb" where
  "data_trb urb req = TRB (lower_32_bits (xu_transfer_buffer urb)) (upper_32_bits (xu_transfer_buffer urb))
     (TRB_LEN (xu_transfer_buffer_length urb) OR xhci_td_remainder (xu_transfer_buffer_length urb) OR TRB_INTR_TARGET 0)
     (data_stage_field urb req)"

lemma ring_cycle: "ring_inv F r \<Longrightarrow> cycle_state r = 0 \<or> cycle_state r = 1"
  using ring_invD(1) [of F r] by (simp add: view_def)

lemma data_stage:
  assumes inv: "ring_inv F r" and e: "enqueue r \<noteq> 63" and room: "2 \<le> unat (num_trbs_free r)"
  shows "\<exists>r' ps. (if 0 < xu_transfer_buffer_length urb
        then queue_trb q True (lower_32_bits (xu_transfer_buffer urb)) (upper_32_bits (xu_transfer_buffer urb))
          (TRB_LEN (xu_transfer_buffer_length urb) OR xhci_td_remainder (xu_transfer_buffer_length urb) OR TRB_INTR_TARGET 0)
          (data_stage_field urb req OR cycle_state r) r else Some r) = Some r'
     \<and> ring_inv F r' \<and> extends r r' ps (if 0 < xu_transfer_buffer_length urb then [data_trb urb req] else [])
     \<and> td_list r' = td_list r \<and> enqueue r' \<noteq> 63 \<and> num_trbs_free r' \<noteq> 0"
proof (cases "0 < xu_transfer_buffer_length urb")
  case True
  note f = data_field_facts [OF ring_cycle [OF inv], of urb req]
  have "num_trbs_free r \<noteq> 0" using room by auto
  then obtain r' where r': "queue_trb q True (lower_32_bits (xu_transfer_buffer urb)) (upper_32_bits (xu_transfer_buffer urb))
      (TRB_LEN (xu_transfer_buffer_length urb) OR xhci_td_remainder (xu_transfer_buffer_length urb) OR TRB_INTR_TARGET 0)
      (data_stage_field urb req OR cycle_state r) r = Some r'"
    "ring_inv F r'" "extends r r' [enq_pos r] [data_trb urb req]" "td_list r' = td_list r" "enqueue r' \<noteq> 63"
    using later_stage [OF inv e _ f(1,2), of q True] f(3) by (simp add: clean_def data_trb_def) blast
  then have "0 < unat (num_trbs_free r')" using room by (simp add: extends_def)
  then have "num_trbs_free r' \<noteq> 0" by auto
  with r' True show ?thesis by auto
next
  case False
  have "extends r r [] []" using extends_td_list [of r "td_list r"] by simp
  then show ?thesis using False inv e room by (intro exI [of _ r] exI [of _ "[]"]) auto
qed

lemma ctrl_td_stages:
  assumes "unat (xu_transfer_buffer_length urb) < 2 ^ 17"
  shows "ctrl_td urb req (TRB (setup_dword0 req) (setup_dword1 req) 8 (setup_field P urb req 1)
     # (if 0 < xu_transfer_buffer_length urb then [data_trb urb req] else [])
     @ [TRB 0 0 (TRB_INTR_TARGET 0) (status_control urb req 0)])"
proof -
  obtain y where y: "xhci_td_remainder (xu_transfer_buffer_length urb) = push_bit 17 y"
    using td_size_some [of 1 "\<lparr>hp_quirks = 0, hci_version = 0, map_status = 0, link_status = 0\<rparr>" "xu_transfer_buffer_length urb" 0]
    by (auto simp: td_size_def GET_MAX_PACKET_def)
  show ?thesis
    using setup_dwords [of req] setup_field_facts(4-7) [of 1 P urb req] data_field_facts(4-7) [of 1 urb req]
      status_field_facts(4-7) [of 1 urb req] buffer_halves ctrl_length_field [OF assms]
    by (auto simp: ctrl_td_def trb_type_def interrupts_def chained_def towards_host_def data_trb_def y)
qed

lemma ctrl_tx_stages_ok:
  assumes inv: "ring_inv {} r" and e: "enqueue r \<noteq> 63" and room: "3 \<le> unat (num_trbs_free r)"
    and len: "unat (xu_transfer_buffer_length urb) < 2 ^ 17"
  shows "\<exists>r' ps ts. ctrl_tx_stages P urb req r = Some r' \<and> ring_inv {enq_pos r} r' \<and> extends r r' (enq_pos r # ps) ts
     \<and> ctrl_td urb req ts \<and> td_list r' = mark_last (position r (last (enq_pos r # ps))) (td_list r)
     \<and> cyc (trb_of (segs r') (ring_order r) (enq_pos r)) = (cycle_state r = 0)"
proof -
  let ?l = "xu_transfer_buffer_length urb" and ?q = "hp_quirks P" and ?F = "{enq_pos r}"
  let ?t1 = "TRB (setup_dword0 req) (setup_dword1 req) 8 (setup_field P urb req 1)"
  let ?t2 = "if 0 < ?l then [data_trb urb req] else []" and ?t3 = "TRB 0 0 (TRB_INTR_TARGET 0) (status_control urb req 0)"
  have "num_trbs_free r \<noteq> 0" using room by auto
  from setup_stage [OF inv e this, of ?q req P urb]
  obtain r1 where r1: "queue_trb ?q True (setup_dword0 req) (setup_dword1 req) (TRB_LEN 8 OR TRB_INTR_TARGET 0)
        (setup_field P urb req (cycle_state r)) r = Some r1" "ring_inv ?F r1" "extends r r1 [enq_pos r] [?t1]"
    "td_list r1 = td_list r" "enqueue r1 \<noteq> 63" "cyc (trb_of (segs r1) (ring_order r) (enq_pos r)) = (cycle_state r = 0)"
    by blast
  have "2 \<le> unat (num_trbs_free r1)" using room r1(3) by (simp add: extends_def)
  from data_stage [OF r1(2,5) this, of urb ?q req]
  obtain r2 ps where r2: "(if 0 < ?l then queue_trb ?q True (lower_32_bits (xu_transfer_buffer urb)) (upper_32_bits (xu_transfer_buffer urb))
          (TRB_LEN ?l OR xhci_td_remainder ?l OR TRB_INTR_TARGET 0) (data_stage_field urb req OR cycle_state r1) r1
       else Some r1) = Some r2" "ring_inv ?F r2" "extends r1 r2 ps ?t2" "td_list r2 = td_list r1" "enqueue r2 \<noteq> 63" "num_trbs_free r2 \<noteq> 0"
    by blast
  define r3 where "r3 = set_last_td r2"
  have r3: "r3 = r2\<lparr>td_list := mark_last (position r2 (enq_pos r2)) (td_list r)\<rparr>"
    using set_last_td_mark [OF r2(2)] r2(4) r1(4) by (simp add: r3_def)
  obtain r4 where r4: "queue_trb ?q False 0 0 (TRB_INTR_TARGET 0) (status_control urb req (cycle_state r2)) r3 = Some r4"
    "ring_inv ?F r4" "extends r3 r4 [enq_pos r3] [?t3]" "td_list r4 = td_list r3"
    using later_stage [of ?F r3 "status_control urb req (cycle_state r2)" ?q False] r2(2,5,6)
      status_field_facts(1-3) [OF ring_cycle [OF r2(2)], of urb req]
    by (simp add: r3 clean_def) blast
  have x3: "extends r2 r3 [] []" unfolding r3 by (rule extends_td_list)
  note x1 = extends_trans [OF r2(3) extends_trans [OF x3 r4(3)]]
  have x: "extends r r4 (enq_pos r # ps @ [enq_pos r2]) (?t1 # ?t2 @ [?t3])"
    using extends_trans [OF r1(3) x1] by (simp add: r3)
  have "ctrl_tx_stages P urb req r = Some r4"
    using r1(1) r2(1) r4(1) by (simp add: ctrl_tx_stages_def Let_def r3_def [symmetric]) (simp add: r3 status_control_def)
  moreover have "td_list r4 = mark_last (position r (last (enq_pos r # ps @ [enq_pos r2]))) (td_list r)"
    using r4(4) r3 r1(3) r2(3) by (simp add: position_def extends_def)
  moreover have "trb_of (segs r4) (ring_order r) (enq_pos r) = trb_of (segs r1) (ring_order r) (enq_pos r)"
    using r1(3) x1 by (simp add: extends_def)
  ultimately show ?thesis using r4(2) x r1(6) ctrl_td_stages [OF len, of req P] by metis
qed

text \<open>
  C12. Queueing a control transfer on an endpoint with room: it returns success, and afterwards the
  controller finds behind what was on the ring the stages of the transfer (setup with the eight
  bytes of the request, data with the buffer, its length and the direction of the request when
  there is data, status in the other direction, which interrupts), with the TD recorded at their
  positions and the TRBs copied to the cache memory of the device.
\<close>

theorem queue_ctrl_tx_correct:
  assumes "can_queue k P ep_info slot i 3 r ep s" and "xu_stream_id urb = 0" and "xu_setup_packet urb = Some req"
    and "unat (xu_transfer_buffer_length urb) < 2 ^ 17"
  shows "\<exists>r' t ts. ehub_xhci_queue_ctrl_tx k P ep_info urb slot i ep s = Some ((0, ep\<lparr>ep_ring := Some r'\<rparr>), t)
     \<and> queued r r' (xu_id urb) ts \<and> copied s t r r' \<and> ctrl_td urb req ts"
proof -
  have Q: "ring_inv {} r" "cached_ring s r" "cache_enq_seg r = enq_seg r" "cache_enqueue r = enqueue r" "ep_ring ep = Some r"
    "ep_state s slot i AND EP_HAS_STREAMS = 0" using assms(1) by (simp_all add: can_queue_def)
  define n where "n = (if 0 < xu_transfer_buffer_length urb then 3 else (2 :: nat))"
  have q: "can_queue k P ep_info slot i n r ep s" "3 \<le> unat (num_trbs_free r)"
    using can_queue_less [OF assms(1), of n] by (auto simp: n_def)
  have "n < 2 ^ 31" by (simp add: n_def)
  from can_queue_prepare [OF q(1) this]
  obtain r1 t lks where r1: "prepare_transfer k P ep_info 0 (of_nat n) urb 0 ep s
       = Some ((0, ep\<lparr>ep_ring := Some (r1\<lparr>td_list := td_list r @ [new_td urb r1]\<rparr>)\<rparr>), t)"
    "ring_inv {} r1" "extends r r1 [] []" "enqueue r1 \<noteq> 63" "taking k t" "log_extends s t lks" "length lks \<le> 1" by metis
  let ?r1 = "r1\<lparr>td_list := td_list r @ [new_td urb r1]\<rparr>"
  have "3 \<le> unat (num_trbs_free r1)" using q(2) r1(3) by (simp add: extends_def)
  then obtain r2 ps ts where r2: "ctrl_tx_stages P urb req ?r1 = Some r2"
    "ring_inv {enq_pos r1} r2" "extends ?r1 r2 (enq_pos r1 # ps) ts" "ctrl_td urb req ts"
    "td_list r2 = mark_last (position r1 (last (enq_pos r1 # ps))) (td_list r @ [new_td urb r1])"
    "cyc (trb_of (segs r2) (ring_order r1) (enq_pos r1)) = (cycle_state r1 = 0)"
    using ctrl_tx_stages_ok [of ?r1 urb P req] r1(2,4) assms(4) by (auto simp: position_def)
  obtain r' u where "finish_tx k slot i 0 (cycle_state r1) (enq_seg r1, enqueue r1) Ep_Ring r2
      (ep\<lparr>ep_ring := Some ?r1\<rparr>) t = Some ((0, ep\<lparr>ep_ring := Some r'\<rparr>), u)" "queued r r' (xu_id urb) ts" "copied s u r r'"
    using finish_ok [OF Q(1-4) r1(2,3,5,6,7) r2(2,3,5,6), of slot i 0 "ep\<lparr>ep_ring := Some ?r1\<rparr>"] by auto
  moreover have "xhci_triad_to_transfer_ring (ep_state s slot i) ep 0 = Some (Some Ep_Ring)"
    using Q(5,6) by (simp add: xhci_triad_to_transfer_ring_def ring_of_ref_def get_ring_def)
  moreover have "(if 0 < xu_transfer_buffer_length urb then 3 else 2) = (of_nat n :: u32)" by (simp add: n_def)
  ultimately show ?thesis
    using assms(2,3) r1(1) r2(1,4) by (auto simp: ehub_xhci_queue_ctrl_tx_def get_ring_def Let_def)
qed

theorem queue_ctrl_tx_correct_witness:
  "\<exists>r' t ts. ehub_xhci_queue_ctrl_tx quiet_env demo_params 1 demo_xfer_urb 1 2 demo_ep demo_blocks = Some ((0, demo_ep\<lparr>ep_ring := Some r'\<rparr>), t)
     \<and> queued demo_ep_ring r' 7 ts \<and> map trb_type ts = [TRB_SETUP, TRB_DATA, TRB_STATUS]"
proof -
  let ?req = "\<lparr>bRequestType = 0x80, bRequest = 6, wValue = 0x100, wIndex = 0, wLength = 512\<rparr>"
  have f: "xu_stream_id demo_xfer_urb = 0" "xu_setup_packet demo_xfer_urb = Some ?req" "unat (xu_transfer_buffer_length demo_xfer_urb) < 2 ^ 17"
    "0 < xu_transfer_buffer_length demo_xfer_urb" "xu_id demo_xfer_urb = 7" by (simp_all add: demo_xfer_urb_def)
  have "can_queue quiet_env demo_params 1 1 2 3 demo_ep_ring demo_ep demo_blocks" by (rule demo_can_queue) simp
  from queue_ctrl_tx_correct [OF this f(1-3)]
  obtain r' t ts where r': "ehub_xhci_queue_ctrl_tx quiet_env demo_params 1 demo_xfer_urb 1 2 demo_ep demo_blocks
      = Some ((0, demo_ep\<lparr>ep_ring := Some r'\<rparr>), t)" "queued demo_ep_ring r' (xu_id demo_xfer_urb) ts" "ctrl_td demo_xfer_urb ?req ts"
    by blast
  moreover have "map trb_type ts = [TRB_SETUP, TRB_DATA, TRB_STATUS]" using r'(3) f(4) by (simp only: ctrl_td_def if_True)
  ultimately show ?thesis unfolding f(5) by (intro exI [of _ r'] exI [of _ t] exI [of _ ts]) simp
qed

end
