(* ===== verification/Xhci_Ring_Walk.thy ===== *)
theory Xhci_Ring_Walk
  imports Xhci_Event Xhci_Transfer_Props
begin

text \<open>
  Walking the TRBs of a ring: the loops of the event and cancellation handlers follow the
  positions of the ring, so that what they visit can be stated in terms of the slots in use.
\<close>

section \<open>Positions in order\<close>

lemma walk_distinct: "0 < N \<Longrightarrow> k \<le> N \<Longrightarrow> distinct (walk N p k)"
proof (induction k)
  case (Suc k)
  have "(p + k) mod N \<notin> set (walk N p k)"
  proof
    assume "(p + k) mod N \<in> set (walk N p k)"
    then obtain i where i: "i < k" "(p + i) mod N = (p + k) mod N" by (auto simp: walk_def)
    then have "(p + i + (k - i)) mod N = (p + i) mod N" by simp
    then have "N dvd k - i" by (metis add_diff_cancel_left' le_add1 mod_eq_dvd_iff_nat)
    then show False using i(1) Suc.prems by (auto dest: dvd_imp_le)
  qed
  then show ?case using Suc by (simp add: walk_snoc)
qed simp

lemma slots_distinct:
  assumes "0 < n"
  shows "distinct (slots n e d)"
  unfolding slots_def using assms dist_less [of "64 * n"] by (intro distinct_filter walk_distinct) (auto intro: less_imp_le)

lemma ring_slots_distinct: "ring_inv F r \<Longrightarrow> distinct (ring_slots r)"
  using ring_invD(1) [of F r] slots_distinct by (auto simp: ring_slots_def view_def chain_ok_def)

lemma slots_walk:
  assumes "slots n e d \<noteq> []" and "e < 64 * n"
  shows "slots n e d = filter (\<lambda>p. p mod 64 \<noteq> 63) (walk (64 * n) d (dist (64 * n) d e))"
  using assms by (auto simp: slots_def hw_def split: if_splits)

text \<open>The slots before a given one are the slots on the way to it.\<close>

lemma takeWhile_walk:
  assumes "k < K" and "K \<le> N" and "0 < N" and "Q ((p + k) mod N)"
  shows "takeWhile (\<lambda>x. x \<noteq> (p + k) mod N) (filter Q (walk N p K)) = filter Q (walk N p k)"
    and "(p + k) mod N \<in> set (filter Q (walk N p K))"
proof -
  let ?e = "(p + k) mod N"
  have "walk N p (k + Suc (K - Suc k)) = walk N p k @ walk N ((p + k) mod N) (Suc (K - Suc k))" by (rule walk_add)
  then have w: "walk N p K = walk N p k @ ?e # walk N (Suc ?e mod N) (K - Suc k)" using assms(1) by (simp add: walk_Cons)
  have "?e \<notin> set (walk N p k)"
    using walk_distinct [OF assms(3,2), of p] unfolding w by simp
  then have "\<forall>x \<in> set (filter Q (walk N p k)). x \<noteq> ?e" by auto
  then show "takeWhile (\<lambda>x. x \<noteq> ?e) (filter Q (walk N p K)) = filter Q (walk N p k)"
    using assms(4) unfolding w filter_append by (subst takeWhile_append2) auto
  show "?e \<in> set (filter Q (walk N p K))" using assms(4) unfolding w by simp
qed

lemma slots_before:
  assumes e: "e < 64 * n" and d: "d < 64 * n" and p: "p \<in> set (slots n e d)"
  shows "takeWhile (\<lambda>x. x \<noteq> p) (slots n e d) = filter (\<lambda>x. x mod 64 \<noteq> 63) (walk (64 * n) d (dist (64 * n) d p))"
    and "dist (64 * n) d p < dist (64 * n) d e"
proof -
  let ?N = "64 * n" and ?K = "dist (64 * n) d e"
  have s: "slots n e d = filter (\<lambda>x. x mod 64 \<noteq> 63) (walk ?N d ?K)" using slots_walk [OF _ e, of d] p by (cases "slots n e d") auto
  have N: "0 < ?N" using d by simp
  obtain k where k: "k < ?K" "p = (d + k) mod ?N" "p mod 64 \<noteq> 63" using p unfolding s by (auto simp: walk_def)
  have K: "?K < ?N" using dist_less [OF N] .
  have dk: "dist ?N d p = k"
  proof -
    have "k < ?N" using k K by simp
    then show ?thesis using k(2) d N by (auto simp: dist_def mod_if)
  qed
  show "dist ?N d p < ?K" using k dk by simp
  show "takeWhile (\<lambda>x. x \<noteq> p) (slots n e d) = filter (\<lambda>x. x mod 64 \<noteq> 63) (walk ?N d (dist ?N d p))"
    using takeWhile_walk(1) [OF k(1) less_imp_le [OF K] N, of "\<lambda>x. x mod 64 \<noteq> 63" d] k(2,3) unfolding s dk by simp
qed

section \<open>The consumer's side of a ring\<close>

text \<open>What the consumer does leaves the producer, the TRBs and the TDs alone.\<close>

definition deq_frame :: "xhci_ring \<Rightarrow> xhci_ring \<Rightarrow> bool" where
  "deq_frame r r' \<longleftrightarrow> td_list r' = td_list r \<and> segs r' = segs r \<and> enqueue r' = enqueue r \<and> enq_seg r' = enq_seg r
     \<and> ring_type r' = ring_type r \<and> first_seg r' = first_seg r \<and> num_segs r' = num_segs r
     \<and> last_td_was_short r' = last_td_was_short r \<and> cache_enqueue r' = cache_enqueue r \<and> cache_enq_seg r' = cache_enq_seg r"

lemma deq_frame_refl [simp]: "deq_frame r r"
  by (simp add: deq_frame_def)

lemma deq_frame_trans: "deq_frame r r' \<Longrightarrow> deq_frame r' r'' \<Longrightarrow> deq_frame r r''"
  by (simp add: deq_frame_def)

lemma inc_deq_loop_frame:
  assumes "inc_deq_loop r = Some r'"
  shows "deq_frame r r'"
proof (rule inc_deq_loop.raw_induct [OF _ assms])
  fix rec r r'
  assume IH: "\<And>r r'. rec r = Some r' \<Longrightarrow> deq_frame r r'"
    and step: "do {
     l \<leftarrow> last_trb r (deq_seg r) (dequeue r);
     r1 \<leftarrow> (if l then do {
               tog \<leftarrow> last_trb_on_last_seg r (deq_seg r) (dequeue r);
               g \<leftarrow> next_of (segs r) (deq_seg r);
               Some (r\<lparr>cycle_state := (if ring_type r = TYPE_EVENT \<and> tog then cycle_state r XOR 1 else cycle_state r),
                       deq_seg := g, dequeue := 0\<rparr>)
             } else Some (r\<lparr>dequeue := Suc (dequeue r)\<rparr>));
     l1 \<leftarrow> last_trb r1 (deq_seg r1) (dequeue r1);
     if l1 then rec r1 else Some r1 } = Some r'"
  from step obtain l r1 l1 where l: "last_trb r (deq_seg r) (dequeue r) = Some l"
    and r1: "(if l then do {
               tog \<leftarrow> last_trb_on_last_seg r (deq_seg r) (dequeue r);
               g \<leftarrow> next_of (segs r) (deq_seg r);
               Some (r\<lparr>cycle_state := (if ring_type r = TYPE_EVENT \<and> tog then cycle_state r XOR 1 else cycle_state r),
                       deq_seg := g, dequeue := 0\<rparr>)
             } else Some (r\<lparr>dequeue := Suc (dequeue r)\<rparr>)) = Some r1"
    and l1: "last_trb r1 (deq_seg r1) (dequeue r1) = Some l1" and res: "(if l1 then rec r1 else Some r1) = Some r'"
    by (auto elim!: bind_eq_SomeE)
  have "deq_frame r r1" using r1 by (auto simp: deq_frame_def split: if_splits elim!: bind_eq_SomeE)
  moreover have "deq_frame r1 r'" using res IH by (auto split: if_splits)
  ultimately show "deq_frame r r'" by (rule deq_frame_trans)
qed

lemma inc_deq_frame: "inc_deq r = Some r' \<Longrightarrow> deq_frame r r'"
  by (auto simp: inc_deq_def deq_frame_def elim!: bind_eq_SomeE dest!: inc_deq_loop_frame)

lemma position_inj:
  assumes "ring_inv F r" and "p < 64 * length (ring_order r)" and "q < 64 * length (ring_order r)"
  shows "position r p = position r q \<longleftrightarrow> p = q"
  using ring_invD(1) [OF assms(1)] seg_at_inj [OF _ assms(2,3)] by (auto simp: position_def view_def)

lemma at_pos_position: "ring_inv F r \<Longrightarrow> at_pos r = position r (deq_pos r)"
  using ring_invD(1) [of F r] by (simp add: at_pos_def position_def view_def)

lemma slot_bound: "ring_inv F r \<Longrightarrow> p \<in> set (ring_slots r) \<Longrightarrow> p < 64 * length (ring_order r) \<and> p mod 64 \<noteq> 63"
  using ring_slots_bound ring_invD(1) [of F r] by (auto simp: view_def chain_ok_def)

text \<open>Retiring the TRBs of a TD.\<close>

lemma deq_past_ok:
  assumes "ring_inv {} r" and "ring_slots r = ps @ rest" and "ps \<noteq> []"
  shows "\<exists>r'. deq_past (position r (last ps)) r = Some r' \<and> ring_inv {} r' \<and> ring_slots r' = rest
     \<and> ring_order r' = ring_order r \<and> deq_frame r r'"
  using assms
proof (induction ps arbitrary: r)
  case (Cons p ps)
  obtain r1 where r1: "inc_deq r = Some r1" "ring_inv {} r1" "ring_slots r1 = ps @ rest" "ring_order r1 = ring_order r"
    "p = deq_pos r" using ring_deq [OF Cons.prems(1), of p "ps @ rest"] Cons.prems(2) by auto
  have at: "at_pos r = position r p" using at_pos_position [OF Cons.prems(1)] r1(5) by simp
  have fr: "deq_frame r r1" by (rule inc_deq_frame [OF r1(1)])
  show ?case
  proof (cases "ps = []")
    case True
    then show ?thesis using r1 at fr by (subst deq_past.simps) simp
  next
    case False
    have "last ps \<in> set (ring_slots r)" "p \<in> set (ring_slots r)" "p \<noteq> last ps"
      using Cons.prems(2) False ring_slots_distinct [OF Cons.prems(1)] by auto
    then have "at_pos r \<noteq> position r (last ps)"
      using at position_inj [OF Cons.prems(1)] slot_bound [OF Cons.prems(1)] by simp
    moreover have "position r1 = position r" using r1(4) by (simp add: position_def fun_eq_iff)
    ultimately have "deq_past (position r (last (p # ps))) r = deq_past (position r1 (last ps)) r1"
      using False r1(1) by (subst deq_past.simps) simp
    then show ?thesis using Cons.IH [OF r1(2,3) False] r1(4) fr deq_frame_trans [OF fr] by metis
  qed
qed simp

section \<open>Lengths\<close>

lemma next_trb_position:
  assumes "ring_inv F r" and "p < 64 * length (ring_order r)"
  shows "next_trb r (position r p) = Some (position r (Suc p mod (64 * length (ring_order r))))"
proof -
  let ?ss = "ring_order r" and ?N = "64 * length (ring_order r)"
  have V: "ring_type r \<noteq> TYPE_EVENT" "chain_ok (segs r) ?ss" "links_ok (segs r) ?ss"
    using ring_invD(1) [OF assms(1)] by (auto simp: view_def)
  have l: "last_trb r (seg_at ?ss p) (p mod 64) = Some (p mod 64 = 63)" using last_trb_pos(1) [OF V assms(2)] .
  show ?thesis
  proof (cases "p mod 64 = 63")
    case True
    then show ?thesis
      using l next_of_pos [OF V(2) assms(2) True] next_pos_link(2) [OF True assms(2)] by (simp add: next_trb_def position_def)
  next
    case False
    note n = next_pos_same [OF False assms(2)]
    then show ?thesis using l False by (simp add: next_trb_def position_def seg_at_def)
  qed
qed

lemma read_trb_position:
  assumes "ring_inv F r" and "p < 64 * length (ring_order r)"
  shows "read_trb (segs r) (fst (position r p)) (snd (position r p)) = Some (trb_of (segs r) (ring_order r) p)"
  using ring_invD(1) [OF assms(1)] read_trb_pos [OF _ assms(2)] by (auto simp: position_def view_def)

text \<open>The bytes of a TRB that count: link and no-op TRBs have none.\<close>

definition data_len :: "xhci_ring \<Rightarrow> nat \<Rightarrow> u32" where
  "data_len r p = (let t = trb_of (segs r) (ring_order r) p in
     if TRB_TYPE_NOOP (control t) \<or> TRB_TYPE_LINK (control t) then 0 else TRB_LEN (field2 t))"

lemma sum_trbs_walk:
  assumes inv: "ring_inv F r" and q: "q < 64 * length (ring_order r)" and "p < 64 * length (ring_order r)"
    and "k = dist (64 * length (ring_order r)) p q"
  shows "sum_trbs r (position r q) (position r p) acc
     = Some (acc + sum_list (map (data_len r) (walk (64 * length (ring_order r)) p k)))"
  using assms(3,4)
proof (induction k arbitrary: p acc)
  case 0
  then have "p = q" using dist_0_iff [of p _ q] q by simp
  then show ?case by (subst sum_trbs.simps) simp
next
  case (Suc k)
  let ?N = "64 * length (ring_order r)"
  have "p \<noteq> q" using Suc.prems dist_self by force
  then have ne: "position r p \<noteq> position r q" and k: "k = dist ?N (Suc p mod ?N) q"
    using position_inj [OF inv Suc.prems(1) q] dist_Suc_left [OF Suc.prems(1) q] Suc.prems(2) by auto
  have "sum_trbs r (position r q) (position r p) acc = sum_trbs r (position r q) (position r (Suc p mod ?N)) (acc + data_len r p)"
    using ne read_trb_position [OF inv Suc.prems(1)] next_trb_position [OF inv Suc.prems(1)]
    by (subst sum_trbs.simps) (simp add: data_len_def Let_def)
  also have "\<dots> = Some (acc + data_len r p + sum_list (map (data_len r) (walk ?N (Suc p mod ?N) k)))"
    using Suc.IH [OF Suc_mod_less [OF Suc.prems(1)] k] .
  finally show ?case using Suc.prems(1) by (simp add: walk_Cons add.assoc)
qed

lemma sum_links_out:
  assumes "ring_inv F r" and "set ps \<subseteq> {..<64 * length (ring_order r)}"
  shows "sum_list (map (data_len r) (filter (\<lambda>p. p mod 64 \<noteq> 63) ps)) = sum_list (map (data_len r) ps)"
proof -
  have "data_len r p = 0" if "p < 64 * length (ring_order r)" "p mod 64 = 63" for p
    using ring_invD(1) [OF assms(1)] that by (auto simp: view_def links_ok_def data_len_def Let_def)
  then show ?thesis using assms(2) by (induction ps) auto
qed

lemma sum_trbs_ok:
  assumes inv: "ring_inv F r" and q: "q \<in> set (ring_slots r)"
  shows "sum_trbs r (position r q) (at_pos r) 0
     = Some (sum_list (map (data_len r) (takeWhile (\<lambda>p. p \<noteq> q) (ring_slots r))))"
proof -
  let ?N = "64 * length (ring_order r)" and ?d = "deq_pos r"
  have b: "enq_pos r < ?N" "?d < ?N" using ring_invD(1) [OF inv] by (auto simp: view_def)
  have qb: "q < ?N" using slot_bound [OF inv q] by simp
  have "takeWhile (\<lambda>p. p \<noteq> q) (ring_slots r) = filter (\<lambda>p. p mod 64 \<noteq> 63) (walk ?N ?d (dist ?N ?d q))"
    using slots_before(1) [OF b] q by (simp add: ring_slots_def)
  moreover have "set (walk ?N ?d (dist ?N ?d q)) \<subseteq> {..<?N}" using b by (intro set_walk) (cases "ring_order r", auto)
  ultimately show ?thesis
    using sum_trbs_walk [OF inv qb b(2) refl, of 0] at_pos_position [OF inv] sum_links_out [OF inv] by simp
qed

section \<open>The TRB of an event\<close>

text \<open>The segments occupy disjoint ranges of bus addresses, none at address 0.\<close>

definition seg_dma :: "xhci_ring \<Rightarrow> nat \<Rightarrow> nat" where
  "seg_dma r j = unat (dma (the (segs r (ring_order r ! j))))"

definition dma_ok :: "xhci_ring \<Rightarrow> bool" where
  "dma_ok r \<longleftrightarrow> (\<forall>j < length (ring_order r). 0 < seg_dma r j \<and> seg_dma r j + 1024 \<le> 2 ^ 64)
     \<and> (\<forall>i < length (ring_order r). \<forall>j < length (ring_order r). i \<noteq> j \<longrightarrow>
          seg_dma r i + 1024 \<le> seg_dma r j \<or> seg_dma r j + 1024 \<le> seg_dma r i)"

definition trb_addr :: "xhci_ring \<Rightarrow> nat \<Rightarrow> nat" where
  "trb_addr r p = seg_dma r (p div 64) + 16 * (p mod 64)"

lemma trb_dma:
  assumes inv: "ring_inv F r" and dma: "dma_ok r" and p: "p < 64 * length (ring_order r)" and i: "i < 64"
  shows "unat (ehub_xhci_trb_virt_to_dma (segs r (seg_at (ring_order r) p)) (Some i)) = seg_dma r (p div 64) + 16 * i"
proof -
  obtain sg where sg: "segs r (seg_at (ring_order r) p) = Some sg"
    using chain_seg [OF _ p, of "segs r"] ring_invD(1) [OF inv] by (auto simp: view_def)
  then have d: "unat (dma sg) = seg_dma r (p div 64)" by (simp add: seg_dma_def seg_at_def)
  moreover have "seg_dma r (p div 64) + 1024 \<le> 2 ^ 64" using dma pos_index [OF p] by (simp add: dma_ok_def)
  moreover have "unat (of_nat (i * 16) :: u64) = 16 * i" using i by (simp add: unat_of_nat del: of_nat_mult)
  ultimately have "unat (dma sg + of_nat (i * 16)) = seg_dma r (p div 64) + 16 * i" using i by (simp add: unat_word_ariths)
  then show ?thesis using sg i by (simp add: ehub_xhci_trb_virt_to_dma_def TRBS_PER_SEGMENT_def)
qed

text \<open>An address tells the segment and the index of its TRB.\<close>

lemma addr_range:
  assumes dma: "dma_ok r" and p: "p < 64 * length (ring_order r)" and c: "c < 64 * length (ring_order r)"
    and i: "i < 64" and j: "j < 64"
  shows "seg_dma r (c div 64) + 16 * i \<le> trb_addr r p \<and> trb_addr r p \<le> seg_dma r (c div 64) + 16 * j
     \<longleftrightarrow> p div 64 = c div 64 \<and> i \<le> p mod 64 \<and> p mod 64 \<le> j"
proof (cases "p div 64 = c div 64")
  case False
  have "seg_dma r (p div 64) + 1024 \<le> seg_dma r (c div 64) \<or> seg_dma r (c div 64) + 1024 \<le> seg_dma r (p div 64)"
    using dma pos_index [OF p] pos_index [OF c] False by (simp add: dma_ok_def)
  moreover have "p mod 64 < 64" by simp
  ultimately show ?thesis using False i j unfolding trb_addr_def by linarith
qed (auto simp: trb_addr_def)

lemma dist_add:
  assumes "p < N" and "e < N" and "t \<le> dist N p e"
  shows "dist N p e = t + dist N ((p + t) mod N) e"
  using assms(3)
proof (induction t)
  case (Suc t)
  then have t: "dist N p e = t + dist N ((p + t) mod N) e" by simp
  have "(p + t) mod N < N" "(p + t) mod N \<noteq> e" using assms(1,2) t Suc.prems by auto
  from dist_Suc_left [OF this(1) assms(2) this(2)] have "dist N ((p + t) mod N) e = Suc (dist N ((p + Suc t) mod N) e)"
    by (simp add: mod_Suc_eq)
  then show ?case using t by simp
qed (use assms in simp)

lemma pos_split: "p = 64 * (p div 64) + p mod (64 :: nat)" and pos_mod: "p mod 64 < (64 :: nat)"
  by simp_all

text \<open>The rest of a segment: its positions are the next ones.\<close>

lemma dist_in_segment:
  assumes c: "c < 64 * n" and p: "p < 64 * n"
  shows "dist (64 * n) c p < 64 - c mod 64 \<longleftrightarrow> p div 64 = c div 64 \<and> c mod 64 \<le> p mod 64"
proof -
  have le: "64 * (c div 64) + 64 \<le> 64 * n" using pos_index [of c "replicate n ()"] c by simp
  show ?thesis
  proof (cases "c \<le> p")
    case True
    then have d: "dist (64 * n) c p = p - c" using dist_eq [OF c p] by simp
    have "p - c < 64 - c mod 64 \<longleftrightarrow> p < 64 * (c div 64) + 64"
      using True pos_split [of c] pos_mod [of c] by linarith
    also have "\<dots> \<longleftrightarrow> p div 64 = c div 64"
    proof
      assume "p < 64 * (c div 64) + 64"
      then have "p div 64 < Suc (c div 64)" by (intro less_mult_imp_div_less) simp
      moreover have "c div 64 \<le> p div 64" using True by (rule div_le_mono)
      ultimately show "p div 64 = c div 64" by simp
    next
      assume "p div 64 = c div 64"
      then show "p < 64 * (c div 64) + 64" using pos_split [of p] pos_mod [of p] by linarith
    qed
    finally show ?thesis using d True pos_split [of p] pos_split [of c] by (metis add_le_cancel_left)
  next
    case False
    then have d: "dist (64 * n) c p = p + 64 * n - c" using dist_eq [OF c p] by simp
    have "\<not> p + 64 * n - c < 64 - c mod 64" using le pos_split [of c] pos_mod [of c] c by linarith
    moreover have "\<not> (p div 64 = c div 64 \<and> c mod 64 \<le> p mod 64)" using False pos_split [of p] pos_split [of c] by linarith
    ultimately show ?thesis using d by simp
  qed
qed

lemma dist_le_segment:
  assumes c: "c < 64 * n" and p: "p < 64 * n" and q: "q < 64 * n" and qc: "q div 64 = c div 64" "c mod 64 \<le> q mod 64"
  shows "p div 64 = c div 64 \<and> c mod 64 \<le> p mod 64 \<and> p mod 64 \<le> q mod 64 \<longleftrightarrow> dist (64 * n) c p \<le> dist (64 * n) c q"
proof (cases "p div 64 = c div 64 \<and> c mod 64 \<le> p mod 64")
  case True
  then have "c \<le> p" "c \<le> q" using qc pos_split [of c] pos_split [of p] pos_split [of q] by linarith+
  then have "dist (64 * n) c p = p - c" "dist (64 * n) c q = q - c" using dist_eq [OF c p] dist_eq [OF c q] by simp_all
  moreover have "p - c \<le> q - c \<longleftrightarrow> p mod 64 \<le> q mod 64"
    using True qc pos_split [of c] pos_split [of p] pos_split [of q] by linarith
  ultimately show ?thesis using True by simp
next
  case False
  then have "\<not> dist (64 * n) c p < 64 - c mod 64" using dist_in_segment [OF c p] by simp
  moreover have "dist (64 * n) c q < 64 - c mod 64" using dist_in_segment [OF c q] qc by simp
  ultimately show ?thesis using False by auto
qed

lemma same_ring_segment:
  assumes "ring_inv F r" and "x < 64 * length (ring_order r)" and "y < 64 * length (ring_order r)"
  shows "seg_at (ring_order r) x = seg_at (ring_order r) y \<longleftrightarrow> x div 64 = y div 64"
  using ring_invD(1) [OF assms(1)] pos_index [OF assms(2)] pos_index [OF assms(3)]
  by (simp add: seg_at_def view_def chain_ok_def nth_eq_iff_index_eq)

lemma addr_nonzero:
  assumes "dma_ok r" and "c < 64 * length (ring_order r)" and "unat b = trb_addr r c"
  shows "b \<noteq> 0"
  using assms pos_index [OF assms(2)] by (auto simp: dma_ok_def trb_addr_def)

text \<open>The search in the segment where the TD ends.\<close>

lemma trb_in_td_here:
  assumes inv: "ring_inv F r" and dma: "dma_ok r" and q: "q < 64 * length (ring_order r)" and p: "p < 64 * length (ring_order r)"
    and a: "unat a = trb_addr r p" and c: "c < 64 * length (ring_order r)" "unat b = trb_addr r c"
    and qc: "q div 64 = c div 64" "c \<le> q"
  shows "trb_in_td_loop (segs r) g (position r q) a (seg_at (ring_order r) c) b
       = Some (if dist (64 * length (ring_order r)) c p \<le> dist (64 * length (ring_order r)) c q
               then Some (seg_at (ring_order r) p) else None)"
proof -
  let ?ss = "ring_order r" and ?N = "64 * length (ring_order r)"
  obtain sg where sg: "segs r (seg_at ?ss c) = Some sg"
    using chain_seg [OF _ c(1), of "segs r"] ring_invD(1) [OF inv] by (auto simp: view_def)
  have le: "c mod 64 \<le> q mod 64" using qc pos_split [of c] pos_split [of q] by linarith
  let ?e = "ehub_xhci_trb_virt_to_dma (Some sg) (Some (q mod 64))"
  have e: "unat ?e = seg_dma r (c div 64) + 16 * (q mod 64)" using trb_dma [OF inv dma c(1), of "q mod 64"] sg by simp
  have "0 < seg_dma r (c div 64)" using dma pos_index [OF c(1)] by (simp add: dma_ok_def)
  then have pos: "0 < ?e" using e by (simp add: word_less_nat_alt)
  have be: "b \<le> ?e" using e c(2) le by (simp add: word_le_nat_alt trb_addr_def)
  have "b \<le> a \<and> a \<le> ?e \<longleftrightarrow> p div 64 = c div 64 \<and> c mod 64 \<le> p mod 64 \<and> p mod 64 \<le> q mod 64"
    using addr_range [OF dma p c(1), of "c mod 64" "q mod 64"] a e c(2) by (simp add: word_le_nat_alt trb_addr_def)
  also have "\<dots> \<longleftrightarrow> dist ?N c p \<le> dist ?N c q" by (rule dist_le_segment [OF c(1) p q qc(1) le])
  finally have range: "b \<le> a \<and> a \<le> ?e \<longleftrightarrow> dist ?N c p \<le> dist ?N c q" .
  have "p div 64 = c div 64" if "dist ?N c p \<le> dist ?N c q" using dist_le_segment [OF c(1) p q qc(1) le] that by blast
  then have "seg_at ?ss p = seg_at ?ss c" if "dist ?N c p \<le> dist ?N c q" using same_ring_segment [OF inv p c(1)] that by blast
  moreover have "fst (position r q) = seg_at ?ss c" "snd (position r q) = q mod 64"
    using same_ring_segment [OF inv q c(1)] qc by (simp_all add: position_def)
  ultimately show ?thesis using addr_nonzero [OF dma c] sg pos be range by (subst trb_in_td_loop.simps) (simp add: Let_def)
qed

text \<open>The search in a segment before the one where the TD ends.\<close>

lemma next_segment:
  assumes "c < 64 * n"
  shows "(c + (64 - c mod 64)) mod (64 * n) = 64 * (Suc (c div 64) mod n)"
proof -
  have "c + (64 - c mod 64) = 64 * Suc (c div 64)"
    unfolding mult_Suc_right using pos_split [of c] pos_mod [of c] by linarith
  then show ?thesis by (simp only: mult_mod_right)
qed

lemma trb_in_td_step:
  assumes inv: "ring_inv F r" and dma: "dma_ok r" and q: "q < 64 * length (ring_order r)" and p: "p < 64 * length (ring_order r)"
    and a: "unat a = trb_addr r p" and c: "c < 64 * length (ring_order r)" "unat b = trb_addr r c"
    and ne: "q div 64 \<noteq> c div 64" and c': "c' = (c + (64 - c mod 64)) mod (64 * length (ring_order r))"
    and g: "seg_at (ring_order r) c' \<noteq> g"
  obtains b' where "unat b' = trb_addr r c'"
    and "trb_in_td_loop (segs r) g (position r q) a (seg_at (ring_order r) c) b
       = (if dist (64 * length (ring_order r)) c p < 64 - c mod 64 then Some (Some (seg_at (ring_order r) p))
          else trb_in_td_loop (segs r) g (position r q) a (seg_at (ring_order r) c') b')"
proof -
  let ?ss = "ring_order r" and ?N = "64 * length (ring_order r)"
  have ch: "chain_ok (segs r) ?ss" using ring_invD(1) [OF inv] by (auto simp: view_def)
  have c'64: "c' = 64 * (Suc (c div 64) mod length ?ss)" using c' next_segment [OF c(1)] by simp
  have c'N: "c' < ?N" using c' c(1) by (metis mod_less_divisor not_less_zero neq0_conv)
  obtain sg where sg: "segs r (seg_at ?ss c) = Some sg" "next_seg sg = Some (?ss ! (Suc (c div 64) mod length ?ss))"
    using chain_seg [OF ch c(1)] by blast
  then have nx: "next_seg sg = Some (seg_at ?ss c')" using c'64 by (simp add: seg_at_def)
  obtain nsg where nsg: "segs r (seg_at ?ss c') = Some nsg" using chain_seg [OF ch c'N] by blast
  let ?e = "ehub_xhci_trb_virt_to_dma (Some sg) (Some 63)" and ?b = "ehub_xhci_trb_virt_to_dma (Some nsg) (Some 0)"
  have e: "unat ?e = seg_dma r (c div 64) + 16 * 63" using trb_dma [OF inv dma c(1), of 63] sg by simp
  have "b \<le> a \<and> a \<le> ?e \<longleftrightarrow> p div 64 = c div 64 \<and> c mod 64 \<le> p mod 64"
    using addr_range [OF dma p c(1), of "c mod 64" 63] a e c(2) pos_mod [of p] by (auto simp: word_le_nat_alt trb_addr_def)
  also have "\<dots> \<longleftrightarrow> dist ?N c p < 64 - c mod 64" using dist_in_segment [OF c(1) p] by simp
  finally have part: "b \<le> a \<and> a \<le> ?e \<longleftrightarrow> dist ?N c p < 64 - c mod 64" .
  have seg: "seg_at ?ss p = seg_at ?ss c" if "dist ?N c p < 64 - c mod 64"
    using that dist_in_segment [OF c(1) p] same_ring_segment [OF inv p c(1)] by simp
  have "unat ?b = trb_addr r c'" using trb_dma [OF inv dma c'N, of 0] nsg c'64 by (simp add: trb_addr_def)
  moreover have "trb_in_td_loop (segs r) g (position r q) a (seg_at ?ss c) b
       = (if dist ?N c p < 64 - c mod 64 then Some (Some (seg_at ?ss p))
          else trb_in_td_loop (segs r) g (position r q) a (seg_at ?ss c') ?b)"
    using addr_nonzero [OF dma c] sg(1) nx nsg g ne same_ring_segment [OF inv q c(1)] part seg
    by (subst trb_in_td_loop.simps) (simp add: position_def TRBS_PER_SEGMENT_def)
  ultimately show thesis by (rule that)
qed

text \<open>The search, from a position \<open>c\<close> where it enters a segment. At most \<open>m\<close> segments follow up to
  the one with the end of the TD, and none of them is the segment the search began in.\<close>

lemma trb_in_td_walk:
  assumes inv: "ring_inv F r" and dma: "dma_ok r" and q: "q < 64 * length (ring_order r)" and p: "p < 64 * length (ring_order r)"
    and a: "unat a = trb_addr r p"
  shows "c < 64 * length (ring_order r) \<Longrightarrow> dist (length (ring_order r)) (c div 64) (q div 64) = m \<Longrightarrow> (m = 0 \<Longrightarrow> c \<le> q)
     \<Longrightarrow> j0 < length (ring_order r) \<Longrightarrow> dist (length (ring_order r)) j0 (c div 64) + m < length (ring_order r)
     \<Longrightarrow> unat b = trb_addr r c
     \<Longrightarrow> trb_in_td_loop (segs r) (ring_order r ! j0) (position r q) a (seg_at (ring_order r) c) b
       = Some (if dist (64 * length (ring_order r)) c p \<le> dist (64 * length (ring_order r)) c q
               then Some (seg_at (ring_order r) p) else None)"
proof (induction m arbitrary: c b)
  case (0 c b)
  have "q div 64 = c div 64" using 0(2) dist_0_iff pos_index [OF 0(1)] pos_index [OF q] by metis
  then show ?case using trb_in_td_here [OF inv dma q p a 0(1,6)] 0(3) by simp
next
  case (Suc m c b)
  let ?ss = "ring_order r" and ?n = "length (ring_order r)" and ?N = "64 * length (ring_order r)"
  let ?t = "64 - c mod 64" and ?j = "Suc (c div 64) mod length (ring_order r)"
  define c' where "c' = (c + ?t) mod ?N"
  have cd: "c div 64 < ?n" and qd: "q div 64 < ?n" using pos_index [OF Suc(2)] pos_index [OF q] .
  have ne: "c div 64 \<noteq> q div 64" using Suc(3) cd by auto
  have jn: "?j < ?n" using cd by (cases "ring_order r") simp_all
  have j: "c' = 64 * ?j" using next_segment [OF Suc(2)] by (simp add: c'_def)
  then have c': "c' < ?N" "c' div 64 = ?j" "seg_at ?ss c' = ?ss ! ?j" using jn by (simp_all add: seg_at_def)
  have m: "dist ?n ?j (q div 64) = m" using dist_Suc_left [OF cd qd ne] Suc(3) by simp
  have j0: "dist ?n j0 ?j = Suc (dist ?n j0 (c div 64))" using dist_Suc_right [OF Suc(5) cd] Suc(6) by simp
  then have "?j \<noteq> j0" using dist_self [OF Suc(5)] by force
  moreover have "distinct ?ss" using ring_invD(1) [OF inv] by (simp add: view_def chain_ok_def)
  ultimately have g: "seg_at ?ss c' \<noteq> ?ss ! j0" using c'(3) jn Suc(5) by (simp add: nth_eq_iff_index_eq)
  obtain b' where b': "unat b' = trb_addr r c'" "trb_in_td_loop (segs r) (?ss ! j0) (position r q) a (seg_at ?ss c) b
       = (if dist ?N c p < ?t then Some (Some (seg_at ?ss p))
          else trb_in_td_loop (segs r) (?ss ! j0) (position r q) a (seg_at ?ss c') b')"
    using trb_in_td_step [OF inv dma q p a Suc(2,7) ne [symmetric] c'_def g] .
  have qt: "?t \<le> dist ?N c q" using dist_in_segment [OF Suc(2) q] ne by (simp add: not_less [symmetric])
  have "c' \<le> q" if "m = 0" using that m dist_0_iff [OF jn qd] j pos_split [of q] by (metis le_add1)
  then have IH: "trb_in_td_loop (segs r) (?ss ! j0) (position r q) a (seg_at ?ss c') b'
     = Some (if dist ?N c' p \<le> dist ?N c' q then Some (seg_at ?ss p) else None)"
    using Suc(1) [OF c'(1) _ _ Suc(5) _ b'(1)] m j0 Suc(6) c'(2) by simp
  have "dist ?N c p \<le> dist ?N c q \<longleftrightarrow> dist ?N c' p \<le> dist ?N c' q" if "\<not> dist ?N c p < ?t"
  proof -
    have "dist ?N c p = ?t + dist ?N c' p" using dist_add [OF Suc(2) p, of ?t] that unfolding c'_def by linarith
    moreover have "dist ?N c q = ?t + dist ?N c' q" using dist_add [OF Suc(2) q qt] unfolding c'_def .
    ultimately show ?thesis by (simp only: add_le_cancel_left)
  qed
  moreover have "dist ?N c p \<le> dist ?N c q" if "dist ?N c p < ?t" using that qt by linarith
  ultimately show ?case using b'(2) IH by (cases "dist ?N c p < ?t") simp_all
qed

lemma trb_in_td_ok:
  assumes inv: "ring_inv F r" and dma: "dma_ok r" and p: "p < 64 * length (ring_order r)" and q: "q < 64 * length (ring_order r)"
    and a: "unat a = trb_addr r p" and fwd: "q div 64 = deq_pos r div 64 \<Longrightarrow> deq_pos r \<le> q"
  shows "ehub_trb_in_td (segs r) (at_pos r) (position r q) a
     = Some (if dist (64 * length (ring_order r)) (deq_pos r) p \<le> dist (64 * length (ring_order r)) (deq_pos r) q
             then Some (seg_at (ring_order r) p) else None)"
proof -
  let ?d = "deq_pos r" and ?n = "length (ring_order r)"
  have d: "?d < 64 * ?n" using ring_invD(1) [OF inv] by (simp add: view_def)
  have dn: "?d div 64 < ?n" and qn: "q div 64 < ?n" using pos_index [OF d] pos_index [OF q] .
  have at: "at_pos r = (seg_at (ring_order r) ?d, ?d mod 64)" using at_pos_position [OF inv] by (simp add: position_def)
  have b: "unat (ehub_xhci_trb_virt_to_dma (segs r (seg_at (ring_order r) ?d)) (Some (?d mod 64))) = trb_addr r ?d"
    using trb_dma [OF inv dma d, of "?d mod 64"] by (simp add: trb_addr_def)
  have "?d \<le> q" if "dist ?n (?d div 64) (q div 64) = 0" using that dist_0_iff [OF dn qn] fwd by simp
  moreover have "dist ?n (?d div 64) (?d div 64) + dist ?n (?d div 64) (q div 64) < ?n" using dn dist_less [of ?n] by (cases ?n) auto
  ultimately show ?thesis
    using trb_in_td_walk [OF inv dma q p a d refl _ dn _ b] at by (simp add: ehub_trb_in_td_def seg_at_def)
qed

section \<open>Changing TRBs in place\<close>

text \<open>A change that leaves alone whose turn a TRB is and which TRBs are links keeps the ring.\<close>

definition harmless :: "(xhci_generic_trb \<Rightarrow> xhci_generic_trb) \<Rightarrow> xhci_generic_trb \<Rightarrow> bool" where
  "harmless f t \<longleftrightarrow> cyc (f t) = cyc t \<and> TRB_TYPE_LINK (control (f t)) = TRB_TYPE_LINK (control t)
     \<and> (TRB_TYPE_LINK (control t) \<longrightarrow> control (f t) AND LINK_TOGGLE = control t AND LINK_TOGGLE)"

definition changed :: "xhci_ring \<Rightarrow> nat set \<Rightarrow> (xhci_generic_trb \<Rightarrow> xhci_generic_trb) \<Rightarrow> xhci_ring \<Rightarrow> bool" where
  "changed r A f r' \<longleftrightarrow> (\<exists>h. r' = r\<lparr>segs := h\<rparr> \<and> same_shape (segs r) h) \<and> ring_order r' = ring_order r \<and> ring_slots r' = ring_slots r
     \<and> (\<forall>q < 64 * length (ring_order r). trb_of (segs r') (ring_order r) q
          = (if q \<in> A then f (trb_of (segs r) (ring_order r) q) else trb_of (segs r) (ring_order r) q))"

lemma same_shape_trans: "same_shape h h' \<Longrightarrow> same_shape h' h'' \<Longrightarrow> same_shape h h''"
  by (simp add: same_shape_def)

lemma changed_trans:
  assumes "changed r A f r'" and "changed r' B f r''" and "A \<inter> B = {}"
  shows "changed r (A \<union> B) f r''"
proof -
  obtain h where h: "r' = r\<lparr>segs := h\<rparr>" "same_shape (segs r) h" using assms(1) by (auto simp: changed_def)
  obtain h' where h': "r'' = r'\<lparr>segs := h'\<rparr>" "same_shape (segs r') h'" using assms(2) by (auto simp: changed_def)
  have "r'' = r\<lparr>segs := h'\<rparr>" "same_shape (segs r) h'" using h h' by (auto intro: same_shape_trans)
  then show ?thesis using assms unfolding changed_def by auto
qed

lemma ring_map_trb:
  assumes inv: "ring_inv F r" and p: "p < 64 * length (ring_order r)" and f: "harmless f (trb_of (segs r) (ring_order r) p)"
  obtains h where "map_trb f (fst (position r p)) (snd (position r p)) (segs r) = Some h" and "ring_inv F (r\<lparr>segs := h\<rparr>)"
    and "changed r {p} f (r\<lparr>segs := h\<rparr>)"
proof -
  let ?ss = "ring_order r"
  note v = ring_invD(1) [OF inv]
  have V: "chain_ok (segs r) ?ss" "links_ok (segs r) ?ss" "owned (segs r) ?ss (cycle_state r) F (enq_pos r)"
    using v by (auto simp: view_def)
  obtain h where h: "map_trb f (seg_at ?ss p) (p mod 64) (segs r) = Some h" "chain_ok h ?ss"
    "\<And>q. q < 64 * length ?ss \<Longrightarrow> trb_of h ?ss q = (if q = p then f (trb_of (segs r) ?ss p) else trb_of (segs r) ?ss q)"
    "same_shape (segs r) h" using map_trb_pos [OF V(1) p] by metis
  let ?r = "r\<lparr>segs := h\<rparr>"
  have ord: "ring_order ?r = ?ss" using collect_segs_cong [OF same_shape_next [OF h(4)]] by (simp add: ring_order_def)
  have same: "cyc (trb_of h ?ss q) = cyc (trb_of (segs r) ?ss q)
      \<and> TRB_TYPE_LINK (control (trb_of h ?ss q)) = TRB_TYPE_LINK (control (trb_of (segs r) ?ss q))
      \<and> (TRB_TYPE_LINK (control (trb_of (segs r) ?ss q)) \<longrightarrow>
           control (trb_of h ?ss q) AND LINK_TOGGLE = control (trb_of (segs r) ?ss q) AND LINK_TOGGLE)"
    if "q < 64 * length ?ss" for q using h(3) [OF that] f by (simp add: harmless_def)
  have "links_ok h ?ss"
    unfolding links_ok_def
  proof (intro allI impI)
    fix q assume q: "q < 64 * length ?ss"
    have l: "TRB_TYPE_LINK (control (trb_of (segs r) ?ss q)) \<longleftrightarrow> q mod 64 = 63"
      "q mod 64 = 63 \<longrightarrow> (control (trb_of (segs r) ?ss q) AND LINK_TOGGLE \<noteq> 0 \<longleftrightarrow> Suc q = 64 * length ?ss)"
      using V(2) q unfolding links_ok_def by blast+
    then show "(TRB_TYPE_LINK (control (trb_of h ?ss q)) \<longleftrightarrow> q mod 64 = 63)
       \<and> (q mod 64 = 63 \<longrightarrow> (control (trb_of h ?ss q) AND LINK_TOGGLE \<noteq> 0 \<longleftrightarrow> Suc q = 64 * length ?ss))"
      using same [OF q] by simp
  qed
  moreover have "owned h ?ss (cycle_state r) F (enq_pos r)" using V(3) same by (simp add: owned_def)
  ultimately have "view F ?r ?ss (enq_pos r) (deq_pos r)" using v h(2) by (simp add: view_def)
  note r' = ring_invI [OF this ord _ ring_invD(2) [OF inv] inv]
  have "ring_inv F ?r" "ring_slots ?r = ring_slots r" using r'(1,2) ring_invD(3) [OF inv] by (simp_all add: ring_slots_def)
  moreover have "changed r {p} f ?r" unfolding changed_def using h(3,4) ord calculation(2) by auto
  ultimately show thesis using that h(1) by (simp add: position_def)
qed

lemma noop_inner: "trb_to_noop False inner = trb_to_noop False False"
  by (simp add: trb_to_noop_def fun_eq_iff)

lemma noop_harmless: "harmless (trb_to_noop False inner) t"
proof -
  have 1: "bit ((x AND NOT TRB_CHAIN) :: u32) 0 = bit x 0" "(x AND NOT TRB_CHAIN) AND LINK_TOGGLE = x AND LINK_TOGGLE"
    "TRB_TYPE_LINK (x AND NOT TRB_CHAIN) = TRB_TYPE_LINK x" for x
    using masked_update [of TRB_CHAIN LINK_TOGGLE 0 0 x] masked_update [of TRB_CHAIN TRB_TYPE_BITMASK 0 0 x]
    by (simp_all add: trb_consts bit_simps TRB_TYPE_LINK_def)
  have 2: "bit (((x AND TRB_CYCLE) OR TRB_TYPE TRB_TR_NOOP) :: u32) 0 = bit x 0" for x
    by (simp add: trb_consts TRB_TYPE_def TRB_TR_NOOP_def bit_simps)
  have 3: "\<not> TRB_TYPE_LINK ((x AND TRB_CYCLE) OR TRB_TYPE TRB_TR_NOOP)" for x
  proof -
    have "bit ((x AND TRB_CYCLE) OR TRB_TYPE TRB_TR_NOOP) 13" by (simp add: trb_consts TRB_TYPE_def TRB_TR_NOOP_def bit_simps)
    moreover have "\<not> bit y 13" if "TRB_TYPE_LINK y" for y
    proof -
      have "bit (y AND TRB_TYPE_BITMASK) 13 = bit (TRB_TYPE TRB_LINK) 13" using that by (simp add: TRB_TYPE_LINK_def)
      then show ?thesis by (simp add: trb_consts TRB_TYPE_def TRB_LINK_def bit_simps)
    qed
    ultimately show ?thesis by blast
  qed
  show ?thesis using 1 2 3 by (cases t) (simp add: harmless_def trb_to_noop_def Let_def)
qed

text \<open>A cancelled TD: on all its positions the TRBs are no-ops, everything else is as it was.\<close>

lemma td_to_noop_walk:
  assumes "ring_inv F r" and "e < 64 * length (ring_order r)" and "s < 64 * length (ring_order r)"
    and "k = dist (64 * length (ring_order r)) s e"
  shows "\<exists>r'. td_to_noop_loop False first_pos (position r e) (position r s) r = Some r' \<and> ring_inv F r'
     \<and> changed r (set (walk (64 * length (ring_order r)) s (Suc k))) (trb_to_noop False False) r'"
  using assms
proof (induction k arbitrary: r s)
  case (0 r s)
  obtain h where "map_trb (trb_to_noop False False) (fst (position r s)) (snd (position r s)) (segs r) = Some h"
    "ring_inv F (r\<lparr>segs := h\<rparr>)" "changed r {s} (trb_to_noop False False) (r\<lparr>segs := h\<rparr>)"
    using ring_map_trb [OF 0(1,3) noop_harmless] by metis
  moreover have "s = e" using 0 dist_0_iff by metis
  ultimately show ?case using 0(3) noop_inner by (subst td_to_noop_loop.simps) (simp add: walk_Cons)
next
  case (Suc k r s)
  let ?N = "64 * length (ring_order r)" and ?s = "Suc s mod (64 * length (ring_order r))"
  obtain h where h: "map_trb (trb_to_noop False False) (fst (position r s)) (snd (position r s)) (segs r) = Some h"
    "ring_inv F (r\<lparr>segs := h\<rparr>)" "changed r {s} (trb_to_noop False False) (r\<lparr>segs := h\<rparr>)"
    using ring_map_trb [OF Suc(2,4) noop_harmless] by metis
  let ?r = "r\<lparr>segs := h\<rparr>"
  have ord: "ring_order ?r = ring_order r" using h(3) by (simp add: changed_def)
  then have pos: "position ?r = position r" by (simp add: position_def fun_eq_iff)
  have se: "s \<noteq> e" using Suc(4,5) dist_self by force
  have s': "?s < ?N" using Suc_mod_less [OF Suc(4)] .
  have k: "k = dist ?N ?s e" using dist_Suc_left [OF Suc(4,3) se] Suc(5) by simp
  obtain r' where r': "td_to_noop_loop False first_pos (position r e) (position r ?s) ?r = Some r'" "ring_inv F r'"
    "changed ?r (set (walk ?N ?s (Suc k))) (trb_to_noop False False) r'"
    using Suc(1) [OF h(2), of ?s] ord pos Suc(3) s' k by auto
  have N: "0 < ?N" using Suc(4) by linarith
  then have "Suc (Suc k) \<le> ?N" using dist_less [of ?N s e] Suc(5) by simp
  then have "s \<notin> set (walk ?N ?s (Suc k))"
    using walk_distinct [OF N, of "Suc (Suc k)" s] Suc(4) unfolding walk_Cons [of ?N s] by simp
  then have "changed r (set (walk ?N s (Suc (Suc k)))) (trb_to_noop False False) r'"
    using changed_trans [OF h(3) r'(3)] Suc(4) unfolding walk_Cons [of ?N s] by simp
  moreover have "position r s \<noteq> position r e" using position_inj [OF Suc(2,4,3)] se by simp
  moreover have "next_trb ?r (position r s) = Some (position r ?s)"
    using next_trb_position [OF h(2), of s] ord pos Suc(4) by simp
  ultimately show ?case
    using h(1) r'(1,2) noop_inner [of "position r s \<noteq> first_pos"] by (subst td_to_noop_loop.simps) (simp add: Let_def)
qed
section \<open>A ring with two TDs\<close>

definition busy_segment :: "xhci_generic_trb list \<Rightarrow> nat \<Rightarrow> u64 \<Rightarrow> u32 \<Rightarrow> xhci_segment" where
  "busy_segment ts nx a link = \<lparr>trbs = ts @ replicate (63 - length ts) (TRB 0 0 0 0) @ [TRB 0 0 0 link], next_seg = Some nx, dma = a,
     EhubCacheBlock = None\<rparr>"

definition busy_trbs :: "xhci_generic_trb list" where
  "busy_trbs = [TRB 0 0 512 0x411, TRB 0 0 256 0x421, TRB 0 0 64 0x421]"

definition busy_tds :: "xhci_td list" where
  "busy_tds = [\<lparr>td_urb = 7, start_seg = 0, end_seg = 0, first_trb = 0, td_last_trb = 1, urb_length_set = False\<rparr>,
     \<lparr>td_urb = 8, start_seg = 0, end_seg = 0, first_trb = 2, td_last_trb = 2, urb_length_set = False\<rparr>]"

definition busy_ring :: xhci_ring where
  "busy_ring = (zero_ring 2 TYPE_BULK)\<lparr>last_seg := 1, cycle_state := 1, num_trbs_free := 122, enqueue := 3, td_list := busy_tds,
     segs := [0 \<mapsto> busy_segment busy_trbs 1 0x1000 0x1800, 1 \<mapsto> busy_segment [] 0 0x2000 0x1802]\<rparr>"

lemma busy_fields [simp]:
  "enq_seg busy_ring = 0" "enqueue busy_ring = 3" "deq_seg busy_ring = 0" "dequeue busy_ring = 0" "cycle_state busy_ring = 1"
  "ring_type busy_ring = TYPE_BULK" "num_trbs_free busy_ring = 122" "num_segs busy_ring = 2" "first_seg busy_ring = 0"
  "td_list busy_ring = busy_tds" "last_td_was_short busy_ring = False"
  by (simp_all add: busy_ring_def zero_ring_def)

lemma busy_chain: "chain_ok (segs busy_ring) [0, 1]"
  by (simp add: chain_ok_def busy_ring_def busy_segment_def busy_trbs_def numeral_2_eq_2 All_less_Suc)

lemma busy_order [simp]: "ring_order busy_ring = [0, 1]"
  by (rule ring_order_chain [OF busy_chain]) simp_all

lemma busy_trb:
  assumes "p < 128"
  shows "trb_of (segs busy_ring) [0, 1] p
     = (if p < 3 then busy_trbs ! p else TRB 0 0 0 (if p mod 64 = 63 then if p < 64 then 0x1800 else 0x1802 else 0))"
proof -
  have 1: "(ts @ replicate (63 - length ts) (TRB 0 0 0 0) @ [TRB 0 0 0 x]) ! i
      = (if i < length ts then ts ! i else TRB 0 0 0 (if i = 63 then x else 0))" if "i < 64" "length ts \<le> 3" for i x ts
    using that by (auto simp: nth_append less_Suc_eq)
  have "length busy_trbs = 3" by (simp add: busy_trbs_def)
  note 2 = 1 [of "p mod 64" busy_trbs] 1 [of "p mod 64" "[]"]
  show ?thesis
  proof (cases "p < 64")
    case True
    then show ?thesis using 2(1) \<open>length busy_trbs = 3\<close> by (simp add: trb_of_def busy_ring_def busy_segment_def)
  next
    case False
    then have "p div 64 = 1" using assms by linarith
    then show ?thesis using 2(2) False by (simp add: trb_of_def busy_ring_def busy_segment_def)
  qed
qed

lemma busy_pos [simp]: "enq_pos busy_ring = 3" "deq_pos busy_ring = 0"
  by (simp_all add: enq_pos_def deq_pos_def pos_of_def)

lemma busy_slots [simp]: "ring_slots busy_ring = [0, 1, 2]"
  by (simp add: ring_slots_def slots_def hw_def walk_def dist_def upt_rec)

lemma busy_inv: "ring_inv {} busy_ring"
proof -
  have l: "links_ok (segs busy_ring) [0, 1]"
    unfolding links_ok_def
  proof (intro allI impI)
    fix p :: nat assume "p < 64 * length [0, 1 :: nat]"
    then have p: "p < 128" by simp
    have "p mod 64 = 63 \<Longrightarrow> (p < 64) = (Suc p \<noteq> 128)" using p by (cases "p < 64") (auto simp: le_mod_geq)
    then show "TRB_TYPE_LINK (control (trb_of (segs busy_ring) [0, 1] p)) = (p mod 64 = 63)
       \<and> (p mod 64 = 63 \<longrightarrow> (control (trb_of (segs busy_ring) [0, 1] p) AND LINK_TOGGLE \<noteq> 0) = (Suc p = 64 * length [0, 1 :: nat]))"
      unfolding busy_trb [OF p] by (auto simp: field_defs LINK_TOGGLE_def busy_trbs_def less_Suc_eq numeral_3_eq_3)
  qed
  have o: "owned (segs busy_ring) [0, 1] 1 {} 3"
    by (auto simp: owned_def busy_trb [simplified] busy_trbs_def less_Suc_eq numeral_3_eq_3)
  have "view {} busy_ring [0, 1] 3 0" using busy_chain l o by (simp add: view_def seg_at_def)
  then show ?thesis by (simp add: ring_inv_def)
qed

lemma busy_seg_dma: "seg_dma busy_ring 0 = 0x1000" "seg_dma busy_ring (Suc 0) = 0x2000"
  unfolding seg_dma_def busy_order by (simp_all add: busy_ring_def busy_segment_def)

lemma busy_dma: "dma_ok busy_ring"
  by (simp add: dma_ok_def busy_seg_dma All_less_Suc)

lemma busy_addr [simp]: "p < 64 \<Longrightarrow> trb_addr busy_ring p = 0x1000 + 16 * p"
  by (simp add: trb_addr_def busy_seg_dma)

end
