(* ===== verification/Xhci_Cancel_Props.thy ===== *)
theory Xhci_Cancel_Props
  imports Xhci_Ring_Walk
begin

text \<open>
  Cancellation: where the controller is sent after a cancelled TD, what is left of the TD on the
  ring, and what happens to the URBs.
\<close>

section \<open>The new dequeue position\<close>

lemma addr_inj:
  assumes "dma_ok r" and "p < 64 * length (ring_order r)" and "x < 64 * length (ring_order r)" and "trb_addr r p = trb_addr r x"
  shows "p = x"
proof -
  have "p div 64 = x div 64 \<and> x mod 64 \<le> p mod 64 \<and> p mod 64 \<le> x mod 64"
    using addr_range [OF assms(1-3), of "x mod 64" "x mod 64"] assms(4) by (simp add: trb_addr_def)
  then show ?thesis using pos_split [of p] pos_split [of x] by linarith
qed

text \<open>What a step of the search does to the cycle state the controller has.\<close>

lemma cycle_step:
  assumes inv: "ring_inv F r" and p: "p < 64 * length (ring_order r)" "p \<noteq> enq_pos r"
    and t: "t = trb_of (segs r) (ring_order r) p" and cs: "cs = of_bool (hc_cycle r (enq_pos r) p)"
  shows "(if TRB_TYPE_LINK (control t) \<and> control t AND LINK_TOGGLE \<noteq> 0 then cs XOR 1 else cs)
     = (of_bool (hc_cycle r (enq_pos r) (Suc p mod (64 * length (ring_order r)))) :: u32)"
proof -
  let ?N = "64 * length (ring_order r)"
  have V: "links_ok (segs r) (ring_order r)" "enq_pos r < ?N" using ring_invD(1) [OF inv] by (auto simp: view_def)
  have "TRB_TYPE_LINK (control t) \<longleftrightarrow> p mod 64 = 63"
    "p mod 64 = 63 \<longrightarrow> (control t AND LINK_TOGGLE \<noteq> 0 \<longleftrightarrow> Suc p = ?N)" using V(1) p t unfolding links_ok_def by blast+
  moreover have "p mod 64 = 63" if "Suc p = ?N"
  proof (rule ccontr)
    assume "p mod 64 \<noteq> 63"
    from next_pos_same(1) [OF this p(1)] show False using that by simp
  qed
  ultimately have "TRB_TYPE_LINK (control t) \<and> control t AND LINK_TOGGLE \<noteq> 0 \<longleftrightarrow> Suc p = ?N" by blast
  moreover have "hc_cycle r (enq_pos r) (Suc p mod ?N) = (hc_cycle r (enq_pos r) p \<noteq> (Suc p = ?N))"
    using p V(2) by (auto simp: hc_cycle_def Suc_mod)
  ultimately show ?thesis using cs by (auto simp: of_bool_def)
qed

text \<open>The search: \<open>x\<close> is where the controller stands, \<open>l\<close> the last TRB of the TD, and the search
  began at \<open>d\<close>.\<close>

abbreviation (input) ring_size :: "xhci_ring \<Rightarrow> nat" where "ring_size r \<equiv> 64 * length (ring_order r)"

abbreviation (input) dequeue_search where
  "dequeue_search r hwd l d \<equiv> find_dequeue_loop r hwd (position r l) (Some (position r d))"

abbreviation cycle_at :: "xhci_ring \<Rightarrow> nat \<Rightarrow> u32" where "cycle_at r p \<equiv> of_bool (hc_cycle r (enq_pos r) p)"

definition search_ok :: "xhci_ring \<Rightarrow> nat \<Rightarrow> nat \<Rightarrow> nat \<Rightarrow> u64 \<Rightarrow> u64 \<Rightarrow> bool" where
  "search_ok r x l d hwd hw_addr \<longleftrightarrow> ring_inv {} r \<and> dma_ok r \<and> x < ring_size r \<and> l < ring_size r \<and> d < ring_size r
     \<and> hwd AND NOT 0xf = hw_addr \<and> unat hw_addr = trb_addr r x"

lemma search_okD:
  assumes "search_ok r x l d hwd hw_addr"
  shows "ring_inv {} r" and "dma_ok r" and "x < ring_size r" and "l < ring_size r" and "d < ring_size r"
    and "hwd AND NOT 0xf = hw_addr" and "unat hw_addr = trb_addr r x" and "enq_pos r < ring_size r"
  using assms ring_invD(1) [of "{}" r] by (auto simp: search_ok_def view_def)

lemma search_hit:
  assumes ds: "search_ok r x l d hwd hw_addr"
    and a: "p < ring_size r"
  obtains sg where "segs r (fst (position r p)) = Some sg"
    and "ehub_xhci_trb_virt_to_dma (Some sg) (Some (snd (position r p))) = hw_addr \<longleftrightarrow> p = x"
proof -
  obtain sg where sg: "segs r (seg_at (ring_order r) p) = Some sg"
    using chain_seg [OF _ a, of "segs r"] ring_invD(1) [OF search_okD(1) [OF ds]] by (auto simp: view_def)
  have "unat (ehub_xhci_trb_virt_to_dma (Some sg) (Some (p mod 64))) = trb_addr r p"
    using trb_dma [OF search_okD(1) [OF ds] search_okD(2) [OF ds] a, of "p mod 64"] sg by (simp add: trb_addr_def)
  then have "ehub_xhci_trb_virt_to_dma (Some sg) (Some (p mod 64)) = hw_addr \<longleftrightarrow> trb_addr r p = trb_addr r x"
    using search_okD(7) [OF ds] by (metis word_eq_iff_unsigned)
  also have "\<dots> \<longleftrightarrow> p = x" using addr_inj [OF search_okD(2) [OF ds] a search_okD(3) [OF ds]] by blast
  finally show thesis using that sg by (simp add: position_def)
qed

text \<open>One step.\<close>

lemma search_step:
  assumes ds: "search_ok r x l d hwd hw_addr"
    and p: "p < ring_size r" "p \<noteq> enq_pos r" and wrap: "Suc p mod ring_size r \<noteq> d"
  shows "dequeue_search r hwd l d cf lf (position r p) cs =
    (if \<not> cf \<and> p = x \<and> lf then Some (Some (position r p), cs)
     else let cf1 = cf \<or> p = x; lf1 = lf \<or> p = l;
              t = trb_of (segs r) (ring_order r) p;
              cs1 = (if cf1 \<and> TRB_TYPE_LINK (control t) \<and> control t AND LINK_TOGGLE \<noteq> 0 then cs XOR 1 else cs) in
          if \<not> cf1 \<or> \<not> lf1 then dequeue_search r hwd l d cf1 lf1 (position r (Suc p mod ring_size r)) cs1
          else Some (Some (position r (Suc p mod ring_size r)), cs1))"
proof -
  obtain sg where sg: "segs r (fst (position r p)) = Some sg"
    "ehub_xhci_trb_virt_to_dma (Some sg) (Some (snd (position r p))) = hw_addr \<longleftrightarrow> p = x" using search_hit [OF ds p(1)] .
  have n: "position r d \<noteq> position r (Suc p mod ring_size r)"
    using position_inj [OF search_okD(1) [OF ds] search_okD(5) [OF ds] Suc_mod_less [OF p(1)]] wrap by simp
  have lp: "position r p = position r l \<longleftrightarrow> p = l" using position_inj [OF search_okD(1) [OF ds] p(1) search_okD(4) [OF ds]] .
  obtain hb lb where hb: "hb \<longleftrightarrow> p = x" and lb: "lb \<longleftrightarrow> p = l" by blast
  have f: "(ehub_xhci_trb_virt_to_dma (Some sg) (Some (snd (position r p))) = hw_addr) = hb" "(position r p = position r l) = lb"
    using sg(2) lp hb lb by simp_all
  have hwd': "hwd AND - 16 = hw_addr" using search_okD(6) [OF ds] by simp
  show ?thesis
    unfolding hb [symmetric] lb [symmetric]
    by (subst find_dequeue_loop.simps)
      (cases cf; cases hb; cases lf; simp add: Let_def hwd' f sg(1) n read_trb_position [OF search_okD(1) [OF ds] p(1)] next_trb_position [OF search_okD(1) [OF ds] p(1)])
qed

text \<open>The positions from \<open>d\<close>, where the search began, up to the producer.\<close>

definition between :: "xhci_ring \<Rightarrow> nat \<Rightarrow> nat \<Rightarrow> bool" where
  "between r d p \<longleftrightarrow> p < ring_size r \<and> dist (ring_size r) d p + dist (ring_size r) p (enq_pos r) = dist (ring_size r) d (enq_pos r)"

lemma between_next:
  assumes ds: "search_ok r x l d hwd hw_addr"
    and a: "between r d p" "p \<noteq> enq_pos r"
  shows "between r d (Suc p mod ring_size r)" and "Suc p mod ring_size r \<noteq> d" and "dist (ring_size r) p (enq_pos r) = Suc (dist (ring_size r) (Suc p mod ring_size r) (enq_pos r))"
proof -
  have p: "p < ring_size r" "dist (ring_size r) d p + dist (ring_size r) p (enq_pos r) = dist (ring_size r) d (enq_pos r)" using a(1) by (auto simp: between_def)
  show 1: "dist (ring_size r) p (enq_pos r) = Suc (dist (ring_size r) (Suc p mod ring_size r) (enq_pos r))" by (rule dist_Suc_left [OF p(1) search_okD(8) [OF ds] a(2)])
  have "dist (ring_size r) d (enq_pos r) < ring_size r" using search_okD(5) [OF ds] by (intro dist_less) linarith
  then have "Suc (dist (ring_size r) d p) < ring_size r" using p(2) 1 by linarith
  from dist_Suc_right [OF search_okD(5) [OF ds] p(1) this] have 2: "dist (ring_size r) d (Suc p mod ring_size r) = Suc (dist (ring_size r) d p)" .
  then show "Suc p mod ring_size r \<noteq> d" using dist_self [OF search_okD(5) [OF ds]] by force
  show "between r d (Suc p mod ring_size r)" unfolding between_def using Suc_mod_less [OF p(1)] 1 2 p(2) by linarith
qed

lemma search_between:
  assumes ds: "search_ok r x l d hwd hw_addr"
    and a: "between r d p" "p \<noteq> enq_pos r" "cf \<or> p = x \<Longrightarrow> cs = cycle_at r p"
  shows "dequeue_search r hwd l d cf lf (position r p) cs =
    (if \<not> cf \<and> p = x \<and> lf then Some (Some (position r p), cs)
     else let cs1 = (if cf \<or> p = x then cycle_at r (Suc p mod ring_size r) else cs) in
          if (cf \<or> p = x) \<and> (lf \<or> p = l) then Some (Some (position r (Suc p mod ring_size r)), cs1)
          else dequeue_search r hwd l d (cf \<or> p = x) (lf \<or> p = l) (position r (Suc p mod ring_size r)) cs1)"
proof -
  have p: "p < ring_size r" using a(1) by (simp add: between_def)
  note cs = cycle_step [OF search_okD(1) [OF ds] p a(2) refl, of cs]
  show ?thesis
    using search_step [OF ds p a(2) between_next(2) [OF ds a(1,2)], of cf lf cs] cs a(3)
    by (cases cf; cases "p = x") (auto simp: Let_def)
qed

lemma seek_last:
  assumes ds: "search_ok r x l d hwd hw_addr"
    and a: "between r d p" "dist (ring_size r) p l < dist (ring_size r) p (enq_pos r)" "k = dist (ring_size r) p l" "cs = cycle_at r p"
  shows "dequeue_search r hwd l d True False (position r p) cs = Some (Some (position r (Suc l mod ring_size r)), cycle_at r (Suc l mod ring_size r))"
  using a
proof (induction k arbitrary: p cs)
  case 0
  then have "p = l" "p \<noteq> enq_pos r" using dist_0_iff [OF _ search_okD(4) [OF ds], of p] dist_self [OF search_okD(8) [OF ds]] by (auto simp: between_def)
  then show ?case using search_between [OF ds 0(1), of True cs False] 0(4) by simp
next
  case (Suc k)
  have p: "p < ring_size r" "p \<noteq> enq_pos r" "p \<noteq> l" using Suc.prems dist_self [OF search_okD(8) [OF ds]] dist_self [OF search_okD(4) [OF ds]] by (auto simp: between_def)
  have "dist (ring_size r) p l = Suc (dist (ring_size r) (Suc p mod ring_size r) l)" by (rule dist_Suc_left [OF p(1) search_okD(4) [OF ds] p(3)])
  then show ?case
    using search_between [OF ds Suc.prems(1) p(2), of True cs False] Suc.IH [of "Suc p mod ring_size r"] between_next [OF ds Suc.prems(1) p(2)] Suc.prems p(3)
    by (simp add: Let_def)
qed

lemma found_hw:
  assumes ds: "search_ok r x l d hwd hw_addr"
  shows "dequeue_search r hwd l d False True (position r x) cs = Some (Some (position r x), cs)"
proof -
  obtain sg where "segs r (fst (position r x)) = Some sg"
    "ehub_xhci_trb_virt_to_dma (Some sg) (Some (snd (position r x))) = hw_addr \<longleftrightarrow> x = x" using search_hit [OF ds search_okD(3) [OF ds]] .
  moreover have "hwd AND - 16 = hw_addr" using search_okD(6) [OF ds] by simp
  ultimately show ?thesis by (subst find_dequeue_loop.simps) (simp add: Let_def)
qed

lemma seek_hw:
  assumes ds: "search_ok r x l d hwd hw_addr"
    and a: "between r d p" "dist (ring_size r) p x \<le> dist (ring_size r) p (enq_pos r)" "k = dist (ring_size r) p x"
  shows "dequeue_search r hwd l d False True (position r p) cs = Some (Some (position r x), cs)"
  using a
proof (induction k arbitrary: p)
  case 0
  then have "p = x" using dist_0_iff [OF _ search_okD(3) [OF ds], of p] by (auto simp: between_def)
  then show ?case using found_hw [OF ds] by simp
next
  case (Suc k)
  have p: "p < ring_size r" "p \<noteq> enq_pos r" "p \<noteq> x" using Suc.prems dist_self [OF search_okD(8) [OF ds]] dist_self [OF search_okD(3) [OF ds]] by (auto simp: between_def)
  have "dist (ring_size r) p x = Suc (dist (ring_size r) (Suc p mod ring_size r) x)" by (rule dist_Suc_left [OF p(1) search_okD(3) [OF ds] p(3)])
  then show ?case
    using search_between [OF ds Suc.prems(1) p(2), of False cs True] Suc.IH [of "Suc p mod ring_size r"] between_next [OF ds Suc.prems(1) p(2)] Suc.prems p(3)
    by (simp add: Let_def)
qed

lemma seek_both:
  assumes ds: "search_ok r x l d hwd hw_addr"
    and a: "between r d p" "dist (ring_size r) p x \<le> dist (ring_size r) p (enq_pos r)" "dist (ring_size r) p l < dist (ring_size r) p (enq_pos r)" "k = dist (ring_size r) p l" "res = (if dist (ring_size r) p x \<le> dist (ring_size r) p l then Suc l mod ring_size r else x)"
  shows "dequeue_search r hwd l d False False (position r p) (cycle_at r x) = Some (Some (position r res), cycle_at r res)"
  using a
proof (induction k arbitrary: p)
  case 0
  then have pl: "p = l" "p \<noteq> enq_pos r" using dist_0_iff [OF _ search_okD(4) [OF ds], of p] dist_self [OF search_okD(8) [OF ds]] by (auto simp: between_def)
  show ?case
  proof (cases "p = x")
    case True
    then show ?thesis using search_between [OF ds 0(1) pl(2), of False "cycle_at r x" False] pl 0(5) by simp
  next
    case False
    have "dist (ring_size r) p x = Suc (dist (ring_size r) (Suc p mod ring_size r) x)" using dist_Suc_left [OF _ search_okD(3) [OF ds] False] 0(1) by (simp add: between_def)
    then show ?thesis
      using search_between [OF ds 0(1) pl(2), of False "cycle_at r x" False] False pl 0(2,4,5) between_next [OF ds 0(1) pl(2)]
        seek_hw [OF ds, of "Suc p mod ring_size r" _ "cycle_at r x"] by (simp add: Let_def)
  qed
next
  case (Suc k)
  have p: "p < ring_size r" "p \<noteq> enq_pos r" "p \<noteq> l" using Suc.prems dist_self [OF search_okD(8) [OF ds]] dist_self [OF search_okD(4) [OF ds]] by (auto simp: between_def)
  have l: "dist (ring_size r) p l = Suc (dist (ring_size r) (Suc p mod ring_size r) l)" by (rule dist_Suc_left [OF p(1) search_okD(4) [OF ds] p(3)])
  note n = between_next [OF ds Suc.prems(1) p(2)]
  show ?case
  proof (cases "p = x")
    case True
    then show ?thesis
      using search_between [OF ds Suc.prems(1) p(2), of False "cycle_at r x" False] p(3) Suc.prems(3,5) n l
        seek_last [OF ds, of "Suc p mod ring_size r" _ "cycle_at r (Suc p mod ring_size r)"] dist_self [OF search_okD(3) [OF ds]] by (simp add: Let_def)
  next
    case False
    have x: "dist (ring_size r) p x = Suc (dist (ring_size r) (Suc p mod ring_size r) x)" by (rule dist_Suc_left [OF p(1) search_okD(3) [OF ds] False])
    then show ?thesis
      using search_between [OF ds Suc.prems(1) p(2), of False "cycle_at r x" False] p(3) False n l x Suc.prems Suc.IH [of "Suc p mod ring_size r"]
      by (simp add: Let_def)
  qed
qed

text \<open>The slots behind a given one are the slots on the way from it to the producer.\<close>

lemma slots_after:
  assumes e: "e < 64 * n" and d: "d < 64 * n" and p: "p \<in> set (slots n e d)"
  shows "tl (dropWhile (\<lambda>x. x \<noteq> p) (slots n e d))
     = filter (\<lambda>x. x mod 64 \<noteq> 63) (walk (64 * n) (Suc p mod (64 * n)) (dist (64 * n) (Suc p mod (64 * n)) e))"
proof -
  let ?N = "64 * n" and ?Q = "\<lambda>x :: nat. x mod 64 \<noteq> 63" and ?K = "dist (64 * n) d e" and ?j = "dist (64 * n) d p"
  have s: "slots n e d = filter ?Q (walk ?N d ?K)" using slots_walk [OF _ e, of d] p by (cases "slots n e d") auto
  have pN: "p < ?N" "?Q p" using p set_walk [of ?N d ?K] d unfolding s by auto
  have j: "?j < ?K" using slots_before(2) [OF e d p] .
  have at: "(d + ?j) mod ?N = p" by (rule walk_reaches [OF d pN(1)])
  have K: "?K = ?j + Suc (dist ?N (Suc p mod ?N) e)"
  proof -
    have "?K = ?j + dist ?N p e" using dist_add [OF d e less_imp_le [OF j]] at by simp
    moreover have "p \<noteq> e" using calculation j pN(1) by auto
    ultimately show ?thesis using dist_Suc_left [OF pN(1) e] by simp
  qed
  have w: "walk ?N d ?K = walk ?N d ?j @ p # walk ?N (Suc p mod ?N) (dist ?N (Suc p mod ?N) e)"
    unfolding K walk_add [of ?N d ?j] at walk_Cons using pN(1) by simp
  have "0 < ?N" "?K \<le> ?N" using d dist_less [of ?N d e] by simp_all
  then have "p \<notin> set (walk ?N d ?j)" using walk_distinct [of ?N ?K d] unfolding w by simp
  then have "dropWhile (\<lambda>x. x \<noteq> p) (slots n e d) = p # filter ?Q (walk ?N (Suc p mod ?N) (dist ?N (Suc p mod ?N) e))"
    unfolding s w using pN(2) by (simp add: dropWhile_append3) blast
  then show ?thesis by simp
qed

lemma find_new_dequeue_ok:
  assumes ep: "get_ep slot i c = Some ep" "ep_ring ep = Some r" "ep_state (hcd c) slot i AND EP_HAS_STREAMS = 0" "stream \<noteq> NOT 0"
    and inv: "ring_inv {} r" "dma_ok r" and hwd: "hw_dequeue_of slot i stream c = Some hwd"
    and td: "(end_seg td, td_last_trb td) = position r l" "l \<in> set (ring_slots r)"
    and x: "x < 64 * length (ring_order r)" "unat (hwd AND NOT 0xf) = trb_addr r x" "hwd AND 1 = of_bool (hc_cycle r (enq_pos r) x)"
    and inside: "dist (64 * length (ring_order r)) (deq_pos r) x \<le> dist (64 * length (ring_order r)) (deq_pos r) l"
  shows "ehub_xhci_find_new_dequeue_state slot i stream td st c
     = Some \<lparr>new_deq = Some (position r (Suc l mod (64 * length (ring_order r)))),
             new_cycle_state = of_bool (hc_cycle r (enq_pos r) (Suc l mod (64 * length (ring_order r))))\<rparr>"
proof -
  let ?N = "64 * length (ring_order r)" and ?d = "deq_pos r"
  have b: "enq_pos r < ?N" "?d < ?N" using ring_invD(1) [OF inv(1)] by (auto simp: view_def)
  have l: "l < ?N" using slot_bound [OF inv(1) td(2)] by simp
  have ok: "search_ok r x l ?d hwd (hwd AND NOT 0xf)" using inv x b l by (simp add: search_ok_def)
  have lE: "dist ?N ?d l < dist ?N ?d (enq_pos r)" using slots_before(2) [OF b] td(2) by (simp add: ring_slots_def)
  have "between r ?d ?d" using b by (simp add: between_def)
  moreover have "dist ?N ?d x \<le> dist ?N ?d (enq_pos r)" using inside lE by linarith
  ultimately have "find_dequeue_loop r hwd (position r l) (Some (position r ?d)) False False (position r ?d) (of_bool (hc_cycle r (enq_pos r) x))
     = Some (Some (position r (Suc l mod ?N)), of_bool (hc_cycle r (enq_pos r) (Suc l mod ?N)))"
    using seek_both [OF ok _ _ lE refl refl] inside by simp
  moreover have "ucast (hwd AND 1) = (of_bool (hc_cycle r (enq_pos r) x) :: u32)" unfolding x(3) by simp
  moreover have "xhci_triad_to_transfer_ring (ep_state (hcd c) slot i) ep stream = Some (Some Ep_Ring)"
    using ep by (simp add: xhci_triad_to_transfer_ring_def ring_of_ref_def get_ring_def)
  ultimately show ?thesis
    using ep hwd td(1) at_pos_position [OF inv(1)]
    by (simp add: ehub_xhci_find_new_dequeue_state_def get_ring_def at_pos_def)
qed

text \<open>C8. Moving past a cancelled TD. When the controller has stopped inside the TD, the dequeue
  pointer and cycle state that are found make it continue with exactly the TRBs behind the TD, in
  their order.\<close>

theorem find_new_dequeue_correct:
  assumes "get_ep slot i c = Some ep" "ep_ring ep = Some r" "ep_state (hcd c) slot i AND EP_HAS_STREAMS = 0" "stream \<noteq> NOT 0"
    and "ring_inv {} r" "dma_ok r" and "hw_dequeue_of slot i stream c = Some hwd"
    and "(end_seg td, td_last_trb td) = position r l" "l \<in> set (ring_slots r)"
    and "x < 64 * length (ring_order r)" "unat (hwd AND NOT 0xf) = trb_addr r x" "hwd AND 1 = of_bool (hc_cycle r (enq_pos r) x)"
    and "dist (64 * length (ring_order r)) (deq_pos r) x \<le> dist (64 * length (ring_order r)) (deq_pos r) l"
  shows "\<exists>pos cs. ehub_xhci_find_new_dequeue_state slot i stream td st c = Some \<lparr>new_deq = Some pos, new_cycle_state = cs\<rparr>
     \<and> hc_fetch (64 * length (ring_order r)) (segs r) pos (cs = 1)
       = Some (map (trb_of (segs r) (ring_order r)) (tl (dropWhile (\<lambda>p. p \<noteq> l) (ring_slots r))))"
proof -
  let ?N = "64 * length (ring_order r)" and ?E = "enq_pos r" and ?l = "Suc l mod (64 * length (ring_order r))"
  note v = ring_invD(1) [OF assms(5)]
  have b: "?E < ?N" "deq_pos r < ?N" using v by (auto simp: view_def)
  have l: "?l < ?N" using slot_bound [OF assms(5,9)] Suc_mod_less by blast
  have "dist ?N ?l ?E < ?N" using b by (intro dist_less) linarith
  from hc_fetch_view [OF v _ l this]
  have "hc_fetch ?N (segs r) (position r ?l) (hc_cycle r ?E ?l)
     = Some (map (trb_of (segs r) (ring_order r)) (filter (\<lambda>q. q mod 64 \<noteq> 63) (walk ?N ?l (dist ?N ?l ?E))))"
    by (simp add: takeWhile_all position_def)
  also have "filter (\<lambda>q. q mod 64 \<noteq> 63) (walk ?N ?l (dist ?N ?l ?E)) = tl (dropWhile (\<lambda>p. p \<noteq> l) (ring_slots r))"
    using slots_after [OF b] assms(9) by (simp add: ring_slots_def)
  finally show ?thesis using find_new_dequeue_ok [OF assms, of st] by simp
qed

section \<open>Cancelled TDs on the ring\<close>

text \<open>The positions of a TD: its slots are those on the way from the first to the last TRB.\<close>

lemma takeWhile_split: "x \<notin> set as \<Longrightarrow> takeWhile (\<lambda>y. y \<noteq> x) (as @ x # bs) = as"
  by (induction as) auto

lemma td_positions:
  assumes e: "e < 64 * n" and d: "d < 64 * n" and s: "slots n e d = as @ ps @ bs" and ps: "ps \<noteq> []"
  shows "filter (\<lambda>x. x mod 64 \<noteq> 63) (walk (64 * n) (hd ps) (Suc (dist (64 * n) (hd ps) (last ps)))) = ps"
proof -
  let ?N = "64 * n" and ?Q = "\<lambda>x :: nat. x mod 64 \<noteq> 63" and ?i = "dist (64 * n) d (hd ps)" and ?j = "dist (64 * n) d (last ps)"
  have dis: "distinct (as @ ps @ bs)" using slots_distinct [of n e d] d s by simp
  have m: "hd ps \<in> set (slots n e d)" "last ps \<in> set (slots n e d)" using ps s by auto
  then have b: "hd ps < ?N" "last ps < ?N" "?Q (last ps)" using set_walk [of ?N] d by (auto simp: slots_def)
  have "takeWhile (\<lambda>x. x \<noteq> hd ps) (slots n e d) = as" unfolding s using dis ps by (cases ps) (auto intro!: takeWhile_split)
  then have i: "as = filter ?Q (walk ?N d ?i)" using slots_before(1) [OF e d m(1)] by simp
  have eq: "as @ ps @ bs = (as @ butlast ps) @ last ps # bs" using ps by simp
  have nin: "last ps \<notin> set (as @ butlast ps)" using dis unfolding eq by auto
  have "takeWhile (\<lambda>x. x \<noteq> last ps) (slots n e d) = as @ butlast ps"
    unfolding s eq by (rule takeWhile_split [OF nin])
  then have j: "as @ butlast ps = filter ?Q (walk ?N d ?j)" using slots_before(1) [OF e d m(2)] by simp
  have ij: "?i \<le> ?j"
  proof (rule ccontr)
    assume "\<not> ?i \<le> ?j"
    then have "last ps \<in> set (walk ?N d ?i)" using walk_reaches [OF d b(2)] by (auto simp: walk_def image_iff intro: bexI [of _ ?j])
    then have "last ps \<in> set as" using b(3) by (simp add: i)
    then show False using dis ps by auto
  qed
  then have k: "?j = ?i + dist ?N (hd ps) (last ps)" using dist_add [OF d b(2)] walk_reaches [OF d b(1)] by metis
  have "as @ butlast ps = as @ filter ?Q (walk ?N (hd ps) (dist ?N (hd ps) (last ps)))"
    using j unfolding k walk_add [of ?N d ?i] walk_reaches [OF d b(1)] filter_append i [symmetric] .
  then have "filter ?Q (walk ?N (hd ps) (dist ?N (hd ps) (last ps))) = butlast ps" by simp
  then show ?thesis using ps b(3) walk_reaches [OF b(1,2)] by (simp add: walk_snoc)
qed

definition noop_trb :: xhci_generic_trb where
  "noop_trb = TRB 0 0 0 (TRB_TYPE TRB_TR_NOOP)"

lemma clean_noop: "\<not> TRB_TYPE_LINK (control t) \<Longrightarrow> clean (trb_to_noop False False t) = noop_trb"
proof -
  assume "\<not> TRB_TYPE_LINK (control t)"
  moreover have "((control t AND TRB_CYCLE) OR TRB_TYPE TRB_TR_NOOP) AND NOT TRB_CYCLE = TRB_TYPE TRB_TR_NOOP"
  proof (rule bit_word_eqI)
    fix n
    show "bit (((control t AND TRB_CYCLE) OR TRB_TYPE TRB_TR_NOOP) AND NOT TRB_CYCLE) n = bit (TRB_TYPE TRB_TR_NOOP) n" if "n < LENGTH(32)"
      using that by (cases n) (auto simp: bit_simps trb_consts TRB_TYPE_def TRB_TR_NOOP_def bit_1_iff)
  qed
  ultimately show ?thesis by (simp add: trb_to_noop_def clean_def noop_trb_def)
qed

lemma td_to_noop_ok:
  assumes inv: "ring_inv {} r" and s: "ring_slots r = as @ ps @ bs" and ps: "ps \<noteq> []" and td: "td_at r u ps td"
  shows "\<exists>r'. td_to_noop td False r = Some r' \<and> ring_inv {} r' \<and> ring_order r' = ring_order r \<and> ring_slots r' = ring_slots r
     \<and> (\<exists>h. r' = r\<lparr>segs := h\<rparr>) \<and> (\<forall>q \<in> set (as @ bs). trb_of (segs r') (ring_order r) q = trb_of (segs r) (ring_order r) q)
     \<and> (\<forall>q \<in> set ps. clean (trb_of (segs r') (ring_order r) q) = noop_trb)"
proof -
  let ?N = "64 * length (ring_order r)" and ?A = "set (walk (64 * length (ring_order r)) (hd ps) (Suc (dist (64 * length (ring_order r)) (hd ps) (last ps))))"
  have b: "enq_pos r < ?N" "deq_pos r < ?N" "links_ok (segs r) (ring_order r)" using ring_invD(1) [OF inv] by (auto simp: view_def)
  have m: "q < ?N" "q mod 64 \<noteq> 63" if "q \<in> set (as @ ps @ bs)" for q using slot_bound [OF inv, of q] that s by simp_all
  have f: "filter (\<lambda>x. x mod 64 \<noteq> 63) (walk ?N (hd ps) (Suc (dist ?N (hd ps) (last ps)))) = ps"
    using td_positions [OF b(1,2), of as ps bs] s ps by (simp add: ring_slots_def)
  have A: "q \<in> ?A \<longleftrightarrow> q \<in> set ps" if "q \<in> set (as @ ps @ bs)" for q
  proof -
    have "q \<in> ?A \<longleftrightarrow> q \<in> set (filter (\<lambda>x. x mod 64 \<noteq> 63) (walk ?N (hd ps) (Suc (dist ?N (hd ps) (last ps)))))" using m(2) [OF that] by simp
    then show ?thesis unfolding f .
  qed
  have hb: "last ps < ?N" "hd ps < ?N" using m(1) [of "last ps"] m(1) [of "hd ps"] ps by simp_all
  obtain r' where r': "td_to_noop_loop False (position r (hd ps)) (position r (last ps)) (position r (hd ps)) r = Some r'"
    "ring_inv {} r'" "changed r ?A (trb_to_noop False False) r'"
    using td_to_noop_walk [OF inv hb refl] by metis
  have tr: "trb_of (segs r') (ring_order r) q = (if q \<in> set ps then trb_to_noop False False (trb_of (segs r) (ring_order r) q)
      else trb_of (segs r) (ring_order r) q)" if "q \<in> set (as @ ps @ bs)" for q
    using r'(3) m(1) [OF that] A [OF that] by (simp add: changed_def)
  have "distinct (as @ ps @ bs)" using ring_slots_distinct [OF inv] s by simp
  then have 1: "\<forall>q \<in> set (as @ bs). trb_of (segs r') (ring_order r) q = trb_of (segs r) (ring_order r) q" using tr by auto
  have "\<not> TRB_TYPE_LINK (control (trb_of (segs r) (ring_order r) q))" if "q \<in> set ps" for q
    using b(3) m [of q] that by (simp add: links_ok_def)
  then have 2: "\<forall>q \<in> set ps. clean (trb_of (segs r') (ring_order r) q) = noop_trb" using tr clean_noop by simp
  have "td_to_noop td False r = Some r'" using r'(1) td by (simp add: td_to_noop_def td_at_def)
  then show ?thesis using r'(2,3) 1 2 by (auto simp: changed_def)
qed

text \<open>C9. A cancelled TD the controller is not in is turned into no-ops in place: in the memory of the
  ring the TRBs before and behind it are the same, each of its own TRBs is a no-op, and every TRB belongs
  to whom it belonged. A controller that fetches the ring from this memory, which is so for the stream
  rings, sees exactly that; the other transfer rings are fetched from the cache in the device, which
  the function does not write.\<close>

theorem td_to_noop_correct:
  assumes "ring_inv {} r" and "ring_slots r = as @ ps @ bs" and "ps \<noteq> []" and "td_at r u ps td"
  shows "\<exists>r'. td_to_noop td False r = Some r' \<and> ring_inv {} r' \<and> ring_slots r' = ring_slots r
     \<and> ring_contents r' = take (length as) (ring_contents r) @ replicate (length ps) noop_trb
         @ drop (length as + length ps) (ring_contents r)
     \<and> (\<not> ehub_cache_ring (ring_type r) \<longrightarrow> map_option (map clean) (hc_view r') = Some (ring_contents r'))"
proof -
  obtain r' where r': "td_to_noop td False r = Some r'" "ring_inv {} r'" "ring_order r' = ring_order r" "ring_slots r' = ring_slots r"
    "\<forall>q \<in> set (as @ bs). trb_of (segs r') (ring_order r) q = trb_of (segs r) (ring_order r) q"
    "\<forall>q \<in> set ps. clean (trb_of (segs r') (ring_order r) q) = noop_trb" using td_to_noop_ok [OF assms] by metis
  have "ring_contents r' = take (length as) (ring_contents r) @ replicate (length ps) noop_trb @ drop (length as + length ps) (ring_contents r)"
    using r'(3-6) assms(2) by (auto simp: ring_contents_def map_replicate_const [symmetric])
  then show ?thesis using r' hc_view_contents [OF r'(2)] by auto
qed

section \<open>A controller with one busy endpoint\<close>

definition busy_ep :: xhci_virt_ep where
  "busy_ep = demo_ep\<lparr>ep_ring := Some busy_ring\<rparr>"

definition busy_urb :: "u32 \<Rightarrow> tx_urb" where
  "busy_urb len = \<lparr>tu_type = XFER_BULK, tu_short_not_ok = False, tu_transfer_buffer_length = len, tu_actual_length = 0,
     tu_iso_frame_desc = [], tu_stream_id = 0, tu_td_cnt = 0, tu_length = 1, tu_priv = new_priv\<rparr>"

definition busy_ctx :: "bool \<Rightarrow> xhci_container_ctx" where
  "busy_ctx b = \<lparr>ctx_input = b, ctx_dma = 0, drop_flags = 0, add_flags = 0,
     slot_ctx = \<lparr>dev_info = 0, dev_info2 = 0, tt_info = 0, dev_state = 0\<rparr>,
     ep_ctxs = [\<lparr>ep_info = 1, ep_info2 = 0, deq = 0x1001, tx_info = 0\<rparr>]\<rparr>"

definition busy_hc :: hc where
  "busy_hc = \<lparr>hcd = demo_blocks,
     cmdq = \<lparr>cmd_ring = busy_ring\<lparr>td_list := []\<rparr>, cmd_list = [], cmd_ring_reserved_trbs = 0, current_cmd = None, cmd_timer_pending = False\<rparr>,
     event_ring = busy_ring\<lparr>td_list := [], ring_type := TYPE_EVENT\<rparr>,
     devs = [1 \<mapsto> \<lparr>udev = \<lparr>ud_id = 5, ud_root_hub = False, ud_slot_id = 1, ud_speed = USB_SPEED_HIGH\<rparr>, eps = [busy_ep],
       in_ctx = busy_ctx True, out_ctx = busy_ctx False, fake_port = 0, real_port = 1, bw_table_of = Some (Root_Port 0), tt_info_of = None, current_mel = 0\<rparr>],
     dcbaa = (\<lambda>_. 0),
     bw = \<lparr>rh_bw = [], tts = Map.empty, next_tt = 0, bw_infos = (\<lambda>_. ehub_xhci_clear_endpoint_bw_info)\<rparr>,
     urbs = [7 \<mapsto> busy_urb 768, 8 \<mapsto> busy_urb 64], commands = Map.empty, next_cmd = 0, completed_cmds = [], error_bitmask = 0,
     slot_answer = 0, bandwidth_isoc_reqs = 0, giveback_log = [], hc_died = False, num_active_eps = 1, limit_active_eps = 16,
     port_events = [], wakeups = [], lpm_command = None\<rparr>"

lemma busy_get_ep [simp]: "get_ep 1 0 busy_hc = Some busy_ep"
  by (simp add: get_ep_def busy_hc_def)

theorem find_new_dequeue_correct_witness:
  "\<exists>pos cs. ehub_xhci_find_new_dequeue_state 1 0 0 (hd busy_tds) \<lparr>new_deq = None, new_cycle_state = 0\<rparr> busy_hc
       = Some \<lparr>new_deq = Some pos, new_cycle_state = cs\<rparr>
     \<and> hc_fetch 128 (segs busy_ring) pos (cs = 1) = Some [TRB 0 0 64 0x421]"
proof -
  have 1: "ep_ring busy_ep = Some busy_ring" "ep_state (hcd busy_hc) 1 0 AND EP_HAS_STREAMS = 0" "(0 :: u32) \<noteq> NOT 0"
    by (simp_all add: busy_ep_def busy_hc_def demo_blocks_def demo_defs)
  have 2: "hw_dequeue_of 1 0 0 busy_hc = Some 0x1001"
    using 1(2) by (simp add: hw_dequeue_of_def) (simp add: busy_hc_def busy_ctx_def ehub_xhci_get_ep_ctx_def)
  have 3: "(end_seg (hd busy_tds), td_last_trb (hd busy_tds)) = position busy_ring 1" "1 \<in> set (ring_slots busy_ring)"
    by (simp_all add: busy_tds_def position_def seg_at_def)
  have 4: "0 < 64 * length (ring_order busy_ring)" "unat ((0x1001 :: u64) AND NOT 0xf) = trb_addr busy_ring 0"
    "(0x1001 :: u64) AND 1 = of_bool (hc_cycle busy_ring (enq_pos busy_ring) 0)"
    "dist (64 * length (ring_order busy_ring)) (deq_pos busy_ring) 0 \<le> dist (64 * length (ring_order busy_ring)) (deq_pos busy_ring) 1"
    by (simp_all add: hc_cycle_def dist_def)
  show ?thesis
    using find_new_dequeue_correct [OF busy_get_ep 1 busy_inv busy_dma 2 3 4, of "\<lparr>new_deq = None, new_cycle_state = 0\<rparr>"] busy_trb [of 2]
    by (simp add: busy_trbs_def)
qed

text \<open>The same ring as the ring of a stream.\<close>

definition busy_stream :: xhci_ring where
  "busy_stream = busy_ring\<lparr>ring_type := TYPE_STREAM\<rparr>"

lemma busy_stream_simps [simp]:
  "ring_order busy_stream = [0, 1]" "ring_slots busy_stream = [0, 1, 2]" "ring_contents busy_stream = ring_contents busy_ring" "ring_inv {} busy_stream"
  using busy_inv busy_order busy_slots
  by (simp_all add: busy_stream_def ring_order_def ring_slots_def ring_contents_def ring_inv_def view_def enq_pos_def deq_pos_def)

theorem td_to_noop_correct_witness:
  "\<exists>r'. td_to_noop (hd busy_tds) False busy_stream = Some r' \<and> ring_inv {} r' \<and> ring_slots r' = [0, 1, 2]
     \<and> map_option (map clean) (hc_view r') = Some [noop_trb, noop_trb, TRB 0 0 64 0x420]"
proof -
  have "ring_contents busy_stream = [TRB 0 0 512 0x410, TRB 0 0 256 0x420, TRB 0 0 64 0x420]"
    using busy_trb [of 0] busy_trb [of 1] busy_trb [of 2]
    by (simp add: ring_contents_def [of busy_ring] busy_trbs_def clean_def TRB_CYCLE_def)
  moreover have "td_at busy_stream 7 [0, 1] (hd busy_tds)" by (simp add: td_at_def busy_tds_def position_def seg_at_def)
  moreover have "\<not> ehub_cache_ring (ring_type busy_stream)" by (simp add: busy_stream_def)
  ultimately show ?thesis
    using td_to_noop_correct [OF busy_stream_simps(4), of "[]" "[0, 1]" "[2]" 7 "hd busy_tds"] by (auto simp: numeral_2_eq_2)
qed

end
