(* ===== verification/Ehub_Message.thy ===== *)
theory Ehub_Message
  imports Xhci_Cancel_Props
begin

text \<open>
  Messages from the device (\<open>ehub_message.c\<close>): the parser that splits a received buffer into
  messages and the four handlers. Three of the handlers stay in the lower layer; the fourth passes
  an event of the controller to the event handler of the ring layer, so the parser works on the
  state of the whole driver. It is specified against an abstract syntax of messages: a buffer that
  is the concatenation of well-formed messages is handled message by message, in order, with an
  error check before each.
\<close>

section \<open>Message types\<close>

datatype message_type =
  MESSAGE_TYPE_UNKNOWN | MESSAGE_TYPE_EMBEDDED_MEMORY_READ_COMPLETION
  | MESSAGE_TYPE_EMBEDDED_MEMORY_WRITE_COMPLETION
  | MESSAGE_TYPE_EMBEDDED_REGISTER_READ_COMPLETION | MESSAGE_TYPE_EMBEDDED_EVENT_TRB

definition MEM_WR_TAG_EVT_MGR :: u32 where "MEM_WR_TAG_EVT_MGR = 0"
definition EMBEDDED_HOST_MFINDEX_REG_ADDRESS :: u32 where
  "EMBEDDED_HOST_MFINDEX_REG_ADDRESS = 0x2000"
definition EHUB_MIN_VALID_VADDR :: u64 where "EHUB_MIN_VALID_VADDR = 0x00100000"

abbreviation (input) sizeof_EMBEDDED_REGISTER_DATA_RESPONSE :: nat where
  "sizeof_EMBEDDED_REGISTER_DATA_RESPONSE \<equiv> 16"
abbreviation (input) sizeof_EMBEDDED_MEMORY_TRANSFER :: nat where
  "sizeof_EMBEDDED_MEMORY_TRANSFER \<equiv> 12"
abbreviation (input) sizeof_EMBEDDED_MEMORY_COMMAND :: nat where
  "sizeof_EMBEDDED_MEMORY_COMMAND \<equiv> 4"

definition MESSAGE_GetType :: "u32 \<Rightarrow> message_type \<times> nat" where
  "MESSAGE_GetType h =
     (if get_field EMC_RegAccess h \<noteq> 0
        then (MESSAGE_TYPE_EMBEDDED_REGISTER_READ_COMPLETION, sizeof_EMBEDDED_REGISTER_DATA_RESPONSE)
      else if get_field EMC_Read h \<noteq> 0
        then (MESSAGE_TYPE_EMBEDDED_MEMORY_READ_COMPLETION, sizeof_EMBEDDED_MEMORY_TRANSFER)
      else if get_field EMC_Write h \<noteq> 0
        then (if get_field EMC_RequestId h = MEM_WR_TAG_EVT_MGR then MESSAGE_TYPE_EMBEDDED_EVENT_TRB
              else MESSAGE_TYPE_EMBEDDED_MEMORY_WRITE_COMPLETION,
              sizeof_EMBEDDED_MEMORY_TRANSFER + unat (get_field EMC_Length h))
      else (MESSAGE_TYPE_UNKNOWN, 0))"

definition trb_ptr_to_addr :: "u32 \<Rightarrow> u32 \<Rightarrow> u64" where
  "trb_ptr_to_addr l h = push_bit 32 (ucast h) OR ucast l"

section \<open>Handlers\<close>

text \<open>The mutex of the memory read completions. An interrupted wait is reported and ignored;
  the unlock that follows is unconditional.\<close>

definition lock_memory_read :: "env \<Rightarrow> ehub \<Rightarrow> ehub option" where
  "lock_memory_read k s =
     (if lock_interrupted k (tick s) then Some (tick_up s)
      else if MessageHandleEmbeddedMemoryReadCompletionLock s then None
      else Some ((tick_up s)\<lparr>MessageHandleEmbeddedMemoryReadCompletionLock := True\<rparr>))"

text \<open>The next context of the ring of contexts for memory reads, taken under the mutex.\<close>

definition next_memory_read_context :: "env \<Rightarrow> ehub \<Rightarrow> addr option outcome" where
  "next_memory_read_context k s = do {
     s1 \<leftarrow> lock_memory_read k s;
     let i = CurrentEmbeddedMemoryReadCompletionUrbContextIndex s1;
     let ctxs = UrbContextEmbeddedMemoryReadCompletion s1;
     if length ctxs \<le> i then None
     else Some (ctxs ! i, s1\<lparr>
       CurrentEmbeddedMemoryReadCompletionUrbContextIndex := Suc i mod NUMBER_OF_MESSAGE_BULK,
       MessageHandleEmbeddedMemoryReadCompletionLock := False\<rparr>)
   }"

text \<open>The answer to a memory read: the command is echoed and followed by the memory the device
  asked for. The fault-safe read writes the bytes it could read; a write that leaves the buffer is
  a fault.\<close>

definition MESSAGE_HandleMessage_EMBEDDED_MEMORY_READ_COMPLETION ::
  "env \<Rightarrow> u8 list \<Rightarrow> nat \<Rightarrow> ehub \<Rightarrow> ehub option" where
  "MESSAGE_HandleMessage_EMBEDDED_MEMORY_READ_COMPLETION k buf pos s = do {
     cmd \<leftarrow> read32 buf pos;
     AddressLow \<leftarrow> read32 buf (pos + 4);
     AddressHigh \<leftarrow> read32 buf (pos + 8);
     status \<leftarrow> DEVICECONTEXT_ErrorCheck (Some s);
     if status < 0 then Some s
     else do {
       (urbContext, s1) \<leftarrow> next_memory_read_context k s;
       (case urbContext of
          None \<Rightarrow> Some s1
        | Some a \<Rightarrow> do {
            c \<leftarrow> urb_contexts s1 a;
            u \<leftarrow> uc_Urb c;
            b \<leftarrow> uc_DataBuffer c;
            b1 \<leftarrow> write32 b 0 cmd;
            let n = unat (get_field EMC_Length cmd);
            let (st, xs) = probe_kernel_read k (tick s1) (trb_ptr_to_addr AddressLow AddressHigh) n;
            b2 \<leftarrow> write_bytes b1 sizeof_EMBEDDED_MEMORY_COMMAND (take n xs);
            let s2 = put_urb a (c\<lparr>uc_Urb := Some (u\<lparr>urb_transfer_buffer_length :=
                  sizeof_EMBEDDED_MEMORY_COMMAND + n\<rparr>), uc_DataBuffer := Some b2\<rparr>) (tick_up s1);
            if st < 0 then Some s2 else map_option snd (URB_Submit k (Some a) s2)
          })
     }
   }"

definition MESSAGE_HandleMessage_EMBEDDED_EVENT_TRB ::
  "env \<Rightarrow> hcd_params \<Rightarrow> u8 list \<Rightarrow> nat \<Rightarrow> hc \<Rightarrow> hc option" where
  "MESSAGE_HandleMessage_EMBEDDED_EVENT_TRB k P buf pos c =
     (let target = pos + sizeof_EMBEDDED_MEMORY_TRANSFER in
      if IsEhubXhciInitReady (hcd c) then do {
        f0 \<leftarrow> read32 buf target;
        f1 \<leftarrow> read32 buf (target + 4);
        f2 \<leftarrow> read32 buf (target + 8);
        f3 \<leftarrow> read32 buf (target + 12);
        ehub_xhci_handle_event k P (TRB f0 f1 f2 f3) c
      } else Some c)"

text \<open>The microframe arithmetic of the original only feeds a debug message; what it keeps is
  the time and value of the last microframe read.\<close>

definition MESSAGE_HandleMessage_EMBEDDED_REGISTER_READ_COMPLETION ::
  "env \<Rightarrow> u8 list \<Rightarrow> nat \<Rightarrow> ehub \<Rightarrow> ehub option" where
  "MESSAGE_HandleMessage_EMBEDDED_REGISTER_READ_COMPLETION k buf pos s = do {
     data \<leftarrow> read32 buf (pos + 12);
     dword1 \<leftarrow> read32 buf (pos + 4);
     let s1 = s\<lparr>DataEmbeddedRegisterRead := data\<rparr>;
     let s2 = (if dword1 = EMBEDDED_HOST_MFINDEX_REG_ADDRESS
               then (tick_up s1)\<lparr>last_uframe_cnt := data,
                      last_uframe_time := ktime_get k (tick s1),
                      pending_uframe_time := ktime_get k (tick s1)\<rparr>
               else s1);
     NOTIFICATION_Notify EventRegisterRead s2
   }"

definition MESSAGE_HandleMessage_EMBEDDED_MEMORY_WRITE_COMPLETION ::
  "env \<Rightarrow> u8 list \<Rightarrow> nat \<Rightarrow> ehub \<Rightarrow> ehub option" where
  "MESSAGE_HandleMessage_EMBEDDED_MEMORY_WRITE_COMPLETION k buf pos s = do {
     cmd \<leftarrow> read32 buf pos;
     AddressLow \<leftarrow> read32 buf (pos + 4);
     AddressHigh \<leftarrow> read32 buf (pos + 8);
     let addressTarget = trb_ptr_to_addr AddressLow AddressHigh;
     if addressTarget < EHUB_MIN_VALID_VADDR then Some s
     else do {
       bytes \<leftarrow> read_bytes buf (pos + sizeof_EMBEDDED_MEMORY_TRANSFER)
                 (unat (get_field EMC_Length cmd));
       if probe_kernel_write k (tick s) addressTarget bytes < 0 then Some (tick_up s)
       else Some ((tick_up s)\<lparr>kernel_writes := kernel_writes s @ [(addressTarget, bytes)]\<rparr>)
     }
   }"

definition MESSAGE_Handle ::
  "env \<Rightarrow> hcd_params \<Rightarrow> u8 list \<Rightarrow> nat \<Rightarrow> message_type \<Rightarrow> hc \<Rightarrow> hc option" where
  "MESSAGE_Handle k P buf pos MessageType c =
     (case MessageType of
        MESSAGE_TYPE_EMBEDDED_REGISTER_READ_COMPLETION \<Rightarrow>
          with_hcd (MESSAGE_HandleMessage_EMBEDDED_REGISTER_READ_COMPLETION k buf pos) c
      | MESSAGE_TYPE_EMBEDDED_MEMORY_READ_COMPLETION \<Rightarrow>
          with_hcd (MESSAGE_HandleMessage_EMBEDDED_MEMORY_READ_COMPLETION k buf pos) c
      | MESSAGE_TYPE_EMBEDDED_EVENT_TRB \<Rightarrow> MESSAGE_HandleMessage_EMBEDDED_EVENT_TRB k P buf pos c
      | MESSAGE_TYPE_EMBEDDED_MEMORY_WRITE_COMPLETION \<Rightarrow>
          with_hcd (MESSAGE_HandleMessage_EMBEDDED_MEMORY_WRITE_COMPLETION k buf pos) c
      | MESSAGE_TYPE_UNKNOWN \<Rightarrow> Some c)"

section \<open>The parser\<close>

lemma GetType_length_pos:
  "fst (MESSAGE_GetType h) \<noteq> MESSAGE_TYPE_UNKNOWN \<Longrightarrow> 12 \<le> snd (MESSAGE_GetType h)"
  by (auto simp: MESSAGE_GetType_def split: if_splits)

text \<open>The loop of the parser at offset \<open>pos\<close>; it advances by at least twelve bytes, so it ends
  whatever the buffer contains.\<close>

function parse_messages :: "env \<Rightarrow> hcd_params \<Rightarrow> u8 list \<Rightarrow> nat \<Rightarrow> nat \<Rightarrow> hc \<Rightarrow> hc option" where
  "parse_messages k P buf len pos c = do {
     h \<leftarrow> read32 buf pos;
     if h = 0 then Some c
     else
       let (messageType, messageLength) = MESSAGE_GetType h in
       if messageType = MESSAGE_TYPE_UNKNOWN then Some c
       else do {
         status \<leftarrow> DEVICECONTEXT_ErrorCheck (Some (hcd c));
         if status < 0 then Some c
         else do {
           c1 \<leftarrow> MESSAGE_Handle k P buf pos messageType c;
           if pos + roundup messageLength 4 < len
           then parse_messages k P buf len (pos + roundup messageLength 4) c1
           else Some c1
         }
       }
   }"
  by pat_completeness auto
termination
proof (relation "measure (\<lambda>(k, P, buf, len, pos, c). len - pos)", goal_cases)
  case (2 k P buf len pos c h tl t n st c1)
  then have "12 \<le> n" using GetType_length_pos [of h] by (metis fst_conv snd_conv)
  then have "0 < roundup n 4" using roundup_bounds [of 4 n] by simp
  with 2 show ?case by simp
qed simp

declare parse_messages.simps [simp del]

text \<open>A NULL buffer ends the parser before the first message.\<close>

definition MESSAGE_Parsing :: "env \<Rightarrow> hcd_params \<Rightarrow> u8 list option \<Rightarrow> nat \<Rightarrow> hc \<Rightarrow> hc option" where
  "MESSAGE_Parsing k P DataBuffer DataBufferLength c =
     (case DataBuffer of None \<Rightarrow> Some c | Some buf \<Rightarrow> parse_messages k P buf DataBufferLength 0 c)"


section \<open>Abstract messages\<close>

text \<open>The messages of the device, their bytes, and what each one does, without a buffer.\<close>

datatype message =
    RegisterReadCompletion u32 u32 u32 u32
  | MemoryReadRequest u32 u32 u32
  | EventTrb u32 u32 u32 xhci_generic_trb
  | MemoryWrite u32 u32 u32 "u8 list"

definition pad4 :: "nat \<Rightarrow> u8 list" where
  "pad4 n = replicate (roundup n 4 - n) 0"

fun message_bytes :: "message \<Rightarrow> u8 list" where
  "message_bytes (RegisterReadCompletion h a r d) = le32 h @ le32 a @ le32 r @ le32 d"
| "message_bytes (MemoryReadRequest h lo hi) = le32 h @ le32 lo @ le32 hi"
| "message_bytes (EventTrb h lo hi (TRB a b c d)) =
     le32 h @ le32 lo @ le32 hi @ le32 a @ le32 b @ le32 c @ le32 d"
| "message_bytes (MemoryWrite h lo hi xs) =
     le32 h @ le32 lo @ le32 hi @ xs @ pad4 (12 + length xs)"

fun message_header :: "message \<Rightarrow> u32" where
  "message_header (RegisterReadCompletion h a r d) = h"
| "message_header (MemoryReadRequest h lo hi) = h"
| "message_header (EventTrb h lo hi t) = h"
| "message_header (MemoryWrite h lo hi xs) = h"

text \<open>A message is well formed when its header has the flags of its kind and, for writes, the
  length of its data.\<close>

fun message_wf :: "message \<Rightarrow> bool" where
  "message_wf (RegisterReadCompletion h a r d) = (get_field EMC_RegAccess h \<noteq> 0)"
| "message_wf (MemoryReadRequest h lo hi) = (get_field EMC_RegAccess h = 0 \<and> get_field EMC_Read h \<noteq> 0)"
| "message_wf (EventTrb h lo hi t) = (get_field EMC_RegAccess h = 0 \<and> get_field EMC_Read h = 0
     \<and> get_field EMC_Write h \<noteq> 0 \<and> get_field EMC_RequestId h = MEM_WR_TAG_EVT_MGR
     \<and> get_field EMC_Length h = 16)"
| "message_wf (MemoryWrite h lo hi xs) = (get_field EMC_RegAccess h = 0 \<and> get_field EMC_Read h = 0
     \<and> get_field EMC_Write h \<noteq> 0 \<and> get_field EMC_RequestId h \<noteq> MEM_WR_TAG_EVT_MGR
     \<and> unat (get_field EMC_Length h) = length xs)"

text \<open>Answering a memory read: from the context taken from the ring, the echoed command and the
  memory at the address.\<close>

definition answer_memory_read :: "env \<Rightarrow> u32 \<Rightarrow> u64 \<Rightarrow> addr \<Rightarrow> ehub \<Rightarrow> ehub option" where
  "answer_memory_read k cmd address a s = do {
     c \<leftarrow> urb_contexts s a;
     u \<leftarrow> uc_Urb c;
     b \<leftarrow> uc_DataBuffer c;
     b1 \<leftarrow> write32 b 0 cmd;
     let n = unat (get_field EMC_Length cmd);
     let (st, xs) = probe_kernel_read k (tick s) address n;
     b2 \<leftarrow> write_bytes b1 4 (take n xs);
     let s2 = put_urb a (c\<lparr>uc_Urb := Some (u\<lparr>urb_transfer_buffer_length := 4 + n\<rparr>),
                uc_DataBuffer := Some b2\<rparr>) (tick_up s);
     if st < 0 then Some s2 else map_option snd (URB_Submit k (Some a) s2)
   }"

text \<open>What the three messages for the lower layer do.\<close>

definition complete_register_read :: "env \<Rightarrow> u32 \<Rightarrow> u32 \<Rightarrow> ehub \<Rightarrow> ehub" where
  "complete_register_read k a d s =
     (let s1 = s\<lparr>DataEmbeddedRegisterRead := d\<rparr>;
          s2 = (if a = EMBEDDED_HOST_MFINDEX_REG_ADDRESS
                then (tick_up s1)\<lparr>last_uframe_cnt := d,
                       last_uframe_time := ktime_get k (tick s1),
                       pending_uframe_time := ktime_get k (tick s1)\<rparr>
                else s1)
      in s2\<lparr>CompletionEventEmbeddedRegisterRead := Suc (CompletionEventEmbeddedRegisterRead s2)\<rparr>)"

definition read_memory :: "env \<Rightarrow> u32 \<Rightarrow> u64 \<Rightarrow> ehub \<Rightarrow> ehub option" where
  "read_memory k h address s = do {
     (p, s1) \<leftarrow> next_memory_read_context k s;
     case p of None \<Rightarrow> Some s1 | Some a \<Rightarrow> answer_memory_read k h address a s1
   }"

definition write_memory :: "env \<Rightarrow> u64 \<Rightarrow> u8 list \<Rightarrow> ehub \<Rightarrow> ehub" where
  "write_memory k target xs s =
     (if target < EHUB_MIN_VALID_VADDR then s
      else if probe_kernel_write k (tick s) target xs < 0 then tick_up s
      else (tick_up s)\<lparr>kernel_writes := kernel_writes s @ [(target, xs)]\<rparr>)"

fun perform_message :: "env \<Rightarrow> hcd_params \<Rightarrow> message \<Rightarrow> hc \<Rightarrow> hc option" where
  "perform_message k P (RegisterReadCompletion h a r d) c =
     with_hcd (\<lambda>s. Some (complete_register_read k a d s)) c"
| "perform_message k P (MemoryReadRequest h lo hi) c =
     with_hcd (read_memory k h (trb_ptr_to_addr lo hi)) c"
| "perform_message k P (EventTrb h lo hi t) c =
     (if IsEhubXhciInitReady (hcd c) then ehub_xhci_handle_event k P t c else Some c)"
| "perform_message k P (MemoryWrite h lo hi xs) c =
     with_hcd (\<lambda>s. Some (write_memory k (trb_ptr_to_addr lo hi) xs s)) c"

text \<open>What a sequence of messages does: each is performed on a device that passes the error
  check; after the first failed check the rest is dropped.\<close>

fun run_messages :: "env \<Rightarrow> hcd_params \<Rightarrow> message list \<Rightarrow> hc \<Rightarrow> hc option" where
  "run_messages k P [] c = Some c"
| "run_messages k P (m # ms) c = do {
     status \<leftarrow> DEVICECONTEXT_ErrorCheck (Some (hcd c));
     if status < 0 then Some c
     else do { c1 \<leftarrow> perform_message k P m c; run_messages k P ms c1 }
   }"

section \<open>The parser performs the messages\<close>

lemma length_pad4 [simp]: "n + length (pad4 n) = roundup n 4"
  using roundup_bounds [of 4 n] by (simp add: pad4_def)

lemma read32_le32 [simp]: "read32 (le32 w @ xs) 0 = Some w"
  by (simp add: read32_def)

lemma read32_skip [simp]:
  "read32 (le32 w @ xs) (Suc (Suc (Suc (Suc n)))) = read32 xs n"
  by (simp add: read32_append2)

lemma read32_at: "read32 (pre @ xs) (length pre + n) = read32 xs n"
  by (simp add: read32_append2)

lemma read_bytes_at: "read_bytes (pre @ xs) (length pre + n) m = read_bytes xs n m"
  by (simp add: read_bytes_def)

lemma read32_skip_numeral [simp]:
  "read32 (le32 w @ xs) 4 = read32 xs 0" "read32 (le32 w @ xs) 8 = read32 xs 4"
  "read32 (le32 w @ xs) 12 = read32 xs 8" "read32 (le32 w @ xs) 16 = read32 xs 12"
  "read32 (le32 w @ xs) 20 = read32 xs 16" "read32 (le32 w @ xs) 24 = read32 xs 20"
  by (simp_all add: read32_append2)

lemma read_bytes_skip12:
  "read_bytes (le32 a @ le32 b @ le32 c @ xs @ ys) 12 (length xs) = Some xs"
  by (simp add: read_bytes_def)

lemma header_first: "\<exists>rest. message_bytes m = le32 (message_header m) @ rest"
  by (cases m rule: message_bytes.cases) auto

lemma get_field_0 [simp]: "get_field f 0 = 0"
  by (simp add: get_field_def)

lemma wf_header_nonzero: "message_wf m \<Longrightarrow> message_header m \<noteq> 0"
  by (cases m) auto

fun message_kind :: "message \<Rightarrow> message_type" where
  "message_kind (RegisterReadCompletion h a r d) = MESSAGE_TYPE_EMBEDDED_REGISTER_READ_COMPLETION"
| "message_kind (MemoryReadRequest h lo hi) = MESSAGE_TYPE_EMBEDDED_MEMORY_READ_COMPLETION"
| "message_kind (EventTrb h lo hi t) = MESSAGE_TYPE_EMBEDDED_EVENT_TRB"
| "message_kind (MemoryWrite h lo hi xs) = MESSAGE_TYPE_EMBEDDED_MEMORY_WRITE_COMPLETION"

lemma GetType_wf:
  assumes "message_wf m"
  shows "\<exists>n. MESSAGE_GetType (message_header m) = (message_kind m, n)
     \<and> roundup n 4 = length (message_bytes m)"
proof (cases m rule: message_bytes.cases)
  case (4 h lo hi xs)
  then show ?thesis using assms length_pad4 [of "12 + length xs"]
    by (auto simp: MESSAGE_GetType_def simp del: length_pad4)
qed (use assms in \<open>auto simp: MESSAGE_GetType_def roundup_def\<close>)

lemma message_kind_known [simp]: "message_kind m \<noteq> MESSAGE_TYPE_UNKNOWN"
  by (cases m) auto

text \<open>Handling a message inside a buffer is performing it.\<close>

lemma Handle_message:
  assumes "message_wf m" and "DEVICECONTEXT_ErrorCheck (Some (hcd c)) = Some st" and "\<not> st < 0"
  shows "MESSAGE_Handle k P (pre @ message_bytes m @ rest) (length pre) (message_kind m) c
     = perform_message k P m c"
proof (cases m rule: message_bytes.cases)
  case (1 h a r d)
  then show ?thesis
    by (simp add: with_hcd_def complete_register_read_def MESSAGE_Handle_def MESSAGE_HandleMessage_EMBEDDED_REGISTER_READ_COMPLETION_def
        read32_at read32_at [where n = 0, simplified] NOTIFICATION_Notify_def Let_def)
next
  case (2 h lo hi)
  then show ?thesis using assms(2,3)
    by (simp add: with_hcd_def read_memory_def MESSAGE_Handle_def MESSAGE_HandleMessage_EMBEDDED_MEMORY_READ_COMPLETION_def
        read32_at read32_at [where n = 0, simplified] answer_memory_read_def Let_def
        cong: option.case_cong)
next
  case (3 h lo hi a b c' d)
  then show ?thesis
    by (simp add: MESSAGE_Handle_def MESSAGE_HandleMessage_EMBEDDED_EVENT_TRB_def Let_def
        read32_at add.assoc)
next
  case (4 h lo hi xs)
  then show ?thesis using assms(1)
    by (simp add: with_hcd_def write_memory_def MESSAGE_Handle_def MESSAGE_HandleMessage_EMBEDDED_MEMORY_WRITE_COMPLETION_def
        Let_def read32_at read32_at [where n = 0, simplified] read_bytes_at read_bytes_skip12)
qed

lemma parse_step:
  assumes "message_wf m"
  shows "parse_messages k P (pre @ message_bytes m @ rest) len (length pre) c = do {
     status \<leftarrow> DEVICECONTEXT_ErrorCheck (Some (hcd c));
     if status < 0 then Some c
     else do {
       c1 \<leftarrow> perform_message k P m c;
       if length pre + length (message_bytes m) < len
       then parse_messages k P (pre @ message_bytes m @ rest) len
              (length pre + length (message_bytes m)) c1
       else Some c1
     }
   }"
proof -
  obtain n where n: "MESSAGE_GetType (message_header m) = (message_kind m, n)"
    "roundup n 4 = length (message_bytes m)"
    using GetType_wf [OF assms] by blast
  obtain r where r: "message_bytes m = le32 (message_header m) @ r" using header_first by blast
  have h: "read32 (pre @ message_bytes m @ rest) (length pre) = Some (message_header m)"
    using read32_at [of pre "message_bytes m @ rest" 0] r by simp
  show ?thesis
    by (subst parse_messages.simps)
      (use h n wf_header_nonzero [OF assms] Handle_message [OF assms] in
        \<open>auto intro!: Option.bind_cong\<close>)
qed

lemma parse_zeros:
  assumes "4 \<le> z"
  shows "parse_messages k P (pre @ replicate z 0) len (length pre) c = Some c"
proof -
  have "read32 (pre @ replicate z 0) (length pre) = Some 0"
    using read32_at [of pre "replicate z 0" 0] assms
    by (simp add: read32_def of_le32_def min_def eval_nat_numeral)
  then show ?thesis by (subst parse_messages.simps) simp
qed

lemma message_bytes_nonempty [simp]: "0 < length (message_bytes m)"
proof -
  obtain rest where "message_bytes m = le32 (message_header m) @ rest" using header_first by blast
  then show ?thesis by simp
qed

lemma parse_messages_run:
  assumes "\<forall>m \<in> set ms. message_wf m" and "ms \<noteq> []" and "z = 0 \<or> 4 \<le> z"
  shows "parse_messages k P (pre @ concat (map message_bytes ms) @ replicate z 0)
     (length pre + length (concat (map message_bytes ms)) + z) (length pre) c = run_messages k P ms c"
  using assms(1,2)
proof (induction ms arbitrary: pre c)
  case (Cons m ms)
  define rest where "rest = concat (map message_bytes ms) @ replicate z 0"
  define pre' where "pre' = pre @ message_bytes m"
  define len where "len = length pre' + length rest"
  have tail: "(if length pre' < len then parse_messages k P (pre' @ rest) len (length pre') t
       else Some t) = run_messages k P ms t" for t
  proof (cases ms)
    case Nil
    then show ?thesis using assms(3) parse_zeros [of z k P pre' len t] by (auto simp: rest_def len_def)
  next
    case (Cons m' ms')
    then have "length pre' < len" using message_bytes_nonempty [of m']
      by (simp add: len_def rest_def)
    moreover have "parse_messages k P (pre' @ rest) len (length pre') t = run_messages k P ms t"
      using Cons.IH [of pre' t] Cons.prems(1) Cons by (simp add: rest_def len_def add.assoc)
    ultimately show ?thesis by simp
  qed
  have "message_wf m" using Cons.prems(1) by simp
  from parse_step [OF this, of k P pre rest len c]
  have "parse_messages k P (pre @ message_bytes m @ rest) len (length pre) c = run_messages k P (m # ms) c"
    unfolding run_messages.simps tail [symmetric] pre'_def append_assoc length_append .
  then show ?case by (simp add: rest_def len_def pre'_def add.assoc)
qed simp

section \<open>Memory reads\<close>

text \<open>A context of the ring of contexts for memory reads, with room for \<open>n\<close> bytes of data.\<close>

definition memory_read_ready :: "usb_pipe \<Rightarrow> nat \<Rightarrow> addr \<Rightarrow> ehub \<Rightarrow> bool" where
  "memory_read_ready p n a s \<longleftrightarrow>
     (let i = CurrentEmbeddedMemoryReadCompletionUrbContextIndex s;
          ctxs = UrbContextEmbeddedMemoryReadCompletion s
      in i < length ctxs \<and> ctxs ! i = Some a \<and> \<not> MessageHandleEmbeddedMemoryReadCompletionLock s
         \<and> (\<exists>c u buf. urb_contexts s a = Some c \<and> uc_Urb c = Some u \<and> urb_pipe u = p
              \<and> uc_DataBuffer c = Some buf \<and> length buf = n))"

lemma write_le32_data:
  assumes "4 + length xs \<le> length b"
  shows "\<exists>b1 b2. write32 b 0 w = Some b1 \<and> length b1 = length b \<and> write_bytes b1 4 xs = Some b2
     \<and> length b2 = length b \<and> take (4 + length xs) b2 = le32 w @ xs"
proof -
  have "write32 b 0 w = Some (le32 w @ drop 4 b)"
    using assms by (simp add: write32_def write_bytes_def)
  then show ?thesis using assms by (simp add: write_bytes_def)
qed

lemma answer_memory_read_ok:
  assumes "urb_contexts s a = Some c" "uc_Urb c = Some u" "urb_pipe u = p" "uc_DataBuffer c = Some buf"
    and n: "n = unat (get_field EMC_Length h)" "4 + n \<le> length buf"
    and mem: "probe_kernel_read k (tick s) address n = (0, xs)" "length xs = n"
    and "0 \<le> usb_submit_urb k (Suc (tick s))"
  shows "\<exists>t. answer_memory_read k h address a s = Some t
     \<and> usb_log t = usb_log s @ [(p, le32 h @ xs)]
     \<and> CurrentEmbeddedMemoryReadCompletionUrbContextIndex t
         = CurrentEmbeddedMemoryReadCompletionUrbContextIndex s"
proof -
  obtain b1 b2 where b: "write32 buf 0 h = Some b1" "length b1 = length buf"
    "write_bytes b1 4 xs = Some b2" "take (4 + n) b2 = le32 h @ xs"
    using write_le32_data [of xs buf h] n(2) mem(2) by auto
  define c' where "c' = c\<lparr>uc_Urb := Some (u\<lparr>urb_transfer_buffer_length := 4 + n\<rparr>),
                uc_DataBuffer := Some b2\<rparr>"
  define s2 where "s2 = put_urb a c' (tick_up s)"
  have live: "urb_contexts s2 a = Some c'" by (simp add: s2_def)
  have "answer_memory_read k h address a s = map_option snd (URB_Submit k (Some a) s2)"
    using assms b by (simp add: answer_memory_read_def s2_def c'_def)
  also have "\<dots> = Some (submitted (usb_submit_urb k (tick s2)) a c' s2)"
    by (simp add: URB_Submit_live [OF live])
  finally show ?thesis
    using assms b by (simp add: submitted_def s2_def c'_def put_urb_def tick_up_def urb_transfer_def)
qed

section \<open>Properties\<close>

text \<open>
  C13. The parser: a buffer holding a non-empty sequence of well-formed messages, each padded
  to four bytes and possibly followed by zeros, is handled as exactly that sequence: the
  messages are performed one after the other in the order they arrived, each after an error
  check, and the first failed check drops the rest.
\<close>

theorem MESSAGE_Parsing_correct:
  assumes "\<forall>m \<in> set ms. message_wf m" and "ms \<noteq> []" and "z = 0 \<or> 4 \<le> z"
  shows "MESSAGE_Parsing k P (Some (concat (map message_bytes ms) @ replicate z 0))
     (length (concat (map message_bytes ms)) + z) c = run_messages k P ms c"
  using parse_messages_run [OF assms, of k P "[]" c] by (simp add: MESSAGE_Parsing_def)

definition demo_messages :: "message list" where
  "demo_messages = [RegisterReadCompletion 0x20 0x40 0 0xABCD,
     MemoryWrite 0x01000502 0x00200000 0 [1, 2, 3, 4, 5]]"

lemma demo_messages_wf: "\<forall>m \<in> set demo_messages. message_wf m"
  by (simp add: demo_messages_def get_field_def MEM_WR_TAG_EVT_MGR_def drop_bit_eq_div take_bit_eq_mod)

text \<open>The driver of an idle device, with the given lower layer.\<close>

definition idle_hc :: "ehub \<Rightarrow> hc" where
  "idle_hc s = busy_hc\<lparr>hcd := s, devs := Map.empty, urbs := Map.empty\<rparr>"

lemma idle_hc_simps [simp]: "hcd (idle_hc s) = s" "(idle_hc s)\<lparr>hcd := t\<rparr> = idle_hc t"
  by (simp_all add: idle_hc_def)

theorem MESSAGE_Parsing_correct_witness:
  "\<exists>c. MESSAGE_Parsing quiet_env demo_params
       (Some (concat (map message_bytes demo_messages) @ replicate 8 0))
       (length (concat (map message_bytes demo_messages)) + 8) (idle_hc ready_ehub) = Some c
     \<and> DataEmbeddedRegisterRead (hcd c) = 0xABCD \<and> CompletionEventEmbeddedRegisterRead (hcd c) = 1
     \<and> kernel_writes (hcd c) = [(0x00200000, [1, 2, 3, 4, 5])]"
proof -
  let ?s = "ready_ehub\<lparr>DataEmbeddedRegisterRead := 0xABCD, CompletionEventEmbeddedRegisterRead := 1\<rparr>"
  have ok: "device_ok ?s" using ready_ehub_ok by (simp add: device_ok_def interface_bound_def)
  have "write_memory quiet_env (trb_ptr_to_addr 0x00200000 0) [1, 2, 3, 4, 5] ?s
      = (tick_up ?s)\<lparr>kernel_writes := [(0x00200000, [1, 2, 3, 4, 5])]\<rparr>"
    by (simp add: write_memory_def trb_ptr_to_addr_def EHUB_MIN_VALID_VADDR_def demo_defs)
  moreover have "complete_register_read quiet_env 0x40 0xABCD ready_ehub = ?s"
    by (simp add: complete_register_read_def EMBEDDED_HOST_MFINDEX_REG_ADDRESS_def demo_defs)
  ultimately have "run_messages quiet_env demo_params demo_messages (idle_hc ready_ehub)
      = Some (idle_hc ((tick_up ?s)\<lparr>kernel_writes := [(0x00200000, [1, 2, 3, 4, 5])]\<rparr>))"
    using ok by (simp add: demo_messages_def with_hcd_def)
  then show ?thesis
    using MESSAGE_Parsing_correct [OF demo_messages_wf, of 8 quiet_env demo_params "idle_hc ready_ehub"]
    by (simp add: demo_messages_def tick_up_def)
qed

text \<open>
  C31. A message that is cut short by the end of the buffer is read beyond it: the parser never
  compares the length of a message with what is left of the buffer.
\<close>

theorem MESSAGE_Parsing_truncated_faults:
  assumes "m = RegisterReadCompletion h a r d \<or> m = MemoryReadRequest h a r" and "message_wf m"
    and "device_ok (hcd c)" and "4 \<le> n" and "n < length (message_bytes m)"
  shows "MESSAGE_Parsing k P (Some (take n (message_bytes m))) n c = None"
proof -
  obtain len where t: "MESSAGE_GetType h = (message_kind m, len)"
    using GetType_wf [OF assms(2)] assms(1) by auto
  have h: "read32 (take n (message_bytes m)) 0 = Some h"
    using assms(1,4,5) by (auto simp: read32_def min_def)
  have "h \<noteq> 0" using wf_header_nonzero [OF assms(2)] assms(1) by auto
  moreover have "MESSAGE_Handle k P (take n (message_bytes m)) 0 (message_kind m) c = None"
    using assms(1,3,5)
    by (auto simp: with_hcd_def MESSAGE_Handle_def MESSAGE_HandleMessage_EMBEDDED_REGISTER_READ_COMPLETION_def
        MESSAGE_HandleMessage_EMBEDDED_MEMORY_READ_COMPLETION_def read32_def Option.bind_eq_None_conv)
  ultimately show ?thesis
    using h t assms(3) by (simp add: MESSAGE_Parsing_def parse_messages.simps)
qed

theorem MESSAGE_Parsing_truncated_faults_witness:
  "MESSAGE_Parsing quiet_env demo_params
     (Some (take 8 (message_bytes (MemoryReadRequest 0x0401 0x200000 0)))) 8 (idle_hc ready_ehub) = None"
  by (rule MESSAGE_Parsing_truncated_faults [where h = "0x0401" and a = "0x200000" and r = 0])
    (simp_all add: get_field_def drop_bit_eq_div take_bit_eq_mod)

text \<open>
  C16. A memory read request of the device is answered with one transfer: the four bytes of the
  request's command echoed, followed by exactly the bytes that were read at the 64-bit address of
  the request; the next request takes the next context of the ring of eight. The memory is
  readable, the answer fits the buffer of the context, and the kernel accepts the submission.
\<close>

theorem memory_read_answered:
  assumes wf: "message_wf (MemoryReadRequest h lo hi)" and ok: "device_ok (hcd c)"
    and ready: "memory_read_ready p sz a (hcd c)" and n: "n = unat (get_field EMC_Length h)" "4 + n \<le> sz"
    and mem: "probe_kernel_read k (Suc (tick (hcd c))) (trb_ptr_to_addr lo hi) n = (0, xs)" "length xs = n"
    and "\<not> lock_interrupted k (tick (hcd c))" and "0 \<le> usb_submit_urb k (Suc (Suc (tick (hcd c))))"
  shows "\<exists>t. MESSAGE_Parsing k P (Some (message_bytes (MemoryReadRequest h lo hi))) 12 c
       = Some (c\<lparr>hcd := t\<rparr>)
     \<and> usb_log t = usb_log (hcd c) @ [(p, le32 h @ xs)]
     \<and> CurrentEmbeddedMemoryReadCompletionUrbContextIndex t
         = Suc (CurrentEmbeddedMemoryReadCompletionUrbContextIndex (hcd c)) mod NUMBER_OF_MESSAGE_BULK"
proof -
  define s where "s = hcd c"
  let ?i = "CurrentEmbeddedMemoryReadCompletionUrbContextIndex s"
  let ?s1 = "(tick_up s)\<lparr>MessageHandleEmbeddedMemoryReadCompletionLock := True\<rparr>
     \<lparr>CurrentEmbeddedMemoryReadCompletionUrbContextIndex := Suc ?i mod NUMBER_OF_MESSAGE_BULK,
      MessageHandleEmbeddedMemoryReadCompletionLock := False\<rparr>"
  obtain x u buf where x: "urb_contexts s a = Some x" "uc_Urb x = Some u" "urb_pipe u = p"
    "uc_DataBuffer x = Some buf" "length buf = sz"
    using ready by (auto simp: memory_read_ready_def Let_def s_def)
  have next_ctx: "next_memory_read_context k s = Some (Some a, ?s1)"
    using ready assms(8) by (simp add: next_memory_read_context_def lock_memory_read_def
        memory_read_ready_def tick_up_def Let_def s_def)
  obtain t where t: "answer_memory_read k h (trb_ptr_to_addr lo hi) a ?s1 = Some t"
    "usb_log t = usb_log ?s1 @ [(p, le32 h @ xs)]"
    "CurrentEmbeddedMemoryReadCompletionUrbContextIndex t
      = CurrentEmbeddedMemoryReadCompletionUrbContextIndex ?s1"
    using answer_memory_read_ok [of ?s1 a x u p buf n h k "trb_ptr_to_addr lo hi" xs] x n mem assms(9)
    by (auto simp: tick_up_def s_def)
  have "MESSAGE_Parsing k P (Some (message_bytes (MemoryReadRequest h lo hi))) 12 c
      = run_messages k P [MemoryReadRequest h lo hi] c"
    using parse_messages_run [of "[MemoryReadRequest h lo hi]" 0 k P "[]" c] wf
    by (simp add: MESSAGE_Parsing_def)
  also have "\<dots> = Some (c\<lparr>hcd := t\<rparr>)"
    using ok next_ctx t(1) by (simp add: with_hcd_def read_memory_def s_def)
  finally show ?thesis using t(2,3) by (intro exI [of _ t]) (simp add: tick_up_def s_def)
qed

definition demo_memory_read :: ehub where
  "demo_memory_read = ready_ehub\<lparr>next_addr := 1,
     UrbContextEmbeddedMemoryReadCompletion := Some 0 # replicate 7 None,
     urb_contexts := [0 \<mapsto> new_URB_CONTEXT (Pipe PIPE_BULK False 3) 64
       URB_CompletionRoutine_Simple_ptr None 0]\<rparr>"

lemma demo_memory_read_ready:
  "memory_read_ready (Pipe PIPE_BULK False 3) 64 0 demo_memory_read" "device_ok demo_memory_read"
  by (simp_all add: demo_memory_read_def memory_read_ready_def new_URB_CONTEXT_def demo_defs
      device_ok_def interface_bound_def)

lemma demo_probe:
  "probe_kernel_read quiet_env n address 4 = (0, [0, 0, 0, 0])"
proof -
  have "replicate 4 (0 :: u8) = [0, 0, 0, 0]" by (simp add: numeral_eq_Suc)
  then show ?thesis by (simp add: quiet_env_def)
qed

theorem memory_read_answered_witness:
  "\<exists>t. MESSAGE_Parsing quiet_env demo_params (Some (message_bytes (MemoryReadRequest 0x0401 0x200000 0))) 12
       (idle_hc demo_memory_read) = Some (idle_hc t)
     \<and> usb_log t = [(Pipe PIPE_BULK False 3, le32 0x0401 @ [0, 0, 0, 0])]"
proof -
  let ?h = "0x0401 :: u32"
  have wf: "message_wf (MemoryReadRequest ?h 0x200000 0)"
    and n: "4 = unat (get_field EMC_Length ?h)"
    by (simp_all add: get_field_def drop_bit_eq_div take_bit_eq_mod)
  have "usb_log demo_memory_read = []" by (simp add: demo_memory_read_def demo_defs)
  then show ?thesis
    using memory_read_answered [OF wf _ _ n, of "idle_hc demo_memory_read" _ _ _ quiet_env, simplified idle_hc_simps,
        OF demo_memory_read_ready(2,1) _ demo_probe]
    by (auto simp: quiet_env_def)
qed

text \<open>
  C32. The length a memory read asks for is not compared with the buffer: when the command and
  the data do not fit and the memory asked for is readable, the copy overruns the buffer of the
  context.
\<close>

theorem memory_read_overruns:
  assumes "message_wf (MemoryReadRequest h lo hi)" and "device_ok (hcd c)"
    and "memory_read_ready p sz a (hcd c)" and "sz < 4 + n" and "n = unat (get_field EMC_Length h)"
    and "probe_kernel_read k (Suc (tick (hcd c))) (trb_ptr_to_addr lo hi) n = (st, xs)" and "length xs = n"
    and "\<not> lock_interrupted k (tick (hcd c))"
  shows "MESSAGE_Parsing k P (Some (message_bytes (MemoryReadRequest h lo hi))) 12 c = None"
proof -
  obtain s1 where s1: "next_memory_read_context k (hcd c) = Some (Some a, s1)"
    "urb_contexts s1 = urb_contexts (hcd c)" "tick s1 = Suc (tick (hcd c))"
    using assms(3,8) by (auto simp: next_memory_read_context_def lock_memory_read_def
        memory_read_ready_def tick_up_def Let_def)
  obtain x u buf where x: "urb_contexts (hcd c) a = Some x" "uc_Urb x = Some u" "uc_DataBuffer x = Some buf"
    "length buf = sz"
    using assms(3) by (auto simp: memory_read_ready_def Let_def)
  have "answer_memory_read k h (trb_ptr_to_addr lo hi) a s1 = None"
  proof (cases "write32 buf 0 h")
    case (Some b1)
    then have "write_bytes b1 4 (take n xs) = None"
      using write32_length [OF Some] x(4) assms(4,7) by (simp add: write_bytes_def)
    then show ?thesis
      using Some s1(2,3) x assms(6)
      by (simp add: answer_memory_read_def Let_def assms(5) [symmetric] write_bytes_def)
  qed (use s1(2) x in \<open>simp add: answer_memory_read_def del: write32_None_iff\<close>)
  moreover have "MESSAGE_Parsing k P (Some (message_bytes (MemoryReadRequest h lo hi))) 12 c
      = run_messages k P [MemoryReadRequest h lo hi] c"
    using parse_messages_run [of "[MemoryReadRequest h lo hi]" 0 k P "[]" c] assms(1)
    by (simp add: MESSAGE_Parsing_def)
  ultimately show ?thesis using assms(2) s1(1) by (simp add: with_hcd_def read_memory_def)
qed

theorem memory_read_overruns_witness:
  "MESSAGE_Parsing quiet_env demo_params (Some (message_bytes (MemoryReadRequest 0x400001 0x200000 0))) 12
     (idle_hc demo_memory_read) = None"
proof -
  have wf: "message_wf (MemoryReadRequest 0x400001 0x200000 0)"
    and n: "0x4000 = unat (get_field EMC_Length (0x400001 :: u32))"
    by (simp_all add: get_field_def drop_bit_eq_div take_bit_eq_mod)
  have mem: "probe_kernel_read quiet_env (Suc (tick demo_memory_read)) (trb_ptr_to_addr 0x200000 0) 0x4000
      = (0, replicate 0x4000 0)" "\<not> lock_interrupted quiet_env (tick demo_memory_read)"
    by (simp_all add: quiet_env_def)
  show ?thesis
    by (rule memory_read_overruns [where c = "idle_hc demo_memory_read", simplified idle_hc_simps,
          OF wf demo_memory_read_ready(2,1) _ n mem(1) _ mem(2)]) simp_all
qed

end
