(* ===== verification/Xhci_Giveback.thy ===== *)
theory Xhci_Giveback
  imports Xhci_Cancel_Props
begin

text \<open>
  Every URB is given back once: the operations of the driver are steps of a relation that says
  which URBs leave the driver, and the steps of the whole driver are put together. The same
  relation carries the table of device contexts, which the controller follows to the output
  context of each slot.
\<close>

section \<open>The table of device contexts\<close>

text \<open>Each slot leads the controller to the output context of its device, an empty slot nowhere. Slot 0
  is reserved; its entry is for the scratchpad of the controller.\<close>

definition slots_ok :: "hc \<Rightarrow> bool" where
  "slots_ok c \<longleftrightarrow> (\<forall>slot. slot \<noteq> 0 \<longrightarrow> dcbaa c slot = (case devs c slot of None \<Rightarrow> 0 | Some vd \<Rightarrow> ctx_dma (out_ctx vd)))"

lemma slots_update [simp]:
  "slots_ok (c\<lparr>hcd := s\<rparr>) = slots_ok c" "slots_ok (c\<lparr>cmdq := q\<rparr>) = slots_ok c" "slots_ok (c\<lparr>event_ring := r\<rparr>) = slots_ok c"
  "slots_ok (c\<lparr>commands := m\<rparr>) = slots_ok c" "slots_ok (c\<lparr>next_cmd := n\<rparr>) = slots_ok c" "slots_ok (c\<lparr>completed_cmds := l\<rparr>) = slots_ok c"
  "slots_ok (c\<lparr>slot_answer := w\<rparr>) = slots_ok c" "slots_ok (c\<lparr>bandwidth_isoc_reqs := i\<rparr>) = slots_ok c" "slots_ok (c\<lparr>hc_died := b\<rparr>) = slots_ok c"
  "slots_ok (c\<lparr>num_active_eps := w\<rparr>) = slots_ok c" "slots_ok (c\<lparr>port_events := e\<rparr>) = slots_ok c" "slots_ok (c\<lparr>wakeups := v\<rparr>) = slots_ok c"
  "slots_ok (c\<lparr>bw := w'\<rparr>) = slots_ok c" "slots_ok (c\<lparr>urbs := us\<rparr>) = slots_ok c" "slots_ok (c\<lparr>giveback_log := gl\<rparr>) = slots_ok c"
  "slots_ok (c\<lparr>error_bitmask := w\<rparr>) = slots_ok c" "slots_ok (c\<lparr>lpm_command := oc\<rparr>) = slots_ok c"
  by (simp_all add: slots_ok_def)

lemma slots_put_ep [simp]: "slots_ok (put_ep slot i ep c) = slots_ok c"
proof -
  have "(case devs (put_ep slot i ep c) s of None \<Rightarrow> 0 | Some vd \<Rightarrow> ctx_dma (out_ctx vd)) = (case devs c s of None \<Rightarrow> 0 | Some vd \<Rightarrow> ctx_dma (out_ctx vd))" for s
    by (auto simp: put_ep_def split: option.splits)
  then show ?thesis by (simp add: slots_ok_def) (simp add: put_ep_def)
qed

lemmas slots_put_ep_raw [simp] = slots_put_ep [unfolded put_ep_def]

lemma slots_map_ep_state [simp]: "slots_ok (map_ep_state f slot i c) = slots_ok c"
  by (simp add: map_ep_state_def)

text \<open>A device may change, but for the address of its output context.\<close>

lemma slots_replace:
  assumes "devs c slot = Some vd" and "ctx_dma (out_ctx vd') = ctx_dma (out_ctx vd)" and "slots_ok c"
  shows "slots_ok (c\<lparr>devs := (devs c)(slot \<mapsto> vd')\<rparr>)"
  using assms by (auto simp: slots_ok_def)

section \<open>The relation\<close>

text \<open>From \<open>c\<close> to \<open>c'\<close> exactly the URBs that were given back have left the driver, each of them
  once.\<close>

definition gives_back :: "hc \<Rightarrow> hc \<Rightarrow> bool" where
  "gives_back c c' \<longleftrightarrow> (slots_ok c \<longrightarrow> slots_ok c') \<and> (\<exists>new. giveback_log c' = giveback_log c @ new \<and> distinct (map fst new)
     \<and> dom (urbs c') \<inter> set (map fst new) = {} \<and> dom (urbs c) = dom (urbs c') \<union> set (map fst new))"

definition keeps_urbs :: "hc \<Rightarrow> hc \<Rightarrow> bool" where
  "keeps_urbs c c' \<longleftrightarrow> (slots_ok c \<longrightarrow> slots_ok c') \<and> giveback_log c' = giveback_log c \<and> dom (urbs c') = dom (urbs c)"

named_theorems keep_rules
named_theorems give_rules

lemma keeps_refl [simp, intro]: "keeps_urbs c c"
  by (simp add: keeps_urbs_def)

lemma keeps_trans: "keeps_urbs c c' \<Longrightarrow> keeps_urbs c' c'' \<Longrightarrow> keeps_urbs c c''"
  by (simp add: keeps_urbs_def)

lemma keeps_gives: "keeps_urbs c c' \<Longrightarrow> gives_back c c'"
  by (simp add: keeps_urbs_def gives_back_def)

lemma gives_refl [simp, intro]: "gives_back c c"
  by (simp add: keeps_gives)

lemma gives_trans:
  assumes "gives_back c c'" and "gives_back c' c''"
  shows "gives_back c c''"
proof -
  obtain new where n: "giveback_log c' = giveback_log c @ new" "distinct (map fst new)"
    "dom (urbs c') \<inter> set (map fst new) = {}" "dom (urbs c) = dom (urbs c') \<union> set (map fst new)"
    using assms(1) by (auto simp: gives_back_def)
  obtain new' where n': "giveback_log c'' = giveback_log c' @ new'" "distinct (map fst new')"
    "dom (urbs c'') \<inter> set (map fst new') = {}" "dom (urbs c') = dom (urbs c'') \<union> set (map fst new')"
    using assms(2) by (auto simp: gives_back_def)
  have "set (map fst new) \<inter> set (map fst new') = {}" "dom (urbs c'') \<inter> set (map fst new) = {}" using n(3) n'(4) by blast+
  then show ?thesis using n n' assms unfolding gives_back_def by (intro conjI exI [of _ "new @ new'"]) auto
qed

lemma keeps_gives_trans: "keeps_urbs c c' \<Longrightarrow> gives_back c' c'' \<Longrightarrow> gives_back c c''"
  using gives_trans keeps_gives by blast

lemma gives_keeps_trans: "gives_back c c' \<Longrightarrow> keeps_urbs c' c'' \<Longrightarrow> gives_back c c''"
  using gives_trans keeps_gives by blast

text \<open>What the state keeps when a field is changed.\<close>

lemma keeps_put [simp]:
  "keeps_urbs c (put_ep slot i ep c') = keeps_urbs c c'" "keeps_urbs c (map_ep_state f slot i c') = keeps_urbs c c'"
  "keeps_urbs (put_ep slot i ep c) c' = keeps_urbs c c'" "keeps_urbs (map_ep_state f slot i c) c' = keeps_urbs c c'"
  "keeps_urbs c (ehub_xhci_free_command cmd c') = keeps_urbs c c'" "keeps_urbs c (set_error n c') = keeps_urbs c c'"
  by (simp_all add: keeps_urbs_def put_ep_def map_ep_state_def ehub_xhci_free_command_def set_error_def)

lemma gives_put [simp]:
  "gives_back c (put_ep slot i ep c') = gives_back c c'" "gives_back (put_ep slot i ep c) c' = gives_back c c'"
  "gives_back c (map_ep_state f slot i c') = gives_back c c'" "gives_back (map_ep_state f slot i c) c' = gives_back c c'"
  "gives_back c (set_error n c') = gives_back c c'" "gives_back (set_error n c) c' = gives_back c c'"
  by (simp_all add: gives_back_def put_ep_def map_ep_state_def set_error_def)

lemma keeps_update [simp]:
  "keeps_urbs c (c'\<lparr>hcd := s\<rparr>) = keeps_urbs c c'" "keeps_urbs c (c'\<lparr>cmdq := q\<rparr>) = keeps_urbs c c'"
  "keeps_urbs c (c'\<lparr>event_ring := r\<rparr>) = keeps_urbs c c'"
  "keeps_urbs c (c'\<lparr>commands := m\<rparr>) = keeps_urbs c c'" "keeps_urbs c (c'\<lparr>next_cmd := n\<rparr>) = keeps_urbs c c'"
  "keeps_urbs c (c'\<lparr>completed_cmds := l\<rparr>) = keeps_urbs c c'" "keeps_urbs c (c'\<lparr>slot_answer := w\<rparr>) = keeps_urbs c c'"
  "keeps_urbs c (c'\<lparr>bandwidth_isoc_reqs := i\<rparr>) = keeps_urbs c c'" "keeps_urbs c (c'\<lparr>hc_died := b\<rparr>) = keeps_urbs c c'"
  "keeps_urbs c (c'\<lparr>num_active_eps := w\<rparr>) = keeps_urbs c c'" "keeps_urbs c (c'\<lparr>port_events := e\<rparr>) = keeps_urbs c c'"
  "keeps_urbs c (c'\<lparr>wakeups := v\<rparr>) = keeps_urbs c c'" "keeps_urbs c (c'\<lparr>bw := w'\<rparr>) = keeps_urbs c c'"
  by (simp_all add: keeps_urbs_def)

lemma keeps_update_before [simp]:
  "keeps_urbs (c\<lparr>hcd := s\<rparr>) c' = keeps_urbs c c'" "keeps_urbs (c\<lparr>cmdq := q\<rparr>) c' = keeps_urbs c c'"
  "keeps_urbs (c\<lparr>commands := m\<rparr>) c' = keeps_urbs c c'"
  by (simp_all add: keeps_urbs_def)

lemma gives_update [simp]:
  "gives_back (c\<lparr>hcd := s\<rparr>) c' = gives_back c c'" "gives_back (c\<lparr>cmdq := q\<rparr>) c' = gives_back c c'"
  "gives_back c (c'\<lparr>hc_died := b\<rparr>) = gives_back c c'" "gives_back c (c'\<lparr>cmdq := q\<rparr>) = gives_back c c'"
  "gives_back (c\<lparr>event_ring := r\<rparr>) c' = gives_back c c'"
  by (simp_all add: gives_back_def)

lemma keeps_urb [simp]: "urbs c u = Some x \<Longrightarrow> keeps_urbs c (c\<lparr>urbs := (urbs c)(u \<mapsto> y)\<rparr>)"
  by (auto simp: keeps_urbs_def)

lemma keeps_replace:
  "devs c slot = Some vd \<Longrightarrow> ctx_dma (out_ctx vd') = ctx_dma (out_ctx vd) \<Longrightarrow> keeps_urbs c (c\<lparr>devs := (devs c)(slot \<mapsto> vd')\<rparr>)"
  by (auto simp: keeps_urbs_def intro: slots_replace)

section \<open>Operations that give nothing back\<close>

lemma with_hcd_keeps [keep_rules]: "with_hcd f c = Some c' \<Longrightarrow> keeps_urbs c c'"
  by (auto simp: with_hcd_def)

lemma run_command_keeps [keep_rules]: "run_command f c = Some (ret, c') \<Longrightarrow> keeps_urbs c c'"
  by (auto simp: run_command_def keeps_urbs_def elim!: bind_eq_SomeE)

lemma alloc_command_keeps [keep_rules]: "ehub_xhci_alloc_command k a b c = (p, c') \<Longrightarrow> keeps_urbs c c'"
  by (auto simp: ehub_xhci_alloc_command_def Let_def keeps_urbs_def split: if_splits)

lemma doorbells_keeps [keep_rules]: "ring_doorbell_for_active_rings k slot i c = Some c' \<Longrightarrow> keeps_urbs c c'"
  by (auto simp: ring_doorbell_for_active_rings_def split: if_splits option.splits elim!: bind_eq_SomeE intro: with_hcd_keeps)

lemma clear_stopped_keeps [keep_rules]: "clear_stopped slot i c = Some c' \<Longrightarrow> keeps_urbs c c'"
  by (auto simp: clear_stopped_def)

lemma stop_watchdog_keeps [keep_rules]: "xhci_stop_watchdog_timer_in_irq slot i c = Some c' \<Longrightarrow> keeps_urbs c c'"
  by (auto simp: xhci_stop_watchdog_timer_in_irq_def Let_def elim!: bind_eq_SomeE)

lemma set_skip_keeps [keep_rules]: "set_skip slot i b c = Some c' \<Longrightarrow> keeps_urbs c c'"
  by (auto simp: set_skip_def)

lemma queue_new_dequeue_keeps [keep_rules]:
  assumes "ehub_xhci_queue_new_dequeue_state k P slot i stream r pos cs c = Some c'"
  shows "keeps_urbs c c'"
  using assms
  by (auto simp: ehub_xhci_queue_new_dequeue_state_def Let_def split: if_splits prod.splits option.splits
      elim!: bind_eq_SomeE dest!: alloc_command_keeps run_command_keeps; simp add: keeps_urbs_def)

lemma quirk_keeps_out_ctx: "xhci_setup_input_ctx_for_quirk i addr cs vd = Some vd' \<Longrightarrow> out_ctx vd' = out_ctx vd"
  by (auto simp: xhci_setup_input_ctx_for_quirk_def Let_def split: if_splits elim!: bind_eq_SomeE)

lemma cleanup_stalled_keeps [keep_rules]:
  "ehub_xhci_cleanup_stalled_ring k P slot i td c = Some c' \<Longrightarrow> keeps_urbs c c'"
  by (auto simp: ehub_xhci_cleanup_stalled_ring_def split: if_splits option.splits elim!: bind_eq_SomeE
      dest!: queue_new_dequeue_keeps quirk_keeps_out_ctx intro!: keeps_replace)

lemma cleanup_halted_keeps [keep_rules]:
  assumes "xhci_cleanup_halted_endpoint k P slot i stream td c = Some c'"
  shows "keeps_urbs c c'"
  using assms
  by (auto simp: xhci_cleanup_halted_endpoint_def Let_def split: prod.splits option.splits elim!: bind_eq_SomeE
      dest!: alloc_command_keeps run_command_keeps cleanup_stalled_keeps with_hcd_keeps; simp add: keeps_urbs_def)

lemma restart_keeps [keep_rules]: "restart_or_set_deq k P slot i st c = Some c' \<Longrightarrow> keeps_urbs c c'"
  by (auto simp: restart_or_set_deq_def split: option.splits prod.splits elim!: bind_eq_SomeE
      dest!: doorbells_keeps queue_new_dequeue_keeps with_hcd_keeps intro: keeps_trans)

lemma cancel_td_keeps: "cancel_td slot i td (st, c) = Some (st', c') \<Longrightarrow> keeps_urbs c c'"
  by (auto simp: cancel_td_def split: option.splits if_splits elim!: bind_eq_SomeE)

lemma cancel_tds_keeps [keep_rules]: "cancel_tds slot i tds (st, c) = Some (st', c') \<Longrightarrow> keeps_urbs c c'"
  by (induction tds arbitrary: st c) (auto elim!: bind_eq_SomeE dest!: cancel_td_keeps intro: keeps_trans)
section \<open>Giving back\<close>

lemma free_priv_urbs: "ehub_xhci_urb_free_priv u c = Some c' \<Longrightarrow> u \<in> dom (urbs c) \<and> urbs c' = (urbs c)(u := None) \<and> giveback_log c' = giveback_log c
     \<and> slots_ok c' = slots_ok c"
  by (auto simp: ehub_xhci_urb_free_priv_def elim!: bind_eq_SomeE)

text \<open>A URB that is freed and given back, in either order.\<close>

lemma give_one:
  assumes "u \<in> dom (urbs c)" and "urbs c' = (urbs c)(u := None)" and "giveback_log c' = giveback_log c @ [(u, st, len)]"
    and "slots_ok c \<Longrightarrow> slots_ok c'"
  shows "gives_back c c'"
  using assms unfolding gives_back_def by (intro conjI exI [of _ "[(u, st, len)]"]) auto

lemma giveback_in_irq_gives [give_rules]:
  assumes "xhci_giveback_urb_in_irq td st c = Some c'"
  shows "gives_back c c'"
proof -
  obtain x where x: "urbs c (td_urb td) = Some x" using assms by (auto simp: xhci_giveback_urb_in_irq_def Let_def elim!: bind_eq_SomeE)
  let ?x = "x\<lparr>tu_td_cnt := tu_td_cnt x + 1\<rparr>"
  let ?c = "c\<lparr>urbs := (urbs c)(td_urb td \<mapsto> ?x)\<rparr>"
  show ?thesis
  proof (cases "tu_td_cnt ?x = tu_length ?x")
    case True
    then obtain c2 where "ehub_xhci_urb_free_priv (td_urb td) (usb_hcd_giveback_urb (td_urb td) st (tu_actual_length x) c2) = Some c'" "keeps_urbs c c2"
      using assms x by (auto simp: xhci_giveback_urb_in_irq_def Let_def split: if_splits)
    then show ?thesis
      by (intro keeps_gives_trans [OF \<open>keeps_urbs c c2\<close>] give_one [where u = "td_urb td"])
        (auto dest!: free_priv_urbs simp: usb_hcd_giveback_urb_def)
  next
    case False
    then show ?thesis using assms x by (auto simp: xhci_giveback_urb_in_irq_def Let_def intro!: keeps_gives)
  qed
qed

lemma giveback_cancelled_gives [give_rules]: "giveback_cancelled slot i tds key c = Some c' \<Longrightarrow> gives_back c c'"
  by (induction tds arbitrary: c)
    (auto split: if_splits elim!: bind_eq_SomeE dest!: giveback_in_irq_gives intro: gives_trans)

lemma stop_ep_gives [give_rules]:
  assumes "xhci_handle_cmd_stop_ep k P slot trb c = Some c'"
  shows "gives_back c c'"
  using assms
  by (auto simp: xhci_handle_cmd_stop_ep_def Let_def split: if_splits elim!: bind_eq_SomeE
      dest!: keep_rules giveback_cancelled_gives; simp add: keeps_urbs_def gives_back_def)

lemma kill_tds_gives: "kill_tds slot i ref tds c = Some c' \<Longrightarrow> gives_back c c'"
  by (induction tds arbitrary: c)
    (auto simp: Let_def elim!: bind_eq_SomeE dest!: giveback_in_irq_gives intro: gives_trans)

lemma kill_ring_gives: "xhci_kill_ring_urbs slot i ref c = Some c' \<Longrightarrow> gives_back c c'"
  by (auto simp: xhci_kill_ring_urbs_def elim!: bind_eq_SomeE dest!: kill_tds_gives)

lemma kill_streams_gives: "kill_streams slot i n s c = Some c' \<Longrightarrow> gives_back c c'"
  by (induction n arbitrary: s c) (auto elim!: bind_eq_SomeE dest!: kill_ring_gives intro: gives_trans)

lemma kill_cancelled_gives: "kill_cancelled slot i tds c = Some c' \<Longrightarrow> gives_back c c'"
  by (induction tds arbitrary: c) (auto elim!: bind_eq_SomeE dest!: giveback_in_irq_gives intro: gives_trans)

lemma kill_endpoint_gives: "xhci_kill_endpoint_urbs slot i c = Some c' \<Longrightarrow> gives_back c c'"
  by (auto simp: xhci_kill_endpoint_urbs_def Let_def split: if_splits elim!: bind_eq_SomeE
      dest!: kill_streams_gives kill_ring_gives kill_cancelled_gives intro: gives_trans)

lemma kill_endpoints_gives: "kill_endpoints slot js c = Some c' \<Longrightarrow> gives_back c c'"
  by (induction js arbitrary: c) (auto elim!: bind_eq_SomeE dest!: kill_endpoint_gives intro: gives_trans)

lemma kill_slots_gives: "kill_slots is c = Some c' \<Longrightarrow> gives_back c c'"
  by (induction "is" arbitrary: c)
    (auto split: option.splits elim!: bind_eq_SomeE dest!: kill_endpoints_gives intro: gives_trans)

lemma watchdog_gives [give_rules]:
  "ehub_xhci_stop_endpoint_command_watchdog slot i primary c = Some c' \<Longrightarrow> gives_back c c'"
  by (auto simp: ehub_xhci_stop_endpoint_command_watchdog_def Let_def split: if_splits elim!: bind_eq_SomeE
      dest!: kill_slots_gives intro: keeps_gives)

lemma urb_dequeue_gives [give_rules]:
  assumes "ehub_xhci_urb_dequeue k P st na slot i u c = Some (ret, c')"
  shows "gives_back c c'"
proof (cases "st \<noteq> 0 \<or> urbs c u = None")
  case True
  then show ?thesis using assms by (auto simp: ehub_xhci_urb_dequeue_def)
next
  case False
  then obtain x ep where x: "urbs c u = Some x" "get_ep slot i c = Some ep" using assms
    by (auto simp: ehub_xhci_urb_dequeue_def elim!: bind_eq_SomeE)
  show ?thesis
  proof (cases "na \<or> xhc_state (hcd c) AND XHCI_STATE_HALTED \<noteq> 0")
    case True
    then obtain c1 where "ehub_xhci_urb_free_priv u (usb_hcd_giveback_urb u (- ESHUTDOWN) (tu_actual_length x) c1) = Some c'" "keeps_urbs c c1"
      using assms x False by (auto simp: ehub_xhci_urb_dequeue_def Let_def elim!: bind_eq_SomeE)
    then show ?thesis
      by (intro keeps_gives_trans [OF \<open>keeps_urbs c c1\<close>] give_one [where u = u])
        (auto dest!: free_priv_urbs simp: usb_hcd_giveback_urb_def)
  next
    case False
    then have "keeps_urbs c c'" using assms x \<open>\<not> (st \<noteq> 0 \<or> urbs c u = None)\<close>
      by (auto simp: ehub_xhci_urb_dequeue_def Let_def split: if_splits option.splits prod.splits elim!: bind_eq_SomeE
          dest!: keep_rules; simp add: keeps_urbs_def)
    then show ?thesis by (rule keeps_gives)
  qed
qed
section \<open>Events\<close>

lemma td_cleanup_keeps [keep_rules]: "td_cleanup slot i td st c = Some (res, c') \<Longrightarrow> keeps_urbs c c'"
  by (auto simp: td_cleanup_def Let_def elim!: bind_eq_SomeE)

lemma finish_td_keeps [keep_rules]:
  assumes "finish_td k P slot i ref ev sk td st c = Some (res, c')"
  shows "keeps_urbs c c'"
  using assms
  by (auto simp: finish_td_def Let_def split: if_splits elim!: bind_eq_SomeE dest!: keep_rules; simp add: keeps_urbs_def)

lemma set_actual_keeps [simp]:
  "keeps_urbs (set_actual u len c) c' = keeps_urbs c c'" "keeps_urbs c (set_actual u len c') = keeps_urbs c c'"
  by (auto simp: keeps_urbs_def set_actual_def dom_def)

lemma put_frame_keeps [simp]:
  "keeps_urbs (put_frame u idx fr len c) c' = keeps_urbs c c'" "keeps_urbs c (put_frame u idx fr len c') = keeps_urbs c c'"
  by (auto simp: keeps_urbs_def put_frame_def dom_def)

lemma ctrl_td_keeps [keep_rules]:
  assumes "process_ctrl_td k P slot i ref ev trb td st c = Some (res, c')"
  shows "keeps_urbs c c'"
  using assms by (auto simp: process_ctrl_td_def Let_def split: if_splits elim!: bind_eq_SomeE dest!: finish_td_keeps)

lemma isoc_td_keeps [keep_rules]:
  assumes "process_isoc_td k P slot i ref ev trb td st c = Some (res, c')"
  shows "keeps_urbs c c'"
  using assms by (auto simp: process_isoc_td_def Let_def split: if_splits elim!: bind_eq_SomeE dest!: finish_td_keeps)

lemma skip_isoc_keeps [keep_rules]:
  assumes "skip_isoc_td k P slot i ref ev td st c = Some (res, c')"
  shows "keeps_urbs c c'"
  using assms by (auto simp: skip_isoc_td_def Let_def split: if_splits elim!: bind_eq_SomeE dest!: finish_td_keeps)

lemma bulk_td_keeps [keep_rules]:
  assumes "process_bulk_intr_td k P slot i ref ev trb td st c = Some (res, c')"
  shows "keeps_urbs c c'"
  using assms by (auto simp: process_bulk_intr_td_def Let_def split: if_splits elim!: bind_eq_SomeE dest!: finish_td_keeps)

lemma tx_round_keeps [keep_rules]:
  assumes "tx_round k P slot i ref ev code ret st n c = Some (res, c')"
  shows "keeps_urbs c c'"
  using assms by (auto simp: tx_round_def Let_def split: list.splits option.splits if_splits elim!: bind_eq_SomeE dest!: keep_rules)

lemma free_and_give: "ehub_xhci_urb_free_priv u c = Some c' \<Longrightarrow> gives_back c (usb_hcd_giveback_urb u st len c')"
  by (rule give_one [where u = u and st = st and len = len]) (auto simp: usb_hcd_giveback_urb_def dest!: free_priv_urbs)

lemma tx_cleanup_gives [give_rules]:
  assumes "tx_cleanup slot i code ret td st c = Some (st', c')"
  shows "gives_back c c'"
  using assms
  by (auto simp: tx_cleanup_def Let_def keeps_gives split: if_splits elim!: bind_eq_SomeE
      intro: free_and_give free_and_give [where c = "c\<lparr>event_ring := r\<rparr>" for r, simplified])

lemma tx_loop_gives [give_rules]:
  assumes "tx_loop k P slot i ref ev code ret st n c = Some (res, c')"
  shows "gives_back c c'"
proof -
  have "gives_back c (snd y)" if "tx_loop k P slot i ref ev code ret st n c = Some y" for y
  proof (rule tx_loop.raw_induct [OF _ that, where Pa = "\<lambda>(_, c) y. gives_back c (snd y)", simplified])
    fix rec k P slot i ref ev code ret st n c y
    assume IH: "\<And>k P slot i ref ev code ret st n c y. rec k P slot i ref ev code ret st n c = Some y \<Longrightarrow> gives_back c (snd y)"
      and "do {
       (r, c1) \<leftarrow> tx_round k P slot i ref ev code ret st n c;
       (case r of
          Inl err \<Rightarrow> Some (err, c1)
        | Inr (ret1, td, status1, td_num1) \<Rightarrow> do {
            (status2, c2) \<leftarrow> tx_cleanup slot i code ret1 td status1 c1;
            ep \<leftarrow> get_ep slot i c2;
            if skip ep \<and> code \<noteq> COMP_MISSED_INT then rec k P slot i ref ev code ret1 status2 td_num1 c2 else Some (0, c2)
          }) } = Some y"
    then show "gives_back c (snd y)"
      by (auto split: sum.splits if_splits elim!: bind_eq_SomeE dest!: tx_round_keeps [THEN keeps_gives] tx_cleanup_gives IH;
          meson gives_trans)
  qed
  then show ?thesis using assms by force
qed
lemma tx_event_gives [give_rules]:
  assumes "ehub_handle_tx_event k P ev c = Some (ret, c')"
  shows "gives_back c c'"
  using assms
  by (auto simp: ehub_handle_tx_event_def Let_def split: option.splits if_splits elim!: bind_eq_SomeE
      dest!: set_skip_keeps [THEN keeps_gives] tx_cleanup_gives tx_loop_gives; meson gives_trans)

section \<open>Commands\<close>

lemma complete_cmd_keeps [keep_rules]: "xhci_complete_del_and_free_cmd cmd st c = Some c' \<Longrightarrow> keeps_urbs c c'"
  by (auto simp: xhci_complete_del_and_free_cmd_def Let_def split: if_splits elim!: bind_eq_SomeE)

lemma complete_all_keeps: "complete_all cmds st c = Some c' \<Longrightarrow> keeps_urbs c c'"
  by (induction cmds arbitrary: c) (auto elim!: bind_eq_SomeE dest!: complete_cmd_keeps intro: keeps_trans)

lemma noop_aborted_keeps: "noop_aborted xs c = Some c' \<Longrightarrow> keeps_urbs c c'"
proof (induction xs arbitrary: c)
  case (Cons x xs)
  from Cons.prems show ?case by (auto simp: Let_def split: if_splits elim!: bind_eq_SomeE dest!: Cons.IH)
qed auto

lemma stopped_cmd_ring_keeps [keep_rules]: "xhci_handle_stopped_cmd_ring k cur c = Some c' \<Longrightarrow> keeps_urbs c c'"
  by (auto simp: xhci_handle_stopped_cmd_ring_def Let_def split: if_splits elim!: bind_eq_SomeE
      dest!: noop_aborted_keeps with_hcd_keeps; simp add: keeps_urbs_def)

lemma cmd_timeout_keeps [keep_rules]: "ehub_xhci_handle_command_timeout k primary c = Some c' \<Longrightarrow> keeps_urbs c c'"
  by (auto simp: ehub_xhci_handle_command_timeout_def ehub_xhci_cleanup_command_queue_def Let_def
      split: if_splits option.splits elim!: bind_eq_SomeE dest!: complete_all_keeps stopped_cmd_ring_keeps; simp add: keeps_urbs_def)

lemma set_deq_done_keeps [keep_rules]: "set_deq_done k slot i c = Some c' \<Longrightarrow> keeps_urbs c c'"
  by (auto simp: set_deq_done_def elim!: bind_eq_SomeE dest!: doorbells_keeps)

lemma set_deq_keeps [keep_rules]: "xhci_handle_cmd_set_deq k slot trb code c = Some c' \<Longrightarrow> keeps_urbs c c'"
  by (auto simp: xhci_handle_cmd_set_deq_def Let_def split: option.splits if_splits elim!: bind_eq_SomeE dest!: set_deq_done_keeps)

lemma reset_ep_keeps [keep_rules]: "xhci_handle_cmd_reset_ep k P slot trb c = Some c' \<Longrightarrow> keeps_urbs c c'"
  by (auto simp: xhci_handle_cmd_reset_ep_def Let_def split: prod.splits option.splits if_splits elim!: bind_eq_SomeE
      dest!: alloc_command_keeps run_command_keeps with_hcd_keeps; simp add: keeps_urbs_def)

lemma config_ep_keeps [keep_rules]: "xhci_handle_cmd_config_ep k P slot c = Some c' \<Longrightarrow> keeps_urbs c c'"
  by (auto simp: xhci_handle_cmd_config_ep_def Let_def split: if_splits elim!: bind_eq_SomeE dest!: doorbells_keeps)

lemma free_stream_info_keeps: "ehub_xhci_free_stream_info p c = Some c' \<Longrightarrow> keeps_urbs c c'"
  by (auto simp: ehub_xhci_free_stream_info_def split: option.splits if_splits elim!: bind_eq_SomeE dest!: with_hcd_keeps)

lemma free_stream_info_slots: "ehub_xhci_free_stream_info p c = Some c'
  \<Longrightarrow> devs c' = devs c \<and> dcbaa c' = dcbaa c \<and> urbs c' = urbs c \<and> giveback_log c' = giveback_log c"
  by (auto simp: ehub_xhci_free_stream_info_def ehub_xhci_free_command_def with_hcd_def split: option.splits if_splits elim!: bind_eq_SomeE)

lemma free_endpoints_slots: "free_endpoints es c = Some c'
  \<Longrightarrow> devs c' = devs c \<and> dcbaa c' = dcbaa c \<and> urbs c' = urbs c \<and> giveback_log c' = giveback_log c"
  by (induction es arbitrary: c) (auto simp: with_hcd_def elim!: bind_eq_SomeE dest!: free_stream_info_slots)

lemma free_virt_device_keeps:
  assumes "ehub_xhci_free_virt_device slot c = Some c'"
  shows "giveback_log c' = giveback_log c" and "dom (urbs c') = dom (urbs c)"
    and "devs c' = (if slot = 0 then devs c else (devs c)(slot := None))"
    and "dcbaa c' = (if slot = 0 \<or> devs c slot = None then dcbaa c else (dcbaa c)(slot := 0))"
  using assms
  by (auto simp: ehub_xhci_free_virt_device_def split: if_splits option.splits elim!: bind_eq_SomeE dest!: free_endpoints_slots)

lemma free_virt_device_slots: "ehub_xhci_free_virt_device slot c = Some c' \<Longrightarrow> slots_ok c \<Longrightarrow> slots_ok c'"
  by (auto simp: slots_ok_def free_virt_device_keeps split: if_splits option.splits)

lemma disable_slot_keeps [keep_rules]: "xhci_handle_cmd_disable_slot P slot c = Some c' \<Longrightarrow> keeps_urbs c c'"
  by (auto simp: xhci_handle_cmd_disable_slot_def ehub_xhci_free_device_endpoint_resources_def keeps_urbs_def
      free_virt_device_keeps split: option.splits if_splits dest: free_virt_device_slots)

lemma cmd_type_gives [give_rules]:
  assumes "handle_cmd_type k P slot trb obj code c = Some (code', c')"
  shows "gives_back c c'"
  using assms
  by (auto simp: handle_cmd_type_def Let_def xhci_handle_cmd_enable_slot_def xhci_handle_cmd_nec_get_fw_def keeps_gives
      split: if_splits dest!: keep_rules intro: stop_ep_gives)

lemma finish_command_keeps [keep_rules]: "finish_command cmd code c = Some c' \<Longrightarrow> keeps_urbs c c'"
  by (auto simp: finish_command_def elim!: bind_eq_SomeE dest!: complete_cmd_keeps)

lemma next_command_keeps [simp]: "keeps_urbs (next_command cmd c) c' = keeps_urbs c c'"
  by (auto simp: next_command_def keeps_urbs_def split: list.splits)

lemma cmd_completion_gives [give_rules]:
  assumes "handle_cmd_completion k P ev c = Some c'"
  shows "gives_back c c'"
  using assms
  by (auto simp: handle_cmd_completion_def Let_def split: if_splits list.splits elim!: bind_eq_SomeE
      dest!: keep_rules cmd_type_gives; (simp add: keeps_urbs_def gives_back_def)?)

lemma handle_event_gives [give_rules]:
  assumes "ehub_xhci_handle_event k P event c = Some c'"
  shows "gives_back c c'"
  using assms
  by (auto simp: ehub_xhci_handle_event_def handle_vendor_event_def handle_device_notification_def ehub_xhci_queue_port_status_event_def Let_def
      keeps_gives split: if_splits option.splits dest!: cmd_completion_gives tx_event_gives)

end
