(* ===== verification/Xhci_Work.thy ===== *)
theory Xhci_Work
  imports Xhci_Giveback
begin

text \<open>
  The interrupt path of the ring layer never touches the work items of the eHub layer: whatever
  event the controller reports, the handler leaves the items, their queues and their lock as they are.
\<close>

section \<open>The relation\<close>

definition same_work :: "ehub \<Rightarrow> ehub \<Rightarrow> bool" where
  "same_work s t \<longleftrightarrow> work_items t = work_items s \<and> WorkItemQueue t = WorkItemQueue s
     \<and> WorkItemProcessingQueue t = WorkItemProcessingQueue s \<and> SpinLockWorkItemQueue t = SpinLockWorkItemQueue s"

definition keeps_work :: "hc \<Rightarrow> hc \<Rightarrow> bool" where
  "keeps_work c c' \<longleftrightarrow> same_work (hcd c) (hcd c')"

named_theorems work_rules

lemma same_work_refl [simp, intro]: "same_work s s"
  by (simp add: same_work_def)

lemma same_work_trans: "same_work s t \<Longrightarrow> same_work t u \<Longrightarrow> same_work s u"
  by (simp add: same_work_def)

lemma keeps_work_refl [simp, intro]: "keeps_work c c"
  by (simp add: keeps_work_def)

lemma keeps_work_trans: "keeps_work c c' \<Longrightarrow> keeps_work c' c'' \<Longrightarrow> keeps_work c c''"
  by (simp add: keeps_work_def same_work_def)

section \<open>Transfers and doorbells\<close>

lemma Submit_same_work: "URB_Submit k p s = Some (st, t) \<Longrightarrow> same_work s t"
  by (auto simp: same_work_def submitted_def elim!: URB_Submit_Some)

lemma Create_same_work: "URB_Create k pipe len rtn ctx s = Some (r, t) \<Longrightarrow> same_work s t"
  by (auto simp: same_work_def elim!: URB_Create_cases)

lemma doorbell_expand_same_work: "doorbell_expand_loop k n i s = Some (m, t) \<Longrightarrow> same_work s t"
proof (induction n arbitrary: i s)
  case (Suc n)
  from Suc.prems show ?case
    by (auto split: option.splits elim!: bind_eq_SomeE dest!: Create_same_work Suc.IH) (simp add: same_work_def)
qed simp

lemma Write_Doorbell_same_work:
  "EMBEDDED_REGISTER_Write_Doorbell k addr data s = Some (r, t) \<Longrightarrow> same_work s t"
  by (auto simp: EMBEDDED_REGISTER_Write_Doorbell_def ehub_xhci_doorbell_expand_def lock_doorbell_def unlock_doorbell_def
      put_register_write_def doorbell_to_busy_def register_exit_def put_urb_def spin_defs
      split: if_splits list.splits elim!: bind_eq_SomeE dest!: doorbell_expand_same_work Submit_same_work;
      simp add: same_work_def)

lemma writel_doorbell_same_work: "ehub_xhci_writel_doorbell k v regs s = Some t \<Longrightarrow> same_work s t"
  by (auto simp: ehub_xhci_writel_doorbell_def split: if_splits elim!: bind_eq_SomeE dest!: Write_Doorbell_same_work)

lemma ring_doorbells_same_work [work_rules]:
  "ehub_xhci_ring_cmd_db k s = Some t \<Longrightarrow> same_work s t"
  "ehub_xhci_ring_ep_doorbell k slot i stream s = Some t \<Longrightarrow> same_work s t"
  by (auto simp: ehub_xhci_ring_cmd_db_def ehub_xhci_ring_cmd_db_low_def ehub_xhci_ring_ep_doorbell_def Let_def
      split: if_splits dest: writel_doorbell_same_work)

lemma stream_doorbells_same_work [work_rules]: "ring_stream_doorbells k slot i n st si s = Some t \<Longrightarrow> same_work s t"
proof (induction n arbitrary: st s)
  case (Suc n)
  from Suc.prems show ?case
    by (auto split: if_splits option.splits elim!: bind_eq_SomeE dest!: ring_doorbells_same_work Suc.IH intro: same_work_trans)
qed simp

section \<open>Cache writes\<close>

lemma work_expand_same_work: "cache_work_expand_loop k n i s = Some (m, t) \<Longrightarrow> same_work s t"
proof (induction n arbitrary: i s)
  case (Suc n)
  from Suc.prems show ?case
    by (auto simp: tick_up_def Let_def split: option.splits if_splits elim!: bind_eq_SomeE dest!: Create_same_work Suc.IH;
        simp add: same_work_def)
qed simp

lemma get_work_same_work: "ehub_get_cache_work_context k s = Some (p, t) \<Longrightarrow> same_work s t"
  by (auto simp: ehub_get_cache_work_context_def ehub_xhci_cache_work_expand_def lock_cache_list_def unlock_cache_list_def
      work_to_used_def spin_defs split: if_splits list.splits elim!: bind_eq_SomeE dest!: work_expand_same_work;
      simp add: same_work_def)

lemma Cache_Write_same_work: "EMBEDDED_CACHE_Write k p addr data len cs s = Some (st, t) \<Longrightarrow> same_work s t"
  by (auto simp: EMBEDDED_CACHE_Write_def put_urb_def split: if_splits elim!: bind_eq_SomeE dest!: Submit_same_work;
      simp add: same_work_def)

lemma queue_cache_write_same_work:
  "ehub_queue_cache_write k addr data len cs rd slot i stream s = Some (st, t) \<Longrightarrow> same_work s t"
  by (auto simp: ehub_queue_cache_write_def split: if_splits option.splits elim!: bind_eq_SomeE
      dest!: get_work_same_work Cache_Write_same_work; simp add: same_work_def)

section \<open>Rings\<close>

lemma block_free_same_work: "ehub_xhci_cache_block_free b s = Some t \<Longrightarrow> same_work s t"
  by (auto simp: ehub_xhci_cache_block_free_def lock_cache_list_def unlock_cache_list_def block_to_free_def
      spin_defs same_work_def split: if_splits elim!: bind_eq_SomeE)

lemma free_by_urb_loop_same_work: "free_by_urb_loop n i priv s = Some (priv', t) \<Longrightarrow> same_work s t"
proof (induction n arbitrary: i priv s)
  case (Suc n)
  from Suc.prems show ?case
    by (auto split: if_splits elim!: bind_eq_SomeE dest!: Suc.IH) (simp add: same_work_def block_to_free_def)
qed simp

lemma free_by_urb_same_work: "ehub_xhci_cache_block_free_by_urb priv s = Some (priv', t) \<Longrightarrow> same_work s t"
  by (auto simp: ehub_xhci_cache_block_free_by_urb_def lock_cache_list_def unlock_cache_list_def spin_defs
      split: if_splits elim!: bind_eq_SomeE dest!: free_by_urb_loop_same_work; simp add: same_work_def)

lemma free_segments_same_work:
  assumes "xhci_free_segments_for_ring first h s = Some (h', t)"
  shows "same_work s t"
proof -
  have loop: "same_work (snd hs) (snd y)" if "free_segments_loop first g hs = Some y" for g hs y
  proof (rule free_segments_loop.raw_induct [OF _ that, where P = "\<lambda>_ _ hs y. same_work (snd hs) (snd y)"])
    fix rec first g hs y
    assume IH: "\<And>first g hs y. rec first g hs = Some y \<Longrightarrow> same_work (snd hs) (snd y)"
      and "(case hs of (h, s) \<Rightarrow> if g = first then Some (h, s)
        else do {
          sg \<leftarrow> h g;
          nx \<leftarrow> next_seg sg;
          s1 \<leftarrow> (case EhubCacheBlock sg of None \<Rightarrow> Some s | Some b \<Rightarrow> ehub_xhci_cache_block_free b s);
          rec first nx (xhci_segment_free g h, s1)
        }) = Some y"
    then show "same_work (snd hs) (snd y)"
      by (cases hs) (auto split: if_splits option.splits elim!: bind_eq_SomeE
          dest!: block_free_same_work IH intro: same_work_trans)
  qed
  show ?thesis using assms
    by (auto simp: xhci_free_segments_for_ring_def split: option.splits elim!: bind_eq_SomeE
        dest!: loop block_free_same_work intro: same_work_trans)
qed

lemma ring_free_same_work [work_rules]: "ehub_xhci_ring_free p s = Some t \<Longrightarrow> same_work s t"
  by (auto simp: ehub_xhci_ring_free_def split: option.splits if_splits dest: free_segments_same_work)

lemma free_rings_same_work [work_rules]: "free_rings rs s = Some t \<Longrightarrow> same_work s t"
  by (induction rs arbitrary: s) (auto elim!: bind_eq_SomeE dest!: ring_free_same_work intro: same_work_trans)

lemma skip_links_same_work:
  assumes "skip_links k quirks r s = Some (x, t)"
  shows "same_work s t"
proof -
  have "same_work s (snd y)" if "skip_links k quirks r s = Some y" for y
  proof (rule skip_links.raw_induct [OF _ that, where P = "\<lambda>_ _ _ s y. same_work s (snd y)"])
    fix rec k quirks r s y
    assume IH: "\<And>k quirks r s y. rec k quirks r s = Some y \<Longrightarrow> same_work s (snd y)"
      and "do {
     l \<leftarrow> last_trb r (enq_seg r) (enqueue r);
     if \<not> l then Some ((0, r), s)
     else do {
       r1 \<leftarrow> (if keeps_link_chain quirks (ring_type r) then give_link 0 TRB_CHAIN TRB_CYCLE r
              else give_link TRB_CHAIN 0 TRB_CYCLE r);
       (status, s1) \<leftarrow> (if ehub_cache_ring (ring_type r) then cache_link_trb k (enq_seg r1) (segs r1) s
                        else Some (0, s));
       if status < 0 then Some ((status, r1), s1)
       else do {
         r2 \<leftarrow> enq_to_next_seg r1;
         rec k quirks r2 s1
       }
     }
   } = Some y"
    then show "same_work s (snd y)"
      by (auto simp: cache_link_trb_def split: if_splits elim!: bind_eq_SomeE dest!: queue_cache_write_same_work IH;
          meson same_work_trans)
  qed
  then show ?thesis using assms by force
qed

lemma prepare_command_ring_same_work: "prepare_ring k quirks ms True st n r s = Some (x, t) \<Longrightarrow> same_work s t"
  by (auto simp: prepare_ring_def Let_def make_room.simps [of k quirks ms True] split: if_splits elim!: bind_eq_SomeE
      dest!: skip_links_same_work)

lemma queue_command_same_work:
  "queue_command k quirks cmd f1 f2 f3 f4 must q s = Some (x, t) \<Longrightarrow> same_work s t"
  by (auto simp: queue_command_def Let_def split: if_splits elim!: bind_eq_SomeE dest!: prepare_command_ring_same_work)

section \<open>Commands of the controller\<close>

lemma keeps_work_put [simp]:
  "keeps_work c (put_ep slot i ep c') = keeps_work c c'" "keeps_work c (map_ep_state f slot i c') = keeps_work c c'"
  "keeps_work (put_ep slot i ep c) c' = keeps_work c c'" "keeps_work (map_ep_state f slot i c) c' = keeps_work c c'"
  "keeps_work c (ehub_xhci_free_command cmd c') = keeps_work c c'" "keeps_work c (set_error n c') = keeps_work c c'"
  "keeps_work (set_error n c) c' = keeps_work c c'" "keeps_work (next_command cmd c) c' = keeps_work c c'"
  "keeps_work c (set_actual u len c') = keeps_work c c'" "keeps_work (set_actual u len c) c' = keeps_work c c'"
  "keeps_work c (put_frame u idx fr len c') = keeps_work c c'" "keeps_work (put_frame u idx fr len c) c' = keeps_work c c'"
  "keeps_work c (usb_hcd_giveback_urb u st len c') = keeps_work c c'"
  "keeps_work (usb_hcd_giveback_urb u st len c) c' = keeps_work c c'"
  by (auto simp: keeps_work_def same_work_def put_ep_def map_ep_state_def ehub_xhci_free_command_def set_error_def
      next_command_def set_actual_def put_frame_def usb_hcd_giveback_urb_def split: list.splits option.splits)

lemma keeps_work_update [simp]:
  "keeps_work c (c'\<lparr>cmdq := q\<rparr>) = keeps_work c c'" "keeps_work c (c'\<lparr>event_ring := r\<rparr>) = keeps_work c c'"
  "keeps_work c (c'\<lparr>commands := m\<rparr>) = keeps_work c c'" "keeps_work c (c'\<lparr>next_cmd := n\<rparr>) = keeps_work c c'"
  "keeps_work c (c'\<lparr>completed_cmds := l\<rparr>) = keeps_work c c'" "keeps_work c (c'\<lparr>slot_answer := w\<rparr>) = keeps_work c c'"
  "keeps_work c (c'\<lparr>bandwidth_isoc_reqs := i\<rparr>) = keeps_work c c'" "keeps_work c (c'\<lparr>hc_died := b\<rparr>) = keeps_work c c'"
  "keeps_work c (c'\<lparr>num_active_eps := w\<rparr>) = keeps_work c c'" "keeps_work c (c'\<lparr>port_events := e\<rparr>) = keeps_work c c'"
  "keeps_work c (c'\<lparr>wakeups := v\<rparr>) = keeps_work c c'" "keeps_work c (c'\<lparr>bw := w'\<rparr>) = keeps_work c c'"
  "keeps_work c (c'\<lparr>urbs := us\<rparr>) = keeps_work c c'" "keeps_work c (c'\<lparr>devs := ds\<rparr>) = keeps_work c c'"
  "keeps_work c (c'\<lparr>dcbaa := da\<rparr>) = keeps_work c c'" "keeps_work c (c'\<lparr>giveback_log := gl\<rparr>) = keeps_work c c'"
  "keeps_work c (c'\<lparr>hcd := s\<rparr>) = same_work (hcd c) s"
  by (simp_all add: keeps_work_def)

lemma keeps_work_before [simp]:
  "keeps_work (c\<lparr>cmdq := q\<rparr>) c' = keeps_work c c'" "keeps_work (c\<lparr>event_ring := r\<rparr>) c' = keeps_work c c'"
  "keeps_work (c\<lparr>commands := m\<rparr>) c' = keeps_work c c'" "keeps_work (c\<lparr>urbs := us\<rparr>) c' = keeps_work c c'"
  "keeps_work (c\<lparr>bandwidth_isoc_reqs := n\<rparr>) c' = keeps_work c c'" "keeps_work (c\<lparr>num_active_eps := w\<rparr>) c' = keeps_work c c'"
  "keeps_work (c\<lparr>dcbaa := da\<rparr>) c' = keeps_work c c'" "keeps_work (c\<lparr>devs := ds\<rparr>) c' = keeps_work c c'"
  by (simp_all add: keeps_work_def)

lemma with_hcd_keeps_work [work_rules]:
  "with_hcd (ehub_xhci_ring_cmd_db k) c = Some c' \<Longrightarrow> keeps_work c c'"
  "with_hcd (ehub_xhci_ring_ep_doorbell k slot i stream) c = Some c' \<Longrightarrow> keeps_work c c'"
  "with_hcd (ring_stream_doorbells k slot i n st si) c = Some c' \<Longrightarrow> keeps_work c c'"
  "with_hcd (ehub_xhci_ring_free p) c = Some c' \<Longrightarrow> keeps_work c c'"
  "with_hcd (free_rings rs) c = Some c' \<Longrightarrow> keeps_work c c'"
  by (auto simp: with_hcd_def dest: ring_doorbells_same_work stream_doorbells_same_work ring_free_same_work free_rings_same_work)

lemma run_queue_command_keeps_work [work_rules]:
  "run_command (queue_command k quirks cmd f1 f2 f3 f4 must) c = Some (ret, c') \<Longrightarrow> keeps_work c c'"
  by (auto simp: run_command_def elim!: bind_eq_SomeE dest!: queue_command_same_work)

lemma run_command_keeps_work [work_rules]:
  "run_command (ehub_xhci_queue_configure_endpoint k quirks cmd ptr slot must) c = Some (ret, c') \<Longrightarrow> keeps_work c c'"
  "run_command (ehub_xhci_queue_reset_ep k quirks cmd slot i) c = Some (ret, c') \<Longrightarrow> keeps_work c c'"
  by (auto simp: ehub_xhci_queue_configure_endpoint_def ehub_xhci_queue_reset_ep_def Let_def
      intro: run_queue_command_keeps_work)

lemma alloc_command_keeps_work [work_rules]: "ehub_xhci_alloc_command k a b c = (p, c') \<Longrightarrow> keeps_work c c'"
  by (auto simp: ehub_xhci_alloc_command_def Let_def keeps_work_def same_work_def split: if_splits)

lemma doorbells_keeps_work [work_rules]: "ring_doorbell_for_active_rings k slot i c = Some c' \<Longrightarrow> keeps_work c c'"
  by (auto simp: ring_doorbell_for_active_rings_def split: if_splits option.splits elim!: bind_eq_SomeE intro: with_hcd_keeps_work)

lemma clear_stopped_keeps_work [work_rules]: "clear_stopped slot i c = Some c' \<Longrightarrow> keeps_work c c'"
  by (auto simp: clear_stopped_def)

lemma stop_watchdog_keeps_work [work_rules]: "xhci_stop_watchdog_timer_in_irq slot i c = Some c' \<Longrightarrow> keeps_work c c'"
  by (auto simp: xhci_stop_watchdog_timer_in_irq_def Let_def elim!: bind_eq_SomeE)

lemma set_skip_keeps_work [work_rules]: "set_skip slot i b c = Some c' \<Longrightarrow> keeps_work c c'"
  by (auto simp: set_skip_def)

lemma queue_new_dequeue_keeps_work [work_rules]:
  assumes "ehub_xhci_queue_new_dequeue_state k P slot i stream r pos cs c = Some c'"
  shows "keeps_work c c'"
  using assms
  by (auto simp: ehub_xhci_queue_new_dequeue_state_def Let_def split: if_splits prod.splits option.splits
      elim!: bind_eq_SomeE dest!: alloc_command_keeps_work run_queue_command_keeps_work run_command_keeps_work; meson keeps_work_trans)

lemma cleanup_stalled_keeps_work [work_rules]:
  "ehub_xhci_cleanup_stalled_ring k P slot i td c = Some c' \<Longrightarrow> keeps_work c c'"
  by (auto simp: ehub_xhci_cleanup_stalled_ring_def split: if_splits option.splits elim!: bind_eq_SomeE
      dest!: queue_new_dequeue_keeps_work)

lemma cleanup_halted_keeps_work [work_rules]:
  assumes "xhci_cleanup_halted_endpoint k P slot i stream td c = Some c'"
  shows "keeps_work c c'"
  using assms
  by (auto simp: xhci_cleanup_halted_endpoint_def Let_def split: prod.splits option.splits elim!: bind_eq_SomeE
      dest!: alloc_command_keeps_work run_queue_command_keeps_work run_command_keeps_work cleanup_stalled_keeps_work with_hcd_keeps_work; (meson keeps_work_trans)?)

lemma restart_keeps_work [work_rules]: "restart_or_set_deq k P slot i st c = Some c' \<Longrightarrow> keeps_work c c'"
  by (auto simp: restart_or_set_deq_def split: option.splits prod.splits elim!: bind_eq_SomeE
      dest!: doorbells_keeps_work queue_new_dequeue_keeps_work with_hcd_keeps_work intro: keeps_work_trans)

lemma cancel_td_keeps_work: "cancel_td slot i td (st, c) = Some (st', c') \<Longrightarrow> keeps_work c c'"
  by (auto simp: cancel_td_def split: option.splits if_splits elim!: bind_eq_SomeE)

lemma cancel_tds_keeps_work [work_rules]: "cancel_tds slot i tds (st, c) = Some (st', c') \<Longrightarrow> keeps_work c c'"
  by (induction tds arbitrary: st c) (auto elim!: bind_eq_SomeE dest!: cancel_td_keeps_work intro: keeps_work_trans)

section \<open>Giving back\<close>

lemma free_priv_keeps_work [work_rules]: "ehub_xhci_urb_free_priv u c = Some c' \<Longrightarrow> keeps_work c c'"
  by (auto simp: ehub_xhci_urb_free_priv_def elim!: bind_eq_SomeE dest!: free_by_urb_same_work)

lemma giveback_keeps_work [work_rules]: "xhci_giveback_urb_in_irq td st c = Some c' \<Longrightarrow> keeps_work c c'"
  by (auto simp: xhci_giveback_urb_in_irq_def Let_def split: if_splits elim!: bind_eq_SomeE dest!: free_priv_keeps_work)

lemma giveback_cancelled_keeps_work [work_rules]: "giveback_cancelled slot i tds key c = Some c' \<Longrightarrow> keeps_work c c'"
  by (induction tds arbitrary: c)
    (auto split: if_splits elim!: bind_eq_SomeE dest!: giveback_keeps_work intro: keeps_work_trans)

lemma stop_ep_keeps_work [work_rules]:
  assumes "xhci_handle_cmd_stop_ep k P slot trb c = Some c'"
  shows "keeps_work c c'"
  using assms
  by (auto simp: xhci_handle_cmd_stop_ep_def Let_def split: if_splits elim!: bind_eq_SomeE dest!: work_rules;
      (meson keeps_work_trans)?)

section \<open>Events\<close>

lemma td_cleanup_keeps_work [work_rules]: "td_cleanup slot i td st c = Some (res, c') \<Longrightarrow> keeps_work c c'"
  by (auto simp: td_cleanup_def Let_def elim!: bind_eq_SomeE)

lemma finish_td_keeps_work [work_rules]:
  assumes "finish_td k P slot i ref ev sk td st c = Some (res, c')"
  shows "keeps_work c c'"
  using assms
  by (auto simp: finish_td_def Let_def split: if_splits elim!: bind_eq_SomeE dest!: work_rules; (meson keeps_work_trans)?)

lemma ctrl_td_keeps_work [work_rules]:
  assumes "process_ctrl_td k P slot i ref ev trb td st c = Some (res, c')"
  shows "keeps_work c c'"
  using assms by (auto simp: process_ctrl_td_def Let_def split: if_splits elim!: bind_eq_SomeE dest!: finish_td_keeps_work)

lemma isoc_td_keeps_work [work_rules]:
  assumes "process_isoc_td k P slot i ref ev trb td st c = Some (res, c')"
  shows "keeps_work c c'"
  using assms by (auto simp: process_isoc_td_def Let_def split: if_splits elim!: bind_eq_SomeE dest!: finish_td_keeps_work)

lemma skip_isoc_keeps_work [work_rules]:
  assumes "skip_isoc_td k P slot i ref ev td st c = Some (res, c')"
  shows "keeps_work c c'"
  using assms by (auto simp: skip_isoc_td_def Let_def split: if_splits elim!: bind_eq_SomeE dest!: finish_td_keeps_work)

lemma bulk_td_keeps_work [work_rules]:
  assumes "process_bulk_intr_td k P slot i ref ev trb td st c = Some (res, c')"
  shows "keeps_work c c'"
  using assms by (auto simp: process_bulk_intr_td_def Let_def split: if_splits elim!: bind_eq_SomeE dest!: finish_td_keeps_work)

lemma tx_round_keeps_work [work_rules]:
  assumes "tx_round k P slot i ref ev code ret st n c = Some (res, c')"
  shows "keeps_work c c'"
  using assms by (auto simp: tx_round_def Let_def split: list.splits option.splits if_splits elim!: bind_eq_SomeE dest!: work_rules)

lemma tx_cleanup_keeps_work [work_rules]:
  assumes "tx_cleanup slot i code ret td st c = Some (st', c')"
  shows "keeps_work c c'"
  using assms
  by (auto simp: tx_cleanup_def Let_def split: if_splits elim!: bind_eq_SomeE dest!: free_priv_keeps_work)

lemma tx_loop_keeps_work [work_rules]:
  assumes "tx_loop k P slot i ref ev code ret st n c = Some (res, c')"
  shows "keeps_work c c'"
proof -
  have "keeps_work c (snd y)" if "tx_loop k P slot i ref ev code ret st n c = Some y" for y
  proof (rule tx_loop.raw_induct [OF _ that, where Pa = "\<lambda>(_, c) y. keeps_work c (snd y)", simplified])
    fix rec k P slot i ref ev code ret st n c y
    assume IH: "\<And>k P slot i ref ev code ret st n c y. rec k P slot i ref ev code ret st n c = Some y \<Longrightarrow> keeps_work c (snd y)"
      and "do {
       (r, c1) \<leftarrow> tx_round k P slot i ref ev code ret st n c;
       (case r of
          Inl err \<Rightarrow> Some (err, c1)
        | Inr (ret1, td, status1, td_num1) \<Rightarrow> do {
            (status2, c2) \<leftarrow> tx_cleanup slot i code ret1 td status1 c1;
            ep \<leftarrow> get_ep slot i c2;
            if skip ep \<and> code \<noteq> COMP_MISSED_INT then rec k P slot i ref ev code ret1 status2 td_num1 c2 else Some (0, c2)
          }) } = Some y"
    then show "keeps_work c (snd y)"
      by (auto split: sum.splits if_splits elim!: bind_eq_SomeE dest!: tx_round_keeps_work tx_cleanup_keeps_work IH;
          meson keeps_work_trans)
  qed
  then show ?thesis using assms by force
qed

lemma tx_event_keeps_work [work_rules]:
  assumes "ehub_handle_tx_event k P ev c = Some (ret, c')"
  shows "keeps_work c c'"
  using assms
  by (auto simp: ehub_handle_tx_event_def Let_def split: option.splits if_splits elim!: bind_eq_SomeE
      dest!: set_skip_keeps_work tx_cleanup_keeps_work tx_loop_keeps_work; meson keeps_work_trans)

section \<open>Commands\<close>

lemma complete_cmd_keeps_work [work_rules]: "xhci_complete_del_and_free_cmd cmd st c = Some c' \<Longrightarrow> keeps_work c c'"
  by (auto simp: xhci_complete_del_and_free_cmd_def Let_def split: if_splits elim!: bind_eq_SomeE)

lemma noop_aborted_keeps_work: "noop_aborted xs c = Some c' \<Longrightarrow> keeps_work c c'"
proof (induction xs arbitrary: c)
  case (Cons x xs)
  from Cons.prems show ?case by (auto simp: Let_def split: if_splits elim!: bind_eq_SomeE dest!: Cons.IH)
qed auto

lemma stopped_cmd_ring_keeps_work [work_rules]: "xhci_handle_stopped_cmd_ring k cur c = Some c' \<Longrightarrow> keeps_work c c'"
  by (auto simp: xhci_handle_stopped_cmd_ring_def Let_def split: if_splits elim!: bind_eq_SomeE
      dest!: noop_aborted_keeps_work with_hcd_keeps_work; simp add: keeps_work_def same_work_def)

lemma set_deq_done_keeps_work [work_rules]: "set_deq_done k slot i c = Some c' \<Longrightarrow> keeps_work c c'"
  by (auto simp: set_deq_done_def elim!: bind_eq_SomeE dest!: doorbells_keeps_work)

lemma set_deq_keeps_work [work_rules]: "xhci_handle_cmd_set_deq k slot trb code c = Some c' \<Longrightarrow> keeps_work c c'"
  by (auto simp: xhci_handle_cmd_set_deq_def Let_def split: option.splits if_splits elim!: bind_eq_SomeE dest!: set_deq_done_keeps_work)

lemma reset_ep_keeps_work [work_rules]: "xhci_handle_cmd_reset_ep k P slot trb c = Some c' \<Longrightarrow> keeps_work c c'"
  by (auto simp: xhci_handle_cmd_reset_ep_def Let_def split: prod.splits option.splits if_splits elim!: bind_eq_SomeE
      dest!: alloc_command_keeps_work run_command_keeps_work with_hcd_keeps_work; simp add: keeps_work_def same_work_def)

lemma config_ep_keeps_work [work_rules]: "xhci_handle_cmd_config_ep k P slot c = Some c' \<Longrightarrow> keeps_work c c'"
  by (auto simp: xhci_handle_cmd_config_ep_def Let_def split: if_splits elim!: bind_eq_SomeE dest!: doorbells_keeps_work)

lemma free_stream_info_keeps_work: "ehub_xhci_free_stream_info p c = Some c' \<Longrightarrow> keeps_work c c'"
  by (auto simp: ehub_xhci_free_stream_info_def split: option.splits if_splits elim!: bind_eq_SomeE dest!: with_hcd_keeps_work)

lemma free_endpoints_keeps_work: "free_endpoints es c = Some c' \<Longrightarrow> keeps_work c c'"
proof (induction es arbitrary: c)
  case (Cons ep es)
  from Cons.prems show ?case
    by (auto elim!: bind_eq_SomeE dest!: with_hcd_keeps_work free_stream_info_keeps_work Cons.IH; meson keeps_work_trans)
qed simp

lemma disable_slot_keeps_work [work_rules]: "xhci_handle_cmd_disable_slot P slot c = Some c' \<Longrightarrow> keeps_work c c'"
  by (auto simp: xhci_handle_cmd_disable_slot_def ehub_xhci_free_device_endpoint_resources_def ehub_xhci_free_virt_device_def
      split: option.splits if_splits elim!: bind_eq_SomeE dest!: free_endpoints_keeps_work)

lemma cmd_type_keeps_work [work_rules]:
  assumes "handle_cmd_type k P slot trb obj code c = Some (code', c')"
  shows "keeps_work c c'"
  using assms
  by (auto simp: handle_cmd_type_def Let_def xhci_handle_cmd_enable_slot_def xhci_handle_cmd_nec_get_fw_def
      split: if_splits dest!: work_rules)

lemma finish_command_keeps_work [work_rules]: "finish_command cmd code c = Some c' \<Longrightarrow> keeps_work c c'"
  by (auto simp: finish_command_def elim!: bind_eq_SomeE dest!: complete_cmd_keeps_work)

lemma cmd_completion_keeps_work [work_rules]:
  assumes "handle_cmd_completion k P ev c = Some c'"
  shows "keeps_work c c'"
  using assms
  by (auto simp: handle_cmd_completion_def Let_def split: if_splits list.splits elim!: bind_eq_SomeE
      dest!: work_rules; (simp add: keeps_work_def same_work_def)?)

text \<open>The handler as a whole.\<close>

lemma handle_event_keeps_work:
  assumes "ehub_xhci_handle_event k P event c = Some c'"
  shows "keeps_work c c'"
  using assms
  by (auto simp: ehub_xhci_handle_event_def handle_vendor_event_def handle_device_notification_def
      ehub_xhci_queue_port_status_event_def Let_def same_work_def tick_up_def
      split: if_splits option.splits dest!: cmd_completion_keeps_work tx_event_keeps_work)

end
