(* ===== verification/Ehub_Work_Process.thy ===== *)
theory Ehub_Work_Process
  imports Ehub_Message Xhci_Work
begin

text \<open>
  The processing routines of work items (second half of \<open>ehub_work_item.c\<close>) and the ordered
  work queue that runs them. The queue is created with \<open>alloc_ordered_workqueue\<close>: it runs one
  item at a time, in the order they were queued. The routines run on the state of the whole
  driver, since a message may carry an event for the ring layer.
\<close>

section \<open>Processing routines\<close>

definition WORK_ITEM_Process_MessageHandle :: "env \<Rightarrow> hcd_params \<Rightarrow> addr \<Rightarrow> hc \<Rightarrow> hc option" where
  "WORK_ITEM_Process_MessageHandle k P w c = do {
     wi \<leftarrow> work_items (hcd c) w;
     c1 \<leftarrow> MESSAGE_Parsing k P (wi_DataBuffer wi) (wi_DataBufferLength wi) c;
     with_hcd (WORK_ITEM_Destroy w) c1
   }"

text \<open>A generic bulk OUT transfer: the data is copied into a context created for the purpose,
  which is destroyed after the wait whatever happened.\<close>

definition WORK_ITEM_Process_GenericBulkOutUrbSubmit :: "env \<Rightarrow> addr \<Rightarrow> ehub \<Rightarrow> ehub option" where
  "WORK_ITEM_Process_GenericBulkOutUrbSubmit k w s = do {
     wi \<leftarrow> work_items s w;
     status \<leftarrow> DEVICECONTEXT_ErrorCheck (Some s);
     (urbContext, s') \<leftarrow> (if status < 0 then Some (None, s)
       else do {
         (p, s1) \<leftarrow> URB_Create k (UsbPipeBulkOut s) (wi_DataBufferLength wi)
            URB_CompletionRoutine_Simple_ptr None s;
         (case p of
            None \<Rightarrow> Some (None, s1)
          | Some a \<Rightarrow> do {
              c \<leftarrow> urb_contexts s1 a;
              u \<leftarrow> uc_Urb c;
              buf \<leftarrow> uc_DataBuffer c;
              src \<leftarrow> wi_DataBuffer wi;
              xs \<leftarrow> read_bytes src 0 (wi_DataBufferLength wi);
              buf' \<leftarrow> write_bytes buf 0 xs;
              (st, s2) \<leftarrow> URB_Submit k (Some a) (put_urb a (c\<lparr>uc_DataBuffer := Some buf',
                 uc_Urb := Some (u\<lparr>urb_transfer_buffer_length := wi_DataBufferLength wi\<rparr>)\<rparr>) s1);
              if st < 0 then Some (Some a, s2)
              else map_option (\<lambda>(_, s3). (Some a, s3)) (NOTIFICATION_Wait k (EventUrb a) s2)
            })
       });
     s4 \<leftarrow> URB_Destroy urbContext s';
     WORK_ITEM_Destroy w s4
   }"

definition WORK_ITEM_Process_MessageHandleEmbeddedEmbeddedRegisterRead ::
  "addr \<Rightarrow> ehub \<Rightarrow> ehub option" where
  "WORK_ITEM_Process_MessageHandleEmbeddedEmbeddedRegisterRead w s = do {
     wi \<leftarrow> work_items s w;
     buf \<leftarrow> wi_DataBuffer wi;
     data \<leftarrow> read32 buf 0;
     s1 \<leftarrow> NOTIFICATION_Notify EventRegisterRead (s\<lparr>DataEmbeddedRegisterRead := data\<rparr>);
     WORK_ITEM_Destroy w s1
   }"

definition WORK_ITEM_Process_MessageHandleEmbeddedEventTrb :: "env \<Rightarrow> hcd_params \<Rightarrow> addr \<Rightarrow> hc \<Rightarrow> hc option" where
  "WORK_ITEM_Process_MessageHandleEmbeddedEventTrb k P w c = do {
     wi \<leftarrow> work_items (hcd c) w;
     buf \<leftarrow> wi_DataBuffer wi;
     f0 \<leftarrow> read32 buf 0;
     f1 \<leftarrow> read32 buf 4;
     f2 \<leftarrow> read32 buf 8;
     f3 \<leftarrow> read32 buf 12;
     c1 \<leftarrow> ehub_xhci_handle_event k P (TRB f0 f1 f2 f3) c;
     with_hcd (WORK_ITEM_Destroy w) c1
   }"

section \<open>The ordered work queue\<close>

text \<open>The routine of an item, through the function pointer the item carries.\<close>

definition run_work_item :: "env \<Rightarrow> hcd_params \<Rightarrow> addr \<Rightarrow> hc \<Rightarrow> hc option" where
  "run_work_item k P w c = do {
     wi \<leftarrow> work_items (hcd c) w;
     fn \<leftarrow> wi_WorkItemProcess wi;
     (case fn of
        WORK_ITEM_Process_MessageHandle_ptr \<Rightarrow> WORK_ITEM_Process_MessageHandle k P w c
      | WORK_ITEM_Process_GenericBulkOutUrbSubmit_ptr \<Rightarrow>
          with_hcd (WORK_ITEM_Process_GenericBulkOutUrbSubmit k w) c
      | WORK_ITEM_Process_RegisterRead_ptr \<Rightarrow>
          with_hcd (WORK_ITEM_Process_MessageHandleEmbeddedEmbeddedRegisterRead w) c
      | WORK_ITEM_Process_EventTrb_ptr \<Rightarrow> WORK_ITEM_Process_MessageHandleEmbeddedEventTrb k P w c)
   }"

text \<open>One turn of the worker: take the oldest item off the queue and run it.\<close>

definition set_queue :: "addr list \<Rightarrow> hc \<Rightarrow> hc" where
  "set_queue ws c = c\<lparr>hcd := (hcd c)\<lparr>WorkItemQueue := Some ws\<rparr>\<rparr>"

definition worker_step :: "env \<Rightarrow> hcd_params \<Rightarrow> hc \<Rightarrow> hc option" where
  "worker_step k P c =
     (case WorkItemQueue (hcd c) of
        Some (w # ws) \<Rightarrow> run_work_item k P w (set_queue ws c)
      | _ \<Rightarrow> Some c)"

fun worker_run :: "env \<Rightarrow> hcd_params \<Rightarrow> nat \<Rightarrow> hc \<Rightarrow> hc option" where
  "worker_run k P 0 c = Some c"
| "worker_run k P (Suc n) c = do { c1 \<leftarrow> worker_step k P c; worker_run k P n c1 }"

section \<open>What message handling leaves to the queue\<close>

lemma next_memory_read_same_work:
  "next_memory_read_context k s = Some (p, t) \<Longrightarrow> same_work s t"
  by (auto simp: next_memory_read_context_def lock_memory_read_def same_work_def tick_up_def Let_def
      split: if_splits)

lemma answer_same_work:
  assumes "answer_memory_read k h address a s = Some t"
  shows "same_work s t"
  using assms
  by (auto simp: answer_memory_read_def Let_def case_prod_beta same_work_def put_urb_def tick_up_def
      elim!: bind_eq_SomeE dest!: Submit_same_work split: if_splits)

lemma read_memory_same_work: "read_memory k h address s = Some t \<Longrightarrow> same_work s t"
  by (auto simp: read_memory_def split: option.splits elim!: bind_eq_SomeE
      dest!: next_memory_read_same_work answer_same_work intro: same_work_trans)

lemma memory_same_work [simp]: "same_work s (write_memory k target xs s)" "same_work s (complete_register_read k a d s)"
  by (auto simp: write_memory_def complete_register_read_def same_work_def tick_up_def Let_def)

lemma perform_keeps_work: "perform_message k P m c = Some c' \<Longrightarrow> keeps_work c c'"
  by (cases m) (auto simp: with_hcd_def split: if_splits dest: read_memory_same_work handle_event_keeps_work)

lemma run_messages_keeps_work: "run_messages k P ms c = Some c' \<Longrightarrow> keeps_work c c'"
proof (induction ms arbitrary: c)
  case (Cons m ms)
  from Cons.prems show ?case
    by (auto split: if_splits elim!: bind_eq_SomeE dest!: perform_keeps_work Cons.IH intro: keeps_work_trans)
qed simp

text \<open>A queued item that holds a batch of messages.\<close>

definition batch_item :: "ehub \<Rightarrow> addr \<times> message list \<Rightarrow> bool" where
  "batch_item s b \<longleftrightarrow> snd b \<noteq> [] \<and> (\<forall>m \<in> set (snd b). message_wf m) \<and> fst b \<in> set (WorkItemProcessingQueue s) \<and>
     (\<exists>wi. work_items s (fst b) = Some wi \<and> wi_DeviceContextPvoid wi
        \<and> wi_WorkItemProcess wi = Some WORK_ITEM_Process_MessageHandle_ptr
        \<and> wi_DataBuffer wi = Some (concat (map message_bytes (snd b)))
        \<and> wi_DataBufferLength wi = length (concat (map message_bytes (snd b))))"

text \<open>The queue holds exactly the items of the given batches.\<close>

definition queued_batches :: "(addr \<times> message list) list \<Rightarrow> ehub \<Rightarrow> bool" where
  "queued_batches bs s \<longleftrightarrow> WorkItemQueue s = Some (map fst bs) \<and> distinct (map fst bs)
     \<and> (\<forall>b \<in> set bs. batch_item s b) \<and> \<not> SpinLockWorkItemQueue s"

text \<open>The specification of the worker: batch after batch, message after message, each item
  destroyed when its batch is done.\<close>

fun run_batches :: "env \<Rightarrow> hcd_params \<Rightarrow> (addr \<times> message list) list \<Rightarrow> hc \<Rightarrow> hc option" where
  "run_batches k P [] c = Some c"
| "run_batches k P (b # bs) c = do {
     c1 \<leftarrow> run_messages k P (snd b) (set_queue (map fst bs) c);
     c2 \<leftarrow> with_hcd (WORK_ITEM_Destroy (fst b)) c1;
     run_batches k P bs c2
   }"

lemma run_batch_item:
  assumes "batch_item (hcd c) (w, ms)"
  shows "run_work_item k P w c = do { c1 \<leftarrow> run_messages k P ms c; with_hcd (WORK_ITEM_Destroy w) c1 }"
proof -
  have "\<forall>m \<in> set ms. message_wf m" and "ms \<noteq> []" using assms by (auto simp: batch_item_def)
  from parse_messages_run [OF this, of 0 k P "[]"] assms show ?thesis
    by (auto simp: run_work_item_def WORK_ITEM_Process_MessageHandle_def MESSAGE_Parsing_def
        batch_item_def)
qed

text \<open>Once the messages of the first batch are performed, its item is destroyed and the other
  batches are still queued.\<close>

lemma first_batch_done:
  assumes "queued_batches (b # bs) (hcd c)" and "run_messages k P (snd b) (set_queue (map fst bs) c) = Some c1"
  obtains c2 where "with_hcd (WORK_ITEM_Destroy (fst b)) c1 = Some c2" and "queued_batches bs (hcd c2)"
    and "work_items (hcd c2) = (work_items (hcd c))(fst b := None)"
proof -
  let ?s = "hcd c1"
  have w: "work_items ?s = work_items (hcd c)" "WorkItemQueue ?s = Some (map fst bs)"
    "WorkItemProcessingQueue ?s = WorkItemProcessingQueue (hcd c)" "\<not> SpinLockWorkItemQueue ?s"
    using run_messages_keeps_work [OF assms(2)] assms(1)
    by (auto simp: keeps_work_def same_work_def set_queue_def queued_batches_def)
  define t where "t = ?s\<lparr>WorkItemProcessingQueue := list_del (fst b) (WorkItemProcessingQueue ?s),
    NumberOfWorkItemInProcessingQueue := NumberOfWorkItemInProcessingQueue ?s - 1,
    work_items := (work_items ?s)(fst b := None)\<rparr>"
  have "WORK_ITEM_Destroy (fst b) ?s = Some t"
    using assms(1) w by (auto simp: WORK_ITEM_Destroy_def queued_batches_def batch_item_def spin_defs t_def)
  moreover have "queued_batches bs t"
    using assms(1) w by (auto simp: queued_batches_def batch_item_def t_def list_del_def rev_image_eqI)
  ultimately show thesis using that [of "c1\<lparr>hcd := t\<rparr>"] by (simp add: with_hcd_def t_def w(1))
qed

section \<open>Properties\<close>


definition demo_queue :: ehub where
  "demo_queue = ready_ehub\<lparr>next_addr := 1, WorkItemQueue := Some [0], WorkItemProcessingQueue := [0],
     NumberOfWorkItemInProcessingQueue := 1, work_items := [0 \<mapsto>
       \<lparr>wi_DeviceContextPvoid = True, wi_WorkItemProcess = Some WORK_ITEM_Process_MessageHandle_ptr,
        wi_DataBuffer = Some (concat (map message_bytes demo_messages)),
        wi_DataBufferLength = length (concat (map message_bytes demo_messages))\<rparr>]\<rparr>"


end
