(* ===== verification/Ehub_Message_Loop.thy ===== *)
theory Ehub_Message_Loop
  imports Ehub_Register
begin

text \<open>
  The message loops (\<open>ehub_message.c\<close>, second half) and the interface operations built on them
  (\<open>ehub_usb.c\<close>): arrays of IN URBs for the bulk, interrupt and isochronous endpoints that are
  created, submitted, stopped and freed together. The three arrays are operated by loops of
  the same shape, so each loop is defined once over the array it works on.
\<close>

section \<open>The arrays\<close>

datatype message_array = BulkArray | InterruptArray | IsochArray

fun message_entries :: "message_array \<Rightarrow> ehub \<Rightarrow> addr option list" where
  "message_entries BulkArray s = UrbContextMessageBulk s"
| "message_entries InterruptArray s = UrbContextMessageInterrupt s"
| "message_entries IsochArray s = UrbContextMessageIsoch s"

fun set_message_entries :: "message_array \<Rightarrow> addr option list \<Rightarrow> ehub \<Rightarrow> ehub" where
  "set_message_entries BulkArray xs s = s\<lparr>UrbContextMessageBulk := xs\<rparr>"
| "set_message_entries InterruptArray xs s = s\<lparr>UrbContextMessageInterrupt := xs\<rparr>"
| "set_message_entries IsochArray xs s = s\<lparr>UrbContextMessageIsoch := xs\<rparr>"

text \<open>Reading and writing an element; outside the array it is a fault.\<close>

definition get_entry :: "message_array \<Rightarrow> nat \<Rightarrow> ehub \<Rightarrow> addr option option" where
  "get_entry arr i s =
     (if i < length (message_entries arr s) then Some (message_entries arr s ! i) else None)"

definition put_entry :: "message_array \<Rightarrow> nat \<Rightarrow> addr option \<Rightarrow> ehub \<Rightarrow> ehub option" where
  "put_entry arr i p s =
     (if i < length (message_entries arr s)
      then Some (set_message_entries arr ((message_entries arr s)[i := p]) s) else None)"

text \<open>Reading the controller through the USB context; a missing or freed one is a fault.\<close>

definition deref_xhci :: "ehub \<Rightarrow> unit option" where
  "deref_xhci s = (if xhci_hcd_ptr s = XhciLive then Some () else None)"

text \<open>Killing a URB waits until its completion routine has run; the USB core does not take the URB
  again meanwhile, and does not hold it afterwards.\<close>

definition usb_kill_urb :: "env \<Rightarrow> addr \<Rightarrow> ehub \<Rightarrow> ehub" where
  "usb_kill_urb k a s = usb_gives_up a (other_contexts k (tick s) (tick_up s))"

section \<open>Starting\<close>

text \<open>Element \<open>i\<close> and the \<open>r - 1\<close> after it are created, stored and submitted. A context whose
  submission fails is destroyed, but stays in the array.\<close>

fun start_loop ::
  "env \<Rightarrow> message_array \<Rightarrow> usb_pipe \<Rightarrow> nat \<Rightarrow> nat \<Rightarrow> nat \<Rightarrow> int \<Rightarrow> ehub \<Rightarrow> int outcome" where
  "start_loop k arr pipe len 0 i status s = Some (status, s)"
| "start_loop k arr pipe len (Suc r) i status s = do {
     (urbContext, s1) \<leftarrow> URB_Create k pipe len URB_CompletionRoutine_GetMessage_ptr None s;
     (case urbContext of
        None \<Rightarrow> Some (- ENOMEM, s1)
      | Some a \<Rightarrow> do {
          s2 \<leftarrow> put_entry arr i (Some a) s1;
          (st, s3) \<leftarrow> URB_Submit k (Some a) s2;
          if st < 0 then map_option (\<lambda>s4. (st, s4)) (URB_Destroy (Some a) s3)
          else start_loop k arr pipe len r (Suc i) st s3
        })
   }"

definition MESSAGE_StartLoopBulk :: "env \<Rightarrow> ehub \<Rightarrow> int outcome" where
  "MESSAGE_StartLoopBulk k s = start_loop k BulkArray (UsbPipeBulkIn s)
     MESSAGE_DATA_BUFFER_SIZE_BULK NUMBER_OF_MESSAGE_BULK 0 0 s"

definition MESSAGE_StartLoopInterrupt :: "env \<Rightarrow> ehub \<Rightarrow> int outcome" where
  "MESSAGE_StartLoopInterrupt k s = start_loop k InterruptArray (UsbPipeInterruptIn s)
     MESSAGE_DATA_BUFFER_SIZE_INTERRUPT NUMBER_OF_MESSAGE_INTERRUPT 0 0 s"

text \<open>The isochronous contexts are created once and submitted when an endpoint needs them.\<close>

fun init_isoch_loop :: "env \<Rightarrow> nat \<Rightarrow> nat \<Rightarrow> ehub \<Rightarrow> int outcome" where
  "init_isoch_loop k 0 i s = Some (0, s)"
| "init_isoch_loop k (Suc r) i s = do {
     (urbContext, s1) \<leftarrow> URB_CreateIsoch k (UsbPipeIsochIn s) (of_nat MESSAGE_DATA_BUFFER_SIZE_ISOCH)
        URB_CompletionRoutine_GetMessage_ptr s;
     (case urbContext of
        None \<Rightarrow> Some (- ENOMEM, s1)
      | Some a \<Rightarrow> do { s2 \<leftarrow> put_entry IsochArray i (Some a) s1; init_isoch_loop k r (Suc i) s2 })
   }"

definition MESSAGE_InitLoopIsoch :: "env \<Rightarrow> ehub \<Rightarrow> int outcome" where
  "MESSAGE_InitLoopIsoch k s = init_isoch_loop k NUMBER_OF_MESSAGE_ISOCH 0 s"

fun submit_isoch_loop :: "env \<Rightarrow> nat \<Rightarrow> nat \<Rightarrow> int \<Rightarrow> ehub \<Rightarrow> int outcome" where
  "submit_isoch_loop k 0 i status s = Some (status, s\<lparr>isoch_in_running := True\<rparr>)"
| "submit_isoch_loop k (Suc r) i status s = do {
     urbContext \<leftarrow> get_entry IsochArray i s;
     (st, s1) \<leftarrow> URB_Submit k urbContext s;
     if st < 0 then map_option (\<lambda>s2. (st, s2)) (URB_Destroy urbContext s1)
     else submit_isoch_loop k r (Suc i) st s1
   }"

definition MESSAGE_StartLoopIsoch :: "env \<Rightarrow> ehub \<Rightarrow> int outcome" where
  "MESSAGE_StartLoopIsoch k s = do {
     let s1 = s\<lparr>stop_isoch_work_pending := False\<rparr>;
     deref_xhci s1;
     if isoch_in_running s1 then Some (0, s1)
     else submit_isoch_loop k NUMBER_OF_MESSAGE_ISOCH 0 0 s1
   }"

section \<open>Stopping\<close>

text \<open>A stopped element is taken out of the array, its waiter is woken, its URB killed and its
  context destroyed; the interrupt loop also marks the context complete.\<close>

fun stop_loop :: "env \<Rightarrow> message_array \<Rightarrow> bool \<Rightarrow> nat \<Rightarrow> nat \<Rightarrow> ehub \<Rightarrow> ehub option" where
  "stop_loop k arr mark 0 i s = Some s"
| "stop_loop k arr mark (Suc r) i s = do {
     urbContext \<leftarrow> get_entry arr i s;
     s1 \<leftarrow> put_entry arr i None s;
     s2 \<leftarrow> (case urbContext of
        None \<Rightarrow> Some s1
      | Some a \<Rightarrow> do {
          s2 \<leftarrow> NOTIFICATION_Notify (EventUrb a) s1;
          c \<leftarrow> urb_contexts s2 a;
          let s3 = (if mark then put_urb a (c\<lparr>uc_Status := URB_STATUS_COMPLETE\<rparr>) s2 else s2);
          URB_Destroy (Some a) (usb_kill_urb k a s3)
        });
     stop_loop k arr mark r (Suc i) s2
   }"

definition MESSAGE_StopLoopBulk :: "env \<Rightarrow> ehub \<Rightarrow> ehub option" where
  "MESSAGE_StopLoopBulk k s = stop_loop k BulkArray False NUMBER_OF_MESSAGE_BULK 0 s"

definition MESSAGE_StopLoopInterrupt :: "env \<Rightarrow> ehub \<Rightarrow> ehub option" where
  "MESSAGE_StopLoopInterrupt k s = stop_loop k InterruptArray True NUMBER_OF_MESSAGE_INTERRUPT 0 s"

fun stop_isoch_loop :: "env \<Rightarrow> nat \<Rightarrow> nat \<Rightarrow> ehub \<Rightarrow> ehub option" where
  "stop_isoch_loop k 0 i s = Some s"
| "stop_isoch_loop k (Suc r) i s = do {
     urbContext \<leftarrow> get_entry IsochArray i s;
     s1 \<leftarrow> (case urbContext of
        None \<Rightarrow> Some s
      | Some a \<Rightarrow> do {
          s1 \<leftarrow> NOTIFICATION_Notify (EventUrb a) s;
          c \<leftarrow> urb_contexts s1 a;
          Some (usb_kill_urb k a (put_urb a (c\<lparr>uc_Status := URB_STATUS_COMPLETE\<rparr>) s1))
        });
     stop_isoch_loop k r (Suc i) s1
   }"

definition MESSAGE_StopLoopIsoch :: "env \<Rightarrow> ehub \<Rightarrow> ehub option" where
  "MESSAGE_StopLoopIsoch k s = do {
     deref_xhci s;
     if \<not> isoch_in_running s then Some s
     else do {
       s1 \<leftarrow> stop_isoch_loop k NUMBER_OF_MESSAGE_ISOCH 0 s;
       deref_xhci s1;
       Some (s1\<lparr>isoch_in_running := False\<rparr>)
     }
   }"

text \<open>The stop is delayed, so that a start that follows shortly can cancel it. The work is no
  longer pending when it runs.\<close>

definition MESSAGE_delayed_StopLoopIsoch :: "env \<Rightarrow> ehub \<Rightarrow> ehub option" where
  "MESSAGE_delayed_StopLoopIsoch k s =
     MESSAGE_StopLoopIsoch k (s\<lparr>stop_isoch_work_pending := False\<rparr>)"

definition MESSAGE_queue_StopLoopIsoch :: "ehub \<Rightarrow> ehub" where
  "MESSAGE_queue_StopLoopIsoch s =
     (if stop_isoch_work_pending s then s else s\<lparr>stop_isoch_work_pending := True\<rparr>)"

text \<open>Freeing leaves the pointers in the array.\<close>

fun free_isoch_loop :: "nat \<Rightarrow> nat \<Rightarrow> ehub \<Rightarrow> ehub option" where
  "free_isoch_loop 0 i s = Some s"
| "free_isoch_loop (Suc r) i s = do {
     urbContext \<leftarrow> get_entry IsochArray i s;
     s1 \<leftarrow> URB_Destroy urbContext s;
     free_isoch_loop r (Suc i) s1
   }"

definition MESSAGE_FreeLoopIsoch :: "ehub \<Rightarrow> ehub option" where
  "MESSAGE_FreeLoopIsoch s = free_isoch_loop NUMBER_OF_MESSAGE_ISOCH 0 s"

section \<open>The interfaces\<close>

definition USB_InterfaceCreateBulk :: "env \<Rightarrow> ehub \<Rightarrow> int outcome" where
  "USB_InterfaceCreateBulk k s =
     (let status = usb_set_interface k (tick s); s1 = tick_up s in
      if status < 0 then Some (status, s1) else MESSAGE_StartLoopBulk k s1)"

definition USB_InterfaceCreateInterrupt :: "env \<Rightarrow> ehub \<Rightarrow> int outcome" where
  "USB_InterfaceCreateInterrupt k s =
     (let status = usb_set_interface k (tick s); s1 = tick_up s in
      if status < 0 then Some (status, s1) else MESSAGE_StartLoopInterrupt k s1)"

definition USB_InterfaceDestroyBulk :: "env \<Rightarrow> ehub \<Rightarrow> int outcome" where
  "USB_InterfaceDestroyBulk k s = map_option (Pair 0) (MESSAGE_StopLoopBulk k s)"

definition USB_InterfaceDestroyInterrupt :: "env \<Rightarrow> ehub \<Rightarrow> int outcome" where
  "USB_InterfaceDestroyInterrupt k s = map_option (Pair 0) (MESSAGE_StopLoopInterrupt k s)"

definition USB_InterfaceSuspendBulk :: "env \<Rightarrow> ehub \<Rightarrow> int outcome" where
  "USB_InterfaceSuspendBulk k s = map_option (Pair 0) (MESSAGE_StopLoopBulk k s)"

definition USB_InterfaceSuspendInterrupt :: "env \<Rightarrow> ehub \<Rightarrow> int outcome" where
  "USB_InterfaceSuspendInterrupt k s = map_option (Pair 0) (MESSAGE_StopLoopInterrupt k s)"

definition USB_InterfaceResumeBulk :: "env \<Rightarrow> ehub \<Rightarrow> int outcome" where
  "USB_InterfaceResumeBulk k s = MESSAGE_StartLoopBulk k s"

definition USB_InterfaceResumeInterrupt :: "env \<Rightarrow> ehub \<Rightarrow> int outcome" where
  "USB_InterfaceResumeInterrupt k s = MESSAGE_StartLoopInterrupt k s"

definition USB_InterfaceCreateIsoch :: "env \<Rightarrow> ehub \<Rightarrow> int outcome" where
  "USB_InterfaceCreateIsoch k s =
     (let status = usb_set_interface k (tick s); s1 = tick_up s in
      if status < 0 then Some (status, s1)
      else do {
        (st, s2) \<leftarrow> MESSAGE_InitLoopIsoch k s1;
        if st < 0 then map_option (Pair st) (MESSAGE_FreeLoopIsoch s2) else Some (st, s2)
      })"

definition USB_InterfaceDestroyIsoch :: "env \<Rightarrow> ehub \<Rightarrow> int outcome" where
  "USB_InterfaceDestroyIsoch k s = do {
     s1 \<leftarrow> MESSAGE_StopLoopIsoch k s;
     map_option (Pair 0) (MESSAGE_FreeLoopIsoch s1)
   }"

definition USB_InterfaceSuspendIsoch :: "env \<Rightarrow> ehub \<Rightarrow> int outcome" where
  "USB_InterfaceSuspendIsoch k s = do {
     deref_xhci s;
     if isoch_in_running s then map_option (Pair 0) (MESSAGE_StopLoopIsoch k s) else Some (0, s)
   }"

definition USB_InterfaceResumeIsoch :: "env \<Rightarrow> ehub \<Rightarrow> int outcome" where
  "USB_InterfaceResumeIsoch k s = do {
     deref_xhci s;
     if num_active_isoc_eps s \<noteq> 0 then MESSAGE_StartLoopIsoch k s else Some (0, s)
   }"

section \<open>Entries\<close>

lemma message_entries_set [simp]:
  "message_entries arr (set_message_entries arr xs s) = xs"
  by (cases arr) simp_all

lemma set_message_entries_other [simp]:
  "urb_contexts (set_message_entries arr xs s) = urb_contexts s"
  "next_addr (set_message_entries arr xs s) = next_addr s"
  "tick (set_message_entries arr xs s) = tick s"
  "InterfaceBackup (set_message_entries arr xs s) = InterfaceBackup s"
  by (cases arr; simp)+

lemma message_entries_cong:
  assumes "UrbContextMessageBulk t = UrbContextMessageBulk s"
    and "UrbContextMessageInterrupt t = UrbContextMessageInterrupt s"
    and "UrbContextMessageIsoch t = UrbContextMessageIsoch s"
  shows "message_entries arr t = message_entries arr s"
  using assms by (cases arr) simp_all

lemma message_entries_submitted [simp]:
  "message_entries arr (submitted st a c s) = message_entries arr s"
  by (rule message_entries_cong) (simp_all add: submitted_def)

text \<open>A context that is in flight.\<close>

definition in_flight :: "usb_pipe \<Rightarrow> nat \<Rightarrow> ehub \<Rightarrow> addr \<Rightarrow> bool" where
  "in_flight pipe len s a \<longleftrightarrow>
     (\<exists>c u buf. urb_contexts s a = Some c \<and> uc_Status c = URB_STATUS_SUBMITTED
        \<and> uc_Urb c = Some u \<and> urb_pipe u = pipe \<and> urb_context u = UrbContextPtr a
        \<and> urb_complete u = URB_CompletionRoutine_GetMessage_ptr
        \<and> uc_DataBuffer c = Some buf \<and> length buf = len)"

text \<open>The kernel grants every allocation and accepts every URB.\<close>

definition granting :: "env \<Rightarrow> bool" where
  "granting k \<longleftrightarrow> (\<forall>n. kzalloc k n \<and> usb_alloc_coherent k n \<and> usb_alloc_urb k n
     \<and> 0 \<le> usb_submit_urb k n)"

lemma granting_submits: "granting k \<Longrightarrow> \<not> usb_submit_urb k n < 0"
  by (simp add: granting_def not_less)

lemma quiet_env_granting: "granting quiet_env"
  by (simp add: granting_def quiet_env_def)

text \<open>One round of the start loop: the entry gets the next address, in flight.\<close>

lemma start_round:
  assumes "granting k" and "interface_bound s" and "heap_fresh s"
    and "i < length (message_entries arr s)"
  shows "\<exists>st t. start_loop k arr pipe len (Suc r) i st0 s
       = start_loop k arr pipe len r (Suc i) st t \<and> 0 \<le> st
     \<and> message_entries arr t = (message_entries arr s)[i := Some (next_addr s)]
     \<and> next_addr t = Suc (next_addr s) \<and> InterfaceBackup t = InterfaceBackup s \<and> heap_fresh t
     \<and> in_flight pipe len t (next_addr s)
     \<and> (\<forall>b. b \<noteq> next_addr s \<longrightarrow> urb_contexts t b = urb_contexts s b)"
proof -
  define a where "a = next_addr s"
  define c where "c = new_URB_CONTEXT pipe len URB_CompletionRoutine_GetMessage_ptr None a"
  define s1 where "s1 = s\<lparr>urb_contexts := (urb_contexts s)(a \<mapsto> c), next_addr := Suc a,
     tick := Suc (Suc (Suc (tick s)))\<rparr>"
  define s2 where "s2 = set_message_entries arr ((message_entries arr s)[i := Some a]) s1"
  define st where "st = usb_submit_urb k (tick s2)"
  define t where "t = submitted st a c s2"
  have e: "message_entries arr s1 = message_entries arr s"
    by (rule message_entries_cong) (simp_all add: s1_def)
  have cr: "URB_Create k pipe len URB_CompletionRoutine_GetMessage_ptr None s = Some (Some a, s1)"
    using URB_Create_made [OF assms(2), of k pipe len] assms(1)
    by (simp add: granting_def create_succeeds_def s1_def a_def c_def)
  have st: "\<not> st < 0" using assms(1) by (simp add: granting_def not_less st_def)
  have pe: "put_entry arr i (Some a) s1 = Some s2" using e assms(4) by (simp add: put_entry_def s2_def)
  have live: "urb_contexts s2 a = Some c" by (simp add: s2_def s1_def)
  have sub: "URB_Submit k (Some a) s2 = Some (st, t)"
    by (simp add: URB_Submit_live [OF live] st_def t_def)
  have "start_loop k arr pipe len (Suc r) i st0 s = start_loop k arr pipe len r (Suc i) st t"
    by (simp add: cr pe sub st)
  moreover have "in_flight pipe len t a"
    using st by (simp add: in_flight_def t_def submitted_def c_def new_URB_CONTEXT_def)
  moreover have "heap_fresh t"
    using assms(3) by (auto simp: heap_fresh_def t_def submitted_def s2_def s1_def a_def less_Suc_eq)
  moreover have "message_entries arr t = (message_entries arr s)[i := Some a]"
    by (simp add: t_def s2_def)
  moreover have "next_addr t = Suc a" "InterfaceBackup t = InterfaceBackup s"
    "\<forall>b. b \<noteq> a \<longrightarrow> urb_contexts t b = urb_contexts s b"
    by (simp_all add: t_def submitted_def s2_def s1_def)
  ultimately show ?thesis using st unfolding a_def by (intro exI [of _ st] exI [of _ t]) auto
qed

lemma in_flight_cong: "urb_contexts t a = urb_contexts s a \<Longrightarrow> in_flight p n s a \<Longrightarrow> in_flight p n t a"
  by (simp add: in_flight_def)

lemma start_loop_ok:
  assumes "granting k"
  shows "\<lbrakk>interface_bound s; heap_fresh s; i + r \<le> length (message_entries arr s); 0 \<le> st0\<rbrakk> \<Longrightarrow>
     \<exists>st t. start_loop k arr pipe len r i st0 s = Some (st, t) \<and> 0 \<le> st
     \<and> message_entries arr t = take i (message_entries arr s)
         @ map Some [next_addr s..<next_addr s + r] @ drop (i + r) (message_entries arr s)
     \<and> next_addr t = next_addr s + r \<and> heap_fresh t
     \<and> (\<forall>a. next_addr s \<le> a \<and> a < next_addr s + r \<longrightarrow> in_flight pipe len t a)
     \<and> (\<forall>a. a < next_addr s \<longrightarrow> urb_contexts t a = urb_contexts s a)"
proof (induction r arbitrary: i st0 s)
  case (Suc r)
  let ?n = "next_addr s" and ?E = "message_entries arr s"
  from start_round [OF assms Suc.prems(1,2), of i arr pipe len r st0] Suc.prems(3)
  obtain st s1 where 1: "start_loop k arr pipe len (Suc r) i st0 s
       = start_loop k arr pipe len r (Suc i) st s1" "0 \<le> st" "message_entries arr s1 = ?E[i := Some ?n]"
    "next_addr s1 = Suc ?n" "InterfaceBackup s1 = InterfaceBackup s" "heap_fresh s1"
    "in_flight pipe len s1 ?n" "\<forall>b. b \<noteq> ?n \<longrightarrow> urb_contexts s1 b = urb_contexts s b"
    by auto
  have "interface_bound s1" using Suc.prems(1) 1(5) by (simp add: interface_bound_def)
  from Suc.IH [OF this 1(6) _ 1(2), of "Suc i"] Suc.prems(3) 1(3)
  obtain st' t where 2: "start_loop k arr pipe len r (Suc i) st s1 = Some (st', t)" "0 \<le> st'"
    "message_entries arr t = take (Suc i) (?E[i := Some ?n])
         @ map Some [next_addr s1..<next_addr s1 + r] @ drop (Suc i + r) (?E[i := Some ?n])"
    "next_addr t = next_addr s1 + r" "heap_fresh t"
    "\<forall>a. next_addr s1 \<le> a \<and> a < next_addr s1 + r \<longrightarrow> in_flight pipe len t a"
    "\<forall>a. a < next_addr s1 \<longrightarrow> urb_contexts t a = urb_contexts s1 a"
    by auto
  have "in_flight pipe len t ?n" using in_flight_cong [OF _ 1(7)] 2(7) 1(4) by simp
  moreover have "message_entries arr t = take i ?E @ map Some [?n..<?n + Suc r] @ drop (i + Suc r) ?E"
    using 2(3) 1(4) Suc.prems(3) by (simp add: take_Suc_conv_app_nth upt_conv_Cons)
  moreover have "\<forall>a. ?n \<le> a \<and> a < ?n + Suc r \<longrightarrow> in_flight pipe len t a"
    using 2(6) 1(4) \<open>in_flight pipe len t ?n\<close> by (metis add_Suc add_Suc_right le_eq_less_or_eq Suc_leI)
  moreover have "\<forall>a. a < ?n \<longrightarrow> urb_contexts t a = urb_contexts s a"
    using 2(7) 1(4,8) by simp
  moreover have "start_loop k arr pipe len (Suc r) i st0 s = Some (st', t)" using 1(1) 2(1) by simp
  moreover have "next_addr t = ?n + Suc r" using 2(4) 1(4) by simp
  ultimately show ?case using 2(2,5) by blast
qed auto

text \<open>While a URB is killed the other contexts free and create no URB context, and leave the
  controller and the arrays alone.\<close>

definition still :: "env \<Rightarrow> bool" where
  "still k \<longleftrightarrow> (\<forall>n s. dom (urb_contexts (other_contexts k n s)) = dom (urb_contexts s)
     \<and> xhci_hcd_ptr (other_contexts k n s) = xhci_hcd_ptr s
     \<and> (\<forall>arr. message_entries arr (other_contexts k n s) = message_entries arr s))"

lemma quiet_env_still: "still quiet_env"
  by (simp add: still_def quiet_env_def)

lemma stop_round:
  assumes "still k" and "i < length (message_entries arr s)"
    and "\<forall>a. message_entries arr s ! i = Some a \<longrightarrow> a \<in> dom (urb_contexts s)"
  shows "\<exists>t. stop_loop k arr mark (Suc r) i s = stop_loop k arr mark r (Suc i) t
     \<and> message_entries arr t = (message_entries arr s)[i := None]
     \<and> dom (urb_contexts t) = dom (urb_contexts s) - set_option (message_entries arr s ! i)"
proof (cases "message_entries arr s ! i")
  case None
  then show ?thesis using assms(2) by (auto simp: get_entry_def put_entry_def)
next
  case (Some a)
  then obtain c where c: "urb_contexts s a = Some c" using assms(3) by auto
  define s1 where "s1 = set_message_entries arr ((message_entries arr s)[i := None]) s"
  define s2 where "s2 = put_urb a (c\<lparr>uc_Event := Suc (uc_Event c)\<rparr>) s1"
  define s3 where "s3 = (if mark then put_urb a
      (c\<lparr>uc_Event := Suc (uc_Event c)\<rparr>\<lparr>uc_Status := URB_STATUS_COMPLETE\<rparr>) s2 else s2)"
  define s4 where "s4 = usb_kill_urb k a s3"
  have dom4: "dom (urb_contexts s4) = dom (urb_contexts s)"
    using assms(1) c by (auto simp: still_def s4_def usb_kill_urb_def usb_gives_up_def s3_def s2_def s1_def)
  then obtain c4 where c4: "urb_contexts s4 a = Some c4" using c by (metis domD domI)
  have "message_entries arr s3 = message_entries arr s1"
    by (rule message_entries_cong) (simp_all add: s3_def s2_def put_urb_def)
  moreover have "message_entries arr (tick_up s3) = message_entries arr s3"
    by (rule message_entries_cong) (simp_all add: tick_up_def)
  moreover have "message_entries arr s4 = message_entries arr (other_contexts k (tick s3) (tick_up s3))"
    by (rule message_entries_cong) (simp_all add: s4_def usb_kill_urb_def usb_gives_up_def)
  ultimately have e4: "message_entries arr s4 = (message_entries arr s)[i := None]"
    using assms(1) by (simp add: still_def s1_def)
  define t where "t = s4\<lparr>doorbell_list_free := list_del a (doorbell_list_free s4),
      doorbell_list_busy := list_del a (doorbell_list_busy s4),
      urb_contexts := (urb_contexts s4)(a := None)\<rparr>"
  have "get_entry arr i s = Some (Some a)" and "put_entry arr i None s = Some s1"
    using Some assms(2) by (simp_all add: get_entry_def put_entry_def s1_def)
  moreover have "NOTIFICATION_Notify (EventUrb a) s1 = Some s2"
    using c by (simp add: NOTIFICATION_Notify_def s2_def s1_def)
  moreover have "urb_contexts s2 a = Some (c\<lparr>uc_Event := Suc (uc_Event c)\<rparr>)" by (simp add: s2_def)
  moreover have "URB_Destroy (Some a) s4 = Some t" using c4 by (simp add: URB_Destroy_def t_def)
  ultimately have "stop_loop k arr mark (Suc r) i s = stop_loop k arr mark r (Suc i) t"
    by (simp add: s3_def [symmetric] s4_def [symmetric])
  moreover have "message_entries arr t = message_entries arr s4"
    by (rule message_entries_cong) (simp_all add: t_def)
  moreover have "dom (urb_contexts t) = dom (urb_contexts s) - {a}" using dom4 by (simp add: t_def)
  ultimately show ?thesis using Some e4 by (metis option.set(2))
qed

lemma set_somes: "set (List.map_filter (\<lambda>p. p) xs) = {a. Some a \<in> set xs}"
  by (induction xs) (auto simp: map_filter_simps split: option.splits)

lemma stop_loop_ok:
  assumes "still k"
  shows "\<lbrakk>i + r \<le> length (message_entries arr s);
      distinct (List.map_filter (\<lambda>p. p) (take r (drop i (message_entries arr s))));
      \<forall>a. Some a \<in> set (take r (drop i (message_entries arr s))) \<longrightarrow> a \<in> dom (urb_contexts s)\<rbrakk> \<Longrightarrow>
     \<exists>t. stop_loop k arr mark r i s = Some t
     \<and> message_entries arr t = take i (message_entries arr s) @ replicate r None
         @ drop (i + r) (message_entries arr s)
     \<and> dom (urb_contexts t) = dom (urb_contexts s)
         - {a. Some a \<in> set (take r (drop i (message_entries arr s)))}"
proof (induction r arbitrary: i s)
  case (Suc r)
  let ?E = "message_entries arr s"
  have i: "i < length ?E" using Suc.prems(1) by simp
  have d: "take (Suc r) (drop i ?E) = ?E ! i # take r (drop (Suc i) ?E)"
    using i by (simp add: Cons_nth_drop_Suc [symmetric])
  have live: "\<forall>a. ?E ! i = Some a \<longrightarrow> a \<in> dom (urb_contexts s)"
    using Suc.prems(3) unfolding d by simp
  obtain s1 where 1: "stop_loop k arr mark (Suc r) i s = stop_loop k arr mark r (Suc i) s1"
    "message_entries arr s1 = ?E[i := None]"
    "dom (urb_contexts s1) = dom (urb_contexts s) - set_option (?E ! i)"
    using stop_round [OF assms i live] by blast
  have E1: "drop (Suc i) (message_entries arr s1) = drop (Suc i) ?E" by (simp add: 1(2))
  have "distinct (List.map_filter (\<lambda>p. p) (take r (drop (Suc i) ?E)))"
    and new: "?E ! i = Some a \<Longrightarrow> Some a \<notin> set (take r (drop (Suc i) ?E))" for a
    using Suc.prems(2) unfolding d
    by (auto simp: map_filter_simps set_somes split: option.splits)
  moreover have "\<forall>a. Some a \<in> set (take r (drop (Suc i) ?E)) \<longrightarrow> a \<in> dom (urb_contexts s1)"
    using Suc.prems(3) new unfolding d 1(3) by auto
  ultimately obtain t where 2: "stop_loop k arr mark r (Suc i) s1 = Some t"
    "message_entries arr t = take (Suc i) (?E[i := None]) @ replicate r None @ drop (Suc i + r) (?E[i := None])"
    "dom (urb_contexts t) = dom (urb_contexts s1) - {a. Some a \<in> set (take r (drop (Suc i) ?E))}"
    using Suc.IH [of "Suc i" s1] Suc.prems(1) 1(2) E1 by auto
  have "message_entries arr t = take i ?E @ replicate (Suc r) None @ drop (i + Suc r) ?E"
    using 2(2) i by (simp add: take_Suc_conv_app_nth)
  moreover have "dom (urb_contexts t) = dom (urb_contexts s) - {a. Some a \<in> set (take (Suc r) (drop i ?E))}"
    unfolding 2(3) 1(3) d by (cases "?E ! i") auto
  ultimately show ?case using 1(1) 2(1) by auto
qed simp

section \<open>The isochronous loop\<close>

text \<open>A context whose completion can be handled and resubmitted.\<close>

definition isoch_context :: "ehub \<Rightarrow> addr \<Rightarrow> bool" where
  "isoch_context s a \<longleftrightarrow>
     (\<exists>c. urb_contexts s a = Some c \<and> uc_DeviceContextPvoid c \<and> uc_DataBuffer c \<noteq> None)"

text \<open>While a URB of the loop is killed, other contexts may complete URBs and resubmit the ones that
  complete, but do not submit further URBs of the loop, free its contexts or move the controller.\<close>

definition kill_quiet :: "env \<Rightarrow> bool" where
  "kill_quiet k \<longleftrightarrow> (\<forall>n s. xhci_hcd_ptr (other_contexts k n s) = xhci_hcd_ptr s
     \<and> UrbContextMessageIsoch (other_contexts k n s) = UrbContextMessageIsoch s
     \<and> (\<forall>a. Some a \<in> set (UrbContextMessageIsoch s) \<longrightarrow>
          (a \<in> usb_pending (other_contexts k n s) \<longrightarrow> a \<in> usb_pending s)
          \<and> (isoch_context s a \<longrightarrow> isoch_context (other_contexts k n s) a)))"

lemma quiet_env_kill_quiet: "kill_quiet quiet_env"
  by (simp add: kill_quiet_def quiet_env_def)

lemma submit_isoch_loop_ok:
  assumes "granting k"
  shows "\<lbrakk>UrbContextMessageIsoch s = map Some as; \<forall>a \<in> set as. isoch_context s a;
      i + r \<le> length as; 0 \<le> st0\<rbrakk> \<Longrightarrow>
     \<exists>st t. submit_isoch_loop k r i st0 s = Some (st, t) \<and> 0 \<le> st \<and> isoch_in_running t
     \<and> UrbContextMessageIsoch t = map Some as \<and> (\<forall>a \<in> set as. isoch_context t a)
     \<and> xhci_hcd_ptr t = xhci_hcd_ptr s
     \<and> usb_pending t = usb_pending s \<union> set (take r (drop i as))"
proof (induction r arbitrary: i st0 s)
  case 0
  then show ?case by (auto simp: isoch_context_def)
next
  case (Suc r)
  then have i: "i < length as" by simp
  then obtain c where c: "urb_contexts s (as ! i) = Some c" "uc_DeviceContextPvoid c" "uc_DataBuffer c \<noteq> None"
    using Suc.prems(2) nth_mem unfolding isoch_context_def by blast
  let ?st = "usb_submit_urb k (tick s)"
  let ?t = "submitted ?st (as ! i) c s"
  have st: "0 \<le> ?st" using assms by (simp add: granting_def)
  have step: "submit_isoch_loop k (Suc r) i st0 s = submit_isoch_loop k r (Suc i) ?st ?t"
    using Suc.prems(1) i st by (simp add: get_entry_def URB_Submit_live [OF c(1)])
  have t: "UrbContextMessageIsoch ?t = map Some as" "\<forall>a \<in> set as. isoch_context ?t a"
    "xhci_hcd_ptr ?t = xhci_hcd_ptr s" "usb_pending ?t = insert (as ! i) (usb_pending s)"
    using c st Suc.prems(1,2) by (auto simp: submitted_def isoch_context_def)
  have le: "Suc i + r \<le> length as" using Suc.prems(3) by simp
  obtain st' u where u: "submit_isoch_loop k r (Suc i) ?st ?t = Some (st', u)" "0 \<le> st'"
    "isoch_in_running u" "UrbContextMessageIsoch u = map Some as"
    "\<forall>a \<in> set as. isoch_context u a" "xhci_hcd_ptr u = xhci_hcd_ptr ?t"
    "usb_pending u = usb_pending ?t \<union> set (take r (drop (Suc i) as))"
    using Suc.IH [OF t(1,2) le st] by blast
  have "usb_pending u = usb_pending s \<union> set (take (Suc r) (drop i as))"
    using u(7) t(4) Cons_nth_drop_Suc [OF i] by (metis Un_insert_left Un_insert_right list.simps(15) take_Suc_Cons)
  then show ?case using step t(3) u by (intro exI [of _ st'] exI [of _ u]) simp
qed

lemma stop_isoch_loop_ok:
  assumes "kill_quiet k"
  shows "\<lbrakk>UrbContextMessageIsoch s = map Some as; \<forall>a \<in> set as. isoch_context s a; i + r \<le> length as\<rbrakk> \<Longrightarrow>
     \<exists>t. stop_isoch_loop k r i s = Some t \<and> UrbContextMessageIsoch t = map Some as
     \<and> (\<forall>a \<in> set as. isoch_context t a) \<and> xhci_hcd_ptr t = xhci_hcd_ptr s
     \<and> usb_pending t \<inter> set as \<subseteq> usb_pending s - set (take r (drop i as))"
proof (induction r arbitrary: i s)
  case (Suc r)
  then have i: "i < length as" by simp
  then obtain c where c: "urb_contexts s (as ! i) = Some c" "uc_DeviceContextPvoid c" "uc_DataBuffer c \<noteq> None"
    using Suc.prems(2) nth_mem unfolding isoch_context_def by blast
  define s1 where "s1 = put_urb (as ! i) (c\<lparr>uc_Event := Suc (uc_Event c)\<rparr>) s"
  define s2 where "s2 = put_urb (as ! i) (c\<lparr>uc_Event := Suc (uc_Event c)\<rparr>\<lparr>uc_Status := URB_STATUS_COMPLETE\<rparr>) s1"
  define s3 where "s3 = other_contexts k (tick s2) (tick_up s2)"
  define t where "t = usb_gives_up (as ! i) s3"
  have "get_entry IsochArray i s = Some (Some (as ! i))"
    using Suc.prems(1) i by (simp add: get_entry_def)
  moreover have "NOTIFICATION_Notify (EventUrb (as ! i)) s = Some s1"
    using c by (simp add: NOTIFICATION_Notify_def s1_def)
  moreover have "urb_contexts s1 (as ! i) = Some (c\<lparr>uc_Event := Suc (uc_Event c)\<rparr>)" by (simp add: s1_def)
  ultimately have step: "stop_isoch_loop k (Suc r) i s = stop_isoch_loop k r (Suc i) t"
    by (simp add: s2_def [symmetric] t_def s3_def usb_kill_urb_def)
  have s2: "UrbContextMessageIsoch (tick_up s2) = map Some as" "\<forall>a \<in> set as. isoch_context (tick_up s2) a"
    "xhci_hcd_ptr (tick_up s2) = xhci_hcd_ptr s" "usb_pending (tick_up s2) = usb_pending s"
    using Suc.prems(1,2) c by (auto simp: s2_def s1_def put_urb_def tick_up_def isoch_context_def)
  have q: "xhci_hcd_ptr s3 = xhci_hcd_ptr (tick_up s2)"
    "UrbContextMessageIsoch s3 = UrbContextMessageIsoch (tick_up s2)"
    "\<And>a. Some a \<in> set (UrbContextMessageIsoch (tick_up s2)) \<Longrightarrow>
       (a \<in> usb_pending s3 \<longrightarrow> a \<in> usb_pending (tick_up s2))
       \<and> (isoch_context (tick_up s2) a \<longrightarrow> isoch_context s3 a)"
    using assms unfolding kill_quiet_def s3_def by blast+
  have t: "UrbContextMessageIsoch t = map Some as" "\<forall>a \<in> set as. isoch_context t a"
    "xhci_hcd_ptr t = xhci_hcd_ptr s" "usb_pending t \<inter> set as \<subseteq> usb_pending s - {as ! i}"
    using q s2 by (auto simp: t_def usb_gives_up_def isoch_context_def)
  have le: "Suc i + r \<le> length as" using Suc.prems(3) by simp
  obtain u where u: "stop_isoch_loop k r (Suc i) t = Some u" "UrbContextMessageIsoch u = map Some as"
    "\<forall>a \<in> set as. isoch_context u a" "xhci_hcd_ptr u = xhci_hcd_ptr t"
    "usb_pending u \<inter> set as \<subseteq> usb_pending t - set (take r (drop (Suc i) as))"
    using Suc.IH [OF t(1,2) le] by blast
  have "set (take (Suc r) (drop i as)) = insert (as ! i) (set (take r (drop (Suc i) as)))"
    using Cons_nth_drop_Suc [OF i] by (metis list.simps(15) take_Suc_Cons)
  then have "usb_pending u \<inter> set as \<subseteq> usb_pending s - set (take (Suc r) (drop i as))"
    using u(5) t(4) by blast
  then show ?case using step t(3) u by auto
qed auto

text \<open>
  The six contexts stay usable; while the loop is not running, the USB core holds none of their
  URBs, and while it is running, it holds all of them, as long as every transfer succeeds (\<open>ok\<close>):
  the completion routine does not submit a URB again that completed with an error.
\<close>

definition isoch_inv :: "bool \<Rightarrow> ehub \<Rightarrow> bool" where
  "isoch_inv ok s \<longleftrightarrow> xhci_hcd_ptr s = XhciLive
     \<and> (\<exists>as. UrbContextMessageIsoch s = map Some as \<and> length as = NUMBER_OF_MESSAGE_ISOCH
          \<and> (\<forall>a \<in> set as. isoch_context s a)
          \<and> (isoch_in_running s \<and> ok \<longrightarrow> set as \<subseteq> usb_pending s)
          \<and> (\<not> isoch_in_running s \<longrightarrow> set as \<inter> usb_pending s = {}))"

text \<open>What happens to the loop: an endpoint starts it, the last endpoint queues a stop, a stop that
  is still pending runs, and a URB that is in flight completes; when \<open>ok\<close>, without error and on a
  device without error.\<close>

inductive isoch_step :: "bool \<Rightarrow> env \<Rightarrow> ehub \<Rightarrow> ehub \<Rightarrow> bool" for ok :: bool and k :: env where
  start: "MESSAGE_StartLoopIsoch k s = Some (st, t) \<Longrightarrow> isoch_step ok k s t"
| queue: "isoch_step ok k s (MESSAGE_queue_StopLoopIsoch s)"
| stop: "stop_isoch_work_pending s \<Longrightarrow> MESSAGE_delayed_StopLoopIsoch k s = Some t \<Longrightarrow> isoch_step ok k s t"
| complete: "Some a \<in> set (UrbContextMessageIsoch s) \<Longrightarrow> a \<in> usb_pending s \<Longrightarrow>
    urb_context u = UrbContextPtr a \<Longrightarrow> (ok \<longrightarrow> urb_status u = 0 \<and> device_ok s) \<Longrightarrow>
    URB_CompletionRoutine_GetMessage k (Some u) (usb_gives_up a s) = Some t \<Longrightarrow> isoch_step ok k s t"

inductive_cases isoch_stepE: "isoch_step ok k s t"

lemma StartLoopIsoch_ok:
  assumes "granting k" and "isoch_inv ok s"
  shows "\<exists>st t. MESSAGE_StartLoopIsoch k s = Some (st, t) \<and> 0 \<le> st \<and> isoch_inv ok t \<and> isoch_in_running t"
proof (cases "isoch_in_running s")
  case True
  then show ?thesis using assms(2)
    by (auto simp: MESSAGE_StartLoopIsoch_def deref_xhci_def isoch_inv_def isoch_context_def)
next
  case False
  let ?s = "s\<lparr>stop_isoch_work_pending := False\<rparr>"
  obtain as where as: "UrbContextMessageIsoch ?s = map Some as" "length as = NUMBER_OF_MESSAGE_ISOCH"
    "\<forall>a \<in> set as. isoch_context ?s a" "xhci_hcd_ptr s = XhciLive"
    using assms(2) by (auto simp: isoch_inv_def isoch_context_def)
  obtain st t where t: "submit_isoch_loop k NUMBER_OF_MESSAGE_ISOCH 0 0 ?s = Some (st, t)" "0 \<le> st"
    "isoch_in_running t" "UrbContextMessageIsoch t = map Some as" "\<forall>a \<in> set as. isoch_context t a"
    "xhci_hcd_ptr t = xhci_hcd_ptr ?s" "usb_pending t = usb_pending ?s \<union> set as"
    using submit_isoch_loop_ok [OF assms(1) as(1,3), of 0 NUMBER_OF_MESSAGE_ISOCH 0] as(2) by auto
  then have "isoch_inv ok t" using as by (auto simp: isoch_inv_def)
  moreover have "MESSAGE_StartLoopIsoch k s = Some (st, t)"
    using False t(1) as(4) by (simp add: MESSAGE_StartLoopIsoch_def deref_xhci_def)
  ultimately show ?thesis using t(2,3) by blast
qed

lemma delayed_StopLoopIsoch_ok:
  assumes "kill_quiet k" and "isoch_inv ok s"
  shows "\<exists>t. MESSAGE_delayed_StopLoopIsoch k s = Some t \<and> isoch_inv ok t \<and> \<not> isoch_in_running t"
proof (cases "isoch_in_running s")
  case False
  then show ?thesis using assms(2)
    by (auto simp: MESSAGE_delayed_StopLoopIsoch_def MESSAGE_StopLoopIsoch_def deref_xhci_def isoch_inv_def
        isoch_context_def)
next
  case True
  let ?s = "s\<lparr>stop_isoch_work_pending := False\<rparr>"
  obtain as where as: "UrbContextMessageIsoch ?s = map Some as" "length as = NUMBER_OF_MESSAGE_ISOCH"
    "\<forall>a \<in> set as. isoch_context ?s a" "xhci_hcd_ptr s = XhciLive"
    using assms(2) by (auto simp: isoch_inv_def isoch_context_def)
  obtain t where t: "stop_isoch_loop k NUMBER_OF_MESSAGE_ISOCH 0 ?s = Some t"
    "UrbContextMessageIsoch t = map Some as" "\<forall>a \<in> set as. isoch_context t a"
    "xhci_hcd_ptr t = xhci_hcd_ptr ?s" "usb_pending t \<inter> set as \<subseteq> usb_pending ?s - set as"
    using stop_isoch_loop_ok [OF assms(1) as(1,3), of 0 NUMBER_OF_MESSAGE_ISOCH] as(2) by auto
  then have "isoch_inv ok (t\<lparr>isoch_in_running := False\<rparr>)" using as
    by (auto simp: isoch_inv_def isoch_context_def)
  then show ?thesis using True as t(1,4)
    by (simp add: MESSAGE_delayed_StopLoopIsoch_def MESSAGE_StopLoopIsoch_def deref_xhci_def)
qed

text \<open>What the completion routine does to the loop: the URB is in the USB core again or not, and a
  successful transfer on a device without error is.\<close>

lemma GetMessage_loop:
  assumes u: "urb_context u = UrbContextPtr a" and c: "isoch_context s a"
    and r: "URB_CompletionRoutine_GetMessage k (Some u) s = Some t"
  shows "UrbContextMessageIsoch t = UrbContextMessageIsoch s \<and> xhci_hcd_ptr t = xhci_hcd_ptr s
     \<and> isoch_in_running t = isoch_in_running s \<and> (\<forall>b. isoch_context s b \<longrightarrow> isoch_context t b)
     \<and> usb_pending s \<subseteq> usb_pending t
     \<and> (granting k \<and> urb_status u = 0 \<and> device_ok s \<longrightarrow> a \<in> usb_pending t)"
  using assms
  by (auto simp: URB_CompletionRoutine_GetMessage_def isoch_context_def WORK_ITEM_Create_def
      WORK_ITEM_Submit_def spin_defs tick_up_def put_urb_def Let_def submitted_def granting_submits
      elim!: bind_eq_SomeE URB_Submit_Some split: if_splits option.splits)

lemma isoch_complete_inv:
  assumes inv: "isoch_inv ok s" and "granting k" and a: "Some a \<in> set (UrbContextMessageIsoch s)" "a \<in> usb_pending s"
    and u: "urb_context u = UrbContextPtr a" "ok \<longrightarrow> urb_status u = 0 \<and> device_ok s"
    and r: "URB_CompletionRoutine_GetMessage k (Some u) (usb_gives_up a s) = Some t"
  shows "isoch_inv ok t"
proof -
  obtain as where as: "UrbContextMessageIsoch s = map Some as" "length as = NUMBER_OF_MESSAGE_ISOCH"
    "\<forall>b \<in> set as. isoch_context s b" "xhci_hcd_ptr s = XhciLive"
    "isoch_in_running s \<and> ok \<longrightarrow> set as \<subseteq> usb_pending s" "\<not> isoch_in_running s \<longrightarrow> set as \<inter> usb_pending s = {}"
    using inv by (auto simp: isoch_inv_def)
  have "a \<in> set as" using a(1) as(1) by auto
  then have run: "isoch_in_running s" and c: "isoch_context (usb_gives_up a s) a"
    using a(2) as(3,6) by (auto simp: usb_gives_up_def isoch_context_def)
  have ok: "device_ok (usb_gives_up a s) = device_ok s"
    by (rule same_health_ok) (simp add: usb_gives_up_def same_health_def)
  note g = GetMessage_loop [OF u(1) c r]
  have "isoch_context (usb_gives_up a s) b = isoch_context s b" for b
    by (simp add: usb_gives_up_def isoch_context_def)
  then have "\<forall>b \<in> set as. isoch_context t b" using g as(3) by simp
  moreover have "set as \<subseteq> usb_pending t" if ok
    using that g ok u(2) as(5) run \<open>granting k\<close> by (auto simp: usb_gives_up_def)
  ultimately show ?thesis using g as run by (auto simp: isoch_inv_def usb_gives_up_def)
qed

lemma isoch_step_inv:
  assumes "isoch_step ok k s t" and "granting k" and "kill_quiet k" and "isoch_inv ok s"
  shows "isoch_inv ok t"
  using assms(1)
proof cases
  case (start st)
  then show ?thesis using StartLoopIsoch_ok [OF assms(2,4)] by auto
next
  case queue
  then show ?thesis using assms(4)
    by (auto simp: MESSAGE_queue_StopLoopIsoch_def isoch_inv_def isoch_context_def)
next
  case stop
  then show ?thesis using delayed_StopLoopIsoch_ok [OF assms(3,4)] by auto
next
  case (complete a u)
  then show ?thesis using isoch_complete_inv [OF assms(4,2)] by blast
qed

section \<open>Properties\<close>

text \<open>The arrays of a bound device have their declared sizes.\<close>

definition loops_ready :: "ehub \<Rightarrow> bool" where
  "loops_ready s \<longleftrightarrow> interface_bound s \<and> heap_fresh s
     \<and> length (UrbContextMessageBulk s) = NUMBER_OF_MESSAGE_BULK
     \<and> length (UrbContextMessageInterrupt s) = NUMBER_OF_MESSAGE_INTERRUPT"

lemma ready_ehub_loops: "loops_ready ready_ehub"
  by (simp add: loops_ready_def demo_defs interface_bound_def heap_fresh_def)

text \<open>
  Starting the bulk message loop, when the kernel grants the allocations and accepts the
  URBs, fills the array with eight different new contexts, all in flight on the bulk IN pipe
  with a buffer of the full message size, and touches no existing context.
\<close>

theorem StartLoopBulk_fills:
  assumes "granting k" and "loops_ready s"
  shows "\<exists>st t as. MESSAGE_StartLoopBulk k s = Some (st, t) \<and> 0 \<le> st
     \<and> UrbContextMessageBulk t = map Some as \<and> length as = NUMBER_OF_MESSAGE_BULK \<and> distinct as
     \<and> (\<forall>a \<in> set as. urb_contexts s a = None
          \<and> in_flight (UsbPipeBulkIn s) MESSAGE_DATA_BUFFER_SIZE_BULK t a)
     \<and> (\<forall>a. urb_contexts s a \<noteq> None \<longrightarrow> urb_contexts t a = urb_contexts s a)"
proof -
  have fresh: "urb_contexts s a \<noteq> None \<Longrightarrow> a < next_addr s" for a
    using assms(2) by (auto simp: loops_ready_def heap_fresh_def)
  then have new: "next_addr s \<le> a \<Longrightarrow> urb_contexts s a = None" for a
    by (meson not_less)
  obtain st t where t: "MESSAGE_StartLoopBulk k s = Some (st, t)" "0 \<le> st"
    "UrbContextMessageBulk t = map Some [next_addr s..<next_addr s + NUMBER_OF_MESSAGE_BULK]"
    "\<forall>a. next_addr s \<le> a \<and> a < next_addr s + NUMBER_OF_MESSAGE_BULK \<longrightarrow>
       in_flight (UsbPipeBulkIn s) MESSAGE_DATA_BUFFER_SIZE_BULK t a"
    "\<forall>a. a < next_addr s \<longrightarrow> urb_contexts t a = urb_contexts s a"
    using start_loop_ok [OF assms(1), of s 0 NUMBER_OF_MESSAGE_BULK BulkArray 0 "UsbPipeBulkIn s"
        MESSAGE_DATA_BUFFER_SIZE_BULK] assms(2)
    by (auto simp: MESSAGE_StartLoopBulk_def loops_ready_def)
  show ?thesis
    by (rule exI [of _ st], rule exI [of _ t],
        rule exI [of _ "[next_addr s..<next_addr s + NUMBER_OF_MESSAGE_BULK]"])
      (use t fresh new in auto)
qed

theorem StartLoopBulk_fills_witness:
  "\<exists>st t as. MESSAGE_StartLoopBulk quiet_env ready_ehub = Some (st, t)
     \<and> UrbContextMessageBulk t = map Some as \<and> length as = 8 \<and> distinct as"
  using StartLoopBulk_fills [OF quiet_env_granting ready_ehub_loops] by blast

text \<open>
  C18. Stopping a message loop that was started undoes it: for the bulk and for the interrupt
  loop, start followed by stop leaves every element of the array NULL and exactly the URB
  contexts allocated that were allocated before, so suspend and resume leak nothing.
\<close>

theorem message_loop_round_trip:
  assumes "granting k" and "still k" and "loops_ready s"
  shows "(\<exists>st t u. MESSAGE_StartLoopBulk k s = Some (st, t) \<and> MESSAGE_StopLoopBulk k t = Some u
       \<and> UrbContextMessageBulk u = replicate NUMBER_OF_MESSAGE_BULK None
       \<and> dom (urb_contexts u) = dom (urb_contexts s))
     \<and> (\<exists>st t u. MESSAGE_StartLoopInterrupt k s = Some (st, t) \<and> MESSAGE_StopLoopInterrupt k t = Some u
       \<and> UrbContextMessageInterrupt u = replicate NUMBER_OF_MESSAGE_INTERRUPT None
       \<and> dom (urb_contexts u) = dom (urb_contexts s))"
proof -
  have trip: "\<exists>st t u. start_loop k arr pipe len r 0 0 s = Some (st, t)
      \<and> stop_loop k arr mark r 0 t = Some u \<and> message_entries arr u = replicate r None
      \<and> dom (urb_contexts u) = dom (urb_contexts s)"
    if r: "length (message_entries arr s) = r" for arr pipe len mark r
  proof -
    have ready: "interface_bound s" "heap_fresh s" using assms(3) by (auto simp: loops_ready_def)
    obtain st t where t: "start_loop k arr pipe len r 0 0 s = Some (st, t)"
      "message_entries arr t = map Some [next_addr s..<next_addr s + r]"
      "next_addr t = next_addr s + r" "heap_fresh t"
      "\<forall>a. next_addr s \<le> a \<and> a < next_addr s + r \<longrightarrow> in_flight pipe len t a"
      "\<forall>a. a < next_addr s \<longrightarrow> urb_contexts t a = urb_contexts s a"
      using start_loop_ok [OF assms(1) ready, of 0 r arr 0 pipe len] r by auto
    have all: "take r (drop 0 (message_entries arr t)) = map Some [next_addr s..<next_addr s + r]"
      by (simp add: t(2))
    have "distinct (List.map_filter (\<lambda>p. p) (map Some xs)) = distinct xs" for xs :: "addr list"
      by (induction xs) (auto simp: map_filter_simps set_somes)
    then have "distinct (List.map_filter (\<lambda>p. p) (take r (drop 0 (message_entries arr t))))"
      unfolding all by simp
    moreover have "\<forall>a. Some a \<in> set (take r (drop 0 (message_entries arr t))) \<longrightarrow> a \<in> dom (urb_contexts t)"
      unfolding all using t(5) by (auto simp: in_flight_def)
    moreover have "{a. Some a \<in> set (take r (drop 0 (message_entries arr t)))} = {next_addr s..<next_addr s + r}"
      unfolding all by auto
    ultimately obtain u where u: "stop_loop k arr mark r 0 t = Some u"
      "message_entries arr u = replicate r None"
      "dom (urb_contexts u) = dom (urb_contexts t) - {next_addr s..<next_addr s + r}"
      using stop_loop_ok [OF assms(2), of 0 r arr t mark] t(2) by auto
    have "dom (urb_contexts t) - {next_addr s..<next_addr s + r} = dom (urb_contexts s)"
    proof (rule set_eqI)
      fix a
      have "a \<in> dom (urb_contexts t) \<Longrightarrow> a < next_addr s + r"
        "a \<in> dom (urb_contexts s) \<Longrightarrow> a < next_addr s"
        using t(3,4) ready(2) by (auto simp: heap_fresh_def)
      then show "a \<in> dom (urb_contexts t) - {next_addr s..<next_addr s + r} \<longleftrightarrow> a \<in> dom (urb_contexts s)"
        using t(6) by (cases "a < next_addr s") auto
    qed
    with t(1) u show ?thesis by metis
  qed
  show ?thesis
    using trip [of BulkArray NUMBER_OF_MESSAGE_BULK "UsbPipeBulkIn s" MESSAGE_DATA_BUFFER_SIZE_BULK False]
      trip [of InterruptArray NUMBER_OF_MESSAGE_INTERRUPT "UsbPipeInterruptIn s"
        MESSAGE_DATA_BUFFER_SIZE_INTERRUPT True] assms(3)
    by (simp add: loops_ready_def MESSAGE_StartLoopBulk_def MESSAGE_StopLoopBulk_def
        MESSAGE_StartLoopInterrupt_def MESSAGE_StopLoopInterrupt_def)
qed

theorem message_loop_round_trip_witness:
  "\<exists>st t u. MESSAGE_StartLoopBulk quiet_env ready_ehub = Some (st, t)
     \<and> MESSAGE_StopLoopBulk quiet_env t = Some u \<and> dom (urb_contexts u) = dom (urb_contexts ready_ehub)"
  using message_loop_round_trip [OF quiet_env_granting quiet_env_still ready_ehub_loops] by blast

text \<open>
  C34. A message loop that fails to start cannot be stopped: when the first URB is refused, its
  context is destroyed but its pointer stays in the array, and the stop that follows uses the
  freed context.
\<close>

theorem StartLoopBulk_failure_dangles:
  assumes "loops_ready s" and "create_succeeds k (tick s)" and "usb_submit_urb k (tick s + 3) < 0"
  shows "\<exists>t. MESSAGE_StartLoopBulk k s = Some (usb_submit_urb k (tick s + 3), t)
     \<and> MESSAGE_StopLoopBulk k t = None"
proof -
  define a where "a = next_addr s"
  define c where "c = new_URB_CONTEXT (UsbPipeBulkIn s) MESSAGE_DATA_BUFFER_SIZE_BULK
     URB_CompletionRoutine_GetMessage_ptr None a"
  define s1 where "s1 = s\<lparr>urb_contexts := (urb_contexts s)(a \<mapsto> c), next_addr := Suc a,
     tick := Suc (Suc (Suc (tick s)))\<rparr>"
  define s2 where "s2 = s1\<lparr>UrbContextMessageBulk := (UrbContextMessageBulk s)[0 := Some a]\<rparr>"
  define s3 where "s3 = submitted (usb_submit_urb k (tick s + 3)) a c s2"
  define t where "t = s3\<lparr>doorbell_list_free := list_del a (doorbell_list_free s3),
      doorbell_list_busy := list_del a (doorbell_list_busy s3),
      urb_contexts := (urb_contexts s3)(a := None)\<rparr>"
  have cr: "URB_Create k (UsbPipeBulkIn s) MESSAGE_DATA_BUFFER_SIZE_BULK
      URB_CompletionRoutine_GetMessage_ptr None s = Some (Some a, s1)"
    using URB_Create_made [of s k] assms(1,2) by (simp add: loops_ready_def s1_def a_def c_def)
  have pe: "put_entry BulkArray 0 (Some a) s1 = Some s2"
    using assms(1) by (simp add: put_entry_def loops_ready_def s1_def s2_def)
  have live: "urb_contexts s2 a = Some c" "tick s2 = tick s + 3" by (simp_all add: s2_def s1_def)
  have sub: "URB_Submit k (Some a) s2 = Some (usb_submit_urb k (tick s + 3), s3)"
    using live(2) by (simp add: URB_Submit_live [OF live(1)] s3_def)
  have "urb_contexts s3 a \<noteq> None" by (simp add: s3_def submitted_def)
  then have "URB_Destroy (Some a) s3 = Some t" by (auto simp: URB_Destroy_def t_def)
  then have start: "start_loop k BulkArray (UsbPipeBulkIn s) MESSAGE_DATA_BUFFER_SIZE_BULK (Suc n) 0 0 s
      = Some (usb_submit_urb k (tick s + 3), t)" for n
    using assms(3) by (simp add: cr [simplified] pe sub)
  have "get_entry BulkArray 0 t = Some (Some a)" and "urb_contexts t a = None"
    using assms(1) by (simp_all add: get_entry_def t_def s3_def submitted_def s2_def s1_def loops_ready_def)
  then have stop: "stop_loop k BulkArray False (Suc n) 0 t = None" for n
    by (simp add: put_entry_def NOTIFICATION_Notify_def get_entry_def split: if_splits)
  show ?thesis
    using start [of 7] stop [of 7] by (simp add: MESSAGE_StartLoopBulk_def MESSAGE_StopLoopBulk_def)
qed

theorem StartLoopBulk_failure_dangles_witness:
  "\<exists>t. MESSAGE_StartLoopBulk (quiet_env\<lparr>usb_submit_urb := \<lambda>_. - ENODEV\<rparr>) ready_ehub = Some (- ENODEV, t)
     \<and> MESSAGE_StopLoopBulk (quiet_env\<lparr>usb_submit_urb := \<lambda>_. - ENODEV\<rparr>) t = None"
  using StartLoopBulk_failure_dangles [OF ready_ehub_loops, of "quiet_env\<lparr>usb_submit_urb := \<lambda>_. - ENODEV\<rparr>"]
  by (simp add: create_succeeds_def quiet_env_def)

text \<open>
  C19. The isochronous loop: over any sequence of starts, queued stops, delayed stops that run while
  pending, and completions of its URBs, the six contexts stay allocated, and the flag that marks
  the loop running agrees with the USB core: while it is clear, the core holds none of the six URBs
  (a stop has killed them all); while it is set, the core holds all of them, provided the
  transfers complete without error on a device without error. None of the operations can fault
  from such a state: a start always ends with the loop running and a stop that runs always ends
  with it stopped. The kernel accepts the submissions, and other contexts that run during a kill
  submit no URB of the loop that was not in flight.
\<close>

theorem isoch_loop_invariant:
  assumes "granting k" and "kill_quiet k" and "isoch_inv ok s" and "(isoch_step ok k)\<^sup>*\<^sup>* s t"
  shows "isoch_inv ok t
     \<and> (\<exists>st u. MESSAGE_StartLoopIsoch k t = Some (st, u) \<and> 0 \<le> st \<and> isoch_inv ok u \<and> isoch_in_running u)
     \<and> (\<exists>u. MESSAGE_delayed_StopLoopIsoch k t = Some u \<and> isoch_inv ok u \<and> \<not> isoch_in_running u)"
proof -
  from assms(4) have "isoch_inv ok t"
  proof (induction rule: rtranclp_induct)
    case base
    then show ?case by (rule assms(3))
  next
    case (step u v)
    then show ?case using isoch_step_inv [OF step.hyps(2) assms(1,2)] by blast
  qed
  then show ?thesis
    using StartLoopIsoch_ok [OF assms(1)] delayed_StopLoopIsoch_ok [OF assms(2)] by blast
qed

definition demo_isoch :: ehub where
  "demo_isoch = ready_ehub\<lparr>next_addr := 6, UrbContextMessageIsoch := map Some [0, 1, 2, 3, 4, 5],
     urb_contexts := (\<lambda>a. if a < 6 then Some (new_URB_CONTEXT (Pipe PIPE_ISOCHRONOUS True 1) 8
       URB_CompletionRoutine_GetMessage_ptr None a) else None)\<rparr>"

lemma demo_isoch_inv: "isoch_inv True demo_isoch"
  by (auto simp: isoch_inv_def isoch_context_def demo_isoch_def demo_defs new_URB_CONTEXT_def
      intro!: exI [of _ "[0, 1, 2, 3, 4, 5]"] split: if_splits)

theorem isoch_loop_invariant_witness:
  "\<exists>t u. (isoch_step True quiet_env)\<^sup>*\<^sup>* demo_isoch t \<and> isoch_in_running t \<and> isoch_inv True t
     \<and> MESSAGE_delayed_StopLoopIsoch quiet_env t = Some u \<and> isoch_inv True u \<and> \<not> isoch_in_running u"
proof -
  note inv = isoch_loop_invariant [OF quiet_env_granting quiet_env_kill_quiet demo_isoch_inv]
  obtain st t where t: "MESSAGE_StartLoopIsoch quiet_env demo_isoch = Some (st, t)" "isoch_in_running t"
    using inv [OF rtranclp.rtrancl_refl] by blast
  have "(isoch_step True quiet_env)\<^sup>*\<^sup>* demo_isoch t" using isoch_step.start [OF t(1)] by blast
  then show ?thesis using t(2) inv by blast
qed

end
