(* ===== verification/Xhci_Event_Props.thy ===== *)
theory Xhci_Event_Props
  imports Xhci_Giveback
begin

text \<open>
  Completion of transfers: which TRB an event is about, how much was transferred, and that the
  TD is retired with its TRBs.
\<close>

section \<open>The endpoint of an event\<close>

lemma get_put_ep [simp]: "get_ep slot i c \<noteq> None \<Longrightarrow> get_ep slot i (put_ep slot i ep c) = Some ep"
  by (auto simp: get_ep_def put_ep_def split: option.splits if_splits elim!: bind_eq_SomeE)

lemma put_put_ep [simp]: "put_ep slot i ep (put_ep slot i ep' c) = put_ep slot i ep c"
  by (simp add: put_ep_def option.map_comp comp_def fun_upd_def fun_eq_iff)

lemma put_ep_fields [simp]:
  "urbs (put_ep slot i ep c) = urbs c" "hcd (put_ep slot i ep c) = hcd c" "event_ring (put_ep slot i ep c) = event_ring c"
  "giveback_log (put_ep slot i ep c) = giveback_log c" "bandwidth_isoc_reqs (put_ep slot i ep c) = bandwidth_isoc_reqs c"
  by (simp_all add: put_ep_def)

lemma get_ep_update [simp]:
  "get_ep slot i (c\<lparr>urbs := m\<rparr>) = get_ep slot i c" "get_ep slot i (c\<lparr>hcd := s\<rparr>) = get_ep slot i c"
  "get_ep slot i (c\<lparr>event_ring := r\<rparr>) = get_ep slot i c" "get_ep slot i (c\<lparr>giveback_log := l\<rparr>) = get_ep slot i c"
  "get_ep slot i (c\<lparr>bandwidth_isoc_reqs := n\<rparr>) = get_ep slot i c" "get_ep slot i (set_actual u len c) = get_ep slot i c"
  by (simp_all add: get_ep_def set_actual_def)

lemma put_ep_out [simp]: "devs c slot = Some vd \<Longrightarrow> \<exists>vd'. devs (put_ep slot i ep c) slot = Some vd' \<and> out_ctx vd' = out_ctx vd"
  by (simp add: put_ep_def)

section \<open>Retiring a TD\<close>

text \<open>The TD of a transfer that was at the front of its ring, and everything it left behind.\<close>

definition retired :: "u32 \<Rightarrow> u32 \<Rightarrow> nat \<Rightarrow> nat list \<Rightarrow> xhci_td list \<Rightarrow> hc \<Rightarrow> bool" where
  "retired slot i u rest tds c \<longleftrightarrow> (\<exists>ep r. get_ep slot i c = Some ep \<and> ep_ring ep = Some r \<and> ring_inv {} r
     \<and> ring_slots r = rest \<and> td_list r = tds)"

text \<open>A transfer at the front of the ring of an endpoint without streams.\<close>

definition front_td :: "u32 \<Rightarrow> u32 \<Rightarrow> hc \<Rightarrow> xhci_virt_ep \<Rightarrow> xhci_ring \<Rightarrow> xhci_td \<Rightarrow> xhci_td list \<Rightarrow> nat list \<Rightarrow> nat list \<Rightarrow> bool" where
  "front_td slot i c ep r td tds ps rest \<longleftrightarrow> get_ep slot i c = Some ep \<and> ep_ring ep = Some r \<and> ring_inv {} r \<and> dma_ok r
     \<and> td_list r = td # tds \<and> td_key td \<notin> td_key ` set tds \<and> ps \<noteq> [] \<and> ring_slots r = ps @ rest \<and> td_at r (td_urb td) ps td
     \<and> (last ps div 64 = deq_pos r div 64 \<longrightarrow> deq_pos r \<le> last ps)"

lemma del_td_front:
  assumes "ep_ring ep = Some r" and "td_list r = td # tds" and "td_key td \<notin> td_key ` set tds"
  shows "ep_ring (del_td td ep) = Some (r\<lparr>td_list := tds\<rparr>)"
proof -
  have "filter (\<lambda>td'. td_key td' \<noteq> td_key td) tds = tds" using assms(3) by (intro filter_True ballI) (metis imageI)
  then show ?thesis using assms by (simp add: del_td_def del_tds_def Let_def)
qed
text \<open>Events that tell the amount transferred without an error.\<close>

abbreviation (input) good_code :: "xhci_transfer_event \<Rightarrow> bool" where
  "good_code ev \<equiv> GET_COMP_CODE (ev_transfer_len ev) = COMP_SUCCESS \<or> GET_COMP_CODE (ev_transfer_len ev) = COMP_SHORT_TX"

lemmas comp_defs = COMP_SUCCESS_def COMP_DB_ERR_def COMP_BABBLE_def COMP_TX_ERR_def COMP_TRB_ERR_def COMP_STALL_def COMP_SHORT_TX_def
  COMP_UNDERRUN_def COMP_OVERRUN_def COMP_BW_OVER_def COMP_DEV_ERR_def COMP_MISSED_INT_def COMP_STOP_def COMP_STOP_INVAL_def
  COMP_BUFF_OVER_def COMP_SPLIT_ERR_def

text \<open>The parts of the state that stay the same.\<close>

definition same_hc_rest :: "hc \<Rightarrow> hc \<Rightarrow> bool" where
  "same_hc_rest c c' \<longleftrightarrow> hcd c' = hcd c \<and> event_ring c' = event_ring c \<and> giveback_log c' = giveback_log c"

lemma finish_td_front:
  assumes f: "front_td slot i c ep r td tds ps rest" and vd: "devs c slot = Some vd" "ehub_xhci_get_ep_ctx (out_ctx vd) i = Some ctx"
    and x: "urbs c (td_urb td) = Some x" "tu_actual_length x \<le> tu_transfer_buffer_length x" "tu_td_cnt x + 1 = tu_length x" "tu_type x \<noteq> XFER_ISOC"
    and ok: "good_code ev"
  shows "\<exists>c'. finish_td k P slot i Ep_Ring ev False td st c = Some ((True, st), c') \<and> retired slot i (td_urb td) rest tds c'
     \<and> urbs c' = (urbs c)(td_urb td \<mapsto> x\<lparr>tu_td_cnt := tu_length x\<rparr>) \<and> same_hc_rest c c'
     \<and> map_option skip (get_ep slot i c') = Some (skip ep)"
proof -
  have g: "get_ep slot i c = Some ep" "ep_ring ep = Some r" and inv: "ring_inv {} r" and l: "td_list r = td # tds" "td_key td \<notin> td_key ` set tds"
    and s: "ring_slots r = ps @ rest" "ps \<noteq> []" and t: "(end_seg td, td_last_trb td) = position r (last ps)"
    using f by (auto simp: front_td_def td_at_def)
  obtain r1 where r1: "deq_past (position r (last ps)) r = Some r1" "ring_inv {} r1" "ring_slots r1 = rest" "deq_frame r r1"
    using deq_past_ok [OF inv s] by auto
  let ?ep = "ep\<lparr>ep_ring := Some r1\<rparr>"
  have ep: "ep_ring (del_td td ?ep) = Some (r1\<lparr>td_list := tds\<rparr>)"
    using del_td_front [of ?ep r1 td tds] r1(4) l by (simp add: deq_frame_def)
  let ?ep' = "del_cancelled (\<lambda>td'. td_key td' = td_key td) (del_td td ?ep)"
  let ?c = "put_ep slot i ?ep' (c\<lparr>urbs := (urbs c)(td_urb td \<mapsto> x\<lparr>tu_td_cnt := tu_length x\<rparr>)\<rparr>)"
  have cl: "td_cleanup slot i td st (put_ep slot i ?ep c) = Some ((True, st), put_ep slot i ?ep' ((put_ep slot i ?ep c)\<lparr>urbs := (urbs c)(td_urb td \<mapsto> x\<lparr>tu_td_cnt := tu_length x\<rparr>)\<rparr>))"
    using x leD [OF x(2)] g by (simp add: td_cleanup_def Let_def)
  have "put_ep slot i ?ep' ((put_ep slot i ?ep c)\<lparr>urbs := m\<rparr>) = put_ep slot i ?ep' (c\<lparr>urbs := m\<rparr>)" for m
    by (simp add: put_ep_def option.map_comp comp_def fun_upd_def fun_eq_iff)
  then have "finish_td k P slot i Ep_Ring ev False td st c = Some ((True, st), ?c)"
    using cl vd g ok r1(1) t by (auto simp: finish_td_def get_ring_def put_ring_def xhci_requires_manual_halt_cleanup_def comp_defs)
  moreover have "retired slot i (td_urb td) rest tds ?c"
    using g ep r1(2,3) by (auto simp: retired_def del_cancelled_def)
  moreover have "skip ?ep' = skip ep" by (simp add: del_cancelled_def del_td_def del_tds_def Let_def)
  ultimately show ?thesis using g by (auto simp: same_hc_rest_def)
qed
section \<open>The length of a bulk transfer\<close>

lemma unat_sum_list: "sum_list (map unat xs) < 2 ^ 32 \<Longrightarrow> unat (sum_list xs :: u32) = sum_list (map unat xs)"
  by (induction xs) (auto simp: unat_word_ariths)

text \<open>The bytes transferred when the controller stopped in the TRB at \<open>p\<close> with \<open>left\<close> bytes missing.\<close>

definition transferred :: "xhci_ring \<Rightarrow> nat list \<Rightarrow> nat \<Rightarrow> u32 \<Rightarrow> nat" where
  "transferred r ps p left = sum_list (map (\<lambda>q. unat (data_len r q)) (takeWhile (\<lambda>q. q \<noteq> p) ps)) + (unat (data_len r p) - unat left)"

lemma transferred_split:
  assumes "p \<in> set ps" and "sum_list (map (\<lambda>q. unat (data_len r q)) ps) = n" and "left \<le> data_len r p"
  shows "transferred r ps p left + unat left + sum_list (map (\<lambda>q. unat (data_len r q)) (tl (dropWhile (\<lambda>q. q \<noteq> p) ps))) = n"
proof -
  have "ps = takeWhile (\<lambda>q. q \<noteq> p) ps @ p # tl (dropWhile (\<lambda>q. q \<noteq> p) ps)"
    using assms(1) by (induction ps) auto
  then have "n = sum_list (map (\<lambda>q. unat (data_len r q)) (takeWhile (\<lambda>q. q \<noteq> p) ps @ p # tl (dropWhile (\<lambda>q. q \<noteq> p) ps)))"
    using assms(2) by simp
  then show ?thesis using assms(3) by (simp add: transferred_def word_le_nat_alt)
qed

lemma transferred_last:
  assumes "distinct ps" and "ps \<noteq> []" and "sum_list (map (\<lambda>q. unat (data_len r q)) ps) = n" and "left \<le> data_len r (last ps)"
  shows "transferred r ps (last ps) left = n - unat left"
proof -
  have "dropWhile (\<lambda>q. q \<noteq> last ps) ps = [last ps]" using assms(1,2)
  proof (induction ps)
    case (Cons a ps)
    then show ?case by (cases "ps = []") auto
  qed simp
  then show ?thesis using transferred_split [OF last_in_set [OF assms(2)] assms(3,4)] by simp
qed

lemma data_len_slot:
  assumes "ring_inv F r" and "p \<in> set (ring_slots r)" and "\<not> TRB_TYPE_NOOP (control (trb_of (segs r) (ring_order r) p))"
  shows "data_len r p = TRB_LEN (field2 (trb_of (segs r) (ring_order r) p))"
proof -
  have "links_ok (segs r) (ring_order r)" using ring_invD(1) [OF assms(1)] by (simp add: view_def)
  then have "\<not> TRB_TYPE_LINK (control (trb_of (segs r) (ring_order r) p))"
    using slot_bound [OF assms(1,2)] by (simp add: links_ok_def)
  then show ?thesis using assms(3) by (simp add: data_len_def Let_def)
qed

text \<open>The amount the handler computes for an event before the last TRB.\<close>

lemma sum_before_ok:
  assumes inv: "ring_inv {} r" and s: "ring_slots r = ps @ rest" and p: "p \<in> set ps"
    and n: "sum_list (map (\<lambda>q. unat (data_len r q)) ps) < 2 ^ 32" and left: "left \<le> data_len r p"
    and noop: "\<not> TRB_TYPE_NOOP (control (trb_of (segs r) (ring_order r) p))"
  shows "\<exists>before. sum_trbs r (position r p) (at_pos r) 0 = Some before
     \<and> unat (before + (TRB_LEN (field2 (trb_of (segs r) (ring_order r) p)) - left)) = transferred r ps p left"
proof -
  let ?before = "sum_list (map (data_len r) (takeWhile (\<lambda>q. q \<noteq> p) ps))"
  have pr: "p \<in> set (ring_slots r)" using s p by simp
  have tw: "takeWhile (\<lambda>q. q \<noteq> p) (ring_slots r) = takeWhile (\<lambda>q. q \<noteq> p) ps" using p unfolding s by (auto simp: takeWhile_append)
  note sp = transferred_split [OF p refl left]
  have t: "transferred r ps p left < 2 ^ 32" using sp n by linarith
  then have b: "unat ?before = sum_list (map (\<lambda>q. unat (data_len r q)) (takeWhile (\<lambda>q. q \<noteq> p) ps))"
    using unat_sum_list [of "map (data_len r) (takeWhile (\<lambda>q. q \<noteq> p) ps)"] by (simp add: transferred_def comp_def)
  have d: "unat (data_len r p - left) = unat (data_len r p) - unat left" using left by (simp add: unat_sub)
  have "unat (?before + (data_len r p - left)) = transferred r ps p left"
    using t unfolding transferred_def b [symmetric] d [symmetric] by (simp add: unat_word_ariths)
  then show ?thesis using sum_trbs_ok [OF inv pr] tw data_len_slot [OF inv pr noop] by simp
qed
text \<open>A bulk or interrupt TD, the event about the TRB at \<open>p\<close> and the status the URB gets.\<close>

definition bulk_event :: "xhci_transfer_event \<Rightarrow> xhci_ring \<Rightarrow> nat list \<Rightarrow> nat \<Rightarrow> tx_urb \<Rightarrow> bool" where
  "bulk_event ev r ps p x \<longleftrightarrow> good_code ev \<and> p \<in> set ps \<and> EVENT_TRB_LEN (ev_transfer_len ev) \<le> data_len r p
     \<and> \<not> TRB_TYPE_NOOP (control (trb_of (segs r) (ring_order r) p))
     \<and> (tu_type x = XFER_BULK \<or> tu_type x = XFER_INT) \<and> tu_td_cnt x + 1 = tu_length x
     \<and> sum_list (map (\<lambda>q. unat (data_len r q)) ps) = unat (tu_transfer_buffer_length x)"

definition bulk_result :: "xhci_transfer_event \<Rightarrow> nat list \<Rightarrow> nat \<Rightarrow> tx_urb \<Rightarrow> int" where
  "bulk_result ev ps p x = (if p = last ps \<and> EVENT_TRB_LEN (ev_transfer_len ev) = 0 then 0 else short_status x)"

lemma front_td_set_actual [simp]: "front_td slot i (set_actual u len c) ep r td tds ps rest = front_td slot i c ep r td tds ps rest"
  by (simp add: front_td_def)

lemma set_actual_fields [simp]:
  "devs (set_actual u len c) = devs c" "hcd (set_actual u len c) = hcd c" "event_ring (set_actual u len c) = event_ring c"
  "giveback_log (set_actual u len c) = giveback_log c" "urbs c u = Some x \<Longrightarrow> urbs (set_actual u len c) = (urbs c)(u \<mapsto> x\<lparr>tu_actual_length := len\<rparr>)"
  by (simp_all add: set_actual_def)

abbreviation (input) amount :: "xhci_transfer_event \<Rightarrow> xhci_ring \<Rightarrow> nat list \<Rightarrow> nat \<Rightarrow> u32" where
  "amount ev r ps p \<equiv> of_nat (transferred r ps p (EVENT_TRB_LEN (ev_transfer_len ev)))"

lemma bulk_amount:
  assumes "bulk_event ev r ps p x"
  shows "unat (amount ev r ps p) = transferred r ps p (EVENT_TRB_LEN (ev_transfer_len ev))"
    and "unat (amount ev r ps p) + unat (EVENT_TRB_LEN (ev_transfer_len ev)) \<le> unat (tu_transfer_buffer_length x)"
    and "amount ev r ps p \<le> tu_transfer_buffer_length x"
    and "sum_list (map (\<lambda>q. unat (data_len r q)) ps) < 2 ^ 32"
proof -
  let ?left = "EVENT_TRB_LEN (ev_transfer_len ev)" and ?T = "tu_transfer_buffer_length x"
  have n: "sum_list (map (\<lambda>q. unat (data_len r q)) ps) = unat ?T" and p: "p \<in> set ps" and left: "?left \<le> data_len r p"
    using assms by (auto simp: bulk_event_def)
  show n32: "sum_list (map (\<lambda>q. unat (data_len r q)) ps) < 2 ^ 32" using n unsigned_less [of ?T] by simp
  have tb: "transferred r ps p ?left + unat ?left \<le> unat ?T" using transferred_split [OF p n left] by linarith
  then have "transferred r ps p ?left < 2 ^ 32" using n32 n by linarith
  then show ua: "unat (amount ev r ps p) = transferred r ps p ?left" by (simp add: unat_of_nat)
  show "unat (amount ev r ps p) + unat ?left \<le> unat ?T" using tb ua by simp
  then show "amount ev r ps p \<le> ?T" by (simp add: word_le_nat_alt)
qed

text \<open>The handler finishes the TD with that amount.\<close>

lemma process_bulk_finish:
  assumes f: "front_td slot i c ep r td tds ps rest" and x: "urbs c (td_urb td) = Some x" and e: "bulk_event ev r ps p x"
    and st: "st = - EINPROGRESS"
  shows "process_bulk_intr_td k P slot i Ep_Ring ev (position r p) td st c
     = finish_td k P slot i Ep_Ring ev False td (bulk_result ev ps p x) (set_actual (td_urb td) (amount ev r ps p) c)"
proof -
  let ?left = "EVENT_TRB_LEN (ev_transfer_len ev)" and ?T = "tu_transfer_buffer_length x"
  have inv: "ring_inv {} r" and s: "ring_slots r = ps @ rest" "ps \<noteq> []" and g: "get_ep slot i c = Some ep" "ep_ring ep = Some r"
    and t: "(end_seg td, td_last_trb td) = position r (last ps)" using f by (auto simp: front_td_def td_at_def)
  have ok: "good_code ev" and p: "p \<in> set ps" and left: "?left \<le> data_len r p"
    and noop: "\<not> TRB_TYPE_NOOP (control (trb_of (segs r) (ring_order r) p))"
    and n: "sum_list (map (\<lambda>q. unat (data_len r q)) ps) = unat ?T" using e by (auto simp: bulk_event_def)
  note a = bulk_amount [OF e]
  show ?thesis
  proof (cases "p = last ps")
    case True
    have "distinct ps" using ring_slots_distinct [OF inv] s by simp
    then have "transferred r ps p ?left = unat ?T - unat ?left" using transferred_last [OF _ s(2) n] left True by simp
    moreover have "?left \<le> ?T" using a(2) by (simp add: word_le_nat_alt)
    ultimately have "amount ev r ps p = ?T - ?left" using a(1) by (metis unat_sub word_eq_iff_unsigned)
    moreover have "\<not> ?T < ?T - ?left" using \<open>?left \<le> ?T\<close> by (simp add: word_less_nat_alt unat_sub)
    ultimately show ?thesis
      using True t g x ok st by (auto simp: process_bulk_intr_td_def get_ring_def Let_def bulk_status_def bulk_result_def
          short_status_def EINPROGRESS_def EREMOTEIO_def)
  next
    case False
    have pr: "p \<in> set (ring_slots r)" using s p by simp
    have "position r p \<noteq> position r (last ps)"
      using False position_inj [OF inv] slot_bound [OF inv pr] slot_bound [OF inv, of "last ps"] s by auto
    moreover obtain before where b: "sum_trbs r (position r p) (at_pos r) 0 = Some before"
      "unat (before + (TRB_LEN (field2 (trb_of (segs r) (ring_order r) p)) - ?left)) = transferred r ps p ?left"
      using sum_before_ok [OF inv s(1) p a(4) left noop] by auto
    moreover have "before + (TRB_LEN (field2 (trb_of (segs r) (ring_order r) p)) - ?left) = amount ev r ps p"
      using b(2) a(1) by (metis word_eq_iff_unsigned)
    ultimately show ?thesis
      using read_trb_position [OF inv, of p] slot_bound [OF inv pr] False t g x ok
      by (auto simp: process_bulk_intr_td_def get_ring_def Let_def bulk_status_def bulk_result_def comp_defs)
  qed
qed

lemma process_bulk_ok:
  assumes f: "front_td slot i c ep r td tds ps rest" and vd: "devs c slot = Some vd" "ehub_xhci_get_ep_ctx (out_ctx vd) i = Some ctx"
    and x: "urbs c (td_urb td) = Some x" and e: "bulk_event ev r ps p x" and st: "st = - EINPROGRESS"
  shows "\<exists>c'. process_bulk_intr_td k P slot i Ep_Ring ev (position r p) td st c = Some ((True, bulk_result ev ps p x), c')
     \<and> retired slot i (td_urb td) rest tds c' \<and> same_hc_rest c c' \<and> map_option skip (get_ep slot i c') = Some (skip ep)
     \<and> urbs c' = (urbs c)(td_urb td \<mapsto> x\<lparr>tu_actual_length := amount ev r ps p, tu_td_cnt := tu_length x\<rparr>)"
proof -
  let ?c = "set_actual (td_urb td) (amount ev r ps p) c" and ?x = "x\<lparr>tu_actual_length := amount ev r ps p\<rparr>"
  have "good_code ev" "tu_type x \<noteq> XFER_ISOC" "tu_td_cnt x + 1 = tu_length x" using e by (auto simp: bulk_event_def)
  then have "\<exists>c'. finish_td k P slot i Ep_Ring ev False td (bulk_result ev ps p x) ?c = Some ((True, bulk_result ev ps p x), c')
     \<and> retired slot i (td_urb td) rest tds c' \<and> urbs c' = (urbs ?c)(td_urb td \<mapsto> ?x\<lparr>tu_td_cnt := tu_length x\<rparr>) \<and> same_hc_rest ?c c'
     \<and> map_option skip (get_ep slot i c') = Some (skip ep)"
    using finish_td_front [of slot i ?c ep r td tds ps rest vd ctx ?x ev k P "bulk_result ev ps p x"] f vd x bulk_amount(3) [OF e] by simp
  then show ?thesis using process_bulk_finish [OF f x e st] x by (auto simp: same_hc_rest_def)
qed
section \<open>From the event to the TD\<close>

lemma short_frame [simp]:
  "ring_order (r\<lparr>last_td_was_short := b\<rparr>) = ring_order r" "enq_pos (r\<lparr>last_td_was_short := b\<rparr>) = enq_pos r"
  "deq_pos (r\<lparr>last_td_was_short := b\<rparr>) = deq_pos r" "ring_slots (r\<lparr>last_td_was_short := b\<rparr>) = ring_slots r"
  "position (r\<lparr>last_td_was_short := b\<rparr>) = position r" "data_len (r\<lparr>last_td_was_short := b\<rparr>) = data_len r"
  by (simp_all add: ring_order_def enq_pos_def deq_pos_def ring_slots_def position_def data_len_def fun_eq_iff)

lemma short_frame_inv [simp]:
  "ring_inv F (r\<lparr>last_td_was_short := b\<rparr>) = ring_inv F r" "dma_ok (r\<lparr>last_td_was_short := b\<rparr>) = dma_ok r"
  "td_at (r\<lparr>last_td_was_short := b\<rparr>) = td_at r" "transferred (r\<lparr>last_td_was_short := b\<rparr>) = transferred r"
  "bulk_event ev (r\<lparr>last_td_was_short := b\<rparr>) = bulk_event ev r"
  by (simp_all add: ring_inv_def view_def dma_ok_def seg_dma_def td_at_def transferred_def bulk_event_def fun_eq_iff)

lemma dist_mod: "d < N \<Longrightarrow> j < N \<Longrightarrow> dist N d ((d + j) mod N) = j"
  by (auto simp: dist_def mod_if)

lemma td_before_last:
  assumes inv: "ring_inv {} r" and s: "ring_slots r = ps @ rest" and p: "p \<in> set ps"
  shows "dist (64 * length (ring_order r)) (deq_pos r) p \<le> dist (64 * length (ring_order r)) (deq_pos r) (last ps)"
proof (cases "p = last ps")
  case False
  let ?n = "length (ring_order r)" and ?N = "64 * length (ring_order r)" and ?d = "deq_pos r"
  have b: "enq_pos r < ?N" "?d < ?N" using ring_invD(1) [OF inv] by (auto simp: view_def)
  have ne: "ps \<noteq> []" using p by auto
  have e: "ps @ rest = butlast ps @ last ps # rest" using ne by simp
  have "last ps \<notin> set (butlast ps)" using ring_slots_distinct [OF inv] unfolding s e by simp
  then have "takeWhile (\<lambda>x. x \<noteq> last ps) (ring_slots r) = butlast ps" unfolding s e by (rule takeWhile_split)
  moreover have l: "last ps \<in> set (slots ?n (enq_pos r) ?d)" "p \<in> set (slots ?n (enq_pos r) ?d)"
    using s p ne by (auto simp: ring_slots_def [symmetric])
  ultimately have "butlast ps = filter (\<lambda>x. x mod 64 \<noteq> 63) (walk ?N ?d (dist ?N ?d (last ps)))"
    using slots_before(1) [OF b l(1)] by (simp add: ring_slots_def)
  moreover have "p \<in> set (butlast ps)" using p False in_set_butlast_appendI by (cases ps rule: rev_cases) auto
  ultimately obtain j where j: "j < dist ?N ?d (last ps)" "p = (?d + j) mod ?N" by (auto simp: walk_def)
  have "j < ?N" using j(1) dist_less [of ?N ?d "last ps"] b by linarith
  then have "dist ?N ?d p = j" using j(2) dist_mod [OF b(2)] by simp
  then show ?thesis using j(1) by simp
qed simp

text \<open>The search finds the segment of the TRB, and the index is computed from the address.\<close>

lemma event_trb_ok:
  assumes f: "front_td slot i c ep r td tds ps rest" and p: "p \<in> set ps" and a: "unat (ev_buffer ev) = trb_addr r p"
  obtains sg where "ehub_trb_in_td (segs r) (at_pos r) (end_seg td, td_last_trb td) (ev_buffer ev) = Some (Some (fst (position r p)))"
    and "segs r (fst (position r p)) = Some sg" and "unat ((ev_buffer ev - dma sg) div 16) = snd (position r p)"
proof -
  have inv: "ring_inv {} r" and dma: "dma_ok r" and s: "ring_slots r = ps @ rest" "ps \<noteq> []"
    and t: "(end_seg td, td_last_trb td) = position r (last ps)" and w: "last ps div 64 = deq_pos r div 64 \<Longrightarrow> deq_pos r \<le> last ps"
    using f by (auto simp: front_td_def td_at_def)
  have b: "p < 64 * length (ring_order r)" "last ps < 64 * length (ring_order r)" using slot_bound [OF inv] s p by auto
  have 1: "ehub_trb_in_td (segs r) (at_pos r) (position r (last ps)) (ev_buffer ev) = Some (Some (fst (position r p)))"
    using trb_in_td_ok [OF inv dma b a w] td_before_last [OF inv s(1) p] by (simp add: position_def)
  obtain sg where sg: "segs r (seg_at (ring_order r) p) = Some sg"
    using chain_seg [OF _ b(1), of "segs r"] ring_invD(1) [OF inv] by (auto simp: view_def)
  have d: "unat (dma sg) = seg_dma r (p div 64)" using sg by (simp add: seg_dma_def seg_at_def)
  have "unat (ev_buffer ev - dma sg) = 16 * (p mod 64)"
    using a d by (simp add: trb_addr_def unat_sub word_le_nat_alt)
  then have "unat ((ev_buffer ev - dma sg) div 16) = p mod 64" by (simp add: unat_div)
  then show thesis using that 1 sg t by (simp add: position_def)
qed
section \<open>A completed bulk transfer\<close>

definition event_for :: "u32 \<Rightarrow> u32 \<Rightarrow> xhci_transfer_event \<Rightarrow> bool" where
  "event_for slot i ev \<longleftrightarrow> TRB_TO_SLOT_ID (ev_flags ev) = slot \<and> TRB_TO_EP_ID (ev_flags ev) - 1 = i"

lemma tx_round_bulk:
  assumes f: "front_td slot i c ep r td tds ps rest" and vd: "devs c slot = Some vd" "ehub_xhci_get_ep_ctx (out_ctx vd) i = Some ctx"
    and x: "urbs c (td_urb td) = Some x" and e: "bulk_event ev r ps p x" and a: "unat (ev_buffer ev) = trb_addr r p"
    and sk: "\<not> skip ep"
  shows "\<exists>c'. tx_round k P slot i Ep_Ring ev code ret (- EINPROGRESS) n c = Some (Inr (True, Some td, bulk_result ev ps p x, n), c')
     \<and> retired slot i (td_urb td) rest tds c' \<and> same_hc_rest c c' \<and> map_option skip (get_ep slot i c') = Some False
     \<and> urbs c' = (urbs c)(td_urb td \<mapsto> x\<lparr>tu_actual_length := amount ev r ps p, tu_td_cnt := tu_length x\<rparr>)"
proof -
  have inv: "ring_inv {} r" and l: "td_list r = td # tds" and g: "get_ep slot i c = Some ep" "ep_ring ep = Some r"
    using f by (auto simp: front_td_def)
  have p: "p \<in> set ps" and ty: "tu_type x \<noteq> XFER_ISOC" "tu_type x \<noteq> XFER_CONTROL"
    and noop: "\<not> TRB_TYPE_NOOP (control (trb_of (segs r) (ring_order r) p))" using e by (auto simp: bulk_event_def)
  obtain sg where sg: "ehub_trb_in_td (segs r) (at_pos r) (end_seg td, td_last_trb td) (ev_buffer ev) = Some (Some (fst (position r p)))"
    "segs r (fst (position r p)) = Some sg" "unat ((ev_buffer ev - dma sg) div 16) = snd (position r p)"
    using event_trb_ok [OF f p a] .
  have pb: "p < 64 * length (ring_order r)" using f p slot_bound [OF inv, of p] by (simp add: front_td_def)
  let ?r = "r\<lparr>last_td_was_short := (code = COMP_SHORT_TX)\<rparr>"
  let ?ep = "ep\<lparr>ep_ring := Some ?r, skip := False\<rparr>"
  let ?c = "put_ep slot i ?ep c"
  have fc: "front_td slot i ?c ?ep ?r td tds ps rest" using f by (auto simp: front_td_def)
  obtain vd' where vd': "devs ?c slot = Some vd'" "out_ctx vd' = out_ctx vd" using put_ep_out [OF vd(1)] by metis
  obtain c' where c': "process_bulk_intr_td k P slot i Ep_Ring ev (position r p) td (- EINPROGRESS) ?c = Some ((True, bulk_result ev ps p x), c')"
    "retired slot i (td_urb td) rest tds c'" "same_hc_rest ?c c'" "map_option skip (get_ep slot i c') = Some False"
    "urbs c' = (urbs c)(td_urb td \<mapsto> x\<lparr>tu_actual_length := amount ev r ps p, tu_td_cnt := tu_length x\<rparr>)"
    using process_bulk_ok [OF fc vd'(1), of ctx x ev p "- EINPROGRESS" k P] vd'(2) vd(2) x e by auto
  have "tx_round k P slot i Ep_Ring ev code ret (- EINPROGRESS) n c = Some (Inr (True, Some td, bulk_result ev ps p x, n), c')"
    using g l sk x sg read_trb_position [OF inv pb] noop ty c'(1)
    by (simp add: tx_round_def get_ring_def put_ring_def Let_def)
  then show ?thesis using c' by (auto simp: same_hc_rest_def)
qed
lemma tx_cleanup_done:
  assumes g: "get_ep slot i c = Some ep" and sk: "\<not> skip ep" and er: "inc_deq (event_ring c) = Some er"
    and x: "urbs c (td_urb td) = Some x" and ty: "tu_type x \<noteq> XFER_ISOC"
    and fr: "ehub_xhci_cache_block_free_by_urb (tu_priv x) (hcd c) = Some (pv, s)"
  shows "tx_cleanup slot i code True (Some td) st c
     = Some (st, c\<lparr>event_ring := er, hcd := s, urbs := (urbs c)(td_urb td := None), giveback_log := giveback_log c @ [(td_urb td, st, tu_actual_length x)]\<rparr>)"
  using assms by (simp add: tx_cleanup_def ehub_xhci_urb_free_priv_def usb_hcd_giveback_urb_def)

lemma retired_update [simp]:
  "retired slot i u rest tds (c\<lparr>event_ring := er, hcd := s, urbs := m, giveback_log := l\<rparr>) = retired slot i u rest tds c"
  by (simp add: retired_def)

lemma good_code_facts:
  assumes "good_code ev"
  shows "tx_event_known (tx_event_code P (ev_transfer_len ev))" and "tx_event_code P (ev_transfer_len ev) \<noteq> COMP_STALL"
    and "tx_event_status (tx_event_code P (ev_transfer_len ev)) = - EINPROGRESS"
  using assms by (auto simp: tx_event_known_def tx_event_code_def tx_event_status_def Let_def comp_defs ehub_xhci_is_vendor_info_code_def word_le_nat_alt)

text \<open>C6. A successful or short transfer event for a TRB of the bulk or interrupt transfer at the front of
  an endpoint's ring: the event is found to be for this transfer, the URB is given back once
  with the number of bytes of the TRBs before the event's TRB and what the controller moved of
  that one, with success unless bytes are missing and the driver does not accept that, and the
  ring is retired up to the end of the transfer, keeping its invariant.\<close>

theorem bulk_event_correct:
  assumes "front_td slot i c ep r td tds ps rest" and "\<not> skip ep" and "ep_state (hcd c) slot i AND EP_HAS_STREAMS = 0"
    and "devs c slot = Some vd" and "ehub_xhci_get_ep_ctx (out_ctx vd) i = Some ctx" and "ep_info ctx AND EP_STATE_MASK \<noteq> EP_STATE_DISABLED"
    and "urbs c (td_urb td) = Some x" and "bulk_event ev r ps p x" and "event_for slot i ev" and "unat (ev_buffer ev) = trb_addr r p"
    and "inc_deq (event_ring c) = Some er" and "ehub_xhci_cache_block_free_by_urb (tu_priv x) (hcd c) = Some (pv, s)"
  shows "\<exists>c' len. ehub_handle_tx_event k P ev c = Some (0, c')
     \<and> unat len = transferred r ps p (EVENT_TRB_LEN (ev_transfer_len ev))
     \<and> giveback_log c' = giveback_log c @ [(td_urb td, bulk_result ev ps p x, len)] \<and> urbs c' = (urbs c)(td_urb td := None)
     \<and> retired slot i (td_urb td) rest tds c' \<and> event_ring c' = er"
proof -
  let ?code = "tx_event_code P (ev_transfer_len ev)" and ?st = "bulk_result ev ps p x" and ?a = "amount ev r ps p"
  have g: "get_ep slot i c = Some ep" "ep_ring ep = Some r" using assms(1) by (auto simp: front_td_def)
  have gc: "good_code ev" and ty: "tu_type x \<noteq> XFER_ISOC" using assms(8) by (auto simp: bulk_event_def)
  obtain c1 where c1: "tx_round k P slot i Ep_Ring ev ?code False (- EINPROGRESS) 0 c = Some (Inr (True, Some td, ?st, 0), c1)"
    "retired slot i (td_urb td) rest tds c1" "same_hc_rest c c1" "map_option skip (get_ep slot i c1) = Some False"
    "urbs c1 = (urbs c)(td_urb td \<mapsto> x\<lparr>tu_actual_length := ?a, tu_td_cnt := tu_length x\<rparr>)"
    using tx_round_bulk [OF assms(1,4,5,7,8,10,2)] by metis
  obtain ep1 where ep1: "get_ep slot i c1 = Some ep1" "\<not> skip ep1" using c1(4) by auto
  let ?c2 = "c1\<lparr>event_ring := er, hcd := s, urbs := (urbs c1)(td_urb td := None), giveback_log := giveback_log c1 @ [(td_urb td, ?st, ?a)]\<rparr>"
  have cl: "tx_cleanup slot i ?code True (Some td) ?st c1 = Some (?st, ?c2)"
    using tx_cleanup_done [OF ep1, of er td "x\<lparr>tu_actual_length := ?a, tu_td_cnt := tu_length x\<rparr>" pv s] assms(11,12) c1(3,5) ty
    by (simp add: same_hc_rest_def)
  have "tx_loop k P slot i Ep_Ring ev ?code False (- EINPROGRESS) 0 c = Some (0, ?c2)"
    using c1(1) cl ep1 by (subst tx_loop.simps) simp
  then have "ehub_handle_tx_event k P ev c = Some (0, ?c2)"
    using assms(2-6,9) g good_code_facts [OF gc, of P]
    by (simp add: ehub_handle_tx_event_def event_for_def ehub_xhci_dma_to_transfer_ring_def ring_of_ref_def get_ring_def Let_def)
  moreover have "retired slot i (td_urb td) rest tds ?c2" using c1(2) by simp
  ultimately show ?thesis using bulk_amount(1) [OF assms(8)] c1(3,5) by (intro exI [of _ ?c2] exI [of _ ?a]) (simp add: same_hc_rest_def)
qed
definition short_event :: xhci_transfer_event where
  "short_event = \<lparr>ev_buffer = 0x1010, ev_transfer_len = 0x0d000038, ev_flags = 0x01018001\<rparr>"

lemma busy_front: "front_td 1 0 busy_hc busy_ep busy_ring (hd busy_tds) (tl busy_tds) [0, 1] [2]"
  using busy_inv busy_dma by (auto simp: front_td_def busy_ep_def td_at_def busy_tds_def position_def seg_at_def td_key_def)

lemma busy_data_len: "data_len busy_ring 0 = 512" "data_len busy_ring 1 = 256"
  using busy_trb [of 0] busy_trb [of 1]
  by (simp_all add: data_len_def Let_def busy_trbs_def TRB_TYPE_NOOP_def TRB_TYPE_LINK_def TRB_TYPE_BITMASK_def TRB_TYPE_def TRB_TR_NOOP_def
      TRB_LINK_def TRB_LEN_def)

lemma busy_bulk_event: "bulk_event short_event busy_ring [0, 1] 1 (busy_urb 768)"
  using busy_trb [of 1] busy_data_len
  by (simp add: bulk_event_def short_event_def busy_urb_def EVENT_TRB_LEN_def GET_COMP_CODE_def comp_defs TRB_TYPE_NOOP_def busy_trbs_def
      TRB_TYPE_BITMASK_def TRB_TYPE_def TRB_TR_NOOP_def word_le_nat_alt)

theorem bulk_event_correct_witness:
  "\<exists>c'. ehub_handle_tx_event quiet_env demo_params short_event busy_hc = Some (0, c')
     \<and> giveback_log c' = [(7, 0, 712)] \<and> urbs c' = [8 \<mapsto> busy_urb 64] \<and> retired 1 0 7 [2] (tl busy_tds) c'"
proof -
  have 1: "\<not> skip busy_ep" "ep_state (hcd busy_hc) 1 0 AND EP_HAS_STREAMS = 0"
    by (simp_all add: busy_ep_def demo_ep_def busy_hc_def demo_blocks_def demo_defs)
  obtain vd ctx where 2: "devs busy_hc 1 = Some vd" "ehub_xhci_get_ep_ctx (out_ctx vd) 0 = Some ctx" "ep_info ctx AND EP_STATE_MASK \<noteq> EP_STATE_DISABLED"
    by (simp add: busy_hc_def busy_ctx_def ehub_xhci_get_ep_ctx_def EP_STATE_MASK_def EP_STATE_DISABLED_def)
  have 3: "urbs busy_hc (td_urb (hd busy_tds)) = Some (busy_urb 768)" by (simp add: busy_hc_def busy_tds_def)
  have 4: "event_for 1 0 short_event" "unat (ev_buffer short_event) = trb_addr busy_ring 1"
    by (simp_all add: event_for_def short_event_def TRB_TO_SLOT_ID_def TRB_TO_EP_ID_def)
  obtain er where er: "inc_deq (event_ring busy_hc) = Some er"
    by (simp add: busy_hc_def inc_deq_def inc_deq_loop.simps last_trb_def TRBS_PER_SEGMENT_def)
  obtain pv s where fr: "ehub_xhci_cache_block_free_by_urb (tu_priv (busy_urb 768)) (hcd busy_hc) = Some (pv, s)"
    by (auto simp: busy_urb_def ehub_xhci_cache_block_free_by_urb_def new_priv_def busy_hc_def demo_blocks_def demo_defs lock_cache_list_def)
  have "transferred busy_ring [0, 1] 1 (EVENT_TRB_LEN (ev_transfer_len short_event)) = 712"
    using busy_data_len by (simp add: transferred_def short_event_def EVENT_TRB_LEN_def)
  then obtain c' len where c': "ehub_handle_tx_event quiet_env demo_params short_event busy_hc = Some (0, c')" "unat len = 712"
    "giveback_log c' = giveback_log busy_hc @ [(td_urb (hd busy_tds), bulk_result short_event [0, 1] 1 (busy_urb 768), len)]"
    "urbs c' = (urbs busy_hc)(td_urb (hd busy_tds) := None)" "retired 1 0 (td_urb (hd busy_tds)) [2] (tl busy_tds) c'"
    using bulk_event_correct [OF busy_front 1 2 3 busy_bulk_event 4 er fr, of quiet_env demo_params] by auto
  have "len = of_nat (unat len)" by simp
  then have "len = 712" unfolding c'(2) by simp
  then show ?thesis
    using c' by (auto simp: busy_hc_def busy_tds_def bulk_result_def short_status_def busy_urb_def fun_eq_iff)
qed

section \<open>The TRB of an event\<close>

text \<open>C10. The TRB an event is about: on a ring whose segments do not overlap on the bus and whose TD at
  the front does not come back to its first segment, the address of a TRB in use is found to
  belong to the TD exactly when the TRB is one of the TD, and then in the right segment.\<close>

theorem trb_in_td_correct:
  assumes "ring_inv {} r" and "dma_ok r" and "ring_slots r = ps @ rest" and "ps \<noteq> []" and "p \<in> set (ring_slots r)"
    and "unat a = trb_addr r p" and "last ps div 64 = deq_pos r div 64 \<Longrightarrow> deq_pos r \<le> last ps"
  shows "ehub_trb_in_td (segs r) (at_pos r) (position r (last ps)) a = Some (if p \<in> set ps then Some (fst (position r p)) else None)"
proof -
  let ?N = "64 * length (ring_order r)" and ?d = "deq_pos r"
  have b: "p < ?N" "last ps < ?N" using slot_bound [OF assms(1)] assms(3-5) by auto
  have d: "?d < ?N" using ring_invD(1) [OF assms(1)] by (simp add: view_def)
  have "\<not> dist ?N ?d p \<le> dist ?N ?d (last ps)" if "p \<notin> set ps"
  proof
    assume le: "dist ?N ?d p \<le> dist ?N ?d (last ps)"
    have "p \<in> set rest" using assms(3,5) that by simp
    then obtain as bs where r: "rest = as @ p # bs" using split_list by metis
    have "dist ?N ?d (last ps) \<le> dist ?N ?d (last (ps @ as @ [p]))"
      by (rule td_before_last [OF assms(1), of _ bs]) (use assms(3,4) r in simp_all)
    then have "dist ?N ?d (last ps) = dist ?N ?d p" using le by simp
    then have "last ps = p" using walk_reaches [OF d b(1)] walk_reaches [OF d b(2)] by simp
    then show False using that assms(4) by auto
  qed
  then show ?thesis
    using trb_in_td_ok [OF assms(1,2) b assms(6,7)] td_before_last [OF assms(1,3)] by (auto simp: position_def)
qed

theorem trb_in_td_correct_witness:
  "ehub_trb_in_td (segs busy_ring) (at_pos busy_ring) (position busy_ring 1) 0x1010 = Some (Some 0)
     \<and> ehub_trb_in_td (segs busy_ring) (at_pos busy_ring) (position busy_ring 1) 0x1020 = Some None"
proof -
  have s: "ring_slots busy_ring = [0, 1] @ [2]" "[0, 1 :: nat] \<noteq> []" "deq_pos busy_ring \<le> last [0, 1]" by simp_all
  have p: "1 \<in> set (ring_slots busy_ring)" "2 \<in> set (ring_slots busy_ring)"
    "unat (0x1010 :: u64) = trb_addr busy_ring 1" "unat (0x1020 :: u64) = trb_addr busy_ring 2" by simp_all
  show ?thesis
    using trb_in_td_correct [OF busy_inv busy_dma s(1,2) p(1,3) s(3)] trb_in_td_correct [OF busy_inv busy_dma s(1,2) p(2,4) s(3)]
    by (simp add: position_def seg_at_def)
qed

end
