(* ===== verification/Xhci_Bandwidth_Props.thy ===== *)
theory Xhci_Bandwidth_Props
  imports Xhci_Bandwidth "HOL-Library.Multiset"
begin

text \<open>
  Bandwidth tables: the counters of a table are those of the endpoints linked into it, in every
  state adding and removing endpoints lead to, and a refused reservation leaves everything as
  it was.
\<close>

section \<open>Tables\<close>

text \<open>The speed of the device of every endpoint is a parameter.\<close>

definition interval_ok :: "(ep_id \<Rightarrow> usb_speed) \<Rightarrow> (ep_id \<Rightarrow> xhci_bw_info) \<Rightarrow> nat \<Rightarrow> xhci_interval_bw \<Rightarrow> bool" where
  "interval_ok sp info n iv \<longleftrightarrow> num_packets iv = sum_list (map (\<lambda>e. bi_num_packets (info e)) (endpoints iv))
     \<and> (\<forall>ty. overhead iv ty = of_nat (length (filter (\<lambda>e. overhead_type (sp e) = Some ty) (endpoints iv))))
     \<and> sorted_wrt (\<lambda>x y. max_packet_size (info y) \<le> max_packet_size (info x)) (endpoints iv) \<and> distinct (endpoints iv)
     \<and> (\<forall>e \<in> set (endpoints iv). normalized_interval (sp e) (info e) = Some n \<and> overhead_type (sp e) \<noteq> None
          \<and> \<not> xhci_is_async_ep (bi_type (info e)))"

definition table_inv :: "(ep_id \<Rightarrow> usb_speed) \<Rightarrow> (ep_id \<Rightarrow> xhci_bw_info) \<Rightarrow> xhci_interval_bw_table \<Rightarrow> bool" where
  "table_inv sp info tab \<longleftrightarrow> (\<forall>n < XHCI_MAX_INTERVAL. interval_ok sp info n (interval_bw tab n))
     \<and> interval0_esit_payload tab = sum_list (map (\<lambda>e. max_esit_payload (info e)) (endpoints (interval_bw tab 0)))"

lemma linked_iff: "linked e tab \<longleftrightarrow> (\<exists>n < XHCI_MAX_INTERVAL. e \<in> set (endpoints (interval_bw tab n)))"
  by (auto simp: linked_def)

lemma normalized_bound: "normalized_interval s i = Some n \<Longrightarrow> n < XHCI_MAX_INTERVAL"
  by (auto simp: normalized_interval_def Let_def split: if_splits)

lemma linked_facts:
  assumes "table_inv sp info tab" and "linked e tab"
  obtains n where "normalized_interval (sp e) (info e) = Some n" and "n < XHCI_MAX_INTERVAL" and "e \<in> set (endpoints (interval_bw tab n))"
    and "overhead_type (sp e) \<noteq> None" and "\<not> xhci_is_async_ep (bi_type (info e))"
proof -
  obtain n where n: "n < XHCI_MAX_INTERVAL" "e \<in> set (endpoints (interval_bw tab n))" using assms(2) by (auto simp: linked_iff)
  then have "interval_ok sp info n (interval_bw tab n)" using assms(1) by (simp add: table_inv_def)
  then show thesis using that n by (auto simp: interval_ok_def)
qed

lemma linked_iff_at:
  assumes "table_inv sp info tab" and "normalized_interval (sp e) (info e) = Some n"
  shows "linked e tab \<longleftrightarrow> e \<in> set (endpoints (interval_bw tab n))"
  using linked_facts [OF assms(1)] assms(2) normalized_bound [OF assms(2)] by (metis linked_iff option.inject)

text \<open>Inserting an endpoint keeps the order by packet size.\<close>

lemma set_insert_ep [simp]: "set (insert_ep info e xs) = insert e (set xs)"
  by (induction xs) auto

lemma mset_insert_ep: "mset (insert_ep info e xs) = add_mset e (mset xs)"
  by (induction xs) auto

lemma sorted_insert_ep:
  "sorted_wrt (\<lambda>x y. max_packet_size (info y) \<le> max_packet_size (info x)) xs
     \<Longrightarrow> sorted_wrt (\<lambda>x y. max_packet_size (info y) \<le> max_packet_size (info x)) (insert_ep info e xs)"
  by (induction xs) (auto intro: order.trans)

lemma sum_list_mset_map: "mset xs = mset ys \<Longrightarrow> sum_list (map f xs) = (sum_list (map f ys) :: 'a :: comm_monoid_add)"
  by (metis mset_map sum_mset_sum_list)

lemma filter_length_mset: "mset xs = mset ys \<Longrightarrow> length (filter P xs) = length (filter P ys)"
  by (metis mset_filter size_mset)

lemma sum_insert_ep [simp]: "sum_list (map f (insert_ep info e xs)) = (f e + sum_list (map f xs) :: u32)"
  using sum_list_mset_map [of "insert_ep info e xs" "e # xs" f] by (simp add: mset_insert_ep)

lemma count_insert_ep [simp]: "length (filter P (insert_ep info e xs)) = length (filter P (e # xs))"
  by (rule filter_length_mset) (simp add: mset_insert_ep)

lemma distinct_insert_ep: "distinct (insert_ep info e xs) = distinct (e # xs)"
  by (rule mset_eq_imp_distinct_iff) (simp add: mset_insert_ep)

section \<open>Adding an endpoint to a table\<close>

definition link_ep :: "(ep_id \<Rightarrow> usb_speed) \<Rightarrow> (ep_id \<Rightarrow> xhci_bw_info) \<Rightarrow> ep_id \<Rightarrow> nat \<Rightarrow> xhci_interval_bw_table \<Rightarrow> xhci_interval_bw_table" where
  "link_ep sp info e n tab = map_interval n (\<lambda>iv. iv\<lparr>endpoints := insert_ep info e (endpoints iv)\<rparr>)
     (count_ep (+) (overhead_type (sp e)) (info e) n tab)"

lemma interval_link:
  "interval_bw (link_ep sp info e n tab) m = (if m = n then (interval_bw tab n)\<lparr>
      num_packets := num_packets (interval_bw tab n) + bi_num_packets (info e),
      endpoints := insert_ep info e (endpoints (interval_bw tab n)),
      overhead := (case overhead_type (sp e) of None \<Rightarrow> overhead (interval_bw tab n)
        | Some y \<Rightarrow> (overhead (interval_bw tab n))(y := overhead (interval_bw tab n) y + 1))\<rparr> else interval_bw tab m)"
  by (cases "overhead_type (sp e)") (simp_all add: link_ep_def map_interval_def count_ep_def)

lemma payload_link:
  "interval0_esit_payload (link_ep sp info e n tab)
     = (if n = 0 then interval0_esit_payload tab + max_esit_payload (info e) else interval0_esit_payload tab)"
  by (simp add: link_ep_def map_interval_def count_ep_def)

lemma link_inv:
  assumes inv: "table_inv sp info tab" and e: "\<not> linked e tab" and n: "normalized_interval (sp e) (info e) = Some n"
    and ty: "overhead_type (sp e) = Some ty" and as: "\<not> xhci_is_async_ep (bi_type (info e))"
  shows "table_inv sp info (link_ep sp info e n tab)" and "linked x (link_ep sp info e n tab) \<longleftrightarrow> x = e \<or> linked x tab"
proof -
  let ?iv = "interval_bw tab n" and ?es = "insert_ep info e (endpoints (interval_bw tab n))"
  have nb: "n < XHCI_MAX_INTERVAL" using normalized_bound [OF n] .
  have iv: "interval_ok sp info n ?iv" using inv nb by (simp add: table_inv_def)
  have ne: "e \<notin> set (endpoints ?iv)" using e nb by (auto simp: linked_iff)
  have "distinct ?es" using iv ne by (simp add: distinct_insert_ep interval_ok_def)
  then have "interval_ok sp info n (interval_bw (link_ep sp info e n tab) n)"
    using iv n ty as sorted_insert_ep by (auto simp: interval_ok_def interval_link)
  then show "table_inv sp info (link_ep sp info e n tab)"
    using inv unfolding table_inv_def by (auto simp: interval_link payload_link)
  show "linked x (link_ep sp info e n tab) \<longleftrightarrow> x = e \<or> linked x tab" using nb by (auto simp: linked_iff interval_link)
qed
section \<open>Removing an endpoint from a table\<close>

definition unlink_counted :: "(ep_id \<Rightarrow> usb_speed) \<Rightarrow> (ep_id \<Rightarrow> xhci_bw_info) \<Rightarrow> ep_id \<Rightarrow> nat \<Rightarrow> xhci_interval_bw_table \<Rightarrow> xhci_interval_bw_table" where
  "unlink_counted sp info e n tab = unlink_ep e (count_ep (-) (overhead_type (sp e)) (info e) n tab)"

lemma interval_unlink:
  "interval_bw (unlink_counted sp info e n tab) m = (interval_bw tab m)\<lparr>endpoints := filter (\<lambda>x. x \<noteq> e) (endpoints (interval_bw tab m)),
      num_packets := (if m = n then num_packets (interval_bw tab n) - bi_num_packets (info e) else num_packets (interval_bw tab m)),
      overhead := (if m = n then case overhead_type (sp e) of None \<Rightarrow> overhead (interval_bw tab n)
        | Some y \<Rightarrow> (overhead (interval_bw tab n))(y := overhead (interval_bw tab n) y - 1) else overhead (interval_bw tab m))\<rparr>"
  by (cases "overhead_type (sp e)") (simp_all add: unlink_counted_def unlink_ep_def map_interval_def count_ep_def)

lemma payload_unlink:
  "interval0_esit_payload (unlink_counted sp info e n tab)
     = (if n = 0 then interval0_esit_payload tab - max_esit_payload (info e) else interval0_esit_payload tab)"
  by (simp add: unlink_counted_def unlink_ep_def map_interval_def count_ep_def)

lemma filter_neq: "e \<notin> set xs \<Longrightarrow> filter (\<lambda>x. x \<noteq> e) xs = xs"
  by (induction xs) auto

lemma sum_without: "distinct xs \<Longrightarrow> e \<in> set xs \<Longrightarrow> sum_list (map f (filter (\<lambda>x. x \<noteq> e) xs)) = (sum_list (map f xs) - f e :: u32)"
proof (induction xs)
  case (Cons a xs)
  then show ?case by (cases "a = e") (auto simp: filter_neq)
qed simp

lemma count_without:
  "distinct xs \<Longrightarrow> e \<in> set xs \<Longrightarrow> of_nat (length (filter P (filter (\<lambda>x. x \<noteq> e) xs))) = (of_nat (length (filter P xs)) - of_bool (P e) :: u32)"
proof (induction xs)
  case (Cons a xs)
  then show ?case by (cases "a = e") (auto simp: filter_neq simp del: filter_filter)
qed simp

lemma unlink_interval_ok:
  assumes iv: "interval_ok sp info n (interval_bw tab n)" and e: "e \<in> set (endpoints (interval_bw tab n))"
  shows "interval_ok sp info n (interval_bw (unlink_counted sp info e n tab) n)"
proof -
  obtain ty where ty: "overhead_type (sp e) = Some ty" using iv e by (auto simp: interval_ok_def)
  have d: "distinct (endpoints (interval_bw tab n))" using iv by (simp add: interval_ok_def)
  let ?iv = "interval_bw (unlink_counted sp info e n tab) n" and ?es = "filter (\<lambda>x. x \<noteq> e) (endpoints (interval_bw tab n))"
  have "overhead ?iv y = of_nat (length (filter (\<lambda>x. overhead_type (sp x) = Some y) ?es))" for y
  proof -
    have "overhead (interval_bw tab n) y = of_nat (length (filter (\<lambda>x. overhead_type (sp x) = Some y) (endpoints (interval_bw tab n))))"
      using iv by (simp add: interval_ok_def)
    then show ?thesis using ty count_without [OF d e, of "\<lambda>x. overhead_type (sp x) = Some y"]
      by (cases "y = ty") (simp_all add: interval_unlink del: filter_filter)
  qed
  moreover have "num_packets ?iv = sum_list (map (\<lambda>e. bi_num_packets (info e)) ?es)"
    using iv sum_without [OF d e] by (simp add: interval_unlink interval_ok_def)
  moreover have "endpoints ?iv = ?es" by (simp add: interval_unlink)
  ultimately show ?thesis using iv d by (simp add: interval_ok_def sorted_wrt_filter)
qed

lemma unlink_inv:
  assumes inv: "table_inv sp info tab" and e: "linked e tab" and n: "normalized_interval (sp e) (info e) = Some n"
  shows "table_inv sp info (unlink_counted sp info e n tab)" and "linked x (unlink_counted sp info e n tab) \<longleftrightarrow> x \<noteq> e \<and> linked x tab"
proof -
  have nb: "n < XHCI_MAX_INTERVAL" and en: "e \<in> set (endpoints (interval_bw tab n))"
    using normalized_bound [OF n] linked_iff_at [OF inv n] e by auto
  have other: "interval_ok sp info m (interval_bw (unlink_counted sp info e n tab) m)" if "m \<noteq> n" "m < XHCI_MAX_INTERVAL" for m
  proof -
    have ok: "interval_ok sp info m (interval_bw tab m)" using inv that by (simp add: table_inv_def)
    then have "e \<notin> set (endpoints (interval_bw tab m))" using n that(1) by (auto simp: interval_ok_def)
    then have "filter (\<lambda>x. x \<noteq> e) (endpoints (interval_bw tab m)) = endpoints (interval_bw tab m)" by (rule filter_neq)
    then show ?thesis using ok that(1) by (simp add: interval_unlink)
  qed
  have d: "distinct (endpoints (interval_bw tab n))" using inv nb by (auto simp: table_inv_def interval_ok_def)
  have z: "e \<notin> set (endpoints (interval_bw tab 0))" if "n \<noteq> 0"
  proof -
    have "interval_ok sp info 0 (interval_bw tab 0)" using inv by (simp add: table_inv_def XHCI_MAX_INTERVAL_def)
    then show ?thesis using n that by (auto simp: interval_ok_def)
  qed
  have "interval_ok sp info n (interval_bw (unlink_counted sp info e n tab) n)"
    using unlink_interval_ok [OF _ en] inv nb by (simp add: table_inv_def)
  then show "table_inv sp info (unlink_counted sp info e n tab)"
    using inv other d en sum_without [OF d en, of "\<lambda>e. max_esit_payload (info e)"] z unfolding table_inv_def
    by (cases "n = 0") (auto simp: interval_unlink payload_unlink filter_neq)
  show "linked x (unlink_counted sp info e n tab) \<longleftrightarrow> x \<noteq> e \<and> linked x tab" by (auto simp: linked_iff interval_unlink)
qed
section \<open>A domain\<close>

definition linked_eps :: "bw_domain \<Rightarrow> xhci_bw \<Rightarrow> ep_id set" where
  "linked_eps dm b = {e. \<exists>tab. get_table dm b = Some tab \<and> linked e tab}"

definition domain_inv :: "(ep_id \<Rightarrow> usb_speed) \<Rightarrow> bw_domain \<Rightarrow> nat option \<Rightarrow> xhci_bw \<Rightarrow> bool" where
  "domain_inv sp dm tt b \<longleftrightarrow> (\<exists>tab. get_table dm b = Some tab \<and> table_inv sp (bw_infos b) tab) \<and> (\<forall>t. tt = Some t \<longrightarrow> tts b t \<noteq> None)"

text \<open>How far the number of active endpoints of the translator is off the number of linked ones.\<close>

definition balance :: "bw_domain \<Rightarrow> nat option \<Rightarrow> xhci_bw \<Rightarrow> int" where
  "balance dm tt b = (case tt of None \<Rightarrow> 0 | Some t \<Rightarrow> active_eps (the (tts b t)) - int (card (linked_eps dm b)))"

definition other_fields :: "xhci_interval_bw_table \<Rightarrow> u32 \<times> u32 \<times> u32" where
  "other_fields tab = (bw_used tab, ss_bw_in tab, ss_bw_out tab)"

definition bw_frame :: "bw_domain \<Rightarrow> nat option \<Rightarrow> xhci_bw \<Rightarrow> xhci_bw \<Rightarrow> bool" where
  "bw_frame dm tt b b' \<longleftrightarrow> map num_active_tts (rh_bw b') = map num_active_tts (rh_bw b)
     \<and> (\<forall>t. tt \<noteq> Some t \<longrightarrow> map_option active_eps (tts b' t) = map_option active_eps (tts b t)) \<and> dom (tts b') = dom (tts b)
     \<and> (\<forall>d. d \<noteq> dm \<longrightarrow> get_table d b' = get_table d b) \<and> map_option other_fields (get_table dm b') = map_option other_fields (get_table dm b)"

definition moves :: "(ep_id \<Rightarrow> usb_speed) \<Rightarrow> bw_domain \<Rightarrow> nat option \<Rightarrow> xhci_bw \<Rightarrow> xhci_bw \<Rightarrow> ep_id set \<Rightarrow> bool" where
  "moves sp dm tt b b' L \<longleftrightarrow> domain_inv sp dm tt b' \<and> linked_eps dm b' = L \<and> bw_frame dm tt b b' \<and> balance dm tt b' = balance dm tt b"

lemma bw_frame_refl [simp]: "bw_frame dm tt b b"
  by (simp add: bw_frame_def)

lemma bw_frame_trans: "bw_frame dm tt b b' \<Longrightarrow> bw_frame dm tt b' b'' \<Longrightarrow> bw_frame dm tt b b''"
  by (simp add: bw_frame_def)

lemma moves_refl: "domain_inv sp dm tt b \<Longrightarrow> moves sp dm tt b b (linked_eps dm b)"
  by (simp add: moves_def)

lemma moves_trans: "moves sp dm tt b b' L \<Longrightarrow> moves sp dm tt b' b'' L' \<Longrightarrow> moves sp dm tt b b'' L'"
  by (auto simp: moves_def intro: bw_frame_trans)

lemma linked_table: "get_table dm b = Some tab \<Longrightarrow> linked_eps dm b = {e. linked e tab}"
  by (simp add: linked_eps_def)

lemma finite_linked [simp]: "finite (linked_eps dm b)"
  by (cases "get_table dm b") (simp_all add: linked_eps_def linked_def)

lemma get_put_table [simp]: "get_table dm b = Some tab \<Longrightarrow> get_table d (put_table dm tab' b) = (if d = dm then Some tab' else get_table d b)"
  by (cases dm; cases d) (auto split: if_splits)

lemma put_table_infos [simp]: "bw_infos (put_table dm tab b) = bw_infos b"
  by (cases dm) auto

lemma put_table_tts [simp]: "map num_active_tts (rh_bw (put_table dm tab b)) = map num_active_tts (rh_bw b)"
proof (cases dm)
  case (Root_Port n)
  then show ?thesis by (cases "n < length (rh_bw b)") (simp_all add: map_update list_update_same_conv list_update_beyond)
qed simp

lemma put_table_active: "map_option active_eps (tts (put_table dm tab b) t) = map_option active_eps (tts b t)"
  by (cases dm) (auto simp: option.map_comp comp_def)

lemma put_table_dom [simp]: "dom (tts (put_table dm tab b)) = dom (tts b)"
  by (cases dm) (auto simp: dom_def)

text \<open>The counter of a translator and a table change independently.\<close>

lemma active_eps_moves:
  assumes tab: "get_table dm b = Some tab" and tt: "\<forall>t. tt = Some t \<longrightarrow> tts b t \<noteq> None"
  shows "\<exists>b'. map_active_eps f tt (put_table dm tab' b) = Some b' \<and> get_table dm b' = Some tab' \<and> bw_infos b' = bw_infos b
     \<and> (other_fields tab' = other_fields tab \<longrightarrow> bw_frame dm tt b b') \<and> (\<forall>t. tt = Some t \<longrightarrow> tts b' t \<noteq> None)
     \<and> (\<forall>t. tt = Some t \<longrightarrow> active_eps (the (tts b' t)) = f (active_eps (the (tts b t))))"
proof (cases tt)
  case None
  then show ?thesis using tab by (simp add: map_active_eps_def bw_frame_def put_table_active)
next
  case (Some t)
  let ?b = "put_table dm tab' b"
  have ts: "map_option active_eps (tts ?b s) = map_option active_eps (tts b s)" for s by (rule put_table_active)
  obtain y where y: "tts b t = Some y" using tt Some by auto
  then obtain x where x: "tts ?b t = Some x" "active_eps x = active_eps y" using ts [of t] by auto
  let ?b' = "?b\<lparr>tts := (tts ?b)(t \<mapsto> x\<lparr>active_eps := f (active_eps x)\<rparr>)\<rparr>"
  have g: "get_table d ?b' = get_table d ?b" for d using x by (cases d) auto
  have "dom (tts ?b') = dom (tts b)" using x y put_table_dom [of dm tab' b] by auto
  then have "other_fields tab' = other_fields tab \<longrightarrow> bw_frame dm tt b ?b'" using tab g Some ts by (auto simp: bw_frame_def)
  then show ?thesis using Some x y g tab by (auto simp: map_active_eps_def)
qed
section \<open>Steps on a domain\<close>

lemma unlink_other [simp]: "other_fields (unlink_counted sp info e n tab) = other_fields tab"
  by (simp add: other_fields_def unlink_counted_def unlink_ep_def map_interval_def count_ep_def)

lemma link_other [simp]: "other_fields (link_ep sp info e n tab) = other_fields tab"
  by (simp add: other_fields_def link_ep_def map_interval_def count_ep_def)

lemma drop_step:
  assumes inv: "domain_inv sp dm tt b" and s: "sp e = s" "s \<noteq> USB_SPEED_SUPER" "overhead_type s \<noteq> None"
  shows "\<exists>b'. ehub_xhci_drop_ep_from_interval_table dm s tt e b = Some b' \<and> bw_infos b' = bw_infos b
     \<and> moves sp dm tt b b' (linked_eps dm b - {e})"
proof -
  obtain tab where tab: "get_table dm b = Some tab" "table_inv sp (bw_infos b) tab" "\<forall>t. tt = Some t \<longrightarrow> tts b t \<noteq> None"
    using inv by (auto simp: domain_inv_def)
  note L = linked_table [OF tab(1)]
  show ?thesis
  proof (cases "linked e tab")
    case True
    obtain n where n: "normalized_interval s (bw_infos b e) = Some n" "\<not> xhci_is_async_ep (bi_type (bw_infos b e))"
      using linked_facts [OF tab(2) True] s(1) by metis
    let ?tab = "unlink_counted sp (bw_infos b) e n tab"
    obtain b' where b': "map_active_eps (\<lambda>x. x - 1) tt (put_table dm ?tab b) = Some b'" "get_table dm b' = Some ?tab" "bw_infos b' = bw_infos b"
      "bw_frame dm tt b b'" "\<forall>t. tt = Some t \<longrightarrow> tts b' t \<noteq> None"
      "\<forall>t. tt = Some t \<longrightarrow> active_eps (the (tts b' t)) = active_eps (the (tts b t)) - 1"
      using active_eps_moves [OF tab(1,3), of "\<lambda>x. x - 1" ?tab] by auto
    have un: "table_inv sp (bw_infos b) ?tab" "linked_eps dm b' = linked_eps dm b - {e}"
      using unlink_inv [OF tab(2) True, of n] n s(1) linked_table [OF b'(2)] L by auto
    have "card (linked_eps dm b) = Suc (card (linked_eps dm b'))"
      unfolding un(2) using True L by (intro card.remove finite_linked) simp
    then have "balance dm tt b' = balance dm tt b" using b'(6) by (auto simp: balance_def split: option.splits)
    then have "moves sp dm tt b b' (linked_eps dm b - {e})" using b' un by (auto simp: moves_def domain_inv_def)
    then show ?thesis
      using b'(1,3) n s True tab(1) by (auto simp: ehub_xhci_drop_ep_from_interval_table_def Let_def unlink_counted_def)
  next
    case False
    then show ?thesis
      using tab(1) L moves_refl [OF inv] s by (auto simp: ehub_xhci_drop_ep_from_interval_table_def Let_def)
  qed
qed

lemma add_step:
  assumes inv: "domain_inv sp dm tt b" and s: "sp e = s" "s \<noteq> USB_SPEED_SUPER" "overhead_type s \<noteq> None"
    and e: "e \<notin> linked_eps dm b" and fit: "\<not> xhci_is_async_ep (bi_type (bw_infos b e)) \<Longrightarrow> normalized_interval s (bw_infos b e) \<noteq> None"
  shows "\<exists>b'. xhci_add_ep_to_interval_table dm s tt e b = Some b' \<and> bw_infos b' = bw_infos b
     \<and> moves sp dm tt b b' (if xhci_is_async_ep (bi_type (bw_infos b e)) then linked_eps dm b else insert e (linked_eps dm b))"
proof -
  obtain tab where tab: "get_table dm b = Some tab" "table_inv sp (bw_infos b) tab" "\<forall>t. tt = Some t \<longrightarrow> tts b t \<noteq> None"
    using inv by (auto simp: domain_inv_def)
  note L = linked_table [OF tab(1)]
  show ?thesis
  proof (cases "xhci_is_async_ep (bi_type (bw_infos b e))")
    case True
    then show ?thesis using moves_refl [OF inv] by (simp add: xhci_add_ep_to_interval_table_def)
  next
    case False
    then obtain n where n: "normalized_interval s (bw_infos b e) = Some n" using fit by auto
    obtain ty where ty: "overhead_type (sp e) = Some ty" using s by auto
    have nl: "\<not> linked e tab" using e L by simp
    let ?tab = "link_ep sp (bw_infos b) e n tab"
    obtain b' where b': "map_active_eps (\<lambda>x. x + 1) tt (put_table dm ?tab b) = Some b'" "get_table dm b' = Some ?tab" "bw_infos b' = bw_infos b"
      "bw_frame dm tt b b'" "\<forall>t. tt = Some t \<longrightarrow> tts b' t \<noteq> None"
      "\<forall>t. tt = Some t \<longrightarrow> active_eps (the (tts b' t)) = active_eps (the (tts b t)) + 1"
      using active_eps_moves [OF tab(1,3), of "\<lambda>x. x + 1" ?tab] by auto
    have un: "table_inv sp (bw_infos b) ?tab" "linked_eps dm b' = insert e (linked_eps dm b)"
      using link_inv [OF tab(2) nl, of n ty] n s(1) ty False linked_table [OF b'(2)] L by auto
    have "card (linked_eps dm b') = Suc (card (linked_eps dm b))" using un(2) e by simp
    then have "balance dm tt b' = balance dm tt b" using b'(6) by (auto simp: balance_def split: option.splits)
    then have "moves sp dm tt b b' (insert e (linked_eps dm b))" using b' un by (auto simp: moves_def domain_inv_def)
    then show ?thesis
      using b'(1,3) n s ty False tab(1) by (auto simp: xhci_add_ep_to_interval_table_def Let_def link_ep_def)
  qed
qed

lemma interval_ok_cong:
  assumes eq: "\<And>x. x \<in> set (endpoints iv) \<Longrightarrow> info x = info' x"
  shows "interval_ok sp info n iv = interval_ok sp info' n iv"
proof -
  have s: "sorted_wrt (\<lambda>x y. max_packet_size (info y) \<le> max_packet_size (info x)) (endpoints iv)
     = sorted_wrt (\<lambda>x y. max_packet_size (info' y) \<le> max_packet_size (info' x)) (endpoints iv)"
    using eq by (intro iffI; elim sorted_wrt_mono_rel [rotated]) auto
  have m: "map (\<lambda>e. bi_num_packets (info e)) (endpoints iv) = map (\<lambda>e. bi_num_packets (info' e)) (endpoints iv)" using eq by simp
  show ?thesis unfolding interval_ok_def s m using eq by auto
qed

text \<open>Information about an endpoint that is not linked can change.\<close>

lemma info_step:
  assumes inv: "domain_inv sp dm tt b" and e: "e \<notin> linked_eps dm b"
  shows "moves sp dm tt b (b\<lparr>bw_infos := (bw_infos b)(e := i)\<rparr>) (linked_eps dm b)"
proof -
  have g: "get_table d (b\<lparr>bw_infos := x\<rparr>) = get_table d b" for d x by (cases d) auto
  obtain tab where tab: "get_table dm b = Some tab" "table_inv sp (bw_infos b) tab" using inv by (auto simp: domain_inv_def)
  have ne: "x \<noteq> e" if "x \<in> set (endpoints (interval_bw tab n))" "n < XHCI_MAX_INTERVAL" for x n
    using e that linked_table [OF tab(1)] by (auto simp: linked_iff)
  have "table_inv sp ((bw_infos b)(e := i)) tab" unfolding table_inv_def
  proof (intro conjI allI impI)
    fix n assume n: "n < XHCI_MAX_INTERVAL"
    have eq: "((bw_infos b)(e := i)) x = bw_infos b x" if "x \<in> set (endpoints (interval_bw tab n))" for x using ne [OF that n] by simp
    have "interval_ok sp (bw_infos b) n (interval_bw tab n)" using tab(2) n by (simp add: table_inv_def)
    then show "interval_ok sp ((bw_infos b)(e := i)) n (interval_bw tab n)" using interval_ok_cong [of "interval_bw tab n" "(bw_infos b)(e := i)" "bw_infos b"] eq by simp
  next
    show "interval0_esit_payload tab = sum_list (map (\<lambda>x. max_esit_payload (((bw_infos b)(e := i)) x)) (endpoints (interval_bw tab 0)))"
      using tab(2) ne [of _ 0] by (auto simp: table_inv_def XHCI_MAX_INTERVAL_def cong: map_cong)
  qed
  moreover have "linked_eps dm (b\<lparr>bw_infos := x\<rparr>) = linked_eps dm b" for x by (simp add: linked_eps_def g)
  ultimately show ?thesis using inv tab(1) g by (auto simp: moves_def domain_inv_def bw_frame_def balance_def split: option.splits)
qed
section \<open>The loops of a reservation\<close>

text \<open>The endpoints of a device of speed \<open>s\<close> in slot \<open>slot\<close>.\<close>

definition slow_device :: "(ep_id \<Rightarrow> usb_speed) \<Rightarrow> u32 \<Rightarrow> usb_speed \<Rightarrow> bool" where
  "slow_device sp slot s \<longleftrightarrow> s \<noteq> USB_SPEED_SUPER \<and> overhead_type s \<noteq> None \<and> (\<forall>i. sp (slot, i) = s)"

abbreviation (input) eps_of :: "u32 \<Rightarrow> nat list \<Rightarrow> (nat \<Rightarrow> bool) \<Rightarrow> ep_id set" where
  "eps_of slot is Q \<equiv> {(slot, i) |i. i \<in> set is \<and> Q i}"

abbreviation (input) async_ep :: "xhci_bw_info \<Rightarrow> bool" where "async_ep x \<equiv> xhci_is_async_ep (bi_type x)"

lemma drop_loop:
  assumes "domain_inv sp dm tt b" and s: "slow_device sp slot s"
  shows "\<exists>b'. for_eps Q (\<lambda>i. ehub_xhci_drop_ep_from_interval_table dm s tt (slot, i)) is b = Some b' \<and> bw_infos b' = bw_infos b
     \<and> moves sp dm tt b b' (linked_eps dm b - eps_of slot is Q)"
  using assms(1)
proof (induction "is" arbitrary: b)
  case Nil
  then show ?case using moves_refl by auto
next
  case (Cons i "is")
  obtain b1 where b1: "(if Q i then ehub_xhci_drop_ep_from_interval_table dm s tt (slot, i) b else Some b) = Some b1" "bw_infos b1 = bw_infos b"
    "moves sp dm tt b b1 (linked_eps dm b - {e. e = (slot, i) \<and> Q i})"
    using drop_step [OF Cons.prems, of "(slot, i)" s] s moves_refl [OF Cons.prems] by (cases "Q i") (auto simp: slow_device_def)
  then have i: "domain_inv sp dm tt b1" "linked_eps dm b1 = linked_eps dm b - {e. e = (slot, i) \<and> Q i}" by (auto simp: moves_def)
  from Cons.IH [OF i(1)] obtain b2 where b2: "for_eps Q (\<lambda>i. ehub_xhci_drop_ep_from_interval_table dm s tt (slot, i)) is b1 = Some b2" "bw_infos b2 = bw_infos b1"
    "moves sp dm tt b1 b2 (linked_eps dm b1 - eps_of slot is Q)" by auto
  have "linked_eps dm b1 - eps_of slot is Q = linked_eps dm b - eps_of slot (i # is) Q" unfolding i(2) by auto
  then show ?case using b1(1,2) b2(1,2) moves_trans [OF b1(3) b2(3)] by (intro exI [of _ b2]) simp
qed

lemma add_loop:
  assumes "domain_inv sp dm tt b" and s: "slow_device sp slot s" and "distinct is"
    and "\<And>i. i \<in> set is \<Longrightarrow> Q i \<Longrightarrow> (slot, i) \<notin> linked_eps dm b \<and> (async_ep (bw_infos b (slot, i)) \<or> normalized_interval s (bw_infos b (slot, i)) \<noteq> None)"
  shows "\<exists>b'. for_eps Q (\<lambda>i. xhci_add_ep_to_interval_table dm s tt (slot, i)) is b = Some b' \<and> bw_infos b' = bw_infos b
     \<and> moves sp dm tt b b' (linked_eps dm b \<union> eps_of slot is (\<lambda>i. Q i \<and> \<not> async_ep (bw_infos b (slot, i))))"
  using assms(1,3,4)
proof (induction "is" arbitrary: b)
  case Nil
  then show ?case using moves_refl by auto
next
  case (Cons i "is")
  let ?new = "{e. e = (slot, i) \<and> Q i \<and> \<not> async_ep (bw_infos b (slot, i))}"
  obtain b1 where b1: "(if Q i then xhci_add_ep_to_interval_table dm s tt (slot, i) b else Some b) = Some b1" "bw_infos b1 = bw_infos b"
    "moves sp dm tt b b1 (linked_eps dm b \<union> ?new)"
  proof (cases "Q i")
    case True
    have "(if async_ep (bw_infos b (slot, i)) then linked_eps dm b else insert (slot, i) (linked_eps dm b)) = linked_eps dm b \<union> ?new"
      using True by auto
    then show ?thesis using that add_step [OF Cons.prems(1), of "(slot, i)" s] s Cons.prems(3) [of i] True by (auto simp: slow_device_def)
  next
    case False
    then show ?thesis using that moves_refl [OF Cons.prems(1)] by simp
  qed
  then have inv: "domain_inv sp dm tt b1" and L: "linked_eps dm b1 = linked_eps dm b \<union> ?new" by (auto simp: moves_def)
  have "(slot, j) \<notin> linked_eps dm b1 \<and> (async_ep (bw_infos b1 (slot, j)) \<or> normalized_interval s (bw_infos b1 (slot, j)) \<noteq> None)"
    if "j \<in> set is" "Q j" for j using Cons.prems(2,3) that L b1(2) by auto
  from Cons.IH [OF inv _ this] Cons.prems(2) obtain b2 where b2: "for_eps Q (\<lambda>i. xhci_add_ep_to_interval_table dm s tt (slot, i)) is b1 = Some b2" "bw_infos b2 = bw_infos b1"
    "moves sp dm tt b1 b2 (linked_eps dm b1 \<union> eps_of slot is (\<lambda>i. Q i \<and> \<not> async_ep (bw_infos b1 (slot, i))))" by auto
  have "linked_eps dm b1 \<union> eps_of slot is (\<lambda>i. Q i \<and> \<not> async_ep (bw_infos b1 (slot, i)))
     = linked_eps dm b \<union> eps_of slot (i # is) (\<lambda>i. Q i \<and> \<not> async_ep (bw_infos b (slot, i)))" using L b1(2) by auto
  then show ?case using b1(1,2) b2(1,2) moves_trans [OF b1(3) b2(3)] by (intro exI [of _ b2]) simp
qed
abbreviation (input) touched :: "xhci_container_ctx \<Rightarrow> nat \<Rightarrow> bool" where
  "touched ctrl i \<equiv> EP_IS_ADDED ctrl i \<or> EP_IS_DROPPED ctrl i"

lemma update_loop:
  assumes "domain_inv sp dm tt b" and ctx: "length (ep_ctxs inc) = 31" and "distinct is" and "\<And>i. i \<in> set is \<Longrightarrow> i < 31"
    and "\<And>i. i \<in> set is \<Longrightarrow> touched ctrl i \<Longrightarrow> (slot, i) \<notin> linked_eps dm b"
  shows "\<exists>b'. update_bw_infos slot inc ctrl is b = Some b' \<and> moves sp dm tt b b' (linked_eps dm b)
     \<and> (\<forall>e. e \<notin> eps_of slot is (touched ctrl) \<longrightarrow> bw_infos b' e = bw_infos b e)
     \<and> (\<forall>i \<in> set is. async_ep (bw_infos b' (slot, i)) \<or> bw_infos b' (slot, i) = bw_infos b (slot, i)
          \<or> EP_IS_ADDED ctrl i \<and> bw_infos b' (slot, i) = bw_info_of_ctx (ep_ctxs inc ! i))"
  using assms(1,3,4,5)
proof (induction "is" arbitrary: b)
  case Nil
  then show ?case using moves_refl by auto
next
  case (Cons i "is")
  have c: "ehub_xhci_get_ep_ctx inc (of_nat i) = Some (ep_ctxs inc ! i)"
    using ctx Cons.prems(3) [of i] by (simp add: ehub_xhci_get_ep_ctx_def unat_of_nat)
  define x where "x = (if \<not> EP_IS_ADDED ctrl i \<and> EP_IS_DROPPED ctrl i then ehub_xhci_clear_endpoint_bw_info
     else if EP_IS_ADDED ctrl i \<and> \<not> xhci_is_async_ep (CTX_TO_EP_TYPE (ep_info2 (ep_ctxs inc ! i))) then bw_info_of_ctx (ep_ctxs inc ! i)
     else bw_infos b (slot, i))"
  let ?b = "b\<lparr>bw_infos := (bw_infos b)((slot, i) := x)\<rparr>"
  have up: "update_bw_infos slot inc ctrl (i # is) b = update_bw_infos slot inc ctrl is ?b" using c by (simp add: x_def)
  have x: "async_ep x \<or> x = bw_infos b (slot, i) \<or> EP_IS_ADDED ctrl i \<and> x = bw_info_of_ctx (ep_ctxs inc ! i)"
    "\<not> touched ctrl i \<Longrightarrow> x = bw_infos b (slot, i)"
    by (auto simp: x_def ehub_xhci_clear_endpoint_bw_info_def xhci_is_async_ep_def ISOC_OUT_EP_def INT_OUT_EP_def ISOC_IN_EP_def INT_IN_EP_def)
  have m: "moves sp dm tt b ?b (linked_eps dm b)"
    using info_step [OF Cons.prems(1), of "(slot, i)" x] Cons.prems(4) [of i] x(2) moves_refl [OF Cons.prems(1)] by (cases "touched ctrl i") auto
  then have i: "domain_inv sp dm tt ?b" "linked_eps dm ?b = linked_eps dm b" by (auto simp: moves_def)
  obtain b2 where b2: "update_bw_infos slot inc ctrl is ?b = Some b2" "moves sp dm tt ?b b2 (linked_eps dm ?b)"
    "\<forall>e. e \<notin> eps_of slot is (touched ctrl) \<longrightarrow> bw_infos b2 e = bw_infos ?b e"
    "\<forall>j \<in> set is. async_ep (bw_infos b2 (slot, j)) \<or> bw_infos b2 (slot, j) = bw_infos ?b (slot, j)
          \<or> EP_IS_ADDED ctrl j \<and> bw_infos b2 (slot, j) = bw_info_of_ctx (ep_ctxs inc ! j)"
    using Cons.IH [OF i(1)] Cons.prems(2-4) i(2) by auto
  have ii: "bw_infos b2 (slot, i) = x" using b2(3) Cons.prems(2) by simp
  have "bw_infos b2 e = bw_infos b e" if "e \<notin> eps_of slot (i # is) (touched ctrl)" for e
  proof (cases "e = (slot, i)")
    case True
    then show ?thesis using that ii x(2) by auto
  next
    case False
    have "e \<notin> eps_of slot is (touched ctrl)" using that by auto
    then have "bw_infos b2 e = bw_infos ?b e" using b2(3) by blast
    then show ?thesis using False by simp
  qed
  moreover have "async_ep (bw_infos b2 (slot, j)) \<or> bw_infos b2 (slot, j) = bw_infos b (slot, j)
          \<or> EP_IS_ADDED ctrl j \<and> bw_infos b2 (slot, j) = bw_info_of_ctx (ep_ctxs inc ! j)" if "j \<in> set (i # is)" for j
  proof (cases "j = i")
    case False
    then have "j \<in> set is" "bw_infos ?b (slot, j) = bw_infos b (slot, j)" using that by auto
    then show ?thesis using b2(4) by metis
  qed (use ii x(1) in simp)
  ultimately show ?case using up b2(1) moves_trans [OF m b2(2)] i(2) by auto
qed

lemma revert_step:
  assumes inv: "domain_inv sp dm tt b" and s: "slow_device sp slot s"
    and l: "\<not> EP_IS_ADDED ctrl i \<Longrightarrow> (slot, i) \<notin> linked_eps dm b"
    and fit: "EP_IS_DROPPED ctrl i \<Longrightarrow> \<not> async_ep (saved (slot, i)) \<Longrightarrow> normalized_interval s (saved (slot, i)) \<noteq> None"
  shows "\<exists>b'. revert_ep dm s tt slot ctrl saved i b = Some b' \<and> bw_infos b' = (bw_infos b)((slot, i) := saved (slot, i))
     \<and> moves sp dm tt b b' (linked_eps dm b - {(slot, i)} \<union> {e. e = (slot, i) \<and> EP_IS_DROPPED ctrl i \<and> \<not> async_ep (saved (slot, i))})"
proof -
  obtain b1 where b1: "(if EP_IS_ADDED ctrl i then ehub_xhci_drop_ep_from_interval_table dm s tt (slot, i) b else Some b) = Some b1"
    "bw_infos b1 = bw_infos b" "moves sp dm tt b b1 (linked_eps dm b - {(slot, i)})"
    using drop_step [OF inv, of "(slot, i)" s] s l moves_refl [OF inv] by (cases "EP_IS_ADDED ctrl i") (auto simp: slow_device_def)
  have i1: "domain_inv sp dm tt b1" "linked_eps dm b1 = linked_eps dm b - {(slot, i)}" using b1(3) by (auto simp: moves_def)
  let ?b2 = "b1\<lparr>bw_infos := (bw_infos b1)((slot, i) := saved (slot, i))\<rparr>"
  have m2: "moves sp dm tt b1 ?b2 (linked_eps dm b1)" using info_step [OF i1(1), of "(slot, i)" "saved (slot, i)"] i1(2) by simp
  then have i2: "domain_inv sp dm tt ?b2" "linked_eps dm ?b2 = linked_eps dm b1" by (auto simp: moves_def)
  note m = moves_trans [OF b1(3) m2]
  show ?thesis
  proof (cases "EP_IS_DROPPED ctrl i")
    case True
    obtain b3 where b3: "xhci_add_ep_to_interval_table dm s tt (slot, i) ?b2 = Some b3" "bw_infos b3 = bw_infos ?b2"
      "moves sp dm tt ?b2 b3 (if async_ep (saved (slot, i)) then linked_eps dm ?b2 else insert (slot, i) (linked_eps dm ?b2))"
      using add_step [OF i2(1), of "(slot, i)" s] s i1(2) i2(2) fit True by (auto simp: slow_device_def)
    have "(if async_ep (saved (slot, i)) then linked_eps dm ?b2 else insert (slot, i) (linked_eps dm ?b2))
       = linked_eps dm b - {(slot, i)} \<union> {e. e = (slot, i) \<and> EP_IS_DROPPED ctrl i \<and> \<not> async_ep (saved (slot, i))}"
      using True i1(2) i2(2) by auto
    then show ?thesis using b1 b3 True moves_trans [OF m b3(3)] by (simp add: revert_ep_def Let_def)
  next
    case False
    then show ?thesis using b1 m i1(2) by (simp add: revert_ep_def Let_def)
  qed
qed
lemma revert_loop:
  assumes "domain_inv sp dm tt b" and s: "slow_device sp slot s" and "distinct is"
    and "\<And>i. i \<in> set is \<Longrightarrow> EP_IS_DROPPED ctrl i \<Longrightarrow> \<not> EP_IS_ADDED ctrl i \<Longrightarrow> (slot, i) \<notin> linked_eps dm b"
    and "\<And>i. i \<in> set is \<Longrightarrow> EP_IS_DROPPED ctrl i \<Longrightarrow> \<not> async_ep (saved (slot, i)) \<Longrightarrow> normalized_interval s (saved (slot, i)) \<noteq> None"
  shows "\<exists>b'. for_eps (touched ctrl) (revert_ep dm s tt slot ctrl saved) is b = Some b'
     \<and> bw_infos b' = (\<lambda>e. if e \<in> eps_of slot is (touched ctrl) then saved e else bw_infos b e)
     \<and> moves sp dm tt b b' (linked_eps dm b - eps_of slot is (touched ctrl)
          \<union> eps_of slot is (\<lambda>i. EP_IS_DROPPED ctrl i \<and> \<not> async_ep (saved (slot, i))))"
  using assms(1,3,4,5)
proof (induction "is" arbitrary: b)
  case Nil
  then show ?case using moves_refl by auto
next
  case (Cons i "is")
  let ?old = "{e. e = (slot, i) \<and> EP_IS_DROPPED ctrl i \<and> \<not> async_ep (saved (slot, i))}"
  let ?L = "linked_eps dm b - {e. e = (slot, i) \<and> touched ctrl i} \<union> ?old"
  obtain b1 where b1: "(if touched ctrl i then revert_ep dm s tt slot ctrl saved i b else Some b) = Some b1"
    "bw_infos b1 = (if touched ctrl i then (bw_infos b)((slot, i) := saved (slot, i)) else bw_infos b)" "moves sp dm tt b b1 ?L"
  proof (cases "touched ctrl i")
    case True
    then have "{e. e = (slot, i) \<and> touched ctrl i} = {(slot, i)}" by auto
    then show ?thesis using that revert_step [OF Cons.prems(1) s, of ctrl i saved] Cons.prems(4) [of i] Cons.prems(3) [of i] True by auto
  next
    case False
    then have "?L = linked_eps dm b" by auto
    then show ?thesis using that moves_refl [OF Cons.prems(1)] False by simp
  qed
  have i: "domain_inv sp dm tt b1" and L: "linked_eps dm b1 = ?L" using b1(3) by (auto simp: moves_def)
  have "(slot, j) \<notin> linked_eps dm b1" if "j \<in> set is" "EP_IS_DROPPED ctrl j" "\<not> EP_IS_ADDED ctrl j" for j
    using Cons.prems(2,3) that L by auto
  from Cons.IH [OF i _ this] Cons.prems(2,4) obtain b2 where b2: "for_eps (touched ctrl) (revert_ep dm s tt slot ctrl saved) is b1 = Some b2"
    "bw_infos b2 = (\<lambda>e. if e \<in> eps_of slot is (touched ctrl) then saved e else bw_infos b1 e)"
    "moves sp dm tt b1 b2 (linked_eps dm b1 - eps_of slot is (touched ctrl)
       \<union> eps_of slot is (\<lambda>i. EP_IS_DROPPED ctrl i \<and> \<not> async_ep (saved (slot, i))))" by auto
  have "linked_eps dm b1 - eps_of slot is (touched ctrl) \<union> eps_of slot is (\<lambda>i. EP_IS_DROPPED ctrl i \<and> \<not> async_ep (saved (slot, i)))
     = linked_eps dm b - eps_of slot (i # is) (touched ctrl)
       \<union> eps_of slot (i # is) (\<lambda>i. EP_IS_DROPPED ctrl i \<and> \<not> async_ep (saved (slot, i)))" using L Cons.prems(2) by auto
  moreover have "bw_infos b2 = (\<lambda>e. if e \<in> eps_of slot (i # is) (touched ctrl) then saved e else bw_infos b e)"
    unfolding b2(2) b1(2) by (rule ext) auto
  ultimately show ?case using b1(1) b2(1) moves_trans [OF b1(3) b2(3)] by (intro exI [of _ b2]) simp
qed

section \<open>The reservation\<close>

text \<open>What the configuration of a low, full or high speed device relies on: its endpoints are linked
  exactly as their information says, endpoints that are added without being dropped are not
  linked, and the intervals of the new periodic endpoints fit into the table.\<close>

definition config_ready :: "(ep_id \<Rightarrow> usb_speed) \<Rightarrow> bw_domain \<Rightarrow> u32 \<Rightarrow> xhci_virt_device \<Rightarrow> xhci_container_ctx \<Rightarrow> xhci_bw \<Rightarrow> bool" where
  "config_ready sp dm slot vd ctrl b \<longleftrightarrow> domain_inv sp dm (tt_info_of vd) b \<and> slow_device sp slot (ud_speed (udev vd))
     \<and> bw_table_of vd = Some dm \<and> (\<forall>t. tt_info_of vd = Some t \<longrightarrow> dm = TT t) \<and> rh_index (real_port vd) b \<noteq> None \<and> ctx_input ctrl \<and> length (ep_ctxs (in_ctx vd)) = 31
     \<and> (\<forall>i < 31. \<not> async_ep (bw_infos b (slot, i)) \<longrightarrow> (slot, i) \<in> linked_eps dm b)
     \<and> (\<forall>i < 31. EP_IS_ADDED ctrl i \<and> \<not> EP_IS_DROPPED ctrl i \<longrightarrow> (slot, i) \<notin> linked_eps dm b)
     \<and> (\<forall>i < 31. EP_IS_ADDED ctrl i \<and> \<not> async_ep (bw_info_of_ctx (ep_ctxs (in_ctx vd) ! i))
          \<longrightarrow> normalized_interval (ud_speed (udev vd)) (bw_info_of_ctx (ep_ctxs (in_ctx vd) ! i)) \<noteq> None)"

lemma linked_normal:
  assumes "domain_inv sp dm tt b" and "e \<in> linked_eps dm b"
  shows "normalized_interval (sp e) (bw_infos b e) \<noteq> None" and "\<not> async_ep (bw_infos b e)"
proof -
  obtain tab where tab: "get_table dm b = Some tab" "table_inv sp (bw_infos b) tab" "linked e tab"
    using assms by (auto simp: domain_inv_def linked_eps_def)
  show "normalized_interval (sp e) (bw_infos b e) \<noteq> None" "\<not> async_ep (bw_infos b e)" using linked_facts [OF tab(2,3)] by auto
qed
text \<open>The endpoints that are linked for the new configuration.\<close>

definition new_links :: "bw_domain \<Rightarrow> u32 \<Rightarrow> xhci_container_ctx \<Rightarrow> xhci_bw \<Rightarrow> (ep_id \<Rightarrow> xhci_bw_info) \<Rightarrow> ep_id set" where
  "new_links dm slot ctrl b info = linked_eps dm b - eps_of slot [0..<31] (EP_IS_DROPPED ctrl)
     \<union> eps_of slot [0..<31] (\<lambda>i. EP_IS_ADDED ctrl i \<and> \<not> async_ep (info (slot, i)))"

definition configure_links :: "bw_domain \<Rightarrow> u32 \<Rightarrow> xhci_virt_device \<Rightarrow> xhci_container_ctx \<Rightarrow> xhci_bw \<Rightarrow> xhci_bw option" where
  "configure_links dm slot vd ctrl b = do {
     b1 \<leftarrow> for_eps (EP_IS_DROPPED ctrl) (\<lambda>i. ehub_xhci_drop_ep_from_interval_table dm (ud_speed (udev vd)) (tt_info_of vd) (slot, i)) [0..<31] b;
     b2 \<leftarrow> ehub_xhci_update_bw_info slot (in_ctx vd) ctrl b1;
     for_eps (EP_IS_ADDED ctrl) (\<lambda>i. xhci_add_ep_to_interval_table dm (ud_speed (udev vd)) (tt_info_of vd) (slot, i)) [0..<31] b2
   }"

lemma configure_links_ok:
  assumes r: "config_ready sp dm slot vd ctrl b"
  shows "\<exists>b'. configure_links dm slot vd ctrl b = Some b' \<and> moves sp dm (tt_info_of vd) b b' (new_links dm slot ctrl b (bw_infos b'))
     \<and> (\<forall>e. e \<notin> eps_of slot [0..<31] (touched ctrl) \<longrightarrow> bw_infos b' e = bw_infos b e)"
proof -
  let ?s = "ud_speed (udev vd)" and ?tt = "tt_info_of vd" and ?D = "eps_of slot [0..<31] (EP_IS_DROPPED ctrl)"
  have inv: "domain_inv sp dm ?tt b" and s: "slow_device sp slot ?s" and len: "length (ep_ctxs (in_ctx vd)) = 31"
    and lk: "\<And>i. i < 31 \<Longrightarrow> \<not> async_ep (bw_infos b (slot, i)) \<Longrightarrow> (slot, i) \<in> linked_eps dm b"
    and ad: "\<And>i. i < 31 \<Longrightarrow> EP_IS_ADDED ctrl i \<Longrightarrow> \<not> EP_IS_DROPPED ctrl i \<Longrightarrow> (slot, i) \<notin> linked_eps dm b"
    and nf: "\<And>i. i < 31 \<Longrightarrow> EP_IS_ADDED ctrl i \<Longrightarrow> async_ep (bw_info_of_ctx (ep_ctxs (in_ctx vd) ! i))
       \<or> normalized_interval ?s (bw_info_of_ctx (ep_ctxs (in_ctx vd) ! i)) \<noteq> None"
    using r by (auto simp: config_ready_def)
  obtain b1 where b1: "for_eps (EP_IS_DROPPED ctrl) (\<lambda>i. ehub_xhci_drop_ep_from_interval_table dm ?s ?tt (slot, i)) [0..<31] b = Some b1"
    "bw_infos b1 = bw_infos b" "moves sp dm ?tt b b1 (linked_eps dm b - ?D)" using drop_loop [OF inv s, of "EP_IS_DROPPED ctrl" "[0..<31]"] by blast
  have i1: "domain_inv sp dm ?tt b1" and L1: "linked_eps dm b1 = linked_eps dm b - ?D" using b1(3) by (auto simp: moves_def)
  have un: "(slot, i) \<notin> linked_eps dm b1" if "i < 31" "touched ctrl i" for i using that ad [of i] unfolding L1 by auto
  obtain b2 where b2: "ehub_xhci_update_bw_info slot (in_ctx vd) ctrl b1 = Some b2" "moves sp dm ?tt b1 b2 (linked_eps dm b1)"
    "\<forall>e. e \<notin> eps_of slot [1..<31] (touched ctrl) \<longrightarrow> bw_infos b2 e = bw_infos b1 e"
    "\<forall>i \<in> set [1..<31]. async_ep (bw_infos b2 (slot, i)) \<or> bw_infos b2 (slot, i) = bw_infos b1 (slot, i)
        \<or> EP_IS_ADDED ctrl i \<and> bw_infos b2 (slot, i) = bw_info_of_ctx (ep_ctxs (in_ctx vd) ! i)"
    using update_loop [OF i1 len distinct_upt, of 1 31 ctrl slot] un unfolding ehub_xhci_update_bw_info_def by auto
  have i2: "domain_inv sp dm ?tt b2" and L2: "linked_eps dm b2 = linked_eps dm b1" using b2(2) by (auto simp: moves_def)
  have old: "async_ep (bw_infos b (slot, i)) \<or> normalized_interval ?s (bw_infos b (slot, i)) \<noteq> None" if "i < 31" for i
    using lk [OF that] linked_normal(1) [OF inv, of "(slot, i)"] s by (auto simp: slow_device_def)
  have fit: "(slot, i) \<notin> linked_eps dm b2 \<and> (async_ep (bw_infos b2 (slot, i)) \<or> normalized_interval ?s (bw_infos b2 (slot, i)) \<noteq> None)"
    if "i \<in> set [0..<31]" "EP_IS_ADDED ctrl i" for i
  proof -
    have "bw_infos b2 (slot, 0) = bw_infos b1 (slot, 0)" using b2(3) by simp
    then have "async_ep (bw_infos b2 (slot, i)) \<or> bw_infos b2 (slot, i) = bw_infos b (slot, i) \<or> bw_infos b2 (slot, i) = bw_info_of_ctx (ep_ctxs (in_ctx vd) ! i)"
      using b2(4) b1(2) that(1) by (cases i) auto
    then show ?thesis using old [of i] nf [OF _ that(2)] un [of i] that L2 by auto
  qed
  obtain b3 where b3: "for_eps (EP_IS_ADDED ctrl) (\<lambda>i. xhci_add_ep_to_interval_table dm ?s ?tt (slot, i)) [0..<31] b2 = Some b3"
    "bw_infos b3 = bw_infos b2" "moves sp dm ?tt b2 b3 (linked_eps dm b2 \<union> eps_of slot [0..<31] (\<lambda>i. EP_IS_ADDED ctrl i \<and> \<not> async_ep (bw_infos b2 (slot, i))))"
    using add_loop [OF i2 s distinct_upt fit] by blast
  have "moves sp dm ?tt b b3 (new_links dm slot ctrl b (bw_infos b3))"
    using moves_trans [OF moves_trans [OF b1(3) b2(2)] b3(3)] unfolding new_links_def L2 L1 b3(2) .
  moreover have "bw_infos b3 e = bw_infos b e" if "e \<notin> eps_of slot [0..<31] (touched ctrl)" for e
  proof -
    have "e \<notin> eps_of slot [1..<31] (touched ctrl)" using that by auto
    then have "bw_infos b2 e = bw_infos b1 e" using b2(3) by blast
    then show ?thesis using b1(2) b3(2) by simp
  qed
  ultimately show ?thesis using b1(1) b2(1) b3(1) by (auto simp: configure_links_def)
qed
lemma frame_rh_index: "bw_frame dm tt b b' \<Longrightarrow> rh_index port b' = rh_index port b"
proof -
  assume "bw_frame dm tt b b'"
  then have "length (map num_active_tts (rh_bw b')) = length (map num_active_tts (rh_bw b))" by (simp add: bw_frame_def)
  then show ?thesis by (simp add: rh_index_def)
qed

text \<open>The check changes nothing but the bandwidth in use, and that only within the limit.\<close>

lemma check_ok:
  assumes tab: "get_table dm b = Some tab" and s: "s \<noteq> USB_SPEED_SUPER" and port: "rh_index port b \<noteq> None" and tt: "\<forall>t. tt = Some t \<longrightarrow> tts b t \<noteq> None"
  obtains (fits) u where "xhci_check_bw_table dm s tt port old b = Some (0, put_table dm (tab\<lparr>bw_used := u\<rparr>) b)" "u \<le> max_bandwidth_of s"
  | (full) "xhci_check_bw_table dm s tt port old b = Some (- ENOMEM, b)"
proof -
  obtain p where p: "rh_index port b = Some p" using port by auto
  have "\<exists>r. (case tt of None \<Rightarrow> Some 0 | Some t \<Rightarrow> xhci_check_tt_bw_table port t old b) = Some r"
    using p tt by (auto simp: xhci_check_tt_bw_table_def split: option.splits)
  then obtain r where r: "(case tt of None \<Rightarrow> Some 0 | Some t \<Rightarrow> xhci_check_tt_bw_table port t old b) = Some r" by auto
  show thesis
  proof (cases "xhci_check_bw_table dm s tt port old b = Some (- ENOMEM, b)")
    case True
    then show ?thesis by (rule full)
  next
    case False
    let ?ci = "check_intervals (xhci_get_block_size s) (max_bandwidth_of s) (bw_infos b) tab [1..<XHCI_MAX_INTERVAL]
        (interval0_bandwidth (xhci_get_block_size s) tab, 0, 0, 0)"
    have r0: "r = 0"
    proof (rule ccontr)
      assume "r \<noteq> 0"
      then show False using False tab s r by (simp add: xhci_check_bw_table_def Let_def)
    qed
    have "?ci \<noteq> None"
    proof
      assume "?ci = None"
      then show False using False tab s r r0 by (simp add: xhci_check_bw_table_def Let_def del: One_nat_def)
    qed
    then obtain used pk ps ov where i: "?ci = Some (used, pk, ps, ov)" by (metis option.exhaust prod_cases4)
    define a where "a = (if tt = None \<and> s = USB_SPEED_HIGH then num_active_tts (rh_bw b ! p) else 0)"
    then have a: "(if tt = None \<and> s = USB_SPEED_HIGH then map_option (\<lambda>p. num_active_tts (rh_bw b ! p)) (rh_index port b) else Some 0) = Some a"
      using p by simp
    let ?u = "(if 0 < pk then used + (ov + ps) else used) + TT_HS_OVERHEAD * a + bw_reserved_of s"
    have c: "xhci_check_bw_table dm s tt port old b = (if max_bandwidth_of s < ?u then Some (- ENOMEM, b) else Some (0, put_table dm (tab\<lparr>bw_used := ?u\<rparr>) b))"
      using tab s r r0 i a by (simp add: xhci_check_bw_table_def Let_def)
    then have "\<not> max_bandwidth_of s < ?u" using False by auto
    then show ?thesis using fits [of ?u] c by (simp add: not_less)
  qed
qed

lemma table_unique:
  assumes inv: "table_inv sp info tab" "table_inv sp info tab'" and l: "\<And>e. linked e tab = linked e tab'" and n: "n < XHCI_MAX_INTERVAL"
  shows "mset (endpoints (interval_bw tab n)) = mset (endpoints (interval_bw tab' n))"
    and "num_packets (interval_bw tab n) = num_packets (interval_bw tab' n)" and "overhead (interval_bw tab n) = overhead (interval_bw tab' n)"
proof -
  have ok: "interval_ok sp info n (interval_bw tab n)" "interval_ok sp info n (interval_bw tab' n)" using inv n by (auto simp: table_inv_def)
  have "e \<in> set (endpoints (interval_bw tab n)) \<longleftrightarrow> e \<in> set (endpoints (interval_bw tab' n))" for e
    using ok l n linked_iff_at [OF inv(1), of e n] linked_iff_at [OF inv(2), of e n] by (metis interval_ok_def)
  then show m: "mset (endpoints (interval_bw tab n)) = mset (endpoints (interval_bw tab' n))"
    using ok by (intro set_eq_iff_mset_eq_distinct [THEN iffD1]) (auto simp: interval_ok_def)
  show "num_packets (interval_bw tab n) = num_packets (interval_bw tab' n)" using ok sum_list_mset_map [OF m] by (simp add: interval_ok_def)
  show "overhead (interval_bw tab n) = overhead (interval_bw tab' n)" using ok filter_length_mset [OF m] by (auto simp: interval_ok_def fun_eq_iff)
qed
text \<open>Two states with the same bandwidth accounts: only the order of endpoints with the same packet
  size in a list may differ.\<close>

definition same_table :: "xhci_interval_bw_table \<Rightarrow> xhci_interval_bw_table \<Rightarrow> bool" where
  "same_table tab tab' \<longleftrightarrow> interval0_esit_payload tab' = interval0_esit_payload tab \<and> other_fields tab' = other_fields tab
     \<and> (\<forall>n < XHCI_MAX_INTERVAL. num_packets (interval_bw tab' n) = num_packets (interval_bw tab n)
          \<and> overhead (interval_bw tab' n) = overhead (interval_bw tab n)
          \<and> mset (endpoints (interval_bw tab' n)) = mset (endpoints (interval_bw tab n)))"

definition same_bandwidth :: "xhci_bw \<Rightarrow> xhci_bw \<Rightarrow> bool" where
  "same_bandwidth b b' \<longleftrightarrow> bw_infos b' = bw_infos b \<and> map num_active_tts (rh_bw b') = map num_active_tts (rh_bw b)
     \<and> (\<forall>t. map_option active_eps (tts b' t) = map_option active_eps (tts b t)) \<and> (\<forall>d. rel_option same_table (get_table d b) (get_table d b'))"

lemma same_table_refl: "same_table tab tab"
  by (simp add: same_table_def)

lemma moves_same:
  assumes inv: "domain_inv sp dm tt b" and m: "moves sp dm tt b b' (linked_eps dm b)" and i: "bw_infos b' = bw_infos b"
  shows "same_bandwidth b b'"
proof -
  obtain tab where tab: "get_table dm b = Some tab" "table_inv sp (bw_infos b) tab" using inv by (auto simp: domain_inv_def)
  obtain tab' where tab': "get_table dm b' = Some tab'" "table_inv sp (bw_infos b) tab'" "\<forall>t. tt = Some t \<longrightarrow> tts b' t \<noteq> None"
    using m i by (auto simp: moves_def domain_inv_def)
  have f: "bw_frame dm tt b b'" and l: "linked_eps dm b' = linked_eps dm b" and bal: "balance dm tt b' = balance dm tt b" using m by (auto simp: moves_def)
  have ll: "linked e tab' = linked e tab" for e using l linked_table [OF tab(1)] linked_table [OF tab'(1)] by auto
  note u = table_unique [OF tab'(2) tab(2) ll]
  have "mset (endpoints (interval_bw tab' 0)) = mset (endpoints (interval_bw tab 0))" using u(1) [of 0] by (simp add: XHCI_MAX_INTERVAL_def)
  then have "interval0_esit_payload tab' = interval0_esit_payload tab"
    using tab(2) tab'(2) sum_list_mset_map by (simp add: table_inv_def)
  moreover have "other_fields tab' = other_fields tab" using f tab(1) tab'(1) by (simp add: bw_frame_def)
  ultimately have "same_table tab tab'" using u by (simp add: same_table_def)
  then have "rel_option same_table (get_table d b) (get_table d b')" for d
    using f tab(1) tab'(1) by (cases "d = dm") (auto simp: bw_frame_def option.rel_refl same_table_refl)
  moreover have "map_option active_eps (tts b' t) = map_option active_eps (tts b t)" for t
  proof (cases "tt = Some t")
    case True
    then obtain x y where "tts b t = Some x" "tts b' t = Some y" using inv tab'(3) by (auto simp: domain_inv_def)
    then show ?thesis using bal l True by (simp add: balance_def)
  next
    case False
    then show ?thesis using f by (simp add: bw_frame_def)
  qed
  ultimately show ?thesis using f i by (simp add: same_bandwidth_def bw_frame_def)
qed

text \<open>Setting the bandwidth in use and the active translators keeps the accounts of the endpoints.\<close>

lemma get_table_update_rh:
  assumes "p < length (rh_bw b)"
  shows "get_table d (b\<lparr>rh_bw := (rh_bw b)[p := rh]\<rparr>) = (if d = Root_Port p then Some (rh_bw_table rh) else get_table d b)"
  using assms by (cases d) (auto simp: nth_list_update)

lemma tt_update_ok:
  assumes "rh_index port b \<noteq> None" and "\<forall>t. tt = Some t \<longrightarrow> tts b t \<noteq> None" and dm: "\<forall>t. tt = Some t \<longrightarrow> dm = TT t"
  shows "\<exists>b'. ehub_xhci_update_tt_active_eps tt port old b = Some b' \<and> get_table dm b' = get_table dm b \<and> bw_infos b' = bw_infos b \<and> tts b' = tts b"
proof (cases tt)
  case None
  then show ?thesis by (simp add: ehub_xhci_update_tt_active_eps_def)
next
  case (Some t)
  obtain p where p: "rh_index port b = Some p" using assms(1) by auto
  then have "p < length (rh_bw b)" by (auto simp: rh_index_def split: if_splits)
  then show ?thesis
    using Some p assms(2) dm get_table_update_rh by (auto simp: ehub_xhci_update_tt_active_eps_def Let_def)
qed
text \<open>The reservation is the configuration of the links, the check, and the way back.\<close>

lemma reserve_eq:
  assumes "config_ready sp dm slot vd ctrl b" and "configure_links dm slot vd ctrl b = Some b3"
    and old: "(case tt_info_of vd of None \<Rightarrow> Some 0 | Some t \<Rightarrow> map_option active_eps (tts b t)) = Some old"
  shows "xhci_reserve_bandwidth slot vd ctrl b = do {
       (ret, b4) \<leftarrow> xhci_check_bw_table dm (ud_speed (udev vd)) (tt_info_of vd) (real_port vd) old b3;
       if ret = 0
       then map_option (\<lambda>b5. (0, b5)) (ehub_xhci_update_tt_active_eps (tt_info_of vd) (real_port vd) old b4)
       else map_option (\<lambda>b5. (- ENOMEM, b5)) (for_eps (touched ctrl)
              (revert_ep dm (ud_speed (udev vd)) (tt_info_of vd) slot ctrl (bw_infos b)) [0..<31] b4)
     }"
  using assms by (auto simp: xhci_reserve_bandwidth_def configure_links_def config_ready_def Let_def elim!: bind_eq_SomeE)

lemma revert_ok:
  assumes r: "config_ready sp dm slot vd ctrl b" and m: "moves sp dm (tt_info_of vd) b b3 (new_links dm slot ctrl b (bw_infos b3))"
    and f: "\<forall>e. e \<notin> eps_of slot [0..<31] (touched ctrl) \<longrightarrow> bw_infos b3 e = bw_infos b e"
  shows "\<exists>b'. for_eps (touched ctrl) (revert_ep dm (ud_speed (udev vd)) (tt_info_of vd) slot ctrl (bw_infos b)) [0..<31] b3 = Some b'
     \<and> same_bandwidth b b' \<and> domain_inv sp dm (tt_info_of vd) b'"
proof -
  let ?s = "ud_speed (udev vd)" and ?tt = "tt_info_of vd"
  have inv: "domain_inv sp dm ?tt b" and s: "slow_device sp slot ?s"
    and lk: "\<And>i. i < 31 \<Longrightarrow> \<not> async_ep (bw_infos b (slot, i)) \<Longrightarrow> (slot, i) \<in> linked_eps dm b"
    and ad: "\<And>i. i < 31 \<Longrightarrow> EP_IS_ADDED ctrl i \<Longrightarrow> \<not> EP_IS_DROPPED ctrl i \<Longrightarrow> (slot, i) \<notin> linked_eps dm b"
    using r by (auto simp: config_ready_def)
  have i3: "domain_inv sp dm ?tt b3" and L3: "linked_eps dm b3 = new_links dm slot ctrl b (bw_infos b3)" using m by (auto simp: moves_def)
  have no: "(slot, i) \<notin> linked_eps dm b3" if "i \<in> set [0..<31]" "EP_IS_DROPPED ctrl i" "\<not> EP_IS_ADDED ctrl i" for i
    using that unfolding L3 new_links_def by auto
  have fit: "normalized_interval ?s (bw_infos b (slot, i)) \<noteq> None" if "i < 31" "\<not> async_ep (bw_infos b (slot, i))" for i
    using lk [OF that] linked_normal(1) [OF inv, of "(slot, i)"] s by (auto simp: slow_device_def)
  have dfit: "normalized_interval ?s (bw_infos b (slot, i)) \<noteq> None"
    if "i \<in> set [0..<31]" "EP_IS_DROPPED ctrl i" "\<not> async_ep (bw_infos b (slot, i))" for i using fit that by simp
  obtain b' where b': "for_eps (touched ctrl) (revert_ep dm ?s ?tt slot ctrl (bw_infos b)) [0..<31] b3 = Some b'"
    "bw_infos b' = (\<lambda>e. if e \<in> eps_of slot [0..<31] (touched ctrl) then bw_infos b e else bw_infos b3 e)"
    "moves sp dm ?tt b3 b' (linked_eps dm b3 - eps_of slot [0..<31] (touched ctrl)
       \<union> eps_of slot [0..<31] (\<lambda>i. EP_IS_DROPPED ctrl i \<and> \<not> async_ep (bw_infos b (slot, i))))"
    using revert_loop [where saved = "bw_infos b", OF i3 s distinct_upt no dfit] by blast
  have info: "bw_infos b' = bw_infos b" unfolding b'(2) using f by (intro ext) (metis (mono_tags, lifting))
  have "linked_eps dm b3 - eps_of slot [0..<31] (touched ctrl) \<union> eps_of slot [0..<31] (\<lambda>i. EP_IS_DROPPED ctrl i \<and> \<not> async_ep (bw_infos b (slot, i)))
      = linked_eps dm b" (is "?L = _")
  proof (rule set_eqI)
    fix e
    show "e \<in> ?L \<longleftrightarrow> e \<in> linked_eps dm b"
      using lk ad linked_normal(2) [OF inv, of e] unfolding L3 new_links_def by auto
  qed
  then have mm: "moves sp dm ?tt b b' (linked_eps dm b)" using moves_trans [OF m b'(3)] by simp
  then have "domain_inv sp dm ?tt b'" by (simp add: moves_def)
  then show ?thesis using b'(1) moves_same [OF inv mm info] by blast
qed
text \<open>C7. Reserving bandwidth for a new configuration of a low, full or high speed device, from a state
  where the counters of its table are those of the endpoints linked into it: the call returns;
  on success the dropped endpoints have left the table, the added periodic ones are in it, the
  bandwidth in use is within the limit of the bus and the counters are again those of the
  linked endpoints; when it is refused, all accounts of all domains are what they were before.\<close>

theorem reserve_bandwidth_correct:
  assumes "config_ready sp dm slot vd ctrl b"
  shows "\<exists>ret b'. xhci_reserve_bandwidth slot vd ctrl b = Some (ret, b') \<and> domain_inv sp dm (tt_info_of vd) b'
     \<and> (ret = 0 \<and> linked_eps dm b' = new_links dm slot ctrl b (bw_infos b')
          \<and> (\<exists>tab. get_table dm b' = Some tab \<and> bw_used tab \<le> max_bandwidth_of (ud_speed (udev vd)))
        \<or> ret = - ENOMEM \<and> same_bandwidth b b')"
proof -
  let ?s = "ud_speed (udev vd)" and ?tt = "tt_info_of vd"
  have inv: "domain_inv sp dm ?tt b" and s: "slow_device sp slot ?s" and port: "rh_index (real_port vd) b \<noteq> None"
    and dm: "\<forall>t. ?tt = Some t \<longrightarrow> dm = TT t" using assms by (auto simp: config_ready_def)
  obtain b3 where b3: "configure_links dm slot vd ctrl b = Some b3" "moves sp dm ?tt b b3 (new_links dm slot ctrl b (bw_infos b3))"
    "\<forall>e. e \<notin> eps_of slot [0..<31] (touched ctrl) \<longrightarrow> bw_infos b3 e = bw_infos b e" using configure_links_ok [OF assms] by blast
  have i3: "domain_inv sp dm ?tt b3" and L3: "linked_eps dm b3 = new_links dm slot ctrl b (bw_infos b3)" using b3(2) by (auto simp: moves_def)
  obtain tab where tab: "get_table dm b3 = Some tab" "table_inv sp (bw_infos b3) tab" and t3: "\<forall>t. ?tt = Some t \<longrightarrow> tts b3 t \<noteq> None"
    using i3 by (auto simp: domain_inv_def)
  obtain old where "(case ?tt of None \<Rightarrow> Some 0 | Some t \<Rightarrow> map_option active_eps (tts b t)) = Some old"
    using inv by (cases "tt_info_of vd") (auto simp: domain_inv_def)
  note eq = reserve_eq [OF assms b3(1) this]
  have port3: "rh_index (real_port vd) b3 \<noteq> None" using port b3(2) frame_rh_index by (auto simp: moves_def)
  show ?thesis
  proof (cases rule: check_ok [OF tab(1) _ port3 t3, of ?s old])
    case 1
    then show ?case using s by (simp add: slow_device_def)
  next
    case (2 u)
    let ?b4 = "put_table dm (tab\<lparr>bw_used := u\<rparr>) b3"
    have "rh_index (real_port vd) ?b4 \<noteq> None" using port3 by (cases dm) (auto simp: rh_index_def)
    moreover have t4: "\<forall>t. ?tt = Some t \<longrightarrow> tts ?b4 t \<noteq> None" using t3 put_table_dom [of dm "tab\<lparr>bw_used := u\<rparr>" b3] by (auto simp: dom_def)
    ultimately obtain b5 where b5: "ehub_xhci_update_tt_active_eps ?tt (real_port vd) old ?b4 = Some b5" "get_table dm b5 = Some (tab\<lparr>bw_used := u\<rparr>)"
      "bw_infos b5 = bw_infos b3" "tts b5 = tts ?b4" using tt_update_ok [of "real_port vd" ?b4 ?tt dm old] dm tab(1) by auto
    have "table_inv sp (bw_infos b5) (tab\<lparr>bw_used := u\<rparr>)" using tab(2) b5(3) by (simp add: table_inv_def)
    then have "domain_inv sp dm ?tt b5" using b5 t4 by (simp add: domain_inv_def)
    moreover have "linked_eps dm b5 = linked_eps dm b3" using linked_table [OF b5(2)] linked_table [OF tab(1)] by (simp add: linked_def)
    ultimately show ?thesis using eq 2 b5 L3 by (intro exI [of _ 0] exI [of _ b5]) simp
  next
    case 3
    then show ?thesis using eq revert_ok [OF assms b3(2,3)] by auto
  qed
qed

definition idle_bw :: xhci_bw where
  "idle_bw = \<lparr>rh_bw = [\<lparr>rh_tts = [], num_active_tts = 0, rh_bw_table = empty_table\<rparr>], tts = Map.empty, next_tt = 0, bw_infos = (\<lambda>_. ehub_xhci_clear_endpoint_bw_info)\<rparr>"

text \<open>A high speed device that gets an interrupt endpoint of interval 3 and packet size 64.\<close>

definition int_ctx :: xhci_container_ctx where
  "int_ctx = \<lparr>ctx_input = True, ctx_dma = 0, drop_flags = 0, add_flags = 9, slot_ctx = \<lparr>dev_info = 0, dev_info2 = 0, tt_info = 0, dev_state = 0\<rparr>,
     ep_ctxs = replicate 31 \<lparr>ep_info = 0x30000, ep_info2 = 0x400038, deq = 0, tx_info = 0\<rparr>\<rparr>"

definition hs_device :: xhci_virt_device where
  "hs_device = \<lparr>udev = \<lparr>ud_id = 5, ud_root_hub = False, ud_slot_id = 1, ud_speed = USB_SPEED_HIGH\<rparr>, eps = [], in_ctx = int_ctx, out_ctx = int_ctx,
     fake_port = 0, real_port = 1, bw_table_of = Some (Root_Port 0), tt_info_of = None, current_mel = 0\<rparr>"

theorem reserve_bandwidth_correct_witness:
  "\<exists>ret b'. xhci_reserve_bandwidth 1 hs_device int_ctx idle_bw = Some (ret, b') \<and> domain_inv (\<lambda>_. USB_SPEED_HIGH) (Root_Port 0) None b'
     \<and> (ret = 0 \<and> linked_eps (Root_Port 0) b' = new_links (Root_Port 0) 1 int_ctx idle_bw (bw_infos b')
          \<and> (\<exists>tab. get_table (Root_Port 0) b' = Some tab \<and> bw_used tab \<le> HS_BW_LIMIT)
        \<or> ret = - ENOMEM \<and> same_bandwidth idle_bw b')"
proof -
  have no: "linked_eps (Root_Port 0) idle_bw = {}" by (simp add: linked_eps_def linked_def idle_bw_def empty_table_def)
  have "domain_inv (\<lambda>_. USB_SPEED_HIGH) (Root_Port 0) None idle_bw"
    by (simp add: domain_inv_def table_inv_def interval_ok_def idle_bw_def empty_table_def)
  then have "config_ready (\<lambda>_. USB_SPEED_HIGH) (Root_Port 0) 1 hs_device int_ctx idle_bw"
    using no by (auto simp: config_ready_def hs_device_def slow_device_def overhead_type_def rh_index_def idle_bw_def int_ctx_def
        ehub_xhci_clear_endpoint_bw_info_def xhci_is_async_ep_def ISOC_OUT_EP_def INT_OUT_EP_def ISOC_IN_EP_def INT_IN_EP_def
        bw_info_of_ctx_def normalized_interval_def CTX_TO_EP_INTERVAL_def XHCI_MAX_INTERVAL_def)
  from reserve_bandwidth_correct [OF this] show ?thesis by (simp add: hs_device_def max_bandwidth_of_def)
qed

end
