(* ===== verification/Xhci_Isoc.thy ===== *)
theory Xhci_Isoc
  imports Xhci_Cancel
begin

text \<open>
  Isochronous transfers (\<open>xhci-ring.c\<close>): a URB is a list of frames, each frame is one TD. The
  TRBs of a frame end at the boundaries of blocks of \<open>max_buffer_size\<close> bytes, so that the data
  of a TRB never leaves a block of the cache memory.
\<close>

section \<open>Constants\<close>

definition TRB_TBC :: "u32 \<Rightarrow> u32" where "TRB_TBC p = push_bit 7 (p AND 3)"
definition TRB_TLBPC :: "u32 \<Rightarrow> u32" where "TRB_TLBPC p = push_bit 16 (p AND 0xf)"
definition TRB_BEI :: u32 where "TRB_BEI = 0x200"
definition TRB_SIA :: u32 where "TRB_SIA = push_bit 31 1"
definition TRB_ISOC :: u32 where "TRB_ISOC = 5"
definition XHCI_AVOID_BEI :: u32 where "XHCI_AVOID_BEI = 0x8000"

section \<open>Sizes of a frame\<close>

text \<open>The number of TRBs of a frame with offset and length \<open>fr\<close>; a block size of 0 is a division
  by zero.\<close>

definition count_isoc_trbs_needed :: "xfer_urb \<Rightarrow> u32 \<times> u32 \<Rightarrow> u32 \<Rightarrow> int option" where
  "count_isoc_trbs_needed urb fr max_buffer =
     (if max_buffer = 0 then None
      else let addr = xu_transfer_dma urb + ucast (fst fr);
               td_len = ucast (snd fr) :: u64;
               num_trbs = sint (ucast ((td_len + (addr AND ucast (max_buffer - 1)) + ucast max_buffer - 1) div ucast max_buffer) :: u32) in
           Some (if num_trbs = 0 then 1 else num_trbs))"

text \<open>\<open>DIV_ROUND_UP\<close> of the signed length by the packet size; a frame without data is one packet.\<close>

definition isoc_packets :: "xfer_urb \<Rightarrow> u32 \<Rightarrow> u32 option" where
  "isoc_packets urb td_len =
     (let maxp = GET_MAX_PACKET (xu_maxp urb) in
      if maxp = 0 then None
      else let n = of_int (sint (td_len + maxp - 1) sdiv sint maxp) in Some (if n = 0 then 1 else n))"

definition xhci_get_burst_count :: "hcd_params \<Rightarrow> xfer_urb \<Rightarrow> u32 \<Rightarrow> u32" where
  "xhci_get_burst_count P urb total_packet_count =
     (if hci_version P < 0x100 \<or> xu_speed urb \<noteq> USB_SPEED_SUPER then 0
      else div_round_up total_packet_count (xu_bMaxBurst urb + 1) - 1)"

definition xhci_get_last_burst_packet_count :: "hcd_params \<Rightarrow> xfer_urb \<Rightarrow> u32 \<Rightarrow> u32" where
  "xhci_get_last_burst_packet_count P urb total_packet_count =
     (if hci_version P < 0x100 then 0
      else if xu_speed urb = USB_SPEED_SUPER
      then let residue = total_packet_count mod (xu_bMaxBurst urb + 1) in
           if residue = 0 then xu_bMaxBurst urb else residue - 1
      else if total_packet_count = 0 then 0 else total_packet_count - 1)"

section \<open>The TRBs of a frame\<close>

text \<open>The control field of a TRB: \<open>first\<close> and \<open>final\<close> tell its place in the TD, \<open>first_td\<close> and
  \<open>last_td\<close> the place of the TD in the URB.\<close>

definition isoc_field ::
  "hcd_params \<Rightarrow> xfer_urb \<Rightarrow> u32 \<Rightarrow> u32 \<Rightarrow> u32 \<Rightarrow> u32 \<Rightarrow> bool \<Rightarrow> bool \<Rightarrow> bool \<Rightarrow> bool \<Rightarrow> u32" where
  "isoc_field P urb start_cycle cycle burst_count residue first_td last_td first final =
     (if first then TRB_TBC burst_count OR TRB_TLBPC residue OR TRB_TYPE TRB_ISOC OR TRB_SIA
                    OR (if first_td then (if start_cycle = 0 then 1 else 0) else cycle)
      else TRB_TYPE TRB_NORMAL OR cycle)
     OR (if xu_dir_in urb then TRB_ISP else 0)
     OR (if \<not> final then TRB_CHAIN
         else TRB_IOC OR (if hci_version P = 0x100 \<and> hp_quirks P AND XHCI_AVOID_BEI = 0 \<and> \<not> last_td then TRB_BEI else 0))"

text \<open>The bytes from an address to the end of its block.\<close>

definition to_block_end :: "u32 \<Rightarrow> u64 \<Rightarrow> u32" where
  "to_block_end max_buffer addr = ucast (ucast max_buffer - (addr AND ucast (max_buffer - 1)) :: u64)"

text \<open>The loop over the TRBs of a TD, \<open>n\<close> of them left. It returns the position of the last TRB of
  the TD, if it was reached, and the bytes the TRBs cover.\<close>

fun isoc_trbs ::
  "hcd_params \<Rightarrow> xfer_urb \<Rightarrow> u32 \<Rightarrow> (bool \<Rightarrow> bool \<Rightarrow> u32 \<Rightarrow> u32) \<Rightarrow> u32 \<Rightarrow> u32 \<Rightarrow> ehub \<Rightarrow> bool \<Rightarrow> nat \<Rightarrow> u64 \<Rightarrow> u32 \<Rightarrow> u32
     \<Rightarrow> xhci_ring \<Rightarrow> ((seg_id \<times> nat) option \<times> u32 \<times> xhci_ring) option" where
  "isoc_trbs P urb max_buffer field total_packet_count td_len s first 0 addr running_total td_remain_len r =
     Some (None, running_total, r)"
| "isoc_trbs P urb max_buffer field total_packet_count td_len s first (Suc n) addr running_total td_remain_len r = do {
     let block = to_block_end max_buffer addr;
     let trb_buff_len = (if sint td_remain_len < sint block then td_remain_len else block);
     remainder \<leftarrow> td_size P td_len running_total trb_buff_len total_packet_count (xu_maxp urb) (of_nat n);
     addrData \<leftarrow> ehub_xhci_get_data_buffer_addr (xu_priv urb) (xu_transfer_buffer urb) addr s;
     r1 \<leftarrow> queue_trb (hp_quirks P) (n \<noteq> 0) (lower_32_bits addrData) (upper_32_bits addrData)
       (TRB_LEN trb_buff_len OR remainder OR TRB_INTR_TARGET 0) (field first (n = 0) (cycle_state r)) r;
     (p, total, r2) \<leftarrow> isoc_trbs P urb max_buffer field total_packet_count td_len s False n (addr + scast trb_buff_len)
        (running_total + trb_buff_len) (td_remain_len - trb_buff_len) r1;
     Some (if n = 0 then Some (enq_seg r, enqueue r) else p, total, r2)
   }"

section \<open>The TDs of a URB\<close>

definition set_td_end :: "seg_id \<times> nat \<Rightarrow> xhci_ring \<Rightarrow> xhci_ring" where
  "set_td_end p r = r\<lparr>td_list := butlast (td_list r) @ map (\<lambda>td. td\<lparr>td_last_trb := snd p, end_seg := fst p\<rparr>)
     (drop (length (td_list r) - 1) (td_list r))\<rparr>"

text \<open>The way back after a failure at frame \<open>i\<close>: the TDs before it leave the list, the TRBs become
  no-ops with the cycle bit of the driver, and the ring is enqueued again from the first TRB. \<open>n\<close> is
  the number of TDs that were on the list before the URB, \<open>start\<close> the first TRB of the URB. TD \<open>i\<close>
  itself, when it is on the list already, stays there.\<close>

definition isoc_undo :: "nat \<Rightarrow> nat \<Rightarrow> seg_id \<times> nat \<Rightarrow> u32 \<Rightarrow> ring_ref \<Rightarrow> xhci_virt_ep \<Rightarrow> xhci_virt_ep option" where
  "isoc_undo i n start start_cycle ref ep = do {
     q \<leftarrow> get_ring ref ep;
     let rest = drop (n + i) (td_list q);
     e \<leftarrow> ep_ring ep;
     let rest1 = (if i = 0 then map (\<lambda>td. td\<lparr>td_last_trb := enqueue e\<rparr>) rest else rest);
     let ep1 = put_ring ref (q\<lparr>td_list := take n (td_list q) @ rest1\<rparr>) ep;
     r \<leftarrow> ep_ring ep1;
     r1 \<leftarrow> td_to_noop \<lparr>td_urb = 0, start_seg = fst start, end_seg = enq_seg r, first_trb = snd start,
        td_last_trb = enqueue r, urb_length_set = False\<rparr> True r;
     Some (ep1\<lparr>ep_ring := Some (r1\<lparr>enqueue := snd start, enq_seg := fst start, cycle_state := start_cycle,
        num_trbs_free := num_trbs_free_temp r1\<rparr>)\<rparr>)
   }"

fun isoc_tds ::
  "env \<Rightarrow> hcd_params \<Rightarrow> u32 \<Rightarrow> xfer_urb \<Rightarrow> u32 \<Rightarrow> nat \<Rightarrow> nat \<Rightarrow> (u32 \<times> u32) list \<Rightarrow> (seg_id \<times> nat) option \<Rightarrow> xhci_virt_ep \<Rightarrow> ehub
     \<Rightarrow> (int \<times> xhci_virt_ep) outcome" where
  "isoc_tds k P info urb start_cycle n0 i [] start ep s = Some ((0, ep), s)"
| "isoc_tds k P info urb start_cycle n0 i (fr # frs) start ep s = do {
     let td_len = snd fr;
     let addr = xu_transfer_buffer urb + ucast (fst fr);
     total_packet_count \<leftarrow> isoc_packets urb td_len;
     trbs_per_td \<leftarrow> count_isoc_trbs_needed urb fr (max_buffer_size ep);
     ((ret, ep1), s1) \<leftarrow> prepare_transfer k P info (xu_stream_id urb) (of_int trbs_per_td) urb i ep s;
     p \<leftarrow> ehub_xhci_stream_id_to_ring ep1 (xu_stream_id urb);
     (case p of
        None \<Rightarrow> Some ((ret, ep1), s1)
      | Some ref \<Rightarrow>
          if ret < 0
          then (case start of
             None \<Rightarrow> Some ((ret, ep1), s1)
           | Some st \<Rightarrow> map_option (\<lambda>ep2. ((ret, ep2), s1)) (isoc_undo i n0 st start_cycle ref ep1))
          else do {
            q \<leftarrow> get_ring ref ep1;
            td \<leftarrow> (case rev (td_list q) of [] \<Rightarrow> None | td # _ \<Rightarrow> Some td);
            let st = (case start of None \<Rightarrow> (start_seg td, first_trb td) | Some st \<Rightarrow> st);
            r \<leftarrow> ep_ring ep1;
            (last_pos, running_total, r1) \<leftarrow> isoc_trbs P urb (max_buffer_size ep1)
               (\<lambda>first final cyc. isoc_field P urb start_cycle cyc (xhci_get_burst_count P urb total_packet_count)
                  (xhci_get_last_burst_packet_count P urb total_packet_count) (i = 0) (frs = []) first final)
               total_packet_count td_len s1 True (nat trbs_per_td) addr 0 td_len r;
            let ep2 = ep1\<lparr>ep_ring := Some r1\<rparr>;
            ep3 \<leftarrow> (case last_pos of
               None \<Rightarrow> Some ep2
             | Some pos \<Rightarrow> map_option (\<lambda>q. put_ring ref (set_td_end pos q) ep2) (get_ring ref ep2));
            if running_total \<noteq> td_len
            then map_option (\<lambda>ep4. ((- EINVAL, ep4), s1)) (isoc_undo i n0 st start_cycle ref ep3)
            else isoc_tds k P info urb start_cycle n0 (Suc i) frs (Some st) ep3 s1
          })
   }"
text \<open>The position of the first TRB is taken before the loop; the URB is counted by the caller of this
  function, in \<open>bandwidth_isoc_reqs\<close>, when the result is 0.\<close>

definition xhci_queue_isoc_tx ::
  "env \<Rightarrow> hcd_params \<Rightarrow> u32 \<Rightarrow> xfer_urb \<Rightarrow> u32 \<Rightarrow> u32 \<Rightarrow> xhci_virt_ep \<Rightarrow> ehub \<Rightarrow> (int \<times> xhci_virt_ep) outcome" where
  "xhci_queue_isoc_tx k P info urb slot_id ep_index ep s =
     (if xu_iso_frame_desc urb = [] then Some ((- EINVAL, ep), s)
      else do {
        r \<leftarrow> ep_ring ep;
        p \<leftarrow> ehub_xhci_stream_id_to_ring ep (xu_stream_id urb);
        let n0 = (case p of None \<Rightarrow> 0 | Some ref \<Rightarrow> (case get_ring ref ep of None \<Rightarrow> 0 | Some q \<Rightarrow> length (td_list q)));
        ((ret, ep1), s1) \<leftarrow> isoc_tds k P info urb (cycle_state r) n0 0 (xu_iso_frame_desc urb) None ep s;
        if ret \<noteq> 0 then Some ((ret, ep1), s1)
        else do {
          r1 \<leftarrow> ep_ring ep1;
          finish_tx k slot_id ep_index (xu_stream_id urb) (cycle_state r) (enq_seg r, enqueue r) Ep_Ring r1 ep1 s1
        }
      })"

text \<open>The TRBs of the whole URB.\<close>

fun count_isoc_urb :: "xfer_urb \<Rightarrow> u32 \<Rightarrow> (u32 \<times> u32) list \<Rightarrow> int option" where
  "count_isoc_urb urb max_buffer [] = Some 0"
| "count_isoc_urb urb max_buffer (fr # frs) = do {
     n \<leftarrow> count_isoc_trbs_needed urb fr max_buffer;
     m \<leftarrow> count_isoc_urb urb max_buffer frs;
     Some (n + m)
   }"

definition iso_start_frame :: "usb_speed \<Rightarrow> u32 \<Rightarrow> u32" where
  "iso_start_frame speed uframe = (let f = uframe AND 0x3fff in if slow_speed speed then drop_bit 3 f else f)"

text \<open>\<open>uframe\<close> is the answer of \<open>ehub_xhci_get_microframe\<close>, a clock; \<open>data\<close> are the bytes of the
  transfer buffer, which are written to the cache memory of the device for an endpoint with
  \<open>cache_data\<close>.\<close>

definition ehub_xhci_queue_isoc_tx_prepare ::
  "env \<Rightarrow> hcd_params \<Rightarrow> u32 \<Rightarrow> u32 \<Rightarrow> u8 list \<Rightarrow> xfer_urb \<Rightarrow> u32 \<Rightarrow> u32 \<Rightarrow> xhci_virt_ep \<Rightarrow> ehub
     \<Rightarrow> ((int \<times> xhci_virt_ep) \<times> xfer_urb) outcome" where
  "ehub_xhci_queue_isoc_tx_prepare k P uframe info data urb slot_id ep_index ep s = do {
     num_trbs \<leftarrow> count_isoc_urb urb (max_buffer_size ep) (xu_iso_frame_desc urb);
     r \<leftarrow> ep_ring ep;
     ((ret, r1), s1) \<leftarrow> prepare_ring k (hp_quirks P) (map_status P) False (info AND EP_STATE_MASK) (of_int num_trbs) r s;
     let ep1 = ep\<lparr>ep_ring := Some r1\<rparr>;
     if ret \<noteq> 0 then Some (((ret, ep1), urb), s1)
     else do {
       ((st, priv), s2) \<leftarrow> (if cache_data ep1
          then ehub_xhci_cache_block_allocate_urb k \<lparr>client_id = xu_id urb, transfer_buffer = data\<rparr> (xu_priv urb) s1
          else Some ((0, xu_priv urb), s1));
       let urb1 = urb\<lparr>xu_priv := priv\<rparr>;
       if st \<noteq> 0 then Some (((st, ep1), urb1), s2)
       else do {
         let urb2 = set_interval info (urb1\<lparr>xu_start_frame := iso_start_frame (xu_speed urb) uframe\<rparr>);
         let ep2 = ep1\<lparr>ep_ring := Some (r1\<lparr>num_trbs_free_temp := num_trbs_free r1\<rparr>)\<rparr>;
         (res, s3) \<leftarrow> xhci_queue_isoc_tx k P info urb2 slot_id ep_index ep2 s2;
         Some ((res, urb2), s3)
       }
     }
   }"

end
