(* ===== verification/Xhci_Config.thy ===== *)
theory Xhci_Config
  imports Xhci_Event Xhci_Isoc Ehub_Message_Loop
begin

text \<open>
  Configuration of endpoints (\<open>xhci.c\<close>, \<open>xhci-mem.c\<close>): adding and dropping endpoints in the
  input context of a device, the Configure Endpoint and Evaluate Context commands, and the way
  from the new rings into use or back; and the submission of a URB, which may have to change the
  control endpoint first.

  A command is waited for. What the rest of the driver does until the command completes is the
  argument \<open>wait\<close>, a function of the command and the state.
\<close>

section \<open>Constants\<close>

definition COMP_ENOMEM :: u32 where "COMP_ENOMEM = 7"
definition COMP_BW_ERR :: u32 where "COMP_BW_ERR = 8"
definition COMP_EBADSLT :: u32 where "COMP_EBADSLT = 11"
definition COMP_EINVAL :: u32 where "COMP_EINVAL = 17"
definition COMP_CTX_STATE :: u32 where "COMP_CTX_STATE = 19"
definition COMP_MEL_ERR :: u32 where "COMP_MEL_ERR = 29"
definition COMP_2ND_BW_ERR :: u32 where "COMP_2ND_BW_ERR = 35"
definition XHCI_SW_BW_CHECKING :: u32 where "XHCI_SW_BW_CHECKING = 0x100"
definition EP_GETTING_STREAMS :: u32 where "EP_GETTING_STREAMS = 8"
definition LAST_CTX_MASK :: u32 where "LAST_CTX_MASK = push_bit 27 0x1f"
definition LAST_CTX :: "u32 \<Rightarrow> u32" where "LAST_CTX p = push_bit 27 p"
definition MAX_PACKET_MASK :: u32 where "MAX_PACKET_MASK = push_bit 16 0xffff"
definition EHUB_CACHE_MAX_DATA_BLOCKS :: nat where "EHUB_CACHE_MAX_DATA_BLOCKS = 6"
definition ETIME :: int where "ETIME = 62"
definition ENOSPC :: int where "ENOSPC = 28"

section \<open>Checks\<close>

text \<open>1 for a device the driver may work on, 0 for a root hub. A \<open>NULL\<close> device is \<^const>\<open>None\<close>,
  a \<open>NULL\<close> endpoint where one is needed is \<open>no_ep\<close>.\<close>

definition xhci_check_args :: "usb_device option \<Rightarrow> bool \<Rightarrow> bool \<Rightarrow> hc \<Rightarrow> int" where
  "xhci_check_args ud no_ep check_virt_dev c = (case ud of
     None \<Rightarrow> - EINVAL
   | Some d \<Rightarrow>
       if no_ep then - EINVAL
       else if ud_root_hub d then 0
       else if check_virt_dev \<and> (ud_slot_id d = 0
            \<or> (case devs c (ud_slot_id d) of None \<Rightarrow> True | Some vd \<Rightarrow> ud_id (udev vd) \<noteq> ud_id d)) then - EINVAL
       else if xhc_state (hcd c) AND XHCI_STATE_HALTED \<noteq> 0 then - ENODEV
       else 1)"

definition put_dev :: "u32 \<Rightarrow> xhci_virt_device \<Rightarrow> hc \<Rightarrow> hc" where
  "put_dev slot_id vd c = c\<lparr>devs := (devs c)(slot_id \<mapsto> vd)\<rparr>"

section \<open>Adding and dropping\<close>

definition ehub_xhci_endpoint_zero :: "u32 \<Rightarrow> usb_host_endpoint \<Rightarrow> hc \<Rightarrow> hc option" where
  "ehub_xhci_endpoint_zero slot_id desc c = do {
     vd \<leftarrow> devs c slot_id;
     let ep_index = ehub_xhci_get_endpoint_index desc;
     _ \<leftarrow> ehub_xhci_get_ep_ctx (in_ctx vd) ep_index;
     let c1 = (if usb_endpoint_xfer_isoc desc then c\<lparr>hcd := (hcd c)\<lparr>num_active_isoc_eps := num_active_isoc_eps (hcd c) - 1\<rparr>\<rparr> else c);
     Some (put_dev slot_id (vd\<lparr>in_ctx := put_ep_ctx ep_index zero_ep_ctx (in_ctx vd)\<rparr>) c1)
   }"

definition ehub_xhci_drop_endpoint :: "usb_device option \<Rightarrow> bool \<Rightarrow> usb_host_endpoint \<Rightarrow> hc \<Rightarrow> (int \<times> hc) option" where
  "ehub_xhci_drop_endpoint ud going_gone desc c =
     (let ret = xhci_check_args ud False True c in
      if ret \<le> 0 then Some (ret, c)
      else if xhc_state (hcd c) AND XHCI_STATE_DYING \<noteq> 0 then Some (- ENODEV, c)
      else if going_gone then Some (0, c)
      else do {
        d \<leftarrow> ud;
        vd \<leftarrow> devs c (ud_slot_id d);
        let drop_flag = ehub_xhci_get_endpoint_flag desc;
        if drop_flag = SLOT_FLAG \<or> drop_flag = EP0_FLAG \<or> \<not> ctx_input (in_ctx vd) then Some (0, c)
        else do {
          ctx \<leftarrow> ehub_xhci_get_ep_ctx (out_ctx vd) (ehub_xhci_get_endpoint_index desc);
          if ep_info ctx AND EP_STATE_MASK = EP_STATE_DISABLED \<or> drop_flags (in_ctx vd) AND drop_flag \<noteq> 0 then Some (0, c)
          else do {
            let vd1 = vd\<lparr>in_ctx := (in_ctx vd)\<lparr>drop_flags := drop_flags (in_ctx vd) OR drop_flag,
                  add_flags := add_flags (in_ctx vd) AND NOT drop_flag\<rparr>\<rparr>;
            map_option (\<lambda>c1. (0, c1)) (ehub_xhci_endpoint_zero (ud_slot_id d) desc (put_dev (ud_slot_id d) vd1 c))
          }
        }
      })"

text \<open>Packet size and burst of an endpoint; another speed is \<open>BUG()\<close>.\<close>

definition ep_max_packet :: "usb_speed \<Rightarrow> usb_host_endpoint \<Rightarrow> (u32 \<times> u32) option" where
  "ep_max_packet speed desc =
     (let max_packet = GET_MAX_PACKET (ucast (wMaxPacketSize desc)) in
      case speed of
        USB_SPEED_SUPER \<Rightarrow> Some (max_packet, ucast (ss_bMaxBurst desc))
      | USB_SPEED_HIGH \<Rightarrow> Some (if usb_endpoint_xfer_bulk desc then 512 else max_packet,
          if usb_endpoint_xfer_isoc desc \<or> usb_endpoint_xfer_int desc then drop_bit 11 (ucast (wMaxPacketSize desc) AND 0x1800) else 0)
      | USB_SPEED_FULL \<Rightarrow> Some (max_packet, 0)
      | USB_SPEED_LOW \<Rightarrow> Some (max_packet, 0)
      | USB_SPEED_UNKNOWN \<Rightarrow> None
      | USB_SPEED_WIRELESS \<Rightarrow> None)"

definition ring_type_of :: "usb_host_endpoint \<Rightarrow> xhci_ring_type" where
  "ring_type_of desc =
     (if usb_endpoint_xfer_control desc then TYPE_CTRL else if usb_endpoint_xfer_isoc desc then TYPE_ISOC
      else if usb_endpoint_xfer_bulk desc then TYPE_BULK else TYPE_INTR)"

text \<open>The context of the endpoint, when its ring is there.\<close>

definition new_ep_ctx :: "hcd_params \<Rightarrow> usb_speed \<Rightarrow> usb_host_endpoint \<Rightarrow> u64 \<Rightarrow> xhci_ep_ctx option" where
  "new_ep_ctx P speed desc ring_addr = do {
     interval \<leftarrow> xhci_get_endpoint_interval speed desc;
     (max_packet, max_burst) \<leftarrow> ep_max_packet speed desc;
     let max_esit_payload = xhci_get_max_esit_payload speed desc;
     Some \<lparr>ep_info = interval OR EP_MULT (xhci_get_endpoint_mult speed desc),
       ep_info2 = xhci_get_endpoint_type desc OR (if usb_endpoint_xfer_isoc desc then ERROR_COUNT 0 else ERROR_COUNT 3)
          OR (MAX_PACKET max_packet OR MAX_BURST max_burst),
       deq = ring_addr,
       tx_info = MAX_ESIT_PAYLOAD_FOR_EP max_esit_payload
          OR (if usb_endpoint_xfer_control desc \<and> hci_version P = 0x100 then AVG_TRB_LENGTH_FOR_EP 8
              else AVG_TRB_LENGTH_FOR_EP max_esit_payload)\<rparr>
   }"

text \<open>The endpoint in the array of a device.\<close>

definition map_ep :: "u32 \<Rightarrow> (xhci_virt_ep \<Rightarrow> xhci_virt_ep) \<Rightarrow> xhci_virt_device \<Rightarrow> xhci_virt_device option" where
  "map_ep ep_index f vd = (if unat ep_index < length (eps vd)
     then Some (vd\<lparr>eps := (eps vd)[unat ep_index := f (eps vd ! unat ep_index)]\<rparr>) else None)"

text \<open>The first isochronous endpoint starts the message loop that carries its events; the result of
  the start is not used.\<close>

definition count_isoc_ep :: "env \<Rightarrow> hc \<Rightarrow> hc option" where
  "count_isoc_ep k c = do {
     let n = num_active_isoc_eps (hcd c) + 1;
     let s = (hcd c)\<lparr>num_active_isoc_eps := n\<rparr>;
     if n = 1 then map_option (\<lambda>(_, s1). c\<lparr>hcd := s1\<rparr>) (MESSAGE_StartLoopIsoch k s) else Some (c\<lparr>hcd := s\<rparr>)
   }"

definition ehub_xhci_endpoint_init :: "env \<Rightarrow> hcd_params \<Rightarrow> usb_device \<Rightarrow> usb_host_endpoint \<Rightarrow> u32 \<Rightarrow> hc \<Rightarrow> (int \<times> hc) option" where
  "ehub_xhci_endpoint_init k P d desc slot_id c = do {
     vd \<leftarrow> devs c slot_id;
     let ep_index = ehub_xhci_get_endpoint_index desc;
     ctx \<leftarrow> ehub_xhci_get_ep_ctx (in_ctx vd) ep_index;
     let endpoint_type = xhci_get_endpoint_type desc;
     if endpoint_type = 0 then Some (- EINVAL, c)
     else do {
       let isoc = usb_endpoint_xfer_isoc desc;
       let cached = (isoc \<and> \<not> usb_endpoint_dir_in desc);
       vd1 \<leftarrow> map_ep ep_index (\<lambda>ep. ep\<lparr>max_buffer_size := (if cached then of_nat EHUB_CACHE_BLOCK_SIZE else of_nat TRB_MAX_BUFF_SIZE),
            cache_data := (cached \<or> cache_data ep)\<rparr>) (vd\<lparr>in_ctx := put_ep_ctx ep_index (ctx\<lparr>ep_info2 := endpoint_type\<rparr>) (in_ctx vd)\<rparr>);
       c1 \<leftarrow> (if isoc then count_isoc_ep k c else Some c);
       (p, s) \<leftarrow> xhci_ring_alloc k (hp_quirks P) (if isoc then 4 else 2) 1 (ring_type_of desc) (hcd c1);
       let c2 = c1\<lparr>hcd := s\<rparr>;
       (case p of
          None \<Rightarrow> do {
            vd2 \<leftarrow> map_ep ep_index (\<lambda>ep. ep\<lparr>new_ring := None\<rparr>) vd1;
            Some (- ENOMEM, put_dev slot_id vd2 c2)
          }
        | Some r \<Rightarrow> do {
            sg \<leftarrow> segs r (first_seg r);
            ctx1 \<leftarrow> new_ep_ctx P (ud_speed d) desc (dma sg OR ucast (cycle_state r));
            vd2 \<leftarrow> map_ep ep_index (\<lambda>ep. ep\<lparr>new_ring := Some r, skip := False\<rparr>) vd1;
            Some (0, put_dev slot_id (vd2\<lparr>in_ctx := put_ep_ctx ep_index ctx1 (in_ctx vd2)\<rparr>) c2)
          })
     }
   }"

definition ehub_xhci_add_endpoint :: "env \<Rightarrow> hcd_params \<Rightarrow> usb_device option \<Rightarrow> usb_host_endpoint \<Rightarrow> hc \<Rightarrow> (int \<times> hc) option" where
  "ehub_xhci_add_endpoint k P ud desc c =
     (let ret = xhci_check_args ud False True c in
      if ret \<le> 0 then Some (ret, c)
      else if xhc_state (hcd c) AND XHCI_STATE_DYING \<noteq> 0 then Some (- ENODEV, c)
      else do {
        d \<leftarrow> ud;
        let slot_id = ud_slot_id d;
        vd \<leftarrow> devs c slot_id;
        let added_ctxs = ehub_xhci_get_endpoint_flag desc;
        if added_ctxs = SLOT_FLAG \<or> added_ctxs = EP0_FLAG \<or> \<not> ctx_input (in_ctx vd) then Some (0, c)
        else do {
          ep \<leftarrow> get_ep slot_id (ehub_xhci_get_endpoint_index desc) c;
          if ep_ring ep \<noteq> None \<and> drop_flags (in_ctx vd) AND added_ctxs = 0 then Some (- EINVAL, c)
          else if add_flags (in_ctx vd) AND added_ctxs \<noteq> 0 then Some (0, c)
          else do {
            (ret1, c1) \<leftarrow> ehub_xhci_endpoint_init k P d desc slot_id c;
            if ret1 < 0 then Some (- ENOMEM, c1)
            else do {
              vd1 \<leftarrow> devs c1 slot_id;
              Some (0, put_dev slot_id (vd1\<lparr>in_ctx := (in_ctx vd1)\<lparr>add_flags := add_flags (in_ctx vd1) OR added_ctxs\<rparr>\<rparr>) c1)
            }
          }
        }
      })"

text \<open>The input context back to its resting state; the contexts 1 to 30 are accessed without a
  test of the size.\<close>

definition xhci_zero_in_ctx :: "xhci_virt_device \<Rightarrow> xhci_virt_device option" where
  "xhci_zero_in_ctx vd =
     (let inc = in_ctx vd in
      if \<not> ctx_input inc then Some vd
      else if length (ep_ctxs inc) < 31 then None
      else Some (vd\<lparr>in_ctx := inc\<lparr>drop_flags := 0, add_flags := 0,
             slot_ctx := (slot_ctx inc)\<lparr>dev_info := (dev_info (slot_ctx inc) AND NOT LAST_CTX_MASK) OR LAST_CTX 1\<rparr>,
             ep_ctxs := hd (ep_ctxs inc) # replicate 30 zero_ep_ctx @ drop 31 (ep_ctxs inc)\<rparr>\<rparr>))"

section \<open>Results of the commands\<close>

definition xhci_configure_endpoint_result :: "u32 \<Rightarrow> int" where
  "xhci_configure_endpoint_result cmd_st =
     (if cmd_st = COMP_CMD_ABORT \<or> cmd_st = COMP_CMD_STOP then - ETIME
      else if cmd_st = COMP_ENOMEM then - ENOMEM
      else if cmd_st = COMP_BW_ERR \<or> cmd_st = COMP_2ND_BW_ERR then - ENOSPC
      else if cmd_st = COMP_TRB_ERR then - EINVAL
      else if cmd_st = COMP_DEV_ERR then - ENODEV
      else if cmd_st = COMP_SUCCESS then 0
      else - EINVAL)"

definition xhci_evaluate_context_result :: "u32 \<Rightarrow> int" where
  "xhci_evaluate_context_result cmd_st =
     (if cmd_st = COMP_CMD_ABORT \<or> cmd_st = COMP_CMD_STOP then - ETIME
      else if cmd_st = COMP_EINVAL \<or> cmd_st = COMP_EBADSLT \<or> cmd_st = COMP_CTX_STATE then - EINVAL
      else if cmd_st = COMP_DEV_ERR then - ENODEV
      else if cmd_st = COMP_MEL_ERR then - EINVAL
      else if cmd_st = COMP_SUCCESS then 0
      else - EINVAL)"

section \<open>Resources of the controller\<close>

text \<open>\<open>hweight32\<close>: the number of bits that are set.\<close>

definition hweight32 :: "u32 \<Rightarrow> u32" where
  "hweight32 w = of_nat (length (filter (bit w) [0..<32]))"

definition xhci_count_num_new_endpoints :: "xhci_container_ctx \<Rightarrow> u32" where
  "xhci_count_num_new_endpoints ctrl =
     (let valid_add_flags = drop_bit 2 (add_flags ctrl); valid_drop_flags = drop_bit 2 (drop_flags ctrl) in
      hweight32 valid_add_flags - hweight32 (valid_add_flags AND valid_drop_flags))"

definition xhci_count_num_dropped_endpoints :: "xhci_container_ctx \<Rightarrow> u32" where
  "xhci_count_num_dropped_endpoints ctrl =
     (let valid_add_flags = drop_bit 2 (add_flags ctrl); valid_drop_flags = drop_bit 2 (drop_flags ctrl) in
      hweight32 valid_drop_flags - hweight32 (valid_add_flags AND valid_drop_flags))"

definition xhci_reserve_host_resources :: "xhci_container_ctx \<Rightarrow> hc \<Rightarrow> int \<times> hc" where
  "xhci_reserve_host_resources ctrl c =
     (let added_eps = xhci_count_num_new_endpoints ctrl in
      if limit_active_eps c < num_active_eps c + added_eps then (- ENOMEM, c)
      else (0, c\<lparr>num_active_eps := num_active_eps c + added_eps\<rparr>))"

definition xhci_free_host_resources :: "xhci_container_ctx \<Rightarrow> hc \<Rightarrow> hc" where
  "xhci_free_host_resources ctrl c = c\<lparr>num_active_eps := num_active_eps c - xhci_count_num_new_endpoints ctrl\<rparr>"

definition xhci_finish_resource_reservation :: "xhci_container_ctx \<Rightarrow> hc \<Rightarrow> hc" where
  "xhci_finish_resource_reservation ctrl c = c\<lparr>num_active_eps := num_active_eps c - xhci_count_num_dropped_endpoints ctrl\<rparr>"

section \<open>Configure Endpoint\<close>

text \<open>The input context of a command: its own, or with \<^const>\<open>None\<close> the one of the device, which is
  then read through the device each time.\<close>

definition cmd_ctx :: "xhci_container_ctx option \<Rightarrow> u32 \<Rightarrow> hc \<Rightarrow> xhci_container_ctx option" where
  "cmd_ctx own slot_id c = (case own of Some ctx \<Rightarrow> Some ctx | None \<Rightarrow> map_option in_ctx (devs c slot_id))"

definition xhci_configure_endpoint ::
  "env \<Rightarrow> hcd_params \<Rightarrow> (nat \<Rightarrow> hc \<Rightarrow> hc option) \<Rightarrow> u32 \<Rightarrow> nat option \<Rightarrow> xhci_container_ctx option \<Rightarrow> bool \<Rightarrow> bool \<Rightarrow> hc \<Rightarrow> (int \<times> hc) option" where
  "xhci_configure_endpoint k P wait slot_id command own ctx_change must_succeed c = (case command of
     None \<Rightarrow> Some (- EINVAL, c)
   | Some cmd \<Rightarrow> do {
       vd \<leftarrow> devs c slot_id;
       ctrl \<leftarrow> cmd_ctx own slot_id c;
       let limited = (hp_quirks P AND XHCI_EP_LIMIT_QUIRK \<noteq> 0);
       let free_res = (\<lambda>ctrl c. if limited then xhci_free_host_resources ctrl c else c);
       if \<not> ctx_input ctrl then Some (- ENOMEM, c)
       else case (if limited then xhci_reserve_host_resources ctrl c else (0, c)) of (reserved, c1) \<Rightarrow>
         if reserved \<noteq> 0 then Some (- ENOMEM, c1)
         else do {
           (bw_ret, b) \<leftarrow> (if hp_quirks P AND XHCI_SW_BW_CHECKING \<noteq> 0 then xhci_reserve_bandwidth slot_id vd ctrl (bw c1) else Some (0, bw c1));
           let c2 = c1\<lparr>bw := b\<rparr>;
           if bw_ret \<noteq> 0 then Some (- ENOMEM, free_res ctrl c2)
           else do {
             (ret, c3) \<leftarrow> run_command ((if ctx_change then ehub_xhci_queue_evaluate_context else ehub_xhci_queue_configure_endpoint)
                k (hp_quirks P) cmd (ctx_dma ctrl) slot_id must_succeed) c2;
             if ret < 0 then Some (- ENOMEM, free_res ctrl c3)
             else do {
               c4 \<leftarrow> with_hcd (ehub_xhci_ring_cmd_db k) c3;
               c5 \<leftarrow> wait cmd c4;
               obj \<leftarrow> commands c5 cmd;
               let ret1 = (if ctx_change then xhci_evaluate_context_result else xhci_configure_endpoint_result) (cmd_status obj);
               let c6 = (if isoch_in_running (hcd c5) \<and> num_active_isoc_eps (hcd c5) = 0
                         then c5\<lparr>hcd := MESSAGE_queue_StopLoopIsoch (hcd c5)\<rparr> else c5);
               if \<not> limited then Some (ret1, c6)
               else do {
                 ctrl1 \<leftarrow> cmd_ctx own slot_id c6;
                 Some (ret1, if ret1 \<noteq> 0 then xhci_free_host_resources ctrl1 c6 else xhci_finish_resource_reservation ctrl1 c6)
               }
             }
           }
         }
     })"

section \<open>The new configuration\<close>

definition ehub_xhci_free_endpoint_ring :: "u32 \<Rightarrow> u32 \<Rightarrow> hc \<Rightarrow> hc option" where
  "ehub_xhci_free_endpoint_ring slot_id ep_index c = do {
     ep \<leftarrow> get_ep slot_id ep_index c;
     c1 \<leftarrow> with_hcd (ehub_xhci_ring_free (ep_ring ep)) c;
     Some (put_ep slot_id ep_index (ep\<lparr>ep_ring := None\<rparr>) c1)
   }"

definition xhci_check_bw_drop_ep_streams :: "u32 \<Rightarrow> u32 \<Rightarrow> hc \<Rightarrow> hc option" where
  "xhci_check_bw_drop_ep_streams slot_id ep_index c = do {
     ep \<leftarrow> get_ep slot_id ep_index c;
     if ep_state (hcd c) slot_id ep_index AND EP_HAS_STREAMS = 0 then Some c
     else do {
       c1 \<leftarrow> ehub_xhci_free_stream_info (stream_info ep) c;
       Some (map_ep_state (\<lambda>st. st AND NOT EP_HAS_STREAMS) slot_id ep_index (put_ep slot_id ep_index (ep\<lparr>stream_info := None\<rparr>) c1))
     }
   }"

text \<open>The Context Entries field: the last context that is in use after the command, at least the one
  of the control endpoint.\<close>

definition last_ctx :: "xhci_virt_device \<Rightarrow> nat" where
  "last_ctx vd = hd (filter (\<lambda>i. i = 1 \<or> (ep_ring (eps vd ! (i - 1)) \<noteq> None \<and> \<not> bit (drop_flags (in_ctx vd)) i) \<or> bit (add_flags (in_ctx vd)) i)
     (rev [1..<32]))"

definition set_last_ctx :: "xhci_virt_device \<Rightarrow> xhci_virt_device option" where
  "set_last_ctx vd = (if length (eps vd) < 31 then None
     else let inc = in_ctx vd in Some (vd\<lparr>in_ctx := inc\<lparr>slot_ctx := (slot_ctx inc)\<lparr>dev_info :=
            (dev_info (slot_ctx inc) AND NOT LAST_CTX_MASK) OR LAST_CTX (of_nat (last_ctx vd))\<rparr>\<rparr>\<rparr>))"

fun free_dropped :: "u32 \<Rightarrow> xhci_container_ctx \<Rightarrow> nat list \<Rightarrow> hc \<Rightarrow> hc option" where
  "free_dropped slot_id ctrl [] c = Some c"
| "free_dropped slot_id ctrl (i # is) c = do {
     c1 \<leftarrow> (if EP_IS_DROPPED ctrl i \<and> \<not> EP_IS_ADDED ctrl i
            then Option.bind (ehub_xhci_free_endpoint_ring slot_id (of_nat i) c) (xhci_check_bw_drop_ep_streams slot_id (of_nat i))
            else Some c);
     free_dropped slot_id ctrl is c1
   }"

fun install_rings :: "u32 \<Rightarrow> nat list \<Rightarrow> hc \<Rightarrow> hc option" where
  "install_rings slot_id [] c = Some c"
| "install_rings slot_id (i # is) c = do {
     ep \<leftarrow> get_ep slot_id (of_nat i) c;
     if new_ring ep = None then install_rings slot_id is c
     else do {
       c1 \<leftarrow> (if ep_ring ep \<noteq> None then ehub_xhci_free_endpoint_ring slot_id (of_nat i) c else Some c);
       c2 \<leftarrow> xhci_check_bw_drop_ep_streams slot_id (of_nat i) c1;
       ep2 \<leftarrow> get_ep slot_id (of_nat i) c2;
       install_rings slot_id is (put_ep slot_id (of_nat i) (ep2\<lparr>ep_ring := new_ring ep2, new_ring := None\<rparr>) c2)
     }
   }"

text \<open>What follows a successful command.\<close>

definition use_configuration :: "u32 \<Rightarrow> hc \<Rightarrow> hc option" where
  "use_configuration slot_id c = do {
     vd \<leftarrow> devs c slot_id;
     c1 \<leftarrow> free_dropped slot_id (in_ctx vd) [1..<31] c;
     vd1 \<leftarrow> devs c1 slot_id;
     vd2 \<leftarrow> xhci_zero_in_ctx vd1;
     install_rings slot_id [1..<31] (put_dev slot_id vd2 c1)
   }"

definition ehub_xhci_check_bandwidth ::
  "env \<Rightarrow> hcd_params \<Rightarrow> (nat \<Rightarrow> hc \<Rightarrow> hc option) \<Rightarrow> usb_device option \<Rightarrow> hc \<Rightarrow> (int \<times> hc) option" where
  "ehub_xhci_check_bandwidth k P wait ud c =
     (let ret = xhci_check_args ud False True c in
      if ret \<le> 0 then Some (ret, c)
      else if xhc_state (hcd c) AND XHCI_STATE_DYING \<noteq> 0 then Some (- ENODEV, c)
      else do {
        d \<leftarrow> ud;
        let slot_id = ud_slot_id d;
        (case ehub_xhci_alloc_command k False True c of
           (None, c1) \<Rightarrow> Some (- ENOMEM, c1)
         | (Some cmd, c1) \<Rightarrow> do {
             vd \<leftarrow> devs c1 slot_id;
             let inc = in_ctx vd;
             let done = (\<lambda>(ret, c'). (ret, ehub_xhci_free_command cmd c'));
             if \<not> ctx_input inc then Some (done (- ENOMEM, c1))
             else do {
               let inc1 = inc\<lparr>add_flags := (add_flags inc OR SLOT_FLAG) AND NOT EP0_FLAG,
                     drop_flags := drop_flags inc AND NOT (SLOT_FLAG OR EP0_FLAG)\<rparr>;
               let vd1 = vd\<lparr>in_ctx := inc1\<rparr>;
               if add_flags inc1 = SLOT_FLAG \<and> drop_flags inc1 = 0 then Some (done (0, put_dev slot_id vd1 c1))
               else do {
                 vd2 \<leftarrow> set_last_ctx vd1;
                 (ret1, c2) \<leftarrow> xhci_configure_endpoint k P wait slot_id (Some cmd) None False False (put_dev slot_id vd2 c1);
                 if ret1 \<noteq> 0 then Some (done (ret1, c2))
                 else map_option (\<lambda>c3. done (0, c3)) (use_configuration slot_id c2)
               }
             }
           })
      })"

fun free_new_rings :: "u32 \<Rightarrow> nat list \<Rightarrow> hc \<Rightarrow> hc option" where
  "free_new_rings slot_id [] c = Some c"
| "free_new_rings slot_id (i # is) c = do {
     ep \<leftarrow> get_ep slot_id (of_nat i) c;
     if new_ring ep = None then free_new_rings slot_id is c
     else do {
       c1 \<leftarrow> with_hcd (ehub_xhci_ring_free (new_ring ep)) c;
       free_new_rings slot_id is (put_ep slot_id (of_nat i) (ep\<lparr>new_ring := None\<rparr>) c1)
     }
   }"

definition ehub_xhci_reset_bandwidth :: "usb_device option \<Rightarrow> hc \<Rightarrow> hc option" where
  "ehub_xhci_reset_bandwidth ud c =
     (if xhci_check_args ud False True c \<le> 0 then Some c
      else do {
        d \<leftarrow> ud;
        let slot_id = ud_slot_id d;
        c1 \<leftarrow> free_new_rings slot_id [0..<31] c;
        vd \<leftarrow> devs c1 slot_id;
        vd1 \<leftarrow> xhci_zero_in_ctx vd;
        Some (put_dev slot_id vd1 c1)
      })"

section \<open>Submission of a URB\<close>

text \<open>\<open>maxp\<close> is the packet size of the control endpoint in the descriptor of the device.\<close>

definition xhci_check_maxpacket ::
  "env \<Rightarrow> hcd_params \<Rightarrow> (nat \<Rightarrow> hc \<Rightarrow> hc option) \<Rightarrow> u32 \<Rightarrow> u32 \<Rightarrow> u32 \<Rightarrow> hc \<Rightarrow> (int \<times> hc) option" where
  "xhci_check_maxpacket k P wait slot_id ep_index maxp c = do {
     vd \<leftarrow> devs c slot_id;
     ctx \<leftarrow> ehub_xhci_get_ep_ctx (out_ctx vd) ep_index;
     if MAX_PACKET_DECODED (ep_info2 ctx) = maxp then Some (0, c)
     else (case ehub_xhci_alloc_command k False True c of
        (None, c1) \<Rightarrow> Some (- ENOMEM, c1)
      | (Some cmd, c1) \<Rightarrow>
          if \<not> ctx_input (in_ctx vd) then Some (- ENOMEM, ehub_xhci_free_command cmd c1)
          else do {
            inc \<leftarrow> ehub_xhci_endpoint_copy ep_index (out_ctx vd) (in_ctx vd);
            ictx \<leftarrow> ehub_xhci_get_ep_ctx inc ep_index;
            let inc1 = (put_ep_ctx ep_index (ictx\<lparr>ep_info2 := (ep_info2 ictx AND NOT MAX_PACKET_MASK) OR MAX_PACKET maxp\<rparr>) inc)
                  \<lparr>add_flags := EP0_FLAG, drop_flags := 0\<rparr>;
            (ret, c2) \<leftarrow> xhci_configure_endpoint k P wait slot_id (Some cmd) None True False (put_dev slot_id (vd\<lparr>in_ctx := inc1\<rparr>) c1);
            vd2 \<leftarrow> devs c2 slot_id;
            Some (ret, ehub_xhci_free_command cmd (put_dev slot_id (vd2\<lparr>in_ctx := (in_ctx vd2)\<lparr>add_flags := SLOT_FLAG\<rparr>\<rparr>) c2))
          })
   }"

text \<open>A request as the USB core hands it over: the device and the endpoint it names, the transfer,
  the flag \<open>URB_SHORT_NOT_OK\<close>, the packet size of the control endpoint, the bytes of the buffer,
  and whether the hardware is accessible; \<open>rq_uframe\<close> is the clock.\<close>

record request =
  rq_dev :: "usb_device option"
  rq_ep :: usb_host_endpoint
  rq_urb :: xfer_urb
  rq_short_not_ok :: bool
  rq_maxp0 :: u32
  rq_data :: "u8 list"
  rq_accessible :: bool
  rq_uframe :: u32

definition xfer_type_of :: "usb_host_endpoint \<Rightarrow> xfer_type" where
  "xfer_type_of desc = (if usb_endpoint_xfer_control desc then XFER_CONTROL else if usb_endpoint_xfer_bulk desc then XFER_BULK
     else if usb_endpoint_xfer_int desc then XFER_INT else XFER_ISOC)"

definition new_urb_priv :: urb_priv where
  "new_urb_priv = \<lparr>cache_block_cnt = 0, EhubDataCacheBlock = replicate EHUB_CACHE_MAX_DATA_BLOCKS None\<rparr>"

definition new_tx_urb :: "request \<Rightarrow> tx_urb" where
  "new_tx_urb rq = (let u = rq_urb rq; ty = xfer_type_of (rq_ep rq) in
     \<lparr>tu_type = ty, tu_short_not_ok = rq_short_not_ok rq, tu_transfer_buffer_length = xu_transfer_buffer_length u,
      tu_actual_length = 0, tu_iso_frame_desc = map (\<lambda>fr. \<lparr>iso_length = snd fr, iso_actual_length = 0, iso_status = - EXDEV\<rparr>) (xu_iso_frame_desc u),
      tu_stream_id = xu_stream_id u, tu_td_cnt = 0, tu_length = (if ty = XFER_ISOC then int (length (xu_iso_frame_desc u)) else 1),
      tu_priv = new_urb_priv\<rparr>)"

text \<open>The transfer of its kind is put on the ring; the state of the endpoint is the one of the output
  context. A URB with its TDs on the ring keeps its private part.\<close>

definition queue_transfer ::
  "env \<Rightarrow> hcd_params \<Rightarrow> request \<Rightarrow> u32 \<Rightarrow> u32 \<Rightarrow> hc \<Rightarrow> (int \<times> hc) option" where
  "queue_transfer k P rq slot_id ep_index c = do {
     vd \<leftarrow> devs c slot_id;
     ctx \<leftarrow> ehub_xhci_get_ep_ctx (out_ctx vd) ep_index;
     ep \<leftarrow> get_ep slot_id ep_index c;
     let s = hcd c;
     let urb = (rq_urb rq)\<lparr>xu_priv := new_urb_priv\<rparr>;
     let ty = xfer_type_of (rq_ep rq);
     if ty = XFER_BULK \<and> ep_state s slot_id ep_index AND (EP_GETTING_STREAMS OR EP_GETTING_NO_STREAMS) \<noteq> 0 then Some (- EINVAL, c)
     else do {
       ((ret, ep1), priv, s1) \<leftarrow> (case ty of
          XFER_CONTROL \<Rightarrow> map_option (\<lambda>(res, s1). (res, new_urb_priv, s1)) (ehub_xhci_queue_ctrl_tx k P (ep_info ctx) urb slot_id ep_index ep s)
        | XFER_BULK \<Rightarrow> map_option (\<lambda>(res, s1). (res, new_urb_priv, s1)) (ehub_xhci_queue_bulk_tx k P (ep_info ctx) urb slot_id ep_index ep s)
        | XFER_INT \<Rightarrow> map_option (\<lambda>((res, _), s1). (res, new_urb_priv, s1)) (ehub_xhci_queue_intr_tx k P (ep_info ctx) urb slot_id ep_index ep s)
        | XFER_ISOC \<Rightarrow> map_option (\<lambda>((res, u), s1). (res, xu_priv u, s1))
            (ehub_xhci_queue_isoc_tx_prepare k P (rq_uframe rq) (ep_info ctx) (rq_data rq) urb slot_id ep_index ep s));
       let c1 = put_ep slot_id ep_index ep1 (c\<lparr>hcd := s1, urbs := (urbs c)(xu_id urb := map_option (\<lambda>x. x\<lparr>tu_priv := priv\<rparr>) (urbs c (xu_id urb)))\<rparr>);
       Some (ret, if ty = XFER_ISOC \<and> ret = 0 then c1\<lparr>bandwidth_isoc_reqs := bandwidth_isoc_reqs c1 + 1\<rparr> else c1)
     }
   }"

text \<open>The part after the private data of the URB: on an error they are freed again.\<close>

definition enqueue_owned ::
  "env \<Rightarrow> hcd_params \<Rightarrow> (nat \<Rightarrow> hc \<Rightarrow> hc option) \<Rightarrow> request \<Rightarrow> usb_device \<Rightarrow> hc \<Rightarrow> (int \<times> hc) option" where
  "enqueue_owned k P wait rq d c = do {
     let slot_id = ud_slot_id d;
     let ep_index = ehub_xhci_get_endpoint_index (rq_ep rq);
     let u = xu_id (rq_urb rq);
     (ret, c1) \<leftarrow> (if usb_endpoint_xfer_control (rq_ep rq) \<and> ud_speed d = USB_SPEED_FULL
                   then xhci_check_maxpacket k P wait slot_id ep_index (rq_maxp0 rq) c else Some (0, c));
     if ret < 0 then map_option (\<lambda>c'. (ret, c')) (ehub_xhci_urb_free_priv u c1)
     else if xhc_state (hcd c1) AND XHCI_STATE_DYING \<noteq> 0 then map_option (\<lambda>c'. (- ESHUTDOWN, c')) (ehub_xhci_urb_free_priv u c1)
     else do {
       (ret1, c2) \<leftarrow> queue_transfer k P rq slot_id ep_index c1;
       if ret1 \<noteq> 0 then map_option (\<lambda>c'. (ret1, c')) (ehub_xhci_urb_free_priv u c2) else Some (0, c2)
     }
   }"

definition ehub_xhci_urb_enqueue ::
  "env \<Rightarrow> hcd_params \<Rightarrow> (nat \<Rightarrow> hc \<Rightarrow> hc option) \<Rightarrow> request \<Rightarrow> hc \<Rightarrow> (int \<times> hc) option" where
  "ehub_xhci_urb_enqueue k P wait rq c =
     (if xhci_check_args (rq_dev rq) False True c \<le> 0 then Some (- EINVAL, c)
      else if \<not> rq_accessible rq then Some (- ESHUTDOWN, c)
      else do {
        d \<leftarrow> rq_dev rq;
        let n = tick (hcd c);
        let ticked = (\<lambda>m. c\<lparr>hcd := (hcd c)\<lparr>tick := n + m\<rparr>\<rparr>);
        if \<not> kzalloc k n then Some (- ENOMEM, ticked 1)
        else if \<not> kzalloc k (n + 1) then Some (- ENOMEM, ticked 2)
        else enqueue_owned k P wait rq d ((ticked 2)\<lparr>urbs := (urbs c)(xu_id (rq_urb rq) \<mapsto> new_tx_urb rq)\<rparr>)
      })"

end
