(* ===== verification/Xhci_Config_Props.thy ===== *)
theory Xhci_Config_Props
  imports Xhci_Config Xhci_Cancel_Props
begin

text \<open>
  The configuration of endpoints: what the bandwidth tables read out of an endpoint context is what
  was computed from the descriptors, and the change from one configuration to the next.
\<close>

section \<open>Contexts and bandwidth\<close>

text \<open>The interval of an endpoint in powers of two of microframes.\<close>

lemma unat_clamp: "unat lo \<le> unat hi \<Longrightarrow> unat (clamp_val v lo hi) = max (unat lo) (min (unat v) (unat hi))"
  by (auto simp: clamp_val_def word_less_nat_alt)

lemma masks:
  "(3 :: u32) = mask 2" "(7 :: u32) = mask 3" "(0xff :: u32) = mask 8" "(0xffff :: u32) = mask 16" "(0x7ff :: u32) = mask 11" "(0x1800 :: u32) = push_bit 11 (mask 2)"
  by (simp_all add: mask_eq_exp_minus_1)

lemmas ctx_defs = CTX_TO_EP_INTERVAL_def EP_INTERVAL_def CTX_TO_EP_MULT_def EP_MULT_def CTX_TO_EP_TYPE_def EP_TYPE_def ERROR_COUNT_def
  MAX_BURST_def CTX_TO_MAX_BURST_def MAX_PACKET_def MAX_PACKET_DECODED_def MAX_ESIT_PAYLOAD_FOR_EP_def CTX_TO_MAX_ESIT_PAYLOAD_def
  AVG_TRB_LENGTH_FOR_EP_def

text \<open>The fields of a context do not overlap.\<close>

lemma ctx_fields:
  "CTX_TO_EP_INTERVAL (EP_INTERVAL a OR EP_MULT b) = a AND 0xff"
  "CTX_TO_EP_MULT (EP_INTERVAL a OR EP_MULT b) = b AND 3"
  "CTX_TO_EP_TYPE (EP_TYPE a OR ERROR_COUNT b OR (MAX_PACKET d OR MAX_BURST e)) = a AND 7"
  "CTX_TO_MAX_BURST (EP_TYPE (a AND 7) OR ERROR_COUNT b OR (MAX_PACKET d OR MAX_BURST e)) = e AND 0xff"
  "MAX_PACKET_DECODED (EP_TYPE (a AND 7) OR ERROR_COUNT b OR (MAX_PACKET d OR MAX_BURST e)) = d AND 0xffff"
  "CTX_TO_MAX_ESIT_PAYLOAD (MAX_ESIT_PAYLOAD_FOR_EP a OR AVG_TRB_LENGTH_FOR_EP b) = a AND 0xffff"
  unfolding ctx_defs masks
  by (rule bit_word_eqI; simp only: bit_and_iff bit_or_iff bit_drop_bit_eq o_apply bit_push_bit_iff bit_mask_iff; auto)+

lemma interval_bounds:
  "unat (xhci_parse_exponent_interval speed desc) \<le> (if speed = USB_SPEED_FULL then 18 else 15)"
  "speed = USB_SPEED_FULL \<Longrightarrow> 3 \<le> unat (xhci_parse_exponent_interval speed desc)"
  "3 \<le> unat (xhci_parse_frame_interval desc)" "unat (xhci_parse_frame_interval desc) \<le> 10"
proof -
  have 1: "unat (clamp_val v 1 16 - 1) = max 1 (min (unat v) 16) - 1" "unat (2 + clamp_val v 1 16) = max 1 (min (unat v) 16) + 2" for v
    by (auto simp: clamp_val_def word_less_nat_alt unat_sub word_le_nat_alt unat_word_ariths)
  show "unat (xhci_parse_exponent_interval speed desc) \<le> (if speed = USB_SPEED_FULL then 18 else 15)"
    "speed = USB_SPEED_FULL \<Longrightarrow> 3 \<le> unat (xhci_parse_exponent_interval speed desc)"
    by (auto simp: xhci_parse_exponent_interval_def Let_def 1)
  show "3 \<le> unat (xhci_parse_frame_interval desc)" "unat (xhci_parse_frame_interval desc) \<le> 10"
    by (simp_all add: xhci_parse_frame_interval_def xhci_microframes_to_exponent_def unat_clamp)
qed

lemma normalized_ok:
  "unat (ep_interval b) \<le> 15 \<Longrightarrow> normalized_interval USB_SPEED_HIGH b = Some (unat (ep_interval b))"
  "speed \<noteq> USB_SPEED_HIGH \<Longrightarrow> 3 \<le> unat (ep_interval b) \<Longrightarrow> unat (ep_interval b) \<le> 18
     \<Longrightarrow> normalized_interval speed b = Some (unat (ep_interval b) - 3)"
  by (simp_all add: normalized_interval_def XHCI_MAX_INTERVAL_def unat_sub word_le_nat_alt)

lemma masked_interval: "unat (x :: u32) < 256 \<Longrightarrow> x AND 0xff = x"
  unfolding masks take_bit_eq_mask [symmetric] by (simp add: word_unat_eq_iff unsigned_take_bit_eq take_bit_eq_mod unat_mod)

text \<open>A periodic endpoint is configured with one of the four type codes of its kind.\<close>

lemma periodic_type: "periodic desc \<Longrightarrow> \<exists>a. xhci_get_endpoint_type desc = EP_TYPE (a AND 7) \<and> \<not> xhci_is_async_ep (a AND 7)
     \<and> xhci_is_sync_in_ep (a AND 7) = usb_endpoint_dir_in desc"
  by (rule exI [of _ "drop_bit 3 (xhci_get_endpoint_type desc)"])
    (auto simp: xhci_get_endpoint_type_def periodic_def EP_TYPE_def ISOC_OUT_EP_def ISOC_IN_EP_def INT_OUT_EP_def INT_IN_EP_def
      xhci_is_async_ep_def xhci_is_sync_in_ep_def Let_def)

definition ep_interval_of :: "usb_speed \<Rightarrow> usb_host_endpoint \<Rightarrow> u32" where
  "ep_interval_of speed desc = (if speed = USB_SPEED_HIGH \<or> speed = USB_SPEED_SUPER \<or> (speed = USB_SPEED_FULL \<and> usb_endpoint_xfer_isoc desc)
     then xhci_parse_exponent_interval speed desc else xhci_parse_frame_interval desc)"

lemma interval_of:
  assumes "periodic desc" and "xhci_get_endpoint_interval speed desc = Some i"
  shows "i = EP_INTERVAL (ep_interval_of speed desc)"
  using assms by (auto simp: xhci_get_endpoint_interval_def ep_interval_of_def periodic_def split: usb_speed.splits if_splits)

lemma interval_of_range:
  assumes "speed \<noteq> USB_SPEED_SUPER"
  shows "unat (ep_interval_of speed desc) \<le> (if speed = USB_SPEED_HIGH then 15 else 18)" "speed \<noteq> USB_SPEED_HIGH \<Longrightarrow> 3 \<le> unat (ep_interval_of speed desc)"
proof -
  note b = interval_bounds(3,4) [of desc] interval_bounds(1,2) [of USB_SPEED_FULL desc] interval_bounds(1) [of USB_SPEED_HIGH desc]
  show "unat (ep_interval_of speed desc) \<le> (if speed = USB_SPEED_HIGH then 15 else 18)" using assms b by (auto simp: ep_interval_of_def)
  show "speed \<noteq> USB_SPEED_HIGH \<Longrightarrow> 3 \<le> unat (ep_interval_of speed desc)" using assms b by (auto simp: ep_interval_of_def)
qed

text \<open>The size and the bursts of packets fit in their fields.\<close>

lemma ep_max_packet_fits:
  assumes "ep_max_packet speed desc = Some (mp, mb)"
  shows "mp AND 0xffff = mp" "mb AND 0xff = mb"
proof -
  have 1: "GET_MAX_PACKET x AND 0xffff = GET_MAX_PACKET x" "(drop_bit 11 x AND 3) AND 0xff = drop_bit 11 x AND 3" for x :: u32
    unfolding GET_MAX_PACKET_def masks
    by (rule bit_word_eqI; simp only: bit_and_iff bit_drop_bit_eq o_apply bit_push_bit_iff bit_mask_iff; auto)+
  have 2: "ucast (b :: u8) AND (0xff :: u32) = ucast b" for b
    unfolding masks by (rule bit_word_eqI) (auto simp: bit_and_iff bit_mask_iff bit_ucast_iff dest: bit_imp_le_length)
  show "mp AND 0xffff = mp" "mb AND 0xff = mb"
    using assms by (auto simp: ep_max_packet_def Let_def 1 2 split: usb_speed.splits if_splits)
qed

text \<open>
  C2. What the bandwidth check reads out of the context of a new periodic endpoint is what the
  descriptors say: its direction, its packet size and its bursts survive the packing into the fields
  of the context, and its interval, for every value of the descriptors, lies inside the table of
  sixteen intervals.
\<close>

theorem new_ep_ctx_bandwidth:
  assumes "periodic desc" and "speed \<noteq> USB_SPEED_SUPER" and "new_ep_ctx P speed desc addr = Some ctx"
  shows "\<exists>n burst. n < XHCI_MAX_INTERVAL \<and> normalized_interval speed (bw_info_of_ctx ctx) = Some n
     \<and> unat (ep_interval (bw_info_of_ctx ctx)) = n + (if speed = USB_SPEED_HIGH then 0 else 3)
     \<and> ep_max_packet speed desc = Some (max_packet_size (bw_info_of_ctx ctx), burst)
     \<and> bi_num_packets (bw_info_of_ctx ctx) = burst + 1
     \<and> \<not> xhci_is_async_ep (bi_type (bw_info_of_ctx ctx)) \<and> xhci_is_sync_in_ep (bi_type (bw_info_of_ctx ctx)) = usb_endpoint_dir_in desc"
proof -
  obtain i mp mb where c: "xhci_get_endpoint_interval speed desc = Some i" "ep_max_packet speed desc = Some (mp, mb)"
    "ctx = \<lparr>ep_info = i OR EP_MULT (xhci_get_endpoint_mult speed desc),
       ep_info2 = xhci_get_endpoint_type desc OR (if usb_endpoint_xfer_isoc desc then ERROR_COUNT 0 else ERROR_COUNT 3) OR (MAX_PACKET mp OR MAX_BURST mb),
       deq = addr, tx_info = tx_info ctx\<rparr>"
    using assms(3) by (auto simp: new_ep_ctx_def Let_def elim!: bind_eq_SomeE)
  obtain a where a: "xhci_get_endpoint_type desc = EP_TYPE (a AND 7)" "\<not> xhci_is_async_ep (a AND 7)" "xhci_is_sync_in_ep (a AND 7) = usb_endpoint_dir_in desc"
    using periodic_type [OF assms(1)] by blast
  let ?iv = "ep_interval_of speed desc" and ?b = "bw_info_of_ctx ctx"
  have r: "unat ?iv \<le> (if speed = USB_SPEED_HIGH then 15 else 18)" "speed \<noteq> USB_SPEED_HIGH \<Longrightarrow> 3 \<le> unat ?iv"
    using interval_of_range [OF assms(2)] by auto
  have i: "i = EP_INTERVAL ?iv" using interval_of [OF assms(1) c(1)] .
  note m = ep_max_packet_fits [OF c(2)]
  have "ep_interval ?b = ?iv" using r(1) by (subst c(3)) (simp add: bw_info_of_ctx_def i ctx_fields masked_interval split: if_splits)
  moreover have "max_packet_size ?b = mp" "bi_num_packets ?b = mb + 1" "bi_type ?b = a AND 7"
    by (subst c(3), simp add: bw_info_of_ctx_def a(1) ctx_fields m)+
  moreover have "normalized_interval speed ?b = Some (if speed = USB_SPEED_HIGH then unat ?iv else unat ?iv - 3)"
    using calculation(1) r normalized_ok by auto
  ultimately show ?thesis using r a c(2) by (auto simp: XHCI_MAX_INTERVAL_def)
qed
definition mic :: usb_host_endpoint where
  "mic = \<lparr>bEndpointAddress = 0x81, bmAttributes = 1, wMaxPacketSize = 0x13fc, bInterval = 4, ss_bmAttributes = 0, ss_bMaxBurst = 0, ss_wBytesPerInterval = 0\<rparr>"

definition mic_params :: hcd_params where
  "mic_params = \<lparr>hp_quirks = 0, hci_version = 0x100, map_status = 0, link_status = 0\<rparr>"

theorem new_ep_ctx_bandwidth_witness:
  "\<exists>ctx n burst. new_ep_ctx mic_params USB_SPEED_HIGH mic 0x1001 = Some ctx \<and> n < XHCI_MAX_INTERVAL
     \<and> normalized_interval USB_SPEED_HIGH (bw_info_of_ctx ctx) = Some n \<and> n = 3
     \<and> max_packet_size (bw_info_of_ctx ctx) = 0x3fc \<and> burst = 2 \<and> bi_num_packets (bw_info_of_ctx ctx) = burst + 1"
proof -
  let ?c = "the (new_ep_ctx mic_params USB_SPEED_HIGH mic 0x1001)"
  have c: "new_ep_ctx mic_params USB_SPEED_HIGH mic 0x1001 = Some ?c" by (simp add: new_ep_ctx_def ep_max_packet_def xhci_get_endpoint_interval_def mic_def Let_def)
  have d: "unat (ep_interval (bw_info_of_ctx ?c)) = 3" "ep_max_packet USB_SPEED_HIGH mic = Some (0x3fc, 2)" "periodic mic" by code_simp+
  show ?thesis using new_ep_ctx_bandwidth [OF d(3) _ c] c d(1,2) by (intro exI [of _ ?c]) auto
qed
section \<open>The new configuration\<close>

text \<open>The two rings of an endpoint.\<close>

definition rings :: "xhci_virt_device \<Rightarrow> nat \<Rightarrow> xhci_ring option \<times> xhci_ring option" where
  "rings vd j = (ep_ring (eps vd ! j), new_ring (eps vd ! j))"

text \<open>From \<open>c\<close> to \<open>c'\<close> the device in the slot keeps its input context and gets the rings \<open>f\<close>.\<close>

definition rerings :: "u32 \<Rightarrow> (xhci_virt_device \<Rightarrow> nat \<Rightarrow> xhci_ring option \<times> xhci_ring option) \<Rightarrow> hc \<Rightarrow> hc \<Rightarrow> bool" where
  "rerings slot f c c' \<longleftrightarrow> (\<forall>vd. devs c slot = Some vd \<longrightarrow> (\<exists>vd'. devs c' slot = Some vd' \<and> in_ctx vd' = in_ctx vd \<and> length (eps vd') = length (eps vd)
     \<and> (\<forall>j < length (eps vd). rings vd' j = f vd j)))"

lemma rerings_trans:
  assumes "rerings slot f c c1" and "rerings slot g c1 c2"
    and "\<And>vd vd1 j. length (eps vd1) = length (eps vd) \<Longrightarrow> j < length (eps vd) \<Longrightarrow> (\<And>i. i < length (eps vd) \<Longrightarrow> rings vd1 i = f vd i) \<Longrightarrow> g vd1 j = h vd j"
  shows "rerings slot h c c2"
  using assms unfolding rerings_def by (metis (no_types, lifting))

lemma unat_small: "i < 31 \<Longrightarrow> unat (of_nat i :: u32) = i"
  by (simp add: unat_of_nat)

lemma free_ring_rings:
  assumes "ehub_xhci_free_endpoint_ring slot (of_nat i) c = Some c'" and "i < 31"
  shows "rerings slot (\<lambda>vd j. if j = i then (None, snd (rings vd j)) else rings vd j) c c'"
  using assms unat_small [OF assms(2)]
  by (auto simp: ehub_xhci_free_endpoint_ring_def get_ep_def put_ep_def with_hcd_def rerings_def rings_def nth_list_update split: if_splits elim!: bind_eq_SomeE)
lemma drop_streams_rings:
  assumes "xhci_check_bw_drop_ep_streams slot (of_nat i) c = Some c'" and "i < 31"
  shows "rerings slot rings c c'"
proof -
  have s: "devs c1 = devs c" if "ehub_xhci_free_stream_info p c = Some c1" for p c1
    using that by (auto simp: ehub_xhci_free_stream_info_def ehub_xhci_free_command_def with_hcd_def split: option.splits if_splits elim!: bind_eq_SomeE)
  show ?thesis
    using assms unat_small [OF assms(2)] s
    by (fastforce simp: xhci_check_bw_drop_ep_streams_def get_ep_def put_ep_def map_ep_state_def rerings_def rings_def nth_list_update
        split: if_splits elim!: bind_eq_SomeE)
qed

text \<open>The rings after the dropped endpoints are gone, and after the new rings are in use.\<close>

definition after_drop :: "xhci_container_ctx \<Rightarrow> nat list \<Rightarrow> xhci_virt_device \<Rightarrow> nat \<Rightarrow> xhci_ring option \<times> xhci_ring option" where
  "after_drop ctrl is vd j = (if j \<in> set is \<and> EP_IS_DROPPED ctrl j \<and> \<not> EP_IS_ADDED ctrl j then (None, snd (rings vd j)) else rings vd j)"

definition after_install :: "nat list \<Rightarrow> xhci_virt_device \<Rightarrow> nat \<Rightarrow> xhci_ring option \<times> xhci_ring option" where
  "after_install is vd j = (if j \<in> set is \<and> snd (rings vd j) \<noteq> None then (snd (rings vd j), None) else rings vd j)"

lemma free_dropped_rings:
  assumes "free_dropped slot ctrl is c = Some c'" and "\<forall>i \<in> set is. i < 31"
  shows "rerings slot (after_drop ctrl is) c c'"
  using assms
proof (induction "is" arbitrary: c)
  case Nil
  then show ?case by (simp add: rerings_def after_drop_def)
next
  case (Cons i "is")
  obtain c1 where c1: "(if EP_IS_DROPPED ctrl i \<and> \<not> EP_IS_ADDED ctrl i
            then Option.bind (ehub_xhci_free_endpoint_ring slot (of_nat i) c) (xhci_check_bw_drop_ep_streams slot (of_nat i))
            else Some c) = Some c1" "free_dropped slot ctrl is c1 = Some c'"
    using Cons.prems(1) by (auto elim!: bind_eq_SomeE)
  have i: "i < 31" using Cons.prems(2) by simp
  have s: "rerings slot (after_drop ctrl [i]) c c1"
  proof (cases "EP_IS_DROPPED ctrl i \<and> \<not> EP_IS_ADDED ctrl i")
    case True
    then obtain c2 where "ehub_xhci_free_endpoint_ring slot (of_nat i) c = Some c2" "xhci_check_bw_drop_ep_streams slot (of_nat i) c2 = Some c1"
      using c1(1) by (auto elim!: bind_eq_SomeE)
    from free_ring_rings [OF this(1) i] drop_streams_rings [OF this(2) i] show ?thesis
      by (rule rerings_trans) (use True in \<open>auto simp: after_drop_def\<close>)
  next
    case False
    then show ?thesis using c1(1) by (auto simp: rerings_def after_drop_def)
  qed
  have t: "rerings slot (after_drop ctrl is) c1 c'" using Cons.IH [OF c1(2)] Cons.prems(2) by simp
  show ?case by (rule rerings_trans [OF s t]) (auto simp: after_drop_def)
qed

lemma install_rings_rings:
  assumes "install_rings slot is c = Some c'" and "\<forall>i \<in> set is. i < 31"
  shows "rerings slot (after_install is) c c'"
  using assms
proof (induction "is" arbitrary: c)
  case Nil
  then show ?case by (simp add: rerings_def after_install_def)
next
  case (Cons i "is")
  have i: "i < 31" using Cons.prems(2) by simp
  note u = unat_small [OF i]
  obtain ep where ep: "get_ep slot (of_nat i) c = Some ep" using Cons.prems(1) by (auto elim!: bind_eq_SomeE)
  obtain c3 where c3: "rerings slot (after_install [i]) c c3" "install_rings slot is c3 = Some c'"
  proof (cases "new_ring ep")
    case None
    show ?thesis by (rule that [of c]) (use None ep Cons.prems(1) u in \<open>auto simp: rerings_def after_install_def get_ep_def rings_def split: if_splits elim!: bind_eq_SomeE\<close>)
  next
    case (Some r)
    obtain c1 c2 ep2 where s: "(if ep_ring ep \<noteq> None then ehub_xhci_free_endpoint_ring slot (of_nat i) c else Some c) = Some c1"
      "xhci_check_bw_drop_ep_streams slot (of_nat i) c1 = Some c2" "get_ep slot (of_nat i) c2 = Some ep2"
      "install_rings slot is (put_ep slot (of_nat i) (ep2\<lparr>ep_ring := new_ring ep2, new_ring := None\<rparr>) c2) = Some c'"
      using Cons.prems(1) ep Some by (auto elim!: bind_eq_SomeE)
    have "rerings slot (\<lambda>vd j. if j = i then (if ep_ring ep \<noteq> None then None else fst (rings vd j), snd (rings vd j)) else rings vd j) c c1"
    proof (cases "ep_ring ep")
      case None
      then show ?thesis using s(1) by (auto simp: rerings_def)
    next
      case e: (Some r')
      have "rerings slot (\<lambda>vd j. if j = i then (None, snd (rings vd j)) else rings vd j) c c1" using s(1) e i by (intro free_ring_rings) simp_all
      then show ?thesis by (simp add: e cong: if_cong)
    qed
    from this drop_streams_rings [OF s(2) i]
    have 1: "rerings slot (\<lambda>vd j. if j = i then (if ep_ring ep \<noteq> None then None else fst (rings vd j), snd (rings vd j)) else rings vd j) c c2"
      by (rule rerings_trans) auto
    have 2: "rerings slot (\<lambda>vd j. if j = i then (snd (rings vd j), None) else rings vd j) c2
        (put_ep slot (of_nat i) (ep2\<lparr>ep_ring := new_ring ep2, new_ring := None\<rparr>) c2)"
      using s(3) u by (auto simp: rerings_def get_ep_def put_ep_def rings_def nth_list_update split: if_splits elim!: bind_eq_SomeE)
    have 3: "snd (rings vd i) \<noteq> None" if "devs c slot = Some vd" for vd using ep Some u that by (auto simp: get_ep_def rings_def split: if_splits)
    have "rerings slot (\<lambda>vd j. if j = i then (snd (rings vd j), None) else rings vd j) c
        (put_ep slot (of_nat i) (ep2\<lparr>ep_ring := new_ring ep2, new_ring := None\<rparr>) c2)"
      by (rule rerings_trans [OF 1 2]) auto
    then show ?thesis using 3 by (intro that [OF _ s(4)]) (auto simp: rerings_def after_install_def)
  qed
  have t: "rerings slot (after_install is) c3 c'" using Cons.IH [OF c3(2)] Cons.prems(2) by simp
  show ?case by (rule rerings_trans [OF c3(1) t]) (auto simp: after_install_def)
qed
lemma zero_in_ctx_rings:
  assumes "xhci_zero_in_ctx vd = Some vd'"
  shows "eps vd' = eps vd" and "ctx_input (in_ctx vd) \<Longrightarrow> add_flags (in_ctx vd') = 0 \<and> drop_flags (in_ctx vd') = 0"
  using assms by (auto simp: xhci_zero_in_ctx_def Let_def split: if_splits)

text \<open>
  C3. After a successful Configure Endpoint command the driver and the controller agree on the
  endpoints: an endpoint with a new ring uses it, an endpoint that was dropped and not added again has
  no ring, every other endpoint keeps the ring it had, no new ring is left over and the input context
  asks for nothing any more; the control endpoint is not touched.
\<close>

theorem new_configuration:
  assumes "use_configuration slot c = Some c'" and "devs c slot = Some vd" and "ctx_input (in_ctx vd)"
  shows "\<exists>vd'. devs c' slot = Some vd' \<and> add_flags (in_ctx vd') = 0 \<and> drop_flags (in_ctx vd') = 0 \<and> length (eps vd') = length (eps vd)
     \<and> (0 < length (eps vd) \<longrightarrow> ep_ring (eps vd' ! 0) = ep_ring (eps vd ! 0))
     \<and> (\<forall>i < length (eps vd). 1 \<le> i \<and> i < 31 \<longrightarrow> new_ring (eps vd' ! i) = None \<and> ep_ring (eps vd' ! i) =
          (if new_ring (eps vd ! i) \<noteq> None then new_ring (eps vd ! i)
           else if EP_IS_DROPPED (in_ctx vd) i \<and> \<not> EP_IS_ADDED (in_ctx vd) i then None else ep_ring (eps vd ! i)))"
proof -
  obtain c1 vd1 vd2 where s: "free_dropped slot (in_ctx vd) [1..<31] c = Some c1" "devs c1 slot = Some vd1" "xhci_zero_in_ctx vd1 = Some vd2"
    "install_rings slot [1..<31] (put_dev slot vd2 c1) = Some c'"
    using assms(1,2) by (auto simp: use_configuration_def elim!: bind_eq_SomeE)
  have 1: "in_ctx vd1 = in_ctx vd" "length (eps vd1) = length (eps vd)" "\<forall>j < length (eps vd). rings vd1 j = after_drop (in_ctx vd) [1..<31] vd j"
    using free_dropped_rings [OF s(1)] assms(2) s(2) by (auto simp: rerings_def)
  have 2: "add_flags (in_ctx vd2) = 0" "drop_flags (in_ctx vd2) = 0" "eps vd2 = eps vd1" using zero_in_ctx_rings [OF s(3)] assms(3) 1(1) by simp_all
  obtain vd' where 3: "devs c' slot = Some vd'" "in_ctx vd' = in_ctx vd2" "length (eps vd') = length (eps vd)"
    "\<forall>j < length (eps vd). rings vd' j = after_install [1..<31] vd2 j"
    using install_rings_rings [OF s(4)] 1(2) 2(3) by (auto simp: rerings_def put_dev_def)
  have "rings vd2 j = rings vd1 j" for j using 2(3) by (simp add: rings_def)
  then have r: "rings vd' j = (if j \<in> set [1..<31] \<and> snd (after_drop (in_ctx vd) [1..<31] vd j) \<noteq> None
      then (snd (after_drop (in_ctx vd) [1..<31] vd j), None) else after_drop (in_ctx vd) [1..<31] vd j)" if "j < length (eps vd)" for j
    using 1(3) 3(4) that by (auto simp: after_install_def)
  let ?a = "after_drop (in_ctx vd) [1..<31] vd"
  have a: "fst (?a j) = (if 1 \<le> j \<and> j < 31 \<and> EP_IS_DROPPED (in_ctx vd) j \<and> \<not> EP_IS_ADDED (in_ctx vd) j then None else ep_ring (eps vd ! j))"
    "snd (?a j) = new_ring (eps vd ! j)" for j by (simp_all add: after_drop_def rings_def)
  have e: "ep_ring (eps vd' ! j) = (if 1 \<le> j \<and> j < 31 \<and> snd (?a j) \<noteq> None then snd (?a j) else fst (?a j))"
    "new_ring (eps vd' ! j) = (if 1 \<le> j \<and> j < 31 \<and> snd (?a j) \<noteq> None then None else snd (?a j))" if "j < length (eps vd)" for j
    using arg_cong [OF r [OF that], of fst] arg_cong [OF r [OF that], of snd] by (auto simp: rings_def split: if_splits)
  show ?thesis using 3(1-3) 2(1,2) by (intro exI [of _ vd']) (simp add: e [unfolded a])
qed
text \<open>The device of the demonstration gets one new endpoint, with the context index 2, and loses one.\<close>

definition config_hc :: hc where
  "config_hc = busy_hc\<lparr>devs := (devs busy_hc)(1 := map_option (\<lambda>vd. vd\<lparr>in_ctx := (in_ctx vd)\<lparr>drop_flags := 0x10, add_flags := 9,
      ep_ctxs := replicate 31 zero_ep_ctx\<rparr>, eps := (replicate 31 (hd (eps vd)\<lparr>new_ring := None, ep_ring := None\<rparr>))[2 := hd (eps vd)\<lparr>new_ring := Some busy_ring, ep_ring := None\<rparr>]\<rparr>)
      (devs busy_hc 1))\<rparr>"

lemma config_run: "map_option (\<lambda>_. ()) (use_configuration 1 config_hc) = Some ()"
  by code_simp

theorem new_configuration_witness:
  "\<exists>c' vd'. use_configuration 1 config_hc = Some c' \<and> devs c' 1 = Some vd' \<and> add_flags (in_ctx vd') = 0
     \<and> ep_ring (eps vd' ! 2) = Some busy_ring \<and> new_ring (eps vd' ! 2) = None"
proof -
  obtain c' where c: "use_configuration 1 config_hc = Some c'" using config_run by auto
  obtain vd where "devs config_hc 1 = Some vd" "ctx_input (in_ctx vd)" "length (eps vd) = 31" "new_ring (eps vd ! 2) = Some busy_ring"
    by (auto simp: config_hc_def busy_hc_def busy_ctx_def)
  then show ?thesis using new_configuration [OF c] c by fastforce
qed

end
