(* ===== verification/Xhci_Port.thy ===== *)
theory Xhci_Port
  imports Xhci_Config
begin

text \<open>
  The ports of the root hub: the bits of a port status and control register (\<open>xhci.h\<close>,
  \<open>xhci-hub.c\<close>), the state of the hub, and the discovery of the ports in the extended
  capabilities of the controller (\<open>xhci-mem.c\<close>).

  Registers are read and written through the FL6000 layer, so an access goes over the bus, may
  fail, and a failed read is all ones. \<open>port_log\<close> records the writes to registers of the ports, in
  order.
\<close>

section \<open>Port registers\<close>

definition PORT_CONNECT :: u32 where "PORT_CONNECT = push_bit 0 1"
definition PORT_PE :: u32 where "PORT_PE = push_bit 1 1"
definition PORT_OC :: u32 where "PORT_OC = push_bit 3 1"
definition PORT_RESET :: u32 where "PORT_RESET = push_bit 4 1"
definition PORT_PLS_MASK :: u32 where "PORT_PLS_MASK = push_bit 5 0xf"
definition XDEV_U0 :: u32 where "XDEV_U0 = push_bit 5 0"
definition XDEV_U2 :: u32 where "XDEV_U2 = push_bit 5 2"
definition XDEV_U3 :: u32 where "XDEV_U3 = push_bit 5 3"
definition XDEV_RESUME :: u32 where "XDEV_RESUME = push_bit 5 0xf"
definition PORT_POWER :: u32 where "PORT_POWER = push_bit 9 1"
definition DEV_SPEED_MASK :: u32 where "DEV_SPEED_MASK = push_bit 10 0xf"
definition XDEV_LS :: u32 where "XDEV_LS = push_bit 10 2"
definition XDEV_HS :: u32 where "XDEV_HS = push_bit 10 3"
definition XDEV_SS :: u32 where "XDEV_SS = push_bit 10 4"
definition DEV_LOWSPEED :: "u32 \<Rightarrow> bool" where "DEV_LOWSPEED p \<longleftrightarrow> p AND DEV_SPEED_MASK = XDEV_LS"
definition DEV_HIGHSPEED :: "u32 \<Rightarrow> bool" where "DEV_HIGHSPEED p \<longleftrightarrow> p AND DEV_SPEED_MASK = XDEV_HS"
definition DEV_SUPERSPEED :: "u32 \<Rightarrow> bool" where "DEV_SUPERSPEED p \<longleftrightarrow> p AND DEV_SPEED_MASK = XDEV_SS"
definition PORT_LINK_STROBE :: u32 where "PORT_LINK_STROBE = push_bit 16 1"
definition PORT_CSC :: u32 where "PORT_CSC = push_bit 17 1"
definition PORT_PEC :: u32 where "PORT_PEC = push_bit 18 1"
definition PORT_WRC :: u32 where "PORT_WRC = push_bit 19 1"
definition PORT_OCC :: u32 where "PORT_OCC = push_bit 20 1"
definition PORT_RC :: u32 where "PORT_RC = push_bit 21 1"
definition PORT_PLC :: u32 where "PORT_PLC = push_bit 22 1"
definition PORT_CEC :: u32 where "PORT_CEC = push_bit 23 1"
definition PORT_CAS :: u32 where "PORT_CAS = push_bit 24 1"
definition PORT_WKCONN_E :: u32 where "PORT_WKCONN_E = push_bit 25 1"
definition PORT_WKDISC_E :: u32 where "PORT_WKDISC_E = push_bit 26 1"
definition PORT_WKOC_E :: u32 where "PORT_WKOC_E = push_bit 27 1"
definition PORT_DEV_REMOVE :: u32 where "PORT_DEV_REMOVE = push_bit 30 1"
definition PORT_WR :: u32 where "PORT_WR = push_bit 31 1"
definition DUPLICATE_ENTRY :: u8 where "DUPLICATE_ENTRY = - 1"

definition PORT_WAKE_BITS :: u32 where "PORT_WAKE_BITS = PORT_WKOC_E OR PORT_WKDISC_E OR PORT_WKCONN_E"
definition PORT_RWC_BITS :: u32 where
  "PORT_RWC_BITS = PORT_CSC OR PORT_PEC OR PORT_WRC OR PORT_OCC OR PORT_RC OR PORT_PLC OR PORT_PE"

text \<open>The bits by the effect of a write.\<close>

definition XHCI_PORT_RO :: u32 where "XHCI_PORT_RO = push_bit 0 1 OR push_bit 3 1 OR push_bit 10 0xf OR push_bit 30 1"
definition XHCI_PORT_RWS :: u32 where "XHCI_PORT_RWS = push_bit 5 0xf OR push_bit 9 1 OR push_bit 14 3 OR push_bit 25 7"
definition XHCI_PORT_RW1S :: u32 where "XHCI_PORT_RW1S = push_bit 4 1"
definition XHCI_PORT_RW1CS :: u32 where "XHCI_PORT_RW1CS = push_bit 1 1 OR push_bit 17 0x7f"
definition XHCI_PORT_RW :: u32 where "XHCI_PORT_RW = push_bit 16 1"

definition ehub_xhci_port_state_to_neutral :: "u32 \<Rightarrow> u32" where
  "ehub_xhci_port_state_to_neutral st = (st AND XHCI_PORT_RO) OR (st AND XHCI_PORT_RWS)"

section \<open>The state of the hub\<close>

record xhci_bus_state =
  bus_suspended :: u64
  next_statechange :: u64
  port_c_suspend :: u32
  suspended_ports :: u32
  port_remote_wakeup :: u32
  resume_done :: "u64 list"
  resuming_ports :: u64
  rexit_ports :: u64
  rexit_done :: "nat list"

text \<open>Where the registers are, and the values of the capability registers.\<close>

record hub_params =
  hb_hcd :: hcd_params
  cap_regs :: u32
  op_regs :: u32
  hcs_params1 :: u32
  hcs_params3 :: u32
  hcc_params :: u32

text \<open>Calls of the USB core that the hub code makes.\<close>

datatype hub_note = Resume_Root_Hub | Wakeup_Notification u32 | Rh_Timer u64

text \<open>The two arrays of port registers are allocated without being cleared: an entry that was not
  written yet is \<^const>\<open>None\<close>. \<open>reg_lock\<close> is whether the running context holds the semaphore
  of the registers.\<close>

record root_hub =
  rh_hc :: hc
  rh_usb3 :: bool
  rh_bus :: xhci_bus_state
  reg_lock :: bool
  port_array :: "u8 list"
  usb2_ports :: "u32 option list"
  usb3_ports :: "u32 option list"
  num_usb2_ports :: u32
  num_usb3_ports :: u32
  usb2_port_removable :: "bool list"
  ext_caps :: "u32 list"
  sw_lpm_support :: bool
  hw_lpm_support :: bool
  port_status_u0 :: u32
  comp_mode_timer :: bool
  poll_rh :: bool
  hcd_suspended :: bool
  status_urb :: bool
  status_log :: "u8 list list"
  hub_notes :: "hub_note list"
  port_log :: "(u32 \<times> u32) list"

section \<open>Access\<close>

definition hub_readl :: "env \<Rightarrow> u32 \<Rightarrow> root_hub \<Rightarrow> (u32 \<times> root_hub) option" where
  "hub_readl k addr h = do {
     (v, s) \<leftarrow> ehub_xhci_readl k addr (hcd (rh_hc h));
     Some (v, h\<lparr>rh_hc := (rh_hc h)\<lparr>hcd := s\<rparr>\<rparr>)
   }"

definition hub_writel :: "env \<Rightarrow> u32 \<Rightarrow> u32 \<Rightarrow> root_hub \<Rightarrow> root_hub option" where
  "hub_writel k val addr h = do {
     s \<leftarrow> ehub_xhci_writel k val addr (hcd (rh_hc h));
     Some (h\<lparr>rh_hc := (rh_hc h)\<lparr>hcd := s\<rparr>\<rparr>)
   }"

definition port_writel :: "env \<Rightarrow> u32 \<Rightarrow> u32 \<Rightarrow> root_hub \<Rightarrow> root_hub option" where
  "port_writel k val addr h = map_option (\<lambda>h1. h1\<lparr>port_log := port_log h1 @ [(addr, val)]\<rparr>) (hub_writel k val addr h)"

text \<open>The semaphore of the registers: a context that takes it twice never returns.\<close>

definition xhci_reg_lock :: "root_hub \<Rightarrow> root_hub option" where
  "xhci_reg_lock h = (if reg_lock h then None else Some (h\<lparr>reg_lock := True\<rparr>))"

definition xhci_reg_unlock :: "root_hub \<Rightarrow> root_hub" where
  "xhci_reg_unlock h = h\<lparr>reg_lock := False\<rparr>"

definition nth_opt :: "'a list \<Rightarrow> nat \<Rightarrow> 'a option" where
  "nth_opt xs i = (if i < length xs then Some (xs ! i) else None)"

section \<open>Discovery of the ports\<close>

definition HCS_MAX_PORTS :: "u32 \<Rightarrow> u32" where "HCS_MAX_PORTS p = drop_bit 24 p AND 0x7f"
definition XHCI_HCC_EXT_CAPS :: "u32 \<Rightarrow> u32" where "XHCI_HCC_EXT_CAPS p = drop_bit 16 p AND 0xffff"
definition XHCI_EXT_CAPS_ID :: "u32 \<Rightarrow> u32" where "XHCI_EXT_CAPS_ID p = drop_bit 0 p AND 0xff"
definition XHCI_EXT_CAPS_NEXT :: "u32 \<Rightarrow> u32" where "XHCI_EXT_CAPS_NEXT p = drop_bit 8 p AND 0xff"
definition XHCI_EXT_CAPS_PROTOCOL :: u32 where "XHCI_EXT_CAPS_PROTOCOL = 2"
definition XHCI_EXT_PORT_MAJOR :: "u32 \<Rightarrow> u32" where "XHCI_EXT_PORT_MAJOR x = drop_bit 24 x AND 0xff"
definition XHCI_EXT_PORT_OFF :: "u32 \<Rightarrow> u32" where "XHCI_EXT_PORT_OFF x = x AND 0xff"
definition XHCI_EXT_PORT_COUNT :: "u32 \<Rightarrow> u32" where "XHCI_EXT_PORT_COUNT x = drop_bit 8 x AND 0xff"
definition XHCI_L1C :: u32 where "XHCI_L1C = push_bit 16 1"
definition XHCI_HLC :: u32 where "XHCI_HLC = push_bit 19 1"
definition NUM_PORT_REGS :: u32 where "NUM_PORT_REGS = 4"
definition USB_MAXCHILDREN :: nat where "USB_MAXCHILDREN = 31"

text \<open>One port of a protocol capability: the body of the loop.\<close>

definition mark_port :: "u8 \<Rightarrow> nat \<Rightarrow> root_hub \<Rightarrow> root_hub option" where
  "mark_port major i h = do {
     old \<leftarrow> nth_opt (port_array h) i;
     if old \<noteq> 0
     then if old \<noteq> major \<and> old \<noteq> DUPLICATE_ENTRY
          then let h1 = (if old = 3 then h\<lparr>num_usb3_ports := num_usb3_ports h - 1\<rparr> else h\<lparr>num_usb2_ports := num_usb2_ports h - 1\<rparr>) in
               Some (h1\<lparr>port_array := (port_array h)[i := DUPLICATE_ENTRY]\<rparr>)
          else Some h
     else let h1 = h\<lparr>port_array := (port_array h)[i := major]\<rparr> in
          Some (if major = 3 then h1\<lparr>num_usb3_ports := num_usb3_ports h + 1\<rparr> else h1\<lparr>num_usb2_ports := num_usb2_ports h + 1\<rparr>)
   }"

fun mark_ports :: "u8 \<Rightarrow> nat list \<Rightarrow> root_hub \<Rightarrow> root_hub option" where
  "mark_ports major [] h = Some h"
| "mark_ports major (i # is) h = Option.bind (mark_port major i h) (mark_ports major is)"

definition xhci_add_in_port :: "env \<Rightarrow> hub_params \<Rightarrow> u32 \<Rightarrow> u32 \<Rightarrow> u8 \<Rightarrow> nat \<Rightarrow> root_hub \<Rightarrow> root_hub option" where
  "xhci_add_in_port k B num_ports addr major max_caps h =
     (if 3 < major then Some h
      else do {
        (temp, h1) \<leftarrow> hub_readl k (addr + 8) h;
        let port_offset = XHCI_EXT_PORT_OFF temp;
        let port_count = XHCI_EXT_PORT_COUNT temp;
        if temp = - 1 then Some h1
        else if port_offset = 0 \<or> num_ports < port_offset + port_count - 1 then Some h1
        else do {
          let h2 = (if major < 3 \<and> length (ext_caps h1) < max_caps then h1\<lparr>ext_caps := ext_caps h1 @ [temp]\<rparr> else h1);
          let h3 = (if hci_version (hb_hcd B) = 0x96 \<and> major \<noteq> 3 \<and> temp AND XHCI_L1C \<noteq> 0 then h2\<lparr>sw_lpm_support := True\<rparr> else h2);
          let h4 = (if 0x100 \<le> hci_version (hb_hcd B) \<and> major \<noteq> 3
                    then h3\<lparr>sw_lpm_support := True, hw_lpm_support := (hw_lpm_support h3 \<or> temp AND XHCI_HLC \<noteq> 0)\<rparr> else h3);
          mark_ports major [unat port_offset - 1 ..< unat port_offset - 1 + unat port_count] h4
        }
      })"

text \<open>The first walk through the list of capabilities counts the protocols; \<open>Inl\<close> is a failed
  read. The list is the controller's, and nothing but its end ends the walk.\<close>

partial_function (option) count_caps :: "env \<Rightarrow> u32 \<Rightarrow> nat \<Rightarrow> root_hub \<Rightarrow> (nat option \<times> root_hub) option" where
  [code]: "count_caps k addr n h = do {
     (cap_id, h1) \<leftarrow> hub_readl k addr h;
     if cap_id = - 1 then Some (None, h1)
     else do {
       let n1 = (if XHCI_EXT_CAPS_ID cap_id = XHCI_EXT_CAPS_PROTOCOL then Suc n else n);
       let offset = XHCI_EXT_CAPS_NEXT cap_id;
       if offset = 0 then Some (Some n1, h1) else count_caps k (addr + 4 * offset) n1 h1
     }
   }"

partial_function (option) scan_caps :: "env \<Rightarrow> hub_params \<Rightarrow> u32 \<Rightarrow> nat \<Rightarrow> u32 \<Rightarrow> root_hub \<Rightarrow> (int \<times> root_hub) option" where
  [code]: "scan_caps k B num_ports max_caps addr h = do {
     (cap_id, h1) \<leftarrow> hub_readl k addr h;
     if cap_id = - 1 then Some (- ENOMEM, h1)
     else do {
       h2 \<leftarrow> (if XHCI_EXT_CAPS_ID cap_id = XHCI_EXT_CAPS_PROTOCOL
              then xhci_add_in_port k B num_ports addr (ucast (XHCI_EXT_PORT_MAJOR cap_id)) max_caps h1 else Some h1);
       let offset = XHCI_EXT_CAPS_NEXT cap_id;
       if offset = 0 \<or> num_usb2_ports h2 + num_usb3_ports h2 = num_ports then Some (0, h2)
       else scan_caps k B num_ports max_caps (addr + 4 * offset) h2
     }
   }"

section \<open>The arrays of the two hubs\<close>

definition portsc_addr :: "hub_params \<Rightarrow> nat \<Rightarrow> u32" where
  "portsc_addr B i = op_regs B + 0x400 + 4 * (NUM_PORT_REGS * of_nat i)"

definition is_usb2 :: "u8 \<Rightarrow> bool" where "is_usb2 p \<longleftrightarrow> p \<noteq> 3 \<and> p \<noteq> 0 \<and> p \<noteq> DUPLICATE_ENTRY"

text \<open>The USB 2 ports: the status register is read through entry \<open>i\<close> of the array, not through the
  entry just written, to keep whether a device at the port is removable. Reading an entry outside the
  array or not yet written has no behaviour defined by C and is \<^const>\<open>None\<close> here, as everywhere in
  the model: in the running kernel whatever the memory holds is sent over the bus as the address of a
  register, and the discovery goes on with what comes back.\<close>

fun fill_usb2 :: "env \<Rightarrow> hub_params \<Rightarrow> nat list \<Rightarrow> nat \<Rightarrow> root_hub \<Rightarrow> root_hub option" where
  "fill_usb2 k B [] port_index h = Some h"
| "fill_usb2 k B (i # is) port_index h = do {
     p \<leftarrow> nth_opt (port_array h) i;
     if \<not> is_usb2 p then fill_usb2 k B is port_index h
     else do {
       _ \<leftarrow> nth_opt (usb2_ports h) port_index;
       let h1 = h\<lparr>usb2_ports := (usb2_ports h)[port_index := Some (portsc_addr B i)]\<rparr>;
       addr \<leftarrow> Option.bind (nth_opt (usb2_ports h1) i) id;
       (portsc, h2) \<leftarrow> hub_readl k addr h1;
       _ \<leftarrow> nth_opt (usb2_port_removable h2) i;
       let h3 = h2\<lparr>usb2_port_removable := (usb2_port_removable h2)[i := (portsc AND PORT_DEV_REMOVE \<noteq> 0)]\<rparr>;
       if Suc port_index = unat (num_usb2_ports h3) then Some h3 else fill_usb2 k B is (Suc port_index) h3
     }
   }"

fun fill_usb3 :: "hub_params \<Rightarrow> nat list \<Rightarrow> nat \<Rightarrow> root_hub \<Rightarrow> root_hub option" where
  "fill_usb3 B [] port_index h = Some h"
| "fill_usb3 B (i # is) port_index h = do {
     p \<leftarrow> nth_opt (port_array h) i;
     if p \<noteq> 3 then fill_usb3 B is port_index h
     else do {
       _ \<leftarrow> nth_opt (usb3_ports h) port_index;
       let h1 = h\<lparr>usb3_ports := (usb3_ports h)[port_index := Some (portsc_addr B i)]\<rparr>;
       if Suc port_index = unat (num_usb3_ports h1) then Some h1 else fill_usb3 B is (Suc port_index) h1
     }
   }"

text \<open>A call of \<open>kzalloc\<close> or \<open>kmalloc\<close>.\<close>

definition hub_alloc :: "env \<Rightarrow> root_hub \<Rightarrow> bool \<times> root_hub" where
  "hub_alloc k h = (kzalloc k (tick (hcd (rh_hc h))), h\<lparr>rh_hc := (rh_hc h)\<lparr>hcd := tick_up (hcd (rh_hc h))\<rparr>\<rparr>)"

definition limit_ports :: "root_hub \<Rightarrow> root_hub" where
  "limit_ports h = h\<lparr>num_usb3_ports := (if 15 < num_usb3_ports h then 15 else num_usb3_ports h),
     num_usb2_ports := (if of_nat USB_MAXCHILDREN < num_usb2_ports h then of_nat USB_MAXCHILDREN else num_usb2_ports h)\<rparr>"

definition build_usb3 :: "env \<Rightarrow> hub_params \<Rightarrow> nat \<Rightarrow> root_hub \<Rightarrow> (int \<times> root_hub) option" where
  "build_usb3 k B n h =
     (if num_usb3_ports h = 0 then Some (0, h)
      else case hub_alloc k h of (ok, h1) \<Rightarrow>
        if \<not> ok then Some (- ENOMEM, h1)
        else map_option (\<lambda>h2. (0, h2)) (fill_usb3 B [0..<n] 0 (h1\<lparr>usb3_ports := replicate (unat (num_usb3_ports h1)) None\<rparr>)))"

definition build_usb2 :: "env \<Rightarrow> hub_params \<Rightarrow> nat \<Rightarrow> root_hub \<Rightarrow> (int \<times> root_hub) option" where
  "build_usb2 k B n h =
     (if num_usb2_ports h = 0 then Some (0, h)
      else case hub_alloc k h of (ok, h1) \<Rightarrow>
        if \<not> ok then Some (- ENOMEM, h1)
        else map_option (\<lambda>h2. (0, h2)) (fill_usb2 k B [0..<n] 0 (h1\<lparr>usb2_ports := replicate (unat (num_usb2_ports h1)) None\<rparr>)))"

text \<open>The tables of bandwidth are cleared with the ports.\<close>

definition empty_interval_bw :: xhci_interval_bw where
  "empty_interval_bw = \<lparr>num_packets = 0, endpoints = [], overhead = (\<lambda>_. 0)\<rparr>"
definition empty_bw_info :: xhci_root_port_bw_info where
  "empty_bw_info = \<lparr>rh_tts = [], num_active_tts = 0, rh_bw_table = \<lparr>interval0_esit_payload = 0, interval_bw = (\<lambda>_. empty_interval_bw),
     bw_used = 0, ss_bw_in = 0, ss_bw_out = 0\<rparr>\<rparr>"

definition build_hubs :: "env \<Rightarrow> hub_params \<Rightarrow> nat \<Rightarrow> root_hub \<Rightarrow> (int \<times> root_hub) option" where
  "build_hubs k B n h =
     (if num_usb2_ports h = 0 \<and> num_usb3_ports h = 0 then Some (- ENODEV, h)
      else do {
        (ret, h1) \<leftarrow> build_usb2 k B n (limit_ports h);
        if ret < 0 then Some (ret, h1) else build_usb3 k B n h1
      })"

definition xhci_setup_port_arrays :: "env \<Rightarrow> hub_params \<Rightarrow> root_hub \<Rightarrow> (int \<times> root_hub) option" where
  "xhci_setup_port_arrays k B h = do {
     (v, h1) \<leftarrow> hub_readl k (cap_regs B + 0x10) h;
     let offset = XHCI_HCC_EXT_CAPS v;
     let num_ports = HCS_MAX_PORTS (hcs_params1 B);
     if offset = XHCI_HCC_EXT_CAPS (- 1) \<or> offset = 0 then Some (- ENODEV, h1)
     else case hub_alloc k h1 of (ok, h2) \<Rightarrow>
       if \<not> ok then Some (- ENOMEM, h2)
       else case hub_alloc k (h2\<lparr>port_array := replicate (unat num_ports) 0\<rparr>) of (ok1, h3) \<Rightarrow>
         if \<not> ok1 then Some (- ENOMEM, h3)
         else do {
           let h4 = h3\<lparr>rh_hc := (rh_hc h3)\<lparr>bw := (bw (rh_hc h3))\<lparr>rh_bw := replicate (unat num_ports) empty_bw_info\<rparr>\<rparr>\<rparr>;
           let addr = cap_regs B + 4 * offset;
           (caps, h5) \<leftarrow> count_caps k addr 0 h4;
           (case caps of
              None \<Rightarrow> Some (- ENOMEM, h5)
            | Some cap_count \<Rightarrow> (case hub_alloc k h5 of (ok2, h6) \<Rightarrow>
                if \<not> ok2 then Some (- ENOMEM, h6)
                else do {
                  (ret, h7) \<leftarrow> scan_caps k B num_ports cap_count addr (h6\<lparr>ext_caps := replicate (length (ext_caps h6)) 0\<rparr>);
                  if ret < 0 then Some (ret, h7) else build_hubs k B (unat num_ports) h7
                }))
         }
   }"

section \<open>From a port of the controller to a port of a hub\<close>

text \<open>\<open>port_id\<close> is one-based, the result is an index into the array of the hub.\<close>

fun similar_ports :: "bool \<Rightarrow> u8 list \<Rightarrow> nat" where
  "similar_ports usb3 [] = 0"
| "similar_ports usb3 (p # ps) =
     (if p = 0 \<or> p = DUPLICATE_ENTRY then similar_ports usb3 ps
      else (if (p = 3) = usb3 then Suc (similar_ports usb3 ps) else similar_ports usb3 ps))"

definition find_faked_portnum_from_hw_portnum :: "u32 \<Rightarrow> root_hub \<Rightarrow> nat option" where
  "find_faked_portnum_from_hw_portnum port_id h =
     (if length (port_array h) < unat (port_id - 1) then None
      else Some (similar_ports (rh_usb3 h) (take (unat (port_id - 1)) (port_array h))))"

text \<open>The ports of the hub.\<close>

definition max_ports :: "root_hub \<Rightarrow> u32" where
  "max_ports h = (if rh_usb3 h then num_usb3_ports h else num_usb2_ports h)"

definition hub_ports :: "root_hub \<Rightarrow> u32 option list" where
  "hub_ports h = (if rh_usb3 h then usb3_ports h else usb2_ports h)"

definition port_addr :: "root_hub \<Rightarrow> nat \<Rightarrow> u32 option" where
  "port_addr h i = Option.bind (nth_opt (hub_ports h) i) id"

end
