(* ===== verification/Xhci_Hub.thy ===== *)
theory Xhci_Hub
  imports Xhci_Port
begin

text \<open>
  The root hub (\<open>xhci-hub.c\<close>, \<open>xhci-ring.c\<close>): hub requests of the USB core, suspend and resume
  of the bus, and port status events.

  The hub code sleeps and waits. \<open>others\<close> is what the rest of the driver does to the controller and
  the state of the bus meanwhile, \<open>jiffies\<close> is the clock, whose unit \<open>msecs_to_jiffies\<close> tells, and \<open>wait\<close> is, as for the other
  commands, what happens until a command has completed.
\<close>

section \<open>Constants\<close>

text \<open>Requests and features of hubs, as the USB core defines them.\<close>

definition GetHubStatus :: u16 where "GetHubStatus = 0xa000"
definition GetHubDescriptor :: u16 where "GetHubDescriptor = 0xa006"
definition GetDeviceDescriptor :: u16 where "GetDeviceDescriptor = 0x8006"
definition GetPortStatus :: u16 where "GetPortStatus = 0xa300"
definition SetPortFeature :: u16 where "SetPortFeature = 0x2303"
definition ClearPortFeature :: u16 where "ClearPortFeature = 0x2301"

definition USB_PORT_FEAT_ENABLE :: u16 where "USB_PORT_FEAT_ENABLE = 1"
definition USB_PORT_FEAT_SUSPEND :: u16 where "USB_PORT_FEAT_SUSPEND = 2"
definition USB_PORT_FEAT_RESET :: u16 where "USB_PORT_FEAT_RESET = 4"
definition USB_PORT_FEAT_LINK_STATE :: u16 where "USB_PORT_FEAT_LINK_STATE = 5"
definition USB_PORT_FEAT_POWER :: u16 where "USB_PORT_FEAT_POWER = 8"
definition USB_PORT_FEAT_C_CONNECTION :: u16 where "USB_PORT_FEAT_C_CONNECTION = 16"
definition USB_PORT_FEAT_C_ENABLE :: u16 where "USB_PORT_FEAT_C_ENABLE = 17"
definition USB_PORT_FEAT_C_SUSPEND :: u16 where "USB_PORT_FEAT_C_SUSPEND = 18"
definition USB_PORT_FEAT_C_OVER_CURRENT :: u16 where "USB_PORT_FEAT_C_OVER_CURRENT = 19"
definition USB_PORT_FEAT_C_RESET :: u16 where "USB_PORT_FEAT_C_RESET = 20"
definition USB_PORT_FEAT_U1_TIMEOUT :: u16 where "USB_PORT_FEAT_U1_TIMEOUT = 23"
definition USB_PORT_FEAT_U2_TIMEOUT :: u16 where "USB_PORT_FEAT_U2_TIMEOUT = 24"
definition USB_PORT_FEAT_C_PORT_LINK_STATE :: u16 where "USB_PORT_FEAT_C_PORT_LINK_STATE = 25"
definition USB_PORT_FEAT_C_PORT_CONFIG_ERROR :: u16 where "USB_PORT_FEAT_C_PORT_CONFIG_ERROR = 26"
definition USB_PORT_FEAT_REMOTE_WAKE_MASK :: u16 where "USB_PORT_FEAT_REMOTE_WAKE_MASK = 27"
definition USB_PORT_FEAT_BH_PORT_RESET :: u16 where "USB_PORT_FEAT_BH_PORT_RESET = 28"
definition USB_PORT_FEAT_C_BH_PORT_RESET :: u16 where "USB_PORT_FEAT_C_BH_PORT_RESET = 29"

definition USB_PORT_STAT_CONNECTION :: u32 where "USB_PORT_STAT_CONNECTION = 1"
definition USB_PORT_STAT_ENABLE :: u32 where "USB_PORT_STAT_ENABLE = 2"
definition USB_PORT_STAT_SUSPEND :: u32 where "USB_PORT_STAT_SUSPEND = 4"
definition USB_PORT_STAT_OVERCURRENT :: u32 where "USB_PORT_STAT_OVERCURRENT = 8"
definition USB_PORT_STAT_RESET :: u32 where "USB_PORT_STAT_RESET = 0x10"
definition USB_PORT_STAT_L1 :: u32 where "USB_PORT_STAT_L1 = 0x20"
definition USB_PORT_STAT_POWER :: u32 where "USB_PORT_STAT_POWER = 0x100"
definition USB_SS_PORT_STAT_POWER :: u32 where "USB_SS_PORT_STAT_POWER = 0x200"
definition USB_PORT_STAT_LOW_SPEED :: u32 where "USB_PORT_STAT_LOW_SPEED = 0x200"
definition USB_PORT_STAT_HIGH_SPEED :: u32 where "USB_PORT_STAT_HIGH_SPEED = 0x400"
definition USB_SS_PORT_LS_U3 :: u32 where "USB_SS_PORT_LS_U3 = 0x60"
definition USB_SS_PORT_LS_SS_DISABLED :: u32 where "USB_SS_PORT_LS_SS_DISABLED = 0x80"
definition USB_SS_PORT_LS_RX_DETECT :: u32 where "USB_SS_PORT_LS_RX_DETECT = 0xa0"
definition USB_SS_PORT_LS_SS_INACTIVE :: u32 where "USB_SS_PORT_LS_SS_INACTIVE = 0xc0"
definition USB_SS_PORT_LS_COMP_MOD :: u32 where "USB_SS_PORT_LS_COMP_MOD = 0x140"

definition EBUSY :: int where "EBUSY = 16"

definition LAST_EP_INDEX :: nat where "LAST_EP_INDEX = 30"
definition XHCI_COMP_MODE_QUIRK :: u32 where "XHCI_COMP_MODE_QUIRK = push_bit 14 1"
definition XHCI_LPM_SUPPORT :: u32 where "XHCI_LPM_SUPPORT = push_bit 11 1"
definition HCC_PPC :: "u32 \<Rightarrow> u32" where "HCC_PPC p = p AND push_bit 3 1"
definition HCC_LTC :: "u32 \<Rightarrow> u32" where "HCC_LTC p = p AND push_bit 6 1"
definition HCS_U1_LATENCY :: "u32 \<Rightarrow> u32" where "HCS_U1_LATENCY p = drop_bit 0 p AND 0xff"
definition HCS_U2_LATENCY :: "u32 \<Rightarrow> u32" where "HCS_U2_LATENCY p = drop_bit 16 p AND 0xffff"
definition PORT_U1_TIMEOUT :: "u32 \<Rightarrow> u32" where "PORT_U1_TIMEOUT p = p AND 0xff"
definition PORT_U1_TIMEOUT_MASK :: u32 where "PORT_U1_TIMEOUT_MASK = 0xff"
definition PORT_U2_TIMEOUT :: "u32 \<Rightarrow> u32" where "PORT_U2_TIMEOUT p = push_bit 8 (p AND 0xff)"
definition PORT_U2_TIMEOUT_MASK :: u32 where "PORT_U2_TIMEOUT_MASK = push_bit 8 0xff"
definition CMD_RUN :: u32 where "CMD_RUN = push_bit 0 1"
definition CMD_EIE :: u32 where "CMD_EIE = push_bit 2 1"
definition GET_PORT_ID :: "u32 \<Rightarrow> u32" where "GET_PORT_ID p = drop_bit 24 (p AND push_bit 24 0xff)"

section \<open>Time\<close>

record hub_env =
  jiffies :: "nat \<Rightarrow> u64"
  msecs_to_jiffies :: "nat \<Rightarrow> u64"
  USB_RESUME_TIMEOUT :: nat
  others :: "nat \<Rightarrow> hc \<times> xhci_bus_state \<Rightarrow> (hc \<times> xhci_bus_state) option"

definition now :: "hub_env \<Rightarrow> root_hub \<Rightarrow> u64" where "now E h = jiffies E (tick (hcd (rh_hc h)))"

definition time_after_eq :: "u64 \<Rightarrow> u64 \<Rightarrow> bool" where "time_after_eq a b \<longleftrightarrow> 0 \<le> sint (a - b)"

text \<open>The rest of the driver runs; the code that sleeps has put the semaphore down.\<close>

definition run_others :: "hub_env \<Rightarrow> root_hub \<Rightarrow> root_hub option" where
  "run_others E h = map_option (\<lambda>(c, b). h\<lparr>rh_hc := c, rh_bus := b\<rparr>) (others E (tick (hcd (rh_hc h))) (rh_hc h, rh_bus h))"

definition sleep_unlocked :: "hub_env \<Rightarrow> root_hub \<Rightarrow> root_hub option" where
  "sleep_unlocked E h = Option.bind (run_others E (xhci_reg_unlock h)) xhci_reg_lock"

section \<open>Devices behind a port\<close>

definition ehub_xhci_find_slot_id_by_port :: "root_hub \<Rightarrow> u16 \<Rightarrow> u32" where
  "ehub_xhci_find_slot_id_by_port h port =
     (case List.find (\<lambda>i. case devs (rh_hc h) (of_nat i) of
          None \<Rightarrow> False
        | Some vd \<Rightarrow> (ud_speed (udev vd) = USB_SPEED_SUPER) = rh_usb3 h \<and> (ucast (fake_port vd) :: u16) = port) [0..<MAX_HC_SLOTS] of
        None \<Rightarrow> 0
      | Some i \<Rightarrow> of_nat i)"

fun stop_eps :: "env \<Rightarrow> hcd_params \<Rightarrow> u32 \<Rightarrow> u32 \<Rightarrow> nat list \<Rightarrow> hc \<Rightarrow> (bool \<times> hc) option" where
  "stop_eps k P slot_id suspend [] c = Some (True, c)"
| "stop_eps k P slot_id suspend (i # is) c = do {
     ep \<leftarrow> get_ep slot_id (of_nat i) c;
     if ep_ring ep = None then stop_eps k P slot_id suspend is c
     else (case ehub_xhci_alloc_command k False False c of
        (None, c1) \<Rightarrow> Some (False, c1)
      | (Some command, c1) \<Rightarrow> do {
          (_, c2) \<leftarrow> run_command (ehub_xhci_queue_stop_endpoint k (hp_quirks P) command slot_id (of_nat i) suspend) c1;
          stop_eps k P slot_id suspend is c2
        })
   }"

definition xhci_stop_device :: "env \<Rightarrow> hcd_params \<Rightarrow> (nat \<Rightarrow> hc \<Rightarrow> hc option) \<Rightarrow> u32 \<Rightarrow> u32 \<Rightarrow> hc \<Rightarrow> (int \<times> hc) option" where
  "xhci_stop_device k P wait slot_id suspend c = (case ehub_xhci_alloc_command k False True c of
     (None, c1) \<Rightarrow> Some (- ENOMEM, c1)
   | (Some cmd, c1) \<Rightarrow> do {
       _ \<leftarrow> devs c1 slot_id;
       (ok, c2) \<leftarrow> stop_eps k P slot_id suspend (rev [1..<LAST_EP_INDEX + 1]) c1;
       if \<not> ok then Some (- ENOMEM, ehub_xhci_free_command cmd c2)
       else do {
         (_, c3) \<leftarrow> run_command (ehub_xhci_queue_stop_endpoint k (hp_quirks P) cmd slot_id 0 suspend) c2;
         c4 \<leftarrow> with_hcd (ehub_xhci_ring_cmd_db k) c3;
         c5 \<leftarrow> wait cmd c4;
         obj \<leftarrow> commands c5 cmd;
         Some (if cmd_status obj = COMP_CMD_ABORT \<or> cmd_status obj = COMP_CMD_STOP then - ETIME else 0, ehub_xhci_free_command cmd c5)
       }
     })"

fun ring_streams :: "env \<Rightarrow> u32 \<Rightarrow> u32 \<Rightarrow> nat list \<Rightarrow> hc \<Rightarrow> hc option" where
  "ring_streams k slot_id ep_index [] c = Some c"
| "ring_streams k slot_id ep_index (s # ss) c =
     Option.bind (with_hcd (ehub_xhci_ring_ep_doorbell k slot_id ep_index (of_nat s)) c) (ring_streams k slot_id ep_index ss)"

fun ring_eps :: "env \<Rightarrow> u32 \<Rightarrow> nat list \<Rightarrow> hc \<Rightarrow> hc option" where
  "ring_eps k slot_id [] c = Some c"
| "ring_eps k slot_id (i # is) c = do {
     ep \<leftarrow> get_ep slot_id (of_nat i) c;
     c1 \<leftarrow> (if ep_state (hcd c) slot_id (of_nat i) AND EP_HAS_STREAMS \<noteq> 0
            then Option.bind (stream_info ep) (\<lambda>si. ring_streams k slot_id (of_nat i) [1..<unat (num_streams si)] c)
            else if ep_ring ep \<noteq> None then with_hcd (ehub_xhci_ring_ep_doorbell k slot_id (of_nat i) 0) c
            else Some c);
     ring_eps k slot_id is c1
   }"

definition ehub_xhci_ring_device :: "env \<Rightarrow> u32 \<Rightarrow> hc \<Rightarrow> hc option" where
  "ehub_xhci_ring_device k slot_id c = ring_eps k slot_id [0..<LAST_EP_INDEX + 1] c"

text \<open>The same on the controller inside the hub.\<close>

definition with_hc :: "(hc \<Rightarrow> hc option) \<Rightarrow> root_hub \<Rightarrow> root_hub option" where
  "with_hc f h = map_option (\<lambda>c. h\<lparr>rh_hc := c\<rparr>) (f (rh_hc h))"

text \<open>Stopping a device is done without the semaphore, its result is not used.\<close>

definition stop_unlocked :: "env \<Rightarrow> hub_params \<Rightarrow> (nat \<Rightarrow> hc \<Rightarrow> hc option) \<Rightarrow> u32 \<Rightarrow> root_hub \<Rightarrow> root_hub option" where
  "stop_unlocked k B wait slot_id h =
     Option.bind (with_hc (\<lambda>c. map_option snd (xhci_stop_device k (hb_hcd B) wait slot_id 1 c)) (xhci_reg_unlock h)) xhci_reg_lock"

section \<open>Changes of a port\<close>

definition xhci_disable_port :: "env \<Rightarrow> u32 \<Rightarrow> u32 \<Rightarrow> root_hub \<Rightarrow> root_hub option" where
  "xhci_disable_port k addr port_status h =
     (if rh_usb3 h then Some h
      else do {
        h1 \<leftarrow> port_writel k (port_status OR PORT_PE) addr h;
        map_option snd (hub_readl k addr h1)
      })"

text \<open>The change bit of a feature.\<close>

definition change_bit :: "u16 \<Rightarrow> u32 option" where
  "change_bit wVal =
     (if wVal = USB_PORT_FEAT_C_RESET then Some PORT_RC
      else if wVal = USB_PORT_FEAT_C_BH_PORT_RESET then Some PORT_WRC
      else if wVal = USB_PORT_FEAT_C_CONNECTION then Some PORT_CSC
      else if wVal = USB_PORT_FEAT_C_OVER_CURRENT then Some PORT_OCC
      else if wVal = USB_PORT_FEAT_C_ENABLE then Some PORT_PEC
      else if wVal = USB_PORT_FEAT_C_SUSPEND then Some PORT_PLC
      else if wVal = USB_PORT_FEAT_C_PORT_LINK_STATE then Some PORT_PLC
      else if wVal = USB_PORT_FEAT_C_PORT_CONFIG_ERROR then Some PORT_CEC
      else None)"

definition xhci_clear_port_change_bit :: "env \<Rightarrow> u16 \<Rightarrow> u32 \<Rightarrow> u32 \<Rightarrow> root_hub \<Rightarrow> root_hub option" where
  "xhci_clear_port_change_bit k wVal addr port_status h = (case change_bit wVal of
     None \<Rightarrow> Some h
   | Some status \<Rightarrow> do {
       h1 \<leftarrow> port_writel k (port_status OR status) addr h;
       map_option snd (hub_readl k addr h1)
     })"

definition ehub_xhci_set_link_state :: "env \<Rightarrow> nat \<Rightarrow> u32 \<Rightarrow> root_hub \<Rightarrow> root_hub option" where
  "ehub_xhci_set_link_state k port_id link_state h = do {
     addr \<leftarrow> port_addr h port_id;
     (temp, h1) \<leftarrow> hub_readl k addr h;
     port_writel k ((ehub_xhci_port_state_to_neutral temp AND NOT PORT_PLS_MASK) OR (PORT_LINK_STROBE OR link_state)) addr h1
   }"

definition wake_bit :: "bool \<Rightarrow> u32 \<Rightarrow> u32 \<Rightarrow> u32" where
  "wake_bit on b temp = (if on then temp OR b else temp AND NOT b)"

definition xhci_set_remote_wake_mask :: "env \<Rightarrow> nat \<Rightarrow> u16 \<Rightarrow> root_hub \<Rightarrow> root_hub option" where
  "xhci_set_remote_wake_mask k port_id wake_mask h = do {
     addr \<leftarrow> port_addr h port_id;
     (temp, h1) \<leftarrow> hub_readl k addr h;
     port_writel k (wake_bit (wake_mask AND push_bit 10 1 \<noteq> 0) PORT_WKOC_E (wake_bit (wake_mask AND push_bit 9 1 \<noteq> 0) PORT_WKDISC_E
       (wake_bit (wake_mask AND push_bit 8 1 \<noteq> 0) PORT_WKCONN_E (ehub_xhci_port_state_to_neutral temp)))) addr h1
   }"

definition ehub_xhci_test_and_clear_bit :: "env \<Rightarrow> nat \<Rightarrow> u32 \<Rightarrow> root_hub \<Rightarrow> root_hub option" where
  "ehub_xhci_test_and_clear_bit k port_id port_bit h = do {
     addr \<leftarrow> port_addr h port_id;
     (temp, h1) \<leftarrow> hub_readl k addr h;
     if temp AND port_bit \<noteq> 0 then port_writel k (ehub_xhci_port_state_to_neutral temp OR port_bit) addr h1 else Some h1
   }"
section \<open>Status of a port\<close>

definition xhci_port_speed :: "u32 \<Rightarrow> u32" where
  "xhci_port_speed port_status =
     (if DEV_LOWSPEED port_status then USB_PORT_STAT_LOW_SPEED else if DEV_HIGHSPEED port_status then USB_PORT_STAT_HIGH_SPEED else 0)"

definition xhci_hub_report_usb2_link_state :: "u32 \<Rightarrow> u32 \<Rightarrow> u32" where
  "xhci_hub_report_usb2_link_state status status_reg =
     (if status_reg AND PORT_PLS_MASK = XDEV_U2 then status OR USB_PORT_STAT_L1 else status)"

definition xhci_hub_report_usb3_link_state :: "u32 \<Rightarrow> u32 \<Rightarrow> u32 \<Rightarrow> u32" where
  "xhci_hub_report_usb3_link_state quirks status status_reg =
     (let pls = status_reg AND PORT_PLS_MASK in
      if pls = XDEV_RESUME then status
      else if status_reg AND PORT_CAS \<noteq> 0
      then status OR ((if pls \<noteq> USB_SS_PORT_LS_COMP_MOD \<and> pls \<noteq> USB_SS_PORT_LS_SS_INACTIVE then USB_SS_PORT_LS_COMP_MOD else pls)
             OR USB_PORT_STAT_CONNECTION)
      else status OR (if quirks AND XHCI_COMP_MODE_QUIRK \<noteq> 0 \<and> pls = USB_SS_PORT_LS_COMP_MOD then pls OR USB_PORT_STAT_CONNECTION else pls))"

definition xhci_del_comp_mod_timer :: "u32 \<Rightarrow> u32 \<Rightarrow> nat \<Rightarrow> root_hub \<Rightarrow> root_hub" where
  "xhci_del_comp_mod_timer quirks status w h =
     (let all_ports_seen_u0 = push_bit (unat (num_usb3_ports h)) 1 - 1;
          seen = port_status_u0 h OR push_bit w 1 in
      if quirks AND XHCI_COMP_MODE_QUIRK \<noteq> 0 \<and> port_status_u0 h \<noteq> all_ports_seen_u0 \<and> status AND PORT_PLS_MASK = XDEV_U0
      then h\<lparr>port_status_u0 := seen, comp_mode_timer := (comp_mode_timer h \<and> seen \<noteq> all_ports_seen_u0)\<rparr>
      else h)"

text \<open>The change half of the answer.\<close>

definition port_change_status :: "bool \<Rightarrow> u32 \<Rightarrow> u32" where
  "port_change_status usb3 raw =
     (if raw AND PORT_CSC \<noteq> 0 then push_bit 16 0x1 else 0)
     OR (if raw AND PORT_PEC \<noteq> 0 then push_bit 16 0x2 else 0)
     OR (if raw AND PORT_OCC \<noteq> 0 then push_bit 16 0x8 else 0)
     OR (if raw AND PORT_RC \<noteq> 0 then push_bit 16 0x10 else 0)
     OR (if usb3 \<and> raw AND PORT_PLC \<noteq> 0 then push_bit 16 0x40 else 0)
     OR (if usb3 \<and> raw AND PORT_WRC \<noteq> 0 then push_bit 16 0x20 else 0)
     OR (if usb3 \<and> raw AND PORT_CEC \<noteq> 0 then push_bit 16 0x80 else 0)"

text \<open>The end of the resume of a USB 2 port. The port leaves the resume state and the code waits for
  the port status event that reports it; the result are bits of the status, or \<^const>\<open>None\<close> for the
  status all ones.\<close>

definition put_bus :: "(xhci_bus_state \<Rightarrow> xhci_bus_state) \<Rightarrow> root_hub \<Rightarrow> root_hub" where
  "put_bus f h = h\<lparr>rh_bus := f (rh_bus h)\<rparr>"

definition finish_resume :: "env \<Rightarrow> hub_env \<Rightarrow> nat \<Rightarrow> root_hub \<Rightarrow> (u32 option \<times> root_hub) option" where
  "finish_resume k E w h = do {
     let h1 = put_bus (\<lambda>b. b\<lparr>resume_done := (resume_done b)[w := 0], resuming_ports := resuming_ports b AND NOT (push_bit w 1),
          rexit_ports := rexit_ports b OR push_bit w 1\<rparr>) h;
     h2 \<leftarrow> ehub_xhci_set_link_state k w XDEV_U0 h1;
     h3 \<leftarrow> sleep_unlocked E h2;
     done \<leftarrow> nth_opt (rexit_done (rh_bus h3)) w;
     let resumed = put_bus (\<lambda>b. b\<lparr>port_c_suspend := port_c_suspend b OR push_bit w 1, suspended_ports := suspended_ports b AND NOT (push_bit w 1)\<rparr>);
     if done \<noteq> 0
     then do {
       let h4 = put_bus (\<lambda>b. b\<lparr>rexit_done := (rexit_done b)[w := done - 1]\<rparr>) h3;
       let slot_id = ehub_xhci_find_slot_id_by_port h4 (of_nat w + 1);
       if slot_id = 0 then Some (None, h4)
       else map_option (\<lambda>h5. (Some 0, resumed h5)) (with_hc (ehub_xhci_ring_device k slot_id) h4)
     }
     else do {
       addr \<leftarrow> port_addr h3 w;
       (_, h4) \<leftarrow> hub_readl k addr h3;
       Some (Some USB_PORT_STAT_SUSPEND, resumed (put_bus (\<lambda>b. b\<lparr>rexit_ports := rexit_ports b AND NOT (push_bit w 1)\<rparr>) h4))
     }
   }"

definition resume_status :: "env \<Rightarrow> hub_env \<Rightarrow> nat \<Rightarrow> u32 \<Rightarrow> root_hub \<Rightarrow> (u32 option \<times> root_hub) option" where
  "resume_status k E w raw h =
     (if raw AND PORT_PLS_MASK = XDEV_RESUME \<and> \<not> DEV_SUPERSPEED raw
      then if raw AND PORT_RESET \<noteq> 0 \<or> raw AND PORT_PE = 0 then Some (None, h)
           else do {
             due \<leftarrow> nth_opt (resume_done (rh_bus h)) w;
             if time_after_eq (now E h) due then finish_resume k E w h else Some (Some USB_PORT_STAT_SUSPEND, h)
           }
      else Some (Some 0, h))"

text \<open>The rest of the status bits.\<close>

definition port_status_bits :: "bool \<Rightarrow> u32 \<Rightarrow> u32" where
  "port_status_bits usb3 raw =
     (if raw AND PORT_CONNECT \<noteq> 0 then USB_PORT_STAT_CONNECTION OR xhci_port_speed raw else 0)
     OR (if raw AND PORT_PE \<noteq> 0 then USB_PORT_STAT_ENABLE else 0)
     OR (if raw AND PORT_OC \<noteq> 0 then USB_PORT_STAT_OVERCURRENT else 0)
     OR (if raw AND PORT_RESET \<noteq> 0 then USB_PORT_STAT_RESET else 0)
     OR (if raw AND PORT_POWER \<noteq> 0 then (if usb3 then USB_SS_PORT_STAT_POWER else USB_PORT_STAT_POWER) else 0)"

definition xhci_get_port_status :: "env \<Rightarrow> hub_env \<Rightarrow> hub_params \<Rightarrow> nat \<Rightarrow> u32 \<Rightarrow> root_hub \<Rightarrow> (u32 \<times> root_hub) option" where
  "xhci_get_port_status k E B w raw h = do {
     let status = port_change_status (rh_usb3 h) raw
        OR (if \<not> rh_usb3 h \<and> raw AND PORT_PLS_MASK = XDEV_U3 \<and> raw AND PORT_POWER \<noteq> 0 then USB_PORT_STAT_SUSPEND else 0);
     (res, h1) \<leftarrow> resume_status k E w raw h;
     (case res of
        None \<Rightarrow> Some (- 1, h1)
      | Some bits \<Rightarrow>
          let resumed = (raw AND PORT_PLS_MASK = XDEV_U0 \<and> raw AND PORT_POWER \<noteq> 0 \<and> suspended_ports (rh_bus h1) AND push_bit w 1 \<noteq> 0);
              h2 = (if resumed then put_bus (\<lambda>b. b\<lparr>suspended_ports := suspended_ports b AND NOT (push_bit w 1),
                      port_c_suspend := (if rh_usb3 h1 then port_c_suspend b else port_c_suspend b OR push_bit w 1)\<rparr>) h1 else h1);
              status1 = status OR bits OR port_status_bits (rh_usb3 h2) raw;
              status2 = (if rh_usb3 h2 then xhci_hub_report_usb3_link_state (hp_quirks (hb_hcd B)) status1 raw
                         else xhci_hub_report_usb2_link_state status1 raw);
              h3 = (if rh_usb3 h2 then xhci_del_comp_mod_timer (hp_quirks (hb_hcd B)) raw w h2 else h2) in
          Some (if port_c_suspend (rh_bus h3) AND push_bit w 1 \<noteq> 0 then status2 OR push_bit (unat USB_PORT_FEAT_C_SUSPEND) 1 else status2, h3))
   }"

section \<open>Descriptors\<close>

record usb_hub_descriptor =
  bDescLength :: u8
  bDescriptorType :: u8
  bNbrPorts :: u8
  wHubCharacteristics :: u16
  bPwrOn2PwrGood :: u8
  bHubContrCurrent :: u8
  hub_bytes :: "u8 list"

text \<open>The part after the fixed fields is a union: the bitmaps of a USB 2 hub, or the latency, the delay
  and the bitmap of a USB 3 hub.\<close>

definition xhci_common_hub_descriptor :: "hub_params \<Rightarrow> u32 \<Rightarrow> usb_hub_descriptor \<Rightarrow> usb_hub_descriptor" where
  "xhci_common_hub_descriptor B ports desc = desc\<lparr>bPwrOn2PwrGood := 10, bHubContrCurrent := 0, bNbrPorts := ucast ports,
     wHubCharacteristics := (if HCC_PPC (hcc_params B) \<noteq> 0 then 1 else 2) OR 8\<rparr>"

text \<open>Bit \<open>i + 1\<close> of the bitmap is port \<open>i\<close>; the entries of the array of removable ports are taken by
  the number of the port in the hub.\<close>

definition removable_byte :: "(nat \<Rightarrow> bool) \<Rightarrow> nat \<Rightarrow> nat \<Rightarrow> u8" where
  "removable_byte removable ports j = foldr (\<lambda>i b. if removable i \<and> (i + 1) div 8 = j then b OR push_bit ((i + 1) mod 8) 1 else b) [0..<ports] 0"

definition xhci_usb2_hub_descriptor :: "hub_params \<Rightarrow> usb_hub_descriptor \<Rightarrow> root_hub \<Rightarrow> usb_hub_descriptor option" where
  "xhci_usb2_hub_descriptor B desc h =
     (let ports = unat (num_usb2_ports h); n = (ports + 1 + 7) div 8 in
      if length (usb2_port_removable h) < ports \<or> 4 < n then None
      else Some ((xhci_common_hub_descriptor B (num_usb2_ports h) desc)\<lparr>bDescriptorType := 0x29, bDescLength := 7 + 2 * (1 + of_nat (ports div 8)),
             hub_bytes := map (removable_byte ((!) (usb2_port_removable h)) ports) [0..<n] @ replicate (4 - n) 0xff @ replicate 4 0xff\<rparr>))"

fun read_removable :: "env \<Rightarrow> nat list \<Rightarrow> root_hub \<Rightarrow> (u16 \<times> root_hub) option" where
  "read_removable k [] h = Some (0, h)"
| "read_removable k (i # is) h = do {
     addr \<leftarrow> Option.bind (nth_opt (usb3_ports h) i) id;
     (portsc, h1) \<leftarrow> hub_readl k addr h;
     (m, h2) \<leftarrow> read_removable k is h1;
     Some (if portsc AND PORT_DEV_REMOVE \<noteq> 0 then m OR push_bit (i + 1) 1 else m, h2)
   }"

definition xhci_usb3_hub_descriptor :: "env \<Rightarrow> hub_params \<Rightarrow> usb_hub_descriptor \<Rightarrow> root_hub \<Rightarrow> (usb_hub_descriptor \<times> root_hub) option" where
  "xhci_usb3_hub_descriptor k B desc h = do {
     (removable, h1) \<leftarrow> read_removable k [0..<unat (num_usb3_ports h)] h;
     Some ((xhci_common_hub_descriptor B (num_usb3_ports h) desc)\<lparr>bDescriptorType := 0x2a, bDescLength := 12,
       hub_bytes := [0, 0, 0, ucast removable, ucast (drop_bit 8 removable)]\<rparr>, h1)
   }"

definition xhci_hub_descriptor :: "env \<Rightarrow> hub_params \<Rightarrow> usb_hub_descriptor \<Rightarrow> root_hub \<Rightarrow> (usb_hub_descriptor \<times> root_hub) option" where
  "xhci_hub_descriptor k B desc h =
     (if rh_usb3 h then xhci_usb3_hub_descriptor k B desc h else map_option (\<lambda>d. (d, h)) (xhci_usb2_hub_descriptor B desc h))"

text \<open>The device descriptor of a USB 3 hub.\<close>

definition usb_bos_descriptor :: "u8 list" where
  "usb_bos_descriptor = [5, 0x0f, 0x0f, 0, 1, 10, 0x10, 3, 0, 8, 0, 3, 0, 0, 0]"

definition bos_reply :: "hub_params \<Rightarrow> u8 list" where
  "bos_reply B =
     (let b = usb_bos_descriptor; u2 = HCS_U2_LATENCY (hcs_params3 B);
          b1 = (if hp_quirks (hb_hcd B) AND XHCI_LPM_SUPPORT \<noteq> 0
                then b[12 := ucast (HCS_U1_LATENCY (hcs_params3 B)), 13 := ucast u2, 14 := ucast (drop_bit 8 u2)] else b) in
      if HCC_LTC (hcc_params B) \<noteq> 0 then b1[8 := b1 ! 8 OR 2] else b1)"
section \<open>Features of a port\<close>

text \<open>The results of the features: 0, or the error of the request.\<close>

definition set_suspend :: "env \<Rightarrow> hub_env \<Rightarrow> hub_params \<Rightarrow> (nat \<Rightarrow> hc \<Rightarrow> hc option) \<Rightarrow> nat \<Rightarrow> u32 \<Rightarrow> root_hub \<Rightarrow> (int \<times> root_hub) option" where
  "set_suspend k E B wait w addr h = do {
     (temp, h1) \<leftarrow> hub_readl k addr h;
     if temp = - 1 then Some (- EPIPE, h1)
     else do {
       h2 \<leftarrow> (if temp AND PORT_PLS_MASK \<noteq> XDEV_U0
              then Option.bind (ehub_xhci_set_link_state k w XDEV_U0 h1) (sleep_unlocked E) else Some h1);
       (temp1, h3) \<leftarrow> hub_readl k addr h2;
       if temp1 AND PORT_PE = 0 \<or> temp1 AND PORT_RESET \<noteq> 0 \<or> XDEV_U3 \<le> temp1 AND PORT_PLS_MASK then Some (- EPIPE, h3)
       else do {
         let slot_id = ehub_xhci_find_slot_id_by_port h3 (of_nat w + 1);
         if slot_id = 0 then Some (- EPIPE, h3)
         else do {
           h4 \<leftarrow> stop_unlocked k B wait slot_id h3;
           h5 \<leftarrow> ehub_xhci_set_link_state k w XDEV_U3 h4;
           h6 \<leftarrow> sleep_unlocked E h5;
           (_, h7) \<leftarrow> hub_readl k addr h6;
           Some (0, put_bus (\<lambda>b. b\<lparr>suspended_ports := suspended_ports b OR push_bit w 1\<rparr>) h7)
         }
       }
     }
   }"

definition enter_link_state ::
  "env \<Rightarrow> hub_env \<Rightarrow> hub_params \<Rightarrow> (nat \<Rightarrow> hc \<Rightarrow> hc option) \<Rightarrow> nat \<Rightarrow> u32 \<Rightarrow> u32 \<Rightarrow> root_hub \<Rightarrow> (int \<times> root_hub) option" where
  "enter_link_state k E B wait w addr link_state h = do {
     let slot_id = ehub_xhci_find_slot_id_by_port h (of_nat w + 1);
     h1 \<leftarrow> (if link_state = USB_SS_PORT_LS_U3 \<and> slot_id \<noteq> 0 then stop_unlocked k B wait slot_id h else Some h);
     h2 \<leftarrow> ehub_xhci_set_link_state k w link_state h1;
     h3 \<leftarrow> sleep_unlocked E h2;
     (_, h4) \<leftarrow> hub_readl k addr h3;
     Some (0, if link_state = USB_SS_PORT_LS_U3 then put_bus (\<lambda>b. b\<lparr>suspended_ports := suspended_ports b OR push_bit w 1\<rparr>) h4 else h4)
   }"

definition ALL_CHANGES :: u32 where
  "ALL_CHANGES = PORT_CSC OR PORT_PEC OR PORT_WRC OR PORT_OCC OR PORT_RC OR PORT_PLC OR PORT_CEC"

definition set_link ::
  "env \<Rightarrow> hub_env \<Rightarrow> hub_params \<Rightarrow> (nat \<Rightarrow> hc \<Rightarrow> hc option) \<Rightarrow> nat \<Rightarrow> u32 \<Rightarrow> u32 \<Rightarrow> root_hub \<Rightarrow> (int \<times> root_hub) option" where
  "set_link k E B wait w addr link_state h = do {
     (temp, h1) \<leftarrow> hub_readl k addr h;
     if temp = - 1 then Some (- EPIPE, h1)
     else if link_state = USB_SS_PORT_LS_SS_DISABLED
     then do {
       h2 \<leftarrow> port_writel k ((ehub_xhci_port_state_to_neutral temp OR ALL_CHANGES) OR PORT_PE) addr h1;
       map_option (\<lambda>(_, h3). (0, h3)) (hub_readl k addr h2)
     }
     else if link_state = USB_SS_PORT_LS_RX_DETECT
     then do {
       h2 \<leftarrow> ehub_xhci_set_link_state k w link_state h1;
       map_option (\<lambda>(_, h3). (0, h3)) (hub_readl k addr h2)
     }
     else if temp AND PORT_PE = 0 \<or> USB_SS_PORT_LS_U3 < link_state then Some (- EPIPE, h1)
     else enter_link_state k E B wait w addr link_state h1
   }"

text \<open>The timeouts are in the power management register of the port, the dword after its status register.\<close>

definition set_timeout :: "env \<Rightarrow> u32 \<Rightarrow> u32 \<Rightarrow> u32 \<Rightarrow> root_hub \<Rightarrow> (int \<times> root_hub) option" where
  "set_timeout k msk bits addr h =
     (if \<not> rh_usb3 h then Some (- EPIPE, h)
      else do {
        (temp, h1) \<leftarrow> hub_readl k (addr + 4) h;
        map_option (\<lambda>h2. (0, h2)) (hub_writel k ((temp AND NOT msk) OR bits) (addr + 4) h1)
      })"

text \<open>Written and read back.\<close>

definition write_port :: "env \<Rightarrow> u32 \<Rightarrow> u32 \<Rightarrow> root_hub \<Rightarrow> (u32 \<times> root_hub) option" where
  "write_port k val addr h = Option.bind (port_writel k val addr h) (hub_readl k addr)"

definition set_feature ::
  "env \<Rightarrow> hub_env \<Rightarrow> hub_params \<Rightarrow> (nat \<Rightarrow> hc \<Rightarrow> hc option) \<Rightarrow> u16 \<Rightarrow> u16 \<Rightarrow> nat \<Rightarrow> u32 \<Rightarrow> u32 \<Rightarrow> root_hub \<Rightarrow> (int \<times> root_hub) option" where
  "set_feature k E B wait wVal wIdx w addr temp h =
     (let done = map_option (\<lambda>(_, h'). (0 :: int, h')); timeout = ucast (drop_bit 8 (wIdx AND 0xff00)) :: u32 in
      if wVal = USB_PORT_FEAT_SUSPEND then set_suspend k E B wait w addr h
      else if wVal = USB_PORT_FEAT_LINK_STATE then set_link k E B wait w addr (ucast (drop_bit 3 (wIdx AND 0xff00))) h
      else if wVal = USB_PORT_FEAT_POWER
      then do {
        (temp1, h1) \<leftarrow> write_port k (temp OR PORT_POWER) addr h;
        if temp1 = - 1 then Some (- EPIPE, h1) else map_option (\<lambda>h2. (0, h2)) (sleep_unlocked E h1)
      }
      else if wVal = USB_PORT_FEAT_RESET then done (write_port k (temp OR PORT_RESET) addr h)
      else if wVal = USB_PORT_FEAT_REMOTE_WAKE_MASK
      then done (Option.bind (xhci_set_remote_wake_mask k w (wIdx AND 0xff00) h) (hub_readl k addr))
      else if wVal = USB_PORT_FEAT_BH_PORT_RESET then done (write_port k (temp OR PORT_WR) addr h)
      else if wVal = USB_PORT_FEAT_U1_TIMEOUT then set_timeout k PORT_U1_TIMEOUT_MASK (PORT_U1_TIMEOUT timeout) addr h
      else if wVal = USB_PORT_FEAT_U2_TIMEOUT then set_timeout k PORT_U2_TIMEOUT_MASK (PORT_U2_TIMEOUT timeout) addr h
      else Some (- EPIPE, h))"

definition set_port_feature ::
  "env \<Rightarrow> hub_env \<Rightarrow> hub_params \<Rightarrow> (nat \<Rightarrow> hc \<Rightarrow> hc option) \<Rightarrow> u16 \<Rightarrow> u16 \<Rightarrow> root_hub \<Rightarrow> (int \<times> root_hub) option" where
  "set_port_feature k E B wait wVal wIdx h =
     (let n = wIdx AND 0xff; w = unat n - 1 in
      if n = 0 \<or> max_ports h < ucast n then Some (- EPIPE, h)
      else do {
        addr \<leftarrow> port_addr h w;
        (temp, h1) \<leftarrow> hub_readl k addr h;
        if temp = - 1 then Some (- EPIPE, h1)
        else do {
          (ret, h2) \<leftarrow> set_feature k E B wait wVal wIdx w addr (ehub_xhci_port_state_to_neutral temp) h1;
          if ret \<noteq> 0 then Some (ret, h2) else map_option (\<lambda>(_, h3). (0, h3)) (hub_readl k addr h2)
        }
      })"

definition clear_suspend :: "env \<Rightarrow> hub_env \<Rightarrow> nat \<Rightarrow> u32 \<Rightarrow> root_hub \<Rightarrow> (int \<times> root_hub) option" where
  "clear_suspend k E w addr h = do {
     (temp, h1) \<leftarrow> hub_readl k addr h;
     if temp AND PORT_RESET \<noteq> 0 then Some (- EPIPE, h1)
     else if temp AND PORT_PLS_MASK = XDEV_U3 \<and> temp AND PORT_PE = 0 then Some (- EPIPE, h1)
     else do {
       h2 \<leftarrow> (if temp AND PORT_PLS_MASK = XDEV_U3
              then do {
                h3 \<leftarrow> ehub_xhci_set_link_state k w XDEV_RESUME h1;
                h4 \<leftarrow> sleep_unlocked E h3;
                ehub_xhci_set_link_state k w XDEV_U0 h4
              } else Some h1);
       let h5 = put_bus (\<lambda>b. b\<lparr>port_c_suspend := port_c_suspend b OR push_bit w 1\<rparr>) h2;
       let slot_id = ehub_xhci_find_slot_id_by_port h5 (of_nat w + 1);
       if slot_id = 0 then Some (- EPIPE, h5)
       else map_option (\<lambda>h6. (0, h6)) (with_hc (ehub_xhci_ring_device k slot_id) h5)
     }
   }"

definition clear_feature :: "env \<Rightarrow> hub_env \<Rightarrow> u16 \<Rightarrow> nat \<Rightarrow> u32 \<Rightarrow> u32 \<Rightarrow> root_hub \<Rightarrow> (int \<times> root_hub) option" where
  "clear_feature k E wVal w addr temp h =
     (let done = map_option (\<lambda>h'. (0 :: int, h')) in
      if wVal = USB_PORT_FEAT_SUSPEND then clear_suspend k E w addr h
      else if change_bit wVal \<noteq> None
      then done (xhci_clear_port_change_bit k wVal addr temp
             (if wVal = USB_PORT_FEAT_C_SUSPEND then put_bus (\<lambda>b. b\<lparr>port_c_suspend := port_c_suspend b AND NOT (push_bit w 1)\<rparr>) h else h))
      else if wVal = USB_PORT_FEAT_ENABLE then done (xhci_disable_port k addr temp h)
      else if wVal = USB_PORT_FEAT_POWER then done (Option.bind (port_writel k (temp AND NOT PORT_POWER) addr h) (sleep_unlocked E))
      else Some (- EPIPE, h))"

definition clear_port_feature :: "env \<Rightarrow> hub_env \<Rightarrow> u16 \<Rightarrow> u16 \<Rightarrow> root_hub \<Rightarrow> (int \<times> root_hub) option" where
  "clear_port_feature k E wVal wIdx h =
     (let w = unat wIdx - 1 in
      if wIdx = 0 \<or> max_ports h < ucast wIdx then Some (- EPIPE, h)
      else do {
        addr \<leftarrow> port_addr h w;
        (temp, h1) \<leftarrow> hub_readl k addr h;
        if temp = - 1 then Some (- ENODEV, h1) else clear_feature k E wVal w addr (ehub_xhci_port_state_to_neutral temp) h1
      })"

section \<open>Requests\<close>

text \<open>What a request puts into the buffer.\<close>

datatype hub_reply = No_Reply | Bytes "u8 list" | Hub_Descriptor usb_hub_descriptor | Port_Status u32

definition get_port_status :: "env \<Rightarrow> hub_env \<Rightarrow> hub_params \<Rightarrow> u16 \<Rightarrow> root_hub \<Rightarrow> (int \<times> hub_reply \<times> root_hub) option" where
  "get_port_status k E B wIdx h =
     (let w = unat wIdx - 1 in
      if wIdx = 0 \<or> max_ports h < ucast wIdx then Some (- EPIPE, No_Reply, h)
      else do {
        addr \<leftarrow> port_addr h w;
        (temp, h1) \<leftarrow> hub_readl k addr h;
        if temp = - 1 then Some (- EPIPE, No_Reply, h1)
        else do {
          (status, h2) \<leftarrow> xhci_get_port_status k E B w temp h1;
          if status = - 1 then Some (- EPIPE, No_Reply, h2) else Some (0, Port_Status status, h2)
        }
      })"

text \<open>\<open>desc\<close> is what the buffer holds where a descriptor is written into it.\<close>

definition hub_request ::
  "env \<Rightarrow> hub_env \<Rightarrow> hub_params \<Rightarrow> (nat \<Rightarrow> hc \<Rightarrow> hc option) \<Rightarrow> usb_hub_descriptor \<Rightarrow> u16 \<Rightarrow> u16 \<Rightarrow> u16 \<Rightarrow> u16 \<Rightarrow> root_hub
     \<Rightarrow> (int \<times> hub_reply \<times> root_hub) option" where
  "hub_request k E B wait desc typeReq wVal wIdx wLen h =
     (let plain = map_option (\<lambda>(ret, h'). (ret, No_Reply, h')) in
      if typeReq = GetHubStatus then Some (0, Bytes [0, 0, 0, 0], h)
      else if typeReq = GetHubDescriptor
      then if rh_usb3 h \<and> (wLen < 12 \<or> wVal \<noteq> push_bit 8 0x2a) then Some (- EPIPE, No_Reply, h)
           else map_option (\<lambda>(d, h'). (0, Hub_Descriptor d, h')) (xhci_hub_descriptor k B desc h)
      else if typeReq = GetDeviceDescriptor
      then if wVal AND 0xff00 \<noteq> push_bit 8 0x0f \<or> \<not> rh_usb3 h then Some (- EPIPE, No_Reply, h)
           else Some (15, Bytes (bos_reply B), h)
      else if typeReq = GetPortStatus then get_port_status k E B wIdx h
      else if typeReq = SetPortFeature then plain (set_port_feature k E B wait wVal wIdx h)
      else if typeReq = ClearPortFeature then plain (clear_port_feature k E wVal wIdx h)
      else Some (- EPIPE, No_Reply, h))"

definition ehub_xhci_hub_control ::
  "env \<Rightarrow> hub_env \<Rightarrow> hub_params \<Rightarrow> (nat \<Rightarrow> hc \<Rightarrow> hc option) \<Rightarrow> usb_hub_descriptor \<Rightarrow> u16 \<Rightarrow> u16 \<Rightarrow> u16 \<Rightarrow> u16 \<Rightarrow> root_hub
     \<Rightarrow> (int \<times> hub_reply \<times> root_hub) option" where
  "ehub_xhci_hub_control k E B wait desc typeReq wVal wIdx wLen h = do {
     h1 \<leftarrow> xhci_reg_lock h;
     (ret, reply, h2) \<leftarrow> hub_request k E B wait desc typeReq wVal wIdx wLen h1;
     Some (ret, reply, xhci_reg_unlock h2)
   }"
section \<open>Changes of the hub\<close>

text \<open>The loop over the ports: the bits of the changed ports, whether one changed, whether a reset has
  ended, and whether a read failed. \<open>buf\<close> is the buffer of the caller.\<close>

fun scan_changes :: "env \<Rightarrow> hub_env \<Rightarrow> nat list \<Rightarrow> u8 list \<Rightarrow> u32 \<Rightarrow> bool \<Rightarrow> root_hub \<Rightarrow> (u8 list \<times> u32 \<times> bool \<times> bool \<times> root_hub) option" where
  "scan_changes k E [] buf status reset_change h = Some (buf, status, reset_change, False, h)"
| "scan_changes k E (i # is) buf status reset_change h = do {
     addr \<leftarrow> port_addr h i;
     (temp, h1) \<leftarrow> hub_readl k addr h;
     if temp = - 1 then Some (buf, status, reset_change, True, h1)
     else do {
       let msk = PORT_CSC OR PORT_PEC OR PORT_OCC OR PORT_PLC OR PORT_WRC OR PORT_CEC;
       due \<leftarrow> nth_opt (resume_done (rh_bus h1)) i;
       old \<leftarrow> nth_opt buf ((i + 1) div 8);
       let changed = (temp AND msk \<noteq> 0 \<or> port_c_suspend (rh_bus h1) AND push_bit i 1 \<noteq> 0 \<or> (due \<noteq> 0 \<and> time_after_eq (now E h1) due));
       let buf1 = (if changed then buf[(i + 1) div 8 := old OR push_bit ((i + 1) mod 8) 1] else buf);
       scan_changes k E is buf1 (if changed then 1 else status) (reset_change \<or> temp AND PORT_RC \<noteq> 0) h1
     }
   }"

text \<open>The check of the device is made, but its negative result is kept in an unsigned variable and
  never seen.\<close>

definition ehub_xhci_hub_status_data :: "env \<Rightarrow> hub_env \<Rightarrow> root_hub \<Rightarrow> (int \<times> u8 list \<times> root_hub) option" where
  "ehub_xhci_hub_status_data k E h = do {
     _ \<leftarrow> DEVICECONTEXT_ErrorCheck (Some (hcd (rh_hc h)));
     let n = unat (max_ports h);
     h1 \<leftarrow> xhci_reg_lock h;
     (buf, status, reset_change, failed, h2) \<leftarrow>
        scan_changes k E [0..<n] (replicate ((n + 8) div 8) 0) (ucast (resuming_ports (rh_bus h))) False h1;
     let h3 = (if status = 0 \<and> \<not> reset_change then h2\<lparr>poll_rh := False\<rparr> else h2);
     Some (if status = 0 then 0 else if failed then - ENODEV else int ((n + 8) div 8), buf, xhci_reg_unlock h3)
   }"

section \<open>Suspend and resume of the bus\<close>

definition suspend_wake_bits :: "bool \<Rightarrow> u32 \<Rightarrow> u32 \<Rightarrow> u32" where
  "suspend_wake_bits do_remote_wakeup t1 t2 =
     (if do_remote_wakeup
      then if t1 AND PORT_CONNECT \<noteq> 0 then (t2 OR (PORT_WKOC_E OR PORT_WKDISC_E)) AND NOT PORT_WKCONN_E
           else (t2 OR (PORT_WKOC_E OR PORT_WKCONN_E)) AND NOT PORT_WKDISC_E
      else t2 AND NOT PORT_WAKE_BITS)"

definition suspend_port ::
  "env \<Rightarrow> hub_params \<Rightarrow> (nat \<Rightarrow> hc \<Rightarrow> hc option) \<Rightarrow> bool \<Rightarrow> nat \<Rightarrow> root_hub \<Rightarrow> root_hub option" where
  "suspend_port k B wait do_remote_wakeup i h = do {
     addr \<leftarrow> port_addr h i;
     (t1, h1) \<leftarrow> hub_readl k addr h;
     let neutral = ehub_xhci_port_state_to_neutral t1;
     let active = (t1 AND PORT_PE \<noteq> 0 \<and> t1 AND PORT_PLS_MASK = 0);
     let slot_id = ehub_xhci_find_slot_id_by_port h1 (of_nat i + 1);
     h2 \<leftarrow> (if active \<and> slot_id \<noteq> 0 then stop_unlocked k B wait slot_id h1 else Some h1);
     let h3 = (if active then put_bus (\<lambda>b. b\<lparr>bus_suspended := bus_suspended b OR push_bit i 1\<rparr>) h2 else h2);
     let t2 = suspend_wake_bits do_remote_wakeup t1
        (if active then (neutral AND NOT PORT_PLS_MASK) OR (PORT_LINK_STROBE OR XDEV_U3) else neutral);
     if neutral \<noteq> t2 then port_writel k t2 addr h3 else Some h3
   }"

fun suspend_ports :: "env \<Rightarrow> hub_params \<Rightarrow> (nat \<Rightarrow> hc \<Rightarrow> hc option) \<Rightarrow> bool \<Rightarrow> nat list \<Rightarrow> root_hub \<Rightarrow> root_hub option" where
  "suspend_ports k B wait wakeup [] h = Some h"
| "suspend_ports k B wait wakeup (i # is) h = Option.bind (suspend_port k B wait wakeup i h) (suspend_ports k B wait wakeup is)"

definition ehub_xhci_bus_suspend ::
  "env \<Rightarrow> hub_env \<Rightarrow> hub_params \<Rightarrow> (nat \<Rightarrow> hc \<Rightarrow> hc option) \<Rightarrow> bool \<Rightarrow> root_hub \<Rightarrow> (int \<times> root_hub) option" where
  "ehub_xhci_bus_suspend k E B wait do_remote_wakeup h = do {
     h1 \<leftarrow> xhci_reg_lock h;
     if do_remote_wakeup \<and> resuming_ports (rh_bus h1) \<noteq> 0 then Some (- EBUSY, xhci_reg_unlock h1)
     else do {
       h2 \<leftarrow> suspend_ports k B wait do_remote_wakeup (rev [0..<unat (max_ports h1)]) (put_bus (\<lambda>b. b\<lparr>bus_suspended := 0\<rparr>) h1);
       let h3 = h2\<lparr>hcd_suspended := True\<rparr>;
       Some (0, xhci_reg_unlock (put_bus (\<lambda>b. b\<lparr>next_statechange := now E h3 + msecs_to_jiffies E 10\<rparr>) h3))
     }
   }"

text \<open>The port of a suspended bus goes to U0, over the resume state for USB 2; another port gets its
  wake bits cleared. The value that is written for it is the one read, without the bits that are cleared
  by a write.\<close>

definition resume_to_u0 :: "env \<Rightarrow> hub_env \<Rightarrow> bool \<Rightarrow> nat \<Rightarrow> root_hub \<Rightarrow> root_hub option" where
  "resume_to_u0 k E superspeed i h =
     (if superspeed then ehub_xhci_set_link_state k i XDEV_U0 h
      else do {
        h1 \<leftarrow> ehub_xhci_set_link_state k i XDEV_RESUME h;
        h2 \<leftarrow> sleep_unlocked E h1;
        ehub_xhci_set_link_state k i XDEV_U0 h2
      })"

definition resume_port :: "env \<Rightarrow> hub_env \<Rightarrow> nat \<Rightarrow> root_hub \<Rightarrow> root_hub option" where
  "resume_port k E i h = do {
     addr \<leftarrow> port_addr h i;
     (raw, h1) \<leftarrow> hub_readl k addr h;
     let temp = (if DEV_SUPERSPEED raw then raw AND NOT (PORT_RWC_BITS OR PORT_CEC OR PORT_WAKE_BITS) else raw AND NOT (PORT_RWC_BITS OR PORT_WAKE_BITS));
     if bit (bus_suspended (rh_bus h1)) i \<and> temp AND PORT_PLS_MASK \<noteq> 0
     then do {
       h2 \<leftarrow> resume_to_u0 k E (DEV_SUPERSPEED temp) i h1;
       h3 \<leftarrow> sleep_unlocked E h2;
       h4 \<leftarrow> ehub_xhci_test_and_clear_bit k i PORT_PLC h3;
       let slot_id = ehub_xhci_find_slot_id_by_port h4 (of_nat i + 1);
       if slot_id \<noteq> 0 then with_hc (ehub_xhci_ring_device k slot_id) h4 else Some h4
     }
     else port_writel k temp addr h1
   }"

fun resume_ports :: "env \<Rightarrow> hub_env \<Rightarrow> nat list \<Rightarrow> root_hub \<Rightarrow> root_hub option" where
  "resume_ports k E [] h = Some h"
| "resume_ports k E (i # is) h = Option.bind (resume_port k E i h) (resume_ports k E is)"

definition ehub_xhci_bus_resume :: "env \<Rightarrow> hub_env \<Rightarrow> hub_params \<Rightarrow> bool \<Rightarrow> root_hub \<Rightarrow> (int \<times> root_hub) option" where
  "ehub_xhci_bus_resume k E B hw_accessible h = do {
     h0 \<leftarrow> (if sint (now E h - next_statechange (rh_bus h)) < 0 then run_others E h else Some h);
     h1 \<leftarrow> xhci_reg_lock h0;
     if \<not> hw_accessible then Some (- ESHUTDOWN, xhci_reg_unlock h1)
     else do {
       (temp, h2) \<leftarrow> hub_readl k (op_regs B) h1;
       h3 \<leftarrow> hub_writel k (temp AND NOT CMD_EIE) (op_regs B) h2;
       h4 \<leftarrow> resume_ports k E (rev [0..<unat (max_ports h3)]) h3;
       (_, h5) \<leftarrow> hub_readl k (op_regs B) h4;
       let h6 = put_bus (\<lambda>b. b\<lparr>next_statechange := now E h5 + msecs_to_jiffies E 5\<rparr>) h5;
       (temp1, h7) \<leftarrow> hub_readl k (op_regs B) h6;
       h8 \<leftarrow> hub_writel k (temp1 OR CMD_EIE) (op_regs B) h7;
       (_, h9) \<leftarrow> hub_readl k (op_regs B) h8;
       Some (0, xhci_reg_unlock h9)
     }
   }"
section \<open>Port status events\<close>

text \<open>What the event does before the USB core is told. The result is whether the core is to be told, or
  \<^const>\<open>None\<close> when the handler ends at once.\<close>

definition port_resuming :: "env \<Rightarrow> hub_env \<Rightarrow> hub_params \<Rightarrow> nat \<Rightarrow> u32 \<Rightarrow> root_hub \<Rightarrow> (bool option \<times> root_hub) option" where
  "port_resuming k E B w temp h = do {
     (temp1, h1) \<leftarrow> hub_readl k (op_regs B) h;
     if temp1 AND CMD_RUN = 0 then Some (Some True, h1)
     else if DEV_SUPERSPEED temp
     then do {
       let h2 = put_bus (\<lambda>b. b\<lparr>port_remote_wakeup := port_remote_wakeup b OR push_bit w 1\<rparr>) h1;
       h3 \<leftarrow> ehub_xhci_test_and_clear_bit k w PORT_PLC h2;
       map_option (\<lambda>h4. (Some False, h4)) (ehub_xhci_set_link_state k w XDEV_U0 h3)
     }
     else do {
       _ \<leftarrow> nth_opt (resume_done (rh_bus h1)) w;
       let due = now E h1 + msecs_to_jiffies E (USB_RESUME_TIMEOUT E);
       let h2 = put_bus (\<lambda>b. b\<lparr>resume_done := (resume_done b)[w := due], resuming_ports := resuming_ports b OR push_bit w 1\<rparr>) h1;
       Some (None, h2\<lparr>hub_notes := hub_notes h2 @ [Rh_Timer due]\<rparr>)
     }
   }"

definition ss_port_resumed :: "env \<Rightarrow> nat \<Rightarrow> root_hub \<Rightarrow> (bool option \<times> root_hub) option" where
  "ss_port_resumed k w h = do {
     let slot_id = ehub_xhci_find_slot_id_by_port h (of_nat w + 1);
     h1 \<leftarrow> (if slot_id \<noteq> 0 \<and> devs (rh_hc h) slot_id \<noteq> None then with_hc (ehub_xhci_ring_device k slot_id) h else Some h);
     if port_remote_wakeup (rh_bus h1) AND push_bit w 1 \<noteq> 0
     then do {
       h2 \<leftarrow> ehub_xhci_test_and_clear_bit k w PORT_PLC (put_bus (\<lambda>b. b\<lparr>port_remote_wakeup := port_remote_wakeup b AND NOT (push_bit w 1)\<rparr>) h1);
       Some (Some False, h2\<lparr>hub_notes := hub_notes h2 @ [Wakeup_Notification (of_nat w + 1)]\<rparr>)
     }
     else Some (None, h1)
   }"

text \<open>The steps of the handler for a port of the hub whose register holds \<open>temp\<close>; a result \<open>Some b\<close> of
  a step is the jump to the end.\<close>

definition port_event :: "env \<Rightarrow> hub_env \<Rightarrow> hub_params \<Rightarrow> nat \<Rightarrow> u32 \<Rightarrow> root_hub \<Rightarrow> (bool \<times> root_hub) option" where
  "port_event k E B w temp h = do {
     let plc = (temp AND PORT_PLC \<noteq> 0);
     (r1, h1) \<leftarrow> (if plc \<and> temp AND PORT_PLS_MASK = XDEV_RESUME then port_resuming k E B w temp h else Some (None, h));
     (r2, h2) \<leftarrow> (if r1 = None \<and> plc \<and> temp AND PORT_PLS_MASK = XDEV_U0 \<and> DEV_SUPERSPEED temp then ss_port_resumed k w h1 else Some (r1, h1));
     (case r2 of
        Some notify \<Rightarrow> Some (notify, h2)
      | None \<Rightarrow>
          if \<not> DEV_SUPERSPEED temp \<and> bit (rexit_ports (rh_bus h2)) w
          then do {
            n \<leftarrow> nth_opt (rexit_done (rh_bus h2)) w;
            Some (False, put_bus (\<lambda>b. b\<lparr>rexit_ports := rexit_ports b AND NOT (push_bit w 1), rexit_done := (rexit_done b)[w := Suc n]\<rparr>) h2)
          }
          else if \<not> rh_usb3 h2 then map_option (\<lambda>h3. (True, h3)) (ehub_xhci_test_and_clear_bit k w PORT_PLC h2)
          else Some (True, h2))
   }"

text \<open>The end: the event ring moves on, and a waiting status URB of the hub is given back with the
  changes.\<close>

definition tell_core :: "env \<Rightarrow> hub_env \<Rightarrow> bool \<Rightarrow> root_hub \<Rightarrow> root_hub option" where
  "tell_core k E notify h = do {
     r \<leftarrow> inc_deq (event_ring (rh_hc h));
     let h1 = h\<lparr>rh_hc := (rh_hc h)\<lparr>event_ring := r\<rparr>\<rparr>;
     if \<not> notify \<or> \<not> status_urb h1 then Some h1
     else do {
       (len, buf, h2) \<leftarrow> ehub_xhci_hub_status_data k E h1;
       if 6 < length buf then None
       else if 0 < len then Some (h2\<lparr>status_urb := False, status_log := status_log h2 @ [buf]\<rparr>) else Some h2
     }
   }"

definition handle_port_status :: "env \<Rightarrow> hub_env \<Rightarrow> hub_params \<Rightarrow> xhci_generic_trb \<Rightarrow> root_hub \<Rightarrow> root_hub option" where
  "handle_port_status k E B ev h = do {
     let h1 = (if GET_COMP_CODE (trb_field ev 2) \<noteq> COMP_SUCCESS
               then h\<lparr>rh_hc := (rh_hc h)\<lparr>error_bitmask := error_bitmask (rh_hc h) OR push_bit 8 1\<rparr>\<rparr> else h);
     let port_id = GET_PORT_ID (trb_field ev 0);
     if port_id = 0 \<or> HCS_MAX_PORTS (hcs_params1 B) < port_id
     then map_option (\<lambda>r. h1\<lparr>rh_hc := (rh_hc h1)\<lparr>event_ring := r\<rparr>\<rparr>) (inc_deq (event_ring (rh_hc h1)))
     else do {
       major \<leftarrow> nth_opt (port_array h1) (unat port_id - 1);
       if major = 0 \<or> major = DUPLICATE_ENTRY then tell_core k E False h1
       else do {
         w \<leftarrow> find_faked_portnum_from_hw_portnum port_id h1;
         addr \<leftarrow> port_addr h1 w;
         (temp, h2) \<leftarrow> hub_readl k addr h1;
         if temp = - 1 then Some h2
         else do {
           let h3 = (if hcd_suspended h2 then h2\<lparr>hub_notes := hub_notes h2 @ [Resume_Root_Hub]\<rparr> else h2);
           (notify, h4) \<leftarrow> port_event k E B w temp h3;
           tell_core k E notify h4
         }
       }
     }
   }"

end
