(* ===== verification/Xhci_Device.thy ===== *)
theory Xhci_Device
  imports Xhci_Hub
begin

text \<open>
  Device slots (\<open>xhci.c\<close>, \<open>xhci-mem.c\<close>): the structures of a device from the Enable Slot command to
  the Disable Slot command, the input context of the Address Device command, and the reset of a
  device.

  The device of the USB core is a value; \<open>udev->slot_id\<close>, which the allocation writes, is part of the
  result and of the copy that the slot keeps. Its place in the tree of hubs is a second value. The
  mutex of the address command is not part of the state: the command is one step.
\<close>

section \<open>Constants\<close>

definition XDEV_FS :: u32 where "XDEV_FS = push_bit 10 1"
definition SLOT_SPEED_FS :: u32 where "SLOT_SPEED_FS = push_bit 10 XDEV_FS"
definition SLOT_SPEED_LS :: u32 where "SLOT_SPEED_LS = push_bit 10 XDEV_LS"
definition SLOT_SPEED_HS :: u32 where "SLOT_SPEED_HS = push_bit 10 XDEV_HS"
definition SLOT_SPEED_SS :: u32 where "SLOT_SPEED_SS = push_bit 10 XDEV_SS"
definition DEV_MTT :: u32 where "DEV_MTT = push_bit 25 1"
definition ROOT_HUB_PORT :: "u32 \<Rightarrow> u32" where "ROOT_HUB_PORT p = push_bit 16 (p AND 0xff)"
definition GET_SLOT_STATE :: "u32 \<Rightarrow> u32" where "GET_SLOT_STATE p = drop_bit 27 (p AND push_bit 27 0x1f)"
definition SLOT_STATE_DISABLED :: u32 where "SLOT_STATE_DISABLED = 0"
definition SLOT_STATE_DEFAULT :: u32 where "SLOT_STATE_DEFAULT = 1"
definition XHCI_CTX_TYPE_DEVICE :: u32 where "XHCI_CTX_TYPE_DEVICE = 1"
definition XHCI_CTX_TYPE_INPUT :: u32 where "XHCI_CTX_TYPE_INPUT = 2"

section \<open>The tree of hubs\<close>

text \<open>A device with its port number and its parent; a root hub has no parent.\<close>

datatype usb_node = Node (node_port: u8) (node_parent: "usb_node option")

text \<open>The transaction translator of a device: the hub it is in, and whether the hub has one for each
  port.\<close>

record usb_tt =
  tt_hub_slot :: u32
  tt_hub_is_root :: bool
  tt_multi :: bool

record usb_place =
  up_node :: usb_node
  up_route :: u32
  up_tt :: "usb_tt option"
  up_ttport :: u32

text \<open>The ancestor below the root hub.\<close>

fun top_dev :: "usb_node \<Rightarrow> usb_node" where
  "top_dev (Node p parent) = (case parent of
     None \<Rightarrow> Node p parent
   | Some q \<Rightarrow> if node_parent q = None then Node p parent else top_dev q)"

section \<open>Registers\<close>

definition hc_readl :: "env \<Rightarrow> u32 \<Rightarrow> hc \<Rightarrow> (u32 \<times> hc) option" where
  "hc_readl k addr c = map_option (\<lambda>(v, s). (v, c\<lparr>hcd := s\<rparr>)) (ehub_xhci_readl k addr (hcd c))"

definition hc_read_64 :: "env \<Rightarrow> u32 \<Rightarrow> hc \<Rightarrow> (u64 \<times> hc) option" where
  "hc_read_64 k addr c = map_option (\<lambda>(v, s). (v, c\<lparr>hcd := s\<rparr>)) (xhci_read_64 k addr (hcd c))"

section \<open>Allocation of a device\<close>

definition xhci_alloc_container_ctx :: "env \<Rightarrow> u32 \<Rightarrow> ehub \<Rightarrow> xhci_container_ctx option \<times> ehub" where
  "xhci_alloc_container_ctx k ty s =
     (if ty \<noteq> XHCI_CTX_TYPE_DEVICE \<and> ty \<noteq> XHCI_CTX_TYPE_INPUT then (None, s)
      else if \<not> kzalloc k (tick s) then (None, tick_up s)
      else (map_option (zero_ctx (ty = XHCI_CTX_TYPE_INPUT)) (dma_pool_alloc k (Suc (tick s))), tick_up (tick_up s)))"

definition new_virt_ep :: xhci_virt_ep where
  "new_virt_ep = \<lparr>ep_ring = None, stream_info = None, new_ring = None, cancelled_td_list = [], stopped_td = None, stopped_stream = 0,
     stop_cmd_timer = False, stop_cmds_pending = 0, queued_deq = None, skip = False, max_buffer_size = 0, cache_data = False\<rparr>"

text \<open>The memory of a device is cleared; the contexts are filled in when they are there.\<close>

definition new_virt_device :: "usb_device \<Rightarrow> xhci_container_ctx \<Rightarrow> xhci_container_ctx \<Rightarrow> xhci_virt_device" where
  "new_virt_device d inc outc = \<lparr>udev = d, eps = replicate 31 new_virt_ep, in_ctx = inc, out_ctx = outc, fake_port = 0, real_port = 0,
     bw_table_of = None, tt_info_of = None, current_mel = 0\<rparr>"

definition clear_slot :: "u32 \<Rightarrow> hc \<Rightarrow> hc" where
  "clear_slot slot_id c = c\<lparr>hcd := (hcd c)\<lparr>ep_state := (ep_state (hcd c))(slot_id := (\<lambda>_. 0))\<rparr>,
     bw := (bw c)\<lparr>bw_infos := (\<lambda>(s, i). if s = slot_id then ehub_xhci_clear_endpoint_bw_info else bw_infos (bw c) (s, i))\<rparr>\<rparr>"

definition ehub_xhci_alloc_virt_device :: "env \<Rightarrow> hcd_params \<Rightarrow> u32 \<Rightarrow> usb_device \<Rightarrow> hc \<Rightarrow> (int \<times> hc) option" where
  "ehub_xhci_alloc_virt_device k P slot_id d c =
     (if slot_id = 0 \<or> devs c slot_id \<noteq> None then Some (0, c)
      else if \<not> kzalloc k (tick (hcd c)) then Some (0, c\<lparr>hcd := tick_up (hcd c)\<rparr>)
      else do {
        let c1 = clear_slot slot_id (c\<lparr>hcd := tick_up (hcd c)\<rparr>);
        let none = zero_ctx False 0;
        let fail = (\<lambda>vd c'. map_option (\<lambda>c''. (0, c'')) (ehub_xhci_free_virt_device slot_id (put_dev slot_id vd c')));
        case xhci_alloc_container_ctx k XHCI_CTX_TYPE_DEVICE (hcd c1) of
          (None, s2) \<Rightarrow> fail (new_virt_device d none none) (c1\<lparr>hcd := s2\<rparr>)
        | (Some outc, s2) \<Rightarrow> (case xhci_alloc_container_ctx k XHCI_CTX_TYPE_INPUT s2 of
            (None, s3) \<Rightarrow> fail (new_virt_device d none outc) (c1\<lparr>hcd := s3\<rparr>)
          | (Some inc, s3) \<Rightarrow> do {
              (p, s4) \<leftarrow> xhci_ring_alloc k (hp_quirks P) 2 1 TYPE_CTRL s3;
              let c4 = c1\<lparr>hcd := s4\<rparr>;
              let vd = new_virt_device d inc outc;
              (case p of
                 None \<Rightarrow> fail vd c4
               | Some r \<Rightarrow> Some (1, (put_dev slot_id (vd\<lparr>eps := (eps vd)[0 := new_virt_ep\<lparr>ep_ring := Some r\<rparr>]\<rparr>) c4)
                   \<lparr>dcbaa := (dcbaa c4)(slot_id := ctx_dma outc)\<rparr>))
            })
      })"

definition xhci_reserve_host_control_ep_resources :: "hc \<Rightarrow> int \<times> hc" where
  "xhci_reserve_host_control_ep_resources c =
     (if limit_active_eps c < num_active_eps c + 1 then (- ENOMEM, c) else (0, c\<lparr>num_active_eps := num_active_eps c + 1\<rparr>))"

text \<open>Who waits for a command, set after its allocation; the status is cleared with the waiter.\<close>

definition set_waiter :: "nat \<Rightarrow> hc \<Rightarrow> hc" where
  "set_waiter cmd c = c\<lparr>commands := (commands c)(cmd := map_option (\<lambda>x. x\<lparr>cmd_waiter := True\<rparr>) (commands c cmd))\<rparr>"

definition drop_waiter :: "nat \<Rightarrow> hc \<Rightarrow> hc" where
  "drop_waiter cmd c = c\<lparr>commands := (commands c)(cmd := map_option (\<lambda>x. x\<lparr>cmd_waiter := False, cmd_status := 0\<rparr>) (commands c cmd))\<rparr>"

text \<open>The way out of a failed allocation disables the slot the device had before.\<close>

definition alloc_dev_disable :: "env \<Rightarrow> hcd_params \<Rightarrow> nat \<Rightarrow> usb_device \<Rightarrow> hc \<Rightarrow> ((int \<times> usb_device) \<times> hc) option" where
  "alloc_dev_disable k P cmd d c = do {
     (ret, c1) \<leftarrow> run_command (ehub_xhci_queue_slot_control k (hp_quirks P) cmd TRB_DISABLE_SLOT (ud_slot_id d)) (drop_waiter cmd c);
     c2 \<leftarrow> (if ret = 0 then with_hcd (ehub_xhci_ring_cmd_db k) c1 else Some c1);
     Some ((0, d), c2)
   }"

text \<open>The device for a slot the controller has enabled.\<close>

definition alloc_dev_slot :: "env \<Rightarrow> hcd_params \<Rightarrow> nat \<Rightarrow> u32 \<Rightarrow> usb_device \<Rightarrow> hc \<Rightarrow> ((int \<times> usb_device) \<times> hc) option" where
  "alloc_dev_slot k P cmd slot_id d c =
     (case (if hp_quirks P AND XHCI_EP_LIMIT_QUIRK \<noteq> 0 then xhci_reserve_host_control_ep_resources c else (0, c)) of (ret, c1) \<Rightarrow>
        if ret \<noteq> 0 then alloc_dev_disable k P cmd d c1
        else do {
          (ok, c2) \<leftarrow> ehub_xhci_alloc_virt_device k P slot_id d c1;
          if ok = 0 then alloc_dev_disable k P cmd d c2
          else do {
            vd \<leftarrow> devs c2 slot_id;
            let d1 = d\<lparr>ud_slot_id := slot_id\<rparr>;
            Some ((1, d1), ehub_xhci_free_command cmd (put_dev slot_id (vd\<lparr>udev := d1\<rparr>) c2))
          }
        })"

definition ehub_xhci_alloc_dev ::
  "env \<Rightarrow> hub_params \<Rightarrow> (nat \<Rightarrow> hc \<Rightarrow> hc option) \<Rightarrow> usb_device \<Rightarrow> hc \<Rightarrow> ((int \<times> usb_device) \<times> hc) option" where
  "ehub_xhci_alloc_dev k B wait d c = (case ehub_xhci_alloc_command k False False c of
     (None, c1) \<Rightarrow> Some ((0, d), c1)
   | (Some cmd, c1) \<Rightarrow> do {
       let P = hb_hcd B;
       (ret, c2) \<leftarrow> run_command (ehub_xhci_queue_slot_control k (hp_quirks P) cmd TRB_ENABLE_SLOT 0) (set_waiter cmd c1);
       if ret \<noteq> 0 then Some ((0, d), ehub_xhci_free_command cmd c2)
       else do {
         c3 \<leftarrow> with_hcd (ehub_xhci_ring_cmd_db k) c2;
         c4 \<leftarrow> wait cmd c3;
         obj \<leftarrow> commands c4 cmd;
         let slot_id = slot_answer c4;
         if slot_id = 0 \<or> cmd_status obj \<noteq> COMP_SUCCESS
         then map_option (\<lambda>(_, c5). ((0, d), ehub_xhci_free_command cmd c5)) (hc_readl k (cap_regs B + 4) c4)
         else alloc_dev_slot k P cmd slot_id d c4
       }
     })"

section \<open>Addressing a device\<close>

definition ehub_xhci_copy_ep0_dequeue_into_input_ctx :: "xhci_virt_device \<Rightarrow> xhci_virt_device option" where
  "ehub_xhci_copy_ep0_dequeue_into_input_ctx vd = do {
     ctx \<leftarrow> ehub_xhci_get_ep_ctx (in_ctx vd) 0;
     ep \<leftarrow> nth_opt (eps vd) 0;
     r \<leftarrow> ep_ring ep;
     sg \<leftarrow> segs r (enq_seg r);
     Some (vd\<lparr>in_ctx := put_ep_ctx 0 (ctx\<lparr>deq := ehub_xhci_trb_virt_to_dma (Some sg) (Some (enqueue r)) OR ucast (cycle_state r)\<rparr>) (in_ctx vd)\<rparr>)
   }"

text \<open>The number of the port at the controller, counted from one. The pointers are to dwords.\<close>

definition ehub_xhci_find_raw_port_number :: "hub_params \<Rightarrow> root_hub \<Rightarrow> u8 \<Rightarrow> u32 option" where
  "ehub_xhci_find_raw_port_number B h port1 =
     (if port1 = 0 then None
      else map_option (\<lambda>addr. ((addr - (op_regs B + 0x400)) div 4) div NUM_PORT_REGS + 1) (port_addr h (unat port1 - 1)))"

definition xhci_find_real_port_number :: "hub_params \<Rightarrow> root_hub \<Rightarrow> usb_place \<Rightarrow> u32 option" where
  "xhci_find_real_port_number B h pl = ehub_xhci_find_raw_port_number B h (node_port (top_dev (up_node pl)))"

text \<open>Speed and packet size for the contexts.\<close>

definition slot_speed :: "usb_speed \<Rightarrow> (u32 \<times> u32) option" where
  "slot_speed speed = (case speed of
     USB_SPEED_SUPER \<Rightarrow> Some (SLOT_SPEED_SS, MAX_PACKET 512)
   | USB_SPEED_HIGH \<Rightarrow> Some (SLOT_SPEED_HS, MAX_PACKET 64)
   | USB_SPEED_FULL \<Rightarrow> Some (SLOT_SPEED_FS, MAX_PACKET 64)
   | USB_SPEED_LOW \<Rightarrow> Some (SLOT_SPEED_LS, MAX_PACKET 8)
   | USB_SPEED_WIRELESS \<Rightarrow> None
   | USB_SPEED_UNKNOWN \<Rightarrow> None)"

text \<open>The translator of a device behind a hub, in the list of its root port.\<close>

fun find_tt :: "usb_tt \<Rightarrow> u32 \<Rightarrow> (nat \<rightharpoonup> xhci_tt_bw_info) \<Rightarrow> nat list \<Rightarrow> nat option option" where
  "find_tt tt port m [] = Some None"
| "find_tt tt port m (t # ts) = do {
     x \<leftarrow> m t;
     if tt_slot_id x = uint (tt_hub_slot tt) \<and> (\<not> tt_multi tt \<or> ttport x = uint port) then Some (Some t) else find_tt tt port m ts
   }"

definition behind_tt :: "usb_place \<Rightarrow> bool" where
  "behind_tt pl \<longleftrightarrow> (case up_tt pl of None \<Rightarrow> False | Some tt \<Rightarrow> \<not> tt_hub_is_root tt)"

definition find_bw_table :: "usb_place \<Rightarrow> u32 \<Rightarrow> xhci_bw \<Rightarrow> xhci_virt_device \<Rightarrow> xhci_virt_device option" where
  "find_bw_table pl port_num b vd =
     (if \<not> behind_tt pl then Some (vd\<lparr>bw_table_of := Some (Root_Port (unat (port_num - 1)))\<rparr>)
      else do {
        tt \<leftarrow> up_tt pl;
        rh \<leftarrow> nth_opt (rh_bw b) (unat (port_num - 1));
        found \<leftarrow> find_tt tt (up_ttport pl) (tts b) (rh_tts rh);
        Some (case found of None \<Rightarrow> vd | Some t \<Rightarrow> vd\<lparr>bw_table_of := Some (TT t), tt_info_of := Some t\<rparr>)
      })"

definition or_slot_ctx :: "u32 \<Rightarrow> u32 \<Rightarrow> xhci_virt_device \<Rightarrow> xhci_virt_device" where
  "or_slot_ctx info info2 vd = vd\<lparr>in_ctx := (in_ctx vd)\<lparr>slot_ctx := (slot_ctx (in_ctx vd))\<lparr>
     dev_info := dev_info (slot_ctx (in_ctx vd)) OR info, dev_info2 := dev_info2 (slot_ctx (in_ctx vd)) OR info2\<rparr>\<rparr>\<rparr>"

definition set_tt_ctx :: "usb_place \<Rightarrow> xhci_virt_device \<Rightarrow> xhci_virt_device" where
  "set_tt_ctx pl vd = (case up_tt pl of
     None \<Rightarrow> vd
   | Some tt \<Rightarrow> if tt_hub_is_root tt then vd
       else let vd1 = vd\<lparr>in_ctx := (in_ctx vd)\<lparr>slot_ctx := (slot_ctx (in_ctx vd))\<lparr>tt_info := tt_hub_slot tt OR push_bit 8 (up_ttport pl)\<rparr>\<rparr>\<rparr>
            in if tt_multi tt then or_slot_ctx DEV_MTT 0 vd1 else vd1)"

definition set_ep0_ctx :: "u32 \<Rightarrow> xhci_virt_device \<Rightarrow> xhci_virt_device option" where
  "set_ep0_ctx max_packets vd = do {
     ctx \<leftarrow> ehub_xhci_get_ep_ctx (in_ctx vd) 0;
     ep \<leftarrow> nth_opt (eps vd) 0;
     r \<leftarrow> ep_ring ep;
     sg \<leftarrow> segs r (first_seg r);
     Some (vd\<lparr>in_ctx := put_ep_ctx 0 (ctx\<lparr>ep_info2 := EP_TYPE CTRL_EP OR (MAX_BURST 0 OR ERROR_COUNT 3 OR max_packets),
       deq := dma sg OR ucast (cycle_state r)\<rparr>) (in_ctx vd)\<rparr>)
   }"

text \<open>An early return leaves what was written before it.\<close>

definition ehub_xhci_setup_addressable_virt_dev :: "hub_params \<Rightarrow> usb_device \<Rightarrow> usb_place \<Rightarrow> root_hub \<Rightarrow> (int \<times> root_hub) option" where
  "ehub_xhci_setup_addressable_virt_dev B d pl h =
     (let slot_id = ud_slot_id d; put = (\<lambda>vd. h\<lparr>rh_hc := put_dev slot_id vd (rh_hc h)\<rparr>) in
      case devs (rh_hc h) slot_id of
        None \<Rightarrow> Some (- EINVAL, h)
      | Some vd \<Rightarrow>
          if slot_id = 0 then Some (- EINVAL, h)
          else let vd1 = or_slot_ctx (LAST_CTX 1 OR up_route pl) 0 vd in
            case slot_speed (ud_speed d) of
              None \<Rightarrow> Some (- EINVAL, put vd1)
            | Some (speed, max_packets) \<Rightarrow> do {
                let vd2 = or_slot_ctx speed 0 vd1;
                port_num \<leftarrow> xhci_find_real_port_number B h pl;
                if port_num = 0 then Some (- EINVAL, put vd2)
                else do {
                  let vd3 = (or_slot_ctx 0 (ROOT_HUB_PORT port_num) vd2)
                        \<lparr>fake_port := node_port (top_dev (up_node pl)), real_port := ucast port_num\<rparr>;
                  vd4 \<leftarrow> find_bw_table pl port_num (bw (rh_hc h)) vd3;
                  vd5 \<leftarrow> set_ep0_ctx max_packets (set_tt_ctx pl vd4);
                  Some (0, put vd5)
                }
              })"

text \<open>The result of the command.\<close>

definition setup_device_result :: "u32 \<Rightarrow> int" where
  "setup_device_result cmd_st =
     (if cmd_st = COMP_CMD_ABORT \<or> cmd_st = COMP_CMD_STOP then - ETIME
      else if cmd_st = COMP_CTX_STATE \<or> cmd_st = COMP_EBADSLT then - EINVAL
      else if cmd_st = COMP_TX_ERR then - EPROTO
      else if cmd_st = COMP_DEV_ERR then - ENODEV
      else if cmd_st = COMP_SUCCESS then 0
      else - EINVAL)"

text \<open>The input context for the command: a new device gets all of it, and the result of that is not
  used; a device that was set up before gets the place of its control ring.\<close>

definition prepare_address :: "hub_params \<Rightarrow> usb_device \<Rightarrow> usb_place \<Rightarrow> root_hub \<Rightarrow> root_hub option" where
  "prepare_address B d pl h = do {
     vd \<leftarrow> devs (rh_hc h) (ud_slot_id d);
     h1 \<leftarrow> (if dev_info (slot_ctx (in_ctx vd)) = 0
            then map_option snd (ehub_xhci_setup_addressable_virt_dev B d pl h)
            else map_option (\<lambda>vd1. h\<lparr>rh_hc := put_dev (ud_slot_id d) vd1 (rh_hc h)\<rparr>) (ehub_xhci_copy_ep0_dequeue_into_input_ctx vd));
     vd2 \<leftarrow> devs (rh_hc h1) (ud_slot_id d);
     Some (h1\<lparr>rh_hc := put_dev (ud_slot_id d) (vd2\<lparr>in_ctx := (in_ctx vd2)\<lparr>add_flags := SLOT_FLAG OR EP0_FLAG, drop_flags := 0\<rparr>\<rparr>) (rh_hc h1)\<rparr>)
   }"

definition address_command ::
  "env \<Rightarrow> hub_params \<Rightarrow> (nat \<Rightarrow> hc \<Rightarrow> hc option) \<Rightarrow> nat \<Rightarrow> u32 \<Rightarrow> bool \<Rightarrow> hc \<Rightarrow> (int \<times> hc) option" where
  "address_command k B wait cmd slot_id context_only c = do {
     vd \<leftarrow> devs c slot_id;
     (ret, c1) \<leftarrow> run_command (ehub_xhci_queue_address_device k (hp_quirks (hb_hcd B)) cmd (ctx_dma (in_ctx vd)) slot_id context_only) c;
     if ret \<noteq> 0 then Some (ret, c1)
     else do {
       c2 \<leftarrow> with_hcd (ehub_xhci_ring_cmd_db k) c1;
       c3 \<leftarrow> wait cmd c2;
       obj \<leftarrow> commands c3 cmd;
       let ret1 = setup_device_result (cmd_status obj);
       if ret1 \<noteq> 0 then Some (ret1, c3)
       else do {
         (_, c4) \<leftarrow> hc_read_64 k (op_regs B + 0x30) c3;
         vd4 \<leftarrow> devs c4 slot_id;
         Some (0, put_dev slot_id (vd4\<lparr>in_ctx := (in_ctx vd4)\<lparr>add_flags := 0, drop_flags := 0\<rparr>\<rparr>) c4)
       }
     }
   }"

definition xhci_setup_device ::
  "env \<Rightarrow> hub_params \<Rightarrow> (nat \<Rightarrow> hc \<Rightarrow> hc option) \<Rightarrow> usb_device \<Rightarrow> usb_place \<Rightarrow> bool \<Rightarrow> root_hub \<Rightarrow> (int \<times> root_hub) option" where
  "xhci_setup_device k B wait d pl context_only h =
     (let slot_id = ud_slot_id d in
      if slot_id = 0 then Some (- EINVAL, h)
      else case devs (rh_hc h) slot_id of
        None \<Rightarrow> Some (- EINVAL, h)
      | Some vd \<Rightarrow>
          if context_only \<and> GET_SLOT_STATE (dev_state (slot_ctx (out_ctx vd))) = SLOT_STATE_DEFAULT then Some (0, h)
          else case ehub_xhci_alloc_command k False False (rh_hc h) of
            (None, c1) \<Rightarrow> Some (- ENOMEM, h\<lparr>rh_hc := c1\<rparr>)
          | (Some cmd, c1) \<Rightarrow>
              if \<not> ctx_input (in_ctx vd) then Some (- EINVAL, h\<lparr>rh_hc := ehub_xhci_free_command cmd c1\<rparr>)
              else do {
                h2 \<leftarrow> prepare_address B d pl (h\<lparr>rh_hc := set_waiter cmd c1\<rparr>);
                (ret, c3) \<leftarrow> address_command k B wait cmd slot_id context_only (rh_hc h2);
                Some (ret, h2\<lparr>rh_hc := ehub_xhci_free_command cmd c3\<rparr>)
              })"

definition ehub_xhci_address_device ::
  "env \<Rightarrow> hub_params \<Rightarrow> (nat \<Rightarrow> hc \<Rightarrow> hc option) \<Rightarrow> usb_device \<Rightarrow> usb_place \<Rightarrow> root_hub \<Rightarrow> (int \<times> root_hub) option" where
  "ehub_xhci_address_device k B wait d pl h = xhci_setup_device k B wait d pl False h"

definition ehub_xhci_enable_device ::
  "env \<Rightarrow> hub_params \<Rightarrow> (nat \<Rightarrow> hc \<Rightarrow> hc option) \<Rightarrow> usb_device \<Rightarrow> usb_place \<Rightarrow> root_hub \<Rightarrow> (int \<times> root_hub) option" where
  "ehub_xhci_enable_device k B wait d pl h = xhci_setup_device k B wait d pl True h"

section \<open>Reset of a device\<close>

text \<open>The structures of one endpoint after the Reset Device command. Only an endpoint that is linked
  into a table is taken out of it.\<close>

definition reset_ep_bw :: "u32 \<Rightarrow> nat \<Rightarrow> hc \<Rightarrow> hc option" where
  "reset_ep_bw slot_id i c = do {
     vd \<leftarrow> devs c slot_id;
     let in_table = (case Option.bind (bw_table_of vd) (\<lambda>dm. get_table dm (bw c)) of None \<Rightarrow> False | Some tab \<Rightarrow> linked (slot_id, i) tab);
     b \<leftarrow> (if in_table
           then Option.bind (bw_table_of vd) (\<lambda>dm. ehub_xhci_drop_ep_from_interval_table dm (ud_speed (udev vd)) (tt_info_of vd) (slot_id, i) (bw c))
           else Some (bw c));
     Some (c\<lparr>bw := b\<lparr>bw_infos := (bw_infos b)((slot_id, i) := ehub_xhci_clear_endpoint_bw_info)\<rparr>\<rparr>)
   }"

fun reset_eps :: "u32 \<Rightarrow> nat list \<Rightarrow> hc \<Rightarrow> hc option" where
  "reset_eps slot_id [] c = Some c"
| "reset_eps slot_id (i # is) c = do {
     c1 \<leftarrow> xhci_check_bw_drop_ep_streams slot_id (of_nat i) c;
     ep \<leftarrow> get_ep slot_id (of_nat i) c1;
     c2 \<leftarrow> (if ep_ring ep \<noteq> None then ehub_xhci_free_endpoint_ring slot_id (of_nat i) c1 else Some c1);
     c3 \<leftarrow> reset_ep_bw slot_id i c2;
     reset_eps slot_id is c3
   }"

text \<open>After a successful command: the number of active endpoints of the translator before the reset
  is not read, it is taken to be 0.\<close>

definition reset_device_done :: "hcd_params \<Rightarrow> u32 \<Rightarrow> hc \<Rightarrow> hc option" where
  "reset_device_done P slot_id c = do {
     vd \<leftarrow> devs c slot_id;
     let c1 = (if hp_quirks P AND XHCI_EP_LIMIT_QUIRK \<noteq> 0 then ehub_xhci_free_device_endpoint_resources vd False c else c);
     c2 \<leftarrow> reset_eps slot_id [1..<31] c1;
     vd2 \<leftarrow> devs c2 slot_id;
     b \<leftarrow> ehub_xhci_update_tt_active_eps (tt_info_of vd2) (real_port vd2) 0 (bw c2);
     Some (c2\<lparr>bw := b\<rparr>)
   }"

definition reset_device_command ::
  "env \<Rightarrow> hcd_params \<Rightarrow> (nat \<Rightarrow> hc \<Rightarrow> hc option) \<Rightarrow> u32 \<Rightarrow> nat \<Rightarrow> hc \<Rightarrow> (int \<times> hc) option" where
  "reset_device_command k P wait slot_id cmd c = do {
     (ret, c1) \<leftarrow> run_command (ehub_xhci_queue_reset_device k (hp_quirks P) cmd slot_id) c;
     if ret \<noteq> 0 then Some (ret, c1)
     else do {
       c2 \<leftarrow> with_hcd (ehub_xhci_ring_cmd_db k) c1;
       c3 \<leftarrow> wait cmd c2;
       obj \<leftarrow> commands c3 cmd;
       let st = cmd_status obj;
       if st = COMP_CMD_ABORT \<or> st = COMP_CMD_STOP then Some (- ETIME, c3)
       else if st = COMP_EBADSLT \<or> st = COMP_CTX_STATE then Some (0, c3)
       else if st = COMP_SUCCESS \<or> ehub_xhci_is_vendor_info_code st then map_option (\<lambda>c4. (0, c4)) (reset_device_done P slot_id c3)
       else Some (- EINVAL, c3)
     }
   }"

definition ehub_xhci_discover_or_reset_device ::
  "env \<Rightarrow> hub_params \<Rightarrow> (nat \<Rightarrow> hc \<Rightarrow> hc option) \<Rightarrow> usb_device option \<Rightarrow> hc \<Rightarrow> ((int \<times> usb_device option) \<times> hc) option" where
  "ehub_xhci_discover_or_reset_device k B wait ud c =
     (let ret = xhci_check_args ud False False c in
      if ret \<le> 0 then Some ((ret, ud), c)
      else do {
        d \<leftarrow> ud;
        let slot_id = ud_slot_id d;
        let reallocate = map_option (\<lambda>((ret1, d1), c1). ((if ret1 = 1 then 0 else - EINVAL, Some d1), c1)) (ehub_xhci_alloc_dev k B wait d c);
        case devs c slot_id of
          None \<Rightarrow> reallocate
        | Some vd \<Rightarrow>
            if ud_id (udev vd) \<noteq> ud_id d then reallocate
            else if GET_SLOT_STATE (dev_state (slot_ctx (out_ctx vd))) = SLOT_STATE_DISABLED then Some ((0, ud), c)
            else (case ehub_xhci_alloc_command k False True c of
               (None, c1) \<Rightarrow> Some ((- ENOMEM, ud), c1)
             | (Some cmd, c1) \<Rightarrow> map_option (\<lambda>(ret1, c2). ((ret1, ud), ehub_xhci_free_command cmd c2))
                 (reset_device_command k (hb_hcd B) wait slot_id cmd c1))
      })"

section \<open>Release of a device\<close>

fun stop_timers :: "u32 \<Rightarrow> nat list \<Rightarrow> hc \<Rightarrow> hc option" where
  "stop_timers slot_id [] c = Some c"
| "stop_timers slot_id (i # is) c = do {
     ep \<leftarrow> get_ep slot_id (of_nat i) c;
     stop_timers slot_id is (put_ep slot_id (of_nat i) (ep\<lparr>stop_cmd_timer := False\<rparr>)
       (map_ep_state (\<lambda>st. st AND NOT EP_HALT_PENDING) slot_id (of_nat i) c))
   }"

text \<open>Without a free TRB for the command the device stays, and the command structure is lost.\<close>

definition ehub_xhci_free_dev :: "env \<Rightarrow> hub_params \<Rightarrow> usb_device option \<Rightarrow> root_hub \<Rightarrow> root_hub option" where
  "ehub_xhci_free_dev k B ud h = (case ehub_xhci_alloc_command k False False (rh_hc h) of
     (None, c1) \<Rightarrow> Some (h\<lparr>rh_hc := c1\<rparr>)
   | (Some cmd, c1) \<Rightarrow>
       let ret = xhci_check_args ud False True c1 in
       if ret \<le> 0 \<and> ret \<noteq> - ENODEV then Some (h\<lparr>rh_hc := ehub_xhci_free_command cmd c1\<rparr>)
       else do {
         d \<leftarrow> ud;
         let slot_id = ud_slot_id d;
         c2 \<leftarrow> stop_timers slot_id [0..<31] c1;
         h2 \<leftarrow> xhci_reg_lock (h\<lparr>rh_hc := c2\<rparr>);
         (st, h3) \<leftarrow> hub_readl k (op_regs B + 4) h2;
         if st = - 1 \<or> xhc_state (hcd (rh_hc h3)) AND XHCI_STATE_DYING \<noteq> 0 \<or> xhc_state (hcd (rh_hc h3)) AND XHCI_STATE_HALTED \<noteq> 0
         then map_option (\<lambda>h4. (xhci_reg_unlock h4)\<lparr>rh_hc := ehub_xhci_free_command cmd (rh_hc h4)\<rparr>)
                (with_hc (ehub_xhci_free_virt_device slot_id) h3)
         else do {
           let h4 = xhci_reg_unlock h3;
           (ret1, c5) \<leftarrow> run_command (ehub_xhci_queue_slot_control k (hp_quirks (hb_hcd B)) cmd TRB_DISABLE_SLOT slot_id) (rh_hc h4);
           if ret1 \<noteq> 0 then Some (h4\<lparr>rh_hc := c5\<rparr>)
           else with_hc (with_hcd (ehub_xhci_ring_cmd_db k)) (h4\<lparr>rh_hc := c5\<rparr>)
         }
       })"

section \<open>Hubs\<close>

definition DEV_HUB :: u32 where "DEV_HUB = push_bit 26 1"
definition XHCI_MAX_PORTS :: "u32 \<Rightarrow> u32" where "XHCI_MAX_PORTS p = push_bit 24 (p AND 0xff)"
definition TT_THINK_TIME :: "u32 \<Rightarrow> u32" where "TT_THINK_TIME p = push_bit 16 (p AND 3)"

text \<open>The context a command owns.\<close>

definition put_cmd_ctx :: "nat \<Rightarrow> xhci_container_ctx \<Rightarrow> hc \<Rightarrow> hc" where
  "put_cmd_ctx cmd ctx c = c\<lparr>commands := (commands c)(cmd := map_option (\<lambda>x. x\<lparr>cmd_in_ctx := Some ctx\<rparr>) (commands c cmd))\<rparr>"

text \<open>The slot context of a hub: \<open>maxchild\<close> ports, one or more translators, and how long they need
  between transactions, in nanoseconds.\<close>

definition hub_slot_ctx :: "hcd_params \<Rightarrow> usb_speed \<Rightarrow> bool \<Rightarrow> u32 \<Rightarrow> u32 \<Rightarrow> xhci_slot_ctx \<Rightarrow> xhci_slot_ctx" where
  "hub_slot_ctx P speed multi tt_think maxchild sc =
     (let sc1 = sc\<lparr>dev_info := dev_info sc OR DEV_HUB OR (if multi then DEV_MTT else 0), dev_state := 0\<rparr> in
      if hci_version P \<le> 0x95 then sc1
      else let think_time = (if tt_think \<noteq> 0 then tt_think div 666 - 1 else tt_think) in
        sc1\<lparr>dev_info2 := dev_info2 sc1 OR XHCI_MAX_PORTS maxchild,
            tt_info := (if hci_version P < 0x100 \<or> speed = USB_SPEED_HIGH then tt_info sc1 OR TT_THINK_TIME think_time else tt_info sc1)\<rparr>)"

definition hub_tt_info :: "env \<Rightarrow> u32 \<Rightarrow> xhci_virt_device \<Rightarrow> bool \<Rightarrow> nat \<Rightarrow> hc \<Rightarrow> (int \<times> hc) option" where
  "hub_tt_info k slot_id vd multi maxchild c = map_option (\<lambda>((ret, tck), b). (ret, c\<lparr>bw := b, hcd := (hcd c)\<lparr>tick := tck\<rparr>\<rparr>))
     (ehub_xhci_alloc_tt_info k (real_port vd) (uint (ud_slot_id (udev vd))) multi maxchild (tick (hcd c)) (bw c))"

definition ehub_xhci_update_hub_device ::
  "env \<Rightarrow> hcd_params \<Rightarrow> (nat \<Rightarrow> hc \<Rightarrow> hc option) \<Rightarrow> usb_device \<Rightarrow> bool \<Rightarrow> u32 \<Rightarrow> nat \<Rightarrow> hc \<Rightarrow> (int \<times> hc) option" where
  "ehub_xhci_update_hub_device k P wait d multi tt_think maxchild c =
     (let slot_id = ud_slot_id d in
      if ud_root_hub d then Some (0, c)
      else case devs c slot_id of
        None \<Rightarrow> Some (- EINVAL, c)
      | Some vd \<Rightarrow> (case ehub_xhci_alloc_command k True True c of
          (None, c1) \<Rightarrow> Some (- ENOMEM, c1)
        | (Some cmd, c1) \<Rightarrow> do {
            obj \<leftarrow> commands c1 cmd;
            ctx \<leftarrow> cmd_in_ctx obj;
            if \<not> ctx_input ctx then Some (- ENOMEM, ehub_xhci_free_command cmd c1)
            else do {
              (ret, c2) \<leftarrow> (if ud_speed d = USB_SPEED_HIGH then hub_tt_info k slot_id vd multi maxchild c1 else Some (0, c1));
              if ret \<noteq> 0 then Some (- ENOMEM, ehub_xhci_free_command cmd c2)
              else do {
                let ctx1 = (ehub_xhci_slot_copy (out_ctx vd) ctx)\<lparr>add_flags := add_flags ctx OR SLOT_FLAG\<rparr>;
                let ctx2 = ctx1\<lparr>slot_ctx := hub_slot_ctx P (ud_speed d) multi tt_think (of_nat maxchild) (slot_ctx ctx1)\<rparr>;
                (ret1, c3) \<leftarrow> xhci_configure_endpoint k P wait slot_id (Some cmd) (Some ctx2) (hci_version P \<le> 0x95) False (put_cmd_ctx cmd ctx2 c2);
                Some (ret1, ehub_xhci_free_command cmd c3)
              }
            }
          }))"

end
