(* ===== verification/Xhci_Streams.thy ===== *)
theory Xhci_Streams
  imports Xhci_Device
begin

text \<open>
  Streams of bulk endpoints (\<open>xhci-mem.c\<close>, \<open>xhci.c\<close>): the rings of an endpoint with streams, the map
  from addresses to rings that events are looked up in, and the change of a set of endpoints to
  streams and back.
\<close>

section \<open>Constants\<close>

definition HCC_MAX_PSA :: "u32 \<Rightarrow> u32" where "HCC_MAX_PSA p = push_bit (unat (drop_bit 12 p AND 0xf) + 1) 1"
definition EP_MAXPSTREAMS_MASK :: u32 where "EP_MAXPSTREAMS_MASK = push_bit 10 0x1f"
definition EP_MAXPSTREAMS :: "u32 \<Rightarrow> u32" where "EP_MAXPSTREAMS p = push_bit 10 p AND EP_MAXPSTREAMS_MASK"
definition EP_HAS_LSA :: u32 where "EP_HAS_LSA = push_bit 15 1"
definition SCT_FOR_CTX :: "u32 \<Rightarrow> u32" where "SCT_FOR_CTX p = push_bit 1 (p AND 7)"
definition MAX_RSVD_CMD_TRBS :: u32 where "MAX_RSVD_CMD_TRBS = of_nat TRBS_PER_SEGMENT - 3"
definition XHCI_BROKEN_STREAMS :: u32 where "XHCI_BROKEN_STREAMS = push_bit 19 1"
definition TRB_SEGMENT_SHIFT :: nat where "TRB_SEGMENT_SHIFT = 10"
definition ENOSYS :: int where "ENOSYS = 38"

text \<open>\<open>usb_ss_max_streams\<close> and \<open>roundup_pow_of_two\<close> of the kernel.\<close>

definition usb_ss_max_streams :: "usb_host_endpoint \<Rightarrow> u32" where
  "usb_ss_max_streams desc = (let n = unat (ss_bmAttributes desc AND 0x1f) in if n = 0 then 0 else push_bit n 1)"

definition roundup_pow_of_two :: "u32 \<Rightarrow> u32" where
  "roundup_pow_of_two n = push_bit (fls (n - 1)) 1"

section \<open>The map from addresses to rings\<close>

definition xhci_insert_segment_mapping :: "nat \<Rightarrow> xhci_segment \<Rightarrow> (u64 \<rightharpoonup> nat) \<Rightarrow> u64 \<rightharpoonup> nat" where
  "xhci_insert_segment_mapping ring sg m =
     (let key = drop_bit TRB_SEGMENT_SHIFT (dma sg) in if m key \<noteq> None then m else m(key \<mapsto> ring))"

text \<open>The segments from the first to the last. A failed insertion takes the segments out again; the
  map is thrown away then.\<close>

partial_function (option) map_segments :: "seg_heap \<Rightarrow> nat \<Rightarrow> seg_id \<Rightarrow> seg_id \<Rightarrow> seg_id \<Rightarrow> (u64 \<rightharpoonup> nat) \<Rightarrow> (u64 \<rightharpoonup> nat) option" where
  [code]: "map_segments h ring first lst g m = do {
     sg \<leftarrow> h g;
     let m1 = xhci_insert_segment_mapping ring sg m;
     if g = lst then Some m1
     else do {
       nx \<leftarrow> next_seg sg;
       if nx = first then Some m1 else map_segments h ring first lst nx m1
     }
   }"

definition xhci_update_stream_mapping :: "hcd_params \<Rightarrow> nat \<Rightarrow> xhci_ring \<Rightarrow> (u64 \<rightharpoonup> nat) \<Rightarrow> (int \<times> (u64 \<rightharpoonup> nat)) option" where
  "xhci_update_stream_mapping P ring r m =
     (if map_status P \<noteq> 0 then Some (map_status P, m)
      else map_option (\<lambda>m1. (0, m1)) (map_segments (segs r) ring (first_seg r) (last_seg r) (first_seg r) m))"

section \<open>The streams of an endpoint\<close>

definition reserve_trb :: "(u32 \<Rightarrow> u32) \<Rightarrow> hc \<Rightarrow> hc" where
  "reserve_trb f c = c\<lparr>cmdq := (cmdq c)\<lparr>cmd_ring_reserved_trbs := f (cmd_ring_reserved_trbs (cmdq c))\<rparr>\<rparr>"

text \<open>The rings from stream \<open>i\<close> on. The first result tells whether all of them are there.\<close>

fun alloc_stream_rings ::
  "env \<Rightarrow> hcd_params \<Rightarrow> nat list \<Rightarrow> xhci_stream_info \<Rightarrow> ehub \<Rightarrow> ((bool \<times> xhci_stream_info) \<times> ehub) option" where
  "alloc_stream_rings k P [] si s = Some ((True, si), s)"
| "alloc_stream_rings k P (i # is) si s = do {
     (p, s1) \<leftarrow> xhci_ring_alloc k (hp_quirks P) 2 1 TYPE_STREAM s;
     (case p of
        None \<Rightarrow> Some ((False, si), s1)
      | Some r \<Rightarrow> do {
          sg \<leftarrow> segs r (first_seg r);
          _ \<leftarrow> nth_opt (stream_ctx_array si) i;
          (ret, m) \<leftarrow> xhci_update_stream_mapping P i r (trb_address_map si);
          if ret \<noteq> 0 then map_option (\<lambda>s2. ((False, si), s2)) (ehub_xhci_ring_free (Some r) s1)
          else alloc_stream_rings k P is
                 (si\<lparr>stream_rings := (stream_rings si)[i := Some r],
                     stream_ctx_array := (stream_ctx_array si)[i := dma sg OR ucast (SCT_FOR_CTX SCT_PRI_TR) OR ucast (cycle_state r)],
                     trb_address_map := m\<rparr>) s1
        })
   }"

text \<open>Memory for the array of stream contexts: one of two pools, or coherent memory.\<close>

definition xhci_alloc_stream_ctx :: "env \<Rightarrow> u32 \<Rightarrow> ehub \<Rightarrow> u64 option \<times> ehub" where
  "xhci_alloc_stream_ctx k n s = (dma_pool_alloc k (tick s), tick_up s)"

definition new_stream_info :: "u32 \<Rightarrow> u32 \<Rightarrow> u64 \<Rightarrow> nat \<Rightarrow> xhci_stream_info" where
  "new_stream_info n_ctxs n addr cmd = \<lparr>stream_rings = replicate (unat n) None, num_streams = n, stream_ctx_array = replicate (unat n_ctxs) 0,
     num_stream_ctxs = n_ctxs, ctx_array_dma = addr, trb_address_map = Map.empty, free_streams_command = cmd\<rparr>"

definition ehub_xhci_alloc_stream_info :: "env \<Rightarrow> hcd_params \<Rightarrow> u32 \<Rightarrow> u32 \<Rightarrow> hc \<Rightarrow> (xhci_stream_info option \<times> hc) option" where
  "ehub_xhci_alloc_stream_info k P n_ctxs n c =
     (let release = reserve_trb (\<lambda>x. x - 1); ticked = (\<lambda>m c. c\<lparr>hcd := (hcd c)\<lparr>tick := tick (hcd c) + m\<rparr>\<rparr>) in
      if cmd_ring_reserved_trbs (cmdq c) = MAX_RSVD_CMD_TRBS then Some (None, c)
      else let c1 = reserve_trb (\<lambda>x. x + 1) c in
        if \<not> kzalloc k (tick (hcd c1)) then Some (None, release (ticked 1 c1))
        else if \<not> kzalloc k (tick (hcd c1) + 1) then Some (None, release (ticked 2 c1))
        else case xhci_alloc_stream_ctx k n_ctxs (hcd (ticked 2 c1)) of
            (None, s2) \<Rightarrow> Some (None, release (c1\<lparr>hcd := s2\<rparr>))
          | (Some addr, s2) \<Rightarrow> (case ehub_xhci_alloc_command k True True (c1\<lparr>hcd := s2\<rparr>) of
              (None, c3) \<Rightarrow> Some (None, release c3)
            | (Some cmd, c3) \<Rightarrow> do {
                ((ok, si), s4) \<leftarrow> alloc_stream_rings k P [1..<unat n] (new_stream_info n_ctxs n addr cmd) (hcd c3);
                let c4 = c3\<lparr>hcd := s4\<rparr>;
                if ok then Some (Some si, c4)
                else map_option (\<lambda>c5. (None, release (ehub_xhci_free_command cmd c5))) (with_hcd (free_rings (drop 1 (stream_rings si))) c4)
              }))"

section \<open>Endpoint contexts with and without streams\<close>

definition ehub_xhci_setup_streams_ep_input_ctx :: "xhci_stream_info \<Rightarrow> xhci_ep_ctx \<Rightarrow> xhci_ep_ctx" where
  "ehub_xhci_setup_streams_ep_input_ctx si ctx =
     (let max_primary_streams = of_nat (fls (num_stream_ctxs si)) - 2 in
      ctx\<lparr>ep_info := (ep_info ctx AND NOT EP_MAXPSTREAMS_MASK) OR (EP_MAXPSTREAMS max_primary_streams OR EP_HAS_LSA), deq := ctx_array_dma si\<rparr>)"

definition ehub_xhci_setup_no_streams_ep_input_ctx :: "xhci_virt_ep \<Rightarrow> xhci_ep_ctx \<Rightarrow> xhci_ep_ctx option" where
  "ehub_xhci_setup_no_streams_ep_input_ctx ep ctx = do {
     r \<leftarrow> ep_ring ep;
     Some (ctx\<lparr>ep_info := ep_info ctx AND NOT (EP_MAXPSTREAMS_MASK OR EP_HAS_LSA),
       deq := ehub_xhci_trb_virt_to_dma (segs r (deq_seg r)) (Some (dequeue r)) OR ucast (cycle_state r)\<rparr>)
   }"

section \<open>Checks\<close>

text \<open>The outer \<^const>\<open>None\<close> is the access to the ring of an endpoint that has none.\<close>

definition xhci_check_streams_endpoint :: "usb_device option \<Rightarrow> usb_host_endpoint option \<Rightarrow> u32 \<Rightarrow> hc \<Rightarrow> int option" where
  "xhci_check_streams_endpoint ud p slot_id c = (case p of
     None \<Rightarrow> Some (- EINVAL)
   | Some desc \<Rightarrow>
       if xhci_check_args ud False True c \<le> 0 then Some (- EINVAL)
       else if usb_ss_max_streams desc = 0 then Some (- EINVAL)
       else do {
         let i = ehub_xhci_get_endpoint_index desc;
         ep \<leftarrow> get_ep slot_id i c;
         let st = ep_state (hcd c) slot_id i;
         if st AND EP_HAS_STREAMS \<noteq> 0 \<or> st AND EP_GETTING_STREAMS \<noteq> 0 then Some (- EINVAL)
         else map_option (\<lambda>r. if has_tds r then - EINVAL else 0) (ep_ring ep)
       })"

definition xhci_calculate_streams_entries :: "hub_params \<Rightarrow> u32 \<Rightarrow> u32 \<times> u32" where
  "xhci_calculate_streams_entries B n =
     (let n_ctxs = roundup_pow_of_two n; max_streams = HCC_MAX_PSA (hcc_params B) in
      if max_streams < n_ctxs then (max_streams, max_streams) else (n, n_ctxs))"

text \<open>The number of streams all endpoints support and the flags of the endpoints.\<close>

fun xhci_calculate_streams_and_bitmask ::
  "usb_device option \<Rightarrow> u32 \<Rightarrow> usb_host_endpoint option list \<Rightarrow> u32 \<Rightarrow> u32 \<Rightarrow> hc \<Rightarrow> (int \<times> u32 \<times> u32) option" where
  "xhci_calculate_streams_and_bitmask ud slot_id [] n bits c = Some (0, n, bits)"
| "xhci_calculate_streams_and_bitmask ud slot_id (p # ps) n bits c = do {
     ret \<leftarrow> xhci_check_streams_endpoint ud p slot_id c;
     if ret < 0 then Some (ret, n, bits)
     else do {
       desc \<leftarrow> p;
       let max_streams = usb_ss_max_streams desc;
       let n1 = (if max_streams < n - 1 then max_streams + 1 else n);
       let flag = ehub_xhci_get_endpoint_flag desc;
       if bits AND flag \<noteq> 0 then Some (- EINVAL, n1, bits)
       else xhci_calculate_streams_and_bitmask ud slot_id ps n1 (bits OR flag) c
     }
   }"

fun no_streams_bitmask :: "u32 \<Rightarrow> usb_host_endpoint list \<Rightarrow> u32 \<Rightarrow> hc \<Rightarrow> u32 option" where
  "no_streams_bitmask slot_id [] bits c = Some bits"
| "no_streams_bitmask slot_id (desc # ds) bits c = do {
     let i = ehub_xhci_get_endpoint_index desc;
     _ \<leftarrow> get_ep slot_id i c;
     let st = ep_state (hcd c) slot_id i;
     if st AND EP_GETTING_NO_STREAMS \<noteq> 0 then Some 0
     else if st AND EP_HAS_STREAMS = 0 \<and> st AND EP_GETTING_STREAMS = 0 then Some 0
     else no_streams_bitmask slot_id ds (bits OR ehub_xhci_get_endpoint_flag desc) c
   }"

definition xhci_calculate_no_streams_bitmask :: "u32 \<Rightarrow> usb_host_endpoint list \<Rightarrow> hc \<Rightarrow> u32 option" where
  "xhci_calculate_no_streams_bitmask slot_id ds c = (if devs c slot_id = None then Some 0 else no_streams_bitmask slot_id ds 0 c)"

section \<open>Changing endpoints to streams\<close>

definition set_flags :: "u32 \<Rightarrow> (u32 \<Rightarrow> u32) \<Rightarrow> usb_host_endpoint list \<Rightarrow> hc \<Rightarrow> hc" where
  "set_flags slot_id f ds c = fold (\<lambda>desc. map_ep_state f slot_id (ehub_xhci_get_endpoint_index desc)) ds c"

text \<open>Stream information for each of the endpoints; the first one that fails keeps none, and those
  behind it what they have.\<close>

fun alloc_infos :: "env \<Rightarrow> hcd_params \<Rightarrow> u32 \<Rightarrow> u32 \<Rightarrow> u32 \<Rightarrow> usb_host_endpoint list \<Rightarrow> hc \<Rightarrow> (bool \<times> hc) option" where
  "alloc_infos k P slot_id n_ctxs n [] c = Some (True, c)"
| "alloc_infos k P slot_id n_ctxs n (desc # ds) c = do {
     let i = ehub_xhci_get_endpoint_index desc;
     (p, c1) \<leftarrow> ehub_xhci_alloc_stream_info k P n_ctxs n c;
     ep \<leftarrow> get_ep slot_id i c1;
     let c2 = put_ep slot_id i (ep\<lparr>stream_info := p\<rparr>) c1;
     if p = None then Some (False, c2) else alloc_infos k P slot_id n_ctxs n ds c2
   }"

text \<open>The contexts of the endpoints, copied from the output context and changed.\<close>

fun copy_ep_ctxs :: "(u32 \<Rightarrow> xhci_ep_ctx \<Rightarrow> xhci_ep_ctx option) \<Rightarrow> xhci_container_ctx \<Rightarrow> u32 list \<Rightarrow> xhci_container_ctx \<Rightarrow> xhci_container_ctx option" where
  "copy_ep_ctxs f outc [] ctx = Some ctx"
| "copy_ep_ctxs f outc (i # is) ctx = do {
     ctx1 \<leftarrow> ehub_xhci_endpoint_copy i outc ctx;
     x \<leftarrow> ehub_xhci_get_ep_ctx ctx1 i;
     y \<leftarrow> f i x;
     copy_ep_ctxs f outc is (put_ep_ctx i y ctx1)
   }"

definition streams_ctx :: "u32 \<Rightarrow> hc \<Rightarrow> u32 \<Rightarrow> xhci_ep_ctx \<Rightarrow> xhci_ep_ctx option" where
  "streams_ctx slot_id c i ctx = do {
     ep \<leftarrow> get_ep slot_id i c;
     si \<leftarrow> stream_info ep;
     Some (ehub_xhci_setup_streams_ep_input_ctx si ctx)
   }"

text \<open>The way back: the endpoints get their old state, their contexts in the input context of the
  device are cleared.\<close>

fun drop_infos :: "u32 \<Rightarrow> usb_host_endpoint list \<Rightarrow> hc \<Rightarrow> hc option" where
  "drop_infos slot_id [] c = Some c"
| "drop_infos slot_id (desc # ds) c = do {
     let i = ehub_xhci_get_endpoint_index desc;
     ep \<leftarrow> get_ep slot_id i c;
     c1 \<leftarrow> ehub_xhci_free_stream_info (stream_info ep) c;
     c2 \<leftarrow> ehub_xhci_endpoint_zero slot_id desc (map_ep_state (\<lambda>st. st AND NOT EP_GETTING_STREAMS AND NOT EP_HAS_STREAMS) slot_id i
             (put_ep slot_id i (ep\<lparr>stream_info := None\<rparr>) c1));
     drop_infos slot_id ds c2
   }"

definition configure_streams ::
  "env \<Rightarrow> hcd_params \<Rightarrow> (nat \<Rightarrow> hc \<Rightarrow> hc option) \<Rightarrow> u32 \<Rightarrow> usb_host_endpoint list \<Rightarrow> u32 \<Rightarrow> nat \<Rightarrow> xhci_container_ctx \<Rightarrow> hc \<Rightarrow> (int \<times> hc) option" where
  "configure_streams k P wait slot_id ds bits cmd ctx c = do {
     vd \<leftarrow> devs c slot_id;
     ctx1 \<leftarrow> copy_ep_ctxs (streams_ctx slot_id c) (out_ctx vd) (map ehub_xhci_get_endpoint_index ds) ctx;
     let ctx2 = xhci_setup_input_ctx_for_config_ep (out_ctx vd) bits bits ctx1;
     xhci_configure_endpoint k P wait slot_id (Some cmd) (Some ctx2) False False (put_cmd_ctx cmd ctx2 c)
   }"

definition start_streams ::
  "env \<Rightarrow> hub_params \<Rightarrow> (nat \<Rightarrow> hc \<Rightarrow> hc option) \<Rightarrow> u32 \<Rightarrow> usb_host_endpoint list \<Rightarrow> u32 \<Rightarrow> u32 \<Rightarrow> nat \<Rightarrow> xhci_container_ctx \<Rightarrow> hc \<Rightarrow> (int \<times> hc) option" where
  "start_streams k B wait slot_id ds n bits cmd ctx c = (case xhci_calculate_streams_entries B n of (n1, n_ctxs) \<Rightarrow> do {
     let P = hb_hcd B;
     let fail = (\<lambda>c'. map_option (\<lambda>c''. (- ENOMEM, ehub_xhci_free_command cmd c'')) (drop_infos slot_id ds c'));
     (ok, c2) \<leftarrow> alloc_infos k P slot_id n_ctxs n1 ds (set_flags slot_id (\<lambda>st. st OR EP_GETTING_STREAMS) ds c);
     if \<not> ok then fail c2
     else do {
       (ret, c3) \<leftarrow> configure_streams k P wait slot_id ds bits cmd ctx c2;
       if ret < 0 then fail c3
       else Some (sint (n1 - 1), ehub_xhci_free_command cmd
              (set_flags slot_id (\<lambda>st. (st AND NOT EP_GETTING_STREAMS) OR EP_HAS_STREAMS) ds c3))
     }
   })"

definition ehub_xhci_alloc_streams ::
  "env \<Rightarrow> hub_params \<Rightarrow> (nat \<Rightarrow> hc \<Rightarrow> hc option) \<Rightarrow> usb_device \<Rightarrow> usb_host_endpoint option list option \<Rightarrow> u32 \<Rightarrow> hc \<Rightarrow> (int \<times> hc) option" where
  "ehub_xhci_alloc_streams k B wait d es requested c = (case es of
     None \<Rightarrow> Some (- EINVAL, c)
   | Some ps \<Rightarrow>
       if hp_quirks (hb_hcd B) AND XHCI_BROKEN_STREAMS \<noteq> 0 \<or> HCC_MAX_PSA (hcc_params B) < 4 then Some (- ENOSYS, c)
       else (case ehub_xhci_alloc_command k True True c of
         (None, c1) \<Rightarrow> Some (- ENOMEM, c1)
       | (Some cmd, c1) \<Rightarrow> do {
           obj \<leftarrow> commands c1 cmd;
           ctx \<leftarrow> cmd_in_ctx obj;
           if \<not> ctx_input ctx then Some (- ENOMEM, ehub_xhci_free_command cmd c1)
           else do {
             (ret, n, bits) \<leftarrow> xhci_calculate_streams_and_bitmask (Some d) (ud_slot_id d) ps (requested + 1) 0 c1;
             if ret < 0 then Some (ret, ehub_xhci_free_command cmd c1)
             else if n \<le> 1 then Some (- EINVAL, ehub_xhci_free_command cmd c1)
             else start_streams k B wait (ud_slot_id d) (map the ps) n bits cmd ctx c1
           }
         }))"

section \<open>Giving streams up\<close>

definition no_streams_ctx :: "u32 \<Rightarrow> hc \<Rightarrow> u32 \<Rightarrow> xhci_ep_ctx \<Rightarrow> xhci_ep_ctx option" where
  "no_streams_ctx slot_id c i ctx = Option.bind (get_ep slot_id i c) (\<lambda>ep. ehub_xhci_setup_no_streams_ep_input_ctx ep ctx)"

fun free_infos :: "u32 \<Rightarrow> usb_host_endpoint list \<Rightarrow> hc \<Rightarrow> hc option" where
  "free_infos slot_id [] c = Some c"
| "free_infos slot_id (desc # ds) c = do {
     let i = ehub_xhci_get_endpoint_index desc;
     ep \<leftarrow> get_ep slot_id i c;
     c1 \<leftarrow> ehub_xhci_free_stream_info (stream_info ep) c;
     free_infos slot_id ds (map_ep_state (\<lambda>st. st AND NOT EP_GETTING_NO_STREAMS AND NOT EP_HAS_STREAMS) slot_id i
       (put_ep slot_id i (ep\<lparr>stream_info := None\<rparr>) c1))
   }"

text \<open>The command is the one kept with the streams of the first endpoint.\<close>

definition ehub_xhci_free_streams ::
  "env \<Rightarrow> hcd_params \<Rightarrow> (nat \<Rightarrow> hc \<Rightarrow> hc option) \<Rightarrow> u32 \<Rightarrow> usb_host_endpoint list \<Rightarrow> hc \<Rightarrow> (int \<times> hc) option" where
  "ehub_xhci_free_streams k P wait slot_id ds c = do {
     bits \<leftarrow> xhci_calculate_no_streams_bitmask slot_id ds c;
     if bits = 0 then Some (- EINVAL, c)
     else do {
       desc \<leftarrow> nth_opt ds 0;
       vd \<leftarrow> devs c slot_id;
       ep0 \<leftarrow> get_ep slot_id (ehub_xhci_get_endpoint_index desc) c;
       si \<leftarrow> stream_info ep0;
       let cmd = free_streams_command si;
       obj \<leftarrow> commands c cmd;
       ctx \<leftarrow> cmd_in_ctx obj;
       if \<not> ctx_input ctx then Some (- EINVAL, c)
       else do {
         let c1 = set_flags slot_id (\<lambda>st. st OR EP_GETTING_NO_STREAMS) ds c;
         ctx1 \<leftarrow> copy_ep_ctxs (no_streams_ctx slot_id c1) (out_ctx vd) (map ehub_xhci_get_endpoint_index ds) ctx;
         let ctx2 = xhci_setup_input_ctx_for_config_ep (out_ctx vd) bits bits ctx1;
         (ret, c2) \<leftarrow> xhci_configure_endpoint k P wait slot_id (Some cmd) (Some ctx2) False True (put_cmd_ctx cmd ctx2 c1);
         if ret < 0 then Some (ret, c2)
         else map_option (\<lambda>c3. (0, c3)) (free_infos slot_id ds c2)
       }
     }
   }"

end
