(* ===== verification/Xhci_Lpm.thy ===== *)
theory Xhci_Lpm
  imports Xhci_Device "HOL-Library.Signed_Division"
begin

text \<open>
  Link power management (\<open>xhci.c\<close>): the timeouts after which a hub puts the link of a SuperSpeed
  device to sleep, computed from the latencies of the device and its endpoints, the exit latency
  the controller is told with an Evaluate Context command, and the hardware support for USB 2
  devices. The latencies of a device are unsigned 32-bit numbers of nanoseconds, and so are the
  products the code forms of them.
\<close>

section \<open>Constants\<close>

definition USB3_LPM_DISABLED :: u16 where "USB3_LPM_DISABLED = 0"
definition USB3_LPM_U1_MAX_TIMEOUT :: u64 where "USB3_LPM_U1_MAX_TIMEOUT = 0x7f"
definition USB3_LPM_U2_MAX_TIMEOUT :: u64 where "USB3_LPM_U2_MAX_TIMEOUT = 0xfe"
definition USB3_LPM_DEVICE_INITIATED :: u16 where "USB3_LPM_DEVICE_INITIATED = 0xff"
definition USB3_LPM_MAX_U1_SEL_PEL :: u64 where "USB3_LPM_MAX_U1_SEL_PEL = 0xff"
definition USB3_LPM_MAX_U2_SEL_PEL :: u64 where "USB3_LPM_MAX_U2_SEL_PEL = 0xffff"
definition XHCI_INTEL_HOST :: u32 where "XHCI_INTEL_HOST = push_bit 12 1"
definition MAX_EXIT :: u32 where "MAX_EXIT = 0xffff"
definition E2BIG :: int where "E2BIG = 7"
definition EPERM :: int where "EPERM = 1"

datatype usb3_link_state = USB3_LPM_U0 | USB3_LPM_U1 | USB3_LPM_U2 | USB3_LPM_U3

record usb3_lpm_parameters =
  lp_mel :: u32
  lp_pel :: u32
  lp_sel :: u32
  lp_timeout :: int

text \<open>An interface of the active configuration: whether a driver is bound that forbids timeouts of
  the hub, and the endpoints of the current setting.\<close>

record usb_lpm_interface =
  disable_hub_initiated_lpm :: bool
  cur_altsetting :: "usb_host_endpoint list option"

text \<open>What link power management reads of a device: its node in the tree of hubs, its latencies, its
  capabilities and its configuration.\<close>

record usb_lpm_device =
  ld_dev :: usb_device
  ld_node :: usb_node
  u1_params :: usb3_lpm_parameters
  u2_params :: usb3_lpm_parameters
  bU2DevExitLat :: u16
  ld_ep0 :: usb_host_endpoint
  actconfig :: "usb_lpm_interface option list option"
  lpm_capable :: bool
  ld_hub_class :: bool
  usb2_hw_lpm_capable :: bool
  usb2_hw_lpm_besl_capable :: bool
  l1_besl :: u32
  l1_timeout :: int
  ext_cap_attributes :: u32

section \<open>Timeouts\<close>

text \<open>A shift by more than the width has no defined result.\<close>

definition xhci_service_interval_to_ns :: "usb_host_endpoint \<Rightarrow> u64 option" where
  "xhci_service_interval_to_ns desc =
     (if bInterval desc = 0 \<or> 64 < bInterval desc then None
      else Some (push_bit (unat (bInterval desc) - 1) 1 * 125 * 1000))"

definition round_up_us :: "u32 \<Rightarrow> u64" where "round_up_us ns = ucast ((ns + 1000 - 1) div 1000)"

definition DIV_ROUND_UP_ULL :: "u64 \<Rightarrow> u64 \<Rightarrow> u64" where "DIV_ROUND_UP_ULL n d = (n + d - 1) div d"

definition xhci_get_timeout_no_hub_lpm :: "usb_lpm_device \<Rightarrow> usb3_link_state \<Rightarrow> u16" where
  "xhci_get_timeout_no_hub_lpm ud st = (case st of
     USB3_LPM_U1 \<Rightarrow> (if round_up_us (lp_sel (u1_params ud)) \<le> USB3_LPM_MAX_U1_SEL_PEL \<and> round_up_us (lp_pel (u1_params ud)) \<le> USB3_LPM_MAX_U1_SEL_PEL
       then USB3_LPM_DEVICE_INITIATED else USB3_LPM_DISABLED)
   | USB3_LPM_U2 \<Rightarrow> (if round_up_us (lp_sel (u2_params ud)) \<le> USB3_LPM_MAX_U2_SEL_PEL \<and> round_up_us (lp_pel (u2_params ud)) \<le> USB3_LPM_MAX_U2_SEL_PEL
       then USB3_LPM_DEVICE_INITIATED else USB3_LPM_DISABLED)
   | USB3_LPM_U0 \<Rightarrow> USB3_LPM_DISABLED
   | USB3_LPM_U3 \<Rightarrow> USB3_LPM_DISABLED)"

definition xhci_calculate_intel_u1_timeout :: "usb_lpm_device \<Rightarrow> usb_host_endpoint \<Rightarrow> u64 option" where
  "xhci_calculate_intel_u1_timeout ud desc =
     (let sel = lp_sel (u1_params ud) in
      if usb_endpoint_xfer_control desc then Some (ucast (sel * 3))
      else if usb_endpoint_xfer_bulk desc then Some (ucast (sel * 5))
      else if usb_endpoint_xfer_int desc \<and> bmAttributes desc AND 0x30 = 0x10 then Some (ucast (sel * 3))
      else map_option (\<lambda>ns. let t = DIV_ROUND_UP_ULL (ns * 105) 100 in if t < ucast (sel * 2) then ucast (sel * 2) else t)
             (xhci_service_interval_to_ns desc))"

definition xhci_calculate_u1_timeout :: "hcd_params \<Rightarrow> usb_lpm_device \<Rightarrow> usb_host_endpoint \<Rightarrow> u16 option" where
  "xhci_calculate_u1_timeout P ud desc = do {
     ns \<leftarrow> (if hp_quirks P AND XHCI_INTEL_HOST \<noteq> 0 then xhci_calculate_intel_u1_timeout ud desc else Some (ucast (lp_sel (u1_params ud))));
     let t = (if ns = ucast USB3_LPM_DISABLED then 1 else DIV_ROUND_UP_ULL ns 1000);
     Some (if t \<le> USB3_LPM_U1_MAX_TIMEOUT then ucast t else xhci_get_timeout_no_hub_lpm ud USB3_LPM_U1)
   }"

definition xhci_calculate_intel_u2_timeout :: "usb_lpm_device \<Rightarrow> usb_host_endpoint \<Rightarrow> u64 option" where
  "xhci_calculate_intel_u2_timeout ud desc = do {
     ns \<leftarrow> (if usb_endpoint_xfer_int desc \<or> usb_endpoint_xfer_isoc desc then xhci_service_interval_to_ns desc else Some 0);
     let t = (if 10 * 1000 * 1000 < ns then ns else 10 * 1000 * 1000);
     let u2_del_ns = ucast (bU2DevExitLat ud) * 1000;
     Some (if t < u2_del_ns then u2_del_ns else t)
   }"

definition xhci_calculate_u2_timeout :: "hcd_params \<Rightarrow> usb_lpm_device \<Rightarrow> usb_host_endpoint \<Rightarrow> u16 option" where
  "xhci_calculate_u2_timeout P ud desc = do {
     ns \<leftarrow> (if hp_quirks P AND XHCI_INTEL_HOST \<noteq> 0 then xhci_calculate_intel_u2_timeout ud desc else Some (ucast (lp_sel (u2_params ud))));
     let t = DIV_ROUND_UP_ULL ns (256 * 1000);
     Some (if t \<le> USB3_LPM_U2_MAX_TIMEOUT then ucast t else xhci_get_timeout_no_hub_lpm ud USB3_LPM_U2)
   }"

definition xhci_call_host_update_timeout_for_endpoint :: "hcd_params \<Rightarrow> usb_lpm_device \<Rightarrow> usb_host_endpoint \<Rightarrow> usb3_link_state \<Rightarrow> u16 option" where
  "xhci_call_host_update_timeout_for_endpoint P ud desc st =
     (if st = USB3_LPM_U1 then xhci_calculate_u1_timeout P ud desc
      else if st = USB3_LPM_U2 then xhci_calculate_u2_timeout P ud desc
      else Some USB3_LPM_DISABLED)"

text \<open>The result and the timeout so far: a value that is not a timeout of the hub ends the search.\<close>

definition xhci_update_timeout_for_endpoint ::
  "hcd_params \<Rightarrow> usb_lpm_device \<Rightarrow> usb_host_endpoint \<Rightarrow> usb3_link_state \<Rightarrow> u16 \<Rightarrow> (int \<times> u16) option" where
  "xhci_update_timeout_for_endpoint P ud desc st timeout = do {
     alt \<leftarrow> xhci_call_host_update_timeout_for_endpoint P ud desc st;
     Some (if alt = USB3_LPM_DISABLED \<or> alt = USB3_LPM_DEVICE_INITIATED then (- E2BIG, alt) else (0, max alt timeout))
   }"

fun xhci_update_timeout_for_interface ::
  "hcd_params \<Rightarrow> usb_lpm_device \<Rightarrow> usb_host_endpoint list \<Rightarrow> usb3_link_state \<Rightarrow> u16 \<Rightarrow> (int \<times> u16) option" where
  "xhci_update_timeout_for_interface P ud [] st timeout = Some (0, timeout)"
| "xhci_update_timeout_for_interface P ud (desc # ds) st timeout = do {
     (ret, t) \<leftarrow> xhci_update_timeout_for_endpoint P ud desc st timeout;
     if ret \<noteq> 0 then Some (- E2BIG, t) else xhci_update_timeout_for_interface P ud ds st t
   }"

text \<open>The number of hubs between a device and the root hub; a device without a parent is a root hub.\<close>

fun num_hubs :: "usb_node \<Rightarrow> nat" where
  "num_hubs (Node p parent) = (case parent of None \<Rightarrow> 0 | Some q \<Rightarrow> Suc (num_hubs q))"

definition xhci_check_intel_tier_policy :: "usb_lpm_device \<Rightarrow> usb3_link_state \<Rightarrow> int option" where
  "xhci_check_intel_tier_policy ud st =
     (if st = USB3_LPM_U2 then Some 0
      else map_option (\<lambda>q. if num_hubs q < 2 then 0 else - E2BIG) (node_parent (ld_node ud)))"

definition xhci_check_tier_policy :: "hcd_params \<Rightarrow> usb_lpm_device \<Rightarrow> usb3_link_state \<Rightarrow> int option" where
  "xhci_check_tier_policy P ud st =
     (if hp_quirks P AND XHCI_INTEL_HOST \<noteq> 0 then xhci_check_intel_tier_policy ud st else Some 0)"

fun lpm_interfaces :: "hcd_params \<Rightarrow> usb_lpm_device \<Rightarrow> usb3_link_state \<Rightarrow> usb_lpm_interface option list \<Rightarrow> u16 \<Rightarrow> u16 option" where
  "lpm_interfaces P ud st [] timeout = Some timeout"
| "lpm_interfaces P ud st (p # ps) timeout = (case p of
     None \<Rightarrow> lpm_interfaces P ud st ps timeout
   | Some intf \<Rightarrow>
       if disable_hub_initiated_lpm intf then Some (xhci_get_timeout_no_hub_lpm ud st)
       else case cur_altsetting intf of
         None \<Rightarrow> lpm_interfaces P ud st ps timeout
       | Some ds \<Rightarrow> do {
           (ret, t) \<leftarrow> xhci_update_timeout_for_interface P ud ds st timeout;
           if ret \<noteq> 0 then Some t else lpm_interfaces P ud st ps t
         })"

definition xhci_calculate_lpm_timeout :: "hcd_params \<Rightarrow> usb_lpm_device \<Rightarrow> usb3_link_state \<Rightarrow> u16 option" where
  "xhci_calculate_lpm_timeout P ud st =
     (if st \<noteq> USB3_LPM_U1 \<and> st \<noteq> USB3_LPM_U2 then Some USB3_LPM_DISABLED
      else do {
        tier \<leftarrow> xhci_check_tier_policy P ud st;
        if tier < 0 then Some USB3_LPM_DISABLED
        else do {
          (ret, t) \<leftarrow> xhci_update_timeout_for_endpoint P ud (ld_ep0 ud) st USB3_LPM_DISABLED;
          if ret \<noteq> 0 then Some t
          else case actconfig ud of None \<Rightarrow> Some t | Some ps \<Rightarrow> lpm_interfaces P ud st ps t
        }
      })"

section \<open>The exit latency\<close>

definition calculate_max_exit_latency :: "usb_lpm_device \<Rightarrow> usb3_link_state \<Rightarrow> u16 \<Rightarrow> int" where
  "calculate_max_exit_latency ud changed timeout =
     (let off = (timeout = USB3_LPM_DISABLED);
          u1_on = (lp_timeout (u1_params ud) \<noteq> 0 \<and> \<not> (changed = USB3_LPM_U1 \<and> off) \<or> changed = USB3_LPM_U1 \<and> \<not> off);
          u2_on = (lp_timeout (u2_params ud) \<noteq> 0 \<and> \<not> (changed = USB3_LPM_U2 \<and> off) \<or> changed = USB3_LPM_U2 \<and> \<not> off);
          u1_mel_us = (if u1_on then round_up_us (lp_mel (u1_params ud)) else 0);
          u2_mel_us = (if u2_on then round_up_us (lp_mel (u2_params ud)) else 0);
          mel_us = max u1_mel_us u2_mel_us in
      if ucast MAX_EXIT < mel_us then - E2BIG else uint mel_us)"

text \<open>The slot context of the command of its own.\<close>

definition mel_ctx :: "u16 \<Rightarrow> xhci_container_ctx \<Rightarrow> xhci_container_ctx \<Rightarrow> xhci_container_ctx" where
  "mel_ctx mel outc ctx = (let ctx1 = ehub_xhci_slot_copy outc ctx; sc = slot_ctx ctx1 in
     ctx1\<lparr>add_flags := add_flags ctx1 OR SLOT_FLAG,
          slot_ctx := sc\<lparr>dev_info2 := (dev_info2 sc AND NOT MAX_EXIT) OR ucast mel, dev_state := 0\<rparr>\<rparr>)"

definition xhci_change_max_exit_latency ::
  "env \<Rightarrow> hcd_params \<Rightarrow> (nat \<Rightarrow> hc \<Rightarrow> hc option) \<Rightarrow> usb_device \<Rightarrow> u16 \<Rightarrow> hc \<Rightarrow> (int \<times> hc) option" where
  "xhci_change_max_exit_latency k P wait d mel c = (case devs c (ud_slot_id d) of
     None \<Rightarrow> Some (0, c)
   | Some vd \<Rightarrow>
       if mel = current_mel vd then Some (0, c)
       else do {
         cmd \<leftarrow> lpm_command c;
         obj \<leftarrow> commands c cmd;
         ctx \<leftarrow> cmd_in_ctx obj;
         if \<not> ctx_input ctx then Some (- ENOMEM, c)
         else do {
           let ctx1 = mel_ctx mel (out_ctx vd) ctx;
           (ret, c1) \<leftarrow> xhci_configure_endpoint k P wait (ud_slot_id d) (Some cmd) (Some ctx1) True True (put_cmd_ctx cmd ctx1 c);
           if ret \<noteq> 0 then Some (ret, c1)
           else map_option (\<lambda>vd1. (0, put_dev (ud_slot_id d) (vd1\<lparr>current_mel := mel\<rparr>) c1)) (devs c1 (ud_slot_id d))
         }
       })"

definition lpm_supported :: "hcd_params \<Rightarrow> usb_device \<Rightarrow> hc \<Rightarrow> bool" where
  "lpm_supported P d c \<longleftrightarrow> hp_quirks P AND XHCI_LPM_SUPPORT \<noteq> 0 \<and> devs c (ud_slot_id d) \<noteq> None"

definition ehub_xhci_enable_usb3_lpm_timeout ::
  "env \<Rightarrow> hcd_params \<Rightarrow> (nat \<Rightarrow> hc \<Rightarrow> hc option) \<Rightarrow> usb_lpm_device \<Rightarrow> usb3_link_state \<Rightarrow> hc \<Rightarrow> (int \<times> hc) option" where
  "ehub_xhci_enable_usb3_lpm_timeout k P wait ud st c =
     (if \<not> lpm_supported P (ld_dev ud) c then Some (uint USB3_LPM_DISABLED, c)
      else do {
        t \<leftarrow> xhci_calculate_lpm_timeout P ud st;
        let mel = calculate_max_exit_latency ud st t;
        let t1 = (if mel < 0 then USB3_LPM_DISABLED else t);
        let mel1 = (if mel < 0 then 0 else mel);
        (ret, c1) \<leftarrow> xhci_change_max_exit_latency k P wait (ld_dev ud) (of_int mel1) c;
        Some (if ret \<noteq> 0 then ret else uint t1, c1)
      })"

text \<open>Here the result of the computation is kept in 16 bits, and an error with it.\<close>

definition ehub_xhci_disable_usb3_lpm_timeout ::
  "env \<Rightarrow> hcd_params \<Rightarrow> (nat \<Rightarrow> hc \<Rightarrow> hc option) \<Rightarrow> usb_lpm_device \<Rightarrow> usb3_link_state \<Rightarrow> hc \<Rightarrow> (int \<times> hc) option" where
  "ehub_xhci_disable_usb3_lpm_timeout k P wait ud st c =
     (if \<not> lpm_supported P (ld_dev ud) c then Some (0, c)
      else xhci_change_max_exit_latency k P wait (ld_dev ud) (of_int (calculate_max_exit_latency ud st USB3_LPM_DISABLED)) c)"

section \<open>USB 2\<close>

definition USB_BESL_SUPPORT :: u32 where "USB_BESL_SUPPORT = 4"
definition USB_BESL_BASELINE_VALID :: u32 where "USB_BESL_BASELINE_VALID = 8"
definition USB_BESL_DEEP_VALID :: u32 where "USB_BESL_DEEP_VALID = 0x10"
definition USB_GET_BESL_BASELINE :: "u32 \<Rightarrow> u32" where "USB_GET_BESL_BASELINE p = drop_bit 8 (p AND 0xf00)"
definition USB_GET_BESL_DEEP :: "u32 \<Rightarrow> u32" where "USB_GET_BESL_DEEP p = drop_bit 12 (p AND 0xf000)"
definition XHCI_BLC :: u32 where "XHCI_BLC = push_bit 20 1"
definition XHCI_L1_TIMEOUT :: int where "XHCI_L1_TIMEOUT = 512"
definition XHCI_DEFAULT_BESL :: u32 where "XHCI_DEFAULT_BESL = 4"
definition PORT_RWE :: u32 where "PORT_RWE = push_bit 3 1"
definition PORT_HIRD :: "u32 \<Rightarrow> u32" where "PORT_HIRD p = push_bit 4 (p AND 0xf)"
definition PORT_HIRD_MASK :: u32 where "PORT_HIRD_MASK = push_bit 4 0xf"
definition PORT_L1DS_MASK :: u32 where "PORT_L1DS_MASK = push_bit 8 0xff"
definition PORT_L1DS :: "u32 \<Rightarrow> u32" where "PORT_L1DS p = push_bit 8 (p AND 0xff)"
definition PORT_HLE :: u32 where "PORT_HLE = push_bit 16 1"
definition PORT_HIRDM :: "u32 \<Rightarrow> u32" where "PORT_HIRDM p = p AND 3"
definition PORT_L1_TIMEOUT :: "u32 \<Rightarrow> u32" where "PORT_L1_TIMEOUT p = push_bit 2 (p AND 0xff)"
definition PORT_BESLD :: "u32 \<Rightarrow> u32" where "PORT_BESLD p = push_bit 10 (p AND 0xf)"

definition xhci_besl_encoding :: "nat list" where
  "xhci_besl_encoding = [125, 150, 200, 300, 400, 500, 1000, 2000, 3000, 4000, 5000, 6000, 7000, 8000, 9000, 10000]"

definition xhci_calculate_hird_besl :: "hub_params \<Rightarrow> usb_lpm_device \<Rightarrow> u32" where
  "xhci_calculate_hird_besl B ud =
     (let u2del = HCS_U2_LATENCY (hcs_params3 B); field = ext_cap_attributes ud;
          besl_host = (if field AND USB_BESL_SUPPORT \<noteq> 0 then of_nat (length (takeWhile (\<lambda>n. n < unat u2del) xhci_besl_encoding))
                       else if u2del \<le> 50 then 0 else (u2del - 51) div 75 + 1);
          besl_device = (if field AND USB_BESL_SUPPORT = 0 then 0
                         else if field AND USB_BESL_BASELINE_VALID \<noteq> 0 then USB_GET_BESL_BASELINE field
                         else if field AND USB_BESL_DEEP_VALID \<noteq> 0 then USB_GET_BESL_DEEP field else 0);
          besl = besl_host + besl_device in
      if 15 < besl then 15 else besl)"

definition xhci_calculate_usb2_hw_lpm_params :: "usb_lpm_device \<Rightarrow> u32" where
  "xhci_calculate_usb2_hw_lpm_params ud =
     (let deep = ext_cap_attributes ud AND USB_BESL_DEEP_VALID \<noteq> 0 in
      PORT_BESLD (if deep then USB_GET_BESL_DEEP (ext_cap_attributes ud) else 0)
        OR PORT_L1_TIMEOUT (of_int (l1_timeout ud sdiv 256)) OR PORT_HIRDM (if deep then 1 else 0))"

text \<open>The registers are next to the status register of the port. A best effort latency outside of
  the table of encodings is an access outside of the array.\<close>

definition enable_besl :: "env \<Rightarrow> hub_params \<Rightarrow> (nat \<Rightarrow> hc \<Rightarrow> hc option) \<Rightarrow> usb_lpm_device \<Rightarrow> u32 \<Rightarrow> root_hub \<Rightarrow> ((int \<times> u32) \<times> root_hub) option" where
  "enable_besl k B wait ud hlpm_addr h = do {
     let field = ext_cap_attributes ud;
     let hird = (if field AND USB_BESL_SUPPORT \<noteq> 0 \<and> field AND USB_BESL_BASELINE_VALID \<noteq> 0 then USB_GET_BESL_BASELINE field else l1_besl ud);
     exit_latency \<leftarrow> nth_opt xhci_besl_encoding (unat hird);
     let h1 = xhci_reg_unlock h;
     (ret, c) \<leftarrow> xhci_change_max_exit_latency k (hb_hcd B) wait (ld_dev ud) (of_nat exit_latency) (rh_hc h1);
     let h2 = h1\<lparr>rh_hc := c\<rparr>;
     if ret < 0 then Some ((ret, hird), h2)
     else do {
       h3 \<leftarrow> xhci_reg_lock h2;
       h4 \<leftarrow> hub_writel k (xhci_calculate_usb2_hw_lpm_params ud) hlpm_addr h3;
       (_, h5) \<leftarrow> hub_readl k hlpm_addr h4;
       Some ((0, hird), h5)
     }
   }"

definition write_pm :: "env \<Rightarrow> u32 \<Rightarrow> u32 \<Rightarrow> root_hub \<Rightarrow> (u32 \<times> root_hub) option" where
  "write_pm k val addr h = Option.bind (hub_writel k val addr h) (hub_readl k addr)"

definition enable_usb2_lpm ::
  "env \<Rightarrow> hub_params \<Rightarrow> (nat \<Rightarrow> hc \<Rightarrow> hc option) \<Rightarrow> usb_lpm_device \<Rightarrow> u32 \<Rightarrow> u32 \<Rightarrow> root_hub \<Rightarrow> (int \<times> root_hub) option" where
  "enable_usb2_lpm k B wait ud addr pm_val h = do {
     ((ret, hird), h1) \<leftarrow> (if usb2_hw_lpm_besl_capable ud then enable_besl k B wait ud (addr + 12) h
                           else Some ((0, xhci_calculate_hird_besl B ud), h));
     if ret < 0 then Some (ret, h1)
     else do {
       (v, h2) \<leftarrow> write_pm k ((pm_val AND NOT PORT_HIRD_MASK) OR PORT_HIRD hird OR PORT_RWE OR PORT_L1DS (ud_slot_id (ld_dev ud))) (addr + 4) h1;
       (_, h3) \<leftarrow> write_pm k (v OR PORT_HLE) (addr + 4) h2;
       Some (0, xhci_reg_unlock h3)
     }
   }"

definition disable_usb2_lpm ::
  "env \<Rightarrow> hub_params \<Rightarrow> (nat \<Rightarrow> hc \<Rightarrow> hc option) \<Rightarrow> usb_lpm_device \<Rightarrow> u32 \<Rightarrow> u32 \<Rightarrow> root_hub \<Rightarrow> (int \<times> root_hub) option" where
  "disable_usb2_lpm k B wait ud addr pm_val h = do {
     (_, h1) \<leftarrow> write_pm k (pm_val AND NOT (PORT_HLE OR PORT_RWE OR PORT_HIRD_MASK OR PORT_L1DS_MASK)) (addr + 4) h;
     let h2 = xhci_reg_unlock h1;
     if usb2_hw_lpm_besl_capable ud
     then map_option (\<lambda>(_, c). (0, h2\<lparr>rh_hc := c\<rparr>)) (xhci_change_max_exit_latency k (hb_hcd B) wait (ld_dev ud) 0 (rh_hc h2))
     else Some (0, h2)
   }"

text \<open>A device directly at the root hub that is not a hub.\<close>

definition at_root_hub :: "usb_lpm_device \<Rightarrow> bool" where
  "at_root_hub ud \<longleftrightarrow> (case node_parent (ld_node ud) of None \<Rightarrow> False | Some q \<Rightarrow> node_parent q = None) \<and> \<not> ld_hub_class ud"

definition ehub_xhci_set_usb2_hardware_lpm ::
  "env \<Rightarrow> hub_params \<Rightarrow> (nat \<Rightarrow> hc \<Rightarrow> hc option) \<Rightarrow> usb_lpm_device \<Rightarrow> bool \<Rightarrow> root_hub \<Rightarrow> (int \<times> root_hub) option" where
  "ehub_xhci_set_usb2_hardware_lpm k B wait ud enable h =
     (if rh_usb3 h \<or> \<not> hw_lpm_support h \<or> \<not> lpm_capable ud \<or> \<not> at_root_hub ud \<or> \<not> usb2_hw_lpm_capable ud then Some (- EPERM, h)
      else do {
        h1 \<leftarrow> xhci_reg_lock h;
        let port_num = unat (ucast (node_port (ld_node ud)) - 1 :: u32);
        addr \<leftarrow> Option.bind (nth_opt (usb2_ports h1) port_num) id;
        (pm_val, h2) \<leftarrow> hub_readl k (addr + 4) h1;
        (if enable then enable_usb2_lpm else disable_usb2_lpm) k B wait ud addr pm_val h2
      })"

definition xhci_check_usb2_port_capability :: "root_hub \<Rightarrow> u32 \<Rightarrow> u32 \<Rightarrow> bool" where
  "xhci_check_usb2_port_capability h port cap \<longleftrightarrow> list_ex (\<lambda>x. x AND cap \<noteq> 0
     \<and> XHCI_EXT_PORT_OFF x - 1 \<le> port \<and> port < XHCI_EXT_PORT_OFF x - 1 + XHCI_EXT_PORT_COUNT x) (ext_caps h)"

definition ehub_xhci_update_device :: "root_hub \<Rightarrow> usb_lpm_device \<Rightarrow> usb_lpm_device" where
  "ehub_xhci_update_device h ud =
     (let portnum = ucast (node_port (ld_node ud)) - 1 in
      if rh_usb3 h \<or> \<not> sw_lpm_support h \<or> \<not> lpm_capable ud \<or> \<not> at_root_hub ud then ud
      else if hw_lpm_support h \<and> xhci_check_usb2_port_capability h portnum XHCI_HLC
      then ud\<lparr>usb2_hw_lpm_capable := True, l1_timeout := XHCI_L1_TIMEOUT, l1_besl := XHCI_DEFAULT_BESL,
              usb2_hw_lpm_besl_capable := (usb2_hw_lpm_besl_capable ud \<or> xhci_check_usb2_port_capability h portnum XHCI_BLC)\<rparr>
      else ud)"

end
