(* ===== verification/Xhci_Driver.thy ===== *)
theory Xhci_Driver
  imports Xhci_Streams Xhci_Lpm Xhci_Giveback
begin

text \<open>
  The host controller driver as a whole: its operations in any order, with the interrupts and
  timers that run while an operation waits for a command, and the promise it makes for every URB.
\<close>

section \<open>Operations that run at any time\<close>

text \<open>An event of the controller, the two timers and the cancellation of a URB.\<close>

datatype driver_op =
    Event xhci_generic_trb
  | Watchdog u32 u32 bool
  | Command_Timeout bool
  | Dequeue int bool u32 u32 nat

fun run_op :: "env \<Rightarrow> hcd_params \<Rightarrow> driver_op \<Rightarrow> hc \<Rightarrow> hc option" where
  "run_op k P (Event ev) c = ehub_xhci_handle_event k P ev c"
| "run_op k P (Watchdog slot_id ep_index primary) c = ehub_xhci_stop_endpoint_command_watchdog slot_id ep_index primary c"
| "run_op k P (Command_Timeout primary) c = ehub_xhci_handle_command_timeout k primary c"
| "run_op k P (Dequeue check_status not_attached slot_id ep_index u) c =
     map_option snd (ehub_xhci_urb_dequeue k P check_status not_attached slot_id ep_index u c)"

text \<open>What happens while a command is waited for.\<close>

fun meanwhile :: "env \<Rightarrow> hcd_params \<Rightarrow> driver_op list \<Rightarrow> nat \<Rightarrow> hc \<Rightarrow> hc option" where
  "meanwhile k P [] cmd c = Some c"
| "meanwhile k P (op # ops) cmd c = Option.bind (run_op k P op c) (meanwhile k P ops cmd)"

section \<open>The steps of the driver\<close>

text \<open>The state holds the URBs whose submission succeeded, in order, beside the driver. The USB core
  does not submit a URB again before it has been given back. An operation that works on the root hub
  is a step of the driver inside it.\<close>

inductive driver_step :: "env \<Rightarrow> hcd_params \<Rightarrow> nat list \<times> hc \<Rightarrow> nat list \<times> hc \<Rightarrow> bool" for k P where
  Run: "run_op k P op c = Some c' \<Longrightarrow> driver_step k P (subs, c) (subs, c')"
| Submit: "ehub_xhci_urb_enqueue k P (meanwhile k P ops) rq c = Some (ret, c') \<Longrightarrow> xu_id (rq_urb rq) \<notin> dom (urbs c)
     \<Longrightarrow> driver_step k P (subs, c) (if ret = 0 then subs @ [xu_id (rq_urb rq)] else subs, c')"
| Add: "ehub_xhci_add_endpoint k P ud desc c = Some (ret, c') \<Longrightarrow> driver_step k P (subs, c) (subs, c')"
| Drop: "ehub_xhci_drop_endpoint ud gone desc c = Some (ret, c') \<Longrightarrow> driver_step k P (subs, c) (subs, c')"
| Check: "ehub_xhci_check_bandwidth k P (meanwhile k P ops) ud c = Some (ret, c') \<Longrightarrow> driver_step k P (subs, c) (subs, c')"
| Reset: "ehub_xhci_reset_bandwidth ud c = Some c' \<Longrightarrow> driver_step k P (subs, c) (subs, c')"
| Alloc_Dev: "ehub_xhci_alloc_dev k B (meanwhile k P ops) d c = Some (r, c') \<Longrightarrow> driver_step k P (subs, c) (subs, c')"
| Setup_Dev: "xhci_setup_device k B (meanwhile k P ops) d pl co h = Some (ret, h') \<Longrightarrow> driver_step k P (subs, rh_hc h) (subs, rh_hc h')"
| Reset_Dev: "ehub_xhci_discover_or_reset_device k B (meanwhile k P ops) ud c = Some (r', c') \<Longrightarrow> driver_step k P (subs, c) (subs, c')"
| Free_Dev: "ehub_xhci_free_dev k B ud h = Some h' \<Longrightarrow> driver_step k P (subs, rh_hc h) (subs, rh_hc h')"
| Hub_Dev: "ehub_xhci_update_hub_device k P (meanwhile k P ops) d multi tt n c = Some (ret, c') \<Longrightarrow> driver_step k P (subs, c) (subs, c')"
| Streams: "ehub_xhci_alloc_streams k B (meanwhile k P ops) d es m c = Some (ret, c') \<Longrightarrow> hb_hcd B = P \<Longrightarrow> driver_step k P (subs, c) (subs, c')"
| No_Streams: "ehub_xhci_free_streams k P (meanwhile k P ops) slot ds c = Some (ret, c') \<Longrightarrow> driver_step k P (subs, c) (subs, c')"
| Enable_Lpm: "ehub_xhci_enable_usb3_lpm_timeout k P (meanwhile k P ops) lud st c = Some (ret, c') \<Longrightarrow> driver_step k P (subs, c) (subs, c')"
| Disable_Lpm: "ehub_xhci_disable_usb3_lpm_timeout k P (meanwhile k P ops) lud st c = Some (ret, c') \<Longrightarrow> driver_step k P (subs, c) (subs, c')"

section \<open>What leaves the driver\<close>

lemma run_op_gives: "run_op k P op c = Some c' \<Longrightarrow> gives_back c c'"
  by (cases op) (auto dest: handle_event_gives watchdog_gives cmd_timeout_keeps [THEN keeps_gives] urb_dequeue_gives)

lemma meanwhile_gives: "meanwhile k P ops cmd c = Some c' \<Longrightarrow> gives_back c c'"
  by (induction ops arbitrary: c) (auto elim!: bind_eq_SomeE dest!: run_op_gives intro: gives_trans)

text \<open>A device that is written back with the same output context.\<close>

lemma put_dev_slots [simp]:
  assumes "map_option (\<lambda>vd. ctx_dma (out_ctx vd)) (devs c slot) = Some (ctx_dma (out_ctx vd'))"
  shows "slots_ok (put_dev slot vd' c) = slots_ok c"
proof -
  have "(case devs (put_dev slot vd' c) s of None \<Rightarrow> 0 | Some vd \<Rightarrow> ctx_dma (out_ctx vd)) = (case devs c s of None \<Rightarrow> 0 | Some vd \<Rightarrow> ctx_dma (out_ctx vd))" for s
    using assms by (cases "s = slot") (auto simp: put_dev_def)
  then show ?thesis by (simp add: slots_ok_def) (simp add: put_dev_def)
qed

lemma put_dev_urbs [simp]: "urbs (put_dev slot vd c) = urbs c" "giveback_log (put_dev slot vd c) = giveback_log c"
  by (simp_all add: put_dev_def)

lemma put_dev_keeps [simp]:
  assumes "map_option (\<lambda>vd. ctx_dma (out_ctx vd)) (devs c' slot) = Some (ctx_dma (out_ctx vd'))"
  shows "keeps_urbs c (put_dev slot vd' c') = keeps_urbs c c'" "keeps_urbs (put_dev slot vd' c') c = keeps_urbs c' c"
    "gives_back c (put_dev slot vd' c') = gives_back c c'" "gives_back (put_dev slot vd' c') c = gives_back c' c"
  by (simp_all only: keeps_urbs_def gives_back_def put_dev_slots [OF assms] put_dev_urbs)

lemma keeps_out_ctx:
  "map_ep i f vd = Some vd1 \<Longrightarrow> out_ctx vd1 = out_ctx vd" "xhci_zero_in_ctx vd = Some vd1 \<Longrightarrow> out_ctx vd1 = out_ctx vd"
  "set_last_ctx vd = Some vd1 \<Longrightarrow> out_ctx vd1 = out_ctx vd"
  by (auto simp: map_ep_def xhci_zero_in_ctx_def set_last_ctx_def Let_def split: if_splits)

lemma free_command_gives [simp]: "gives_back c (ehub_xhci_free_command cmd c') = gives_back c c'"
  by (simp add: gives_back_def ehub_xhci_free_command_def)

lemma resources_keep [simp]:
  "keeps_urbs c (xhci_free_host_resources ctrl c') = keeps_urbs c c'" "gives_back c (xhci_free_host_resources ctrl c') = gives_back c c'"
  "gives_back c (xhci_finish_resource_reservation ctrl c') = gives_back c c'"
  by (simp_all add: keeps_urbs_def gives_back_def xhci_free_host_resources_def xhci_finish_resource_reservation_def)

lemma reserve_keeps: "xhci_reserve_host_resources ctrl c = (ret, c') \<Longrightarrow> keeps_urbs c c'"
  by (auto simp: xhci_reserve_host_resources_def Let_def split: if_splits)

lemma bw_keeps [simp]:
  "keeps_urbs (c\<lparr>bw := b\<rparr>) c' = keeps_urbs c c'" "gives_back c (c'\<lparr>bw := b\<rparr>) = gives_back c c'" "gives_back c (c'\<lparr>hcd := s\<rparr>) = gives_back c c'"
  by (simp_all add: keeps_urbs_def gives_back_def)

text \<open>The part of the command from the doorbell on.\<close>

lemma wait_gives:
  assumes "with_hcd f c3 = Some c4" and "meanwhile k P ops cmd c4 = Some c5" and "keeps_urbs c c3"
  shows "gives_back c c5"
  using assms by (meson keeps_gives_trans keeps_trans meanwhile_gives with_hcd_keeps)

lemma configure_gives:
  assumes "xhci_configure_endpoint k P (meanwhile k P ops) slot cmd own chg must c = Some (ret, c')"
  shows "gives_back c c'"
proof (cases cmd)
  case (Some n)
  obtain vd ctrl res c1 where 1: "devs c slot = Some vd" "cmd_ctx own slot c = Some ctrl"
    "(if hp_quirks P AND XHCI_EP_LIMIT_QUIRK \<noteq> 0 then xhci_reserve_host_resources ctrl c else (0, c)) = (res, c1)"
    using assms Some by (auto simp: xhci_configure_endpoint_def elim!: bind_eq_SomeE) (meson surj_pair)
  then have k1: "keeps_urbs c c1" using reserve_keeps by (auto split: if_splits)
  note body = assms [unfolded xhci_configure_endpoint_def Some option.case, simplified 1 Let_def bind.bind_lunit prod.case option.case]
  show ?thesis
  proof (cases "ctx_input ctrl \<and> res = 0")
    case True
    obtain bret b where b: "(if hp_quirks P AND XHCI_SW_BW_CHECKING \<noteq> 0 then xhci_reserve_bandwidth slot vd ctrl (bw c1) else Some (0, bw c1)) = Some (bret, b)"
      using body True by (auto elim!: bind_eq_SomeE)
    show ?thesis
    proof (cases "bret = 0")
      case z: True
      obtain ret1 c3 where c3: "run_command ((if chg then ehub_xhci_queue_evaluate_context else ehub_xhci_queue_configure_endpoint)
                k (hp_quirks P) n (ctx_dma ctrl) slot must) (c1\<lparr>bw := b\<rparr>) = Some (ret1, c3)"
        using body True b z by (auto elim!: bind_eq_SomeE)
      then have k3: "keeps_urbs c c3" using k1 run_command_keeps keeps_trans by fastforce
      show ?thesis using body True b z c3 k3
        by (auto simp: keeps_gives split: if_splits elim!: bind_eq_SomeE dest!: wait_gives [OF _ _ k3])
    qed (use body True b k1 in \<open>auto simp: keeps_gives\<close>)
  qed (use body k1 1(3) in \<open>auto simp: keeps_gives split: if_splits prod.splits\<close>)
qed (use assms in \<open>simp add: xhci_configure_endpoint_def\<close>)

lemma endpoint_zero_keeps: "ehub_xhci_endpoint_zero slot desc c = Some c' \<Longrightarrow> keeps_urbs c c'"
  by (auto simp: ehub_xhci_endpoint_zero_def Let_def elim!: bind_eq_SomeE)

lemma drop_endpoint_keeps: "ehub_xhci_drop_endpoint ud gone desc c = Some (ret, c') \<Longrightarrow> keeps_urbs c c'"
  by (auto simp: ehub_xhci_drop_endpoint_def Let_def split: if_splits elim!: bind_eq_SomeE dest!: endpoint_zero_keeps)

lemma endpoint_init_keeps: "ehub_xhci_endpoint_init k P d desc slot c = Some (ret, c') \<Longrightarrow> keeps_urbs c c'"
  by (auto simp: ehub_xhci_endpoint_init_def count_isoc_ep_def Let_def split: if_splits option.splits elim!: bind_eq_SomeE dest!: keeps_out_ctx)

lemma add_endpoint_keeps: "ehub_xhci_add_endpoint k P ud desc c = Some (ret, c') \<Longrightarrow> keeps_urbs c c'"
  by (auto simp: ehub_xhci_add_endpoint_def Let_def split: if_splits elim!: bind_eq_SomeE dest!: endpoint_init_keeps)

lemma free_endpoint_ring_keeps: "ehub_xhci_free_endpoint_ring slot i c = Some c' \<Longrightarrow> keeps_urbs c c'"
  by (auto simp: ehub_xhci_free_endpoint_ring_def elim!: bind_eq_SomeE dest!: with_hcd_keeps)

lemma drop_streams_keeps: "xhci_check_bw_drop_ep_streams slot i c = Some c' \<Longrightarrow> keeps_urbs c c'"
  by (auto simp: xhci_check_bw_drop_ep_streams_def split: if_splits elim!: bind_eq_SomeE dest!: free_stream_info_keeps)

lemma free_dropped_keeps: "free_dropped slot ctrl is c = Some c' \<Longrightarrow> keeps_urbs c c'"
  by (induction "is" arbitrary: c)
    (auto split: if_splits elim!: bind_eq_SomeE dest!: free_endpoint_ring_keeps drop_streams_keeps intro: keeps_trans)

lemma install_rings_keeps: "install_rings slot is c = Some c' \<Longrightarrow> keeps_urbs c c'"
proof (induction "is" arbitrary: c)
  case (Cons i "is")
  from Cons.prems show ?case
    by (auto split: if_splits elim!: bind_eq_SomeE dest!: free_endpoint_ring_keeps drop_streams_keeps Cons.IH; meson keeps_trans)
qed simp

lemma free_new_rings_keeps: "free_new_rings slot is c = Some c' \<Longrightarrow> keeps_urbs c c'"
proof (induction "is" arbitrary: c)
  case (Cons i "is")
  from Cons.prems show ?case by (auto split: if_splits elim!: bind_eq_SomeE dest!: with_hcd_keeps Cons.IH; meson keeps_trans)
qed simp

lemma use_configuration_keeps: "use_configuration slot c = Some c' \<Longrightarrow> keeps_urbs c c'"
  by (auto simp: use_configuration_def elim!: bind_eq_SomeE dest!: free_dropped_keeps install_rings_keeps keeps_out_ctx intro: keeps_trans)

lemma reset_bandwidth_keeps: "ehub_xhci_reset_bandwidth ud c = Some c' \<Longrightarrow> keeps_urbs c c'"
  by (auto simp: ehub_xhci_reset_bandwidth_def Let_def split: if_splits elim!: bind_eq_SomeE dest!: free_new_rings_keeps keeps_out_ctx)

lemma check_bandwidth_gives:
  assumes "ehub_xhci_check_bandwidth k P (meanwhile k P ops) ud c = Some (ret, c')"
  shows "gives_back c c'"
  using assms
  by (auto simp: ehub_xhci_check_bandwidth_def Let_def keeps_gives split: if_splits option.splits prod.splits elim!: bind_eq_SomeE
      dest!: alloc_command_keeps configure_gives use_configuration_keeps keeps_out_ctx;
      meson gives_keeps_trans keeps_gives keeps_gives_trans)

section \<open>Submission\<close>

lemma put_ep_urbs: "urbs (put_ep slot i ep c) = urbs c" "giveback_log (put_ep slot i ep c) = giveback_log c"
  by (simp_all add: put_ep_def)

lemma queue_transfer_keeps: "queue_transfer k P rq slot i c = Some (ret, c') \<Longrightarrow> keeps_urbs c c'"
  by (auto simp: queue_transfer_def Let_def keeps_urbs_def put_ep_urbs dom_def split: if_splits xfer_type.splits elim!: bind_eq_SomeE)

lemma alloc_command_frame: "ehub_xhci_alloc_command k a b c = (p, c') \<Longrightarrow> keeps_urbs c c' \<and> devs c' = devs c"
  by (auto dest: alloc_command_keeps) (auto simp: ehub_xhci_alloc_command_def Let_def split: if_splits)

lemma check_maxpacket_gives:
  assumes "xhci_check_maxpacket k P (meanwhile k P ops) slot i maxp c = Some (ret, c')"
  shows "gives_back c c'"
  using assms
  by (auto simp: xhci_check_maxpacket_def Let_def keeps_gives split: if_splits option.splits prod.splits elim!: bind_eq_SomeE
      dest!: alloc_command_frame configure_gives; meson keeps_gives keeps_gives_trans)

text \<open>A submission that gets as far as the private part of the URB: \<open>c1\<close> is the driver with the URB in
  it, and the URB leaves it again when the submission fails.\<close>

definition takes :: "nat \<Rightarrow> hc \<Rightarrow> hc \<Rightarrow> bool" where
  "takes u c c1 \<longleftrightarrow> dom (urbs c1) = insert u (dom (urbs c)) \<and> giveback_log c1 = giveback_log c \<and> slots_ok c1 = slots_ok c"

lemma enqueue_owned_gives:
  assumes "enqueue_owned k P (meanwhile k P ops) rq d c = Some (ret, c')"
  shows "\<exists>c2. gives_back c c2 \<and> (if ret = 0 then c' = c2 else ehub_xhci_urb_free_priv (xu_id (rq_urb rq)) c2 = Some c')"
  using assms
  by (auto simp: enqueue_owned_def Let_def split: if_splits elim!: bind_eq_SomeE dest!: check_maxpacket_gives queue_transfer_keeps;
      meson gives_keeps_trans gives_refl keeps_gives)

lemma enqueue_cases:
  assumes "ehub_xhci_urb_enqueue k P (meanwhile k P ops) rq c = Some (ret, c')"
  shows "(ret \<noteq> 0 \<and> keeps_urbs c c') \<or> (\<exists>c1 c2. takes (xu_id (rq_urb rq)) c c1 \<and> gives_back c1 c2
     \<and> (if ret = 0 then c' = c2 else ehub_xhci_urb_free_priv (xu_id (rq_urb rq)) c2 = Some c'))"
proof (cases "xhci_check_args (rq_dev rq) False True c \<le> 0 \<or> \<not> rq_accessible rq \<or> \<not> kzalloc k (tick (hcd c)) \<or> \<not> kzalloc k (tick (hcd c) + 1)")
  case True
  have "ret \<noteq> 0 \<and> keeps_urbs c c'"
    using assms True by (auto simp: ehub_xhci_urb_enqueue_def Let_def split: if_splits elim!: bind_eq_SomeE)
  then show ?thesis ..
next
  case False
  let ?c = "c\<lparr>hcd := (hcd c)\<lparr>tick := tick (hcd c) + 2\<rparr>, urbs := (urbs c)(xu_id (rq_urb rq) \<mapsto> new_tx_urb rq)\<rparr>"
  obtain d where "enqueue_owned k P (meanwhile k P ops) rq d ?c = Some (ret, c')"
    using assms False by (auto simp: ehub_xhci_urb_enqueue_def Let_def elim!: bind_eq_SomeE)
  moreover have "takes (xu_id (rq_urb rq)) c ?c" by (simp add: takes_def)
  ultimately show ?thesis using enqueue_owned_gives by blast
qed

section \<open>Device slots\<close>

lemma waiter_keeps [simp]:
  "keeps_urbs c (set_waiter cmd c') = keeps_urbs c c'" "keeps_urbs (set_waiter cmd c) c' = keeps_urbs c c'"
  "gives_back (set_waiter cmd c) c' = gives_back c c'" "keeps_urbs (drop_waiter cmd c) c' = keeps_urbs c c'"
  "keeps_urbs (put_cmd_ctx cmd ctx c) c' = keeps_urbs c c'" "gives_back (put_cmd_ctx cmd ctx c) c' = gives_back c c'"
  "keeps_urbs (clear_slot slot c) c' = keeps_urbs c c'" "keeps_urbs c (clear_slot slot c') = keeps_urbs c c'"
  by (simp_all add: keeps_urbs_def gives_back_def set_waiter_def drop_waiter_def put_cmd_ctx_def clear_slot_def)

lemma readl_keeps:
  "hc_readl k addr c = Some (v, c') \<Longrightarrow> keeps_urbs c c'" "hc_read_64 k addr c = Some (w, c') \<Longrightarrow> keeps_urbs c c'"
  by (auto simp: hc_readl_def hc_read_64_def)

text \<open>A new device enters an empty slot, and one that could not be completed leaves it empty.\<close>

lemma fail_new_device:
  assumes "ehub_xhci_free_virt_device slot (put_dev slot vd c1) = Some c'" and "devs c slot = None" and "slot \<noteq> 0"
    and "urbs c1 = urbs c" "giveback_log c1 = giveback_log c" "devs c1 = devs c" "dcbaa c1 = dcbaa c"
  shows "keeps_urbs c c'"
  using free_virt_device_keeps [OF assms(1)] assms(2-)
  by (auto simp: keeps_urbs_def slots_ok_def put_dev_def split: if_splits option.splits)

lemma enter_device:
  assumes "devs c slot = None" and "urbs c1 = urbs c" "giveback_log c1 = giveback_log c" "devs c1 = devs c"
    and "addr = ctx_dma (out_ctx vd)"
  shows "keeps_urbs c ((put_dev slot vd c1)\<lparr>dcbaa := (dcbaa c)(slot := addr)\<rparr>)"
  using assms by (auto simp: keeps_urbs_def slots_ok_def put_dev_def)

lemma clear_slot_frame [simp]:
  "urbs (clear_slot slot c) = urbs c" "giveback_log (clear_slot slot c) = giveback_log c"
  "devs (clear_slot slot c) = devs c" "dcbaa (clear_slot slot c) = dcbaa c"
  by (simp_all add: clear_slot_def)

lemma alloc_virt_device_keeps:
  assumes "ehub_xhci_alloc_virt_device k P slot d c = Some (ret, c')"
  shows "keeps_urbs c c'"
  using assms
  by (auto simp: ehub_xhci_alloc_virt_device_def Let_def split: if_splits prod.splits option.splits elim!: bind_eq_SomeE)
    ((erule fail_new_device, simp_all)+, rule enter_device, simp_all add: new_virt_device_def)

lemma alloc_virt_device_slot: "ehub_xhci_alloc_virt_device k P slot d c = Some (ret, c') \<Longrightarrow> ret \<noteq> 0 \<Longrightarrow> slot \<noteq> 0"
  by (auto simp: ehub_xhci_alloc_virt_device_def)

lemma reserve_control_keeps: "xhci_reserve_host_control_ep_resources c = (ret, c') \<Longrightarrow> keeps_urbs c c'"
  by (auto simp: xhci_reserve_host_control_ep_resources_def split: if_splits)

lemma alloc_dev_disable_keeps: "alloc_dev_disable k P cmd d c = Some (r, c') \<Longrightarrow> keeps_urbs c c'"
  by (auto simp: alloc_dev_disable_def split: if_splits elim!: bind_eq_SomeE dest!: run_command_keeps with_hcd_keeps intro: keeps_trans)

text \<open>A command that is queued, rung for and waited for.\<close>

lemmas command_rules = alloc_command_keeps run_command_keeps with_hcd_keeps meanwhile_gives

lemmas step_trans = keeps_trans keeps_gives gives_trans

lemma alloc_dev_slot_keeps: "alloc_dev_slot k P cmd slot d c = Some (r, c') \<Longrightarrow> keeps_urbs c c'"
  by (auto simp: alloc_dev_slot_def Let_def split: if_splits prod.splits elim!: bind_eq_SomeE
      dest!: reserve_control_keeps alloc_dev_disable_keeps alloc_virt_device_keeps; meson keeps_trans)

lemma alloc_dev_gives:
  assumes "ehub_xhci_alloc_dev k B (meanwhile k P ops) d c = Some (r, c')"
  shows "gives_back c c'"
  using assms
  by (auto simp: ehub_xhci_alloc_dev_def Let_def keeps_gives split: option.splits prod.splits if_splits elim!: bind_eq_SomeE
      dest!: command_rules readl_keeps alloc_dev_slot_keeps; meson step_trans)

text \<open>Addressing: the device keeps its output context.\<close>

lemma set_up_out_ctx:
  "ehub_xhci_copy_ep0_dequeue_into_input_ctx vd = Some vd1 \<Longrightarrow> out_ctx vd1 = out_ctx vd"
  "set_ep0_ctx mp vd = Some vd1 \<Longrightarrow> out_ctx vd1 = out_ctx vd" "find_bw_table pl n b vd = Some vd1 \<Longrightarrow> out_ctx vd1 = out_ctx vd"
  "out_ctx (set_tt_ctx pl vd) = out_ctx vd" "out_ctx (or_slot_ctx i j vd) = out_ctx vd"
  by (auto simp: ehub_xhci_copy_ep0_dequeue_into_input_ctx_def set_ep0_ctx_def find_bw_table_def set_tt_ctx_def or_slot_ctx_def Let_def
      split: if_splits option.splits elim!: bind_eq_SomeE)

lemma setup_addressable_keeps:
  "ehub_xhci_setup_addressable_virt_dev B d pl h = Some (ret, h') \<Longrightarrow> keeps_urbs (rh_hc h) (rh_hc h')"
  by (auto simp: ehub_xhci_setup_addressable_virt_dev_def Let_def set_up_out_ctx split: option.splits if_splits elim!: bind_eq_SomeE
      dest!: set_up_out_ctx(1-3))

lemma prepare_address_keeps: "prepare_address B d pl h = Some h' \<Longrightarrow> keeps_urbs (rh_hc h) (rh_hc h')"
  by (auto simp: prepare_address_def split: if_splits elim!: bind_eq_SomeE dest!: setup_addressable_keeps set_up_out_ctx(1))

lemma address_command_gives:
  assumes "address_command k B (meanwhile k P ops) cmd slot co c = Some (ret, c')"
  shows "gives_back c c'"
  using assms
  by (auto simp: address_command_def Let_def keeps_gives split: if_splits elim!: bind_eq_SomeE dest!: command_rules readl_keeps;
      meson step_trans)

lemma setup_device_gives:
  assumes "xhci_setup_device k B (meanwhile k P ops) d pl co h = Some (ret, h')"
  shows "gives_back (rh_hc h) (rh_hc h')"
  using assms
  by (auto simp: xhci_setup_device_def Let_def keeps_gives split: if_splits option.splits prod.splits elim!: bind_eq_SomeE
      dest!: alloc_command_keeps prepare_address_keeps address_command_gives; meson step_trans)

text \<open>Reset and release.\<close>

lemma reset_eps_keeps: "reset_eps slot is c = Some c' \<Longrightarrow> keeps_urbs c c'"
proof (induction "is" arbitrary: c)
  case (Cons i "is")
  from Cons.prems show ?case
    by (auto simp: reset_ep_bw_def Let_def split: if_splits elim!: bind_eq_SomeE
        dest!: drop_streams_keeps free_endpoint_ring_keeps Cons.IH; simp; meson keeps_trans)
qed simp

lemma reset_done_keeps: "reset_device_done P slot c = Some c' \<Longrightarrow> keeps_urbs c c'"
  by (auto simp: reset_device_done_def ehub_xhci_free_device_endpoint_resources_def Let_def split: if_splits
      elim!: bind_eq_SomeE dest!: reset_eps_keeps; simp add: keeps_urbs_def)

lemma reset_command_gives:
  assumes "reset_device_command k P' (meanwhile k P ops) slot cmd c = Some (ret, c')"
  shows "gives_back c c'"
  using assms
  by (auto simp: reset_device_command_def Let_def keeps_gives split: if_splits elim!: bind_eq_SomeE
      dest!: command_rules reset_done_keeps; meson step_trans)

lemma discover_or_reset_gives:
  assumes "ehub_xhci_discover_or_reset_device k B (meanwhile k P ops) ud c = Some (r, c')"
  shows "gives_back c c'"
  using assms
  by (auto simp: ehub_xhci_discover_or_reset_device_def Let_def keeps_gives split: if_splits option.splits prod.splits elim!: bind_eq_SomeE
      dest!: alloc_dev_gives alloc_command_keeps reset_command_gives; meson step_trans)

lemma stop_timers_keeps: "stop_timers slot is c = Some c' \<Longrightarrow> keeps_urbs c c'"
proof (induction "is" arbitrary: c)
  case (Cons i "is")
  from Cons.prems show ?case by (auto elim!: bind_eq_SomeE dest!: Cons.IH)
qed simp

lemma virt_device_keeps: "ehub_xhci_free_virt_device slot c = Some c' \<Longrightarrow> keeps_urbs c c'"
  using free_virt_device_keeps(1,2) free_virt_device_slots by (auto simp: keeps_urbs_def)

lemma hub_rules:
  "xhci_reg_lock h = Some h' \<Longrightarrow> rh_hc h' = rh_hc h" "hub_readl k addr h = Some (v, h') \<Longrightarrow> keeps_urbs (rh_hc h) (rh_hc h')"
  "hub_writel k w addr h = Some h' \<Longrightarrow> keeps_urbs (rh_hc h) (rh_hc h')" "rh_hc (xhci_reg_unlock h) = rh_hc h"
  by (auto simp: xhci_reg_lock_def xhci_reg_unlock_def hub_readl_def hub_writel_def split: if_splits elim!: bind_eq_SomeE)

lemma free_dev_keeps: "ehub_xhci_free_dev k B ud h = Some h' \<Longrightarrow> keeps_urbs (rh_hc h) (rh_hc h')"
  by (auto simp: ehub_xhci_free_dev_def Let_def with_hc_def hub_rules(4) split: if_splits option.splits prod.splits elim!: bind_eq_SomeE
      dest!: alloc_command_keeps stop_timers_keeps hub_rules(1-3) virt_device_keeps run_command_keeps with_hcd_keeps; metis keeps_trans)

text \<open>Hubs, streams and link power management go through the configuration command.\<close>

lemma hub_tt_info_keeps: "hub_tt_info k slot vd multi n c = Some (ret, c') \<Longrightarrow> keeps_urbs c c'"
  by (auto simp: hub_tt_info_def)

lemma update_hub_gives:
  assumes "ehub_xhci_update_hub_device k P (meanwhile k P ops) d multi tt n c = Some (ret, c')"
  shows "gives_back c c'"
  using assms
  by (auto simp: ehub_xhci_update_hub_device_def Let_def keeps_gives split: if_splits option.splits prod.splits elim!: bind_eq_SomeE
      dest!: alloc_command_keeps hub_tt_info_keeps configure_gives; meson step_trans)

lemma change_mel_gives:
  assumes "xhci_change_max_exit_latency k P (meanwhile k P ops) d mel c = Some (ret, c')"
  shows "gives_back c c'"
  using assms
  by (auto simp: xhci_change_max_exit_latency_def Let_def split: if_splits option.splits elim!: bind_eq_SomeE dest!: configure_gives)

lemma lpm_timeout_gives:
  "ehub_xhci_enable_usb3_lpm_timeout k P (meanwhile k P ops) ud st c = Some (ret, c') \<Longrightarrow> gives_back c c'"
  "ehub_xhci_disable_usb3_lpm_timeout k P (meanwhile k P ops) ud st c = Some (ret, c') \<Longrightarrow> gives_back c c'"
  by (auto simp: ehub_xhci_enable_usb3_lpm_timeout_def ehub_xhci_disable_usb3_lpm_timeout_def Let_def split: if_splits
      elim!: bind_eq_SomeE dest!: change_mel_gives)

lemma reserve_trb_keeps [simp]: "keeps_urbs c (reserve_trb f c') = keeps_urbs c c'" "keeps_urbs (reserve_trb f c) c' = keeps_urbs c c'"
  by (simp_all add: reserve_trb_def)

lemma alloc_stream_info_keeps:
  assumes "ehub_xhci_alloc_stream_info k P n_ctxs n c = Some (p, c')"
  shows "keeps_urbs c c'"
  using assms
  by (auto simp: ehub_xhci_alloc_stream_info_def Let_def split: if_splits option.splits prod.splits elim!: bind_eq_SomeE
      dest!: alloc_command_keeps with_hcd_keeps; meson keeps_trans)

lemma set_flags_keeps [simp]:
  "keeps_urbs (set_flags slot f ds c) c' = keeps_urbs c c'" "gives_back c (set_flags slot f ds c') = gives_back c c'"
  "gives_back (set_flags slot f ds c) c' = gives_back c c'"
  unfolding set_flags_def by (induction ds arbitrary: c c') simp_all

lemma alloc_infos_keeps: "alloc_infos k P slot n_ctxs n ds c = Some (ok, c') \<Longrightarrow> keeps_urbs c c'"
proof (induction ds arbitrary: c)
  case (Cons d ds)
  from Cons.prems show ?case
    by (auto simp: Let_def split: if_splits elim!: bind_eq_SomeE dest!: alloc_stream_info_keeps Cons.IH; meson keeps_trans)
qed simp

lemma drop_infos_keeps: "drop_infos slot ds c = Some c' \<Longrightarrow> keeps_urbs c c'"
proof (induction ds arbitrary: c)
  case (Cons d ds)
  from Cons.prems show ?case
    by (auto simp: Let_def elim!: bind_eq_SomeE dest!: free_stream_info_keeps endpoint_zero_keeps Cons.IH; meson keeps_trans)
qed simp

lemma free_infos_keeps: "free_infos slot ds c = Some c' \<Longrightarrow> keeps_urbs c c'"
proof (induction ds arbitrary: c)
  case (Cons d ds)
  from Cons.prems show ?case
    by (auto simp: Let_def elim!: bind_eq_SomeE dest!: free_stream_info_keeps Cons.IH; meson keeps_trans)
qed simp

lemma start_streams_gives:
  assumes "start_streams k B (meanwhile k P ops) slot ds n m cmd ctx c = Some (ret, c')" and "hb_hcd B = P"
  shows "gives_back c c'"
  using assms
  by (auto simp: start_streams_def configure_streams_def Let_def keeps_gives split: if_splits prod.splits elim!: bind_eq_SomeE
      dest!: alloc_infos_keeps drop_infos_keeps configure_gives; meson step_trans)

lemma alloc_streams_gives:
  assumes "ehub_xhci_alloc_streams k B (meanwhile k P ops) d es n c = Some (ret, c')" and "hb_hcd B = P"
  shows "gives_back c c'"
  using assms
  by (auto simp: ehub_xhci_alloc_streams_def Let_def keeps_gives split: if_splits option.splits prod.splits elim!: bind_eq_SomeE
      dest!: alloc_command_keeps start_streams_gives; meson step_trans)

lemma free_streams_gives:
  assumes "ehub_xhci_free_streams k P (meanwhile k P ops) slot ds c = Some (ret, c')"
  shows "gives_back c c'"
  using assms
  by (auto simp: ehub_xhci_free_streams_def Let_def split: if_splits elim!: bind_eq_SomeE
      dest!: configure_gives free_infos_keeps; meson gives_keeps_trans)

section \<open>The promise\<close>

text \<open>Every successful submission of a URB is matched by one give-back, but for the one of a URB the
  driver still holds.\<close>

definition promise :: "nat list \<Rightarrow> hc \<Rightarrow> bool" where
  "promise subs c \<longleftrightarrow> (\<forall>u. count_list subs u = count_list (map fst (giveback_log c)) u + of_bool (u \<in> dom (urbs c)))"

lemma count_list_distinct: "distinct xs \<Longrightarrow> count_list xs u = of_bool (u \<in> set xs)"
  by (induction xs) auto

lemma gives_promise:
  assumes "gives_back c c'" and "promise subs c"
  shows "promise subs c'"
proof -
  obtain new where n: "giveback_log c' = giveback_log c @ new" "distinct (map fst new)"
    "dom (urbs c') \<inter> set (map fst new) = {}" "dom (urbs c) = dom (urbs c') \<union> set (map fst new)"
    using assms(1) by (auto simp: gives_back_def)
  have "of_bool (u \<in> dom (urbs c)) = of_bool (u \<in> set (map fst new)) + (of_bool (u \<in> dom (urbs c')) :: nat)" for u
    using n(3,4) by auto
  then show ?thesis using assms(2) by (simp add: promise_def n(1) count_list_distinct [OF n(2)])
qed

lemma takes_promise: "takes u c c1 \<Longrightarrow> u \<notin> dom (urbs c) \<Longrightarrow> promise subs c \<Longrightarrow> promise (subs @ [u]) c1"
  by (auto simp: takes_def promise_def)

lemma free_promise:
  assumes "ehub_xhci_urb_free_priv u c = Some c'" and p: "promise (subs @ [u]) c"
  shows "promise subs c'"
  unfolding promise_def
proof
  fix v
  have f: "u \<in> dom (urbs c)" "urbs c' = (urbs c)(u := None)" "giveback_log c' = giveback_log c" using free_priv_urbs [OF assms(1)] by simp_all
  have "count_list (subs @ [u]) v = count_list (map fst (giveback_log c)) v + of_bool (v \<in> dom (urbs c))" using p by (simp add: promise_def)
  then show "count_list subs v = count_list (map fst (giveback_log c')) v + of_bool (v \<in> dom (urbs c'))"
    using f by (cases "v = u") simp_all
qed

lemma submit_promise:
  assumes "ehub_xhci_urb_enqueue k P (meanwhile k P ops) rq c = Some (ret, c')" and "xu_id (rq_urb rq) \<notin> dom (urbs c)"
    and "promise subs c"
  shows "promise (if ret = 0 then subs @ [xu_id (rq_urb rq)] else subs) c'"
  using enqueue_cases [OF assms(1)]
proof (elim disjE exE conjE)
  fix c1 c2
  assume t: "takes (xu_id (rq_urb rq)) c c1" and g: "gives_back c1 c2"
    and r: "if ret = 0 then c' = c2 else ehub_xhci_urb_free_priv (xu_id (rq_urb rq)) c2 = Some c'"
  have "promise (subs @ [xu_id (rq_urb rq)]) c2" using gives_promise [OF g takes_promise [OF t assms(2,3)]] .
  then show ?thesis using r free_promise by (auto split: if_splits)
qed (use assms(3) gives_promise keeps_gives in \<open>simp; blast\<close>)

lemmas step_gives = run_op_gives add_endpoint_keeps [THEN keeps_gives] drop_endpoint_keeps [THEN keeps_gives] check_bandwidth_gives
  reset_bandwidth_keeps [THEN keeps_gives] alloc_dev_gives setup_device_gives discover_or_reset_gives free_dev_keeps [THEN keeps_gives]
  update_hub_gives alloc_streams_gives free_streams_gives lpm_timeout_gives

text \<open>Every step but a submission gives back what leaves the driver.\<close>

lemma step_cases:
  assumes "driver_step k P (subs, c) (subs', c')"
  shows "(subs' = subs \<and> gives_back c c') \<or> (\<exists>ops rq ret. ehub_xhci_urb_enqueue k P (meanwhile k P ops) rq c = Some (ret, c')
     \<and> xu_id (rq_urb rq) \<notin> dom (urbs c) \<and> subs' = (if ret = 0 then subs @ [xu_id (rq_urb rq)] else subs))"
  using assms by (cases rule: driver_step.cases) (blast dest: step_gives)+

lemma step_promise: "driver_step k P (subs, c) (subs', c') \<Longrightarrow> promise subs c \<Longrightarrow> promise subs' c'"
  using step_cases gives_promise submit_promise by blast

text \<open>
  C1. The promise of the driver, over any sequence of its operations (events of the controller, the
  watchdog of a stop command, the timeout of a command, cancellation, submission, changes of the
  configuration, of streams and of device slots, power management; cancellation, events and timers also
  while a command is waited for): for every URB the
  number of submissions that returned success is the number of times it was given back, plus one
  while the driver holds it. So a URB whose submission failed is never given back, and one that was
  accepted is given back at most once for each submission and never lost while it is not held.
\<close>

theorem giveback_once:
  assumes "(driver_step k P)\<^sup>*\<^sup>* (subs, c) (subs', c')" and "promise subs c"
  shows "count_list subs' u = count_list (map fst (giveback_log c')) u + of_bool (u \<in> dom (urbs c'))"
proof -
  have "promise subs' c'"
    using assms by (induction "(subs', c')" arbitrary: subs' c' rule: rtranclp_induct) (auto dest: step_promise)
  then show ?thesis by (simp add: promise_def)
qed

theorem giveback_once_witness:
  "\<exists>c'. (driver_step quiet_env demo_params)\<^sup>*\<^sup>* ([7, 8], busy_hc) ([7, 8], c') \<and> urbs c' 7 = None
     \<and> count_list (map fst (giveback_log c')) 7 = 1"
proof -
  obtain pv s where fr: "ehub_xhci_cache_block_free_by_urb (tu_priv (busy_urb 768)) (hcd busy_hc) = Some (pv, s)"
    by (auto simp: busy_urb_def ehub_xhci_cache_block_free_by_urb_def new_priv_def busy_hc_def demo_blocks_def demo_defs lock_cache_list_def)
  moreover have "urbs busy_hc 7 = Some (busy_urb 768)" by (simp add: busy_hc_def)
  ultimately obtain c' where c': "run_op quiet_env demo_params (Dequeue 0 True 1 0 7) busy_hc = Some c'" "urbs c' 7 = None"
    by (simp add: ehub_xhci_urb_dequeue_def Let_def ehub_xhci_urb_free_priv_def usb_hcd_giveback_urb_def put_ep_def del: fun_upd_apply) (simp add: fun_upd_def)
  have run: "(driver_step quiet_env demo_params)\<^sup>*\<^sup>* ([7, 8], busy_hc) ([7, 8], c')" using Run [OF c'(1)] by (rule r_into_rtranclp)
  moreover have "promise [7, 8] busy_hc" by (simp add: promise_def busy_hc_def)
  ultimately have "count_list [7, 8 :: nat] 7 = count_list (map fst (giveback_log c')) 7 + of_bool (7 \<in> dom (urbs c'))" by (rule giveback_once)
  then have "count_list (map fst (giveback_log c')) 7 = 1" using c'(2) by (simp add: domIff)
  then show ?thesis using run c'(2) by blast
qed

section \<open>The table of device contexts\<close>

lemma enqueue_slots: "ehub_xhci_urb_enqueue k P (meanwhile k P ops) rq c = Some (ret, c') \<Longrightarrow> slots_ok c \<Longrightarrow> slots_ok c'"
  by (auto dest!: enqueue_cases free_priv_urbs simp: takes_def keeps_urbs_def gives_back_def split: if_splits)

lemma step_slots: "driver_step k P (subs, c) (subs', c') \<Longrightarrow> slots_ok c \<Longrightarrow> slots_ok c'"
  by (auto dest!: step_cases enqueue_slots simp: gives_back_def)

text \<open>
  The controller is never sent to the memory of a device that is gone: over any sequence of
  operations of the driver (allocation, addressing, reset and release of devices, configurations,
  streams, link power management, transfers, events and timers, interleaved while a command is
  waited for), the entry of every slot in the device context base address array is the address of
  the output context of the device in that slot, and 0 for a slot without a device.
\<close>

theorem device_contexts_agree:
  assumes "(driver_step k P)\<^sup>*\<^sup>* (subs, c) (subs', c')" and "slots_ok c" and "slot \<noteq> 0"
  shows "dcbaa c' slot = (case devs c' slot of None \<Rightarrow> 0 | Some vd \<Rightarrow> ctx_dma (out_ctx vd))"
proof -
  have "slots_ok c'"
    using assms(1,2) by (induction "(subs', c')" arbitrary: subs' c' rule: rtranclp_induct) (auto dest: step_slots)
  then show ?thesis using assms(3) by (simp add: slots_ok_def)
qed

text \<open>A device in slot 1, whose URB is cancelled.\<close>

definition slot_hc :: hc where
  "slot_hc = busy_hc\<lparr>devs := (devs busy_hc)(1 := map_option (\<lambda>vd. vd\<lparr>out_ctx := (out_ctx vd)\<lparr>ctx_dma := 0x5000\<rparr>\<rparr>) (devs busy_hc 1)),
     dcbaa := (\<lambda>_. 0)(1 := 0x5000)\<rparr>"

lemma slot_hc_run:
  "map_option (\<lambda>c. (urbs c 7 = None, map_option (\<lambda>vd. ctx_dma (out_ctx vd)) (devs c 1)))
     (run_op quiet_env demo_params (Dequeue 0 True 1 0 7) slot_hc) = Some (True, Some 0x5000)"
  by code_simp

theorem device_contexts_agree_witness:
  "\<exists>c'. (driver_step quiet_env demo_params)\<^sup>*\<^sup>* ([7, 8], slot_hc) ([7, 8], c') \<and> urbs c' 7 = None \<and> dcbaa c' 1 = 0x5000"
proof -
  obtain c' vd where c': "run_op quiet_env demo_params (Dequeue 0 True 1 0 7) slot_hc = Some c'" "urbs c' 7 = None"
    "devs c' 1 = Some vd" "ctx_dma (out_ctx vd) = 0x5000"
    using slot_hc_run by (auto split: option.splits)
  have "slots_ok slot_hc" by (simp add: slots_ok_def slot_hc_def busy_hc_def)
  moreover have run: "(driver_step quiet_env demo_params)\<^sup>*\<^sup>* ([7, 8], slot_hc) ([7, 8], c')" using Run [OF c'(1)] by (rule r_into_rtranclp)
  ultimately have "dcbaa c' 1 = 0x5000" using device_contexts_agree [OF run, of 1] c'(3,4) by simp
  then show ?thesis using run c'(2) by blast
qed

end
