(* ===== verification/Xhci_Hub_Props.thy ===== *)
theory Xhci_Hub_Props
  imports Xhci_Hub Xhci_Cancel_Props
begin

text \<open>
  The root hub: which bits of a port register the driver clears, and the semaphore of the
  registers.
\<close>

section \<open>Writes to port registers\<close>

lemmas portsc_bits = PORT_CONNECT_def PORT_PE_def PORT_OC_def PORT_RESET_def PORT_PLS_MASK_def XDEV_U0_def XDEV_U2_def XDEV_U3_def
  XDEV_RESUME_def PORT_POWER_def DEV_SPEED_MASK_def PORT_LINK_STROBE_def PORT_CSC_def PORT_PEC_def PORT_WRC_def PORT_OCC_def PORT_RC_def
  PORT_PLC_def PORT_CEC_def PORT_CAS_def PORT_WKCONN_E_def PORT_WKDISC_E_def PORT_WKOC_E_def PORT_DEV_REMOVE_def PORT_WR_def
  PORT_WAKE_BITS_def PORT_RWC_BITS_def XHCI_PORT_RO_def XHCI_PORT_RWS_def XHCI_PORT_RW1S_def XHCI_PORT_RW1CS_def XHCI_PORT_RW_def
  ALL_CHANGES_def

text \<open>The effect of a write on the bits of a register, by their kind: write one to clear, write one to
  set, the link state under its strobe, and stored.\<close>

definition portsc_after :: "u32 \<Rightarrow> u32 \<Rightarrow> u32" where
  "portsc_after cur val =
     (cur AND NOT (XHCI_PORT_RWS OR XHCI_PORT_RW1S OR XHCI_PORT_RW1CS OR XHCI_PORT_RW))
     OR (cur AND NOT val AND XHCI_PORT_RW1CS)
     OR ((cur OR val) AND XHCI_PORT_RW1S)
     OR (val AND XHCI_PORT_RWS AND NOT PORT_PLS_MASK)
     OR ((if val AND PORT_LINK_STROBE \<noteq> 0 then val else cur) AND PORT_PLS_MASK)"

text \<open>The change bits and the enable bit that a write clears.\<close>

definition cleared :: "u32 \<Rightarrow> u32" where "cleared val = val AND XHCI_PORT_RW1CS"

lemma cleared_or [simp]: "cleared (a OR b) = cleared a OR cleared b"
  by (simp add: cleared_def bit.conj_disj_distrib2)

lemma cleared_and [simp]: "cleared a = 0 \<Longrightarrow> cleared (a AND b) = 0"
  by (metis (no_types, lifting) and.assoc and.commute and_zero_eq cleared_def)

lemma cleared_mask: "m AND XHCI_PORT_RW1CS = 0 \<Longrightarrow> cleared (a AND m) = 0"
  by (simp add: cleared_def and.assoc)

lemma neutral_clears [simp]: "cleared (ehub_xhci_port_state_to_neutral st) = 0"
proof -
  have "XHCI_PORT_RO AND XHCI_PORT_RW1CS = 0" "XHCI_PORT_RWS AND XHCI_PORT_RW1CS = 0" by (simp_all add: portsc_bits)
  then show ?thesis by (simp add: ehub_xhci_port_state_to_neutral_def cleared_mask)
qed

lemma cleared_bits [simp]:
  "cleared PORT_LINK_STROBE = 0" "cleared XDEV_U0 = 0" "cleared XDEV_U3 = 0" "cleared XDEV_RESUME = 0"
  "cleared PORT_POWER = 0" "cleared PORT_RESET = 0" "cleared PORT_WR = 0" "cleared PORT_WKOC_E = 0" "cleared PORT_WKDISC_E = 0" "cleared PORT_WKCONN_E = 0"
  "cleared PORT_PE = PORT_PE" "cleared PORT_PLC = PORT_PLC" "cleared ALL_CHANGES = ALL_CHANGES"
  by (simp_all add: cleared_def portsc_bits)

lemma cleared_change: "change_bit wVal = Some b \<Longrightarrow> cleared b = b"
  by (auto simp: change_bit_def cleared_def portsc_bits split: if_splits)

lemma cleared_link [simp]: "cleared (ucast (drop_bit 3 x AND 0x1fe0 :: u16)) = 0"
proof -
  have c: "XHCI_PORT_RW1CS = push_bit 1 1 OR push_bit 17 (mask 7)" and m: "(0x1fe0 :: u16) = push_bit 5 (mask 8)"
    by (simp_all add: XHCI_PORT_RW1CS_def mask_eq_exp_minus_1)
  show ?thesis
    unfolding cleared_def c m
    by (rule bit_word_eqI, simp only: bit_and_iff bit_or_iff bit_drop_bit_eq o_apply bit_push_bit_iff bit_mask_iff bit_ucast_iff bit_1_iff, auto)
qed

text \<open>A write leaves the change bits and the enable bit alone that it does not clear, whatever the register
  holds by then.\<close>

lemma portsc_after_keeps:
  assumes "cleared val AND NOT A = 0"
  shows "portsc_after cur val AND XHCI_PORT_RW1CS AND NOT A = cur AND XHCI_PORT_RW1CS AND NOT A"
proof (rule bit_word_eqI)
  fix n assume n: "n < LENGTH(32)"
  have d: "XHCI_PORT_RWS AND XHCI_PORT_RW1CS = 0" "XHCI_PORT_RW1S AND XHCI_PORT_RW1CS = 0" "PORT_PLS_MASK AND XHCI_PORT_RW1CS = 0"
    by (simp_all add: portsc_bits)
  have "\<not> (bit val n \<and> bit XHCI_PORT_RW1CS n \<and> \<not> bit A n)"
    using assms n by (metis bit_and_iff bit_not_iff cleared_def n bit_0_eq bot_apply bot_bool_def possible_bit_word)
  moreover have "\<not> (bit m n \<and> bit XHCI_PORT_RW1CS n)" if "m AND XHCI_PORT_RW1CS = 0" for m :: u32
    using that by (metis bit_0_eq bit_and_iff bot_apply bot_bool_def)
  ultimately show "bit (portsc_after cur val AND XHCI_PORT_RW1CS AND NOT A) n = bit (cur AND XHCI_PORT_RW1CS AND NOT A) n"
    using n d by (auto simp: portsc_after_def bit_and_iff bit_or_iff bit_not_iff)
qed
text \<open>A set of bits for each kind of port: the speed that the value shows which is written, SuperSpeed or
  not.\<close>

type_synonym port_bits = "bool \<Rightarrow> u32"

definition allowed :: "port_bits \<Rightarrow> u32 \<Rightarrow> bool" where
  "allowed A val \<longleftrightarrow> cleared val AND NOT (A (DEV_SUPERSPEED val)) = 0"

lemma allowed_none [simp]: "cleared val = 0 \<Longrightarrow> allowed A val"
  by (simp add: allowed_def)

lemma allowed_all: "cleared val AND NOT b = 0 \<Longrightarrow> allowed (\<lambda>_. b) val"
  by (simp add: allowed_def)

text \<open>From \<open>h\<close> to \<open>h'\<close> every write to a port register clears at most the bits \<open>A\<close>, and the semaphore is
  held again.\<close>

definition clears :: "port_bits \<Rightarrow> root_hub \<Rightarrow> root_hub \<Rightarrow> bool" where
  "clears A h h' \<longleftrightarrow> (reg_lock h \<longrightarrow> reg_lock h') \<and> (\<exists>new. port_log h' = port_log h @ new \<and> (\<forall>w \<in> set new. allowed A (snd w)))"

lemma clears_refl [simp]: "clears A h h"
  by (simp add: clears_def)

lemma clears_trans: "clears A h h1 \<Longrightarrow> clears A h1 h2 \<Longrightarrow> clears A h h2"
  unfolding clears_def by (metis (no_types, lifting) Un_iff append_assoc set_append)

lemma clears_fields [simp]:
  "clears A h (h'\<lparr>rh_hc := c\<rparr>) = clears A h h'" "clears A h (put_bus f h') = clears A h h'" "clears A h (h'\<lparr>poll_rh := b\<rparr>) = clears A h h'"
  "clears A h (h'\<lparr>hub_notes := ns\<rparr>) = clears A h h'" "clears A h (h'\<lparr>hcd_suspended := b\<rparr>) = clears A h h'"
  "clears A (put_bus f h) h' = clears A h h'" "clears A (h\<lparr>rh_hc := c\<rparr>) h' = clears A h h'" "clears A h (xhci_del_comp_mod_timer q st w h') = clears A h h'"
  "clears A h (h'\<lparr>status_urb := b, status_log := l\<rparr>) = clears A h h'" "clears A (h\<lparr>hub_notes := ns\<rparr>) h' = clears A h h'"
  by (simp_all add: clears_def put_bus_def xhci_del_comp_mod_timer_def Let_def)

named_theorems clearing

lemma readl_clears [clearing]: "hub_readl k addr h = Some (v, h') \<Longrightarrow> clears A h h'"
  by (auto simp: hub_readl_def elim!: bind_eq_SomeE)

lemma writel_clears [clearing]: "hub_writel k val addr h = Some h' \<Longrightarrow> clears A h h'"
  by (auto simp: hub_writel_def elim!: bind_eq_SomeE)

lemma port_writel_clears: "port_writel k val addr h = Some h' \<Longrightarrow> allowed A val \<Longrightarrow> clears A h h'"
  by (auto simp: port_writel_def hub_writel_def clears_def elim!: bind_eq_SomeE)

lemma with_hc_clears [clearing]: "with_hc f h = Some h' \<Longrightarrow> clears A h h'"
  by (auto simp: with_hc_def)

lemma others_clears [clearing]: "run_others E h = Some h' \<Longrightarrow> clears A h h'"
  by (auto simp: run_others_def clears_def)

lemma sleep_clears [clearing]: "sleep_unlocked E h = Some h' \<Longrightarrow> clears A h h'"
  by (auto simp: sleep_unlocked_def run_others_def xhci_reg_unlock_def xhci_reg_lock_def clears_def elim!: bind_eq_SomeE)

lemma stop_clears [clearing]: "stop_unlocked k B wait slot h = Some h' \<Longrightarrow> clears A h h'"
  by (auto simp: stop_unlocked_def with_hc_def xhci_reg_unlock_def xhci_reg_lock_def clears_def elim!: bind_eq_SomeE)

lemma link_state_clears [clearing]:
  assumes "ehub_xhci_set_link_state k w ls h = Some h'" and "cleared ls = 0"
  shows "clears A h h'"
  using assms by (auto simp: ehub_xhci_set_link_state_def elim!: bind_eq_SomeE dest!: readl_clears [of _ _ _ _ _ A] port_writel_clears [where A = A] intro: clears_trans)

lemma test_and_clear_clears:
  assumes "ehub_xhci_test_and_clear_bit k w b h = Some h'" and "\<And>v. allowed A (ehub_xhci_port_state_to_neutral v OR b)"
  shows "clears A h h'"
  using assms by (auto simp: ehub_xhci_test_and_clear_bit_def split: if_splits elim!: bind_eq_SomeE
      dest!: readl_clears [of _ _ _ _ _ A] port_writel_clears [where A = A] intro: clears_trans)

lemma wake_mask_clears [clearing]:
  assumes "xhci_set_remote_wake_mask k w m h = Some h'"
  shows "clears A h h'"
proof -
  have "cleared (wake_bit on b v) = 0" if "cleared v = 0" "cleared b = 0" for on b v using that by (simp add: wake_bit_def)
  then show ?thesis
    using assms by (auto simp: xhci_set_remote_wake_mask_def elim!: bind_eq_SomeE dest!: readl_clears [of _ _ _ _ _ A] port_writel_clears [where A = A] intro: clears_trans)
qed

lemma write_port_clears: "write_port k val addr h = Some (v, h') \<Longrightarrow> allowed A val \<Longrightarrow> clears A h h'"
  by (auto simp: write_port_def elim!: bind_eq_SomeE dest!: readl_clears [of _ _ _ _ _ A] port_writel_clears [where A = A] intro: clears_trans)
lemmas clears_dest = readl_clears [where A = A] writel_clears [where A = A] with_hc_clears [where A = A] sleep_clears [where A = A]
  stop_clears [where A = A] link_state_clears [where A = A] wake_mask_clears [where A = A] for A

lemma set_suspend_clears: "set_suspend k E B wait w addr h = Some (ret, h') \<Longrightarrow> clears A h h'"
  by (auto simp: set_suspend_def Let_def split: if_splits elim!: bind_eq_SomeE dest!: clears_dest [where A = A]; meson clears_trans)

lemma enter_link_state_clears:
  "enter_link_state k E B wait w addr ls h = Some (ret, h') \<Longrightarrow> cleared ls = 0 \<Longrightarrow> clears A h h'"
  by (auto simp: enter_link_state_def Let_def split: if_splits elim!: bind_eq_SomeE dest!: clears_dest [where A = A]; meson clears_trans)
lemma set_link_clears:
  assumes "set_link k E B wait w addr ls h = Some (ret, h')" and "cleared ls = 0"
  shows "clears (\<lambda>_. if ls = USB_SS_PORT_LS_SS_DISABLED then ALL_CHANGES OR PORT_PE else 0) h h'"
proof -
  let ?A = "\<lambda>_ :: bool. if ls = USB_SS_PORT_LS_SS_DISABLED then ALL_CHANGES OR PORT_PE else 0"
  have a: "allowed (\<lambda>_. ALL_CHANGES OR PORT_PE) ((ehub_xhci_port_state_to_neutral v OR ALL_CHANGES) OR PORT_PE)" for v
    by (rule allowed_all) (simp only: cleared_or cleared_bits neutral_clears or.left_neutral bit.conj_cancel_right)
  show ?thesis
    using assms a
    by (auto simp: set_link_def split: if_splits elim!: bind_eq_SomeE
        dest!: clears_dest [where A = ?A] port_writel_clears [where A = ?A] enter_link_state_clears [where A = ?A];
        meson clears_trans)
qed

lemma set_timeout_clears: "set_timeout k msk bits addr h = Some (ret, h') \<Longrightarrow> clears A h h'"
  by (auto simp: set_timeout_def split: if_splits elim!: bind_eq_SomeE dest!: clears_dest [where A = A] intro: clears_trans)

text \<open>The bits a request may clear: the change bit that it names, the enable bit when it disables the
  port, and all of them when it puts the link into the disabled state.\<close>

definition may_clear :: "u16 \<Rightarrow> u16 \<Rightarrow> u16 \<Rightarrow> u32" where
  "may_clear typeReq wVal wIdx =
     (if typeReq = ClearPortFeature then (case change_bit wVal of Some b \<Rightarrow> b | None \<Rightarrow> if wVal = USB_PORT_FEAT_ENABLE then PORT_PE else 0)
      else if typeReq = SetPortFeature \<and> wVal = USB_PORT_FEAT_LINK_STATE \<and> ucast (drop_bit 3 (wIdx AND 0xff00)) = USB_SS_PORT_LS_SS_DISABLED
      then ALL_CHANGES OR PORT_PE else 0)"

lemma set_feature_clears:
  assumes "set_feature k E B wait wVal wIdx w addr temp h = Some (ret, h')" and "cleared temp = 0"
  shows "clears (\<lambda>_. may_clear SetPortFeature wVal wIdx) h h'"
proof (cases "wVal = USB_PORT_FEAT_LINK_STATE")
  case True
  then have "set_link k E B wait w addr (ucast (drop_bit 3 (wIdx AND 0xff00))) h = Some (ret, h')"
    using assms by (simp add: set_feature_def Let_def USB_PORT_FEAT_LINK_STATE_def USB_PORT_FEAT_SUSPEND_def)
  from set_link_clears [OF this] have "clears (\<lambda>_. if ucast (drop_bit 3 (wIdx AND 0xff00)) = USB_SS_PORT_LS_SS_DISABLED then ALL_CHANGES OR PORT_PE else 0) h h'"
    by simp
  then show ?thesis using True by (simp only: may_clear_def SetPortFeature_def ClearPortFeature_def) simp
next
  case False
  have "clears (\<lambda>_. 0) h h'"
    using assms False
    by (auto simp: set_feature_def Let_def split: if_splits elim!: bind_eq_SomeE
        dest!: set_suspend_clears [where A = "\<lambda>_. 0"] set_timeout_clears [where A = "\<lambda>_. 0"] clears_dest [where A = "\<lambda>_. 0"] write_port_clears [where A = "\<lambda>_. 0"];
        meson clears_trans)
  then show ?thesis using False by (simp add: may_clear_def SetPortFeature_def ClearPortFeature_def)
qed

lemma set_port_feature_clears:
  assumes "set_port_feature k E B wait wVal wIdx h = Some (ret, h')"
  shows "clears (\<lambda>_. may_clear SetPortFeature wVal wIdx) h h'"
  using assms
  by (auto simp: set_port_feature_def Let_def split: if_splits elim!: bind_eq_SomeE
      dest!: set_feature_clears clears_dest [where A = "\<lambda>_. may_clear SetPortFeature wVal wIdx"]; meson clears_trans)

lemma clear_suspend_clears: "clear_suspend k E w addr h = Some (ret, h') \<Longrightarrow> clears A h h'"
  by (auto simp: clear_suspend_def Let_def split: if_splits elim!: bind_eq_SomeE dest!: clears_dest [where A = A]; meson clears_trans)

lemma change_bit_clears:
  assumes "xhci_clear_port_change_bit k wVal addr temp h = Some h'" and "cleared temp = 0" and "change_bit wVal = Some b"
  shows "clears (\<lambda>_. b) h h'"
proof -
  have c: "allowed (\<lambda>_. b) (temp OR b)" using assms(2) cleared_change [OF assms(3)] by (simp add: allowed_def)
  show ?thesis
    using assms by (auto simp: xhci_clear_port_change_bit_def elim!: bind_eq_SomeE dest!: port_writel_clears [OF _ c] clears_dest [where A = "\<lambda>_. b"] intro: clears_trans)
qed

lemma disable_port_clears:
  assumes "xhci_disable_port k addr temp h = Some h'" and "cleared temp = 0"
  shows "clears (\<lambda>_. PORT_PE) h h'"
proof -
  have c: "allowed (\<lambda>_. PORT_PE) (temp OR PORT_PE)" using assms(2) by (simp add: allowed_def)
  show ?thesis
    using assms by (auto simp: xhci_disable_port_def split: if_splits elim!: bind_eq_SomeE dest!: port_writel_clears [OF _ c] clears_dest [where A = "\<lambda>_. PORT_PE"] intro: clears_trans)
qed
lemma clear_feature_clears:
  assumes "clear_feature k E wVal w addr temp h = Some (ret, h')" and "cleared temp = 0"
  shows "clears (\<lambda>_. may_clear ClearPortFeature wVal wIdx) h h'"
proof (cases "change_bit wVal")
  case None
  consider (susp) "wVal = USB_PORT_FEAT_SUSPEND" | (enable) "wVal \<noteq> USB_PORT_FEAT_SUSPEND" "wVal = USB_PORT_FEAT_ENABLE"
    | (other) "wVal \<noteq> USB_PORT_FEAT_SUSPEND" "wVal \<noteq> USB_PORT_FEAT_ENABLE" by blast
  then show ?thesis
  proof cases
    case enable
    then have "clears (\<lambda>_. PORT_PE) h h'" using assms None by (auto simp: clear_feature_def Let_def dest!: disable_port_clears)
    then show ?thesis using enable None by (simp add: may_clear_def)
  next
    case other
    have "clears (\<lambda>_. 0) h h'"
      using assms None other
      by (auto simp: clear_feature_def Let_def split: if_splits elim!: bind_eq_SomeE dest!: port_writel_clears [where A = "\<lambda>_. 0"] clears_dest [where A = "\<lambda>_. 0"] intro: clears_trans)
    then show ?thesis using other None by (simp add: may_clear_def)
  qed (use assms in \<open>auto simp: clear_feature_def Let_def dest!: clear_suspend_clears\<close>)
next
  case (Some b)
  have "wVal \<noteq> USB_PORT_FEAT_SUSPEND" using Some by (auto simp: change_bit_def USB_PORT_FEAT_SUSPEND_def USB_PORT_FEAT_C_RESET_def USB_PORT_FEAT_C_BH_PORT_RESET_def
    USB_PORT_FEAT_C_CONNECTION_def USB_PORT_FEAT_C_OVER_CURRENT_def USB_PORT_FEAT_C_ENABLE_def USB_PORT_FEAT_C_SUSPEND_def USB_PORT_FEAT_C_PORT_LINK_STATE_def
    USB_PORT_FEAT_C_PORT_CONFIG_ERROR_def split: if_splits)
  then have "clears (\<lambda>_. b) h h'"
    using assms Some by (auto simp: clear_feature_def Let_def split: if_splits dest!: change_bit_clears)
  then show ?thesis using Some by (simp add: may_clear_def)
qed

lemma clear_port_feature_clears:
  assumes "clear_port_feature k E wVal wIdx h = Some (ret, h')"
  shows "clears (\<lambda>_. may_clear ClearPortFeature wVal wIdx) h h'"
  using assms
  by (auto simp: clear_port_feature_def Let_def split: if_splits elim!: bind_eq_SomeE
      dest!: clear_feature_clears [where wIdx = wIdx] clears_dest [where A = "\<lambda>_. may_clear ClearPortFeature wVal wIdx"]; meson clears_trans)

lemma finish_resume_clears: "finish_resume k E w h = Some (r, h') \<Longrightarrow> clears A h h'"
  by (auto simp: finish_resume_def Let_def split: if_splits elim!: bind_eq_SomeE dest!: clears_dest [where A = A]; meson clears_trans)

lemma resume_status_clears: "resume_status k E w raw h = Some (r, h') \<Longrightarrow> clears A h h'"
  by (auto simp: resume_status_def split: if_splits elim!: bind_eq_SomeE dest!: finish_resume_clears [where A = A])

lemma port_status_clears: "xhci_get_port_status k E B w raw h = Some (st, h') \<Longrightarrow> clears A h h'"
  by (auto simp: xhci_get_port_status_def Let_def split: if_splits option.splits elim!: bind_eq_SomeE dest!: resume_status_clears [where A = A])

lemma get_port_status_clears: "get_port_status k E B wIdx h = Some (ret, reply, h') \<Longrightarrow> clears A h h'"
  by (auto simp: get_port_status_def Let_def split: if_splits elim!: bind_eq_SomeE dest!: clears_dest [where A = A] port_status_clears [where A = A]; meson clears_trans)

lemma read_removable_clears: "read_removable k is h = Some (m, h') \<Longrightarrow> clears A h h'"
proof (induction "is" arbitrary: h m)
  case (Cons i "is")
  then show ?case by (auto split: if_splits elim!: bind_eq_SomeE dest!: clears_dest [where A = A] intro: clears_trans)
qed simp

lemma hub_descriptor_clears: "xhci_hub_descriptor k B desc h = Some (d, h') \<Longrightarrow> clears A h h'"
  by (auto simp: xhci_hub_descriptor_def xhci_usb3_hub_descriptor_def split: if_splits elim!: bind_eq_SomeE dest!: read_removable_clears [where A = A])

lemma hub_request_clears:
  assumes "hub_request k E B wait desc typeReq wVal wIdx wLen h = Some (ret, reply, h')"
  shows "clears (\<lambda>_. may_clear typeReq wVal wIdx) h h'"
  using assms
  by (auto simp: hub_request_def Let_def split: if_splits elim!: bind_eq_SomeE
      dest!: get_port_status_clears hub_descriptor_clears set_port_feature_clears clear_port_feature_clears)

text \<open>
  A hub request loses no change of a port. Whatever its way, with sleeps and stopped devices in
  between, every value it writes to a port register clears, by the rules of the register and whatever
  the register holds by then, no change bit and no enable bit but those the request is there to
  clear; and it returns with the semaphore of the registers put down.
\<close>

theorem hub_control_keeps_changes:
  assumes "ehub_xhci_hub_control k E B wait desc typeReq wVal wIdx wLen h = Some (ret, reply, h')"
  shows "\<not> reg_lock h' \<and> (\<exists>new. port_log h' = port_log h @ new \<and> (\<forall>w \<in> set new. \<forall>cur.
     portsc_after cur (snd w) AND XHCI_PORT_RW1CS AND NOT (may_clear typeReq wVal wIdx) = cur AND XHCI_PORT_RW1CS AND NOT (may_clear typeReq wVal wIdx)))"
proof -
  obtain h1 h2 where r: "xhci_reg_lock h = Some h1" "hub_request k E B wait desc typeReq wVal wIdx wLen h1 = Some (ret, reply, h2)" "h' = xhci_reg_unlock h2"
    using assms by (auto simp: ehub_xhci_hub_control_def elim!: bind_eq_SomeE)
  have l: "port_log h1 = port_log h" using r(1) by (auto simp: xhci_reg_lock_def split: if_splits)
  obtain new where "port_log h2 = port_log h1 @ new" "\<forall>w \<in> set new. cleared (snd w) AND NOT (may_clear typeReq wVal wIdx) = 0"
    using hub_request_clears [OF r(2)] by (auto simp: clears_def allowed_def)
  then show ?thesis using l r(3) portsc_after_keeps by (auto simp: xhci_reg_unlock_def)
qed
text \<open>A hub with one port, behind a bus on which a register holds 0.\<close>

definition port_ehub :: ehub where
  "port_ehub = ready_ehub\<lparr>next_addr := 2, UrbContextEmbeddedRegisterWrite := Some 0, UrbContextEmbeddedRegisterRead := Some 1,
     urb_contexts := [0 \<mapsto> new_URB_CONTEXT (Pipe PIPE_BULK False 3) 8 URB_CompletionRoutine_Simple_ptr None 0,
       1 \<mapsto> new_URB_CONTEXT (Pipe PIPE_BULK False 3) 8 URB_CompletionRoutine_Simple_ptr None 1]\<rparr>"

definition port_hub :: root_hub where
  "port_hub = \<lparr>rh_hc = busy_hc\<lparr>hcd := port_ehub\<rparr>, rh_usb3 = False, rh_bus = \<lparr>bus_suspended = 0, next_statechange = 0, port_c_suspend = 0,
       suspended_ports = 0, port_remote_wakeup = 0, resume_done = replicate 31 0, resuming_ports = 0, rexit_ports = 0, rexit_done = replicate 31 0\<rparr>,
     reg_lock = False, port_array = [2], usb2_ports = [Some 0x440], usb3_ports = [], num_usb2_ports = 1, num_usb3_ports = 0,
     usb2_port_removable = [False], ext_caps = [], sw_lpm_support = False, hw_lpm_support = False, port_status_u0 = 0, comp_mode_timer = False,
     poll_rh = True, hcd_suspended = False, status_urb = False, status_log = [], hub_notes = [], port_log = []\<rparr>"

definition hub_demo_params :: hub_params where
  "hub_demo_params = \<lparr>hb_hcd = \<lparr>hp_quirks = 0, hci_version = 0x100, map_status = 0, link_status = 0\<rparr>, cap_regs = 0, op_regs = 0x40,
     hcs_params1 = 0x1000000, hcs_params3 = 0, hcc_params = 0\<rparr>"

definition hub_demo_env :: hub_env where
  "hub_demo_env = \<lparr>jiffies = (\<lambda>_. 0), msecs_to_jiffies = of_nat, USB_RESUME_TIMEOUT = 40, others = (\<lambda>_ x. Some x)\<rparr>"

definition hub_demo_desc :: usb_hub_descriptor where
  "hub_demo_desc = \<lparr>bDescLength = 0, bDescriptorType = 0, bNbrPorts = 0, wHubCharacteristics = 0, bPwrOn2PwrGood = 0, bHubContrCurrent = 0, hub_bytes = []\<rparr>"

lemma hub_demo_run:
  "map_option (\<lambda>(ret, _, h). (ret, port_log h)) (ehub_xhci_hub_control quiet_env hub_demo_env hub_demo_params (\<lambda>_ c. Some c) hub_demo_desc
     ClearPortFeature USB_PORT_FEAT_C_CONNECTION 1 0 port_hub) = Some (0, [(0x440, PORT_CSC)])"
  by code_simp
theorem hub_control_keeps_changes_witness:
  "\<exists>reply h'. ehub_xhci_hub_control quiet_env hub_demo_env hub_demo_params (\<lambda>_ c. Some c) hub_demo_desc
       ClearPortFeature USB_PORT_FEAT_C_CONNECTION 1 0 port_hub = Some (0, reply, h')
     \<and> \<not> reg_lock h' \<and> port_log h' = [(0x440, PORT_CSC)]
     \<and> (\<forall>cur. portsc_after cur PORT_CSC AND XHCI_PORT_RW1CS AND NOT PORT_CSC = cur AND XHCI_PORT_RW1CS AND NOT PORT_CSC)"
proof -
  obtain reply h' where r: "ehub_xhci_hub_control quiet_env hub_demo_env hub_demo_params (\<lambda>_ c. Some c) hub_demo_desc
       ClearPortFeature USB_PORT_FEAT_C_CONNECTION 1 0 port_hub = Some (0, reply, h')" "port_log h' = [(0x440, PORT_CSC)]"
    using hub_demo_run by (auto split: prod.splits)
  have "may_clear ClearPortFeature USB_PORT_FEAT_C_CONNECTION 1 = PORT_CSC" "port_log port_hub = []"
    by (simp_all add: may_clear_def change_bit_def USB_PORT_FEAT_C_CONNECTION_def USB_PORT_FEAT_C_RESET_def USB_PORT_FEAT_C_BH_PORT_RESET_def port_hub_def)
  then show ?thesis using hub_control_keeps_changes [OF r(1)] r by auto
qed

section \<open>Suspend, resume and events\<close>

lemma suspend_port_clears: "suspend_port k B wait wakeup i h = Some h' \<Longrightarrow> clears A h h'"
proof -
  assume a: "suspend_port k B wait wakeup i h = Some h'"
  have "cleared (suspend_wake_bits wakeup t1 t2) = 0" if "cleared t2 = 0" for t1 t2 using that by (simp add: suspend_wake_bits_def)
  then show ?thesis
    using a by (auto simp: suspend_port_def Let_def split: if_splits elim!: bind_eq_SomeE
        dest!: clears_dest [where A = A] port_writel_clears [where A = A]; meson clears_trans)
qed

lemma suspend_ports_clears: "suspend_ports k B wait wakeup is h = Some h' \<Longrightarrow> clears A h h'"
  by (induction "is" arbitrary: h) (auto elim!: bind_eq_SomeE dest!: suspend_port_clears [where A = A] intro: clears_trans)

lemma resume_to_u0_clears: "resume_to_u0 k E ss i h = Some h' \<Longrightarrow> clears A h h'"
  by (auto simp: resume_to_u0_def split: if_splits elim!: bind_eq_SomeE dest!: clears_dest [where A = A]; meson clears_trans)

text \<open>The resume of the bus may clear the link state change, and on a port that shows no SuperSpeed device
  the configuration error.\<close>

definition resume_clears :: port_bits where
  "resume_clears superspeed = (if superspeed then PORT_PLC else PORT_PLC OR PORT_CEC)"

lemma resume_speed:
  "DEV_SUPERSPEED (raw AND NOT (PORT_RWC_BITS OR PORT_CEC OR PORT_WAKE_BITS)) = DEV_SUPERSPEED raw"
  "DEV_SUPERSPEED (raw AND NOT (PORT_RWC_BITS OR PORT_WAKE_BITS)) = DEV_SUPERSPEED raw"
proof -
  have "NOT (PORT_RWC_BITS OR PORT_CEC OR PORT_WAKE_BITS) AND DEV_SPEED_MASK = DEV_SPEED_MASK"
    "NOT (PORT_RWC_BITS OR PORT_WAKE_BITS) AND DEV_SPEED_MASK = DEV_SPEED_MASK" by (simp_all add: portsc_bits)
  then show "DEV_SUPERSPEED (raw AND NOT (PORT_RWC_BITS OR PORT_CEC OR PORT_WAKE_BITS)) = DEV_SUPERSPEED raw"
    "DEV_SUPERSPEED (raw AND NOT (PORT_RWC_BITS OR PORT_WAKE_BITS)) = DEV_SUPERSPEED raw"
    by (simp_all only: DEV_SUPERSPEED_def and.assoc)
qed

lemma resume_allowed:
  "allowed resume_clears (if DEV_SUPERSPEED raw then raw AND NOT (PORT_RWC_BITS OR PORT_CEC OR PORT_WAKE_BITS) else raw AND NOT (PORT_RWC_BITS OR PORT_WAKE_BITS))"
proof -
  have m: "NOT (PORT_RWC_BITS OR PORT_CEC OR PORT_WAKE_BITS) AND XHCI_PORT_RW1CS = 0"
    "NOT (PORT_RWC_BITS OR PORT_WAKE_BITS) AND XHCI_PORT_RW1CS = PORT_CEC" "PORT_CEC AND NOT (PORT_PLC OR PORT_CEC) = 0"
    by (simp_all add: portsc_bits)
  show ?thesis
  proof (cases "DEV_SUPERSPEED raw")
    case True
    show ?thesis unfolding if_P [OF True] by (rule allowed_none, rule cleared_mask [OF m(1)])
  next
    case False
    then have s: "\<not> DEV_SUPERSPEED (raw AND NOT (PORT_RWC_BITS OR PORT_WAKE_BITS))" using resume_speed(2) by blast
    have "cleared (raw AND NOT (PORT_RWC_BITS OR PORT_WAKE_BITS)) AND NOT (PORT_PLC OR PORT_CEC) = 0"
      by (simp only: cleared_def and.assoc m(2)) (metis and.assoc m(2,3) and_zero_eq)
    then show ?thesis unfolding if_not_P [OF False] allowed_def resume_clears_def if_not_P [OF s] .
  qed
qed

lemma plc_allowed: "PORT_PLC AND NOT (A True) = 0 \<Longrightarrow> PORT_PLC AND NOT (A False) = 0 \<Longrightarrow> allowed A (ehub_xhci_port_state_to_neutral v OR PORT_PLC)"
  by (cases "DEV_SUPERSPEED (ehub_xhci_port_state_to_neutral v OR PORT_PLC)") (simp_all add: allowed_def)

lemma resume_port_clears:
  assumes "resume_port k E i h = Some h'"
  shows "clears resume_clears h h'"
proof -
  have a: "allowed resume_clears (ehub_xhci_port_state_to_neutral v OR PORT_PLC)" for v
    by (rule plc_allowed) (simp_all add: resume_clears_def portsc_bits)
  obtain addr raw h1 where r: "port_addr h i = Some addr" "hub_readl k addr h = Some (raw, h1)"
    using assms by (auto simp: resume_port_def elim!: bind_eq_SomeE)
  let ?t = "if DEV_SUPERSPEED raw then raw AND NOT (PORT_RWC_BITS OR PORT_CEC OR PORT_WAKE_BITS) else raw AND NOT (PORT_RWC_BITS OR PORT_WAKE_BITS)"
  note body = assms [unfolded resume_port_def, simplified r Let_def bind.bind_lunit prod.case]
  have "clears resume_clears h1 h'"
  proof (cases "bit (bus_suspended (rh_bus h1)) i \<and> ?t AND PORT_PLS_MASK \<noteq> 0")
    case True
    obtain h2 h3 h4 where s: "resume_to_u0 k E (DEV_SUPERSPEED ?t) i h1 = Some h2" "sleep_unlocked E h2 = Some h3"
      "ehub_xhci_test_and_clear_bit k i PORT_PLC h3 = Some h4" "h' = h4 \<or> (\<exists>slot. with_hc (ehub_xhci_ring_device k slot) h4 = Some h')"
      using body unfolding if_P [OF True] by (elim bind_eq_SomeE) (metis option.inject)
    have "clears resume_clears h1 h2" "clears resume_clears h2 h3" "clears resume_clears h3 h4" "clears resume_clears h4 h'"
      using s resume_to_u0_clears sleep_clears test_and_clear_clears [OF _ a] with_hc_clears by auto
    then show ?thesis by (meson clears_trans)
  next
    case False
    show ?thesis using body unfolding if_not_P [OF False] by (rule port_writel_clears) (rule resume_allowed)
  qed
  then show ?thesis using readl_clears [OF r(2)] clears_trans by blast
qed

lemma resume_ports_clears: "resume_ports k E is h = Some h' \<Longrightarrow> clears resume_clears h h'"
  by (induction "is" arbitrary: h) (auto elim!: bind_eq_SomeE dest!: resume_port_clears intro: clears_trans)

lemma scan_changes_clears: "scan_changes k E is buf st rc h = Some (buf', st', rc', f, h') \<Longrightarrow> clears A h h'"
proof (induction "is" arbitrary: h buf st rc)
  case (Cons i "is")
  from Cons.prems show ?case
    by (auto simp: Let_def split: if_splits elim!: bind_eq_SomeE dest!: clears_dest [where A = A] Cons.IH intro: clears_trans)
qed simp

text \<open>The log alone, for operations that take the semaphore themselves.\<close>

definition logs :: "port_bits \<Rightarrow> root_hub \<Rightarrow> root_hub \<Rightarrow> bool" where
  "logs A h h' \<longleftrightarrow> (\<exists>new. port_log h' = port_log h @ new \<and> (\<forall>w \<in> set new. allowed A (snd w)))"

lemma logs_trans: "logs A h h1 \<Longrightarrow> logs A h1 h2 \<Longrightarrow> logs A h h2"
  unfolding logs_def by (metis (no_types, lifting) Un_iff append_assoc set_append)

lemma clears_logs: "clears A h h' \<Longrightarrow> logs A h h'"
  by (auto simp: clears_def logs_def)

lemma logs_simps [simp]:
  "logs A h h" "logs A h (xhci_reg_unlock h') = logs A h h'" "logs A (h\<lparr>rh_hc := c\<rparr>) h' = logs A h h'"
  "logs A h (h'\<lparr>rh_hc := c\<rparr>) = logs A h h'" "logs A h (h'\<lparr>status_urb := b, status_log := l\<rparr>) = logs A h h'" "logs A h (h'\<lparr>poll_rh := b\<rparr>) = logs A h h'"
  "logs A h (put_bus f h') = logs A h h'" "logs A (put_bus f h) h' = logs A h h'" "logs A h (h'\<lparr>hcd_suspended := b\<rparr>) = logs A h h'"
  "logs A h (h'\<lparr>hub_notes := ns\<rparr>) = logs A h h'" "logs A (h\<lparr>hub_notes := ns\<rparr>) h' = logs A h h'"
  by (simp_all add: logs_def xhci_reg_unlock_def put_bus_def)

lemma reg_lock_logs: "xhci_reg_lock h = Some h' \<Longrightarrow> logs A h h'"
  by (auto simp: xhci_reg_lock_def logs_def split: if_splits)

lemma hub_status_data_logs: "ehub_xhci_hub_status_data k E h = Some (ret, buf, h') \<Longrightarrow> logs A h h'"
  by (auto simp: ehub_xhci_hub_status_data_def Let_def split: if_splits elim!: bind_eq_SomeE
      dest!: reg_lock_logs [where A = A] scan_changes_clears [where A = A, THEN clears_logs] intro: logs_trans)

lemma bus_suspend_logs: "ehub_xhci_bus_suspend k E B wait wakeup h = Some (ret, h') \<Longrightarrow> logs A h h'"
  by (auto simp: ehub_xhci_bus_suspend_def Let_def split: if_splits elim!: bind_eq_SomeE
      dest!: reg_lock_logs [where A = A] suspend_ports_clears [where A = A, THEN clears_logs]; meson logs_trans)

lemma bus_resume_logs: "ehub_xhci_bus_resume k E B acc h = Some (ret, h') \<Longrightarrow> logs resume_clears h h'"
  by (auto simp: ehub_xhci_bus_resume_def Let_def split: if_splits elim!: bind_eq_SomeE
      dest!: reg_lock_logs [where A = resume_clears] resume_ports_clears [THEN clears_logs] others_clears [where A = resume_clears, THEN clears_logs]
        readl_clears [where A = resume_clears, THEN clears_logs] writel_clears [where A = resume_clears, THEN clears_logs]; meson logs_trans)

lemma plc_clears: "ehub_xhci_test_and_clear_bit k w PORT_PLC h = Some h' \<Longrightarrow> clears (\<lambda>_. PORT_PLC) h h'"
  by (rule test_and_clear_clears, assumption) (simp add: plc_allowed)

lemma port_resuming_clears: "port_resuming k E B w temp h = Some (r, h') \<Longrightarrow> clears (\<lambda>_. PORT_PLC) h h'"
  by (auto simp: port_resuming_def Let_def split: if_splits elim!: bind_eq_SomeE dest!: plc_clears clears_dest [where A = "\<lambda>_. PORT_PLC"]; meson clears_trans)

lemma ss_port_resumed_clears: "ss_port_resumed k w h = Some (r, h') \<Longrightarrow> clears (\<lambda>_. PORT_PLC) h h'"
  by (auto simp: ss_port_resumed_def Let_def split: if_splits elim!: bind_eq_SomeE dest!: plc_clears clears_dest [where A = "\<lambda>_. PORT_PLC"]; meson clears_trans)

lemma port_event_clears: "port_event k E B w temp h = Some (b, h') \<Longrightarrow> clears (\<lambda>_. PORT_PLC) h h'"
  by (auto simp: port_event_def Let_def split: if_splits option.splits elim!: bind_eq_SomeE
      dest!: port_resuming_clears ss_port_resumed_clears plc_clears; meson clears_trans)
lemma tell_core_logs: "tell_core k E notify h = Some h' \<Longrightarrow> logs A h h'"
  by (auto simp: tell_core_def Let_def split: if_splits elim!: bind_eq_SomeE dest!: hub_status_data_logs [where A = A])

lemma handle_port_status_logs:
  assumes "handle_port_status k E B ev h = Some h'"
  shows "logs (\<lambda>_. PORT_PLC) h h'"
  using assms
  by (auto simp: handle_port_status_def Let_def split: if_splits elim!: bind_eq_SomeE
      dest!: tell_core_logs [where A = "\<lambda>_. PORT_PLC"] port_event_clears [THEN clears_logs] readl_clears [where A = "\<lambda>_. PORT_PLC", THEN clears_logs];
      meson logs_trans)

text \<open>The operations of the hub, with the bits each may clear in a port register.\<close>

inductive hub_step :: "env \<Rightarrow> hub_env \<Rightarrow> hub_params \<Rightarrow> port_bits \<Rightarrow> root_hub \<Rightarrow> root_hub \<Rightarrow> bool" for k E B where
  Request: "ehub_xhci_hub_control k E B wait desc typeReq wVal wIdx wLen h = Some (ret, reply, h') \<Longrightarrow> hub_step k E B (\<lambda>_. may_clear typeReq wVal wIdx) h h'"
| Status: "ehub_xhci_hub_status_data k E h = Some (ret, buf, h') \<Longrightarrow> hub_step k E B (\<lambda>_. 0) h h'"
| Bus_Suspend: "ehub_xhci_bus_suspend k E B wait wakeup h = Some (ret, h') \<Longrightarrow> hub_step k E B (\<lambda>_. 0) h h'"
| Bus_Resume: "ehub_xhci_bus_resume k E B acc h = Some (ret, h') \<Longrightarrow> hub_step k E B resume_clears h h'"
| Port_Event: "handle_port_status k E B ev h = Some h' \<Longrightarrow> hub_step k E B (\<lambda>_. PORT_PLC) h h'"

lemma hub_control_logs:
  assumes "ehub_xhci_hub_control k E B wait desc typeReq wVal wIdx wLen h = Some (ret, reply, h')"
  shows "logs (\<lambda>_. may_clear typeReq wVal wIdx) h h'"
  using assms
  by (auto simp: ehub_xhci_hub_control_def elim!: bind_eq_SomeE
      dest!: reg_lock_logs [where A = "\<lambda>_. may_clear typeReq wVal wIdx"] hub_request_clears [THEN clears_logs] intro: logs_trans)

lemma hub_step_logs: "hub_step k E B A h h' \<Longrightarrow> logs A h h'"
  by (cases rule: hub_step.cases, assumption)
    (auto dest: hub_control_logs hub_status_data_logs bus_suspend_logs bus_resume_logs handle_port_status_logs)

text \<open>Bits \<open>M\<close> that no operation of a sequence may clear.\<close>

definition spares :: "port_bits \<Rightarrow> port_bits \<Rightarrow> bool" where
  "spares A M \<longleftrightarrow> (\<forall>superspeed. A superspeed AND M superspeed = 0)"

lemma logs_mono:
  assumes "logs A h h'" and "spares A M"
  shows "logs (\<lambda>s. NOT (M s)) h h'"
proof -
  have "v AND NOT (NOT m) = 0" if "v AND NOT a = 0" "a AND m = 0" for v a m :: u32
  proof (rule bit_word_eqI)
    fix n assume "n < LENGTH(32)"
    then have "\<not> (bit v n \<and> \<not> bit a n)" "\<not> (bit a n \<and> bit m n)"
      using that by (metis bit_and_iff bit_not_iff bit_0_eq bot_apply bot_bool_def possible_bit_word)+
    then show "bit (v AND NOT (NOT m)) n = bit 0 n" by (auto simp: bit_and_iff)
  qed
  then have "allowed (\<lambda>s. NOT (M s)) v" if "allowed A v" for v using that assms(2) by (auto simp: allowed_def spares_def)
  then show ?thesis using assms(1) by (auto simp: logs_def)
qed

text \<open>
  C4. No change of a port is lost between the driver and the USB core: over any sequence of hub
  requests, status polls, suspends and resumes of the bus and port status events, with what runs
  while they sleep, a change bit (or the enable bit) that none of these operations is there to clear is
  left alone by every write to every port register, whatever the register holds by then. A request
  clears the change it names, the enable bit when it disables the port, and everything only when it puts
  the link into the disabled state; a port status event clears the link state change at most; the
  resume of the bus clears the link state change and, only on a port that shows no SuperSpeed device,
  the configuration error. The bits may be chosen for SuperSpeed ports and the others apart.
\<close>

theorem port_changes_kept:
  assumes "(\<lambda>h h'. \<exists>A. hub_step k E B A h h' \<and> spares A M)\<^sup>*\<^sup>* h h'"
    and "\<forall>superspeed. M superspeed AND NOT XHCI_PORT_RW1CS = 0"
  shows "\<exists>new. port_log h' = port_log h @ new \<and> (\<forall>(port, val) \<in> set new. \<forall>cur.
    portsc_after cur val AND M (DEV_SUPERSPEED val) = cur AND M (DEV_SUPERSPEED val))"
proof -
  have "logs (\<lambda>s. NOT (M s)) h h'"
    using assms(1)
  proof (induction rule: rtranclp_induct)
    case (step h1 h2)
    then obtain A where "hub_step k E B A h1 h2" "spares A M" by blast
    then show ?case using logs_trans [OF step.IH] logs_mono [OF hub_step_logs] by blast
  qed simp
  moreover have m: "XHCI_PORT_RW1CS AND M s = M s" for s
  proof (rule bit_word_eqI)
    fix n assume "n < LENGTH(32)"
    then have "\<not> (bit (M s) n \<and> \<not> bit XHCI_PORT_RW1CS n)"
      using assms(2) by (metis bit_and_iff bit_not_iff bit_0_eq bot_apply bot_bool_def possible_bit_word)
    then show "bit (XHCI_PORT_RW1CS AND M s) n = bit (M s) n" by (auto simp: bit_and_iff)
  qed
  have "portsc_after cur v AND M (DEV_SUPERSPEED v) = cur AND M (DEV_SUPERSPEED v)" if "allowed (\<lambda>s. NOT (M s)) v" for cur v
    using portsc_after_keeps [OF that [unfolded allowed_def], of cur] by (simp add: and.assoc m)
  ultimately show ?thesis by (fastforce simp: logs_def)
qed

text \<open>A request that clears the connection change, then the resume of the bus: the overcurrent change is
  kept on every port and the configuration error on SuperSpeed ports.\<close>

definition kept_bits :: port_bits where
  "kept_bits superspeed = (if superspeed then PORT_OCC OR PORT_CEC else PORT_OCC)"

lemma resume_demo_run:
  "map_option (\<lambda>(ret, h). (ret, port_log h)) (do {
     (_, _, h) \<leftarrow> ehub_xhci_hub_control quiet_env hub_demo_env hub_demo_params (\<lambda>_ c. Some c) hub_demo_desc
       ClearPortFeature USB_PORT_FEAT_C_CONNECTION 1 0 port_hub;
     ehub_xhci_bus_resume quiet_env hub_demo_env hub_demo_params True h }) = Some (0, [(0x440, PORT_CSC), (0x440, 0)])"
  by code_simp

theorem port_changes_kept_witness:
  "\<exists>h. (\<exists>reply h1. ehub_xhci_hub_control quiet_env hub_demo_env hub_demo_params (\<lambda>_ c. Some c) hub_demo_desc
         ClearPortFeature USB_PORT_FEAT_C_CONNECTION 1 0 port_hub = Some (0, reply, h1)
       \<and> ehub_xhci_bus_resume quiet_env hub_demo_env hub_demo_params True h1 = Some (0, h))
     \<and> port_log h = [(0x440, PORT_CSC), (0x440, 0)] \<and> (\<forall>cur. portsc_after cur PORT_CSC AND PORT_OCC = cur AND PORT_OCC)"
proof -
  obtain reply h1 h where r: "ehub_xhci_hub_control quiet_env hub_demo_env hub_demo_params (\<lambda>_ c. Some c) hub_demo_desc
       ClearPortFeature USB_PORT_FEAT_C_CONNECTION 1 0 port_hub = Some (0, reply, h1)"
    "ehub_xhci_bus_resume quiet_env hub_demo_env hub_demo_params True h1 = Some (0, h)" "port_log h = [(0x440, PORT_CSC), (0x440, 0)]"
    using hub_demo_run resume_demo_run by (auto split: prod.splits elim!: bind_eq_SomeE)
  have a: "spares (\<lambda>_. may_clear ClearPortFeature USB_PORT_FEAT_C_CONNECTION 1) kept_bits"
    by (simp add: spares_def kept_bits_def may_clear_def change_bit_def USB_PORT_FEAT_C_CONNECTION_def USB_PORT_FEAT_C_RESET_def USB_PORT_FEAT_C_BH_PORT_RESET_def portsc_bits)
  have b: "spares resume_clears kept_bits" "\<forall>s. kept_bits s AND NOT XHCI_PORT_RW1CS = 0" "\<not> DEV_SUPERSPEED PORT_CSC" "port_log port_hub = []"
    by (simp_all add: spares_def kept_bits_def resume_clears_def portsc_bits DEV_SUPERSPEED_def XDEV_SS_def port_hub_def)
  have "(\<lambda>h h'. \<exists>A. hub_step quiet_env hub_demo_env hub_demo_params A h h' \<and> spares A kept_bits)\<^sup>*\<^sup>* port_hub h"
    using Request [OF r(1)] Bus_Resume [OF r(2)] a b(1) by (blast intro: rtranclp.rtrancl_into_rtrancl)
  from port_changes_kept [OF this b(2)] have "\<forall>cur. portsc_after cur PORT_CSC AND PORT_OCC = cur AND PORT_OCC"
    using r(3) b(3,4) by (auto simp: kept_bits_def)
  then show ?thesis using r by blast
qed

end
