(* ===== verification/Xhci_Port_Props.thy ===== *)
theory Xhci_Port_Props
  imports Xhci_Hub_Props
begin

text \<open>
  The two arrays of ports: every port of the controller is found under the number that the port
  status events use for it, if the arrays can be built at all.
\<close>
section \<open>Numbering of the ports\<close>

text \<open>A port that belongs to the hub of its kind.\<close>

definition of_kind :: "bool \<Rightarrow> u8 \<Rightarrow> bool" where
  "of_kind usb3 p \<longleftrightarrow> p \<noteq> 0 \<and> p \<noteq> DUPLICATE_ENTRY \<and> (p = 3) = usb3"

lemma kind_cases: "is_usb2 p = of_kind False p" "(p = 3) = of_kind True p"
  by (auto simp: is_usb2_def of_kind_def DUPLICATE_ENTRY_def)

lemma similar_append: "similar_ports u (ps @ qs) = similar_ports u ps + similar_ports u qs"
  by (induction ps) auto

lemma similar_Suc: "i < length pa \<Longrightarrow> similar_ports u (take (Suc i) pa) = similar_ports u (take i pa) + of_bool (of_kind u (pa ! i))"
  by (auto simp: take_Suc_conv_app_nth similar_append of_kind_def)

lemma similar_mono: "i \<le> j \<Longrightarrow> similar_ports u (take i pa) \<le> similar_ports u (take j pa)"
  by (metis le_add1 similar_append le_iff_add take_add)

text \<open>The entries of the ports from \<open>i0\<close> on are at their numbers.\<close>

definition numbered :: "bool \<Rightarrow> hub_params \<Rightarrow> u8 list \<Rightarrow> u32 option list \<Rightarrow> nat \<Rightarrow> nat \<Rightarrow> bool" where
  "numbered u B pa ports i0 n \<longleftrightarrow> (\<forall>i. i0 \<le> i \<and> i < n \<and> of_kind u (pa ! i) \<and> similar_ports u (take i pa) < length ports
     \<longrightarrow> ports ! similar_ports u (take i pa) = Some (portsc_addr B i))"

lemma numbered_step:
  assumes "numbered u B pa ports (Suc i0) n" and "of_kind u (pa ! i0) \<Longrightarrow> ports ! similar_ports u (take i0 pa) = Some (portsc_addr B i0)"
  shows "numbered u B pa ports i0 n"
  unfolding numbered_def
proof (intro allI impI)
  fix i assume a: "i0 \<le> i \<and> i < n \<and> of_kind u (pa ! i) \<and> similar_ports u (take i pa) < length ports"
  show "ports ! similar_ports u (take i pa) = Some (portsc_addr B i)"
    using a assms by (cases "i = i0") (auto simp: numbered_def)
qed

lemma numbered_end:
  assumes "i0 < length pa" and "of_kind u (pa ! i0)" and "Suc (similar_ports u (take i0 pa)) = length ports"
    and "ports ! similar_ports u (take i0 pa) = Some (portsc_addr B i0)"
  shows "numbered u B pa ports i0 n"
proof -
  have "i = i0" if "i0 \<le> i" "similar_ports u (take i pa) < length ports" for i
  proof (rule ccontr)
    assume "i \<noteq> i0"
    then have "similar_ports u (take (Suc i0) pa) \<le> similar_ports u (take i pa)" using that(1) by (intro similar_mono) auto
    then show False using similar_Suc [OF assms(1), of u] assms(2,3) that(2) by simp
  qed
  then show ?thesis using assms(4) by (auto simp: numbered_def)
qed

text \<open>What both loops build.\<close>

fun place :: "bool \<Rightarrow> hub_params \<Rightarrow> u8 list \<Rightarrow> nat list \<Rightarrow> nat \<Rightarrow> u32 option list \<Rightarrow> u32 option list" where
  "place u B pa [] x ports = ports"
| "place u B pa (i # is) x ports =
     (if \<not> of_kind u (pa ! i) then place u B pa is x ports
      else if Suc x = length ports then ports[x := Some (portsc_addr B i)]
      else place u B pa is (Suc x) (ports[x := Some (portsc_addr B i)]))"

lemma place_keeps: "length (place u B pa is x ports) = length ports" "j < x \<Longrightarrow> place u B pa is x ports ! j = ports ! j"
  by (induction "is" arbitrary: x ports) auto

lemma place_numbered:
  assumes "n \<le> length pa" and "x = similar_ports u (take i0 pa)" and "x < length ports"
  shows "numbered u B pa (place u B pa [i0..<n] x ports) i0 n"
  using assms
proof (induction "n - i0" arbitrary: i0 x ports)
  case 0
  then show ?case by (auto simp: numbered_def)
next
  case (Suc m)
  let ?p = "place u B pa [i0..<n] x ports" and ?q = "ports[x := Some (portsc_addr B i0)]"
  have l: "[i0..<n] = i0 # [Suc i0..<n]" "m = n - Suc i0" "i0 < length pa" using Suc.hyps(2) Suc.prems(1) by (auto simp: upt_rec)
  note s = similar_Suc [OF l(3), of u]
  show ?case
  proof (cases "of_kind u (pa ! i0)")
    case False
    then have "numbered u B pa ?p (Suc i0) n" using Suc.hyps(1) [OF l(2) Suc.prems(1) _ Suc.prems(3)] s l(1) Suc.prems(2) by simp
    then show ?thesis by (rule numbered_step) (use False in contradiction)
  next
    case k: True
    show ?thesis
    proof (cases "Suc x = length ports")
      case True
      then show ?thesis using k l(1,3) Suc.prems(2,3) by (intro numbered_end) simp_all
    next
      case False
      then have p: "?p = place u B pa [Suc i0..<n] (Suc x) ?q" using k l(1) by simp
      have "numbered u B pa ?p (Suc i0) n" unfolding p using Suc.hyps(1) [OF l(2) Suc.prems(1), of "Suc x" ?q] s k Suc.prems(2,3) False by simp
      moreover have "?p ! x = Some (portsc_addr B i0)" unfolding p using place_keeps(2) [of x "Suc x"] Suc.prems(3) by simp
      ultimately show ?thesis using numbered_step Suc.prems(2) by blast
    qed
  qed
qed

lemma fill_usb3_place:
  assumes "fill_usb3 B is x h = Some h'" and "length (usb3_ports h) = unat (num_usb3_ports h)"
  shows "h' = h\<lparr>usb3_ports := place True B (port_array h) is x (usb3_ports h)\<rparr>"
  using assms
proof (induction "is" arbitrary: x h)
  case (Cons i "is")
  from Cons.prems show ?case
    by (auto simp: nth_opt_def Let_def kind_cases split: if_splits elim!: bind_eq_SomeE dest!: Cons.IH)
qed simp

text \<open>What discovery leaves alone when it fills the array of the USB 2 hub.\<close>

definition same_usb3 :: "root_hub \<Rightarrow> root_hub \<Rightarrow> bool" where
  "same_usb3 h h' \<longleftrightarrow> port_array h' = port_array h \<and> num_usb2_ports h' = num_usb2_ports h \<and> num_usb3_ports h' = num_usb3_ports h"

lemma readl_same: "hub_readl k addr h = Some (v, h') \<Longrightarrow> same_usb3 h h' \<and> usb2_ports h' = usb2_ports h"
  by (auto simp: hub_readl_def same_usb3_def elim!: bind_eq_SomeE)

lemma fill_usb2_place:
  assumes "fill_usb2 k B is x h = Some h'" and "length (usb2_ports h) = unat (num_usb2_ports h)"
  shows "usb2_ports h' = place False B (port_array h) is x (usb2_ports h) \<and> same_usb3 h h'"
  using assms
proof (induction "is" arbitrary: x h)
  case (Cons i "is")
  from Cons.prems show ?case
    by (auto simp: nth_opt_def Let_def kind_cases same_usb3_def split: if_splits elim!: bind_eq_SomeE dest!: readl_same Cons.IH)
qed (simp add: same_usb3_def)
lemma alloc_same [simp]:
  "same_usb3 h (snd (hub_alloc k h))" "usb2_ports (snd (hub_alloc k h)) = usb2_ports h" "usb3_ports (snd (hub_alloc k h)) = usb3_ports h"
  "port_array (snd (hub_alloc k h)) = port_array h" "num_usb2_ports (snd (hub_alloc k h)) = num_usb2_ports h" "num_usb3_ports (snd (hub_alloc k h)) = num_usb3_ports h"
  by (simp_all add: hub_alloc_def same_usb3_def)

lemma similar_0 [simp]: "similar_ports u (take 0 pa) = 0"
  by simp

lemma build_usb2_numbered:
  assumes "build_usb2 k B n h = Some (0, h')" and "n = length (port_array h)"
  shows "same_usb3 h h' \<and> (num_usb2_ports h \<noteq> 0 \<longrightarrow> length (usb2_ports h') = unat (num_usb2_ports h) \<and> numbered False B (port_array h) (usb2_ports h') 0 n)"
proof (cases "num_usb2_ports h = 0")
  case False
  let ?h = "(snd (hub_alloc k h))\<lparr>usb2_ports := replicate (unat (num_usb2_ports h)) None\<rparr>"
  have "fill_usb2 k B [0..<n] 0 ?h = Some h'" using assms(1) False by (auto simp: build_usb2_def split: prod.splits if_splits) (metis alloc_same(5) snd_conv)
  from fill_usb2_place [OF this] have p: "usb2_ports h' = place False B (port_array h) [0..<n] 0 (replicate (unat (num_usb2_ports h)) None)" "same_usb3 ?h h'"
    by simp_all
  have "numbered False B (port_array h) (usb2_ports h') 0 n" unfolding p(1)
    using assms(2) False by (intro place_numbered) (auto simp: unat_eq_0 unat_gt_0)
  then show ?thesis using p place_keeps(1) by (simp add: same_usb3_def)
qed (use assms in \<open>simp add: build_usb2_def same_usb3_def\<close>)

lemma build_usb3_numbered:
  assumes "build_usb3 k B n h = Some (0, h')" and "n = length (port_array h)"
  shows "same_usb3 h h' \<and> usb2_ports h' = usb2_ports h
     \<and> (num_usb3_ports h \<noteq> 0 \<longrightarrow> length (usb3_ports h') = unat (num_usb3_ports h) \<and> numbered True B (port_array h) (usb3_ports h') 0 n)"
proof (cases "num_usb3_ports h = 0")
  case False
  let ?h = "(snd (hub_alloc k h))\<lparr>usb3_ports := replicate (unat (num_usb3_ports h)) None\<rparr>"
  have "fill_usb3 B [0..<n] 0 ?h = Some h'" using assms(1) False by (auto simp: build_usb3_def split: prod.splits if_splits) (metis alloc_same(6) snd_conv)
  from fill_usb3_place [OF this] have p: "h' = ?h\<lparr>usb3_ports := place True B (port_array h) [0..<n] 0 (replicate (unat (num_usb3_ports h)) None)\<rparr>" by simp
  have "numbered True B (port_array h) (usb3_ports h') 0 n" unfolding p
    using assms(2) False place_numbered [of n "port_array h" 0 True 0 "replicate (unat (num_usb3_ports h)) None" B] by (simp add: unat_gt_0)
  then show ?thesis using p place_keeps(1) by (simp add: same_usb3_def)
qed (use assms in \<open>simp add: build_usb3_def same_usb3_def\<close>)
lemma mark_ports_length: "mark_ports major is h = Some h' \<Longrightarrow> length (port_array h') = length (port_array h)"
proof (induction "is" arbitrary: h)
  case (Cons i "is")
  have "length (port_array h1) = length (port_array h)" if "mark_port major i h = Some h1" for h1
    using that by (auto simp: mark_port_def Let_def split: if_splits elim!: bind_eq_SomeE)
  then show ?case using Cons by (auto elim!: bind_eq_SomeE)
qed simp

lemma add_in_port_length: "xhci_add_in_port k B num_ports addr major caps h = Some h' \<Longrightarrow> length (port_array h') = length (port_array h)"
  by (auto simp: xhci_add_in_port_def Let_def split: if_splits elim!: bind_eq_SomeE dest!: mark_ports_length readl_same simp: same_usb3_def)

lemma scan_caps_length:
  assumes "scan_caps k B num_ports caps addr h = Some r"
  shows "length (port_array (snd r)) = length (port_array h)"
proof (rule scan_caps.raw_induct [OF _ assms, where P = "\<lambda>k B num_ports caps addr h r. length (port_array (snd r)) = length (port_array h)"])
  fix rec k B num_ports caps addr h r
  assume IH: "\<And>k B num_ports caps addr h r. rec k B num_ports caps addr h = Some r \<Longrightarrow> length (port_array (snd r)) = length (port_array h)"
    and "do {
     (cap_id, h1) \<leftarrow> hub_readl k addr h;
     if cap_id = - 1 then Some (- ENOMEM, h1)
     else do {
       h2 \<leftarrow> (if XHCI_EXT_CAPS_ID cap_id = XHCI_EXT_CAPS_PROTOCOL
              then xhci_add_in_port k B num_ports addr (ucast (XHCI_EXT_PORT_MAJOR cap_id)) caps h1 else Some h1);
       let offset = XHCI_EXT_CAPS_NEXT cap_id;
       if offset = 0 \<or> num_usb2_ports h2 + num_usb3_ports h2 = num_ports then Some (0, h2)
       else rec k B num_ports caps (addr + 4 * offset) h2
     }
   } = Some r"
  then show "length (port_array (snd r)) = length (port_array h)"
    by (auto simp: Let_def same_usb3_def split: if_splits elim!: bind_eq_SomeE dest!: readl_same add_in_port_length IH)
qed

lemma count_caps_length:
  assumes "count_caps k addr n h = Some r"
  shows "length (port_array (snd r)) = length (port_array h)"
proof (rule count_caps.raw_induct [OF _ assms, where P = "\<lambda>k addr n h r. length (port_array (snd r)) = length (port_array h)"])
  fix rec k addr n h r
  assume IH: "\<And>k addr n h r. rec k addr n h = Some r \<Longrightarrow> length (port_array (snd r)) = length (port_array h)"
    and "do {
     (cap_id, h1) \<leftarrow> hub_readl k addr h;
     if cap_id = - 1 then Some (None, h1)
     else do {
       let n1 = (if XHCI_EXT_CAPS_ID cap_id = XHCI_EXT_CAPS_PROTOCOL then Suc n else n);
       let offset = XHCI_EXT_CAPS_NEXT cap_id;
       if offset = 0 then Some (Some n1, h1) else rec k (addr + 4 * offset) n1 h1
     }
   } = Some r"
  then show "length (port_array (snd r)) = length (port_array h)"
    by (auto simp: Let_def same_usb3_def split: if_splits elim!: bind_eq_SomeE dest!: readl_same IH)
qed
lemma build_hubs_numbered:
  assumes "build_hubs k B n h = Some (0, h')" and "n = length (port_array h)"
  shows "length (port_array h') = n"
    and "num_usb2_ports h' \<noteq> 0 \<Longrightarrow> length (usb2_ports h') = unat (num_usb2_ports h') \<and> numbered False B (port_array h') (usb2_ports h') 0 n"
    and "num_usb3_ports h' \<noteq> 0 \<Longrightarrow> length (usb3_ports h') = unat (num_usb3_ports h') \<and> numbered True B (port_array h') (usb3_ports h') 0 n"
proof -
  let ?l = "limit_ports h"
  have l: "port_array ?l = port_array h" by (simp add: limit_ports_def)
  obtain h1 ret where r: "build_usb2 k B n ?l = Some (ret, h1)" "if ret < 0 then ret = 0 \<and> h1 = h' else build_usb3 k B n h1 = Some (0, h')"
    using assms(1) by (auto simp: build_hubs_def split: if_splits elim!: bind_eq_SomeE)
  have "ret = 0" using r by (auto simp: build_usb2_def split: if_splits prod.splits)
  then have b: "build_usb2 k B n ?l = Some (0, h1)" "build_usb3 k B n h1 = Some (0, h')" using r by auto
  have 2: "same_usb3 ?l h1" "num_usb2_ports ?l \<noteq> 0 \<Longrightarrow> length (usb2_ports h1) = unat (num_usb2_ports ?l) \<and> numbered False B (port_array ?l) (usb2_ports h1) 0 n"
    using build_usb2_numbered [OF b(1)] assms(2) l by auto
  have "n = length (port_array h1)" using 2(1) assms(2) l by (simp add: same_usb3_def)
  note 3 = build_usb3_numbered [OF b(2) this]
  show "length (port_array h') = n"
    "num_usb2_ports h' \<noteq> 0 \<Longrightarrow> length (usb2_ports h') = unat (num_usb2_ports h') \<and> numbered False B (port_array h') (usb2_ports h') 0 n"
    "num_usb3_ports h' \<noteq> 0 \<Longrightarrow> length (usb3_ports h') = unat (num_usb3_ports h') \<and> numbered True B (port_array h') (usb3_ports h') 0 n"
    using 2 3 l assms(2) by (auto simp: same_usb3_def)
qed

lemma setup_builds:
  assumes "xhci_setup_port_arrays k B h = Some (0, h')"
  shows "\<exists>h7. length (port_array h7) = unat (HCS_MAX_PORTS (hcs_params1 B)) \<and> build_hubs k B (unat (HCS_MAX_PORTS (hcs_params1 B))) h7 = Some (0, h')"
  using assms
  by (auto simp: xhci_setup_port_arrays_def hub_alloc_def Let_def split: if_splits prod.splits option.splits elim!: bind_eq_SomeE
      dest!: count_caps_length scan_caps_length; blast)

text \<open>
  C5. The root hub numbers its ports consistently: after the discovery of the ports has succeeded, the
  number that a port status event computes for a port of the controller leads, in the array of its
  hub, to the registers of that very port, for every port of a known kind within the limits of the
  hub, whatever duplicate and unknown entries the capabilities hold.
\<close>

theorem port_numbers_agree:
  assumes "xhci_setup_port_arrays k B h = Some (0, h')" and "0 < port_id" and "port_id \<le> HCS_MAX_PORTS (hcs_params1 B)"
    and "of_kind (rh_usb3 h') (port_array h' ! (unat port_id - 1))"
    and "find_faked_portnum_from_hw_portnum port_id h' = Some w" and "w < unat (max_ports h')"
  shows "port_addr h' w = Some (portsc_addr B (unat port_id - 1))"
proof -
  let ?n = "unat (HCS_MAX_PORTS (hcs_params1 B))" and ?i = "unat port_id - 1"
  obtain h7 where "?n = length (port_array h7)" "build_hubs k B ?n h7 = Some (0, h')" using setup_builds [OF assms(1)] by metis
  note b = build_hubs_numbered [OF this(2,1)]
  have u: "unat (port_id - 1) = ?i" "?i < ?n" using assms(2,3) by (auto simp: unat_sub word_le_nat_alt word_less_nat_alt)
  then have w: "w = similar_ports (rh_usb3 h') (take ?i (port_array h'))" using assms(5) by (auto simp: find_faked_portnum_from_hw_portnum_def split: if_splits)
  show ?thesis
  proof (cases "rh_usb3 h'")
    case True
    then have "num_usb3_ports h' \<noteq> 0" using assms(6) by (auto simp: max_ports_def)
    from b(3) [OF this] show ?thesis
      using True w u(2) assms(4,6) by (auto simp: numbered_def port_addr_def hub_ports_def max_ports_def nth_opt_def)
  next
    case False
    then have "num_usb2_ports h' \<noteq> 0" using assms(6) by (auto simp: max_ports_def)
    from b(2) [OF this] show ?thesis
      using False w u(2) assms(4,6) by (auto simp: numbered_def port_addr_def hub_ports_def max_ports_def nth_opt_def)
  qed
qed
text \<open>A controller with three ports behind the bus, one of them USB 3, that answers the reads of its
  registers: the list of capabilities starts at byte 0x80 and has two entries.\<close>

definition controller_regs :: "(u32 \<times> u32) list" where
  "controller_regs = [(0x10, 0x00200000), (0x80, 0x02000402), (0x88, 0x0201), (0x90, 0x03000002), (0x98, 0x0103)]"

definition answering :: "ehub \<Rightarrow> ehub" where
  "answering s = (if usb_log s = [] then s
     else case List.find (\<lambda>(a, _). take 4 (snd (last (usb_log s))) = le32 (register_read_command a)) controller_regs of
       None \<Rightarrow> s\<lparr>DataEmbeddedRegisterRead := 0\<rparr>
     | Some (_, v) \<Rightarrow> s\<lparr>DataEmbeddedRegisterRead := v\<rparr>)"

definition controller_env :: env where
  "controller_env = quiet_env\<lparr>other_contexts := (\<lambda>_ s. answering s)\<rparr>"

definition new_hub :: root_hub where
  "new_hub = port_hub\<lparr>num_usb2_ports := 0, usb2_ports := [], port_array := [], usb2_port_removable := replicate 127 False\<rparr>"

definition controller_params :: hub_params where
  "controller_params = hub_demo_params\<lparr>hcs_params1 := 0x3000000\<rparr>"
lemma controller_run:
  "map_option (\<lambda>(ret, h). (ret, port_array h, max_ports h, find_faked_portnum_from_hw_portnum 2 h, rh_usb3 h))
     (xhci_setup_port_arrays controller_env controller_params new_hub) = Some (0, [2, 2, 3], 2, Some 1, False)"
  by code_simp

theorem port_numbers_agree_witness:
  "\<exists>h'. xhci_setup_port_arrays controller_env controller_params new_hub = Some (0, h')
     \<and> find_faked_portnum_from_hw_portnum 2 h' = Some 1 \<and> port_addr h' 1 = Some 0x450"
proof -
  obtain h' where r: "xhci_setup_port_arrays controller_env controller_params new_hub = Some (0, h')" "port_array h' = [2, 2, 3]" "max_ports h' = 2"
    "find_faked_portnum_from_hw_portnum 2 h' = Some 1" "\<not> rh_usb3 h'"
    using controller_run by (auto split: prod.splits)
  have "port_addr h' 1 = Some (portsc_addr controller_params (unat (2 :: u32) - 1))"
    by (rule port_numbers_agree [OF r(1) _ _ _ r(4)])
      (simp_all add: r controller_params_def HCS_MAX_PORTS_def of_kind_def DUPLICATE_ENTRY_def)
  then show ?thesis using r by (simp add: portsc_addr_def controller_params_def hub_demo_params_def NUM_PORT_REGS_def)
qed

section \<open>USB 2 ports behind other ports\<close>

lemma fill_usb2_prefix:
  assumes "fill_usb2 k B [i0..<n] x h = Some h'" and "length (usb2_ports h) = unat (num_usb2_ports h)" and "x = similar_ports False (take i0 (port_array h))"
    and "x \<le> i0" and "x < length (usb2_ports h)" and "\<forall>j. x \<le> j \<and> j < length (usb2_ports h) \<longrightarrow> usb2_ports h ! j = None"
    and "i0 \<le> i" and "i < n" and "of_kind False (port_array h ! i)" and "similar_ports False (take i (port_array h)) < length (usb2_ports h)"
  shows "similar_ports False (take i (port_array h)) = i"
  using assms
proof (induction "n - i0" arbitrary: i0 x h)
  case 0
  have "False" using 0(1) 0(8,9) by linarith
  then show ?case ..
next
  case (Suc m)
  let ?pa = "port_array h" and ?q = "(usb2_ports h)[x := Some (portsc_addr B i0)]"
  have l: "[i0..<n] = i0 # [Suc i0..<n]" "m = n - Suc i0" using Suc.hyps(2) by (auto simp: upt_rec)
  obtain p where p: "nth_opt ?pa i0 = Some p" using Suc.prems(1) l(1) by (auto elim!: bind_eq_SomeE)
  then have i: "i0 < length ?pa" "p = ?pa ! i0" by (auto simp: nth_opt_def split: if_splits)
  note s = similar_Suc [OF i(1), of False]
  show ?case
  proof (cases "of_kind False p")
    case False
    then have f: "fill_usb2 k B [Suc i0..<n] x h = Some h'" using Suc.prems(1) l(1) p by (simp add: kind_cases)
    have "i \<noteq> i0" using False i Suc.prems(9) by auto
    then show ?thesis using Suc.hyps(1) [OF l(2) f] Suc.prems s False i by simp
  next
    case True
    obtain a h3 where q: "nth_opt ?q i0 = Some (Some a)" "port_array h3 = ?pa" "usb2_ports h3 = ?q" "num_usb2_ports h3 = num_usb2_ports h"
      "Suc x = unat (num_usb2_ports h) \<or> fill_usb2 k B [Suc i0..<n] (Suc x) h3 = Some h'"
    proof -
      obtain a portsc h2 where g: "nth_opt ?q i0 = Some (Some a)" "hub_readl k a (h\<lparr>usb2_ports := ?q\<rparr>) = Some (portsc, h2)"
        "Suc x = unat (num_usb2_ports h2)
           \<or> fill_usb2 k B [Suc i0..<n] (Suc x) (h2\<lparr>usb2_port_removable := (usb2_port_removable h2)[i0 := (portsc AND PORT_DEV_REMOVE \<noteq> 0)]\<rparr>) = Some h'"
        using Suc.prems(1) l(1) p True by (auto simp: kind_cases Let_def split: if_splits elim!: bind_eq_SomeE)
      show ?thesis by (rule that [OF g(1) _ _ _, of "h2\<lparr>usb2_port_removable := (usb2_port_removable h2)[i0 := (portsc AND PORT_DEV_REMOVE \<noteq> 0)]\<rparr>"])
        (use readl_same [OF g(2)] g(3) in \<open>simp_all add: same_usb3_def\<close>)
    qed
    have x: "i0 = x" using q(1) Suc.prems(4,6) by (auto simp: nth_opt_def nth_list_update split: if_splits)
    show ?thesis
    proof (cases "i = i0")
      case False
      have e: "similar_ports False (take (Suc i0) ?pa) = Suc x" using s True i Suc.prems(3) by simp
      have "similar_ports False (take (Suc i0) ?pa) \<le> similar_ports False (take i ?pa)" using False Suc.prems(7) by (intro similar_mono) simp
      then have n: "Suc x \<noteq> unat (num_usb2_ports h)" using e Suc.prems(2,10) by simp
      then have f: "fill_usb2 k B [Suc i0..<n] (Suc x) h3 = Some h'" using q(5) by blast
      have z: "usb2_ports h3 ! j = None" if "Suc x \<le> j" "j < length (usb2_ports h)" for j using Suc.prems(6) that q(3) by simp
      have "similar_ports False (take i (port_array h3)) = i"
        using Suc.prems(2,5,7-10) n e x False z by (intro Suc.hyps(1) [OF l(2) f]) (simp_all add: q(2-4))
      then show ?thesis by (simp only: q(2))
    next
      case True
      show ?thesis unfolding True by (rule trans [OF Suc.prems(3) [symmetric] x [symmetric]])
    qed
  qed
qed
text \<open>
  C33. The loop that fills the array of USB 2 ports reads the removable bit of a port through the entry
  of the array that has the number of the port at the controller, not its number at the hub. So a
  controller on which a port that is not a USB 2 port comes before one makes the discovery read through
  an entry that was never written, or past the array: its behaviour is no longer defined.
\<close>

theorem usb2_port_behind_other_faults:
  assumes "kzalloc k (tick (hcd (rh_hc h)))" and "i < n" and "of_kind False (port_array h ! i)"
    and "similar_ports False (take i (port_array h)) < i" and "similar_ports False (take i (port_array h)) < unat (num_usb2_ports h)"
  shows "build_usb2 k B n h = None"
proof (rule ccontr)
  let ?h = "(snd (hub_alloc k h))\<lparr>usb2_ports := replicate (unat (num_usb2_ports h)) None\<rparr>"
  assume "build_usb2 k B n h \<noteq> None"
  moreover have "num_usb2_ports h \<noteq> 0" using assms(5) by auto
  ultimately obtain h' where f: "fill_usb2 k B [0..<n] 0 ?h = Some h'" using assms(1) by (auto simp: build_usb2_def hub_alloc_def)
  have "similar_ports False (take i (port_array ?h)) = i"
    by (rule fill_usb2_prefix [OF f]) (use assms in simp_all)
  then show False using assms(4) by simp
qed

theorem usb2_port_behind_other_faults_witness:
  "build_usb2 quiet_env hub_demo_params 2 (port_hub\<lparr>port_array := [3, 2], num_usb3_ports := 1\<rparr>) = None"
  by (rule usb2_port_behind_other_faults [where i = 1]) (simp_all add: port_hub_def quiet_env_def of_kind_def DUPLICATE_ENTRY_def)

end
